(* ===== verification/Prelude.thy ===== *)
theory Prelude
  imports Main "HOL-Library.Char_ord" "HOL-Library.List_Lexorder"
begin

text \<open>
  Shared vocabulary of the development: Go strings as byte lists (\<^typ>\<open>string\<close>, one
  \<^typ>\<open>char\<close> per byte of the UTF-8 text), the functions of the packages \<open>strings\<close>,
  \<open>strconv\<close>, \<open>fmt\<close> and \<open>sort\<close> that the modelled code calls, 64-bit wrap-around, Go
  maps as association lists, and the generic lemmas the component theories share.
  Two collections carry the automation: \<open>go_simps\<close> (definitions that evaluate) and
  \<open>map_simps\<close> (look-ups after updates).
\<close>

named_theorems go_simps
named_theorems map_simps

type_synonym gostring = string
type_synonym 'v gomap = "(string \<times> 'v) list"

section \<open>Integers\<close>

text \<open>Go's \<open>int\<close>/\<open>int64\<close> is two's complement with wrap-around; \<open>wrap64\<close> is the value
  an arithmetic result has after it is stored in 64 bits.\<close>

definition wrap64 :: "int \<Rightarrow> int" where
  "wrap64 i = (i + 2 ^ 63) mod 2 ^ 64 - 2 ^ 63"

definition max_int64 :: int where
  "max_int64 = 2 ^ 63 - 1"

lemma wrap64_range: "- (2 ^ 63) \<le> wrap64 i \<and> wrap64 i \<le> max_int64"
proof -
  have "0 \<le> (i + 2 ^ 63) mod 2 ^ 64 \<and> (i + 2 ^ 63) mod 2 ^ 64 < 2 ^ 64" by simp
  then show ?thesis by (simp add: wrap64_def max_int64_def)
qed

lemma wrap64_id: "- (2 ^ 63) \<le> i \<Longrightarrow> i \<le> max_int64 \<Longrightarrow> wrap64 i = i"
  by (simp add: wrap64_def max_int64_def)

text \<open>Decimal rendering, \<open>%d\<close> of \<open>fmt\<close>.\<close>

definition digit_char :: "nat \<Rightarrow> char" where
  "digit_char d = char_of (48 + d)"

fun nat_str :: "nat \<Rightarrow> string" where
  "nat_str n = (if n < 10 then [digit_char n] else nat_str (n div 10) @ [digit_char (n mod 10)])"

declare nat_str.simps [simp del]

definition fmt_d :: "int \<Rightarrow> string" where
  "fmt_d i = (if i < 0 then CHR ''-'' # nat_str (nat (- i)) else nat_str (nat i))"

definition is_digit :: "char \<Rightarrow> bool" where
  "is_digit c \<longleftrightarrow> 48 \<le> (of_char c :: nat) \<and> (of_char c :: nat) \<le> 57"

definition digit_val :: "char \<Rightarrow> nat" where
  "digit_val c = of_char c - 48"

fun digits_val :: "nat \<Rightarrow> string \<Rightarrow> nat" where
  "digits_val acc [] = acc"
| "digits_val acc (c # cs) = digits_val (10 * acc + digit_val c) cs"

lemma of_char_digit [simp]: "d < 10 \<Longrightarrow> (of_char (digit_char d) :: nat) = 48 + d"
  by (simp add: digit_char_def)

lemma digit_char_facts [simp]:
  "d < 10 \<Longrightarrow> is_digit (digit_char d)" "d < 10 \<Longrightarrow> digit_val (digit_char d) = d"
  by (simp_all add: is_digit_def digit_val_def)

lemma digits_val_append: "digits_val a (xs @ ys) = digits_val (digits_val a xs) ys"
  by (induction xs arbitrary: a) auto

lemma nat_str_digits: "list_all is_digit (nat_str n) \<and> nat_str n \<noteq> []"
proof (induction n rule: nat_str.induct)
  case (1 n)
  then show ?case by (subst (1 2) nat_str.simps) auto
qed

lemma digits_val_nat_str: "digits_val 0 (nat_str n) = n"
proof (induction n rule: nat_str.induct)
  case (1 n)
  then show ?case by (subst nat_str.simps) (auto simp: digits_val_append)
qed

lemma nat_str_inject [simp]: "nat_str m = nat_str n \<longleftrightarrow> m = n"
  by (metis digits_val_nat_str)

lemma minus_not_digit [simp]: "\<not> is_digit (CHR ''-'')"
  by (simp add: is_digit_def)

lemma nat_str_no_minus: "nat_str n \<noteq> CHR ''-'' # xs"
proof
  assume "nat_str n = CHR ''-'' # xs"
  with nat_str_digits [of n] show False by simp
qed

lemma fmt_d_inject [simp]: "fmt_d i = fmt_d j \<longleftrightarrow> i = j"
proof
  assume "fmt_d i = fmt_d j"
  then show "i = j"
    using nat_str_no_minus [of "nat i"] nat_str_no_minus [of "nat j"]
    by (auto simp: fmt_d_def split: if_splits dest: sym)
qed simp

text \<open>\<open>strconv.Atoi\<close>: an optional sign and at least one digit; out of range is an error whose
  value saturates (callers that drop the error see the saturated value).\<close>

definition atoi_value :: "string \<Rightarrow> int option" where
  "atoi_value s =
     (let neg = (s \<noteq> [] \<and> hd s = CHR ''-'');
          body = (if s \<noteq> [] \<and> (hd s = CHR ''-'' \<or> hd s = CHR ''+'') then tl s else s)
      in if body = [] \<or> \<not> list_all is_digit body then None
         else Some (if neg then - int (digits_val 0 body) else int (digits_val 0 body)))"

definition strconv_Atoi :: "string \<Rightarrow> int option" where
  "strconv_Atoi s =
     (case atoi_value s of
        None \<Rightarrow> None
      | Some v \<Rightarrow> if - (2 ^ 63) \<le> v \<and> v \<le> max_int64 then Some v else None)"

lemma strconv_Atoi_fmt_d:
  assumes "- (2 ^ 63) \<le> i" "i \<le> max_int64"
  shows "strconv_Atoi (fmt_d i) = Some i"
proof -
  have "hd (nat_str n) \<noteq> CHR ''-'' \<and> hd (nat_str n) \<noteq> CHR ''+''" for n
    using nat_str_digits [of n] by (cases "nat_str n") (auto simp: is_digit_def)
  then have "atoi_value (fmt_d i) = Some i"
    using nat_str_digits by (auto simp: atoi_value_def fmt_d_def Let_def digits_val_nat_str)
  with assms show ?thesis by (simp add: strconv_Atoi_def)
qed

lemma strconv_Atoi_bounds: "strconv_Atoi s = Some v \<Longrightarrow> - (2 ^ 63) \<le> v \<and> v \<le> max_int64"
  by (auto simp: strconv_Atoi_def split: option.splits if_splits)

section \<open>Strings\<close>

definition strings_HasPrefix :: "string \<Rightarrow> string \<Rightarrow> bool" where
  "strings_HasPrefix s p \<longleftrightarrow> take (length p) s = p"

definition strings_HasSuffix :: "string \<Rightarrow> string \<Rightarrow> bool" where
  "strings_HasSuffix s p \<longleftrightarrow> length p \<le> length s \<and> drop (length s - length p) s = p"

definition strings_TrimSuffix :: "string \<Rightarrow> string \<Rightarrow> string" where
  "strings_TrimSuffix s p = (if strings_HasSuffix s p then take (length s - length p) s else s)"

text \<open>\<open>strings.Index\<close> and \<open>strings.LastIndex\<close>; \<open>None\<close> is the \<open>-1\<close> of the library.\<close>

fun strings_Index :: "string \<Rightarrow> string \<Rightarrow> nat option" where
  "strings_Index [] p = (if p = [] then Some 0 else None)"
| "strings_Index (c # cs) p =
     (if strings_HasPrefix (c # cs) p then Some 0 else map_option Suc (strings_Index cs p))"

fun strings_LastIndex :: "string \<Rightarrow> string \<Rightarrow> nat option" where
  "strings_LastIndex [] p = (if p = [] then Some 0 else None)"
| "strings_LastIndex (c # cs) p =
     (case strings_LastIndex cs p of
        Some k \<Rightarrow> Some (Suc k)
      | None \<Rightarrow> if strings_HasPrefix (c # cs) p then Some 0 else None)"

definition strings_Contains :: "string \<Rightarrow> string \<Rightarrow> bool" where
  "strings_Contains s p \<longleftrightarrow> strings_Index s p \<noteq> None"

fun strings_Join :: "string list \<Rightarrow> string \<Rightarrow> string" where
  "strings_Join [] sep = []"
| "strings_Join [s] sep = s"
| "strings_Join (s # t # ts) sep = s @ sep @ strings_Join (t # ts) sep"

text \<open>\<open>strings.Split\<close> for a separator of one byte.\<close>

fun split_on :: "char \<Rightarrow> string \<Rightarrow> string list" where
  "split_on c [] = [[]]"
| "split_on c (x # xs) =
     (if x = c then [] # split_on c xs
      else (case split_on c xs of [] \<Rightarrow> [[x]] | l # ls \<Rightarrow> (x # l) # ls))"

lemma split_on_nonempty: "split_on c s \<noteq> []"
  by (induction s) (auto split: list.splits)

lemma split_on_join: "strings_Join (split_on c s) [c] = s"
proof (induction s)
  case Nil
  then show ?case by simp
next
  case (Cons x xs)
  obtain l ls where "split_on c xs = l # ls" by (metis split_on_nonempty list.exhaust)
  with Cons show ?case by (cases ls) auto
qed

lemma split_on_no_sep: "l \<in> set (split_on c s) \<Longrightarrow> c \<notin> set l"
  by (induction s arbitrary: l) (auto split: if_splits list.splits)

text \<open>\<open>strings.ToUpper\<close> on ASCII; other bytes are kept (no rune outside ASCII is mapped onto one
  of the letters the modelled comparisons look for).\<close>

definition to_upper_char :: "char \<Rightarrow> char" where
  "to_upper_char c =
     (let n = (of_char c :: nat) in if 97 \<le> n \<and> n \<le> 122 then char_of (n - 32) else c)"

definition strings_ToUpper :: "string \<Rightarrow> string" where
  "strings_ToUpper s = map to_upper_char s"

text \<open>\<open>strings.TrimSpace\<close>: the white space of \<open>unicode.IsSpace\<close> in UTF-8, stripped at both
  ends. A prefix (suffix) of a byte string decodes to such a rune exactly when it is that rune's
  encoding.\<close>

definition space_encs :: "string list" where
  "space_encs =
     [[CHR 0x09], [CHR 0x0A], [CHR 0x0B], [CHR 0x0C], [CHR 0x0D], [CHR 0x20],
      [CHR 0xC2, CHR 0x85], [CHR 0xC2, CHR 0xA0], [CHR 0xE1, CHR 0x9A, CHR 0x80],
      [CHR 0xE2, CHR 0x80, CHR 0x80], [CHR 0xE2, CHR 0x80, CHR 0x81],
      [CHR 0xE2, CHR 0x80, CHR 0x82], [CHR 0xE2, CHR 0x80, CHR 0x83],
      [CHR 0xE2, CHR 0x80, CHR 0x84], [CHR 0xE2, CHR 0x80, CHR 0x85],
      [CHR 0xE2, CHR 0x80, CHR 0x86], [CHR 0xE2, CHR 0x80, CHR 0x87],
      [CHR 0xE2, CHR 0x80, CHR 0x88], [CHR 0xE2, CHR 0x80, CHR 0x89],
      [CHR 0xE2, CHR 0x80, CHR 0x8A], [CHR 0xE2, CHR 0x80, CHR 0xA8],
      [CHR 0xE2, CHR 0x80, CHR 0xA9], [CHR 0xE2, CHR 0x80, CHR 0xAF],
      [CHR 0xE2, CHR 0x81, CHR 0x9F], [CHR 0xE3, CHR 0x80, CHR 0x80]]"

definition space_prefix :: "string \<Rightarrow> string option" where
  "space_prefix s = find (strings_HasPrefix s) space_encs"

lemma space_prefix_length: "space_prefix s = Some e \<Longrightarrow> 0 < length e \<and> length e \<le> length s"
  by (auto simp: space_prefix_def find_Some_iff strings_HasPrefix_def space_encs_def
      dest: nth_mem split: if_splits)

function trim_left :: "string \<Rightarrow> string" where
  "trim_left s = (case space_prefix s of None \<Rightarrow> s | Some e \<Rightarrow> trim_left (drop (length e) s))"
  by pat_completeness auto
termination
proof (relation "measure length")
  fix s e
  assume "space_prefix s = Some e"
  from space_prefix_length [OF this] show "(drop (length e) s, s) \<in> measure length"
    by (auto intro: diff_less order.strict_trans2)
qed simp

declare trim_left.simps [simp del]

definition space_suffix :: "string \<Rightarrow> string option" where
  "space_suffix s = find (strings_HasSuffix s) space_encs"

lemma space_suffix_length: "space_suffix s = Some e \<Longrightarrow> 0 < length e \<and> length e \<le> length s"
  by (auto simp: space_suffix_def find_Some_iff strings_HasSuffix_def space_encs_def
      dest: nth_mem split: if_splits)

function trim_right :: "string \<Rightarrow> string" where
  "trim_right s =
     (case space_suffix s of None \<Rightarrow> s | Some e \<Rightarrow> trim_right (take (length s - length e) s))"
  by pat_completeness auto
termination
proof (relation "measure length")
  fix s e
  assume "space_suffix s = Some e"
  from space_suffix_length [OF this] show "(take (length s - length e) s, s) \<in> measure length"
    by (auto intro: diff_less order.strict_trans2)
qed simp

declare trim_right.simps [simp del]

definition strings_TrimSpace :: "string \<Rightarrow> string" where
  "strings_TrimSpace s = trim_right (trim_left s)"

lemma set_trim_left: "set (trim_left s) \<subseteq> set s"
proof (induction s rule: trim_left.induct)
  case (1 s)
  then show ?case
    by (subst trim_left.simps) (auto split: option.split dest: in_set_dropD)
qed

lemma set_trim_right: "set (trim_right s) \<subseteq> set s"
proof (induction s rule: trim_right.induct)
  case (1 s)
  then show ?case
    by (subst trim_right.simps) (auto split: option.split dest: in_set_takeD)
qed

lemma set_TrimSpace: "set (strings_TrimSpace s) \<subseteq> set s"
  using set_trim_left set_trim_right by (fastforce simp: strings_TrimSpace_def)

text \<open>\<open>%q\<close>: \<open>strconv.Quote\<close> on ASCII; bytes of valid printable UTF-8 are kept.\<close>

definition hex_digit :: "nat \<Rightarrow> char" where
  "hex_digit d = (if d < 10 then char_of (48 + d) else char_of (87 + d))"

definition quote_char :: "char \<Rightarrow> string" where
  "quote_char c =
     (let n = (of_char c :: nat) in
      if n = 34 \<or> n = 92 then [CHR 0x5C, c]
      else if n = 7 then [CHR 0x5C, CHR ''a''] else if n = 8 then [CHR 0x5C, CHR ''b'']
      else if n = 12 then [CHR 0x5C, CHR ''f''] else if n = 10 then [CHR 0x5C, CHR ''n'']
      else if n = 13 then [CHR 0x5C, CHR ''r''] else if n = 9 then [CHR 0x5C, CHR ''t'']
      else if n = 11 then [CHR 0x5C, CHR ''v'']
      else if n < 32 \<or> n = 127 then [CHR 0x5C, CHR ''x'', hex_digit (n div 16), hex_digit (n mod 16)]
      else [c])"

definition fmt_q :: "string \<Rightarrow> string" where
  "fmt_q s = CHR 0x22 # concat (map quote_char s) @ [CHR 0x22]"

text \<open>Two characters of the messages that are not ASCII, in UTF-8.\<close>

definition rightwards_arrow :: string where
  "rightwards_arrow = [CHR 0xE2, CHR 0x86, CHR 0x92]"

definition em_dash :: string where
  "em_dash = [CHR 0xE2, CHR 0x80, CHR 0x94]"

text \<open>\<open>sort.Strings\<close> on the keys of a set: sorted in byte order, without duplicates.\<close>

definition sort_strings :: "string list \<Rightarrow> string list" where
  "sort_strings xs = sort (remdups xs)"

lemma sort_strings_props:
  "set (sort_strings xs) = set xs" "sorted (sort_strings xs)" "distinct (sort_strings xs)"
  by (simp_all add: sort_strings_def)

lemma sort_strings_eqI: "set xs = set ys \<Longrightarrow> sort_strings xs = sort_strings ys"
  by (metis sort_strings_props sorted_distinct_set_unique)

lemma sort_strings_Nil_iff [simp]: "sort_strings xs = [] \<longleftrightarrow> xs = []"
  by (metis set_empty sort_strings_props(1))

section \<open>Lists and association lists\<close>

text \<open>Names are cut with \<open>s[:min(n, len(s))]\<close>.\<close>

abbreviation str_prefix :: "nat \<Rightarrow> string \<Rightarrow> string" where
  "str_prefix n s \<equiv> take (min n (length s)) s"

fun assoc_put :: "'k \<Rightarrow> 'v \<Rightarrow> ('k \<times> 'v) list \<Rightarrow> ('k \<times> 'v) list" where
  "assoc_put k v [] = [(k, v)]"
| "assoc_put k v ((k', v') # m) = (if k = k' then (k, v) # m else (k', v') # assoc_put k v m)"

lemma map_of_assoc_put [map_simps]: "map_of (assoc_put k v m) = (map_of m)(k \<mapsto> v)"
  by (induction m) auto

lemma keys_assoc_put: "fst ` set (assoc_put k v m) = insert k (fst ` set m)"
  by (induction m) (force simp: image_iff)+

lemma distinct_assoc_put:
  "distinct (map fst m) \<Longrightarrow> distinct (map fst (assoc_put k v m))"
proof (induction m)
  case (Cons p m)
  then show ?case by (cases p) (simp add: keys_assoc_put)
qed simp

definition assoc_del :: "'k \<Rightarrow> ('k \<times> 'v) list \<Rightarrow> ('k \<times> 'v) list" where
  "assoc_del k m = filter (\<lambda>p. fst p \<noteq> k) m"

lemma map_of_assoc_del [map_simps]: "map_of (assoc_del k m) = (map_of m)(k := None)"
  by (induction m) (auto simp: assoc_del_def)

text \<open>Go's \<open>for i, x := range xs\<close>: the elements with their indices.\<close>

definition indexed :: "'a list \<Rightarrow> (nat \<times> 'a) list" where
  "indexed xs = zip [0..<length xs] xs"

lemma set_indexed: "(i, x) \<in> set (indexed xs) \<longleftrightarrow> i < length xs \<and> xs ! i = x"
  by (auto simp: indexed_def in_set_conv_nth)

lemma length_indexed [simp]: "length (indexed xs) = length xs"
  by (simp add: indexed_def)

lemma indexed_snd: "map snd (indexed xs) = xs"
  by (simp add: indexed_def)

lemma concat_map_Nil_iff: "concat (map f xs) = [] \<longleftrightarrow> (\<forall>x \<in> set xs. f x = [])"
  by auto

lemma find_map_of_first: "find (\<lambda>x. f x = k) xs = Some x \<Longrightarrow> x \<in> set xs \<and> f x = k"
  by (auto simp: find_Some_iff)

lemma list_all2_right: "list_all2 P xs ys \<Longrightarrow> y \<in> set ys \<Longrightarrow> \<exists>x \<in> set xs. P x y"
  by (induction rule: list_all2_induct) auto

section \<open>Transition systems\<close>

text \<open>The contract the stateful components share: a predicate that initial states have and every
  step keeps holds in every state that steps lead to.\<close>

locale invariant_system =
  fixes init :: "'s \<Rightarrow> bool" and step :: "'s \<Rightarrow> 's \<Rightarrow> bool" and inv :: "'s \<Rightarrow> bool"
  assumes init_inv: "init s \<Longrightarrow> inv s"
    and step_inv: "inv s \<Longrightarrow> step s t \<Longrightarrow> inv t"
begin

lemma steps_inv: "step\<^sup>*\<^sup>* s t \<Longrightarrow> inv s \<Longrightarrow> inv t"
  by (induction rule: rtranclp_induct) (auto intro: step_inv)

lemma reachable_inv: "init s \<Longrightarrow> step\<^sup>*\<^sup>* s t \<Longrightarrow> inv t"
  by (blast intro: init_inv steps_inv)

end

text \<open>A relation between states that is a preorder and that every step respects relates the two
  ends of every run; \<open>inv\<close> may be used for it.\<close>

locale monotone_system = invariant_system +
  fixes rel :: "'a \<Rightarrow> 'a \<Rightarrow> bool"
  assumes rel_refl: "rel s s"
    and rel_trans: "rel s t \<Longrightarrow> rel t u \<Longrightarrow> rel s u"
    and step_rel: "inv s \<Longrightarrow> step s t \<Longrightarrow> rel s t"
begin

lemma steps_rel: "step\<^sup>*\<^sup>* s t \<Longrightarrow> inv s \<Longrightarrow> rel s t"
proof (induction rule: rtranclp_induct)
  case base
  show ?case by (rule rel_refl)
next
  case (step t u)
  then show ?case by (blast intro: rel_trans step_rel steps_inv)
qed

end

end
