(* ===== verification/Secrets.thy ===== *)
theory Secrets
  imports Prelude
begin

text \<open>
  The package \<open>pkg/lib/secrets\<close>: the grammar of \<open>$[name]\<close> references, the syntax check
  \<open>Validate\<close> that admission runs on a component's configuration, and \<open>Resolve\<close>, which the
  gateway runs at boot against a provider. Decoded YAML/JSON values are \<open>json\<close> trees; a Go map
  is an association list in the order an iteration visits it. Go errors are their texts. The
  locale \<open>secret_provider\<close> is the contract between \<open>Resolve\<close> and a \<open>Provider\<close>;
  \<open>FileProvider\<close> is its instance.
\<close>

section \<open>Values and references\<close>

text \<open>Numbers are kept as their literal text: the code never looks into them. \<open>JAnyMap\<close> is a
  \<open>map[any]any\<close> with its keys rendered by \<open>%v\<close>.\<close>

datatype json =
    JNull
  | JBool bool
  | JNum string
  | JStr string
  | JArr "json list"
  | JObj "(string \<times> json) list"
  | JAnyMap "(string \<times> json) list"

definition name_char :: "char \<Rightarrow> bool" where
  "name_char c \<longleftrightarrow>
     (let n = (of_char c :: nat) in
      48 \<le> n \<and> n \<le> 57 \<or> 65 \<le> n \<and> n \<le> 90 \<or> 97 \<le> n \<and> n \<le> 122 \<or> n = 95 \<or> n = 45)"

text \<open>\<open>refPattern\<close> and \<open>escapePattern\<close> with their capture group, and \<open>anyRefLike\<close>.\<close>

definition refPattern :: "string \<Rightarrow> string option" where
  "refPattern s =
     (if 4 \<le> length s \<and> take 2 s = ''$['' \<and> last s = CHR '']'' \<and>
         list_all name_char (butlast (drop 2 s))
      then Some (butlast (drop 2 s)) else None)"

definition escapePattern :: "string \<Rightarrow> string option" where
  "escapePattern s =
     (if 5 \<le> length s \<and> take 3 s = ''$$['' \<and> last s = CHR '']'' \<and>
         list_all name_char (butlast (drop 3 s))
      then Some (butlast (drop 3 s)) else None)"

definition anyRefLike :: "string \<Rightarrow> bool" where
  "anyRefLike s = strings_Contains s ''$[''"

definition joinPathKey :: "string \<Rightarrow> string \<Rightarrow> string" where
  "joinPathKey path key = (if path = [] then key else path @ ''.'' @ key)"

definition index_path :: "string \<Rightarrow> nat \<Rightarrow> string" where
  "index_path path i = path @ ''['' @ nat_str i @ '']''"

definition malformed_ref :: "string \<Rightarrow> string \<Rightarrow> string" where
  "malformed_ref path s =
     ''invalid secret reference at '' @ path @
     '': only whole-scalar $[name] is supported (got '' @ fmt_q s @ '')''"

section \<open>Validate\<close>

definition checkLeafSyntax :: "string \<Rightarrow> string \<Rightarrow> string list \<Rightarrow> string + string list" where
  "checkLeafSyntax s path refs =
     (case refPattern s of
        Some name \<Rightarrow> Inr (name # refs)
      | None \<Rightarrow>
          if escapePattern s \<noteq> None then Inr refs
          else if anyRefLike s then Inl (malformed_ref path s)
          else Inr refs)"

fun walkValidate :: "json \<Rightarrow> string \<Rightarrow> string list \<Rightarrow> string + string list"
and walkValidate_map :: "(string \<times> json) list \<Rightarrow> string \<Rightarrow> string list \<Rightarrow> string + string list"
and walkValidate_arr :: "json list \<Rightarrow> nat \<Rightarrow> string \<Rightarrow> string list \<Rightarrow> string + string list" where
  "walkValidate (JObj kvs) path refs = walkValidate_map kvs path refs"
| "walkValidate (JAnyMap kvs) path refs = walkValidate_map kvs path refs"
| "walkValidate (JArr xs) path refs = walkValidate_arr xs 0 path refs"
| "walkValidate (JStr s) path refs = checkLeafSyntax s path refs"
| "walkValidate JNull path refs = Inr refs"
| "walkValidate (JBool b) path refs = Inr refs"
| "walkValidate (JNum n) path refs = Inr refs"
| "walkValidate_map [] path refs = Inr refs"
| "walkValidate_map ((k, child) # kvs) path refs =
     (case walkValidate child (joinPathKey path k) refs of
        Inl e \<Rightarrow> Inl e | Inr refs' \<Rightarrow> walkValidate_map kvs path refs')"
| "walkValidate_arr [] i path refs = Inr refs"
| "walkValidate_arr (child # xs) i path refs =
     (case walkValidate child (index_path path i) refs of
        Inl e \<Rightarrow> Inl e | Inr refs' \<Rightarrow> walkValidate_arr xs (Suc i) path refs')"

definition Validate :: "json \<Rightarrow> string + string list" where
  "Validate tree =
     (case walkValidate tree [] [] of Inl e \<Rightarrow> Inl e | Inr refs \<Rightarrow> Inr (sort_strings refs))"

section \<open>Resolve\<close>

datatype provider_error = ErrNotFound | ProviderError string

type_synonym provider = "string \<Rightarrow> provider_error + string"

definition resolveLeaf ::
    "string \<Rightarrow> string \<Rightarrow> provider \<Rightarrow> string list \<Rightarrow> string + string \<times> string list" where
  "resolveLeaf s path p resolved =
     (case refPattern s of
        Some name \<Rightarrow>
          (case p name of
             Inl ErrNotFound \<Rightarrow>
               Inl (''secret '' @ fmt_q name @ '' referenced at '' @ path @ '' was not found'')
           | Inl (ProviderError e) \<Rightarrow>
               Inl (''reading secret '' @ fmt_q name @ '' at '' @ path @ '': '' @ e)
           | Inr val \<Rightarrow> Inr (val, name # resolved))
      | None \<Rightarrow>
          (case escapePattern s of
             Some name \<Rightarrow> Inr (''$['' @ name @ '']'', resolved)
           | None \<Rightarrow>
               if anyRefLike s then Inl (malformed_ref path s) else Inr (s, resolved)))"

fun walkResolve :: "json \<Rightarrow> string \<Rightarrow> provider \<Rightarrow> string list \<Rightarrow> string + json \<times> string list"
and walkResolve_map ::
    "(string \<times> json) list \<Rightarrow> string \<Rightarrow> provider \<Rightarrow> string list \<Rightarrow>
     string + (string \<times> json) list \<times> string list"
and walkResolve_arr ::
    "json list \<Rightarrow> nat \<Rightarrow> string \<Rightarrow> provider \<Rightarrow> string list \<Rightarrow> string + json list \<times> string list" where
  "walkResolve (JObj kvs) path p res =
     (case walkResolve_map kvs path p res of
        Inl e \<Rightarrow> Inl e | Inr (out, res') \<Rightarrow> Inr (JObj out, res'))"
| "walkResolve (JAnyMap kvs) path p res =
     (case walkResolve_map kvs path p res of
        Inl e \<Rightarrow> Inl e | Inr (out, res') \<Rightarrow> Inr (JAnyMap out, res'))"
| "walkResolve (JArr xs) path p res =
     (case walkResolve_arr xs 0 path p res of
        Inl e \<Rightarrow> Inl e | Inr (out, res') \<Rightarrow> Inr (JArr out, res'))"
| "walkResolve (JStr s) path p res =
     (case resolveLeaf s path p res of Inl e \<Rightarrow> Inl e | Inr (v, res') \<Rightarrow> Inr (JStr v, res'))"
| "walkResolve JNull path p res = Inr (JNull, res)"
| "walkResolve (JBool b) path p res = Inr (JBool b, res)"
| "walkResolve (JNum n) path p res = Inr (JNum n, res)"
| "walkResolve_map [] path p res = Inr ([], res)"
| "walkResolve_map ((k, child) # kvs) path p res =
     (case walkResolve child (joinPathKey path k) p res of
        Inl e \<Rightarrow> Inl e
      | Inr (newChild, res') \<Rightarrow>
          (case walkResolve_map kvs path p res' of
             Inl e \<Rightarrow> Inl e | Inr (out, res'') \<Rightarrow> Inr ((k, newChild) # out, res'')))"
| "walkResolve_arr [] i path p res = Inr ([], res)"
| "walkResolve_arr (child # xs) i path p res =
     (case walkResolve child (index_path path i) p res of
        Inl e \<Rightarrow> Inl e
      | Inr (newChild, res') \<Rightarrow>
          (case walkResolve_arr xs (Suc i) path p res' of
             Inl e \<Rightarrow> Inl e | Inr (out, res'') \<Rightarrow> Inr (newChild # out, res'')))"

definition Resolve :: "json \<Rightarrow> provider \<Rightarrow> string + json \<times> string list" where
  "Resolve tree p =
     (case walkResolve tree [] p [] of
        Inl e \<Rightarrow> Inl e | Inr (out, resolved) \<Rightarrow> Inr (out, sort_strings resolved))"

section \<open>FileProvider\<close>

text \<open>The file system is a parameter: what \<open>os.ReadFile\<close> returns for the entry \<open>name\<close> of the
  directory \<open>dir\<close>.\<close>

datatype read_error = NotExist | ReadError string

type_synonym file_system = "string \<Rightarrow> string \<Rightarrow> read_error + string"

definition strip_newline :: "string \<Rightarrow> string" where
  "strip_newline s =
     (if strings_HasSuffix s [CHR 0x0D, CHR 0x0A] then take (length s - 2) s
      else if strings_HasSuffix s [CHR 0x0A] then take (length s - 1) s
      else s)"

definition FileProvider_Get :: "file_system \<Rightarrow> string \<Rightarrow> provider" where
  "FileProvider_Get fs dir name =
     (case fs dir name of
        Inl NotExist \<Rightarrow> Inl ErrNotFound
      | Inl (ReadError e) \<Rightarrow> Inl (ProviderError e)
      | Inr data \<Rightarrow> Inr (strip_newline data))"

section \<open>Reference semantics\<close>

text \<open>What the two walks compute, without paths and without early exit: the string leaves in
  visiting order, the names they refer to, and the tree with every leaf replaced once.\<close>

fun leaves :: "json \<Rightarrow> string list" where
  "leaves (JStr s) = [s]"
| "leaves (JArr xs) = concat (map leaves xs)"
| "leaves (JObj kvs) = concat (map (\<lambda>kv. leaves (snd kv)) kvs)"
| "leaves (JAnyMap kvs) = concat (map (\<lambda>kv. leaves (snd kv)) kvs)"
| "leaves _ = []"

fun map_leaves :: "(string \<Rightarrow> string) \<Rightarrow> json \<Rightarrow> json" where
  "map_leaves f (JStr s) = JStr (f s)"
| "map_leaves f (JArr xs) = JArr (map (map_leaves f) xs)"
| "map_leaves f (JObj kvs) = JObj (map (\<lambda>kv. (fst kv, map_leaves f (snd kv))) kvs)"
| "map_leaves f (JAnyMap kvs) = JAnyMap (map (\<lambda>kv. (fst kv, map_leaves f (snd kv))) kvs)"
| "map_leaves f t = t"

definition well_formed_leaf :: "string \<Rightarrow> bool" where
  "well_formed_leaf s \<longleftrightarrow> refPattern s \<noteq> None \<or> escapePattern s \<noteq> None \<or> \<not> anyRefLike s"

definition ref_names :: "json \<Rightarrow> string set" where
  "ref_names t = {n. \<exists>s \<in> set (leaves t). refPattern s = Some n}"

definition leaf_value :: "provider \<Rightarrow> string \<Rightarrow> string" where
  "leaf_value p s =
     (case refPattern s of
        Some n \<Rightarrow> (case p n of Inr v \<Rightarrow> v | Inl _ \<Rightarrow> [])
      | None \<Rightarrow> (case escapePattern s of Some n \<Rightarrow> ''$['' @ n @ '']'' | None \<Rightarrow> s))"

section \<open>The walks compute the reference semantics\<close>

definition leaf_refs :: "string \<Rightarrow> string list" where
  "leaf_refs s = (case refPattern s of Some n \<Rightarrow> [n] | None \<Rightarrow> [])"

definition resolvable_leaf :: "provider \<Rightarrow> string \<Rightarrow> bool" where
  "resolvable_leaf p s \<longleftrightarrow>
     well_formed_leaf s \<and> (case refPattern s of Some n \<Rightarrow> \<not> isl (p n) | None \<Rightarrow> True)"

abbreviation map_leaf_list :: "(string \<times> json) list \<Rightarrow> string list" where
  "map_leaf_list kvs \<equiv> concat (map (\<lambda>kv. leaves (snd kv)) kvs)"

abbreviation arr_leaf_list :: "json list \<Rightarrow> string list" where
  "arr_leaf_list xs \<equiv> concat (map leaves xs)"

abbreviation refs_of :: "string list \<Rightarrow> string list" where
  "refs_of ls \<equiv> rev (concat (map leaf_refs ls))"

lemma checkLeafSyntax_eq:
  "checkLeafSyntax s path refs =
     (if well_formed_leaf s then Inr (rev (leaf_refs s) @ refs) else Inl (malformed_ref path s))"
  by (auto simp: checkLeafSyntax_def well_formed_leaf_def leaf_refs_def split: option.splits)

lemma walkValidate_ok:
  "list_all well_formed_leaf (leaves t) \<Longrightarrow> walkValidate t path refs = Inr (refs_of (leaves t) @ refs)"
  "list_all well_formed_leaf (map_leaf_list kvs) \<Longrightarrow>
     walkValidate_map kvs path refs = Inr (refs_of (map_leaf_list kvs) @ refs)"
  "list_all well_formed_leaf (arr_leaf_list xs) \<Longrightarrow>
     walkValidate_arr xs i path refs = Inr (refs_of (arr_leaf_list xs) @ refs)"
  by (induction t path refs and kvs path refs and xs i path refs
        rule: walkValidate_walkValidate_map_walkValidate_arr.induct)
     (simp_all add: checkLeafSyntax_eq)

lemma walkValidate_err:
  "\<not> list_all well_formed_leaf (leaves t) \<Longrightarrow> isl (walkValidate t path refs)"
  "\<not> list_all well_formed_leaf (map_leaf_list kvs) \<Longrightarrow> isl (walkValidate_map kvs path refs)"
  "\<not> list_all well_formed_leaf (arr_leaf_list xs) \<Longrightarrow> isl (walkValidate_arr xs i path refs)"
proof (induction t path refs and kvs path refs and xs i path refs
        rule: walkValidate_walkValidate_map_walkValidate_arr.induct)
  case (9 k child kvs path refs)
  then show ?case
    by (cases "list_all well_formed_leaf (leaves child)")
       (auto simp: walkValidate_ok isl_def split: sum.splits)
next
  case (11 child xs i path refs)
  then show ?case
    by (cases "list_all well_formed_leaf (leaves child)")
       (auto simp: walkValidate_ok isl_def split: sum.splits)
qed (auto simp: checkLeafSyntax_eq)

lemma resolveLeaf_ok:
  "resolvable_leaf p s \<Longrightarrow>
     resolveLeaf s path p res = Inr (leaf_value p s, rev (leaf_refs s) @ res)"
  by (auto simp: resolveLeaf_def resolvable_leaf_def well_formed_leaf_def leaf_value_def
      leaf_refs_def isl_def split: option.splits sum.splits)

lemma resolveLeaf_err: "\<not> resolvable_leaf p s \<Longrightarrow> isl (resolveLeaf s path p res)"
  by (auto simp: resolveLeaf_def resolvable_leaf_def well_formed_leaf_def isl_def
      split: option.splits sum.splits provider_error.splits)

lemma walkResolve_ok:
  "list_all (resolvable_leaf p) (leaves t) \<Longrightarrow>
     walkResolve t path p res = Inr (map_leaves (leaf_value p) t, refs_of (leaves t) @ res)"
  "list_all (resolvable_leaf p) (map_leaf_list kvs) \<Longrightarrow>
     walkResolve_map kvs path p res =
       Inr (map (\<lambda>kv. (fst kv, map_leaves (leaf_value p) (snd kv))) kvs,
            refs_of (map_leaf_list kvs) @ res)"
  "list_all (resolvable_leaf p) (arr_leaf_list xs) \<Longrightarrow>
     walkResolve_arr xs i path p res =
       Inr (map (map_leaves (leaf_value p)) xs, refs_of (arr_leaf_list xs) @ res)"
  by (induction t path p res and kvs path p res and xs i path p res
        rule: walkResolve_walkResolve_map_walkResolve_arr.induct)
     (simp_all add: resolveLeaf_ok)

lemma walkResolve_err:
  "\<not> list_all (resolvable_leaf p) (leaves t) \<Longrightarrow> isl (walkResolve t path p res)"
  "\<not> list_all (resolvable_leaf p) (map_leaf_list kvs) \<Longrightarrow> isl (walkResolve_map kvs path p res)"
  "\<not> list_all (resolvable_leaf p) (arr_leaf_list xs) \<Longrightarrow> isl (walkResolve_arr xs i path p res)"
proof (induction t path p res and kvs path p res and xs i path p res
        rule: walkResolve_walkResolve_map_walkResolve_arr.induct)
  case (4 s path p res)
  then show ?case using resolveLeaf_err [of p s path res] by (auto simp: isl_def)
next
  case (9 k child kvs path p res)
  show ?case
  proof (cases "list_all (resolvable_leaf p) (leaves child)")
    case True
    note ok = walkResolve_ok(1) [OF True, of "joinPathKey path k" res]
    from True "9.prems" have "\<not> list_all (resolvable_leaf p) (map_leaf_list kvs)" by simp
    with "9.IH"(2) [OF ok refl] ok show ?thesis by (auto simp: isl_def)
  next
    case False
    with "9.IH"(1) show ?thesis by (auto simp: isl_def)
  qed
next
  case (11 child xs i path p res)
  show ?case
  proof (cases "list_all (resolvable_leaf p) (leaves child)")
    case True
    note ok = walkResolve_ok(1) [OF True, of "index_path path i" res]
    from True "11.prems" have "\<not> list_all (resolvable_leaf p) (arr_leaf_list xs)" by simp
    with "11.IH"(2) [OF ok refl] ok show ?thesis by (auto simp: isl_def)
  next
    case False
    with "11.IH"(1) show ?thesis by (auto simp: isl_def)
  qed
qed (auto simp: isl_def split: sum.splits)

lemma set_refs_of: "set (concat (map leaf_refs (leaves t))) = ref_names t"
  by (auto simp: ref_names_def leaf_refs_def split: option.splits intro!: bexI)

definition sorted_refs :: "json \<Rightarrow> string list" where
  "sorted_refs t = sort_strings (concat (map leaf_refs (leaves t)))"

lemma set_sorted_refs: "set (sorted_refs t) = ref_names t"
  by (simp only: sorted_refs_def sort_strings_props(1) set_refs_of)

lemma Validate_eq:
  "Validate t =
     (if list_all well_formed_leaf (leaves t) then Inr (sorted_refs t)
      else Inl (projl (walkValidate t [] [])))"
proof (cases "list_all well_formed_leaf (leaves t)")
  case True
  then show ?thesis
    by (auto simp: Validate_def walkValidate_ok(1) sorted_refs_def intro: sort_strings_eqI)
next
  case False
  from walkValidate_err(1) [OF this, of "[]" "[]"] obtain e where "walkValidate t [] [] = Inl e"
    by (auto simp: isl_def)
  with False show ?thesis by (simp add: Validate_def)
qed

lemma Resolve_eq:
  "Resolve t p =
     (if list_all (resolvable_leaf p) (leaves t)
      then Inr (map_leaves (leaf_value p) t, sorted_refs t)
      else Inl (projl (walkResolve t [] p [])))"
proof (cases "list_all (resolvable_leaf p) (leaves t)")
  case True
  then show ?thesis
    by (auto simp: Resolve_def walkResolve_ok(1) sorted_refs_def intro: sort_strings_eqI)
next
  case False
  from walkResolve_err(1) [OF this, of "[]" "[]"] obtain e where "walkResolve t [] p [] = Inl e"
    by (auto simp: isl_def)
  with False show ?thesis by (simp add: Resolve_def)
qed

lemma resolvable_leaves_iff:
  "list_all (resolvable_leaf p) (leaves t) \<longleftrightarrow>
     list_all well_formed_leaf (leaves t) \<and> (\<forall>n \<in> ref_names t. \<not> isl (p n))"
  by (auto simp: list_all_iff resolvable_leaf_def ref_names_def split: option.splits)

section \<open>The provider contract\<close>

text \<open>A provider serves exactly the names it knows: a known name has a value, an unknown one is
  \<open>ErrNotFound\<close>.\<close>

locale secret_provider =
  fixes get :: provider and known :: "string set"
  assumes get_known: "n \<in> known \<Longrightarrow> \<exists>v. get n = Inr v"
    and get_unknown: "n \<notin> known \<Longrightarrow> get n = Inl ErrNotFound"
begin

lemma get_ok_iff: "\<not> isl (get n) \<longleftrightarrow> n \<in> known"
  using get_known [of n] get_unknown [of n] by (auto simp: isl_def)

lemma Resolve_succeeds_iff:
  "(\<exists>out names. Resolve t get = Inr (out, names)) \<longleftrightarrow>
     (\<exists>names. Validate t = Inr names) \<and> ref_names t \<subseteq> known"
  by (auto simp: Resolve_eq Validate_eq resolvable_leaves_iff get_ok_iff)

lemma Resolve_value:
  "Validate t = Inr names \<Longrightarrow> ref_names t \<subseteq> known \<Longrightarrow>
     Resolve t get = Inr (map_leaves (leaf_value get) t, names)"
  by (auto simp: Resolve_eq Validate_eq resolvable_leaves_iff get_ok_iff split: if_splits)

end

text \<open>A directory whose entries can all be read, as the kubelet projects a Secret: one file per
  key.\<close>

definition projected_files :: "(string \<rightharpoonup> (string \<rightharpoonup> string)) \<Rightarrow> file_system" where
  "projected_files mounts dir name =
     (case mounts dir of
        None \<Rightarrow> Inl NotExist
      | Some files \<Rightarrow> (case files name of None \<Rightarrow> Inl NotExist | Some content \<Rightarrow> Inr content))"

interpretation file_provider: secret_provider
  "FileProvider_Get (projected_files mounts) dir"
  "case mounts dir of None \<Rightarrow> {} | Some files \<Rightarrow> dom files"
  for mounts :: "string \<rightharpoonup> (string \<rightharpoonup> string)" and dir :: string
  by unfold_locales
     (auto simp: FileProvider_Get_def projected_files_def split: option.splits)

section \<open>Properties\<close>

text \<open>C22. \<open>Resolve\<close> succeeds exactly on the trees that pass \<open>Validate\<close> and whose referenced
  names the provider can all serve; then it reports the names \<open>Validate\<close> reported, and its
  output is the input with every string leaf replaced once: a secret value that itself looks like
  a reference is not resolved again.\<close>

theorem Resolve_refines_Validate:
  "Resolve t p = Inr (out, names) \<longleftrightarrow>
     Validate t = Inr names \<and> (\<forall>n \<in> ref_names t. \<exists>v. p n = Inr v) \<and>
     out = map_leaves (leaf_value p) t"
proof -
  have "(\<exists>v. p n = Inr v) \<longleftrightarrow> \<not> isl (p n)" for n
    by (cases "p n") auto
  then show ?thesis
    by (auto simp: Resolve_eq Validate_eq resolvable_leaves_iff)
qed

theorem Resolve_refines_Validate_witness:
  "Resolve (JObj [(''k'', JArr [JStr ''$[db]'', JStr ''$$[x]'', JNum ''1''])])
       (\<lambda>n. if n = ''db'' then Inr ''$[y]'' else Inl ErrNotFound) =
     Inr (JObj [(''k'', JArr [JStr ''$[y]'', JStr ''$[x]'', JNum ''1''])], [''db''])"
proof -
  let ?t = "JObj [(''k'', JArr [JStr ''$[db]'', JStr ''$$[x]'', JNum ''1''])]"
  let ?p = "\<lambda>n. if n = ''db'' then Inr ''$[y]'' else Inl ErrNotFound"
  have v: "Validate ?t = Inr [''db'']" by code_simp
  have r: "ref_names ?t = {''db''}" by (auto simp: ref_names_def refPattern_def name_char_def)
  have o: "map_leaves (leaf_value ?p) ?t =
      JObj [(''k'', JArr [JStr ''$[y]'', JStr ''$[x]'', JNum ''1''])]"
    by (simp add: leaf_value_def refPattern_def escapePattern_def name_char_def)
  show ?thesis using Resolve_refines_Validate [of ?t ?p] v r o by simp
qed

end
