(* ===== verification/Api_Types.thy ===== *)
theory Api_Types
  imports Secrets
begin

text \<open>
  The resource types of \<open>pkg/k8s/api/v1\<close>: Pipeline, PipelineRun and ComponentDefinition. A Go
  struct is a record, a pointer an option, a string-typed phase a datatype with a last constructor
  for the values the constants do not name. \<open>DeepCopy\<close> is the identity on values. Times are
  nanoseconds. A \<open>resource.Quantity\<close> is its comparable value with its rendering; a
  \<open>ResourceList\<close> is an association list, \<open>None\<close> the nil map. The raw JSON of a component's
  configuration is represented by what \<open>json.Unmarshal\<close> makes of it.
\<close>

section \<open>Resources\<close>

record quantity =
  q_value :: int
  q_text :: string

type_synonym resource_list = "quantity gomap"

record resource_requirements =
  rr_limits :: "resource_list option"
  rr_requests :: "resource_list option"

definition list_of_resources :: "resource_list option \<Rightarrow> resource_list" where
  "list_of_resources l = (case l of None \<Rightarrow> [] | Some m \<Rightarrow> m)"

definition no_resources :: resource_requirements where
  "no_resources = \<lparr>rr_limits = None, rr_requests = None\<rparr>"

section \<open>Pipeline\<close>

record gateway_spec =
  gw_chunkSize :: int
  gw_bufferSize :: int
  gw_rowGroupSize :: int
  gw_targetFileSize :: int

record input_table_spec =
  it_bucket :: string
  it_table :: string
  it_logicalName :: string
  it_since :: string
  it_sinceSnapshot :: "int option"
  it_sinceDays :: "int option"
  it_timestampColumn :: string

record input_spec =
  in_buckets :: "string list"
  in_tables :: "input_table_spec list"

record output_bucket_spec =
  ob_name :: string
  ob_writeMode :: string

record partition_field_spec =
  pf_sourceColumn :: string
  pf_transform :: string

record column_spec =
  col_name :: string
  col_type :: string

record output_table_spec =
  ot_name :: string
  ot_bucket :: string
  ot_logicalName :: string
  ot_writeMode :: string
  ot_partitionFields :: "partition_field_spec list"
  ot_columns :: "column_spec list"

record processor_spec =
  proc_type :: string
  proc_columns :: "string list"

record output_spec =
  out_defaultBucket :: string
  out_defaultWriteMode :: string
  out_buckets :: "output_bucket_spec list"
  out_tables :: "output_table_spec list"
  out_processors :: "processor_spec list"

text \<open>\<open>Config.Raw\<close>: \<open>None\<close> when empty, else the decoding error or the map the text denotes, with its numbers as
  they are written, where \<open>None\<close> is the nil map that the JSON value \<open>null\<close> decodes to.\<close>

type_synonym raw_config = "(string + json gomap option) option"

record component_spec =
  cs_name :: string
  cs_component :: string
  cs_version :: string
  cs_config :: raw_config
  cs_inputs :: "input_spec option"
  cs_outputs :: "output_spec option"
  cs_resources :: "resource_requirements option"

definition ConfigMap :: "component_spec \<Rightarrow> string + json gomap option" where
  "ConfigMap c =
     (case cs_config c of
        None \<Rightarrow> Inr None
      | Some (Inl e) \<Rightarrow> Inl (''component '' @ fmt_q (cs_name c) @ '' config: '' @ e)
      | Some (Inr m) \<Rightarrow> Inr m)"

record stage_spec =
  st_name :: string
  st_components :: "component_spec list"

record pipeline_spec =
  ps_gateway :: gateway_spec
  ps_stages :: "stage_spec list"

record pipeline =
  p_name :: string
  p_generation :: int
  p_spec :: pipeline_spec

section \<open>PipelineRun\<close>

datatype run_phase =
    RunNone | RunPending | RunRunning | RunSucceeded | RunFailedUser | RunFailedApplication
  | RunOther string

datatype stage_phase =
    StagePending | StageRunning | StageCommitting | StageSucceeded | StageFailedUser
  | StageFailedApplication | StageOther string

datatype component_phase =
    CompPending | CompRunning | CompSucceeded | CompFailedUser | CompFailedApplication
  | CompOther string

record preview_spec =
  pv_id :: string
  pv_rowLimit :: int
  pv_timeoutSeconds :: int

record pipelinerun_spec =
  rs_pipelineRef :: string
  rs_runID :: string
  rs_runTokenRef :: "string option"
  rs_pipelineSpec :: "pipeline_spec option"
  rs_preview :: "preview_spec option"

record component_status =
  ct_name :: string
  ct_phase :: component_phase
  ct_exitCode :: "int option"
  ct_podName :: string
  ct_startTime :: "int option"
  ct_completionTime :: "int option"
  ct_message :: string

record stage_status =
  ss_name :: string
  ss_phase :: stage_phase
  ss_components :: "component_status list"
  ss_startTime :: "int option"
  ss_completionTime :: "int option"
  ss_message :: string

record resolved_component_status =
  rcs_name :: string
  rcs_component :: string
  rcs_version :: string
  rcs_image :: string
  rcs_imageID :: string

record condition =
  cond_type :: string
  cond_status :: bool
  cond_reason :: string
  cond_message :: string

record pipelinerun_status =
  rn_phase :: run_phase
  rn_runID :: string
  rn_currentStage :: string
  rn_stages :: "stage_status list"
  rn_startTime :: "int option"
  rn_completionTime :: "int option"
  rn_message :: string
  rn_observedGeneration :: int
  rn_conditions :: "condition list"
  rn_pipelineGeneration :: int
  rn_resolvedSpec :: "pipeline_spec option"
  rn_resolved :: "resolved_component_status list"

record pipelinerun =
  pr_name :: string
  pr_namespace :: string
  pr_generation :: int
  pr_annotations :: "string gomap"
  pr_spec :: pipelinerun_spec
  pr_status :: pipelinerun_status

section \<open>ComponentDefinition\<close>

record component_io =
  io_inputs :: string
  io_outputs :: string

record component_resources =
  cr_default :: resource_requirements
  cr_max :: resource_list

record version_spec =
  vs_version :: string
  vs_image :: string
  vs_prerelease :: bool
  vs_configSchema :: string
  vs_resources :: "component_resources option"

record component_definition =
  cd_deprecated :: bool
  cd_defaultVersion :: string
  cd_versions :: "version_spec list"
  cd_io :: "component_io option"
  cd_statusPhase :: string
  cd_statusMessage :: string

definition InputsMode :: "component_io option \<Rightarrow> string" where
  "InputsMode io =
     (case io of None \<Rightarrow> ''optional'' | Some i \<Rightarrow> if io_inputs i = [] then ''optional'' else io_inputs i)"

definition OutputsMode :: "component_io option \<Rightarrow> string" where
  "OutputsMode io =
     (case io of None \<Rightarrow> ''optional'' | Some i \<Rightarrow> if io_outputs i = [] then ''optional'' else io_outputs i)"

subsection \<open>Versions\<close>

text \<open>\<open>stableVersionPattern\<close> with its three groups. The groups are read by \<open>strconv.Atoi\<close> with
  the error dropped, so a group beyond 64 bits counts as the greatest \<open>int\<close>.\<close>

definition stable_groups :: "string \<Rightarrow> (string \<times> string \<times> string) option" where
  "stable_groups v =
     (case v of
        [] \<Rightarrow> None
      | c # rest \<Rightarrow>
          if c \<noteq> CHR ''v'' then None
          else (case split_on (CHR ''.'') rest of
                  [a, b, d] \<Rightarrow>
                    if a \<noteq> [] \<and> b \<noteq> [] \<and> d \<noteq> [] \<and> list_all is_digit (a @ b @ d)
                    then Some (a, b, d) else None
                | _ \<Rightarrow> None))"

definition IsStableVersion :: "string \<Rightarrow> bool" where
  "IsStableVersion v \<longleftrightarrow> stable_groups v \<noteq> None"

definition group_value :: "string \<Rightarrow> int" where
  "group_value g = min (int (digits_val 0 g)) max_int64"

definition parseStableVersion :: "string \<Rightarrow> (int \<times> int \<times> int) option" where
  "parseStableVersion v =
     (case stable_groups v of
        None \<Rightarrow> None
      | Some (a, b, d) \<Rightarrow> Some (group_value a, group_value b, group_value d))"

definition newer :: "int \<times> int \<times> int \<Rightarrow> int \<times> int \<times> int \<Rightarrow> bool" where
  "newer v best =
     (case (v, best) of ((major, minor, patch), (bestMajor, bestMinor, bestPatch)) \<Rightarrow>
        major > bestMajor \<or> major = bestMajor \<and> minor > bestMinor \<or>
        major = bestMajor \<and> minor = bestMinor \<and> patch > bestPatch)"

fun latest_stable_loop ::
    "version_spec list \<Rightarrow> (version_spec \<times> int \<times> int \<times> int) option \<Rightarrow>
     (version_spec \<times> int \<times> int \<times> int) option" where
  "latest_stable_loop [] best = best"
| "latest_stable_loop (v # vs) best =
     (if vs_prerelease v then latest_stable_loop vs best
      else (case parseStableVersion (vs_version v) of
              None \<Rightarrow> latest_stable_loop vs best
            | Some k \<Rightarrow>
                latest_stable_loop vs
                  (case best of
                     None \<Rightarrow> Some (v, k)
                   | Some (b, bk) \<Rightarrow> if newer k bk then Some (v, k) else Some (b, bk))))"

definition LatestStable :: "component_definition \<Rightarrow> version_spec option" where
  "LatestStable d = map_option fst (latest_stable_loop (cd_versions d) None)"

definition FindVersion :: "component_definition \<Rightarrow> string \<Rightarrow> version_spec option" where
  "FindVersion d v = find (\<lambda>ver. vs_version ver = v) (cd_versions d)"

section \<open>Latest stable version\<close>

definition stable_candidate :: "version_spec \<Rightarrow> int \<times> int \<times> int \<Rightarrow> bool" where
  "stable_candidate v k \<longleftrightarrow> \<not> vs_prerelease v \<and> parseStableVersion (vs_version v) = Some k"

lemma not_newer_trans: "\<not> newer a b \<Longrightarrow> \<not> newer b c \<Longrightarrow> \<not> newer a c"
  by (auto simp: newer_def split: prod.splits)

lemma newer_asym: "newer a b \<Longrightarrow> \<not> newer b a"
  by (auto simp: newer_def split: prod.splits)

lemma not_newer_refl [simp]: "\<not> newer k k"
  by (auto simp: newer_def split: prod.splits)

lemma latest_stable_loop_best:
  "latest_stable_loop vs best = Some (v, k) \<Longrightarrow>
     (best = Some (v, k) \<or> v \<in> set vs \<and> stable_candidate v k) \<and>
     (\<forall>b bk. best = Some (b, bk) \<longrightarrow> \<not> newer bk k) \<and>
     (\<forall>w \<in> set vs. \<forall>wk. stable_candidate w wk \<longrightarrow> \<not> newer wk k)"
proof (induction vs arbitrary: best)
  case Nil
  then show ?case by simp
next
  case (Cons u vs)
  show ?case
  proof (cases "\<exists>uk. stable_candidate u uk")
    case False
    with Cons.prems have "latest_stable_loop vs best = Some (v, k)"
      by (auto simp: stable_candidate_def split: if_splits option.splits)
    from Cons.IH [OF this] False show ?thesis by auto
  next
    case True
    then obtain uk where uk: "stable_candidate u uk" by blast
    define best' where
      "best' = (case best of None \<Rightarrow> Some (u, uk)
                | Some (b, bk) \<Rightarrow> if newer uk bk then Some (u, uk) else Some (b, bk))"
    from Cons.prems uk have "latest_stable_loop vs best' = Some (v, k)"
      by (simp add: stable_candidate_def best'_def)
    note IH = Cons.IH [OF this]
    then have le: "\<not> newer bk k" if "best' = Some (b, bk)" for b bk using that by blast
    have "w = uk" if "stable_candidate u w" for w
      using that uk by (simp add: stable_candidate_def)
    moreover have "\<not> newer uk k"
    proof (cases best)
      case None
      with le [of u uk] show ?thesis by (simp add: best'_def)
    next
      case (Some p)
      obtain b bk where "p = (b, bk)" by (cases p) auto
      with Some le [of u uk] le [of b bk] not_newer_trans [of uk bk k] show ?thesis
        by (cases "newer uk bk") (simp_all add: best'_def)
    qed
    moreover have "\<not> newer bk k" if "best = Some (b, bk)" for b bk
      using le [of u uk] le [of b bk] that not_newer_trans [of bk uk k] newer_asym [of uk bk]
      by (cases "newer uk bk") (simp_all add: best'_def)
    moreover have "best = Some (v, k) \<or> v \<in> set (u # vs) \<and> stable_candidate v k"
    proof (cases "best' = Some (v, k)")
      case True
      then have "best = Some (v, k) \<or> (v = u \<and> k = uk)"
        by (auto simp: best'_def split: option.splits if_splits)
      with uk show ?thesis by auto
    next
      case False
      with IH show ?thesis by auto
    qed
    moreover have "\<forall>w \<in> set vs. \<forall>wk. stable_candidate w wk \<longrightarrow> \<not> newer wk k" using IH by blast
    ultimately show ?thesis by (metis set_ConsD)
  qed
qed

lemma latest_stable_loop_None:
  "latest_stable_loop vs best = None \<longleftrightarrow> best = None \<and> (\<forall>v \<in> set vs. \<forall>k. \<not> stable_candidate v k)"
  by (induction vs arbitrary: best) (auto simp: stable_candidate_def split: option.splits)

text \<open>\<open>LatestStable\<close> returns a registered, non-prerelease \<open>vMAJOR.MINOR.PATCH\<close> version with
  no newer one registered, and returns nothing exactly when the component has no such version:
  a prerelease or a mutable tag is never a default.\<close>

theorem LatestStable_maximal:
  "case LatestStable d of
     Some v \<Rightarrow>
       v \<in> set (cd_versions d) \<and>
       (\<exists>k. stable_candidate v k \<and>
            (\<forall>w \<in> set (cd_versions d). \<forall>wk. stable_candidate w wk \<longrightarrow> \<not> newer wk k))
   | None \<Rightarrow> \<forall>v \<in> set (cd_versions d). \<forall>k. \<not> stable_candidate v k"
proof (cases "latest_stable_loop (cd_versions d) None")
  case None
  then have "LatestStable d = None" by (simp add: LatestStable_def)
  moreover from None have "\<forall>v \<in> set (cd_versions d). \<forall>k. \<not> stable_candidate v k"
    using latest_stable_loop_None [of "cd_versions d" None] by blast
  ultimately show ?thesis by simp
next
  case (Some p)
  obtain v k where "p = (v, k)" by (cases p) auto
  with Some have "LatestStable d = Some v" by (simp add: LatestStable_def)
  moreover note latest_stable_loop_best [OF Some [unfolded \<open>p = (v, k)\<close>]]
  ultimately show ?thesis by (simp del: split_paired_All split_paired_Ex) blast
qed

definition versioned :: "string \<Rightarrow> version_spec" where
  "versioned v = \<lparr>vs_version = v, vs_image = v, vs_prerelease = False, vs_configSchema = [], vs_resources = None\<rparr>"

definition sample_definition :: component_definition where
  "sample_definition = \<lparr>cd_deprecated = False, cd_defaultVersion = [],
     cd_versions = [versioned ''v1.9.0'', versioned ''v1.10.0'', versioned ''latest'',
       (versioned ''v2.0.0'')\<lparr>vs_prerelease := True\<rparr>],
     cd_io = None, cd_statusPhase = ''Ready'', cd_statusMessage = []\<rparr>"

theorem LatestStable_maximal_witness:
  "\<exists>k. LatestStable sample_definition = Some (versioned ''v1.10.0'') \<and>
     stable_candidate (versioned ''v1.10.0'') k \<and> \<not> newer (1, 9, 0) k"
proof -
  have l: "LatestStable sample_definition = Some (versioned ''v1.10.0'')"
    by (simp add: sample_definition_def versioned_def LatestStable_def parseStableVersion_def stable_groups_def
        is_digit_def newer_def group_value_def digit_val_def max_int64_def)
  have "stable_candidate (versioned ''v1.9.0'') (1, 9, 0)" "versioned ''v1.9.0'' \<in> set (cd_versions sample_definition)"
    by (simp_all add: sample_definition_def versioned_def stable_candidate_def parseStableVersion_def
        stable_groups_def is_digit_def group_value_def digit_val_def max_int64_def)
  with LatestStable_maximal [of sample_definition] l show ?thesis
    by (simp del: split_paired_Ex split_paired_All) blast
qed

end
