(* ===== verification/Registry.thy ===== *)
theory Registry
  imports Api_Types
begin

text \<open>
  Resolution of component references (\<open>pkg/pipeline/validate/registry.go\<close>), the resource policy
  checked when a pipeline is saved (\<open>policy.go\<close>), and the clamping of resources at run admission
  (\<open>pkg/k8s/controllers/resource_clamp.go\<close>). Compiling a JSON Schema is a library call and a
  parameter: \<open>compile\<close> returns the compiler's error, if any. The locale \<open>resource_policy\<close>
  states what the two resource routines share.
\<close>

section \<open>Findings\<close>

record finding =
  fd_path :: string
  fd_message :: string
  fd_severity :: string

definition severityError :: string where "severityError = ''error''"
definition severityWarning :: string where "severityWarning = ''warning''"

definition err :: "string \<Rightarrow> string \<Rightarrow> finding" where
  "err path msg = \<lparr>fd_path = path, fd_message = msg, fd_severity = severityError\<rparr>"

definition warn :: "string \<Rightarrow> string \<Rightarrow> finding" where
  "warn path msg = \<lparr>fd_path = path, fd_message = msg, fd_severity = severityWarning\<rparr>"

lemmas finding_simps [go_simps] = err_def warn_def severityError_def severityWarning_def

section \<open>Resolution\<close>

text \<open>\<open>ConfigSchema\<close> and \<open>rawConfigSchema\<close> are set together: the source text of a schema that
  compiled.\<close>

record resolved_component =
  rc_component :: string
  rc_version :: string
  rc_image :: string
  rc_prerelease :: bool
  rc_configSchema :: "string option"
  rc_resources :: component_resources
  rc_io :: "component_io option"

type_synonym registry_view = "string \<Rightarrow> string \<Rightarrow> resolved_component option \<times> finding list"

definition resolveVersion ::
    "string \<Rightarrow> string \<Rightarrow> component_definition \<Rightarrow> finding list + version_spec" where
  "resolveVersion component version d =
     (if version \<noteq> [] then
        (case FindVersion d version of
           None \<Rightarrow> Inl [err ''version''
             (''component '' @ fmt_q component @ '' has no version '' @ fmt_q version)]
         | Some v \<Rightarrow> Inr v)
      else if cd_defaultVersion d \<noteq> [] then
        (case FindVersion d (cd_defaultVersion d) of
           None \<Rightarrow> Inl [err ''version''
             (''component '' @ fmt_q component @ '' default version '' @
              fmt_q (cd_defaultVersion d) @ '' is not registered'')]
         | Some v \<Rightarrow> Inr v)
      else
        (case LatestStable d of
           None \<Rightarrow> Inl [err ''version''
             (''component '' @ fmt_q component @
              '' has no stable version and no default; pin an explicit version'')]
         | Some v \<Rightarrow> Inr v))"

definition StaticRegistry_Resolve ::
    "(string \<Rightarrow> string option) \<Rightarrow> component_definition gomap \<Rightarrow> registry_view" where
  "StaticRegistry_Resolve compile r component version =
     (case map_of r component of
        None \<Rightarrow> (None, [err ''component'' (''unknown component '' @ fmt_q component)])
      | Some d \<Rightarrow>
          if cd_statusPhase d = ''Invalid'' then
            (None, [err ''component''
               (''component '' @ fmt_q component @ '' definition is invalid'' @
                (if cd_statusMessage d \<noteq> [] then '': '' @ cd_statusMessage d else []))])
          else
            (case resolveVersion component version d of
               Inl bad \<Rightarrow> (None, bad)
             | Inr ver \<Rightarrow>
                 let rc = \<lparr>rc_component = component, rc_version = vs_version ver,
                           rc_image = vs_image ver, rc_prerelease = vs_prerelease ver,
                           rc_configSchema = None,
                           rc_resources = (case vs_resources ver of
                              None \<Rightarrow> \<lparr>cr_default = no_resources, cr_max = []\<rparr> | Some r \<Rightarrow> r),
                           rc_io = cd_io d\<rparr>;
                     dep = (if cd_deprecated d
                            then [warn ''component''
                                    (''component '' @ fmt_q component @ '' is deprecated'')]
                            else [])
                 in if vs_configSchema ver = [] then (Some rc, dep)
                    else (case compile (vs_configSchema ver) of
                            Some e \<Rightarrow>
                              (Some rc, dep @ [err ''component''
                                (''component '' @ fmt_q component @ '' version '' @
                                 fmt_q (vs_version ver) @ '' has an invalid config schema: '' @ e)])
                          | None \<Rightarrow>
                              (Some (rc\<lparr>rc_configSchema := Some (vs_configSchema ver)\<rparr>), dep))))"

section \<open>Resource policy\<close>

definition resource_entry_findings ::
    "string \<Rightarrow> resource_list \<Rightarrow> string \<Rightarrow> string \<Rightarrow> string \<times> quantity \<Rightarrow> finding list" where
  "resource_entry_findings kind mx pathPrefix component e =
     (case e of (name, q) \<Rightarrow>
        (case map_of mx name of
           None \<Rightarrow>
             [err (pathPrefix @ ''.resources'')
                (''resource '' @ [CHR 0x22] @ name @ [CHR 0x22] @ '' is not allowed for component '' @
                 component @ '' (not listed in registry max)'')]
         | Some maxq \<Rightarrow>
             if q_value q > q_value maxq then
               [err (pathPrefix @ ''.resources.'' @ kind @ ''.'' @ name)
                  (''resources.'' @ kind @ ''.'' @ name @ ''='' @ q_text q @
                   '' exceeds registry max '' @ q_text maxq)]
             else []))"

definition checkResourcesAgainstMax ::
    "resource_requirements option \<Rightarrow> resource_list \<Rightarrow> string \<Rightarrow> string \<Rightarrow> finding list" where
  "checkResourcesAgainstMax rr mx pathPrefix component =
     (case rr of
        None \<Rightarrow> []
      | Some r \<Rightarrow>
          concat (map (resource_entry_findings ''limits'' mx pathPrefix component)
                    (list_of_resources (rr_limits r))) @
          concat (map (resource_entry_findings ''requests'' mx pathPrefix component)
                    (list_of_resources (rr_requests r))))"

record gateway_bounds =
  gb_maxChunkSize :: int
  gb_maxBufferSize :: int
  gb_maxTargetFileSize :: int

definition knob_findings :: "int \<Rightarrow> int \<Rightarrow> string \<Rightarrow> finding list" where
  "knob_findings knob bound name =
     (if bound \<noteq> 0 \<and> knob > bound then
        [err (''gateway.'' @ name)
           (''gateway.'' @ name @ ''='' @ fmt_d knob @ '' exceeds policy max '' @ fmt_d bound)]
      else [])"

definition checkGatewayBounds :: "pipeline \<Rightarrow> gateway_bounds option \<Rightarrow> finding list" where
  "checkGatewayBounds p pol =
     (case pol of
        None \<Rightarrow> []
      | Some b \<Rightarrow>
          let g = ps_gateway (p_spec p) in
          knob_findings (gw_chunkSize g) (gb_maxChunkSize b) ''chunkSize'' @
          knob_findings (gw_bufferSize g) (gb_maxBufferSize b) ''bufferSize'' @
          knob_findings (gw_targetFileSize g) (gb_maxTargetFileSize b) ''targetFileSize'')"

section \<open>Clamping\<close>

record clamp_result =
  cl_resources :: resource_requirements
  cl_note :: string

fun clampList :: "resource_list \<Rightarrow> resource_list \<Rightarrow> resource_list \<times> string list" where
  "clampList mx [] = ([], [])"
| "clampList mx ((name, q) # l) =
     (case clampList mx l of (res, notes) \<Rightarrow>
        (case map_of mx name of
           None \<Rightarrow> (res, (''dropped '' @ name) # notes)
         | Some maxq \<Rightarrow>
             if q_value q > q_value maxq then
               ((name, maxq) # res,
                (name @ '' '' @ q_text q @ rightwards_arrow @ q_text maxq) # notes)
             else ((name, q) # res, notes)))"

definition clamp_opt ::
    "resource_list \<Rightarrow> resource_list option \<Rightarrow> resource_list option \<times> string list" where
  "clamp_opt mx l =
     (case l of None \<Rightarrow> (None, [])
      | Some m \<Rightarrow> (case clampList mx m of (res, notes) \<Rightarrow> (Some res, notes)))"

text \<open>A request above its clamped limit is pulled down to the limit.\<close>

definition lower_requests :: "resource_list \<Rightarrow> resource_list \<Rightarrow> resource_list" where
  "lower_requests limits reqs =
     map (\<lambda>(name, rq).
       (name, case map_of limits name of
                None \<Rightarrow> rq
              | Some lq \<Rightarrow> if q_value rq > q_value lq then lq else rq)) reqs"

definition applyDefaultsThenClamp ::
    "resource_requirements option \<Rightarrow> resource_requirements \<Rightarrow> resource_list \<Rightarrow> clamp_result" where
  "applyDefaultsThenClamp spec def mx =
     (case spec of
        None \<Rightarrow> \<lparr>cl_resources = def, cl_note = []\<rparr>
      | Some s \<Rightarrow>
          if list_of_resources (rr_requests s) = [] \<and> list_of_resources (rr_limits s) = []
          then \<lparr>cl_resources = def, cl_note = []\<rparr>
          else
            (case clamp_opt mx (rr_limits s) of (limits, lnotes) \<Rightarrow>
             (case clamp_opt mx (rr_requests s) of (requests, rnotes) \<Rightarrow>
                \<lparr>cl_resources =
                   \<lparr>rr_limits = limits,
                    rr_requests = map_option (lower_requests (list_of_resources limits)) requests\<rparr>,
                 cl_note = strings_Join (lnotes @ rnotes) '', ''\<rparr>)))"

section \<open>What clamping guarantees\<close>

definition within_max :: "resource_list \<Rightarrow> resource_list \<Rightarrow> bool" where
  "within_max mx l \<longleftrightarrow>
     (\<forall>(name, q) \<in> set l. \<exists>m. map_of mx name = Some m \<and> q_value q \<le> q_value m)"

lemma entry_findings_Nil_iff:
  "resource_entry_findings kind mx pre c (name, q) = [] \<longleftrightarrow>
     (\<exists>m. map_of mx name = Some m \<and> q_value q \<le> q_value m)"
  by (auto simp: resource_entry_findings_def split: option.splits)

lemma checkResources_Nil_iff:
  "checkResourcesAgainstMax (Some r) mx pre c = [] \<longleftrightarrow>
     within_max mx (list_of_resources (rr_limits r)) \<and>
     within_max mx (list_of_resources (rr_requests r))"
  by (auto simp: checkResourcesAgainstMax_def within_max_def entry_findings_Nil_iff)

lemma clampList_within: "within_max mx (fst (clampList mx l))"
  by (induction mx l rule: clampList.induct)
     (auto simp: within_max_def split: prod.splits option.splits if_splits)

lemma clampList_note_iff: "snd (clampList mx l) = [] \<longleftrightarrow> within_max mx l"
proof (induction mx l rule: clampList.induct)
  case (2 mx name q l)
  then show ?case
    by (cases "clampList mx l") (auto simp: within_max_def split: option.splits if_splits)
qed (simp add: within_max_def)

lemma lower_requests_within:
  "within_max mx limits \<Longrightarrow> within_max mx reqs \<Longrightarrow> within_max mx (lower_requests limits reqs)"
proof -
  assume l: "within_max mx limits" and r: "within_max mx reqs"
  have "\<exists>m. map_of mx name = Some m \<and> q_value lq \<le> q_value m" if "map_of limits name = Some lq"
    for name lq using l map_of_SomeD [OF that] by (auto simp: within_max_def)
  with r show ?thesis
    by (fastforce simp: within_max_def lower_requests_def split: option.splits)
qed

lemma lower_requests_below:
  "(name, q) \<in> set (lower_requests limits reqs) \<Longrightarrow> map_of limits name = Some lq \<Longrightarrow>
     q_value q \<le> q_value lq"
  by (auto simp: lower_requests_def)

lemma clamp_opt_simps:
  "clamp_opt mx None = (None, [])"
  "clamp_opt mx (Some m) = (Some (fst (clampList mx m)), snd (clampList mx m))"
  by (simp_all add: clamp_opt_def split: prod.splits)

lemma list_of_resources_simps [simp]:
  "list_of_resources None = []" "list_of_resources (Some m) = m"
  by (simp_all add: list_of_resources_def)

lemma clamp_opt_props:
  "within_max mx (list_of_resources (fst (clamp_opt mx l)))"
  "snd (clamp_opt mx l) = [] \<longleftrightarrow> within_max mx (list_of_resources l)"
  by (cases l; simp add: clamp_opt_simps clampList_within clampList_note_iff;
      simp add: within_max_def)+

lemma list_of_lower_requests:
  "list_of_resources (map_option (lower_requests limits) l) =
     lower_requests limits (list_of_resources l)"
  by (cases l) (simp_all add: lower_requests_def)

text \<open>What a resource routine promises its callers: its output respects the ceiling, and no request
  exceeds the limit of the same name.\<close>

locale resource_policy =
  fixes clamp :: "resource_requirements \<Rightarrow> resource_list \<Rightarrow> resource_requirements"
    and admit :: "resource_requirements \<Rightarrow> bool"
  assumes clamp_limits: "admit r \<Longrightarrow> within_max mx (list_of_resources (rr_limits (clamp r mx)))"
    and clamp_requests: "admit r \<Longrightarrow> within_max mx (list_of_resources (rr_requests (clamp r mx)))"
    and clamp_ordered: "admit r \<Longrightarrow>
      (name, q) \<in> set (list_of_resources (rr_requests (clamp r mx))) \<Longrightarrow>
      map_of (list_of_resources (rr_limits (clamp r mx))) name = Some lq \<Longrightarrow>
      q_value q \<le> q_value lq"
begin

lemma clamped_passes_policy:
  "admit r \<Longrightarrow> checkResourcesAgainstMax (Some (clamp r mx)) mx pre c = []"
  by (simp add: checkResources_Nil_iff clamp_limits clamp_requests)

end

definition has_resources :: "resource_requirements \<Rightarrow> bool" where
  "has_resources r \<longleftrightarrow>
     \<not> (list_of_resources (rr_requests r) = [] \<and> list_of_resources (rr_limits r) = [])"

lemma clamp_result_eq:
  "has_resources r \<Longrightarrow>
     applyDefaultsThenClamp (Some r) def mx =
       \<lparr>cl_resources =
          \<lparr>rr_limits = fst (clamp_opt mx (rr_limits r)),
           rr_requests = map_option (lower_requests
             (list_of_resources (fst (clamp_opt mx (rr_limits r))))) (fst (clamp_opt mx (rr_requests r)))\<rparr>,
        cl_note = strings_Join (snd (clamp_opt mx (rr_limits r)) @ snd (clamp_opt mx (rr_requests r))) '', ''\<rparr>"
  by (auto simp: has_resources_def applyDefaultsThenClamp_def split: prod.splits)

interpretation run_clamp: resource_policy
  "\<lambda>r mx. cl_resources (applyDefaultsThenClamp (Some r) def mx)" has_resources
  for def :: resource_requirements
proof (unfold_locales, goal_cases)
  case (1 r mx)
  then show ?case by (simp add: clamp_result_eq clamp_opt_props)
next
  case (2 r mx)
  then show ?case
    by (simp add: clamp_result_eq list_of_lower_requests lower_requests_within clamp_opt_props)
next
  case (3 r name q mx lq)
  then show ?case
    by (simp add: clamp_result_eq list_of_lower_requests lower_requests_below)
qed

lemma strings_Join_Nil_iff:
  "\<forall>s \<in> set xs. s \<noteq> [] \<Longrightarrow> strings_Join xs sep = [] \<longleftrightarrow> xs = []"
  by (induction xs sep rule: strings_Join.induct) auto

lemma clamp_notes_nonempty: "n \<in> set (snd (clamp_opt mx l)) \<Longrightarrow> n \<noteq> []"
proof -
  have "n \<in> set (snd (clampList mx m)) \<Longrightarrow> n \<noteq> []" for m
    by (induction mx m rule: clampList.induct) (auto split: prod.splits option.splits if_splits)
  then show "n \<in> set (snd (clamp_opt mx l)) \<Longrightarrow> n \<noteq> []"
    by (cases l) (auto simp: clamp_opt_simps)
qed

text \<open>C24. What the clamp makes of the resources of a component. Resources the pipeline states pass the policy that the save
  path enforces, and no request exceeds its limit; a component that states none gets the registry's default as it is,
  even where that exceeds the registry's own maximum.\<close>

theorem clamp_passes_policy:
  fixes def :: resource_requirements and mx :: resource_list
  defines "out \<equiv> \<lambda>ro. cl_resources (applyDefaultsThenClamp ro def mx)"
  shows "(\<forall>r. has_resources r \<longrightarrow> checkResourcesAgainstMax (Some (out (Some r))) mx pre c = [] \<and>
      (\<forall>name q lq. (name, q) \<in> set (list_of_resources (rr_requests (out (Some r)))) \<and>
         map_of (list_of_resources (rr_limits (out (Some r)))) name = Some lq \<longrightarrow> q_value q \<le> q_value lq)) \<and>
    out None = def \<and> (\<forall>r. \<not> has_resources r \<longrightarrow> out (Some r) = def)"
proof -
  have "out None = def \<and> (\<forall>r. \<not> has_resources r \<longrightarrow> out (Some r) = def)"
    by (auto simp: out_def applyDefaultsThenClamp_def has_resources_def)
  then show ?thesis using run_clamp.clamped_passes_policy run_clamp.clamp_ordered unfolding out_def by blast
qed

text \<open>The save-time check and the run-time clamp agree: the clamp reports a change exactly
  when the check reports a violation.\<close>

theorem clamp_note_iff_violation:
  assumes "has_resources r"
  shows "cl_note (applyDefaultsThenClamp (Some r) def mx) = [] \<longleftrightarrow>
    checkResourcesAgainstMax (Some r) mx pre c = []"
proof -
  have "strings_Join (snd (clamp_opt mx (rr_limits r)) @ snd (clamp_opt mx (rr_requests r))) '', '' = []
    \<longleftrightarrow> snd (clamp_opt mx (rr_limits r)) = [] \<and> snd (clamp_opt mx (rr_requests r)) = []"
    by (subst strings_Join_Nil_iff) (auto dest: clamp_notes_nonempty)
  with assms show ?thesis
    by (simp add: clamp_result_eq checkResources_Nil_iff clamp_opt_props(2))
qed

definition cpu :: "int \<Rightarrow> string \<Rightarrow> resource_list" where
  "cpu v t = [(''cpu'', \<lparr>q_value = v, q_text = t\<rparr>)]"

theorem clamp_passes_policy_witness:
  "checkResourcesAgainstMax (Some (cl_resources (applyDefaultsThenClamp
      (Some \<lparr>rr_limits = Some (cpu 4 ''4''), rr_requests = Some (cpu 3 ''3'')\<rparr>)
      no_resources (cpu 2 ''2'')))) (cpu 2 ''2'') ''p'' ''c'' = [] \<and>
    has_resources \<lparr>rr_limits = Some (cpu 4 ''4''), rr_requests = Some (cpu 3 ''3'')\<rparr>"
proof -
  have h: "has_resources \<lparr>rr_limits = Some (cpu 4 ''4''), rr_requests = Some (cpu 3 ''3'')\<rparr>"
    by (simp add: has_resources_def list_of_resources_def cpu_def)
  with clamp_passes_policy [of no_resources "cpu 2 ''2''" "''p''" "''c''"] show ?thesis
    by blast
qed

theorem clamp_note_iff_violation_witness:
  "cl_note (applyDefaultsThenClamp
      (Some \<lparr>rr_limits = Some (cpu 1 ''1''), rr_requests = None\<rparr>) no_resources (cpu 2 ''2'')) = []"
proof -
  have h: "has_resources \<lparr>rr_limits = Some (cpu 1 ''1''), rr_requests = None\<rparr>"
    by (simp add: has_resources_def list_of_resources_def cpu_def)
  have "checkResourcesAgainstMax (Some \<lparr>rr_limits = Some (cpu 1 ''1''), rr_requests = None\<rparr>)
      (cpu 2 ''2'') ''p'' ''c'' = []"
    by (simp add: checkResources_Nil_iff within_max_def list_of_resources_def cpu_def)
  with clamp_note_iff_violation [OF h, of no_resources "cpu 2 ''2''" "''p''" "''c''"] show ?thesis
    by blast
qed

end
