(* ===== verification/Validation.thy ===== *)
theory Validation
  imports Registry
begin

text \<open>
  Pipeline validation, \<open>pkg/pipeline/validate/validate.go\<close> with \<open>walker.go\<close> and
  \<open>secrets.go\<close>: the one set of semantic checks that the API's save path and the controller's run
  admission both run. Every check returns the findings it appends, in the code's order. Library
  calls are the fields of \<open>validate_lib\<close>: \<open>iceberg.ParseTransform\<close> with the transform's kind
  and its \<open>String()\<close>, \<open>time.ParseDuration\<close>, and the JSON Schema validation of a component's
  configuration (\<open>ValidateConfig\<close>). The registry is a \<open>registry_view\<close>, \<open>None\<close> for a nil one.
\<close>

section \<open>Library interface\<close>

datatype transform_kind =
    TrIdentity | TrVoid | TrYear | TrMonth | TrDay | TrHour | TrBucket | TrTruncate | TrUnknown

record transform =
  tr_kind :: transform_kind
  tr_string :: string

record validate_lib =
  vl_parseTransform :: "string \<Rightarrow> transform option"
  vl_parseDuration :: "string \<Rightarrow> string + int"
  vl_validateConfig :: "string \<Rightarrow> json gomap option \<Rightarrow> string \<Rightarrow> finding list"

section \<open>Names, modes and durations\<close>

definition lower_alnum :: "char \<Rightarrow> bool" where
  "lower_alnum c \<longleftrightarrow> is_digit c \<or> 97 \<le> (of_char c :: nat) \<and> (of_char c :: nat) \<le> 122"

definition bucketNameRegex :: "string \<Rightarrow> bool" where
  "bucketNameRegex s \<longleftrightarrow>
     3 \<le> length s \<and> length s \<le> 63 \<and> lower_alnum (hd s) \<and> lower_alnum (last s) \<and>
     list_all (\<lambda>c. lower_alnum c \<or> c = CHR ''-'') (butlast (tl s))"

definition ident_start :: "char \<Rightarrow> bool" where
  "ident_start c \<longleftrightarrow>
     (let n = (of_char c :: nat) in 65 \<le> n \<and> n \<le> 90 \<or> 97 \<le> n \<and> n \<le> 122 \<or> n = 95)"

definition tableNameRegex :: "string \<Rightarrow> bool" where
  "tableNameRegex s \<longleftrightarrow>
     s \<noteq> [] \<and> ident_start (hd s) \<and> list_all (\<lambda>c. ident_start c \<or> is_digit c) (tl s)"

text \<open>The three name checks return the message, the empty string when the name is valid.\<close>

definition bucketNameError :: "string \<Rightarrow> string" where
  "bucketNameError name =
     (if name = [] then ''bucket name is required''
      else if strings_Contains name ''.'' then
        ''bucket name '' @ fmt_q name @ '' cannot contain dots''
      else if \<not> bucketNameRegex name then
        ''bucket name '' @ fmt_q name @
        '' is invalid: must be lowercase alphanumeric with hyphens, 3-63 chars''
      else [])"

definition tableNameError :: "string \<Rightarrow> string" where
  "tableNameError name =
     (if name = [] then ''table name is required''
      else if \<not> tableNameRegex name then
        ''table name '' @ fmt_q name @
        '' is invalid: must be alphanumeric with underscores, start with letter or underscore''
      else [])"

definition writeModeError :: "string \<Rightarrow> string" where
  "writeModeError mode =
     (if strings_ToUpper mode \<in> {''APPEND'', ''FULL_LOAD'', []} then []
      else ''invalid writeMode '' @ fmt_q mode @ '', must be APPEND or FULL_LOAD'')"

definition hour_ns :: int where
  "hour_ns = 3600000000000"

text \<open>\<open>time.Duration(n) * 24 * time.Hour\<close> is 64-bit arithmetic.\<close>

definition parseSinceDuration :: "(string \<Rightarrow> string + int) \<Rightarrow> string \<Rightarrow> string + int" where
  "parseSinceDuration parse_duration s =
     (if s = [] then Inl ''empty duration string''
      else if strings_HasSuffix s ''d'' then
        (case strconv_Atoi (butlast s) of
           Some n \<Rightarrow>
             if n \<le> 0 then
               Inl (''invalid since duration '' @ fmt_q s @
                    '': must be a positive integer followed by d'')
             else Inr (wrap64 (wrap64 (n * 24) * hour_ns))
         | None \<Rightarrow>
             Inl (''invalid since duration '' @ fmt_q s @
                  '': must be a positive integer followed by d''))
      else if strings_HasSuffix s ''w'' then
        (case strconv_Atoi (butlast s) of
           Some n \<Rightarrow>
             if n \<le> 0 then
               Inl (''invalid since duration '' @ fmt_q s @
                    '': must be a positive integer followed by w'')
             else Inr (wrap64 (wrap64 (wrap64 (n * 7) * 24) * hour_ns))
         | None \<Rightarrow>
             Inl (''invalid since duration '' @ fmt_q s @
                  '': must be a positive integer followed by w''))
      else
        (case parse_duration s of
           Inl e \<Rightarrow> Inl (''invalid since duration '' @ fmt_q s @ '': '' @ e)
         | Inr d \<Rightarrow>
             if d \<le> 0 then Inl (''invalid since duration '' @ fmt_q s @ '': must be positive'')
             else Inr d))"

section \<open>Partition transforms\<close>

definition parsePartitionTransform :: "validate_lib \<Rightarrow> string \<Rightarrow> transform option" where
  "parsePartitionTransform lib s =
     (case vl_parseTransform lib s of
        None \<Rightarrow> None
      | Some tr \<Rightarrow> if tr_kind tr = TrUnknown \<or> tr_string tr \<noteq> s then None else Some tr)"

definition isTimeTransform :: "transform \<Rightarrow> bool" where
  "isTimeTransform tr \<longleftrightarrow> tr_kind tr \<in> {TrYear, TrMonth, TrDay, TrHour}"

definition supportedPartitionTransforms :: string where
  "supportedPartitionTransforms =
     ''identity, year, month, day, hour, void, bucket[N], truncate[W]''"

text \<open>One turn of the loop over the partition fields: the findings and the two maps \<open>seen\<close>
  (keyed by column and transform) and \<open>timeSource\<close> (column to time transform).\<close>

type_synonym partition_state = "string list \<times> string gomap"

definition partition_field_step ::
    "validate_lib \<Rightarrow> string \<Rightarrow> string \<Rightarrow> string \<Rightarrow> nat \<Rightarrow> partition_field_spec \<Rightarrow> partition_state \<Rightarrow>
     finding list \<times> partition_state" where
  "partition_field_step lib compName tableName tablePath i field st =
     (case st of (seen, timeSource) \<Rightarrow>
      let fieldPath = tablePath @ ''.partitionFields['' @ nat_str i @ '']'';
          where_i = ''component '' @ compName @ '', output table '' @ tableName @
                    '', partitionSpec['' @ nat_str i @ '']: '';
          where_t = ''component '' @ compName @ '', output table '' @ tableName @ '', partitionSpec: '';
          col = pf_sourceColumn field;
          f1 = (if col = []
                then [err (fieldPath @ ''.sourceColumn'') (where_i @ ''source_column is required'')]
                else []);
          f2 = (if pf_transform field = []
                then [err (fieldPath @ ''.transform'') (where_i @ ''transform is required'')]
                else []);
          ok = parsePartitionTransform lib (pf_transform field);
          f3 = (if pf_transform field \<noteq> [] \<and> ok = None
                then [err (fieldPath @ ''.transform'')
                        (where_i @ ''invalid transform '' @ fmt_q (pf_transform field) @
                         '' (supported: '' @ supportedPartitionTransforms @
                         ''; N and W integers 1-2147483647)'')]
                else [])
      in if col = [] then (f1 @ f2 @ f3, st)
         else (case ok of
           None \<Rightarrow> (f1 @ f2 @ f3, st)
         | Some tr \<Rightarrow>
             let key = col @ [CHR 0x00] @ tr_string tr;
                 dup = (if key \<in> set seen
                        then [err fieldPath
                                (where_t @ ''duplicate partition field '' @ tr_string tr @ ''('' @ col @ '')'')]
                        else []);
                 seen' = key # seen
             in if \<not> isTimeTransform tr then (f1 @ f2 @ f3 @ dup, (seen', timeSource))
                else
                  let red = (case map_of timeSource col of
                               None \<Rightarrow> []
                             | Some prev \<Rightarrow>
                                 if prev \<noteq> tr_string tr
                                 then [err (fieldPath @ ''.transform'')
                                         (where_t @ prev @ ''('' @ col @ '') and '' @ tr_string tr @ ''('' @ col @
                                          '') are redundant; use one time transform per column'')]
                                 else [])
                  in (f1 @ f2 @ f3 @ dup @ red,
                      (seen', assoc_put col (tr_string tr) timeSource))))"

fun partition_loop ::
    "validate_lib \<Rightarrow> string \<Rightarrow> string \<Rightarrow> string \<Rightarrow> nat \<Rightarrow> partition_field_spec list \<Rightarrow>
     partition_state \<Rightarrow> finding list" where
  "partition_loop lib compName tableName tablePath i [] st = []"
| "partition_loop lib compName tableName tablePath i (field # fs) st =
     (case partition_field_step lib compName tableName tablePath i field st of
        (f, st') \<Rightarrow> f @ partition_loop lib compName tableName tablePath (Suc i) fs st')"

definition validatePartitionSpec ::
    "validate_lib \<Rightarrow> string \<Rightarrow> string \<Rightarrow> partition_field_spec list \<Rightarrow> string \<Rightarrow> finding list" where
  "validatePartitionSpec lib compName tableName spec tablePath =
     partition_loop lib compName tableName tablePath 0 spec ([], [])"

section \<open>Columns and processors\<close>

definition validColumnTypes :: "string list" where
  "validColumnTypes =
     [''int'', ''long'', ''float'', ''double'', ''boolean'', ''string'', ''variant'']"

fun column_loop ::
    "string \<Rightarrow> string \<Rightarrow> string \<Rightarrow> nat \<Rightarrow> column_spec list \<Rightarrow> string list \<Rightarrow> finding list" where
  "column_loop compName tableName tablePath i [] seen = []"
| "column_loop compName tableName tablePath i (col # cols) seen =
     (let colPath = tablePath @ ''.columns['' @ nat_str i @ '']'';
          wher = ''component '' @ compName @ '', output table '' @ tableName;
          f1 = (if col_name col = [] then
                  [err (colPath @ ''.name'') (wher @ '', columns['' @ nat_str i @ '']: name is required'')]
                else if col_name col \<in> set seen then
                  [err (colPath @ ''.name'')
                     (wher @ '', columns: duplicate column name '' @ fmt_q (col_name col))]
                else []);
          f2 = (if col_type col \<in> set validColumnTypes then []
                else [err (colPath @ ''.type'')
                        (wher @ '', columns['' @ nat_str i @ '']: invalid type '' @ fmt_q (col_type col) @
                         '' (supported: int, long, float, double, boolean, string, variant)'')]);
          seen' = (if col_name col = [] \<or> col_name col \<in> set seen then seen else col_name col # seen)
      in f1 @ f2 @ column_loop compName tableName tablePath (Suc i) cols seen')"

definition validateColumnSpec ::
    "string \<Rightarrow> string \<Rightarrow> column_spec list \<Rightarrow> string \<Rightarrow> finding list" where
  "validateColumnSpec compName tableName cols tablePath = column_loop compName tableName tablePath 0 cols []"

definition processor_findings :: "string \<Rightarrow> string \<Rightarrow> nat \<times> processor_spec \<Rightarrow> finding list" where
  "processor_findings compName base ip =
     (case ip of (i, p) \<Rightarrow>
        let procPath = base @ ''.processors['' @ nat_str i @ '']'';
            wher = ''component '' @ compName @ '', processor '' @ nat_str i
        in if proc_type p \<noteq> ''drop'' then
             [err (procPath @ ''.type'')
                (wher @ '': invalid type '' @ fmt_q (proc_type p) @ '' (supported: drop)'')]
           else if proc_columns p = [] then
             [err (procPath @ ''.columns'') (wher @ '': drop requires columns'')]
           else [])"

definition validateProcessors :: "string \<Rightarrow> processor_spec list \<Rightarrow> string \<Rightarrow> finding list" where
  "validateProcessors compName procs base =
     concat (map (processor_findings compName base) (indexed procs))"

section \<open>Outputs\<close>

definition name_finding :: "string \<Rightarrow> string \<Rightarrow> string \<Rightarrow> finding list" where
  "name_finding path pre msg = (if msg \<noteq> [] then [err path (pre @ msg)] else [])"

definition output_bucket_findings ::
    "string \<Rightarrow> string \<Rightarrow> nat \<times> output_bucket_spec \<Rightarrow> finding list" where
  "output_bucket_findings compName base ib =
     (case ib of (i, b) \<Rightarrow>
        let path = base @ ''.buckets['' @ nat_str i @ '']'' in
        name_finding (path @ ''.name'')
          (''component '' @ compName @ '', output bucket '' @ nat_str i @ '': '')
          (bucketNameError (ob_name b)) @
        name_finding (path @ ''.writeMode'')
          (''component '' @ compName @ '', output bucket '' @ ob_name b @ '': '')
          (writeModeError (ob_writeMode b)))"

definition output_table_findings ::
    "validate_lib \<Rightarrow> string \<Rightarrow> string \<Rightarrow> nat \<times> output_table_spec \<Rightarrow> finding list" where
  "output_table_findings lib compName base it =
     (case it of (i, t) \<Rightarrow>
        let tablePath = base @ ''.tables['' @ nat_str i @ '']'';
            wher = ''component '' @ compName @ '', output table ''
        in (if ot_name t = [] then
              [err (tablePath @ ''.name'') (wher @ nat_str i @ '': name is required'')]
            else name_finding (tablePath @ ''.name'') (wher @ nat_str i @ '': '')
                   (tableNameError (ot_name t))) @
           name_finding (tablePath @ ''.bucket'') (wher @ ot_name t @ '' bucket: '')
             (bucketNameError (ot_bucket t)) @
           name_finding (tablePath @ ''.writeMode'') (wher @ ot_name t @ '': '')
             (writeModeError (ot_writeMode t)) @
           validatePartitionSpec lib compName (ot_name t) (ot_partitionFields t) tablePath @
           validateColumnSpec compName (ot_name t) (ot_columns t) tablePath)"

definition validateOutputs ::
    "validate_lib \<Rightarrow> string \<Rightarrow> output_spec \<Rightarrow> nat \<Rightarrow> nat \<Rightarrow> finding list" where
  "validateOutputs lib compName out stageIdx compIdx =
     (let base = ''stages['' @ nat_str stageIdx @ ''].components['' @ nat_str compIdx @ ''].outputs'';
          hasDefault = out_defaultBucket out \<noteq> []
      in (if hasDefault \<and> (out_buckets out \<noteq> [] \<or> out_tables out \<noteq> []) then
            [err base (''component '' @ compName @
               '': defaultBucket is exclusive, cannot be combined with buckets or tables'')]
          else []) @
         (if hasDefault then
            name_finding (base @ ''.defaultBucket'')
              (''component '' @ compName @ '', defaultBucket: '')
              (bucketNameError (out_defaultBucket out)) @
            name_finding (base @ ''.defaultWriteMode'')
              (''component '' @ compName @ '', defaultWriteMode: '')
              (writeModeError (out_defaultWriteMode out))
          else []) @
         concat (map (output_bucket_findings compName base) (indexed (out_buckets out))) @
         concat (map (output_table_findings lib compName base) (indexed (out_tables out))) @
         validateProcessors compName (out_processors out) base)"

section \<open>Inputs\<close>

text \<open>The tables (keyed \<open>bucket.table\<close>) and buckets that earlier components produce.\<close>

record availability =
  av_tables :: "string list"
  av_buckets :: "string list"

definition input_bucket_findings ::
    "string \<Rightarrow> string \<Rightarrow> nat \<Rightarrow> availability \<Rightarrow> nat \<times> string \<Rightarrow> finding list" where
  "input_bucket_findings compName base stageIdx av ib =
     (case ib of (k, bucket) \<Rightarrow>
        let path = base @ ''.buckets['' @ nat_str k @ '']'' in
        name_finding path (''component '' @ compName @ '', input bucket: '') (bucketNameError bucket) @
        (if 0 < stageIdx \<and> bucket \<notin> set (av_buckets av) then
           [err path (''component '' @ compName @ '': input bucket '' @ fmt_q bucket @
              '' not available from previous stages'')]
         else []))"

definition since_count :: "input_table_spec \<Rightarrow> nat" where
  "since_count t =
     (if it_since t \<noteq> [] then 1 else 0) + (if it_sinceSnapshot t \<noteq> None then 1 else 0) +
     (if it_sinceDays t \<noteq> None then 1 else 0)"

definition input_table_findings ::
    "validate_lib \<Rightarrow> string \<Rightarrow> string \<Rightarrow> nat \<Rightarrow> availability \<Rightarrow> nat \<times> input_table_spec \<Rightarrow> finding list" where
  "input_table_findings lib compName base stageIdx av it =
     (case it of (k, t) \<Rightarrow>
        let tablePath = base @ ''.tables['' @ nat_str k @ '']'';
            wher = ''component '' @ compName @ '', input table '' @ it_bucket t @ ''.'' @ it_table t @ '': '';
            tableKey = it_bucket t @ ''.'' @ it_table t
        in name_finding (tablePath @ ''.bucket'')
             (''component '' @ compName @ '', input table bucket: '') (bucketNameError (it_bucket t)) @
           name_finding (tablePath @ ''.table'')
             (''component '' @ compName @ '', input table: '') (tableNameError (it_table t)) @
           (if 1 < since_count t then
              [err tablePath (wher @ ''since, sinceSnapshot and sinceDays are mutually exclusive'')]
            else []) @
           (if it_since t \<noteq> [] then
              (case parseSinceDuration (vl_parseDuration lib) (it_since t) of
                 Inl e \<Rightarrow> [err (tablePath @ ''.since'') (wher @ e)]
               | Inr _ \<Rightarrow> [])
            else []) @
           (case it_sinceDays t of
              None \<Rightarrow> []
            | Some d \<Rightarrow>
                if d \<le> 0 then
                  [err (tablePath @ ''.sinceDays'')
                     (wher @ ''sinceDays must be positive (got '' @ fmt_d d @ '')'')]
                else []) @
           (if 0 < stageIdx \<and> tableKey \<notin> set (av_tables av) \<and> it_bucket t \<notin> set (av_buckets av) then
              [warn tablePath
                 (''component '' @ compName @ '': input table '' @ fmt_q tableKey @
                  '' not produced by an earlier stage '' @ em_dash @
                  '' assumed to pre-exist in storage; the run fails at read time if it doesn'' @
                  [CHR 0x27] @ ''t'')]
            else []))"

definition validateInputs ::
    "validate_lib \<Rightarrow> string \<Rightarrow> input_spec \<Rightarrow> nat \<Rightarrow> nat \<Rightarrow> availability \<Rightarrow> finding list" where
  "validateInputs lib compName inp stageIdx compIdx av =
     (let base = ''stages['' @ nat_str stageIdx @ ''].components['' @ nat_str compIdx @ ''].inputs''
      in concat (map (input_bucket_findings compName base stageIdx av) (indexed (in_buckets inp))) @
         concat (map (input_table_findings lib compName base stageIdx av) (indexed (in_tables inp))))"

definition registerOutputs :: "output_spec \<Rightarrow> availability \<Rightarrow> availability" where
  "registerOutputs out av =
     (if out_defaultBucket out \<noteq> [] then
        av\<lparr>av_buckets := out_defaultBucket out # av_buckets av\<rparr>
      else
        \<lparr>av_tables = map (\<lambda>t. ot_bucket t @ ''.'' @ ot_name t) (out_tables out) @ av_tables av,
         av_buckets = map ob_name (out_buckets out) @ map ot_bucket (out_tables out) @ av_buckets av\<rparr>)"

section \<open>Components\<close>

definition componentHasInputs :: "component_spec \<Rightarrow> bool" where
  "componentHasInputs c \<longleftrightarrow>
     (case cs_inputs c of None \<Rightarrow> False | Some i \<Rightarrow> in_buckets i \<noteq> [] \<or> in_tables i \<noteq> [])"

definition componentHasOutputs :: "component_spec \<Rightarrow> bool" where
  "componentHasOutputs c \<longleftrightarrow>
     (case cs_outputs c of
        None \<Rightarrow> False
      | Some out \<Rightarrow> out_defaultBucket out \<noteq> [] \<or> out_buckets out \<noteq> [] \<or> out_tables out \<noteq> [])"

definition comp_base :: "nat \<Rightarrow> nat \<Rightarrow> string" where
  "comp_base stageIdx compIdx =
     ''stages['' @ nat_str stageIdx @ ''].components['' @ nat_str compIdx @ '']''"

definition validateComponent ::
    "validate_lib \<Rightarrow> component_spec \<Rightarrow> nat \<Rightarrow> nat \<Rightarrow> availability \<Rightarrow> finding list" where
  "validateComponent lib c stageIdx compIdx av =
     (let base = comp_base stageIdx compIdx
      in (if cs_name c = [] then
            [err (base @ ''.name'')
               (''stage '' @ nat_str stageIdx @ '', component '' @ nat_str compIdx @ '': name is required'')]
          else []) @
         (if cs_component c = [] then
            [err (base @ ''.component'') (''component '' @ cs_name c @ '': component is required'')]
          else []) @
         (case cs_inputs c of
            None \<Rightarrow> [] | Some i \<Rightarrow> validateInputs lib (cs_name c) i stageIdx compIdx av) @
         (case cs_outputs c of
            None \<Rightarrow> [] | Some out \<Rightarrow> validateOutputs lib (cs_name c) out stageIdx compIdx) @
         (if \<not> componentHasInputs c \<and> \<not> componentHasOutputs c then
            [err base (''component '' @ cs_name c @ '': must have at least inputs or outputs defined'')]
          else []))"

definition io_findings :: "string \<Rightarrow> bool \<Rightarrow> string \<Rightarrow> string \<Rightarrow> string \<Rightarrow> finding list" where
  "io_findings mode has path none_msg req_msg =
     (if mode = ''none'' \<and> has then [err path none_msg]
      else if mode = ''required'' \<and> \<not> has then [err path req_msg]
      else [])"

definition checkIOCapability ::
    "component_spec \<Rightarrow> component_io option \<Rightarrow> string \<Rightarrow> finding list" where
  "checkIOCapability c io base =
     io_findings (InputsMode io) (componentHasInputs c) (base @ ''.inputs'')
       (''component '' @ cs_name c @ '' takes no inputs'')
       (''component '' @ cs_name c @ '' requires at least one input'') @
     io_findings (OutputsMode io) (componentHasOutputs c) (base @ ''.outputs'')
       (''component '' @ cs_name c @ '' takes no outputs'')
       (''component '' @ cs_name c @ '' requires at least one output'')"

definition joinKey :: "string \<Rightarrow> string \<Rightarrow> string" where
  "joinKey path key = (if path = [] then key else path @ ''.'' @ key)"

definition validateRegistry ::
    "validate_lib \<Rightarrow> component_spec \<Rightarrow> nat \<Rightarrow> nat \<Rightarrow> registry_view option \<Rightarrow> finding list" where
  "validateRegistry lib c stageIdx compIdx reg =
     (case reg of
        None \<Rightarrow> []
      | Some resolve \<Rightarrow>
          let base = comp_base stageIdx compIdx in
          (case resolve (cs_component c) (cs_version c) of (rc, resolveFindings) \<Rightarrow>
             map (\<lambda>f. f\<lparr>fd_path := joinKey base (fd_path f)\<rparr>) resolveFindings @
             (case rc of
                None \<Rightarrow> []
              | Some r \<Rightarrow>
                  checkIOCapability c (rc_io r) base @
                  checkResourcesAgainstMax (cs_resources c) (cr_max (rc_resources r)) base (cs_component c) @
                  (case rc_configSchema r of
                     None \<Rightarrow> []
                   | Some raw \<Rightarrow>
                       (case ConfigMap c of
                          Inl _ \<Rightarrow> []
                        | Inr cfg \<Rightarrow> vl_validateConfig lib raw cfg (base @ ''.config''))))))"

section \<open>Secret references\<close>

text \<open>\<open>walkStrings\<close> as the list of calls it makes; a \<open>map[any]any\<close> is not visited.\<close>

fun walkStrings :: "json \<Rightarrow> string \<Rightarrow> (string \<times> string) list"
and walkStrings_map :: "json gomap \<Rightarrow> string \<Rightarrow> (string \<times> string) list"
and walkStrings_arr :: "json list \<Rightarrow> nat \<Rightarrow> string \<Rightarrow> (string \<times> string) list" where
  "walkStrings (JObj kvs) path = walkStrings_map kvs path"
| "walkStrings (JArr xs) path = walkStrings_arr xs 0 path"
| "walkStrings (JStr s) path = [(path, s)]"
| "walkStrings JNull path = []"
| "walkStrings (JBool b) path = []"
| "walkStrings (JNum n) path = []"
| "walkStrings (JAnyMap kvs) path = []"
| "walkStrings_map [] path = []"
| "walkStrings_map ((k, child) # kvs) path =
     walkStrings child (joinKey path k) @ walkStrings_map kvs path"
| "walkStrings_arr [] i path = []"
| "walkStrings_arr (child # xs) i path =
     walkStrings child (path @ ''['' @ nat_str i @ '']'') @ walkStrings_arr xs (Suc i) path"

definition validateSecretRefs :: "component_spec \<Rightarrow> nat \<Rightarrow> nat \<Rightarrow> finding list" where
  "validateSecretRefs c stageIdx compIdx =
     (let base = comp_base stageIdx compIdx @ ''.config'' in
      case ConfigMap c of
        Inl e \<Rightarrow> [err base e]
      | Inr None \<Rightarrow> []
      | Inr (Some cfg) \<Rightarrow>
          concat (map (\<lambda>(path, s). case Validate (JStr s) of Inl e \<Rightarrow> [err path e] | Inr _ \<Rightarrow> [])
                    (walkStrings (JObj cfg) base)))"

definition component_secret_refs :: "component_spec \<Rightarrow> string list" where
  "component_secret_refs c =
     (case ConfigMap c of
        Inl _ \<Rightarrow> []
      | Inr None \<Rightarrow> []
      | Inr (Some cfg) \<Rightarrow>
          concat (map (\<lambda>(path, s). case Validate (JStr s) of Inl _ \<Rightarrow> [] | Inr names \<Rightarrow> names)
                    (walkStrings (JObj cfg) [])))"

definition all_components :: "pipeline \<Rightarrow> component_spec list" where
  "all_components p = concat (map st_components (ps_stages (p_spec p)))"

definition ReferencedSecrets :: "pipeline \<Rightarrow> string list" where
  "ReferencedSecrets p = sort_strings (concat (map component_secret_refs (all_components p)))"

section \<open>The whole pipeline\<close>

fun validate_components ::
    "validate_lib \<Rightarrow> registry_view option \<Rightarrow> nat \<Rightarrow> nat \<Rightarrow> component_spec list \<Rightarrow> availability \<Rightarrow>
     finding list \<times> availability" where
  "validate_components lib reg i j [] av = ([], av)"
| "validate_components lib reg i j (c # cs) av =
     (let av' = (case cs_outputs c of None \<Rightarrow> av | Some out \<Rightarrow> registerOutputs out av) in
      case validate_components lib reg i (Suc j) cs av' of (fs, av'') \<Rightarrow>
        (validateComponent lib c i j av @ validateRegistry lib c i j reg @ fs, av''))"

fun validate_stages ::
    "validate_lib \<Rightarrow> registry_view option \<Rightarrow> nat \<Rightarrow> stage_spec list \<Rightarrow> availability \<Rightarrow> finding list" where
  "validate_stages lib reg i [] av = []"
| "validate_stages lib reg i (stage # stages) av =
     (if st_name stage = [] then
        [err (''stages['' @ nat_str i @ ''].name'') (''stage '' @ nat_str i @ '': name is required'')]
      else []) @
     (if st_components stage = [] then
        [err (''stages['' @ nat_str i @ ''].components'')
           (''stage '' @ st_name stage @ '': must have at least one component'')]
      else []) @
     (case validate_components lib reg i 0 (st_components stage) av of
        (fs, av') \<Rightarrow> fs @ validate_stages lib reg (Suc i) stages av')"

text \<open>The components with their stage and component index, in the order the checks visit them.\<close>

definition component_positions :: "pipeline \<Rightarrow> (nat \<times> nat \<times> component_spec) list" where
  "component_positions p =
     concat (map (\<lambda>(i, stage). map (\<lambda>(j, c). (i, j, c)) (indexed (st_components stage)))
               (indexed (ps_stages (p_spec p))))"

fun unique_names_loop :: "(nat \<times> nat \<times> component_spec) list \<Rightarrow> string list \<Rightarrow> finding list" where
  "unique_names_loop [] seen = []"
| "unique_names_loop ((i, j, c) # cs) seen =
     (if cs_name c = [] then unique_names_loop cs seen
      else if cs_name c \<in> set seen then
        err (comp_base i j @ ''.name'')
          (''component name '' @ fmt_q (cs_name c) @ '' is not unique '' @ em_dash @
           '' component instance names must be unique across the whole pipeline'')
        # unique_names_loop cs seen
      else unique_names_loop cs (cs_name c # seen))"

definition checkUniqueComponentNames :: "pipeline \<Rightarrow> finding list" where
  "checkUniqueComponentNames p = unique_names_loop (component_positions p) []"

definition ValidateTyped ::
    "validate_lib \<Rightarrow> pipeline option \<Rightarrow> registry_view option \<Rightarrow> gateway_bounds option \<Rightarrow> finding list" where
  "ValidateTyped lib pipe reg pol =
     (case pipe of
        None \<Rightarrow> [err [] ''pipeline is nil'']
      | Some p \<Rightarrow>
          (if p_name p = [] then [err ''metadata.name'' ''pipeline metadata.name is required''] else []) @
          (if ps_stages (p_spec p) = [] then
             [err ''spec.stages'' ''pipeline must have at least one stage'']
           else []) @
          validate_stages lib reg 0 (ps_stages (p_spec p)) \<lparr>av_tables = [], av_buckets = []\<rparr> @
          checkUniqueComponentNames p @
          concat (map (\<lambda>(i, j, c). validateSecretRefs c i j) (component_positions p)) @
          checkGatewayBounds p pol)"

section \<open>What a pipeline without error findings satisfies\<close>

definition no_errors :: "finding list \<Rightarrow> bool" where
  "no_errors fs \<longleftrightarrow> list_all (\<lambda>f. fd_severity f \<noteq> severityError) fs"

lemma no_errors_simps [simp]:
  "no_errors []" "no_errors (f # fs) \<longleftrightarrow> fd_severity f \<noteq> severityError \<and> no_errors fs"
  "no_errors (fs @ gs) \<longleftrightarrow> no_errors fs \<and> no_errors gs"
  "no_errors (concat fss) \<longleftrightarrow> (\<forall>fs \<in> set fss. no_errors fs)"
  by (auto simp: no_errors_def list_all_iff)

lemma err_severity [simp]: "fd_severity (err path msg) = severityError"
  by (simp add: err_def)

lemma no_errors_name_finding [simp]: "no_errors (name_finding path pre msg) \<longleftrightarrow> msg = []"
  by (simp add: name_finding_def)

lemma no_errors_if [simp]: "no_errors (if b then [err path msg] else fs) \<longleftrightarrow> \<not> b \<and> no_errors fs"
  by simp

definition output_table_ok :: "output_table_spec \<Rightarrow> bool" where
  "output_table_ok t \<longleftrightarrow>
     tableNameRegex (ot_name t) \<and> bucketNameRegex (ot_bucket t) \<and>
     strings_ToUpper (ot_writeMode t) \<in> {''APPEND'', ''FULL_LOAD'', []} \<and>
     distinct (map col_name (ot_columns t)) \<and> (\<forall>c \<in> set (ot_columns t). col_type c \<in> set validColumnTypes)"

definition outputs_ok :: "output_spec \<Rightarrow> bool" where
  "outputs_ok out \<longleftrightarrow>
     (out_defaultBucket out \<noteq> [] \<longrightarrow> out_buckets out = [] \<and> out_tables out = []) \<and>
     (\<forall>t \<in> set (out_tables out). output_table_ok t)"

definition component_ok :: "component_spec \<Rightarrow> bool" where
  "component_ok c \<longleftrightarrow>
     cs_name c \<noteq> [] \<and> cs_component c \<noteq> [] \<and> (componentHasInputs c \<or> componentHasOutputs c) \<and>
     (case cs_outputs c of None \<Rightarrow> True | Some out \<Rightarrow> outputs_ok out)"

definition stage_ok :: "stage_spec \<Rightarrow> bool" where
  "stage_ok stage \<longleftrightarrow>
     st_name stage \<noteq> [] \<and> st_components stage \<noteq> [] \<and> (\<forall>c \<in> set (st_components stage). component_ok c)"

lemma bucketNameError_iff: "bucketNameError name = [] \<longleftrightarrow> bucketNameRegex name"
proof -
  have "bucketNameRegex name \<Longrightarrow> \<not> strings_Contains name ''.''"
  proof
    assume r: "bucketNameRegex name" and "strings_Contains name ''.''"
    have "set s \<subseteq> {c. lower_alnum c \<or> c = CHR ''-''} \<Longrightarrow> strings_Index s ''.'' = None" for s
      by (induction s) (auto simp: strings_HasPrefix_def lower_alnum_def is_digit_def)
    moreover have "set name \<subseteq> {c. lower_alnum c \<or> c = CHR ''-''}"
    proof -
      from r obtain a t where n: "name = a # t" "t \<noteq> []"
        by (cases name) (auto simp: bucketNameRegex_def Suc_le_length_iff numeral_eq_Suc)
      then have "set name = insert a (insert (last t) (set (butlast t)))"
        by (metis append_butlast_last_id insert_commute list.simps(15) rotate1.simps(2) set_rotate1)
      with r n show ?thesis by (auto simp: bucketNameRegex_def list_all_iff)
    qed
    ultimately show False using \<open>strings_Contains name ''.''\<close> by (simp add: strings_Contains_def)
  qed
  moreover have "bucketNameRegex name \<Longrightarrow> name \<noteq> []" by (auto simp: bucketNameRegex_def)
  ultimately show ?thesis by (auto simp: bucketNameError_def)
qed

lemma tableNameError_iff: "tableNameError name = [] \<longleftrightarrow> tableNameRegex name"
  by (auto simp: tableNameError_def tableNameRegex_def)

lemma writeModeError_iff:
  "writeModeError mode = [] \<longleftrightarrow> strings_ToUpper mode \<in> {''APPEND'', ''FULL_LOAD'', []}"
  by (simp add: writeModeError_def)

lemma column_loop_ok:
  "no_errors (column_loop cn tn tp i cols seen) \<Longrightarrow>
     distinct (map col_name cols) \<and> set (map col_name cols) \<inter> set seen = {} \<and>
     (\<forall>c \<in> set cols. col_type c \<in> set validColumnTypes)"
proof (induction cols arbitrary: i seen)
  case (Cons a cols)
  from Cons.prems have a: "col_name a \<notin> set seen" "col_type a \<in> set validColumnTypes"
    and rec: "no_errors (column_loop cn tn tp (Suc i) cols (col_name a # seen))"
    by (auto simp: Let_def split: if_splits)
  from Cons.IH [OF rec] a show ?case by auto
qed simp

lemma output_table_findings_ok:
  "no_errors (output_table_findings lib cn base (i, t)) \<Longrightarrow> output_table_ok t"
  by (auto simp: output_table_findings_def output_table_ok_def Let_def validateColumnSpec_def
      bucketNameError_iff tableNameError_iff writeModeError_iff dest: column_loop_ok split: if_splits)

lemma validateOutputs_ok:
  assumes "no_errors (validateOutputs lib cn out i j)"
  shows "outputs_ok out"
proof -
  have "output_table_ok t" if "t \<in> set (out_tables out)" for t
  proof -
    from that obtain k where "(k, t) \<in> set (indexed (out_tables out))"
      by (metis in_set_conv_nth set_indexed)
    with assms show ?thesis
      by (auto simp: validateOutputs_def Let_def intro!: output_table_findings_ok)
  qed
  with assms show ?thesis by (auto simp: outputs_ok_def validateOutputs_def Let_def split: if_splits)
qed

lemma validateComponent_ok:
  "no_errors (validateComponent lib c i j av) \<Longrightarrow> component_ok c"
  by (auto simp: validateComponent_def component_ok_def Let_def dest: validateOutputs_ok
      split: option.splits if_splits)

lemma validate_components_ok:
  "no_errors (fst (validate_components lib reg i j cs av)) \<Longrightarrow> \<forall>c \<in> set cs. component_ok c"
proof (induction cs arbitrary: j av)
  case (Cons c cs)
  let ?av = "case cs_outputs c of None \<Rightarrow> av | Some out \<Rightarrow> registerOutputs out av"
  from Cons.prems have "no_errors (validateComponent lib c i j av)"
    and "no_errors (fst (validate_components lib reg i (Suc j) cs ?av))"
    by (auto simp: Let_def split: prod.splits)
  with Cons.IH validateComponent_ok show ?case by auto
qed simp

lemma validate_stages_ok:
  "no_errors (validate_stages lib reg i stages av) \<Longrightarrow> \<forall>stage \<in> set stages. stage_ok stage"
proof (induction stages arbitrary: i av)
  case (Cons stage stages)
  obtain fs av' where v: "validate_components lib reg i 0 (st_components stage) av = (fs, av')"
    by force
  with Cons.prems have "no_errors fs" "no_errors (validate_stages lib reg (Suc i) stages av')"
    by auto
  with Cons.IH validate_components_ok [of lib reg i 0 "st_components stage" av] v Cons.prems
  show ?case by (auto simp: stage_ok_def split: if_splits)
qed simp

lemma unique_names_loop_ok:
  "no_errors (unique_names_loop cs seen) \<Longrightarrow> \<forall>(i, j, c) \<in> set cs. cs_name c \<noteq> [] \<Longrightarrow>
     distinct (map (\<lambda>(i, j, c). cs_name c) cs) \<and>
     (\<lambda>(i, j, c). cs_name c) ` set cs \<inter> set seen = {}"
  by (induction cs seen rule: unique_names_loop.induct) (auto split: if_splits)

lemma map_indexed_snd: "map (\<lambda>(i, x). f x) (indexed xs) = map f xs"
proof -
  have "map (\<lambda>(i, x). f x) (indexed xs) = map f (map snd (indexed xs))"
    by (simp add: case_prod_beta)
  then show ?thesis by (simp only: indexed_snd)
qed

lemma component_positions_components:
  "map (\<lambda>(i, j, c). f c) (component_positions p) = map f (all_components p)"
proof -
  have "map (\<lambda>(i, j, c). f c) (component_positions p) =
      concat (map (\<lambda>(i, stage). map f (st_components stage)) (indexed (ps_stages (p_spec p))))"
    by (simp add: component_positions_def map_concat case_prod_beta' comp_def
        map_indexed_snd [unfolded case_prod_beta'])
  also have "\<dots> = map f (all_components p)"
    by (simp add: map_indexed_snd all_components_def map_concat comp_def)
  finally show ?thesis .
qed

definition pipeline_ok :: "pipeline \<Rightarrow> bool" where
  "pipeline_ok p \<longleftrightarrow>
     p_name p \<noteq> [] \<and> ps_stages (p_spec p) \<noteq> [] \<and> (\<forall>stage \<in> set (ps_stages (p_spec p)). stage_ok stage) \<and>
     distinct (map cs_name (all_components p))"

lemma pipeline_ok_intro:
  assumes "p_name p \<noteq> []" "ps_stages (p_spec p) \<noteq> []"
    and st: "\<forall>stage \<in> set (ps_stages (p_spec p)). stage_ok stage"
    and un: "no_errors (checkUniqueComponentNames p)"
  shows "pipeline_ok p"
proof -
  have "\<forall>c \<in> set (all_components p). cs_name c \<noteq> []"
    using st by (auto simp: all_components_def stage_ok_def component_ok_def)
  then have "\<forall>n \<in> set (map (\<lambda>(i, j, c). cs_name c) (component_positions p)). n \<noteq> []"
    by (simp only: component_positions_components set_map) simp
  then have "\<forall>(i, j, c) \<in> set (component_positions p). cs_name c \<noteq> []" by auto
  with un have "distinct (map (\<lambda>(i, j, c). cs_name c) (component_positions p))"
    using unique_names_loop_ok [of "component_positions p" "[]"]
    by (simp add: checkUniqueComponentNames_def)
  then have "distinct (map cs_name (all_components p))"
    by (simp only: component_positions_components)
  with assms show ?thesis by (simp add: pipeline_ok_def)
qed

text \<open>C23. A pipeline without error findings has a name, at least one stage, no empty or unnamed
  stage, only components with a name, a registry reference and some input or output, well-formed
  output tables with distinct columns, and component names that are unique across all stages.\<close>

theorem ValidateTyped_sound:
  assumes "no_errors (ValidateTyped lib (Some p) reg pol)"
  shows "pipeline_ok p"
  using assms
  by (intro pipeline_ok_intro)
     (auto simp: ValidateTyped_def intro: validate_stages_ok [rule_format] split: if_splits)

text \<open>A small pipeline for the concrete instances: one stage whose only component writes one
  table.\<close>

definition sample_table :: output_table_spec where
  "sample_table = \<lparr>ot_name = ''t'', ot_bucket = ''raw'', ot_logicalName = [], ot_writeMode = [],
     ot_partitionFields = [], ot_columns = []\<rparr>"

definition sample_component :: component_spec where
  "sample_component = \<lparr>cs_name = ''gen'', cs_component = ''data-generator'', cs_version = [],
     cs_config = Some (Inr (Some [(''pw'', JStr ''$[db]'')])), cs_inputs = None,
     cs_outputs = Some \<lparr>out_defaultBucket = [], out_defaultWriteMode = [], out_buckets = [],
       out_tables = [sample_table], out_processors = []\<rparr>,
     cs_resources = None\<rparr>"

definition sample_pipeline :: pipeline where
  "sample_pipeline = \<lparr>p_name = ''demo'', p_generation = 1,
     p_spec = \<lparr>ps_gateway = \<lparr>gw_chunkSize = 0, gw_bufferSize = 0, gw_rowGroupSize = 0,
                              gw_targetFileSize = 0\<rparr>,
              ps_stages = [\<lparr>st_name = ''extract'', st_components = [sample_component]\<rparr>]\<rparr>\<rparr>"

definition no_lib :: validate_lib where
  "no_lib = \<lparr>vl_parseTransform = (\<lambda>_. None), vl_parseDuration = (\<lambda>_. Inl []),
     vl_validateConfig = (\<lambda>_ _ _. [])\<rparr>"

lemmas name_eval = bucketNameRegex_def tableNameRegex_def lower_alnum_def ident_start_def is_digit_def
  bucketNameError_def tableNameError_def writeModeError_def strings_ToUpper_def to_upper_char_def
  strings_Contains_def strings_HasPrefix_def

lemmas secret_eval = Validate_def checkLeafSyntax_def refPattern_def name_char_def
  escapePattern_def anyRefLike_def sort_strings_def

lemmas pipeline_eval = ValidateTyped_def validateComponent_def validateRegistry_def validateOutputs_def
  validateInputs_def output_table_findings_def output_bucket_findings_def input_bucket_findings_def
  input_table_findings_def since_count_def validatePartitionSpec_def validateColumnSpec_def
  validateProcessors_def name_finding_def componentHasInputs_def componentHasOutputs_def
  registerOutputs_def checkUniqueComponentNames_def component_positions_def indexed_def
  validateSecretRefs_def ConfigMap_def checkGatewayBounds_def

lemma sample_pipeline_clean: "ValidateTyped no_lib (Some sample_pipeline) None None = []"
  by (simp add: sample_pipeline_def sample_component_def sample_table_def pipeline_eval name_eval
      secret_eval Let_def)

theorem ValidateTyped_sound_witness: "pipeline_ok sample_pipeline"
  by (rule ValidateTyped_sound [of no_lib _ None None]) (simp add: sample_pipeline_clean)

section \<open>Secrets of a pipeline\<close>

text \<open>JSON decoding never produces a \<open>map[any]any\<close>.\<close>

fun plain_json :: "json \<Rightarrow> bool" where
  "plain_json (JObj kvs) = list_all (\<lambda>kv. plain_json (snd kv)) kvs"
| "plain_json (JArr xs) = list_all plain_json xs"
| "plain_json (JAnyMap kvs) = False"
| "plain_json _ = True"

lemma walkStrings_leaves:
  "plain_json t \<Longrightarrow> map snd (walkStrings t path) = leaves t"
  "list_all (\<lambda>kv. plain_json (snd kv)) kvs \<Longrightarrow>
     map snd (walkStrings_map kvs path) = concat (map (\<lambda>kv. leaves (snd kv)) kvs)"
  "list_all plain_json xs \<Longrightarrow> map snd (walkStrings_arr xs i path) = concat (map leaves xs)"
  by (induction t path and kvs path and xs i path
        rule: walkStrings_walkStrings_map_walkStrings_arr.induct) auto

lemma Validate_leaf:
  "Validate (JStr s) = (if well_formed_leaf s then Inr (leaf_refs s) else Inl (malformed_ref [] s))"
proof -
  have "sort_strings (leaf_refs s) = leaf_refs s"
    by (simp add: leaf_refs_def sort_strings_def split: option.split)
  then show ?thesis by (simp add: Validate_def checkLeafSyntax_eq leaf_refs_def split: option.splits)
qed

lemma leaf_refs_well_formed: "leaf_refs s \<noteq> [] \<Longrightarrow> well_formed_leaf s"
  by (auto simp: leaf_refs_def well_formed_leaf_def split: option.splits)

lemma component_secret_refs_eq:
  assumes "ConfigMap c = Inr (Some cfg)" "plain_json (JObj cfg)"
  shows "set (component_secret_refs c) = ref_names (JObj cfg)"
proof -
  have "component_secret_refs c =
      concat (map (\<lambda>s. case Validate (JStr s) of Inl _ \<Rightarrow> [] | Inr names \<Rightarrow> names)
        (map snd (walkStrings (JObj cfg) [])))"
    using assms(1) by (simp add: component_secret_refs_def case_prod_beta' comp_def)
  also have "\<dots> = concat (map leaf_refs (map snd (walkStrings (JObj cfg) [])))"
  proof -
    have "(case Validate (JStr s) of Inl _ \<Rightarrow> [] | Inr names \<Rightarrow> names) = leaf_refs s" for s
      using leaf_refs_well_formed [of s]
      by (cases "well_formed_leaf s"; cases "leaf_refs s") (auto simp: Validate_leaf)
    then show ?thesis by (simp only:)
  qed
  also have "\<dots> = concat (map leaf_refs (leaves (JObj cfg)))"
    by (simp only: walkStrings_leaves(1) [OF assms(2)])
  finally show ?thesis by (simp only: set_refs_of)
qed

lemma set_ReferencedSecrets:
  "set (ReferencedSecrets p) = (\<Union>c \<in> set (all_components p). set (component_secret_refs c))"
  by (simp add: ReferencedSecrets_def sort_strings_props)

lemma validateSecretRefs_ok:
  assumes "no_errors (validateSecretRefs c i j)" "ConfigMap c = Inr (Some cfg)" "plain_json (JObj cfg)"
  shows "Validate (JObj cfg) = Inr (sorted_refs (JObj cfg))"
proof -
  let ?w = "walkStrings (JObj cfg) (comp_base i j @ ''.config'')"
  from assms(1,2) have "\<forall>(path, s) \<in> set ?w. well_formed_leaf s"
    by (auto simp: validateSecretRefs_def Validate_leaf split: if_splits)
  then have "\<forall>s \<in> set (map snd ?w). well_formed_leaf s" by auto
  then have "list_all well_formed_leaf (leaves (JObj cfg))"
    by (simp only: walkStrings_leaves(1) [OF assms(3)] list_all_iff)
  then show ?thesis by (simp only: Validate_eq if_True)
qed

lemma ValidateTyped_secrets_ok:
  assumes "no_errors (ValidateTyped lib (Some p) reg pol)" "c \<in> set (all_components p)"
  shows "\<exists>i j. no_errors (validateSecretRefs c i j)"
proof -
  from assms(2) have "c \<in> set (map (\<lambda>(i, j, c). c) (component_positions p))"
    using component_positions_components [of "\<lambda>x. x" p] by simp
  then obtain i j where "(i, j, c) \<in> set (component_positions p)" by auto
  with assms(1) show ?thesis by (fastforce simp: ValidateTyped_def)
qed

text \<open>\<open>ReferencedSecrets\<close> is the sorted duplicate-free list of exactly the names that
  whole-scalar references in the components' decoded configurations mention.\<close>

theorem ReferencedSecrets_exact:
  assumes "\<And>c. c \<in> set (all_components p) \<Longrightarrow> \<exists>cfg. ConfigMap c = Inr (Some cfg) \<and> plain_json (JObj cfg)"
  shows "sorted (ReferencedSecrets p) \<and> distinct (ReferencedSecrets p) \<and>
    (n \<in> set (ReferencedSecrets p) \<longleftrightarrow>
      (\<exists>c \<in> set (all_components p). \<exists>cfg. ConfigMap c = Inr (Some cfg) \<and> n \<in> ref_names (JObj cfg)))"
proof -
  have "n \<in> set (component_secret_refs c) \<longleftrightarrow>
      (\<exists>cfg. ConfigMap c = Inr (Some cfg) \<and> n \<in> ref_names (JObj cfg))"
    if "c \<in> set (all_components p)" for c
    using assms [OF that] component_secret_refs_eq [of c] by auto
  then show ?thesis
    by (simp add: set_ReferencedSecrets) (simp add: ReferencedSecrets_def sort_strings_props)
qed

lemma sample_components: "all_components sample_pipeline = [sample_component]"
  by (simp add: all_components_def sample_pipeline_def)

theorem ReferencedSecrets_exact_witness:
  "''db'' \<in> set (ReferencedSecrets sample_pipeline)"
proof -
  have cfg: "\<exists>cfg. ConfigMap c = Inr (Some cfg) \<and> plain_json (JObj cfg)"
    if "c \<in> set (all_components sample_pipeline)" for c
    using that by (simp add: sample_components sample_component_def ConfigMap_def)
  have "''db'' \<in> ref_names (JObj [(''pw'', JStr ''$[db]'')])"
    by (simp add: ref_names_def refPattern_def name_char_def)
  then have "\<exists>c \<in> set (all_components sample_pipeline).
      \<exists>cfg. ConfigMap c = Inr (Some cfg) \<and> ''db'' \<in> ref_names (JObj cfg)"
    by (simp add: sample_components sample_component_def ConfigMap_def)
  with ReferencedSecrets_exact [of sample_pipeline "''db''"] cfg show ?thesis by blast
qed

section \<open>Durations\<close>

lemma strings_HasSuffix_snoc [simp]: "strings_HasSuffix (s @ [c]) [d] \<longleftrightarrow> c = d"
  by (simp add: strings_HasSuffix_def)

text \<open>\<open>Nd\<close> is \<open>N\<close> days as long as that fits 64-bit nanoseconds, that is up to 106751 days;
  \<open>106752d\<close> is accepted as well and wraps to a negative duration, a cutoff in the future.\<close>

theorem parseSinceDuration_days:
  "(1 \<le> n \<and> n \<le> 106751 \<longrightarrow> parseSinceDuration pd (fmt_d n @ ''d'') = Inr (n * 24 * hour_ns)) \<and>
   parseSinceDuration pd ''106752d'' = Inr (- 9223371273709551616)"
proof (intro conjI impI)
  assume n: "1 \<le> n \<and> n \<le> 106751"
  then have "strconv_Atoi (fmt_d n) = Some n" by (intro strconv_Atoi_fmt_d) (auto simp: max_int64_def)
  moreover have "wrap64 (n * 24) = n * 24" "wrap64 (n * 24 * hour_ns) = n * 24 * hour_ns"
    using n by (auto intro!: wrap64_id simp: max_int64_def hour_ns_def)
  ultimately show "parseSinceDuration pd (fmt_d n @ ''d'') = Inr (n * 24 * hour_ns)"
    using n by (simp add: parseSinceDuration_def)
next
  have "strconv_Atoi ''106752'' = Some 106752"
    by (simp add: strconv_Atoi_def atoi_value_def is_digit_def digit_val_def max_int64_def)
  then show "parseSinceDuration pd ''106752d'' = Inr (- 9223371273709551616)"
    by (simp add: parseSinceDuration_def strings_HasSuffix_def wrap64_def hour_ns_def)
qed

theorem parseSinceDuration_days_witness:
  "parseSinceDuration (\<lambda>_. Inl []) (fmt_d 3 @ ''d'') = Inr (3 * 24 * hour_ns)"
  using parseSinceDuration_days [of 3 "\<lambda>_. Inl []"] by simp

section \<open>Availability within one stage\<close>

definition bucket_component :: "string \<Rightarrow> string list \<Rightarrow> string \<Rightarrow> component_spec" where
  "bucket_component name ins dest = \<lparr>cs_name = name, cs_component = ''sql-transform'', cs_version = [],
     cs_config = None,
     cs_inputs = (if ins = [] then None else Some \<lparr>in_buckets = ins, in_tables = []\<rparr>),
     cs_outputs = Some \<lparr>out_defaultBucket = dest, out_defaultWriteMode = [], out_buckets = [],
       out_tables = [], out_processors = []\<rparr>,
     cs_resources = None\<rparr>"

definition two_stages :: "component_spec list \<Rightarrow> pipeline" where
  "two_stages comps = sample_pipeline\<lparr>p_spec := (p_spec sample_pipeline)\<lparr>ps_stages :=
     [\<lparr>st_name = ''extract'', st_components = [sample_component]\<rparr>,
      \<lparr>st_name = ''load'', st_components = comps\<rparr>]\<rparr>\<rparr>"

text \<open>The check that an input bucket is available "from previous stages" also counts the
  outputs of components listed earlier in the same stage, which run concurrently: the pipeline below
  reads in stage 1 a bucket that only its sibling in stage 1 writes and gets no finding, while with
  the two components swapped it gets exactly one.\<close>

theorem same_stage_output_counts_as_available:
  "ValidateTyped no_lib
     (Some (two_stages [bucket_component ''w'' [] ''mid'', bucket_component ''r'' [''mid''] ''out''])) None None = [] \<and>
   length (ValidateTyped no_lib
     (Some (two_stages [bucket_component ''r'' [''mid''] ''out'', bucket_component ''w'' [] ''mid''])) None None) = 1"
proof
  show "ValidateTyped no_lib
     (Some (two_stages [bucket_component ''w'' [] ''mid'', bucket_component ''r'' [''mid''] ''out''])) None None = []"
    by (simp add: two_stages_def bucket_component_def sample_pipeline_def sample_component_def
        sample_table_def pipeline_eval name_eval secret_eval Let_def)
  show "length (ValidateTyped no_lib
     (Some (two_stages [bucket_component ''r'' [''mid''] ''out'', bucket_component ''w'' [] ''mid''])) None None) = 1"
    by (simp add: two_stages_def bucket_component_def sample_pipeline_def sample_component_def
        sample_table_def pipeline_eval name_eval secret_eval Let_def)
qed

end
