(* ===== verification/Job_Builder.thy ===== *)
theory Job_Builder
  imports Validation
begin

text \<open>
  What the operator builds for one component of a run,
  \<open>pkg/k8s/controllers/pipelinerun_jobs.go\<close> with \<open>iter_tag.go\<close>: object names, the gateway
  sidecar's configuration and environment, the volumes and mounts, and the Job. YAML rendering
  (\<open>yaml.Marshal\<close>) is a parameter; the configuration handed to it is a \<open>json\<close> tree. The clock
  is a parameter in nanoseconds.
\<close>

section \<open>Operator settings\<close>

datatype pull_policy = PullDefault | PullAlways | PullIfNotPresent | PullNever

record operator_config =
  oc_gatewayImage :: string
  oc_lakekeeperURL :: string
  oc_pipelineAPIURL :: string
  oc_gatewayDebug :: bool
  oc_profilingEnabled :: bool
  oc_profilingServer :: string
  oc_profilingUsername :: string
  oc_profilingPassword :: string
  oc_runtimePullPolicy :: pull_policy
  oc_tolerations :: "string list"

definition PipelineRunDefaultGatewayImage :: string where
  "PipelineRunDefaultGatewayImage = ''datuplet/gateway:latest''"

definition PipelineRunGatewayPort :: nat where
  "PipelineRunGatewayPort = 50051"

definition JobTTLSecondsAfterFinished :: int where
  "JobTTLSecondsAfterFinished = 3600"

section \<open>Names\<close>

definition shortID :: "string \<Rightarrow> string" where
  "shortID s = (if length s < 8 then s else take 8 s)"

definition componentJobName :: "pipelinerun \<Rightarrow> string \<Rightarrow> string \<Rightarrow> string" where
  "componentJobName pr stageName componentName =
     ''datuplet-'' @ str_prefix 15 (pr_name pr) @ ''-'' @ str_prefix 10 stageName @ ''-'' @
     str_prefix 10 componentName @ ''-'' @ shortID (rn_runID (pr_status pr))"

definition runSecretsName :: "pipelinerun \<Rightarrow> string" where
  "runSecretsName pr = ''datuplet-runsecrets-'' @ shortID (rn_runID (pr_status pr))"

text \<open>\<open>colon > strings.LastIndex(img, "/")\<close>, where a missing index is \<open>-1\<close>.\<close>

definition index_int :: "nat option \<Rightarrow> int" where
  "index_int k = (case k of None \<Rightarrow> - 1 | Some i \<Rightarrow> int i)"

definition iterTagFromImage :: "string \<Rightarrow> string" where
  "iterTagFromImage img =
     (let img1 = (case strings_Index img ''@'' of None \<Rightarrow> img | Some a \<Rightarrow> take a img);
          colon = strings_LastIndex img1 '':'';
          img2 = (if index_int colon > index_int (strings_LastIndex img1 ''/'')
                  then take (the colon) img1 else img1)
      in case strings_LastIndex img2 ''-iter-'' of
           None \<Rightarrow> []
         | Some i \<Rightarrow> drop (i + 6) img2)"

section \<open>Pull policies\<close>

definition componentPullPolicy :: "string \<Rightarrow> pull_policy" where
  "componentPullPolicy version = (if IsStableVersion version then PullIfNotPresent else PullAlways)"

definition componentImagePullPolicy :: "operator_config \<Rightarrow> string \<Rightarrow> pull_policy" where
  "componentImagePullPolicy r version =
     (if oc_runtimePullPolicy r \<noteq> PullDefault then oc_runtimePullPolicy r
      else componentPullPolicy version)"

definition runtimePullPolicy :: "operator_config \<Rightarrow> pull_policy" where
  "runtimePullPolicy r =
     (if oc_runtimePullPolicy r \<noteq> PullDefault then oc_runtimePullPolicy r else PullAlways)"

section \<open>Environment\<close>

text \<open>A variable has a literal value or, through the downward API, a field reference.\<close>

datatype env_var = EnvValue string string | EnvField string string

definition env_if :: "bool \<Rightarrow> string \<Rightarrow> string \<Rightarrow> env_var list" where
  "env_if b name val = (if b then [EnvValue name val] else [])"

definition profiling_on :: "operator_config \<Rightarrow> bool" where
  "profiling_on r \<longleftrightarrow> oc_profilingEnabled r \<and> oc_profilingServer r \<noteq> []"

definition profiling_env :: "operator_config \<Rightarrow> string \<Rightarrow> env_var list" where
  "profiling_env r switch =
     [EnvValue switch ''true'',
      EnvValue ''PYROSCOPE_SERVER_ADDRESS'' (oc_profilingServer r),
      EnvField ''POD_NAMESPACE'' ''metadata.namespace''] @
     env_if (oc_profilingUsername r \<noteq> []) ''PYROSCOPE_USERNAME'' (oc_profilingUsername r) @
     env_if (oc_profilingPassword r \<noteq> []) ''PYROSCOPE_PASSWORD'' (oc_profilingPassword r)"

definition buildGatewaySidecarEnv :: "operator_config \<Rightarrow> pipelinerun \<Rightarrow> env_var list" where
  "buildGatewaySidecarEnv r pr =
     [EnvValue ''RUN_ID'' (rn_runID (pr_status pr))] @
     env_if (oc_gatewayDebug r) ''DATUPLET_GATEWAY_DEBUG'' ''true'' @
     (if profiling_on r then profiling_env r ''DATUPLET_GATEWAY_PROFILING'' else []) @
     (let iterID = iterTagFromImage (oc_gatewayImage r) in
      env_if (iterID \<noteq> []) ''DATUPLET_ITERATION_ID'' iterID)"

definition component_env :: "operator_config \<Rightarrow> pipelinerun \<Rightarrow> env_var list" where
  "component_env r pr =
     [EnvValue ''DATUPLET_GATEWAY_ADDR'' (''127.0.0.1:'' @ nat_str PipelineRunGatewayPort),
      EnvValue ''RUN_ID'' (rn_runID (pr_status pr))] @
     (if profiling_on r then
        profiling_env r ''DATUPLET_COMPONENT_PROFILING'' @
        (let iterID = iterTagFromImage (oc_gatewayImage r) in
         env_if (iterID \<noteq> []) ''DATUPLET_ITERATION_ID'' iterID)
      else [])"

section \<open>Gateway configuration\<close>

definition jint :: "int \<Rightarrow> json" where
  "jint i = JNum (fmt_d i)"

text \<open>Buckets in first-occurrence order, the empty name and repetitions left out.\<close>

fun add_buckets :: "string list \<Rightarrow> string list \<Rightarrow> string list" where
  "add_buckets acc [] = acc"
| "add_buckets acc (b # bs) =
     add_buckets (if b \<noteq> [] \<and> b \<notin> set acc then acc @ [b] else acc) bs"

definition inputBuckets :: "component_spec \<Rightarrow> string list" where
  "inputBuckets c =
     (case cs_inputs c of
        None \<Rightarrow> []
      | Some i \<Rightarrow> add_buckets (add_buckets [] (in_buckets i)) (map it_bucket (in_tables i)))"

definition outputBuckets :: "component_spec \<Rightarrow> string list" where
  "outputBuckets c =
     (case cs_outputs c of
        None \<Rightarrow> []
      | Some out \<Rightarrow>
          add_buckets
            (add_buckets (add_buckets [] [out_defaultBucket out]) (map ob_name (out_buckets out)))
            (map ot_bucket (out_tables out)))"

definition or_default :: "int \<Rightarrow> int \<Rightarrow> int" where
  "or_default v d = (if v = 0 then d else v)"

text \<open>\<open>ParseSinceDuration\<close> of \<open>pkg/pipeline/config\<close> is the same code as the validator's.\<close>

definition ParseSinceDuration :: "(string \<Rightarrow> string + int) \<Rightarrow> string \<Rightarrow> string + int" where
  "ParseSinceDuration pd s = parseSinceDuration pd s"

definition unix_milli :: "int \<Rightarrow> int" where
  "unix_milli t = t div 1000000"

definition since_entries ::
    "(string \<Rightarrow> string + int) \<Rightarrow> int \<Rightarrow> input_table_spec \<Rightarrow> json gomap" where
  "since_entries pd now t =
     (let col = (if it_timestampColumn t \<noteq> []
                 then [(''timestamp_column'', JStr (it_timestampColumn t))] else [])
      in case it_sinceDays t of
           Some d \<Rightarrow>
             if 0 < d then
               (''since_timestamp_ms'',
                jint (unix_milli (now + wrap64 (wrap64 (- d * 24) * hour_ns)))) # col
             else if it_since t \<noteq> [] then
               (case ParseSinceDuration pd (it_since t) of
                  Inl _ \<Rightarrow> []
                | Inr dur \<Rightarrow> (''since_timestamp_ms'', jint (unix_milli (now + wrap64 (- dur)))) # col)
             else (case it_sinceSnapshot t of
                     None \<Rightarrow> [] | Some s \<Rightarrow> [(''since_snapshot'', jint s)])
         | None \<Rightarrow>
             if it_since t \<noteq> [] then
               (case ParseSinceDuration pd (it_since t) of
                  Inl _ \<Rightarrow> []
                | Inr dur \<Rightarrow> (''since_timestamp_ms'', jint (unix_milli (now + wrap64 (- dur)))) # col)
             else (case it_sinceSnapshot t of
                     None \<Rightarrow> [] | Some s \<Rightarrow> [(''since_snapshot'', jint s)]))"

definition input_table_entry ::
    "(string \<Rightarrow> string + int) \<Rightarrow> int \<Rightarrow> input_table_spec \<Rightarrow> json list" where
  "input_table_entry pd now t =
     (if it_bucket t \<noteq> [] \<and> it_table t \<noteq> [] then
        [JObj ([(''bucket'', JStr (it_bucket t)), (''table'', JStr (it_table t))] @
               (if it_logicalName t \<noteq> [] then [(''as'', JStr (it_logicalName t))] else []) @
               since_entries pd now t)]
      else [])"

definition output_table_entry :: "output_table_spec \<Rightarrow> json list" where
  "output_table_entry t =
     (if ot_bucket t \<noteq> [] \<and> ot_name t \<noteq> [] then
        [JObj ([(''name'', JStr (ot_name t)), (''bucket'', JStr (ot_bucket t)),
                (''write_mode'', JStr (if ot_writeMode t = [] then ''APPEND'' else ot_writeMode t))] @
               (if ot_logicalName t \<noteq> [] then [(''logical_name'', JStr (ot_logicalName t))] else []) @
               (if ot_partitionFields t \<noteq> [] then
                  [(''partition_fields'', JArr (map (\<lambda>pf. JObj
                      [(''source_column'', JStr (pf_sourceColumn pf)),
                       (''transform'', JStr (pf_transform pf))]) (ot_partitionFields t)))]
                else []) @
               (if ot_columns t \<noteq> [] then
                  [(''columns'', JArr (map (\<lambda>cs. JObj
                      [(''name'', JStr (col_name cs)), (''type'', JStr (col_type cs))]) (ot_columns t)))]
                else []))]
      else [])"

definition opt_arr :: "string \<Rightarrow> json list \<Rightarrow> json gomap" where
  "opt_arr key xs = (if xs \<noteq> [] then [(key, JArr xs)] else [])"

definition component_section :: "component_spec \<Rightarrow> json gomap \<Rightarrow> json gomap" where
  "component_section c config =
     (if config \<noteq> [] then [(''config'', JObj config)] else []) @
     (case cs_outputs c of
        None \<Rightarrow> []
      | Some out \<Rightarrow>
          if out_processors out \<noteq> [] then
            [(''outputs'', JObj [(''processors'', JArr (map (\<lambda>p. JObj
                ((''type'', JStr (proc_type p)) #
                 (if proc_columns p \<noteq> [] then [(''columns'', JArr (map JStr (proc_columns p)))] else [])))
                (out_processors out)))])]
          else [])"

record gateway_sizes =
  gz_chunk :: int
  gz_buffer :: int
  gz_rowGroup :: int
  gz_targetFile :: int

definition gateway_settings :: "pipeline \<Rightarrow> gateway_sizes" where
  "gateway_settings p =
     (let g = ps_gateway (p_spec p);
          buffer = or_default (gw_bufferSize g) (64 * 1024 * 1024)
      in \<lparr>gz_chunk = or_default (gw_chunkSize g) (32 * 1024 * 1024),
          gz_buffer = buffer,
          gz_rowGroup = or_default (gw_rowGroupSize g) buffer,
          gz_targetFile = or_default (gw_targetFileSize g) (128 * 1024 * 1024)\<rparr>)"

definition secretsMountPath :: string where
  "secretsMountPath = ''/var/run/secrets/datuplet''"

text \<open>The tree given to \<open>yaml.Marshal\<close>.\<close>

definition gateway_config_tree ::
    "(string \<Rightarrow> string + int) \<Rightarrow> int \<Rightarrow> operator_config \<Rightarrow> pipelinerun \<Rightarrow> pipeline \<Rightarrow>
     component_spec \<Rightarrow> json gomap \<Rightarrow> json gomap" where
  "gateway_config_tree pd now r pr p c config =
     [(''mode'', JStr ''minio''), (''run_id'', JStr (rn_runID (pr_status pr)))] @
     (case rs_preview (pr_spec pr) of
        None \<Rightarrow> []
      | Some pv \<Rightarrow> [(''preview'', JObj [(''id'', JStr (pv_id pv)), (''row_limit'', jint (pv_rowLimit pv))])]) @
     opt_arr ''input_buckets'' (map JStr (inputBuckets c)) @
     opt_arr ''output_buckets'' (map JStr (outputBuckets c)) @
     (case cs_inputs c of
        None \<Rightarrow> []
      | Some i \<Rightarrow> opt_arr ''input_tables'' (concat (map (input_table_entry pd now) (in_tables i)))) @
     (case cs_outputs c of
        None \<Rightarrow> []
      | Some out \<Rightarrow>
          opt_arr ''output_tables'' (concat (map output_table_entry (out_tables out))) @
          (if out_defaultBucket out \<noteq> [] then
             [(''default_bucket'', JStr (out_defaultBucket out)),
              (''default_write_mode'',
               JStr (if out_defaultWriteMode out = [] then ''FULL_LOAD'' else out_defaultWriteMode out))]
           else [])) @
     (let z = gateway_settings p in
      [(''gateway'', JObj [(''chunk_size'', jint (gz_chunk z)), (''buffer_size'', jint (gz_buffer z)),
          (''row_group_size'', jint (gz_rowGroup z)), (''target_file_size'', jint (gz_targetFile z))])]) @
     (let cm = component_section c config in
      if cm \<noteq> [] then [(''component'', JObj cm)] else []) @
     (if ReferencedSecrets p \<noteq> [] then [(''secrets_dir'', JStr secretsMountPath)] else []) @
     (if oc_lakekeeperURL r \<noteq> [] then
        (''lakekeeper_url'', JStr (oc_lakekeeperURL r)) #
        (if oc_pipelineAPIURL r \<noteq> [] then
           [(''pipeline_api_jwks_url'',
             JStr (strings_TrimSuffix (oc_pipelineAPIURL r) ''/'' @ ''/api/v1/auth/jwks.json''))]
         else [])
      else [])"

definition nl :: string where
  "nl = [CHR 0x0A]"

definition fallback_yaml :: "operator_config \<Rightarrow> pipelinerun \<Rightarrow> pipeline \<Rightarrow> string" where
  "fallback_yaml r pr p =
     (let z = gateway_settings p in
      ''mode: minio'' @ nl @ ''run_id: '' @ rn_runID (pr_status pr) @ nl @
      ''lakekeeper_url: '' @ oc_lakekeeperURL r @ nl @ ''gateway:'' @ nl @
      ''  chunk_size: '' @ fmt_d (gz_chunk z) @ nl @ ''  buffer_size: '' @ fmt_d (gz_buffer z) @ nl @
      ''  row_group_size: '' @ fmt_d (gz_rowGroup z) @ nl @
      ''  target_file_size: '' @ fmt_d (gz_targetFile z) @ nl)"

definition generateGatewayConfig ::
    "(string \<Rightarrow> string + int) \<Rightarrow> (json \<Rightarrow> string option) \<Rightarrow> int \<Rightarrow> operator_config \<Rightarrow> pipelinerun \<Rightarrow>
     pipeline \<Rightarrow> component_spec \<Rightarrow> string + string" where
  "generateGatewayConfig pd yaml now r pr p c =
     (case ConfigMap c of
        Inl e \<Rightarrow> Inl e
      | Inr cfg \<Rightarrow>
          let config = (case cfg of None \<Rightarrow> [] | Some m \<Rightarrow> m) in
          (case yaml (JObj (gateway_config_tree pd now r pr p c config)) of
             None \<Rightarrow> Inr (fallback_yaml r pr p)
           | Some text \<Rightarrow> Inr text))"

section \<open>Pods and Jobs\<close>

datatype volume_source =
    ConfigMapSource string
  | SecretSource string bool int "(string \<times> string) list"
  | DownwardAPISource string string

record volume =
  vol_name :: string
  vol_source :: volume_source

record volume_mount =
  vm_name :: string
  vm_path :: string
  vm_readOnly :: bool

record security_context =
  sc_runAsNonRoot :: "bool option"
  sc_runAsUser :: "int option"
  sc_runAsGroup :: "int option"
  sc_allowPrivilegeEscalation :: "bool option"
  sc_dropCapabilities :: "string list"
  sc_seccompRuntimeDefault :: bool

record container =
  ctr_name :: string
  ctr_image :: string
  ctr_pullPolicy :: pull_policy
  ctr_args :: "string list"
  ctr_env :: "env_var list"
  ctr_restartAlways :: bool
  ctr_ports :: "nat list"
  ctr_mounts :: "volume_mount list"
  ctr_resources :: resource_requirements
  ctr_security :: "security_context option"

record pod_spec =
  pod_restartPolicy :: string
  pod_init :: "container list"
  pod_containers :: "container list"
  pod_volumes :: "volume list"
  pod_fsGroup :: "int option"
  pod_tolerations :: "string list"
  pod_automountToken :: "bool option"

record job =
  job_name :: string
  job_namespace :: string
  job_labels :: "string gomap"
  job_backoffLimit :: int
  job_ttl :: int
  job_podLabels :: "string gomap"
  job_pod :: pod_spec

record config_map =
  cm_name :: string
  cm_namespace :: string
  cm_labels :: "string gomap"
  cm_data :: "string gomap"

definition secretsMountFSGroup :: int where
  "secretsMountFSGroup = 65532"

definition file_mode_0440 :: int where
  "file_mode_0440 = 288"

text \<open>The gateway sidecar is the first init container; the Go code holds a pointer to it.\<close>

definition map_gateway :: "(container \<Rightarrow> container) \<Rightarrow> pod_spec \<Rightarrow> pod_spec" where
  "map_gateway f pod =
     pod\<lparr>pod_init := (case pod_init pod of [] \<Rightarrow> [] | g # rest \<Rightarrow> f g # rest)\<rparr>"

definition no_security :: security_context where
  "no_security = \<lparr>sc_runAsNonRoot = None, sc_runAsUser = None, sc_runAsGroup = None,
     sc_allowPrivilegeEscalation = None, sc_dropCapabilities = [], sc_seccompRuntimeDefault = False\<rparr>"

definition set_if_nil :: "'a option \<Rightarrow> 'a \<Rightarrow> 'a option" where
  "set_if_nil v d = (case v of None \<Rightarrow> Some d | Some x \<Rightarrow> Some x)"

definition gateway_security :: "container \<Rightarrow> container" where
  "gateway_security g =
     (let sc = (case ctr_security g of None \<Rightarrow> no_security | Some s \<Rightarrow> s)
      in g\<lparr>ctr_security := Some (sc\<lparr>
            sc_runAsNonRoot := set_if_nil (sc_runAsNonRoot sc) True,
            sc_runAsUser := set_if_nil (sc_runAsUser sc) 65532,
            sc_runAsGroup := set_if_nil (sc_runAsGroup sc) 65532\<rparr>)\<rparr>)"

definition add_gateway_mount :: "string \<Rightarrow> string \<Rightarrow> container \<Rightarrow> container" where
  "add_gateway_mount name path g =
     g\<lparr>ctr_mounts := ctr_mounts g @ [\<lparr>vm_name = name, vm_path = path, vm_readOnly = True\<rparr>]\<rparr>"

definition applySecretsMount :: "pipelinerun \<Rightarrow> pipeline \<Rightarrow> pod_spec \<Rightarrow> pod_spec" where
  "applySecretsMount pr p pod =
     (if ReferencedSecrets p = [] then pod
      else map_gateway (\<lambda>g. gateway_security (add_gateway_mount ''datuplet-secrets'' secretsMountPath g))
             (pod\<lparr>pod_fsGroup := set_if_nil (pod_fsGroup pod) secretsMountFSGroup,
                  pod_volumes := pod_volumes pod @
                    [\<lparr>vol_name = ''datuplet-secrets'',
                      vol_source = SecretSource (runSecretsName pr) False file_mode_0440 []\<rparr>]\<rparr>))"

definition runTokenMountPath :: string where
  "runTokenMountPath = ''/var/run/secrets/datuplet-runtoken''"

definition runTokenKey :: string where
  "runTokenKey = ''token''"

definition applyRunTokenMount :: "pipelinerun \<Rightarrow> pod_spec \<Rightarrow> pod_spec" where
  "applyRunTokenMount pr pod =
     (case rs_runTokenRef (pr_spec pr) of
        None \<Rightarrow> pod
      | Some ref \<Rightarrow>
          map_gateway (\<lambda>g. gateway_security (add_gateway_mount ''datuplet-runtoken'' runTokenMountPath g))
            (pod\<lparr>pod_fsGroup := set_if_nil (pod_fsGroup pod) secretsMountFSGroup,
                 pod_volumes := pod_volumes pod @
                   [\<lparr>vol_name = ''datuplet-runtoken'',
                     vol_source = SecretSource ref False file_mode_0440 [(runTokenKey, runTokenKey)]\<rparr>]\<rparr>))"

definition cancelAnnotationVolume :: string where
  "cancelAnnotationVolume = ''podinfo''"

definition cancelAnnotationMountPath :: string where
  "cancelAnnotationMountPath = ''/etc/podinfo''"

definition cancelAnnotationFile :: string where
  "cancelAnnotationFile = ''annotations''"

definition applyCancelAnnotationMount :: "pod_spec \<Rightarrow> pod_spec" where
  "applyCancelAnnotationMount pod =
     map_gateway (add_gateway_mount cancelAnnotationVolume cancelAnnotationMountPath)
       (pod\<lparr>pod_volumes := pod_volumes pod @
          [\<lparr>vol_name = cancelAnnotationVolume,
            vol_source = DownwardAPISource cancelAnnotationFile ''metadata.annotations''\<rparr>]\<rparr>)"

text \<open>The loop over the stages breaks only out of the inner loop: the last stage that holds a
  component of that name wins.\<close>

fun last_stage_with :: "string \<Rightarrow> stage_spec list \<Rightarrow> stage_spec option \<Rightarrow> stage_spec option" where
  "last_stage_with name [] found = found"
| "last_stage_with name (stage # stages) found =
     last_stage_with name stages
       (if \<exists>c \<in> set (st_components stage). cs_name c = name then Some stage else found)"

definition gatewayArgs :: "string list" where
  "gatewayArgs =
     [''--minio'', ''--config'', ''/config/gateway.yaml'',
      ''--addr'', '':'' @ nat_str PipelineRunGatewayPort,
      ''--run-token-path'', runTokenMountPath @ ''/'' @ runTokenKey,
      ''--pod-annotations-path'', cancelAnnotationMountPath @ ''/'' @ cancelAnnotationFile]"

definition gateway_container :: "operator_config \<Rightarrow> pipelinerun \<Rightarrow> container" where
  "gateway_container r pr =
     \<lparr>ctr_name = ''gateway'',
      ctr_image = (if oc_gatewayImage r = [] then PipelineRunDefaultGatewayImage else oc_gatewayImage r),
      ctr_pullPolicy = runtimePullPolicy r,
      ctr_args = gatewayArgs,
      ctr_env = buildGatewaySidecarEnv r pr,
      ctr_restartAlways = True,
      ctr_ports = [PipelineRunGatewayPort],
      ctr_mounts = [\<lparr>vm_name = ''gateway-config'', vm_path = ''/config'', vm_readOnly = True\<rparr>],
      ctr_resources = no_resources,
      ctr_security = None\<rparr>"

definition component_container ::
    "operator_config \<Rightarrow> pipelinerun \<Rightarrow> component_spec \<Rightarrow> resolved_component_status \<Rightarrow> container" where
  "component_container r pr c rc =
     \<lparr>ctr_name = ''component'',
      ctr_image = rcs_image rc,
      ctr_pullPolicy = componentImagePullPolicy r (rcs_version rc),
      ctr_args = [],
      ctr_env = component_env r pr,
      ctr_restartAlways = False,
      ctr_ports = [],
      ctr_mounts = [],
      ctr_resources = (case cs_resources c of None \<Rightarrow> no_resources | Some res \<Rightarrow> res),
      ctr_security = Some (no_security\<lparr>sc_allowPrivilegeEscalation := Some False,
        sc_dropCapabilities := [''ALL''], sc_seccompRuntimeDefault := True\<rparr>)\<rparr>"

definition buildComponentJob ::
    "(string \<Rightarrow> string + int) \<Rightarrow> (json \<Rightarrow> string option) \<Rightarrow> int \<Rightarrow> operator_config \<Rightarrow> pipelinerun \<Rightarrow>
     pipeline_spec \<Rightarrow> component_spec \<Rightarrow> string + job \<times> config_map" where
  "buildComponentJob pd yaml now r pr resolved c =
     (let frozen = \<lparr>p_name = [], p_generation = 0, p_spec = resolved\<rparr>;
          runID = rn_runID (pr_status pr)
      in case last_stage_with (cs_name c) (ps_stages resolved) None of
           None \<Rightarrow> Inl ''component not found in resolved spec''
         | Some stage \<Rightarrow>
             (case find (\<lambda>rc. rcs_name rc = cs_name c) (rn_resolved (pr_status pr)) of
                None \<Rightarrow> Inl (''component '' @ fmt_q (cs_name c) @ '' not found in resolved components'')
              | Some rc \<Rightarrow>
                  let jobName = componentJobName pr (st_name stage) (cs_name c);
                      configMapName = ''gateway-config-'' @ jobName
                  in (case generateGatewayConfig pd yaml now r pr frozen c of
                        Inl e \<Rightarrow> Inl (''component '' @ fmt_q (cs_name c) @ '': '' @ e)
                      | Inr gatewayConfig \<Rightarrow>
                          let pod0 = \<lparr>pod_restartPolicy = ''Never'', pod_init = [gateway_container r pr],
                                      pod_containers = [component_container r pr c rc],
                                      pod_volumes = [\<lparr>vol_name = ''gateway-config'',
                                                      vol_source = ConfigMapSource configMapName\<rparr>],
                                      pod_fsGroup = None,
                                      pod_tolerations = oc_tolerations r,
                                      pod_automountToken = None\<rparr>;
                              pod = (applyCancelAnnotationMount
                                       (applyRunTokenMount pr (applySecretsMount pr frozen pod0)))
                                    \<lparr>pod_automountToken := Some False\<rparr>
                          in Inr
                            (\<lparr>job_name = jobName,
                              job_namespace = pr_namespace pr,
                              job_labels = [(''app.kubernetes.io/component'', ''component''),
                                (''app.kubernetes.io/part-of'', ''datuplet''),
                                (''datuplet.io/component'', cs_name c), (''datuplet.io/run-id'', runID)],
                              job_backoffLimit = (if rs_preview (pr_spec pr) \<noteq> None then 0 else 1),
                              job_ttl = JobTTLSecondsAfterFinished,
                              job_podLabels = [(''app.kubernetes.io/component'', ''component''),
                                (''datuplet.io/component'', cs_name c), (''datuplet.io/run-id'', runID)],
                              job_pod = pod\<rparr>,
                             \<lparr>cm_name = configMapName,
                              cm_namespace = pr_namespace pr,
                              cm_labels = [(''app.kubernetes.io/component'', ''gateway-config''),
                                (''app.kubernetes.io/part-of'', ''datuplet''), (''datuplet.io/run-id'', runID)],
                              cm_data = [(''gateway.yaml'', gatewayConfig)]\<rparr>))))"

section \<open>What the built Job guarantees\<close>

lemma length_str_prefix: "length (str_prefix n s) \<le> n"
  by simp

lemma length_shortID: "length (shortID s) \<le> 8"
  by (simp add: shortID_def)

text \<open>A Job name fits a DNS label (63 bytes), whatever the run, stage and component are called.\<close>

theorem componentJobName_length: "length (componentJobName pr stageName componentName) \<le> 55"
  using length_str_prefix [of 15 "pr_name pr"] length_str_prefix [of 10 stageName]
    length_str_prefix [of 10 componentName] length_shortID [of "rn_runID (pr_status pr)"]
  by (simp add: componentJobName_def)

text \<open>A pod in which secrets reach the gateway only: no volume is mounted into a component
  container, the gateway is the only init container, its mounts are read-only and name volumes of
  the pod, and no service-account token is projected.\<close>

definition gateway_only_mounts :: "pod_spec \<Rightarrow> bool" where
  "gateway_only_mounts pod \<longleftrightarrow>
     (\<forall>c \<in> set (pod_containers pod). ctr_mounts c = []) \<and>
     (\<exists>g. pod_init pod = [g] \<and> ctr_name g = ''gateway'' \<and>
        map vm_name (ctr_mounts g) = map vol_name (pod_volumes pod) \<and>
        distinct (map vol_name (pod_volumes pod)) \<and>
        (\<forall>m \<in> set (ctr_mounts g). vm_readOnly m))"

definition secret_sources :: "pod_spec \<Rightarrow> string list" where
  "secret_sources pod =
     concat (map (\<lambda>v. case vol_source v of SecretSource name _ _ _ \<Rightarrow> [name] | _ \<Rightarrow> []) (pod_volumes pod))"

text \<open>The secret material a run is entitled to: its own snapshot, if the frozen pipeline refers to
  secrets, and its run token.\<close>

definition entitled_secrets :: "pipelinerun \<Rightarrow> pipeline \<Rightarrow> string list" where
  "entitled_secrets pr p =
     (if ReferencedSecrets p = [] then [] else [runSecretsName pr]) @
     (case rs_runTokenRef (pr_spec pr) of None \<Rightarrow> [] | Some ref \<Rightarrow> [ref])"

lemmas mount_defs = applySecretsMount_def applyRunTokenMount_def applyCancelAnnotationMount_def
  map_gateway_def gateway_security_def add_gateway_mount_def cancelAnnotationVolume_def

lemma mounted_pod_gateway_only:
  assumes "pod_init pod = [g]" "ctr_name g = ''gateway''"
    and "map vm_name (ctr_mounts g) = [''gateway-config'']" "\<forall>m \<in> set (ctr_mounts g). vm_readOnly m"
    and "map vol_name (pod_volumes pod) = [''gateway-config'']"
    and "\<forall>c \<in> set (pod_containers pod). ctr_mounts c = []"
  shows "gateway_only_mounts (applyCancelAnnotationMount (applyRunTokenMount pr (applySecretsMount pr p pod)))"
proof (cases "ReferencedSecrets p = []")
  case True
  with assms show ?thesis
    by (cases "rs_runTokenRef (pr_spec pr)")
       (auto simp: gateway_only_mounts_def mount_defs Let_def)
next
  case False
  with assms show ?thesis
    by (cases "rs_runTokenRef (pr_spec pr)")
       (auto simp: gateway_only_mounts_def mount_defs Let_def)
qed

lemma mounted_pod_secrets:
  "secret_sources (applyCancelAnnotationMount (applyRunTokenMount pr (applySecretsMount pr p pod))) =
     secret_sources pod @ entitled_secrets pr p"
  by (cases "ReferencedSecrets p = []"; cases "rs_runTokenRef (pr_spec pr)")
     (auto simp: secret_sources_def entitled_secrets_def mount_defs)

lemma gateway_only_automount [simp]:
  "gateway_only_mounts (pod\<lparr>pod_automountToken := x\<rparr>) = gateway_only_mounts pod"
  "secret_sources (pod\<lparr>pod_automountToken := x\<rparr>) = secret_sources pod"
  by (simp_all add: gateway_only_mounts_def secret_sources_def)

definition frozen_pipeline :: "pipeline_spec \<Rightarrow> pipeline" where
  "frozen_pipeline resolved = \<lparr>p_name = [], p_generation = 0, p_spec = resolved\<rparr>"

text \<open>C21. In every Job the operator builds, the component container has no volume mount at all and
  no service-account token; every volume is mounted read-only into the gateway sidecar; and the pod
  draws on exactly the secrets the run is entitled to: its own snapshot when the frozen pipeline
  refers to secrets, and its run token.\<close>

theorem buildComponentJob_isolates_secrets:
  assumes "buildComponentJob pd yaml now r pr resolved c = Inr (job, cm)"
  shows "gateway_only_mounts (job_pod job) \<and> pod_automountToken (job_pod job) = Some False \<and>
    secret_sources (job_pod job) = entitled_secrets pr (frozen_pipeline resolved)"
proof -
  from assms obtain pod0 g where pod: "job_pod job = (applyCancelAnnotationMount
        (applyRunTokenMount pr (applySecretsMount pr (frozen_pipeline resolved) pod0)))
        \<lparr>pod_automountToken := Some False\<rparr>"
    and g: "pod_init pod0 = [g]" "ctr_name g = ''gateway''"
      "map vm_name (ctr_mounts g) = [''gateway-config'']" "\<forall>m \<in> set (ctr_mounts g). vm_readOnly m"
      "map vol_name (pod_volumes pod0) = [''gateway-config'']"
      "\<forall>c \<in> set (pod_containers pod0). ctr_mounts c = []" "secret_sources pod0 = []"
    unfolding buildComponentJob_def frozen_pipeline_def [symmetric]
    by (auto simp: Let_def gateway_container_def component_container_def secret_sources_def
        split: option.splits sum.splits)
  from g show ?thesis
    by (simp add: pod mounted_pod_gateway_only mounted_pod_secrets)
qed

definition sample_run :: pipelinerun where
  "sample_run = \<lparr>pr_name = ''demo-run'', pr_namespace = ''proj'', pr_generation = 1, pr_annotations = [],
     pr_spec = \<lparr>rs_pipelineRef = ''demo'', rs_runID = [], rs_runTokenRef = Some ''rt'',
       rs_pipelineSpec = None, rs_preview = None\<rparr>,
     pr_status = \<lparr>rn_phase = RunRunning, rn_runID = ''0123456789'', rn_currentStage = [], rn_stages = [],
       rn_startTime = None, rn_completionTime = None, rn_message = [], rn_observedGeneration = 1,
       rn_conditions = [], rn_pipelineGeneration = 1, rn_resolvedSpec = Some (p_spec sample_pipeline),
       rn_resolved = [\<lparr>rcs_name = ''gen'', rcs_component = ''data-generator'', rcs_version = ''v1.0.0'',
         rcs_image = ''img'', rcs_imageID = []\<rparr>]\<rparr>\<rparr>"

definition sample_operator :: operator_config where
  "sample_operator = \<lparr>oc_gatewayImage = [], oc_lakekeeperURL = [], oc_pipelineAPIURL = [],
     oc_gatewayDebug = False, oc_profilingEnabled = False, oc_profilingServer = [],
     oc_profilingUsername = [], oc_profilingPassword = [], oc_runtimePullPolicy = PullDefault,
     oc_tolerations = []\<rparr>"

lemma sample_job:
  "\<exists>job cm. buildComponentJob (\<lambda>_. Inl []) (\<lambda>_. Some ''y'') 0 sample_operator sample_run
     (p_spec sample_pipeline) sample_component = Inr (job, cm)"
  by (simp add: buildComponentJob_def sample_pipeline_def sample_component_def sample_run_def
      generateGatewayConfig_def ConfigMap_def Let_def)

theorem buildComponentJob_isolates_secrets_witness:
  "\<exists>job cm. buildComponentJob (\<lambda>_. Inl []) (\<lambda>_. Some ''y'') 0 sample_operator sample_run
     (p_spec sample_pipeline) sample_component = Inr (job, cm) \<and> gateway_only_mounts (job_pod job)"
  using sample_job buildComponentJob_isolates_secrets by blast

section \<open>Names that collide\<close>

lemma str_prefix_cong_job:
  "str_prefix 10 s1 = str_prefix 10 s2 \<Longrightarrow> str_prefix 10 c1 = str_prefix 10 c2 \<Longrightarrow>
     componentJobName pr s1 c1 = componentJobName pr s2 c2"
  by (simp add: componentJobName_def)

definition twin_pipeline :: pipeline where
  "twin_pipeline = two_stages [bucket_component ''load-customers-eu'' [] ''sales-eu'',
     bucket_component ''load-customers-us'' [] ''sales-us'']"

text \<open>Component names are cut to ten bytes in a Job name: a pipeline that passes validation,
  with distinct component names, can have two components in one stage whose Jobs (and ConfigMaps)
  have the same name in every run.\<close>

theorem accepted_pipeline_with_colliding_jobs:
  "ValidateTyped no_lib (Some twin_pipeline) None None = [] \<and>
   map cs_name (all_components twin_pipeline) = [''gen'', ''load-customers-eu'', ''load-customers-us''] \<and>
   componentJobName pr ''load'' ''load-customers-eu'' = componentJobName pr ''load'' ''load-customers-us''"
proof (intro conjI)
  show "ValidateTyped no_lib (Some twin_pipeline) None None = []"
    by (simp add: twin_pipeline_def two_stages_def bucket_component_def sample_pipeline_def
        sample_component_def sample_table_def pipeline_eval name_eval secret_eval Let_def)
  show "map cs_name (all_components twin_pipeline) = [''gen'', ''load-customers-eu'', ''load-customers-us'']"
    by (simp add: twin_pipeline_def two_stages_def bucket_component_def sample_pipeline_def
        sample_component_def all_components_def)
  show "componentJobName pr ''load'' ''load-customers-eu'' = componentJobName pr ''load'' ''load-customers-us''"
    by (rule str_prefix_cong_job) simp_all
qed

end
