(* ===== verification/Exit_Status.thy ===== *)
theory Exit_Status
  imports Prelude
begin

text \<open>
  The package \<open>pkg/lib/status\<close>: the exit-code contract, the extraction of a component's status
  message from its log, and the sanitising of a message before it is stored on a PipelineRun.
  Go strings are byte lists; \<open>range\<close> over a string decodes UTF-8 and yields U+FFFD for a byte
  that starts no valid sequence.
\<close>

section \<open>Exit codes\<close>

datatype failure_type = FailureNone | FailureTypeUser | FailureTypeApplication

definition ClassifyExitCode :: "int \<Rightarrow> failure_type" where
  "ClassifyExitCode exitCode =
     (if exitCode = 0 then FailureNone
      else if exitCode = 1 then FailureTypeUser
      else FailureTypeApplication)"

definition StatusMessagePrefix :: string where
  "StatusMessagePrefix = ''DUPLET_STATUS_MESSAGE:''"

definition MaxMessageLength :: nat where
  "MaxMessageLength = 1024"

section \<open>Runes\<close>

abbreviation byte_val :: "char \<Rightarrow> nat" where
  "byte_val c \<equiv> of_char c"

definition rune_error :: nat where
  "rune_error = 0xFFFD"

definition cont :: "nat \<Rightarrow> bool" where
  "cont b \<longleftrightarrow> 0x80 \<le> b \<and> b \<le> 0xBF"

text \<open>The decoder of \<open>unicode/utf8\<close>: overlong forms, surrogates and values above U+10FFFF are
  invalid, and an invalid byte is one rune of width one.\<close>

definition byte_at :: "string \<Rightarrow> nat \<Rightarrow> nat" where
  "byte_at s i = (if i < length s then byte_val (s ! i) else 0)"

definition decode_rune :: "string \<Rightarrow> nat \<times> nat" where
  "decode_rune s =
     (let x = byte_at s 0; y = byte_at s 1; z = byte_at s 2; w = byte_at s 3 in
      if x < 0x80 then (x, 1)
      else if 0xC2 \<le> x \<and> x \<le> 0xDF \<and> cont y
      then ((x - 0xC0) * 64 + (y - 0x80), 2)
      else if 0xE0 \<le> x \<and> x \<le> 0xEF \<and> cont y \<and> cont z \<and>
              (x = 0xE0 \<longrightarrow> 0xA0 \<le> y) \<and> (x = 0xED \<longrightarrow> y \<le> 0x9F)
      then ((x - 0xE0) * 4096 + (y - 0x80) * 64 + (z - 0x80), 3)
      else if 0xF0 \<le> x \<and> x \<le> 0xF4 \<and> cont y \<and> cont z \<and> cont w \<and>
              (x = 0xF0 \<longrightarrow> 0x90 \<le> y) \<and> (x = 0xF4 \<longrightarrow> y \<le> 0x8F)
      then ((x - 0xF0) * 262144 + (y - 0x80) * 4096 + (z - 0x80) * 64 + (w - 0x80), 4)
      else (rune_error, 1))"

lemma decode_rune_width: "decode_rune s = (r, w) \<Longrightarrow> 0 < w"
  by (auto simp: decode_rune_def Let_def split: if_splits)

function decode_runes :: "string \<Rightarrow> nat list" where
  "decode_runes s =
     (if s = [] then []
      else case decode_rune s of (r, w) \<Rightarrow> r # decode_runes (drop w s))"
  by pat_completeness auto
termination
  by (relation "measure length") (auto dest!: decode_rune_width [OF sym])

declare decode_runes.simps [simp del]

text \<open>\<open>WriteRune\<close>; the decoder yields no surrogate and nothing above U+10FFFF.\<close>

definition encode_rune :: "nat \<Rightarrow> string" where
  "encode_rune r =
     (if r < 0x80 then [char_of r]
      else if r < 0x800 then [char_of (0xC0 + r div 64), char_of (0x80 + r mod 64)]
      else if r < 0x10000 then
        [char_of (0xE0 + r div 4096), char_of (0x80 + r div 64 mod 64), char_of (0x80 + r mod 64)]
      else
        [char_of (0xF0 + r div 262144), char_of (0x80 + r div 4096 mod 64),
         char_of (0x80 + r div 64 mod 64), char_of (0x80 + r mod 64)])"

text \<open>\<open>unicode.IsControl\<close>: the category Cc.\<close>

definition is_control :: "nat \<Rightarrow> bool" where
  "is_control r \<longleftrightarrow> r < 0x20 \<or> 0x7F \<le> r \<and> r \<le> 0x9F"

section \<open>Messages\<close>

definition sanitize_rune :: "nat \<Rightarrow> string" where
  "sanitize_rune r =
     (if r = 10 \<or> r = 13 then '' ''
      else if is_control r then []
      else encode_rune r)"

definition SanitizeMessage :: "string \<Rightarrow> string" where
  "SanitizeMessage msg =
     (let b = concat (map sanitize_rune (decode_runes msg));
          result = strings_TrimSpace b
      in if length result > MaxMessageLength then take MaxMessageLength result else result)"

text \<open>\<open>itoa\<close> on a 64-bit \<open>int\<close>: the digits are written from the least significant one; negating
  the least value wraps to itself.\<close>

fun itoa_digits :: "nat \<Rightarrow> string \<Rightarrow> string" where
  "itoa_digits n acc =
     (if n = 0 then acc else itoa_digits (n div 10) (digit_char (n mod 10) # acc))"

declare itoa_digits.simps [simp del]

definition itoa :: "int \<Rightarrow> string" where
  "itoa n =
     (if n = 0 then ''0''
      else let m = (if n < 0 then wrap64 (- n) else n);
               digits = (if m > 0 then itoa_digits (nat m) [] else [])
           in if n < 0 then CHR ''-'' # digits else digits)"

text \<open>\<open>strings.Cut\<close> after the prefix marker, on a trimmed line.\<close>

definition status_of_line :: "string \<Rightarrow> string option" where
  "status_of_line line =
     (case strings_Index line StatusMessagePrefix of
        None \<Rightarrow> None
      | Some k \<Rightarrow> Some (strings_TrimSpace (drop (k + length StatusMessagePrefix) line)))"

fun last_status :: "string list \<Rightarrow> string \<Rightarrow> string" where
  "last_status [] acc = acc"
| "last_status (l # ls) acc =
     last_status ls (case status_of_line (strings_TrimSpace l) of None \<Rightarrow> acc | Some m \<Rightarrow> m)"

definition ExtractStatusMessage :: "string \<Rightarrow> int \<Rightarrow> string" where
  "ExtractStatusMessage logs exitCode =
     (let lines = split_on (CHR 0x0A) logs;
          lastStatusMsg = last_status lines []
      in if lastStatusMsg \<noteq> [] then SanitizeMessage lastStatusMsg
         else (case find (\<lambda>l. l \<noteq> []) (rev (map strings_TrimSpace lines)) of
                 Some line \<Rightarrow> SanitizeMessage line
               | None \<Rightarrow>
                   if exitCode \<noteq> 0
                   then SanitizeMessage (''component exited with code '' @ itoa exitCode)
                   else []))"

section \<open>Properties\<close>

lemma itoa_digits_eq: "0 < n \<Longrightarrow> itoa_digits n acc = nat_str n @ acc"
proof (induction n acc rule: itoa_digits.induct)
  case (1 n acc)
  show ?case
  proof (cases "n < 10")
    case True
    with "1.prems" show ?thesis
      by (subst itoa_digits.simps) (simp add: nat_str.simps [of n] itoa_digits.simps [of 0])
  next
    case False
    with "1" show ?thesis
      by (subst itoa_digits.simps) (simp add: nat_str.simps [of n])
  qed
qed

lemma char_of_48: "char_of (48 :: nat) = CHR ''0''"
  by code_simp

text \<open>On every exit code a 64-bit \<open>int\<close> can hold except the least, the hand-written
  \<open>itoa\<close> agrees with \<open>%d\<close>, and \<open>strconv.Atoi\<close> reads the code back.\<close>

theorem itoa_roundtrip:
  assumes "- (2 ^ 63) < n" "n \<le> max_int64"
  shows "itoa n = fmt_d n \<and> strconv_Atoi (itoa n) = Some n"
proof -
  have "wrap64 (- n) = - n" if "n < 0"
    using assms that by (intro wrap64_id) (auto simp: max_int64_def)
  then have "itoa n = fmt_d n"
    by (auto simp: itoa_def fmt_d_def itoa_digits_eq nat_str.simps [of 0] digit_char_def Let_def char_of_48)
  with assms show ?thesis by (simp add: strconv_Atoi_fmt_d)
qed

theorem itoa_roundtrip_witness: "itoa (- 137) = fmt_d (- 137) \<and> strconv_Atoi (itoa (- 137)) = Some (- 137)"
  by (rule itoa_roundtrip) (simp_all add: max_int64_def)

subsection \<open>Sanitised messages\<close>

definition printable_byte :: "char \<Rightarrow> bool" where
  "printable_byte c \<longleftrightarrow> 0x20 \<le> byte_val c \<and> byte_val c \<noteq> 0x7F"

lemma decode_rune_range: "decode_rune s = (r, w) \<Longrightarrow> r < 0x110000"
  by (auto simp: decode_rune_def Let_def cont_def rune_error_def split: if_splits)

lemma decode_runes_range: "r \<in> set (decode_runes s) \<Longrightarrow> r < 0x110000"
proof (induction s rule: decode_runes.induct)
  case (1 s)
  obtain q w where qw: "decode_rune s = (q, w)" by force
  show ?case
  proof (cases "s = []")
    case True
    with "1.prems" show ?thesis by (simp add: decode_runes.simps)
  next
    case False
    with "1.prems" qw have "r = q \<or> r \<in> set (decode_runes (drop w s))"
      by (simp add: decode_runes.simps [of s])
    with "1.IH" [OF False qw [symmetric]] decode_rune_range [OF qw] show ?thesis by auto
  qed
qed

lemma encode_rune_high:
  assumes "0x80 \<le> r" "r < 0x110000" "c \<in> set (encode_rune r)"
  shows "0x80 \<le> byte_val c"
proof -
  have "r div 64 < 17408" "r div 4096 < 272" "r div 262144 < 5" using assms(2) by auto
  with assms show ?thesis
    by (auto simp: encode_rune_def split: if_splits)
qed

lemma sanitize_rune_printable:
  "r < 0x110000 \<Longrightarrow> list_all printable_byte (sanitize_rune r)"
  using encode_rune_high [of r]
  by (cases "r < 0x80")
     (force simp: sanitize_rune_def is_control_def encode_rune_def printable_byte_def list_all_iff)+

text \<open>A sanitised message fits the CRD's budget of 1024 bytes and holds no newline, no other
  ASCII control character and no DEL, whatever bytes the component logged.\<close>

theorem SanitizeMessage_clean:
  "length (SanitizeMessage msg) \<le> MaxMessageLength \<and>
   list_all printable_byte (SanitizeMessage msg)"
proof -
  let ?b = "concat (map sanitize_rune (decode_runes msg))"
  have "\<forall>c \<in> set ?b. printable_byte c"
    using decode_runes_range sanitize_rune_printable by (fastforce simp: list_all_iff)
  moreover have "set (SanitizeMessage msg) \<subseteq> set ?b"
    using set_TrimSpace [of ?b] by (auto simp: SanitizeMessage_def Let_def dest: in_set_takeD)
  moreover have "length (SanitizeMessage msg) \<le> MaxMessageLength"
    by (simp add: SanitizeMessage_def Let_def)
  ultimately show ?thesis by (auto simp: list_all_iff)
qed

lemma last_status_append: "last_status (xs @ ys) acc = last_status ys (last_status xs acc)"
  by (induction xs arbitrary: acc) auto

lemma last_status_none:
  "\<forall>l \<in> set ls. status_of_line (strings_TrimSpace l) = None \<Longrightarrow> last_status ls acc = acc"
  by (induction ls arbitrary: acc) auto

text \<open>The last line that carries the \<open>DUPLET_STATUS_MESSAGE:\<close> marker decides the message,
  whatever was logged before it and whatever unmarked lines follow.\<close>

theorem ExtractStatusMessage_last_marker:
  assumes "split_on (CHR 0x0A) logs = before @ line # after"
    and "status_of_line (strings_TrimSpace line) = Some m" and "m \<noteq> []"
    and "\<forall>l \<in> set after. status_of_line (strings_TrimSpace l) = None"
  shows "ExtractStatusMessage logs code = SanitizeMessage m"
  using assms by (simp add: ExtractStatusMessage_def last_status_append last_status_none)

lemmas trim_eval = strings_TrimSpace_def trim_left.simps trim_right.simps space_prefix_def
  space_suffix_def space_encs_def strings_HasPrefix_def strings_HasSuffix_def

theorem ExtractStatusMessage_last_marker_witness:
  "ExtractStatusMessage
     (''boot'' @ [CHR 0x0A] @ ''DUPLET_STATUS_MESSAGE: done'' @ [CHR 0x0A] @ '' bye'') 20 =
   SanitizeMessage ''done''"
proof (rule ExtractStatusMessage_last_marker)
  show "split_on (CHR 0x0A)
      (''boot'' @ [CHR 0x0A] @ ''DUPLET_STATUS_MESSAGE: done'' @ [CHR 0x0A] @ '' bye'') =
    [''boot''] @ ''DUPLET_STATUS_MESSAGE: done'' # ['' bye'']" by simp
  show "status_of_line (strings_TrimSpace ''DUPLET_STATUS_MESSAGE: done'') = Some ''done''"
    by (simp add: status_of_line_def StatusMessagePrefix_def trim_eval)
  show "\<forall>l \<in> set ['' bye'']. status_of_line (strings_TrimSpace l) = None"
    by (simp add: status_of_line_def StatusMessagePrefix_def trim_eval)
qed simp

end
