(* ===== verification/Run_Controller.thy ===== *)
theory Run_Controller
  imports Job_Builder Exit_Status
begin

text \<open>
  The PipelineRun reconciler, \<open>pkg/k8s/controllers/pipelinerun_controller.go\<close> and
  \<open>pipelinerun_status.go\<close>: admission, stage execution, polling of Jobs, preview deadlines, cancel
  propagation and the in-memory retry budgets.

  One call of \<open>Reconcile\<close> is a function of the stored run, the reconciler's counters and an
  environment \<open>run_env\<close>: the answers of the API server and of the libraries. Every call to the API
  server, read or write, is appended to a trace, and the answer to a call is an arbitrary function of
  the trace so far, so that two equal calls may be answered differently. A status update that
  succeeds stores the in-memory status; an index outside a slice is the result \<open>Panic\<close>.
\<close>

section \<open>The API server\<close>

datatype api_error = NotFound string | AlreadyExists string | OtherError string

fun error_text :: "api_error \<Rightarrow> string" where
  "error_text (NotFound m) = m"
| "error_text (AlreadyExists m) = m"
| "error_text (OtherError m) = m"

definition IsNotFound :: "api_error \<Rightarrow> bool" where
  "IsNotFound e \<longleftrightarrow> (case e of NotFound _ \<Rightarrow> True | _ \<Rightarrow> False)"

definition IsAlreadyExists :: "api_error \<Rightarrow> bool" where
  "IsAlreadyExists e \<longleftrightarrow> (case e of AlreadyExists _ \<Rightarrow> True | _ \<Rightarrow> False)"

record container_status =
  cst_name :: string
  cst_terminated :: "int option"
  cst_imageID :: string

record pod =
  pd_name :: string
  pd_annotations :: "string gomap"
  pd_containers :: "container_status list"
  pd_initContainers :: "container_status list"

datatype job_condition_type = JobComplete | JobFailed | JobConditionOther string

record job_condition =
  jc_type :: job_condition_type
  jc_true :: bool
  jc_message :: string

record secret =
  sec_name :: string
  sec_namespace :: string
  sec_labels :: "string gomap"
  sec_data :: "string gomap"

datatype call =
    GetPipeline string string
  | GetSecret string string
  | GetJob string string
  | ListPods string string string
  | GetLogs string string string
  | PatchPodCancel string string
  | CreateSecret secret
  | CreateConfigMap config_map
  | CreateJob job
  | DeleteJob string string
  | UpdateStatus pipelinerun_status

type_synonym trace = "call list"

text \<open>The definitions of the registry are read once for the validation of a run and again for
  each component that is resolved: \<open>en_getDefinition\<close> has the number of the reading as its first
  argument.\<close>

record run_env =
  en_now :: int
  en_uuid :: string
  en_parseUUID :: "string \<Rightarrow> bool"
  en_lib :: validate_lib
  en_compile :: "string \<Rightarrow> string option"
  en_yaml :: "json \<Rightarrow> string option"
  en_setCondition :: "condition list \<Rightarrow> condition \<Rightarrow> condition list"
  en_setOwner :: "trace \<Rightarrow> string \<Rightarrow> string option"
  en_hasClientset :: bool
  en_getPipeline :: "trace \<Rightarrow> string \<Rightarrow> string \<Rightarrow> api_error + pipeline"
  en_getDefinition :: "nat \<Rightarrow> string \<Rightarrow> api_error + component_definition"
  en_getSecret :: "trace \<Rightarrow> string \<Rightarrow> string \<Rightarrow> api_error + string gomap"
  en_getJob :: "trace \<Rightarrow> string \<Rightarrow> string \<Rightarrow> api_error + job_condition list"
  en_listPods :: "trace \<Rightarrow> string \<Rightarrow> string \<Rightarrow> string \<Rightarrow> api_error + pod list"
  en_logs :: "trace \<Rightarrow> string \<Rightarrow> string \<Rightarrow> string \<Rightarrow> api_error + string"
  en_write :: "trace \<Rightarrow> call \<Rightarrow> api_error option"

datatype result = Requeue "int option" | Failed string | Panic

text \<open>The retry counters of the reconciler, keyed by namespace and name.\<close>

type_synonym run_key = "string \<times> string"

record retries =
  rt_transient :: "run_key \<rightharpoonup> nat"
  rt_notFound :: "run_key \<rightharpoonup> nat"

record outcome =
  o_stored :: "pipelinerun_status option"
  o_retries :: retries
  o_calls :: trace
  o_result :: result

definition second_ns :: int where
  "second_ns = 1000000000"

definition PipelineRunRequeueInterval :: int where
  "PipelineRunRequeueInterval = 5 * second_ns"

definition admissionTransientRetryBudget :: nat where
  "admissionTransientRetryBudget = 5"

definition admissionTransientRetryInterval :: int where
  "admissionTransientRetryInterval = 2 * second_ns"

definition severityTransient :: string where
  "severityTransient = ''transient''"

definition ProjectSecretsName :: string where
  "ProjectSecretsName = ''datuplet-project-secrets''"

definition run_key :: "pipelinerun \<Rightarrow> run_key" where
  "run_key pr = (pr_namespace pr, pr_name pr)"

text \<open>The status update that ends most handlers: its error is returned, otherwise \<open>res\<close>.\<close>

definition updateStatus :: "run_env \<Rightarrow> retries \<Rightarrow> trace \<Rightarrow> pipelinerun \<Rightarrow> result \<Rightarrow> outcome" where
  "updateStatus env rt tr pr res =
     (let call = UpdateStatus (pr_status pr) in
      case en_write env tr call of
        None \<Rightarrow> \<lparr>o_stored = Some (pr_status pr), o_retries = rt,
                 o_calls = tr @ [call], o_result = res\<rparr>
      | Some e \<Rightarrow> \<lparr>o_stored = None, o_retries = rt,
                   o_calls = tr @ [call], o_result = Failed (error_text e)\<rparr>)"

text \<open>A return without a status update.\<close>

definition return_with :: "retries \<Rightarrow> trace \<Rightarrow> result \<Rightarrow> outcome" where
  "return_with rt tr res =
     \<lparr>o_stored = None, o_retries = rt, o_calls = tr, o_result = res\<rparr>"

definition map_status :: "(pipelinerun_status \<Rightarrow> pipelinerun_status) \<Rightarrow> pipelinerun \<Rightarrow> pipelinerun" where
  "map_status f pr = pr\<lparr>pr_status := f (pr_status pr)\<rparr>"

definition fail_with :: "run_phase \<Rightarrow> string \<Rightarrow> pipelinerun \<Rightarrow> pipelinerun" where
  "fail_with phase msg = map_status (\<lambda>s. s\<lparr>rn_phase := phase, rn_message := msg\<rparr>)"

definition complete_at :: "int \<Rightarrow> pipelinerun \<Rightarrow> pipelinerun" where
  "complete_at now = map_status (\<lambda>s. s\<lparr>rn_completionTime := Some now\<rparr>)"

section \<open>Retry counters\<close>

definition bump :: "(run_key \<rightharpoonup> nat) \<Rightarrow> run_key \<Rightarrow> nat" where
  "bump m k = (case m k of None \<Rightarrow> 1 | Some n \<Rightarrow> n + 1)"

definition noteTransientRetry :: "retries \<Rightarrow> run_key \<Rightarrow> retries \<times> nat" where
  "noteTransientRetry rt k =
     (let n = bump (rt_transient rt) k in (rt\<lparr>rt_transient := (rt_transient rt)(k \<mapsto> n)\<rparr>, n))"

definition clearTransientRetries :: "retries \<Rightarrow> run_key \<Rightarrow> retries" where
  "clearTransientRetries rt k = rt\<lparr>rt_transient := (rt_transient rt)(k := None)\<rparr>"

definition noteNotFoundRetry :: "retries \<Rightarrow> run_key \<Rightarrow> retries \<times> nat" where
  "noteNotFoundRetry rt k =
     (let n = bump (rt_notFound rt) k in (rt\<lparr>rt_notFound := (rt_notFound rt)(k \<mapsto> n)\<rparr>, n))"

definition clearNotFoundRetry :: "retries \<Rightarrow> run_key \<Rightarrow> retries" where
  "clearNotFoundRetry rt k = rt\<lparr>rt_notFound := (rt_notFound rt)(k := None)\<rparr>"

section \<open>Registry and findings at admission\<close>

definition ComponentRegistry_Resolve ::
    "(string \<Rightarrow> string option) \<Rightarrow> (string \<Rightarrow> api_error + component_definition) \<Rightarrow> registry_view" where
  "ComponentRegistry_Resolve compile get component version =
     (case get component of
        Inl e \<Rightarrow>
          if IsNotFound e then
            (None, [\<lparr>fd_path = ''component'', fd_message = ''unknown component '' @ fmt_q component,
                     fd_severity = ''error''\<rparr>])
          else
            (None, [\<lparr>fd_path = ''component'',
                     fd_message = ''component '' @ fmt_q component @ '': '' @ error_text e,
                     fd_severity = severityTransient\<rparr>])
      | Inr def \<Rightarrow> StaticRegistry_Resolve compile [(component, def)] component version)"

definition nonResourceFindings :: "finding list \<Rightarrow> finding list" where
  "nonResourceFindings fs =
     filter (\<lambda>f. \<not> (strings_Contains (fd_path f) ''.resources'' \<and>
                    \<not> strings_Contains (fd_path f) ''.config'')) fs"

definition firstErrorFinding :: "finding list \<Rightarrow> finding option" where
  "firstErrorFinding fs = find (\<lambda>f. fd_severity f = ''error'') fs"

definition firstTransientFinding :: "finding list \<Rightarrow> finding option" where
  "firstTransientFinding fs = find (\<lambda>f. fd_severity f = severityTransient) fs"

definition requeueOnTransientAdmissionError ::
    "run_env \<Rightarrow> retries \<Rightarrow> trace \<Rightarrow> pipelinerun \<Rightarrow> string \<Rightarrow> outcome" where
  "requeueOnTransientAdmissionError env rt tr pr msg =
     (case noteTransientRetry rt (run_key pr) of (rt', attempt) \<Rightarrow>
        if attempt < admissionTransientRetryBudget
        then return_with rt' tr (Requeue (Some admissionTransientRetryInterval))
        else updateStatus env (clearTransientRetries rt' (run_key pr)) tr
               (complete_at (en_now env)
                 (fail_with RunFailedApplication
                   (''registry unavailable after '' @ nat_str attempt @ '' consecutive attempts: '' @ msg) pr))
               (Requeue None))"

section \<open>Snapshot of the referenced secrets\<close>

definition snapshot_secret :: "pipelinerun \<Rightarrow> string gomap \<Rightarrow> secret" where
  "snapshot_secret pr data =
     \<lparr>sec_name = runSecretsName pr, sec_namespace = pr_namespace pr,
      sec_labels = [(''app.kubernetes.io/component'', ''run-secrets''),
        (''app.kubernetes.io/part-of'', ''datuplet''), (''datuplet.io/run-id'', rn_runID (pr_status pr))],
      sec_data = data\<rparr>"

text \<open>The loop over the referenced names: the values found, and the names missing.\<close>

fun collect_refs :: "string gomap \<Rightarrow> string list \<Rightarrow> string gomap \<times> string list" where
  "collect_refs data [] = ([], [])"
| "collect_refs data (name # names) =
     (case collect_refs data names of (found, missing) \<Rightarrow>
        (case map_of data name of
           None \<Rightarrow> (found, name # missing)
         | Some v \<Rightarrow> ((name, v) # found, missing)))"

definition create_snapshot ::
    "run_env \<Rightarrow> trace \<Rightarrow> pipelinerun \<Rightarrow> string gomap \<Rightarrow> trace \<times> (string + string list)" where
  "create_snapshot env tr pr data =
     (let snap = snapshot_secret pr data in
      case en_setOwner env tr (sec_name snap) of
        Some e \<Rightarrow> (tr, Inl e)
      | None \<Rightarrow>
          (let tr' = tr @ [CreateSecret snap] in
           case en_write env tr (CreateSecret snap) of
             None \<Rightarrow> (tr', Inr [])
           | Some e \<Rightarrow> if IsAlreadyExists e then (tr', Inr []) else (tr', Inl (error_text e))))"

definition snapshotRunSecrets ::
    "run_env \<Rightarrow> trace \<Rightarrow> pipelinerun \<Rightarrow> pipeline \<Rightarrow> trace \<times> (string + string list)" where
  "snapshotRunSecrets env tr pr p =
     (let refs = ReferencedSecrets p; ns = pr_namespace pr in
      if refs = [] then (tr, Inr [])
      else
        (let tr1 = tr @ [GetSecret ns (runSecretsName pr)] in
         case en_getSecret env tr ns (runSecretsName pr) of
           Inr _ \<Rightarrow> (tr1, Inr [])
         | Inl e \<Rightarrow>
             if \<not> IsNotFound e then (tr1, Inl (error_text e))
             else
               (let tr2 = tr1 @ [GetSecret ns ProjectSecretsName];
                    project = en_getSecret env tr1 ns ProjectSecretsName
                in if (case project of Inl e \<Rightarrow> \<not> IsNotFound e | Inr _ \<Rightarrow> False)
                   then (tr2, Inl (case project of Inl e \<Rightarrow> error_text e | Inr _ \<Rightarrow> []))
                   else
                     (case collect_refs (case project of Inl _ \<Rightarrow> [] | Inr data \<Rightarrow> data) refs of
                        (data, missing) \<Rightarrow>
                          if missing \<noteq> [] then (tr2, Inr missing)
                          else create_snapshot env tr2 pr data))))"

definition updateSecretsResolvedCondition :: "run_env \<Rightarrow> pipelinerun \<Rightarrow> pipeline \<Rightarrow> pipelinerun" where
  "updateSecretsResolvedCondition env pr p =
     (if ReferencedSecrets p = [] then pr
      else map_status (\<lambda>s. s\<lparr>rn_conditions := en_setCondition env (rn_conditions s)
             \<lparr>cond_type = ''SecretsResolved'', cond_status = True, cond_reason = ''Resolved'',
              cond_message = []\<rparr>\<rparr>) pr)"

section \<open>Admission\<close>

text \<open>The loop that resolves and freezes the components: either the frozen stages, the resolved
  components and the clamp notes, or the findings of the first reference that does not resolve. The
  counter numbers the registry readings.\<close>

definition clamp_note :: "component_spec \<Rightarrow> clamp_result \<Rightarrow> string list" where
  "clamp_note c res =
     (if cl_note res \<noteq> []
      then [''resources clamped for component '' @ cs_name c @ '': '' @ cl_note res] else [])"

definition resolved_status :: "component_spec \<Rightarrow> resolved_component \<Rightarrow> resolved_component_status" where
  "resolved_status c rc =
     \<lparr>rcs_name = cs_name c, rcs_component = rc_component rc, rcs_version = rc_version rc,
      rcs_image = rc_image rc, rcs_imageID = []\<rparr>"

fun freeze_components ::
    "(nat \<Rightarrow> registry_view) \<Rightarrow> nat \<Rightarrow> component_spec list \<Rightarrow>
     finding list + component_spec list \<times> resolved_component_status list \<times> string list" where
  "freeze_components reg k [] = Inr ([], [], [])"
| "freeze_components reg k (c # cs) =
     (case reg k (cs_component c) (cs_version c) of
        (None, findings) \<Rightarrow> Inl findings
      | (Some rc, findings) \<Rightarrow>
          let res = applyDefaultsThenClamp (cs_resources c) (cr_default (rc_resources rc))
                      (cr_max (rc_resources rc))
          in (case freeze_components reg (Suc k) cs of
                Inl e \<Rightarrow> Inl e
              | Inr (cs', rcs, notes) \<Rightarrow>
                  Inr (c\<lparr>cs_resources := Some (cl_resources res)\<rparr> # cs', resolved_status c rc # rcs,
                       clamp_note c res @ notes)))"

fun freeze_stages ::
    "(nat \<Rightarrow> registry_view) \<Rightarrow> nat \<Rightarrow> stage_spec list \<Rightarrow>
     finding list + stage_spec list \<times> resolved_component_status list \<times> string list" where
  "freeze_stages reg k [] = Inr ([], [], [])"
| "freeze_stages reg k (stage # stages) =
     (case freeze_components reg k (st_components stage) of
        Inl e \<Rightarrow> Inl e
      | Inr (cs, rcs, notes) \<Rightarrow>
          (case freeze_stages reg (k + length (st_components stage)) stages of
             Inl e \<Rightarrow> Inl e
           | Inr (stages', rcs', notes') \<Rightarrow>
               Inr (stage\<lparr>st_components := cs\<rparr> # stages', rcs @ rcs', notes @ notes')))"

definition pending_stage :: "stage_spec \<Rightarrow> stage_status" where
  "pending_stage stage =
     \<lparr>ss_name = st_name stage, ss_phase = StagePending, ss_components = [], ss_startTime = None,
      ss_completionTime = None, ss_message = []\<rparr>"

definition admitted_status ::
    "int \<Rightarrow> pipeline \<Rightarrow> stage_spec list \<Rightarrow> resolved_component_status list \<Rightarrow> string list \<Rightarrow>
     pipelinerun_status \<Rightarrow> pipelinerun_status" where
  "admitted_status now p stages rcs notes s =
     s\<lparr>rn_resolvedSpec := Some ((p_spec p)\<lparr>ps_stages := stages\<rparr>),
       rn_pipelineGeneration := p_generation p,
       rn_resolved := rcs,
       rn_phase := RunRunning,
       rn_startTime := Some now,
       rn_message := (if notes \<noteq> [] then strings_Join notes ''; '' else rn_message s),
       rn_stages := map pending_stage stages\<rparr>"

definition registry_at :: "run_env \<Rightarrow> nat \<Rightarrow> registry_view" where
  "registry_at env k = ComponentRegistry_Resolve (en_compile env) (en_getDefinition env k)"

definition admitPipeline ::
    "run_env \<Rightarrow> retries \<Rightarrow> trace \<Rightarrow> pipelinerun \<Rightarrow> pipeline \<Rightarrow> outcome" where
  "admitPipeline env rt tr pr p =
     (let findings = ValidateTyped (en_lib env) (Some p) (Some (registry_at env 0)) None in
      case firstTransientFinding findings of
        Some tf \<Rightarrow> requeueOnTransientAdmissionError env rt tr pr (fd_message tf)
      | None \<Rightarrow>
          (case firstErrorFinding (nonResourceFindings findings) of
             Some f \<Rightarrow> updateStatus env rt tr (fail_with RunFailedUser (fd_message f) pr) (Requeue None)
           | None \<Rightarrow>
               (case freeze_stages (registry_at env) 1 (ps_stages (p_spec p)) of
                  Inl fs \<Rightarrow>
                    (case firstTransientFinding fs of
                       Some tf \<Rightarrow> requeueOnTransientAdmissionError env rt tr pr (fd_message tf)
                     | None \<Rightarrow>
                         updateStatus env rt tr
                           (fail_with RunFailedUser
                             (case firstErrorFinding fs of None \<Rightarrow> [] | Some f \<Rightarrow> fd_message f) pr)
                           (Requeue None))
                | Inr (stages, rcs, notes) \<Rightarrow>
                    updateStatus env (clearTransientRetries rt (run_key pr)) tr
                      (updateSecretsResolvedCondition env
                        (map_status (admitted_status (en_now env) p stages rcs notes) pr) p)
                      (Requeue (Some PipelineRunRequeueInterval)))))"

definition missing_secrets_message :: "string list \<Rightarrow> string" where
  "missing_secrets_message missing =
     StatusMessagePrefix @ '' referenced secret(s) not found in project secrets: '' @
     strings_Join missing '', ''"

definition fail_missing_secrets :: "run_env \<Rightarrow> string list \<Rightarrow> pipelinerun \<Rightarrow> pipelinerun" where
  "fail_missing_secrets env missing pr =
     (let msg = missing_secrets_message missing in
      map_status (\<lambda>s. s\<lparr>rn_conditions := en_setCondition env (rn_conditions s)
          \<lparr>cond_type = ''SecretsResolved'', cond_status = False, cond_reason = ''SnapshotMissing'',
           cond_message = msg\<rparr>\<rparr>) (fail_with RunFailedUser msg pr))"

text \<open>From the point where the pipeline is known.\<close>

definition handlePipeline :: "run_env \<Rightarrow> retries \<Rightarrow> trace \<Rightarrow> pipelinerun \<Rightarrow> pipeline \<Rightarrow> outcome" where
  "handlePipeline env rt0 tr pr p =
     (let rt = clearNotFoundRetry rt0 (run_key pr);
          specID = rs_runID (pr_spec pr)
      in if specID \<noteq> [] \<and> \<not> en_parseUUID env specID then
           updateStatus env rt tr
             (fail_with RunFailedUser
               (''invalid spec.runId: must be a valid UUID, got '' @ fmt_q specID) pr) (Requeue None)
         else
           (let runID = (if specID = [] then en_uuid env else specID);
                pr1 = map_status (\<lambda>s. s\<lparr>rn_runID := runID\<rparr>) pr
            in case snapshotRunSecrets env tr pr1 p of
                 (tr', Inl e) \<Rightarrow> return_with rt tr' (Failed e)
               | (tr', Inr missing) \<Rightarrow>
                   if missing \<noteq> [] then
                     updateStatus env rt tr' (fail_missing_secrets env missing pr1) (Requeue None)
                   else admitPipeline env rt tr' pr1 p))"

definition inline_pipeline :: "pipelinerun \<Rightarrow> pipeline_spec \<Rightarrow> pipeline" where
  "inline_pipeline pr sp = \<lparr>p_name = pr_name pr, p_generation = 0, p_spec = sp\<rparr>"

definition handlePending :: "run_env \<Rightarrow> retries \<Rightarrow> trace \<Rightarrow> pipelinerun \<Rightarrow> outcome" where
  "handlePending env rt tr pr =
     (case rs_pipelineSpec (pr_spec pr) of
        Some sp \<Rightarrow> handlePipeline env rt tr pr (inline_pipeline pr sp)
      | None \<Rightarrow>
          let ref = rs_pipelineRef (pr_spec pr); tr1 = tr @ [GetPipeline (pr_namespace pr) ref] in
          if ref = [] then
            updateStatus env rt tr
              (fail_with RunFailedUser ''spec.pipelineRef or spec.pipelineSpec is required'' pr)
              (Requeue None)
          else
            (case en_getPipeline env tr (pr_namespace pr) ref of
               Inr p \<Rightarrow> handlePipeline env rt tr1 pr p
             | Inl e \<Rightarrow>
                 if IsNotFound e then
                   (case noteNotFoundRetry rt (run_key pr) of (rt', attempt) \<Rightarrow>
                      if attempt < admissionTransientRetryBudget
                      then return_with rt' tr1 (Requeue (Some admissionTransientRetryInterval))
                      else updateStatus env (clearNotFoundRetry rt' (run_key pr)) tr1
                             (fail_with RunFailedUser (''Pipeline '' @ [CHR 0x27] @ ref @ [CHR 0x27] @
                                '' not found'') pr)
                             (Requeue None))
                 else return_with rt tr1 (Failed (error_text e))))"

section \<open>What pods report\<close>

definition list_job_pods :: "run_env \<Rightarrow> trace \<Rightarrow> string \<Rightarrow> string \<Rightarrow> trace \<times> (api_error + pod list)" where
  "list_job_pods env tr ns jobName =
     (tr @ [ListPods ns ''job-name'' jobName], en_listPods env tr ns ''job-name'' jobName)"

definition terminated_code :: "string \<Rightarrow> container_status list \<Rightarrow> int option" where
  "terminated_code containerName css =
     (case find (\<lambda>cs. cst_name cs = containerName \<and> cst_terminated cs \<noteq> None) css of
        None \<Rightarrow> None | Some cs \<Rightarrow> cst_terminated cs)"

definition extractExitCodeFromPod :: "pod \<Rightarrow> string \<Rightarrow> int option" where
  "extractExitCodeFromPod p containerName =
     (case terminated_code containerName (pd_containers p) of
        Some code \<Rightarrow> Some code
      | None \<Rightarrow> terminated_code containerName (pd_initContainers p))"

definition extractExitCodeFromJob :: "run_env \<Rightarrow> trace \<Rightarrow> string \<Rightarrow> string \<Rightarrow> trace \<times> int option" where
  "extractExitCodeFromJob env tr ns jobName =
     (case list_job_pods env tr ns jobName of
        (tr', Inl _) \<Rightarrow> (tr', None)
      | (tr', Inr pods) \<Rightarrow>
          (tr', if pods = [] then None else extractExitCodeFromPod (last pods) ''component''))"

definition extractImageIDFromPod :: "pod \<Rightarrow> string \<Rightarrow> string" where
  "extractImageIDFromPod p containerName =
     (case find (\<lambda>cs. cst_name cs = containerName) (pd_containers p) of
        None \<Rightarrow> [] | Some cs \<Rightarrow> cst_imageID cs)"

definition extractImageIDFromJob :: "run_env \<Rightarrow> trace \<Rightarrow> string \<Rightarrow> string \<Rightarrow> trace \<times> string" where
  "extractImageIDFromJob env tr ns jobName =
     (case list_job_pods env tr ns jobName of
        (tr', Inl _) \<Rightarrow> (tr', [])
      | (tr', Inr pods) \<Rightarrow>
          (tr', if pods = [] then [] else extractImageIDFromPod (last pods) ''component''))"

fun record_image :: "string \<Rightarrow> string \<Rightarrow> resolved_component_status list \<Rightarrow> resolved_component_status list" where
  "record_image name imageID [] = []"
| "record_image name imageID (rc # rcs) =
     (if rcs_name rc = name \<and> rcs_imageID rc = [] then rc\<lparr>rcs_imageID := imageID\<rparr> # rcs
      else rc # record_image name imageID rcs)"

definition recordComponentImageID ::
    "string \<Rightarrow> string \<Rightarrow> resolved_component_status list \<Rightarrow> resolved_component_status list" where
  "recordComponentImageID name imageID rcs =
     (if imageID = [] then rcs else record_image name imageID rcs)"

definition getPodLogs :: "run_env \<Rightarrow> trace \<Rightarrow> string \<Rightarrow> string \<Rightarrow> string \<Rightarrow> trace \<times> string option" where
  "getPodLogs env tr ns jobName containerName =
     (case list_job_pods env tr ns jobName of
        (tr', Inl _) \<Rightarrow> (tr', None)
      | (tr', Inr pods) \<Rightarrow>
          if pods = [] then (tr', None)
          else
            (let podName = pd_name (last pods) in
             (tr' @ [GetLogs ns podName containerName],
              case en_logs env tr' ns podName containerName of Inl _ \<Rightarrow> None | Inr logs \<Rightarrow> Some logs)))"

definition extractComponentStatusMessage ::
    "run_env \<Rightarrow> trace \<Rightarrow> string \<Rightarrow> string \<Rightarrow> int \<Rightarrow> trace \<times> string" where
  "extractComponentStatusMessage env tr ns jobName exitCode =
     (if \<not> en_hasClientset env then (tr, [])
      else (case getPodLogs env tr ns jobName ''component'' of
              (tr', None) \<Rightarrow> (tr', [])
            | (tr', Some logs) \<Rightarrow> (tr', ExtractStatusMessage logs exitCode)))"

section \<open>Cancel propagation\<close>

definition has_cancel :: "string gomap \<Rightarrow> bool" where
  "has_cancel ann \<longleftrightarrow> map_of ann ''datuplet.io/cancel'' = Some ''true''"

definition propagateCancelToPods :: "run_env \<Rightarrow> trace \<Rightarrow> pipelinerun \<Rightarrow> trace" where
  "propagateCancelToPods env tr pr =
     (let runID = rn_runID (pr_status pr); ns = pr_namespace pr in
      if runID = [] then tr
      else
        (let tr' = tr @ [ListPods ns ''datuplet.io/run-id'' runID] in
         case en_listPods env tr ns ''datuplet.io/run-id'' runID of
           Inl _ \<Rightarrow> tr'
         | Inr pods \<Rightarrow>
             tr' @ map (\<lambda>p. PatchPodCancel ns (pd_name p)) (filter (\<lambda>p. \<not> has_cancel (pd_annotations p)) pods)))"

section \<open>Starting a stage\<close>

definition pending_component :: "component_spec \<Rightarrow> component_status" where
  "pending_component c =
     \<lparr>ct_name = cs_name c, ct_phase = CompPending, ct_exitCode = None, ct_podName = [],
      ct_startTime = None, ct_completionTime = None, ct_message = []\<rparr>"

definition map_stage :: "nat \<Rightarrow> (stage_status \<Rightarrow> stage_status) \<Rightarrow> pipelinerun \<Rightarrow> pipelinerun" where
  "map_stage i f = map_status (\<lambda>s. s\<lparr>rn_stages := (rn_stages s)[i := f (rn_stages s ! i)]\<rparr>)"

text \<open>One pass of the loop that creates the Jobs, on the component statuses built so far.\<close>

datatype start_result =
    Started trace "component_status list"
  | BuildFailed trace "component_status list" string string
  | StartError trace string

definition create_objects ::
    "run_env \<Rightarrow> trace \<Rightarrow> job \<Rightarrow> config_map \<Rightarrow> trace \<times> string option" where
  "create_objects env tr job cm =
     (case en_setOwner env tr (job_name job) of
        Some e \<Rightarrow> (tr, Some e)
      | None \<Rightarrow>
          (case en_setOwner env tr (cm_name cm) of
             Some e \<Rightarrow> (tr, Some e)
           | None \<Rightarrow>
               (let tr1 = tr @ [CreateConfigMap cm]; tr2 = tr1 @ [CreateJob job] in
                case en_write env tr (CreateConfigMap cm) of
                  Some e \<Rightarrow>
                    if \<not> IsAlreadyExists e then (tr1, Some (error_text e))
                    else (case en_write env tr1 (CreateJob job) of
                            Some e' \<Rightarrow> (tr2, if IsAlreadyExists e' then None else Some (error_text e'))
                          | None \<Rightarrow> (tr2, None))
                | None \<Rightarrow>
                    (case en_write env tr1 (CreateJob job) of
                       Some e' \<Rightarrow> (tr2, if IsAlreadyExists e' then None else Some (error_text e'))
                     | None \<Rightarrow> (tr2, None)))))"

definition running_component :: "int \<Rightarrow> job \<Rightarrow> component_status \<Rightarrow> component_status" where
  "running_component now job cs =
     cs\<lparr>ct_phase := CompRunning, ct_podName := job_name job, ct_startTime := Some now\<rparr>"

fun start_components ::
    "operator_config \<Rightarrow> run_env \<Rightarrow> pipelinerun \<Rightarrow> pipeline_spec \<Rightarrow> trace \<Rightarrow> component_status list \<Rightarrow>
     component_spec list \<Rightarrow> start_result" where
  "start_components r env pr spec tr started [] = Started tr started"
| "start_components r env pr spec tr started (c # cs) =
     (case buildComponentJob (vl_parseDuration (en_lib env)) (en_yaml env) (en_now env) r pr spec c of
        Inl e \<Rightarrow>
          BuildFailed tr
            (started @ (pending_component c)\<lparr>ct_phase := CompFailedApplication, ct_message := e\<rparr> #
             map pending_component cs) (cs_name c) e
      | Inr (job, cm) \<Rightarrow>
          (case create_objects env tr job cm of
             (tr', Some e) \<Rightarrow> StartError tr' e
           | (tr', None) \<Rightarrow>
               start_components r env pr spec tr'
                 (started @ [running_component (en_now env) job (pending_component c)]) cs))"

definition startStage ::
    "operator_config \<Rightarrow> run_env \<Rightarrow> retries \<Rightarrow> trace \<Rightarrow> pipelinerun \<Rightarrow> pipeline_spec \<Rightarrow> nat \<Rightarrow> outcome" where
  "startStage r env rt tr pr spec i =
     (let stage = ps_stages spec ! i in
      case start_components r env pr spec tr [] (st_components stage) of
        Started tr' cts \<Rightarrow>
          updateStatus env rt tr'
            (map_stage i (\<lambda>ss. ss\<lparr>ss_components := cts, ss_phase := StageRunning,
               ss_startTime := Some (en_now env)\<rparr>) pr)
            (Requeue (Some PipelineRunRequeueInterval))
      | BuildFailed tr' cts name e \<Rightarrow>
          updateStatus env rt tr'
            (map_stage i (\<lambda>ss. ss\<lparr>ss_components := cts, ss_phase := StageFailedApplication,
               ss_message := ''Failed to build job for component '' @ [CHR 0x27] @ name @ [CHR 0x27] @
                 '': '' @ e\<rparr>) pr)
            (Requeue None)
      | StartError tr' e \<Rightarrow> return_with rt tr' (Failed e))"

section \<open>Polling a stage\<close>

record poll =
  po_calls :: trace
  po_resolved :: "resolved_component_status list"
  po_allSucceeded :: bool
  po_anyFailedUser :: bool
  po_anyFailedApp :: bool
  po_failedComponent :: string
  po_failedMessage :: string

definition note_failure :: "component_status \<Rightarrow> bool \<Rightarrow> poll \<Rightarrow> poll" where
  "note_failure cs user st =
     st\<lparr>po_anyFailedUser := (user \<or> po_anyFailedUser st),
        po_anyFailedApp := (\<not> user \<or> po_anyFailedApp st),
        po_failedComponent := ct_name cs, po_failedMessage := ct_message cs\<rparr>"

definition job_completed :: "run_env \<Rightarrow> string \<Rightarrow> string \<Rightarrow> component_status \<times> poll \<Rightarrow> component_status \<times> poll" where
  "job_completed env ns jobName st =
     (case st of (cs, po) \<Rightarrow>
        (case extractComponentStatusMessage env (po_calls po) ns jobName 0 of (tr, msg) \<Rightarrow>
           (cs\<lparr>ct_phase := CompSucceeded, ct_exitCode := Some 0, ct_completionTime := Some (en_now env),
               ct_message := (if msg \<noteq> [] then msg else ct_message cs)\<rparr>,
            po\<lparr>po_calls := tr\<rparr>)))"

definition job_failed ::
    "run_env \<Rightarrow> string \<Rightarrow> string \<Rightarrow> int option \<Rightarrow> string \<Rightarrow> component_status \<times> poll \<Rightarrow> component_status \<times> poll" where
  "job_failed env ns jobName exitCode condMsg st =
     (case st of (cs, po) \<Rightarrow>
        (case exitCode of
           Some code \<Rightarrow>
             let user = (ClassifyExitCode code = FailureTypeUser) in
             (case extractComponentStatusMessage env (po_calls po) ns jobName code of (tr, msg) \<Rightarrow>
                let cs' = cs\<lparr>ct_exitCode := exitCode,
                             ct_phase := (if user then CompFailedUser else CompFailedApplication),
                             ct_message := (if msg \<noteq> [] then msg else condMsg),
                             ct_completionTime := Some (en_now env)\<rparr>
                in (cs', note_failure cs' user (po\<lparr>po_calls := tr\<rparr>)))
         | None \<Rightarrow>
             let cs' = cs\<lparr>ct_exitCode := None, ct_phase := CompFailedApplication, ct_message := condMsg,
                          ct_completionTime := Some (en_now env)\<rparr>
             in (cs', note_failure cs' False po)))"

fun apply_conditions ::
    "run_env \<Rightarrow> string \<Rightarrow> string \<Rightarrow> int option \<Rightarrow> job_condition list \<Rightarrow> component_status \<times> poll \<Rightarrow>
     component_status \<times> poll" where
  "apply_conditions env ns jobName exitCode [] st = st"
| "apply_conditions env ns jobName exitCode (c # cs) st =
     apply_conditions env ns jobName exitCode cs
       (if jc_type c = JobComplete \<and> jc_true c then job_completed env ns jobName st
        else if jc_type c = JobFailed \<and> jc_true c
        then job_failed env ns jobName exitCode (jc_message c) st
        else st)"

definition poll_component ::
    "run_env \<Rightarrow> pipelinerun \<Rightarrow> string \<Rightarrow> component_status \<Rightarrow> poll \<Rightarrow>
     trace \<times> string + component_status \<times> poll" where
  "poll_component env pr stageName cs po =
     (if ct_phase cs = CompSucceeded then Inr (cs, po)
      else if ct_phase cs = CompFailedUser then Inr (cs, note_failure cs True po)
      else if ct_phase cs = CompFailedApplication then Inr (cs, note_failure cs False po)
      else
        (let ns = pr_namespace pr;
             jobName = componentJobName pr stageName (ct_name cs);
             tr = po_calls po;
             po1 = po\<lparr>po_allSucceeded := False, po_calls := tr @ [GetJob ns jobName]\<rparr>
         in case en_getJob env tr ns jobName of
              Inl e \<Rightarrow> if IsNotFound e then Inr (cs, po1) else Inl (po_calls po1, error_text e)
            | Inr conds \<Rightarrow>
                (case extractExitCodeFromJob env (po_calls po1) ns jobName of (tr2, exitCode) \<Rightarrow>
                 (case extractImageIDFromJob env tr2 ns jobName of (tr3, imageID) \<Rightarrow>
                    Inr (apply_conditions env ns jobName exitCode conds
                      (cs, po1\<lparr>po_calls := tr3,
                               po_resolved := recordComponentImageID (ct_name cs) imageID (po_resolved po1)\<rparr>))))))"

datatype poll_result = Polled "component_status list" poll | PollError trace string | PollPanic trace

text \<open>The loop runs over the components of the frozen spec and indexes the statuses.\<close>

fun poll_components ::
    "run_env \<Rightarrow> pipelinerun \<Rightarrow> string \<Rightarrow> component_spec list \<Rightarrow> component_status list \<Rightarrow> poll \<Rightarrow>
     component_status list \<Rightarrow> poll_result" where
  "poll_components env pr stageName [] css po acc = Polled (acc @ css) po"
| "poll_components env pr stageName (c # cs) [] po acc = PollPanic (po_calls po)"
| "poll_components env pr stageName (c # cs) (ct # css) po acc =
     (case poll_component env pr stageName ct po of
        Inl (tr, e) \<Rightarrow> PollError tr e
      | Inr (ct', po') \<Rightarrow> poll_components env pr stageName cs css po' (acc @ [ct']))"

definition initial_poll :: "trace \<Rightarrow> pipelinerun \<Rightarrow> poll" where
  "initial_poll tr pr =
     \<lparr>po_calls = tr, po_resolved = rn_resolved (pr_status pr), po_allSucceeded = True,
      po_anyFailedUser = False, po_anyFailedApp = False, po_failedComponent = [], po_failedMessage = []\<rparr>"

definition polled_run :: "nat \<Rightarrow> component_status list \<Rightarrow> poll \<Rightarrow> pipelinerun \<Rightarrow> pipelinerun" where
  "polled_run i cts po pr =
     map_stage i (\<lambda>ss. ss\<lparr>ss_components := cts\<rparr>)
       (map_status (\<lambda>s. s\<lparr>rn_resolved := po_resolved po\<rparr>) pr)"

definition failed_stage_status :: "int \<Rightarrow> poll \<Rightarrow> stage_status \<Rightarrow> stage_status" where
  "failed_stage_status now po ss =
     ss\<lparr>ss_phase := (if po_anyFailedUser po then StageFailedUser else StageFailedApplication),
        ss_message := ''Component '' @ [CHR 0x27] @ po_failedComponent po @ [CHR 0x27] @ '' failed: '' @
          po_failedMessage po,
        ss_completionTime := Some now\<rparr>"

definition checkStageComponents ::
    "run_env \<Rightarrow> retries \<Rightarrow> trace \<Rightarrow> pipelinerun \<Rightarrow> pipeline_spec \<Rightarrow> nat \<Rightarrow> outcome" where
  "checkStageComponents env rt tr pr spec i =
     (let stage = ps_stages spec ! i; ss = rn_stages (pr_status pr) ! i in
      case poll_components env pr (st_name stage) (st_components stage) (ss_components ss)
             (initial_poll tr pr) [] of
        PollPanic tr1 \<Rightarrow> return_with rt tr1 Panic
      | PollError tr1 e \<Rightarrow> return_with rt tr1 (Failed e)
      | Polled cts po \<Rightarrow>
          let pr1 = polled_run i cts po pr; tr1 = po_calls po in
          if po_anyFailedUser po \<or> po_anyFailedApp po then
            updateStatus env rt tr1 (map_stage i (failed_stage_status (en_now env) po) pr1) (Requeue None)
          else if po_allSucceeded po then
            updateStatus env rt tr1
              (map_stage i (\<lambda>ss. ss\<lparr>ss_phase := StageSucceeded, ss_completionTime := Some (en_now env)\<rparr>) pr1)
              (Requeue (Some PipelineRunRequeueInterval))
          else
            (updateStatus env rt tr1 pr1 (Requeue (Some PipelineRunRequeueInterval)))
              \<lparr>o_result := Requeue (Some PipelineRunRequeueInterval)\<rparr>)"

section \<open>Preview deadline\<close>

definition previewDeadlinePassed :: "int \<Rightarrow> pipelinerun \<Rightarrow> bool" where
  "previewDeadlinePassed now pr =
     (case rs_preview (pr_spec pr) of
        None \<Rightarrow> False
      | Some p \<Rightarrow>
          if pv_timeoutSeconds p \<le> 0 then False
          else (case rn_startTime (pr_status pr) of
                  None \<Rightarrow> False
                | Some start \<Rightarrow> now - start > wrap64 (pv_timeoutSeconds p * second_ns)))"

definition componentTerminal :: "component_phase \<Rightarrow> bool" where
  "componentTerminal p \<longleftrightarrow> p = CompSucceeded \<or> p = CompFailedUser \<or> p = CompFailedApplication"

definition componentStatusByName :: "component_status list \<Rightarrow> string \<Rightarrow> nat option" where
  "componentStatusByName cts name =
     (case filter (\<lambda>i. ct_name (cts ! i) = name) [0..<length cts] of [] \<Rightarrow> None | i # _ \<Rightarrow> Some i)"

definition timed_out_component :: "int \<Rightarrow> string \<Rightarrow> component_status \<Rightarrow> component_status" where
  "timed_out_component now line cs =
     cs\<lparr>ct_phase := CompFailedUser,
        ct_message := (if line \<noteq> [] then SanitizeMessage (''preview timed out'' @ ''; last log: '' @ line)
                       else ''preview timed out''),
        ct_completionTime := Some now\<rparr>"

fun timeout_components ::
    "run_env \<Rightarrow> pipelinerun \<Rightarrow> string \<Rightarrow> trace \<Rightarrow> component_spec list \<Rightarrow> component_status list \<Rightarrow>
     trace \<times> (string + component_status list)" where
  "timeout_components env pr stageName tr [] cts = (tr, Inr cts)"
| "timeout_components env pr stageName tr (c # cs) cts =
     (let ns = pr_namespace pr; jobName = componentJobName pr stageName (cs_name c) in
      case (case componentStatusByName cts (cs_name c) of
              None \<Rightarrow> (tr, cts)
            | Some i \<Rightarrow>
                if componentTerminal (ct_phase (cts ! i)) then (tr, cts)
                else (case extractComponentStatusMessage env tr ns jobName 0 of (tr', line) \<Rightarrow>
                        (tr', cts[i := timed_out_component (en_now env) line (cts ! i)]))) of
        (tr1, cts1) \<Rightarrow>
          (let tr2 = tr1 @ [DeleteJob ns jobName] in
           case en_write env tr1 (DeleteJob ns jobName) of
             Some e \<Rightarrow>
               if IsNotFound e then timeout_components env pr stageName tr2 cs cts1
               else (tr2, Inl (error_text e))
           | None \<Rightarrow> timeout_components env pr stageName tr2 cs cts1))"

definition preview_timeout_message :: "pipelinerun \<Rightarrow> string \<Rightarrow> string" where
  "preview_timeout_message pr stageName =
     ''preview timed out after '' @
     fmt_d (case rs_preview (pr_spec pr) of None \<Rightarrow> 0 | Some p \<Rightarrow> pv_timeoutSeconds p) @
     ''s during stage '' @ stageName"

definition failPreviewTimeout ::
    "run_env \<Rightarrow> retries \<Rightarrow> trace \<Rightarrow> pipelinerun \<Rightarrow> pipeline_spec \<Rightarrow> nat \<Rightarrow> outcome" where
  "failPreviewTimeout env rt tr pr spec i =
     (let stage = ps_stages spec ! i; ss = rn_stages (pr_status pr) ! i;
          msg = preview_timeout_message pr (st_name stage);
          tr1 = propagateCancelToPods env tr pr
      in case timeout_components env pr (st_name stage) tr1 (st_components stage) (ss_components ss) of
           (tr2, Inl e) \<Rightarrow> return_with rt tr2 (Failed e)
         | (tr2, Inr cts) \<Rightarrow>
             updateStatus env rt tr2
               (complete_at (en_now env) (fail_with RunFailedUser msg
                 (map_stage i (\<lambda>ss. ss\<lparr>ss_components := cts, ss_phase := StageFailedUser,
                    ss_message := msg, ss_completionTime := Some (en_now env)\<rparr>) pr)))
               (Requeue None))"

section \<open>Running\<close>

fun first_unfinished :: "nat \<Rightarrow> stage_status list \<Rightarrow> nat option" where
  "first_unfinished i [] = None"
| "first_unfinished i (ss # sss) =
     (if ss_phase ss \<noteq> StageSucceeded then Some i else first_unfinished (Suc i) sss)"

definition stage_failure_message :: "string \<Rightarrow> string \<Rightarrow> string" where
  "stage_failure_message stageName msg =
     ''Stage '' @ [CHR 0x27] @ stageName @ [CHR 0x27] @ '' failed: '' @ msg"

definition handleRunning ::
    "operator_config \<Rightarrow> run_env \<Rightarrow> retries \<Rightarrow> trace \<Rightarrow> pipelinerun \<Rightarrow> outcome" where
  "handleRunning r env rt tr pr =
     (case rn_resolvedSpec (pr_status pr) of
        None \<Rightarrow>
          updateStatus env rt tr
            (complete_at (en_now env) (fail_with RunFailedApplication
              ''internal: resolvedSpec missing on a Running PipelineRun'' pr)) (Requeue None)
      | Some spec \<Rightarrow>
          (case first_unfinished 0 (rn_stages (pr_status pr)) of
             None \<Rightarrow>
               updateStatus env rt tr
                 (complete_at (en_now env) (fail_with RunSucceeded ''All stages completed successfully'' pr))
                 (Requeue None)
           | Some i \<Rightarrow>
               if length (ps_stages spec) \<le> i then return_with rt tr Panic
               else
                 (let stage = ps_stages spec ! i;
                      ss = rn_stages (pr_status pr) ! i;
                      pr1 = map_status (\<lambda>s. s\<lparr>rn_currentStage := st_name stage\<rparr>) pr
                  in if previewDeadlinePassed (en_now env) pr1 \<and>
                        (ss_phase ss = StagePending \<or> ss_phase ss = StageRunning)
                     then failPreviewTimeout env rt tr pr1 spec i
                     else
                       (case ss_phase ss of
                          StagePending \<Rightarrow> startStage r env rt tr pr1 spec i
                        | StageRunning \<Rightarrow> checkStageComponents env rt tr pr1 spec i
                        | StageFailedUser \<Rightarrow>
                            updateStatus env rt tr
                              (complete_at (en_now env) (fail_with RunFailedUser
                                (stage_failure_message (st_name stage) (ss_message ss)) pr1)) (Requeue None)
                        | StageFailedApplication \<Rightarrow>
                            updateStatus env rt tr
                              (complete_at (en_now env) (fail_with RunFailedApplication
                                (stage_failure_message (st_name stage) (ss_message ss)) pr1)) (Requeue None)
                        | _ \<Rightarrow> return_with rt tr (Requeue (Some PipelineRunRequeueInterval))))))"

section \<open>Reconcile\<close>

definition reconcileRun ::
    "operator_config \<Rightarrow> run_env \<Rightarrow> retries \<Rightarrow> pipelinerun \<Rightarrow> outcome" where
  "reconcileRun r env rt pr0 =
     (let pr = map_status (\<lambda>s. s\<lparr>rn_observedGeneration := pr_generation pr0\<rparr>) pr0;
          tr = (if has_cancel (pr_annotations pr) then propagateCancelToPods env [] pr else [])
      in case rn_phase (pr_status pr) of
           RunNone \<Rightarrow> handlePending env rt tr pr
         | RunPending \<Rightarrow> handlePending env rt tr pr
         | RunRunning \<Rightarrow> handleRunning r env rt tr pr
         | RunOther _ \<Rightarrow> return_with rt tr (Requeue None)
         | _ \<Rightarrow>
             return_with (clearNotFoundRetry (clearTransientRetries rt (run_key pr)) (run_key pr)) tr
               (Requeue None))"

text \<open>A run that is gone is not an error; the status field is \<open>None\<close> when there is no run.\<close>

definition Reconcile ::
    "operator_config \<Rightarrow> run_env \<Rightarrow> retries \<Rightarrow> api_error + pipelinerun \<Rightarrow> result \<times> retries \<times> outcome option" where
  "Reconcile r env rt get =
     (case get of
        Inl e \<Rightarrow> (if IsNotFound e then Requeue None else Failed (error_text e), rt, None)
      | Inr pr \<Rightarrow> let out = reconcileRun r env rt pr in (o_result out, o_retries out, Some out))"

end
