(* ===== verification/Run_Lifecycle.thy ===== *)
theory Run_Lifecycle
  imports Run_Controller
begin

text \<open>
  The life of a PipelineRun under the reconciler of \<open>Run_Controller\<close>. A state is the stored run with
  the reconciler's counters. It moves by reconciling it in any environment, by edits of the run's
  spec, annotations and generation (never its status, which is a subresource only the controller
  writes), and by arbitrary changes of the counters (operator restarts, other runs). The locales of
  \<open>Prelude\<close> are interpreted for the invariant and for what is frozen at admission.
\<close>

section \<open>Steps\<close>

definition stored_after :: "pipelinerun \<Rightarrow> outcome \<Rightarrow> pipelinerun" where
  "stored_after pr out = (case o_stored out of None \<Rightarrow> pr | Some s \<Rightarrow> pr\<lparr>pr_status := s\<rparr>)"

type_synonym run_state = "pipelinerun \<times> retries"

inductive run_step :: "operator_config \<Rightarrow> run_state \<Rightarrow> run_state \<Rightarrow> bool" for r where
  reconciled: "out = reconcileRun r env rt pr \<Longrightarrow>
    run_step r (pr, rt) (stored_after pr out, o_retries out)"
| edited: "run_step r (pr, rt)
    (pr\<lparr>pr_spec := sp, pr_annotations := ann, pr_generation := gen\<rparr>, rt)"
| counters: "run_step r (pr, rt) (pr, rt')"

inductive_cases run_stepE: "run_step r (pr, rt) st"

definition empty_status :: pipelinerun_status where
  "empty_status = \<lparr>rn_phase = RunNone, rn_runID = [], rn_currentStage = [], rn_stages = [],
     rn_startTime = None, rn_completionTime = None, rn_message = [], rn_observedGeneration = 0,
     rn_conditions = [], rn_pipelineGeneration = 0, rn_resolvedSpec = None, rn_resolved = []\<rparr>"

definition fresh_run :: "run_state \<Rightarrow> bool" where
  "fresh_run st \<longleftrightarrow> pr_status (fst st) = empty_status"

section \<open>The invariant\<close>

definition exit_ok :: "component_status \<Rightarrow> bool" where
  "exit_ok ct \<longleftrightarrow> (ct_phase ct = CompSucceeded \<longrightarrow> ct_exitCode ct = Some 0)"

definition stage_matches :: "stage_spec \<Rightarrow> stage_status \<Rightarrow> bool" where
  "stage_matches stage ss \<longleftrightarrow>
     ss_name ss = st_name stage \<and>
     (ss_phase ss = StageRunning \<or> ss_phase ss = StageSucceeded \<longrightarrow>
        map ct_name (ss_components ss) = map cs_name (st_components stage)) \<and>
     (ss_phase ss = StageSucceeded \<longrightarrow> list_all (\<lambda>ct. ct_phase ct = CompSucceeded) (ss_components ss)) \<and>
     list_all exit_ok (ss_components ss)"

definition stage_order :: "stage_status list \<Rightarrow> bool" where
  "stage_order sss \<longleftrightarrow>
     (\<forall>i j. j < i \<longrightarrow> i < length sss \<longrightarrow> ss_phase (sss ! i) \<noteq> StagePending \<longrightarrow>
        ss_phase (sss ! j) = StageSucceeded)"

definition status_inv :: "pipelinerun_status \<Rightarrow> bool" where
  "status_inv s \<longleftrightarrow>
     (case rn_resolvedSpec s of
        None \<Rightarrow> rn_stages s = [] \<and> rn_phase s \<noteq> RunRunning \<and> rn_phase s \<noteq> RunSucceeded
      | Some spec \<Rightarrow>
          rn_phase s \<noteq> RunNone \<and> rn_phase s \<noteq> RunPending \<and>
          list_all2 stage_matches (ps_stages spec) (rn_stages s) \<and> stage_order (rn_stages s) \<and>
          map rcs_name (rn_resolved s) = map cs_name (concat (map st_components (ps_stages spec)))) \<and>
     (rn_phase s = RunSucceeded \<longrightarrow> list_all (\<lambda>ss. ss_phase ss = StageSucceeded) (rn_stages s))"

definition run_inv :: "run_state \<Rightarrow> bool" where
  "run_inv st \<longleftrightarrow> status_inv (pr_status (fst st))"

text \<open>What is frozen: once a run has its resolved spec, spec, run id, start time and generation stay,
  and a resolved component changes only by receiving its image digest, once.\<close>

definition image_le :: "resolved_component_status list \<Rightarrow> resolved_component_status list \<Rightarrow> bool" where
  "image_le = list_all2 (\<lambda>a b. rcs_name b = rcs_name a \<and> rcs_component b = rcs_component a \<and>
     rcs_version b = rcs_version a \<and> rcs_image b = rcs_image a \<and>
     (rcs_imageID a \<noteq> [] \<longrightarrow> rcs_imageID b = rcs_imageID a))"

definition frozen_le :: "pipelinerun_status \<Rightarrow> pipelinerun_status \<Rightarrow> bool" where
  "frozen_le s t \<longleftrightarrow>
     (rn_resolvedSpec s \<noteq> None \<longrightarrow>
        rn_resolvedSpec t = rn_resolvedSpec s \<and> rn_runID t = rn_runID s \<and>
        rn_startTime t = rn_startTime s \<and> rn_pipelineGeneration t = rn_pipelineGeneration s \<and>
        image_le (rn_resolved s) (rn_resolved t))"

lemma image_le_refl [simp]: "image_le rcs rcs"
  by (simp add: image_le_def list_all2_refl)

lemma image_le_trans: "image_le a b \<Longrightarrow> image_le b c \<Longrightarrow> image_le a c"
  unfolding image_le_def by (rule list_all2_trans) auto

lemma image_le_names: "image_le a b \<Longrightarrow> map rcs_name b = map rcs_name a"
  unfolding image_le_def by (induction rule: list_all2_induct) auto

lemma frozen_le_refl [simp]: "frozen_le s s"
  by (simp add: frozen_le_def)

lemma frozen_le_trans: "frozen_le s t \<Longrightarrow> frozen_le t u \<Longrightarrow> frozen_le s u"
  by (auto simp: frozen_le_def intro: image_le_trans)

section \<open>Status updates\<close>

lemma updateStatus_stored [simp]:
  "o_stored (updateStatus env rt tr pr res) = Some s \<longleftrightarrow>
     s = pr_status pr \<and> en_write env tr (UpdateStatus (pr_status pr)) = None"
  by (auto simp: updateStatus_def Let_def split: option.splits)

lemma return_with_stored [simp]: "o_stored (return_with rt tr res) = None"
  by (simp add: return_with_def)

lemma updateStatus_not_panic [simp]:
  "o_result (updateStatus env rt tr pr res) = Panic \<longleftrightarrow>
     res = Panic \<and> en_write env tr (UpdateStatus (pr_status pr)) = None"
  by (auto simp: updateStatus_def Let_def split: option.splits)

lemma return_with_result [simp]: "o_result (return_with rt tr res) = res"
  by (simp add: return_with_def)

lemma status_of_updates [simp]:
  "pr_status (map_status f pr) = f (pr_status pr)"
  "pr_status (fail_with ph msg pr) = (pr_status pr)\<lparr>rn_phase := ph, rn_message := msg\<rparr>"
  "pr_status (complete_at now pr) = (pr_status pr)\<lparr>rn_completionTime := Some now\<rparr>"
  "pr_status (map_stage i g pr) =
     (pr_status pr)\<lparr>rn_stages := (rn_stages (pr_status pr))[i := g (rn_stages (pr_status pr) ! i)]\<rparr>"
  by (simp_all add: map_status_def fail_with_def complete_at_def map_stage_def)

text \<open>What a status depends on for the invariant.\<close>

lemma status_inv_cong:
  "rn_resolvedSpec t = rn_resolvedSpec s \<Longrightarrow> rn_stages t = rn_stages s \<Longrightarrow> rn_phase t = rn_phase s \<Longrightarrow>
     map rcs_name (rn_resolved t) = map rcs_name (rn_resolved s) \<Longrightarrow> status_inv t = status_inv s"
  by (simp add: status_inv_def split: option.splits)

lemma status_inv_fail:
  "status_inv s \<Longrightarrow> ph = RunFailedUser \<or> ph = RunFailedApplication \<Longrightarrow>
     status_inv (s\<lparr>rn_phase := ph, rn_message := msg\<rparr>)"
  by (auto simp: status_inv_def split: option.splits)

section \<open>Admission\<close>

text \<open>Freezing changes nothing of a stage but the resources of its components.\<close>

definition same_but_resources :: "component_spec \<Rightarrow> component_spec \<Rightarrow> bool" where
  "same_but_resources c c' \<longleftrightarrow> c' = c\<lparr>cs_resources := cs_resources c'\<rparr>"

lemma freeze_components_shape:
  "freeze_components reg k cs = Inr (cs', rcs, nts) \<Longrightarrow>
     list_all2 same_but_resources cs cs' \<and> map rcs_name rcs = map cs_name cs'"
  by (induction cs arbitrary: k cs' rcs nts)
     (auto simp: Let_def resolved_status_def same_but_resources_def
       split: option.splits prod.splits sum.splits)

lemma freeze_stages_shape:
  "freeze_stages reg k stages = Inr (stages', rcs, nts) \<Longrightarrow>
     list_all2 (\<lambda>st st'. st_name st' = st_name st \<and>
       list_all2 same_but_resources (st_components st) (st_components st')) stages stages' \<and>
     map rcs_name rcs = map cs_name (concat (map st_components stages'))"
  by (induction stages arbitrary: k stages' rcs nts)
     (auto split: option.splits prod.splits sum.splits dest!: freeze_components_shape)

lemma admitted_status_inv:
  assumes "map rcs_name rcs = map cs_name (concat (map st_components stages))"
  shows "status_inv (admitted_status now p stages rcs nts s)"
proof -
  have "stage_matches st (pending_stage st)" for st
    by (simp add: stage_matches_def pending_stage_def)
  then have "list_all2 stage_matches stages (map pending_stage stages)"
    by (simp add: list_all2_conv_all_nth)
  moreover have "stage_order (map pending_stage stages)"
    by (simp add: stage_order_def pending_stage_def)
  ultimately show ?thesis using assms
    by (simp add: status_inv_def admitted_status_def)
qed

lemma status_inv_conditions [simp]: "status_inv (s\<lparr>rn_conditions := c\<rparr>) = status_inv s"
  by (rule status_inv_cong) simp_all

lemma status_inv_runID [simp]: "status_inv (s\<lparr>rn_runID := c\<rparr>) = status_inv s"
  by (rule status_inv_cong) simp_all

lemma status_inv_time [simp]: "status_inv (s\<lparr>rn_completionTime := c\<rparr>) = status_inv s"
  by (rule status_inv_cong) simp_all

lemma status_inv_gen [simp]: "status_inv (s\<lparr>rn_observedGeneration := c\<rparr>) = status_inv s"
  by (rule status_inv_cong) simp_all

lemma status_inv_current [simp]: "status_inv (s\<lparr>rn_currentStage := c\<rparr>) = status_inv s"
  by (rule status_inv_cong) simp_all

lemma transient_stored:
  "o_stored (requeueOnTransientAdmissionError env rt tr pr msg) = Some s \<Longrightarrow> status_inv (pr_status pr) \<Longrightarrow>
     status_inv s"
  by (auto simp: requeueOnTransientAdmissionError_def status_inv_fail split: prod.splits if_splits)

lemma admitPipeline_stored:
  "o_stored (admitPipeline env rt tr pr p) = Some s \<Longrightarrow> status_inv (pr_status pr) \<Longrightarrow> status_inv s"
  by (auto simp: admitPipeline_def Let_def status_inv_fail updateSecretsResolvedCondition_def
      intro: transient_stored admitted_status_inv dest!: freeze_stages_shape
      split: option.splits prod.splits sum.splits if_splits)

lemma handlePipeline_stored:
  "o_stored (handlePipeline env rt tr pr p) = Some s \<Longrightarrow> status_inv (pr_status pr) \<Longrightarrow> status_inv s"
  by (auto simp: handlePipeline_def Let_def status_inv_fail fail_missing_secrets_def
      intro: admitPipeline_stored split: prod.splits sum.splits if_splits)

lemma handlePending_stored:
  "o_stored (handlePending env rt tr pr) = Some s \<Longrightarrow> status_inv (pr_status pr) \<Longrightarrow> status_inv s"
  by (auto simp: handlePending_def Let_def status_inv_fail intro: handlePipeline_stored
      split: option.splits prod.splits sum.splits if_splits)

lemma transient_not_panic [simp]: "o_result (requeueOnTransientAdmissionError env rt tr pr msg) \<noteq> Panic"
  by (simp add: requeueOnTransientAdmissionError_def split: prod.split)

lemma admit_not_panic [simp]: "o_result (admitPipeline env rt tr pr p) \<noteq> Panic"
  by (simp add: admitPipeline_def Let_def split: option.split prod.split sum.split)

lemma pipeline_not_panic [simp]: "o_result (handlePipeline env rt tr pr p) \<noteq> Panic"
  by (simp add: handlePipeline_def Let_def split: prod.split sum.split)

lemma pending_not_panic [simp]: "o_result (handlePending env rt tr pr) \<noteq> Panic"
  by (simp add: handlePending_def Let_def split: option.split prod.split sum.split)

section \<open>Polling\<close>

lemma record_image_le: "image_le rcs (record_image name img rcs)"
  by (induction rcs) (auto simp: image_le_def list_all2_refl)

lemma recordComponentImageID_le [simp]: "image_le rcs (recordComponentImageID name img rcs)"
  by (simp add: recordComponentImageID_def record_image_le)

text \<open>What polling keeps of a component status and of the accumulated findings.\<close>

definition poll_keeps :: "component_status \<times> poll \<Rightarrow> component_status \<times> poll \<Rightarrow> bool" where
  "poll_keeps st st' \<longleftrightarrow>
     ct_name (fst st') = ct_name (fst st) \<and> (exit_ok (fst st) \<longrightarrow> exit_ok (fst st')) \<and>
     po_resolved (snd st') = po_resolved (snd st) \<and> po_allSucceeded (snd st') = po_allSucceeded (snd st)"

lemma poll_keeps_refl [simp]: "poll_keeps st st"
  by (simp add: poll_keeps_def)

lemma poll_keeps_trans: "poll_keeps a b \<Longrightarrow> poll_keeps b c \<Longrightarrow> poll_keeps a c"
  by (auto simp: poll_keeps_def)

lemma job_completed_keeps: "poll_keeps st (job_completed env ns j st)"
  by (cases st) (auto simp: job_completed_def poll_keeps_def exit_ok_def split: prod.split)

lemma job_failed_keeps: "poll_keeps st (job_failed env ns j code msg st)"
  by (cases st)
     (auto simp: job_failed_def poll_keeps_def exit_ok_def note_failure_def Let_def
       split: prod.split option.split)

lemma apply_conditions_keeps: "poll_keeps st (apply_conditions env ns j code conds st)"
proof (induction conds arbitrary: st)
  case (Cons c conds)
  show ?case
    by (auto intro!: poll_keeps_trans [OF job_completed_keeps Cons]
        poll_keeps_trans [OF job_failed_keeps Cons] Cons)
qed simp

text \<open>One polled component: its name stays, a success has exit code 0, resolved components only
  gain digests, and a component that was already successful is the only kind that keeps
  \<open>allSucceeded\<close>.\<close>

lemma poll_component_keeps:
  assumes "poll_component env pr st ct po = Inr (ct', po')"
  shows "ct_name ct' = ct_name ct \<and> (exit_ok ct \<longrightarrow> exit_ok ct') \<and>
    image_le (po_resolved po) (po_resolved po') \<and>
    (po_allSucceeded po' \<and> \<not> po_anyFailedUser po' \<and> \<not> po_anyFailedApp po' \<longrightarrow>
       po_allSucceeded po \<and> \<not> po_anyFailedUser po \<and> \<not> po_anyFailedApp po \<and> ct' = ct \<and>
       ct_phase ct = CompSucceeded)"
proof (cases "ct_phase ct = CompSucceeded \<or> ct_phase ct = CompFailedUser \<or> ct_phase ct = CompFailedApplication")
  case True
  with assms show ?thesis by (auto simp: poll_component_def note_failure_def split: if_splits)
next
  case False
  let ?j = "componentJobName pr st (ct_name ct)"
  let ?po1 = "po\<lparr>po_allSucceeded := False,
    po_calls := po_calls po @ [GetJob (pr_namespace pr) ?j]\<rparr>"
  show ?thesis
  proof (cases "en_getJob env (po_calls po) (pr_namespace pr) ?j")
    case (Inl e)
    with False assms show ?thesis by (auto simp: poll_component_def Let_def split: if_splits)
  next
    case (Inr conds)
    with False assms obtain tr img code where
      "apply_conditions env (pr_namespace pr) ?j code conds
         (ct, ?po1\<lparr>po_calls := tr, po_resolved := recordComponentImageID (ct_name ct) img (po_resolved po)\<rparr>) =
       (ct', po')"
      by (auto simp: poll_component_def Let_def split: prod.splits)
    then have "poll_keeps (ct, ?po1\<lparr>po_calls := tr,
        po_resolved := recordComponentImageID (ct_name ct) img (po_resolved po)\<rparr>) (ct', po')"
      using apply_conditions_keeps by metis
    then show ?thesis by (auto simp: poll_keeps_def)
  qed
qed

lemma poll_components_keeps:
  "poll_components env pr st cs cts po acc = Polled cts' po' \<Longrightarrow> length cts = length cs \<Longrightarrow>
     (\<exists>new. cts' = acc @ new \<and> map ct_name new = map ct_name cts \<and>
        (list_all exit_ok cts \<longrightarrow> list_all exit_ok new) \<and>
        (po_allSucceeded po' \<and> \<not> po_anyFailedUser po' \<and> \<not> po_anyFailedApp po' \<longrightarrow>
           list_all (\<lambda>ct. ct_phase ct = CompSucceeded) new \<and>
           po_allSucceeded po \<and> \<not> po_anyFailedUser po \<and> \<not> po_anyFailedApp po)) \<and>
     image_le (po_resolved po) (po_resolved po')"
proof (induction cs arbitrary: cts po acc)
  case Nil
  then show ?case by auto
next
  case (Cons c cs)
  then obtain ct cts1 where cts: "cts = ct # cts1" by (cases cts) auto
  with Cons.prems obtain ct' po1 where one: "poll_component env pr st ct po = Inr (ct', po1)"
    and rest: "poll_components env pr st cs cts1 po1 (acc @ [ct']) = Polled cts' po'"
    by (auto split: sum.splits prod.splits)
  from Cons.prems cts have "length cts1 = length cs" by simp
  from Cons.IH [OF rest this] obtain new where new: "cts' = (acc @ [ct']) @ new"
      "map ct_name new = map ct_name cts1" "list_all exit_ok cts1 \<longrightarrow> list_all exit_ok new"
      "po_allSucceeded po' \<and> \<not> po_anyFailedUser po' \<and> \<not> po_anyFailedApp po' \<longrightarrow>
         list_all (\<lambda>ct. ct_phase ct = CompSucceeded) new \<and>
         po_allSucceeded po1 \<and> \<not> po_anyFailedUser po1 \<and> \<not> po_anyFailedApp po1"
    and im: "image_le (po_resolved po1) (po_resolved po')" by blast
  note k = poll_component_keeps [OF one]
  have "cts' = acc @ (ct' # new)" using new(1) by simp
  moreover have "map ct_name (ct' # new) = map ct_name cts" using new(2) k cts by simp
  moreover have "list_all exit_ok cts \<longrightarrow> list_all exit_ok (ct' # new)" using new(3) k cts by simp
  moreover have "po_allSucceeded po' \<and> \<not> po_anyFailedUser po' \<and> \<not> po_anyFailedApp po' \<longrightarrow>
      list_all (\<lambda>ct. ct_phase ct = CompSucceeded) (ct' # new) \<and>
      po_allSucceeded po \<and> \<not> po_anyFailedUser po \<and> \<not> po_anyFailedApp po"
    using new(4) k by auto
  moreover have "image_le (po_resolved po) (po_resolved po')" using im k image_le_trans by blast
  ultimately show ?case by blast
qed

lemma poll_components_no_panic:
  "length cts = length cs \<Longrightarrow> poll_components env pr st cs cts po acc \<noteq> PollPanic tr"
  by (induction cs arbitrary: cts po acc)
     (auto simp: length_Suc_conv split: sum.splits prod.splits)

section \<open>Stage updates\<close>

lemma first_unfinished_Some:
  "first_unfinished k sss = Some i \<Longrightarrow>
     k \<le> i \<and> i - k < length sss \<and> ss_phase (sss ! (i - k)) \<noteq> StageSucceeded \<and>
     (\<forall>j < i - k. ss_phase (sss ! j) = StageSucceeded)"
proof (induction sss arbitrary: k)
  case (Cons ss sss)
  show ?case
  proof (cases "ss_phase ss = StageSucceeded")
    case True
    with Cons.prems have IH: "Suc k \<le> i \<and> i - Suc k < length sss \<and>
        ss_phase (sss ! (i - Suc k)) \<noteq> StageSucceeded \<and>
        (\<forall>j < i - Suc k. ss_phase (sss ! j) = StageSucceeded)" by (intro Cons.IH) simp
    then have "i - k = Suc (i - Suc k)" by linarith
    with IH True show ?thesis by (auto simp: nth_Cons split: nat.split)
  next
    case False
    with Cons.prems show ?thesis by simp
  qed
qed simp

lemma first_unfinished_None:
  "first_unfinished k sss = None \<longleftrightarrow> list_all (\<lambda>ss. ss_phase ss = StageSucceeded) sss"
  by (induction sss arbitrary: k) auto

lemma stage_order_update:
  assumes "stage_order sss" "first_unfinished 0 sss = Some i"
  shows "stage_order (sss[i := ss])"
proof -
  from first_unfinished_Some [OF assms(2)] have i: "i < length sss" "ss_phase (sss ! i) \<noteq> StageSucceeded"
    "\<forall>j < i. ss_phase (sss ! j) = StageSucceeded" by auto
  have later: "ss_phase (sss ! k) = StagePending" if "i < k" "k < length sss" for k
    using assms(1) i(2) that by (auto simp: stage_order_def)
  show ?thesis
    unfolding stage_order_def
  proof (intro allI impI)
    fix k j
    assume j: "j < k" and k: "k < length (sss[i := ss])" and ph: "ss_phase (sss[i := ss] ! k) \<noteq> StagePending"
    then have "k \<le> i" using later [of k] by (cases "i < k") auto
    with j i show "ss_phase (sss[i := ss] ! j) = StageSucceeded" by simp
  qed
qed

lemma status_inv_set_stage:
  assumes "status_inv s" "rn_resolvedSpec s = Some spec" "first_unfinished 0 (rn_stages s) = Some i"
    and "stage_matches (ps_stages spec ! i) ss" "image_le (rn_resolved s) rcs"
    and "rn_phase s = RunRunning" "ph = RunRunning \<or> ph = RunFailedUser"
  shows "status_inv (s\<lparr>rn_stages := (rn_stages s)[i := ss], rn_resolved := rcs, rn_phase := ph\<rparr>)"
proof -
  have "list_all2 stage_matches (ps_stages spec) ((rn_stages s)[i := ss])"
  proof (rule list_all2_all_nthI)
    show "length (ps_stages spec) = length ((rn_stages s)[i := ss])"
      using assms(1,2) by (auto simp: status_inv_def dest: list_all2_lengthD)
    show "stage_matches (ps_stages spec ! k) ((rn_stages s)[i := ss] ! k)" if "k < length (ps_stages spec)" for k
      using that assms(1,2,4) by (cases "k = i") (auto simp: status_inv_def list_all2_conv_all_nth)
  qed
  with assms stage_order_update image_le_names [OF assms(5)] show ?thesis
    by (auto simp: status_inv_def)
qed

lemma running_stage_matches:
  assumes "status_inv s" "rn_resolvedSpec s = Some spec" "first_unfinished 0 (rn_stages s) = Some i"
  shows "i < length (ps_stages spec) \<and> stage_matches (ps_stages spec ! i) (rn_stages s ! i)"
  using assms first_unfinished_Some [OF assms(3)]
  by (auto simp: status_inv_def list_all2_conv_all_nth)

section \<open>Starting a stage\<close>

lemma pending_component_facts [simp]:
  "ct_name (pending_component c) = cs_name c" "exit_ok (pending_component c)"
  "exit_ok (running_component now j (pending_component c))"
  "ct_name (running_component now j (pending_component c)) = cs_name c"
  "ct_phase (running_component now j (pending_component c)) = CompRunning"
  by (simp_all add: pending_component_def exit_ok_def running_component_def)

lemma start_components_Started:
  "start_components r env pr spec tr acc cs = Started tr' cts \<Longrightarrow>
     \<exists>new. cts = acc @ new \<and> map ct_name new = map cs_name cs \<and> list_all exit_ok new \<and>
       list_all (\<lambda>ct. ct_phase ct = CompRunning) new"
proof (induction cs arbitrary: tr acc)
  case (Cons c cs)
  from Cons.prems obtain job tr1 where
    rest: "start_components r env pr spec tr1
      (acc @ [running_component (en_now env) job (pending_component c)]) cs = Started tr' cts"
    by (auto split: sum.splits prod.splits option.splits)
  from Cons.IH [OF rest] show ?case by auto
qed simp

lemma start_components_BuildFailed:
  "start_components r env pr spec tr acc cs = BuildFailed tr' cts n e \<Longrightarrow> list_all exit_ok acc \<Longrightarrow>
     list_all exit_ok cts"
proof (induction cs arbitrary: tr acc)
  case (Cons c cs)
  show ?case
  proof (cases "buildComponentJob (vl_parseDuration (en_lib env)) (en_yaml env) (en_now env) r pr spec c")
    case (Inl a)
    with Cons.prems show ?thesis by (auto simp: exit_ok_def list_all_iff pending_component_def)
  next
    case (Inr b)
    with Cons.prems obtain job tr1 where
      rest: "start_components r env pr spec tr1
        (acc @ [running_component (en_now env) job (pending_component c)]) cs = BuildFailed tr' cts n e"
      by (auto split: prod.splits option.splits)
    from Cons.IH [OF rest] Cons.prems show ?thesis by simp
  qed
qed simp

lemma timeout_components_exit_ok:
  "timeout_components env pr st tr cs cts = (tr', Inr cts') \<Longrightarrow> list_all exit_ok cts \<Longrightarrow> list_all exit_ok cts'"
proof (induction cs arbitrary: tr cts)
  case (Cons c cs)
  have "list_all exit_ok (cts[i := timed_out_component now line x])" for i now line x
    using Cons.prems(2) by (auto simp: list_all_iff timed_out_component_def exit_ok_def
        dest!: set_update_subset_insert [THEN subsetD])
  with Cons show ?case
    by (auto simp: Let_def split: prod.splits option.splits if_splits)
qed simp

section \<open>Running handlers\<close>

text \<open>The situation in which \<open>handleRunning\<close> works on a stage.\<close>

definition at_stage :: "pipelinerun \<Rightarrow> pipeline_spec \<Rightarrow> nat \<Rightarrow> bool" where
  "at_stage pr spec i \<longleftrightarrow>
     status_inv (pr_status pr) \<and> rn_phase (pr_status pr) = RunRunning \<and>
     rn_resolvedSpec (pr_status pr) = Some spec \<and> first_unfinished 0 (rn_stages (pr_status pr)) = Some i"

lemma at_stage_matches:
  "at_stage pr spec i \<Longrightarrow>
     i < length (ps_stages spec) \<and> stage_matches (ps_stages spec ! i) (rn_stages (pr_status pr) ! i)"
  using running_stage_matches [of "pr_status pr" spec i] by (simp add: at_stage_def)

lemma at_stage_length: "at_stage pr spec i \<Longrightarrow> i < length (rn_stages (pr_status pr))"
  using first_unfinished_Some [of 0 "rn_stages (pr_status pr)" i] by (simp add: at_stage_def)

lemma at_stage_set:
  assumes "at_stage pr spec i" "stage_matches (ps_stages spec ! i) ss"
  shows "status_inv ((pr_status pr)\<lparr>rn_stages := (rn_stages (pr_status pr))[i := ss]\<rparr>)"
proof -
  let ?s = "pr_status pr"
  from assms have "status_inv (?s\<lparr>rn_stages := (rn_stages ?s)[i := ss], rn_resolved := rn_resolved ?s,
      rn_phase := RunRunning\<rparr>)"
    by (intro status_inv_set_stage) (simp_all add: at_stage_def)
  then show ?thesis
    using assms(1) by (subst (asm) status_inv_cong [of _ "?s\<lparr>rn_stages := (rn_stages ?s)[i := ss]\<rparr>"])
      (simp_all add: at_stage_def)
qed

lemma at_stage_set_polled:
  assumes "at_stage pr spec i" "stage_matches (ps_stages spec ! i) ss" "image_le (rn_resolved (pr_status pr)) rcs"
  shows "status_inv ((pr_status pr)\<lparr>rn_resolved := rcs, rn_stages := (rn_stages (pr_status pr))[i := ss]\<rparr>)"
proof -
  let ?s = "pr_status pr"
  from assms(3) have "map rcs_name rcs = map rcs_name (rn_resolved ?s)" by (rule image_le_names)
  with at_stage_set [OF assms(1,2)] show ?thesis
    by (subst status_inv_cong [of _ "?s\<lparr>rn_stages := (rn_stages ?s)[i := ss]\<rparr>"]) simp_all
qed

lemma startStage_stored:
  assumes "o_stored (startStage r env rt tr pr spec i) = Some s" "at_stage pr spec i"
  shows "status_inv s \<and> frozen_le (pr_status pr) s"
proof -
  let ?stage = "ps_stages spec ! i"
  have nm: "ss_name (rn_stages (pr_status pr) ! i) = st_name ?stage"
    using at_stage_matches [OF assms(2)] by (simp add: stage_matches_def)
  show ?thesis
  proof (cases "start_components r env pr spec tr [] (st_components ?stage)")
    case (Started tr' cts)
    from start_components_Started [OF this] have
      "map ct_name cts = map cs_name (st_components ?stage)" "list_all exit_ok cts" by auto
    with assms Started nm show ?thesis
      by (auto simp: startStage_def Let_def frozen_le_def stage_matches_def intro!: at_stage_set)
  next
    case (BuildFailed tr' cts n e)
    from start_components_BuildFailed [OF this] have "list_all exit_ok cts" by simp
    with assms BuildFailed nm show ?thesis
      by (auto simp: startStage_def Let_def frozen_le_def stage_matches_def intro!: at_stage_set)
  next
    case (StartError tr' e)
    with assms show ?thesis by (simp add: startStage_def)
  qed
qed

lemma failPreviewTimeout_stored:
  assumes "o_stored (failPreviewTimeout env rt tr pr spec i) = Some s" "at_stage pr spec i"
  shows "status_inv s \<and> frozen_le (pr_status pr) s"
proof -
  let ?stage = "ps_stages spec ! i" and ?ss = "rn_stages (pr_status pr) ! i"
  have m: "stage_matches ?stage ?ss" using at_stage_matches [OF assms(2)] by simp
  from assms(1) obtain tr' cts where
    t: "timeout_components env pr (st_name ?stage) (propagateCancelToPods env tr pr) (st_components ?stage)
          (ss_components ?ss) = (tr', Inr cts)"
    and s: "s = (pr_status pr)\<lparr>rn_stages := (rn_stages (pr_status pr))[i := ?ss\<lparr>ss_components := cts,
          ss_phase := StageFailedUser, ss_message := preview_timeout_message pr (st_name ?stage),
          ss_completionTime := Some (en_now env)\<rparr>],
        rn_phase := RunFailedUser, rn_message := preview_timeout_message pr (st_name ?stage),
        rn_completionTime := Some (en_now env)\<rparr>"
    by (auto simp: failPreviewTimeout_def Let_def split: prod.splits sum.splits)
  have "list_all exit_ok cts"
    using timeout_components_exit_ok [OF t] m by (simp add: stage_matches_def)
  with m have "stage_matches ?stage (?ss\<lparr>ss_components := cts, ss_phase := StageFailedUser,
      ss_message := preview_timeout_message pr (st_name ?stage), ss_completionTime := Some (en_now env)\<rparr>)"
    by (simp add: stage_matches_def)
  from at_stage_set [OF assms(2) this] show ?thesis
    by (simp add: s status_inv_fail frozen_le_def)
qed

lemma checkStageComponents_stored:
  assumes "o_stored (checkStageComponents env rt tr pr spec i) = Some s" "at_stage pr spec i"
    and ph: "ss_phase (rn_stages (pr_status pr) ! i) = StageRunning"
  shows "status_inv s \<and> frozen_le (pr_status pr) s"
proof -
  let ?stage = "ps_stages spec ! i" and ?ss = "rn_stages (pr_status pr) ! i"
  have m: "stage_matches ?stage ?ss" and i: "i < length (rn_stages (pr_status pr))"
    using at_stage_matches [OF assms(2)] at_stage_length [OF assms(2)] by auto
  then have len: "length (ss_components ?ss) = length (st_components ?stage)"
    using ph by (auto simp: stage_matches_def dest: map_eq_imp_length_eq)
  show ?thesis
  proof (cases "poll_components env pr (st_name ?stage) (st_components ?stage) (ss_components ?ss)
      (initial_poll tr pr) []")
    case (Polled cts po)
    note k = poll_components_keeps [OF Polled len]
    then have im: "image_le (rn_resolved (pr_status pr)) (po_resolved po)" by (simp add: initial_poll_def)
    from k m ph have names: "map ct_name cts = map cs_name (st_components ?stage)"
      and ex: "list_all exit_ok cts" by (auto simp: stage_matches_def)
    have running: "stage_matches ?stage (?ss\<lparr>ss_components := cts\<rparr>)"
      using m ph names ex by (simp add: stage_matches_def)
    have failed: "stage_matches ?stage (failed_stage_status now po (?ss\<lparr>ss_components := cts\<rparr>))" for now
      using m ph names ex by (simp add: stage_matches_def failed_stage_status_def)
    have succ: "stage_matches ?stage (?ss\<lparr>ss_components := cts, ss_phase := StageSucceeded,
        ss_completionTime := Some now\<rparr>)"
      if "po_allSucceeded po" "\<not> po_anyFailedUser po" "\<not> po_anyFailedApp po" for now
      using that m names ex k by (auto simp: stage_matches_def)
    from assms(1) Polled i show ?thesis
      by (auto simp: checkStageComponents_def Let_def polled_run_def frozen_le_def im
          intro!: at_stage_set_polled [OF assms(2)] im running failed succ split: if_splits)
  next
    case (PollError tr' e)
    with assms show ?thesis by (simp add: checkStageComponents_def Let_def)
  next
    case (PollPanic tr')
    with assms show ?thesis by (simp add: checkStageComponents_def Let_def)
  qed
qed

section \<open>Reconcile keeps the invariant\<close>

lemma frozen_le_simps [simp]:
  "frozen_le s (t\<lparr>rn_phase := a\<rparr>) = frozen_le s t"
  "frozen_le s (t\<lparr>rn_message := b\<rparr>) = frozen_le s t"
  "frozen_le s (t\<lparr>rn_completionTime := c\<rparr>) = frozen_le s t"
  "frozen_le s (t\<lparr>rn_currentStage := d\<rparr>) = frozen_le s t"
  "frozen_le s (t\<lparr>rn_observedGeneration := e\<rparr>) = frozen_le s t"
  "frozen_le (s\<lparr>rn_currentStage := d\<rparr>) t = frozen_le s t"
  "frozen_le (s\<lparr>rn_observedGeneration := e\<rparr>) t = frozen_le s t"
  by (simp_all add: frozen_le_def)

lemma status_inv_done:
  "status_inv s \<Longrightarrow> rn_resolvedSpec s = Some spec \<Longrightarrow> first_unfinished 0 (rn_stages s) = None \<Longrightarrow>
     status_inv (s\<lparr>rn_phase := RunSucceeded, rn_message := m\<rparr>)"
  by (simp add: status_inv_def first_unfinished_None)

lemma at_stage_current:
  "status_inv (pr_status pr) \<Longrightarrow> rn_phase (pr_status pr) = RunRunning \<Longrightarrow>
     rn_resolvedSpec (pr_status pr) = Some spec \<Longrightarrow> first_unfinished 0 (rn_stages (pr_status pr)) = Some i \<Longrightarrow>
     at_stage (map_status (\<lambda>s. s\<lparr>rn_currentStage := c\<rparr>) pr) spec i"
  by (simp add: at_stage_def)

lemma handleRunning_stored:
  assumes "o_stored (handleRunning r env rt tr pr) = Some s" "status_inv (pr_status pr)"
    and ph: "rn_phase (pr_status pr) = RunRunning"
  shows "status_inv s \<and> frozen_le (pr_status pr) s"
proof -
  from assms(2) ph obtain spec where spec: "rn_resolvedSpec (pr_status pr) = Some spec"
    by (auto simp: status_inv_def split: option.splits)
  show ?thesis
  proof (cases "first_unfinished 0 (rn_stages (pr_status pr))")
    case None
    with assms spec show ?thesis by (auto simp: handleRunning_def intro: status_inv_done)
  next
    case (Some i)
    define pr1 where "pr1 = map_status (\<lambda>s. s\<lparr>rn_currentStage := st_name (ps_stages spec ! i)\<rparr>) pr"
    have at: "at_stage pr1 spec i" unfolding pr1_def by (rule at_stage_current [OF assms(2) ph spec Some])
    have fr: "frozen_le (pr_status pr) t = frozen_le (pr_status pr1) t" for t by (simp add: pr1_def)
    have ss: "rn_stages (pr_status pr1) = rn_stages (pr_status pr)" by (simp add: pr1_def)
    from at_stage_matches [OF at] have i: "\<not> length (ps_stages spec) \<le> i" by simp
    show ?thesis
    proof (cases "previewDeadlinePassed (en_now env) pr1 \<and>
        (ss_phase (rn_stages (pr_status pr) ! i) = StagePending \<or>
         ss_phase (rn_stages (pr_status pr) ! i) = StageRunning)")
      case True
      with assms(1) i have "o_stored (failPreviewTimeout env rt tr pr1 spec i) = Some s"
        by (simp add: handleRunning_def spec Some Let_def pr1_def)
      from failPreviewTimeout_stored [OF this at] show ?thesis by (simp add: fr)
    next
      case False
      note F = assms(1) [unfolded handleRunning_def spec Some Let_def option.case if_not_P [OF i]
          pr1_def [symmetric] if_not_P [OF False]]
      show ?thesis
      proof (cases "ss_phase (rn_stages (pr_status pr) ! i)")
        case StagePending
        with F have "o_stored (startStage r env rt tr pr1 spec i) = Some s" by simp
        from startStage_stored [OF this at] show ?thesis by (simp add: fr)
      next
        case StageRunning
        with F have "o_stored (checkStageComponents env rt tr pr1 spec i) = Some s" by simp
        from checkStageComponents_stored [OF this at] StageRunning show ?thesis by (simp add: fr ss)
      qed (use F assms(2) in \<open>auto simp: pr1_def status_inv_fail\<close>)
    qed
  qed
qed

lemma handleRunning_no_panic:
  assumes "status_inv (pr_status pr)" "rn_phase (pr_status pr) = RunRunning"
  shows "o_result (handleRunning r env rt tr pr) \<noteq> Panic"
proof -
  from assms obtain spec where spec: "rn_resolvedSpec (pr_status pr) = Some spec"
    by (auto simp: status_inv_def split: option.splits)
  show ?thesis
  proof (cases "first_unfinished 0 (rn_stages (pr_status pr))")
    case None
    with spec show ?thesis by (simp add: handleRunning_def)
  next
    case (Some i)
    from running_stage_matches [OF assms(1) spec Some] have i: "\<not> length (ps_stages spec) \<le> i"
      and m: "stage_matches (ps_stages spec ! i) (rn_stages (pr_status pr) ! i)" by auto
    have start: "o_result (startStage r env rt tr pr' spec i) \<noteq> Panic" for pr'
      by (simp add: startStage_def Let_def split: start_result.split)
    have fail: "o_result (failPreviewTimeout env rt tr pr' spec i) \<noteq> Panic" for pr'
      by (simp add: failPreviewTimeout_def Let_def split: prod.split sum.split)
    have check: "o_result (checkStageComponents env rt tr pr' spec i) \<noteq> Panic"
      if "rn_stages (pr_status pr') = rn_stages (pr_status pr)"
        "ss_phase (rn_stages (pr_status pr) ! i) = StageRunning" for pr'
    proof -
      from m that(2) have len: "length (ss_components (rn_stages (pr_status pr) ! i)) =
          length (st_components (ps_stages spec ! i))"
        by (auto simp: stage_matches_def dest: map_eq_imp_length_eq)
      show ?thesis
        using poll_components_no_panic [OF len]
        by (auto simp: checkStageComponents_def Let_def that(1) split: poll_result.splits)
    qed
    show ?thesis
      using i start fail check
      by (simp add: handleRunning_def spec Some Let_def split: stage_phase.split)
  qed
qed

lemma reconcileRun_stored:
  assumes "o_stored (reconcileRun r env rt pr) = Some s" "status_inv (pr_status pr)"
  shows "status_inv s \<and> frozen_le (pr_status pr) s"
proof -
  define pr1 where "pr1 = map_status (\<lambda>s. s\<lparr>rn_observedGeneration := pr_generation pr\<rparr>) pr"
  define tr where "tr = (if has_cancel (pr_annotations pr1) then propagateCancelToPods env [] pr1 else [])"
  have inv: "status_inv (pr_status pr1)" using assms(2) by (simp add: pr1_def)
  have fr: "frozen_le (pr_status pr) t = frozen_le (pr_status pr1) t" for t by (simp add: pr1_def)
  note F = assms(1) [unfolded reconcileRun_def Let_def, folded pr1_def, folded tr_def]
  have none: "frozen_le (pr_status pr) t" if "rn_phase (pr_status pr1) = RunNone \<or> rn_phase (pr_status pr1) = RunPending" for t
  proof -
    have "rn_resolvedSpec (pr_status pr1) = None"
      using that inv by (auto simp: status_inv_def split: option.splits)
    then have "rn_resolvedSpec (pr_status pr) = None" by (simp add: pr1_def)
    then show ?thesis by (simp add: frozen_le_def)
  qed
  show ?thesis
  proof (cases "rn_phase (pr_status pr1)")
    case RunNone
    with F have "o_stored (handlePending env rt tr pr1) = Some s" by simp
    from handlePending_stored [OF this inv] none RunNone show ?thesis by simp
  next
    case RunPending
    with F have "o_stored (handlePending env rt tr pr1) = Some s" by simp
    from handlePending_stored [OF this inv] none RunPending show ?thesis by simp
  next
    case RunRunning
    with F have "o_stored (handleRunning r env rt tr pr1) = Some s" by simp
    from handleRunning_stored [OF this inv RunRunning] show ?thesis by (simp add: fr)
  qed (use F in auto)
qed

lemma reconcileRun_no_panic:
  assumes "status_inv (pr_status pr)"
  shows "o_result (reconcileRun r env rt pr) \<noteq> Panic"
  using assms handleRunning_no_panic [of "map_status (\<lambda>s. s\<lparr>rn_observedGeneration := pr_generation pr\<rparr>) pr"]
  by (auto simp: reconcileRun_def Let_def split: run_phase.split)

lemma run_step_inv: "run_inv st \<Longrightarrow> run_step r st st' \<Longrightarrow> run_inv st'"
  by (erule run_step.cases)
     (auto simp: run_inv_def stored_after_def dest: reconcileRun_stored split: option.splits)

interpretation run_lifecycle: invariant_system fresh_run "run_step r" run_inv for r
proof unfold_locales
  show "run_inv st" if "fresh_run st" for st
    using that by (simp add: fresh_run_def run_inv_def status_inv_def empty_status_def)
qed (rule run_step_inv)

interpretation run_freeze: monotone_system fresh_run "run_step r" run_inv
  "\<lambda>st st'. frozen_le (pr_status (fst st)) (pr_status (fst st'))" for r
proof unfold_locales
  show "frozen_le (pr_status (fst st)) (pr_status (fst st'))" if "run_inv st" "run_step r st st'" for st st'
    using that(2,1)
    by cases (auto simp: run_inv_def stored_after_def dest: reconcileRun_stored split: option.splits)
qed (auto intro: frozen_le_trans)

section \<open>Properties of every reachable run\<close>

definition reachable_run :: "operator_config \<Rightarrow> run_state \<Rightarrow> bool" where
  "reachable_run r st \<longleftrightarrow> (\<exists>st0. fresh_run st0 \<and> (run_step r)\<^sup>*\<^sup>* st0 st)"

lemma reachable_status_inv: "reachable_run r (pr, rt) \<Longrightarrow> status_inv (pr_status pr)"
  using run_lifecycle.reachable_inv by (fastforce simp: reachable_run_def run_inv_def)

text \<open>A stage whose status reports exactly the components of its spec, all succeeded with code 0.\<close>

definition stage_complete :: "stage_spec \<Rightarrow> stage_status \<Rightarrow> bool" where
  "stage_complete stage ss \<longleftrightarrow>
     map ct_name (ss_components ss) = map cs_name (st_components stage) \<and>
     (\<forall>ct \<in> set (ss_components ss). ct_phase ct = CompSucceeded \<and> ct_exitCode ct = Some 0)"

lemma stage_matches_complete:
  "stage_matches stage ss \<Longrightarrow> ss_phase ss = StageSucceeded \<Longrightarrow> stage_complete stage ss"
  by (auto simp: stage_matches_def stage_complete_def list_all_iff exit_ok_def)

text \<open>Reconciling a reachable run never indexes outside a slice: the stage statuses always match
  the frozen spec and the component statuses of a running stage match its components.\<close>

theorem Reconcile_never_panics:
  assumes "reachable_run r (pr, rt)"
  shows "fst (Reconcile r env rt (Inr pr)) \<noteq> Panic"
  using reconcileRun_no_panic [OF reachable_status_inv [OF assms]] by (simp add: Reconcile_def Let_def)

text \<open>C3. Stages run in order: in every reachable state, a stage that has left Pending has only
  finished predecessors, and a finished stage reports exactly the components of the frozen spec, each
  of them succeeded with exit code 0.\<close>

theorem stages_run_in_order:
  assumes "reachable_run r (pr, rt)" "rn_resolvedSpec (pr_status pr) = Some spec"
    and "i < j" "j < length (rn_stages (pr_status pr))"
    and "ss_phase (rn_stages (pr_status pr) ! j) \<noteq> StagePending"
  shows "ss_phase (rn_stages (pr_status pr) ! i) = StageSucceeded \<and>
    stage_complete (ps_stages spec ! i) (rn_stages (pr_status pr) ! i)"
proof -
  let ?ss = "rn_stages (pr_status pr) ! i"
  have inv: "status_inv (pr_status pr)" by (rule reachable_status_inv [OF assms(1)])
  with assms have "ss_phase ?ss = StageSucceeded" "stage_matches (ps_stages spec ! i) ?ss"
    by (auto simp: status_inv_def stage_order_def list_all2_conv_all_nth)
  then show ?thesis by (simp add: stage_matches_complete)
qed

text \<open>C4. A run is reported Succeeded only when every component of every stage of its frozen spec ran
  and exited with code 0.\<close>

theorem succeeded_run_is_complete:
  assumes "reachable_run r (pr, rt)" "rn_phase (pr_status pr) = RunSucceeded"
  shows "\<exists>spec. rn_resolvedSpec (pr_status pr) = Some spec \<and>
    list_all2 stage_complete (ps_stages spec) (rn_stages (pr_status pr))"
proof -
  have inv: "status_inv (pr_status pr)" by (rule reachable_status_inv [OF assms(1)])
  with assms(2) obtain spec where spec: "rn_resolvedSpec (pr_status pr) = Some spec"
    and m: "list_all2 stage_matches (ps_stages spec) (rn_stages (pr_status pr))"
    and s: "list_all (\<lambda>ss. ss_phase ss = StageSucceeded) (rn_stages (pr_status pr))"
    by (auto simp: status_inv_def split: option.splits)
  from m s have "list_all2 stage_complete (ps_stages spec) (rn_stages (pr_status pr))"
    by (simp add: list_all2_conv_all_nth list_all_length stage_matches_complete)
  with spec show ?thesis by blast
qed

text \<open>C5. Once a run is admitted, no reconcile, edit of the run or operator restart changes its
  resolved spec, run id, start time or pipeline generation, nor the component, version or image it
  resolved; a recorded image digest is never rewritten.\<close>

theorem resolved_spec_is_frozen:
  assumes "reachable_run r st" "(run_step r)\<^sup>*\<^sup>* st st'"
  shows "frozen_le (pr_status (fst st)) (pr_status (fst st'))"
proof -
  have "run_inv st" using assms(1) run_lifecycle.reachable_inv [of _ r st] by (auto simp: reachable_run_def)
  with assms(2) show ?thesis by (rule run_freeze.steps_rel)
qed

definition terminal_phase :: "run_phase \<Rightarrow> bool" where
  "terminal_phase ph \<longleftrightarrow> ph = RunSucceeded \<or> ph = RunFailedUser \<or> ph = RunFailedApplication"

definition cancel_call :: "call \<Rightarrow> bool" where
  "cancel_call c = (case c of ListPods _ _ _ \<Rightarrow> True | PatchPodCancel _ _ \<Rightarrow> True | _ \<Rightarrow> False)"

lemma propagateCancel_calls: "list_all cancel_call tr \<Longrightarrow> list_all cancel_call (propagateCancelToPods env tr pr)"
  by (auto simp: propagateCancelToPods_def Let_def cancel_call_def list_all_iff split: sum.splits)

lemma terminal_reconcile:
  "terminal_phase (rn_phase (pr_status pr)) \<Longrightarrow>
     o_stored (reconcileRun r env rt pr) = None \<and> list_all cancel_call (o_calls (reconcileRun r env rt pr))"
  using propagateCancel_calls [of "[]"]
  by (auto simp: terminal_phase_def reconcileRun_def return_with_def Let_def)

lemma terminal_steps:
  "(run_step r)\<^sup>*\<^sup>* st st' \<Longrightarrow> terminal_phase (rn_phase (pr_status (fst st))) \<Longrightarrow>
     pr_status (fst st') = pr_status (fst st)"
proof (induction rule: rtranclp_induct)
  case (step st1 st2)
  from step.hyps(2) have "pr_status (fst st2) = pr_status (fst st1)"
    using step.IH step.prems terminal_reconcile by cases (auto simp: stored_after_def)
  with step show ?case by simp
qed simp

text \<open>C6. A terminal run stays as it is: whatever happens afterwards its status never changes, and
  reconciling it makes no API call except those that propagate a cancel to its pods.\<close>

theorem terminal_runs_stay:
  assumes "terminal_phase (rn_phase (pr_status pr))"
  shows "((run_step r)\<^sup>*\<^sup>* (pr, rt) st \<longrightarrow> pr_status (fst st) = pr_status pr) \<and>
    list_all cancel_call (o_calls (reconcileRun r env rt pr))"
  using assms terminal_steps [of r "(pr, rt)" st] terminal_reconcile [OF assms] by auto

end
