(* ===== verification/Run_Liveness.thy ===== *)
theory Run_Liveness
  imports Run_Lifecycle
begin

text \<open>
  Progress of a PipelineRun: when the API server accepts every write and reports every Job as
  completed, an admitted run reaches Succeeded within three reconciles per stage and one more. The
  bound is tight for stages with components: one reconcile starts the stage, one records the
  completed Jobs, one marks the stage.
\<close>

section \<open>Sequences of reconciles\<close>

fun reconciles :: "operator_config \<Rightarrow> run_env list \<Rightarrow> run_state \<Rightarrow> run_state" where
  "reconciles r [] st = st"
| "reconciles r (env # envs) st =
     (let out = reconcileRun r env (snd st) (fst st)
      in reconciles r envs (stored_after (fst st) out, o_retries out))"

lemma reconciles_steps: "(run_step r)\<^sup>*\<^sup>* st (reconciles r envs st)"
proof (induction envs arbitrary: st)
  case (Cons env envs)
  have "run_step r st (stored_after (fst st) (reconcileRun r env (snd st) (fst st)),
      o_retries (reconcileRun r env (snd st) (fst st)))"
    by (cases st) (auto intro: run_step.reconciled)
  then show ?case
    using Cons.IH by (auto simp: Let_def intro: converse_rtranclp_into_rtranclp)
qed simp

lemma reachable_reconciles: "reachable_run r st \<Longrightarrow> reachable_run r (reconciles r envs st)"
  unfolding reachable_run_def by (meson reconciles_steps rtranclp_trans)

lemma stored_after_meta [simp]:
  "pr_spec (stored_after pr out) = pr_spec pr" "pr_name (stored_after pr out) = pr_name pr"
  "pr_namespace (stored_after pr out) = pr_namespace pr"
  "pr_annotations (stored_after pr out) = pr_annotations pr"
  by (simp_all add: stored_after_def split: option.split)

section \<open>A benign environment\<close>

definition completed_conditions :: "job_condition list \<Rightarrow> bool" where
  "completed_conditions conds \<longleftrightarrow>
     (\<exists>c \<in> set conds. jc_type c = JobComplete \<and> jc_true c) \<and>
     (\<forall>c \<in> set conds. \<not> (jc_type c = JobFailed \<and> jc_true c))"

definition benign :: "run_env \<Rightarrow> bool" where
  "benign env \<longleftrightarrow>
     (\<forall>tr c. en_write env tr c = None) \<and> (\<forall>tr n. en_setOwner env tr n = None) \<and>
     (\<forall>tr ns j. \<exists>conds. en_getJob env tr ns j = Inr conds \<and> completed_conditions conds)"

text \<open>A run on its way: admitted without a preview deadline, nothing failed so far, and every
  component's configuration decodes.\<close>

definition healthy_stage :: "stage_status \<Rightarrow> bool" where
  "healthy_stage ss \<longleftrightarrow>
     (ss_phase ss = StagePending \<or> ss_phase ss = StageRunning \<or> ss_phase ss = StageSucceeded) \<and>
     list_all (\<lambda>ct. ct_phase ct \<noteq> CompFailedUser \<and> ct_phase ct \<noteq> CompFailedApplication) (ss_components ss)"

definition healthy :: "pipelinerun \<Rightarrow> bool" where
  "healthy pr \<longleftrightarrow>
     status_inv (pr_status pr) \<and> rs_preview (pr_spec pr) = None \<and>
     (rn_phase (pr_status pr) = RunRunning \<or> rn_phase (pr_status pr) = RunSucceeded) \<and>
     list_all healthy_stage (rn_stages (pr_status pr)) \<and>
     (\<forall>spec. rn_resolvedSpec (pr_status pr) = Some spec \<longrightarrow>
        (\<forall>c \<in> set (concat (map st_components (ps_stages spec))). \<not> isl (ConfigMap c)))"

definition stage_work :: "stage_status \<Rightarrow> nat" where
  "stage_work ss =
     (if ss_phase ss = StagePending then 3
      else if ss_phase ss = StageRunning then
        (if list_all (\<lambda>ct. ct_phase ct = CompSucceeded) (ss_components ss) then 1 else 2)
      else 0)"

definition run_work :: "pipelinerun \<Rightarrow> nat" where
  "run_work pr =
     (if rn_phase (pr_status pr) = RunSucceeded then 0
      else 1 + sum_list (map stage_work (rn_stages (pr_status pr))))"

section \<open>Starting\<close>

definition holds_component :: "string \<Rightarrow> stage_spec \<Rightarrow> bool" where
  "holds_component n stage \<longleftrightarrow> (\<exists>c \<in> set (st_components stage). cs_name c = n)"

lemma last_stage_with_eq:
  "last_stage_with n stages found =
     (if filter (holds_component n) stages = [] then found
      else Some (last (filter (holds_component n) stages)))"
  by (induction stages arbitrary: found) (simp_all add: holds_component_def [symmetric])

lemma build_succeeds:
  assumes "c \<in> set (concat (map st_components (ps_stages spec)))" "\<not> isl (ConfigMap c)"
    and "map rcs_name (rn_resolved (pr_status pr)) = map cs_name (concat (map st_components (ps_stages spec)))"
  shows "\<exists>job cm. buildComponentJob pd yaml now r pr spec c = Inr (job, cm)"
proof -
  from assms(1) have "filter (holds_component (cs_name c)) (ps_stages spec) \<noteq> []"
    by (auto simp: filter_empty_conv holds_component_def)
  then obtain stage where l: "last_stage_with (cs_name c) (ps_stages spec) None = Some stage"
    by (simp add: last_stage_with_eq)
  have "cs_name c \<in> set (map rcs_name (rn_resolved (pr_status pr)))"
    unfolding assms(3) using assms(1) by (metis image_eqI set_map)
  then have "find (\<lambda>rc. rcs_name rc = cs_name c) (rn_resolved (pr_status pr)) \<noteq> None"
    by (auto simp: find_None_iff)
  moreover from assms(2) obtain m where "ConfigMap c = Inr m" by (cases "ConfigMap c") auto
  moreover obtain rc where "find (\<lambda>rc. rcs_name rc = cs_name c) (rn_resolved (pr_status pr)) = Some rc"
    using calculation(1) by blast
  ultimately show ?thesis
    by (simp add: buildComponentJob_def generateGatewayConfig_def Let_def l split: option.split)
qed

lemma start_components_benign:
  assumes "benign env"
    and "\<forall>c \<in> set cs. \<exists>job cm. buildComponentJob (vl_parseDuration (en_lib env)) (en_yaml env) (en_now env) r pr spec c = Inr (job, cm)"
  shows "\<exists>tr' cts. start_components r env pr spec tr acc cs = Started tr' cts"
  using assms(2)
proof (induction cs arbitrary: tr acc)
  case (Cons c cs)
  then obtain job cm where b: "buildComponentJob (vl_parseDuration (en_lib env)) (en_yaml env) (en_now env) r pr spec c = Inr (job, cm)"
    by auto
  have "create_objects env tr job cm = (tr @ [CreateConfigMap cm, CreateJob job], None)"
    using assms(1) by (simp add: create_objects_def benign_def Let_def)
  with b Cons show ?case by simp
qed simp

section \<open>Polling\<close>

lemma apply_conditions_completed:
  assumes "\<forall>c \<in> set conds. \<not> (jc_type c = JobFailed \<and> jc_true c)"
    and "(\<exists>c \<in> set conds. jc_type c = JobComplete \<and> jc_true c) \<or> ct_phase (fst st) = CompSucceeded"
  shows "ct_phase (fst (apply_conditions env ns j code conds st)) = CompSucceeded \<and>
    po_anyFailedUser (snd (apply_conditions env ns j code conds st)) = po_anyFailedUser (snd st) \<and>
    po_anyFailedApp (snd (apply_conditions env ns j code conds st)) = po_anyFailedApp (snd st)"
  using assms
proof (induction conds arbitrary: st)
  case (Cons c conds)
  have jc: "ct_phase (fst (job_completed env ns j st)) = CompSucceeded"
    "po_anyFailedUser (snd (job_completed env ns j st)) = po_anyFailedUser (snd st)"
    "po_anyFailedApp (snd (job_completed env ns j st)) = po_anyFailedApp (snd st)"
    by (auto simp: job_completed_def split: prod.split)
  show ?case
  proof (cases "jc_type c = JobComplete \<and> jc_true c")
    case True
    with Cons.IH [of "job_completed env ns j st"] Cons.prems(1) jc show ?thesis by auto
  next
    case False
    with Cons.IH [of st] Cons.prems show ?thesis by auto
  qed
qed simp

lemma poll_component_benign:
  assumes "benign env" "ct_phase ct \<noteq> CompFailedUser" "ct_phase ct \<noteq> CompFailedApplication"
  shows "\<exists>ct' po'. poll_component env pr st ct po = Inr (ct', po') \<and> ct_phase ct' = CompSucceeded \<and>
    po_anyFailedUser po' = po_anyFailedUser po \<and> po_anyFailedApp po' = po_anyFailedApp po \<and>
    po_allSucceeded po' = (po_allSucceeded po \<and> ct_phase ct = CompSucceeded)"
proof (cases "ct_phase ct = CompSucceeded")
  case True
  then show ?thesis by (simp add: poll_component_def)
next
  case False
  let ?ns = "pr_namespace pr" and ?j = "componentJobName pr st (ct_name ct)"
  let ?po1 = "po\<lparr>po_allSucceeded := False, po_calls := po_calls po @ [GetJob ?ns ?j]\<rparr>"
  from assms(1) obtain conds where c: "en_getJob env (po_calls po) ?ns ?j = Inr conds"
    "completed_conditions conds" unfolding benign_def by blast
  obtain tr2 code where x: "extractExitCodeFromJob env (po_calls ?po1) ?ns ?j = (tr2, code)" by force
  obtain tr3 img where y: "extractImageIDFromJob env tr2 ?ns ?j = (tr3, img)" by force
  let ?st = "(ct, ?po1\<lparr>po_calls := tr3,
    po_resolved := recordComponentImageID (ct_name ct) img (po_resolved ?po1)\<rparr>)"
  let ?res = "apply_conditions env ?ns ?j code conds ?st"
  have "poll_component env pr st ct po = Inr (fst ?res, snd ?res)"
    using False assms(2,3) c(1) x y by (simp add: poll_component_def Let_def)
  moreover have "ct_phase (fst ?res) = CompSucceeded \<and> po_anyFailedUser (snd ?res) = po_anyFailedUser po \<and>
      po_anyFailedApp (snd ?res) = po_anyFailedApp po"
    using apply_conditions_completed [of conds ?st env ?ns ?j code] c(2) by (simp add: completed_conditions_def)
  moreover have "\<not> po_allSucceeded (snd ?res)"
    using apply_conditions_keeps [of ?st env ?ns ?j code conds] by (simp add: poll_keeps_def)
  ultimately show ?thesis using False by blast
qed

lemma poll_components_benign:
  assumes "benign env"
  shows "length cts = length cs \<Longrightarrow>
     list_all (\<lambda>ct. ct_phase ct \<noteq> CompFailedUser \<and> ct_phase ct \<noteq> CompFailedApplication) cts \<Longrightarrow>
     \<exists>new po'. poll_components env pr st cs cts po acc = Polled (acc @ new) po' \<and>
       list_all (\<lambda>ct. ct_phase ct = CompSucceeded) new \<and>
       po_anyFailedUser po' = po_anyFailedUser po \<and> po_anyFailedApp po' = po_anyFailedApp po \<and>
       po_allSucceeded po' = (po_allSucceeded po \<and> list_all (\<lambda>ct. ct_phase ct = CompSucceeded) cts)"
proof (induction cs arbitrary: cts po acc)
  case (Cons c cs)
  then obtain ct cts1 where cts: "cts = ct # cts1" by (cases cts) auto
  with Cons.prems assms obtain ct' po1 where one: "poll_component env pr st ct po = Inr (ct', po1)"
      "ct_phase ct' = CompSucceeded" "po_anyFailedUser po1 = po_anyFailedUser po"
      "po_anyFailedApp po1 = po_anyFailedApp po"
      "po_allSucceeded po1 = (po_allSucceeded po \<and> ct_phase ct = CompSucceeded)"
    using poll_component_benign [of env ct pr st po] by auto
  from Cons.IH [of cts1 po1 "acc @ [ct']"] Cons.prems cts obtain new po' where
    "poll_components env pr st cs cts1 po1 (acc @ [ct']) = Polled ((acc @ [ct']) @ new) po'"
    "list_all (\<lambda>ct. ct_phase ct = CompSucceeded) new"
    "po_anyFailedUser po' = po_anyFailedUser po1" "po_anyFailedApp po' = po_anyFailedApp po1"
    "po_allSucceeded po' = (po_allSucceeded po1 \<and> list_all (\<lambda>ct. ct_phase ct = CompSucceeded) cts1)"
    by auto
  with one cts show ?case by (intro exI [of _ "ct' # new"] exI [of _ po']) auto
qed simp

section \<open>Progress\<close>

lemma sum_list_update_less:
  "i < length xs \<Longrightarrow> f y < f (xs ! i) \<Longrightarrow> sum_list (map f (xs[i := y])) < (sum_list (map f xs) :: nat)"
proof (induction xs arbitrary: i)
  case (Cons x xs)
  then show ?case by (cases i) auto
qed simp

text \<open>Replacing the stage being worked on by a healthy one with less work.\<close>

lemma progress_by_stage:
  assumes "healthy pr" "at_stage pr spec i" "i < length (rn_stages (pr_status pr))"
    and "rn_stages s = (rn_stages (pr_status pr))[i := ss]" "healthy_stage ss"
    and "stage_work ss < stage_work (rn_stages (pr_status pr) ! i)"
    and "status_inv s" "rn_phase s = RunRunning" "rn_resolvedSpec s = Some spec"
  shows "healthy (pr\<lparr>pr_status := s\<rparr>) \<and> run_work (pr\<lparr>pr_status := s\<rparr>) < run_work pr"
proof
  have sub: "set ((rn_stages (pr_status pr))[i := ss]) \<subseteq> insert ss (set (rn_stages (pr_status pr)))"
    by (rule set_update_subset_insert)
  show "healthy (pr\<lparr>pr_status := s\<rparr>)"
    using assms sub by (auto simp: healthy_def at_stage_def list_all_iff dest: subsetD)
  show "run_work (pr\<lparr>pr_status := s\<rparr>) < run_work pr"
    using sum_list_update_less [OF assms(3), of stage_work ss] assms(2,4,6,8)
    by (simp add: run_work_def at_stage_def)
qed

lemma startStage_progress:
  assumes "benign env" "healthy pr" "at_stage pr spec i"
    and ph: "ss_phase (rn_stages (pr_status pr) ! i) = StagePending"
  shows "\<exists>s. o_stored (startStage r env rt tr pr spec i) = Some s \<and>
    healthy (pr\<lparr>pr_status := s\<rparr>) \<and> run_work (pr\<lparr>pr_status := s\<rparr>) < run_work pr"
proof -
  let ?stage = "ps_stages spec ! i" and ?s = "pr_status pr"
  from at_stage_matches [OF assms(3)] have i: "i < length (ps_stages spec)" by simp
  have i2: "i < length (rn_stages ?s)" by (rule at_stage_length [OF assms(3)])
  have "c \<in> set (concat (map st_components (ps_stages spec)))" if "c \<in> set (st_components ?stage)" for c
    using that i by (auto intro: nth_mem)
  then have "\<exists>job cm. buildComponentJob (vl_parseDuration (en_lib env)) (en_yaml env) (en_now env) r pr spec c =
      Inr (job, cm)" if "c \<in> set (st_components ?stage)" for c
    using that assms(2,3) by (intro build_succeeds) (auto simp: healthy_def at_stage_def status_inv_def)
  then obtain tr' cts where st: "start_components r env pr spec tr [] (st_components ?stage) = Started tr' cts"
    using start_components_benign [OF assms(1)] by blast
  from start_components_Started [OF st] have run: "list_all (\<lambda>ct. ct_phase ct = CompRunning) cts" by simp
  define ss where "ss = (rn_stages ?s ! i)\<lparr>ss_components := cts, ss_phase := StageRunning,
    ss_startTime := Some (en_now env)\<rparr>"
  let ?t = "?s\<lparr>rn_stages := (rn_stages ?s)[i := ss]\<rparr>"
  have o: "o_stored (startStage r env rt tr pr spec i) = Some ?t"
    using st assms(1) by (simp add: startStage_def Let_def ss_def benign_def)
  have "healthy_stage ss" "stage_work ss < stage_work (rn_stages ?s ! i)"
    using run ph by (auto simp: ss_def healthy_stage_def stage_work_def list_all_iff)
  then have "healthy (pr\<lparr>pr_status := ?t\<rparr>) \<and> run_work (pr\<lparr>pr_status := ?t\<rparr>) < run_work pr"
    using assms(3) startStage_stored [OF o assms(3)]
    by (intro progress_by_stage [OF assms(2,3) i2]) (simp_all add: at_stage_def)
  with o show ?thesis by blast
qed

lemma checkStage_progress:
  assumes "benign env" "healthy pr" "at_stage pr spec i"
    and ph: "ss_phase (rn_stages (pr_status pr) ! i) = StageRunning"
  shows "\<exists>s. o_stored (checkStageComponents env rt tr pr spec i) = Some s \<and>
    healthy (pr\<lparr>pr_status := s\<rparr>) \<and> run_work (pr\<lparr>pr_status := s\<rparr>) < run_work pr"
proof -
  let ?stage = "ps_stages spec ! i" and ?s = "pr_status pr"
  let ?ss = "rn_stages ?s ! i"
  from at_stage_matches [OF assms(3)] have i: "i < length (ps_stages spec)" and m: "stage_matches ?stage ?ss"
    by auto
  have i2: "i < length (rn_stages ?s)" by (rule at_stage_length [OF assms(3)])
  have len: "length (ss_components ?ss) = length (st_components ?stage)"
    using m ph by (auto simp: stage_matches_def dest: map_eq_imp_length_eq)
  have "healthy_stage ?ss" using assms(2) i2 by (simp add: healthy_def list_all_length)
  with poll_components_benign [OF assms(1) len, of pr "st_name ?stage" "initial_poll tr pr" "[]"]
  obtain new po where p: "poll_components env pr (st_name ?stage) (st_components ?stage) (ss_components ?ss)
        (initial_poll tr pr) [] = Polled new po"
    and new: "list_all (\<lambda>ct. ct_phase ct = CompSucceeded) new"
    and fl: "\<not> po_anyFailedUser po" "\<not> po_anyFailedApp po"
    and all: "po_allSucceeded po = list_all (\<lambda>ct. ct_phase ct = CompSucceeded) (ss_components ?ss)"
    by (auto simp: initial_poll_def healthy_stage_def)
  define ss where "ss = (if po_allSucceeded po
    then ?ss\<lparr>ss_components := new, ss_phase := StageSucceeded, ss_completionTime := Some (en_now env)\<rparr>
    else ?ss\<lparr>ss_components := new\<rparr>)"
  let ?t = "?s\<lparr>rn_resolved := po_resolved po, rn_stages := (rn_stages ?s)[i := ss]\<rparr>"
  have o: "o_stored (checkStageComponents env rt tr pr spec i) = Some ?t"
    using p fl assms(1) i2 by (simp add: checkStageComponents_def Let_def ss_def polled_run_def benign_def)
  have "healthy_stage ss" "stage_work ss < stage_work ?ss"
  proof -
    have "list_all (\<lambda>ct. ct_phase ct \<noteq> CompFailedUser \<and> ct_phase ct \<noteq> CompFailedApplication) new"
      using new by (auto simp: list_all_iff)
    then show "healthy_stage ss" using ph by (simp add: ss_def healthy_stage_def)
    show "stage_work ss < stage_work ?ss"
    proof (cases "po_allSucceeded po")
      case True
      with all ph show ?thesis by (simp add: ss_def stage_work_def)
    next
      case False
      with all ph new show ?thesis by (simp add: ss_def stage_work_def)
    qed
  qed
  then have "healthy (pr\<lparr>pr_status := ?t\<rparr>) \<and> run_work (pr\<lparr>pr_status := ?t\<rparr>) < run_work pr"
    using assms(3) checkStageComponents_stored [OF o assms(3) ph]
    by (intro progress_by_stage [OF assms(2,3) i2]) (simp_all add: at_stage_def)
  with o show ?thesis by blast
qed

lemma healthy_current:
  "healthy (map_status (\<lambda>s. s\<lparr>rn_currentStage := c\<rparr>) pr) = healthy pr"
  "run_work (map_status (\<lambda>s. s\<lparr>rn_currentStage := c\<rparr>) pr) = run_work pr"
  "healthy (map_status (\<lambda>s. s\<lparr>rn_observedGeneration := g\<rparr>) pr) = healthy pr"
  "run_work (map_status (\<lambda>s. s\<lparr>rn_observedGeneration := g\<rparr>) pr) = run_work pr"
  by (simp_all add: healthy_def run_work_def map_status_def)

lemma map_status_overwrite [simp]: "(map_status f pr)\<lparr>pr_status := s\<rparr> = pr\<lparr>pr_status := s\<rparr>"
  by (simp add: map_status_def)

lemma handleRunning_progress:
  assumes "benign env" "healthy pr" "rn_phase (pr_status pr) = RunRunning"
  shows "\<exists>s. o_stored (handleRunning r env rt tr pr) = Some s \<and>
    healthy (pr\<lparr>pr_status := s\<rparr>) \<and> run_work (pr\<lparr>pr_status := s\<rparr>) < run_work pr"
proof -
  from assms(2,3) obtain spec where inv: "status_inv (pr_status pr)"
    and spec: "rn_resolvedSpec (pr_status pr) = Some spec" and np: "rs_preview (pr_spec pr) = None"
    by (auto simp: healthy_def status_inv_def split: option.splits)
  show ?thesis
  proof (cases "first_unfinished 0 (rn_stages (pr_status pr))")
    case None
    let ?t = "(pr_status pr)\<lparr>rn_phase := RunSucceeded, rn_message := ''All stages completed successfully'',
      rn_completionTime := Some (en_now env)\<rparr>"
    have "o_stored (handleRunning r env rt tr pr) = Some ?t"
      using None spec assms(1) by (simp add: handleRunning_def benign_def)
    moreover have "healthy (pr\<lparr>pr_status := ?t\<rparr>)"
      using assms(2) status_inv_done [OF inv spec None] by (simp add: healthy_def)
    moreover have "run_work (pr\<lparr>pr_status := ?t\<rparr>) < run_work pr"
      using assms(3) by (simp add: run_work_def)
    ultimately show ?thesis by blast
  next
    case (Some i)
    define pr1 where "pr1 = map_status (\<lambda>s. s\<lparr>rn_currentStage := st_name (ps_stages spec ! i)\<rparr>) pr"
    have at: "at_stage pr1 spec i" unfolding pr1_def by (rule at_stage_current [OF inv assms(3) spec Some])
    have h: "healthy pr1" and w: "run_work pr1 = run_work pr" and ss: "rn_stages (pr_status pr1) = rn_stages (pr_status pr)"
      using assms(2) by (simp_all add: pr1_def healthy_current)
    from at_stage_matches [OF at] have i: "\<not> length (ps_stages spec) \<le> i" by simp
    have ov: "pr1\<lparr>pr_status := s\<rparr> = pr\<lparr>pr_status := s\<rparr>" for s by (simp add: pr1_def)
    have nd: "\<not> previewDeadlinePassed (en_now env) pr1"
      using np by (simp add: previewDeadlinePassed_def pr1_def map_status_def)
    have "healthy_stage (rn_stages (pr_status pr) ! i)" "ss_phase (rn_stages (pr_status pr) ! i) \<noteq> StageSucceeded"
      using assms(2) first_unfinished_Some [OF Some] by (auto simp: healthy_def list_all_length)
    then consider "ss_phase (rn_stages (pr_status pr) ! i) = StagePending"
      | "ss_phase (rn_stages (pr_status pr) ! i) = StageRunning" by (auto simp: healthy_stage_def)
    then show ?thesis
    proof cases
      case 1
      then have "handleRunning r env rt tr pr = startStage r env rt tr pr1 spec i"
        using i nd by (simp add: handleRunning_def spec Some Let_def pr1_def)
      with startStage_progress [OF assms(1) h at] 1 show ?thesis by (simp add: w ss ov)
    next
      case 2
      then have "handleRunning r env rt tr pr = checkStageComponents env rt tr pr1 spec i"
        using i nd by (simp add: handleRunning_def spec Some Let_def pr1_def)
      with checkStage_progress [OF assms(1) h at] 2 show ?thesis by (simp add: w ss ov)
    qed
  qed
qed

lemma reconcile_progress:
  assumes "benign env" "healthy pr"
  shows "healthy (stored_after pr (reconcileRun r env rt pr)) \<and>
    (run_work (stored_after pr (reconcileRun r env rt pr)) < run_work pr \<or>
     rn_phase (pr_status (stored_after pr (reconcileRun r env rt pr))) = RunSucceeded)"
proof (cases "rn_phase (pr_status pr) = RunRunning")
  case True
  let ?pr1 = "map_status (\<lambda>s. s\<lparr>rn_observedGeneration := pr_generation pr\<rparr>) pr"
  have "healthy ?pr1" "rn_phase (pr_status ?pr1) = RunRunning"
    using assms(2) True by (simp_all add: healthy_current)
  from handleRunning_progress [OF assms(1) this] obtain s where
    "o_stored (reconcileRun r env rt pr) = Some s"
    "healthy (pr\<lparr>pr_status := s\<rparr>)" "run_work (pr\<lparr>pr_status := s\<rparr>) < run_work pr"
    using True unfolding reconcileRun_def Let_def by (simp add: healthy_current) metis
  then show ?thesis by (simp add: stored_after_def)
next
  case False
  with assms(2) have "rn_phase (pr_status pr) = RunSucceeded" by (auto simp: healthy_def)
  then show ?thesis using assms(2) by (simp add: reconcileRun_def Let_def stored_after_def)
qed

lemma benign_run_completes:
  "list_all benign envs \<Longrightarrow> healthy pr \<Longrightarrow> run_work pr \<le> length envs \<Longrightarrow>
     rn_phase (pr_status (fst (reconciles r envs (pr, rt)))) = RunSucceeded"
proof (induction envs arbitrary: pr rt)
  case Nil
  then show ?case by (auto simp: run_work_def healthy_def split: if_splits)
next
  case (Cons env envs)
  let ?out = "reconcileRun r env rt pr"
  let ?pr = "stored_after pr ?out"
  from Cons.prems reconcile_progress [of env pr r rt] have h: "healthy ?pr"
    and "run_work ?pr < run_work pr \<or> rn_phase (pr_status ?pr) = RunSucceeded" by auto
  then have "run_work ?pr \<le> length envs" using Cons.prems(3) by (auto simp: run_work_def split: if_splits)
  from Cons.IH [OF _ h this] Cons.prems(1) show ?case by (simp add: Let_def)
qed

section \<open>A run that completes\<close>

lemma run_work_bound: "run_work pr \<le> 3 * length (rn_stages (pr_status pr)) + 1"
proof -
  have "sum_list (map stage_work sss) \<le> 3 * length sss" for sss
    by (induction sss) (auto simp: stage_work_def)
  from this [of "rn_stages (pr_status pr)"] show ?thesis by (simp add: run_work_def)
qed

text \<open>C7. An admitted run that is no preview, in which nothing has failed so far and whose frozen configurations all
  decode, reaches Succeeded within three reconciles per stage and one more, if during them the API server accepts every
  write and reports every Job completed.\<close>

theorem admitted_run_completes:
  assumes "healthy pr" "list_all benign envs" "3 * length (rn_stages (pr_status pr)) + 1 \<le> length envs"
  shows "rn_phase (pr_status (fst (reconciles r envs (pr, rt)))) = RunSucceeded"
  using assms run_work_bound [of pr] by (intro benign_run_completes) auto

definition demo_pipeline :: pipeline where
  "demo_pipeline = two_stages [bucket_component ''w'' [] ''mid'']"

definition demo_definition :: component_definition where
  "demo_definition = \<lparr>cd_deprecated = False, cd_defaultVersion = [],
     cd_versions = [\<lparr>vs_version = ''v1.0.0'', vs_image = ''img'', vs_prerelease = False, vs_configSchema = [],
       vs_resources = None\<rparr>],
     cd_io = None, cd_statusPhase = ''Ready'', cd_statusMessage = []\<rparr>"

definition demo_env :: run_env where
  "demo_env = \<lparr>en_now = 1000, en_uuid = ''0123456789ab'', en_parseUUID = (\<lambda>_. True), en_lib = no_lib,
     en_compile = (\<lambda>_. None), en_yaml = (\<lambda>_. Some ''yaml''), en_setCondition = (\<lambda>cs c. cs @ [c]),
     en_setOwner = (\<lambda>_ _. None), en_hasClientset = False,
     en_getPipeline = (\<lambda>_ _ _. Inr demo_pipeline), en_getDefinition = (\<lambda>_ _. Inr demo_definition),
     en_getSecret = (\<lambda>_ _ name. if name = ProjectSecretsName then Inr [(''db'', ''pw''), (''other'', ''x'')]
        else Inl (NotFound [])),
     en_getJob = (\<lambda>_ _ _. Inr [\<lparr>jc_type = JobComplete, jc_true = True, jc_message = []\<rparr>]),
     en_listPods = (\<lambda>_ _ _ _. Inr []), en_logs = (\<lambda>_ _ _ _. Inr []), en_write = (\<lambda>_ _. None)\<rparr>"

definition no_retries :: retries where
  "no_retries = \<lparr>rt_transient = Map.empty, rt_notFound = Map.empty\<rparr>"

definition demo_run :: pipelinerun where
  "demo_run = \<lparr>pr_name = ''demo-run'', pr_namespace = ''proj'', pr_generation = 1, pr_annotations = [],
     pr_spec = \<lparr>rs_pipelineRef = ''demo'', rs_runID = [], rs_runTokenRef = None, rs_pipelineSpec = None,
       rs_preview = None\<rparr>,
     pr_status = empty_status\<rparr>"

definition demo_admitted :: run_state where
  "demo_admitted = reconciles sample_operator [demo_env] (demo_run, no_retries)"

lemma demo_definition_stable: "LatestStable demo_definition = Some (hd (cd_versions demo_definition))"
  by (simp add: demo_definition_def LatestStable_def parseStableVersion_def stable_groups_def is_digit_def)

lemma demo_registry:
  "registry_at demo_env k c [] =
     (Some \<lparr>rc_component = c, rc_version = ''v1.0.0'', rc_image = ''img'', rc_prerelease = False,
        rc_configSchema = None, rc_resources = \<lparr>cr_default = no_resources, cr_max = []\<rparr>, rc_io = None\<rparr>, [])"
  using demo_definition_stable
  by (simp add: registry_at_def ComponentRegistry_Resolve_def demo_env_def StaticRegistry_Resolve_def
      resolveVersion_def demo_definition_def)

lemma demo_validation:
  "ValidateTyped no_lib (Some demo_pipeline) (Some (registry_at demo_env 0)) None = []"
  by (simp add: demo_pipeline_def two_stages_def bucket_component_def sample_pipeline_def sample_component_def
      sample_table_def pipeline_eval name_eval secret_eval demo_registry checkIOCapability_def io_findings_def
      InputsMode_def OutputsMode_def checkResourcesAgainstMax_def Let_def)

lemma demo_secrets: "ReferencedSecrets demo_pipeline = [''db'']"
  by (simp add: ReferencedSecrets_def all_components_def demo_pipeline_def two_stages_def bucket_component_def
      sample_pipeline_def sample_component_def component_secret_refs_def ConfigMap_def secret_eval joinKey_def)

definition demo_stages :: "stage_spec list" where
  "demo_stages =
     [\<lparr>st_name = ''extract'', st_components = [sample_component\<lparr>cs_resources := Some no_resources\<rparr>]\<rparr>,
      \<lparr>st_name = ''load'',
       st_components = [(bucket_component ''w'' [] ''mid'')\<lparr>cs_resources := Some no_resources\<rparr>]\<rparr>]"

definition demo_resolved :: "resolved_component_status list" where
  "demo_resolved =
     [\<lparr>rcs_name = ''gen'', rcs_component = ''data-generator'', rcs_version = ''v1.0.0'', rcs_image = ''img'',
       rcs_imageID = []\<rparr>,
      \<lparr>rcs_name = ''w'', rcs_component = ''sql-transform'', rcs_version = ''v1.0.0'', rcs_image = ''img'',
       rcs_imageID = []\<rparr>]"

lemma demo_freeze:
  "freeze_stages (registry_at demo_env) 1 (ps_stages (p_spec demo_pipeline)) =
     Inr (demo_stages, demo_resolved, [])"
  by (simp add: demo_pipeline_def two_stages_def bucket_component_def sample_pipeline_def sample_component_def
      demo_registry demo_stages_def demo_resolved_def resolved_status_def applyDefaultsThenClamp_def
      clamp_note_def Let_def)

lemma demo_snapshot_calls:
  "snapshotRunSecrets demo_env tr pr demo_pipeline =
     (tr @ [GetSecret (pr_namespace pr) (runSecretsName pr), GetSecret (pr_namespace pr) ProjectSecretsName,
        CreateSecret (snapshot_secret pr [(''db'', ''pw'')])], Inr [])"
  by (simp add: snapshotRunSecrets_def demo_secrets demo_env_def runSecretsName_def ProjectSecretsName_def
      IsNotFound_def create_snapshot_def Let_def)

lemma demo_admission:
  "\<exists>s. pr_status (fst demo_admitted) = s \<and> rn_phase s = RunRunning \<and>
     rn_resolvedSpec s = Some ((p_spec demo_pipeline)\<lparr>ps_stages := demo_stages\<rparr>) \<and>
     rn_stages s = map pending_stage demo_stages \<and> rn_runID s = ''0123456789ab''"
proof -
  have "firstTransientFinding [] = None" "firstErrorFinding (nonResourceFindings []) = None"
    by (simp_all add: firstTransientFinding_def firstErrorFinding_def nonResourceFindings_def)
  then have a: "admitPipeline demo_env rt tr pr demo_pipeline =
      updateStatus demo_env (clearTransientRetries rt (run_key pr)) tr
        (updateSecretsResolvedCondition demo_env
          (map_status (admitted_status (en_now demo_env) demo_pipeline demo_stages demo_resolved []) pr)
          demo_pipeline) (Requeue (Some PipelineRunRequeueInterval))" for rt tr pr
    using demo_validation demo_freeze by (simp add: admitPipeline_def demo_env_def Let_def)
  have w: "en_write demo_env tr c = None" and g: "en_getPipeline demo_env tr ns ref = Inr demo_pipeline"
    and u: "en_uuid demo_env = ''0123456789ab''" for tr c ns ref by (simp_all add: demo_env_def)
  show ?thesis
    by (simp add: demo_admitted_def reconcileRun_def demo_run_def empty_status_def handlePending_def g
        handlePipeline_def demo_snapshot_calls a updateStatus_def w u Let_def stored_after_def has_cancel_def
        updateSecretsResolvedCondition_def demo_secrets map_status_def admitted_status_def)
qed

lemma demo_reachable: "reachable_run sample_operator demo_admitted"
proof -
  have "reachable_run sample_operator (demo_run, no_retries)"
    unfolding reachable_run_def by (intro exI [of _ "(demo_run, no_retries)"])
      (simp add: fresh_run_def demo_run_def)
  then show ?thesis unfolding demo_admitted_def by (rule reachable_reconciles)
qed

lemma demo_healthy: "healthy (fst demo_admitted)"
proof -
  have "status_inv (pr_status (fst demo_admitted))"
    using reachable_status_inv [of sample_operator "fst demo_admitted" "snd demo_admitted"] demo_reachable by simp
  moreover have "rs_preview (pr_spec (fst demo_admitted)) = None"
    by (simp add: demo_admitted_def Let_def) (simp add: demo_run_def)
  moreover have "list_all healthy_stage (map pending_stage demo_stages)"
    by (simp add: demo_stages_def healthy_stage_def pending_stage_def)
  moreover have "\<forall>c \<in> set (concat (map st_components demo_stages)). \<not> isl (ConfigMap c)"
    by (simp add: demo_stages_def ConfigMap_def sample_component_def bucket_component_def)
  ultimately show ?thesis using demo_admission by (auto simp: healthy_def)
qed

lemma demo_benign: "benign demo_env"
  by (simp add: benign_def demo_env_def completed_conditions_def)

definition demo_finished :: run_state where
  "demo_finished = reconciles sample_operator (replicate 7 demo_env) demo_admitted"

theorem admitted_run_completes_witness: "rn_phase (pr_status (fst demo_finished)) = RunSucceeded"
proof -
  have "length (rn_stages (pr_status (fst demo_admitted))) = 2"
    using demo_admission by (auto simp: demo_stages_def)
  then have "3 * length (rn_stages (pr_status (fst demo_admitted))) + 1 \<le> length (replicate 7 demo_env)" by simp
  from admitted_run_completes [OF demo_healthy _ this, of sample_operator "snd demo_admitted"] demo_benign
  show ?thesis by (simp add: demo_finished_def list_all_iff)
qed

lemma demo_finished_state:
  "reachable_run sample_operator demo_finished" "rn_phase (pr_status (fst demo_finished)) = RunSucceeded"
  "(run_step sample_operator)\<^sup>*\<^sup>* demo_admitted demo_finished"
proof -
  show "reachable_run sample_operator demo_finished"
    unfolding demo_finished_def by (rule reachable_reconciles [OF demo_reachable])
  show "(run_step sample_operator)\<^sup>*\<^sup>* demo_admitted demo_finished"
    unfolding demo_finished_def by (rule reconciles_steps)
  have "length (rn_stages (pr_status (fst demo_admitted))) = 2"
    using demo_admission by (auto simp: demo_stages_def)
  then have "run_work (fst demo_admitted) \<le> 7" using run_work_bound [of "fst demo_admitted"] by simp
  then show "rn_phase (pr_status (fst demo_finished)) = RunSucceeded"
    using benign_run_completes [of "replicate 7 demo_env" "fst demo_admitted" sample_operator "snd demo_admitted"]
      demo_healthy demo_benign by (simp add: demo_finished_def list_all_iff)
qed

section \<open>Instances for the demo run\<close>

theorem Reconcile_never_panics_witness:
  "fst (Reconcile sample_operator demo_env no_retries (Inr demo_run)) \<noteq> Panic"
proof -
  have "reachable_run sample_operator (demo_run, no_retries)"
    unfolding reachable_run_def by (intro exI [of _ "(demo_run, no_retries)"])
      (simp add: fresh_run_def demo_run_def)
  then show ?thesis by (rule Reconcile_never_panics)
qed

theorem succeeded_run_is_complete_witness:
  "\<exists>spec. rn_resolvedSpec (pr_status (fst demo_finished)) = Some spec \<and>
     list_all2 stage_complete (ps_stages spec) (rn_stages (pr_status (fst demo_finished)))"
  using succeeded_run_is_complete [of sample_operator "fst demo_finished" "snd demo_finished"]
    demo_finished_state by simp

theorem resolved_spec_is_frozen_witness:
  "rn_resolvedSpec (pr_status (fst demo_finished)) = Some ((p_spec demo_pipeline)\<lparr>ps_stages := demo_stages\<rparr>)"
proof -
  have "frozen_le (pr_status (fst demo_admitted)) (pr_status (fst demo_finished))"
    by (rule resolved_spec_is_frozen [OF demo_reachable demo_finished_state(3)])
  with demo_admission show ?thesis by (auto simp: frozen_le_def)
qed

lemma demo_finished_stages:
  "length (rn_stages (pr_status (fst demo_finished))) = 2"
  "\<forall>i < 2. ss_phase (rn_stages (pr_status (fst demo_finished)) ! i) = StageSucceeded"
proof -
  let ?s = "pr_status (fst demo_finished)"
  have inv: "status_inv ?s"
    using reachable_status_inv [of sample_operator "fst demo_finished" "snd demo_finished"] demo_finished_state
    by simp
  have "run_inv demo_admitted"
    using reachable_status_inv [of sample_operator "fst demo_admitted" "snd demo_admitted"] demo_reachable
    by (simp add: run_inv_def)
  then have "frozen_le (pr_status (fst demo_admitted)) ?s"
    by (rule run_freeze.steps_rel [OF demo_finished_state(3)])
  then have spec: "rn_resolvedSpec ?s = Some ((p_spec demo_pipeline)\<lparr>ps_stages := demo_stages\<rparr>)"
    using demo_admission by (auto simp: frozen_le_def)
  with inv have "length demo_stages = length (rn_stages ?s)"
    by (auto simp: status_inv_def dest: list_all2_lengthD)
  then show l: "length (rn_stages ?s) = 2" by (simp add: demo_stages_def)
  from inv demo_finished_state(2) have "list_all (\<lambda>ss. ss_phase ss = StageSucceeded) (rn_stages ?s)"
    by (simp add: status_inv_def)
  then show "\<forall>i < 2. ss_phase (rn_stages ?s ! i) = StageSucceeded" using l by (simp add: list_all_length)
qed

theorem stages_run_in_order_witness:
  "ss_phase (rn_stages (pr_status (fst demo_finished)) ! 0) = StageSucceeded"
proof -
  let ?s = "pr_status (fst demo_finished)"
  have inv: "status_inv ?s"
    using reachable_status_inv [of sample_operator "fst demo_finished" "snd demo_finished"] demo_finished_state
    by simp
  then obtain spec where "rn_resolvedSpec ?s = Some spec"
    using demo_finished_state(2) by (auto simp: status_inv_def split: option.splits)
  moreover have "ss_phase (rn_stages ?s ! 1) \<noteq> StagePending" using demo_finished_stages by simp
  ultimately show ?thesis
    using stages_run_in_order [of sample_operator "fst demo_finished" "snd demo_finished" spec 0 1]
      demo_finished_state(1) demo_finished_stages(1) by simp
qed

theorem terminal_runs_stay_witness:
  "pr_status (fst (reconciles sample_operator [demo_env] demo_finished)) = pr_status (fst demo_finished)"
proof -
  have "terminal_phase (rn_phase (pr_status (fst demo_finished)))"
    using demo_finished_state(2) by (simp add: terminal_phase_def)
  note stay = terminal_runs_stay [OF this, of sample_operator "snd demo_finished"]
  have "(run_step sample_operator)\<^sup>*\<^sup>* (fst demo_finished, snd demo_finished)
      (reconciles sample_operator [demo_env] demo_finished)"
    unfolding prod.collapse by (rule reconciles_steps)
  with stay show ?thesis by blast
qed

end
