(* ===== verification/Run_Admission.thy ===== *)
theory Run_Admission
  imports Run_Liveness
begin

text \<open>
  What admission guarantees: a run that starts has a valid pipeline although resource findings are
  dropped, its resources are within the registry's ceiling, its secrets snapshot holds exactly the
  referenced keys; transient registry errors never fail a run as a user error and are bounded by the
  retry budget; the Jobs that are built are the ones that are polled.
\<close>

section \<open>Paths that are not resource paths\<close>

text \<open>An automaton that refuses \<open>.r\<close>; its state says whether the last byte was a dot.\<close>

fun scan_path :: "bool \<Rightarrow> string \<Rightarrow> bool option" where
  "scan_path dot [] = Some dot"
| "scan_path dot (c # cs) = (if dot \<and> c = CHR ''r'' then None else scan_path (c = CHR ''.'') cs)"

text \<open>A path as the validator builds it: no \<open>.r\<close> and no dot at its end.\<close>

definition plain_path :: "string \<Rightarrow> bool" where
  "plain_path s \<longleftrightarrow> scan_path False s = Some False"

lemma scan_path_append:
  "scan_path b (xs @ ys) = (case scan_path b xs of None \<Rightarrow> None | Some b' \<Rightarrow> scan_path b' ys)"
  by (induction b xs rule: scan_path.induct) auto

lemma scan_path_plain [simp]: "plain_path p \<Longrightarrow> scan_path False (p @ ys) = scan_path False ys"
  by (simp add: scan_path_append plain_path_def)

lemma scan_path_no_special:
  "CHR ''.'' \<notin> set s \<Longrightarrow> CHR ''r'' \<notin> set s \<Longrightarrow> s \<noteq> [] \<Longrightarrow> scan_path b s = Some False"
proof (induction b s rule: scan_path.induct)
  case (2 dot c cs)
  then show ?case by (cases cs) auto
qed simp

lemma scan_nat_str [simp]:
  "scan_path b (nat_str n) = Some False" "scan_path b (nat_str n @ ys) = scan_path False ys"
proof -
  show "scan_path b (nat_str n) = Some False"
    using nat_str_digits [of n] by (intro scan_path_no_special) (auto simp: list_all_iff is_digit_def)
  then show "scan_path b (nat_str n @ ys) = scan_path False ys" by (simp add: scan_path_append)
qed

lemma scan_contains: "scan_path b s \<noteq> None \<Longrightarrow> \<not> strings_Contains s ''.resources''"
proof (induction b s rule: scan_path.induct)
  case (2 dot c cs)
  then show ?case
    by (cases cs) (auto simp: strings_Contains_def strings_HasPrefix_def split: if_splits)
qed (simp add: strings_Contains_def)

lemma plain_path_contains: "plain_path p \<Longrightarrow> \<not> strings_Contains p ''.resources''"
  using scan_contains [of False p] by (simp add: plain_path_def)

lemma plain_path_extend [simp]:
  "plain_path p \<Longrightarrow> plain_path (p @ ys) \<longleftrightarrow> scan_path False ys = Some False"
  by (simp add: plain_path_def scan_path_append)

lemma plain_path_Cons [simp]: "plain_path (c # cs) \<longleftrightarrow> scan_path (c = CHR ''.'') cs = Some False"
  by (simp add: plain_path_def)

lemma comp_base_plain [simp]: "plain_path (comp_base i j)"
  by (simp add: plain_path_def comp_base_def)

definition plain_findings :: "finding list \<Rightarrow> bool" where
  "plain_findings fs \<longleftrightarrow> list_all (\<lambda>f. plain_path (fd_path f)) fs"

lemma plain_findings_simps [simp]:
  "plain_findings []" "plain_findings (f # fs) \<longleftrightarrow> plain_path (fd_path f) \<and> plain_findings fs"
  "plain_findings (fs @ gs) \<longleftrightarrow> plain_findings fs \<and> plain_findings gs"
  "plain_findings (concat fss) \<longleftrightarrow> (\<forall>fs \<in> set fss. plain_findings fs)"
  by (auto simp: plain_findings_def list_all_iff)

lemma path_of_finding [simp]: "fd_path (err p m) = p" "fd_path (warn p m) = p"
  by (simp_all add: err_def warn_def)

lemma name_finding_plain [simp]: "plain_path p \<Longrightarrow> plain_findings (name_finding p a b)"
  by (simp add: name_finding_def)

lemma partition_step_plain:
  assumes "plain_path tp"
  shows "plain_findings (fst (partition_field_step lib cn tn tp i f st))"
proof -
  obtain seen ts where st: "st = (seen, ts)" by force
  show ?thesis
  proof (cases "parsePartitionTransform lib (pf_transform f)")
    case None
    with assms st show ?thesis by (simp add: partition_field_step_def Let_def)
  next
    case (Some tr)
    with assms st show ?thesis by (simp add: partition_field_step_def Let_def split: option.split)
  qed
qed

lemma partition_loop_plain: "plain_path tp \<Longrightarrow> plain_findings (partition_loop lib cn tn tp i fs st)"
proof (induction fs arbitrary: i st)
  case (Cons f fs)
  obtain fs' st' where "partition_field_step lib cn tn tp i f st = (fs', st')" by (meson surj_pair)
  with Cons partition_step_plain [of tp lib cn tn i f st] show ?case by simp
qed simp

lemma column_loop_plain: "plain_path tp \<Longrightarrow> plain_findings (column_loop cn tn tp i cols seen)"
  by (induction cols arbitrary: i seen) (simp_all add: Let_def)

lemma output_table_plain: "plain_path base \<Longrightarrow> plain_findings (output_table_findings lib cn base (i, t))"
  by (simp add: output_table_findings_def Let_def validatePartitionSpec_def validateColumnSpec_def
      partition_loop_plain column_loop_plain)

lemma output_bucket_plain: "plain_path base \<Longrightarrow> plain_findings (output_bucket_findings cn base (i, t))"
  by (simp add: output_bucket_findings_def Let_def)

lemma processor_plain: "plain_path base \<Longrightarrow> plain_findings (processor_findings cn base (i, t))"
  by (simp add: processor_findings_def Let_def)

lemma input_bucket_plain: "plain_path base \<Longrightarrow> plain_findings (input_bucket_findings cn base k av (i, t))"
  by (simp add: input_bucket_findings_def Let_def)

lemma input_table_plain: "plain_path base \<Longrightarrow> plain_findings (input_table_findings lib cn base k av (i, t))"
  by (simp add: input_table_findings_def Let_def split: sum.split option.split)

lemma validateOutputs_plain: "plain_findings (validateOutputs lib cn out i j)"
  by (auto simp: validateOutputs_def Let_def validateProcessors_def intro!: output_table_plain
      output_bucket_plain processor_plain)

lemma validateInputs_plain: "plain_findings (validateInputs lib cn inp i j av)"
  by (auto simp: validateInputs_def Let_def intro!: input_table_plain input_bucket_plain)

lemma validateComponent_plain: "plain_findings (validateComponent lib c i j av)"
  by (simp add: validateComponent_def Let_def validateInputs_plain validateOutputs_plain split: option.split)

lemma unique_names_plain: "plain_findings (unique_names_loop cs seen)"
  by (induction cs seen rule: unique_names_loop.induct) simp_all

section \<open>What the admission check lets through\<close>

definition resource_path :: "string \<Rightarrow> bool" where
  "resource_path p \<longleftrightarrow> strings_Contains p ''.resources'' \<and> \<not> strings_Contains p ''.config''"

definition admissible :: "finding list \<Rightarrow> bool" where
  "admissible fs \<longleftrightarrow> list_all (\<lambda>f. fd_severity f = severityError \<longrightarrow> resource_path (fd_path f)) fs"

lemma admissible_iff: "firstErrorFinding (nonResourceFindings fs) = None \<longleftrightarrow> admissible fs"
  by (auto simp: firstErrorFinding_def nonResourceFindings_def admissible_def find_None_iff list_all_iff
      severityError_def resource_path_def)

lemma admissible_simps [simp]:
  "admissible []" "admissible (fs @ gs) \<longleftrightarrow> admissible fs \<and> admissible gs"
  "admissible (concat fss) \<longleftrightarrow> (\<forall>fs \<in> set fss. admissible fs)"
  by (auto simp: admissible_def list_all_iff)

lemma admissible_plain: "admissible fs \<Longrightarrow> plain_findings fs \<Longrightarrow> no_errors fs"
  by (auto simp: admissible_def plain_findings_def no_errors_def list_all_iff resource_path_def
      dest: plain_path_contains)

lemma contains_append: "strings_Contains (xs @ p @ ys) p"
proof (induction xs)
  case Nil
  have "strings_HasPrefix (p @ ys) p" by (simp add: strings_HasPrefix_def)
  then show ?case by (cases "p @ ys") (auto simp: strings_Contains_def strings_HasPrefix_def)
qed (auto simp: strings_Contains_def)

lemma walkStrings_paths:
  "(q, s) \<in> set (walkStrings t path) \<Longrightarrow> path \<noteq> [] \<Longrightarrow> \<exists>rest. q = path @ rest"
  "(q, s) \<in> set (walkStrings_map kvs path) \<Longrightarrow> path \<noteq> [] \<Longrightarrow> \<exists>rest. q = path @ rest"
  "(q, s) \<in> set (walkStrings_arr xs i path) \<Longrightarrow> path \<noteq> [] \<Longrightarrow> \<exists>rest. q = path @ rest"
  by (induction t path and kvs path and xs i path
        rule: walkStrings_walkStrings_map_walkStrings_arr.induct)
     (fastforce simp: joinKey_def)+

lemma validateSecretRefs_config_paths:
  "f \<in> set (validateSecretRefs c i j) \<Longrightarrow> \<not> resource_path (fd_path f)"
proof -
  assume "f \<in> set (validateSecretRefs c i j)"
  then have "fd_path f = comp_base i j @ ''.config'' \<or>
      (\<exists>cfg s. (fd_path f, s) \<in> set (walkStrings (JObj cfg) (comp_base i j @ ''.config'')))"
    by (auto simp: validateSecretRefs_def Let_def split: sum.splits option.splits)
  then have "\<exists>rest. fd_path f = (comp_base i j @ ''.config'') @ rest"
    using walkStrings_paths(1) [of "fd_path f" _ _ "comp_base i j @ ''.config''"] by (metis Nil_is_append_conv append.right_neutral list.distinct(1))
  then show ?thesis using contains_append [of "comp_base i j" "''.config''"] by (auto simp: resource_path_def)
qed

lemma admissible_secrets: "admissible (validateSecretRefs c i j) \<Longrightarrow> no_errors (validateSecretRefs c i j)"
  using validateSecretRefs_config_paths [of _ c i j]
  by (auto simp: admissible_def no_errors_def list_all_iff)

lemma validate_components_admissible:
  "admissible (fst (validate_components lib reg i j cs av)) \<Longrightarrow> \<forall>c \<in> set cs. component_ok c"
proof (induction cs arbitrary: j av)
  case (Cons c cs)
  let ?av = "case cs_outputs c of None \<Rightarrow> av | Some out \<Rightarrow> registerOutputs out av"
  from Cons.prems have "admissible (validateComponent lib c i j av)"
    and "admissible (fst (validate_components lib reg i (Suc j) cs ?av))"
    by (auto simp: Let_def split: prod.splits)
  then have "component_ok c" "\<forall>c \<in> set cs. component_ok c"
    by (blast intro: validateComponent_ok admissible_plain validateComponent_plain, blast dest: Cons.IH)
  then show ?case by simp
qed simp

lemma validate_stages_admissible:
  "admissible (validate_stages lib reg i stages av) \<Longrightarrow> \<forall>stage \<in> set stages. stage_ok stage"
proof (induction stages arbitrary: i av)
  case (Cons stage stages)
  obtain fs av' where v: "validate_components lib reg i 0 (st_components stage) av = (fs, av')" by force
  let ?n = "if st_name stage = [] then [err (''stages['' @ nat_str i @ ''].name'')
      (''stage '' @ nat_str i @ '': name is required'')] else []"
  let ?c = "if st_components stage = [] then [err (''stages['' @ nat_str i @ ''].components'')
      (''stage '' @ st_name stage @ '': must have at least one component'')] else []"
  from Cons.prems v have "admissible ?n" "admissible ?c" "admissible fs"
    "admissible (validate_stages lib reg (Suc i) stages av')" by auto
  moreover have "plain_findings ?n" "plain_findings ?c" by simp_all
  ultimately have "no_errors ?n" "no_errors ?c" by (blast intro: admissible_plain)+
  then have "st_name stage \<noteq> []" "st_components stage \<noteq> []" by (auto split: if_splits)
  with Cons.IH \<open>admissible (validate_stages lib reg (Suc i) stages av')\<close> \<open>admissible fs\<close> v
    validate_components_admissible [of lib reg i 0 "st_components stage" av]
  show ?case by (auto simp: stage_ok_def)
qed simp

text \<open>A pipeline the admission check lets through has every property of a valid one, since no
  finding but those of the resource policy has a resource path.\<close>

lemma admissible_pipeline_ok:
  assumes "admissible (ValidateTyped lib (Some p) reg pol)"
  shows "pipeline_ok p"
proof -
  let ?n = "if p_name p = [] then [err ''metadata.name'' ''pipeline metadata.name is required''] else []"
  let ?s = "if ps_stages (p_spec p) = [] then [err ''spec.stages'' ''pipeline must have at least one stage''] else []"
  from assms have a: "admissible ?n" "admissible ?s"
    "admissible (validate_stages lib reg 0 (ps_stages (p_spec p)) \<lparr>av_tables = [], av_buckets = []\<rparr>)"
    "admissible (checkUniqueComponentNames p)"
    unfolding ValidateTyped_def by simp_all
  have "plain_findings ?n" "plain_findings ?s" by simp_all
  with a(1,2) have "no_errors ?n" "no_errors ?s" by (blast intro: admissible_plain)+
  then have ne: "p_name p \<noteq> []" "ps_stages (p_spec p) \<noteq> []" by (auto split: if_splits)
  have st: "\<forall>stage \<in> set (ps_stages (p_spec p)). stage_ok stage"
    by (rule validate_stages_admissible [OF a(3)])
  have "no_errors (checkUniqueComponentNames p)"
    using a(4) unique_names_plain by (simp add: checkUniqueComponentNames_def admissible_plain)
  with ne st show ?thesis by (intro pipeline_ok_intro)
qed

lemma admissible_secrets_ok:
  assumes "admissible (ValidateTyped lib (Some p) reg pol)" "c \<in> set (all_components p)"
  shows "\<exists>i j. no_errors (validateSecretRefs c i j)"
proof -
  from assms(2) have "c \<in> set (map (\<lambda>(i, j, c). c) (component_positions p))"
    using component_positions_components [of "\<lambda>x. x" p] by simp
  then obtain i j where "(i, j, c) \<in> set (component_positions p)" by auto
  with assms(1) have "admissible (validateSecretRefs c i j)" by (fastforce simp: ValidateTyped_def)
  then show ?thesis using admissible_secrets by blast
qed

section \<open>Admitted runs\<close>

text \<open>The pipeline a reconcile works on: the inline spec or the referenced Pipeline.\<close>

definition run_pipeline :: "run_env \<Rightarrow> trace \<Rightarrow> pipelinerun \<Rightarrow> pipeline option" where
  "run_pipeline env tr pr =
     (case rs_pipelineSpec (pr_spec pr) of
        Some sp \<Rightarrow> Some (inline_pipeline pr sp)
      | None \<Rightarrow> (case en_getPipeline env tr (pr_namespace pr) (rs_pipelineRef (pr_spec pr)) of
                  Inl _ \<Rightarrow> None | Inr p \<Rightarrow> Some p))"

text \<open>A component as admission freezes it: resolved by some reading of the registry, with the
  resources that reading's defaults and ceiling give.\<close>

definition frozen_component :: "run_env \<Rightarrow> component_spec \<Rightarrow> component_spec \<Rightarrow> bool" where
  "frozen_component env c c' \<longleftrightarrow>
     (\<exists>k rc fs. registry_at env k (cs_component c) (cs_version c) = (Some rc, fs) \<and>
        c' = c\<lparr>cs_resources := Some (cl_resources (applyDefaultsThenClamp (cs_resources c)
               (cr_default (rc_resources rc)) (cr_max (rc_resources rc))))\<rparr>)"

lemma frozen_componentI:
  "registry_at env k (cs_component c) (cs_version c) = (Some rc, fs) \<Longrightarrow>
     frozen_component env c (c\<lparr>cs_resources := Some (cl_resources (applyDefaultsThenClamp (cs_resources c)
       (cr_default (rc_resources rc)) (cr_max (rc_resources rc))))\<rparr>)"
  unfolding frozen_component_def by blast

definition frozen_stage :: "run_env \<Rightarrow> stage_spec \<Rightarrow> stage_spec \<Rightarrow> bool" where
  "frozen_stage env st st' \<longleftrightarrow>
     st_name st' = st_name st \<and> list_all2 (frozen_component env) (st_components st) (st_components st')"

lemma freeze_components_frozen:
  "freeze_components (registry_at env) k cs = Inr (cs', rcs, nts) \<Longrightarrow> list_all2 (frozen_component env) cs cs'"
  by (induction cs arbitrary: k cs' rcs nts)
     (auto simp: Let_def intro!: frozen_componentI split: option.splits prod.splits sum.splits)

lemma freeze_stages_frozen:
  "freeze_stages (registry_at env) k sts = Inr (sts', rcs, nts) \<Longrightarrow> list_all2 (frozen_stage env) sts sts'"
  by (induction sts arbitrary: k sts' rcs nts)
     (auto simp: frozen_stage_def split: prod.splits sum.splits dest!: freeze_components_frozen)

lemma admitPipeline_running:
  assumes "o_stored (admitPipeline env rt tr pr p) = Some s" "rn_phase s = RunRunning"
  shows "admissible (ValidateTyped (en_lib env) (Some p) (Some (registry_at env 0)) None) \<and>
    (\<exists>stages rcs nts. freeze_stages (registry_at env) 1 (ps_stages (p_spec p)) = Inr (stages, rcs, nts) \<and>
       rn_resolvedSpec s = Some ((p_spec p)\<lparr>ps_stages := stages\<rparr>) \<and> rn_runID s = rn_runID (pr_status pr))"
proof -
  have "o_stored (requeueOnTransientAdmissionError env rt tr pr m) \<noteq> Some s" for m
    using assms(2) by (auto simp: requeueOnTransientAdmissionError_def split: prod.splits if_splits)
  with assms show ?thesis
    by (auto simp: admitPipeline_def Let_def admissible_iff updateSecretsResolvedCondition_def
        admitted_status_def split: option.splits prod.splits sum.splits if_splits)
qed

lemma handlePipeline_running:
  assumes "o_stored (handlePipeline env rt tr pr p) = Some s" "rn_phase s = RunRunning"
  shows "\<exists>rt' tr' pr'. handlePipeline env rt tr pr p = admitPipeline env rt' tr' pr' p \<and>
    snapshotRunSecrets env tr pr' p = (tr', Inr []) \<and>
    pr' = map_status (\<lambda>st. st\<lparr>rn_runID := rn_runID s\<rparr>) pr"
proof -
  define i where "i = (if rs_runID (pr_spec pr) = [] then en_uuid env else rs_runID (pr_spec pr))"
  define pr' where "pr' = map_status (\<lambda>st. st\<lparr>rn_runID := i\<rparr>) pr"
  define rt' where "rt' = clearNotFoundRetry rt (run_key pr)"
  obtain tr' res where sn: "snapshotRunSecrets env tr pr' p = (tr', res)" by force
  have ok: "rs_runID (pr_spec pr) = [] \<or> en_parseUUID env (rs_runID (pr_spec pr))"
    using assms by (auto simp: handlePipeline_def Let_def split: if_splits)
  then have h: "handlePipeline env rt tr pr p =
      (case res of Inl e \<Rightarrow> return_with rt' tr' (Failed e)
       | Inr missing \<Rightarrow> if missing \<noteq> []
           then updateStatus env rt' tr' (fail_missing_secrets env missing pr') (Requeue None)
           else admitPipeline env rt' tr' pr' p)"
    using sn by (auto simp: handlePipeline_def Let_def i_def pr'_def rt'_def split: sum.split)
  with assms have res: "res = Inr []"
    by (auto simp: fail_missing_secrets_def Let_def split: sum.splits if_splits)
  with h have eq: "handlePipeline env rt tr pr p = admitPipeline env rt' tr' pr' p" by simp
  with assms admitPipeline_running [of env rt' tr' pr' p s] have "rn_runID s = i"
    by (auto simp: pr'_def)
  with eq sn res show ?thesis by (auto simp: pr'_def)
qed

lemma handlePending_running:
  assumes "o_stored (handlePending env rt tr pr) = Some s" "rn_phase s = RunRunning"
  shows "\<exists>p rt' tr'. run_pipeline env tr pr = Some p \<and> o_stored (handlePipeline env rt' tr' pr p) = Some s"
  using assms
  by (auto simp: handlePending_def Let_def run_pipeline_def split: option.splits sum.splits prod.splits if_splits)

text \<open>C18. A run that starts is valid: its pipeline has every property that validation promises, even
  though admission drops the resource findings; every configuration decodes; and the frozen spec is
  that pipeline's, stage by stage and component by component, each resolved in the registry and
  changed only in its clamped resources.\<close>

theorem admitted_run_is_valid:
  assumes "rn_phase (pr_status pr) = RunNone"
    and "o_stored (reconcileRun r env rt pr) = Some s" "rn_phase s = RunRunning"
  shows "\<exists>p tr spec. run_pipeline env tr pr = Some p \<and> pipeline_ok p \<and>
    (\<forall>c \<in> set (all_components p). \<not> isl (ConfigMap c)) \<and>
    rn_resolvedSpec s = Some spec \<and> ps_gateway spec = ps_gateway (p_spec p) \<and>
    list_all2 (frozen_stage env) (ps_stages (p_spec p)) (ps_stages spec)"
proof -
  let ?pr = "map_status (\<lambda>s. s\<lparr>rn_observedGeneration := pr_generation pr\<rparr>) pr"
  from assms(1,2) obtain tr where "o_stored (handlePending env rt tr ?pr) = Some s"
    by (auto simp: reconcileRun_def Let_def)
  from handlePending_running [OF this assms(3)] obtain p rt' tr' where
    p: "run_pipeline env tr ?pr = Some p" and h: "o_stored (handlePipeline env rt' tr' ?pr p) = Some s" by blast
  from handlePipeline_running [OF h assms(3)] h obtain rt2 tr2 pr2 where
    "o_stored (admitPipeline env rt2 tr2 pr2 p) = Some s" by auto
  from admitPipeline_running [OF this assms(3)] obtain stages rcs nts where
    adm: "admissible (ValidateTyped (en_lib env) (Some p) (Some (registry_at env 0)) None)"
    and fr: "freeze_stages (registry_at env) 1 (ps_stages (p_spec p)) = Inr (stages, rcs, nts)"
    and spec: "rn_resolvedSpec s = Some ((p_spec p)\<lparr>ps_stages := stages\<rparr>)" by blast
  have "run_pipeline env tr pr = Some p"
    using p by (simp add: run_pipeline_def map_status_def inline_pipeline_def cong: option.case_cong)
  moreover have "\<not> isl (ConfigMap c)" if "c \<in> set (all_components p)" for c
    using admissible_secrets_ok [OF adm that]
    by (auto simp: validateSecretRefs_def Let_def isl_def split: sum.splits)
  moreover note admissible_pipeline_ok [OF adm] freeze_stages_frozen [OF fr] spec
  ultimately show ?thesis by auto
qed

theorem admitted_run_is_valid_witness:
  "\<exists>p tr spec. run_pipeline demo_env tr demo_run = Some p \<and> pipeline_ok p \<and>
     rn_resolvedSpec (pr_status (fst demo_admitted)) = Some spec \<and>
     list_all2 (frozen_stage demo_env) (ps_stages (p_spec p)) (ps_stages spec)"
proof -
  let ?out = "reconcileRun sample_operator demo_env no_retries demo_run"
  have n: "rn_phase (pr_status demo_run) = RunNone" by (simp add: demo_run_def empty_status_def)
  have "pr_status (fst demo_admitted) = (case o_stored ?out of None \<Rightarrow> empty_status | Some s \<Rightarrow> s)"
    by (simp add: demo_admitted_def stored_after_def Let_def demo_run_def split: option.split)
  then have "o_stored ?out = Some (pr_status (fst demo_admitted))"
    using demo_admission by (auto simp: empty_status_def split: option.splits)
  moreover have "rn_phase (pr_status (fst demo_admitted)) = RunRunning" using demo_admission by auto
  ultimately show ?thesis using admitted_run_is_valid [OF n] by blast
qed

section \<open>The secrets snapshot\<close>

lemma collect_refs_eq:
  "collect_refs data names =
     (map (\<lambda>n. (n, the (map_of data n))) (filter (\<lambda>n. map_of data n \<noteq> None) names),
      filter (\<lambda>n. map_of data n = None) names)"
  by (induction names) (auto split: option.split)

lemma map_of_map_key [map_simps]: "map_of (map (\<lambda>n. (n, f n)) ns) k = (if k \<in> set ns then Some (f k) else None)"
  by (induction ns) auto

text \<open>The project Secret as a reading of it answers: empty when it does not exist.\<close>

definition project_data :: "api_error + string gomap \<Rightarrow> string gomap" where
  "project_data ans = (case ans of Inl _ \<Rightarrow> [] | Inr data \<Rightarrow> data)"

lemma create_snapshot_calls:
  "create_snapshot env tr pr data = (tr', res) \<Longrightarrow>
     (tr' = tr \<or> tr' = tr @ [CreateSecret (snapshot_secret pr data)]) \<and> (res = Inr [] \<or> isl res)"
  by (auto simp: create_snapshot_def Let_def split: option.splits if_splits)

lemma runSecretsName_not_project [simp]:
  "runSecretsName pr \<noteq> ProjectSecretsName" "ProjectSecretsName \<noteq> runSecretsName pr"
  by (simp_all add: runSecretsName_def ProjectSecretsName_def)

lemma snapshot_spec:
  assumes "snapshotRunSecrets env tr pr p = (tr @ new, res)"
  defines "data \<equiv> project_data (en_getSecret env (tr @ [GetSecret (pr_namespace pr) (runSecretsName pr)])
      (pr_namespace pr) ProjectSecretsName)"
  shows "(\<forall>sec. CreateSecret sec \<in> set new \<longrightarrow> map fst (sec_data sec) = ReferencedSecrets p \<and>
        (\<forall>n \<in> set (ReferencedSecrets p). map_of (sec_data sec) n = map_of data n \<and> map_of data n \<noteq> None)) \<and>
    (\<forall>missing. res = Inr missing \<and> missing \<noteq> [] \<longrightarrow>
        missing = filter (\<lambda>n. map_of data n = None) (ReferencedSecrets p) \<and> (\<forall>sec. CreateSecret sec \<notin> set new)) \<and>
    (\<not> isl (en_getSecret env tr (pr_namespace pr) (runSecretsName pr)) \<longrightarrow>
        GetSecret (pr_namespace pr) ProjectSecretsName \<notin> set new)"
proof (cases "ReferencedSecrets p = []")
  case True
  with assms(1) show ?thesis by (auto simp: snapshotRunSecrets_def Let_def)
next
  case False
  let ?ns = "pr_namespace pr"
  let ?g1 = "GetSecret ?ns (runSecretsName pr)" and ?g2 = "GetSecret ?ns ProjectSecretsName"
  let ?have = "filter (\<lambda>n. map_of data n \<noteq> None) (ReferencedSecrets p)"
  let ?miss = "filter (\<lambda>n. map_of data n = None) (ReferencedSecrets p)"
  show ?thesis
  proof (cases "en_getSecret env tr ?ns (runSecretsName pr)")
    case (Inr b)
    with assms(1) False show ?thesis by (auto simp: snapshotRunSecrets_def Let_def)
  next
    case (Inl e)
    let ?snap = "snapshot_secret pr (map (\<lambda>n. (n, the (map_of data n))) ?have)"
    from assms(1) False Inl have "(\<forall>sec. CreateSecret sec \<notin> set new) \<and> (isl res \<or> ?miss \<noteq> [] \<and> res = Inr ?miss) \<or>
        ?miss = [] \<and> (\<forall>sec. CreateSecret sec \<in> set new \<longrightarrow> sec = ?snap) \<and> (res = Inr [] \<or> isl res)"
      by (auto simp: snapshotRunSecrets_def Let_def collect_refs_eq data_def [symmetric, unfolded project_data_def]
          project_data_def split: if_splits prod.splits sum.splits dest!: create_snapshot_calls)
    moreover have "?miss = [] \<Longrightarrow> ?have = ReferencedSecrets p" by (auto simp: filter_empty_conv)
    ultimately show ?thesis using Inl
      by (auto simp: snapshot_secret_def comp_def map_of_map_key filter_empty_conv isl_def)
  qed
qed

lemma snapshot_absent:
  assumes "ReferencedSecrets p \<noteq> []" "en_getSecret env tr (pr_namespace pr) (runSecretsName pr) = Inl e"
  defines "tr1 \<equiv> tr @ [GetSecret (pr_namespace pr) (runSecretsName pr)]"
  defines "proj \<equiv> en_getSecret env tr1 (pr_namespace pr) ProjectSecretsName"
  defines "tr2 \<equiv> tr1 @ [GetSecret (pr_namespace pr) ProjectSecretsName]"
  shows "snapshotRunSecrets env tr pr p =
    (if \<not> IsNotFound e then (tr1, Inl (error_text e))
     else if \<exists>e'. proj = Inl e' \<and> \<not> IsNotFound e' then (tr2, Inl (error_text (projl proj)))
     else if filter (\<lambda>n. map_of (project_data proj) n = None) (ReferencedSecrets p) \<noteq> []
       then (tr2, Inr (filter (\<lambda>n. map_of (project_data proj) n = None) (ReferencedSecrets p)))
     else create_snapshot env tr2 pr (map (\<lambda>n. (n, the (map_of (project_data proj) n))) (ReferencedSecrets p)))"
proof -
  have all: "filter (\<lambda>n. map_of d n \<noteq> None) (ReferencedSecrets p) = ReferencedSecrets p"
    if "filter (\<lambda>n. map_of d n = None) (ReferencedSecrets p) = []" for d :: "string gomap"
    using that by (auto simp: filter_empty_conv)
  show ?thesis using assms(1,2) all
    by (cases proj) (auto simp: snapshotRunSecrets_def Let_def collect_refs_eq project_data_def tr1_def[symmetric] tr2_def[symmetric]
        proj_def[symmetric])
qed

text \<open>C19. The snapshot of a run's secrets, for a pipeline that refers to some. Let \<open>data\<close> be what the project Secret holds,
  nothing when it does not exist. If the snapshot exists, the project Secret is not even read and the run goes on, so rotation
  never reaches an admitted run. If it does not and names are missing, exactly those are reported and nothing is
  created. If none is missing, exactly one Secret is created, under the name the Jobs mount, with exactly the referenced
  names, in order, each with its value in \<open>data\<close>, and the run goes on exactly if that Secret could be created or was there
  already. In no other case does the run go on or report names.\<close>

theorem snapshot_is_exact:
  assumes "snapshotRunSecrets env tr pr p = (tr @ new, res)" "ReferencedSecrets p \<noteq> []"
  defines "have_snap \<equiv> GetSecret (pr_namespace pr) (runSecretsName pr)" and "have_proj \<equiv> GetSecret (pr_namespace pr) ProjectSecretsName"
    and "snap \<equiv> en_getSecret env tr (pr_namespace pr) (runSecretsName pr)"
    and "proj \<equiv> en_getSecret env (tr @ [GetSecret (pr_namespace pr) (runSecretsName pr)]) (pr_namespace pr) ProjectSecretsName"
    and "absent \<equiv> \<lambda>r. \<exists>e. r = Inl e \<and> IsNotFound e"
  defines "missing \<equiv> filter (\<lambda>n. map_of (project_data proj) n = None) (ReferencedSecrets p)"
  shows "(\<not> isl snap \<longrightarrow> new = [have_snap] \<and> res = Inr []) \<and>
    (absent snap \<and> (\<not> isl proj \<or> absent proj) \<and> missing \<noteq> [] \<longrightarrow> new = [have_snap, have_proj] \<and> res = Inr missing) \<and>
    (absent snap \<and> (\<not> isl proj \<or> absent proj) \<and> missing = [] \<and> en_setOwner env (tr @ [have_snap, have_proj]) (runSecretsName pr) = None \<longrightarrow>
      (\<exists>sec. new = [have_snap, have_proj, CreateSecret sec] \<and> sec_name sec = runSecretsName pr \<and>
        map fst (sec_data sec) = ReferencedSecrets p \<and> (\<forall>n \<in> set (ReferencedSecrets p). map_of (sec_data sec) n = map_of (project_data proj) n) \<and>
        (res = Inr [] \<longleftrightarrow> (case en_write env (tr @ [have_snap, have_proj]) (CreateSecret sec) of None \<Rightarrow> True | Some e \<Rightarrow> IsAlreadyExists e)))) \<and>
    (\<not> isl res \<longrightarrow> \<not> isl snap \<or> absent snap \<and> (\<not> isl proj \<or> absent proj) \<and>
      (missing = [] \<longrightarrow> en_setOwner env (tr @ [have_snap, have_proj]) (runSecretsName pr) = None))"
proof -
  let ?data = "project_data proj" and ?tr2 = "tr @ [have_snap, have_proj]"
  let ?sec = "snapshot_secret pr (map (\<lambda>n. (n, the (map_of ?data n))) (ReferencedSecrets p))"
  have sec: "sec_name ?sec = runSecretsName pr" "map fst (sec_data ?sec) = ReferencedSecrets p"
    by (simp_all add: snapshot_secret_def comp_def)
  have vals: "\<forall>n \<in> set (ReferencedSecrets p). map_of (sec_data ?sec) n = map_of ?data n" if "missing = []"
    using that by (auto simp: snapshot_secret_def comp_def map_of_map_key missing_def filter_empty_conv)
  show ?thesis
  proof (cases snap)
    case (Inr b)
    then show ?thesis using assms(1,2) by (auto simp: snapshotRunSecrets_def Let_def snap_def have_snap_def absent_def)
  next
    case (Inl e)
    note run = assms(1)[unfolded snapshot_absent[OF assms(2) Inl[unfolded snap_def]], folded have_snap_def have_proj_def, folded proj_def[folded have_snap_def],
        folded missing_def]
    show ?thesis
    proof (cases "IsNotFound e \<and> (\<not> isl proj \<or> absent proj)")
      case False
      then have "isl res" using run by (cases proj) (auto simp: absent_def split: if_splits)
      then show ?thesis using False Inl by (auto simp: absent_def)
    next
      case True
      then have read: "\<not> (\<exists>e'. proj = Inl e' \<and> \<not> IsNotFound e')" by (auto simp: absent_def)
      show ?thesis
      proof (cases "missing = []")
        case False
        then show ?thesis using run True read Inl by (auto simp: absent_def)
      next
        case none: True
        then have c: "create_snapshot env ?tr2 pr (map (\<lambda>n. (n, the (map_of ?data n))) (ReferencedSecrets p)) = (tr @ new, res)"
          using run True read by simp
        show ?thesis
        proof (cases "en_setOwner env ?tr2 (runSecretsName pr)")
          case (Some x)
          then show ?thesis using c none Inl sec(1) by (auto simp: create_snapshot_def Let_def)
        next
          case owner: None
          have "new = [have_snap, have_proj, CreateSecret ?sec] \<and>
              (res = Inr [] \<longleftrightarrow> (case en_write env ?tr2 (CreateSecret ?sec) of None \<Rightarrow> True | Some e \<Rightarrow> IsAlreadyExists e))"
            using c owner sec(1) by (auto simp: create_snapshot_def Let_def split: option.splits if_splits)
          then show ?thesis using none owner Inl True sec vals[OF none] by (auto simp: absent_def)
        qed
      qed
    qed
  qed
qed

theorem snapshot_is_exact_witness:
  "\<exists>sec. snapshotRunSecrets demo_env [] demo_run demo_pipeline =
      ([GetSecret ''proj'' (runSecretsName demo_run), GetSecret ''proj'' ProjectSecretsName, CreateSecret sec], Inr []) \<and>
    map fst (sec_data sec) = [''db''] \<and> map_of (sec_data sec) ''db'' = Some ''pw''"
proof -
  let ?tr = "[GetSecret (pr_namespace demo_run) (runSecretsName demo_run), GetSecret (pr_namespace demo_run) ProjectSecretsName]"
  have run: "snapshotRunSecrets demo_env [] demo_run demo_pipeline =
      ([] @ ?tr @ [CreateSecret (snapshot_secret demo_run [(''db'', ''pw'')])], Inr [])" by (simp add: demo_snapshot_calls)
  have refs: "ReferencedSecrets demo_pipeline \<noteq> []" by (simp add: demo_secrets)
  have env: "en_getSecret demo_env [] (pr_namespace demo_run) (runSecretsName demo_run) = Inl (NotFound [])" "IsNotFound (NotFound [])"
    "en_getSecret demo_env ([] @ [GetSecret (pr_namespace demo_run) (runSecretsName demo_run)]) (pr_namespace demo_run) ProjectSecretsName =
      Inr [(''db'', ''pw''), (''other'', ''x'')]" "en_setOwner demo_env tr n = None" for tr n
    by (simp_all add: demo_env_def IsNotFound_def runSecretsName_def ProjectSecretsName_def)
  show ?thesis
    using snapshot_is_exact[OF run refs, unfolded env(3)] env run by (auto simp: project_data_def demo_secrets demo_run_def)
qed

section \<open>Transient registry errors\<close>

text \<open>An environment in which admission of a run finds its pipeline and its secrets but the registry
  cannot be read.\<close>

definition registry_outage :: "run_env \<Rightarrow> pipelinerun \<Rightarrow> pipeline \<Rightarrow> bool" where
  "registry_outage env pr p \<longleftrightarrow>
     (\<forall>tr. run_pipeline env tr pr = Some p) \<and> (rs_pipelineSpec (pr_spec pr) = None \<longrightarrow> rs_pipelineRef (pr_spec pr) \<noteq> []) \<and>
     (rs_runID (pr_spec pr) = [] \<or> en_parseUUID env (rs_runID (pr_spec pr))) \<and>
     (\<forall>tr pr'. snd (snapshotRunSecrets env tr pr' p) = Inr []) \<and>
     firstTransientFinding (ValidateTyped (en_lib env) (Some p) (Some (registry_at env 0)) None) \<noteq> None \<and>
     (\<forall>tr c. en_write env tr c = None)"

lemma run_pipeline_map_status [simp]: "run_pipeline env tr (map_status f pr) = run_pipeline env tr pr"
  by (simp add: run_pipeline_def map_status_def inline_pipeline_def split: option.split)

lemma map_status_meta [simp]:
  "pr_spec (map_status f pr) = pr_spec pr" "run_key (map_status f pr) = run_key pr"
  "pr_namespace (map_status f pr) = pr_namespace pr"
  by (simp_all add: map_status_def run_key_def)

lemma handlePending_pipeline:
  assumes "run_pipeline env tr pr = Some p" "rs_pipelineSpec (pr_spec pr) = None \<longrightarrow> rs_pipelineRef (pr_spec pr) \<noteq> []"
  shows "\<exists>tr'. handlePending env rt tr pr = handlePipeline env rt tr' pr p"
proof (cases "rs_pipelineSpec (pr_spec pr)")
  case None
  with assms have "en_getPipeline env tr (pr_namespace pr) (rs_pipelineRef (pr_spec pr)) = Inr p"
    by (auto simp: run_pipeline_def split: sum.splits)
  with None assms(2) show ?thesis by (auto simp: handlePending_def Let_def)
next
  case (Some sp)
  with assms(1) show ?thesis by (auto simp: handlePending_def run_pipeline_def)
qed

lemma outage_reconcile:
  assumes "registry_outage env pr p" "rn_phase (pr_status pr) = RunNone"
  shows "\<exists>tr pr' m. run_key pr' = run_key pr \<and> reconcileRun r env rt pr =
    requeueOnTransientAdmissionError env (clearNotFoundRetry rt (run_key pr)) tr pr' m"
proof -
  let ?pr = "map_status (\<lambda>s. s\<lparr>rn_observedGeneration := pr_generation pr\<rparr>) pr"
  obtain tr where "reconcileRun r env rt pr = handlePending env rt tr ?pr"
    using assms(2) by (auto simp: reconcileRun_def Let_def)
  moreover obtain tr' where "handlePending env rt tr ?pr = handlePipeline env rt tr' ?pr p"
    using assms(1) handlePending_pipeline [of env tr ?pr p rt] by (auto simp: registry_outage_def)
  moreover define id where "id = (if rs_runID (pr_spec pr) = [] then en_uuid env else rs_runID (pr_spec pr))"
  moreover define pr' where "pr' = map_status (\<lambda>s. s\<lparr>rn_runID := id\<rparr>) ?pr"
  moreover obtain tr2 where "snapshotRunSecrets env tr' pr' p = (tr2, Inr [])"
    using assms(1) by (metis prod.collapse registry_outage_def)
  ultimately have "reconcileRun r env rt pr =
      admitPipeline env (clearNotFoundRetry rt (run_key pr)) tr2 pr' p"
    using assms(1) by (auto simp: handlePipeline_def Let_def registry_outage_def)
  moreover obtain f where "firstTransientFinding
      (ValidateTyped (en_lib env) (Some p) (Some (registry_at env 0)) None) = Some f"
    using assms(1) by (auto simp: registry_outage_def)
  ultimately have "reconcileRun r env rt pr = requeueOnTransientAdmissionError env
      (clearNotFoundRetry rt (run_key pr)) tr2 pr' (fd_message f)"
    by (simp add: admitPipeline_def Let_def)
  moreover have "run_key pr' = run_key pr" by (simp add: pr'_def)
  ultimately show ?thesis by blast
qed

lemma outage_below_budget:
  assumes "registry_outage env pr p" "rn_phase (pr_status pr) = RunNone"
    and "bump (rt_transient rt) (run_key pr) < admissionTransientRetryBudget"
  shows "stored_after pr (reconcileRun r env rt pr) = pr \<and>
    rt_transient (o_retries (reconcileRun r env rt pr)) (run_key pr) = Some (bump (rt_transient rt) (run_key pr)) \<and>
    o_result (reconcileRun r env rt pr) = Requeue (Some admissionTransientRetryInterval)"
proof -
  from outage_reconcile [OF assms(1,2), of r rt] obtain tr pr' m where
    "run_key pr' = run_key pr" "reconcileRun r env rt pr =
      requeueOnTransientAdmissionError env (clearNotFoundRetry rt (run_key pr)) tr pr' m" by blast
  with assms(3) show ?thesis
    by (simp add: requeueOnTransientAdmissionError_def noteTransientRetry_def clearNotFoundRetry_def
        Let_def stored_after_def return_with_def)
qed

lemma outage_at_budget:
  assumes "registry_outage env pr p" "rn_phase (pr_status pr) = RunNone"
    and "\<not> bump (rt_transient rt) (run_key pr) < admissionTransientRetryBudget"
  shows "rn_phase (pr_status (stored_after pr (reconcileRun r env rt pr))) = RunFailedApplication \<and>
    rt_transient (o_retries (reconcileRun r env rt pr)) (run_key pr) = None"
proof -
  from outage_reconcile [OF assms(1,2), of r rt] obtain tr pr' m where
    "run_key pr' = run_key pr" "reconcileRun r env rt pr =
      requeueOnTransientAdmissionError env (clearNotFoundRetry rt (run_key pr)) tr pr' m" by blast
  with assms(1,3) show ?thesis
    by (simp add: requeueOnTransientAdmissionError_def noteTransientRetry_def clearNotFoundRetry_def
        clearTransientRetries_def Let_def stored_after_def updateStatus_def registry_outage_def)
qed

lemma outages_count:
  "\<forall>env \<in> set envs. registry_outage env pr p \<Longrightarrow> rn_phase (pr_status pr) = RunNone \<Longrightarrow>
     rt_transient rt (run_key pr) = (if n = 0 then None else Some n) \<Longrightarrow>
     n + length envs < admissionTransientRetryBudget \<Longrightarrow>
     fst (reconciles r envs (pr, rt)) = pr \<and>
     rt_transient (snd (reconciles r envs (pr, rt))) (run_key pr) =
       (if n + length envs = 0 then None else Some (n + length envs))"
proof (induction envs arbitrary: rt n)
  case (Cons env envs)
  have b: "bump (rt_transient rt) (run_key pr) = Suc n" using Cons.prems(3) by (simp add: bump_def)
  from Cons.prems b have "stored_after pr (reconcileRun r env rt pr) = pr \<and>
      rt_transient (o_retries (reconcileRun r env rt pr)) (run_key pr) = Some (Suc n)"
    using outage_below_budget [of env pr p rt r] by auto
  with Cons.IH [of "o_retries (reconcileRun r env rt pr)" "Suc n"] Cons.prems show ?case
    by (simp add: Let_def)
qed simp

lemma reconciles_append: "reconciles r (as @ bs) st = reconciles r bs (reconciles r as st)"
  by (induction as arbitrary: st) (auto simp: Let_def)

text \<open>C20. A registry that cannot be read never fails a run as a user error: up to four consecutive
  attempts leave the run as it was, and the fifth fails it as an application error and forgets the
  count.\<close>

theorem transient_errors_are_bounded:
  assumes "\<forall>env \<in> set envs. registry_outage env pr p" "rn_phase (pr_status pr) = RunNone"
    and "rt_transient rt (run_key pr) = None"
  shows "(length envs < 5 \<longrightarrow> fst (reconciles r envs (pr, rt)) = pr) \<and>
    (length envs = 5 \<longrightarrow>
       rn_phase (pr_status (fst (reconciles r envs (pr, rt)))) = RunFailedApplication \<and>
       rt_transient (snd (reconciles r envs (pr, rt))) (run_key pr) = None)"
proof (intro conjI impI)
  assume "length envs < 5"
  with outages_count [OF assms(1,2), of rt 0 r] assms(3) show "fst (reconciles r envs (pr, rt)) = pr"
    by (simp add: admissionTransientRetryBudget_def)
next
  assume 5: "length envs = 5"
  then obtain env4 env where e: "envs = env4 @ [env]" "length env4 = 4"
    by (cases envs rule: rev_cases) auto
  obtain pr4 rt4 where r4: "reconciles r env4 (pr, rt) = (pr4, rt4)" by force
  with outages_count [of env4 pr p rt 0 r] assms e have "pr4 = pr" "rt_transient rt4 (run_key pr) = Some 4"
    by (auto simp: admissionTransientRetryBudget_def)
  moreover from this have "\<not> bump (rt_transient rt4) (run_key pr) < admissionTransientRetryBudget"
    by (simp add: bump_def admissionTransientRetryBudget_def)
  ultimately show "rn_phase (pr_status (fst (reconciles r envs (pr, rt)))) = RunFailedApplication"
    "rt_transient (snd (reconciles r envs (pr, rt))) (run_key pr) = None"
    using outage_at_budget [of env pr p rt4 r] assms(1,2) e r4 by (auto simp: reconciles_append Let_def)
qed

definition outage_env :: run_env where
  "outage_env = demo_env\<lparr>en_getDefinition := (\<lambda>_ _. Inl (OtherError ''timeout''))\<rparr>"

lemma demo_snapshot_ok:
  "\<forall>tr pr'. snd (snapshotRunSecrets outage_env tr pr' demo_pipeline) = Inr []"
  by (simp add: outage_env_def demo_env_def snapshotRunSecrets_def demo_secrets runSecretsName_def
      ProjectSecretsName_def IsNotFound_def create_snapshot_def Let_def)

lemma outage_registry:
  "registry_at outage_env k c v = (None, [\<lparr>fd_path = ''component'',
     fd_message = ''component '' @ fmt_q c @ '': timeout'', fd_severity = severityTransient\<rparr>])"
  by (simp add: registry_at_def ComponentRegistry_Resolve_def outage_env_def IsNotFound_def)

lemma outage_validation:
  "firstTransientFinding (ValidateTyped no_lib (Some demo_pipeline) (Some (registry_at outage_env 0)) None) \<noteq> None"
  by (simp add: demo_pipeline_def two_stages_def bucket_component_def sample_pipeline_def sample_component_def
      sample_table_def pipeline_eval name_eval secret_eval outage_registry firstTransientFinding_def
      severityTransient_def joinKey_def Let_def)

lemma demo_outage: "registry_outage outage_env demo_run demo_pipeline"
proof -
  have "en_lib outage_env = no_lib" "\<forall>tr c. en_write outage_env tr c = None"
    "\<forall>tr. run_pipeline outage_env tr demo_run = Some demo_pipeline"
    by (simp_all add: outage_env_def demo_env_def run_pipeline_def demo_run_def)
  with outage_validation demo_snapshot_ok show ?thesis
    by (simp add: registry_outage_def) (simp add: demo_run_def)
qed

theorem transient_errors_are_bounded_witness:
  "fst (reconciles sample_operator (replicate 4 outage_env) (demo_run, no_retries)) = demo_run \<and>
   rn_phase (pr_status (fst (reconciles sample_operator (replicate 5 outage_env) (demo_run, no_retries)))) =
     RunFailedApplication"
proof -
  have o: "\<forall>env \<in> set (replicate n outage_env). registry_outage env demo_run demo_pipeline" for n
    using demo_outage by simp
  have s: "rn_phase (pr_status demo_run) = RunNone" "rt_transient no_retries (run_key demo_run) = None"
    by (simp_all add: demo_run_def empty_status_def no_retries_def)
  have "fst (reconciles sample_operator (replicate 4 outage_env) (demo_run, no_retries)) = demo_run"
    using transient_errors_are_bounded [OF o [of 4] s, of sample_operator] by (simp only: length_replicate)
  moreover have "rn_phase (pr_status (fst (reconciles sample_operator (replicate 5 outage_env)
      (demo_run, no_retries)))) = RunFailedApplication"
    using transient_errors_are_bounded [OF o [of 5] s, of sample_operator] by (simp only: length_replicate)
  ultimately show ?thesis by blast
qed

section \<open>A retried admission\<close>

text \<open>When status updates fail nothing is stored.\<close>

lemma updateStatus_lost: "\<forall>tr s. en_write env tr (UpdateStatus s) \<noteq> None \<Longrightarrow> o_stored (updateStatus env rt tr pr res) = None"
  by (auto simp: updateStatus_def Let_def split: option.split)

lemma handlePipeline_lost:
  assumes "\<forall>tr s. en_write env tr (UpdateStatus s) \<noteq> None"
  shows "o_stored (handlePipeline env rt tr pr p) = None"
proof -
  note u = updateStatus_lost [OF assms]
  have "o_stored (requeueOnTransientAdmissionError env rt tr pr m) = None" for rt tr pr m
    by (simp add: requeueOnTransientAdmissionError_def u split: prod.split)
  then have "o_stored (admitPipeline env rt tr pr p) = None" for rt tr pr
    by (simp add: admitPipeline_def u Let_def split: option.split sum.split prod.split)
  then show ?thesis by (simp add: handlePipeline_def u Let_def split: sum.split prod.split)
qed

lemma updateStatus_extends: "\<exists>new. o_calls (updateStatus env rt tr pr res) = tr @ new"
  by (simp add: updateStatus_def Let_def split: option.split)

lemma admitPipeline_extends: "\<exists>new. o_calls (admitPipeline env rt tr pr p) = tr @ new"
proof -
  have "\<exists>new. o_calls (requeueOnTransientAdmissionError env rt tr pr m) = tr @ new" for rt pr m
    by (simp add: requeueOnTransientAdmissionError_def updateStatus_extends return_with_def split: prod.split)
  then show ?thesis
    by (simp add: admitPipeline_def updateStatus_extends Let_def split: option.split sum.split prod.split)
qed

text \<open>A first attempt whose status update fails, and a second one after which the key is gone from the
  project Secret while the snapshot of the first attempt exists.\<close>

definition lost_update_env :: run_env where
  "lost_update_env = demo_env\<lparr>en_write := (\<lambda>_ c. case c of UpdateStatus _ \<Rightarrow> Some (OtherError ''conflict'') | _ \<Rightarrow> None)\<rparr>"

definition after_rotation_env :: run_env where
  "after_rotation_env = demo_env\<lparr>en_uuid := ''ffffffffffff'',
     en_getSecret := (\<lambda>_ _ name. if name = ''datuplet-runsecrets-01234567'' then Inr [(''db'', ''pw'')]
        else if name = ProjectSecretsName then Inr [] else Inl (NotFound []))\<rparr>"

text \<open>When the run id is generated (no \<open>spec.runId\<close>), a retried admission looks for its snapshot
  under a new name: a run whose snapshot was created, but whose status update was lost, is failed as a
  user error if the key has left the project Secret in between.\<close>

theorem generated_run_id_loses_snapshot:
  "o_stored (reconcileRun sample_operator lost_update_env no_retries demo_run) = None \<and>
   (\<exists>sec. CreateSecret sec \<in> set (o_calls (reconcileRun sample_operator lost_update_env no_retries demo_run)) \<and>
      sec_name sec = ''datuplet-runsecrets-01234567'' \<and> sec_data sec = [(''db'', ''pw'')]) \<and>
   rn_phase (pr_status (fst (reconciles sample_operator [lost_update_env, after_rotation_env]
      (demo_run, no_retries)))) = RunFailedUser"
proof -
  let ?out = "reconcileRun sample_operator lost_update_env no_retries demo_run"
  let ?pr = "map_status (\<lambda>s. s\<lparr>rn_observedGeneration := 1\<rparr>) demo_run"
  let ?pr1 = "map_status (\<lambda>s. s\<lparr>rn_runID := ''0123456789ab''\<rparr>) ?pr"
  let ?sec = "snapshot_secret ?pr1 [(''db'', ''pw'')]"
  have out: "?out = handlePipeline lost_update_env no_retries [GetPipeline ''proj'' ''demo''] ?pr demo_pipeline"
    by (simp add: reconcileRun_def handlePending_def demo_run_def empty_status_def has_cancel_def
        map_status_def lost_update_env_def demo_env_def Let_def)
  have lost: "\<forall>tr s. en_write lost_update_env tr (UpdateStatus s) \<noteq> None"
    by (simp add: lost_update_env_def)
  then have stored: "o_stored ?out = None" unfolding out by (rule handlePipeline_lost)
  have snap: "snapshotRunSecrets lost_update_env tr pr demo_pipeline =
      (tr @ [GetSecret (pr_namespace pr) (runSecretsName pr), GetSecret (pr_namespace pr) ProjectSecretsName,
        CreateSecret (snapshot_secret pr [(''db'', ''pw'')])], Inr [])" for tr pr
    by (simp add: snapshotRunSecrets_def demo_secrets lost_update_env_def demo_env_def
        IsNotFound_def create_snapshot_def Let_def)
  have id: "rs_runID (pr_spec demo_run) = []" "en_uuid lost_update_env = ''0123456789ab''"
    by (simp_all add: demo_run_def lost_update_env_def demo_env_def)
  have "?out = admitPipeline lost_update_env (clearNotFoundRetry no_retries (run_key demo_run))
      [GetPipeline ''proj'' ''demo'', GetSecret (pr_namespace demo_run) (runSecretsName ?pr1),
       GetSecret (pr_namespace demo_run) ProjectSecretsName, CreateSecret ?sec] ?pr1 demo_pipeline"
    unfolding out by (simp add: handlePipeline_def snap id Let_def)
  moreover obtain new where "o_calls (admitPipeline lost_update_env (clearNotFoundRetry no_retries (run_key demo_run))
      [GetPipeline ''proj'' ''demo'', GetSecret (pr_namespace demo_run) (runSecretsName ?pr1),
       GetSecret (pr_namespace demo_run) ProjectSecretsName, CreateSecret ?sec] ?pr1 demo_pipeline) =
      [GetPipeline ''proj'' ''demo'', GetSecret (pr_namespace demo_run) (runSecretsName ?pr1),
       GetSecret (pr_namespace demo_run) ProjectSecretsName, CreateSecret ?sec] @ new"
    using admitPipeline_extends by blast
  ultimately have call: "CreateSecret ?sec \<in> set (o_calls ?out)" by simp
  have sec: "sec_name ?sec = ''datuplet-runsecrets-01234567''" "sec_data ?sec = [(''db'', ''pw'')]"
    by (simp_all add: snapshot_secret_def runSecretsName_def shortID_def)
  have second: "rn_phase (pr_status (stored_after demo_run
      (reconcileRun sample_operator after_rotation_env rt demo_run))) = RunFailedUser" for rt
    by (simp add: reconcileRun_def handlePending_def demo_run_def empty_status_def has_cancel_def
        map_status_def after_rotation_env_def demo_env_def Let_def handlePipeline_def snapshotRunSecrets_def
        demo_secrets runSecretsName_def shortID_def ProjectSecretsName_def IsNotFound_def updateStatus_def
        fail_missing_secrets_def stored_after_def fail_with_def)
  have "stored_after demo_run ?out = demo_run" using stored by (simp add: stored_after_def)
  then have "rn_phase (pr_status (fst (reconciles sample_operator [lost_update_env, after_rotation_env]
      (demo_run, no_retries)))) = RunFailedUser"
    using second [of "o_retries ?out"] by (simp add: Let_def)
  with stored call sec show ?thesis by blast
qed

end
