(* ===== verification/Run_Stages.thy ===== *)
theory Run_Stages
  imports Run_Admission
begin

text \<open>
  The outcome of a stage and the identity of the Jobs behind it: how a stage is classified from the
  phases of its components, which failure its message reports, and that the Job a component is polled
  by is the Job that was built for it.
\<close>

section \<open>Classification of a stage\<close>

definition failed_phase :: "component_phase \<Rightarrow> bool" where
  "failed_phase ph \<longleftrightarrow> ph = CompFailedUser \<or> ph = CompFailedApplication"

definition last_failed :: "component_status list \<Rightarrow> component_status option" where
  "last_failed cts =
     (case filter (\<lambda>ct. failed_phase (ct_phase ct)) cts of [] \<Rightarrow> None | xs \<Rightarrow> Some (last xs))"

text \<open>The specification: any user failure makes the stage a user failure, else any application
  failure an application failure; a stage succeeds once all its components had succeeded before.\<close>

definition stage_outcome :: "component_status list \<Rightarrow> component_status list \<Rightarrow> stage_phase" where
  "stage_outcome before after =
     (if \<exists>ct \<in> set after. ct_phase ct = CompFailedUser then StageFailedUser
      else if \<exists>ct \<in> set after. ct_phase ct = CompFailedApplication then StageFailedApplication
      else if \<forall>ct \<in> set before. ct_phase ct = CompSucceeded then StageSucceeded
      else StageRunning)"

definition job_failed_cond :: "job_condition \<Rightarrow> bool" where
  "job_failed_cond c \<longleftrightarrow> jc_type c = JobFailed \<and> jc_true c"

definition job_complete_cond :: "job_condition \<Rightarrow> bool" where
  "job_complete_cond c \<longleftrightarrow> jc_type c = JobComplete \<and> jc_true c"

text \<open>A Job is never both complete and failed.\<close>

definition exclusive_jobs :: "run_env \<Rightarrow> bool" where
  "exclusive_jobs env \<longleftrightarrow>
     (\<forall>tr ns j conds. en_getJob env tr ns j = Inr conds \<longrightarrow>
        \<not> (list_ex job_complete_cond conds \<and> list_ex job_failed_cond conds))"

text \<open>The flags of a poll summarise, on top of those of \<open>po0\<close>, the failure of one component.\<close>

definition poll_summary :: "poll \<Rightarrow> component_status \<times> poll \<Rightarrow> bool" where
  "poll_summary po0 st \<longleftrightarrow>
     (case st of (ct, po) \<Rightarrow>
        po_anyFailedUser po = (po_anyFailedUser po0 \<or> ct_phase ct = CompFailedUser) \<and>
        po_anyFailedApp po = (po_anyFailedApp po0 \<or> ct_phase ct = CompFailedApplication) \<and>
        (if failed_phase (ct_phase ct)
         then po_failedComponent po = ct_name ct \<and> po_failedMessage po = ct_message ct
         else po_failedComponent po = po_failedComponent po0 \<and> po_failedMessage po = po_failedMessage po0))"

lemma completed_summary:
  "\<not> failed_phase (ct_phase ct) \<Longrightarrow> poll_summary po0 (ct, po) \<Longrightarrow>
     poll_summary po0 (job_completed env ns j (ct, po)) \<and>
     \<not> failed_phase (ct_phase (fst (job_completed env ns j (ct, po))))"
  by (auto simp: job_completed_def poll_summary_def failed_phase_def split: prod.split)

definition failure_phase :: "int option \<Rightarrow> component_phase" where
  "failure_phase code =
     (case code of None \<Rightarrow> CompFailedApplication
      | Some c \<Rightarrow> if ClassifyExitCode c = FailureTypeUser then CompFailedUser else CompFailedApplication)"

lemma failed_summary:
  "failed_phase (ct_phase ct) \<longrightarrow> ct_phase ct = failure_phase code \<Longrightarrow> poll_summary po0 (ct, po) \<Longrightarrow>
     poll_summary po0 (job_failed env ns j code msg (ct, po)) \<and>
     ct_phase (fst (job_failed env ns j code msg (ct, po))) = failure_phase code"
  by (auto simp: job_failed_def poll_summary_def failed_phase_def failure_phase_def note_failure_def Let_def
      split: prod.split option.split)

lemma apply_conditions_summary_ok:
  "\<not> list_ex job_failed_cond conds \<Longrightarrow> \<not> failed_phase (ct_phase (fst st)) \<Longrightarrow> poll_summary po0 st \<Longrightarrow>
     poll_summary po0 (apply_conditions env ns j code conds st)"
proof (induction conds arbitrary: st)
  case (Cons c conds)
  obtain ct po where st: "st = (ct, po)" by force
  show ?case
  proof (cases "job_complete_cond c")
    case True
    with completed_summary [of ct po0 po env ns j] Cons st show ?thesis
      by (auto simp: job_complete_cond_def)
  next
    case False
    with Cons show ?thesis by (auto simp: job_complete_cond_def job_failed_cond_def)
  qed
qed simp

lemma apply_conditions_summary_failed:
  "\<not> list_ex job_complete_cond conds \<Longrightarrow> failed_phase (ct_phase (fst st)) \<longrightarrow> ct_phase (fst st) = failure_phase code \<Longrightarrow>
     poll_summary po0 st \<Longrightarrow> poll_summary po0 (apply_conditions env ns j code conds st)"
proof (induction conds arbitrary: st)
  case (Cons c conds)
  obtain ct po where st: "st = (ct, po)" by force
  show ?case
  proof (cases "job_failed_cond c")
    case True
    with failed_summary [of ct code po0 po env ns j "jc_message c"] Cons st show ?thesis
      by (auto simp: job_failed_cond_def)
  next
    case False
    with Cons show ?thesis by (auto simp: job_complete_cond_def job_failed_cond_def)
  qed
qed simp

lemma poll_component_summary:
  assumes "exclusive_jobs env" "poll_component env pr stn ct po = Inr (ct', po')"
  shows "poll_summary po (ct', po') \<and>
    po_allSucceeded po' = (po_allSucceeded po \<and> componentTerminal (ct_phase ct))"
proof (cases "componentTerminal (ct_phase ct)")
  case True
  with assms(2) show ?thesis
    by (auto simp: poll_component_def componentTerminal_def poll_summary_def note_failure_def failed_phase_def
        split: if_splits)
next
  case False
  let ?ns = "pr_namespace pr" and ?j = "componentJobName pr stn (ct_name ct)"
  let ?po1 = "po\<lparr>po_allSucceeded := False, po_calls := po_calls po @ [GetJob ?ns ?j]\<rparr>"
  have nf: "\<not> failed_phase (ct_phase ct)" using False by (auto simp: componentTerminal_def failed_phase_def)
  then have base: "poll_summary po (ct, po2)"
    if "po_anyFailedUser po2 = po_anyFailedUser po" "po_anyFailedApp po2 = po_anyFailedApp po"
      "po_failedComponent po2 = po_failedComponent po" "po_failedMessage po2 = po_failedMessage po" for po2
    using that by (auto simp: poll_summary_def failed_phase_def)
  show ?thesis
  proof (cases "en_getJob env (po_calls po) ?ns ?j")
    case (Inl e)
    with False assms(2) base [of ?po1] show ?thesis
      by (auto simp: poll_component_def componentTerminal_def Let_def split: if_splits)
  next
    case (Inr conds)
    with False assms(2) obtain tr img code where
      r: "apply_conditions env ?ns ?j code conds
         (ct, ?po1\<lparr>po_calls := tr, po_resolved := recordComponentImageID (ct_name ct) img (po_resolved po)\<rparr>) = (ct', po')"
      by (auto simp: poll_component_def componentTerminal_def Let_def split: prod.splits)
    let ?st = "(ct, ?po1\<lparr>po_calls := tr, po_resolved := recordComponentImageID (ct_name ct) img (po_resolved po)\<rparr>)"
    have s0: "poll_summary po ?st" by (rule base) simp_all
    from assms(1) Inr have "\<not> list_ex job_failed_cond conds \<or> \<not> list_ex job_complete_cond conds"
      by (auto simp: exclusive_jobs_def)
    then have "poll_summary po (ct', po')"
      using apply_conditions_summary_ok [OF _ _ s0] apply_conditions_summary_failed [OF _ _ s0] nf r
      by (metis fst_conv)
    moreover have "po_allSucceeded po' = False"
      using apply_conditions_keeps [of ?st env ?ns ?j code conds] r by (simp add: poll_keeps_def)
    ultimately show ?thesis using False by simp
  qed
qed

text \<open>The flags after the whole loop.\<close>

definition loop_summary :: "poll \<Rightarrow> component_status list \<Rightarrow> component_status list \<Rightarrow> poll \<Rightarrow> bool" where
  "loop_summary po0 before new po \<longleftrightarrow>
     po_anyFailedUser po = (po_anyFailedUser po0 \<or> (\<exists>ct \<in> set new. ct_phase ct = CompFailedUser)) \<and>
     po_anyFailedApp po = (po_anyFailedApp po0 \<or> (\<exists>ct \<in> set new. ct_phase ct = CompFailedApplication)) \<and>
     po_allSucceeded po = (po_allSucceeded po0 \<and> (\<forall>ct \<in> set before. componentTerminal (ct_phase ct))) \<and>
     (case last_failed new of
        None \<Rightarrow> po_failedComponent po = po_failedComponent po0 \<and> po_failedMessage po = po_failedMessage po0
      | Some ct \<Rightarrow> po_failedComponent po = ct_name ct \<and> po_failedMessage po = ct_message ct)"

lemma last_failed_Cons:
  "last_failed (ct # cts) =
     (case last_failed cts of Some x \<Rightarrow> Some x
      | None \<Rightarrow> if failed_phase (ct_phase ct) then Some ct else None)"
  by (auto simp: last_failed_def split: list.split)

lemma last_failed_None: "last_failed cts = None \<longleftrightarrow> (\<forall>ct \<in> set cts. \<not> failed_phase (ct_phase ct))"
  by (induction cts) (auto simp: last_failed_Cons last_failed_def split: option.split)

lemma poll_components_summary:
  assumes "exclusive_jobs env"
  shows "poll_components env pr stn cs cts po acc = Polled res po' \<Longrightarrow> length cts = length cs \<Longrightarrow>
    \<exists>new. res = acc @ new \<and> loop_summary po cts new po' \<and>
      list_all2 (\<lambda>ct ct'. componentTerminal (ct_phase ct) \<longrightarrow> ct' = ct) cts new"
proof (induction cs arbitrary: cts po acc)
  case Nil
  then show ?case by (auto simp: loop_summary_def last_failed_def)
next
  case (Cons c cs)
  then obtain ct cts1 where cts: "cts = ct # cts1" by (cases cts) auto
  with Cons.prems obtain ct' po1 where one: "poll_component env pr stn ct po = Inr (ct', po1)"
    and rest: "poll_components env pr stn cs cts1 po1 (acc @ [ct']) = Polled res po'"
    by (auto split: sum.splits prod.splits)
  from Cons.prems cts have "length cts1 = length cs" by simp
  from Cons.IH [OF rest this] obtain new where new: "res = (acc @ [ct']) @ new" "loop_summary po1 cts1 new po'"
    "list_all2 (\<lambda>ct ct'. componentTerminal (ct_phase ct) \<longrightarrow> ct' = ct) cts1 new" by blast
  note s = poll_component_summary [OF assms one]
  have "loop_summary po cts (ct' # new) po'"
    using new(2) s cts
    by (auto simp: loop_summary_def poll_summary_def last_failed_Cons split: option.splits if_splits)
  moreover have "componentTerminal (ct_phase ct) \<longrightarrow> ct' = ct"
    using one by (auto simp: poll_component_def componentTerminal_def split: if_splits)
  ultimately show ?case using new cts by (intro exI [of _ "ct' # new"]) simp
qed

definition failure_message :: "component_status \<Rightarrow> string" where
  "failure_message ct = ''Component '' @ [CHR 0x27] @ ct_name ct @ [CHR 0x27] @ '' failed: '' @ ct_message ct"

text \<open>The outcome of polling a running stage, when a Job is never both complete and failed: a user
  failure of any component makes the stage a user failure, otherwise an application failure of any
  makes it one, it succeeds once every component had succeeded before, and else keeps running. A
  failed stage's message is that of the last failed component in the order of the spec.\<close>

theorem stage_is_classified:
  assumes "exclusive_jobs env" "i < length (rn_stages (pr_status pr))"
    and "ss_phase (rn_stages (pr_status pr) ! i) = StageRunning"
    and "length (ss_components (rn_stages (pr_status pr) ! i)) = length (st_components (ps_stages spec ! i))"
    and "o_stored (checkStageComponents env rt tr pr spec i) = Some s"
  shows "ss_phase (rn_stages s ! i) =
      stage_outcome (ss_components (rn_stages (pr_status pr) ! i)) (ss_components (rn_stages s ! i)) \<and>
    (case last_failed (ss_components (rn_stages s ! i)) of
       None \<Rightarrow> True | Some ct \<Rightarrow> ss_message (rn_stages s ! i) = failure_message ct)"
proof -
  let ?ss = "rn_stages (pr_status pr) ! i" and ?stage = "ps_stages spec ! i"
  from assms(5) obtain cts po where p: "poll_components env pr (st_name ?stage) (st_components ?stage)
      (ss_components ?ss) (initial_poll tr pr) [] = Polled cts po"
    by (auto simp: checkStageComponents_def Let_def split: poll_result.splits)
  from poll_components_summary [OF assms(1) p assms(4)] have
    l: "loop_summary (initial_poll tr pr) (ss_components ?ss) cts po"
    and same: "list_all2 (\<lambda>ct ct'. componentTerminal (ct_phase ct) \<longrightarrow> ct' = ct) (ss_components ?ss) cts" by auto
  have user: "po_anyFailedUser po = (\<exists>ct \<in> set cts. ct_phase ct = CompFailedUser)"
    and app: "po_anyFailedApp po = (\<exists>ct \<in> set cts. ct_phase ct = CompFailedApplication)"
    and all: "po_allSucceeded po = (\<forall>ct \<in> set (ss_components ?ss). componentTerminal (ct_phase ct))"
    using l by (simp_all add: loop_summary_def initial_poll_def)
  have all2: "po_allSucceeded po = (\<forall>ct \<in> set (ss_components ?ss). ct_phase ct = CompSucceeded)"
    if "\<not> po_anyFailedUser po" "\<not> po_anyFailedApp po"
  proof
    assume "po_allSucceeded po"
    with all have t: "\<forall>ct \<in> set (ss_components ?ss). componentTerminal (ct_phase ct)" by simp
    with same have "cts = ss_components ?ss"
      by (auto simp: list_all2_conv_all_nth intro!: nth_equalityI)
    with t user app that show "\<forall>ct \<in> set (ss_components ?ss). ct_phase ct = CompSucceeded"
      by (auto simp: componentTerminal_def)
  qed (use all in \<open>auto simp: componentTerminal_def\<close>)
  have msg: "case last_failed cts of None \<Rightarrow> True
      | Some ct \<Rightarrow> po_failedComponent po = ct_name ct \<and> po_failedMessage po = ct_message ct"
    using l by (auto simp: loop_summary_def split: option.splits)
  have some: "last_failed cts = None \<longleftrightarrow> \<not> po_anyFailedUser po \<and> \<not> po_anyFailedApp po"
    by (auto simp: user app last_failed_None failed_phase_def)
  note check = assms(5) [unfolded checkStageComponents_def Let_def p poll_result.case]
  show ?thesis
  proof (cases "po_anyFailedUser po \<or> po_anyFailedApp po")
    case True
    with check assms(2) have "rn_stages s ! i = failed_stage_status (en_now env) po (?ss\<lparr>ss_components := cts\<rparr>)"
      by (auto simp: polled_run_def)
    with True msg some user app show ?thesis
      by (auto simp: failed_stage_status_def stage_outcome_def failure_message_def split: option.splits)
  next
    case False
    with check assms(2,3) all2 have "ss_components (rn_stages s ! i) = cts" "ss_phase (rn_stages s ! i) =
        (if \<forall>ct \<in> set (ss_components ?ss). ct_phase ct = CompSucceeded then StageSucceeded else StageRunning)"
      by (auto simp: polled_run_def split: if_splits)
    with False user app some show ?thesis by (simp add: stage_outcome_def)
  qed
qed

text \<open>A stage with a user failure in its first and an application failure in its second component.\<close>

definition failed_component :: "string \<Rightarrow> component_phase \<Rightarrow> string \<Rightarrow> component_status" where
  "failed_component name ph msg = \<lparr>ct_name = name, ct_phase = ph, ct_exitCode = None, ct_podName = [],
     ct_startTime = None, ct_completionTime = None, ct_message = msg\<rparr>"

definition mixed_run :: pipelinerun where
  "mixed_run = sample_run\<lparr>pr_status := (pr_status sample_run)\<lparr>rn_stages :=
     [\<lparr>ss_name = ''load'', ss_phase = StageRunning,
       ss_components = [failed_component ''a'' CompFailedUser ''bad sql'',
         failed_component ''b'' CompFailedApplication ''oom''],
       ss_startTime = None, ss_completionTime = None, ss_message = []\<rparr>]\<rparr>\<rparr>"

definition mixed_spec :: pipeline_spec where
  "mixed_spec = (p_spec sample_pipeline)\<lparr>ps_stages := [\<lparr>st_name = ''load'',
     st_components = [bucket_component ''a'' [] ''mid'', bucket_component ''b'' [] ''out'']\<rparr>]\<rparr>"

theorem stage_is_classified_witness:
  "\<exists>s. o_stored (checkStageComponents demo_env no_retries [] mixed_run mixed_spec 0) = Some s \<and>
     ss_phase (rn_stages s ! 0) = StageFailedUser \<and>
     ss_message (rn_stages s ! 0) = ''Component '' @ [CHR 0x27] @ ''b'' @ [CHR 0x27] @ '' failed: oom''"
proof -
  let ?cts = "[failed_component ''a'' CompFailedUser ''bad sql'', failed_component ''b'' CompFailedApplication ''oom'']"
  have x: "exclusive_jobs demo_env"
    by (simp add: exclusive_jobs_def demo_env_def job_failed_cond_def)
  obtain s where s: "o_stored (checkStageComponents demo_env no_retries [] mixed_run mixed_spec 0) = Some s"
    and c: "ss_components (rn_stages s ! 0) = ?cts"
    by (simp add: checkStageComponents_def mixed_run_def mixed_spec_def failed_component_def sample_run_def
        poll_component_def note_failure_def initial_poll_def Let_def polled_run_def demo_env_def
        failed_stage_status_def)
  have "ss_phase (rn_stages s ! 0) = stage_outcome (ss_components (rn_stages (pr_status mixed_run) ! 0)) ?cts \<and>
    (case last_failed ?cts of None \<Rightarrow> True | Some ct \<Rightarrow> ss_message (rn_stages s ! 0) = failure_message ct)"
    using stage_is_classified [OF x _ _ _ s] c by (simp add: mixed_run_def mixed_spec_def)
  with s show ?thesis
    by (simp add: stage_outcome_def failed_component_def last_failed_def failed_phase_def failure_message_def)
qed

section \<open>The Job that is polled\<close>

lemma distinct_stage_unique:
  "distinct (map cs_name (concat (map st_components stages))) \<Longrightarrow> stage \<in> set stages \<Longrightarrow>
     c \<in> set (st_components stage) \<Longrightarrow> stage' \<in> set stages \<Longrightarrow> holds_component (cs_name c) stage' \<Longrightarrow>
     stage' = stage"
proof (induction stages)
  case (Cons s stages)
  have disj: "cs_name a \<noteq> cs_name b" if "a \<in> set (st_components s)" "st \<in> set stages" "b \<in> set (st_components st)"
    for a b st using Cons.prems(1) that by auto
  from Cons.prems obtain d where d: "d \<in> set (st_components stage')" "cs_name d = cs_name c"
    by (auto simp: holds_component_def)
  show ?case
  proof (cases "stage = s")
    case True
    with Cons.prems disj [of c stage' d] d show ?thesis by auto
  next
    case False
    with Cons.prems disj [of d stage c] d show ?thesis using Cons.IH by auto
  qed
qed simp

text \<open>In a spec with unique component names the Job built for a component has the name under
  which the component's stage polls (and deletes) it.\<close>

theorem built_job_is_polled_job:
  assumes "distinct (map cs_name (concat (map st_components (ps_stages spec))))"
    and "stage \<in> set (ps_stages spec)" "c \<in> set (st_components stage)"
    and "buildComponentJob pd yaml now r pr spec c = Inr (job, cm)"
  shows "job_name job = componentJobName pr (st_name stage) (cs_name c) \<and> job_namespace job = pr_namespace pr"
proof -
  let ?f = "filter (holds_component (cs_name c)) (ps_stages spec)"
  have ne: "?f \<noteq> []" using assms(2,3) by (auto simp: filter_empty_conv holds_component_def)
  then have "last ?f \<in> set ?f" by (rule last_in_set)
  then have "last ?f = stage" using distinct_stage_unique [OF assms(1-3), of "last ?f"] by auto
  with ne have "last_stage_with (cs_name c) (ps_stages spec) None = Some stage"
    by (simp add: last_stage_with_eq)
  with assms(4) show ?thesis
    by (auto simp: buildComponentJob_def Let_def split: option.splits sum.splits)
qed

theorem built_job_is_polled_job_witness:
  "\<exists>job cm. buildComponentJob (\<lambda>_. Inl []) (\<lambda>_. Some ''y'') 0 sample_operator sample_run
      (p_spec sample_pipeline) sample_component = Inr (job, cm) \<and>
    job_name job = componentJobName sample_run ''extract'' ''gen''"
proof -
  obtain job cm where b: "buildComponentJob (\<lambda>_. Inl []) (\<lambda>_. Some ''y'') 0 sample_operator sample_run
      (p_spec sample_pipeline) sample_component = Inr (job, cm)"
    using sample_job by blast
  let ?stage = "\<lparr>st_name = ''extract'', st_components = [sample_component]\<rparr>"
  have "distinct (map cs_name (concat (map st_components (ps_stages (p_spec sample_pipeline)))))"
    "?stage \<in> set (ps_stages (p_spec sample_pipeline))" "sample_component \<in> set (st_components ?stage)"
    by (simp_all add: sample_pipeline_def)
  from built_job_is_polled_job [OF this b] b show ?thesis by (simp add: sample_component_def)
qed

end
