(* ===== verification/Run_Secrets.thy ===== *)
theory Run_Secrets
  imports Run_Stages
begin

text \<open>
  Secrets from admission to the gateway: the snapshot that admission creates holds what the gateway
  needs to resolve every component's configuration from the mounted files.
\<close>

section \<open>The calls of an admission\<close>

lemma create_snapshot_extends: "\<exists>new. fst (create_snapshot env tr pr data) = tr @ new"
  by (auto simp: create_snapshot_def Let_def split: option.split)

lemma snapshot_extends: "\<exists>new. fst (snapshotRunSecrets env tr pr p) = tr @ new"
proof -
  have "\<exists>new. fst (create_snapshot env (tr @ [a, b]) pr d) = tr @ new" for a b d
    using create_snapshot_extends [of env "tr @ [a, b]" pr d] by auto
  then show ?thesis
    by (auto simp: snapshotRunSecrets_def Let_def split: sum.split prod.split)
qed

lemma admitPipeline_calls:
  assumes "o_stored (admitPipeline env rt tr pr p) = Some s"
  shows "o_calls (admitPipeline env rt tr pr p) = tr @ [UpdateStatus s]"
proof -
  have u: "o_calls (updateStatus env rt tr pr res) = tr @ [UpdateStatus s]"
    if "o_stored (updateStatus env rt tr pr res) = Some s" for rt pr res
    using that by (auto simp: updateStatus_def Let_def split: option.splits)
  have "o_calls (requeueOnTransientAdmissionError env rt tr pr m) = tr @ [UpdateStatus s]"
    if "o_stored (requeueOnTransientAdmissionError env rt tr pr m) = Some s" for rt pr m
    using that u by (auto simp: requeueOnTransientAdmissionError_def split: prod.splits if_splits)
  with assms u show ?thesis
    by (auto simp del: updateStatus_stored simp: admitPipeline_def Let_def
        split: option.splits sum.splits prod.splits)
qed

text \<open>A reconcile that admits a run makes the cancel and pipeline calls, those of the snapshot, and
  one status update.\<close>

definition no_create :: "call \<Rightarrow> bool" where
  "no_create c = (case c of CreateSecret _ \<Rightarrow> False | _ \<Rightarrow> True)"

lemma admission_calls:
  assumes "rn_phase (pr_status pr) = RunNone" "o_stored (reconcileRun r env rt pr) = Some s"
    and "rn_phase s = RunRunning"
  shows "\<exists>p tr tr0 pr1 new. run_pipeline env tr0 pr = Some p \<and>
    admissible (ValidateTyped (en_lib env) (Some p) (Some (registry_at env 0)) None) \<and>
    (\<exists>stages rcs nts. freeze_stages (registry_at env) 1 (ps_stages (p_spec p)) = Inr (stages, rcs, nts) \<and>
       rn_resolvedSpec s = Some ((p_spec p)\<lparr>ps_stages := stages\<rparr>)) \<and>
    snapshotRunSecrets env tr pr1 p = (tr @ new, Inr []) \<and> list_all no_create tr \<and>
    o_calls (reconcileRun r env rt pr) = tr @ new @ [UpdateStatus s] \<and> rn_runID (pr_status pr1) = rn_runID s"
proof -
  let ?pr = "map_status (\<lambda>s. s\<lparr>rn_observedGeneration := pr_generation pr\<rparr>) pr"
  define tr0 where "tr0 = (if has_cancel (pr_annotations ?pr) then propagateCancelToPods env [] ?pr else [])"
  have r: "reconcileRun r env rt pr = handlePending env rt tr0 ?pr"
    using assms(1) by (simp add: reconcileRun_def Let_def tr0_def)
  have "list_all cancel_call tr0"
    using propagateCancel_calls [of "[]"] by (simp add: tr0_def)
  then have nc0: "list_all no_create tr0" by (auto simp: list_all_iff cancel_call_def no_create_def split: call.splits)
  from handlePending_running [of env rt tr0 ?pr s] assms(2,3) r obtain p where
    p: "run_pipeline env tr0 ?pr = Some p" by auto
  have ref: "rs_pipelineSpec (pr_spec ?pr) = None \<longrightarrow> rs_pipelineRef (pr_spec ?pr) \<noteq> []"
  proof (rule ccontr)
    assume "\<not> ?thesis"
    with assms(2,3) r show False by (auto simp: handlePending_def Let_def)
  qed
  obtain tr where h: "handlePending env rt tr0 ?pr = handlePipeline env rt tr ?pr p" and nc: "list_all no_create tr"
  proof (cases "rs_pipelineSpec (pr_spec pr)")
    case None
    with p ref that [of "tr0 @ [GetPipeline (pr_namespace pr) (rs_pipelineRef (pr_spec pr))]"] nc0
    show ?thesis by (auto simp: handlePending_def run_pipeline_def Let_def no_create_def split: sum.splits)
  next
    case (Some sp)
    with p that [of tr0] nc0 show ?thesis by (simp add: handlePending_def run_pipeline_def)
  qed
  have st: "o_stored (handlePipeline env rt tr ?pr p) = Some s" using assms(2) r h by simp
  from handlePipeline_running [OF this assms(3)] obtain rt' tr' pr' where
    eq: "handlePipeline env rt tr ?pr p = admitPipeline env rt' tr' pr' p"
    and sn: "snapshotRunSecrets env tr pr' p = (tr', Inr [])"
    and pr': "pr' = map_status (\<lambda>st. st\<lparr>rn_runID := rn_runID s\<rparr>) ?pr" by blast
  have a: "o_stored (admitPipeline env rt' tr' pr' p) = Some s" using st eq by simp
  obtain new where new: "tr' = tr @ new" using snapshot_extends [of env tr pr' p] sn by auto
  have "o_calls (handlePipeline env rt tr ?pr p) = tr' @ [UpdateStatus s]"
    unfolding eq by (rule admitPipeline_calls [OF a])
  with r h a new sn nc p pr' admitPipeline_running [OF a assms(3)] show ?thesis
    by (intro exI [of _ p] exI [of _ tr] exI [of _ tr0] exI [of _ pr'] exI [of _ new]) auto
qed

section \<open>Resolution in the gateway\<close>

lemma frozen_origin:
  assumes "list_all2 (frozen_stage env) stages stages'" "c' \<in> set (concat (map st_components stages'))"
  shows "\<exists>c \<in> set (concat (map st_components stages)). frozen_component env c c'"
proof -
  from assms(2) obtain st' where st': "st' \<in> set stages'" "c' \<in> set (st_components st')" by auto
  from list_all2_right [OF assms(1) st'(1)] obtain st where st: "st \<in> set stages" "frozen_stage env st st'" by blast
  then have "list_all2 (frozen_component env) (st_components st) (st_components st')"
    by (simp add: frozen_stage_def)
  from list_all2_right [OF this st'(2)] obtain c where "c \<in> set (st_components st)" "frozen_component env c c'"
    by blast
  with st show ?thesis by auto
qed

lemma frozen_ConfigMap: "frozen_component env c c' \<Longrightarrow> ConfigMap c' = ConfigMap c"
  by (auto simp: frozen_component_def ConfigMap_def split: option.split sum.split)

lemma create_snapshot_name:
  "create_snapshot env tr pr data = (tr @ new, res) \<Longrightarrow> CreateSecret sec \<in> set new \<Longrightarrow>
     sec_name sec = runSecretsName pr"
  by (auto simp: create_snapshot_def Let_def snapshot_secret_def split: option.splits if_splits)

lemma snapshot_name:
  "snapshotRunSecrets env tr pr p = (tr @ new, res) \<Longrightarrow> CreateSecret sec \<in> set new \<Longrightarrow>
     sec_name sec = runSecretsName pr"
  by (auto simp: snapshotRunSecrets_def Let_def split: sum.splits if_splits prod.splits
      dest!: create_snapshot_calls simp: snapshot_secret_def)

text \<open>C2. End to end: when the reconcile that starts a run creates its snapshot, the gateway, reading
  that snapshot from the mounted directory, resolves the configuration of every component of the
  frozen spec; the snapshot has the name under which the run's Jobs mount it.\<close>

theorem admitted_secrets_resolve:
  assumes "rn_phase (pr_status pr) = RunNone" "o_stored (reconcileRun r env rt pr) = Some s"
    and "rn_phase s = RunRunning" "CreateSecret sec \<in> set (o_calls (reconcileRun r env rt pr))"
    and "rn_resolvedSpec s = Some spec" "c \<in> set (concat (map st_components (ps_stages spec)))"
    and "ConfigMap c = Inr (Some cfg)" "plain_json (JObj cfg)"
    and "mounts secretsMountPath = Some (map_of (sec_data sec))"
  shows "Resolve (JObj cfg) (FileProvider_Get (projected_files mounts) secretsMountPath) =
      Inr (map_leaves (leaf_value (FileProvider_Get (projected_files mounts) secretsMountPath)) (JObj cfg),
           sorted_refs (JObj cfg)) \<and>
    sec_name sec = runSecretsName (pr\<lparr>pr_status := s\<rparr>)"
proof -
  from admission_calls [OF assms(1-3)] obtain p tr pr1 new stages rcs nts where
    adm: "admissible (ValidateTyped (en_lib env) (Some p) (Some (registry_at env 0)) None)"
    and fr: "freeze_stages (registry_at env) 1 (ps_stages (p_spec p)) = Inr (stages, rcs, nts)"
    and sp: "rn_resolvedSpec s = Some ((p_spec p)\<lparr>ps_stages := stages\<rparr>)"
    and sn: "snapshotRunSecrets env tr pr1 p = (tr @ new, Inr [])" and nc: "list_all no_create tr"
    and calls: "o_calls (reconcileRun r env rt pr) = tr @ new @ [UpdateStatus s]"
    and id: "rn_runID (pr_status pr1) = rn_runID s" by blast
  from calls nc assms(4) have sec: "CreateSecret sec \<in> set new"
    by (auto simp: list_all_iff no_create_def)
  from sp assms(5,6) have "c \<in> set (concat (map st_components stages))" by simp
  from frozen_origin [OF freeze_stages_frozen [OF fr] this] obtain c0 where
    "c0 \<in> set (concat (map st_components (ps_stages (p_spec p))))" "frozen_component env c0 c" by blast
  then have c0: "c0 \<in> set (all_components p)" "ConfigMap c0 = Inr (Some cfg)"
    using assms(7) frozen_ConfigMap by (simp_all add: all_components_def)
  obtain i j where "no_errors (validateSecretRefs c0 i j)" using admissible_secrets_ok [OF adm c0(1)] by blast
  from validateSecretRefs_ok [OF this c0(2) assms(8)]
  have v: "Validate (JObj cfg) = Inr (sorted_refs (JObj cfg))" .
  have "ref_names (JObj cfg) \<subseteq> set (ReferencedSecrets p)"
    using component_secret_refs_eq [OF c0(2) assms(8)] c0(1) by (auto simp: set_ReferencedSecrets)
  moreover have "map fst (sec_data sec) = ReferencedSecrets p" using snapshot_spec [OF sn] sec by blast
  ultimately have "ref_names (JObj cfg) \<subseteq> (case mounts secretsMountPath of None \<Rightarrow> {} | Some files \<Rightarrow> dom files)"
    using assms(9) by (simp add: dom_map_of_conv_image_fst) (metis image_set)
  then have "Resolve (JObj cfg) (FileProvider_Get (projected_files mounts) secretsMountPath) =
      Inr (map_leaves (leaf_value (FileProvider_Get (projected_files mounts) secretsMountPath)) (JObj cfg),
           sorted_refs (JObj cfg))"
    by (rule file_provider.Resolve_value [OF v])
  then show ?thesis
    using snapshot_name [OF sn sec] id by (simp add: runSecretsName_def)
qed

lemma demo_reconcile:
  "o_stored (reconcileRun sample_operator demo_env no_retries demo_run) = Some (pr_status (fst demo_admitted))"
  "rn_phase (pr_status demo_run) = RunNone"
proof -
  let ?out = "reconcileRun sample_operator demo_env no_retries demo_run"
  show "rn_phase (pr_status demo_run) = RunNone" by (simp add: demo_run_def empty_status_def)
  have "pr_status (fst demo_admitted) = (case o_stored ?out of None \<Rightarrow> empty_status | Some s \<Rightarrow> s)"
    by (simp add: demo_admitted_def stored_after_def Let_def demo_run_def split: option.split)
  then show "o_stored ?out = Some (pr_status (fst demo_admitted))"
    using demo_admission by (auto simp: empty_status_def split: option.splits)
qed

lemma demo_creates_snapshot:
  "\<exists>sec. CreateSecret sec \<in> set (o_calls (reconcileRun sample_operator demo_env no_retries demo_run)) \<and>
     sec_data sec = [(''db'', ''pw'')]"
proof -
  let ?out = "reconcileRun sample_operator demo_env no_retries demo_run"
  have "rn_phase (pr_status (fst demo_admitted)) = RunRunning" using demo_admission by auto
  from admission_calls [OF demo_reconcile(2,1) this] obtain p tr tr0 pr1 new where
    p: "run_pipeline demo_env tr0 demo_run = Some p" and sn: "snapshotRunSecrets demo_env tr pr1 p = (tr @ new, Inr [])"
    and calls: "o_calls ?out = tr @ new @ [UpdateStatus (pr_status (fst demo_admitted))]" by blast
  have "p = demo_pipeline" using p by (simp add: run_pipeline_def demo_run_def demo_env_def)
  with sn demo_snapshot_calls [of tr pr1] have "CreateSecret (snapshot_secret pr1 [(''db'', ''pw'')]) \<in> set new"
    by auto
  with calls show ?thesis by (intro exI [of _ "snapshot_secret pr1 [(''db'', ''pw'')]"]) (auto simp: snapshot_secret_def)
qed

theorem admitted_secrets_resolve_witness:
  "Resolve (JObj [(''pw'', JStr ''$[db]'')])
     (FileProvider_Get (projected_files [secretsMountPath \<mapsto> map_of [(''db'', ''pw'')]]) secretsMountPath) =
   Inr (JObj [(''pw'', JStr ''pw'')], [''db''])"
proof -
  let ?s = "pr_status (fst demo_admitted)"
  let ?get = "FileProvider_Get (projected_files [secretsMountPath \<mapsto> map_of [(''db'', ''pw'')]]) secretsMountPath"
  obtain sec where sec: "CreateSecret sec \<in> set (o_calls (reconcileRun sample_operator demo_env no_retries demo_run))"
    "sec_data sec = [(''db'', ''pw'')]" using demo_creates_snapshot by blast
  have run: "rn_phase ?s = RunRunning" and
    spec: "rn_resolvedSpec ?s = Some ((p_spec demo_pipeline)\<lparr>ps_stages := demo_stages\<rparr>)"
    using demo_admission by auto
  let ?c = "sample_component\<lparr>cs_resources := Some no_resources\<rparr>"
  have "?c \<in> set (concat (map st_components (ps_stages ((p_spec demo_pipeline)\<lparr>ps_stages := demo_stages\<rparr>))))"
    "ConfigMap ?c = Inr (Some [(''pw'', JStr ''$[db]'')])" "plain_json (JObj [(''pw'', JStr ''$[db]'')])"
    "[secretsMountPath \<mapsto> map_of [(''db'', ''pw'')]] secretsMountPath = Some (map_of (sec_data sec))"
    using sec(2) by (simp_all add: demo_stages_def ConfigMap_def sample_component_def)
  note admitted_secrets_resolve [OF demo_reconcile(2,1) run sec(1) spec this(1-3),
      where mounts = "[secretsMountPath \<mapsto> map_of [(''db'', ''pw'')]]"]
  with \<open>[secretsMountPath \<mapsto> map_of [(''db'', ''pw'')]] secretsMountPath = Some (map_of (sec_data sec))\<close>
  have "Resolve (JObj [(''pw'', JStr ''$[db]'')]) ?get =
      Inr (map_leaves (leaf_value ?get) (JObj [(''pw'', JStr ''$[db]'')]), sorted_refs (JObj [(''pw'', JStr ''$[db]'')]))"
    by blast
  moreover have "?get ''db'' = Inr ''pw''"
    by (simp add: FileProvider_Get_def projected_files_def strip_newline_def strings_HasSuffix_def)
  ultimately show ?thesis
    by (simp add: leaf_value_def sorted_refs_def leaf_refs_def refPattern_def name_char_def sort_strings_def)
qed

end
