(* ===== verification/Gateway_Config.thy ===== *)
theory Gateway_Config
  imports Prelude
begin

text \<open>
  The configuration of the data gateway (\<open>pkg/datagateway/gatewayconfig.go\<close>, \<open>config.go\<close>) and what the
  server derives from it (\<open>server_v2_writing.go\<close>, \<open>server_v2_variant.go\<close>, \<open>row_cap.go\<close>): size defaults, the
  merge of the top-level and the nested outputs, the declared output buckets, the bucket a table is
  written to, the write mode of a table, its partition fields and variant columns, and the preview row
  cap. The YAML file is represented by what the parser makes of it; the component's JSON, the legacy
  path maps and the columns of the configuration that are only copied are left out.
\<close>

section \<open>Configuration\<close>

record input_table_config =
  ic_bucket :: string
  ic_table :: string
  ic_as :: string
  ic_sinceTimestampMs :: int
  ic_sinceSnapshot :: int
  ic_timestampColumn :: string

record output_table_config =
  oc_name :: string
  oc_bucket :: string
  oc_writeMode :: string
  oc_logicalName :: string
  oc_partitionFields :: "(string \<times> string) list"
  oc_columns :: "(string \<times> string) list"

record processor_config =
  pc_type :: string
  pc_columns :: "string list"

record preview_config =
  pv_id :: string
  pv_rowLimit :: int

record gw_config =
  gc_runID :: string
  gc_inputBuckets :: "string list"
  gc_outputBuckets :: "string list"
  gc_inputTables :: "input_table_config list"
  gc_outputTables :: "output_table_config list"
  gc_defaultBucket :: string
  gc_defaultWriteMode :: string
  gc_processors :: "processor_config list"
  gc_preview :: "preview_config option"
  gc_chunkSize :: int
  gc_bufferSize :: int
  gc_rowGroupSize :: int
  gc_targetFileSize :: int
  gc_localDataDir :: string

text \<open>The YAML format: \<open>GatewayInputTableConfig\<close>, \<open>GatewayBucketConfig\<close>, \<open>GatewayTableConfig\<close> and
  \<open>GatewayConfig\<close> with its gateway settings and the nested component outputs.\<close>

record yaml_input_table =
  yi_bucket :: string
  yi_table :: string
  yi_sinceTimestampMs :: int
  yi_sinceSnapshot :: int

record yaml_bucket =
  yb_name :: string
  yb_writeMode :: string

record yaml_table =
  yt_name :: string
  yt_bucket :: string
  yt_writeMode :: string
  yt_logicalName :: string
  yt_columns :: "(string \<times> string) list"

record gateway_yaml =
  gy_runID :: string
  gy_preview :: "preview_config option"
  gy_inputBuckets :: "string list"
  gy_outputBuckets :: "string list"
  gy_inputTables :: "yaml_input_table list"
  gy_outputTables :: "output_table_config list"
  gy_defaultBucket :: string
  gy_defaultWriteMode :: string
  gy_chunkSize :: int
  gy_bufferSize :: int
  gy_rowGroupSize :: int
  gy_targetFileSize :: int
  gy_nestedDefaultBucket :: string
  gy_nestedDefaultWriteMode :: string
  gy_nestedBuckets :: "yaml_bucket list"
  gy_nestedTables :: "yaml_table list"
  gy_nestedProcessors :: "processor_config list"

text \<open>The gateway defaults of \<open>LoadGatewayConfigFile\<close>.\<close>

definition gateway_defaults :: "gateway_yaml \<Rightarrow> gateway_yaml" where
  "gateway_defaults y =
     (let y1 = (if gy_chunkSize y \<le> 0 then y\<lparr>gy_chunkSize := 32 * 1024 * 1024\<rparr> else y);
          y2 = (if gy_bufferSize y1 \<le> 0 then y1\<lparr>gy_bufferSize := 64 * 1024 * 1024\<rparr> else y1);
          y3 = (if gy_rowGroupSize y2 \<le> 0 then y2\<lparr>gy_rowGroupSize := gy_bufferSize y2\<rparr> else y2)
      in if gy_targetFileSize y3 \<le> 0 then y3\<lparr>gy_targetFileSize := 128 * 1024 * 1024\<rparr> else y3)"

definition input_table_of :: "yaml_input_table \<Rightarrow> input_table_config" where
  "input_table_of t =
     \<lparr>ic_bucket = yi_bucket t, ic_table = yi_table t, ic_as = [], ic_sinceTimestampMs = yi_sinceTimestampMs t,
      ic_sinceSnapshot = yi_sinceSnapshot t, ic_timestampColumn = []\<rparr>"

definition output_table_of :: "yaml_table \<Rightarrow> output_table_config" where
  "output_table_of t =
     \<lparr>oc_name = yt_name t, oc_bucket = yt_bucket t, oc_writeMode = yt_writeMode t,
      oc_logicalName = yt_logicalName t, oc_partitionFields = [], oc_columns = yt_columns t\<rparr>"

definition top_level :: "gateway_yaml \<Rightarrow> gw_config" where
  "top_level y =
     \<lparr>gc_runID = gy_runID y, gc_inputBuckets = gy_inputBuckets y, gc_outputBuckets = gy_outputBuckets y,
      gc_inputTables = map input_table_of (gy_inputTables y), gc_outputTables = gy_outputTables y,
      gc_defaultBucket = gy_defaultBucket y, gc_defaultWriteMode = gy_defaultWriteMode y,
      gc_processors = [], gc_preview = gy_preview y, gc_chunkSize = gy_chunkSize y,
      gc_bufferSize = gy_bufferSize y, gc_rowGroupSize = gy_rowGroupSize y,
      gc_targetFileSize = gy_targetFileSize y, gc_localDataDir = []\<rparr>"

definition ToConfig :: "gateway_yaml \<Rightarrow> gw_config" where
  "ToConfig y =
     (let c = top_level y in
      if gy_nestedDefaultBucket y \<noteq> [] \<or> gy_nestedBuckets y \<noteq> [] \<or> gy_nestedTables y \<noteq> [] \<or>
         gy_nestedProcessors y \<noteq> [] then
        c\<lparr>gc_defaultBucket := (if gc_defaultBucket c = [] then gy_nestedDefaultBucket y else gc_defaultBucket c),
          gc_defaultWriteMode :=
            (if gc_defaultWriteMode c = [] then gy_nestedDefaultWriteMode y else gc_defaultWriteMode c),
          gc_processors := (if gy_nestedProcessors y \<noteq> [] then gy_nestedProcessors y else gc_processors c),
          gc_outputBuckets := gc_outputBuckets c @ map yb_name (gy_nestedBuckets y),
          gc_outputTables := gc_outputTables c @ map output_table_of (gy_nestedTables y)\<rparr>
      else c)"

section \<open>Output buckets and tables\<close>

definition declaredOutputBuckets :: "gw_config \<Rightarrow> string list" where
  "declaredOutputBuckets c =
     sort_strings
       ((if gc_defaultBucket c \<noteq> [] then [gc_defaultBucket c] else []) @ gc_outputBuckets c @
        map oc_bucket (filter (\<lambda>t. oc_bucket t \<noteq> []) (gc_outputTables c)))"

text \<open>\<open>sort.SearchStrings\<close>: the first index whose string is not smaller.\<close>

definition sort_SearchStrings :: "string list \<Rightarrow> string \<Rightarrow> nat" where
  "sort_SearchStrings xs x = length (takeWhile (\<lambda>y. y < x) xs)"

definition declaredOutputBucket :: "gw_config \<Rightarrow> string \<Rightarrow> bool" where
  "declaredOutputBucket c b =
     (let declared = declaredOutputBuckets c in
      if declared = [] then gc_preview c = None
      else
        let i = sort_SearchStrings declared b in
        i < length declared \<and> declared ! i = b)"

text \<open>The bucket \<open>openWriter\<close> writes a table to.\<close>

definition resolve_bucket :: "gw_config \<Rightarrow> string \<Rightarrow> string \<Rightarrow> string" where
  "resolve_bucket c bucket table =
     (if bucket \<noteq> [] then bucket
      else
        let b = (case find (\<lambda>t. oc_name t = table) (gc_outputTables c) of None \<Rightarrow> [] | Some t \<Rightarrow> oc_bucket t) in
        if b = [] then gc_defaultBucket c else b)"

definition FULL_LOAD :: string where
  "FULL_LOAD = ''FULL_LOAD''"

definition APPEND :: string where
  "APPEND = ''APPEND''"

definition writeModeForTable :: "gw_config \<Rightarrow> string \<Rightarrow> string \<Rightarrow> string" where
  "writeModeForTable c bucket table =
     (case find (\<lambda>t. oc_bucket t = bucket \<and> oc_name t = table) (gc_outputTables c) of
        Some t \<Rightarrow> if strings_ToUpper (oc_writeMode t) = ''FULL_LOAD'' then FULL_LOAD else APPEND
      | None \<Rightarrow>
          if gc_defaultBucket c \<noteq> [] \<and> gc_defaultBucket c = bucket then
            (if strings_ToUpper (gc_defaultWriteMode c) = ''FULL_LOAD'' then FULL_LOAD else APPEND)
          else [])"

text \<open>The mode of the commit: \<open>finalizeAndDispatch\<close> falls back to \<open>APPEND\<close>.\<close>

definition commit_mode :: "gw_config \<Rightarrow> string \<Rightarrow> string \<Rightarrow> string" where
  "commit_mode c bucket table =
     (let m = writeModeForTable c bucket table in if m \<noteq> [] then m else APPEND)"

definition partitionFieldsFor :: "gw_config \<Rightarrow> string \<Rightarrow> string \<Rightarrow> (string \<times> string) list" where
  "partitionFieldsFor c bucket table =
     (case find (\<lambda>t. oc_name t = table \<and> oc_bucket t = bucket) (gc_outputTables c) of
        Some t \<Rightarrow> oc_partitionFields t
      | None \<Rightarrow> [])"

text \<open>\<open>strings.EqualFold\<close> with an ASCII literal: the letter \<open>K\<close> and \<open>S\<close> have further case variants outside
  ASCII, \<open>variant\<close> contains neither.\<close>

definition configuredVariantColumns :: "gw_config \<Rightarrow> string \<Rightarrow> string \<Rightarrow> string list" where
  "configuredVariantColumns c bucket table =
     sort_strings
       (concat (map (\<lambda>t. map fst (filter (\<lambda>(n, ty). strings_ToUpper ty = ''VARIANT'') (oc_columns t)))
          (filter (\<lambda>t. oc_name t = table \<and> oc_bucket t = bucket) (gc_outputTables c))))"

definition filePrefix :: "string \<Rightarrow> string \<Rightarrow> string" where
  "filePrefix runID writerID = ''part-'' @ (if length runID > 8 then take 8 runID else runID) @ ''-'' @ writerID"

definition joinStoragePath :: "string \<Rightarrow> string \<Rightarrow> string" where
  "joinStoragePath basePath filename = strings_TrimSuffix basePath ''/'' @ ''/'' @ filename"

section \<open>The preview row cap\<close>

record row_cap =
  rc_used :: "int gomap"
  rc_limit :: int

definition newRowCap :: "int \<Rightarrow> row_cap" where
  "newRowCap limit = \<lparr>rc_used = [], rc_limit = limit\<rparr>"

definition row_cap_for :: "gw_config \<Rightarrow> row_cap option" where
  "row_cap_for c =
     (case gc_preview c of
        Some p \<Rightarrow> if pv_rowLimit p > 0 then Some (newRowCap (pv_rowLimit p)) else None
      | None \<Rightarrow> None)"

definition cap_key :: "string \<Rightarrow> string \<Rightarrow> string" where
  "cap_key bucket table = bucket @ CHR 0x00 # table"

definition used_rows :: "row_cap \<Rightarrow> string \<Rightarrow> int" where
  "used_rows c key = (case map_of (rc_used c) key of Some u \<Rightarrow> u | None \<Rightarrow> 0)"

definition row_cap_take :: "string \<Rightarrow> string \<Rightarrow> int \<Rightarrow> row_cap option \<Rightarrow> row_cap option \<times> int \<times> bool" where
  "row_cap_take bucket table n co =
     (case co of
        None \<Rightarrow> (None, n, False)
      | Some c \<Rightarrow>
          let key = cap_key bucket table;
              used = used_rows c key;
              allowed = wrap64 (rc_limit c - used);
              allowed = (if allowed > n then n else allowed);
              allowed = (if allowed < 0 then 0 else allowed);
              used = used + allowed
          in (Some (c\<lparr>rc_used := assoc_put key used (rc_used c)\<rparr>), allowed, used \<ge> rc_limit c))"

section \<open>Facts\<close>

lemma search_sorted:
  assumes "sorted xs"
  shows "sort_SearchStrings xs x < length xs \<and> xs ! sort_SearchStrings xs x = x \<longleftrightarrow> x \<in> set xs"
  using assms
proof (induction xs)
  case (Cons y ys)
  then show ?case by (auto simp: sort_SearchStrings_def)
qed (simp add: sort_SearchStrings_def)

lemma declared_iff:
  "declaredOutputBucket c b \<longleftrightarrow>
     (if declaredOutputBuckets c = [] then gc_preview c = None else b \<in> set (declaredOutputBuckets c))"
proof -
  have "sorted (declaredOutputBuckets c)" unfolding declaredOutputBuckets_def by (rule sort_strings_props)
  from search_sorted[OF this] show ?thesis by (simp add: declaredOutputBucket_def Let_def)
qed

text \<open>The requests for one table, and what a sequence of requests is granted.\<close>

type_synonym take_request = "string \<times> string \<times> int"

definition requested :: "string \<Rightarrow> take_request list \<Rightarrow> int" where
  "requested key reqs = sum_list (map (\<lambda>(b, t, n). if cap_key b t = key then n else 0) reqs)"

fun granted :: "string \<Rightarrow> take_request list \<Rightarrow> row_cap \<Rightarrow> int" where
  "granted key [] c = 0"
| "granted key ((b, t, n) # reqs) c =
     (case row_cap_take b t n (Some c) of
        (Some c', allowed, _) \<Rightarrow> (if cap_key b t = key then allowed else 0) + granted key reqs c'
      | (None, _) \<Rightarrow> 0)"

definition cap_ok :: "row_cap \<Rightarrow> bool" where
  "cap_ok c \<longleftrightarrow> rc_limit c \<le> max_int64 \<and> (\<forall>key. 0 \<le> used_rows c key \<and> used_rows c key \<le> rc_limit c)"

lemma take_allowed:
  assumes "cap_ok c" "0 \<le> n"
  shows "row_cap_take b t n (Some c) =
     (Some (c\<lparr>rc_used := assoc_put (cap_key b t) (min (rc_limit c) (used_rows c (cap_key b t) + n)) (rc_used c)\<rparr>),
      min (rc_limit c) (used_rows c (cap_key b t) + n) - used_rows c (cap_key b t),
      used_rows c (cap_key b t) + n \<ge> rc_limit c)"
proof -
  let ?u = "used_rows c (cap_key b t)"
  have "0 \<le> ?u" "?u \<le> rc_limit c" "rc_limit c \<le> max_int64" using assms(1) by (auto simp: cap_ok_def)
  then have "wrap64 (rc_limit c - ?u) = rc_limit c - ?u" by (intro wrap64_id) (auto simp: max_int64_def)
  with \<open>?u \<le> rc_limit c\<close> assms(2) show ?thesis by (auto simp: row_cap_take_def Let_def min_def)
qed

lemma used_rows_put:
  "used_rows (c\<lparr>rc_used := assoc_put k u (rc_used c)\<rparr>) key = (if key = k then u else used_rows c key)"
  by (simp add: used_rows_def map_of_assoc_put)

lemma cap_ok_put:
  "cap_ok c \<Longrightarrow> 0 \<le> u \<Longrightarrow> u \<le> rc_limit c \<Longrightarrow> cap_ok (c\<lparr>rc_used := assoc_put k u (rc_used c)\<rparr>)"
  by (simp add: cap_ok_def used_rows_put)

lemma take_cap_ok:
  assumes "cap_ok c" "0 \<le> n" "row_cap_take b t n (Some c) = (Some c', allowed, reached)"
  shows "cap_ok c'"
proof -
  have "0 \<le> used_rows c (cap_key b t)" "0 \<le> rc_limit c"
    using assms(1) by (auto simp: cap_ok_def intro: order_trans)
  then have "cap_ok (c\<lparr>rc_used := assoc_put (cap_key b t) (min (rc_limit c) (used_rows c (cap_key b t) + n)) (rc_used c)\<rparr>)"
    using assms(1,2) by (intro cap_ok_put) auto
  then show ?thesis using take_allowed[OF assms(1,2)] assms(3) by simp
qed

lemma granted_total:
  assumes "cap_ok c" "\<forall>(b, t, n) \<in> set reqs. 0 \<le> n"
  shows "used_rows c key + granted key reqs c = min (rc_limit c) (used_rows c key + requested key reqs)"
  using assms
proof (induction reqs arbitrary: c)
  case Nil
  then show ?case by (simp add: requested_def cap_ok_def)
next
  case (Cons req reqs)
  obtain b t n where req: "req = (b, t, n)" by (cases req)
  let ?u = "min (rc_limit c) (used_rows c (cap_key b t) + n)"
  let ?c = "c\<lparr>rc_used := assoc_put (cap_key b t) ?u (rc_used c)\<rparr>"
  have n: "0 \<le> n" using Cons.prems(2) req by simp
  note step = take_allowed[OF Cons.prems(1) n, of b t]
  have rest: "0 \<le> requested key reqs"
    using Cons.prems(2) by (fastforce simp: requested_def intro!: sum_list_nonneg)
  have "used_rows ?c key + granted key reqs ?c = min (rc_limit c) (used_rows ?c key + requested key reqs)"
    using Cons.IH[OF take_cap_ok[OF Cons.prems(1) n step]] Cons.prems(2) by simp
  then show ?case using step rest n by (simp add: req requested_def used_rows_put split: if_splits)
qed

lemma newRowCap_ok: "0 \<le> limit \<Longrightarrow> limit \<le> max_int64 \<Longrightarrow> cap_ok (newRowCap limit)"
  by (simp add: cap_ok_def newRowCap_def used_rows_def)

section \<open>Properties\<close>

text \<open>The preview row cap is exact: over any sequence of requests, interleaved over any tables, a
  table is granted in total exactly the smaller of the limit and what was requested for it - never
  more than the limit, and never less than it could have.\<close>

theorem row_cap_exact:
  assumes "0 \<le> limit" "limit \<le> max_int64" "\<forall>(b, t, n) \<in> set reqs. 0 \<le> n"
  shows "granted key reqs (newRowCap limit) = min limit (requested key reqs)"
  using granted_total[OF newRowCap_ok[OF assms(1,2)] assms(3), of key]
  by (simp add: newRowCap_def used_rows_def)

theorem row_cap_exact_witness:
  "granted (cap_key ''raw'' ''t'') [(''raw'', ''t'', 3), (''raw'', ''u'', 9), (''raw'', ''t'', 4)] (newRowCap 5) = 5"
  using row_cap_exact[of 5 "[(''raw'', ''t'', 3), (''raw'', ''u'', 9), (''raw'', ''t'', 4)]" "cap_key ''raw'' ''t''"]
  by (simp add: max_int64_def requested_def cap_key_def)

text \<open>A table is replaced (\<open>FULL_LOAD\<close>) only where the configuration asks for it: by the first entry of
  the output tables with exactly this bucket and name, or, when no entry has them, by the default write
  mode if the bucket is the default bucket. In every other case the commit appends.\<close>

theorem full_load_only_configured:
  "commit_mode c bucket table = FULL_LOAD \<longleftrightarrow>
     (case find (\<lambda>t. oc_bucket t = bucket \<and> oc_name t = table) (gc_outputTables c) of
        Some t \<Rightarrow> strings_ToUpper (oc_writeMode t) = ''FULL_LOAD''
      | None \<Rightarrow> bucket \<noteq> [] \<and> gc_defaultBucket c = bucket \<and> strings_ToUpper (gc_defaultWriteMode c) = ''FULL_LOAD'')"
  by (auto simp: commit_mode_def writeModeForTable_def FULL_LOAD_def APPEND_def Let_def split: option.split)

text \<open>The write mode of a bucket output never reaches the gateway: whatever write modes the bucket
  outputs carry, the configuration, and with it the mode of every commit, is the same; a table of such
  a bucket with no entry of its own, outside the default bucket, is appended to.\<close>

theorem bucket_write_mode_ignored:
  "ToConfig (y\<lparr>gy_nestedBuckets := map (\<lambda>b. b\<lparr>yb_writeMode := m\<rparr>) (gy_nestedBuckets y)\<rparr>) = ToConfig y \<and>
   (bucket \<in> set (gc_outputBuckets c) \<and> bucket \<noteq> gc_defaultBucket c \<and>
     (\<forall>t \<in> set (gc_outputTables c). oc_bucket t \<noteq> bucket) \<longrightarrow> commit_mode c bucket table = APPEND)"
proof -
  have "commit_mode c bucket table = APPEND"
    if "bucket \<noteq> gc_defaultBucket c" "\<forall>t \<in> set (gc_outputTables c). oc_bucket t \<noteq> bucket"
  proof -
    have "find (\<lambda>t. oc_bucket t = bucket \<and> oc_name t = table) (gc_outputTables c) = None"
      using that(2) by (auto simp: find_None_iff)
    with that(1) show ?thesis by (simp add: commit_mode_def writeModeForTable_def)
  qed
  then show ?thesis by (simp add: ToConfig_def top_level_def comp_def Let_def)
qed

definition demo_gateway :: gw_config where
  "demo_gateway =
     \<lparr>gc_runID = ''run-12345'', gc_inputBuckets = [], gc_outputBuckets = [''archive''], gc_inputTables = [],
      gc_outputTables =
        [\<lparr>oc_name = ''orders'', oc_bucket = ''raw'', oc_writeMode = ''full_load'', oc_logicalName = [],
          oc_partitionFields = [], oc_columns = []\<rparr>],
      gc_defaultBucket = [], gc_defaultWriteMode = [], gc_processors = [], gc_preview = None,
      gc_chunkSize = 1, gc_bufferSize = 1, gc_rowGroupSize = 1, gc_targetFileSize = 1, gc_localDataDir = []\<rparr>"

theorem bucket_write_mode_ignored_witness:
  "commit_mode demo_gateway ''archive'' ''orders'' = APPEND \<and> ''archive'' \<in> set (gc_outputBuckets demo_gateway)"
  using bucket_write_mode_ignored[of undefined undefined "''archive''" demo_gateway "''orders''"]
  by (simp add: demo_gateway_def)

lemma input_alias_lost: "t \<in> set (gc_inputTables (ToConfig y)) \<Longrightarrow> ic_as t = [] \<and> ic_timestampColumn t = []"
  by (auto simp: ToConfig_def top_level_def input_table_of_def Let_def split: if_splits)

end
