(* ===== verification/Partition.thy ===== *)
theory Partition
  imports Prelude "HOL-Library.Word"
begin

text \<open>
  Partition tuples of the table writer (\<open>pkg/datagateway/goplane/partition.go\<close>): the conversion of
  Arrow columns to the values of the table's Iceberg types, the canonical key of a tuple, the
  grouping of the rows of a batch by tuple, and the check of the object-key length.

  A batch is the list of its rows, a row the list of its cells; a null cell is \<^term>\<open>None\<close>. Floats are
  their IEEE bit patterns. The transforms other than identity, the rendering of types and
  \<open>PartitionToPath\<close> belong to \<open>iceberg-go\<close> and are arguments.
\<close>

unbundle bit_operations_syntax

section \<open>Types and values\<close>

datatype time_unit = Second | Millisecond | Microsecond | Nanosecond

datatype arrow_type =
  INT8 | INT16 | INT32 | INT64 | UINT8 | UINT16 | UINT32 | UINT64 | FLOAT32 | FLOAT64 | BOOL
  | STRING | BINARY | DATE32 | DATE64 | TIMESTAMP time_unit | OtherArrow string

datatype iceberg_type =
  Int32Type | Int64Type | Float32Type | Float64Type | BooleanType | StringType | BinaryType
  | FixedType nat | DateType | TimestampType | TimestampTzType | OtherType string

text \<open>A cell as the typed accessor of its column returns it.\<close>

datatype cell =
  CInt int | CFloat32 "32 word" | CFloat64 "64 word" | CBool bool | CString string | CBytes string

type_synonym row = "cell option list"

text \<open>The dynamic types a tuple value can have.\<close>

datatype pvalue =
  VNull | VInt32 "32 word" | VInt64 "64 word" | VFloat32 "32 word" | VFloat64 "64 word" | VBool bool
  | VString string | VBytes string | VDate "32 word" | VTimestamp "64 word" | VOther string

section \<open>Conversions\<close>

text \<open>Go's \<open>/\<close> and \<open>%\<close> truncate towards zero.\<close>

definition go_quot :: "int \<Rightarrow> int \<Rightarrow> int" where
  "go_quot a b = sgn a * sgn b * (\<bar>a\<bar> div \<bar>b\<bar>)"

definition go_rem :: "int \<Rightarrow> int \<Rightarrow> int" where
  "go_rem a b = a - b * go_quot a b"

definition floorDiv :: "int \<Rightarrow> int \<Rightarrow> int" where
  "floorDiv a b =
     (let q = go_quot a b in if go_rem a b \<noteq> 0 \<and> (a < 0) \<noteq> (b < 0) then q - 1 else q)"

fun top_bit :: "nat \<Rightarrow> nat" where
  "top_bit n = (if n < 2 then 0 else Suc (top_bit (n div 2)))"

text \<open>Widening a \<open>float32\<close>: infinities and NaNs keep their class, subnormals are normalised.\<close>

definition float64_of_float32 :: "32 word \<Rightarrow> 64 word" where
  "float64_of_float32 w =
     (let b = unat w; s = b div 2 ^ 31; e = b div 2 ^ 23 mod 2 ^ 8; m = b mod 2 ^ 23;
          e' = (if e = 255 then 2047 else if e \<noteq> 0 then e + 896 else if m = 0 then 0 else top_bit m + 874);
          m' = (if e = 0 \<and> m \<noteq> 0 then (m - 2 ^ top_bit m) * 2 ^ (52 - top_bit m) else m * 2 ^ 29)
      in of_nat (s * 2 ^ 63 + e' * 2 ^ 52 + m'))"

definition ts_mul :: "time_unit \<Rightarrow> int" where
  "ts_mul u = (case u of Second \<Rightarrow> 1000000 | Millisecond \<Rightarrow> 1000 | _ \<Rightarrow> 1)"

definition ts_div :: "time_unit \<Rightarrow> int" where
  "ts_div u = (case u of Nanosecond \<Rightarrow> 1000 | _ \<Rightarrow> 1)"

definition int_kind :: "arrow_type \<Rightarrow> bool" where
  "int_kind at \<longleftrightarrow> at \<in> {INT8, INT16, INT32, INT64, UINT8, UINT16, UINT32}"

text \<open>A cell of another shape than its column's type does not occur; the last equation of each
  reader is the failed type assertion.\<close>

definition intReader :: "cell \<Rightarrow> int" where
  "intReader c = (case c of CInt v \<Rightarrow> v | _ \<Rightarrow> 0)"

definition converter :: "arrow_type \<Rightarrow> iceberg_type \<Rightarrow> (cell \<Rightarrow> string + pvalue) option" where
  "converter at it =
     (case it of
        Int32Type \<Rightarrow>
          if at \<in> {INT8, INT16, INT32, UINT8, UINT16}
          then Some (\<lambda>c. Inr (VInt32 (word_of_int (intReader c)))) else None
      | Int64Type \<Rightarrow>
          if int_kind at then Some (\<lambda>c. Inr (VInt64 (word_of_int (intReader c))))
          else if at = UINT64 then
            Some (\<lambda>c. let v = intReader c in
              if v > max_int64
              then Inl (''value '' @ fmt_d v @ '' does not fit the table'' @ [CHR 0x27] @ ''s long column'')
              else Inr (VInt64 (word_of_int v)))
          else None
      | Float32Type \<Rightarrow>
          if at = FLOAT32
          then Some (\<lambda>c. Inr (case c of CFloat32 b \<Rightarrow> VFloat32 b | _ \<Rightarrow> VFloat32 0)) else None
      | Float64Type \<Rightarrow>
          if at = FLOAT32
          then Some (\<lambda>c. Inr (case c of CFloat32 b \<Rightarrow> VFloat64 (float64_of_float32 b) | _ \<Rightarrow> VFloat64 0))
          else if at = FLOAT64
          then Some (\<lambda>c. Inr (case c of CFloat64 b \<Rightarrow> VFloat64 b | _ \<Rightarrow> VFloat64 0)) else None
      | BooleanType \<Rightarrow>
          if at = BOOL then Some (\<lambda>c. Inr (case c of CBool b \<Rightarrow> VBool b | _ \<Rightarrow> VBool False)) else None
      | StringType \<Rightarrow>
          if at = STRING then Some (\<lambda>c. Inr (case c of CString s \<Rightarrow> VString s | _ \<Rightarrow> VString [])) else None
      | BinaryType \<Rightarrow>
          if at = BINARY then Some (\<lambda>c. Inr (case c of CBytes s \<Rightarrow> VBytes s | _ \<Rightarrow> VBytes [])) else None
      | FixedType _ \<Rightarrow>
          if at = BINARY then Some (\<lambda>c. Inr (case c of CBytes s \<Rightarrow> VBytes s | _ \<Rightarrow> VBytes [])) else None
      | DateType \<Rightarrow>
          if at = DATE32 then Some (\<lambda>c. Inr (VDate (word_of_int (intReader c))))
          else if at = DATE64
          then Some (\<lambda>c. Inr (VDate (word_of_int (floorDiv (intReader c) 86400000)))) else None
      | OtherType _ \<Rightarrow> None
      | _ \<Rightarrow>
          (case at of
             TIMESTAMP u \<Rightarrow>
               Some (\<lambda>c. Inr (VTimestamp (word_of_int
                 (floorDiv (wrap64 (intReader c * ts_mul u)) (ts_div u)))))
           | _ \<Rightarrow> None))"

lemma floorDiv_eq: "0 < b \<Longrightarrow> floorDiv a b = a div b"
proof -
  assume b: "0 < b"
  have "a = a div b * b + a mod b" by simp
  consider "0 \<le> a" | "a < 0" "a mod b = 0" | "a < 0" "a mod b \<noteq> 0" by linarith
  then show ?thesis
  proof cases
    case 1
    then show ?thesis using b by (cases "a = 0") (simp_all add: floorDiv_def go_quot_def Let_def)
  next
    case 2
    then have q: "(- a) div b = - (a div b)" using b by (simp add: zdiv_zminus1_eq_if)
    have "go_quot a b = a div b" using 2 b q by (simp add: go_quot_def)
    moreover have "go_rem a b = 0" using \<open>go_quot a b = a div b\<close> 2 by (simp add: go_rem_def minus_mult_div_eq_mod)
    ultimately show ?thesis by (simp add: floorDiv_def Let_def)
  next
    case 3
    then have q: "(- a) div b = - (a div b) - 1" using b by (simp add: zdiv_zminus1_eq_if)
    then have g: "go_quot a b = a div b + 1" using 3 b by (simp add: go_quot_def)
    have "b * (a div b) + a mod b = a" by (rule mult_div_mod_eq)
    then have "go_rem a b = a mod b - b" unfolding go_rem_def g by (simp only: distrib_left)
    moreover have "a mod b \<noteq> b" using b pos_mod_bound[of b a] by linarith
    ultimately show ?thesis using 3 b g by (simp add: floorDiv_def Let_def)
  qed
qed

section \<open>Canonical keys\<close>

fun le_bytes :: "nat \<Rightarrow> nat \<Rightarrow> string" where
  "le_bytes 0 n = []"
| "le_bytes (Suc k) n = char_of (n mod 256) # le_bytes k (n div 256)"

fun uvarint :: "nat \<Rightarrow> string" where
  "uvarint n = (if n < 128 then [char_of n] else char_of (n mod 128 + 128) # uvarint (n div 128))"

definition nan32 :: "32 word \<Rightarrow> bool" where
  "nan32 b \<longleftrightarrow> b AND 0x7fffffff > 0x7f800000"

definition nan64 :: "64 word \<Rightarrow> bool" where
  "nan64 b \<longleftrightarrow> b AND 0x7fffffffffffffff > 0x7ff0000000000000"

text \<open>The encoding \<open>appendKey\<close> appends: a tag, then the value's bytes.\<close>

definition value_key :: "pvalue \<Rightarrow> string" where
  "value_key v =
     (case v of
        VNull \<Rightarrow> [CHR 0x00]
      | VInt32 w \<Rightarrow> CHR 0x01 # le_bytes 4 (unat w)
      | VInt64 w \<Rightarrow> CHR 0x02 # le_bytes 8 (unat w)
      | VFloat32 b \<Rightarrow> CHR 0x03 # le_bytes 4 (unat (if nan32 b then 0x7fc00000 else b))
      | VFloat64 b \<Rightarrow> CHR 0x04 # le_bytes 8 (unat (if nan64 b then 0x7ff8000000000000 else b))
      | VBool b \<Rightarrow> [CHR 0x05, if b then CHR 0x01 else CHR 0x00]
      | VString s \<Rightarrow> CHR 0x06 # uvarint (length s) @ s
      | VBytes s \<Rightarrow> CHR 0x07 # uvarint (length s) @ s
      | VDate w \<Rightarrow> CHR 0x08 # le_bytes 4 (unat w)
      | VTimestamp w \<Rightarrow> CHR 0x09 # le_bytes 8 (unat w)
      | VOther s \<Rightarrow> CHR 0x0A # uvarint (length s) @ s)"

definition appendKey :: "string \<Rightarrow> pvalue \<Rightarrow> string" where
  "appendKey b v = b @ value_key v"

text \<open>What a key identifies: the value, with every NaN the same.\<close>

definition canon :: "pvalue \<Rightarrow> pvalue" where
  "canon v =
     (case v of
        VFloat32 b \<Rightarrow> VFloat32 (if nan32 b then 0x7fc00000 else b)
      | VFloat64 b \<Rightarrow> VFloat64 (if nan64 b then 0x7ff8000000000000 else b)
      | _ \<Rightarrow> v)"

lemma length_le_bytes [simp]: "length (le_bytes k n) = k"
  by (induction k arbitrary: n) auto

lemma char_of_inject: "a < 256 \<Longrightarrow> b < 256 \<Longrightarrow> (char_of a :: char) = char_of b \<longleftrightarrow> a = (b :: nat)"
  by (metis char_of_eq_iff of_char_of mod_less)

lemma divmod_eq_iff: "m mod k = n mod k \<and> m div k = n div k \<longleftrightarrow> m = (n :: nat)"
  by (metis mod_mult_div_eq)

lemma le_bytes_inject: "m < 256 ^ k \<Longrightarrow> n < 256 ^ k \<Longrightarrow> le_bytes k m = le_bytes k n \<longleftrightarrow> m = n"
proof (induction k arbitrary: m n)
  case (Suc k)
  have "m div 256 < 256 ^ k" "n div 256 < 256 ^ k" using Suc.prems by (simp_all add: less_mult_imp_div_less mult.commute)
  then show ?case using Suc.IH[of "m div 256" "n div 256"] divmod_eq_iff[of m 256 n]
    by (simp add: char_of_inject)
qed simp

lemma le_word_inject:
  fixes v w :: "'a::len word"
  assumes "LENGTH('a) = 8 * k"
  shows "le_bytes k (unat v) @ r = le_bytes k (unat w) @ s \<longleftrightarrow> v = w \<and> r = s"
proof -
  have p: "(256::nat) ^ k = 2 ^ LENGTH('a)" using assms by (simp add: power_mult)
  have "unat v < 256 ^ k" "unat w < 256 ^ k" by (simp_all add: p unsigned_less)
  then show ?thesis by (simp add: le_bytes_inject word_unat_eq_iff)
qed

declare uvarint.simps [simp del]

lemma uvarint_prefix_free: "uvarint m @ r = uvarint n @ s \<longleftrightarrow> m = n \<and> r = s"
proof (induction m arbitrary: n rule: uvarint.induct)
  case (1 m)
  show ?case
  proof (cases "m < 128 \<or> n < 128")
    case True
    then show ?thesis
      unfolding uvarint.simps[of m] uvarint.simps[of n] by (auto simp: char_of_inject)
  next
    case False
    then show ?thesis using "1.IH"[of "n div 128"] divmod_eq_iff[of m 128 n]
      unfolding uvarint.simps[of m] uvarint.simps[of n] by (auto simp: char_of_inject)
  qed
qed

lemma value_key_prefix_free: "value_key v @ r = value_key w @ s \<longleftrightarrow> canon v = canon w \<and> r = s"
proof -
  have w32: "le_bytes 4 (unat a) @ r = le_bytes 4 (unat b) @ s \<longleftrightarrow> a = b \<and> r = s" for a b :: "32 word"
    by (rule le_word_inject) simp
  have w64: "le_bytes 8 (unat a) @ r = le_bytes 8 (unat b) @ s \<longleftrightarrow> a = b \<and> r = s" for a b :: "64 word"
    by (rule le_word_inject) simp
  have str: "uvarint (length a) @ a @ r = uvarint (length b) @ b @ s \<longleftrightarrow> a = b \<and> r = s" for a b
    by (auto simp: uvarint_prefix_free)
  show ?thesis
    by (cases v; cases w) (simp_all add: value_key_def canon_def w32 w64 str)
qed

text \<open>The key of a tuple, one value after the other.\<close>

definition tuple_key :: "pvalue list \<Rightarrow> string" where
  "tuple_key vs = foldl appendKey [] vs"

lemma foldl_appendKey: "foldl appendKey b vs = b @ concat (map value_key vs)"
  by (induction vs arbitrary: b) (simp_all add: appendKey_def)

lemma tuple_key_eq: "tuple_key vs = concat (map value_key vs)"
  by (simp add: tuple_key_def foldl_appendKey)

lemma value_key_nonempty: "value_key v \<noteq> []"
  by (cases v) (simp_all add: value_key_def)

lemma tuple_key_canon: "tuple_key vs = tuple_key ws \<longleftrightarrow> map canon vs = map canon ws"
proof (induction vs arbitrary: ws)
  case Nil
  then show ?case by (cases ws) (simp_all add: tuple_key_eq value_key_nonempty)
next
  case (Cons v vs)
  then show ?case
    by (cases ws) (simp_all add: tuple_key_eq value_key_nonempty value_key_prefix_free)
qed

section \<open>Partitioner\<close>

datatype partition_transform =
  IdentityTransform | BucketTransform nat | TruncateTransform nat | DayTransform | YearTransform
  | MonthTransform | HourTransform | VoidTransform | OtherTransform string

record spec_field =
  sf_id :: int
  sf_name :: string
  sf_source :: int
  sf_transform :: partition_transform

record nested_field =
  nf_id :: int
  nf_name :: string
  nf_type :: iceberg_type

text \<open>The functions of \<open>iceberg-go\<close> and \<open>arrow\<close> the resolution calls.\<close>

record iceberg_lib =
  il_canTransform :: "partition_transform \<Rightarrow> iceberg_type \<Rightarrow> bool"
  il_bucket :: "nat \<Rightarrow> iceberg_type \<Rightarrow> pvalue \<Rightarrow> 32 word option"
  il_int32 :: "partition_transform \<Rightarrow> iceberg_type \<Rightarrow> string + (pvalue \<Rightarrow> 32 word option)"
  il_truncate :: "nat \<Rightarrow> iceberg_type \<Rightarrow> string + (pvalue \<Rightarrow> pvalue)"
  il_columnName :: "int \<Rightarrow> string"
  il_transform :: "partition_transform \<Rightarrow> string"
  il_iceberg :: "iceberg_type \<Rightarrow> string"
  il_arrow :: "arrow_type \<Rightarrow> string"
  il_partitionPath :: "pvalue list \<Rightarrow> string"

record part_field =
  pf_id :: int
  pf_name :: string
  pf_col :: "nat option"
  pf_conv :: "cell \<Rightarrow> string + pvalue"
  pf_apply :: "pvalue \<Rightarrow> pvalue"

definition ErrInvalidPartition :: string where
  "ErrInvalidPartition = ''invalid partitioning''"

definition invalidPartition :: "string \<Rightarrow> string" where
  "invalidPartition msg = ErrInvalidPartition @ '': '' @ msg"

definition topLevelByID :: "nested_field list \<Rightarrow> int \<Rightarrow> nested_field option" where
  "topLevelByID sc k = find (\<lambda>f. nf_id f = k) sc"

definition optional_int32 ::
    "(pvalue \<Rightarrow> 32 word option) \<Rightarrow> (32 word \<Rightarrow> pvalue) \<Rightarrow> pvalue \<Rightarrow> pvalue" where
  "optional_int32 fn wrap v =
     (if v = VNull then VNull else case fn v of None \<Rightarrow> VNull | Some d \<Rightarrow> wrap d)"

definition transformFunc ::
    "iceberg_lib \<Rightarrow> partition_transform \<Rightarrow> iceberg_type \<Rightarrow> string + (pvalue \<Rightarrow> pvalue)" where
  "transformFunc lib tr src =
     (case tr of
        IdentityTransform \<Rightarrow> Inr (\<lambda>v. v)
      | BucketTransform n \<Rightarrow> Inr (optional_int32 (il_bucket lib n src) VInt32)
      | TruncateTransform n \<Rightarrow>
          (case il_truncate lib n src of
             Inl e \<Rightarrow> Inl e
           | Inr fn \<Rightarrow> Inr (\<lambda>v. if v = VNull then VNull else fn v))
      | DayTransform \<Rightarrow>
          (case il_int32 lib tr src of Inl e \<Rightarrow> Inl e | Inr fn \<Rightarrow> Inr (optional_int32 fn VDate))
      | VoidTransform \<Rightarrow> Inl (''transform '' @ il_transform lib tr @ '' is not supported for writing'')
      | OtherTransform _ \<Rightarrow> Inl (''transform '' @ il_transform lib tr @ '' is not supported for writing'')
      | _ \<Rightarrow> (case il_int32 lib tr src of Inl e \<Rightarrow> Inl e | Inr fn \<Rightarrow> Inr (optional_int32 fn VInt32)))"

text \<open>The first column of the writer's schema with a name.\<close>

definition field_index :: "(string \<times> arrow_type) list \<Rightarrow> string \<Rightarrow> nat option" where
  "field_index ws name =
     (case filter (\<lambda>i. fst (ws ! i) = name) [0..<length ws] of [] \<Rightarrow> None | i # _ \<Rightarrow> Some i)"

definition null_field :: "spec_field \<Rightarrow> part_field" where
  "null_field f =
     \<lparr>pf_id = sf_id f, pf_name = sf_name f, pf_col = None, pf_conv = (\<lambda>c. Inr VNull), pf_apply = (\<lambda>v. v)\<rparr>"

definition resolve_field ::
    "iceberg_lib \<Rightarrow> nested_field list \<Rightarrow> (string \<times> arrow_type) list \<Rightarrow> spec_field \<Rightarrow> string + part_field" where
  "resolve_field lib sc ws f =
     (if sf_transform f = VoidTransform then Inr (null_field f)
      else
        (case topLevelByID sc (sf_source f) of
           None \<Rightarrow> Inl (invalidPartition (''partition field '' @ sf_name f @ '': source field id '' @
             fmt_d (sf_source f) @ '' ('' @ fmt_q (il_columnName lib (sf_source f)) @
             '') is not a top-level column of the table schema''))
         | Some src \<Rightarrow>
             if \<not> il_canTransform lib (sf_transform f) (nf_type src) then
               Inl (invalidPartition (''partition field '' @ sf_name f @ '': transform '' @
                 il_transform lib (sf_transform f) @ '' cannot be applied to column '' @
                 fmt_q (nf_name src) @ '' of type '' @ il_iceberg lib (nf_type src)))
             else
               (case transformFunc lib (sf_transform f) (nf_type src) of
                  Inl e \<Rightarrow> Inl (invalidPartition (''partition field '' @ sf_name f @ '': '' @ e))
                | Inr fn \<Rightarrow>
                    (case field_index ws (nf_name src) of
                       None \<Rightarrow> Inr (null_field f)
                     | Some i \<Rightarrow>
                         (case converter (snd (ws ! i)) (nf_type src) of
                            None \<Rightarrow> Inl (invalidPartition (''partition field '' @ sf_name f @ '': column '' @
                              fmt_q (nf_name src) @ '' has Arrow type '' @ il_arrow lib (snd (ws ! i)) @
                              '', which cannot be converted to the table type '' @ il_iceberg lib (nf_type src)))
                          | Some conv \<Rightarrow>
                              Inr ((null_field f)\<lparr>pf_col := Some i, pf_conv := conv, pf_apply := fn\<rparr>))))))"

fun resolve_fields ::
    "iceberg_lib \<Rightarrow> nested_field list \<Rightarrow> (string \<times> arrow_type) list \<Rightarrow> spec_field list \<Rightarrow>
     string + part_field list" where
  "resolve_fields lib sc ws [] = Inr []"
| "resolve_fields lib sc ws (f # fs) =
     (case resolve_field lib sc ws f of
        Inl e \<Rightarrow> Inl e
      | Inr pf \<Rightarrow> (case resolve_fields lib sc ws fs of Inl e \<Rightarrow> Inl e | Inr pfs \<Rightarrow> Inr (pf # pfs)))"

definition newPartitioner ::
    "iceberg_lib \<Rightarrow> spec_field list \<Rightarrow> nested_field list option \<Rightarrow> (string \<times> arrow_type) list \<Rightarrow>
     string + part_field list" where
  "newPartitioner lib spec sc ws =
     (case sc of
        None \<Rightarrow> Inl (invalidPartition ''partitioned writer without a table schema'')
      | Some tsc \<Rightarrow> resolve_fields lib tsc ws spec)"

section \<open>Splitting a batch\<close>

type_synonym tuple = "(int \<times> pvalue) list"

record row_group =
  rg_key :: string
  rg_tuple :: tuple
  rg_rows :: "nat list"

definition field_value :: "part_field \<Rightarrow> row \<Rightarrow> string + pvalue" where
  "field_value f r =
     (case pf_col f of
        None \<Rightarrow> Inr VNull
      | Some c \<Rightarrow>
          (case r ! c of
             None \<Rightarrow> Inr VNull
           | Some x \<Rightarrow>
               (case pf_conv f x of
                  Inl e \<Rightarrow> Inl (''goplane: partition field '' @ pf_name f @ '': '' @ e)
                | Inr sv \<Rightarrow> Inr (pf_apply f sv))))"

fun row_values :: "part_field list \<Rightarrow> row \<Rightarrow> string + pvalue list" where
  "row_values [] r = Inr []"
| "row_values (f # fs) r =
     (case field_value f r of
        Inl e \<Rightarrow> Inl e
      | Inr v \<Rightarrow> (case row_values fs r of Inl e \<Rightarrow> Inl e | Inr vs \<Rightarrow> Inr (v # vs)))"

text \<open>Values are immutable here, so \<open>cloneValue\<close> is the identity.\<close>

definition group_tuple :: "part_field list \<Rightarrow> pvalue list \<Rightarrow> tuple" where
  "group_tuple fs vs = foldl (\<lambda>m (f, v). assoc_put (pf_id f) v m) [] (zip fs vs)"

fun add_row :: "part_field list \<Rightarrow> pvalue list \<Rightarrow> nat \<Rightarrow> row_group list \<Rightarrow> row_group list" where
  "add_row fs vs i [] = [\<lparr>rg_key = tuple_key vs, rg_tuple = group_tuple fs vs, rg_rows = [i]\<rparr>]"
| "add_row fs vs i (g # gs) =
     (if rg_key g = tuple_key vs then g\<lparr>rg_rows := rg_rows g @ [i]\<rparr> # gs else g # add_row fs vs i gs)"

fun split_loop :: "part_field list \<Rightarrow> nat \<Rightarrow> row list \<Rightarrow> row_group list \<Rightarrow> string + row_group list" where
  "split_loop fs i [] groups = Inr groups"
| "split_loop fs i (r # rs) groups =
     (case row_values fs r of
        Inl e \<Rightarrow> Inl e
      | Inr vs \<Rightarrow> split_loop fs (Suc i) rs (add_row fs vs i groups))"

definition split_batch :: "part_field list \<Rightarrow> row list \<Rightarrow> string + row_group list" where
  "split_batch fs rows = split_loop fs 0 rows []"

definition contiguous :: "row_group \<Rightarrow> bool" where
  "contiguous g \<longleftrightarrow> last (rg_rows g) - hd (rg_rows g) + 1 = length (rg_rows g)"

text \<open>The rows of a group as a batch and the bytes it counts: the whole batch, a slice, or a gather,
  which may fail in the compute kernel.\<close>

definition subBatch ::
    "string option \<Rightarrow> (row list \<Rightarrow> int) \<Rightarrow> row list \<Rightarrow> row_group \<Rightarrow> int \<Rightarrow> string + row list \<times> int" where
  "subBatch takeErr recordBytes rows g parentBytes =
     (let n = length (rg_rows g) in
      if n = length rows then Inr (rows, parentBytes)
      else if contiguous g then
        Inr (take n (drop (hd (rg_rows g)) rows), go_quot (wrap64 (parentBytes * int n)) (int (length rows)))
      else
        (case takeErr of
           Some e \<Rightarrow> Inl (''goplane: split batch by partition: '' @ e)
         | None \<Rightarrow> let sub = map (\<lambda>i. rows ! i) (rg_rows g) in Inr (sub, recordBytes sub)))"

definition part_path :: "iceberg_lib \<Rightarrow> part_field list \<Rightarrow> tuple \<Rightarrow> string" where
  "part_path lib fs t =
     il_partitionPath lib (map (\<lambda>f. case map_of t (pf_id f) of None \<Rightarrow> VNull | Some v \<Rightarrow> v) fs)"

definition maxObjectKeyBytes :: nat where
  "maxObjectKeyBytes = 1024"

definition object_key :: "string \<Rightarrow> string" where
  "object_key path =
     (case strings_Index path ''://'' of
        None \<Rightarrow> path
      | Some i \<Rightarrow>
          (let rest = drop (i + 3) path in
           case strings_Index rest ''/'' of None \<Rightarrow> path | Some j \<Rightarrow> drop (j + 1) rest))"

definition longest_segment :: "string list \<Rightarrow> string" where
  "longest_segment segs = foldl (\<lambda>l s. if length s > length l then s else l) [] segs"

definition checkKeyLength :: "string \<Rightarrow> string \<Rightarrow> string option" where
  "checkKeyLength path partPath =
     (let key = object_key path in
      if length key \<le> maxObjectKeyBytes then None
      else
        (let longest = longest_segment (split_on (CHR ''/'') partPath);
             name = takeWhile (\<lambda>c. c \<noteq> CHR ''='') longest
         in Some (''goplane: data file object key is '' @ nat_str (length key) @ '' bytes, over the '' @
              nat_str maxObjectKeyBytes @ ''-byte limit, because of partition field '' @ name @ '' ('' @
              nat_str (length longest) @ ''-byte path segment)'')))"

section \<open>Correctness of the grouping\<close>

text \<open>What a grouping of the first \<open>n\<close> rows promises.\<close>

definition group_ok :: "part_field list \<Rightarrow> row list \<Rightarrow> nat \<Rightarrow> row_group \<Rightarrow> bool" where
  "group_ok fs rows n g \<longleftrightarrow>
     rg_rows g \<noteq> [] \<and> sorted_wrt (<) (rg_rows g) \<and>
     (\<exists>vs. row_values fs (rows ! hd (rg_rows g)) = Inr vs \<and> rg_tuple g = group_tuple fs vs \<and>
           rg_key g = tuple_key vs) \<and>
     (\<forall>i \<in> set (rg_rows g). i < n \<and> (\<exists>vs. row_values fs (rows ! i) = Inr vs \<and> tuple_key vs = rg_key g))"

definition grouping_ok :: "part_field list \<Rightarrow> row list \<Rightarrow> nat \<Rightarrow> row_group list \<Rightarrow> bool" where
  "grouping_ok fs rows n gs \<longleftrightarrow>
     distinct (map rg_key gs) \<and> list_all (group_ok fs rows n) gs \<and>
     (\<forall>i < n. \<exists>g \<in> set gs. i \<in> set (rg_rows g))"

lemma add_row_keys: "rg_key ` set (add_row fs vs i gs) = insert (tuple_key vs) (rg_key ` set gs)"
  by (induction gs) auto

lemma add_row_distinct: "distinct (map rg_key gs) \<Longrightarrow> distinct (map rg_key (add_row fs vs i gs))"
proof (induction gs)
  case (Cons g gs)
  then show ?case using add_row_keys[of fs vs i gs] by (auto simp: image_iff)
qed simp

lemma add_row_rows: "\<Union> (set ` rg_rows ` set (add_row fs vs i gs)) = insert i (\<Union> (set ` rg_rows ` set gs))"
  by (induction gs) auto

lemma group_ok_mono: "group_ok fs rows n g \<Longrightarrow> group_ok fs rows (Suc n) g"
  by (auto simp: group_ok_def less_Suc_eq)

lemma group_ok_append:
  assumes "group_ok fs rows n g" "row_values fs (rows ! n) = Inr vs" "rg_key g = tuple_key vs"
  shows "group_ok fs rows (Suc n) (g\<lparr>rg_rows := rg_rows g @ [n]\<rparr>)"
  using assms by (auto simp: group_ok_def sorted_wrt_append less_Suc_eq)

lemma add_row_groups:
  assumes "list_all (group_ok fs rows n) gs" "row_values fs (rows ! n) = Inr vs"
  shows "list_all (group_ok fs rows (Suc n)) (add_row fs vs n gs)"
  using assms(1)
proof (induction gs)
  case Nil
  then show ?case using assms(2) by (simp add: group_ok_def)
next
  case (Cons g gs)
  then show ?case using assms(2) by (simp add: group_ok_mono group_ok_append list_all_iff)
qed

lemma split_loop_ok:
  assumes "split_loop fs n rs gs = Inr gs'" "grouping_ok fs (before @ rs) n gs" "length before = n"
  shows "grouping_ok fs (before @ rs) (n + length rs) gs'"
  using assms
proof (induction rs arbitrary: n gs before)
  case Nil
  then show ?case by simp
next
  case (Cons r rs)
  from Cons.prems(1) obtain vs where vs: "row_values fs r = Inr vs"
      and loop: "split_loop fs (Suc n) rs (add_row fs vs n gs) = Inr gs'"
    by (auto split: sum.splits)
  have at: "row_values fs ((before @ r # rs) ! n) = Inr vs" using vs Cons.prems(3) by (simp add: nth_append)
  have "grouping_ok fs (before @ r # rs) (Suc n) (add_row fs vs n gs)"
    using Cons.prems(2) add_row_groups[OF _ at] add_row_distinct add_row_rows[of fs vs n gs]
    unfolding grouping_ok_def by (auto simp: less_Suc_eq)
  then show ?case using Cons.IH[OF loop, of "before @ [r]"] Cons.prems(3) by simp
qed

lemma split_batch_ok: "split_batch fs rows = Inr gs \<Longrightarrow> grouping_ok fs rows (length rows) gs"
  using split_loop_ok[of fs 0 rows "[]" gs "[]"] by (simp add: split_batch_def grouping_ok_def)

lemma ascending_length: "sorted_wrt (<) (x # xs) \<Longrightarrow> x + length xs \<le> last (x # xs)" for x :: nat
proof (induction xs arbitrary: x)
  case (Cons y ys)
  then show ?case using Cons.IH[of y] by fastforce
qed simp

lemma ascending_run:
  "sorted_wrt (<) (x # xs) \<Longrightarrow> last (x # xs) = x + length xs \<Longrightarrow> x # xs = [x..<x + Suc (length xs)]" for x :: nat
proof (induction xs arbitrary: x)
  case (Cons y ys)
  have "y + length ys \<le> last (y # ys)" using Cons.prems(1) by (intro ascending_length) simp
  moreover have "x < y" using Cons.prems(1) by simp
  ultimately have y: "y = Suc x" using Cons.prems(2) by simp
  have "y # ys = [y..<y + Suc (length ys)]" using Cons.IH[of y] Cons.prems y by simp
  then show ?case using y by (simp add: upt_conv_Cons del: upt_Suc)
qed simp

lemma ascending_all:
  fixes n :: nat
  assumes "sorted_wrt (<) xs" "\<forall>i \<in> set xs. i < n" "length xs = n"
  shows "xs = [0..<n]"
proof -
  have d: "distinct xs" using assms(1) by (simp add: strict_sorted_iff)
  have "set xs = {0..<n}"
    using assms d by (intro card_subset_eq) (auto simp: distinct_card)
  then show ?thesis using assms(1) by (intro strict_sorted_equal) (simp_all add: sorted_wrt_upt)
qed

text \<open>All three ways to build the batch of a group select its rows, in order.\<close>

lemma subBatch_rows:
  assumes ok: "group_ok fs rows (length rows) g" and sub: "subBatch te sz rows g pb = Inr (sub, fed)"
  shows "sub = map (\<lambda>i. rows ! i) (rg_rows g)"
proof -
  have asc: "sorted_wrt (<) (rg_rows g)" and ne: "rg_rows g \<noteq> []"
      and bound: "\<forall>i \<in> set (rg_rows g). i < length rows"
    using ok by (auto simp: group_ok_def)
  obtain x xs where xs: "rg_rows g = x # xs" using ne by (cases "rg_rows g") auto
  consider (whole) "length (rg_rows g) = length rows"
    | (run) "length (rg_rows g) \<noteq> length rows" "contiguous g"
    | (gather) "length (rg_rows g) \<noteq> length rows" "\<not> contiguous g" by blast
  then show ?thesis
  proof cases
    case whole
    then have "rg_rows g = [0..<length rows]" using ascending_all[OF asc bound] by simp
    then show ?thesis using whole sub by (simp add: subBatch_def map_nth)
  next
    case run
    have last: "last (x # xs) = x + length xs"
      using run(2) ascending_length[of x xs] asc unfolding contiguous_def xs by simp
    have eq: "rg_rows g = [x..<x + Suc (length xs)]"
      using ascending_run[of x xs] asc last unfolding xs by simp
    have "last (x # xs) < length rows" using bound xs by (metis last_in_set list.distinct(1))
    then have "x + Suc (length xs) \<le> length rows" using last by simp
    then have "take (Suc (length xs)) (drop x rows) = map (\<lambda>i. rows ! i) [x..<x + Suc (length xs)]"
      by (intro nth_equalityI) (simp_all del: upt_Suc)
    moreover have "sub = take (Suc (length xs)) (drop x rows)"
      using run sub xs by (auto simp: subBatch_def Let_def)
    ultimately show ?thesis using eq by metis
  next
    case gather
    then show ?thesis using sub by (auto simp: subBatch_def Let_def split: option.splits)
  qed
qed

text \<open>A row belongs to the group of its key and to no other.\<close>

lemma group_member:
  assumes ok: "grouping_ok fs rows n gs" and "i < n" "g \<in> set gs"
  shows "i \<in> set (rg_rows g) \<longleftrightarrow> (\<exists>vs. row_values fs (rows ! i) = Inr vs \<and> tuple_key vs = rg_key g)"
proof
  have all: "\<And>g. g \<in> set gs \<Longrightarrow> group_ok fs rows n g" using ok by (simp add: grouping_ok_def list_all_iff)
  then show "i \<in> set (rg_rows g) \<Longrightarrow> \<exists>vs. row_values fs (rows ! i) = Inr vs \<and> tuple_key vs = rg_key g"
    using assms(3) by (auto simp: group_ok_def)
  assume "\<exists>vs. row_values fs (rows ! i) = Inr vs \<and> tuple_key vs = rg_key g"
  then obtain vs where vs: "row_values fs (rows ! i) = Inr vs" "tuple_key vs = rg_key g" by blast
  obtain g' where g': "g' \<in> set gs" "i \<in> set (rg_rows g')" using ok \<open>i < n\<close> by (auto simp: grouping_ok_def)
  then have "rg_key g' = rg_key g" using all[OF g'(1)] vs by (auto simp: group_ok_def)
  then have "g' = g" using ok g'(1) assms(3) by (auto simp: grouping_ok_def distinct_map inj_on_def)
  then show "i \<in> set (rg_rows g)" using g'(2) by simp
qed

section \<open>Properties\<close>

text \<open>The canonical key of a partition tuple identifies it: two tuples have the same key exactly
  when they agree value by value, all NaNs of one width counting as the same value. In particular the
  concatenation of the encodings has no ambiguity, and null, equal numbers of different types, and
  the empty string are told apart.\<close>

theorem tuple_key_identifies: "tuple_key vs = tuple_key ws \<longleftrightarrow> map canon vs = map canon ws"
  by (rule tuple_key_canon)

text \<open>Splitting a batch partitions its rows: the groups have distinct keys, every row is in exactly
  the group whose key is the key of its own tuple, the group's tuple is that of its first row, and the
  batch built for a group holds exactly the group's rows in their order, whichever of the three ways
  of building it applies.\<close>

theorem split_batch_partitions:
  assumes "split_batch fs rows = Inr gs"
  shows "distinct (map rg_key gs) \<and>
    (\<forall>i < length rows. \<exists>g \<in> set gs. i \<in> set (rg_rows g)) \<and>
    (\<forall>i < length rows. \<forall>g \<in> set gs. i \<in> set (rg_rows g) \<longleftrightarrow>
       (\<exists>vs. row_values fs (rows ! i) = Inr vs \<and> tuple_key vs = rg_key g)) \<and>
    (\<forall>g \<in> set gs. \<exists>vs. row_values fs (rows ! hd (rg_rows g)) = Inr vs \<and> rg_tuple g = group_tuple fs vs) \<and>
    (\<forall>g \<in> set gs. \<forall>te sz pb sub fed. subBatch te sz rows g pb = Inr (sub, fed) \<longrightarrow>
       sub = map (\<lambda>i. rows ! i) (rg_rows g))"
proof (intro conjI)
  have ok: "grouping_ok fs rows (length rows) gs" using assms by (rule split_batch_ok)
  then show d: "distinct (map rg_key gs)"
    and cover: "\<forall>i < length rows. \<exists>g \<in> set gs. i \<in> set (rg_rows g)"
    by (simp_all add: grouping_ok_def)
  have g: "\<And>g. g \<in> set gs \<Longrightarrow> group_ok fs rows (length rows) g"
    using ok by (simp add: grouping_ok_def list_all_iff)
  show "\<forall>i < length rows. \<forall>g \<in> set gs. i \<in> set (rg_rows g) \<longleftrightarrow>
      (\<exists>vs. row_values fs (rows ! i) = Inr vs \<and> tuple_key vs = rg_key g)"
    using group_member[OF ok] by blast
  show "\<forall>g \<in> set gs. \<exists>vs. row_values fs (rows ! hd (rg_rows g)) = Inr vs \<and> rg_tuple g = group_tuple fs vs"
    using g by (fastforce simp: group_ok_def)
  show "\<forall>g \<in> set gs. \<forall>te sz pb sub fed. subBatch te sz rows g pb = Inr (sub, fed) \<longrightarrow>
      sub = map (\<lambda>i. rows ! i) (rg_rows g)"
    using subBatch_rows g by blast
qed

text \<open>A timestamp column in milliseconds and a plain one: three rows, two of them of one tuple.\<close>

definition sample_fields :: "part_field list" where
  "sample_fields =
     [\<lparr>pf_id = 1000, pf_name = ''ts'', pf_col = Some 0, pf_conv = the (converter (TIMESTAMP Millisecond) TimestampType),
       pf_apply = (\<lambda>v. v)\<rparr>]"

definition sample_rows :: "row list" where
  "sample_rows = [[Some (CInt 1)], [None], [Some (CInt 1)]]"

lemma sample_split:
  "split_batch sample_fields sample_rows =
     Inr [\<lparr>rg_key = tuple_key [VTimestamp 1000], rg_tuple = [(1000, VTimestamp 1000)], rg_rows = [0, 2]\<rparr>,
          \<lparr>rg_key = tuple_key [VNull], rg_tuple = [(1000, VNull)], rg_rows = [1]\<rparr>]"
  by (simp add: split_batch_def sample_fields_def sample_rows_def field_value_def converter_def
      intReader_def ts_mul_def ts_div_def wrap64_def floorDiv_eq tuple_key_canon canon_def group_tuple_def)

theorem split_batch_partitions_witness:
  "\<exists>gs. split_batch sample_fields sample_rows = Inr gs \<and> distinct (map rg_key gs) \<and>
     (\<exists>g \<in> set gs. 1 \<in> set (rg_rows g)) \<and>
     subBatch None (\<lambda>_. 0) sample_rows (gs ! 0) 48 = Inr ([[Some (CInt 1)], [Some (CInt 1)]], 0)"
  using split_batch_partitions[OF sample_split] sample_split
  by (simp add: sample_rows_def subBatch_def contiguous_def)

text \<open>A timestamp cell is converted to the microsecond that contains it, rounding towards minus
  infinity, as long as the product with the unit's factor fits 64 bits; seconds and milliseconds
  beyond that range are silently wrapped, so that the partition of a time far in the future is one of
  the past.\<close>

theorem timestamp_partition_value:
  assumes "- (2 ^ 63) \<le> v * ts_mul u" "v * ts_mul u \<le> max_int64"
  shows "(\<exists>conv. converter (TIMESTAMP u) TimestampType = Some conv \<and>
      conv (CInt v) = Inr (VTimestamp (word_of_int (v * ts_mul u div ts_div u)))) \<and>
    (\<exists>conv. converter (TIMESTAMP Second) TimestampType = Some conv \<and>
      conv (CInt 9223372036855) = Inr (VTimestamp (word_of_int (- 9223372036854551616))))"
proof
  have "0 < ts_div u" by (simp add: ts_div_def split: time_unit.splits)
  then show "\<exists>conv. converter (TIMESTAMP u) TimestampType = Some conv \<and>
      conv (CInt v) = Inr (VTimestamp (word_of_int (v * ts_mul u div ts_div u)))"
    using assms by (simp add: converter_def intReader_def wrap64_id floorDiv_eq)
  show "\<exists>conv. converter (TIMESTAMP Second) TimestampType = Some conv \<and>
      conv (CInt 9223372036855) = Inr (VTimestamp (word_of_int (- 9223372036854551616)))"
    by (simp add: converter_def intReader_def ts_mul_def ts_div_def wrap64_def floorDiv_eq)
qed

theorem timestamp_partition_value_witness:
  "\<exists>conv. converter (TIMESTAMP Nanosecond) TimestampType = Some conv \<and>
     conv (CInt (- 1)) = Inr (VTimestamp (word_of_int (- 1)))"
  using timestamp_partition_value[of "- 1" Nanosecond] by (simp add: ts_mul_def ts_div_def max_int64_def)

end
