(* ===== verification/Iceberg_Commit.thy ===== *)
theory Iceberg_Commit
  imports Partition "HOL-Library.Multiset"
begin

text \<open>
  Committing the files of a writer to an Iceberg table (\<open>pkg/icebergjob/commit_shared.go\<close>,
  \<open>pkg/catalogwriter/retry.go\<close> and \<open>ComputeIdempotencyKey\<close> of \<open>pkg/datagateway/commit_pool.go\<close>).

  The catalog, the transaction and the reading of manifests and Parquet footers belong to
  \<open>iceberg-go\<close>; they are the record \<open>catalog\<close> of functions on an arbitrary state of the world, and the
  theorems name what they rely on. A context that is cancelled and the sleep between attempts are
  answered by the record \<open>retry_env\<close>. Backoff durations are not modelled: they only decide how long
  the sleep lasts.
\<close>

section \<open>Errors and tables\<close>

datatype commit_error = ErrCommitFailed string | ErrIdempotencyHit | PlainError string

text \<open>Errors of the library: a commit conflict (HTTP 409) or another error.\<close>

datatype lib_error = Conflict string | LibError string

definition of_lib :: "lib_error \<Rightarrow> commit_error" where
  "of_lib e = (case e of Conflict t \<Rightarrow> ErrCommitFailed t | LibError t \<Rightarrow> PlainError t)"

definition lib_text :: "lib_error \<Rightarrow> string" where
  "lib_text e = (case e of Conflict t \<Rightarrow> t | LibError t \<Rightarrow> t)"

text \<open>\<open>fmt.Errorf("...: %w")\<close>: the text grows, what \<open>errors.Is\<close> finds stays.\<close>

definition wrap_error :: "string \<Rightarrow> commit_error \<Rightarrow> commit_error" where
  "wrap_error pre e =
     (case e of ErrCommitFailed t \<Rightarrow> ErrCommitFailed (pre @ t) | ErrIdempotencyHit \<Rightarrow> ErrIdempotencyHit
      | PlainError t \<Rightarrow> PlainError (pre @ t))"

definition IsCommitConflict :: "commit_error \<Rightarrow> bool" where
  "IsCommitConflict e \<longleftrightarrow> (\<exists>t. e = ErrCommitFailed t)"

lemma IsCommitConflict_code [code]:
  "IsCommitConflict e = (case e of ErrCommitFailed t \<Rightarrow> True | _ \<Rightarrow> False)"
  by (simp add: IsCommitConflict_def split: commit_error.splits)

record snapshot =
  sn_id :: int
  sn_summary :: "string gomap option"

record table_meta =
  tm_snapshots :: "snapshot list"
  tm_current :: "snapshot option"
  tm_defaultSpec :: int
  tm_specs :: "int list"
  tm_version :: int
  tm_nextRowID :: int
  tm_numRetries :: nat

datatype entry_content = EntryContentData | EntryContentPosDeletes | EntryContentEqDeletes

record iceberg_file =
  ib_path :: string
  ib_content :: entry_content
  ib_count :: int
  ib_tuple :: "tuple option"
  ib_firstRowID :: "int option"

datatype txn_op =
  AddFiles "string list" "string gomap"
  | AddDataFiles "iceberg_file list" "string gomap"
  | ReplaceDataFiles "string list" "string list" "string gomap"
  | ReplaceDataFilesWithDataFiles "iceberg_file list" "iceberg_file list" "string gomap"

record 'w catalog =
  ct_load :: "'w \<Rightarrow> 'w \<times> (lib_error + table_meta)"
  ct_fs :: "table_meta \<Rightarrow> lib_error option"
  ct_manifests :: "table_meta \<Rightarrow> snapshot \<Rightarrow> lib_error + (lib_error + iceberg_file list) list"
  ct_footer :: "table_meta \<Rightarrow> string \<Rightarrow> lib_error + int"
  ct_newDataFile :: "table_meta \<Rightarrow> string \<Rightarrow> tuple \<Rightarrow> lib_error option"
  ct_stage :: "table_meta \<Rightarrow> txn_op \<Rightarrow> lib_error option"
  ct_commit :: "'w \<Rightarrow> table_meta \<Rightarrow> txn_op \<Rightarrow> 'w \<times> (lib_error + table_meta)"

section \<open>Retrying on conflict\<close>

record retry_env =
  re_ctxErr :: "nat \<Rightarrow> string option"
  re_sleep :: "nat \<Rightarrow> string option"

definition DefaultMaxRetries :: nat where
  "DefaultMaxRetries = 5"

text \<open>\<open>retry_loop re limit k fn s\<close> makes the last \<open>k\<close> of \<open>limit\<close> attempts.\<close>

fun retry_loop ::
    "retry_env \<Rightarrow> nat \<Rightarrow> nat \<Rightarrow> ('s \<Rightarrow> 's \<times> commit_error option) \<Rightarrow> 's \<Rightarrow> 's \<times> commit_error option" where
  "retry_loop re limit 0 fn s = (s, Some (PlainError (''commit failed after '' @ nat_str limit @ '' attempts: '')))"
| "retry_loop re limit (Suc k) fn s =
     (let attempt = limit - k in
      case re_ctxErr re attempt of
        Some e \<Rightarrow> (s, Some (PlainError e))
      | None \<Rightarrow>
          (case fn s of
             (s', None) \<Rightarrow> (s', None)
           | (s', Some e) \<Rightarrow>
               if \<not> IsCommitConflict e then (s', Some e)
               else if k = 0 then
                 (s', Some (wrap_error (''commit failed after '' @ nat_str limit @ '' attempts: '') e))
               else
                 (case re_sleep re attempt of
                    Some e' \<Rightarrow> (s', Some (PlainError e'))
                  | None \<Rightarrow> retry_loop re limit k fn s')))"

definition RetryOnConflict ::
    "retry_env \<Rightarrow> int \<Rightarrow> ('s \<Rightarrow> 's \<times> commit_error option) \<Rightarrow> 's \<Rightarrow> 's \<times> commit_error option" where
  "RetryOnConflict re maxAttempts fn s =
     (let limit = (if maxAttempts \<le> 0 then DefaultMaxRetries else nat maxAttempts) in retry_loop re limit limit fn s)"

section \<open>Committing\<close>

definition WriteModeAppend :: string where
  "WriteModeAppend = ''APPEND''"

definition WriteModeFullLoad :: string where
  "WriteModeFullLoad = ''FULL_LOAD''"

definition commit_key :: string where
  "commit_key = ''datuplet.commit-key''"

record commit_result =
  cr_snapshotIDBefore :: string
  cr_snapshotIDAfter :: string
  cr_dataFilesAdded :: nat
  cr_writeMode :: string
  cr_idempotencyHit :: bool

record partitioned_files =
  pt_specID :: int
  pt_tuples :: "tuple list"

definition snapshotIDOrEmpty :: "table_meta \<Rightarrow> string" where
  "snapshotIDOrEmpty t = (case tm_current t of None \<Rightarrow> [] | Some s \<Rightarrow> fmt_d (sn_id s))"

definition summary_value :: "snapshot \<Rightarrow> string \<Rightarrow> string" where
  "summary_value s k =
     (case sn_summary s of None \<Rightarrow> [] | Some m \<Rightarrow> (case map_of m k of None \<Rightarrow> [] | Some v \<Rightarrow> v))"

definition findSnapshotByCommitKey :: "table_meta \<Rightarrow> string \<Rightarrow> string" where
  "findSnapshotByCommitKey t key =
     (case find (\<lambda>s. sn_summary s \<noteq> None \<and> summary_value s commit_key = key) (rev (tm_snapshots t)) of
        None \<Rightarrow> [] | Some s \<Rightarrow> fmt_d (sn_id s))"

fun data_entries :: "(lib_error + iceberg_file list) list \<Rightarrow> commit_error + iceberg_file list" where
  "data_entries [] = Inr []"
| "data_entries (m # ms) =
     (case m of
        Inl e \<Rightarrow> Inl (wrap_error ''fetch manifest entries: '' (of_lib e))
      | Inr es \<Rightarrow>
          (case data_entries ms of
             Inl e \<Rightarrow> Inl e
           | Inr fs \<Rightarrow> Inr (filter (\<lambda>f. ib_content f = EntryContentData) es @ fs)))"

definition currentSnapshotDataFiles :: "'w catalog \<Rightarrow> table_meta \<Rightarrow> commit_error + iceberg_file list" where
  "currentSnapshotDataFiles cat t =
     (case tm_current t of
        None \<Rightarrow> Inr []
      | Some s \<Rightarrow>
          (case ct_fs cat t of
             Some e \<Rightarrow> Inl (wrap_error ''open table FS: '' (of_lib e))
           | None \<Rightarrow>
               (case ct_manifests cat t s of
                  Inl e \<Rightarrow> Inl (wrap_error ''read manifest list: '' (of_lib e))
                | Inr ms \<Rightarrow> data_entries ms)))"

definition spec_changed :: "int \<Rightarrow> int \<Rightarrow> string" where
  "spec_changed old new =
     ''partition spec changed during the run (spec id '' @ fmt_d old @ '' '' @ rightwards_arrow @ '' '' @
     fmt_d new @ '')''"

definition build_one :: "'w catalog \<Rightarrow> table_meta \<Rightarrow> string \<Rightarrow> tuple \<Rightarrow> string + iceberg_file" where
  "build_one cat t path tup =
     (case ct_footer cat t path of
        Inl e \<Rightarrow> Inl (''read footer of '' @ path @ '': '' @ lib_text e)
      | Inr cnt \<Rightarrow>
          (case ct_newDataFile cat t path tup of
             Some e \<Rightarrow> Inl (''data file '' @ path @ '': '' @ lib_text e)
           | None \<Rightarrow>
               Inr \<lparr>ib_path = path, ib_content = EntryContentData, ib_count = cnt, ib_tuple = Some tup,
                    ib_firstRowID = None\<rparr>))"

text \<open>Footers are read concurrently; the errors are joined in the order of the paths.\<close>

definition buildDataFiles ::
    "'w catalog \<Rightarrow> table_meta \<Rightarrow> string list \<Rightarrow> partitioned_files \<Rightarrow> string + iceberg_file list" where
  "buildDataFiles cat t paths part =
     (if length (pt_tuples part) \<noteq> length paths then
        Inl (''CommitTableFiles: '' @ nat_str (length (pt_tuples part)) @ '' partition tuples for '' @
          nat_str (length paths) @ '' files'')
      else if pt_specID part \<notin> set (tm_specs t) then
        Inl (spec_changed (pt_specID part) (tm_defaultSpec t))
      else
        (case ct_fs cat t of
           Some e \<Rightarrow> Inl (''open table FS: '' @ lib_text e)
         | None \<Rightarrow>
             (let rs = map (\<lambda>(p, tup). build_one cat t p tup) (zip paths (pt_tuples part));
                  errs = map projl (filter isl rs)
              in if errs \<noteq> [] then Inl (strings_Join errs [CHR 0x0A]) else Inr (map projr rs))))"

fun assignFirstRowIDs :: "iceberg_file list \<Rightarrow> int \<Rightarrow> iceberg_file list" where
  "assignFirstRowIDs [] next = []"
| "assignFirstRowIDs (f # fs) next = f\<lparr>ib_firstRowID := Some next\<rparr> # assignFirstRowIDs fs (next + ib_count f)"

record 'w attempt =
  at_world :: 'w
  at_result :: commit_result
  at_files :: "iceberg_file list"

text \<open>The checks of a partitioned commit against the table as it is now.\<close>

definition check_partition :: "string \<Rightarrow> table_meta \<Rightarrow> partitioned_files option \<Rightarrow> commit_error option" where
  "check_partition ident t part =
     (case part of
        None \<Rightarrow> None
      | Some p \<Rightarrow>
          if tm_defaultSpec t \<noteq> pt_specID p then Some (PlainError (spec_changed (pt_specID p) (tm_defaultSpec t)))
          else if tm_version t \<ge> 3 \<and> tm_numRetries t > 0 then
            Some (PlainError (''table '' @ ident @ '' has commit.retry.num-retries='' @ nat_str (tm_numRetries t) @
              '': partitioned v3 commits assign explicit first_row_ids, which iceberg-go'' @ [CHR 0x27] @
              ''s internal retry does not re-base; set it to 0''))
          else None)"

definition build_txn ::
    "'w catalog \<Rightarrow> table_meta \<Rightarrow> string list \<Rightarrow> partitioned_files option \<Rightarrow> iceberg_file list \<Rightarrow> string \<Rightarrow>
     string gomap \<Rightarrow> commit_error + txn_op" where
  "build_txn cat t paths part files mode props =
     (if mode = WriteModeFullLoad then
        (case currentSnapshotDataFiles cat t of
           Inl e \<Rightarrow> Inl (wrap_error ''list current snapshot files: '' e)
         | Inr old \<Rightarrow>
             Inr (if part \<noteq> None then ReplaceDataFilesWithDataFiles old files props
                  else ReplaceDataFiles (map ib_path old) paths props))
      else Inr (if part \<noteq> None then AddDataFiles files props else AddFiles paths props))"

text \<open>The transaction of one attempt on the table just loaded.\<close>

definition commit_txn ::
    "'w catalog \<Rightarrow> string list \<Rightarrow> partitioned_files option \<Rightarrow> string \<Rightarrow> string gomap \<Rightarrow> table_meta \<Rightarrow>
     'w attempt \<Rightarrow> 'w attempt \<times> commit_error option" where
  "commit_txn cat paths part mode props fresh st =
     (case build_txn cat fresh paths part (at_files st) mode props of
        Inl e \<Rightarrow> (st, Some e)
      | Inr op \<Rightarrow>
          (case ct_stage cat fresh op of
             Some e \<Rightarrow> (st, Some (of_lib e))
           | None \<Rightarrow>
               (case ct_commit cat (at_world st) fresh op of
                  (w', Inl e) \<Rightarrow> (st\<lparr>at_world := w'\<rparr>, Some (of_lib e))
                | (w', Inr t) \<Rightarrow>
                    (st\<lparr>at_world := w',
                        at_result := (at_result st)\<lparr>cr_snapshotIDAfter := snapshotIDOrEmpty t\<rparr>\<rparr>, None))))"

definition with_row_ids :: "partitioned_files option \<Rightarrow> table_meta \<Rightarrow> 'w attempt \<Rightarrow> 'w attempt" where
  "with_row_ids part t st =
     (if part \<noteq> None \<and> tm_version t \<ge> 3
      then st\<lparr>at_files := assignFirstRowIDs (at_files st) (tm_nextRowID t)\<rparr> else st)"

definition commit_attempt ::
    "'w catalog \<Rightarrow> string \<Rightarrow> string list \<Rightarrow> partitioned_files option \<Rightarrow> string \<Rightarrow> string gomap \<Rightarrow> string \<Rightarrow>
     'w attempt \<Rightarrow> 'w attempt \<times> commit_error option" where
  "commit_attempt cat ident paths part mode props key st =
     (case ct_load cat (at_world st) of
        (w, Inl e) \<Rightarrow> (st\<lparr>at_world := w\<rparr>, Some (of_lib e))
      | (w, Inr fresh) \<Rightarrow>
          let st1 = st\<lparr>at_world := w\<rparr>; sid = findSnapshotByCommitKey fresh key in
          if key \<noteq> [] \<and> sid \<noteq> [] then
            (st1\<lparr>at_result := (at_result st)\<lparr>cr_snapshotIDAfter := sid\<rparr>\<rparr>, Some ErrIdempotencyHit)
          else
            (case check_partition ident fresh part of
               Some e \<Rightarrow> (st1, Some e)
             | None \<Rightarrow> commit_txn cat paths part mode props fresh (with_row_ids part fresh st1)))"

definition zero_result :: "string \<Rightarrow> commit_result" where
  "zero_result mode =
     \<lparr>cr_snapshotIDBefore = [], cr_snapshotIDAfter = [], cr_dataFilesAdded = 0, cr_writeMode = mode,
      cr_idempotencyHit = False\<rparr>"

definition error_of :: "commit_error \<Rightarrow> string" where
  "error_of e = (case e of ErrCommitFailed t \<Rightarrow> t | ErrIdempotencyHit \<Rightarrow> ''icebergjob: idempotency hit'' | PlainError t \<Rightarrow> t)"

text \<open>The retried part of \<open>CommitTableFiles\<close> and what becomes of its outcome.\<close>

definition commit_files ::
    "'w catalog \<Rightarrow> retry_env \<Rightarrow> string \<Rightarrow> string list \<Rightarrow> partitioned_files option \<Rightarrow> string \<Rightarrow> string gomap \<Rightarrow> string \<Rightarrow>
     'w attempt \<Rightarrow> 'w \<times> (string + commit_result)" where
  "commit_files cat re ident paths part mode props key st =
     (case RetryOnConflict re 0 (commit_attempt cat ident paths part mode props key) st of
        (st', None) \<Rightarrow> (at_world st', Inr (at_result st'))
      | (st', Some e) \<Rightarrow>
          if e = ErrIdempotencyHit then (at_world st', Inr ((at_result st')\<lparr>cr_idempotencyHit := True\<rparr>))
          else (at_world st', Inl (error_of e)))"

definition commit_props :: "string gomap \<Rightarrow> string \<Rightarrow> string gomap" where
  "commit_props snapshotProps key = (if key \<noteq> [] then assoc_put commit_key key snapshotProps else snapshotProps)"

definition CommitTableFiles ::
    "'w catalog \<Rightarrow> retry_env \<Rightarrow> string \<Rightarrow> string list \<Rightarrow> partitioned_files option \<Rightarrow> string \<Rightarrow> string gomap \<Rightarrow> string \<Rightarrow>
     'w \<Rightarrow> 'w \<times> (string + commit_result)" where
  "CommitTableFiles cat re ident dataPaths part mode snapshotProps key w =
     (if dataPaths = [] then (w, Inr (zero_result mode))
      else if mode \<noteq> WriteModeAppend \<and> mode \<noteq> WriteModeFullLoad then
        (w, Inl (''CommitTableFiles: unsupported write mode '' @ fmt_q mode))
      else if commit_key \<in> fst ` set snapshotProps then
        (w, Inl ''CommitTableFiles: caller must not set snapshotProps[datuplet.commit-key]; pass idempotencyKey'')
      else
        (case ct_load cat w of
           (w1, Inl e) \<Rightarrow> (w1, Inl (''CommitTableFiles: load table '' @ ident @ '': '' @ lib_text e))
         | (w1, Inr tbl) \<Rightarrow>
             let result = (zero_result mode)\<lparr>cr_snapshotIDBefore := snapshotIDOrEmpty tbl,
                                             cr_dataFilesAdded := length dataPaths\<rparr>
             in (case (case part of None \<Rightarrow> Inr [] | Some p \<Rightarrow> buildDataFiles cat tbl dataPaths p) of
                   Inl e \<Rightarrow> (w1, Inl e)
                 | Inr files \<Rightarrow>
                     commit_files cat re ident dataPaths part mode (commit_props snapshotProps key) key
                       \<lparr>at_world = w1, at_result = result, at_files = files\<rparr>)))"

section \<open>Idempotency keys\<close>

definition key_preimage :: "string \<Rightarrow> string \<Rightarrow> string \<Rightarrow> string list \<Rightarrow> string" where
  "key_preimage runID ns tbl paths =
     runID @ [CHR 0x00] @ ns @ [CHR 0x00] @ tbl @ [CHR 0x00] @
     concat (map (\<lambda>p. p @ [CHR 0x00]) (sort paths))"

text \<open>SHA-256 with hexadecimal output is an argument.\<close>

definition ComputeIdempotencyKey ::
    "(string \<Rightarrow> string) \<Rightarrow> string \<Rightarrow> string \<Rightarrow> string \<Rightarrow> string list \<Rightarrow> string" where
  "ComputeIdempotencyKey sha256hex runID ns tbl paths = sha256hex (key_preimage runID ns tbl paths)"

section \<open>Exactly-once commits\<close>

definition carries :: "string \<Rightarrow> snapshot \<Rightarrow> bool" where
  "carries key s \<longleftrightarrow> summary_value s commit_key = key"

text \<open>The snapshots of a history that carry a commit key.\<close>

definition keyed :: "string \<Rightarrow> snapshot list \<Rightarrow> nat" where
  "keyed key ss = length (filter (carries key) ss)"

lemma keyed_append [simp]: "keyed key (xs @ ys) = keyed key xs + keyed key ys"
  by (simp add: keyed_def)

lemma fmt_d_nonempty [simp]: "fmt_d i \<noteq> []"
  using nat_str_digits by (simp add: fmt_d_def)

lemma findSnapshotByCommitKey_iff:
  assumes "key \<noteq> []"
  shows "findSnapshotByCommitKey t key = [] \<longleftrightarrow> keyed key (tm_snapshots t) = 0"
proof -
  have "(\<lambda>s. sn_summary s \<noteq> None \<and> summary_value s commit_key = key) = carries key"
    using assms by (auto simp: carries_def summary_value_def fun_eq_iff split: option.splits)
  then have "findSnapshotByCommitKey t key = [] \<longleftrightarrow> find (carries key) (rev (tm_snapshots t)) = None"
    by (simp add: findSnapshotByCommitKey_def split: option.splits)
  then show ?thesis by (auto simp: find_None_iff keyed_def filter_empty_conv)
qed

fun op_props :: "txn_op \<Rightarrow> string gomap" where
  "op_props (AddFiles _ ps) = ps"
| "op_props (AddDataFiles _ ps) = ps"
| "op_props (ReplaceDataFiles _ _ ps) = ps"
| "op_props (ReplaceDataFilesWithDataFiles _ _ ps) = ps"

text \<open>What the commits rely on: \<open>hist\<close> are the snapshots of the table in the catalog. Loading returns
  the table with the snapshots it then has. A transaction either leaves no trace and reports an
  error, or adds one snapshot whose summary has the properties it was given, whether or not the answer
  reaches the caller. Other writers may commit at any time, with other keys; no snapshot is removed.\<close>

definition txn_outcome ::
    "string \<Rightarrow> snapshot list \<Rightarrow> snapshot list \<Rightarrow> txn_op \<Rightarrow> lib_error + table_meta \<Rightarrow> bool" where
  "txn_outcome key old new op r \<longleftrightarrow>
     (\<exists>before after s. keyed key before = 0 \<and> keyed key after = 0 \<and>
        (new = old @ before \<and> isl r \<or>
         new = old @ before @ [s] @ after \<and>
           (\<forall>k v. map_of (op_props op) k = Some v \<longrightarrow> summary_value s k = v)))"

definition catalog_history :: "'w catalog \<Rightarrow> ('w \<Rightarrow> snapshot list) \<Rightarrow> string \<Rightarrow> bool" where
  "catalog_history cat hist key \<longleftrightarrow>
     (\<forall>w w' r. ct_load cat w = (w', r) \<longrightarrow>
        (\<exists>others. hist w' = hist w @ others \<and> keyed key others = 0) \<and>
        (\<forall>t. r = Inr t \<longrightarrow> tm_snapshots t = hist w')) \<and>
     (\<forall>w t op w' r. ct_commit cat w t op = (w', r) \<longrightarrow> txn_outcome key (hist w) (hist w') op r)"

lemma catalog_load:
  assumes "catalog_history cat hist key" "ct_load cat w = (w', r)"
  shows "keyed key (hist w') = keyed key (hist w)" "r = Inr t \<Longrightarrow> tm_snapshots t = hist w'"
proof -
  have "(\<exists>others. hist w' = hist w @ others \<and> keyed key others = 0) \<and> (\<forall>t. r = Inr t \<longrightarrow> tm_snapshots t = hist w')"
    using assms unfolding catalog_history_def by blast
  then show "keyed key (hist w') = keyed key (hist w)" "r = Inr t \<Longrightarrow> tm_snapshots t = hist w'" by auto
qed

lemma catalog_commit:
  assumes "catalog_history cat hist key" "ct_commit cat w t op = (w', r)"
    "map_of (op_props op) commit_key = Some key"
  shows "keyed key (hist w') = keyed key (hist w) \<and> isl r \<or> keyed key (hist w') = Suc (keyed key (hist w))"
proof -
  have "txn_outcome key (hist w) (hist w') op r" using assms(1,2) unfolding catalog_history_def by blast
  then obtain before after s where b: "keyed key before = 0" "keyed key after = 0"
      and cases: "hist w' = hist w @ before \<and> isl r \<or>
        hist w' = hist w @ before @ [s] @ after \<and> summary_value s commit_key = key"
    using assms(3) unfolding txn_outcome_def by metis
  from cases show ?thesis
  proof
    assume "hist w' = hist w @ before \<and> isl r"
    then show ?thesis using b by simp
  next
    assume applied: "hist w' = hist w @ before @ [s] @ after \<and> summary_value s commit_key = key"
    then have "carries key s" by (simp add: carries_def)
    then show ?thesis using applied b by (simp add: keyed_def)
  qed
qed

lemma build_txn_props: "build_txn cat t paths part files mode props = Inr op \<Longrightarrow> op_props op = props"
  by (auto simp: build_txn_def split: if_splits sum.splits)

lemma of_lib_not_hit [simp]: "of_lib e \<noteq> ErrIdempotencyHit"
  by (simp add: of_lib_def split: lib_error.splits)

lemma wrap_error_hit [simp]: "wrap_error p e = ErrIdempotencyHit \<longleftrightarrow> e = ErrIdempotencyHit"
  by (simp add: wrap_error_def split: commit_error.splits)

lemma data_entries_not_hit: "data_entries ms \<noteq> Inl ErrIdempotencyHit"
  by (induction ms) (auto split: sum.splits)

lemma build_txn_not_hit: "build_txn cat t paths part files mode props \<noteq> Inl ErrIdempotencyHit"
  using data_entries_not_hit
  by (auto simp: build_txn_def currentSnapshotDataFiles_def split: sum.splits option.splits)

lemma check_partition_not_hit: "check_partition ident t part \<noteq> Some ErrIdempotencyHit"
  by (simp add: check_partition_def split: option.splits)

text \<open>The outcomes that end the retries with success.\<close>

definition landed :: "commit_error option \<Rightarrow> bool" where
  "landed r \<longleftrightarrow> r = None \<or> r = Some ErrIdempotencyHit"

lemma landed_simps [simp]:
  "landed None" "landed (Some e) \<longleftrightarrow> e = ErrIdempotencyHit"
  by (auto simp: landed_def)

lemma row_ids_paths [simp]: "map ib_path (assignFirstRowIDs fs n) = map ib_path fs"
  by (induction fs arbitrary: n) auto

lemma with_row_ids_frame [simp]:
  "at_world (with_row_ids part t st) = at_world st" "map ib_path (at_files (with_row_ids part t st)) = map ib_path (at_files st)"
  by (simp_all add: with_row_ids_def)

lemma txn_cases:
  assumes "commit_txn cat paths part mode props t st = (st', r)"
  shows "at_world st' = at_world st \<and> \<not> landed r \<or>
    (\<exists>op c. build_txn cat t paths part (at_files st) mode props = Inr op \<and>
       ct_commit cat (at_world st) t op = (at_world st', c) \<and> (landed r \<longleftrightarrow> \<not> isl c))"
    and "at_files st' = at_files st"
  using assms build_txn_not_hit[of cat t paths part "at_files st" mode props]
  by (auto simp: commit_txn_def split: sum.splits option.splits prod.splits)

text \<open>An attempt loads the table; then it finds the key, gives up before the transaction, or commits one.\<close>

lemma attempt_cases:
  assumes "commit_attempt cat ident paths part mode props key st = (st', r)"
  obtains (stopped) l where "ct_load cat (at_world st) = (at_world st', l)" "\<not> landed r"
      "map ib_path (at_files st') = map ib_path (at_files st)"
  | (hit) t where "ct_load cat (at_world st) = (at_world st', Inr t)" "key \<noteq> []"
      "findSnapshotByCommitKey t key \<noteq> []" "landed r" "map ib_path (at_files st') = map ib_path (at_files st)"
  | (tried) w t op c where "ct_load cat (at_world st) = (w, Inr t)" "key = [] \<or> findSnapshotByCommitKey t key = []"
      "build_txn cat t paths part (at_files st') mode props = Inr op"
      "ct_commit cat w t op = (at_world st', c)" "landed r \<longleftrightarrow> \<not> isl c"
      "map ib_path (at_files st') = map ib_path (at_files st)"
proof -
  obtain w l where load: "ct_load cat (at_world st) = (w, l)" by (cases "ct_load cat (at_world st)")
  show thesis
  proof (cases l)
    case (Inl e)
    then show thesis using assms load by (intro stopped) (auto simp: commit_attempt_def)
  next
    case (Inr t)
    consider (found) "key \<noteq> [] \<and> findSnapshotByCommitKey t key \<noteq> []"
      | (refused) e where "\<not> (key \<noteq> [] \<and> findSnapshotByCommitKey t key \<noteq> [])" "check_partition ident t part = Some e"
      | (txn) "\<not> (key \<noteq> [] \<and> findSnapshotByCommitKey t key \<noteq> [])" "check_partition ident t part = None"
      by (cases "check_partition ident t part") blast+
    then show thesis
    proof cases
      case found
      then show thesis using assms load Inr by (intro hit[of t]) (auto simp: commit_attempt_def Let_def)
    next
      case refused
      then have "st' = st\<lparr>at_world := w\<rparr>" "r = Some e" using assms load Inr by (auto simp: commit_attempt_def Let_def split: if_splits)
      then show thesis using refused load check_partition_not_hit[of ident t part] by (intro stopped) simp_all
    next
      case txn
      define st1 where "st1 = with_row_ids part t (st\<lparr>at_world := w\<rparr>)"
      have "commit_txn cat paths part mode props t st1 = (st', r)"
        using txn assms load Inr by (auto simp: commit_attempt_def Let_def st1_def split: if_splits)
      note c = txn_cases[OF this]
      have frame: "at_world st1 = w" "map ib_path (at_files st') = map ib_path (at_files st)"
        using c(2) by (simp_all add: st1_def)
      from c(1) show thesis
      proof (elim disjE exE conjE)
        assume "at_world st' = at_world st1" "\<not> landed r"
        then show thesis using load frame by (intro stopped) simp_all
      next
        fix op c
        assume "build_txn cat t paths part (at_files st1) mode props = Inr op"
          "ct_commit cat (at_world st1) t op = (at_world st', c)" "landed r = (\<not> isl c)"
        then show thesis using load Inr frame c(2) txn(1) by (intro tried[of w t op c]) auto
      qed
    qed
  qed
qed

text \<open>A rule for the retries: what every attempt keeps, and what an attempt that lands establishes.\<close>

lemma retry_loop_rule:
  assumes attempt: "\<And>s s' r. I s \<Longrightarrow> fn s = (s', r) \<Longrightarrow> I s' \<and> (landed r \<longrightarrow> Q s')"
  shows "I s \<Longrightarrow> retry_loop re limit k fn s = (s', r) \<Longrightarrow> I s' \<and> (landed r \<longrightarrow> Q s')"
proof (induction k arbitrary: s)
  case 0
  then show ?case by auto
next
  case (Suc k)
  obtain s1 r1 where fn: "fn s = (s1, r1)" by (cases "fn s")
  note step = attempt[OF Suc.prems(1) fn]
  show ?case
  proof (cases "re_ctxErr re (limit - k)")
    case (Some e)
    then show ?thesis using Suc.prems by auto
  next
    case None
    consider (stop) "r1 = None \<or> (\<exists>e. r1 = Some e \<and> \<not> IsCommitConflict e)"
      | (conflict) e where "r1 = Some e" "IsCommitConflict e" by (cases r1) auto
    then show ?thesis
    proof cases
      case stop
      then show ?thesis using Suc.prems(2) None fn step by auto
    next
      case conflict
      then have "e \<noteq> ErrIdempotencyHit" by (auto simp: IsCommitConflict_def)
      then show ?thesis using Suc.prems(2) None fn step conflict Suc.IH[of s1]
        by (auto split: if_splits option.splits)
    qed
  qed
qed

lemma RetryOnConflict_rule:
  assumes "RetryOnConflict re n fn s = (s', r)" "I s"
    and "\<And>s s' r. I s \<Longrightarrow> fn s = (s', r) \<Longrightarrow> I s' \<and> (landed r \<longrightarrow> Q s')"
  shows "I s' \<and> (landed r \<longrightarrow> Q s')"
  using assms(1) unfolding RetryOnConflict_def Let_def
  by (rule retry_loop_rule[of I fn Q, OF _ assms(2), rotated]) (rule assms(3))

lemma attempt_keyed:
  assumes law: "catalog_history cat hist key" and key: "key \<noteq> []" "map_of props commit_key = Some key"
    and once: "keyed key (hist (at_world st)) \<le> 1"
    and att: "commit_attempt cat ident paths part mode props key st = (st', r)"
  shows "keyed key (hist (at_world st)) \<le> keyed key (hist (at_world st')) \<and>
    keyed key (hist (at_world st')) \<le> 1 \<and> (landed r \<longrightarrow> keyed key (hist (at_world st')) = 1)"
  using att
proof (cases rule: attempt_cases)
  case (stopped l)
  then show ?thesis using catalog_load(1)[OF law stopped(1)] once by simp
next
  case (hit t)
  have "keyed key (hist (at_world st')) \<noteq> 0"
    using hit findSnapshotByCommitKey_iff[OF key(1), of t] catalog_load(2)[OF law hit(1)] by simp
  then show ?thesis using catalog_load(1)[OF law hit(1)] once by simp
next
  case (tried w t op c)
  have "tm_snapshots t = hist w" using catalog_load(2)[OF law tried(1)] by simp
  then have none: "keyed key (hist w) = 0" using tried(2) key(1) findSnapshotByCommitKey_iff[OF key(1), of t] by simp
  have "map_of (op_props op) commit_key = Some key" using build_txn_props[OF tried(3)] key(2) by simp
  from catalog_commit[OF law tried(4) this] none tried(5) catalog_load(1)[OF law tried(1)] show ?thesis by auto
qed

lemma commit_props_key: "key \<noteq> [] \<Longrightarrow> map_of (commit_props ps key) commit_key = Some key"
  by (simp add: commit_props_def map_of_assoc_put)

lemma commit_keyed:
  assumes law: "catalog_history cat hist key" and key: "key \<noteq> []" and once: "keyed key (hist w) \<le> 1"
    and commit: "CommitTableFiles cat re ident paths part mode ps key w = (w', r)"
  shows "keyed key (hist w) \<le> keyed key (hist w') \<and> keyed key (hist w') \<le> 1 \<and>
    (paths \<noteq> [] \<longrightarrow> \<not> isl r \<longrightarrow> keyed key (hist w') = 1)"
proof -
  obtain w1 l where load: "ct_load cat w = (w1, l)" by (cases "ct_load cat w")
  have once1: "keyed key (hist w1) = keyed key (hist w)" using catalog_load(1)[OF law load] .
  have retried: "keyed key (hist w) \<le> keyed key (hist v) \<and> keyed key (hist v) \<le> 1 \<and> (\<not> isl x \<longrightarrow> keyed key (hist v) = 1)"
    if "commit_files cat re ident paths part mode (commit_props ps key) key st = (v, x)" "at_world st = w1" for st v x
  proof -
    let ?fn = "commit_attempt cat ident paths part mode (commit_props ps key) key"
    let ?I = "\<lambda>st. keyed key (hist w) \<le> keyed key (hist (at_world st)) \<and> keyed key (hist (at_world st)) \<le> 1"
    obtain st' y where retry: "RetryOnConflict re 0 ?fn st = (st', y)" by (cases "RetryOnConflict re 0 ?fn st")
    have "?I st' \<and> (landed y \<longrightarrow> keyed key (hist (at_world st')) = 1)"
    proof (rule RetryOnConflict_rule[OF retry])
      show "?I st" using once1 once that(2) by simp
    next
      fix s s' r assume "?I s" "?fn s = (s', r)"
      then show "?I s' \<and> (landed r \<longrightarrow> keyed key (hist (at_world s')) = 1)"
        using attempt_keyed[OF law key commit_props_key[OF key]] by (meson order_trans)
    qed
    then show ?thesis using that(1) retry by (auto simp: commit_files_def split: option.splits if_splits)
  qed
  show ?thesis
    using commit once once1 load retried unfolding CommitTableFiles_def
    by (auto simp: Let_def split: if_splits sum.splits)
qed

section \<open>What a commit does to the table\<close>

text \<open>The data files a transaction removes and adds, by path.\<close>

fun op_removed :: "txn_op \<Rightarrow> string set" where
  "op_removed (ReplaceDataFiles old _ _) = set old"
| "op_removed (ReplaceDataFilesWithDataFiles old _ _) = ib_path ` set old"
| "op_removed _ = {}"

fun op_added :: "txn_op \<Rightarrow> string set" where
  "op_added (AddFiles paths _) = set paths"
| "op_added (AddDataFiles files _) = ib_path ` set files"
| "op_added (ReplaceDataFiles _ paths _) = set paths"
| "op_added (ReplaceDataFilesWithDataFiles _ files _) = ib_path ` set files"

text \<open>The data files the manifests of a table list, when they can be read.\<close>

definition listed :: "'w catalog \<Rightarrow> table_meta \<Rightarrow> string set \<Rightarrow> bool" where
  "listed cat t live \<longleftrightarrow>
     (tm_current t = None \<longrightarrow> live = {}) \<and>
     (\<forall>s ms. tm_current t = Some s \<longrightarrow> ct_manifests cat t s = Inr ms \<longrightarrow> list_all (\<lambda>m. \<not> isl m) ms \<longrightarrow>
        live = ib_path ` {f. ib_content f = EntryContentData \<and> (\<exists>m \<in> set ms. f \<in> set (projr m))})"

text \<open>The same contract as \<^const>\<open>catalog_history\<close> when nobody else writes to the table, with the live data
  files: a transaction adds its snapshot exactly when it removes and adds its files.\<close>

definition sole_outcome ::
    "('w \<Rightarrow> snapshot list) \<Rightarrow> ('w \<Rightarrow> string set) \<Rightarrow> 'w \<Rightarrow> 'w \<Rightarrow> txn_op \<Rightarrow> lib_error + table_meta \<Rightarrow> bool" where
  "sole_outcome hist live w w' op r \<longleftrightarrow>
     hist w' = hist w \<and> live w' = live w \<and> isl r \<or>
     live w' = live w - op_removed op \<union> op_added op \<and>
       (\<exists>s. hist w' = hist w @ [s] \<and> (\<forall>k v. map_of (op_props op) k = Some v \<longrightarrow> summary_value s k = v))"

definition sole_writer :: "'w catalog \<Rightarrow> ('w \<Rightarrow> snapshot list) \<Rightarrow> ('w \<Rightarrow> string set) \<Rightarrow> bool" where
  "sole_writer cat hist live \<longleftrightarrow>
     (\<forall>w w' r. ct_load cat w = (w', r) \<longrightarrow> hist w' = hist w \<and> live w' = live w \<and>
        (\<forall>t. r = Inr t \<longrightarrow> tm_snapshots t = hist w \<and> listed cat t (live w))) \<and>
     (\<forall>w t op w' r. ct_commit cat w t op = (w', r) \<longrightarrow> sole_outcome hist live w w' op r)"

lemma data_entries_Inr:
  "data_entries ms = Inr fs \<Longrightarrow> list_all (\<lambda>m. \<not> isl m) ms \<and>
     set fs = {f. ib_content f = EntryContentData \<and> (\<exists>m \<in> set ms. f \<in> set (projr m))}"
proof (induction ms arbitrary: fs)
  case (Cons m ms)
  from Cons.prems obtain es fs' where m: "m = Inr es" "data_entries ms = Inr fs'"
      "fs = filter (\<lambda>f. ib_content f = EntryContentData) es @ fs'"
    by (auto split: sum.splits)
  then show ?case using Cons.IH[OF m(2)] by auto
qed simp

lemma current_files_listed:
  assumes "listed cat t live" "currentSnapshotDataFiles cat t = Inr fs"
  shows "ib_path ` set fs = live"
proof (cases "tm_current t")
  case None
  then show ?thesis using assms by (simp add: listed_def currentSnapshotDataFiles_def)
next
  case (Some s)
  then obtain ms where ms: "ct_manifests cat t s = Inr ms" "data_entries ms = Inr fs"
    using assms(2) by (auto simp: currentSnapshotDataFiles_def split: option.splits sum.splits)
  then show ?thesis using assms(1) Some data_entries_Inr[OF ms(2)] by (simp add: listed_def)
qed

text \<open>The live files after a commit of \<open>paths\<close>.\<close>

definition committed :: "string \<Rightarrow> string list \<Rightarrow> string set \<Rightarrow> string set" where
  "committed mode paths live = (if mode = WriteModeFullLoad then set paths else live \<union> set paths)"

lemma build_txn_effect:
  assumes "listed cat t live" "build_txn cat t paths part files mode props = Inr op"
    "part \<noteq> None \<longrightarrow> map ib_path files = paths"
  shows "live - op_removed op \<union> op_added op = committed mode paths live"
proof -
  have "part \<noteq> None \<longrightarrow> ib_path ` set files = set paths" using assms(3) by auto
  then show ?thesis using assms(1,2) current_files_listed[of cat t live]
    by (auto simp: build_txn_def committed_def split: if_splits sum.splits)
qed

lemma sole_load:
  assumes "sole_writer cat hist live" "ct_load cat w = (w', r)"
  shows "hist w' = hist w" "live w' = live w" "r = Inr t \<Longrightarrow> tm_snapshots t = hist w \<and> listed cat t (live w)"
  using assms unfolding sole_writer_def by blast+

lemma sole_commit:
  assumes "sole_writer cat hist live" "ct_commit cat w t op = (w', r)" "map_of (op_props op) commit_key = Some key"
  shows "keyed key (hist w') = keyed key (hist w) \<and> live w' = live w \<and> isl r \<or>
    keyed key (hist w') = Suc (keyed key (hist w)) \<and> live w' = live w - op_removed op \<union> op_added op"
proof -
  have "sole_outcome hist live w w' op r" using assms(1,2) unfolding sole_writer_def by blast
  then consider "hist w' = hist w" "live w' = live w" "isl r"
    | s where "live w' = live w - op_removed op \<union> op_added op" "hist w' = hist w @ [s]" "carries key s"
    using assms(3) unfolding sole_outcome_def carries_def by blast
  then show ?thesis by cases (simp_all add: keyed_def)
qed

text \<open>Between attempts the commit either has not happened or is visible with its key.\<close>

definition at_most_applied ::
    "('w \<Rightarrow> snapshot list) \<Rightarrow> ('w \<Rightarrow> string set) \<Rightarrow> string \<Rightarrow> string \<Rightarrow> string list \<Rightarrow> string set \<Rightarrow> 'w \<Rightarrow> bool" where
  "at_most_applied hist live key mode paths old w \<longleftrightarrow>
     keyed key (hist w) = 0 \<and> live w = old \<or> keyed key (hist w) = 1 \<and> live w = committed mode paths old"

definition applied ::
    "('w \<Rightarrow> snapshot list) \<Rightarrow> ('w \<Rightarrow> string set) \<Rightarrow> string \<Rightarrow> string \<Rightarrow> string list \<Rightarrow> string set \<Rightarrow> 'w \<Rightarrow> bool" where
  "applied hist live key mode paths old w \<longleftrightarrow>
     keyed key (hist w) = 1 \<and> live w = committed mode paths old"

lemma attempt_effect:
  assumes law: "sole_writer cat hist live" and key: "key \<noteq> []" "map_of props commit_key = Some key"
    and inv: "at_most_applied hist live key mode paths old (at_world st)"
      "part \<noteq> None \<longrightarrow> map ib_path (at_files st) = paths"
    and att: "commit_attempt cat ident paths part mode props key st = (st', r)"
  shows "at_most_applied hist live key mode paths old (at_world st') \<and>
    (landed r \<longrightarrow> applied hist live key mode paths old (at_world st'))"
    and "part \<noteq> None \<longrightarrow> map ib_path (at_files st') = paths"
proof -
  show "part \<noteq> None \<longrightarrow> map ib_path (at_files st') = paths"
    using att inv(2) by (cases rule: attempt_cases) auto
  show "at_most_applied hist live key mode paths old (at_world st') \<and>
      (landed r \<longrightarrow> applied hist live key mode paths old (at_world st'))"
    using att
  proof (cases rule: attempt_cases)
    case (stopped l)
    then show ?thesis using sole_load[OF law stopped(1)] inv(1) by (simp add: at_most_applied_def)
  next
    case (hit t)
    note l = sole_load[OF law hit(1)]
    have "keyed key (hist (at_world st)) \<noteq> 0"
      using hit(2,3) findSnapshotByCommitKey_iff[OF key(1), of t] l(3)[OF refl] by simp
    then show ?thesis using l(1,2) inv(1) by (simp add: at_most_applied_def applied_def)
  next
    case (tried w t op c)
    note l = sole_load[OF law tried(1)]
    have "keyed key (hist w) = 0"
      using tried(2) key(1) findSnapshotByCommitKey_iff[OF key(1), of t] l(1) l(3)[OF refl] by simp
    then have w: "keyed key (hist w) = 0" "live w = old" using inv(1) l(1,2) by (simp_all add: at_most_applied_def)
    have "listed cat t old" using l(2) l(3)[OF refl] w(2) by simp
    from build_txn_effect[OF this tried(3)] have eff: "old - op_removed op \<union> op_added op = committed mode paths old"
      using tried(6) inv(2) by simp
    have "map_of (op_props op) commit_key = Some key" using build_txn_props[OF tried(3)] key(2) by simp
    from sole_commit[OF law tried(4) this] show ?thesis
      using w eff tried(5) by (auto simp: at_most_applied_def applied_def)
  qed
qed

lemma buildDataFiles_paths:
  assumes "buildDataFiles cat t paths part = Inr files"
  shows "map ib_path files = paths"
proof -
  let ?rs = "map (\<lambda>(p, tup). build_one cat t p tup) (zip paths (pt_tuples part))"
  have len: "length (pt_tuples part) = length paths" and ok: "filter isl ?rs = []" and files: "files = map projr ?rs"
    using assms by (auto simp: buildDataFiles_def Let_def split: if_splits option.splits)
  have "ib_path (projr (build_one cat t p tup)) = p" if "\<not> isl (build_one cat t p tup)" for p tup
    using that by (auto simp: build_one_def split: sum.splits option.splits)
  then have "map ib_path (map projr ?rs) = map fst (zip paths (pt_tuples part))"
    using ok by (auto simp: filter_empty_conv)
  then show ?thesis using files len by simp
qed

lemma commit_effect_lemma:
  assumes law: "sole_writer cat hist live" and key: "key \<noteq> []" and none: "keyed key (hist w) = 0"
    and commit: "CommitTableFiles cat re ident paths part mode ps key w = (w', Inr res)"
  shows "live w' = (if paths = [] then live w else committed mode paths (live w))"
proof (cases "paths = []")
  case True
  then show ?thesis using commit by (simp add: CommitTableFiles_def)
next
  case False
  obtain w1 t where load: "ct_load cat w = (w1, Inr t)"
    using commit False by (auto simp: CommitTableFiles_def split: if_splits prod.splits sum.splits)
  note l = sole_load[OF law load]
  obtain st where st: "at_world st = w1" "part \<noteq> None \<longrightarrow> map ib_path (at_files st) = paths"
      and cf: "commit_files cat re ident paths part mode (commit_props ps key) key st = (w', Inr res)"
    using commit False load buildDataFiles_paths
    by (fastforce simp: CommitTableFiles_def Let_def split: if_splits option.splits sum.splits)
  let ?fn = "commit_attempt cat ident paths part mode (commit_props ps key) key"
  obtain st' y where retry: "RetryOnConflict re 0 ?fn st = (st', y)" by (cases "RetryOnConflict re 0 ?fn st")
  have "(at_most_applied hist live key mode paths (live w) (at_world st') \<and>
      (part \<noteq> None \<longrightarrow> map ib_path (at_files st') = paths)) \<and>
      (landed y \<longrightarrow> applied hist live key mode paths (live w) (at_world st'))"
  proof (rule RetryOnConflict_rule[OF retry])
    show "at_most_applied hist live key mode paths (live w) (at_world st) \<and>
        (part \<noteq> None \<longrightarrow> map ib_path (at_files st) = paths)"
      using st l none by (simp add: at_most_applied_def)
  next
    fix s s' r
    assume s: "at_most_applied hist live key mode paths (live w) (at_world s) \<and>
        (part \<noteq> None \<longrightarrow> map ib_path (at_files s) = paths)" "?fn s = (s', r)"
    then show "(at_most_applied hist live key mode paths (live w) (at_world s') \<and>
        (part \<noteq> None \<longrightarrow> map ib_path (at_files s') = paths)) \<and>
        (landed r \<longrightarrow> applied hist live key mode paths (live w) (at_world s'))"
      using attempt_effect[OF law key commit_props_key[OF key] conjunct1[OF s(1)] conjunct2[OF s(1)] s(2)] by blast
  qed
  then show ?thesis using cf retry False
    by (auto simp: commit_files_def applied_def split: option.splits if_splits)
qed

section \<open>Repeated commits\<close>

text \<open>A commit of a writer's files can be repeated, by a retried request or by a restarted pod, with
  whatever the environment answers each time.\<close>

record commit_call =
  cc_retry :: retry_env
  cc_paths :: "string list"
  cc_part :: "partitioned_files option"
  cc_mode :: string
  cc_props :: "string gomap"

fun commit_calls ::
    "'w catalog \<Rightarrow> string \<Rightarrow> string \<Rightarrow> commit_call list \<Rightarrow> 'w \<Rightarrow> 'w \<times> (string + commit_result) list" where
  "commit_calls cat ident key [] w = (w, [])"
| "commit_calls cat ident key (c # cs) w =
     (case CommitTableFiles cat (cc_retry c) ident (cc_paths c) (cc_part c) (cc_mode c) (cc_props c) key w of
        (w1, r) \<Rightarrow> (case commit_calls cat ident key cs w1 of (w2, rs) \<Rightarrow> (w2, r # rs)))"

lemma commit_calls_keyed:
  assumes law: "catalog_history cat hist key" "key \<noteq> []"
  shows "commit_calls cat ident key cs w = (w', rs) \<Longrightarrow> keyed key (hist w) \<le> 1 \<Longrightarrow>
    list_all (\<lambda>c. cc_paths c \<noteq> []) cs \<Longrightarrow>
    keyed key (hist w') \<le> 1 \<and> keyed key (hist w) \<le> keyed key (hist w') \<and>
    ((\<exists>res. Inr res \<in> set rs) \<longrightarrow> keyed key (hist w') = 1)"
proof (induction cs arbitrary: w rs)
  case Nil
  then show ?case by simp
next
  case (Cons c cs)
  obtain w1 r where c: "CommitTableFiles cat (cc_retry c) ident (cc_paths c) (cc_part c) (cc_mode c) (cc_props c) key w = (w1, r)"
    by fastforce
  obtain rs' where cs: "commit_calls cat ident key cs w1 = (w', rs')" "rs = r # rs'"
    using Cons.prems(1) c by (auto split: prod.splits)
  have k: "keyed key (hist w1) \<le> 1" "\<not> isl r \<Longrightarrow> keyed key (hist w1) = 1" "keyed key (hist w) \<le> keyed key (hist w1)"
    using commit_keyed[OF law Cons.prems(2) c] Cons.prems(3) by simp_all
  show ?case using Cons.IH[OF cs(1) k(1)] k Cons.prems(3) cs(2) by (cases r) auto
qed

section \<open>Properties\<close>

text \<open>C26. Committing the files of a writer under an idempotency key is exactly-once: however often the
  commit is repeated, with whatever conflicts, lost answers, cancellations and commits of other
  writers in between, at most one snapshot of the table carries the key, and as soon as one of the
  calls reports success there is exactly one.\<close>

theorem commit_exactly_once:
  assumes "catalog_history cat hist key" "key \<noteq> []" "keyed key (hist w) = 0"
    and "list_all (\<lambda>c. cc_paths c \<noteq> []) calls" "commit_calls cat ident key calls w = (w', results)"
  shows "keyed key (hist w') \<le> 1 \<and> ((\<exists>res. Inr res \<in> set results) \<longrightarrow> keyed key (hist w') = 1)"
  using commit_calls_keyed[OF assms(1,2,5) _ assms(4)] assms(3) by simp

text \<open>C27. When nobody else writes to the table, the key has not been used before and there are files to commit, a
  successful commit has exactly the intended effect on the table's live data files, also when an earlier attempt had landed without its answer arriving: APPEND
  adds the writer's files, FULL_LOAD leaves the writer's files and nothing else, for partitioned and
  unpartitioned tables.\<close>

theorem commit_effect:
  assumes "sole_writer cat hist live" "key \<noteq> []" "keyed key (hist w) = 0" "paths \<noteq> []"
    and "CommitTableFiles cat re ident paths part mode ps key w = (w', Inr res)"
  shows "live w' = (if mode = WriteModeFullLoad then set paths else live w \<union> set paths)"
  using commit_effect_lemma[OF assms(1,2,3,5)] assms(4) by (simp add: committed_def)

lemma split_at_nul:
  assumes "CHR 0x00 \<notin> set a" "CHR 0x00 \<notin> set b"
  shows "a @ CHR 0x00 # x = b @ CHR 0x00 # y \<longleftrightarrow> a = b \<and> x = y"
  using assms
proof (induction a arbitrary: b)
  case Nil
  then show ?case by (cases b) auto
next
  case (Cons c a)
  then show ?case by (cases b) auto
qed

lemma nul_terminated_inject:
  "\<forall>p \<in> set ps \<union> set qs. CHR 0x00 \<notin> set p \<Longrightarrow>
   concat (map (\<lambda>p. p @ [CHR 0x00]) ps) = concat (map (\<lambda>p. p @ [CHR 0x00]) qs) \<longleftrightarrow> ps = qs"
proof (induction ps arbitrary: qs)
  case Nil
  then show ?case by (cases qs) auto
next
  case (Cons p ps)
  then show ?case by (cases qs) (auto simp: split_at_nul)
qed

text \<open>The bytes the idempotency key is the hash of identify the run, the table and the set of files,
  whatever the order of the files, as long as no part contains a NUL byte: keys of different commits
  differ unless SHA-256 collides, and a repeated commit with reordered files has the same key.\<close>

theorem idempotency_key_identifies:
  assumes "\<forall>s \<in> {run, ns, tbl, run', ns', tbl'} \<union> set ps \<union> set ps'. CHR 0x00 \<notin> set s"
  shows "(key_preimage run ns tbl ps = key_preimage run' ns' tbl' ps' \<longleftrightarrow>
      run = run' \<and> ns = ns' \<and> tbl = tbl' \<and> mset ps = mset ps') \<and>
    (mset ps = mset ps' \<longrightarrow>
      ComputeIdempotencyKey sha run ns tbl ps = ComputeIdempotencyKey sha run ns tbl ps')"
proof -
  have sorts: "sort ps = sort ps' \<longleftrightarrow> mset ps = mset ps'" by (metis mset_sort properties_for_sort sorted_sort)
  have "\<forall>p \<in> set (sort ps) \<union> set (sort ps'). CHR 0x00 \<notin> set p" using assms by auto
  then show ?thesis
    using assms sorts by (auto simp: key_preimage_def ComputeIdempotencyKey_def split_at_nul nul_terminated_inject)
qed

section \<open>A catalog that loses answers\<close>

text \<open>A table that can hold the data files \<open>a\<close> and \<open>b\<close> and whose first commits are applied but
  answered with a conflict. The live files are visible in the metadata as extra spec ids.\<close>

record demo_world =
  dw_snapshots :: "snapshot list"
  dw_a :: bool
  dw_b :: bool
  dw_lost :: nat

definition demo_live :: "demo_world \<Rightarrow> string set" where
  "demo_live w = (if dw_a w then {''a''} else {}) \<union> (if dw_b w then {''b''} else {})"

definition demo_table :: "demo_world \<Rightarrow> table_meta" where
  "demo_table w =
     \<lparr>tm_snapshots = dw_snapshots w, tm_current = Some \<lparr>sn_id = int (length (dw_snapshots w)), sn_summary = None\<rparr>,
      tm_defaultSpec = 0, tm_specs = [0] @ (if dw_a w then [1] else []) @ (if dw_b w then [2] else []),
      tm_version = 2, tm_nextRowID = 0, tm_numRetries = 0\<rparr>"

definition demo_file :: "string \<Rightarrow> iceberg_file" where
  "demo_file p = \<lparr>ib_path = p, ib_content = EntryContentData, ib_count = 1, ib_tuple = None, ib_firstRowID = None\<rparr>"

definition demo_manifest :: "table_meta \<Rightarrow> iceberg_file list" where
  "demo_manifest t =
     (if 1 \<in> set (tm_specs t) then [demo_file ''a''] else []) @
     (if 2 \<in> set (tm_specs t) then [demo_file ''b''] else [])"

definition demo_apply :: "txn_op \<Rightarrow> demo_world \<Rightarrow> demo_world" where
  "demo_apply op w =
     \<lparr>dw_snapshots = dw_snapshots w @ [\<lparr>sn_id = int (length (dw_snapshots w)), sn_summary = Some (op_props op)\<rparr>],
      dw_a = (dw_a w \<and> ''a'' \<notin> op_removed op \<or> ''a'' \<in> op_added op),
      dw_b = (dw_b w \<and> ''b'' \<notin> op_removed op \<or> ''b'' \<in> op_added op), dw_lost = dw_lost w - 1\<rparr>"

definition demo_commit :: "demo_world \<Rightarrow> table_meta \<Rightarrow> txn_op \<Rightarrow> demo_world \<times> (lib_error + table_meta)" where
  "demo_commit w t op =
     (if \<not> op_added op \<subseteq> {''a'', ''b''} then (w, Inl (LibError ''unknown file''))
      else (demo_apply op w, if dw_lost w > 0 then Inl (Conflict ''409'') else Inr (demo_table (demo_apply op w))))"

definition demo_catalog :: "demo_world catalog" where
  "demo_catalog =
     \<lparr>ct_load = (\<lambda>w. (w, Inr (demo_table w))), ct_fs = (\<lambda>_. None),
      ct_manifests = (\<lambda>t _. Inr [Inr (demo_manifest t)]),
      ct_footer = (\<lambda>_ _. Inr 1), ct_newDataFile = (\<lambda>_ _ _. None), ct_stage = (\<lambda>_ _. None),
      ct_commit = demo_commit\<rparr>"

definition demo_retry :: retry_env where
  "demo_retry = \<lparr>re_ctxErr = (\<lambda>_. None), re_sleep = (\<lambda>_. None)\<rparr>"

definition demo_call :: "string list \<Rightarrow> string \<Rightarrow> commit_call" where
  "demo_call ps mode = \<lparr>cc_retry = demo_retry, cc_paths = ps, cc_part = None, cc_mode = mode, cc_props = []\<rparr>"

text \<open>The file \<open>a\<close> is in the table, the first answer will be lost.\<close>

definition demo_start :: demo_world where
  "demo_start = \<lparr>dw_snapshots = [], dw_a = True, dw_b = False, dw_lost = 1\<rparr>"

lemma demo_summary: "map_of ps k = Some v \<Longrightarrow> summary_value \<lparr>sn_id = i, sn_summary = Some ps\<rparr> k = v"
  by (simp add: summary_value_def)

lemma demo_apply_live:
  "op_added op \<subseteq> {''a'', ''b''} \<Longrightarrow> demo_live (demo_apply op w) = demo_live w - op_removed op \<union> op_added op"
  by (auto simp: demo_live_def demo_apply_def)

lemma demo_sole_writer: "sole_writer demo_catalog dw_snapshots demo_live"
proof -
  have "listed demo_catalog (demo_table w) (demo_live w)" for w
  proof -
    have "{f. ib_content f = EntryContentData \<and> f \<in> set (demo_manifest t)} = set (demo_manifest t)" for t
      by (auto simp: demo_manifest_def demo_file_def)
    moreover have "ib_path ` set (demo_manifest (demo_table w)) = demo_live w"
      by (simp add: demo_manifest_def demo_table_def demo_live_def demo_file_def)
    ultimately show ?thesis by (simp add: listed_def demo_catalog_def) (simp add: demo_table_def)
  qed
  moreover have "sole_outcome dw_snapshots demo_live w w' op r" if c: "demo_commit w t op = (w', r)" for w t op w' r
  proof (cases "op_added op \<subseteq> {''a'', ''b''}")
    case True
    have "w' = demo_apply op w" using c True by (auto simp: demo_commit_def)
    then have "demo_live w' = demo_live w - op_removed op \<union> op_added op"
        "dw_snapshots w' = dw_snapshots w @ [\<lparr>sn_id = int (length (dw_snapshots w)), sn_summary = Some (op_props op)\<rparr>]"
      using demo_apply_live[OF True, of w] by (simp_all add: demo_apply_def)
    then show ?thesis using demo_summary unfolding sole_outcome_def by blast
  qed (use c in \<open>auto simp: demo_commit_def sole_outcome_def\<close>)
  ultimately show ?thesis by (auto simp: sole_writer_def demo_catalog_def demo_table_def)
qed

lemma txn_outcome_simple:
  "isl r \<Longrightarrow> txn_outcome key h h op r"
  "\<forall>k v. map_of (op_props op) k = Some v \<longrightarrow> summary_value s k = v \<Longrightarrow> txn_outcome key h (h @ [s]) op r"
  unfolding txn_outcome_def by (rule exI[of _ "[]"], rule exI[of _ "[]"], simp add: keyed_def; blast)+

lemma demo_history: "catalog_history demo_catalog dw_snapshots key"
proof -
  have "txn_outcome key (dw_snapshots w) (dw_snapshots w') op r" if c: "demo_commit w t op = (w', r)" for w t op w' r
  proof (cases "op_added op \<subseteq> {''a'', ''b''}")
    case True
    have "dw_snapshots w' = dw_snapshots w @ [\<lparr>sn_id = int (length (dw_snapshots w)), sn_summary = Some (op_props op)\<rparr>]"
      using c True by (auto simp: demo_commit_def demo_apply_def)
    then show ?thesis using txn_outcome_simple(2) demo_summary by simp
  qed (use c in \<open>auto simp: demo_commit_def intro: txn_outcome_simple\<close>)
  then show ?thesis by (auto simp: catalog_history_def demo_catalog_def demo_table_def keyed_def)
qed

text \<open>The first call commits \<open>b\<close>, loses the answer and finds its own snapshot; the second call finds it too.\<close>

definition demo_calls :: "demo_world \<times> (string + commit_result) list" where
  "demo_calls = commit_calls demo_catalog ''t'' ''k''
     [demo_call [''b''] WriteModeFullLoad, demo_call [''b''] WriteModeFullLoad] demo_start"

definition demo_commit_once :: "demo_world \<times> (string + commit_result)" where
  "demo_commit_once = CommitTableFiles demo_catalog demo_retry ''t'' [''b''] None WriteModeFullLoad [] ''k'' demo_start"

lemma demo_calls_hit: "map (\<lambda>r. \<not> isl r \<and> cr_idempotencyHit (projr r)) (snd demo_calls) = [True, True]"
  by code_simp

lemma demo_commit_hit: "\<not> isl (snd demo_commit_once) \<and> cr_idempotencyHit (projr (snd demo_commit_once))"
  by code_simp

theorem commit_exactly_once_witness:
  "keyed ''k'' (dw_snapshots (fst demo_calls)) = 1"
proof -
  have calls: "commit_calls demo_catalog ''t'' ''k''
      [demo_call [''b''] WriteModeFullLoad, demo_call [''b''] WriteModeFullLoad] demo_start = (fst demo_calls, snd demo_calls)"
    by (simp only: demo_calls_def prod.collapse)
  obtain r rs where "snd demo_calls = r # rs" "\<not> isl r" using demo_calls_hit by auto
  then have "\<exists>res. Inr res \<in> set (snd demo_calls)" by (metis list.set_intros(1) sum.collapse(2))
  moreover have "keyed ''k'' (dw_snapshots demo_start) = 0" by (simp add: demo_start_def keyed_def)
  ultimately show ?thesis
    using commit_exactly_once[OF demo_history _ _ _ calls] by (simp add: demo_call_def)
qed

theorem commit_effect_witness:
  "demo_live demo_start = {''a''} \<and> demo_live (fst demo_commit_once) = {''b''}"
proof -
  have "snd demo_commit_once = Inr (projr (snd demo_commit_once))" using demo_commit_hit by simp
  then have "CommitTableFiles demo_catalog demo_retry ''t'' [''b''] None WriteModeFullLoad [] ''k'' demo_start =
      (fst demo_commit_once, Inr (projr (snd demo_commit_once)))"
    unfolding demo_commit_once_def by (metis prod.collapse)
  from commit_effect[OF demo_sole_writer _ _ _ this] show ?thesis
    by (simp add: demo_start_def keyed_def demo_live_def)
qed

theorem idempotency_key_identifies_witness:
  "key_preimage ''r'' ''n'' ''t'' [''b'', ''a''] = key_preimage ''r'' ''n'' ''t'' [''a'', ''b''] \<and>
   key_preimage ''r'' ''n'' ''t'' [''ab''] \<noteq> key_preimage ''r'' ''n'' ''t'' [''a'', ''b'']"
  using idempotency_key_identifies[of "''r''" "''n''" "''t''" "''r''" "''n''" "''t''" "[''b'', ''a'']" "[''a'', ''b'']" id]
    idempotency_key_identifies[of "''r''" "''n''" "''t''" "''r''" "''n''" "''t''" "[''ab'']" "[''a'', ''b'']" id]
  by (simp add: add_mset_commute)

end
