(* ===== verification/Commit_Pool.thy ===== *)
theory Commit_Pool
  imports Iceberg_Commit
begin

text \<open>
  The inline-commit worker pool of the data gateway (\<open>pkg/datagateway/commit_pool.go\<close>) as a step
  relation: \<open>Dispatch\<close> starts a goroutine per job; a goroutine waits for one of the worker slots or
  for cancellation, runs the commit, records the result if its session is still the current one,
  gives its slot back, leaves the in-flight count and finally the wait group; \<open>Wait\<close> returns when the
  wait group is empty or its context ends, and starts the next session. The catalog and commit
  functions answer arbitrarily. Metrics and log lines are left out.

  Two fields record history for the statements and influence nothing: the jobs accepted since the
  last \<open>Wait\<close> and the number of \<open>Wait\<close>s; a task also remembers the number of \<open>Wait\<close>s before it.
  \<open>Dispatch\<close> counts the job and reads the session number under two locks; it is one step here, because
  it never runs concurrently with \<open>Wait\<close>, the only operation that changes the session number (the
  contract at the top of the source file).
\<close>

section \<open>Jobs and results\<close>

record commit_job =
  cj_writerID :: string
  cj_namespace :: string
  cj_table :: string
  cj_runID :: string
  cj_dataPaths :: "string list"
  cj_partition :: "partitioned_files option"
  cj_mode :: string

record pool_result =
  cm_writerID :: string
  cm_namespace :: string
  cm_table :: string
  cm_err :: "string option"
  cm_before :: string
  cm_after :: string
  cm_dataFilesAdded :: nat
  cm_key :: string
  cm_idempotencyHit :: bool

definition empty_result :: "commit_job \<Rightarrow> pool_result" where
  "empty_result j =
     \<lparr>cm_writerID = cj_writerID j, cm_namespace = cj_namespace j, cm_table = cj_table j, cm_err = None,
      cm_before = [], cm_after = [], cm_dataFilesAdded = 0, cm_key = [], cm_idempotencyHit = False\<rparr>"

definition job_key :: "(string \<Rightarrow> string) \<Rightarrow> commit_job \<Rightarrow> string" where
  "job_key sha j = ComputeIdempotencyKey sha (cj_runID j) (cj_namespace j) (cj_table j) (cj_dataPaths j)"

text \<open>\<open>run\<close> up to the recording: the catalog's error, or the answer of the commit function, which may be
  a nil result.\<close>

definition run_result ::
    "(string \<Rightarrow> string) \<Rightarrow> commit_job \<Rightarrow> string option \<Rightarrow> string + commit_result option \<Rightarrow> pool_result" where
  "run_result sha j catalogErr answer =
     (let cr = (empty_result j)\<lparr>cm_key := job_key sha j\<rparr> in
      case catalogErr of
        Some e \<Rightarrow> cr\<lparr>cm_err := Some e\<rparr>
      | None \<Rightarrow>
          (case answer of
             Inl e \<Rightarrow> cr\<lparr>cm_err := Some e\<rparr>
           | Inr None \<Rightarrow> cr
           | Inr (Some res) \<Rightarrow>
               cr\<lparr>cm_before := cr_snapshotIDBefore res, cm_after := cr_snapshotIDAfter res,
                  cm_dataFilesAdded := cr_dataFilesAdded res, cm_idempotencyHit := cr_idempotencyHit res\<rparr>))"

section \<open>The pool\<close>

text \<open>A goroutine: waiting for a slot, committing in a slot, recorded but still in its slot, out of the
  slot, out of the in-flight count.\<close>

datatype task_phase = Queued | Committing | Recorded | Released | Leaving

record task =
  tk_job :: commit_job
  tk_sid :: "64 word"
  tk_phase :: task_phase
  tk_epoch :: nat

record pool =
  cp_workers :: nat
  cp_maxQueue :: nat
  cp_closed :: bool
  cp_cancelled :: bool
  cp_inflight :: nat
  cp_sem :: nat
  cp_sessionID :: "64 word"
  cp_results :: "pool_result list"
  cp_tasks :: "task list"
  cp_accepted :: "commit_job list"
  cp_waits :: nat

definition NewCommitPool :: "int \<Rightarrow> int \<Rightarrow> pool" where
  "NewCommitPool workers maxQueueSize =
     \<lparr>cp_workers = (if workers \<le> 0 then 4 else nat workers),
      cp_maxQueue = (if maxQueueSize \<le> 0 then 256 else nat maxQueueSize),
      cp_closed = False, cp_cancelled = False, cp_inflight = 0, cp_sem = 0, cp_sessionID = 0,
      cp_results = [], cp_tasks = [], cp_accepted = [], cp_waits = 0\<rparr>"

definition ErrCommitQueueFull :: string where
  "ErrCommitQueueFull = ''commit pool: queue full''"

definition ctx_err :: "pool \<Rightarrow> string" where
  "ctx_err p = (if cp_cancelled p then ''context canceled'' else ''%!w(<nil>)'')"

definition Dispatch :: "commit_job \<Rightarrow> pool \<Rightarrow> pool \<times> string option" where
  "Dispatch j p =
     (if cp_closed p then (p, Some (''commit pool: closed: '' @ ctx_err p))
      else if cp_inflight p \<ge> cp_maxQueue p then
        (p, Some (ErrCommitQueueFull @ '' (max '' @ nat_str (cp_maxQueue p) @ '')''))
      else
        (p\<lparr>cp_inflight := Suc (cp_inflight p),
           cp_tasks := cp_tasks p @
             [\<lparr>tk_job = j, tk_sid = cp_sessionID p, tk_phase = Queued, tk_epoch = cp_waits p\<rparr>],
           cp_accepted := cp_accepted p @ [j]\<rparr>, None))"

definition record_result :: "64 word \<Rightarrow> pool_result \<Rightarrow> pool \<Rightarrow> pool" where
  "record_result sid cr p = (if cp_sessionID p = sid then p\<lparr>cp_results := cp_results p @ [cr]\<rparr> else p)"

text \<open>The end of \<open>Wait\<close>: the results of the session and the next session.\<close>

definition Wait :: "pool \<Rightarrow> pool \<times> pool_result list" where
  "Wait p =
     (p\<lparr>cp_results := [], cp_sessionID := cp_sessionID p + 1, cp_accepted := [], cp_waits := Suc (cp_waits p)\<rparr>,
      cp_results p)"

text \<open>\<open>Cancel\<close> closes the pool under its lock and then cancels the context; a goroutine may run in
  between.\<close>

definition close_pool :: "pool \<Rightarrow> pool" where
  "close_pool p = p\<lparr>cp_closed := True\<rparr>"

definition cancel_ctx :: "pool \<Rightarrow> pool" where
  "cancel_ctx p = p\<lparr>cp_cancelled := True\<rparr>"

definition Cancel :: "pool \<Rightarrow> pool" where
  "Cancel p = cancel_ctx (close_pool p)"

definition cancelled_result :: "commit_job \<Rightarrow> pool_result" where
  "cancelled_result j = (empty_result j)\<lparr>cm_err := Some ''context canceled''\<rparr>"

definition set_phase :: "nat \<Rightarrow> task_phase \<Rightarrow> pool \<Rightarrow> pool" where
  "set_phase i ph p = p\<lparr>cp_tasks := (cp_tasks p)[i := (cp_tasks p ! i)\<lparr>tk_phase := ph\<rparr>]\<rparr>"

text \<open>\<open>may j r\<close>: the catalog and commit functions may lead to the result \<open>r\<close> for the job \<open>j\<close>.\<close>

inductive task_step :: "(commit_job \<Rightarrow> pool_result \<Rightarrow> bool) \<Rightarrow> pool \<Rightarrow> pool \<Rightarrow> bool" for may where
  acquire: "i < length (cp_tasks p) \<Longrightarrow> tk_phase (cp_tasks p ! i) = Queued \<Longrightarrow> cp_sem p < cp_workers p \<Longrightarrow>
    task_step may p (set_phase i Committing (p\<lparr>cp_sem := Suc (cp_sem p)\<rparr>))"
| give_up: "i < length (cp_tasks p) \<Longrightarrow> tk_phase (cp_tasks p ! i) = Queued \<Longrightarrow> cp_cancelled p \<Longrightarrow>
    task_step may p (set_phase i Released (record_result (tk_sid (cp_tasks p ! i))
      (cancelled_result (tk_job (cp_tasks p ! i))) p))"
| commit: "i < length (cp_tasks p) \<Longrightarrow> tk_phase (cp_tasks p ! i) = Committing \<Longrightarrow> may (tk_job (cp_tasks p ! i)) cr \<Longrightarrow>
    task_step may p (set_phase i Recorded (record_result (tk_sid (cp_tasks p ! i)) cr p))"
| release: "i < length (cp_tasks p) \<Longrightarrow> tk_phase (cp_tasks p ! i) = Recorded \<Longrightarrow>
    task_step may p (set_phase i Released (p\<lparr>cp_sem := cp_sem p - 1\<rparr>))"
| uncount: "i < length (cp_tasks p) \<Longrightarrow> tk_phase (cp_tasks p ! i) = Released \<Longrightarrow>
    task_step may p (set_phase i Leaving (p\<lparr>cp_inflight := cp_inflight p - 1\<rparr>))"
| wg_done: "i < length (cp_tasks p) \<Longrightarrow> tk_phase (cp_tasks p ! i) = Leaving \<Longrightarrow>
    task_step may p (p\<lparr>cp_tasks := take i (cp_tasks p) @ drop (Suc i) (cp_tasks p)\<rparr>)"

inductive pool_step :: "(commit_job \<Rightarrow> pool_result \<Rightarrow> bool) \<Rightarrow> pool \<Rightarrow> pool \<Rightarrow> bool" for may where
  dispatched: "pool_step may p (fst (Dispatch j p))"
| working: "task_step may p p' \<Longrightarrow> pool_step may p p'"
| waited: "cp_tasks p = [] \<Longrightarrow> pool_step may p (fst (Wait p))"
| timed_out: "pool_step may p (fst (Wait p))"
| closing: "pool_step may p (close_pool p)"
| cancelling: "cp_closed p \<Longrightarrow> pool_step may p (cancel_ctx p)"

section \<open>Invariant\<close>

definition in_slot :: "task \<Rightarrow> bool" where
  "in_slot t \<longleftrightarrow> tk_phase t = Committing \<or> tk_phase t = Recorded"

definition counted :: "task \<Rightarrow> bool" where
  "counted t \<longleftrightarrow> tk_phase t \<noteq> Leaving"

definition unrecorded :: "task \<Rightarrow> bool" where
  "unrecorded t \<longleftrightarrow> tk_phase t = Queued \<or> tk_phase t = Committing"

text \<open>\<open>r\<close> is an answer to the job \<open>j\<close>: what committing it led to, or the cancellation.\<close>

definition answers :: "(commit_job \<Rightarrow> pool_result \<Rightarrow> bool) \<Rightarrow> commit_job \<Rightarrow> pool_result \<Rightarrow> bool" where
  "answers may j r \<longleftrightarrow> may j r \<or> r = cancelled_result j"

definition current :: "pool \<Rightarrow> task \<Rightarrow> bool" where
  "current p t \<longleftrightarrow> tk_epoch t = cp_waits p"

definition counts_ok :: "pool \<Rightarrow> bool" where
  "counts_ok p \<longleftrightarrow>
     0 < cp_workers p \<and> cp_sem p = length (filter in_slot (cp_tasks p)) \<and> cp_sem p \<le> cp_workers p \<and>
     cp_inflight p = length (filter counted (cp_tasks p)) \<and> cp_inflight p \<le> cp_maxQueue p"

definition sessions_ok :: "pool \<Rightarrow> bool" where
  "sessions_ok p \<longleftrightarrow>
     cp_sessionID p = of_nat (cp_waits p) \<and>
     (\<forall>t \<in> set (cp_tasks p). tk_sid t = of_nat (tk_epoch t) \<and> tk_epoch t \<le> cp_waits p)"

text \<open>As long as the session counter has not come round, the results recorded and the tasks of the
  session that have not recorded theirs make up the accepted jobs.\<close>

definition waiting :: "pool \<Rightarrow> commit_job list" where
  "waiting p = map tk_job (filter (\<lambda>t. current p t \<and> unrecorded t) (cp_tasks p))"

definition results_ok :: "(commit_job \<Rightarrow> pool_result \<Rightarrow> bool) \<Rightarrow> pool \<Rightarrow> bool" where
  "results_ok may p \<longleftrightarrow>
     (\<exists>js. list_all2 (answers may) js (cp_results p) \<and> mset js + mset (waiting p) = mset (cp_accepted p))"

definition pool_inv :: "(commit_job \<Rightarrow> pool_result \<Rightarrow> bool) \<Rightarrow> pool \<Rightarrow> bool" where
  "pool_inv may p \<longleftrightarrow> counts_ok p \<and> sessions_ok p \<and> (cp_waits p < 2 ^ 64 \<longrightarrow> results_ok may p)"

lemmas pool_inv_simps = pool_inv_def counts_ok_def sessions_ok_def results_ok_def
lemmas task_class_simps = in_slot_def counted_def unrecorded_def

lemma tasks_split:
  assumes "i < length (cp_tasks p)"
  obtains xs ys where "cp_tasks p = xs @ (cp_tasks p ! i) # ys" "length xs = i"
  using id_take_nth_drop[OF assms] assms by (metis length_take min.absorb4)

lemma set_phase_split:
  "cp_tasks p = xs @ t # ys \<Longrightarrow> set_phase (length xs) ph p = p\<lparr>cp_tasks := xs @ t\<lparr>tk_phase := ph\<rparr> # ys\<rparr>"
  by (simp add: set_phase_def)

lemma of_nat_session:
  "m < 2 ^ 64 \<Longrightarrow> n < 2 ^ 64 \<Longrightarrow> (of_nat m :: 64 word) = of_nat n \<longleftrightarrow> m = n"
  by (simp add: word_of_nat_eq_iff take_bit_nat_eq_self)

lemma record_result_other [simp]:
  "cp_tasks (record_result sid cr p) = cp_tasks p" "cp_sem (record_result sid cr p) = cp_sem p"
  "cp_workers (record_result sid cr p) = cp_workers p" "cp_inflight (record_result sid cr p) = cp_inflight p"
  "cp_maxQueue (record_result sid cr p) = cp_maxQueue p" "cp_sessionID (record_result sid cr p) = cp_sessionID p"
  "cp_waits (record_result sid cr p) = cp_waits p" "cp_accepted (record_result sid cr p) = cp_accepted p"
  by (simp_all add: record_result_def)

lemma record_iff_current:
  assumes "sessions_ok p" "t \<in> set (cp_tasks p)" "cp_waits p < 2 ^ 64"
  shows "cp_results (record_result (tk_sid t) cr p) = (if current p t then cp_results p @ [cr] else cp_results p)"
proof -
  have "tk_sid t = of_nat (tk_epoch t)" "tk_epoch t \<le> cp_waits p" "cp_sessionID p = of_nat (cp_waits p)"
    using assms by (auto simp: sessions_ok_def)
  then have "cp_sessionID p = tk_sid t \<longleftrightarrow> current p t"
    using of_nat_session[of "cp_waits p" "tk_epoch t"] assms(3) by (auto simp: current_def)
  then show ?thesis by (simp add: record_result_def)
qed

lemma NewCommitPool_inv: "pool_inv may (NewCommitPool workers maxQueueSize)"
  by (auto simp: pool_inv_simps NewCommitPool_def waiting_def)

lemma waiting_Dispatch:
  "snd (Dispatch j p) = None \<Longrightarrow> waiting (fst (Dispatch j p)) = waiting p @ [j]"
  by (auto simp: waiting_def Dispatch_def current_def unrecorded_def split: if_splits)

lemma Dispatch_refused: "snd (Dispatch j p) \<noteq> None \<Longrightarrow> fst (Dispatch j p) = p"
  by (auto simp: Dispatch_def)

lemma Dispatch_accepted:
  "snd (Dispatch j p) = None \<Longrightarrow> cp_accepted (fst (Dispatch j p)) = cp_accepted p @ [j] \<and>
   cp_results (fst (Dispatch j p)) = cp_results p \<and> cp_waits (fst (Dispatch j p)) = cp_waits p"
  by (auto simp: Dispatch_def split: if_splits)

lemma Dispatch_inv:
  assumes "pool_inv may p"
  shows "pool_inv may (fst (Dispatch j p))"
proof (cases "snd (Dispatch j p)")
  case None
  have "counts_ok (fst (Dispatch j p))" "sessions_ok (fst (Dispatch j p))"
    using assms by (auto simp: pool_inv_def counts_ok_def sessions_ok_def Dispatch_def task_class_simps)
  moreover have "results_ok may (fst (Dispatch j p))" if "results_ok may p"
    using that waiting_Dispatch[OF None] Dispatch_accepted[OF None] by (auto simp: results_ok_def)
  ultimately show ?thesis using assms Dispatch_accepted[OF None] by (simp add: pool_inv_def)
qed (use assms Dispatch_refused in force)

lemma Wait_inv:
  assumes "pool_inv may p"
  shows "pool_inv may (fst (Wait p))"
proof -
  have old: "tk_epoch t \<le> cp_waits p" "tk_sid t = of_nat (tk_epoch t)" if "t \<in> set (cp_tasks p)" for t
    using assms that by (auto simp: pool_inv_def sessions_ok_def)
  have "waiting (fst (Wait p)) = []"
    using old by (force simp: waiting_def Wait_def current_def filter_empty_conv)
  then have "results_ok may (fst (Wait p))" by (simp add: results_ok_def Wait_def)
  moreover have "sessions_ok (fst (Wait p))"
    using assms old by (auto simp: pool_inv_def sessions_ok_def Wait_def intro: le_SucI)
  ultimately show ?thesis using assms by (simp add: pool_inv_def counts_ok_def Wait_def)
qed

text \<open>A task that records a result of its own job and leaves the unrecorded ones keeps the invariant.\<close>

lemma recording_inv:
  assumes inv: "pool_inv may p" and split: "cp_tasks p = xs @ t # ys"
    and t: "unrecorded t" "ph = Recorded \<and> in_slot t \<or> ph = Released \<and> \<not> in_slot t"
    and id: "answers may (tk_job t) cr"
  shows "pool_inv may (set_phase (length xs) ph (record_result (tk_sid t) cr p))"
proof -
  let ?q = "set_phase (length xs) ph (record_result (tk_sid t) cr p)"
  have q: "?q = (record_result (tk_sid t) cr p)\<lparr>cp_tasks := xs @ t\<lparr>tk_phase := ph\<rparr> # ys\<rparr>"
    by (rule set_phase_split) (simp add: split)
  have "counts_ok ?q" using inv t unfolding q by (auto simp: pool_inv_def counts_ok_def split task_class_simps)
  moreover have "sessions_ok ?q" using inv unfolding q by (auto simp: pool_inv_def sessions_ok_def split)
  moreover have "results_ok may ?q" if "cp_waits p < 2 ^ 64"
  proof -
    have ok: "sessions_ok p" "results_ok may p" using inv that by (auto simp: pool_inv_def)
    have "t \<in> set (cp_tasks p)" by (simp add: split)
    note results = record_iff_current[OF ok(1) this that, of cr]
    have gone: "\<not> unrecorded (t\<lparr>tk_phase := ph\<rparr>)" using t by (auto simp: unrecorded_def)
    from ok(2) obtain js where js: "list_all2 (answers may) js (cp_results p)"
      "mset js + mset (waiting p) = mset (cp_accepted p)" by (auto simp: results_ok_def)
    show ?thesis
    proof (cases "current p t")
      case True
      have "list_all2 (answers may) (js @ [tk_job t]) (cp_results ?q)"
        using js(1) results id True unfolding q by (auto intro: list_all2_appendI)
      moreover have "mset (js @ [tk_job t]) + mset (waiting ?q) = mset (cp_accepted ?q)"
        using js(2) True t(1) gone unfolding q by (simp add: waiting_def split current_def)
      ultimately show ?thesis unfolding results_ok_def by blast
    next
      case False
      then have "waiting ?q = waiting p" unfolding q by (simp add: waiting_def split current_def)
      then show ?thesis using js results False unfolding q by (auto simp: results_ok_def)
    qed
  qed
  ultimately show ?thesis by (simp add: pool_inv_def q)
qed

text \<open>Steps that only move a task to another phase.\<close>

lemma moving_inv:
  assumes inv: "pool_inv may p" and split: "cp_tasks p = xs @ t # ys"
    and same: "unrecorded (t\<lparr>tk_phase := ph\<rparr>) = unrecorded t"
    and sem: "sem + of_bool (in_slot t) = cp_sem p + of_bool (in_slot (t\<lparr>tk_phase := ph\<rparr>))" "sem \<le> cp_workers p"
    and inflight: "n + of_bool (counted t) = cp_inflight p + of_bool (counted (t\<lparr>tk_phase := ph\<rparr>))" "n \<le> cp_maxQueue p"
  shows "pool_inv may (set_phase (length xs) ph (p\<lparr>cp_sem := sem, cp_inflight := n\<rparr>))"
proof -
  let ?q = "set_phase (length xs) ph (p\<lparr>cp_sem := sem, cp_inflight := n\<rparr>)"
  have q: "?q = p\<lparr>cp_sem := sem, cp_inflight := n, cp_tasks := xs @ t\<lparr>tk_phase := ph\<rparr> # ys\<rparr>"
    using set_phase_split[of "p\<lparr>cp_sem := sem, cp_inflight := n\<rparr>" xs t ys ph] by (simp add: split)
  have "counts_ok ?q" using inv sem inflight unfolding q by (auto simp: pool_inv_def counts_ok_def split of_bool_def split: if_splits)
  moreover have "sessions_ok ?q" using inv unfolding q by (auto simp: pool_inv_def sessions_ok_def split)
  moreover have "results_ok may ?q" if "results_ok may p"
    using that same unfolding q by (auto simp: results_ok_def waiting_def split current_def)
  ultimately show ?thesis using inv by (simp add: pool_inv_def q)
qed

lemma leaving_inv:
  assumes "pool_inv may p" "cp_tasks p = xs @ t # ys" "tk_phase t = Leaving"
  shows "pool_inv may (p\<lparr>cp_tasks := xs @ ys\<rparr>)"
  using assms by (auto simp: pool_inv_simps waiting_def task_class_simps current_def)

lemma pool_bounds: "pool_inv may p \<Longrightarrow> cp_sem p \<le> cp_workers p \<and> cp_inflight p \<le> cp_maxQueue p"
  by (simp add: pool_inv_def counts_ok_def)

lemma sem_pos: "pool_inv may p \<Longrightarrow> cp_tasks p = xs @ t # ys \<Longrightarrow> in_slot t \<Longrightarrow> 0 < cp_sem p"
  by (simp add: pool_inv_def counts_ok_def)

lemma inflight_pos: "pool_inv may p \<Longrightarrow> cp_tasks p = xs @ t # ys \<Longrightarrow> counted t \<Longrightarrow> 0 < cp_inflight p"
  by (simp add: pool_inv_def counts_ok_def)

lemma pool_eta: "p\<lparr>cp_sem := n, cp_inflight := cp_inflight p\<rparr> = p\<lparr>cp_sem := n\<rparr>"
    "p\<lparr>cp_sem := cp_sem p, cp_inflight := n\<rparr> = p\<lparr>cp_inflight := n\<rparr>"
  by simp_all

lemma task_step_inv:
  assumes step: "task_step may p p'" and inv: "pool_inv may p"
  shows "pool_inv may p'"
  using step
proof cases
  case (acquire i)
  obtain xs ys where split: "cp_tasks p = xs @ (cp_tasks p ! i) # ys" "length xs = i" using tasks_split[OF acquire(2)] .
  then show ?thesis
    using moving_inv[OF inv split(1), of Committing "Suc (cp_sem p)" "cp_inflight p"] acquire pool_bounds[OF inv]
    by (simp add: pool_eta task_class_simps)
next
  case (give_up i)
  obtain xs ys where split: "cp_tasks p = xs @ (cp_tasks p ! i) # ys" "length xs = i" using tasks_split[OF give_up(2)] .
  then show ?thesis
    using recording_inv[OF inv split(1), of Released] give_up
    by (simp add: task_class_simps answers_def)
next
  case (commit i cr)
  obtain xs ys where split: "cp_tasks p = xs @ (cp_tasks p ! i) # ys" "length xs = i" using tasks_split[OF commit(2)] .
  then show ?thesis
    using recording_inv[OF inv split(1), of Recorded cr] commit by (simp add: task_class_simps answers_def)
next
  case (release i)
  obtain xs ys where split: "cp_tasks p = xs @ (cp_tasks p ! i) # ys" "length xs = i" using tasks_split[OF release(2)] .
  then show ?thesis
    using moving_inv[OF inv split(1), of Released "cp_sem p - 1" "cp_inflight p"] release pool_bounds[OF inv]
      sem_pos[OF inv split(1)]
    by (auto simp: pool_eta task_class_simps)
next
  case (uncount i)
  obtain xs ys where split: "cp_tasks p = xs @ (cp_tasks p ! i) # ys" "length xs = i" using tasks_split[OF uncount(2)] .
  then show ?thesis
    using moving_inv[OF inv split(1), of Leaving "cp_sem p" "cp_inflight p - 1"] uncount pool_bounds[OF inv]
      inflight_pos[OF inv split(1)]
    by (auto simp: pool_eta task_class_simps)
next
  case (wg_done i)
  then show ?thesis using leaving_inv[OF inv id_take_nth_drop[OF wg_done(2)]] by simp
qed

lemma pool_step_inv:
  assumes "pool_step may p p'" "pool_inv may p"
  shows "pool_inv may p'"
  using assms(1)
proof cases
  case (dispatched j)
  then show ?thesis using Dispatch_inv[OF assms(2)] by simp
next
  case working
  then show ?thesis using task_step_inv assms by blast
qed (use assms(2) Wait_inv[OF assms(2)] in \<open>simp_all add: close_pool_def cancel_ctx_def pool_inv_simps waiting_def current_def\<close>)

interpretation commit_pool: invariant_system "\<lambda>p. \<exists>w m. p = NewCommitPool w m" "pool_step may" "pool_inv may"
  for may
  by unfold_locales (use NewCommitPool_inv pool_step_inv in blast)+

section \<open>The session barrier\<close>

text \<open>What a caller of the pool gets from \<open>Wait\<close>.\<close>

definition barrier :: "(commit_job \<Rightarrow> pool_result \<Rightarrow> bool) \<Rightarrow> commit_job list \<Rightarrow> pool_result list \<Rightarrow> bool" where
  "barrier may accepted results \<longleftrightarrow> (\<exists>js. mset js = mset accepted \<and> list_all2 (answers may) js results)"

lemma waiting_Nil: "cp_tasks p = [] \<Longrightarrow> waiting p = []"
  by (simp add: waiting_def)

lemma barrier_at_Wait:
  assumes "pool_inv may p" "cp_waits p < 2 ^ 64" "cp_tasks p = []"
  shows "barrier may (cp_accepted p) (snd (Wait p))"
  using assms by (auto simp: pool_inv_def results_ok_def waiting_Nil barrier_def Wait_def)

lemma early_Wait:
  assumes "pool_inv may p" "cp_waits p < 2 ^ 64"
  shows "\<exists>js. mset js + mset (waiting p) = mset (cp_accepted p) \<and> list_all2 (answers may) js (snd (Wait p))"
  using assms by (auto simp: pool_inv_def results_ok_def Wait_def)

section \<open>Progress\<close>

definition phase_left :: "task_phase \<Rightarrow> nat" where
  "phase_left ph = (case ph of Queued \<Rightarrow> 5 | Committing \<Rightarrow> 4 | Recorded \<Rightarrow> 3 | Released \<Rightarrow> 2 | Leaving \<Rightarrow> 1)"

definition pool_work :: "pool \<Rightarrow> nat" where
  "pool_work p = sum_list (map (phase_left \<circ> tk_phase) (cp_tasks p))"

lemma work_split:
  "cp_tasks p = xs @ t # ys \<Longrightarrow>
   pool_work p = sum_list (map (phase_left \<circ> tk_phase) (xs @ ys)) + phase_left (tk_phase t)"
  by (simp add: pool_work_def)

lemma work_set_phase:
  assumes "i < length (cp_tasks p)" "phase_left ph < phase_left (tk_phase (cp_tasks p ! i))" "cp_tasks q = cp_tasks p"
  shows "pool_work (set_phase i ph q) < pool_work p"
proof -
  obtain xs ys where split: "cp_tasks p = xs @ (cp_tasks p ! i) # ys" "length xs = i" using tasks_split[OF assms(1)] .
  then have "cp_tasks (set_phase i ph q) = xs @ (cp_tasks p ! i)\<lparr>tk_phase := ph\<rparr> # ys"
    using set_phase_split[of q xs "cp_tasks p ! i" ys ph] assms(3) by simp
  from work_split[OF this] work_split[OF split(1)] assms(2) show ?thesis by simp
qed

lemma task_step_work:
  assumes "task_step may p p'"
  shows "pool_work p' < pool_work p"
  using assms
proof cases
  case (wg_done i)
  have "pool_work p = pool_work p' + 1"
    using work_split[OF id_take_nth_drop[OF wg_done(2)]] wg_done(1,3) by (simp add: pool_work_def phase_left_def)
  then show ?thesis by simp
qed (auto intro: work_set_phase simp: phase_left_def)

lemma slot_available:
  assumes "pool_inv may p" "\<forall>t \<in> set (cp_tasks p). tk_phase t = Queued"
  shows "cp_sem p < cp_workers p"
proof -
  have "filter in_slot (cp_tasks p) = []" using assms(2) by (auto simp: filter_empty_conv in_slot_def)
  then show ?thesis using assms(1) by (simp add: pool_inv_def counts_ok_def)
qed

lemma task_step_enabled:
  assumes "pool_inv may p" "cp_tasks p \<noteq> []" "\<And>j. \<exists>r. may j r"
  shows "\<exists>p'. task_step may p p'"
proof (cases "\<forall>t \<in> set (cp_tasks p). tk_phase t = Queued")
  case True
  then show ?thesis using assms(2) slot_available[OF assms(1)] task_step.acquire[of 0 p may] by fastforce
next
  case False
  then obtain i where i: "i < length (cp_tasks p)" "tk_phase (cp_tasks p ! i) \<noteq> Queued"
    by (auto simp: in_set_conv_nth)
  then show ?thesis using assms(3) task_step.intros[OF i(1)] by (cases "tk_phase (cp_tasks p ! i)") blast+
qed

lemma pool_drains:
  assumes "pool_inv may p" "\<And>j. \<exists>r. may j r"
  shows "\<exists>p'. (task_step may)\<^sup>*\<^sup>* p p' \<and> cp_tasks p' = []"
  using assms(1)
proof (induction "pool_work p" arbitrary: p rule: less_induct)
  case less
  show ?case
  proof (cases "cp_tasks p = []")
    case False
    with task_step_enabled[OF less.prems _ assms(2)] obtain q where q: "task_step may p q" by blast
    from less.hyps[OF task_step_work[OF q] task_step_inv[OF q less.prems]] q show ?thesis
      by (meson converse_rtranclp_into_rtranclp)
  qed blast
qed

section \<open>A run of the pool\<close>

text \<open>One job: dispatched, committed in the only slot, finished.\<close>

definition demo_job :: commit_job where
  "demo_job = \<lparr>cj_writerID = ''w1'', cj_namespace = ''raw'', cj_table = ''orders'', cj_runID = ''r1'',
     cj_dataPaths = [''a.parquet''], cj_partition = None, cj_mode = ''APPEND''\<rparr>"

definition demo_may :: "commit_job \<Rightarrow> pool_result \<Rightarrow> bool" where
  "demo_may j r \<longleftrightarrow> r = run_result (\<lambda>s. s) j None (Inr None)"

definition demo_pool :: "task list \<Rightarrow> nat \<Rightarrow> nat \<Rightarrow> pool_result list \<Rightarrow> pool" where
  "demo_pool ts sem n rs =
     (NewCommitPool 1 1)\<lparr>cp_inflight := n, cp_sem := sem, cp_tasks := ts, cp_results := rs,
        cp_accepted := [demo_job]\<rparr>"

definition demo_task :: "task_phase \<Rightarrow> task" where
  "demo_task ph = \<lparr>tk_job = demo_job, tk_sid = 0, tk_phase = ph, tk_epoch = 0\<rparr>"

definition demo_result :: pool_result where
  "demo_result = run_result (\<lambda>s. s) demo_job None (Inr None)"

lemmas demo_pool_simps = demo_pool_def demo_task_def NewCommitPool_def set_phase_def record_result_def

lemma demo_steps:
  "pool_step demo_may (NewCommitPool 1 1) (demo_pool [demo_task Queued] 0 1 [])"
  "task_step demo_may (demo_pool [demo_task Queued] 0 1 []) (demo_pool [demo_task Committing] 1 1 [])"
  "task_step demo_may (demo_pool [demo_task Committing] 1 1 []) (demo_pool [demo_task Recorded] 1 1 [demo_result])"
  "task_step demo_may (demo_pool [demo_task Recorded] 1 1 [demo_result]) (demo_pool [demo_task Released] 0 1 [demo_result])"
  "task_step demo_may (demo_pool [demo_task Released] 0 1 [demo_result]) (demo_pool [demo_task Leaving] 0 0 [demo_result])"
  "task_step demo_may (demo_pool [demo_task Leaving] 0 0 [demo_result]) (demo_pool [] 0 0 [demo_result])"
  using pool_step.dispatched[of demo_may "NewCommitPool 1 1" demo_job]
    task_step.acquire[of 0 "demo_pool [demo_task Queued] 0 1 []" demo_may]
    task_step.commit[of 0 "demo_pool [demo_task Committing] 1 1 []" demo_may demo_result]
    task_step.release[of 0 "demo_pool [demo_task Recorded] 1 1 [demo_result]" demo_may]
    task_step.uncount[of 0 "demo_pool [demo_task Released] 0 1 [demo_result]" demo_may]
    task_step.wg_done[of 0 "demo_pool [demo_task Leaving] 0 0 [demo_result]" demo_may]
  by (simp_all add: demo_pool_simps Dispatch_def demo_may_def demo_result_def)

lemma demo_pool_reachable:
  "(pool_step demo_may)\<^sup>*\<^sup>* (NewCommitPool 1 1) (demo_pool [demo_task Queued] 0 1 [])"
  "(pool_step demo_may)\<^sup>*\<^sup>* (NewCommitPool 1 1) (demo_pool [] 0 0 [demo_result])"
  by (meson demo_steps pool_step.working r_into_rtranclp rtranclp.rtrancl_into_rtrancl)+

lemma demo_total: "\<exists>r. demo_may j r"
  by (simp add: demo_may_def)

section \<open>Properties\<close>

text \<open>C32. The session barrier: whatever the order in which the goroutines of a pool run, when \<open>Wait\<close>
  returns because all of them have finished, its results are exactly one answer for every job
  accepted since the previous \<open>Wait\<close> - the outcome of committing that job, or its cancellation - and
  none for any other job: a goroutine of an earlier session that was still running when its \<open>Wait\<close>
  timed out never adds to a later session. This holds for the first \<open>2 ^ 64\<close> sessions, before the
  session number comes round.\<close>

theorem wait_is_barrier:
  assumes "(pool_step may)\<^sup>*\<^sup>* (NewCommitPool workers maxQueueSize) p"
    and "cp_tasks p = []" "cp_waits p < 2 ^ 64"
  shows "\<exists>js. mset js = mset (cp_accepted p) \<and> list_all2 (answers may) js (snd (Wait p))"
  using barrier_at_Wait[OF _ assms(3,2)] commit_pool.reachable_inv[OF _ assms(1)] by (auto simp: barrier_def)

text \<open>The pool is bounded: in every reachable state at most \<open>Workers\<close> goroutines are committing and at
  most \<open>MaxQueueSize\<close> are counted as in flight, \<open>Dispatch\<close> refuses a job exactly when the
  pool is closed or full.\<close>

theorem pool_bounded:
  assumes "(pool_step may)\<^sup>*\<^sup>* (NewCommitPool workers maxQueueSize) p"
  shows "length (filter in_slot (cp_tasks p)) \<le> cp_workers p \<and>
     length (filter counted (cp_tasks p)) \<le> cp_maxQueue p \<and>
     (snd (Dispatch j p) \<noteq> None \<longleftrightarrow> cp_closed p \<or> cp_maxQueue p \<le> length (filter counted (cp_tasks p)))"
proof -
  have "counts_ok p" using commit_pool.reachable_inv[OF _ assms] by (auto simp: pool_inv_def)
  then show ?thesis by (auto simp: counts_ok_def Dispatch_def split: if_splits)
qed

text \<open>\<open>Wait\<close> is not blocked for ever by the pool: when every commit call returns, the goroutines of a
  reachable pool can run until none is left, and every step of one of them brings that end nearer,
  so no schedule of theirs avoids it.\<close>

theorem pool_terminates:
  assumes "(pool_step may)\<^sup>*\<^sup>* (NewCommitPool workers maxQueueSize) p" "\<And>j. \<exists>r. may j r"
  shows "(\<exists>p'. (task_step may)\<^sup>*\<^sup>* p p' \<and> cp_tasks p' = []) \<and>
     (cp_tasks p \<noteq> [] \<longrightarrow> (\<exists>p'. task_step may p p')) \<and>
     (\<forall>p p'. task_step may p p' \<longrightarrow> pool_work p' < pool_work p)"
proof -
  have inv: "pool_inv may p" using commit_pool.reachable_inv[OF _ assms(1)] by blast
  show ?thesis using pool_drains[OF inv assms(2)] task_step_enabled[OF inv _ assms(2)] task_step_work by blast
qed

theorem wait_is_barrier_witness:
  "(\<exists>js. mset js = mset (cp_accepted (demo_pool [] 0 0 [demo_result])) \<and>
      list_all2 (answers demo_may) js (snd (Wait (demo_pool [] 0 0 [demo_result])))) \<and>
   snd (Wait (demo_pool [] 0 0 [demo_result])) = [demo_result]"
  using wait_is_barrier[OF demo_pool_reachable(2)] by (simp add: demo_pool_simps Wait_def)

theorem pool_bounded_witness:
  "snd (Dispatch demo_job (demo_pool [demo_task Queued] 0 1 [])) \<noteq> None"
  using pool_bounded[OF demo_pool_reachable(1), of demo_job] by (simp add: demo_pool_simps counted_def)

theorem pool_terminates_witness:
  "(\<exists>p'. (task_step demo_may)\<^sup>*\<^sup>* (demo_pool [demo_task Queued] 0 1 []) p' \<and> cp_tasks p' = []) \<and>
   cp_tasks (demo_pool [demo_task Queued] 0 1 []) \<noteq> []"
  using pool_terminates[OF demo_pool_reachable(1) demo_total] by (simp add: demo_pool_simps)

end
