(* ===== verification/Table_Writer.thy ===== *)
theory Table_Writer
  imports Partition
begin

text \<open>
  The table writer of the Go data plane (\<open>pkg/datagateway/goplane/writer.go\<close>): one goroutine encodes
  the batches of a table into Parquet files, one at a time for an unpartitioned table, up to
  \<open>maxOpen\<close> at a time, one per partition tuple, for a partitioned one.

  The state is what the goroutine owns. The Parquet encoder of an open file is the list of rows written
  to it and the bytes it buffers in its current row group (none after the row group is ended); a file
  whose upload completed is an object of the store. The outcome of every storage and encoder call is
  answered by an arbitrary environment that sees how many calls were made before. Log lines, and the
  hash set and flag that only decide whether a warning is logged, are left out. Where the code ranges
  over a map, the model takes the list of open files in the order they were opened.
\<close>

section \<open>State\<close>

record data_file =
  f_path :: string
  f_fw :: "row list"
  f_pages :: nat
  f_rows :: int
  f_fed :: int
  f_seq :: nat
  f_key :: string
  f_partition :: "tuple option"
  f_lastUsed :: nat

record written_file =
  wf_path :: string
  wf_rows :: int
  wf_bytes :: int
  wf_specID :: int
  wf_partition :: "tuple option"

record writer_config =
  wc_dataPrefix :: string
  wc_filePrefix :: string
  wc_targetFileBytes :: int
  wc_specID :: int
  wc_part :: "part_field list option"
  wc_maxOpen :: nat
  wc_budget :: int

record io_env =
  io_open :: "nat \<Rightarrow> string \<Rightarrow> string option"
  io_encode :: "nat \<Rightarrow> string \<Rightarrow> string option"
  io_pages :: "nat \<Rightarrow> string \<Rightarrow> nat"
  io_flush :: "nat \<Rightarrow> string \<Rightarrow> string option"
  io_footer :: "nat \<Rightarrow> string \<Rightarrow> string option"
  io_upload :: "nat \<Rightarrow> string \<Rightarrow> string option"
  io_bytes :: "nat \<Rightarrow> string \<Rightarrow> int"
  io_take :: "nat \<Rightarrow> string option"
  io_size :: "row list \<Rightarrow> int"
  io_iceberg :: iceberg_lib

record twriter =
  w_cur :: "data_file option"
  w_files :: "written_file list"
  w_err :: "string option"
  w_open :: "data_file list"
  w_tick :: nat
  w_nextSeq :: nat
  w_cause :: "string option"
  w_store :: "(string \<times> row list) list"
  w_ops :: nat

definition newWriter :: twriter where
  "newWriter =
     \<lparr>w_cur = None, w_files = [], w_err = None, w_open = [], w_tick = 0, w_nextSeq = 0, w_cause = None,
      w_store = [], w_ops = 0\<rparr>"

definition rotationFactor :: int where
  "rotationFactor = 4"

definition errAborted :: string where
  "errAborted = ''goplane: writer aborted''"

definition errClosed :: string where
  "errClosed = ''goplane: writer closed''"

definition errInterrupted :: string where
  "errInterrupted = ''goplane: writer interrupted''"

definition context_canceled :: string where
  "context_canceled = ''context canceled''"

type_synonym 'a writing = "twriter \<times> (string + 'a)"

section \<open>Files\<close>

text \<open>\<open>%05d\<close>.\<close>

definition fmt_05d :: "nat \<Rightarrow> string" where
  "fmt_05d n = replicate (5 - length (nat_str n)) (CHR ''0'') @ nat_str n"

definition file_name :: "writer_config \<Rightarrow> nat \<Rightarrow> string" where
  "file_name cfg n = wc_filePrefix cfg @ ''-'' @ fmt_05d n @ ''.parquet''"

definition failure :: "twriter \<Rightarrow> string" where
  "failure w =
     (case w_cause w of None \<Rightarrow> [] | Some c \<Rightarrow> if c = context_canceled then errInterrupted else c)"

text \<open>Only the first cancellation sets the cause.\<close>

definition cancel :: "string \<Rightarrow> twriter \<Rightarrow> twriter" where
  "cancel c w = (case w_cause w of None \<Rightarrow> w\<lparr>w_cause := Some c\<rparr> | Some _ \<Rightarrow> w)"

text \<open>Aborting an upload leaves no object behind, so the open files are simply dropped.\<close>

definition fail :: "string \<Rightarrow> twriter \<Rightarrow> twriter" where
  "fail err w =
     (cancel err (w\<lparr>w_err := (case w_err w of None \<Rightarrow> Some err | Some e \<Rightarrow> Some e)\<rparr>))
       \<lparr>w_cur := None, w_open := []\<rparr>"

definition openPath :: "io_env \<Rightarrow> string \<Rightarrow> twriter \<Rightarrow> data_file writing" where
  "openPath env path w =
     (let w' = w\<lparr>w_ops := Suc (w_ops w)\<rparr> in
      case io_open env (w_ops w) path of
        Some e \<Rightarrow> (w', Inl e)
      | None \<Rightarrow>
          (w', Inr \<lparr>f_path = path, f_fw = [], f_pages = 0, f_rows = 0, f_fed = 0, f_seq = 0, f_key = [],
                    f_partition = None, f_lastUsed = 0\<rparr>))"

definition openFile :: "writer_config \<Rightarrow> io_env \<Rightarrow> nat \<Rightarrow> twriter \<Rightarrow> data_file writing" where
  "openFile cfg env n w = openPath env (wc_dataPrefix cfg @ file_name cfg n) w"

definition finish :: "writer_config \<Rightarrow> io_env \<Rightarrow> data_file \<Rightarrow> twriter \<Rightarrow> unit writing" where
  "finish cfg env f w =
     (let n = w_ops w; w' = w\<lparr>w_ops := Suc n\<rparr> in
      case io_footer env n (f_path f) of
        Some e \<Rightarrow> (w', Inl (''goplane: finish '' @ f_path f @ '': '' @ e))
      | None \<Rightarrow>
          (case io_upload env n (f_path f) of
             Some e \<Rightarrow> (w', Inl (''goplane: upload '' @ f_path f @ '': '' @ e))
           | None \<Rightarrow>
               (w'\<lparr>w_files := w_files w @
                    [\<lparr>wf_path = f_path f, wf_rows = f_rows f, wf_bytes = io_bytes env n (f_path f),
                      wf_specID = wc_specID cfg, wf_partition = f_partition f\<rparr>],
                  w_store := assoc_put (f_path f) (f_fw f) (w_store w)\<rparr>, Inr ())))"

text \<open>Feeding a batch to the encoder of a file.\<close>

definition encode :: "io_env \<Rightarrow> data_file \<Rightarrow> row list \<Rightarrow> int \<Rightarrow> twriter \<Rightarrow> data_file writing" where
  "encode env f rows fed w =
     (let n = w_ops w; w' = w\<lparr>w_ops := Suc n\<rparr> in
      case io_encode env n (f_path f) of
        Some e \<Rightarrow> (w', Inl (''goplane: encode '' @ f_path f @ '': '' @ e))
      | None \<Rightarrow>
          (w', Inr (f\<lparr>f_fw := f_fw f @ rows, f_pages := io_pages env n (f_path f),
                      f_rows := f_rows f + int (length rows), f_fed := f_fed f + fed\<rparr>)))"

definition full_file :: "writer_config \<Rightarrow> data_file \<Rightarrow> bool" where
  "full_file cfg f \<longleftrightarrow> f_fed f \<ge> rotationFactor * wc_targetFileBytes cfg"

section \<open>Partition files\<close>

definition flushRowGroup :: "io_env \<Rightarrow> data_file \<Rightarrow> twriter \<Rightarrow> data_file writing" where
  "flushRowGroup env f w =
     (let w' = w\<lparr>w_ops := Suc (w_ops w)\<rparr> in
      case io_flush env (w_ops w) (f_path f) of
        Some e \<Rightarrow> (w', Inl (''goplane: flush row group of '' @ f_path f @ '': '' @ e))
      | None \<Rightarrow> (w', Inr (f\<lparr>f_pages := 0\<rparr>)))"

definition flushShare :: "writer_config \<Rightarrow> io_env \<Rightarrow> data_file \<Rightarrow> twriter \<Rightarrow> data_file writing" where
  "flushShare cfg env f w =
     (let n = f_pages f in
      if n = 0 \<or> int n < go_quot (wc_budget cfg) (int (length (w_open w))) then (w, Inr f)
      else flushRowGroup env f w)"

text \<open>The index and size of the file with the most buffered bytes, the first of them on a tie.\<close>

fun largest :: "nat \<Rightarrow> data_file list \<Rightarrow> (nat \<times> nat) option" where
  "largest i [] = None"
| "largest i (f # fs) =
     (case largest (Suc i) fs of
        None \<Rightarrow> Some (i, f_pages f)
      | Some (j, m) \<Rightarrow> if m > f_pages f then Some (j, m) else Some (i, f_pages f))"

lemma largest_Some: "largest i fs = Some (j, m) \<Longrightarrow> i \<le> j \<and> j < i + length fs \<and> f_pages (fs ! (j - i)) = m"
proof (induction fs arbitrary: i j m)
  case (Cons f fs)
  show ?case
  proof (cases "largest (Suc i) fs")
    case (Some p)
    obtain j' m' where p: "p = (j', m')" by (cases p)
    have "Suc i \<le> j' \<and> j' < Suc i + length fs \<and> f_pages (fs ! (j' - Suc i)) = m'"
      using Cons.IH Some p by blast
    then show ?thesis using Cons.prems Some p by (auto simp: nth_Cons' split: if_splits)
  qed (use Cons.prems in auto)
qed simp

definition pages :: "data_file list \<Rightarrow> nat" where
  "pages fs = sum_list (map f_pages fs)"

lemma pages_flush: "i < length fs \<Longrightarrow> 0 < f_pages (fs ! i) \<Longrightarrow> pages (fs[i := (fs ! i)\<lparr>f_pages := 0\<rparr>]) < pages fs"
  by (induction fs arbitrary: i) (auto simp: pages_def nth_Cons' less_Suc_eq_0_disj)

lemma flush_decreases:
  assumes "largest 0 (w_open w) = Some (i, most)" "0 < most" "flushRowGroup env (w_open w ! i) w = (w', Inr f)"
  shows "pages ((w_open w)[i := f]) < pages (w_open w)"
proof -
  have "i < length (w_open w)" "0 < f_pages (w_open w ! i)" using assms(1,2) largest_Some by fastforce+
  moreover have "f = (w_open w ! i)\<lparr>f_pages := 0\<rparr>"
    using assms(3) by (auto simp: flushRowGroup_def Let_def split: option.splits)
  ultimately show ?thesis by (simp add: pages_flush)
qed

function enforceBudget :: "writer_config \<Rightarrow> io_env \<Rightarrow> twriter \<Rightarrow> unit writing" where
  "enforceBudget cfg env w =
     (case largest 0 (w_open w) of
        None \<Rightarrow> (w, Inr ())
      | Some (i, most) \<Rightarrow>
          if int (pages (w_open w)) \<le> wc_budget cfg \<or> most = 0 then (w, Inr ())
          else
            (case flushRowGroup env (w_open w ! i) w of
               (w', Inl e) \<Rightarrow> (w', Inl e)
             | (w', Inr f) \<Rightarrow> enforceBudget cfg env (w'\<lparr>w_open := (w_open w)[i := f]\<rparr>)))"
  by pat_completeness auto

termination
  by (relation "measure (\<lambda>(cfg, env, w). pages (w_open w))") (auto dest: flush_decreases[OF _ _ sym])

definition find_open :: "string \<Rightarrow> data_file list \<Rightarrow> data_file option" where
  "find_open key fs = find (\<lambda>f. f_key f = key) fs"

definition drop_open :: "string \<Rightarrow> data_file list \<Rightarrow> data_file list" where
  "drop_open key fs = filter (\<lambda>f. f_key f \<noteq> key) fs"

definition put_open :: "data_file \<Rightarrow> data_file list \<Rightarrow> data_file list" where
  "put_open f fs = map (\<lambda>g. if f_key g = f_key f then f else g) fs"

fun lru :: "data_file \<Rightarrow> data_file list \<Rightarrow> data_file" where
  "lru f [] = f"
| "lru f (g # gs) = lru (if f_lastUsed g < f_lastUsed f then g else f) gs"

text \<open>With no open file (a limit of zero) the pointer the code dereferences is nil; the gateway
  starts writers with a limit of at least one.\<close>

definition evictLRU :: "writer_config \<Rightarrow> io_env \<Rightarrow> twriter \<Rightarrow> unit writing" where
  "evictLRU cfg env w =
     (case w_open w of
        [] \<Rightarrow> (w, Inl ''runtime error: invalid memory address or nil pointer dereference'')
      | f # fs \<Rightarrow>
          let victim = lru f fs in
          finish cfg env victim (w\<lparr>w_open := drop_open (f_key victim) (w_open w)\<rparr>))"

definition open_file :: "writer_config \<Rightarrow> io_env \<Rightarrow> part_field list \<Rightarrow> row_group \<Rightarrow> twriter \<Rightarrow> data_file writing" where
  "open_file cfg env fs g w =
     (let partPath = part_path (io_iceberg env) fs (rg_tuple g);
          path = wc_dataPrefix cfg @ partPath @ ''/'' @ file_name cfg (w_nextSeq w)
      in case checkKeyLength path partPath of
           Some e \<Rightarrow> (w, Inl e)
         | None \<Rightarrow>
             (case openPath env path w of
                (w', Inl e) \<Rightarrow> (w', Inl e)
              | (w', Inr f0) \<Rightarrow>
                  let f = f0\<lparr>f_seq := w_nextSeq w', f_key := rg_key g, f_partition := Some (rg_tuple g)\<rparr> in
                  (w'\<lparr>w_nextSeq := Suc (w_nextSeq w'), w_open := w_open w' @ [f]\<rparr>, Inr f)))"

definition openPartition ::
    "writer_config \<Rightarrow> io_env \<Rightarrow> part_field list \<Rightarrow> row_group \<Rightarrow> twriter \<Rightarrow> data_file writing" where
  "openPartition cfg env fs g w =
     (if length (w_open w) \<ge> wc_maxOpen cfg then
        (case evictLRU cfg env w of
           (w', Inl e) \<Rightarrow> (w', Inl e)
         | (w', Inr _) \<Rightarrow> open_file cfg env fs g w')
      else open_file cfg env fs g w)"

definition ready_file ::
    "writer_config \<Rightarrow> io_env \<Rightarrow> part_field list \<Rightarrow> row_group \<Rightarrow> twriter \<Rightarrow> data_file writing" where
  "ready_file cfg env fs g w =
     (case find_open (rg_key g) (w_open w) of
        Some f \<Rightarrow> (w, Inr f)
      | None \<Rightarrow> openPartition cfg env fs g w)"

text \<open>The part of \<open>writeGroup\<close> after the file's share of the budget is flushed.\<close>

definition write_sub ::
    "writer_config \<Rightarrow> io_env \<Rightarrow> data_file \<Rightarrow> row list \<Rightarrow> int \<Rightarrow> twriter \<Rightarrow> unit writing" where
  "write_sub cfg env f sub fed w =
     (case encode env f sub fed w of
        (w1, Inl e) \<Rightarrow> (w1, Inl e)
      | (w1, Inr f1) \<Rightarrow>
          let w2 = w1\<lparr>w_tick := Suc (w_tick w1)\<rparr>;
              f2 = f1\<lparr>f_lastUsed := w_tick w2\<rparr>
          in if full_file cfg f2 then
               (case finish cfg env f2 (w2\<lparr>w_open := drop_open (f_key f2) (w_open w2)\<rparr>) of
                  (w3, Inl e) \<Rightarrow> (w3, Inl e)
                | (w3, Inr _) \<Rightarrow> enforceBudget cfg env w3)
             else enforceBudget cfg env (w2\<lparr>w_open := put_open f2 (w_open w2)\<rparr>))"

definition writeGroup ::
    "writer_config \<Rightarrow> io_env \<Rightarrow> part_field list \<Rightarrow> row list \<Rightarrow> int \<Rightarrow> row_group \<Rightarrow> twriter \<Rightarrow> unit writing" where
  "writeGroup cfg env fs rows parentBytes g w =
     (case subBatch (io_take env (w_ops w)) (io_size env) rows g parentBytes of
        Inl e \<Rightarrow> (w, Inl e)
      | Inr (sub, fed) \<Rightarrow>
          (case ready_file cfg env fs g w of
             (w1, Inl e) \<Rightarrow> (w1, Inl e)
           | (w1, Inr f) \<Rightarrow>
               (case flushShare cfg env f w1 of
                  (w2, Inl e) \<Rightarrow> (w2, Inl e)
                | (w2, Inr f2) \<Rightarrow> write_sub cfg env f2 sub fed w2)))"

fun writeGroups ::
    "writer_config \<Rightarrow> io_env \<Rightarrow> part_field list \<Rightarrow> row list \<Rightarrow> int \<Rightarrow> row_group list \<Rightarrow> twriter \<Rightarrow> unit writing" where
  "writeGroups cfg env fs rows pb [] w = (w, Inr ())"
| "writeGroups cfg env fs rows pb (g # gs) w =
     (case writeGroup cfg env fs rows pb g w of
        (w', Inl e) \<Rightarrow> (w', Inl e)
      | (w', Inr _) \<Rightarrow> writeGroups cfg env fs rows pb gs w')"

definition writePartitioned ::
    "writer_config \<Rightarrow> io_env \<Rightarrow> part_field list \<Rightarrow> row list \<Rightarrow> twriter \<Rightarrow> unit writing" where
  "writePartitioned cfg env fs rows w =
     (case split_batch fs rows of
        Inl e \<Rightarrow> (w, Inl e)
      | Inr groups \<Rightarrow> writeGroups cfg env fs rows (io_size env rows) groups w)"

section \<open>Batches\<close>

definition write_current :: "writer_config \<Rightarrow> io_env \<Rightarrow> row list \<Rightarrow> data_file \<Rightarrow> twriter \<Rightarrow> unit writing" where
  "write_current cfg env rows f w =
     (case encode env f rows (io_size env rows) w of
        (w1, Inl e) \<Rightarrow> (w1\<lparr>w_cur := Some f\<rparr>, Inl e)
      | (w1, Inr f1) \<Rightarrow>
          if full_file cfg f1 then finish cfg env f1 (w1\<lparr>w_cur := None\<rparr>)
          else (w1\<lparr>w_cur := Some f1\<rparr>, Inr ()))"

definition writeRecord :: "writer_config \<Rightarrow> io_env \<Rightarrow> row list \<Rightarrow> twriter \<Rightarrow> unit writing" where
  "writeRecord cfg env rows w =
     (if rows = [] then (w, Inr ())
      else
        (case wc_part cfg of
           Some fs \<Rightarrow> writePartitioned cfg env fs rows w
         | None \<Rightarrow>
             (case w_cur w of
                Some f \<Rightarrow> write_current cfg env rows f w
              | None \<Rightarrow>
                  (case openFile cfg env (length (w_files w)) w of
                     (w', Inl e) \<Rightarrow> (w', Inl e)
                   | (w', Inr f) \<Rightarrow> write_current cfg env rows f w'))))"

definition check_lifetime :: "twriter \<Rightarrow> twriter" where
  "check_lifetime w = (if w_err w = None \<and> w_cause w \<noteq> None then fail (failure w) w else w)"

definition process_batch :: "writer_config \<Rightarrow> io_env \<Rightarrow> row list \<Rightarrow> twriter \<Rightarrow> twriter" where
  "process_batch cfg env rows w0 =
     (let w = check_lifetime w0 in
      if w_err w \<noteq> None then w
      else (case writeRecord cfg env rows w of (w', Inl e) \<Rightarrow> fail e w' | (w', Inr _) \<Rightarrow> w'))"

fun finish_all :: "writer_config \<Rightarrow> io_env \<Rightarrow> data_file list \<Rightarrow> twriter \<Rightarrow> twriter" where
  "finish_all cfg env [] w = cancel errClosed w"
| "finish_all cfg env (f # fs) w =
     (case finish cfg env f (w\<lparr>w_open := drop_open (f_key f) (w_open w)\<rparr>) of
        (w', Inl e) \<Rightarrow> fail e w'
      | (w', Inr _) \<Rightarrow> finish_all cfg env fs w')"

definition finishOpen :: "writer_config \<Rightarrow> io_env \<Rightarrow> twriter \<Rightarrow> twriter" where
  "finishOpen cfg env w = finish_all cfg env (sort_key f_seq (w_open w)) w"

definition finishLast :: "writer_config \<Rightarrow> io_env \<Rightarrow> twriter \<Rightarrow> twriter" where
  "finishLast cfg env w0 =
     (let w = check_lifetime w0 in
      if w_err w \<noteq> None then w
      else if wc_part cfg \<noteq> None then finishOpen cfg env w
      else
        (case w_cur w of
           None \<Rightarrow> w
         | Some f \<Rightarrow>
             (case finish cfg env f (w\<lparr>w_cur := None\<rparr>) of
                (w', Inl e) \<Rightarrow> fail e w'
              | (w', Inr _) \<Rightarrow> cancel errClosed w')))"

text \<open>What \<open>Close\<close> returns once the goroutine is done.\<close>

definition close_result :: "twriter \<Rightarrow> string + written_file list" where
  "close_result w = (case w_err w of Some e \<Rightarrow> Inl e | None \<Rightarrow> Inr (w_files w))"

end
