(* ===== verification/Table_Writer_Facts.thy ===== *)
theory Table_Writer_Facts
  imports Table_Writer "HOL-Library.Multiset"
begin

text \<open>
  Invariants of the table writer: what its finished and open files hold of the batches processed so
  far, for the unpartitioned and the partitioned mode, and the frame facts of the file operations they
  rest on.
\<close>

section \<open>File names\<close>

lemma fmt_05d_digits: "list_all is_digit (fmt_05d n)" "digits_val 0 (fmt_05d n) = n"
proof -
  have z: "list_all is_digit (replicate k (CHR ''0''))" "digits_val 0 (replicate k (CHR ''0'')) = 0" for k
    by (induction k) (simp_all add: is_digit_def digit_val_def)
  show "list_all is_digit (fmt_05d n)" using nat_str_digits[of n] z by (simp add: fmt_05d_def)
  show "digits_val 0 (fmt_05d n) = n" by (simp add: fmt_05d_def digits_val_append z digits_val_nat_str)
qed

lemma digit_suffix_unique:
  assumes "list_all is_digit d" "list_all is_digit e" "p @ CHR ''-'' # d = q @ CHR ''-'' # e"
  shows "d = e"
proof -
  have "takeWhile is_digit (rev d @ CHR ''-'' # xs) = rev d" if "list_all is_digit d" for d xs
  proof -
    have "takeWhile is_digit (rev d @ CHR ''-'' # xs) = rev d @ takeWhile is_digit (CHR ''-'' # xs)"
      using that by (intro takeWhile_append2) (simp add: list_all_iff)
    then show ?thesis by simp
  qed
  moreover have "rev d @ CHR ''-'' # rev p = rev e @ CHR ''-'' # rev q"
    using arg_cong[OF assms(3), of rev] by simp
  ultimately have "rev d = rev e" using assms(1,2) by metis
  then show ?thesis by simp
qed

lemma file_name_inject: "p @ file_name cfg m = q @ file_name cfg n \<Longrightarrow> m = n"
proof -
  assume "p @ file_name cfg m = q @ file_name cfg n"
  then have "(p @ wc_filePrefix cfg) @ CHR ''-'' # fmt_05d m = (q @ wc_filePrefix cfg) @ CHR ''-'' # fmt_05d n"
    by (simp add: file_name_def)
  then have "fmt_05d m = fmt_05d n" by (rule digit_suffix_unique[OF fmt_05d_digits(1) fmt_05d_digits(1)])
  then show ?thesis using fmt_05d_digits(2) by metis
qed

text \<open>A path that ends in the name of one of the first \<open>n\<close> files.\<close>

definition seq_path :: "writer_config \<Rightarrow> nat \<Rightarrow> string \<Rightarrow> bool" where
  "seq_path cfg n p \<longleftrightarrow> (\<exists>pre k. p = pre @ file_name cfg k \<and> k < n)"

lemma seq_path_mono: "seq_path cfg n p \<Longrightarrow> n \<le> m \<Longrightarrow> seq_path cfg m p"
  unfolding seq_path_def by (blast intro: order_less_le_trans)

lemma seq_path_new: "seq_path cfg (Suc n) (pre @ file_name cfg n)"
  by (auto simp: seq_path_def)

lemma seq_path_fresh: "seq_path cfg n p \<Longrightarrow> p \<noteq> pre @ file_name cfg n"
  unfolding seq_path_def using file_name_inject by (metis less_irrefl)

section \<open>Rows and tuples\<close>

definition row_key :: "part_field list \<Rightarrow> row \<Rightarrow> string option" where
  "row_key fs r = (case row_values fs r of Inl _ \<Rightarrow> None | Inr vs \<Rightarrow> Some (tuple_key vs))"

definition key_rows :: "part_field list \<Rightarrow> string \<Rightarrow> row list \<Rightarrow> row list" where
  "key_rows fs k rows = filter (\<lambda>r. row_key fs r = Some k) rows"

text \<open>The tuple a file carries is that of all its rows; files of an unpartitioned table carry none.\<close>

definition part_ok :: "writer_config \<Rightarrow> tuple option \<Rightarrow> row list \<Rightarrow> bool" where
  "part_ok cfg part rows \<longleftrightarrow>
     (case wc_part cfg of
        None \<Rightarrow> part = None
      | Some fs \<Rightarrow> \<exists>vs. part = Some (group_tuple fs vs) \<and> (\<forall>r \<in> set rows. row_key fs r = Some (tuple_key vs)))"

text \<open>The files reported and the objects stored correspond, and no path is used twice.\<close>

definition store_ok :: "writer_config \<Rightarrow> nat \<Rightarrow> twriter \<Rightarrow> bool" where
  "store_ok cfg n w \<longleftrightarrow>
     list_all2 (\<lambda>wf (p, rows). wf_path wf = p \<and> wf_rows wf = int (length rows) \<and> seq_path cfg n p \<and>
       part_ok cfg (wf_partition wf) rows) (w_files w) (w_store w) \<and>
     distinct (map fst (w_store w))"

lemma store_ok_length: "store_ok cfg n w \<Longrightarrow> length (w_files w) = length (w_store w)"
  unfolding store_ok_def by (blast dest: list_all2_lengthD)

lemma store_ok_paths: "store_ok cfg n w \<Longrightarrow> p \<in> fst ` set (w_store w) \<Longrightarrow> seq_path cfg n p"
  unfolding store_ok_def by (auto dest!: list_all2_right)

lemma store_ok_mono: "store_ok cfg n w \<Longrightarrow> n \<le> m \<Longrightarrow> store_ok cfg m w"
  unfolding store_ok_def by (auto elim!: list_all2_mono intro: seq_path_mono)

lemma assoc_put_new: "k \<notin> fst ` set m \<Longrightarrow> assoc_put k v m = m @ [(k, v)]"
  by (induction m) auto

section \<open>Frames\<close>

definition same_files :: "twriter \<Rightarrow> twriter \<Rightarrow> bool" where
  "same_files w w' \<longleftrightarrow>
     w_files w' = w_files w \<and> w_store w' = w_store w \<and> w_nextSeq w' = w_nextSeq w \<and> w_cur w' = w_cur w \<and>
     w_err w' = w_err w"

lemma openPath_ok:
  assumes "openPath env path w = (w', Inr f)"
  shows "same_files w w'" "w_open w' = w_open w" "f_path f = path" "f_fw f = []" "f_rows f = 0" "f_partition f = None"
  using assms by (auto simp: openPath_def same_files_def Let_def split: option.splits)

lemma encode_ok:
  assumes "encode env f rows fed w = (w', Inr f')"
  shows "same_files w w'" "w_open w' = w_open w" "f_path f' = f_path f" "f_fw f' = f_fw f @ rows"
    "f_rows f' = f_rows f + int (length rows)" "f_partition f' = f_partition f" "f_key f' = f_key f"
    "f_seq f' = f_seq f"
  using assms by (auto simp: encode_def same_files_def Let_def split: option.splits)

lemma finish_ok:
  assumes "finish cfg env f w = (w', Inr u)" "store_ok cfg n w" "f_path f \<notin> fst ` set (w_store w)"
    "seq_path cfg m (f_path f)" "n \<le> m" "f_rows f = int (length (f_fw f))" "part_ok cfg (f_partition f) (f_fw f)"
  shows "store_ok cfg m w'" "w_store w' = w_store w @ [(f_path f, f_fw f)]" "w_open w' = w_open w"
    "w_nextSeq w' = w_nextSeq w" "w_cur w' = w_cur w" "w_err w' = w_err w"
    "length (w_files w') = Suc (length (w_files w))"
proof -
  have mono: "store_ok cfg m w" using assms(2,5) by (rule store_ok_mono)
  show store: "w_store w' = w_store w @ [(f_path f, f_fw f)]" and "w_open w' = w_open w"
    "w_nextSeq w' = w_nextSeq w" "w_cur w' = w_cur w" "w_err w' = w_err w"
    "length (w_files w') = Suc (length (w_files w))"
    using assms(1,3) by (auto simp: finish_def Let_def assoc_put_new split: option.splits)
  obtain wf where "w_files w' = w_files w @ [wf]" "wf_path wf = f_path f" "wf_rows wf = f_rows f"
      "wf_partition wf = f_partition f"
    using assms(1) by (auto simp: finish_def Let_def split: option.splits)
  then show "store_ok cfg m w'" using mono store assms(3,4,6,7)
    by (auto simp: store_ok_def intro!: list_all2_appendI)
qed

section \<open>Unpartitioned tables\<close>

text \<open>The objects stored and the current file hold the rows processed so far, in order.\<close>

definition cur_ok :: "writer_config \<Rightarrow> twriter \<Rightarrow> data_file \<Rightarrow> bool" where
  "cur_ok cfg w f \<longleftrightarrow>
     f_path f = wc_dataPrefix cfg @ file_name cfg (length (w_files w)) \<and> f_rows f = int (length (f_fw f)) \<and>
     f_partition f = None"

definition plain_inv :: "writer_config \<Rightarrow> row list \<Rightarrow> twriter \<Rightarrow> bool" where
  "plain_inv cfg done w \<longleftrightarrow>
     store_ok cfg (length (w_files w)) w \<and>
     (case w_cur w of
        None \<Rightarrow> concat (map snd (w_store w)) = done
      | Some f \<Rightarrow> cur_ok cfg w f \<and> concat (map snd (w_store w)) @ f_fw f = done)"

lemma finish_current:
  assumes part: "wc_part cfg = None" and ok: "store_ok cfg (length (w_files w)) w" "cur_ok cfg w f"
    and fin: "finish cfg env f (w\<lparr>w_cur := None\<rparr>) = (w', Inr u)"
  shows "plain_inv cfg (concat (map snd (w_store w)) @ f_fw f) w' \<and> w_cur w' = None \<and> w_err w' = w_err w"
proof -
  let ?w = "w\<lparr>w_cur := None\<rparr>" and ?n = "length (w_files w)"
  have path: "f_path f = wc_dataPrefix cfg @ file_name cfg ?n" using ok(2) by (simp add: cur_ok_def)
  have fresh: "f_path f \<notin> fst ` set (w_store ?w)"
    unfolding path using store_ok_paths[OF ok(1)] seq_path_fresh by fastforce
  have "store_ok cfg ?n ?w" "seq_path cfg (Suc ?n) (f_path f)"
    using ok(1) path seq_path_new by (simp_all add: store_ok_def)
  note facts = finish_ok[OF fin this(1) fresh this(2)]
  have "f_rows f = int (length (f_fw f))" "part_ok cfg (f_partition f) (f_fw f)"
    using ok(2) part by (simp_all add: cur_ok_def part_ok_def)
  note facts = facts[OF _ this]
  show ?thesis using facts by (simp add: plain_inv_def)
qed

lemma write_current_ok:
  assumes part: "wc_part cfg = None" and ok: "store_ok cfg (length (w_files w)) w" "cur_ok cfg w f"
    and wr: "write_current cfg env rows f w = (w', Inr u)"
  shows "plain_inv cfg (concat (map snd (w_store w)) @ f_fw f @ rows) w' \<and> w_err w' = w_err w"
proof -
  obtain w1 f1 where enc: "encode env f rows (io_size env rows) w = (w1, Inr f1)"
    using wr by (auto simp: write_current_def split: prod.splits sum.splits)
  note e = encode_ok[OF enc]
  have s1: "store_ok cfg (length (w_files w1)) w1" "cur_ok cfg w1 f1" "w_store w1 = w_store w" "w_err w1 = w_err w"
    using ok e by (simp_all add: same_files_def store_ok_def cur_ok_def)
  show ?thesis
  proof (cases "full_file cfg f1")
    case True
    then have "finish cfg env f1 (w1\<lparr>w_cur := None\<rparr>) = (w', Inr u)" using wr enc by (simp add: write_current_def)
    from finish_current[OF part s1(1,2) this] show ?thesis using s1 e(4) by simp
  next
    case False
    then show ?thesis using wr enc s1 e(4) by (auto simp: write_current_def plain_inv_def store_ok_def cur_ok_def)
  qed
qed

lemma plain_write:
  assumes part: "wc_part cfg = None" and inv: "plain_inv cfg done w"
    and wr: "writeRecord cfg env rows w = (w', Inr u)"
  shows "plain_inv cfg (done @ rows) w' \<and> w_err w' = w_err w"
proof (cases "rows = []")
  case True
  then show ?thesis using inv wr by (simp add: writeRecord_def)
next
  case False
  show ?thesis
  proof (cases "w_cur w")
    case (Some f)
    then have "done = concat (map snd (w_store w)) @ f_fw f" "store_ok cfg (length (w_files w)) w" "cur_ok cfg w f"
        and "write_current cfg env rows f w = (w', Inr u)"
      using inv wr part False by (auto simp: writeRecord_def plain_inv_def)
    then show ?thesis using write_current_ok[OF part, of w f env rows w' u] by simp
  next
    case None
    then obtain w1 f where op: "openFile cfg env (length (w_files w)) w = (w1, Inr f)"
        and wr1: "write_current cfg env rows f w1 = (w', Inr u)"
      using wr part False by (auto simp: writeRecord_def split: prod.splits sum.splits)
    note o = openPath_ok[OF op[unfolded openFile_def]]
    have "store_ok cfg (length (w_files w1)) w1" "cur_ok cfg w1 f" "w_store w1 = w_store w" "w_err w1 = w_err w"
      using inv None o by (simp_all add: plain_inv_def same_files_def store_ok_def cur_ok_def)
    moreover have "done = concat (map snd (w_store w))" using inv None by (simp add: plain_inv_def)
    ultimately show ?thesis using write_current_ok[OF part _ _ wr1] o(4) by simp
  qed
qed

section \<open>Partitioned tables\<close>

lemma find_open_Some: "find_open k fs = Some f \<Longrightarrow> f \<in> set fs \<and> f_key f = k"
  unfolding find_open_def by (rule find_map_of_first)

lemma find_open_member: "distinct (map f_key fs) \<Longrightarrow> f \<in> set fs \<Longrightarrow> find_open (f_key f) fs = Some f"
  unfolding find_open_def by (induction fs) (auto simp: image_iff)

lemma find_open_drop: "find_open k (drop_open k' fs) = (if k = k' then None else find_open k fs)"
  unfolding find_open_def drop_open_def by (induction fs) auto

lemma find_open_snoc:
  "find_open k (fs @ [f]) = (case find_open k fs of None \<Rightarrow> if f_key f = k then Some f else None | Some g \<Rightarrow> Some g)"
  unfolding find_open_def by (induction fs) auto

lemma find_open_put:
  "find_open k (put_open f fs) = (if k = f_key f \<and> find_open k fs \<noteq> None then Some f else find_open k fs)"
  unfolding find_open_def put_open_def by (induction fs) auto

lemmas find_open_simps = find_open_drop find_open_snoc find_open_put

definition open_rows :: "string \<Rightarrow> data_file list \<Rightarrow> row list" where
  "open_rows k fs = (case find_open k fs of None \<Rightarrow> [] | Some f \<Rightarrow> f_fw f)"

definition open_ok :: "writer_config \<Rightarrow> part_field list \<Rightarrow> twriter \<Rightarrow> data_file \<Rightarrow> bool" where
  "open_ok cfg fs w f \<longleftrightarrow>
     f_rows f = int (length (f_fw f)) \<and> seq_path cfg (w_nextSeq w) (f_path f) \<and>
     f_path f \<notin> fst ` set (w_store w) \<and>
     (\<forall>r \<in> set (f_fw f). row_key fs r = Some (f_key f)) \<and>
     (\<exists>vs. f_key f = tuple_key vs \<and> f_partition f = Some (group_tuple fs vs))"

text \<open>For every tuple key, the rows of that key in the stored objects followed by those of the open
  file of the key are the rows of that key processed so far, in order.\<close>

definition part_inv :: "writer_config \<Rightarrow> part_field list \<Rightarrow> (string \<Rightarrow> row list) \<Rightarrow> twriter \<Rightarrow> bool" where
  "part_inv cfg fs done w \<longleftrightarrow>
     store_ok cfg (w_nextSeq w) w \<and>
     distinct (map f_key (w_open w)) \<and> distinct (map f_path (w_open w)) \<and>
     (\<forall>f \<in> set (w_open w). open_ok cfg fs w f) \<and>
     length (w_open w) \<le> wc_maxOpen cfg \<and>
     (\<forall>k. key_rows fs k (concat (map snd (w_store w))) @ open_rows k (w_open w) = done k)"

lemma open_ok_part: "wc_part cfg = Some fs \<Longrightarrow> open_ok cfg fs w f \<Longrightarrow> part_ok cfg (f_partition f) (f_fw f)"
  by (auto simp: open_ok_def part_ok_def)

text \<open>What the invariant sees of an open file.\<close>

definition view :: "data_file \<Rightarrow> data_file" where
  "view f = f\<lparr>f_pages := 0, f_fed := 0, f_lastUsed := 0\<rparr>"

lemma view_simps [simp]:
  "f_path (view f) = f_path f" "f_fw (view f) = f_fw f" "f_rows (view f) = f_rows f" "f_key (view f) = f_key f"
  "f_partition (view f) = f_partition f" "f_seq (view f) = f_seq f"
  by (simp_all add: view_def)

lemma find_open_view: "find_open k (map view fs) = map_option view (find_open k fs)"
  unfolding find_open_def by (induction fs) auto

lemma part_inv_cong:
  assumes "part_inv cfg fs done w" "same_files w w'" "map view (w_open w') = map view (w_open w)"
  shows "part_inv cfg fs done w'"
proof -
  have m: "map f_key (w_open w') = map f_key (w_open w)" "map f_path (w_open w') = map f_path (w_open w)"
      "length (w_open w') = length (w_open w)"
    using arg_cong[OF assms(3), of "map f_key"] arg_cong[OF assms(3), of "map f_path"]
      arg_cong[OF assms(3), of length] by (simp_all add: comp_def)
  have rows: "open_rows k (w_open w') = open_rows k (w_open w)" for k
    using arg_cong[OF assms(3), of "find_open k"] unfolding find_open_view open_rows_def
    by (auto split: option.splits) (metis view_simps(2))
  have "\<forall>f \<in> set (w_open w'). open_ok cfg fs w' f"
  proof
    fix f assume "f \<in> set (w_open w')"
    then have "view f \<in> set (map view (w_open w))" using assms(3) by (simp flip: assms(3))
    then obtain g where g: "g \<in> set (w_open w)" "view f = view g" by auto
    have "open_ok cfg fs w g" using assms(1) g(1) by (simp add: part_inv_def)
    moreover have "open_ok cfg fs w' (view f) = open_ok cfg fs w (view f)"
      using assms(2) by (simp add: open_ok_def same_files_def)
    moreover have "open_ok cfg fs w' (view f) = open_ok cfg fs w' f" "open_ok cfg fs w (view g) = open_ok cfg fs w g"
      by (simp_all add: open_ok_def)
    ultimately show "open_ok cfg fs w' f" using g(2) by simp
  qed
  then show ?thesis using assms(1,2) m rows by (simp add: part_inv_def same_files_def store_ok_def)
qed

lemma same_files_simps [simp]: "same_files w w" "same_files w (w\<lparr>w_open := x\<rparr>)" "same_files w (w\<lparr>w_tick := n\<rparr>)"
  by (simp_all add: same_files_def)

lemma same_files_trans: "same_files a b \<Longrightarrow> same_files b c \<Longrightarrow> same_files a c"
  by (simp add: same_files_def)

lemma flushRowGroup_ok:
  assumes "flushRowGroup env f w = (w', Inr f')"
  shows "same_files w w'" "w_open w' = w_open w" "view f' = view f"
  using assms by (auto simp: flushRowGroup_def same_files_def view_def Let_def split: option.splits)

lemma flushShare_ok:
  assumes "flushShare cfg env f w = (w', Inr f')"
  shows "same_files w w'" "w_open w' = w_open w" "view f' = view f"
  using assms flushRowGroup_ok[of env f w w' f'] by (auto simp: flushShare_def Let_def split: if_splits)

lemma enforceBudget_ok:
  "enforceBudget cfg env w = (w', Inr u) \<Longrightarrow> same_files w w' \<and> map view (w_open w') = map view (w_open w)"
proof (induction cfg env w rule: enforceBudget.induct)
  case (1 cfg env w)
  show ?case
  proof (cases "largest 0 (w_open w)")
    case None
    then show ?thesis using "1.prems" by simp
  next
    case (Some p)
    obtain i most where p: "p = (i, most)" by (cases p)
    show ?thesis
    proof (cases "int (pages (w_open w)) \<le> wc_budget cfg \<or> most = 0")
      case True
      then show ?thesis using "1.prems" Some p by simp
    next
      case False
      then obtain w1 f where fl: "flushRowGroup env (w_open w ! i) w = (w1, Inr f)"
          and rec: "enforceBudget cfg env (w1\<lparr>w_open := (w_open w)[i := f]\<rparr>) = (w', Inr u)"
        using "1.prems" Some p by (auto simp: enforceBudget.simps[of cfg env w] split: prod.splits sum.splits)
      have "same_files (w1\<lparr>w_open := (w_open w)[i := f]\<rparr>) w' \<and>
          map view (w_open w') = map view ((w_open w)[i := f])"
        using "1.IH"[OF Some p[symmetric] False fl[symmetric] refl rec] by simp
      moreover have "map view ((w_open w)[i := f]) = map view (w_open w)"
        using flushRowGroup_ok(3)[OF fl] by (metis list_update_id map_update)
      ultimately show ?thesis
        using flushRowGroup_ok(1)[OF fl] same_files_trans same_files_simps(2) by metis
    qed
  qed
qed

text \<open>Finishing an open file moves its rows to the store.\<close>

lemma drop_open_map: "distinct (map g fs) \<Longrightarrow> distinct (map g (drop_open k fs))"
  by (simp add: drop_open_def distinct_map_filter)

lemma length_drop_open: "f \<in> set fs \<Longrightarrow> f_key f = k \<Longrightarrow> length (drop_open k fs) < length fs"
  unfolding drop_open_def by (induction fs) (auto simp: less_Suc_eq_le)

lemma key_rows_own: "\<forall>r \<in> set rows. row_key fs r = Some k' \<Longrightarrow> key_rows fs k rows = (if k = k' then rows else [])"
  by (induction rows) (auto simp: key_rows_def)

lemma finish_open_ok:
  assumes part: "wc_part cfg = Some fs" and inv: "part_inv cfg fs done w" and f: "f \<in> set (w_open w)"
    and f': "view f' = (view f)\<lparr>f_fw := f_fw f @ sub, f_rows := f_rows f + int (length sub)\<rparr>"
    and sub: "\<forall>r \<in> set sub. row_key fs r = Some (f_key f)"
    and fin: "finish cfg env f' (w\<lparr>w_open := drop_open (f_key f) (w_open w)\<rparr>) = (w', Inr u)"
  shows "part_inv cfg fs (done(f_key f := done (f_key f) @ sub)) w' \<and> w_err w' = w_err w \<and>
    w_open w' = drop_open (f_key f) (w_open w)"
proof -
  let ?w = "w\<lparr>w_open := drop_open (f_key f) (w_open w)\<rparr>"
  have ok: "open_ok cfg fs w f" using inv f by (simp add: part_inv_def)
  have e: "f_path f' = f_path f" "f_key f' = f_key f" "f_partition f' = f_partition f" "f_fw f' = f_fw f @ sub"
      "f_rows f' = f_rows f + int (length sub)"
    using arg_cong[OF f', of f_path] arg_cong[OF f', of f_key] arg_cong[OF f', of f_partition]
      arg_cong[OF f', of f_fw] arg_cong[OF f', of f_rows] by simp_all
  have own: "\<forall>r \<in> set (f_fw f @ sub). row_key fs r = Some (f_key f)" using ok sub by (auto simp: open_ok_def)
  have "store_ok cfg (w_nextSeq w) ?w" using inv by (simp add: part_inv_def store_ok_def)
  moreover have "f_path f' \<notin> fst ` set (w_store ?w)" "seq_path cfg (w_nextSeq w) (f_path f')"
      "f_rows f' = int (length (f_fw f'))"
    using ok e by (simp_all add: open_ok_def)
  moreover have "part_ok cfg (f_partition f') (f_fw f')"
    using ok own e part by (auto simp: open_ok_def part_ok_def)
  ultimately have st: "store_ok cfg (w_nextSeq w) w'" "w_store w' = w_store w @ [(f_path f, f_fw f @ sub)]"
      "w_open w' = drop_open (f_key f) (w_open w)" "w_nextSeq w' = w_nextSeq w" "w_err w' = w_err w"
    using finish_ok[OF fin, of "w_nextSeq w" "w_nextSeq w"] e by simp_all
  have find: "find_open (f_key f) (w_open w) = Some f" using inv f by (simp add: part_inv_def find_open_member)
  have "\<forall>g \<in> set (w_open w'). open_ok cfg fs w' g"
  proof
    fix g assume "g \<in> set (w_open w')"
    then have g: "g \<in> set (w_open w)" "f_key g \<noteq> f_key f" unfolding st(3) by (auto simp: drop_open_def)
    then have "f_path g \<noteq> f_path f" using inv f by (auto simp: part_inv_def distinct_map inj_on_def)
    then show "open_ok cfg fs w' g" using inv g st by (auto simp: part_inv_def open_ok_def)
  qed
  moreover have "key_rows fs k (concat (map snd (w_store w'))) @ open_rows k (w_open w') =
      (done(f_key f := done (f_key f) @ sub)) k" for k
  proof -
    have "key_rows fs k (concat (map snd (w_store w))) @ open_rows k (w_open w) = done k"
      using inv by (simp add: part_inv_def)
    moreover have "key_rows fs k (f_fw f @ sub) = (if k = f_key f then f_fw f @ sub else [])"
      by (rule key_rows_own[OF own])
    ultimately show ?thesis
      unfolding st(2,3) by (auto simp: open_rows_def find_open_drop find key_rows_def)
  qed
  moreover have "length (w_open w') \<le> wc_maxOpen cfg"
    using inv length_drop_open[OF f refl] st(3) by (simp add: part_inv_def)
  ultimately show ?thesis using inv st by (simp add: part_inv_def drop_open_map)
qed

lemma lru_member: "lru f fs \<in> set (f # fs)"
  by (induction fs arbitrary: f) auto

lemma evict_ok:
  assumes "wc_part cfg = Some fs" "part_inv cfg fs done w" "evictLRU cfg env w = (w', Inr u)"
  shows "part_inv cfg fs done w' \<and> w_err w' = w_err w \<and> length (w_open w') < length (w_open w) \<and>
    (\<forall>k. find_open k (w_open w) = None \<longrightarrow> find_open k (w_open w') = None)"
proof -
  obtain f gs where "w_open w = f # gs" using assms(3) by (cases "w_open w") (auto simp: evictLRU_def)
  define v where "v = lru f gs"
  have v: "v \<in> set (w_open w)" using lru_member[of f gs] \<open>w_open w = f # gs\<close> by (simp add: v_def)
  have "finish cfg env v (w\<lparr>w_open := drop_open (f_key v) (w_open w)\<rparr>) = (w', Inr u)"
    using assms(3) \<open>w_open w = f # gs\<close> by (simp add: evictLRU_def Let_def v_def)
  from finish_open_ok[OF assms(1,2) v, of v "[]", OF _ _ this]
  show ?thesis using length_drop_open[OF v refl] by (auto simp: find_open_drop)
qed

definition group_of :: "part_field list \<Rightarrow> row_group \<Rightarrow> bool" where
  "group_of fs g \<longleftrightarrow> (\<exists>vs. rg_key g = tuple_key vs \<and> rg_tuple g = group_tuple fs vs)"

lemma open_file_ok:
  assumes inv: "part_inv cfg fs done w" and none: "find_open (rg_key g) (w_open w) = None"
    and room: "length (w_open w) < wc_maxOpen cfg" and g: "group_of fs g"
    and op: "open_file cfg env fs g w = (w', Inr f)"
  shows "part_inv cfg fs done w' \<and> w_err w' = w_err w \<and> f \<in> set (w_open w') \<and> f_key f = rg_key g"
proof -
  define pre where "pre = wc_dataPrefix cfg @ part_path (io_iceberg env) fs (rg_tuple g) @ ''/''"
  obtain w1 f0 where o: "openPath env (pre @ file_name cfg (w_nextSeq w)) w = (w1, Inr f0)"
      and f: "f = f0\<lparr>f_seq := w_nextSeq w1, f_key := rg_key g, f_partition := Some (rg_tuple g)\<rparr>"
      and w': "w' = w1\<lparr>w_nextSeq := Suc (w_nextSeq w1), w_open := w_open w1 @ [f]\<rparr>"
    using op by (auto simp: open_file_def pre_def Let_def split: option.splits prod.splits sum.splits)
  note o = openPath_ok[OF o]
  have w1: "w_files w1 = w_files w" "w_store w1 = w_store w" "w_nextSeq w1 = w_nextSeq w" "w_err w1 = w_err w"
      "w_open w1 = w_open w"
    using o(1,2) by (simp_all add: same_files_def)
  have path: "f_path f = pre @ file_name cfg (w_nextSeq w)" and empty: "f_fw f = []" "f_rows f = 0"
      "f_key f = rg_key g" "f_partition f = Some (rg_tuple g)"
    using o f by simp_all
  have fresh: "f_path f \<notin> fst ` set (w_store w)" "\<forall>h \<in> set (w_open w). f_path h \<noteq> f_path f"
    unfolding path using inv store_ok_paths seq_path_fresh by (fastforce simp: part_inv_def open_ok_def)+
  have keys: "\<forall>h \<in> set (w_open w). f_key h \<noteq> rg_key g"
    using none by (auto simp: find_open_def find_None_iff)
  have "open_ok cfg fs w' f"
    using path empty fresh(1) g seq_path_new[of cfg "w_nextSeq w"] w1 w'
    by (auto simp: open_ok_def group_of_def)
  moreover have "open_ok cfg fs w' h" if "h \<in> set (w_open w)" for h
    using inv that w1 w' seq_path_mono by (fastforce simp: part_inv_def open_ok_def)
  moreover have "store_ok cfg (w_nextSeq w') w'"
    using inv store_ok_mono[of cfg "w_nextSeq w" w "Suc (w_nextSeq w)"] w1 w' by (simp add: part_inv_def store_ok_def)
  moreover have "open_rows k (w_open w') = open_rows k (w_open w)" for k
    using w1 w' empty none by (auto simp: open_rows_def find_open_snoc split: option.splits)
  ultimately show ?thesis
    using inv w1 w' fresh(2) keys empty room by (auto simp: part_inv_def)
qed

lemma ready_file_ok:
  assumes part: "wc_part cfg = Some fs" and inv: "part_inv cfg fs done w" and g: "group_of fs g"
    and rf: "ready_file cfg env fs g w = (w', Inr f)"
  shows "part_inv cfg fs done w' \<and> w_err w' = w_err w \<and> f \<in> set (w_open w') \<and> f_key f = rg_key g"
proof (cases "find_open (rg_key g) (w_open w)")
  case (Some h)
  then show ?thesis using rf inv find_open_Some[OF Some] by (simp add: ready_file_def)
next
  case None
  show ?thesis
  proof (cases "wc_maxOpen cfg \<le> length (w_open w)")
    case True
    obtain w1 u where ev: "evictLRU cfg env w = (w1, Inr u)" and op: "open_file cfg env fs g w1 = (w', Inr f)"
      using rf None True by (auto simp: ready_file_def openPartition_def split: prod.splits sum.splits)
    have ev: "part_inv cfg fs done w1" "w_err w1 = w_err w" "length (w_open w1) < length (w_open w)"
        "find_open (rg_key g) (w_open w1) = None"
      using evict_ok[OF part inv ev] None by simp_all
    have "length (w_open w1) < wc_maxOpen cfg" using ev(3) inv by (simp add: part_inv_def)
    from open_file_ok[OF ev(1,4) this g op] show ?thesis using ev(2) by simp
  next
    case False
    then have "open_file cfg env fs g w = (w', Inr f)" using rf None by (simp add: ready_file_def openPartition_def)
    from open_file_ok[OF inv None _ g this] show ?thesis using False by simp
  qed
qed

lemma length_put_open [simp]: "length (put_open f fs) = length fs"
  by (simp add: put_open_def)

lemma put_open_ok:
  assumes inv: "part_inv cfg fs done w" and f: "f \<in> set (w_open w)"
    and f': "view f' = (view f)\<lparr>f_fw := f_fw f @ sub, f_rows := f_rows f + int (length sub)\<rparr>"
    and sub: "\<forall>r \<in> set sub. row_key fs r = Some (f_key f)"
  shows "part_inv cfg fs (done(f_key f := done (f_key f) @ sub)) (w\<lparr>w_open := put_open f' (w_open w)\<rparr>)"
proof -
  have e: "f_path f' = f_path f" "f_key f' = f_key f" "f_partition f' = f_partition f" "f_fw f' = f_fw f @ sub"
      "f_rows f' = f_rows f + int (length sub)"
    using arg_cong[OF f', of f_path] arg_cong[OF f', of f_key] arg_cong[OF f', of f_partition]
      arg_cong[OF f', of f_fw] arg_cong[OF f', of f_rows] by simp_all
  let ?w = "w\<lparr>w_open := put_open f' (w_open w)\<rparr>"
  have uniq: "g = f" if "g \<in> set (w_open w)" "f_key g = f_key f" for g
    using inv f that by (auto simp: part_inv_def distinct_map inj_on_def)
  have maps: "map f_key (put_open f' (w_open w)) = map f_key (w_open w)"
      "map f_path (put_open f' (w_open w)) = map f_path (w_open w)"
    using uniq e by (auto simp: put_open_def)
  have "open_ok cfg fs ?w f'" using inv f e sub by (auto simp: part_inv_def open_ok_def)
  then have "\<forall>g \<in> set (w_open ?w). open_ok cfg fs ?w g"
    using inv by (auto simp: part_inv_def open_ok_def put_open_def)
  moreover have "find_open (f_key f) (w_open w) = Some f" using inv f by (simp add: part_inv_def find_open_member)
  then have "open_rows k (w_open ?w) = (if k = f_key f then open_rows k (w_open w) @ sub else open_rows k (w_open w))" for k
    using e by (simp add: open_rows_def find_open_put)
  moreover have "key_rows fs k (concat (map snd (w_store w))) @ open_rows k (w_open w) = done k" for k
    using inv by (simp add: part_inv_def)
  ultimately show ?thesis using inv maps
    by (auto simp: part_inv_def store_ok_def simp flip: append_assoc)
qed

lemma write_sub_ok:
  assumes part: "wc_part cfg = Some fs" and inv: "part_inv cfg fs done w" and f0: "f0 \<in> set (w_open w)"
    and vf: "view f = view f0" and sub: "\<forall>r \<in> set sub. row_key fs r = Some (f_key f0)"
    and wr: "write_sub cfg env f sub fed w = (w', Inr u)"
  shows "part_inv cfg fs (done(f_key f0 := done (f_key f0) @ sub)) w' \<and> w_err w' = w_err w"
proof -
  obtain w1 f1 where enc: "encode env f sub fed w = (w1, Inr f1)"
    using wr by (auto simp: write_sub_def split: prod.splits sum.splits)
  define w2 f2 where "w2 = w1\<lparr>w_tick := Suc (w_tick w1)\<rparr>" and "f2 = f1\<lparr>f_lastUsed := w_tick w2\<rparr>"
  note e = encode_ok[OF enc]
  have same: "same_files w w2" using e(1) same_files_trans same_files_simps(3) unfolding w2_def by blast
  have inv2: "part_inv cfg fs done w2"
    using part_inv_cong[OF inv same] e(2) by (simp add: w2_def)
  have f02: "f0 \<in> set (w_open w2)" using f0 e(2) by (simp add: w2_def)
  have v2: "view f2 = (view f0)\<lparr>f_fw := f_fw f0 @ sub, f_rows := f_rows f0 + int (length sub)\<rparr>"
  proof -
    have "view f2 = (view f)\<lparr>f_fw := f_fw f @ sub, f_rows := f_rows f + int (length sub)\<rparr>"
      using enc by (auto simp: encode_def view_def f2_def Let_def split: option.splits)
    moreover have "f_fw f = f_fw f0" "f_rows f = f_rows f0"
      using arg_cong[OF vf, of f_fw] arg_cong[OF vf, of f_rows] by simp_all
    ultimately show ?thesis using vf by simp
  qed
  have k2: "f_key f2 = f_key f0" using arg_cong[OF v2, of f_key] by simp
  have err2: "w_err w2 = w_err w" using same by (simp add: same_files_def)
  show ?thesis
  proof (cases "full_file cfg f2")
    case True
    then obtain w3 v where fin: "finish cfg env f2 (w2\<lparr>w_open := drop_open (f_key f0) (w_open w2)\<rparr>) = (w3, Inr v)"
        and bud: "enforceBudget cfg env w3 = (w', Inr u)"
      using wr enc k2 by (auto simp: write_sub_def Let_def w2_def f2_def split: prod.splits sum.splits)
    from finish_open_ok[OF part inv2 f02 v2 sub fin]
    show ?thesis using enforceBudget_ok[OF bud] part_inv_cong err2 by (auto simp: same_files_def)
  next
    case False
    then have bud: "enforceBudget cfg env (w2\<lparr>w_open := put_open f2 (w_open w2)\<rparr>) = (w', Inr u)"
      using wr enc by (simp add: write_sub_def Let_def w2_def f2_def)
    from put_open_ok[OF inv2 f02 v2 sub]
    show ?thesis using enforceBudget_ok[OF bud] part_inv_cong err2 by (auto simp: same_files_def)
  qed
qed

lemma writeGroup_ok:
  assumes part: "wc_part cfg = Some fs" and inv: "part_inv cfg fs done w"
    and g: "group_ok fs rows (length rows) g" and wr: "writeGroup cfg env fs rows pb g w = (w', Inr u)"
  shows "part_inv cfg fs (done(rg_key g := done (rg_key g) @ map (\<lambda>i. rows ! i) (rg_rows g))) w' \<and>
    w_err w' = w_err w"
proof -
  obtain sub fed w1 f w2 f2
    where sb: "subBatch (io_take env (w_ops w)) (io_size env) rows g pb = Inr (sub, fed)"
      and rf: "ready_file cfg env fs g w = (w1, Inr f)" and fl: "flushShare cfg env f w1 = (w2, Inr f2)"
      and ws: "write_sub cfg env f2 sub fed w2 = (w', Inr u)"
    using wr by (auto simp: writeGroup_def split: sum.splits prod.splits)
  have sub: "sub = map (\<lambda>i. rows ! i) (rg_rows g)" using subBatch_rows[OF g sb] .
  have keyed: "\<forall>r \<in> set sub. row_key fs r = Some (rg_key g)"
    unfolding sub using g by (auto simp: group_ok_def row_key_def)
  have "group_of fs g" using g by (auto simp: group_ok_def group_of_def)
  from ready_file_ok[OF part inv this rf]
  have r: "part_inv cfg fs done w1" "w_err w1 = w_err w" "f \<in> set (w_open w1)" "f_key f = rg_key g" by simp_all
  note fl = flushShare_ok[OF fl]
  have "part_inv cfg fs done w2" using part_inv_cong[OF r(1) fl(1)] fl(2) by simp
  moreover have "f \<in> set (w_open w2)" using r(3) fl(2) by simp
  moreover have "\<forall>x \<in> set sub. row_key fs x = Some (f_key f)" using keyed r(4) by simp
  ultimately show ?thesis
    using write_sub_ok[OF part _ _ fl(3) _ ws, of "done"] r(2,4) fl(1) sub by (simp add: same_files_def)
qed

text \<open>The rows of a group are the rows of the batch with its key, in order.\<close>

lemma ascending_filter:
  assumes "sorted_wrt (<) is" "set is = {i. i < length rows \<and> P (rows ! i)}"
  shows "map (\<lambda>i. rows ! i) is = filter P rows"
proof -
  have "sorted_wrt (<) (filter (\<lambda>i. P (rows ! i)) [0..<length rows])"
    by (simp add: sorted_wrt_filter)
  then have "is = filter (\<lambda>i. P (rows ! i)) [0..<length rows]"
    using assms by (intro strict_sorted_equal) auto
  moreover have "filter P rows = filter P (map (\<lambda>i. rows ! i) [0..<length rows])" by (simp add: map_nth)
  ultimately show ?thesis by (simp only: filter_map comp_def)
qed

lemma row_key_iff: "row_key fs r = Some k \<longleftrightarrow> (\<exists>vs. row_values fs r = Inr vs \<and> tuple_key vs = k)"
  by (auto simp: row_key_def split: sum.splits)

lemma group_rows:
  assumes ok: "grouping_ok fs rows (length rows) gs" and g: "g \<in> set gs"
  shows "map (\<lambda>i. rows ! i) (rg_rows g) = key_rows fs (rg_key g) rows"
proof -
  have gk: "group_ok fs rows (length rows) g" using ok g by (simp add: grouping_ok_def list_all_iff)
  then have "sorted_wrt (<) (rg_rows g)" by (simp add: group_ok_def)
  moreover have "set (rg_rows g) = {i. i < length rows \<and> row_key fs (rows ! i) = Some (rg_key g)}"
    using group_member[OF ok _ g] gk unfolding row_key_iff group_ok_def by blast
  ultimately show ?thesis unfolding key_rows_def by (rule ascending_filter)
qed

lemma other_key_rows:
  assumes "grouping_ok fs rows (length rows) gs" "k \<notin> rg_key ` set gs"
  shows "key_rows fs k rows = []"
proof -
  have "row_key fs r \<noteq> Some k" if r: "r \<in> set rows" for r
  proof
    obtain i where i: "i < length rows" "rows ! i = r" using r by (metis in_set_conv_nth)
    then obtain g where g: "g \<in> set gs" "i \<in> set (rg_rows g)" using assms(1) by (auto simp: grouping_ok_def)
    have "group_ok fs rows (length rows) g" using assms(1) g(1) by (simp add: grouping_ok_def list_all_iff)
    then have "row_key fs r = Some (rg_key g)" using g(2) i by (auto simp: group_ok_def row_key_def)
    moreover assume "row_key fs r = Some k"
    ultimately show False using assms(2) g(1) by auto
  qed
  then show ?thesis by (simp add: key_rows_def filter_empty_conv)
qed

lemma writeGroups_ok:
  assumes part: "wc_part cfg = Some fs"
  shows "part_inv cfg fs done w \<Longrightarrow> list_all (group_ok fs rows (length rows)) gs \<Longrightarrow> distinct (map rg_key gs) \<Longrightarrow>
    writeGroups cfg env fs rows pb gs w = (w', Inr u) \<Longrightarrow>
    part_inv cfg fs (\<lambda>k. case find (\<lambda>g. rg_key g = k) gs of
        None \<Rightarrow> done k | Some g \<Rightarrow> done k @ map (\<lambda>i. rows ! i) (rg_rows g)) w' \<and> w_err w' = w_err w"
proof (induction gs arbitrary: w "done")
  case Nil
  then show ?case by simp
next
  case (Cons g gs)
  then obtain w1 v where w1: "writeGroup cfg env fs rows pb g w = (w1, Inr v)"
      and rest: "writeGroups cfg env fs rows pb gs w1 = (w', Inr u)"
    by (auto split: prod.splits sum.splits)
  let ?done = "done(rg_key g := done (rg_key g) @ map (\<lambda>i. rows ! i) (rg_rows g))"
  have g: "part_inv cfg fs ?done w1" "w_err w1 = w_err w"
    using writeGroup_ok[OF part Cons.prems(1) _ w1] Cons.prems(2) by simp_all
  have "part_inv cfg fs (\<lambda>k. case find (\<lambda>g. rg_key g = k) gs of
        None \<Rightarrow> ?done k | Some g \<Rightarrow> ?done k @ map (\<lambda>i. rows ! i) (rg_rows g)) w' \<and> w_err w' = w_err w1"
    using Cons.IH[OF g(1) _ _ rest] Cons.prems(2,3) by simp
  moreover have "(case find (\<lambda>g. rg_key g = k) gs of
        None \<Rightarrow> ?done k | Some g \<Rightarrow> ?done k @ map (\<lambda>i. rows ! i) (rg_rows g)) =
      (case find (\<lambda>g. rg_key g = k) (g # gs) of
        None \<Rightarrow> done k | Some g \<Rightarrow> done k @ map (\<lambda>i. rows ! i) (rg_rows g))" for k
  proof (cases "find (\<lambda>g. rg_key g = k) gs")
    case (Some h)
    then have "h \<in> set gs" "rg_key h = k" using find_map_of_first[OF Some] by simp_all
    then have "rg_key g \<noteq> k" using Cons.prems(3) by auto
    then show ?thesis using Some by simp
  qed simp
  ultimately show ?case using g(2) by simp
qed

lemma part_write:
  assumes part: "wc_part cfg = Some fs" and inv: "part_inv cfg fs (\<lambda>k. key_rows fs k done) w"
    and wr: "writeRecord cfg env rows w = (w', Inr u)"
  shows "part_inv cfg fs (\<lambda>k. key_rows fs k (done @ rows)) w' \<and> w_err w' = w_err w \<and>
    (\<forall>r \<in> set rows. row_key fs r \<noteq> None)"
proof (cases "rows = []")
  case True
  then show ?thesis using inv wr by (simp add: writeRecord_def)
next
  case False
  then obtain gs where sp: "split_batch fs rows = Inr gs"
      and wg: "writeGroups cfg env fs rows (io_size env rows) gs w = (w', Inr u)"
    using wr part by (auto simp: writeRecord_def writePartitioned_def split: sum.splits)
  have ok: "grouping_ok fs rows (length rows) gs" using sp by (rule split_batch_ok)
  have "(case find (\<lambda>g. rg_key g = k) gs of
        None \<Rightarrow> key_rows fs k done | Some g \<Rightarrow> key_rows fs k done @ map (\<lambda>i. rows ! i) (rg_rows g)) =
      key_rows fs k (done @ rows)" for k
  proof (cases "find (\<lambda>g. rg_key g = k) gs")
    case None
    then have "k \<notin> rg_key ` set gs" by (auto simp: find_None_iff)
    then show ?thesis using None other_key_rows[OF ok] by (simp add: key_rows_def)
  next
    case (Some g)
    then have "g \<in> set gs" "rg_key g = k" using find_map_of_first[OF Some] by simp_all
    then show ?thesis using Some group_rows[OF ok] by (simp add: key_rows_def)
  qed
  moreover have "\<forall>r \<in> set rows. row_key fs r \<noteq> None"
  proof
    fix r assume "r \<in> set rows"
    then obtain i where "i < length rows" "rows ! i = r" by (metis in_set_conv_nth)
    then show "row_key fs r \<noteq> None" using ok
      by (force simp: grouping_ok_def list_all_iff group_ok_def row_key_def)
  qed
  ultimately show ?thesis
    using writeGroups_ok[OF part inv _ _ wg] ok by (simp add: grouping_ok_def)
qed

section \<open>Processing and finishing\<close>

definition writer_inv :: "writer_config \<Rightarrow> row list \<Rightarrow> twriter \<Rightarrow> bool" where
  "writer_inv cfg done w \<longleftrightarrow>
     (case wc_part cfg of
        None \<Rightarrow> plain_inv cfg done w
      | Some fs \<Rightarrow> part_inv cfg fs (\<lambda>k. key_rows fs k done) w \<and> (\<forall>r \<in> set done. row_key fs r \<noteq> None))"

text \<open>What a closed writer promises of the rows it was given: the files it reports are the objects in
  the store, with their row counts, under distinct paths; an unpartitioned table gets the rows in
  order; a partitioned one gets each row once, the rows of one tuple in order, and every file carries
  the tuple of all its rows.\<close>

definition delivered :: "writer_config \<Rightarrow> row list \<Rightarrow> twriter \<Rightarrow> bool" where
  "delivered cfg rows w \<longleftrightarrow>
     map wf_path (w_files w) = map fst (w_store w) \<and> distinct (map fst (w_store w)) \<and>
     map wf_rows (w_files w) = map (\<lambda>(p, rs). int (length rs)) (w_store w) \<and>
     (case wc_part cfg of
        None \<Rightarrow> concat (map snd (w_store w)) = rows
      | Some fs \<Rightarrow>
          mset (concat (map snd (w_store w))) = mset rows \<and>
          (\<forall>k. key_rows fs k (concat (map snd (w_store w))) = key_rows fs k rows) \<and>
          list_all2 (\<lambda>wf (p, rs). \<exists>vs. wf_partition wf = Some (group_tuple fs vs) \<and>
            (\<forall>r \<in> set rs. row_key fs r = Some (tuple_key vs))) (w_files w) (w_store w))"

lemma fail_err [simp]: "w_err (fail e w) \<noteq> None" "w_open (fail e w) = []"
  by (auto simp: fail_def cancel_def split: option.splits)

lemma cancel_frame [simp]:
  "w_err (cancel c w) = w_err w" "w_files (cancel c w) = w_files w" "w_store (cancel c w) = w_store w"
  "w_open (cancel c w) = w_open w" "w_cur (cancel c w) = w_cur w" "w_nextSeq (cancel c w) = w_nextSeq w"
  by (simp_all add: cancel_def split: option.splits)

lemma writer_inv_cancel [simp]: "writer_inv cfg done (cancel c w) = writer_inv cfg done w"
  by (simp add: writer_inv_def plain_inv_def part_inv_def store_ok_def cur_ok_def open_ok_def
      split: option.splits)

lemma delivered_cancel [simp]: "delivered cfg rows (cancel c w) = delivered cfg rows w"
  by (simp add: delivered_def split: option.splits)

lemma process_sticky: "w_err w \<noteq> None \<Longrightarrow> process_batch cfg env rows w = w"
  by (auto simp: process_batch_def check_lifetime_def Let_def)

lemma process_ok:
  assumes "writer_inv cfg done w" "w_err (process_batch cfg env rows w) = None"
  shows "writer_inv cfg (done @ rows) (process_batch cfg env rows w)"
proof -
  have w: "w_err w = None" "check_lifetime w = w"
    using assms(2) by (auto simp: process_batch_def check_lifetime_def Let_def split: if_splits)
  then obtain w' u where wr: "writeRecord cfg env rows w = (w', Inr u)" and eq: "process_batch cfg env rows w = w'"
    using assms(2) by (auto simp: process_batch_def split: prod.splits sum.splits)
  show ?thesis
  proof (cases "wc_part cfg")
    case None
    then show ?thesis using plain_write[OF None _ wr] assms(1) eq by (simp add: writer_inv_def)
  next
    case (Some fs)
    then show ?thesis using part_write[OF Some _ wr] assms(1) eq by (auto simp: writer_inv_def)
  qed
qed

lemma finish_all_ok:
  assumes part: "wc_part cfg = Some fs"
  shows "part_inv cfg fs done w \<Longrightarrow> distinct (map f_key xs) \<Longrightarrow> set xs = set (w_open w) \<Longrightarrow>
    w_err (finish_all cfg env xs w) = None \<Longrightarrow>
    part_inv cfg fs done (finish_all cfg env xs w) \<and> w_open (finish_all cfg env xs w) = []"
proof (induction xs arbitrary: w)
  case Nil
  then show ?case by (simp add: part_inv_def store_ok_def open_ok_def)
next
  case (Cons f xs)
  then obtain w' u where fin: "finish cfg env f (w\<lparr>w_open := drop_open (f_key f) (w_open w)\<rparr>) = (w', Inr u)"
      and eq: "finish_all cfg env (f # xs) w = finish_all cfg env xs w'"
    by (auto split: prod.splits sum.splits)
  have f: "f \<in> set (w_open w)" using Cons.prems(3) by auto
  have step: "part_inv cfg fs done w'" "w_open w' = drop_open (f_key f) (w_open w)"
    using finish_open_ok[OF part Cons.prems(1) f, of f "[]", OF _ _ fin] by simp_all
  have "set xs = set (w_open w')"
    using Cons.prems(2) unfolding step(2) drop_open_def set_filter by (auto simp: image_iff simp flip: Cons.prems(3))
  then show ?case using Cons.IH[OF step(1)] Cons.prems(2,4) eq by simp
qed

lemma keyed_mset:
  assumes "\<forall>k. key_rows fs k xs = key_rows fs k ys" "\<forall>r \<in> set xs. row_key fs r \<noteq> None" "\<forall>r \<in> set ys. row_key fs r \<noteq> None"
  shows "mset xs = mset ys"
proof (rule multiset_eqI)
  fix r
  show "count (mset xs) r = count (mset ys) r"
  proof (cases "row_key fs r")
    case None
    then have "r \<notin> set xs" "r \<notin> set ys" using assms(2,3) by blast+
    then show ?thesis by (metis count_mset_0_iff)
  next
    case (Some k)
    then have "count (mset zs) r = count (mset (key_rows fs k zs)) r" for zs
      by (simp add: key_rows_def)
    then show ?thesis using assms(1) by metis
  qed
qed

lemma store_delivered:
  assumes "store_ok cfg n w"
  shows "map wf_path (w_files w) = map fst (w_store w)" "distinct (map fst (w_store w))"
    "map wf_rows (w_files w) = map (\<lambda>(p, rs). int (length rs)) (w_store w)"
    "list_all2 (\<lambda>wf (p, rs). part_ok cfg (wf_partition wf) rs) (w_files w) (w_store w)"
proof -
  have l: "list_all2 (\<lambda>wf (p, rows). wf_path wf = p \<and> wf_rows wf = int (length rows) \<and> seq_path cfg n p \<and>
       part_ok cfg (wf_partition wf) rows) (w_files w) (w_store w)"
    using assms by (simp add: store_ok_def)
  show "distinct (map fst (w_store w))" using assms by (simp add: store_ok_def)
  show "map wf_path (w_files w) = map fst (w_store w)"
    "map wf_rows (w_files w) = map (\<lambda>(p, rs). int (length rs)) (w_store w)"
    using l by (induction rule: list_all2_induct) auto
  show "list_all2 (\<lambda>wf (p, rs). part_ok cfg (wf_partition wf) rs) (w_files w) (w_store w)"
    using l by (rule list_all2_mono) auto
qed

lemma finishLast_ok:
  assumes inv: "writer_inv cfg done w" and ok: "w_err (finishLast cfg env w) = None"
  shows "delivered cfg done (finishLast cfg env w)"
proof -
  have w: "w_err w = None" "check_lifetime w = w"
    using ok by (auto simp: finishLast_def check_lifetime_def Let_def split: if_splits)
  show ?thesis
  proof (cases "wc_part cfg")
    case None
    have "\<exists>n w'. store_ok cfg n w' \<and> concat (map snd (w_store w')) = done \<and>
        (finishLast cfg env w = w' \<or> finishLast cfg env w = cancel errClosed w')"
    proof (cases "w_cur w")
      case None
      then show ?thesis using inv w \<open>wc_part cfg = None\<close> by (auto simp: writer_inv_def plain_inv_def finishLast_def)
    next
      case (Some f)
      then obtain w' u where fin: "finish cfg env f (w\<lparr>w_cur := None\<rparr>) = (w', Inr u)"
          and eq: "finishLast cfg env w = cancel errClosed w'"
        using ok w None by (auto simp: finishLast_def split: prod.splits sum.splits)
      have "store_ok cfg (length (w_files w)) w" "cur_ok cfg w f" "done = concat (map snd (w_store w)) @ f_fw f"
        using inv Some None by (auto simp: writer_inv_def plain_inv_def)
      then have "store_ok cfg (length (w_files w')) w' \<and> concat (map snd (w_store w')) = done"
        using finish_current[OF None _ _ fin] by (auto simp: plain_inv_def)
      then show ?thesis using eq by blast
    qed
    then show ?thesis using None store_delivered by (fastforce simp: delivered_def)
  next
    case (Some fs)
    let ?w = "finishLast cfg env w"
    have eq: "?w = finish_all cfg env (sort_key f_seq (w_open w)) w"
      using w Some by (simp add: finishLast_def finishOpen_def)
    have inv: "part_inv cfg fs (\<lambda>k. key_rows fs k done) w" "\<forall>r \<in> set done. row_key fs r \<noteq> None"
      using inv Some by (simp_all add: writer_inv_def)
    have "distinct (map f_key (sort_key f_seq (w_open w)))"
      using inv(1) by (simp add: part_inv_def distinct_map)
    then have fin: "part_inv cfg fs (\<lambda>k. key_rows fs k done) ?w" "w_open ?w = []"
      using finish_all_ok[OF Some inv(1)] ok unfolding eq by simp_all
    then have st: "store_ok cfg (w_nextSeq ?w) ?w"
        and keys: "\<forall>k. key_rows fs k (concat (map snd (w_store ?w))) = key_rows fs k done"
      by (simp_all add: part_inv_def open_rows_def find_open_def)
    have parts: "list_all2 (\<lambda>wf (p, rs). \<exists>vs. wf_partition wf = Some (group_tuple fs vs) \<and>
            (\<forall>r \<in> set rs. row_key fs r = Some (tuple_key vs))) (w_files ?w) (w_store ?w)"
      using store_delivered(4)[OF st] Some by (simp add: part_ok_def)
    have "\<forall>r \<in> set (concat (map snd (w_store ?w))). row_key fs r \<noteq> None"
      using parts by (fastforce dest: list_all2_right)
    from keyed_mset[OF keys this inv(2)] show ?thesis
      using store_delivered[OF st] Some keys parts by (simp add: delivered_def)
  qed
qed

lemma newWriter_inv: "writer_inv cfg [] newWriter"
  by (auto simp: writer_inv_def plain_inv_def part_inv_def store_ok_def newWriter_def key_rows_def
      open_rows_def find_open_def split: option.splits)

lemma writer_inv_open: "writer_inv cfg done w \<Longrightarrow> wc_part cfg \<noteq> None \<Longrightarrow> length (w_open w) \<le> wc_maxOpen cfg"
  by (auto simp: writer_inv_def part_inv_def)

end
