(* ===== verification/Writer_Admission.thy ===== *)
theory Writer_Admission
  imports Table_Writer_Facts
begin

text \<open>
  The concurrency of the table writer (\<open>goplane/writer.go\<close>: \<open>Write\<close>, \<open>Close\<close>, \<open>Abort\<close>, \<open>stopAdmission\<close>,
  \<open>drain\<close>, \<open>run\<close>) as a step relation. Callers of \<open>Write\<close> register as senders unless admission is
  closed, then wait in a \<open>select\<close> until they can put their batch into the bounded channel, admission is closed, the
  lifetime is cancelled or their own context ends, then deregister. The goroutine receives batches until it notices that
  admission is closed or that the lifetime context is cancelled; it then waits until no sender is
  left, and processes, respectively drops, what is still in the channel. Every order in which the
  scheduler and the \<open>select\<close> statements can interleave these steps is a path of the relation.
\<close>

datatype run_phase_w = Looping | Draining | Finishing | Dropping | Done

text \<open>A sender is the batch of a caller that waits in the \<open>select\<close>, and whether its own context has ended.\<close>

record admission =
  ad_w :: twriter
  ad_ch :: "row list list"
  ad_senders :: "(row list \<times> bool) list"
  ad_returning :: nat
  ad_closing :: bool
  ad_run :: run_phase_w
  ad_accepted :: "row list list"

definition channelBatches :: nat where
  "channelBatches = 4"

definition fresh_admission :: admission where
  "fresh_admission =
     \<lparr>ad_w = newWriter, ad_ch = [], ad_senders = [], ad_returning = 0, ad_closing = False,
      ad_run = Looping, ad_accepted = []\<rparr>"

text \<open>The number of callers inside \<open>Write\<close>.\<close>

definition sending :: "admission \<Rightarrow> nat" where
  "sending a = length (ad_senders a) + ad_returning a"

inductive admission_step :: "writer_config \<Rightarrow> io_env \<Rightarrow> admission \<Rightarrow> admission \<Rightarrow> bool"
  for cfg env where
  enter: "\<not> ad_closing a \<Longrightarrow> admission_step cfg env a (a\<lparr>ad_senders := (b, False) # ad_senders a\<rparr>)"
| context_ends: "ad_senders a = bs @ (b, e) # cs \<Longrightarrow> admission_step cfg env a (a\<lparr>ad_senders := bs @ (b, True) # cs\<rparr>)"
| send: "ad_senders a = bs @ (b, e) # cs \<Longrightarrow> length (ad_ch a) < channelBatches \<Longrightarrow>
    admission_step cfg env a
      (a\<lparr>ad_senders := bs @ cs, ad_returning := Suc (ad_returning a), ad_ch := ad_ch a @ [b],
         ad_accepted := ad_accepted a @ [b]\<rparr>)"
| refused_closing: "ad_closing a \<Longrightarrow> ad_senders a = bs @ s # cs \<Longrightarrow>
    admission_step cfg env a (a\<lparr>ad_senders := bs @ cs, ad_returning := Suc (ad_returning a)\<rparr>)"
| refused_cancelled: "w_cause (ad_w a) \<noteq> None \<Longrightarrow> ad_senders a = bs @ s # cs \<Longrightarrow>
    admission_step cfg env a (a\<lparr>ad_senders := bs @ cs, ad_returning := Suc (ad_returning a)\<rparr>)"
| refused_context: "ad_senders a = bs @ (b, True) # cs \<Longrightarrow>
    admission_step cfg env a (a\<lparr>ad_senders := bs @ cs, ad_returning := Suc (ad_returning a)\<rparr>)"
| leave: "ad_returning a = Suc n \<Longrightarrow> admission_step cfg env a (a\<lparr>ad_returning := n\<rparr>)"
| stopAdmission: "admission_step cfg env a (a\<lparr>ad_closing := True\<rparr>)"
| cancelled: "admission_step cfg env a (a\<lparr>ad_w := cancel c (ad_w a)\<rparr>)"
| receive: "ad_run a = Looping \<Longrightarrow> ad_ch a = b # bs \<Longrightarrow>
    admission_step cfg env a (a\<lparr>ad_w := process_batch cfg env b (ad_w a), ad_ch := bs\<rparr>)"
| notice_closing: "ad_run a = Looping \<Longrightarrow> ad_closing a \<Longrightarrow> admission_step cfg env a (a\<lparr>ad_run := Draining\<rparr>)"
| notice_cancel: "ad_run a = Looping \<Longrightarrow> w_cause (ad_w a) \<noteq> None \<Longrightarrow>
    admission_step cfg env a
      (a\<lparr>ad_w := fail (failure (ad_w a)) (ad_w a), ad_closing := True, ad_run := Dropping\<rparr>)"
| drained: "ad_run a = Draining \<Longrightarrow> sending a = 0 \<Longrightarrow> admission_step cfg env a (a\<lparr>ad_run := Finishing\<rparr>)"
| process_rest: "ad_run a = Finishing \<Longrightarrow> ad_ch a = b # bs \<Longrightarrow>
    admission_step cfg env a (a\<lparr>ad_w := process_batch cfg env b (ad_w a), ad_ch := bs\<rparr>)"
| finish_last: "ad_run a = Finishing \<Longrightarrow> ad_ch a = [] \<Longrightarrow>
    admission_step cfg env a (a\<lparr>ad_w := finishLast cfg env (ad_w a), ad_run := Done\<rparr>)"
| dropped: "ad_run a = Dropping \<Longrightarrow> sending a = 0 \<Longrightarrow> admission_step cfg env a (a\<lparr>ad_ch := [], ad_run := Done\<rparr>)"

section \<open>Invariant\<close>

text \<open>Until an error is recorded, what was accepted is what was processed followed by what is in the
  channel; once the goroutine waits for the last senders no caller can enter any more.\<close>

definition admission_inv :: "writer_config \<Rightarrow> admission \<Rightarrow> bool" where
  "admission_inv cfg a \<longleftrightarrow>
     (ad_run a \<noteq> Looping \<longrightarrow> ad_closing a) \<and>
     (ad_run a = Finishing \<or> ad_run a = Done \<longrightarrow> sending a = 0) \<and>
     (ad_run a = Dropping \<longrightarrow> w_err (ad_w a) \<noteq> None) \<and>
     (ad_run a = Done \<longrightarrow> ad_ch a = [] \<and>
        (w_err (ad_w a) = None \<longrightarrow> delivered cfg (concat (ad_accepted a)) (ad_w a))) \<and>
     (ad_run a \<noteq> Done \<longrightarrow> w_err (ad_w a) = None \<longrightarrow>
        (\<exists>bs. ad_accepted a = bs @ ad_ch a \<and> writer_inv cfg (concat bs) (ad_w a)))"

lemma admission_inv_init: "admission_inv cfg fresh_admission"
  using newWriter_inv[of cfg] by (auto simp: admission_inv_def fresh_admission_def)

lemma receive_inv:
  assumes "admission_inv cfg a" "ad_run a \<noteq> Done" "ad_ch a = b # bs"
    and "w_err (process_batch cfg env b (ad_w a)) = None"
  shows "\<exists>cs. ad_accepted a = cs @ bs \<and> writer_inv cfg (concat cs) (process_batch cfg env b (ad_w a))"
proof -
  have "w_err (ad_w a) = None" using assms(4) process_sticky[of "ad_w a" cfg env b] by fastforce
  then obtain cs where "ad_accepted a = cs @ b # bs" "writer_inv cfg (concat cs) (ad_w a)"
    using assms by (auto simp: admission_inv_def)
  then show ?thesis using process_ok[OF _ assms(4)] by (intro exI[of _ "cs @ [b]"]) simp
qed

lemma process_keeps_err: "w_err w \<noteq> None \<Longrightarrow> w_err (process_batch cfg env b w) \<noteq> None"
  by (simp add: process_sticky)

lemma admission_step_inv:
  assumes "admission_step cfg env a a'" "admission_inv cfg a"
  shows "admission_inv cfg a'"
  using assms
proof (cases rule: admission_step.cases)
  case (receive b bs)
  then show ?thesis using receive_inv[OF assms(2) _ receive(3), of env] assms(2)
    by (simp add: admission_inv_def)
next
  case (process_rest b bs)
  then show ?thesis using receive_inv[OF assms(2) _ process_rest(3), of env] assms(2)
    by (simp add: admission_inv_def sending_def)
next
  case finish_last
  have "w_err (ad_w a) = None" if "w_err (finishLast cfg env (ad_w a)) = None"
    using that by (auto simp: finishLast_def check_lifetime_def Let_def split: if_splits)
  then show ?thesis using finish_last assms(2) finishLast_ok[of cfg _ "ad_w a" env]
    by (auto simp: admission_inv_def sending_def)
qed (use assms(2) in \<open>auto simp: admission_inv_def sending_def\<close>)

interpretation table_writer: invariant_system "\<lambda>a. a = fresh_admission" "admission_step cfg env" "admission_inv cfg"
  for cfg env
  by unfold_locales (use admission_inv_init admission_step_inv in blast)+

section \<open>Progress\<close>

definition phase_work :: "run_phase_w \<Rightarrow> nat" where
  "phase_work p = (case p of Looping \<Rightarrow> 3 | Draining \<Rightarrow> 2 | Finishing \<Rightarrow> 1 | Dropping \<Rightarrow> 2 | Done \<Rightarrow> 0)"

text \<open>What is left to do before a closed writer is done.\<close>

definition close_work :: "admission \<Rightarrow> nat" where
  "close_work a = 4 * length (ad_senders a) + 2 * length (ad_ch a) + ad_returning a + phase_work (ad_run a)"

text \<open>Steps of the surroundings: a repeated close, a cancellation, the end of a caller's context.\<close>

definition outer_step :: "admission \<Rightarrow> admission \<Rightarrow> bool" where
  "outer_step a a' \<longleftrightarrow> a' = a \<or> (\<exists>c. a' = a\<lparr>ad_w := cancel c (ad_w a)\<rparr>) \<or>
     (\<exists>ss. map fst ss = map fst (ad_senders a) \<and> a' = a\<lparr>ad_senders := ss\<rparr>)"

lemma closing_step:
  assumes "admission_step cfg env a a'" "ad_closing a"
  shows "ad_closing a' \<and> (close_work a' < close_work a \<or> outer_step a a')"
  using assms
proof (cases rule: admission_step.cases)
  case (context_ends bs b e cs)
  then have "outer_step a a'" unfolding outer_step_def by (intro disjI2 exI[of _ "bs @ (b, True) # cs"]) simp
  then show ?thesis using context_ends assms(2) by simp
qed (auto simp: close_work_def phase_work_def outer_step_def)

lemmas close_work_simps = close_work_def phase_work_def sending_def

lemma progressI:
  "admission_step cfg env a a' \<Longrightarrow> close_work a' < close_work a \<Longrightarrow>
   \<exists>a'. admission_step cfg env a a' \<and> close_work a' < close_work a"
  by blast

lemma closing_enabled:
  assumes "ad_closing a" "ad_run a \<noteq> Done"
  shows "\<exists>a'. admission_step cfg env a a' \<and> close_work a' < close_work a"
proof (cases "sending a = 0")
  case True
  show ?thesis
  proof (cases "ad_run a")
    case Looping
    show ?thesis by (rule progressI[OF notice_closing]) (use Looping assms in \<open>simp_all add: close_work_simps\<close>)
  next
    case Draining
    show ?thesis by (rule progressI[OF drained]) (use Draining True in \<open>simp_all add: close_work_simps\<close>)
  next
    case Finishing
    show ?thesis
    proof (cases "ad_ch a")
      case Nil
      show ?thesis by (rule progressI[OF finish_last]) (use Finishing Nil in \<open>simp_all add: close_work_simps\<close>)
    next
      case (Cons b bs)
      show ?thesis by (rule progressI[OF process_rest]) (use Finishing Cons in \<open>auto simp: close_work_simps\<close>)
    qed
  next
    case Dropping
    show ?thesis by (rule progressI[OF dropped]) (use Dropping True in \<open>simp_all add: close_work_simps\<close>)
  qed (use assms in simp)
next
  case False
  then consider n where "ad_returning a = Suc n" | s cs where "ad_senders a = [] @ s # cs"
    by (cases "ad_returning a"; cases "ad_senders a") (auto simp: sending_def)
  then show ?thesis
  proof cases
    case 1
    show ?thesis by (rule progressI[OF leave]) (use 1 in \<open>auto simp: close_work_simps\<close>)
  next
    case 2
    show ?thesis by (rule progressI[OF refused_closing]) (use 2 assms(1) in \<open>auto simp: close_work_simps\<close>)
  qed
qed

section \<open>Properties\<close>

text \<open>C25. Whatever the interleaving of callers, closes, cancellations and the goroutine, and whatever
  storage and encoder answer: when the writer is done and \<open>Close\<close> returns files rather than an error,
  the rows of exactly the batches whose \<open>Write\<close> was accepted are in the files it returns. An
  unpartitioned table gets them in the order of acceptance; a partitioned one gets each row once, in
  a file that carries the tuple of all its rows, and in order within a tuple. No path is written
  twice and every row count is right.\<close>

theorem closed_writer_delivers:
  assumes "(admission_step cfg env)\<^sup>*\<^sup>* fresh_admission a" "ad_run a = Done"
    "close_result (ad_w a) = Inr files"
  shows "files = w_files (ad_w a) \<and> delivered cfg (concat (ad_accepted a)) (ad_w a)"
proof -
  have "admission_inv cfg a" using table_writer.reachable_inv[OF refl assms(1)] .
  then show ?thesis using assms(2,3) by (auto simp: admission_inv_def close_result_def split: option.splits)
qed

text \<open>C28. \<open>Close\<close> cannot hang on a caller of \<open>Write\<close> or on a full channel: once admission is closed, every caller that still
  waits in \<open>Write\<close> can leave at once; every step of a caller or of the goroutine uses up work, so only finitely many are
  left, whatever closes, cancellations and ends of contexts come in between; and until the goroutine is done one of
  them can be taken.\<close>

theorem closed_writer_finishes:
  assumes "ad_closing a"
  shows "(\<forall>bs s cs. ad_senders a = bs @ s # cs \<longrightarrow>
      admission_step cfg env a (a\<lparr>ad_senders := bs @ cs, ad_returning := Suc (ad_returning a)\<rparr>)) \<and>
    (\<forall>a'. admission_step cfg env a a' \<longrightarrow> ad_closing a' \<and> (close_work a' < close_work a \<or> outer_step a a')) \<and>
    (ad_run a = Done \<or> (\<exists>a'. admission_step cfg env a a' \<and> close_work a' < close_work a))"
  using assms closing_step closing_enabled refused_closing by blast

text \<open>A partitioned writer never holds more open files than its limit.\<close>

theorem open_files_bounded:
  assumes "(admission_step cfg env)\<^sup>*\<^sup>* fresh_admission a" "ad_run a \<noteq> Done" "w_err (ad_w a) = None"
    "wc_part cfg \<noteq> None"
  shows "length (w_open (ad_w a)) \<le> wc_maxOpen cfg"
proof -
  have "admission_inv cfg a" using table_writer.reachable_inv[OF refl assms(1)] .
  then show ?thesis using assms(2-4) writer_inv_open by (auto simp: admission_inv_def)
qed

section \<open>A run of the writer\<close>

definition demo_config :: writer_config where
  "demo_config =
     \<lparr>wc_dataPrefix = ''s3://b/t/data/'', wc_filePrefix = ''part-r-w1'', wc_targetFileBytes = 1024,
      wc_specID = 0, wc_part = Some sample_fields, wc_maxOpen = 1, wc_budget = 100\<rparr>"

definition demo_io :: io_env where
  "demo_io =
     \<lparr>io_open = (\<lambda>_ _. None), io_encode = (\<lambda>_ _. None), io_pages = (\<lambda>_ _. 60), io_flush = (\<lambda>_ _. None),
      io_footer = (\<lambda>_ _. None), io_upload = (\<lambda>_ _. None), io_bytes = (\<lambda>_ _. 10), io_take = (\<lambda>_. None),
      io_size = (\<lambda>rs. 8 * int (length rs)),
      io_iceberg = \<lparr>il_canTransform = (\<lambda>_ _. True), il_bucket = (\<lambda>_ _ _. None), il_int32 = (\<lambda>_ _. Inl []),
        il_truncate = (\<lambda>_ _. Inl []), il_columnName = (\<lambda>_. []), il_transform = (\<lambda>_. []),
        il_iceberg = (\<lambda>_. []), il_arrow = (\<lambda>_. []), il_partitionPath = (\<lambda>_. ''ts=x'')\<rparr>\<rparr>"

lemma demo_written: "w_err (finishLast demo_config demo_io (process_batch demo_config demo_io sample_rows newWriter)) = None"
  by code_simp

text \<open>One caller writes the sample batch, the writer is closed while the batch is in the channel.\<close>

definition demo_sent :: admission where
  "demo_sent = fresh_admission\<lparr>ad_ch := [sample_rows], ad_accepted := [sample_rows]\<rparr>"

definition demo_done :: admission where
  "demo_done = demo_sent\<lparr>ad_ch := [], ad_closing := True, ad_run := Done,
     ad_w := finishLast demo_config demo_io (process_batch demo_config demo_io sample_rows newWriter)\<rparr>"

lemma demo_sent_reachable: "(admission_step cfg env)\<^sup>*\<^sup>* fresh_admission demo_sent"
proof -
  let ?a = "fresh_admission\<lparr>ad_senders := [(sample_rows, False)]\<rparr>"
  let ?b = "?a\<lparr>ad_senders := [], ad_returning := 1, ad_ch := [sample_rows], ad_accepted := [sample_rows]\<rparr>"
  have "admission_step cfg env fresh_admission ?a"
    using enter[of fresh_admission cfg env sample_rows] by (simp add: fresh_admission_def)
  moreover have "admission_step cfg env ?a ?b"
    using send[of ?a "[]" sample_rows False "[]" cfg env] by (simp add: fresh_admission_def channelBatches_def)
  moreover have "admission_step cfg env ?b demo_sent"
    using leave[of ?b 0 cfg env] by (simp add: fresh_admission_def demo_sent_def)
  ultimately show ?thesis by (meson converse_rtranclp_into_rtranclp rtranclp.rtrancl_refl)
qed

lemma demo_done_reachable: "(admission_step demo_config demo_io)\<^sup>*\<^sup>* fresh_admission demo_done"
proof -
  let ?step = "admission_step demo_config demo_io"
  let ?c = "demo_sent\<lparr>ad_closing := True\<rparr>"
  let ?d = "?c\<lparr>ad_run := Draining\<rparr>"
  let ?e = "?c\<lparr>ad_run := Finishing\<rparr>"
  let ?f = "?e\<lparr>ad_w := process_batch demo_config demo_io sample_rows newWriter, ad_ch := []\<rparr>"
  note defs = demo_sent_def fresh_admission_def demo_done_def sending_def
  have "?step demo_sent ?c" by (rule stopAdmission)
  moreover have "?step ?c ?d" using notice_closing[of ?c demo_config demo_io] by (simp add: defs)
  moreover have "?step ?d ?e" using drained[of ?d demo_config demo_io] by (simp add: defs)
  moreover have "?step ?e ?f" using process_rest[of ?e sample_rows "[]" demo_config demo_io] by (simp add: defs)
  moreover have "?step ?f demo_done" using finish_last[of ?f demo_config demo_io] by (simp add: defs)
  ultimately have "?step\<^sup>*\<^sup>* demo_sent demo_done" by (meson converse_rtranclp_into_rtranclp rtranclp.rtrancl_refl)
  then show ?thesis using demo_sent_reachable rtranclp_trans by metis
qed

theorem closed_writer_delivers_witness:
  "(admission_step demo_config demo_io)\<^sup>*\<^sup>* fresh_admission demo_done \<and> ad_run demo_done = Done \<and>
   close_result (ad_w demo_done) = Inr (w_files (ad_w demo_done)) \<and> ad_accepted demo_done = [sample_rows] \<and>
   delivered demo_config sample_rows (ad_w demo_done)"
proof -
  have close: "ad_run demo_done = Done" "close_result (ad_w demo_done) = Inr (w_files (ad_w demo_done))"
      "ad_accepted demo_done = [sample_rows]"
    using demo_written by (simp_all add: demo_done_def demo_sent_def close_result_def)
  then show ?thesis using closed_writer_delivers[OF demo_done_reachable close(1,2)] demo_done_reachable by simp
qed

text \<open>A caller waits on a full channel while the writer is closed.\<close>

definition demo_blocked :: admission where
  "demo_blocked = fresh_admission\<lparr>ad_ch := replicate channelBatches sample_rows, ad_senders := [(sample_rows, False)], ad_closing := True,
     ad_run := Draining\<rparr>"

theorem closed_writer_finishes_witness:
  "ad_closing demo_blocked \<and> length (ad_ch demo_blocked) = channelBatches \<and>
   admission_step demo_config demo_io demo_blocked (demo_blocked\<lparr>ad_senders := [], ad_returning := 1\<rparr>)"
proof -
  have c: "ad_closing demo_blocked" by (simp add: demo_blocked_def)
  have s: "ad_senders demo_blocked = [] @ (sample_rows, False) # []" by (simp add: demo_blocked_def)
  have "admission_step demo_config demo_io demo_blocked (demo_blocked\<lparr>ad_senders := [] @ [], ad_returning := Suc (ad_returning demo_blocked)\<rparr>)"
    using closed_writer_finishes[OF c, of demo_config demo_io] s by blast
  moreover have "ad_returning demo_blocked = 0" by (simp add: demo_blocked_def fresh_admission_def)
  ultimately have "admission_step demo_config demo_io demo_blocked (demo_blocked\<lparr>ad_senders := [], ad_returning := 1\<rparr>)" by simp
  then show ?thesis using c by (simp add: demo_blocked_def)
qed

theorem open_files_bounded_witness:
  "(admission_step demo_config demo_io)\<^sup>*\<^sup>* fresh_admission demo_sent \<and> ad_run demo_sent \<noteq> Done \<and>
   w_err (ad_w demo_sent) = None \<and> length (w_open (ad_w demo_sent)) \<le> 1"
  using open_files_bounded[of demo_config demo_io demo_sent] demo_sent_reachable
  by (simp add: demo_sent_def fresh_admission_def newWriter_def demo_config_def)

end
