(* ===== verification/Gateway_Session.thy ===== *)
theory Gateway_Session
  imports Gateway_Config Commit_Pool Writer_Admission
begin

text \<open>
  A write session of the data gateway (\<open>pkg/datagateway/server_v2_writing.go\<close>, \<open>server_v2_http.go\<close>,
  \<open>server_v2_commit.go\<close>): \<open>OpenWriter\<close>, \<open>WriteChunk\<close>, \<open>CloseWriter\<close> and \<open>Commit\<close> on the writers of the server, on
  top of the table writers of the data plane and the commit pool.

  The data plane is the interface \<open>TableWriter\<close> of \<open>dataplane.go\<close>: a record of operations on a writer
  type, whose contract is a locale of the theory that follows. What the calls to the catalog, the format
  adapters and the schema code answer is part of the request in the model, because the session logic
  only looks at success, failure and the base path. Requests are steps; the goroutines of the commit
  pool run between them. \<open>pl_abort\<close> is what cancelling the run does to a writer: the plane is
  interrupted, then the writer aborted. Log lines are left out.
\<close>

section \<open>Errors\<close>

text \<open>\<open>InvalidArg\<close> are the errors that wrap \<open>ErrInvalidPartition\<close> or \<open>ErrInvalidVariant\<close>; \<open>Denied\<close> is the gRPC
  status \<open>PermissionDenied\<close>.\<close>

datatype gw_error = Failed string | InvalidArg string | Denied string

fun wrap_gw :: "string \<Rightarrow> gw_error \<Rightarrow> gw_error" where
  "wrap_gw pre (Failed e) = Failed (pre @ e)"
| "wrap_gw pre (InvalidArg e) = InvalidArg (pre @ e)"
| "wrap_gw pre (Denied e) = Denied (pre @ e)"

datatype grpc_status = Unknown string | InvalidArgument string | PermissionDenied string

text \<open>\<open>partitionStatus\<close>: the status a failed request ends with.\<close>

fun partitionStatus :: "gw_error \<Rightarrow> grpc_status" where
  "partitionStatus (InvalidArg e) = InvalidArgument e"
| "partitionStatus (Denied e) = PermissionDenied e"
| "partitionStatus (Failed e) = Unknown e"

definition errRunCancelled :: gw_error where
  "errRunCancelled = Failed ''data gateway: run cancelled''"

definition isSchemaDeferred :: "string \<Rightarrow> bool" where
  "isSchemaDeferred e = strings_Contains e ''missing and no schema available''"

section \<open>State\<close>

record 't plane_ops =
  pl_fresh :: "string \<Rightarrow> string \<Rightarrow> 't"
  pl_write :: "row list \<Rightarrow> 't \<Rightarrow> 't \<times> string option"
  pl_close :: "string option \<Rightarrow> 't \<Rightarrow> 't \<times> (string + written_file list)"
  pl_abort :: "'t \<Rightarrow> 't"

record 't writer_state =
  ws_writerID :: string
  ws_bucket :: string
  ws_table :: string
  ws_basePath :: string
  ws_schema :: bool
  ws_tw :: "'t option"
  ws_files :: "written_file list"
  ws_committed :: bool

record 't server =
  sv_config :: gw_config
  sv_resolver :: bool
  sv_writers :: "(string \<times> 't writer_state) list"
  sv_writerCounter :: nat
  sv_cancelled :: bool
  sv_rowCap :: "row_cap option"
  sv_pool :: "pool option"

definition put_writer :: "'t writer_state \<Rightarrow> 't server \<Rightarrow> 't server" where
  "put_writer ws s = s\<lparr>sv_writers := assoc_put (ws_writerID ws) ws (sv_writers s)\<rparr>"

text \<open>The server as booted: with a catalog there is a commit pool of 4 workers and 256 jobs.\<close>

definition new_server :: "gw_config \<Rightarrow> bool \<Rightarrow> 't server" where
  "new_server c lakekeeper =
     \<lparr>sv_config = c, sv_resolver = lakekeeper, sv_writers = [], sv_writerCounter = 0, sv_cancelled = False,
      sv_rowCap = row_cap_for c, sv_pool = (if lakekeeper then Some (NewCommitPool 4 256) else None)\<rparr>"

section \<open>OpenWriter\<close>

text \<open>The request and what the calls it leads to answer: the format adapter, the schema of the request
  (\<open>None\<close> when it has none), the output schema, the variant checks and the catalog.\<close>

record open_request =
  or_bucket :: string
  or_table :: string
  or_format :: string
  or_formatErr :: bool
  or_schema :: "(string + unit) option"
  or_outputErr :: "string option"
  or_createErr :: "gw_error option"
  or_catalog :: "string + string"
  or_variantErr :: "gw_error option"
  or_overlayErr :: "string option"

definition no_bucket_error :: "gw_config \<Rightarrow> string \<Rightarrow> string" where
  "no_bucket_error c table =
     (if gc_outputTables c \<noteq> [] then
        ''table '' @ [CHR 0x27] @ table @ [CHR 0x27] @ '' is not declared in outputs.tables (declared: '' @
        strings_Join (map oc_name (gc_outputTables c)) '', '' @
        '') and no defaultBucket is configured; either add '' @ [CHR 0x27] @ table @ [CHR 0x27] @
        '' to outputs.tables, set outputs.defaultBucket, or make the component write one of the declared tables''
      else
        ''cannot determine a bucket for table '' @ [CHR 0x27] @ table @ [CHR 0x27] @
        '': no bucket in the request, no outputs.tables entries, and no outputs.defaultBucket configured'')"

text \<open>The checks before the catalog is asked.\<close>

definition check_open :: "open_request \<Rightarrow> 't server \<Rightarrow> gw_error + string" where
  "check_open r s =
     (let c = sv_config s; bucket = resolve_bucket c (or_bucket r) (or_table r) in
      if or_table r = [] then Inl (Failed ''table is required'')
      else if bucket = [] then Inl (Failed (no_bucket_error c (or_table r)))
      else if \<not> declaredOutputBucket c bucket then
        Inl (Denied (''bucket '' @ fmt_q bucket @ '' is not a declared output of this component (declared: '' @
          strings_Join (declaredOutputBuckets c) '', '' @ '')''))
      else if or_formatErr r then Inl (Failed (''unsupported input format: '' @ or_format r))
      else
        (case or_schema r of
           Some (Inl e) \<Rightarrow> Inl (Failed (''invalid schema: '' @ e))
         | Some (Inr _) \<Rightarrow>
             (case or_outputErr r of
                Some e \<Rightarrow> Inl (Failed (''failed to compute output schema: '' @ e))
              | None \<Rightarrow> Inr bucket)
         | None \<Rightarrow> Inr bucket))"

text \<open>The write target: the base path the catalog answers, none when the table is created with the first
  chunk.\<close>

definition resolve_target :: "open_request \<Rightarrow> string \<Rightarrow> 't server \<Rightarrow> gw_error + string option" where
  "resolve_target r bucket s =
     (if sv_resolver s then
        (case (if or_schema r \<noteq> None then or_createErr r else None) of
           Some e \<Rightarrow> Inl e
         | None \<Rightarrow>
             (case or_catalog r of
                Inl e \<Rightarrow>
                  if or_schema r \<noteq> None \<or> \<not> isSchemaDeferred e then Inl (Failed (''lakekeeper open writer: '' @ e))
                  else Inr None
              | Inr base \<Rightarrow> (case or_variantErr r of Some e \<Rightarrow> Inl e | None \<Rightarrow> Inr (Some base))))
      else if gc_localDataDir (sv_config s) \<noteq> [] then
        Inr (Some (joinStoragePath (gc_localDataDir (sv_config s)) (bucket @ ''/'' @ or_table r @ ''/data/'')))
      else Inl (Failed ''no storage backend configured (need lakekeeper resolver or local data dir)''))"

definition OpenWriter :: "open_request \<Rightarrow> 't server \<Rightarrow> 't server \<times> (gw_error + string)" where
  "OpenWriter r s =
     (case check_open r s of
        Inl e \<Rightarrow> (s, Inl e)
      | Inr bucket \<Rightarrow>
          (case resolve_target r bucket s of
             Inl e \<Rightarrow> (s, Inl e)
           | Inr target \<Rightarrow>
               (case (if or_schema r \<noteq> None then or_overlayErr r else None) of
                  Some e \<Rightarrow> (s, Inl (Failed (''invalid schema: '' @ e)))
                | None \<Rightarrow>
                    let n = Suc (sv_writerCounter s);
                        writerID = CHR ''w'' # nat_str n;
                        ws = \<lparr>ws_writerID = writerID, ws_bucket = bucket, ws_table = or_table r,
                              ws_basePath = (case target of None \<Rightarrow> [] | Some base \<Rightarrow> base),
                              ws_schema = (or_schema r \<noteq> None), ws_tw = None, ws_files = [], ws_committed = False\<rparr>
                    in (put_writer ws (s\<lparr>sv_writerCounter := n\<rparr>), Inr writerID))))"

section \<open>WriteChunk\<close>

text \<open>What the calls of a chunk answer: parsing and the drop pipeline (the rows of the record), the
  schema checks of the first chunk before and after the table is created, the catalog, the data plane,
  a cancellation seen when the writer is published, the conversion of the record and its type check.\<close>

record chunk =
  ck_parseErr :: "string option"
  ck_transform :: "string + row list"
  ck_inferred :: bool
  ck_outputErr :: "string option"
  ck_destErr :: "gw_error option"
  ck_acceptErr :: "string option"
  ck_catalog :: "string + string"
  ck_destErr2 :: "gw_error option"
  ck_acceptErr2 :: "string option"
  ck_openErr :: "gw_error option"
  ck_cancelledMeanwhile :: bool
  ck_normalizeErr :: "string option"
  ck_typeErr :: "string option"

definition schema_checks :: "gw_error option \<Rightarrow> string option \<Rightarrow> gw_error option" where
  "schema_checks destErr acceptErr =
     (case destErr of
        Some e \<Rightarrow> Some e
      | None \<Rightarrow> map_option (\<lambda>e. Failed (''buffer error: '' @ e)) acceptErr)"

text \<open>The write target of the first chunk: the known base path, or the one of the table created now.\<close>

definition deferred_target :: "chunk \<Rightarrow> 't writer_state \<Rightarrow> 't server \<Rightarrow> 't writer_state \<times> gw_error option" where
  "deferred_target ck ws s =
     (if ws_basePath ws \<noteq> [] then (ws, None)
      else if \<not> sv_resolver s then
        (ws, Some (Failed (''no write target for '' @ ws_bucket ws @ ''.'' @ ws_table ws)))
      else
        (case ck_catalog ck of
           Inl e \<Rightarrow>
             (ws, Some (Failed (''lakekeeper deferred create '' @ ws_bucket ws @ ''.'' @ ws_table ws @ '': '' @ e)))
         | Inr base \<Rightarrow> (ws\<lparr>ws_basePath := base\<rparr>, schema_checks (ck_destErr2 ck) (ck_acceptErr2 ck))))"

definition open_table_writer :: "'t plane_ops \<Rightarrow> chunk \<Rightarrow> 't writer_state \<Rightarrow> 't server \<Rightarrow> 't writer_state \<times> (gw_error + 't)" where
  "open_table_writer pl ck ws s =
     (case ck_openErr ck of
        Some e \<Rightarrow> (ws, Inl (wrap_gw (''open table writer '' @ ws_bucket ws @ ''.'' @ ws_table ws @ '': '') e))
      | None \<Rightarrow>
          if ck_cancelledMeanwhile ck then (ws, Inl errRunCancelled)
          else
            let tw = pl_fresh pl (ws_basePath ws) (filePrefix (gc_runID (sv_config s)) (ws_writerID ws)) in
            (ws\<lparr>ws_schema := True, ws_tw := Some tw\<rparr>, Inr tw))"

definition ensureTableWriter ::
    "'t plane_ops \<Rightarrow> chunk \<Rightarrow> 't writer_state \<Rightarrow> 't server \<Rightarrow> 't writer_state \<times> (gw_error + 't)" where
  "ensureTableWriter pl ck ws s =
     (case ws_tw ws of
        Some tw \<Rightarrow> (ws, Inr tw)
      | None \<Rightarrow>
          if \<not> ws_schema ws \<and> \<not> ck_inferred ck then
            (ws, Inl (Failed (''cannot create table '' @ ws_bucket ws @ ''.'' @ ws_table ws @
              '': no schema (request '' @ ''didn'' @ [CHR 0x27] @ ''t supply one and inference failed)'')))
          else
            (case ck_outputErr ck of
               Some e \<Rightarrow> (ws, Inl (Failed (''failed to compute output schema: '' @ e)))
             | None \<Rightarrow>
                 (case schema_checks (ck_destErr ck) (ck_acceptErr ck) of
                    Some e \<Rightarrow> (ws, Inl e)
                  | None \<Rightarrow>
                      if sv_cancelled s then (ws, Inl errRunCancelled)
                      else
                        (case deferred_target ck ws s of
                           (ws', Some e) \<Rightarrow> (ws', Inl e)
                         | (ws', None) \<Rightarrow> open_table_writer pl ck ws' s))))"

record write_response =
  wr_rowsAccepted :: int
  wr_limitReached :: bool

text \<open>\<open>processParsedRecord\<close> after the row cap: \<open>rows\<close> are the rows it granted.\<close>

definition write_rows ::
    "'t plane_ops \<Rightarrow> chunk \<Rightarrow> 't writer_state \<Rightarrow> row list \<Rightarrow> bool \<Rightarrow> 't server \<Rightarrow> 't server \<times> (gw_error + write_response)" where
  "write_rows pl ck ws rows limitReached s =
     (case ensureTableWriter pl ck ws s of
        (ws1, Inl e) \<Rightarrow> (put_writer ws1 s, Inl e)
      | (ws1, Inr tw) \<Rightarrow>
          (case ck_normalizeErr ck of
             Some e \<Rightarrow> (put_writer ws1 s, Inl (Failed (''write error: '' @ e)))
           | None \<Rightarrow>
               (case ck_typeErr ck of
                  Some e \<Rightarrow> (put_writer ws1 s, Inl (Failed (''buffer error: '' @ e)))
                | None \<Rightarrow>
                    (case pl_write pl rows tw of
                       (tw', Some e) \<Rightarrow> (put_writer (ws1\<lparr>ws_tw := Some tw'\<rparr>) s, Inl (Failed (''write error: '' @ e)))
                     | (tw', None) \<Rightarrow>
                         (put_writer (ws1\<lparr>ws_tw := Some tw'\<rparr>) s,
                          Inr \<lparr>wr_rowsAccepted = int (length rows), wr_limitReached = limitReached\<rparr>)))))"

definition processParsedRecord ::
    "'t plane_ops \<Rightarrow> chunk \<Rightarrow> 't writer_state \<Rightarrow> 't server \<Rightarrow> 't server \<times> (gw_error + write_response)" where
  "processParsedRecord pl ck ws s =
     (case ck_transform ck of
        Inl e \<Rightarrow> (s, Inl (Failed (''transform failed: '' @ e)))
      | Inr rows \<Rightarrow>
          (case row_cap_take (ws_bucket ws) (ws_table ws) (int (length rows)) (sv_rowCap s) of
             (cap, allowed, limitReached) \<Rightarrow>
               let s1 = s\<lparr>sv_rowCap := cap\<rparr> in
               if allowed = 0 \<and> rows \<noteq> [] then (s1, Inr \<lparr>wr_rowsAccepted = 0, wr_limitReached = True\<rparr>)
               else write_rows pl ck ws (take (nat allowed) rows) limitReached s1))"

definition WriteChunk ::
    "'t plane_ops \<Rightarrow> string \<Rightarrow> chunk \<Rightarrow> 't server \<Rightarrow> 't server \<times> (gw_error + write_response)" where
  "WriteChunk pl writerID ck s =
     (case map_of (sv_writers s) writerID of
        None \<Rightarrow> (s, Inl (Failed (''unknown writer: '' @ writerID)))
      | Some ws \<Rightarrow>
          (case ck_parseErr ck of
             Some e \<Rightarrow> (s, Inl (Failed (''failed to parse input: '' @ e)))
           | None \<Rightarrow> processParsedRecord pl ck ws s))"

section \<open>CloseWriter\<close>

text \<open>\<open>ctxErr\<close> is the error of the request's context when it ends before the writer is closed.\<close>

definition closeTableWriter ::
    "'t plane_ops \<Rightarrow> string option \<Rightarrow> 't writer_state \<Rightarrow> 't writer_state \<times> (string + written_file list)" where
  "closeTableWriter pl ctxErr ws =
     (case ws_tw ws of
        None \<Rightarrow> (ws, Inr [])
      | Some tw \<Rightarrow>
          (case pl_close pl ctxErr tw of
             (tw', Inl e) \<Rightarrow> (ws\<lparr>ws_tw := Some tw'\<rparr>, Inl e)
           | (tw', Inr files) \<Rightarrow> (ws\<lparr>ws_tw := Some tw', ws_files := files\<rparr>, Inr files)))"

definition job_partition :: "written_file list \<Rightarrow> partitioned_files option" where
  "job_partition files =
     (case files of
        [] \<Rightarrow> None
      | f # _ \<Rightarrow>
          if wf_partition f = None then None
          else Some \<lparr>pt_specID = wf_specID f,
                     pt_tuples = map (\<lambda>g. case wf_partition g of None \<Rightarrow> [] | Some t \<Rightarrow> t) files\<rparr>)"

definition job_of :: "gw_config \<Rightarrow> 't writer_state \<Rightarrow> commit_job" where
  "job_of c ws =
     \<lparr>cj_writerID = ws_writerID ws, cj_namespace = ws_bucket ws, cj_table = ws_table ws, cj_runID = gc_runID c,
      cj_dataPaths = map wf_path (ws_files ws), cj_partition = job_partition (ws_files ws),
      cj_mode = commit_mode c (ws_bucket ws) (ws_table ws)\<rparr>"

definition finalizeAndDispatch :: "'t writer_state \<Rightarrow> 't server \<Rightarrow> 't server \<times> string option" where
  "finalizeAndDispatch ws s =
     (if ws_committed ws then (s, None)
      else
        let s1 = put_writer (ws\<lparr>ws_committed := True\<rparr>) s in
        (case sv_pool s of
           None \<Rightarrow> (s1, None)
         | Some p \<Rightarrow>
             if ws_files ws = [] then (s1, None)
             else
               (case Dispatch (job_of (sv_config s) ws) p of
                  (p', Some e) \<Rightarrow>
                    (s1, Some (''dispatch commit '' @ ws_bucket ws @ ''.'' @ ws_table ws @ '': '' @ e))
                | (p', None) \<Rightarrow> (s1\<lparr>sv_pool := Some p'\<rparr>, None))))"

record close_response =
  clr_totalRows :: int
  clr_totalBytes :: int
  clr_filesWritten :: int

definition wrap32 :: "int \<Rightarrow> int" where
  "wrap32 i = (i + 2 ^ 31) mod 2 ^ 32 - 2 ^ 31"

definition CloseWriter ::
    "'t plane_ops \<Rightarrow> string \<Rightarrow> bool \<Rightarrow> string option \<Rightarrow> 't server \<Rightarrow> 't server \<times> (string + close_response)" where
  "CloseWriter pl writerID externalFiles ctxErr s =
     (case map_of (sv_writers s) writerID of
        None \<Rightarrow> (s, Inl (''unknown writer: '' @ writerID))
      | Some ws \<Rightarrow>
          if externalFiles then
            (s, Inl (''external data files are not supported (writer '' @ writerID @ '', table '' @
              ws_bucket ws @ ''.'' @ ws_table ws @ '')''))
          else
            (case closeTableWriter pl ctxErr ws of
               (ws1, Inl e) \<Rightarrow> (put_writer ws1 s, Inl (''failed to close writer: '' @ e))
             | (ws1, Inr files) \<Rightarrow>
                 (case finalizeAndDispatch ws1 (put_writer ws1 s) of
                    (s', Some e) \<Rightarrow> (s', Inl e)
                  | (s', None) \<Rightarrow>
                      (s', Inr \<lparr>clr_totalRows = wrap64 (sum_list (map wf_rows files)),
                                clr_totalBytes = wrap64 (sum_list (map wf_bytes files)),
                                clr_filesWritten = wrap32 (int (length files))\<rparr>))))"

section \<open>Commit\<close>

text \<open>The defensive sweep: close and dispatch every writer that is not claimed yet; the first error is
  kept. The writers are those of the map when \<open>Commit\<close> starts; \<open>ctxErr\<close> says for which of them the
  request's context ends first.\<close>

definition sweep_writer ::
    "'t plane_ops \<Rightarrow> (string \<Rightarrow> string option) \<Rightarrow> string \<Rightarrow> 't server \<times> string option \<Rightarrow> 't server \<times> string option" where
  "sweep_writer pl ctxErr writerID se =
     (case se of
        (s, err) \<Rightarrow>
          (case map_of (sv_writers s) writerID of
             None \<Rightarrow> (s, err)
           | Some ws \<Rightarrow>
               (case closeTableWriter pl (ctxErr writerID) ws of
                  (ws1, Inl e) \<Rightarrow>
                    (put_writer ws1 s,
                     (case err of
                        Some e0 \<Rightarrow> Some e0
                      | None \<Rightarrow> Some (''sweep close '' @ ws_bucket ws @ ''.'' @ ws_table ws @ '': '' @ e)))
                | (ws1, Inr _) \<Rightarrow>
                    (case finalizeAndDispatch ws1 (put_writer ws1 s) of
                       (s', e) \<Rightarrow> (s', (case err of Some e0 \<Rightarrow> Some e0 | None \<Rightarrow> e))))))"

definition sweep_list :: "'t server \<Rightarrow> string list" where
  "sweep_list s = map fst (filter (\<lambda>(id, ws). \<not> ws_committed ws) (sv_writers s))"

definition sweep :: "'t plane_ops \<Rightarrow> (string \<Rightarrow> string option) \<Rightarrow> 't server \<Rightarrow> 't server \<times> string option" where
  "sweep pl ctxErr s = fold (sweep_writer pl ctxErr) (sweep_list s) (s, None)"

datatype table_status = Committed | Skipped | CommitFailed

record table_result =
  tr_table :: string
  tr_bucket :: string
  tr_status :: table_status
  tr_error :: string
  tr_filesAdded :: int
  tr_rowsAdded :: int

definition writerRowsWritten :: "'t writer_state \<Rightarrow> int" where
  "writerRowsWritten ws = wrap64 (sum_list (map wf_rows (ws_files ws)))"

definition table_result_of :: "(string \<times> 't writer_state) list \<Rightarrow> pool_result \<Rightarrow> table_result" where
  "table_result_of expected r =
     (let tr = \<lparr>tr_table = cm_table r, tr_bucket = cm_namespace r, tr_status = Committed, tr_error = [],
                tr_filesAdded = 0, tr_rowsAdded = 0\<rparr>
      in case cm_err r of
           Some e \<Rightarrow> tr\<lparr>tr_status := CommitFailed, tr_error := e\<rparr>
         | None \<Rightarrow>
             if cm_dataFilesAdded r = 0 \<and> cm_after r = [] then tr\<lparr>tr_status := Skipped\<rparr>
             else tr\<lparr>tr_filesAdded := wrap32 (int (cm_dataFilesAdded r)),
                     tr_rowsAdded :=
                       (case map_of expected (cm_writerID r) of None \<Rightarrow> 0 | Some ws \<Rightarrow> writerRowsWritten ws)\<rparr>)"

text \<open>A writer with no pool result.\<close>

definition reconcile :: "bool \<Rightarrow> 't writer_state \<Rightarrow> table_result" where
  "reconcile pooled ws =
     (let tr = \<lparr>tr_table = ws_table ws, tr_bucket = ws_bucket ws, tr_status = Skipped, tr_error = [],
                tr_filesAdded = 0, tr_rowsAdded = 0\<rparr>
      in if ws_files ws = [] then tr
         else if \<not> pooled then tr\<lparr>tr_status := Committed, tr_rowsAdded := writerRowsWritten ws\<rparr>
         else tr\<lparr>tr_status := CommitFailed,
                 tr_error := ''commit not dispatched (reconciliation failure)''\<rparr>)"

definition table_results :: "bool \<Rightarrow> (string \<times> 't writer_state) list \<Rightarrow> pool_result list \<Rightarrow> table_result list" where
  "table_results pooled expected results =
     map (table_result_of expected) results @
     map (\<lambda>(id, ws). reconcile pooled ws) (filter (\<lambda>(id, ws). id \<notin> set (map cm_writerID results)) expected)"

record bucket_result =
  br_bucket :: string
  br_failed :: bool
  br_tables :: "table_result list"

definition bucket_results :: "table_result list \<Rightarrow> bucket_result list" where
  "bucket_results trs =
     map (\<lambda>b. let ts = filter (\<lambda>t. tr_bucket t = b) trs in
           \<lparr>br_bucket = b, br_failed = list_ex (\<lambda>t. tr_status t = CommitFailed) ts, br_tables = ts\<rparr>)
       (remdups (map tr_bucket trs))"

record commit_response =
  cmr_success :: bool
  cmr_buckets :: "bucket_result list"
  cmr_error :: string

definition allSuccess :: "string option \<Rightarrow> table_result list \<Rightarrow> bool" where
  "allSuccess sweepErr trs \<longleftrightarrow> sweepErr = None \<and> (\<forall>t \<in> set trs. tr_status t \<noteq> CommitFailed)"

text \<open>\<open>Commit\<close> after the sweep, with the commit pool as it is when \<open>Wait\<close> returns.\<close>

definition finish_commit :: "string option \<Rightarrow> pool option \<Rightarrow> 't server \<Rightarrow> 't server \<times> commit_response" where
  "finish_commit sweepErr waited s =
     (let results = (case waited of None \<Rightarrow> [] | Some p \<Rightarrow> snd (Wait p));
          trs = table_results (sv_pool s \<noteq> None) (sv_writers s) results
      in (s\<lparr>sv_writers := [], sv_pool := map_option (fst \<circ> Wait) waited\<rparr>,
          \<lparr>cmr_success = allSuccess sweepErr trs, cmr_buckets = bucket_results trs,
           cmr_error = (case sweepErr of None \<Rightarrow> [] | Some e \<Rightarrow> e)\<rparr>))"

text \<open>The pool while \<open>Wait\<close> blocks: its goroutines run; \<open>Wait\<close> may return at any moment, when the context
  ends, or because no goroutine is left.\<close>

definition pool_run :: "(commit_job \<Rightarrow> pool_result \<Rightarrow> bool) \<Rightarrow> pool option \<Rightarrow> pool option \<Rightarrow> bool" where
  "pool_run may po po' \<longleftrightarrow>
     (case (po, po') of
        (None, None) \<Rightarrow> True
      | (Some p, Some p') \<Rightarrow> (task_step may)\<^sup>*\<^sup>* p p'
      | _ \<Rightarrow> False)"

definition Commit ::
    "'t plane_ops \<Rightarrow> (commit_job \<Rightarrow> pool_result \<Rightarrow> bool) \<Rightarrow> (string \<Rightarrow> string option) \<Rightarrow> 't server \<Rightarrow> 't server \<Rightarrow> commit_response \<Rightarrow> bool" where
  "Commit pl may ctxErr s s' resp \<longleftrightarrow>
     (\<exists>waited. pool_run may (sv_pool (fst (sweep pl ctxErr s))) waited \<and>
        (s', resp) = finish_commit (snd (sweep pl ctxErr s)) waited (fst (sweep pl ctxErr s)))"

section \<open>Cancellation\<close>

definition abort_writer :: "'t plane_ops \<Rightarrow> 't writer_state \<Rightarrow> 't writer_state" where
  "abort_writer pl ws = ws\<lparr>ws_tw := map_option (pl_abort pl) (ws_tw ws)\<rparr>"

definition watchCancel :: "'t plane_ops \<Rightarrow> 't server \<Rightarrow> 't server" where
  "watchCancel pl s =
     s\<lparr>sv_pool := map_option Cancel (sv_pool s), sv_cancelled := True,
       sv_writers := map (\<lambda>(id, ws). (id, abort_writer pl ws)) (sv_writers s)\<rparr>"

end
