(* ===== verification/Gateway_Commit.thy ===== *)
theory Gateway_Commit
  imports Gateway_Session
begin

text \<open>
  What a write session promises: the contract of the data plane's writers as a locale, the invariant
  of the server under every request, and the meaning of a successful \<open>Commit\<close>. The contract is
  interpreted on the table writer of the Go data plane.
\<close>

section \<open>The contract of table writers\<close>

text \<open>\<open>accepted\<close> are the rows a writer took, \<open>settled\<close> is its result once it is closed, \<open>good\<close> its
  invariant. A writer that is closed takes no more rows and its result never changes; a result
  without an error holds every row that was taken.\<close>

locale table_plane =
  fixes pl :: "'t plane_ops" and good :: "'t \<Rightarrow> bool" and accepted :: "'t \<Rightarrow> row list"
    and settled :: "'t \<Rightarrow> (string + written_file list) option"
  assumes fresh: "good (pl_fresh pl base pre) \<and> accepted (pl_fresh pl base pre) = [] \<and> settled (pl_fresh pl base pre) = None"
    and write_taken: "good t \<Longrightarrow> pl_write pl rows t = (t', None) \<Longrightarrow>
      good t' \<and> settled t = None \<and> settled t' = None \<and> accepted t' = accepted t @ rows"
    and write_refused: "good t \<Longrightarrow> pl_write pl rows t = (t', Some e) \<Longrightarrow>
      good t' \<and> accepted t' = accepted t \<and> settled t' = settled t"
    and close_settles: "good t \<Longrightarrow> pl_close pl c t = (t', r) \<Longrightarrow>
      good t' \<and> accepted t' = accepted t \<and> settled t' \<noteq> None \<and> (settled t \<noteq> None \<longrightarrow> settled t' = settled t)"
    and close_result_settled: "good t \<Longrightarrow> pl_close pl c t = (t', Inr files) \<Longrightarrow> settled t' = Some (Inr files)"
    and abort_settles: "good t \<Longrightarrow>
      good (pl_abort pl t) \<and> accepted (pl_abort pl t) = accepted t \<and> settled (pl_abort pl t) \<noteq> None \<and>
      (settled t \<noteq> None \<longrightarrow> settled (pl_abort pl t) = settled t)"
    and rows_delivered: "good t \<Longrightarrow> settled t = Some (Inr files) \<Longrightarrow>
      sum_list (map wf_rows files) = int (length (accepted t))"
begin

lemma files_of_rows: "good t \<Longrightarrow> settled t = Some (Inr files) \<Longrightarrow> accepted t \<noteq> [] \<Longrightarrow> files \<noteq> []"
  using rows_delivered[of t files] by auto

end

section \<open>Invariant\<close>

type_synonym settling = "(string + written_file list) option"

definition writer_ok :: "('t \<Rightarrow> bool) \<Rightarrow> ('t \<Rightarrow> settling) \<Rightarrow> 't writer_state \<Rightarrow> bool" where
  "writer_ok good settled ws \<longleftrightarrow>
     (ws_tw ws = None \<longrightarrow> ws_files ws = []) \<and>
     (\<forall>t. ws_tw ws = Some t \<longrightarrow> good t \<and> (ws_files ws \<noteq> [] \<longrightarrow> settled t = Some (Inr (ws_files ws))))"

definition writer_name :: "nat \<Rightarrow> string" where
  "writer_name n = CHR ''w'' # nat_str n"

definition named :: "nat \<Rightarrow> string \<Rightarrow> bool" where
  "named n wid \<longleftrightarrow> (\<exists>m \<le> n. wid = writer_name m)"

lemma named_simps [simp]: "named n wid \<Longrightarrow> named (Suc n) wid" "named (Suc n) (writer_name (Suc n))"
    "\<not> named n (writer_name (Suc n))"
  by (auto simp: named_def writer_name_def intro: le_SucI)

definition writers_ok :: "('t \<Rightarrow> bool) \<Rightarrow> ('t \<Rightarrow> settling) \<Rightarrow> 't server \<Rightarrow> bool" where
  "writers_ok good settled s \<longleftrightarrow>
     distinct (map fst (sv_writers s)) \<and>
     (\<forall>id ws. map_of (sv_writers s) id = Some ws \<longrightarrow>
        ws_writerID ws = id \<and> writer_ok good settled ws \<and> named (sv_writerCounter s) id \<and>
        declaredOutputBucket (sv_config s) (ws_bucket ws))"

text \<open>Every accepted job is the job of a claimed writer with files, at most one for each.\<close>

definition jobs_ok :: "gw_config \<Rightarrow> (string \<times> 't writer_state) list \<Rightarrow> pool \<Rightarrow> bool" where
  "jobs_ok c writers p \<longleftrightarrow>
     distinct (map cj_writerID (cp_accepted p)) \<and>
     (\<forall>j \<in> set (cp_accepted p). \<exists>ws. map_of writers (cj_writerID j) = Some ws \<and> ws_committed ws \<and>
        ws_files ws \<noteq> [] \<and> j = job_of c ws)"

definition session_inv ::
    "(commit_job \<Rightarrow> pool_result \<Rightarrow> bool) \<Rightarrow> ('t \<Rightarrow> bool) \<Rightarrow> ('t \<Rightarrow> settling) \<Rightarrow> 't server \<Rightarrow> bool" where
  "session_inv may good settled s \<longleftrightarrow>
     writers_ok good settled s \<and>
     (\<forall>p. sv_pool s = Some p \<longrightarrow> pool_inv may p \<and> jobs_ok (sv_config s) (sv_writers s) p)"

text \<open>How an operation may change a writer.\<close>

definition updates :: "'t writer_state \<Rightarrow> 't writer_state \<Rightarrow> bool" where
  "updates ws ws' \<longleftrightarrow>
     ws_writerID ws' = ws_writerID ws \<and> ws_bucket ws' = ws_bucket ws \<and> ws_table ws' = ws_table ws \<and>
     (ws_committed ws \<longrightarrow> ws_committed ws') \<and> (ws_files ws \<noteq> [] \<longrightarrow> ws_files ws' = ws_files ws)"

lemma updates_job: "updates ws ws' \<Longrightarrow> ws_files ws \<noteq> [] \<Longrightarrow> job_of c ws' = job_of c ws"
  by (simp add: updates_def job_of_def)

lemma updates_trans: "updates a b \<Longrightarrow> updates b c \<Longrightarrow> updates a c"
  by (auto simp: updates_def)

lemma put_writer_simps [simp]:
  "sv_config (put_writer ws s) = sv_config s" "sv_pool (put_writer ws s) = sv_pool s"
  "sv_resolver (put_writer ws s) = sv_resolver s" "sv_cancelled (put_writer ws s) = sv_cancelled s"
  "sv_writerCounter (put_writer ws s) = sv_writerCounter s" "sv_rowCap (put_writer ws s) = sv_rowCap s"
  "map_of (sv_writers (put_writer ws s)) = (map_of (sv_writers s))(ws_writerID ws \<mapsto> ws)"
  by (simp_all add: put_writer_def map_of_assoc_put)

lemma put_writers_ok:
  assumes "writers_ok good settled s" "writer_ok good settled ws" "named (sv_writerCounter s) (ws_writerID ws)"
    and "declaredOutputBucket (sv_config s) (ws_bucket ws)"
  shows "writers_ok good settled (put_writer ws s)"
  using assms by (auto simp: writers_ok_def put_writer_def map_of_assoc_put distinct_assoc_put)

lemma writers_ok_more:
  "writers_ok good settled s \<Longrightarrow> writers_ok good settled (s\<lparr>sv_writerCounter := Suc (sv_writerCounter s)\<rparr>)"
  by (simp add: writers_ok_def)

lemma writers_ok_pool [simp]: "writers_ok good settled (s\<lparr>sv_pool := p\<rparr>) = writers_ok good settled s"
  by (simp add: writers_ok_def)

lemma jobs_snoc:
  assumes "jobs_ok c writers p" "cp_accepted p' = cp_accepted p @ [job_of c ws]"
    and "\<And>j. j \<in> set (cp_accepted p) \<Longrightarrow> cj_writerID j \<noteq> ws_writerID ws"
    and "map_of writers (ws_writerID ws) = Some ws" "ws_committed ws" "ws_files ws \<noteq> []"
  shows "jobs_ok c writers p'"
proof -
  have wid: "cj_writerID (job_of c ws) = ws_writerID ws" by (simp add: job_of_def)
  have new: "ws_writerID ws \<notin> cj_writerID ` set (cp_accepted p)" by (metis assms(3) imageE)
  have old: "distinct (map cj_writerID (cp_accepted p))" using assms(1) by (simp add: jobs_ok_def)
  have "\<exists>w. map_of writers (cj_writerID j) = Some w \<and> ws_committed w \<and> ws_files w \<noteq> [] \<and> j = job_of c w"
    if "j \<in> set (cp_accepted p')" for j
  proof (cases "j = job_of c ws")
    case True
    then show ?thesis using assms(4-6) wid by metis
  next
    case False
    then have "j \<in> set (cp_accepted p)" using that assms(2) by simp
    then show ?thesis using assms(1) unfolding jobs_ok_def by blast
  qed
  moreover have "distinct (map cj_writerID (cp_accepted p'))" using old new by (simp add: assms(2) wid)
  ultimately show ?thesis unfolding jobs_ok_def by blast
qed

lemma jobs_put:
  assumes "jobs_ok c (sv_writers s) p"
    and "\<And>old. map_of (sv_writers s) (ws_writerID ws) = Some old \<Longrightarrow> updates old ws"
  shows "jobs_ok c (sv_writers (put_writer ws s)) p"
  unfolding jobs_ok_def
proof (intro conjI ballI)
  show "distinct (map cj_writerID (cp_accepted p))" using assms(1) by (simp add: jobs_ok_def)
  fix j
  assume "j \<in> set (cp_accepted p)"
  then obtain old where old: "map_of (sv_writers s) (cj_writerID j) = Some old" "ws_committed old" "ws_files old \<noteq> []"
    "j = job_of c old" using assms(1) by (auto simp: jobs_ok_def)
  show "\<exists>w. map_of (sv_writers (put_writer ws s)) (cj_writerID j) = Some w \<and> ws_committed w \<and> ws_files w \<noteq> [] \<and> j = job_of c w"
  proof (cases "cj_writerID j = ws_writerID ws")
    case True
    then have u: "updates old ws" using assms(2) old(1) by simp
    then have "ws_committed ws" "ws_files ws \<noteq> []" using old(2,3) by (auto simp: updates_def)
    then show ?thesis using updates_job[OF u old(3), of c] old(4) True by auto
  qed (use old in auto)
qed

lemma put_writer_inv:
  assumes "session_inv may good settled s" "map_of (sv_writers s) (ws_writerID old) = Some old"
    and "updates old ws" "writer_ok good settled ws"
  shows "session_inv may good settled (put_writer ws s)"
proof -
  have id: "ws_writerID ws = ws_writerID old" "ws_bucket ws = ws_bucket old" using assms(3) by (auto simp: updates_def)
  have "writers_ok good settled (put_writer ws s)"
  proof (rule put_writers_ok)
    show "writers_ok good settled s" using assms(1) by (simp add: session_inv_def)
    then show "named (sv_writerCounter s) (ws_writerID ws)" "declaredOutputBucket (sv_config s) (ws_bucket ws)"
      using assms(2) unfolding id writers_ok_def by blast+
  qed (rule assms(4))
  moreover have "jobs_ok c (sv_writers (put_writer ws s)) p" if "jobs_ok c (sv_writers s) p" for c p
    using jobs_put[OF that, of ws] assms(2,3) id by auto
  ultimately show ?thesis using assms(1) by (simp add: session_inv_def)
qed

section \<open>Requests keep the invariant\<close>

lemma writer_at:
  "session_inv may good settled s \<Longrightarrow> map_of (sv_writers s) wid = Some ws \<Longrightarrow>
   ws_writerID ws = wid \<and> writer_ok good settled ws"
  by (auto simp: session_inv_def writers_ok_def)

text \<open>Claiming a writer and dispatching its job.\<close>

lemma claim_inv:
  assumes inv: "session_inv may good settled s" and ws: "map_of (sv_writers s) (ws_writerID ws) = Some ws"
  shows "session_inv may good settled (fst (finalizeAndDispatch ws s)) \<and>
     (snd (finalizeAndDispatch ws s) = None \<longrightarrow>
        map_of (sv_writers (fst (finalizeAndDispatch ws s))) (ws_writerID ws) = Some (ws\<lparr>ws_committed := True\<rparr>))"
proof (cases "ws_committed ws")
  case True
  then have "ws\<lparr>ws_committed := True\<rparr> = ws" by simp
  then show ?thesis using True inv ws by (simp add: finalizeAndDispatch_def)
next
  case False
  let ?ws = "ws\<lparr>ws_committed := True\<rparr>" and ?s1 = "put_writer (ws\<lparr>ws_committed := True\<rparr>) s"
  have ok: "writer_ok good settled ?ws" using writer_at[OF inv ws] by (simp add: writer_ok_def)
  have inv1: "session_inv may good settled ?s1"
    using put_writer_inv[OF inv ws _ ok] by (simp add: updates_def)
  have "session_inv may good settled (?s1\<lparr>sv_pool := Some p'\<rparr>)"
    if p: "sv_pool s = Some p" and files: "ws_files ws \<noteq> []"
      and d: "Dispatch (job_of (sv_config s) ws) p = (p', None)" for p p'
  proof -
    let ?j = "job_of (sv_config s) ws"
    have acc: "cp_accepted p' = cp_accepted p @ [?j]" using Dispatch_accepted[of ?j p] d by simp
    have jobs: "jobs_ok (sv_config s) (sv_writers s) p" "jobs_ok (sv_config s) (sv_writers ?s1) p" "pool_inv may p"
      using inv inv1 p by (auto simp: session_inv_def)
    have "cj_writerID j \<noteq> ws_writerID ws" if "j \<in> set (cp_accepted p)" for j
      using jobs(1) that ws False by (auto simp: jobs_ok_def)
    moreover have "?j = job_of (sv_config s) ?ws" by (simp add: job_of_def)
    ultimately have "jobs_ok (sv_config s) (sv_writers ?s1) p'"
      using jobs_snoc[OF jobs(2), of p' ?ws] acc files by simp
    moreover have "pool_inv may p'" using Dispatch_inv[OF jobs(3), of ?j] d by simp
    moreover have "writers_ok good settled ?s1" using inv1 by (simp add: session_inv_def)
    ultimately show ?thesis by (auto simp: session_inv_def writers_ok_pool)
  qed
  then show ?thesis using False inv1
    by (auto simp: finalizeAndDispatch_def Let_def split: option.splits prod.splits)
qed

context table_plane
begin

lemma close_updates:
  assumes "closeTableWriter pl ctxErr ws = (ws', r)" "writer_ok good settled ws"
  shows "updates ws ws' \<and> writer_ok good settled ws' \<and> ws_committed ws' = ws_committed ws \<and>
     (\<forall>t. ws_tw ws' = Some t \<longrightarrow> settled t \<noteq> None \<and> (\<forall>files. r = Inr files \<longrightarrow> settled t = Some (Inr (ws_files ws'))))"
proof (cases "ws_tw ws")
  case None
  then show ?thesis using assms by (auto simp: closeTableWriter_def updates_def)
next
  case (Some t)
  obtain t' r' where c: "pl_close pl ctxErr t = (t', r')" by (cases "pl_close pl ctxErr t")
  have t: "good t" "ws_files ws \<noteq> [] \<Longrightarrow> settled t = Some (Inr (ws_files ws))"
    using assms(2) Some by (auto simp: writer_ok_def)
  note closed = close_settles[OF t(1) c]
  have res: "settled t' = Some (Inr files)" if "r' = Inr files" for files
    using close_result_settled[OF t(1)] c that by blast
  show ?thesis
  proof (cases r')
    case (Inl e)
    then have "ws' = ws\<lparr>ws_tw := Some t'\<rparr>" "r = Inl e" using assms(1) Some c by (auto simp: closeTableWriter_def)
    then show ?thesis using closed t by (auto simp: updates_def writer_ok_def)
  next
    case (Inr files)
    then have "ws' = ws\<lparr>ws_tw := Some t', ws_files := files\<rparr>" using assms(1) Some c by (auto simp: closeTableWriter_def)
    then show ?thesis using closed t res[OF Inr] by (auto simp: updates_def writer_ok_def)
  qed
qed

lemma ensure_updates:
  assumes "ensureTableWriter pl ck ws s = (ws', r)" "writer_ok good settled ws"
  shows "updates ws ws' \<and> writer_ok good settled ws' \<and> (\<forall>t. r = Inr t \<longrightarrow> ws_tw ws' = Some t \<and> good t)"
proof (cases "ws_tw ws")
  case None
  then have "ws_files ws = []" using assms(2) by (simp add: writer_ok_def)
  then show ?thesis using assms(1) None fresh
    by (auto simp: ensureTableWriter_def deferred_target_def open_table_writer_def writer_ok_def updates_def Let_def
        split: if_splits option.splits sum.splits prod.splits)
qed (use assms in \<open>auto simp: ensureTableWriter_def updates_def writer_ok_def\<close>)

lemma close_step_inv:
  assumes inv: "session_inv may good settled s" and ws: "map_of (sv_writers s) wid = Some ws"
    and c: "closeTableWriter pl ctxErr ws = (ws', r)"
  shows "session_inv may good settled (put_writer ws' s) \<and> ws_writerID ws' = wid"
  using close_updates[OF c] writer_at[OF inv ws] put_writer_inv[OF inv, of ws ws'] ws by (auto simp: updates_def)

lemma CloseWriter_inv:
  assumes inv: "session_inv may good settled s"
  shows "session_inv may good settled (fst (CloseWriter pl wid ext ctxErr s))"
proof (cases "map_of (sv_writers s) wid")
  case (Some ws)
  obtain ws1 r where c: "closeTableWriter pl ctxErr ws = (ws1, r)" by (cases "closeTableWriter pl ctxErr ws")
  note step = close_step_inv[OF inv Some c]
  have "session_inv may good settled (fst (finalizeAndDispatch ws1 (put_writer ws1 s)))"
    using claim_inv[of may good settled "put_writer ws1 s" ws1] step by simp
  then show ?thesis using Some c inv step
    by (auto simp: CloseWriter_def split: sum.splits prod.splits option.splits)
qed (use inv in \<open>simp add: CloseWriter_def\<close>)

lemma OpenWriter_inv:
  assumes inv: "session_inv may good settled s"
  shows "session_inv may good settled (fst (OpenWriter r s))"
proof -
  let ?n = "Suc (sv_writerCounter s)" and ?s = "s\<lparr>sv_writerCounter := Suc (sv_writerCounter s)\<rparr>"
  have fresh_name: "map_of (sv_writers s) (writer_name ?n) = None"
  proof (rule ccontr)
    assume "map_of (sv_writers s) (writer_name ?n) \<noteq> None"
    then obtain ws where "map_of (sv_writers s) (writer_name ?n) = Some ws" by blast
    then have "named (sv_writerCounter s) (writer_name ?n)"
      using inv unfolding session_inv_def writers_ok_def by blast
    then show False by simp
  qed
  have "session_inv may good settled (put_writer ws ?s)"
    if ws: "ws_writerID ws = writer_name ?n" "ws_tw ws = None" "ws_files ws = []"
      "declaredOutputBucket (sv_config s) (ws_bucket ws)" for ws
  proof -
    have "writers_ok good settled s" using inv by (simp add: session_inv_def)
    from writers_ok_more[OF this] have "writers_ok good settled (put_writer ws ?s)"
      using ws by (intro put_writers_ok) (auto simp: writer_ok_def)
    moreover have "jobs_ok c (sv_writers (put_writer ws ?s)) p" if "jobs_ok c (sv_writers s) p" for c p
      using jobs_put[of c ?s p ws] that fresh_name ws(1) by simp
    ultimately show ?thesis using inv by (simp add: session_inv_def)
  qed
  moreover have "declaredOutputBucket (sv_config s) bucket" if "check_open r s = Inr bucket" for bucket
    using that by (auto simp: check_open_def Let_def split: if_splits option.splits sum.splits)
  ultimately show ?thesis using inv
    by (auto simp: OpenWriter_def Let_def writer_name_def split: sum.splits option.splits)
qed

lemma write_rows_inv:
  assumes inv: "session_inv may good settled s" and ws: "map_of (sv_writers s) (ws_writerID ws) = Some ws"
  shows "session_inv may good settled (fst (write_rows pl ck ws rows reached s))"
proof -
  obtain ws1 r where e: "ensureTableWriter pl ck ws s = (ws1, r)" by (cases "ensureTableWriter pl ck ws s")
  have ok: "writer_ok good settled ws" using writer_at[OF inv ws] by simp
  note ens = ensure_updates[OF e ok]
  have inv1: "session_inv may good settled (put_writer ws1 s)" using put_writer_inv[OF inv ws] ens by blast
  have "session_inv may good settled (put_writer (ws1\<lparr>ws_tw := Some t'\<rparr>) s)"
    if r: "r = Inr t" and w: "pl_write pl rows t = (t', e)" for t t' e
  proof -
    have t: "ws_tw ws1 = Some t" "good t" using ens r by auto
    have "writer_ok good settled (ws1\<lparr>ws_tw := Some t'\<rparr>)"
      using ens t write_taken[OF t(2), of rows t'] write_refused[OF t(2), of rows t'] w
      by (cases e) (auto simp: writer_ok_def)
    moreover have "updates ws (ws1\<lparr>ws_tw := Some t'\<rparr>)" using ens by (simp add: updates_def)
    ultimately show ?thesis using put_writer_inv[OF inv ws] by blast
  qed
  then show ?thesis using e inv1
    by (auto simp: write_rows_def split: sum.splits option.splits prod.splits)
qed

lemma WriteChunk_inv:
  assumes inv: "session_inv may good settled s"
  shows "session_inv may good settled (fst (WriteChunk pl wid ck s))"
proof (cases "map_of (sv_writers s) wid")
  case (Some ws)
  have cap: "session_inv may good settled (s\<lparr>sv_rowCap := c\<rparr>)" for c
    using inv by (simp add: session_inv_def writers_ok_def)
  have "session_inv may good settled (fst (write_rows pl ck ws rows reached (s\<lparr>sv_rowCap := c\<rparr>)))" for rows reached c
    using write_rows_inv[OF cap, of c ws] Some writer_at[OF inv Some] by auto
  then show ?thesis using Some inv cap
    by (auto simp: WriteChunk_def processParsedRecord_def Let_def split: sum.splits option.splits prod.splits)
qed (use inv in \<open>simp add: WriteChunk_def\<close>)

end

section \<open>The sweep\<close>

text \<open>A writer is sealed when its table writer, if it has one, is closed and the files are its result; a
  claimed writer that is not sealed got rows after it was claimed.\<close>

definition sealed :: "('t \<Rightarrow> settling) \<Rightarrow> 't writer_state \<Rightarrow> bool" where
  "sealed settled ws \<longleftrightarrow> (\<forall>t. ws_tw ws = Some t \<longrightarrow> settled t = Some (Inr (ws_files ws)))"

definition late :: "('t \<Rightarrow> settling) \<Rightarrow> 't writer_state \<Rightarrow> bool" where
  "late settled ws \<longleftrightarrow> ws_committed ws \<and> \<not> sealed settled ws"

definition advances :: "('t \<Rightarrow> row list) \<Rightarrow> ('t \<Rightarrow> settling) \<Rightarrow> 't writer_state \<Rightarrow> 't writer_state \<Rightarrow> bool" where
  "advances accepted settled ws ws' \<longleftrightarrow>
     updates ws ws' \<and> (ws_committed ws \<longrightarrow> sealed settled ws \<longrightarrow> sealed settled ws') \<and>
     (ws_tw ws = None \<longrightarrow> ws_tw ws' = None) \<and>
     (\<forall>t. ws_tw ws = Some t \<longrightarrow> (\<exists>t'. ws_tw ws' = Some t' \<and> accepted t' = accepted t))"

definition writers_advance :: "('t \<Rightarrow> row list) \<Rightarrow> ('t \<Rightarrow> settling) \<Rightarrow> 't server \<Rightarrow> 't server \<Rightarrow> bool" where
  "writers_advance accepted settled s s' \<longleftrightarrow>
     sv_config s' = sv_config s \<and> map_option cp_waits (sv_pool s') = map_option cp_waits (sv_pool s) \<and>
     (\<forall>wid ws. map_of (sv_writers s) wid = Some ws \<longrightarrow>
        (\<exists>ws'. map_of (sv_writers s') wid = Some ws' \<and> advances accepted settled ws ws'))"

lemma advances_refl [simp]: "advances accepted settled ws ws"
  by (simp add: advances_def updates_def)

lemma advances_trans:
  assumes "advances accepted settled a b" "advances accepted settled b c"
  shows "advances accepted settled a c"
  unfolding advances_def
proof (intro conjI allI impI)
  show "updates a c" using assms updates_trans unfolding advances_def by blast
  have "ws_committed a \<Longrightarrow> ws_committed b" using assms(1) by (simp add: advances_def updates_def)
  then show "sealed settled c" if "ws_committed a" "sealed settled a"
    using that assms unfolding advances_def by blast
  show "ws_tw c = None" if "ws_tw a = None" using that assms unfolding advances_def by blast
  show "\<exists>t'. ws_tw c = Some t' \<and> accepted t' = accepted t" if a: "ws_tw a = Some t" for t
  proof -
    obtain t1 where "ws_tw b = Some t1" "accepted t1 = accepted t" using assms(1) a unfolding advances_def by blast
    then show ?thesis using assms(2) unfolding advances_def by metis
  qed
qed

lemma writers_advance_refl [simp]: "writers_advance accepted settled s s"
  unfolding writers_advance_def by (metis advances_refl)

lemma writers_advance_trans:
  assumes "writers_advance accepted settled a b" "writers_advance accepted settled b c"
  shows "writers_advance accepted settled a c"
  unfolding writers_advance_def
proof (intro conjI allI impI)
  show "sv_config c = sv_config a" "map_option cp_waits (sv_pool c) = map_option cp_waits (sv_pool a)"
    using assms by (auto simp: writers_advance_def)
  fix wid ws
  assume "map_of (sv_writers a) wid = Some ws"
  then obtain ws1 where 1: "map_of (sv_writers b) wid = Some ws1" "advances accepted settled ws ws1"
    using assms(1) unfolding writers_advance_def by blast
  then obtain ws2 where "map_of (sv_writers c) wid = Some ws2" "advances accepted settled ws1 ws2"
    using assms(2) unfolding writers_advance_def by blast
  then show "\<exists>ws'. map_of (sv_writers c) wid = Some ws' \<and> advances accepted settled ws ws'"
    using advances_trans[OF 1(2)] by blast
qed

lemma put_advances:
  assumes "map_of (sv_writers s) (ws_writerID ws) = Some ws" "advances accepted settled ws ws'"
  shows "writers_advance accepted settled s (put_writer ws' s)"
proof -
  have "ws_writerID ws' = ws_writerID ws" using assms(2) by (simp add: advances_def updates_def)
  then show ?thesis using assms unfolding writers_advance_def by (auto intro: advances_refl)
qed

lemma claim_advances:
  assumes "map_of (sv_writers s) (ws_writerID ws) = Some ws"
  shows "writers_advance accepted settled s (fst (finalizeAndDispatch ws s)) \<and>
     (\<forall>s' e. finalizeAndDispatch ws s = (s', e) \<longrightarrow> map_of (sv_writers s') (ws_writerID ws) = Some (ws\<lparr>ws_committed := True\<rparr>))"
proof (cases "ws_committed ws")
  case True
  then have "ws\<lparr>ws_committed := True\<rparr> = ws" by simp
  then show ?thesis using True assms by (auto simp: finalizeAndDispatch_def)
next
  case False
  have "advances accepted settled ws (ws\<lparr>ws_committed := True\<rparr>)"
    using False by (auto simp: advances_def updates_def sealed_def)
  note adv = put_advances[OF assms this]
  have pool: "writers_advance accepted settled s (put_writer (ws\<lparr>ws_committed := True\<rparr>) s\<lparr>sv_pool := Some p\<rparr>)"
    if "map_option cp_waits (sv_pool s) = Some (cp_waits p)" for p
    using adv that unfolding writers_advance_def by (auto simp del: fun_upd_apply)
  have waits: "cp_waits p' = cp_waits p" if "Dispatch j p = (p', None)" for j p p'
    using Dispatch_accepted[of j p] that by simp
  show ?thesis using False adv pool waits
    by (auto simp: finalizeAndDispatch_def Let_def split: option.splits prod.splits)
qed

context table_plane
begin

lemma close_advances:
  assumes "closeTableWriter pl ctxErr ws = (ws', r)" "writer_ok good settled ws"
  shows "advances accepted settled ws ws' \<and> (\<forall>files. r = Inr files \<longrightarrow> sealed settled ws')"
proof (cases "ws_tw ws")
  case None
  then show ?thesis using assms by (auto simp: closeTableWriter_def sealed_def)
next
  case (Some t)
  obtain t' r' where c: "pl_close pl ctxErr t = (t', r')" by (cases "pl_close pl ctxErr t")
  have t: "good t" using assms(2) Some by (simp add: writer_ok_def)
  note closed = close_settles[OF t c] close_updates[OF assms]
  have tw: "ws_tw ws' = Some t'" using assms(1) Some c by (auto simp: closeTableWriter_def split: sum.splits)
  have "sealed settled ws'" if s: "sealed settled ws"
  proof -
    have st: "settled t = Some (Inr (ws_files ws))" using s Some by (simp add: sealed_def)
    then have same: "settled t' = Some (Inr (ws_files ws))" using closed(1) by simp
    show ?thesis
    proof (cases r')
      case (Inl e)
      then have "ws_files ws' = ws_files ws" using assms(1) Some c by (auto simp: closeTableWriter_def)
      then show ?thesis using tw same by (simp add: sealed_def)
    next
      case (Inr files)
      then have "ws_files ws' = files" using assms(1) Some c by (auto simp: closeTableWriter_def)
      then show ?thesis using tw close_result_settled[OF t, of ctxErr t' files] c Inr by (simp add: sealed_def)
    qed
  qed
  moreover have "\<forall>files. r = Inr files \<longrightarrow> sealed settled ws'" using closed(2) by (simp add: sealed_def)
  ultimately show ?thesis using closed tw Some by (simp add: advances_def)
qed

lemma sweep_writer_facts:
  assumes inv: "session_inv may good settled s" and sw: "sweep_writer pl ctxErr wid (s, err) = (s', err')"
  shows "session_inv may good settled s' \<and> writers_advance accepted settled s s' \<and>
     (err \<noteq> None \<longrightarrow> err' \<noteq> None) \<and>
     (err' = None \<longrightarrow> (\<forall>ws. map_of (sv_writers s') wid = Some ws \<longrightarrow> ws_committed ws \<and> sealed settled ws))"
proof (cases "map_of (sv_writers s) wid")
  case None
  then show ?thesis using assms by (auto simp: sweep_writer_def)
next
  case (Some ws)
  obtain ws1 r where c: "closeTableWriter pl (ctxErr wid) ws = (ws1, r)" by (cases "closeTableWriter pl (ctxErr wid) ws")
  have ws: "ws_writerID ws = wid" "writer_ok good settled ws" using writer_at[OF inv Some] by auto
  note adv = close_advances[OF c ws(2)] and step = close_step_inv[OF inv Some c]
  have adv1: "writers_advance accepted settled s (put_writer ws1 s)"
    using put_advances[of s ws] Some ws(1) adv by blast
  have at: "map_of (sv_writers (put_writer ws1 s)) (ws_writerID ws1) = Some ws1" by simp
  show ?thesis
  proof (cases r)
    case (Inl e)
    then show ?thesis using sw Some c step adv1 by (auto simp: sweep_writer_def split: option.splits)
  next
    case (Inr files)
    let ?f = "finalizeAndDispatch ws1 (put_writer ws1 s)"
    have "s' = fst ?f" "err' = (case err of Some e \<Rightarrow> Some e | None \<Rightarrow> snd ?f)"
      using sw Some c Inr by (auto simp: sweep_writer_def split: prod.splits option.splits)
    moreover have "writers_advance accepted settled s (fst ?f)"
      using claim_advances[OF at, of accepted settled] adv1 writers_advance_trans by blast
    moreover have "map_of (sv_writers (fst ?f)) wid = Some (ws1\<lparr>ws_committed := True\<rparr>)"
      using claim_advances[OF at, of accepted settled] step by (metis prod.collapse)
    moreover have "sealed settled (ws1\<lparr>ws_committed := True\<rparr>)" using adv Inr by (simp add: sealed_def)
    moreover have "session_inv may good settled (fst ?f)" using claim_inv[OF _ at] step by blast
    ultimately show ?thesis by (auto split: option.splits)
  qed
qed

lemma sweep_fold:
  assumes "session_inv may good settled s" "fold (sweep_writer pl ctxErr) wids (s, err) = (s', err')"
  shows "session_inv may good settled s' \<and> writers_advance accepted settled s s' \<and> (err \<noteq> None \<longrightarrow> err' \<noteq> None) \<and>
     (err' = None \<longrightarrow> (\<forall>wid \<in> set wids. \<forall>ws. map_of (sv_writers s) wid = Some ws \<longrightarrow>
        (\<exists>ws'. map_of (sv_writers s') wid = Some ws' \<and> advances accepted settled ws ws' \<and>
           ws_committed ws' \<and> sealed settled ws')))"
  using assms
proof (induction wids arbitrary: s err)
  case (Cons wid wids)
  obtain s1 err1 where one: "sweep_writer pl ctxErr wid (s, err) = (s1, err1)"
    by (cases "sweep_writer pl ctxErr wid (s, err)")
  note f1 = sweep_writer_facts[OF Cons.prems(1) one]
  have inv1: "session_inv may good settled s1" using f1 by blast
  have rest: "fold (sweep_writer pl ctxErr) wids (s1, err1) = (s', err')" using Cons.prems(2) one by simp
  note f2 = Cons.IH[OF inv1 rest]
  have all: "writers_advance accepted settled s s'" using f1 f2 writers_advance_trans by blast
  have "\<exists>ws'. map_of (sv_writers s') w = Some ws' \<and> advances accepted settled ws ws' \<and> ws_committed ws' \<and> sealed settled ws'"
    if none: "err' = None" and w: "w \<in> set (wid # wids)" and ws: "map_of (sv_writers s) w = Some ws" for w ws
  proof -
    have err1: "err1 = None" using f2 none by blast
    obtain ws1 where ws1: "map_of (sv_writers s1) w = Some ws1" "advances accepted settled ws ws1"
      using f1 ws unfolding writers_advance_def by blast
    obtain ws2 where ws2: "map_of (sv_writers s') w = Some ws2" "advances accepted settled ws1 ws2"
      using f2 ws1(1) unfolding writers_advance_def by blast
    show ?thesis
    proof (cases "w = wid")
      case True
      then have "ws_committed ws1" "sealed settled ws1" using f1 err1 ws1(1) by blast+
      then have "ws_committed ws2" "sealed settled ws2" using ws2(2) by (auto simp: advances_def updates_def)
      then show ?thesis using ws2 advances_trans[OF ws1(2)] by blast
    next
      case False
      then obtain ws3 where "map_of (sv_writers s') w = Some ws3" "advances accepted settled ws1 ws3"
        "ws_committed ws3" "sealed settled ws3" using f2 none w ws1(1) by auto
      then show ?thesis using advances_trans[OF ws1(2)] by blast
    qed
  qed
  then show ?case using f1 f2 all by blast
qed (auto simp: fold_Nil)

text \<open>After a sweep without an error every writer is claimed, and sealed unless it was claimed and
  unsealed before.\<close>

lemma sweep_claims:
  assumes inv: "session_inv may good settled s" and none: "snd (sweep pl ctxErr s) = None"
    and ws: "map_of (sv_writers s) wid = Some ws" and "\<not> late settled ws"
  shows "\<exists>ws'. map_of (sv_writers (fst (sweep pl ctxErr s))) wid = Some ws' \<and> advances accepted settled ws ws' \<and>
     ws_committed ws' \<and> sealed settled ws'"
proof -
  have f: "fold (sweep_writer pl ctxErr) (sweep_list s) (s, None) = (fst (sweep pl ctxErr s), snd (sweep pl ctxErr s))"
    by (simp add: sweep_def)
  note facts = sweep_fold[OF inv f]
  show ?thesis
  proof (cases "ws_committed ws")
    case False
    have "(wid, ws) \<in> set (sv_writers s)" using ws by (rule map_of_SomeD)
    then have "wid \<in> set (sweep_list s)" using False by (force simp: sweep_list_def)
    then show ?thesis using facts none ws by blast
  next
    case True
    then have "sealed settled ws" using assms(4) by (simp add: late_def)
    then show ?thesis using facts ws True unfolding writers_advance_def advances_def updates_def by blast
  qed
qed

end

section \<open>A successful commit\<close>

lemma task_step_keeps: "task_step may p p' \<Longrightarrow> cp_accepted p' = cp_accepted p \<and> cp_waits p' = cp_waits p"
  by (erule task_step.cases) (simp_all add: set_phase_def)

lemma task_steps_keep:
  "(task_step may)\<^sup>*\<^sup>* p p' \<Longrightarrow> pool_inv may p \<Longrightarrow>
   pool_inv may p' \<and> cp_accepted p' = cp_accepted p \<and> cp_waits p' = cp_waits p"
  by (induction rule: rtranclp_induct) (auto simp: task_step_keeps intro: task_step_inv)

text \<open>A result of the pool answers an accepted job.\<close>

lemma result_has_job:
  assumes "pool_inv may p" "cp_waits p < 2 ^ 64" "r \<in> set (snd (Wait p))"
  shows "\<exists>j \<in> set (cp_accepted p). answers may j r"
proof -
  obtain js where js: "mset js + mset (waiting p) = mset (cp_accepted p)" "list_all2 (answers may) js (snd (Wait p))"
    using early_Wait[OF assms(1,2)] by blast
  obtain j where "j \<in> set js" "answers may j r" using list_all2_right[OF js(2) assms(3)] by blast
  moreover have "set js \<subseteq> set (cp_accepted p)" using js(1) by (metis Un_upper1 set_mset_mset set_mset_union)
  ultimately show ?thesis by blast
qed

lemma success_status:
  "allSuccess e trs \<Longrightarrow> t \<in> set trs \<Longrightarrow> tr_status t \<noteq> CommitFailed"
  by (simp add: allSuccess_def)

lemma success_seen:
  assumes "allSuccess e (table_results True writers results)" "(wid, ws) \<in> set writers" "ws_files ws \<noteq> []"
  shows "\<exists>r \<in> set results. cm_writerID r = wid \<and> cm_err r = None"
proof -
  have "wid \<in> set (map cm_writerID results)"
  proof (rule ccontr)
    assume "wid \<notin> set (map cm_writerID results)"
    then have "reconcile True ws \<in> set (table_results True writers results)"
      using assms(2) by (force simp: table_results_def)
    from success_status[OF assms(1) this] assms(3) show False by (simp add: reconcile_def)
  qed
  then obtain r where r: "r \<in> set results" "cm_writerID r = wid" by auto
  then have "table_result_of writers r \<in> set (table_results True writers results)" by (simp add: table_results_def)
  from success_status[OF assms(1) this] have "cm_err r = None"
    by (auto simp: table_result_of_def Let_def split: option.splits)
  with r show ?thesis by blast
qed

context table_plane
begin

lemma commit_sound:
  assumes inv: "session_inv may good settled s" and pool: "sv_pool s = Some p" "cp_waits p < 2 ^ 64"
    and names: "\<And>j r. may j r \<Longrightarrow> cm_writerID r = cj_writerID j"
    and commit: "Commit pl may ctxErr s s' resp" "cmr_success resp"
    and ws: "map_of (sv_writers s) wid = Some ws" "\<not> late settled ws" "ws_tw ws = Some t" "accepted t \<noteq> []"
  shows "\<exists>ws' t' p1 p2 r. map_of (sv_writers (fst (sweep pl ctxErr s))) wid = Some ws' \<and> updates ws ws' \<and>
     ws_tw ws' = Some t' \<and> good t' \<and> accepted t' = accepted t \<and> settled t' = Some (Inr (ws_files ws')) \<and>
     sv_pool (fst (sweep pl ctxErr s)) = Some p1 \<and> job_of (sv_config s) ws' \<in> set (cp_accepted p1) \<and> (task_step may)\<^sup>*\<^sup>* p1 p2 \<and>
     (s', resp) = finish_commit None (Some p2) (fst (sweep pl ctxErr s)) \<and> r \<in> set (snd (Wait p2)) \<and>
     may (job_of (sv_config s) ws') r \<and> cm_err r = None"
proof -
  define s1 where "s1 = fst (sweep pl ctxErr s)"
  have f: "fold (sweep_writer pl ctxErr) (sweep_list s) (s, None) = (s1, snd (sweep pl ctxErr s))"
    by (simp add: sweep_def s1_def)
  note facts = sweep_fold[OF inv f]
  obtain waited where run: "pool_run may (sv_pool s1) waited"
    and fin: "(s', resp) = finish_commit (snd (sweep pl ctxErr s)) waited s1"
    using commit(1) unfolding Commit_def s1_def by blast
  have "map_option cp_waits (sv_pool s1) = Some (cp_waits p)" using facts pool unfolding writers_advance_def by simp
  then obtain p1 where p1: "sv_pool s1 = Some p1" "cp_waits p1 < 2 ^ 64" using pool(2) by auto
  then obtain p2 where p2: "waited = Some p2" "(task_step may)\<^sup>*\<^sup>* p1 p2"
    using run by (auto simp: pool_run_def split: option.splits)
  have inv1: "session_inv may good settled s1" using facts by blast
  then have pinv: "pool_inv may p1" "jobs_ok (sv_config s1) (sv_writers s1) p1" using p1(1) by (auto simp: session_inv_def)
  note kept = task_steps_keep[OF p2(2) pinv(1)]
  have ok: "allSuccess (snd (sweep pl ctxErr s)) (table_results True (sv_writers s1) (snd (Wait p2)))"
    using fin commit(2) p1(1) p2(1) by (simp add: finish_commit_def Let_def)
  then have clean: "snd (sweep pl ctxErr s) = None" by (simp add: allSuccess_def)
  from sweep_claims[OF inv clean ws(1,2)] obtain ws' where ws': "map_of (sv_writers s1) wid = Some ws'"
    "advances accepted settled ws ws'" "ws_committed ws'" "sealed settled ws'" by (auto simp: s1_def)
  obtain t' where t': "ws_tw ws' = Some t'" "accepted t' = accepted t" using ws'(2) ws(3) by (auto simp: advances_def)
  have set': "settled t' = Some (Inr (ws_files ws'))" using ws'(4) t'(1) by (simp add: sealed_def)
  have good': "good t'" using writer_at[OF inv1 ws'(1)] t'(1) by (simp add: writer_ok_def)
  have "ws_files ws' \<noteq> []" using files_of_rows[OF good' set'] t'(2) ws(4) by simp
  from success_seen[OF ok map_of_SomeD[OF ws'(1)] this] obtain r where
    r: "r \<in> set (snd (Wait p2))" "cm_writerID r = wid" "cm_err r = None" by blast
  obtain j where j: "j \<in> set (cp_accepted p1)" "answers may j r"
    using result_has_job[of may p2 r] kept p1(2) r(1) by auto
  have may: "may j r" using j(2) r(3) by (auto simp: answers_def cancelled_result_def)
  from names[OF this] have "cj_writerID j = wid" using r(2) by simp
  then have "j = job_of (sv_config s1) ws'" using pinv(2) j(1) ws'(1) unfolding jobs_ok_def by force
  moreover have "sv_config s1 = sv_config s" using facts unfolding writers_advance_def by blast
  ultimately have job: "j = job_of (sv_config s) ws'" by simp
  have upd: "updates ws ws'" using ws'(2) by (simp add: advances_def)
  have fin': "(s', resp) = finish_commit None (Some p2) s1" using fin clean p2(1) by simp
  show ?thesis using ws'(1) upd t' good' set' p1(1) j(1) p2(2) fin' r(1,3) may unfolding job s1_def by blast
qed

end

section \<open>Sessions\<close>

inductive session_step :: "'t plane_ops \<Rightarrow> (commit_job \<Rightarrow> pool_result \<Rightarrow> bool) \<Rightarrow> 't server \<Rightarrow> 't server \<Rightarrow> bool"
  for pl may where
  opened: "session_step pl may s (fst (OpenWriter r s))"
| wrote: "session_step pl may s (fst (WriteChunk pl wid ck s))"
| closed: "session_step pl may s (fst (CloseWriter pl wid externalFiles ctxErr s))"
| worked: "sv_pool s = Some p \<Longrightarrow> task_step may p p' \<Longrightarrow> session_step pl may s (s\<lparr>sv_pool := Some p'\<rparr>)"
| committed: "Commit pl may ctxErrs s s' resp \<Longrightarrow> session_step pl may s s'"
| cancelled: "session_step pl may s (watchCancel pl s)"

lemma new_server_inv: "session_inv may good settled (new_server c lakekeeper)"
proof -
  have "cp_accepted (NewCommitPool 4 256) = []" by (simp add: NewCommitPool_def)
  then show ?thesis by (simp add: session_inv_def new_server_def writers_ok_def jobs_ok_def NewCommitPool_inv)
qed

lemma Wait_jobs: "jobs_ok c writers (fst (Wait p))"
  by (simp add: jobs_ok_def Wait_def)

lemma jobs_same: "cp_accepted p' = cp_accepted p \<Longrightarrow> jobs_ok c writers p' = jobs_ok c writers p"
  by (simp add: jobs_ok_def)

lemma map_of_map_pair: "map_of (map (\<lambda>(k, v). (k, f v)) m) k = map_option f (map_of m k)"
  by (induction m) auto

lemma keys_map_pair: "map fst (map (\<lambda>(k, v). (k, f v)) m) = map fst m"
  by (induction m) auto

lemma job_abort: "job_of c (abort_writer pl ws) = job_of c ws" "ws_committed (abort_writer pl ws) = ws_committed ws"
    "ws_files (abort_writer pl ws) = ws_files ws" "ws_writerID (abort_writer pl ws) = ws_writerID ws"
    "ws_bucket (abort_writer pl ws) = ws_bucket ws"
  by (simp_all add: job_of_def abort_writer_def)

lemma Cancel_inv: "pool_inv may p \<Longrightarrow> pool_inv may (Cancel p)"
  by (simp add: pool_inv_simps Cancel_def close_pool_def cancel_ctx_def waiting_def current_def)

lemma jobs_cancel:
  assumes "jobs_ok c writers p"
  shows "jobs_ok c (map (\<lambda>(wid, ws). (wid, abort_writer pl ws)) writers) (Cancel p)"
proof -
  have acc: "cp_accepted (Cancel p) = cp_accepted p" by (simp add: Cancel_def close_pool_def cancel_ctx_def)
  show ?thesis unfolding jobs_ok_def acc
  proof (intro conjI ballI)
    show "distinct (map cj_writerID (cp_accepted p))" using assms by (simp add: jobs_ok_def)
    fix j
    assume "j \<in> set (cp_accepted p)"
    then obtain ws where "map_of writers (cj_writerID j) = Some ws" "ws_committed ws" "ws_files ws \<noteq> []" "j = job_of c ws"
      using assms unfolding jobs_ok_def by blast
    then show "\<exists>w. map_of (map (\<lambda>(wid, ws). (wid, abort_writer pl ws)) writers) (cj_writerID j) = Some w \<and>
        ws_committed w \<and> ws_files w \<noteq> [] \<and> j = job_of c w"
      by (intro exI[of _ "abort_writer pl ws"]) (simp add: map_of_map_pair job_abort)
  qed
qed

context table_plane
begin

lemma abort_ok: "writer_ok good settled ws \<Longrightarrow> writer_ok good settled (abort_writer pl ws)"
  using abort_settles by (auto simp: writer_ok_def abort_writer_def)

lemma watchCancel_inv:
  assumes "session_inv may good settled s"
  shows "session_inv may good settled (watchCancel pl s)"
proof -
  have "writers_ok good settled (watchCancel pl s)"
    using assms abort_ok unfolding session_inv_def writers_ok_def
    by (auto simp: watchCancel_def map_of_map_pair keys_map_pair job_abort simp del: map_map)
  then show ?thesis using assms jobs_cancel Cancel_inv by (auto simp: session_inv_def watchCancel_def)
qed

lemma Commit_inv:
  assumes inv: "session_inv may good settled s" and commit: "Commit pl may ctxErrs s s' resp"
  shows "session_inv may good settled s'"
proof -
  obtain waited where run: "pool_run may (sv_pool (fst (sweep pl ctxErrs s))) waited"
    and fin: "s' = fst (finish_commit (snd (sweep pl ctxErrs s)) waited (fst (sweep pl ctxErrs s)))"
    using commit unfolding Commit_def by (metis fst_conv)
  have inv1: "session_inv may good settled (fst (sweep pl ctxErrs s))"
    using sweep_fold[OF inv, of ctxErrs "sweep_list s" None] by (metis sweep_def prod.collapse)
  have "pool_inv may p" if "waited = Some p" for p
    using run that inv1 task_steps_keep by (fastforce simp: pool_run_def session_inv_def split: option.splits)
  then show ?thesis using Wait_inv Wait_jobs by (auto simp: fin finish_commit_def Let_def session_inv_def writers_ok_def)
qed

lemma session_step_inv:
  assumes "session_step pl may s s'" "session_inv may good settled s"
  shows "session_inv may good settled s'"
  using assms(1)
proof cases
  case (opened r)
  then show ?thesis using OpenWriter_inv[OF assms(2)] by simp
next
  case (wrote wid ck)
  then show ?thesis using WriteChunk_inv[OF assms(2)] by simp
next
  case (closed wid ext ctxErr)
  then show ?thesis using CloseWriter_inv[OF assms(2)] by simp
next
  case (worked p p')
  have "pool_inv may p" "jobs_ok (sv_config s) (sv_writers s) p" "writers_ok good settled s"
    using assms(2) worked(2) by (auto simp: session_inv_def)
  moreover have "pool_inv may p'" using task_step_inv[OF worked(3)] calculation(1) by blast
  moreover have "cp_accepted p' = cp_accepted p" using task_step_keeps[OF worked(3)] by blast
  ultimately show ?thesis by (simp add: worked(1) session_inv_def jobs_same[of p' p])
next
  case (committed ctxErrs resp)
  then show ?thesis using Commit_inv[OF assms(2)] by blast
next
  case cancelled
  then show ?thesis using watchCancel_inv[OF assms(2)] by simp
qed

end

sublocale table_plane \<subseteq> session: invariant_system "\<lambda>s. \<exists>c lakekeeper. s = new_server c lakekeeper"
  "session_step pl may" "session_inv may good settled" for may
  by unfold_locales (use new_server_inv session_step_inv in blast)+

section \<open>The Go data plane\<close>

text \<open>The table writer of \<open>goplane/writer.go\<close> behind the interface, with its goroutine keeping up: a batch
  \<open>Write\<close> takes is processed before the next request. (Every other schedule of the goroutine delivers the
  same rows, or ends with an error: see the theory of its admission protocol.) The list of rows taken is
  kept for the statements.\<close>

record gowriter =
  go_cfg :: writer_config
  go_w :: twriter
  go_closing :: bool
  go_rows :: "row list"

definition go_write :: "io_env \<Rightarrow> row list \<Rightarrow> gowriter \<Rightarrow> gowriter \<times> string option" where
  "go_write env rows t =
     (if w_cause (go_w t) \<noteq> None then (t, Some (failure (go_w t)))
      else if go_closing t then (t, Some errClosed)
      else (t\<lparr>go_w := process_batch (go_cfg t) env rows (go_w t), go_rows := go_rows t @ rows\<rparr>, None))"

definition go_close :: "io_env \<Rightarrow> string option \<Rightarrow> gowriter \<Rightarrow> gowriter \<times> (string + written_file list)" where
  "go_close env ctxErr t =
     (let t' = (if go_closing t then t else t\<lparr>go_closing := True, go_w := finishLast (go_cfg t) env (go_w t)\<rparr>)
      in (t', (case ctxErr of Some e \<Rightarrow> Inl e | None \<Rightarrow> close_result (go_w t'))))"

definition go_abort :: "gowriter \<Rightarrow> gowriter" where
  "go_abort t =
     (if go_closing t then t
      else
        let w = cancel errAborted (cancel context_canceled (go_w t)) in
        t\<lparr>go_closing := True, go_w := fail (failure w) w\<rparr>)"

definition goplane :: "writer_config \<Rightarrow> io_env \<Rightarrow> gowriter plane_ops" where
  "goplane cfg env =
     \<lparr>pl_fresh = (\<lambda>base pre. \<lparr>go_cfg = cfg\<lparr>wc_dataPrefix := base, wc_filePrefix := pre\<rparr>, go_w = newWriter,
                             go_closing = False, go_rows = []\<rparr>),
      pl_write = go_write env, pl_close = go_close env, pl_abort = go_abort\<rparr>"

definition go_settled :: "gowriter \<Rightarrow> settling" where
  "go_settled t = (if go_closing t then Some (close_result (go_w t)) else None)"

definition go_good :: "writer_config \<Rightarrow> gowriter \<Rightarrow> bool" where
  "go_good cfg t \<longleftrightarrow> wc_part (go_cfg t) = wc_part cfg \<and>
     (w_err (go_w t) = None \<longrightarrow>
        (if go_closing t then delivered (go_cfg t) (go_rows t) (go_w t)
         else writer_inv (go_cfg t) (go_rows t) (go_w t)))"

lemma delivered_rows:
  assumes "delivered cfg rows w"
  shows "sum_list (map wf_rows (w_files w)) = int (length rows)"
proof -
  have "map wf_rows (w_files w) = map (\<lambda>(p, rs). int (length rs)) (w_store w)"
    using assms by (simp add: delivered_def)
  moreover have "length (concat (map snd (w_store w))) = length rows"
  proof (cases "wc_part cfg")
    case (Some fs)
    then have "mset (concat (map snd (w_store w))) = mset rows" using assms by (simp add: delivered_def)
    then show ?thesis by (metis size_mset)
  qed (use assms in \<open>simp add: delivered_def\<close>)
  moreover have "sum_list (map (\<lambda>(p, rs). int (length rs)) st) = int (length (concat (map snd st)))"
    for st :: "(string \<times> row list) list"
    by (induction st) auto
  ultimately show ?thesis by simp
qed

lemma go_write_taken:
  assumes "go_good cfg t" "go_write env rows t = (t', None)"
  shows "go_good cfg t' \<and> go_settled t = None \<and> go_settled t' = None \<and> go_rows t' = go_rows t @ rows"
proof -
  have t: "\<not> go_closing t" "t' = t\<lparr>go_w := process_batch (go_cfg t) env rows (go_w t), go_rows := go_rows t @ rows\<rparr>"
    using assms(2) by (auto simp: go_write_def split: if_splits)
  have "writer_inv (go_cfg t) (go_rows t @ rows) (process_batch (go_cfg t) env rows (go_w t))"
    if ok: "w_err (process_batch (go_cfg t) env rows (go_w t)) = None"
  proof -
    have "w_err (go_w t) = None" using ok process_sticky[of "go_w t" "go_cfg t" env rows] by fastforce
    then have "writer_inv (go_cfg t) (go_rows t) (go_w t)" using assms(1) t(1) by (simp add: go_good_def)
    from process_ok[OF this ok] show ?thesis .
  qed
  then show ?thesis using t assms(1) by (simp add: go_good_def go_settled_def)
qed

lemma go_close_good:
  assumes "go_good cfg t"
  shows "go_good cfg (fst (go_close env c t)) \<and> go_rows (fst (go_close env c t)) = go_rows t \<and> go_closing (fst (go_close env c t))"
proof (cases "go_closing t")
  case False
  have "delivered (go_cfg t) (go_rows t) (finishLast (go_cfg t) env (go_w t))"
    if ok: "w_err (finishLast (go_cfg t) env (go_w t)) = None"
  proof -
    have "w_err (go_w t) = None" using ok by (auto simp: finishLast_def check_lifetime_def Let_def split: if_splits)
    then have "writer_inv (go_cfg t) (go_rows t) (go_w t)" using assms False by (simp add: go_good_def)
    from finishLast_ok[OF this ok] show ?thesis .
  qed
  then show ?thesis using False assms by (simp add: go_close_def go_good_def Let_def)
qed (use assms in \<open>simp add: go_close_def Let_def\<close>)

interpretation goplane: table_plane "goplane cfg env" "go_good cfg" go_rows go_settled for cfg env
proof
  fix t t' :: gowriter and r c files and rows :: "row list" and e and base pre :: string
  show "go_good cfg (pl_fresh (goplane cfg env) base pre) \<and> go_rows (pl_fresh (goplane cfg env) base pre) = [] \<and>
      go_settled (pl_fresh (goplane cfg env) base pre) = None"
    by (simp add: goplane_def go_good_def go_settled_def newWriter_inv)
  show "go_good cfg t \<Longrightarrow> pl_write (goplane cfg env) rows t = (t', None) \<Longrightarrow>
      go_good cfg t' \<and> go_settled t = None \<and> go_settled t' = None \<and> go_rows t' = go_rows t @ rows"
    using go_write_taken[of cfg t env rows t'] by (simp add: goplane_def)
  show "go_good cfg t \<Longrightarrow> pl_write (goplane cfg env) rows t = (t', Some e) \<Longrightarrow>
      go_good cfg t' \<and> go_rows t' = go_rows t \<and> go_settled t' = go_settled t"
    by (auto simp: goplane_def go_write_def split: if_splits)
  show "go_good cfg t \<Longrightarrow> pl_close (goplane cfg env) c t = (t', r) \<Longrightarrow>
      go_good cfg t' \<and> go_rows t' = go_rows t \<and> go_settled t' \<noteq> None \<and> (go_settled t \<noteq> None \<longrightarrow> go_settled t' = go_settled t)"
    using go_close_good[of cfg t env c] by (auto simp: goplane_def go_close_def go_settled_def Let_def split: if_splits)
  show "go_good cfg t \<Longrightarrow> pl_close (goplane cfg env) c t = (t', Inr files) \<Longrightarrow> go_settled t' = Some (Inr files)"
    by (auto simp: goplane_def go_close_def go_settled_def Let_def split: option.splits)
  show "go_good cfg t \<Longrightarrow>
      go_good cfg (pl_abort (goplane cfg env) t) \<and> go_rows (pl_abort (goplane cfg env) t) = go_rows t \<and>
      go_settled (pl_abort (goplane cfg env) t) \<noteq> None \<and>
      (go_settled t \<noteq> None \<longrightarrow> go_settled (pl_abort (goplane cfg env) t) = go_settled t)"
    by (auto simp: goplane_def go_abort_def go_good_def go_settled_def Let_def)
  show "go_good cfg t \<Longrightarrow> go_settled t = Some (Inr files) \<Longrightarrow> sum_list (map wf_rows files) = int (length (go_rows t))"
    by (auto simp: go_good_def go_settled_def close_result_def delivered_rows split: if_splits option.splits)
qed

end
