(* ===== verification/Gateway_Delivery.thy ===== *)
theory Gateway_Delivery
  imports Gateway_Commit
begin

text \<open>
  The properties of a write session on the Go data plane: what a successful \<open>Commit\<close> means, that no writer
  is committed twice, the output fence, and the rows that are lost when a writer is closed before its
  first chunk.
\<close>

section \<open>Two sessions\<close>

text \<open>A component opens a writer, writes one row, closes the writer; the pool commits it.\<close>

definition demo_plane :: "gowriter plane_ops" where
  "demo_plane = goplane
     \<lparr>wc_dataPrefix = [], wc_filePrefix = [], wc_targetFileBytes = 100, wc_specID = 0, wc_part = None,
      wc_maxOpen = 1, wc_budget = 100\<rparr>
     demo_io"

definition demo_open :: open_request where
  "demo_open =
     \<lparr>or_bucket = [], or_table = ''orders'', or_format = ''csv'', or_formatErr = False, or_schema = None,
      or_outputErr = None, or_createErr = None, or_catalog = Inr ''s3://lake/orders/data/'', or_variantErr = None,
      or_overlayErr = None\<rparr>"

definition demo_chunk :: chunk where
  "demo_chunk =
     \<lparr>ck_parseErr = None, ck_transform = Inr [[None]], ck_inferred = True, ck_outputErr = None, ck_destErr = None,
      ck_acceptErr = None, ck_catalog = Inl ''unused'', ck_destErr2 = None, ck_acceptErr2 = None, ck_openErr = None,
      ck_cancelledMeanwhile = False, ck_normalizeErr = None, ck_typeErr = None\<rparr>"

definition demo_opened :: "gowriter server" where
  "demo_opened = fst (OpenWriter demo_open (new_server demo_gateway True))"

definition demo_written_session :: "gowriter server" where
  "demo_written_session = fst (WriteChunk demo_plane ''w1'' demo_chunk demo_opened)"

definition demo_closed :: "gowriter server" where
  "demo_closed = fst (CloseWriter demo_plane ''w1'' False None demo_written_session)"

definition demo_pool_closed :: pool where
  "demo_pool_closed = the (sv_pool demo_closed)"

definition demo_ws :: "gowriter writer_state" where
  "demo_ws = the (map_of (sv_writers demo_closed) ''w1'')"

definition demo_tw :: gowriter where
  "demo_tw = the (ws_tw demo_ws)"

definition demo_acquired :: pool where
  "demo_acquired = set_phase 0 Committing (demo_pool_closed\<lparr>cp_sem := Suc (cp_sem demo_pool_closed)\<rparr>)"

definition demo_answer :: pool_result where
  "demo_answer = run_result (\<lambda>s. s) (tk_job (cp_tasks demo_acquired ! 0)) None (Inr None)"

definition demo_recorded :: pool where
  "demo_recorded = set_phase 0 Recorded (record_result (tk_sid (cp_tasks demo_acquired ! 0)) demo_answer demo_acquired)"

lemma demo_session_facts:
  "sv_pool demo_closed \<noteq> None" "map_of (sv_writers demo_closed) ''w1'' \<noteq> None" "ws_tw demo_ws \<noteq> None"
  "go_rows demo_tw = [[None]]" "go_settled demo_tw = Some (Inr (ws_files demo_ws))" "sweep_list demo_closed = []"
  "cp_waits demo_pool_closed = 0" "length (cp_tasks demo_pool_closed) = 1"
  "tk_phase (cp_tasks demo_pool_closed ! 0) = Queued" "cp_sem demo_pool_closed = 0" "cp_workers demo_pool_closed = 4"
  "cmr_success (snd (finish_commit None (Some demo_recorded) demo_closed))"
  by code_simp+

lemma demo_closed_reachable:
  "(session_step demo_plane demo_may)\<^sup>*\<^sup>* (new_server demo_gateway True) demo_closed"
  unfolding demo_closed_def demo_written_session_def demo_opened_def
  by (meson session_step.opened session_step.wrote session_step.closed rtranclp.intros)

lemma demo_pool_run: "pool_run demo_may (sv_pool demo_closed) (Some demo_recorded)"
proof -
  have pool: "sv_pool demo_closed = Some demo_pool_closed" using demo_session_facts(1) by (simp add: demo_pool_closed_def)
  have "task_step demo_may demo_pool_closed demo_acquired"
    unfolding demo_acquired_def using demo_session_facts(8-11) by (intro task_step.acquire) simp_all
  moreover have "length (cp_tasks demo_acquired) = 1" "tk_phase (cp_tasks demo_acquired ! 0) = Committing"
    using demo_session_facts(8) by (simp_all add: demo_acquired_def set_phase_def)
  then have "task_step demo_may demo_acquired demo_recorded"
    unfolding demo_recorded_def by (intro task_step.commit) (simp_all add: demo_may_def demo_answer_def)
  ultimately show ?thesis by (auto simp: pool_run_def pool)
qed

lemma demo_commit:
  "Commit demo_plane demo_may (\<lambda>_. None) demo_closed
     (fst (finish_commit None (Some demo_recorded) demo_closed)) (snd (finish_commit None (Some demo_recorded) demo_closed))"
proof -
  have "sweep demo_plane (\<lambda>_. None) demo_closed = (demo_closed, None)"
    by (simp add: sweep_def demo_session_facts(6))
  then show ?thesis using demo_pool_run by (auto simp: Commit_def)
qed

lemma demo_writer:
  "map_of (sv_writers demo_closed) ''w1'' = Some demo_ws" "ws_tw demo_ws = Some demo_tw" "\<not> late go_settled demo_ws"
  using demo_session_facts(2,3,5) by (auto simp: demo_ws_def demo_tw_def late_def sealed_def)

text \<open>A component closes the writer before it writes to it: the writer is claimed without files, and still
  takes rows afterwards.\<close>

definition demo_late :: "gowriter server" where
  "demo_late = fst (WriteChunk demo_plane ''w1'' demo_chunk (fst (CloseWriter demo_plane ''w1'' False None demo_opened)))"

lemma demo_late_reachable: "(session_step demo_plane demo_may)\<^sup>*\<^sup>* (new_server demo_gateway True) demo_late"
  unfolding demo_late_def demo_opened_def
  by (meson session_step.opened session_step.wrote session_step.closed rtranclp.intros)

lemma demo_late_facts:
  "snd (WriteChunk demo_plane ''w1'' demo_chunk (fst (CloseWriter demo_plane ''w1'' False None demo_opened))) =
     Inr \<lparr>wr_rowsAccepted = 1, wr_limitReached = False\<rparr>"
  "sweep_list demo_late = []" "sv_pool demo_late \<noteq> None" "cp_accepted (the (sv_pool demo_late)) = []"
  "cmr_success (snd (finish_commit None (sv_pool demo_late) demo_late))"
  by code_simp+

section \<open>Properties\<close>

lemma go_session_inv:
  "(session_step (goplane cfg env) may)\<^sup>*\<^sup>* (new_server c lakekeeper) s \<Longrightarrow> session_inv may (go_good cfg) go_settled s"
  using goplane.session.reachable_inv[of "new_server c lakekeeper" cfg env may s] by blast

lemma settled_delivered:
  "go_good cfg t \<Longrightarrow> go_settled t = Some (Inr files) \<Longrightarrow> delivered cfg (go_rows t) (go_w t) \<and> w_files (go_w t) = files"
  by (auto simp: go_good_def go_settled_def close_result_def delivered_def split: if_splits option.splits)

text \<open>C1. A successful \<open>Commit\<close> means committed data: in every session the gateway can get into, when \<open>Commit\<close>
  reports success, look at any writer that took rows and at the session after the sweep of the same \<open>Commit\<close>. There the
  writer's own table writer has stored, under the paths of its files, every row it took - in order for an unpartitioned
  table, once each and by partition for a partitioned one; the job with exactly these paths, the writer's bucket and table
  and the configured mode is among the jobs the pool accepted; and among the results \<open>Commit\<close> waited for is one of this job
  without an error. This covers the writers \<open>Commit\<close> itself has to close, a \<open>Wait\<close> that returns early, full queues and
  cancellations, for the first \<open>2 ^ 64\<close> commits; the one exception are rows a writer took after it was closed (\<open>late\<close>).\<close>

theorem commit_success_delivers:
  assumes "(session_step (goplane cfg env) may)\<^sup>*\<^sup>* (new_server c lakekeeper) s"
    and "sv_pool s = Some p" "cp_waits p < 2 ^ 64" "\<And>j r. may j r \<Longrightarrow> cm_writerID r = cj_writerID j"
    and "Commit (goplane cfg env) may ctxErrs s s' resp" "cmr_success resp"
    and "map_of (sv_writers s) wid = Some ws" "\<not> late go_settled ws" "ws_tw ws = Some t" "go_rows t \<noteq> []"
  defines "swept \<equiv> fst (sweep (goplane cfg env) ctxErrs s)"
  shows "\<exists>ws' t' j p1 p2 r. map_of (sv_writers swept) wid = Some ws' \<and> ws_tw ws' = Some t' \<and> go_rows t' = go_rows t \<and>
     delivered cfg (go_rows t) (go_w t') \<and>
     cj_writerID j = wid \<and> cj_namespace j = ws_bucket ws \<and> cj_table j = ws_table ws \<and>
     cj_mode j = commit_mode (sv_config s) (ws_bucket ws) (ws_table ws) \<and> cj_dataPaths j = map fst (w_store (go_w t')) \<and>
     sv_pool swept = Some p1 \<and> j \<in> set (cp_accepted p1) \<and> (task_step may)\<^sup>*\<^sup>* p1 p2 \<and>
     (s', resp) = finish_commit None (Some p2) swept \<and> r \<in> set (snd (Wait p2)) \<and> may j r \<and> cm_err r = None"
proof -
  obtain ws' t' p1 p2 r where w: "map_of (sv_writers swept) wid = Some ws'" "updates ws ws'" "ws_tw ws' = Some t'" "go_good cfg t'"
      "go_rows t' = go_rows t" "go_settled t' = Some (Inr (ws_files ws'))"
    and run: "sv_pool swept = Some p1" "job_of (sv_config s) ws' \<in> set (cp_accepted p1)" "(task_step may)\<^sup>*\<^sup>* p1 p2"
      "(s', resp) = finish_commit None (Some p2) swept" "r \<in> set (snd (Wait p2))" "may (job_of (sv_config s) ws') r" "cm_err r = None"
    using goplane.commit_sound[OF go_session_inv[OF assms(1)] assms(2-10)] unfolding swept_def by blast
  have d: "delivered cfg (go_rows t) (go_w t')" "w_files (go_w t') = ws_files ws'"
    using settled_delivered[OF w(4,6)] w(5) by auto
  then have "cj_dataPaths (job_of (sv_config s) ws') = map fst (w_store (go_w t'))" by (simp add: delivered_def job_of_def)
  moreover have "ws_writerID ws = wid"
    using go_session_inv[OF assms(1)] assms(7) unfolding session_inv_def writers_ok_def by blast
  then have "cj_writerID (job_of (sv_config s) ws') = wid" "cj_namespace (job_of (sv_config s) ws') = ws_bucket ws"
    "cj_table (job_of (sv_config s) ws') = ws_table ws" "cj_mode (job_of (sv_config s) ws') = commit_mode (sv_config s) (ws_bucket ws) (ws_table ws)"
    using w(2) by (simp_all add: updates_def job_of_def)
  ultimately show ?thesis using w(1,3,5) d(1) run by blast
qed

text \<open>C33. No writer is committed twice: in every session the gateway can get into, the jobs the pool
  accepted since the last \<open>Commit\<close> belong to different writers, each of them claimed, and each job names
  exactly the files that writer produced.\<close>

theorem writer_dispatched_once:
  assumes "(session_step (goplane cfg env) may)\<^sup>*\<^sup>* (new_server c lakekeeper) s" "sv_pool s = Some p"
  shows "distinct (map cj_writerID (cp_accepted p)) \<and>
     (\<forall>j \<in> set (cp_accepted p). \<exists>ws. map_of (sv_writers s) (cj_writerID j) = Some ws \<and> ws_committed ws \<and>
        ws_files ws \<noteq> [] \<and> cj_dataPaths j = map wf_path (ws_files ws))"
proof -
  have jobs: "jobs_ok (sv_config s) (sv_writers s) p"
    using go_session_inv[OF assms(1)] assms(2) by (simp add: session_inv_def)
  have "cj_dataPaths (job_of c ws) = map wf_path (ws_files ws)" for c and ws :: "gowriter writer_state"
    by (simp add: job_of_def)
  then show ?thesis using jobs unfolding jobs_ok_def by metis
qed

text \<open>The output fence: every writer of every session the gateway can get into writes to a bucket the
  component declared as an output; with no output declared there is none in a preview run.\<close>

theorem writers_fenced:
  assumes "(session_step (goplane cfg env) may)\<^sup>*\<^sup>* (new_server c lakekeeper) s" "map_of (sv_writers s) wid = Some ws"
  shows "ws_bucket ws \<in> set (declaredOutputBuckets (sv_config s)) \<or>
     (declaredOutputBuckets (sv_config s) = [] \<and> gc_preview (sv_config s) = None)"
proof -
  have "declaredOutputBucket (sv_config s) (ws_bucket ws)"
    using go_session_inv[OF assms(1)] assms(2) unfolding session_inv_def writers_ok_def by blast
  then show ?thesis by (auto simp: declared_iff split: if_splits)
qed

lemmas demo_plane_run = demo_closed_reachable[unfolded demo_plane_def]

theorem commit_success_delivers_witness:
  "\<exists>ws' t' j r. map_of (sv_writers demo_closed) ''w1'' = Some ws' \<and> ws_tw ws' = Some t' \<and> demo_may j r \<and> cm_err r = None \<and>
     cj_table j = ''orders'' \<and> cj_dataPaths j = map fst (w_store (go_w t')) \<and> concat (map snd (w_store (go_w t'))) = [[None]]"
proof -
  let ?pl = "goplane \<lparr>wc_dataPrefix = [], wc_filePrefix = [], wc_targetFileBytes = 100, wc_specID = 0, wc_part = None, wc_maxOpen = 1, wc_budget = 100\<rparr> demo_io"
  have pool: "sv_pool demo_closed = Some demo_pool_closed" using demo_session_facts(1) by (simp add: demo_pool_closed_def)
  have waits: "cp_waits demo_pool_closed < 2 ^ 64" by (simp add: demo_session_facts(7))
  have names: "cm_writerID r = cj_writerID j" if "demo_may j r" for j r
    using that by (simp add: demo_may_def run_result_def empty_result_def Let_def)
  have swept: "fst (sweep ?pl (\<lambda>_. None) demo_closed) = demo_closed" by (simp add: sweep_def demo_session_facts(6))
  have rows: "go_rows demo_tw \<noteq> []" and tab: "ws_table demo_ws = ''orders''" using demo_session_facts(4) by simp code_simp
  obtain ws' t' j r where "map_of (sv_writers demo_closed) ''w1'' = Some ws'" "ws_tw ws' = Some t'" "demo_may j r" "cm_err r = None"
    "cj_table j = ws_table demo_ws" "cj_dataPaths j = map fst (w_store (go_w t'))"
    "delivered \<lparr>wc_dataPrefix = [], wc_filePrefix = [], wc_targetFileBytes = 100, wc_specID = 0, wc_part = None, wc_maxOpen = 1, wc_budget = 100\<rparr>
       (go_rows demo_tw) (go_w t')"
    using commit_success_delivers[OF demo_plane_run pool waits names demo_commit[unfolded demo_plane_def] demo_session_facts(12)
        demo_writer(1,3,2) rows, unfolded swept] by blast
  then show ?thesis using tab demo_session_facts(4) by (intro exI[of _ ws'] exI[of _ t'] exI[of _ j] exI[of _ r]) (simp add: delivered_def)
qed

theorem writer_dispatched_once_witness:
  "distinct (map cj_writerID (cp_accepted demo_pool_closed)) \<and> length (cp_accepted demo_pool_closed) = 1"
proof -
  have "sv_pool demo_closed = Some demo_pool_closed" using demo_session_facts(1) by (simp add: demo_pool_closed_def)
  moreover have "length (cp_accepted demo_pool_closed) = 1" by code_simp
  ultimately show ?thesis using writer_dispatched_once[OF demo_plane_run] by blast
qed

theorem writers_fenced_witness:
  "ws_bucket demo_ws \<in> set (declaredOutputBuckets (sv_config demo_closed)) \<or>
     (declaredOutputBuckets (sv_config demo_closed) = [] \<and> gc_preview (sv_config demo_closed) = None)"
  by (rule writers_fenced[OF demo_plane_run demo_writer(1)])

text \<open>Rows a writer takes after it was closed without any are lost in silence: the gateway reports the row as
  accepted and the \<open>Commit\<close> as successful, although no commit was ever dispatched.\<close>

theorem late_rows_lost:
  "(session_step demo_plane demo_may)\<^sup>*\<^sup>* (new_server demo_gateway True) demo_late \<and>
   snd (WriteChunk demo_plane ''w1'' demo_chunk (fst (CloseWriter demo_plane ''w1'' False None demo_opened))) =
     Inr \<lparr>wr_rowsAccepted = 1, wr_limitReached = False\<rparr> \<and>
   (\<exists>s' resp. Commit demo_plane demo_may (\<lambda>_. None) demo_late s' resp \<and> cmr_success resp) \<and>
   cp_accepted (the (sv_pool demo_late)) = []"
proof -
  have "sweep demo_plane (\<lambda>_. None) demo_late = (demo_late, None)" by (simp add: sweep_def demo_late_facts(2))
  moreover have "pool_run demo_may (sv_pool demo_late) (sv_pool demo_late)"
    using demo_late_facts(3) by (auto simp: pool_run_def)
  ultimately have "Commit demo_plane demo_may (\<lambda>_. None) demo_late
      (fst (finish_commit None (sv_pool demo_late) demo_late)) (snd (finish_commit None (sv_pool demo_late) demo_late))"
    by (auto simp: Commit_def)
  then show ?thesis using demo_late_reachable demo_late_facts by blast
qed

end
