(* ===== verification/Query_Params.thy ===== *)
theory Query_Params
  imports Prelude Complex_Main
begin

text \<open>
  Bound parameters of the query engine (\<open>components/queryengine/params.go\<close>): the scan of the SQL text for
  \<open>$name\<close> placeholders outside quotes and comments, the check of the parameters against them, the
  numeric rule, and the conversion to arguments of the database call.

  The scanner's index into the SQL text is represented by the text that is left. A parameter map is an
  association list. A float is its exact value with its rendering, or not finite.
\<close>

section \<open>Parameter values\<close>

datatype float_value = Finite rat string | NonFinite string

datatype param_value =
  PNil | PString string | PBool bool | PInt int | PInt32 int | PInt64 int | PFloat float_value
| PNumber string | POther string

datatype bind_value = BNull | BVarchar string | BBoolean bool | BBigint int | BDouble rat

definition maxNameLen :: nat where
  "maxNameLen = 64"

definition maxSafeInteger :: int where
  "maxSafeInteger = 9007199254740991"

section \<open>The scanner\<close>

definition isNameStart :: "char \<Rightarrow> bool" where
  "isNameStart c \<longleftrightarrow>
     (let n = (of_char c :: nat) in (97 \<le> n \<and> n \<le> 122) \<or> (65 \<le> n \<and> n \<le> 90) \<or> n = 95)"

definition isNameChar :: "char \<Rightarrow> bool" where
  "isNameChar c \<longleftrightarrow> isNameStart c \<or> is_digit c"

definition dollar :: char where
  "dollar = CHR ''$''"

text \<open>The text after the closing quote; \<open>q\<close> is the quote, already read.\<close>

fun skipQuoted :: "char \<Rightarrow> string \<Rightarrow> string" where
  "skipQuoted q [] = []"
| "skipQuoted q (c # cs) =
     (if c \<noteq> q then skipQuoted q cs
      else (case cs of [] \<Rightarrow> [] | d # ds \<Rightarrow> if d = q then skipQuoted q ds else cs))"

text \<open>Up to the newline, which is not consumed.\<close>

definition skipLineComment :: "string \<Rightarrow> string" where
  "skipLineComment cs = dropWhile (\<lambda>c. c \<noteq> CHR 0x0A) cs"

fun skipBlockComment :: "nat \<Rightarrow> string \<Rightarrow> string" where
  "skipBlockComment depth (c # d # ds) =
     (if c = CHR ''/'' \<and> d = CHR ''*'' then skipBlockComment (Suc depth) ds
      else if c = CHR ''*'' \<and> d = CHR ''/'' then
        (if depth = 1 then ds else skipBlockComment (depth - 1) ds)
      else skipBlockComment depth (d # ds))"
| "skipBlockComment depth _ = []"

definition skipDollarQuoted :: "string \<Rightarrow> string \<Rightarrow> string" where
  "skipDollarQuoted delim body =
     (case strings_Index body delim of None \<Rightarrow> [] | Some k \<Rightarrow> drop (k + length delim) body)"

text \<open>\<open>rest\<close> is the text after the dollar sign.\<close>

definition scanDollar :: "string \<Rightarrow> string \<times> string option" where
  "scanDollar rest =
     (let tag = takeWhile isNameChar rest;
          after = dropWhile isNameChar rest;
          validTag = (tag = [] \<or> isNameStart (hd tag))
      in if validTag \<and> after \<noteq> [] \<and> hd after = dollar then
           (skipDollarQuoted (dollar # tag @ [dollar]) (tl after), None)
         else if tag \<noteq> [] \<and> isNameStart (hd tag) then (after, Some tag)
         else (rest, None))"

lemma skipQuoted_length: "length (skipQuoted q cs) \<le> length cs"
proof (induction q cs rule: skipQuoted.induct)
  case (2 q c cs)
  show ?case
  proof (cases "c = q")
    case False
    then show ?thesis using 2(1) by (simp add: le_SucI)
  next
    case True
    then show ?thesis using 2(2) by (cases cs) (simp_all add: le_SucI)
  qed
qed simp

lemma skipLineComment_length: "length (skipLineComment cs) \<le> length cs"
  by (simp add: skipLineComment_def length_dropWhile_le)

lemma skipBlockComment_length: "length (skipBlockComment depth cs) \<le> length cs"
proof (induction depth cs rule: skipBlockComment.induct)
  case (1 depth c d ds)
  consider (nests) "c = CHR ''/'' \<and> d = CHR ''*''" | (closes) "c = CHR ''*'' \<and> d = CHR ''/''"
    | (other) "\<not> (c = CHR ''/'' \<and> d = CHR ''*'')" "\<not> (c = CHR ''*'' \<and> d = CHR ''/'')" by blast
  then show ?case
  proof cases
    case nests
    then show ?thesis using 1(1) by (simp add: le_SucI)
  next
    case closes
    then show ?thesis using 1(2) by (cases "depth = 1") (simp_all add: le_SucI)
  next
    case other
    then have "skipBlockComment depth (c # d # ds) = skipBlockComment depth (d # ds)" by (simp only: skipBlockComment.simps if_False)
    then show ?thesis using 1(3)[OF other] by (simp only: length_Cons)
  qed
qed simp_all

lemma skipDollarQuoted_length: "length (skipDollarQuoted delim body) \<le> length body"
  by (auto simp: skipDollarQuoted_def split: option.splits)

lemma scanDollar_length: "length (fst (scanDollar rest)) \<le> length rest"
proof -
  let ?after = "dropWhile isNameChar rest"
  have "length (skipDollarQuoted d (tl ?after)) \<le> length rest" for d
    using skipDollarQuoted_length[of d "tl ?after"] length_dropWhile_le[of isNameChar rest] by simp
  then show ?thesis by (auto simp: scanDollar_def Let_def length_dropWhile_le)
qed

lemma scan_decreases:
  "length (skipQuoted q cs) < Suc (length cs)"
  "cs \<noteq> [] \<Longrightarrow> length (skipLineComment (tl cs)) < Suc (length cs)"
  "cs \<noteq> [] \<Longrightarrow> length (skipBlockComment d (tl cs)) < Suc (length cs)"
  "scanDollar cs = (rest, r) \<Longrightarrow> length rest < Suc (length cs)"
  using skipQuoted_length[of q cs] skipLineComment_length[of "tl cs"] skipBlockComment_length[of d "tl cs"]
    scanDollar_length[of cs]
  by (auto simp: less_Suc_eq_le)

text \<open>The names of the placeholders of a text, in order.\<close>

function placeholders :: "string \<Rightarrow> string list" where
  "placeholders [] = []"
| "placeholders (c # cs) =
     (if c = CHR 0x27 \<or> c = CHR 0x22 then placeholders (skipQuoted c cs)
      else if c = CHR ''-'' \<and> cs \<noteq> [] \<and> hd cs = CHR ''-'' then placeholders (skipLineComment (tl cs))
      else if c = CHR ''/'' \<and> cs \<noteq> [] \<and> hd cs = CHR ''*'' then placeholders (skipBlockComment 1 (tl cs))
      else if c = dollar then
        (case scanDollar cs of
           (rest, None) \<Rightarrow> placeholders rest
         | (rest, Some name) \<Rightarrow> name # placeholders rest)
      else placeholders cs)"
  by pat_completeness auto

termination
  by (relation "measure length") (auto simp: scan_decreases dest: scan_decreases(4)[OF sym])

declare placeholders.simps [simp del]

section \<open>Numbers\<close>

definition rat_is_int :: "rat \<Rightarrow> bool" where
  "rat_is_int r \<longleftrightarrow> snd (quotient_of r) = 1"

definition validateNumber :: "rat \<Rightarrow> string \<Rightarrow> string option" where
  "validateNumber r display =
     (if \<not> rat_is_int r then None
      else if \<bar>r\<bar> > of_int maxSafeInteger then
        Some (''numeric value '' @ display @ '' exceeds MAX_SAFE_INTEGER ('' @ fmt_d maxSafeInteger @
          ''); pass it as a string with an explicit CAST'')
      else None)"

definition validateFloat :: "float_value \<Rightarrow> string option" where
  "validateFloat f =
     (case f of
        NonFinite s \<Rightarrow> Some (''invalid parameter value: '' @ s @ '' is not a finite number'')
      | Finite r s \<Rightarrow> validateNumber r s)"

text \<open>The grammar of a JSON number, read from the left.\<close>

definition digits_of :: "string \<Rightarrow> string" where
  "digits_of s = takeWhile is_digit s"

definition after_digits :: "string \<Rightarrow> string" where
  "after_digits s = dropWhile is_digit s"

definition strip_minus :: "string \<Rightarrow> string" where
  "strip_minus s = (if s \<noteq> [] \<and> hd s = CHR ''-'' then tl s else s)"

definition strip_sign :: "string \<Rightarrow> string" where
  "strip_sign s = (if s \<noteq> [] \<and> (hd s = CHR ''+'' \<or> hd s = CHR ''-'') then tl s else s)"

definition has_exponent :: "string \<Rightarrow> bool" where
  "has_exponent s \<longleftrightarrow> s \<noteq> [] \<and> (hd s = CHR ''e'' \<or> hd s = CHR ''E'')"

definition json_exponent_ok :: "string \<Rightarrow> bool" where
  "json_exponent_ok s =
     (if has_exponent s then
        (let t = strip_sign (tl s) in digits_of t \<noteq> [] \<and> after_digits t = [])
      else s = [])"

definition isJSONNumberLiteral :: "string \<Rightarrow> bool" where
  "isJSONNumberLiteral s =
     (let t = strip_minus s; ds = digits_of t; u = after_digits t in
      if ds = [] \<or> (length ds > 1 \<and> hd ds = CHR ''0'') then False
      else if u \<noteq> [] \<and> hd u = CHR ''.'' then
        (if digits_of (tl u) = [] then False else json_exponent_ok (after_digits (tl u)))
      else json_exponent_ok u)"

text \<open>\<open>big.Rat.SetString\<close> on a JSON number: the exact value; an exponent that does not fit into 64 bits,
  or that moves the decimal point of a number other than zero by more than a million places, is an
  error.\<close>

definition number_parts :: "string \<Rightarrow> bool \<times> string \<times> string \<times> string" where
  "number_parts s =
     (let t = strip_minus s; u = after_digits t;
          point = (u \<noteq> [] \<and> hd u = CHR ''.'');
          fr = (if point then digits_of (tl u) else []);
          e = (if point then after_digits (tl u) else u)
      in (t \<noteq> s, digits_of t, fr, (if has_exponent e then tl e else [])))"

definition exponent_value :: "string \<Rightarrow> int" where
  "exponent_value e = (if e \<noteq> [] \<and> hd e = CHR ''-'' then - int (digits_val 0 (tl e)) else int (digits_val 0 (strip_sign e)))"

definition rat_SetString :: "string \<Rightarrow> rat option" where
  "rat_SetString s =
     (case number_parts s of
        (neg, ds, fr, e) \<Rightarrow>
          let m = int (digits_val 0 (ds @ fr)); n = exponent_value e; k = n - int (length fr) in
          if n < - (2 ^ 63) \<or> n > max_int64 then None
          else if m = 0 then Some 0
          else if \<bar>k\<bar> > 1000000 then None
          else Some ((if neg then - of_int m else of_int m) * (if 0 \<le> k then 10 ^ nat k else 1 / 10 ^ nat (- k))))"

definition not_numeric :: "string \<Rightarrow> string" where
  "not_numeric s = ''invalid parameter type: json.Number('' @ fmt_q s @ '') is not numeric''"

definition validateJSONNumber :: "string \<Rightarrow> string option" where
  "validateJSONNumber s =
     (if \<not> isJSONNumberLiteral s then Some (not_numeric s)
      else (case rat_SetString s of None \<Rightarrow> Some (not_numeric s) | Some r \<Rightarrow> validateNumber r s))"

fun validateParamValue :: "param_value \<Rightarrow> string option" where
  "validateParamValue PNil = None"
| "validateParamValue (PString s) = None"
| "validateParamValue (PBool b) = None"
| "validateParamValue (PInt i) = validateNumber (of_int i) (fmt_d i)"
| "validateParamValue (PInt32 i) = validateNumber (of_int i) (fmt_d i)"
| "validateParamValue (PInt64 i) = validateNumber (of_int i) (fmt_d i)"
| "validateParamValue (PFloat f) = validateFloat f"
| "validateParamValue (PNumber s) = validateJSONNumber s"
| "validateParamValue (POther ty) = Some (''invalid parameter type: '' @ ty)"

section \<open>Binding\<close>

text \<open>Rounding to the nearest float is a parameter of the model.\<close>

definition bindRat :: "(rat \<Rightarrow> rat) \<Rightarrow> rat \<Rightarrow> string \<Rightarrow> string + bind_value" where
  "bindRat to_float r display =
     (case validateNumber r display of
        Some e \<Rightarrow> Inl e
      | None \<Rightarrow> if rat_is_int r then Inr (BBigint (fst (quotient_of r))) else Inr (BDouble (to_float r)))"

fun bindValue :: "(rat \<Rightarrow> rat) \<Rightarrow> param_value \<Rightarrow> string + bind_value" where
  "bindValue fl PNil = Inr BNull"
| "bindValue fl (PString s) = Inr (BVarchar s)"
| "bindValue fl (PBool b) = Inr (BBoolean b)"
| "bindValue fl (PInt i) = bindRat fl (of_int i) (fmt_d i)"
| "bindValue fl (PInt32 i) = bindRat fl (of_int i) (fmt_d i)"
| "bindValue fl (PInt64 i) = bindRat fl (of_int i) (fmt_d i)"
| "bindValue fl (PFloat f) =
     (case validateFloat f of
        Some e \<Rightarrow> Inl e
      | None \<Rightarrow> (case f of Finite r s \<Rightarrow> bindRat fl r s | NonFinite s \<Rightarrow> Inl s))"
| "bindValue fl (PNumber s) =
     (case validateJSONNumber s of
        Some e \<Rightarrow> Inl e
      | None \<Rightarrow> (case rat_SetString s of None \<Rightarrow> Inl (not_numeric s) | Some r \<Rightarrow> bindRat fl r s))"
| "bindValue fl (POther ty) = Inl (''invalid parameter type: '' @ ty)"

fun bind_names :: "(rat \<Rightarrow> rat) \<Rightarrow> param_value gomap \<Rightarrow> string list \<Rightarrow> string + (string \<times> bind_value) list" where
  "bind_names fl params [] = Inr []"
| "bind_names fl params (name # names) =
     (case bindValue fl (case map_of params name of None \<Rightarrow> PNil | Some v \<Rightarrow> v) of
        Inl e \<Rightarrow> Inl (''parameter '' @ fmt_q name @ '': '' @ e)
      | Inr v \<Rightarrow> (case bind_names fl params names of Inl e \<Rightarrow> Inl e | Inr vs \<Rightarrow> Inr ((name, v) # vs)))"

definition bindArgs :: "(rat \<Rightarrow> rat) \<Rightarrow> param_value gomap \<Rightarrow> string + (string \<times> bind_value) list" where
  "bindArgs fl params = bind_names fl params (sort (map fst params))"

section \<open>Validation\<close>

definition too_long :: "string \<Rightarrow> string" where
  "too_long name =
     ''placeholder name '' @ fmt_q (take maxNameLen name) @ [CHR 0xE2, CHR 0x80, CHR 0xA6] @ '' ('' @
     nat_str (length name) @ '' characters) exceeds the '' @ nat_str maxNameLen @ ''-character limit''"

text \<open>The distinct names in the order of their first occurrence, or the first name that is too long.\<close>

fun ordered_names :: "string list \<Rightarrow> string list \<Rightarrow> string + string list" where
  "ordered_names acc [] = Inr acc"
| "ordered_names acc (n # ns) =
     (if length n > maxNameLen then Inl (too_long n)
      else ordered_names (if n \<in> set acc then acc else acc @ [n]) ns)"

definition first_error :: "('a \<Rightarrow> string option) \<Rightarrow> 'a list \<Rightarrow> string option" where
  "first_error f xs = (case find (\<lambda>x. f x \<noteq> None) xs of None \<Rightarrow> None | Some x \<Rightarrow> f x)"

definition ValidateParams :: "string \<Rightarrow> param_value gomap \<Rightarrow> string + string list" where
  "ValidateParams sql params =
     (case ordered_names [] (placeholders sql) of
        Inl e \<Rightarrow> Inl e
      | Inr names \<Rightarrow>
          (case find (\<lambda>n. map_of params n = None) names of
             Some n \<Rightarrow> Inl (''missing required parameter '' @ fmt_q n)
           | None \<Rightarrow>
               (case find (\<lambda>(k, v). k \<notin> set names) params of
                  Some (k, v) \<Rightarrow> Inl (''unreferenced parameter '' @ fmt_q k)
                | None \<Rightarrow>
                    (case first_error (\<lambda>n. validateParamValue (the (map_of params n))) names of
                       Some e \<Rightarrow> Inl e
                     | None \<Rightarrow> Inr names))))"

section \<open>A reference lexer\<close>

text \<open>The SQL text as a sequence of tokens: what a reader of the dialect sees. \<open>Other\<close> is a character at which no
  other token starts. The conditions below look at a token and at what follows it, not at how a scanner finds it.\<close>

datatype sql_token =
  Quoted char string | LineComment string | BlockComment string | DollarQuoted string string
| Placeholder string | Other char

fun token_text :: "sql_token \<Rightarrow> string" where
  "token_text (Quoted q body) = q # body"
| "token_text (LineComment body) = ''--'' @ body"
| "token_text (BlockComment body) = ''/*'' @ body"
| "token_text (DollarQuoted tag body) = dollar # tag @ [dollar] @ body"
| "token_text (Placeholder name) = dollar # name"
| "token_text (Other c) = [c]"

text \<open>The body of a quoted string up to its end: no single quote inside, the closing one at the end unless
  the text ends.\<close>

fun quoted_body :: "char \<Rightarrow> string \<Rightarrow> bool \<Rightarrow> bool" where
  "quoted_body q [] at_end = at_end"
| "quoted_body q (c # cs) at_end =
     (if c \<noteq> q then quoted_body q cs at_end
      else (case cs of [] \<Rightarrow> True | d # ds \<Rightarrow> d = q \<and> quoted_body q ds at_end))"

text \<open>The body of a block comment read at nesting depth \<open>d\<close>: it ends where the outermost comment is closed, or with the text.\<close>

fun comment_body :: "nat \<Rightarrow> string \<Rightarrow> bool \<Rightarrow> bool" where
  "comment_body 0 cs at_end = (cs = [])"
| "comment_body (Suc d) (c # x # cs) at_end =
     (if c = CHR ''/'' \<and> x = CHR ''*'' then comment_body (Suc (Suc d)) cs at_end
      else if c = CHR ''*'' \<and> x = CHR ''/'' then comment_body d cs at_end
      else comment_body (Suc d) (x # cs) at_end)"
| "comment_body (Suc d) cs at_end = at_end"

text \<open>The body of a dollar-quoted string ends with the first occurrence of its delimiter, or with the text.\<close>

definition delimited_body :: "string \<Rightarrow> string \<Rightarrow> bool \<Rightarrow> bool" where
  "delimited_body delim body at_end \<longleftrightarrow>
     strings_HasSuffix body delim \<and> \<not> strings_Contains (butlast body) delim \<or> at_end \<and> \<not> strings_Contains body delim"

definition starts_with :: "(char \<Rightarrow> bool) \<Rightarrow> string \<Rightarrow> bool" where
  "starts_with P cs \<longleftrightarrow> cs \<noteq> [] \<and> P (hd cs)"

definition valid_name :: "string \<Rightarrow> bool" where
  "valid_name n \<longleftrightarrow> n \<noteq> [] \<and> isNameStart (hd n) \<and> list_all isNameChar n"

definition valid_tag :: "string \<Rightarrow> bool" where
  "valid_tag t \<longleftrightarrow> t = [] \<or> valid_name t"

text \<open>How a token may be followed by the rest of the text.\<close>

fun token_ok :: "sql_token \<Rightarrow> string \<Rightarrow> bool" where
  "token_ok (Quoted q body) rest \<longleftrightarrow>
     (q = CHR 0x27 \<or> q = CHR 0x22) \<and> quoted_body q body (rest = []) \<and>
     (body \<noteq> [] \<and> last body = q \<and> rest \<noteq> [] \<longrightarrow> hd rest \<noteq> q)"
| "token_ok (LineComment body) rest \<longleftrightarrow> CHR 0x0A \<notin> set body \<and> (rest \<noteq> [] \<longrightarrow> hd rest = CHR 0x0A)"
| "token_ok (BlockComment body) rest \<longleftrightarrow> comment_body 1 body (rest = [])"
| "token_ok (DollarQuoted tag body) rest \<longleftrightarrow> valid_tag tag \<and> delimited_body (dollar # tag @ [dollar]) body (rest = [])"
| "token_ok (Placeholder name) rest \<longleftrightarrow> valid_name name \<and> \<not> starts_with (\<lambda>c. isNameChar c \<or> c = dollar) rest"
| "token_ok (Other c) rest \<longleftrightarrow>
     c \<noteq> CHR 0x27 \<and> c \<noteq> CHR 0x22 \<and> \<not> (c = CHR ''-'' \<and> starts_with (\<lambda>x. x = CHR ''-'') rest) \<and>
     \<not> (c = CHR ''/'' \<and> starts_with (\<lambda>x. x = CHR ''*'') rest) \<and>
     \<not> (c = dollar \<and> starts_with (\<lambda>x. isNameStart x \<or> x = dollar) rest)"

fun tokens_ok :: "sql_token list \<Rightarrow> bool" where
  "tokens_ok [] = True"
| "tokens_ok (t # ts) \<longleftrightarrow> token_ok t (concat (map token_text ts)) \<and> tokens_ok ts"

definition token_names :: "sql_token list \<Rightarrow> string list" where
  "token_names ts = concat (map (\<lambda>t. case t of Placeholder n \<Rightarrow> [n] | _ \<Rightarrow> []) ts)"

lemma skipQuoted_split:
  "\<exists>body. cs = body @ skipQuoted q cs \<and> quoted_body q body (skipQuoted q cs = []) \<and>
     (body \<noteq> [] \<and> last body = q \<and> skipQuoted q cs \<noteq> [] \<longrightarrow> hd (skipQuoted q cs) \<noteq> q)"
proof (induction q cs rule: skipQuoted.induct)
  case (2 q c cs)
  show ?case
  proof (cases "c = q")
    case False
    then obtain body where "cs = body @ skipQuoted q cs" "quoted_body q body (skipQuoted q cs = [])"
      "body \<noteq> [] \<and> last body = q \<and> skipQuoted q cs \<noteq> [] \<longrightarrow> hd (skipQuoted q cs) \<noteq> q"
      using 2(1) by blast
    then show ?thesis using False by (intro exI[of _ "c # body"]) auto
  next
    case True
    show ?thesis
    proof (cases cs)
      case (Cons d ds)
      show ?thesis
      proof (cases "d = q")
        case True
        with \<open>c = q\<close> Cons obtain body where "ds = body @ skipQuoted q ds" "quoted_body q body (skipQuoted q ds = [])"
          "body \<noteq> [] \<and> last body = q \<and> skipQuoted q ds \<noteq> [] \<longrightarrow> hd (skipQuoted q ds) \<noteq> q"
          using 2(2) by blast
        moreover have "skipQuoted q ds = [] \<or> body \<noteq> []" if "quoted_body q body (skipQuoted q ds = [])" for body
          using that by (cases body) auto
        ultimately show ?thesis using True \<open>c = q\<close> Cons by (intro exI[of _ "q # q # body"]) auto
      qed (use \<open>c = q\<close> Cons in \<open>auto intro: exI[of _ "[q]"]\<close>)
    qed (use True in \<open>auto intro: exI[of _ "[q]"]\<close>)
  qed
qed simp

lemma skipLineComment_split:
  "cs = takeWhile (\<lambda>c. c \<noteq> CHR 0x0A) cs @ skipLineComment cs"
  "CHR 0x0A \<notin> set (takeWhile (\<lambda>c. c \<noteq> CHR 0x0A) cs)"
  "skipLineComment cs \<noteq> [] \<Longrightarrow> hd (skipLineComment cs) = CHR 0x0A"
  using hd_dropWhile[of "\<lambda>c. c \<noteq> CHR 0x0A" cs] by (auto simp: skipLineComment_def dest: set_takeWhileD)

lemma skipBlockComment_step:
  "skipBlockComment (Suc d) (c # x # cs) =
     (if c = CHR ''/'' \<and> x = CHR ''*'' then skipBlockComment (Suc (Suc d)) cs
      else if c = CHR ''*'' \<and> x = CHR ''/'' then (if d = 0 then cs else skipBlockComment d cs)
      else skipBlockComment (Suc d) (x # cs))"
  by (simp only: skipBlockComment.simps) simp

lemma skipBlockComment_split:
  "\<exists>body. cs = body @ skipBlockComment (Suc d) cs \<and> comment_body (Suc d) body (skipBlockComment (Suc d) cs = [])"
proof (induction "Suc d" cs arbitrary: d rule: skipBlockComment.induct)
  case (1 c x cs)
  consider (nests) "c = CHR ''/'' \<and> x = CHR ''*''" | (closes) "c = CHR ''*'' \<and> x = CHR ''/''"
    | (other) "\<not> (c = CHR ''/'' \<and> x = CHR ''*'')" "\<not> (c = CHR ''*'' \<and> x = CHR ''/'')" by blast
  then show ?case
  proof cases
    case nests
    obtain body where "cs = body @ skipBlockComment (Suc (Suc d)) cs"
      "comment_body (Suc (Suc d)) body (skipBlockComment (Suc (Suc d)) cs = [])" using 1(1)[OF nests] by blast
    then show ?thesis using nests by (intro exI[of _ "c # x # body"]) (simp add: skipBlockComment_step)
  next
    case closes
    show ?thesis
    proof (cases d)
      case 0
      then show ?thesis using closes by (intro exI[of _ "[c, x]"]) (simp add: skipBlockComment_step)
    next
      case (Suc n)
      obtain body where "cs = body @ skipBlockComment d cs" "comment_body d body (skipBlockComment d cs = [])"
        using 1(2) closes Suc by auto
      then show ?thesis using closes Suc by (intro exI[of _ "c # x # body"]) (simp add: skipBlockComment_step)
    qed
  next
    case other
    then have eq: "skipBlockComment (Suc d) (c # x # cs) = skipBlockComment (Suc d) (x # cs)"
      by (simp only: skipBlockComment_step if_False)
    obtain body where b: "x # cs = body @ skipBlockComment (Suc d) (x # cs)"
      "comment_body (Suc d) body (skipBlockComment (Suc d) (x # cs) = [])" using 1(3)[OF other] by blast
    have "comment_body (Suc d) (c # body) (skipBlockComment (Suc d) (x # cs) = [])"
    proof (cases body)
      case Nil
      then show ?thesis using b(2) by simp
    next
      case (Cons y ys)
      then have "y = x" using b(1) by simp
      then show ?thesis using Cons b(2) other by (simp only: comment_body.simps if_False)
    qed
    then show ?thesis unfolding eq using b(1) by (intro exI[of _ "c # body"]) (simp only: append_Cons)
  qed
qed simp_all

lemma skipBlockComment_body:
  "comment_body d body (rest = []) \<Longrightarrow> (if d = 0 then body = [] else skipBlockComment d (body @ rest) = rest)"
proof (induction d body "rest = []" rule: comment_body.induct)
  case (2 d c x cs)
  consider (nests) "c = CHR ''/'' \<and> x = CHR ''*''" | (closes) "c = CHR ''*'' \<and> x = CHR ''/''"
    | (other) "\<not> (c = CHR ''/'' \<and> x = CHR ''*'')" "\<not> (c = CHR ''*'' \<and> x = CHR ''/'')" by blast
  then show ?case
  proof cases
    case nests
    then show ?thesis using 2(1,4) by (simp add: skipBlockComment_step)
  next
    case closes
    then show ?thesis using 2(2,4) by (cases "d = 0") (simp_all add: skipBlockComment_step)
  next
    case other
    have "comment_body (Suc d) (x # cs) (rest = [])" using 2(4) other by (simp only: comment_body.simps if_False)
    from 2(3)[OF other this] show ?thesis using other by (simp only: append_Cons skipBlockComment_step if_False) simp
  qed
qed auto

lemma Index_found: "strings_Index s p = Some k \<Longrightarrow> take (length p) (drop k s) = p"
  by (induction s arbitrary: k) (auto simp: strings_HasPrefix_def split: if_splits)

lemma Contains_Cons: "strings_Contains cs p \<Longrightarrow> strings_Contains (c # cs) p"
  by (auto simp: strings_Contains_def)

lemma Contains_prefix:
  assumes "strings_HasPrefix (s @ r) p" "length p \<le> length s"
  shows "strings_Contains s p"
proof -
  have "strings_HasPrefix s p" using assms by (simp add: strings_HasPrefix_def)
  then show ?thesis by (cases s) (auto simp: strings_Contains_def strings_HasPrefix_def)
qed

text \<open>Reading up to the first occurrence of a delimiter, from both sides.\<close>

lemma Index_first_char:
  "p \<noteq> [] \<Longrightarrow> \<not> strings_Contains (butlast (u @ p)) p \<Longrightarrow> strings_Index (u @ p @ r) p = Some (length u)"
proof (induction u)
  case Nil
  then show ?case by (cases p) (auto simp: strings_HasPrefix_def)
next
  case (Cons c u)
  have b: "butlast ((c # u) @ p) = c # butlast (u @ p)" using Cons.prems(1) by simp
  have "\<not> strings_HasPrefix (c # u @ p @ r) p"
  proof
    assume "strings_HasPrefix (c # u @ p @ r) p"
    moreover have "c # u @ p @ r = (c # butlast (u @ p)) @ last p # r"
      using Cons.prems(1) by (metis append_Cons append_Nil append_assoc append_butlast_last_id append_is_Nil_conv last_appendR)
    ultimately have "strings_Contains (c # butlast (u @ p)) p" using Contains_prefix[of "c # butlast (u @ p)"] by simp
    then show False using Cons.prems(2) b by simp
  qed
  moreover have "\<not> strings_Contains (butlast (u @ p)) p" using Cons.prems(2) Contains_Cons b by metis
  ultimately show ?case using Cons.IH[OF Cons.prems(1)] by simp
qed

lemma Index_not_before: "strings_Index s p = Some k \<Longrightarrow> p \<noteq> [] \<Longrightarrow> \<not> strings_Contains (take (k + length p - 1) s) p"
proof (induction s arbitrary: k)
  case (Cons c s)
  show ?case
  proof (cases "strings_HasPrefix (c # s) p")
    case True
    then have k: "k = 0" using Cons.prems(1) by simp
    have "length q < length p \<Longrightarrow> strings_Index q p = None" for q
      using Cons.prems(2) by (induction q) (auto simp: strings_HasPrefix_def dest: arg_cong[where f = length])
    moreover have "length (take (k + length p - 1) (c # s)) < length p" using k Cons.prems(2) by (cases p) auto
    ultimately show ?thesis by (simp add: strings_Contains_def)
  next
    case False
    then obtain j where j: "k = Suc j" "strings_Index s p = Some j" using Cons.prems(1) by auto
    have n: "k + length p - 1 = Suc (j + length p - 1)" using j(1) Cons.prems(2) by (cases p) auto
    have "\<not> strings_HasPrefix (c # take (j + length p - 1) s) p"
    proof
      assume "strings_HasPrefix (c # take (j + length p - 1) s) p"
      then have "strings_HasPrefix (c # s) p"
        by (cases p) (auto simp: strings_HasPrefix_def take_Cons' min_def split: if_splits)
      then show False using False by simp
    qed
    then show ?thesis using Cons.IH[OF j(2) Cons.prems(2)] n by (simp add: strings_Contains_def)
  qed
qed simp

lemma skipDollarQuoted_split:
  assumes "delim \<noteq> []"
  shows "\<exists>inner. body = inner @ skipDollarQuoted delim body \<and> delimited_body delim inner (skipDollarQuoted delim body = [])"
proof (cases "strings_Index body delim")
  case (Some k)
  let ?inner = "take (k + length delim) body"
  have found: "take (length delim) (drop k body) = delim" using Index_found[OF Some] .
  then have inner: "?inner = take k body @ delim" by (metis take_add)
  then have "strings_HasSuffix ?inner delim" by (simp add: strings_HasSuffix_def)
  moreover have "k + length delim \<le> length body" using found assms by (metis length_take length_drop min.absorb_iff2 min.commute le_diff_conv2 linear diff_is_0_eq' length_0_conv min_0R add.commute)
  then have "butlast ?inner = take (k + length delim - 1) body" by (simp add: butlast_take)
  ultimately have "delimited_body delim ?inner e" for e
    using Index_not_before[OF Some assms] by (simp add: delimited_body_def)
  then show ?thesis using Some by (intro exI[of _ ?inner]) (simp add: skipDollarQuoted_def)
next
  case None
  then show ?thesis by (simp add: skipDollarQuoted_def delimited_body_def strings_Contains_def)
qed

lemma skipDollarQuoted_body:
  assumes "delim \<noteq> []" "delimited_body delim body (rest = [])"
  shows "skipDollarQuoted delim (body @ rest) = rest"
proof (cases "strings_HasSuffix body delim \<and> \<not> strings_Contains (butlast body) delim")
  case True
  then obtain u where "body = u @ delim" by (metis append_take_drop_id strings_HasSuffix_def)
  then show ?thesis using Index_first_char[OF assms(1), of u rest] True by (simp add: skipDollarQuoted_def)
next
  case False
  then have "rest = [] \<and> strings_Index body delim = None"
    using assms(2) unfolding delimited_body_def strings_Contains_def by blast
  then show ?thesis by (simp add: skipDollarQuoted_def)
qed

text \<open>What a dollar sign starts.\<close>

lemma scanDollar_token:
  assumes "scanDollar rest = (rest', r)"
  shows "(\<exists>t. token_text t @ rest' = dollar # rest \<and> token_ok t rest' \<and> token_names [t] = (case r of None \<Rightarrow> [] | Some n \<Rightarrow> [n]))"
proof -
  let ?tag = "takeWhile isNameChar rest" and ?after = "dropWhile isNameChar rest"
  have split: "rest = ?tag @ ?after" by simp
  have tag: "list_all isNameChar ?tag" by (auto simp: list_all_iff dest: set_takeWhileD)
  consider (quoted) "?tag = [] \<or> isNameStart (hd ?tag)" "?after \<noteq> [] \<and> hd ?after = dollar"
    | (name) "?tag \<noteq> []" "isNameStart (hd ?tag)" "\<not> (?after \<noteq> [] \<and> hd ?after = dollar)"
    | (neither) "\<not> (?tag \<noteq> [] \<and> isNameStart (hd ?tag))" "\<not> ((?tag = [] \<or> isNameStart (hd ?tag)) \<and> ?after \<noteq> [] \<and> hd ?after = dollar)"
    by blast
  then show ?thesis
  proof cases
    case quoted
    let ?delim = "dollar # ?tag @ [dollar]"
    have r: "rest' = skipDollarQuoted ?delim (tl ?after)" "r = None"
      using assms quoted by (auto simp: scanDollar_def Let_def)
    obtain inner where inner: "tl ?after = inner @ rest'" "delimited_body ?delim inner (rest' = [])"
      using skipDollarQuoted_split[of ?delim "tl ?after"] r(1) by auto
    have "?after = dollar # tl ?after" using quoted(2) by (metis list.collapse)
    then have "token_text (DollarQuoted ?tag inner) @ rest' = dollar # rest"
      using split inner(1) by (metis token_text.simps(4) append_Cons append_assoc append_Nil)
    moreover have "valid_tag ?tag" using quoted(1) tag by (auto simp: valid_tag_def valid_name_def)
    ultimately show ?thesis using inner(2) r(2)
      by (intro exI[of _ "DollarQuoted ?tag inner"]) (simp add: token_names_def)
  next
    case name
    have r: "rest' = ?after" "r = Some ?tag" using assms name by (auto simp: scanDollar_def Let_def)
    moreover have "\<not> starts_with (\<lambda>c. isNameChar c \<or> c = dollar) ?after"
      using name(3) hd_dropWhile[of isNameChar rest] unfolding starts_with_def by blast
    ultimately show ?thesis using name tag
      by (intro exI[of _ "Placeholder ?tag"]) (auto simp: token_names_def valid_name_def)
  next
    case neither
    then have r: "rest' = rest" "r = None" using assms by (auto simp: scanDollar_def Let_def)
    moreover have "\<not> starts_with (\<lambda>x. isNameStart x \<or> x = dollar) rest"
    proof (cases rest)
      case (Cons x xs)
      show ?thesis
      proof (cases "isNameChar x")
        case True
        then show ?thesis using neither(1) Cons by (auto simp: starts_with_def isNameChar_def isNameStart_def dollar_def is_digit_def)
      next
        case False
        then show ?thesis using neither(2) Cons by (auto simp: starts_with_def isNameChar_def)
      qed
    qed (simp add: starts_with_def)
    ultimately show ?thesis by (intro exI[of _ "Other dollar"]) (simp add: token_names_def dollar_def)
  qed
qed

lemma prepend_token:
  assumes "\<exists>ts. concat (map token_text ts) = rest \<and> tokens_ok ts \<and> token_names ts = names"
    and "token_text t @ rest = sql" "token_ok t rest"
  shows "\<exists>ts. concat (map token_text ts) = sql \<and> tokens_ok ts \<and> token_names ts = token_names [t] @ names"
proof -
  obtain ts where "concat (map token_text ts) = rest" "tokens_ok ts" "token_names ts = names" using assms(1) by blast
  then show ?thesis using assms(2,3) by (intro exI[of _ "t # ts"]) (simp add: token_names_def)
qed

lemma plain_names:
  "token_names [Quoted q body] = []" "token_names [LineComment body] = []" "token_names [BlockComment body] = []"
  "token_names [Other c] = []"
  by (simp_all add: token_names_def)

lemma placeholders_lexed:
  "\<exists>ts. concat (map token_text ts) = sql \<and> tokens_ok ts \<and> token_names ts = placeholders sql"
proof (induction sql rule: placeholders.induct)
  case 1
  show ?case by (intro exI[of _ "[]"]) (simp add: token_names_def placeholders.simps)
next
  case (2 c cs)
  let ?q = "c = CHR 0x27 \<or> c = CHR 0x22" and ?l = "c = CHR ''-'' \<and> cs \<noteq> [] \<and> hd cs = CHR ''-''"
    and ?b = "c = CHR ''/'' \<and> cs \<noteq> [] \<and> hd cs = CHR ''*''"
  show ?case
  proof (cases ?q)
    case True
    obtain body where body: "cs = body @ skipQuoted c cs" "quoted_body c body (skipQuoted c cs = [])"
      "body \<noteq> [] \<and> last body = c \<and> skipQuoted c cs \<noteq> [] \<longrightarrow> hd (skipQuoted c cs) \<noteq> c"
      using skipQuoted_split by blast
    have eq: "placeholders (c # cs) = placeholders (skipQuoted c cs)" using True by (simp only: placeholders.simps if_True)
    have a: "token_text (Quoted c body) @ skipQuoted c cs = c # cs" using body(1) by simp
    have b: "token_ok (Quoted c body) (skipQuoted c cs)" using True body(2,3) by (simp only: token_ok.simps)
    from prepend_token[OF 2(1)[OF True] a b] show ?thesis unfolding eq by (simp only: plain_names append_Nil)
  next
    case nq: False
    show ?thesis
    proof (cases ?l)
      case True
      let ?body = "takeWhile (\<lambda>c. c \<noteq> CHR 0x0A) (tl cs)"
      have eq: "placeholders (c # cs) = placeholders (skipLineComment (tl cs))"
        using True nq by (simp only: placeholders.simps if_True if_False simp_thms)
      have "cs = CHR ''-'' # tl cs" using True by (metis list.collapse)
      then have a: "token_text (LineComment ?body) @ skipLineComment (tl cs) = c # cs"
        using True skipLineComment_split(1)[of "tl cs"] by (metis token_text.simps(2) append_Cons append_Nil append_assoc)
      have b: "token_ok (LineComment ?body) (skipLineComment (tl cs))"
        using skipLineComment_split(2,3)[of "tl cs"] by (simp only: token_ok.simps) blast
      from prepend_token[OF 2(2)[OF nq True] a b] show ?thesis unfolding eq by (simp only: plain_names append_Nil)
    next
      case nl: False
      show ?thesis
      proof (cases ?b)
        case True
        obtain body where body: "tl cs = body @ skipBlockComment 1 (tl cs)" "comment_body 1 body (skipBlockComment 1 (tl cs) = [])"
          using skipBlockComment_split[of "tl cs" 0] by auto
        have eq: "placeholders (c # cs) = placeholders (skipBlockComment 1 (tl cs))"
          using True nq nl by (simp only: placeholders.simps if_True if_False simp_thms)
        have "cs = CHR ''*'' # tl cs" using True by (metis list.collapse)
        then have a: "token_text (BlockComment body) @ skipBlockComment 1 (tl cs) = c # cs"
          using True body(1) by (metis token_text.simps(3) append_Cons append_Nil append_assoc)
        have b: "token_ok (BlockComment body) (skipBlockComment 1 (tl cs))"
          using body(2) by (simp only: token_ok.simps)
        from prepend_token[OF 2(3)[OF nq nl True] a b] show ?thesis unfolding eq by (simp only: plain_names append_Nil)
      next
        case nb: False
        show ?thesis
        proof (cases "c = dollar")
          case True
          obtain rest r where d: "scanDollar cs = (rest, r)" by (cases "scanDollar cs")
          obtain t where t: "token_text t @ rest = dollar # cs" "token_ok t rest"
            "token_names [t] = (case r of None \<Rightarrow> [] | Some n \<Rightarrow> [n])" using scanDollar_token[OF d] by blast
          have eq: "placeholders (c # cs) = (case r of None \<Rightarrow> [] | Some n \<Rightarrow> [n]) @ placeholders rest"
            using True nq nl nb d by (simp only: placeholders.simps if_True if_False) (simp split: option.splits)
          have "\<exists>ts. concat (map token_text ts) = rest \<and> tokens_ok ts \<and> token_names ts = placeholders rest"
            using 2(4,5)[OF nq nl nb True d[symmetric]] by (cases r) auto
          from prepend_token[OF this t(1,2)] show ?thesis unfolding eq t(3)[symmetric] using True by simp
        next
          case False
          have eq: "placeholders (c # cs) = placeholders cs"
            using False nq nl nb by (simp only: placeholders.simps if_False)
          have a: "token_text (Other c) @ cs = c # cs" by simp
          have b: "token_ok (Other c) cs" using nq nl nb False unfolding token_ok.simps starts_with_def by blast
          from prepend_token[OF 2(6)[OF nq nl nb False] a b] show ?thesis unfolding eq by (simp only: plain_names append_Nil)
        qed
      qed
    qed
  qed
qed

text \<open>And the other way round: whatever well-formed token stands at the front, the scanner skips exactly it.\<close>

lemma skipQuoted_body:
  "quoted_body q body (rest = []) \<Longrightarrow> (body \<noteq> [] \<and> last body = q \<and> rest \<noteq> [] \<longrightarrow> hd rest \<noteq> q) \<Longrightarrow> skipQuoted q (body @ rest) = rest"
proof (induction q body "rest = []" rule: quoted_body.induct)
  case (2 q c cs)
  show ?case
  proof (cases "c = q")
    case False
    then have "quoted_body q cs (rest = [])" using 2(3) by simp
    moreover have "cs \<noteq> [] \<and> last cs = q \<and> rest \<noteq> [] \<longrightarrow> hd rest \<noteq> q" using 2(4) by auto
    ultimately show ?thesis using 2(1)[OF False] False by simp
  next
    case True
    show ?thesis
    proof (cases cs)
      case Nil
      then show ?thesis using True 2(4) by (cases rest) auto
    next
      case (Cons d ds)
      then have d: "d = q" "quoted_body q ds (rest = [])" using True 2(3) by auto
      have "ds \<noteq> [] \<and> last ds = q \<and> rest \<noteq> [] \<longrightarrow> hd rest \<noteq> q" using 2(4) Cons by auto
      then show ?thesis using 2(2)[OF _ Cons] True Cons d by simp
    qed
  qed
qed simp

lemma takeWhile_name:
  assumes "list_all isNameChar name" "\<not> starts_with isNameChar rest"
  shows "takeWhile isNameChar (name @ rest) = name" "dropWhile isNameChar (name @ rest) = rest"
  using assms by (cases rest; auto simp: starts_with_def list_all_iff takeWhile_append dropWhile_append)+

lemma dollar_no_name [simp]: "\<not> isNameChar dollar" "\<not> isNameStart dollar" "dollar \<noteq> CHR 0x27" "dollar \<noteq> CHR 0x22"
  "dollar \<noteq> CHR ''-''" "dollar \<noteq> CHR ''/''"
  by (simp_all add: isNameChar_def isNameStart_def dollar_def is_digit_def)

lemma scanned_dollar:
  "valid_tag tag \<Longrightarrow> delimited_body (dollar # tag @ [dollar]) body (rest = []) \<Longrightarrow> scanDollar (tag @ dollar # body @ rest) = (rest, None)"
  "valid_name name \<Longrightarrow> \<not> starts_with (\<lambda>c. isNameChar c \<or> c = dollar) rest \<Longrightarrow> scanDollar (name @ rest) = (rest, Some name)"
  "\<not> starts_with (\<lambda>x. isNameStart x \<or> x = dollar) rest \<Longrightarrow> scanDollar rest = (rest, None)"
proof -
  assume tag: "valid_tag tag" and body: "delimited_body (dollar # tag @ [dollar]) body (rest = [])"
  have "list_all isNameChar tag" using tag by (auto simp: valid_tag_def valid_name_def)
  then have w: "takeWhile isNameChar (tag @ dollar # body @ rest) = tag" "dropWhile isNameChar (tag @ dollar # body @ rest) = dollar # body @ rest"
    using takeWhile_name[of tag "dollar # body @ rest"] by (simp_all add: starts_with_def)
  show "scanDollar (tag @ dollar # body @ rest) = (rest, None)"
    using tag skipDollarQuoted_body[OF _ body] by (auto simp: scanDollar_def w valid_tag_def valid_name_def)
next
  assume name: "valid_name name" and rest: "\<not> starts_with (\<lambda>c. isNameChar c \<or> c = dollar) rest"
  have "\<not> starts_with isNameChar rest" using rest by (auto simp: starts_with_def)
  then have w: "takeWhile isNameChar (name @ rest) = name" "dropWhile isNameChar (name @ rest) = rest"
    using takeWhile_name[of name rest] name by (simp_all add: valid_name_def)
  show "scanDollar (name @ rest) = (rest, Some name)"
    using name rest by (auto simp: scanDollar_def w valid_name_def starts_with_def)
next
  assume rest: "\<not> starts_with (\<lambda>x. isNameStart x \<or> x = dollar) rest"
  then show "scanDollar rest = (rest, None)"
  proof (cases rest)
    case (Cons x xs)
    then show ?thesis using rest by (cases "isNameChar x") (auto simp: scanDollar_def starts_with_def)
  qed (simp add: scanDollar_def)
qed

lemma scanned_token:
  assumes "token_ok t rest"
  shows "placeholders (token_text t @ rest) = token_names [t] @ placeholders rest"
proof (cases t)
  case (Quoted q body)
  then show ?thesis using assms skipQuoted_body[of q body rest] by (simp add: placeholders.simps(2) token_names_def)
next
  case (LineComment body)
  have "skipLineComment (body @ rest) = rest"
    using assms LineComment by (cases rest) (auto simp: skipLineComment_def dropWhile_append)
  then show ?thesis using LineComment by (simp add: placeholders.simps(2) token_names_def)
next
  case (BlockComment body)
  have "skipBlockComment 1 (body @ rest) = rest" using assms BlockComment skipBlockComment_body[of 1 body rest] by simp
  then show ?thesis using BlockComment by (simp add: placeholders.simps(2) token_names_def)
next
  case (DollarQuoted tag body)
  then have "scanDollar (tag @ dollar # body @ rest) = (rest, None)" using assms scanned_dollar(1) by simp
  then show ?thesis using DollarQuoted by (simp add: placeholders.simps(2) token_names_def)
next
  case (Placeholder name)
  then have "scanDollar (name @ rest) = (rest, Some name)" using assms scanned_dollar(2) by simp
  then show ?thesis using Placeholder by (simp add: placeholders.simps(2) token_names_def)
next
  case (Other c)
  show ?thesis
  proof (cases "c = dollar")
    case True
    then have "scanDollar rest = (rest, None)" using assms Other scanned_dollar(3) by simp
    then show ?thesis using Other True by (simp add: placeholders.simps(2) token_names_def)
  next
    case False
    then show ?thesis using Other assms by (auto simp: placeholders.simps(2) token_names_def starts_with_def)
  qed
qed

lemma scanned_tokens: "tokens_ok ts \<Longrightarrow> placeholders (concat (map token_text ts)) = token_names ts"
proof (induction ts)
  case (Cons t ts)
  then show ?case using scanned_token[of t "concat (map token_text ts)"] by (simp add: token_names_def)
qed (simp add: placeholders.simps token_names_def)

section \<open>Validated parameters bind\<close>

lemma rat_is_int_of_int [simp]: "rat_is_int (of_int i)"
  by (simp add: rat_is_int_def)

lemma rat_is_int_value: "rat_is_int r \<Longrightarrow> of_int (fst (quotient_of r)) = r"
  by (cases "quotient_of r") (auto simp: rat_is_int_def dest: quotient_of_div)

text \<open>The number a parameter stands for.\<close>

fun number_of :: "param_value \<Rightarrow> rat option" where
  "number_of (PInt i) = Some (of_int i)"
| "number_of (PInt32 i) = Some (of_int i)"
| "number_of (PInt64 i) = Some (of_int i)"
| "number_of (PFloat (Finite r s)) = Some r"
| "number_of (PNumber s) = rat_SetString s"
| "number_of _ = None"

definition binds :: "(rat \<Rightarrow> rat) \<Rightarrow> param_value \<Rightarrow> bind_value \<Rightarrow> bool" where
  "binds fl v b \<longleftrightarrow>
     (case number_of v of
        Some r \<Rightarrow>
          if rat_is_int r then \<exists>n. b = BBigint n \<and> of_int n = r \<and> \<bar>n\<bar> \<le> maxSafeInteger
          else b = BDouble (fl r)
      | None \<Rightarrow> (v = PNil \<and> b = BNull) \<or> (\<exists>s. v = PString s \<and> b = BVarchar s) \<or> (\<exists>x. v = PBool x \<and> b = BBoolean x))"

lemma validate_bound:
  assumes "validateNumber r d = None" "rat_is_int r"
  shows "\<bar>fst (quotient_of r)\<bar> \<le> maxSafeInteger"
proof -
  have "\<bar>r\<bar> \<le> of_int maxSafeInteger" using assms by (simp add: validateNumber_def split: if_splits)
  then have "\<bar>(of_int (fst (quotient_of r)) :: rat)\<bar> \<le> of_int maxSafeInteger" by (simp add: rat_is_int_value[OF assms(2)])
  then show ?thesis by (simp only: of_int_abs[symmetric] of_int_le_iff)
qed

lemma bindRat_ok:
  assumes "validateNumber r d = None"
  shows "\<exists>b. bindRat fl r d = Inr b \<and>
     (if rat_is_int r then \<exists>n. b = BBigint n \<and> of_int n = r \<and> \<bar>n\<bar> \<le> maxSafeInteger else b = BDouble (fl r))"
  using assms validate_bound[OF assms] rat_is_int_value[of r] by (simp add: bindRat_def)

lemma bindValue_ok:
  assumes "validateParamValue v = None"
  shows "\<exists>b. bindValue fl v = Inr b \<and> binds fl v b"
proof (cases v)
  case (PFloat f)
  show ?thesis
  proof (cases f)
    case (Finite r d)
    then have "validateNumber r d = None" using assms PFloat by (simp add: validateFloat_def)
    from bindRat_ok[OF this, of fl] this show ?thesis using PFloat Finite by (auto simp: binds_def validateFloat_def)
  qed (use assms PFloat in \<open>simp add: validateFloat_def\<close>)
next
  case (PNumber s)
  then obtain r where r: "rat_SetString s = Some r" "validateNumber r s = None" "validateJSONNumber s = None"
    using assms by (auto simp: validateJSONNumber_def split: if_splits option.splits)
  from bindRat_ok[OF r(2), of fl] r show ?thesis using PNumber by (auto simp: binds_def)
next
  case (PInt i)
  then have "validateNumber (of_int i) (fmt_d i) = None" using assms by simp
  from bindRat_ok[OF this, of fl] show ?thesis using PInt by (auto simp: binds_def)
next
  case (PInt32 i)
  then have "validateNumber (of_int i) (fmt_d i) = None" using assms by simp
  from bindRat_ok[OF this, of fl] show ?thesis using PInt32 by (auto simp: binds_def)
next
  case (PInt64 i)
  then have "validateNumber (of_int i) (fmt_d i) = None" using assms by simp
  from bindRat_ok[OF this, of fl] show ?thesis using PInt64 by (auto simp: binds_def)
qed (use assms in \<open>auto simp: binds_def\<close>)

lemma bind_names_ok:
  assumes "\<forall>n \<in> set names. \<exists>v. map_of params n = Some v \<and> validateParamValue v = None"
  shows "\<exists>args. bind_names fl params names = Inr args \<and> map fst args = names \<and>
     (\<forall>(n, b) \<in> set args. \<exists>v. map_of params n = Some v \<and> binds fl v b)"
  using assms
proof (induction names)
  case (Cons n ns)
  then obtain v where v: "map_of params n = Some v" "validateParamValue v = None" by auto
  obtain b where b: "bindValue fl v = Inr b" "binds fl v b" using bindValue_ok[OF v(2)] by blast
  obtain args where "bind_names fl params ns = Inr args" "map fst args = ns"
    "\<forall>(n, b) \<in> set args. \<exists>v. map_of params n = Some v \<and> binds fl v b" using Cons by auto
  then show ?case using v b by auto
qed simp

lemma ordered_names_iff:
  "ordered_names acc ns = Inr names \<longleftrightarrow>
     (\<forall>n \<in> set ns. length n \<le> maxNameLen) \<and>
     names = foldl (\<lambda>acc n. if n \<in> set acc then acc else acc @ [n]) acc ns"
  by (induction ns arbitrary: acc) auto

lemma first_occurrences:
  "set (foldl (\<lambda>acc n. if n \<in> set acc then acc else acc @ [n]) acc ns) = set acc \<union> set ns \<and>
   (distinct acc \<longrightarrow> distinct (foldl (\<lambda>acc n. if n \<in> set acc then acc else acc @ [n]) acc ns))"
  by (induction ns arbitrary: acc) auto

lemma first_error_None: "first_error f xs = None \<longleftrightarrow> (\<forall>x \<in> set xs. f x = None)"
  by (auto simp: first_error_def find_None_iff find_Some_iff split: option.splits)

lemma ValidateParams_names:
  assumes "ValidateParams sql params = Inr names"
  shows "set names = set (placeholders sql) \<and> distinct names \<and> set names = fst ` set params \<and>
     (\<forall>n \<in> set names. length n \<le> maxNameLen \<and> (\<exists>v. map_of params n = Some v \<and> validateParamValue v = None))"
proof -
  have ord: "ordered_names [] (placeholders sql) = Inr names"
    and ref: "find (\<lambda>n. map_of params n = None) names = None" "find (\<lambda>(k, v). k \<notin> set names) params = None"
    and val: "first_error (\<lambda>n. validateParamValue (the (map_of params n))) names = None"
    using assms by (auto simp: ValidateParams_def split: sum.splits option.splits prod.splits)
  note f = first_occurrences[of "[]" "placeholders sql"]
  have names: "set names = set (placeholders sql)" "distinct names" "\<forall>n \<in> set names. length n \<le> maxNameLen"
    using ord f unfolding ordered_names_iff by auto
  have bound: "\<forall>n \<in> set names. \<exists>v. map_of params n = Some v" using ref(1) by (auto simp: find_None_iff)
  then have "set names \<subseteq> fst ` set params" by (metis map_of_SomeD image_eqI fst_conv subsetI)
  moreover have "fst ` set params \<subseteq> set names" using ref(2) by (auto simp: find_None_iff)
  ultimately show ?thesis using names bound val unfolding first_error_None by fastforce
qed

lemma ValidateParams_complete:
  assumes "fst ` set params = set (placeholders sql)" "\<forall>n \<in> set (placeholders sql). length n \<le> maxNameLen"
    and "\<forall>v \<in> snd ` set params. validateParamValue v = None"
  shows "\<exists>names. ValidateParams sql params = Inr names"
proof -
  obtain names where names: "ordered_names [] (placeholders sql) = Inr names" using assms(2) ordered_names_iff by blast
  then have set: "set names = fst ` set params" using first_occurrences[of "[]" "placeholders sql"] assms(1)
    by (simp add: ordered_names_iff)
  have bound: "\<exists>v. map_of params n = Some v \<and> validateParamValue v = None" if n: "n \<in> set names" for n
  proof -
    obtain v where "map_of params n = Some v" using set n by (metis map_of_eq_None_iff not_Some_eq)
    then show ?thesis using assms(3) by (metis map_of_SomeD image_eqI snd_conv)
  qed
  then have "find (\<lambda>n. map_of params n = None) names = None"
    "first_error (\<lambda>n. validateParamValue (the (map_of params n))) names = None"
    by (fastforce simp: find_None_iff first_error_None)+
  moreover have "find (\<lambda>(k, v). k \<notin> set names) params = None" using set by (force simp: find_None_iff)
  ultimately show ?thesis using names by (simp add: ValidateParams_def)
qed

section \<open>Properties\<close>

text \<open>C34. The scanner finds exactly the placeholders of the text: every SQL text can be read as a sequence of quoted
  strings, dollar-quoted strings, line comments, nested block comments, placeholders and characters at which none of
  these starts, and in whatever way it is read so, the placeholders of the sequence are, in order, the names the
  scanner returns.\<close>

theorem placeholders_are_lexed:
  "(\<exists>ts. concat (map token_text ts) = sql \<and> tokens_ok ts) \<and>
   (\<forall>ts. concat (map token_text ts) = sql \<and> tokens_ok ts \<longrightarrow> placeholders sql = token_names ts)"
  using placeholders_lexed scanned_tokens by blast

definition sample_sql :: "sql_token list" where
  "sample_sql = [Quoted CHR 0x27 (''$a'' @ [CHR 0x27]), Placeholder ''b'', BlockComment ''/*$c*/*/'', DollarQuoted ''t'' ''$d$t$'', Other CHR ''$'']"

theorem placeholders_are_lexed_witness: "placeholders (concat (map token_text sample_sql)) = [''b'']"
proof -
  have "tokens_ok sample_sql" by code_simp
  then have "placeholders (concat (map token_text sample_sql)) = token_names sample_sql" using placeholders_are_lexed by blast
  also have "\<dots> = [''b'']" by code_simp
  finally show ?thesis .
qed

text \<open>C35. Parameters that pass the validation can be bound, and nothing is lost on the way: the names
  returned are the distinct placeholders of the text, exactly the names of the parameters, none longer
  than 64 characters; binding succeeds with one argument per parameter, in sorted order; strings,
  booleans and null are passed as they are, an integral number as that integer, within the safe range,
  and any other number rounded to a double.\<close>

theorem validated_params_bind:
  assumes "ValidateParams sql params = Inr names"
  shows "set names = set (placeholders sql) \<and> distinct names \<and> set names = fst ` set params \<and>
     (\<forall>n \<in> set names. length n \<le> maxNameLen) \<and>
     (\<exists>args. bindArgs fl params = Inr args \<and> map fst args = sort (map fst params) \<and>
        (\<forall>(n, b) \<in> set args. \<exists>v. map_of params n = Some v \<and> binds fl v b))"
proof -
  note facts = ValidateParams_names[OF assms]
  have "\<forall>n \<in> set (sort (map fst params)). \<exists>v. map_of params n = Some v \<and> validateParamValue v = None"
    using facts by auto
  from bind_names_ok[OF this, of fl] show ?thesis using facts by (auto simp: bindArgs_def)
qed

lemma sample_scan: "placeholders ''$x'' = [''x'']"
  by (simp add: placeholders.simps scanDollar_def Let_def dollar_def isNameChar_def isNameStart_def is_digit_def)

lemma sample_params: "ValidateParams ''$x'' [(''x'', PBool True)] = Inr [''x'']"
  by (simp add: ValidateParams_def sample_scan maxNameLen_def first_error_def)

theorem validated_params_bind_witness:
  "ValidateParams ''$x'' [(''x'', PBool True)] = Inr [''x''] \<and>
   (\<exists>args. bindArgs id [(''x'', PBool True)] = Inr args \<and> map fst args = [''x''])"
proof (intro conjI)
  obtain args where "bindArgs id [(''x'', PBool True)] = Inr args" "map fst args = sort (map fst [(''x'', PBool True)])"
    using validated_params_bind[OF sample_params, of id] by blast
  moreover have "sort (map fst [(''x'', PBool True)]) = [''x'']" by simp
  ultimately show "\<exists>args. bindArgs id [(''x'', PBool True)] = Inr args \<and> map fst args = [''x'']" by metis
qed (rule sample_params)

end
