(* ===== verification/Storage_Paths.thy ===== *)
theory Storage_Paths
  imports Prelude "HOL-Library.Sublist"
begin

text \<open>
  Containment of storage paths in the warehouse (\<open>pkg/pipelineapi/storage/paths.go\<close>): lexical clean-up of
  local paths and URIs, the containment test, and the rejection of paths that lead through symbolic
  links. The file system is a parameter: what \<open>filepath.EvalSymlinks\<close> answers.
\<close>

section \<open>Cleaning\<close>

text \<open>\<open>path.Clean\<close> (and \<open>filepath.Clean\<close> on Unix): empty and dot segments are dropped, a dot-dot segment removes
  the segment before it, and is dropped at the start of a rooted path. The segments kept so far are
  held in reverse.\<close>

definition slash :: char where
  "slash = CHR ''/''"

definition clean_step :: "bool \<Rightarrow> string \<Rightarrow> string list \<Rightarrow> string list" where
  "clean_step rooted seg acc =
     (if seg = [] \<or> seg = ''.'' then acc
      else if seg = ''..'' then
        (case acc of
           [] \<Rightarrow> if rooted then [] else [''..'']
         | prev # below \<Rightarrow> if prev = ''..'' then ''..'' # acc else below)
      else seg # acc)"

definition clean_segments :: "bool \<Rightarrow> string list \<Rightarrow> string list" where
  "clean_segments rooted segs = rev (fold (clean_step rooted) segs [])"

definition is_rooted :: "string \<Rightarrow> bool" where
  "is_rooted p \<longleftrightarrow> p \<noteq> [] \<and> hd p = slash"

definition path_segments :: "string \<Rightarrow> string list" where
  "path_segments p = clean_segments (is_rooted p) (split_on slash p)"

definition path_Clean :: "string \<Rightarrow> string" where
  "path_Clean p =
     (let out = strings_Join (path_segments p) [slash] in
      if is_rooted p then slash # out else if out = [] then ''.'' else out)"

section \<open>Containment\<close>

definition hasScheme :: "string \<Rightarrow> bool" where
  "hasScheme p \<longleftrightarrow> (case strings_Index p ''://'' of None \<Rightarrow> False | Some i \<Rightarrow> 0 < i \<and> i < 8)"

definition normalizeURI :: "string \<Rightarrow> string" where
  "normalizeURI uri =
     (case strings_Index uri ''://'' of
        None \<Rightarrow> uri
      | Some schemeEnd \<Rightarrow>
          let pre = take (schemeEnd + 3) uri; rest = drop (schemeEnd + 3) uri in
          (case strings_Index rest ''/'' of
             None \<Rightarrow> uri
           | Some i \<Rightarrow>
               let cleaned = path_Clean (drop i rest) in
               if strings_HasPrefix cleaned ''..'' then uri else pre @ take i rest @ cleaned))"

definition normalize :: "string \<Rightarrow> string" where
  "normalize p = (if p = [] then [] else if hasScheme p then normalizeURI p else path_Clean p)"

definition ContainedUnder :: "string \<Rightarrow> string \<Rightarrow> bool" where
  "ContainedUnder root p =
     (if root = [] then False
      else
        let cleanRoot = normalize root; cleanPath = normalize p in
        if cleanRoot = [] then False
        else if cleanPath = [] then False
        else if cleanPath = cleanRoot then True
        else if cleanRoot = ''/'' then strings_HasPrefix cleanPath ''/''
        else strings_HasPrefix cleanPath (cleanRoot @ ''/''))"

section \<open>Symbolic links\<close>

text \<open>\<open>filepath.Split\<close>: up to and including the last slash, and the rest.\<close>

definition filepath_Split :: "string \<Rightarrow> string \<times> string" where
  "filepath_Split p =
     (let b = rev (takeWhile (\<lambda>c. c \<noteq> slash) (rev p)) in (take (length p - length b) p, b))"

text \<open>\<open>filepath.Dir\<close>.\<close>

definition filepath_Dir :: "string \<Rightarrow> string" where
  "filepath_Dir p = path_Clean (fst (filepath_Split p))"

datatype eval_result = Resolved string | NotExist | EvalError string

fun compare_reversed :: "string list \<Rightarrow> string list \<Rightarrow> string option" where
  "compare_reversed (c # cs) (r # rs) =
     (if c \<noteq> r then Some (''path traverses symlink: segment '' @ fmt_q c @ '' resolves to '' @ fmt_q r)
      else compare_reversed cs rs)"
| "compare_reversed _ _ = None"

subsection \<open>Lengths\<close>

definition seglen :: "string list \<Rightarrow> nat" where
  "seglen xs = sum_list (map (\<lambda>x. Suc (length x)) xs)"

lemma seglen_simps [simp]:
  "seglen [] = 0" "seglen (x # xs) = Suc (length x) + seglen xs" "seglen (xs @ ys) = seglen xs + seglen ys"
  "seglen (rev xs) = seglen xs" "seglen xs = 0 \<longleftrightarrow> xs = []"
  by (auto simp: seglen_def rev_map[symmetric] sum_list_rev)

lemma length_Join: "length (strings_Join xs [c]) = seglen xs - 1"
  by (induction xs "[c]" rule: strings_Join.induct) auto

lemma seglen_split: "seglen (split_on c s) = Suc (length s)"
  by (induction s) (auto split: list.splits)

lemma seglen_clean_step: "seglen (clean_step r seg acc) \<le> Suc (length seg) + seglen acc"
  by (auto simp: clean_step_def split: list.splits)

lemma seglen_fold: "seglen (fold (clean_step r) segs acc) \<le> seglen segs + seglen acc"
proof (induction segs arbitrary: acc)
  case (Cons x xs)
  show ?case using Cons[of "clean_step r x acc"] seglen_clean_step[of r x acc] by simp
qed simp

lemma split_rooted: "is_rooted p \<Longrightarrow> split_on slash p = [] # split_on slash (tl p)"
  by (cases p) (auto simp: is_rooted_def)

lemma seglen_segments: "seglen (path_segments p) \<le> (if is_rooted p then length p else Suc (length p))"
proof (cases "is_rooted p")
  case True
  then have "path_segments p = rev (fold (clean_step True) (split_on slash (tl p)) [])"
    by (simp add: path_segments_def clean_segments_def split_rooted clean_step_def)
  moreover have "p \<noteq> []" using True by (simp add: is_rooted_def)
  ultimately show ?thesis using True seglen_fold[of True "split_on slash (tl p)" "[]"] by (simp add: seglen_split)
next
  case False
  then show ?thesis using seglen_fold[of False "split_on slash p" "[]"]
    by (simp add: path_segments_def clean_segments_def seglen_split)
qed

lemma length_Clean: "p \<noteq> [] \<Longrightarrow> length (path_Clean p) \<le> length p"
proof -
  assume "p \<noteq> []"
  then have "1 \<le> length p" by (cases p) auto
  then show ?thesis using seglen_segments[of p]
    by (cases "is_rooted p") (simp_all add: path_Clean_def Let_def length_Join, linarith)
qed

lemma split_snoc: "split_on c (s @ [c]) = split_on c s @ [[]]"
  by (induction s) (auto split: list.splits simp: split_on_nonempty)

lemma Clean_trailing: "d \<noteq> [] \<Longrightarrow> path_Clean (d @ [slash]) = path_Clean d"
  by (simp add: path_Clean_def path_segments_def clean_segments_def split_snoc is_rooted_def clean_step_def)

lemma Split_parts: "filepath_Split p = (d, b) \<Longrightarrow> p = d @ b \<and> slash \<notin> set b \<and> (d \<noteq> [] \<longrightarrow> last d = slash)"
proof -
  assume split: "filepath_Split p = (d, b)"
  let ?tw = "takeWhile (\<lambda>c. c \<noteq> slash) (rev p)" and ?dw = "dropWhile (\<lambda>c. c \<noteq> slash) (rev p)"
  have p: "p = rev ?dw @ rev ?tw" by (metis rev_append rev_rev_ident takeWhile_dropWhile_id)
  have b: "b = rev ?tw" using split by (simp add: filepath_Split_def Let_def)
  have "d = take (length p - length (rev ?tw)) p" using split by (auto simp: filepath_Split_def Let_def)
  also have "\<dots> = rev ?dw" using p by (metis append_eq_conv_conj diff_add_inverse2 length_append)
  finally have d: "d = rev ?dw" .
  have "slash \<notin> set b" using b by (auto dest: set_takeWhileD)
  moreover have "last d = slash" if "d \<noteq> []"
    using that hd_dropWhile[of "\<lambda>c. c \<noteq> slash" "rev p"] d by (simp add: last_rev)
  ultimately show ?thesis using p b d by simp
qed

definition dir_size :: "string \<Rightarrow> nat" where
  "dir_size p = (if p = ''.'' then 0 else length p)"

text \<open>The directory of a path is smaller, until the root or the current directory is reached.\<close>

lemma Clean_dir_size:
  assumes "p = d @ b" "d \<noteq> [] \<longrightarrow> last d = slash" "p \<noteq> []" "p \<noteq> ''/''" "p \<noteq> ''.''" "path_Clean d \<noteq> p"
  shows "dir_size (path_Clean d) < dir_size p"
proof (cases "butlast d = []")
  case True
  then consider "d = []" | "d = [slash]" using assms(2) by (cases d) (auto split: if_splits)
  then show ?thesis
  proof cases
    case 1
    then show ?thesis using assms(3,5) by (simp add: dir_size_def path_Clean_def path_segments_def clean_segments_def
        clean_step_def is_rooted_def)
  next
    case 2
    then have "path_Clean d = ''/''"
      by (simp add: path_Clean_def path_segments_def clean_segments_def clean_step_def is_rooted_def slash_def)
    moreover have "length p > 1" using 2 assms(1,4) by (cases b) (auto simp: slash_def)
    ultimately show ?thesis using assms(5) by (simp add: dir_size_def)
  qed
next
  case False
  then have d: "d = butlast d @ [slash]" using assms(2) by (metis append_butlast_last_id butlast.simps(1))
  then have "path_Clean d = path_Clean (butlast d)" using Clean_trailing[OF False] by metis
  then have "length (path_Clean d) \<le> length (butlast d)" using length_Clean[OF False] by simp
  moreover have "length (butlast d) < length p" using assms(1) d False by (metis length_append_singleton length_append less_add_Suc1 add_Suc)
  ultimately show ?thesis using assms(5) by (auto simp: dir_size_def)
qed

subsection \<open>The segments of a path\<close>

lemma Clean_simple: "path_Clean [] = ''.''" "path_Clean ''/'' = ''/''" "path_Clean [slash] = ''/''"
  by (simp_all add: path_Clean_def path_segments_def clean_segments_def clean_step_def is_rooted_def slash_def)

lemma Split_simple: "filepath_Split [] = ([], [])" "filepath_Split ''/'' = (''/'', [])" "filepath_Split ''.'' = ([], ''.'')"
  by (simp_all add: filepath_Split_def slash_def)

lemma dir_decreases:
  assumes "filepath_Split p = (d, b)" "path_Clean d \<noteq> p" "path_Clean d \<noteq> ''/''" "path_Clean d \<noteq> ''.''"
  shows "dir_size (path_Clean d) < dir_size p"
proof -
  have "p \<noteq> []" "p \<noteq> ''/''" "p \<noteq> ''.''" using assms by (auto simp: Split_simple Clean_simple)
  then show ?thesis using Clean_dir_size[of p d b] Split_parts[OF assms(1)] assms(2) by blast
qed

text \<open>\<open>splitPath\<close>: one segment per turn of the loop, until the cleaned directory is the path itself, the root or
  the current directory.\<close>

function splitPath :: "string \<Rightarrow> string list" where
  "splitPath p =
     (case filepath_Split p of
        (d, b) \<Rightarrow>
          let cleaned = path_Clean d; last_seg = (if b \<noteq> [] then [b] else []) in
          if cleaned = p \<or> cleaned = ''/'' \<or> cleaned = ''.'' then last_seg
          else splitPath cleaned @ last_seg)"
  by pat_completeness auto

termination
  by (relation "measure dir_size") (auto intro: dir_decreases[OF sym])

declare splitPath.simps [simp del]

definition compareTailAligned :: "string \<Rightarrow> string \<Rightarrow> string option" where
  "compareTailAligned cleaned resolved = compare_reversed (rev (splitPath cleaned)) (rev (splitPath resolved))"

definition strings_TrimPrefix :: "string \<Rightarrow> string \<Rightarrow> string" where
  "strings_TrimPrefix s p = (if strings_HasPrefix s p then drop (length p) s else s)"

text \<open>The walk up to the deepest ancestor that exists.\<close>

function walk_up :: "(string \<Rightarrow> eval_result) \<Rightarrow> string \<Rightarrow> string \<Rightarrow> string option" where
  "walk_up ev cleaned ancestor =
     (if ancestor = [] \<or> ancestor = ''/'' \<or> ancestor = ''.'' then None
      else
        (case ev ancestor of
           Resolved r \<Rightarrow> compareTailAligned cleaned (r @ strings_TrimPrefix cleaned ancestor)
         | EvalError e \<Rightarrow> Some (''evalsymlinks '' @ fmt_q ancestor @ '': '' @ e)
         | NotExist \<Rightarrow>
             let parent = filepath_Dir ancestor in
             if parent = ancestor then None else walk_up ev cleaned parent))"
  by pat_completeness auto

termination
proof (relation "measure (\<lambda>(ev, cleaned, ancestor). dir_size ancestor)")
  fix ev :: "string \<Rightarrow> eval_result" and cleaned ancestor parent
  assume a: "\<not> (ancestor = [] \<or> ancestor = ''/'' \<or> ancestor = ''.'')" "parent = filepath_Dir ancestor" "parent \<noteq> ancestor"
  obtain d b where split: "filepath_Split ancestor = (d, b)" by (cases "filepath_Split ancestor")
  then have "dir_size (path_Clean d) < dir_size ancestor"
    using Clean_dir_size[of ancestor d b] Split_parts[OF split] a by (simp add: filepath_Dir_def)
  then show "((ev, cleaned, parent), (ev, cleaned, ancestor)) \<in> measure (\<lambda>(ev, cleaned, ancestor). dir_size ancestor)"
    using a(2) split by (simp add: filepath_Dir_def)
qed simp

declare walk_up.simps [simp del]

definition RejectSymlinks :: "(string \<Rightarrow> eval_result) \<Rightarrow> string \<Rightarrow> string option" where
  "RejectSymlinks ev p =
     (if \<not> is_rooted p then Some (''RejectSymlinks: '' @ fmt_q p @ '' is not absolute'')
      else
        let cleaned = path_Clean p in
        (case ev cleaned of
           Resolved r \<Rightarrow> compareTailAligned cleaned r
         | EvalError e \<Rightarrow> Some (''evalsymlinks '' @ fmt_q cleaned @ '': '' @ e)
         | NotExist \<Rightarrow> walk_up ev cleaned (filepath_Dir cleaned)))"

section \<open>Containment is a matter of segments\<close>

definition plain_segment :: "string \<Rightarrow> bool" where
  "plain_segment x \<longleftrightarrow> x \<noteq> [] \<and> x \<noteq> ''.'' \<and> x \<noteq> ''..'' \<and> slash \<notin> set x"

lemma clean_step_plain:
  "\<forall>x \<in> set acc. plain_segment x \<Longrightarrow> slash \<notin> set seg \<Longrightarrow> \<forall>x \<in> set (clean_step True seg acc). plain_segment x"
  by (cases acc) (simp_all add: clean_step_def plain_segment_def)

lemma fold_plain:
  "\<forall>x \<in> set acc. plain_segment x \<Longrightarrow> \<forall>x \<in> set segs. slash \<notin> set x \<Longrightarrow>
   \<forall>x \<in> set (fold (clean_step True) segs acc). plain_segment x"
proof (induction segs arbitrary: acc)
  case (Cons a segs)
  show ?case using Cons.IH[OF clean_step_plain[OF Cons.prems(1), of a]] Cons.prems(2) by simp
qed simp

lemma rooted_segments_plain: "is_rooted p \<Longrightarrow> x \<in> set (path_segments p) \<Longrightarrow> plain_segment x"
  using fold_plain[of "[]" "split_on slash p"] split_on_no_sep
  by (auto simp: path_segments_def clean_segments_def)

definition render :: "string list \<Rightarrow> string" where
  "render xs = concat (map (\<lambda>x. slash # x) xs)"

lemma render_simps [simp]: "render [] = []" "render (x # xs) = slash # x @ render xs"
  by (simp_all add: render_def)

lemma Join_render: "xs \<noteq> [] \<Longrightarrow> slash # strings_Join xs [slash] = render xs"
  by (induction xs "[slash]" rule: strings_Join.induct) auto

lemma Clean_rooted: "is_rooted p \<Longrightarrow> path_Clean p = (if path_segments p = [] then [slash] else render (path_segments p))"
  by (auto simp: path_Clean_def Let_def Join_render)

lemma no_sep_split:
  assumes "c \<notin> set x" "c \<notin> set y" "x @ c # u = y @ v" "v = [] \<or> hd v = c"
  shows "x = y \<and> v = c # u"
proof -
  have stop: "takeWhile (\<lambda>d. d \<noteq> c) (s @ w) = s" if "c \<notin> set s" "w = [] \<or> hd w = c" for s w
  proof -
    have "\<And>d. d \<in> set s \<Longrightarrow> d \<noteq> c" using that(1) by metis
    then have "takeWhile (\<lambda>d. d \<noteq> c) (s @ w) = s @ takeWhile (\<lambda>d. d \<noteq> c) w" by (rule takeWhile_append2)
    then show ?thesis using that(2) by (cases w) simp_all
  qed
  have "takeWhile (\<lambda>d. d \<noteq> c) (x @ c # u) = x" using assms(1) by (simp add: stop)
  moreover have "takeWhile (\<lambda>d. d \<noteq> c) (y @ v) = y" using assms(2,4) by (rule stop)
  ultimately have "x = y" using assms(3) by simp
  then show ?thesis using assms(3) by simp
qed

lemma render_start: "render xs = [] \<or> hd (render xs) = slash"
  by (cases xs) auto

lemma render_prefix:
  assumes "\<forall>x \<in> set xs. slash \<notin> set x" "\<forall>y \<in> set ys. slash \<notin> set y"
  shows "prefix (render xs @ [slash]) (render ys) \<longleftrightarrow> (\<exists>zs. ys = xs @ zs \<and> zs \<noteq> [])"
  using assms
proof (induction xs arbitrary: ys)
  case Nil
  then show ?case by (cases ys) auto
next
  case (Cons x xs)
  show ?case
  proof (cases ys)
    case (Cons y ys')
    have noslash: "slash \<notin> set x" "slash \<notin> set y" using Cons Cons.prems by auto
    note IH = Cons.IH[of ys']
    have "prefix (render (x # xs) @ [slash]) (render ys) \<longleftrightarrow> x = y \<and> prefix (render xs @ [slash]) (render ys')"
    proof
      assume "prefix (render (x # xs) @ [slash]) (render ys)"
      then obtain w where w: "x @ render xs @ slash # w = y @ render ys'" using Cons by (auto simp: prefix_def)
      obtain u where u: "render xs @ slash # w = slash # u" by (cases xs) auto
      have "x = y \<and> render ys' = slash # u" using no_sep_split[OF noslash _ render_start] w u by metis
      then show "x = y \<and> prefix (render xs @ [slash]) (render ys')" using u by (simp add: prefix_def) (metis)
    qed (use Cons in auto)
    then show ?thesis using IH Cons Cons.prems by auto
  qed auto
qed

lemma render_inject:
  assumes "\<forall>x \<in> set xs. slash \<notin> set x" "\<forall>y \<in> set ys. slash \<notin> set y" "render xs = render ys"
  shows "xs = ys"
proof -
  have extend: "render (zs @ [[]]) = render zs @ [slash]" for zs by (simp add: render_def)
  obtain us vs where split: "ys @ [[]] = xs @ us" "us \<noteq> []" "xs @ [[]] = ys @ vs" "vs \<noteq> []"
    using render_prefix[of xs "ys @ [[]]"] render_prefix[of ys "xs @ [[]]"] assms by (auto simp: extend)
  have "Suc (length ys) = length xs + length us" "Suc (length xs) = length ys + length vs"
    using arg_cong[OF split(1), of length] arg_cong[OF split(3), of length] by simp_all
  moreover have "0 < length us" "0 < length vs" using split by simp_all
  ultimately have "length xs = length ys" by linarith
  then show ?thesis using split(1) by simp
qed

lemma HasPrefix_prefix: "strings_HasPrefix s p \<longleftrightarrow> prefix p s"
  by (metis strings_HasPrefix_def append_take_drop_id prefixI prefix_def append_eq_conv_conj)

text \<open>What the containment test comes down to once both paths are cleaned.\<close>

lemma rendered_containment:
  assumes "is_rooted r" "is_rooted p"
  shows "path_Clean p = path_Clean r \<or> path_segments r \<noteq> [] \<and> prefix (path_Clean r @ ''/'') (path_Clean p) \<longleftrightarrow>
     (if path_segments r = [] then path_segments p = [] else prefix (path_segments r) (path_segments p))"
proof -
  have plain: "\<forall>x \<in> set (path_segments r). slash \<notin> set x" "\<forall>x \<in> set (path_segments p). slash \<notin> set x"
    "[] \<notin> set (path_segments r)" "[] \<notin> set (path_segments p)"
    using rooted_segments_plain assms by (auto simp: plain_segment_def)
  have eq: "path_Clean p = path_Clean r \<longleftrightarrow> path_segments p = path_segments r"
  proof -
    have only: "render xs = [slash] \<Longrightarrow> [] \<in> set xs" for xs by (cases xs) auto
    show ?thesis using plain only[of "path_segments p"] only[of "path_segments r"] render_inject[OF plain(2,1)]
      by (auto simp: Clean_rooted[OF assms(1)] Clean_rooted[OF assms(2)])
  qed
  have pre: "prefix (path_Clean r @ ''/'') (path_Clean p) \<longleftrightarrow>
      (\<exists>zs. path_segments p = path_segments r @ zs \<and> zs \<noteq> [])" if "path_segments r \<noteq> []"
  proof (cases "path_segments p = []")
    case True
    have "length (render (path_segments r)) > 0" using that by (cases "path_segments r") auto
    then have "\<not> prefix (render (path_segments r) @ ''/'') [slash]" by (auto simp: prefix_def slash_def Cons_eq_append_conv)
    then show ?thesis using True that by (simp add: Clean_rooted[OF assms(1)] Clean_rooted[OF assms(2)])
  next
    case False
    then show ?thesis using that render_prefix[OF plain(1,2)]
      by (simp add: Clean_rooted[OF assms(1)] Clean_rooted[OF assms(2)] slash_def[symmetric])
  qed
  show ?thesis
  proof (cases "path_segments r = []")
    case False
    then show ?thesis using eq pre by (auto simp: prefix_def)
  qed (simp add: eq)
qed


subsection \<open>URIs\<close>

definition uri :: "string \<Rightarrow> string \<Rightarrow> string \<Rightarrow> string" where
  "uri scheme authority p = scheme @ ''://'' @ authority @ p"

definition uri_ok :: "string \<Rightarrow> string \<Rightarrow> string \<Rightarrow> bool" where
  "uri_ok scheme authority p \<longleftrightarrow>
     scheme \<noteq> [] \<and> length scheme < 8 \<and> CHR '':'' \<notin> set scheme \<and> slash \<notin> set authority \<and> is_rooted p"

lemma Index_first:
  assumes "c \<notin> set x" shows "strings_Index (x @ c # s @ w) (c # s) = Some (length x)"
  using assms by (induction x) (auto simp: strings_HasPrefix_def)

lemma uri_normalized:
  assumes "uri_ok s a p" shows "normalize (uri s a p) = uri s a (path_Clean p)"
proof -
  have idx: "strings_Index (uri s a p) ''://'' = Some (length s)"
    using Index_first[of "CHR '':''" s "''//''" "a @ p"] assms by (simp add: uri_def uri_ok_def)
  obtain q where q: "p = slash # q" using assms by (cases p) (auto simp: uri_ok_def is_rooted_def)
  have idx2: "strings_Index (a @ p) ''/'' = Some (length a)"
    using Index_first[of slash a "[]" q] assms q by (simp add: uri_ok_def slash_def)
  have "\<not> strings_HasPrefix (path_Clean p) ''..''"
    using q by (simp add: path_Clean_def is_rooted_def strings_HasPrefix_def slash_def Let_def)
  then show ?thesis using idx idx2 assms
    by (simp add: normalize_def hasScheme_def normalizeURI_def uri_ok_def uri_def Let_def)
qed

lemma uri_split:
  assumes "uri_ok s a r" "uri_ok s' a' p" "u \<noteq> []" "hd u = slash" "v \<noteq> []" "hd v = slash"
  shows "prefix (uri s a u) (uri s' a' v) \<longleftrightarrow> s = s' \<and> a = a' \<and> prefix u v"
    "uri s a u = uri s' a' v \<longleftrightarrow> s = s' \<and> a = a' \<and> u = v"
proof -
  obtain u' where u': "u = slash # u'" using assms by (cases u) auto
  have *: "s = s' \<and> a = a' \<and> v = u @ w" if "uri s' a' v = uri s a u @ w" for w
  proof -
    have "s @ CHR '':'' # ''//'' @ a @ u @ w = s' @ CHR '':'' # ''//'' @ a' @ v" using that by (simp add: uri_def)
    then have eqs: "s = s'" "''//'' @ a @ u @ w = ''//'' @ a' @ v"
      using no_sep_split[of "CHR '':''" s s'] assms(1,2) unfolding uri_ok_def
      by (metis list.sel(1) list.inject)+
    then have "a @ slash # (u' @ w) = a' @ v" using u' by simp
    then show ?thesis using eqs(1) no_sep_split[of slash a a'] assms(1,2,6) u' unfolding uri_ok_def by auto
  qed
  show "prefix (uri s a u) (uri s' a' v) \<longleftrightarrow> s = s' \<and> a = a' \<and> prefix u v"
    using * by (auto simp: prefix_def uri_def)
  show "uri s a u = uri s' a' v \<longleftrightarrow> s = s' \<and> a = a' \<and> u = v"
    using *[of "[]"] by auto
qed

lemma Clean_rooted_start: "is_rooted p \<Longrightarrow> path_Clean p \<noteq> [] \<and> hd (path_Clean p) = slash"
  by (simp add: path_Clean_def Let_def)

lemma no_double_slash:
  assumes "is_rooted r" "is_rooted p" "path_segments r = []"
  shows "\<not> prefix (path_Clean r @ ''/'') (path_Clean p)"
proof
  assume "prefix (path_Clean r @ ''/'') (path_Clean p)"
  then have pre: "prefix [slash, slash] (path_Clean p)" using assms(1,3) by (simp add: Clean_rooted slash_def)
  then obtain x xs where x: "path_segments p = x # xs" by (cases "path_segments p") (auto simp: Clean_rooted[OF assms(2)])
  then have "plain_segment x" using rooted_segments_plain[OF assms(2)] by auto
  then show False using pre x by (cases x) (auto simp: Clean_rooted[OF assms(2)] plain_segment_def)
qed



section \<open>What the symbolic link check compares\<close>

lemma split_render: "\<forall>x \<in> set xs. slash \<notin> set x \<Longrightarrow> split_on slash (render xs) = (if xs = [] then [[]] else [] # xs)"
proof (induction xs)
  case (Cons x xs)
  have "split_on slash (x @ render xs) = x # xs" if "slash \<notin> set x" "split_on slash (render xs) = (if xs = [] then [[]] else [] # xs)"
    using that
  proof (induction x)
    case Nil
    then show ?case by (cases xs) auto
  qed (auto split: list.splits if_splits)
  then show ?case using Cons by simp
qed simp

lemma clean_plain:
  "\<forall>x \<in> set xs. plain_segment x \<Longrightarrow> fold (clean_step True) xs acc = rev xs @ acc"
  by (induction xs arbitrary: acc) (auto simp: clean_step_def plain_segment_def)

lemma segments_render: "\<forall>x \<in> set xs. plain_segment x \<Longrightarrow> xs \<noteq> [] \<Longrightarrow> path_segments (render xs) = xs"
proof -
  assume plain: "\<forall>x \<in> set xs. plain_segment x" and "xs \<noteq> []"
  then have "split_on slash (render xs) = [] # xs" by (simp add: split_render plain_segment_def)
  moreover have "is_rooted (render xs)" using \<open>xs \<noteq> []\<close> by (cases xs) (auto simp: is_rooted_def)
  moreover have "fold (clean_step True) ([] # xs) [] = rev xs" using clean_plain[OF plain] by (simp add: clean_step_def)
  ultimately show ?thesis by (simp add: path_segments_def clean_segments_def)
qed

lemma Clean_render: "\<forall>x \<in> set xs. plain_segment x \<Longrightarrow> xs \<noteq> [] \<Longrightarrow> path_Clean (render xs) = render xs"
  using Clean_rooted[of "render xs"] segments_render[of xs] render_start[of xs]
  by (cases xs) (auto simp: is_rooted_def)

lemma Split_render:
  assumes "slash \<notin> set x" shows "filepath_Split (render (xs @ [x])) = (render xs @ [slash], x)"
proof -
  obtain d b where split: "filepath_Split (render (xs @ [x])) = (d, b)" by (cases "filepath_Split (render (xs @ [x]))")
  then have parts: "render xs @ [slash] @ x = d @ b" "slash \<notin> set b" "d \<noteq> [] \<Longrightarrow> last d = slash"
    using Split_parts[OF split] by (auto simp: render_def)
  then have "d \<noteq> []" by (cases d) auto
  then obtain d' where "d = d' @ [slash]" using parts(3) by (metis append_butlast_last_id)
  then have "rev x @ slash # rev (render xs) = rev b @ slash # rev d'"
    using arg_cong[OF parts(1), of rev] by simp
  then have "rev x = rev b \<and> slash # rev d' = slash # rev (render xs)"
    using assms parts(2) no_sep_split[of slash "rev x" "rev b" "rev (render xs)" "slash # rev d'"] by simp
  then show ?thesis using split \<open>d = d' @ [slash]\<close> by simp
qed

lemma splitPath_render: "\<forall>x \<in> set xs. plain_segment x \<Longrightarrow> splitPath (render xs) = xs"
proof (induction xs rule: rev_induct)
  case Nil
  show ?case by (subst splitPath.simps) (simp add: Split_simple Clean_simple)
next
  case (snoc x xs)
  have x: "plain_segment x" "slash \<notin> set x" "x \<noteq> []" using snoc.prems by (auto simp: plain_segment_def)
  note split = Split_render[OF x(2), of xs]
  show ?case
  proof (cases "xs = []")
    case True
    then show ?thesis using split x by (subst splitPath.simps) (simp add: Clean_simple)
  next
    case False
    have "path_Clean (render xs @ [slash]) = render xs"
      using False snoc.prems Clean_render[of xs] Clean_trailing[of "render xs"] by (cases xs) auto
    moreover have "render xs \<noteq> ''/''" "render xs \<noteq> ''.''" "render xs \<noteq> render (xs @ [x])"
      using False snoc.prems by (cases xs; auto simp: plain_segment_def slash_def render_def)+
    ultimately show ?thesis using split snoc x by (subst splitPath.simps) simp
  qed
qed

lemma splitPath_root: "splitPath [slash] = []"
  by (subst splitPath.simps) (simp add: Split_simple Clean_simple slash_def)

lemma splitPath_Clean: "is_rooted p \<Longrightarrow> splitPath (path_Clean p) = path_segments p"
  using splitPath_render[of "path_segments p"] rooted_segments_plain[of p] splitPath_root
  by (cases "path_segments p = []") (auto simp: Clean_rooted)

lemma compare_reversed_accepts: "compare_reversed cs rs = None \<longleftrightarrow> prefix cs rs \<or> prefix rs cs"
  by (induction cs rs rule: compare_reversed.induct) auto

text \<open>The symbolic link check accepts an existing path exactly if the segments it asks for and the segments it
  resolves to agree from the tail for as long as both last.\<close>

theorem symlink_check_is_tail_alignment:
  assumes "is_rooted p" "ev (path_Clean p) = Resolved (path_Clean r)" "is_rooted r"
  shows "RejectSymlinks ev p = None \<longleftrightarrow>
     suffix (path_segments p) (path_segments r) \<or> suffix (path_segments r) (path_segments p)"
  using assms
  by (simp add: RejectSymlinks_def Let_def compareTailAligned_def compare_reversed_accepts splitPath_Clean suffix_to_prefix)

definition link_inside :: "string \<Rightarrow> eval_result" where
  "link_inside q = (if q = ''/w/t'' then Resolved ''/t'' else NotExist)"

theorem symlink_check_is_tail_alignment_witness:
  "RejectSymlinks link_inside ''/w/./t'' = None \<and> \<not> ContainedUnder ''/w'' ''/t''"
  using symlink_check_is_tail_alignment[of "''/w/./t''" link_inside "''/t''"]
  by (simp add: link_inside_def path_Clean_def path_segments_def clean_segments_def clean_step_def is_rooted_def slash_def
      suffix_def ContainedUnder_def normalize_def hasScheme_def strings_HasPrefix_def Let_def)

end
