(* ===== verification/Arrow_Values.thy ===== *)
theory Arrow_Values
  imports Prelude Complex_Main
begin

text \<open>
  Column types and cells of the SDK's Arrow sinks (\<open>sdk/go/arrow/inferring_sink.go\<close> and \<open>sink.go\<close>): the
  lattice of column kinds that types are inferred by, the two fit checks, the conversion of a decoded
  value into a cell and the vocabulary of declared columns. Rounding of decimal texts to float64, the
  printing of floats and of nested JSON and the conversion of a float64 outside the integer range are
  parameters, collected in \<open>go_lib\<close>.
\<close>

section \<open>Values\<close>

text \<open>A float64: its exact value, or one of the special values.\<close>

datatype go_float = Fin rat | NaN | Inf bool

text \<open>What \<open>encoding/json\<close> decodes into an \<open>any\<close>: numbers as \<open>json.Number\<close> with their text, or as float64 when
  the caller has not asked for \<open>UseNumber\<close>.\<close>

datatype go_value =
  VNil
| VNumber string
| VBool bool
| VString string
| VFloat go_float
| VObject "(string \<times> go_value) list"
| VArray "go_value list"

type_synonym go_record = "go_value gomap"

definition rec_get :: "go_record \<Rightarrow> string \<Rightarrow> go_value" where
  "rec_get r k = (case map_of r k of None \<Rightarrow> VNil | Some v \<Rightarrow> v)"

datatype arrow_type = INT32 | INT64 | FLOAT64 | BOOL | STRING

datatype cell = CNull | CInt int | CFloat go_float | CBool bool | CString string

record go_lib =
  gl_round :: "rat \<Rightarrow> go_float"
  gl_formatFloat :: "go_float \<Rightarrow> string"
  gl_marshal :: "go_value \<Rightarrow> string option"
  gl_oob :: "go_float \<Rightarrow> int"

section \<open>Reading numbers\<close>

text \<open>\<open>strconv.ParseInt\<close> in base 10 for a bit size.\<close>

definition strconv_ParseInt :: "string \<Rightarrow> nat \<Rightarrow> int option" where
  "strconv_ParseInt s bits =
     (case atoi_value s of
        None \<Rightarrow> None
      | Some v \<Rightarrow> if - (2 ^ (bits - 1)) \<le> v \<and> v < 2 ^ (bits - 1) then Some v else None)"

text \<open>\<open>strconv.ParseFloat\<close> on decimal texts: an optional sign, digits with at most one decimal point, an
  optional exponent. A magnitude that rounds beyond the largest float64 is a range error. The other
  spellings \<open>ParseFloat\<close> knows (hexadecimal, digit separators, infinities) are not JSON numbers.\<close>

definition drop_sign :: "string \<Rightarrow> string" where
  "drop_sign s = (if s \<noteq> [] \<and> (hd s = CHR ''+'' \<or> hd s = CHR ''-'') then tl s else s)"

definition exponent_of :: "string \<Rightarrow> int option" where
  "exponent_of s =
     (if s = [] then Some 0
      else if hd s = CHR ''e'' \<or> hd s = CHR ''E'' then atoi_value (tl s)
      else None)"

definition decimal_value :: "string \<Rightarrow> rat option" where
  "decimal_value s =
     (let t = drop_sign s; neg = (s \<noteq> [] \<and> hd s = CHR ''-'');
          ds = takeWhile is_digit t; u = dropWhile is_digit t;
          point = (u \<noteq> [] \<and> hd u = CHR ''.'');
          fr = (if point then takeWhile is_digit (tl u) else []);
          e = (if point then dropWhile is_digit (tl u) else u)
      in if ds = [] \<and> fr = [] then None
         else
           (case exponent_of e of
              None \<Rightarrow> None
            | Some n \<Rightarrow>
                let m = of_nat (digits_val 0 (ds @ fr)); k = n - int (length fr) in
                Some ((if neg then - m else m) * (if 0 \<le> k then 10 ^ nat k else 1 / 10 ^ nat (- k)))))"

definition float_limit :: rat where
  "float_limit = 2 ^ 1024 - 2 ^ 970"

definition strconv_ParseFloat :: "go_lib \<Rightarrow> string \<Rightarrow> go_float option" where
  "strconv_ParseFloat lib s =
     (case decimal_value s of
        None \<Rightarrow> None
      | Some r \<Rightarrow> if \<bar>r\<bar> < float_limit then Some (gl_round lib r) else None)"

lemma integer_text_parses_as_float:
  assumes "strconv_ParseInt s 64 = Some v"
  shows "decimal_value s = Some (of_int v)" "strconv_ParseFloat lib s = Some (gl_round lib (of_int v))"
proof -
  obtain w where w: "atoi_value s = Some w" "- (2 ^ 63) \<le> w" "w < 2 ^ 63" "v = w"
    using assms by (auto simp: strconv_ParseInt_def split: option.splits if_splits)
  let ?t = "drop_sign s"
  have t: "?t \<noteq> []" "list_all is_digit ?t"
    "v = (if s \<noteq> [] \<and> hd s = CHR ''-'' then - int (digits_val 0 ?t) else int (digits_val 0 ?t))"
    using w by (auto simp: atoi_value_def drop_sign_def Let_def split: if_splits)
  then have digits: "takeWhile is_digit ?t = ?t" "dropWhile is_digit ?t = []"
    by (simp_all add: list_all_iff takeWhile_eq_all_conv dropWhile_eq_Nil_conv)
  show dv: "decimal_value s = Some (of_int v)"
    unfolding decimal_value_def Let_def digits using t(1,3) by (simp add: exponent_of_def)
  have "\<bar>rat_of_int v\<bar> \<le> 2 ^ 63" using w by (simp add: abs_le_iff flip: of_int_abs of_int_power)
  also have "(2 :: rat) ^ 63 < float_limit" by (simp add: float_limit_def)
  finally show "strconv_ParseFloat lib s = Some (gl_round lib (of_int v))"
    using dv by (simp add: strconv_ParseFloat_def)
qed

section \<open>The lattice of kinds\<close>

datatype column_kind = kindUnset | kindInt | kindFloat | kindBool | kindString

definition integral :: "rat \<Rightarrow> bool" where
  "integral r \<longleftrightarrow> of_int \<lfloor>r\<rfloor> = r"

definition classifyValue :: "go_lib \<Rightarrow> go_value \<Rightarrow> column_kind" where
  "classifyValue lib v =
     (case v of
        VNil \<Rightarrow> kindUnset
      | VNumber x \<Rightarrow>
          if strconv_ParseInt x 64 \<noteq> None then kindInt
          else if strconv_ParseFloat lib x \<noteq> None then kindFloat
          else kindString
      | VBool _ \<Rightarrow> kindBool
      | VString _ \<Rightarrow> kindString
      | VFloat f \<Rightarrow> (case f of Fin r \<Rightarrow> if integral r then kindInt else kindFloat | _ \<Rightarrow> kindFloat)
      | _ \<Rightarrow> kindString)"

definition joinKind :: "column_kind \<Rightarrow> column_kind \<Rightarrow> column_kind" where
  "joinKind a b =
     (if a = kindUnset then b
      else if b = kindUnset then a
      else if a = b then a
      else if (a = kindInt \<and> b = kindFloat) \<or> (a = kindFloat \<and> b = kindInt) then kindFloat
      else kindString)"

definition arrowTypeForKind :: "column_kind \<Rightarrow> arrow_type" where
  "arrowTypeForKind k =
     (case k of kindInt \<Rightarrow> INT64 | kindFloat \<Rightarrow> FLOAT64 | kindBool \<Rightarrow> BOOL | _ \<Rightarrow> STRING)"

text \<open>The kinds are a join semilattice with least element \<^const>\<open>kindUnset\<close>; \<^const>\<open>joinKind\<close> is its join.\<close>

instantiation column_kind :: bounded_semilattice_sup_bot
begin

definition bot_column_kind :: column_kind where
  "bot_column_kind = kindUnset"

definition sup_column_kind :: "column_kind \<Rightarrow> column_kind \<Rightarrow> column_kind" where
  "sup_column_kind a b = joinKind a b"

definition less_eq_column_kind :: "column_kind \<Rightarrow> column_kind \<Rightarrow> bool" where
  "less_eq_column_kind a b \<longleftrightarrow> joinKind a b = b"

definition less_column_kind :: "column_kind \<Rightarrow> column_kind \<Rightarrow> bool" where
  "less_column_kind a b \<longleftrightarrow> joinKind a b = b \<and> joinKind b a \<noteq> a"

instance
proof
  fix x y z :: column_kind
  show "x < y \<longleftrightarrow> x \<le> y \<and> \<not> y \<le> x" by (simp add: less_column_kind_def less_eq_column_kind_def)
  show "x \<le> x" by (cases x) (simp_all add: less_eq_column_kind_def joinKind_def)
  show "x \<le> y \<Longrightarrow> y \<le> z \<Longrightarrow> x \<le> z"
    by (cases x; cases y; cases z) (simp_all add: less_eq_column_kind_def joinKind_def)
  show "x \<le> y \<Longrightarrow> y \<le> x \<Longrightarrow> x = y"
    by (cases x; cases y) (simp_all add: less_eq_column_kind_def joinKind_def)
  show "x \<le> sup x y" by (cases x; cases y) (simp_all add: less_eq_column_kind_def sup_column_kind_def joinKind_def)
  show "y \<le> sup x y" by (cases x; cases y) (simp_all add: less_eq_column_kind_def sup_column_kind_def joinKind_def)
  show "y \<le> x \<Longrightarrow> z \<le> x \<Longrightarrow> sup y z \<le> x"
    by (cases x; cases y; cases z) (simp_all add: less_eq_column_kind_def sup_column_kind_def joinKind_def)
  show "bot \<le> x" by (simp add: less_eq_column_kind_def bot_column_kind_def joinKind_def)
qed

end

lemma joinKind_sup: "joinKind = sup"
  by (intro ext) (simp add: sup_column_kind_def)

section \<open>Fit checks\<close>

definition integral_float :: "go_float \<Rightarrow> bool" where
  "integral_float f \<longleftrightarrow> (case f of Fin r \<Rightarrow> integral r | _ \<Rightarrow> False)"

definition valueFitsArrowType :: "go_lib \<Rightarrow> go_value \<Rightarrow> arrow_type \<Rightarrow> bool" where
  "valueFitsArrowType lib v t \<longleftrightarrow>
     (if v = VNil then True
      else
        (case t of
           INT64 \<Rightarrow>
             (case v of
                VNumber x \<Rightarrow> strconv_ParseInt x 64 \<noteq> None
              | VFloat f \<Rightarrow> integral_float f
              | _ \<Rightarrow> False)
         | FLOAT64 \<Rightarrow>
             (case v of VNumber x \<Rightarrow> strconv_ParseFloat lib x \<noteq> None | VFloat f \<Rightarrow> True | _ \<Rightarrow> False)
         | BOOL \<Rightarrow> (case v of VBool _ \<Rightarrow> True | _ \<Rightarrow> False)
         | _ \<Rightarrow> True))"

definition declaredValueFits :: "go_lib \<Rightarrow> go_value \<Rightarrow> arrow_type \<Rightarrow> bool" where
  "declaredValueFits lib v t \<longleftrightarrow>
     (if v = VNil then True
      else
        (case t of
           INT32 \<Rightarrow>
             (case v of
                VNumber x \<Rightarrow> strconv_ParseInt x 32 \<noteq> None
              | VFloat f \<Rightarrow>
                  (case f of Fin r \<Rightarrow> integral r \<and> - (2 ^ 31) \<le> r \<and> r \<le> 2 ^ 31 - 1 | _ \<Rightarrow> False)
              | _ \<Rightarrow> False)
         | INT64 \<Rightarrow>
             (case v of
                VNumber x \<Rightarrow> strconv_ParseInt x 64 \<noteq> None
              | VFloat f \<Rightarrow> integral_float f
              | _ \<Rightarrow> False)
         | FLOAT64 \<Rightarrow>
             (case v of VNumber x \<Rightarrow> strconv_ParseFloat lib x \<noteq> None | VFloat f \<Rightarrow> True | _ \<Rightarrow> False)
         | BOOL \<Rightarrow> (case v of VBool _ \<Rightarrow> True | _ \<Rightarrow> False)
         | STRING \<Rightarrow>
             (case v of
                VString _ \<Rightarrow> True | VNumber _ \<Rightarrow> True | VFloat _ \<Rightarrow> True | VObject _ \<Rightarrow> True | VArray _ \<Rightarrow> True
              | _ \<Rightarrow> False)))"

section \<open>Cells\<close>

text \<open>\<open>stringifyValue\<close>: the text of the cell, or None for null.\<close>

definition stringifyValue :: "go_lib \<Rightarrow> go_value \<Rightarrow> string option" where
  "stringifyValue lib v =
     (case v of
        VNil \<Rightarrow> None
      | VString x \<Rightarrow> Some x
      | VNumber x \<Rightarrow> Some x
      | VBool b \<Rightarrow> Some (if b then ''true'' else ''false'')
      | VFloat f \<Rightarrow> Some (gl_formatFloat lib f)
      | _ \<Rightarrow> gl_marshal lib v)"

text \<open>The conversion of a float64 to a signed integer type: exact inside the range of the type, up to the
  platform outside.\<close>

definition float_to_int :: "go_lib \<Rightarrow> nat \<Rightarrow> go_float \<Rightarrow> int" where
  "float_to_int lib bits f =
     (case f of
        Fin r \<Rightarrow>
          let n = (if 0 \<le> r then \<lfloor>r\<rfloor> else \<lceil>r\<rceil>) in
          if - (2 ^ (bits - 1)) \<le> n \<and> n < 2 ^ (bits - 1) then n else gl_oob lib f
      | _ \<Rightarrow> gl_oob lib f)"

text \<open>The error of \<open>ParseInt\<close> and \<open>ParseFloat\<close> is dropped here; the value is then the nearest bound or zero.\<close>

definition parse_int_or_bound :: "string \<Rightarrow> nat \<Rightarrow> int" where
  "parse_int_or_bound s bits =
     (case atoi_value s of
        None \<Rightarrow> 0
      | Some v \<Rightarrow> max (- (2 ^ (bits - 1))) (min (2 ^ (bits - 1) - 1) v))"

definition parse_float_or_bound :: "go_lib \<Rightarrow> string \<Rightarrow> go_float" where
  "parse_float_or_bound lib s =
     (case strconv_ParseFloat lib s of
        Some f \<Rightarrow> f
      | None \<Rightarrow> (case decimal_value s of None \<Rightarrow> Fin 0 | Some r \<Rightarrow> Inf (r < 0)))"

text \<open>\<open>appendValueToBuilder\<close>: the cells it appends. A value of a Go type the branch does not name appends nothing;
  a value that is not a bool panics in a boolean column (None).\<close>

definition appendValueToBuilder :: "go_lib \<Rightarrow> arrow_type \<Rightarrow> go_value \<Rightarrow> cell list option" where
  "appendValueToBuilder lib t v =
     (if v = VNil then Some [CNull]
      else
        (case t of
           INT32 \<Rightarrow>
             Some (case v of
                VNumber x \<Rightarrow> [CInt (parse_int_or_bound x 32)]
              | VFloat f \<Rightarrow> [CInt (float_to_int lib 32 f)]
              | _ \<Rightarrow> [])
         | INT64 \<Rightarrow>
             Some (case v of
                VNumber x \<Rightarrow> [CInt (parse_int_or_bound x 64)]
              | VFloat f \<Rightarrow> [CInt (float_to_int lib 64 f)]
              | _ \<Rightarrow> [])
         | FLOAT64 \<Rightarrow>
             Some (case v of
                VNumber x \<Rightarrow> [CFloat (parse_float_or_bound lib x)]
              | VFloat f \<Rightarrow> [CFloat f]
              | _ \<Rightarrow> [])
         | BOOL \<Rightarrow> (case v of VBool b \<Rightarrow> Some [CBool b] | _ \<Rightarrow> None)
         | STRING \<Rightarrow> Some [case stringifyValue lib v of None \<Rightarrow> CNull | Some c \<Rightarrow> CString c]))"

section \<open>Declared columns\<close>

record typed_column =
  tc_name :: string
  tc_type :: string

definition ArrowTypeFor :: "string \<Rightarrow> string + arrow_type" where
  "ArrowTypeFor t =
     (if t = ''int'' then Inr INT32
      else if t = ''long'' then Inr INT64
      else if t = ''float'' \<or> t = ''double'' then Inr FLOAT64
      else if t = ''boolean'' then Inr BOOL
      else if t = ''string'' then Inr STRING
      else Inl (''arrow: unrecognized column type '' @ fmt_q t @
                '' (want one of: int, long, float, double, boolean, string)''))"

section \<open>What a cell holds\<close>

text \<open>A cell represents a value: null only for null (and for nested values \<open>json.Marshal\<close> refuses), otherwise
  the number, truth value or text that was decoded.\<close>

definition cell_of :: "go_lib \<Rightarrow> arrow_type \<Rightarrow> go_value \<Rightarrow> cell" where
  "cell_of lib t v = (case appendValueToBuilder lib t v of Some [c] \<Rightarrow> c | _ \<Rightarrow> CNull)"

fun number_text :: "go_value \<Rightarrow> int option" where
  "number_text (VNumber x) = atoi_value x"
| "number_text (VFloat (Fin r)) = (if integral r then Some \<lfloor>r\<rfloor> else None)"
| "number_text _ = None"

lemma declared_fit_appends: "declaredValueFits lib v t \<Longrightarrow> appendValueToBuilder lib t v = Some [cell_of lib t v]"
  by (cases t; cases v)
    (auto simp: declaredValueFits_def appendValueToBuilder_def cell_of_def split: if_splits)

lemma inferred_fit_appends:
  "valueFitsArrowType lib v t \<Longrightarrow> t \<noteq> INT32 \<Longrightarrow> appendValueToBuilder lib t v = Some [cell_of lib t v]"
  by (cases t; cases v)
    (auto simp: valueFitsArrowType_def appendValueToBuilder_def cell_of_def split: if_splits)

section \<open>Inference is sound, order-independent and least\<close>

lemma kind_fits: "classifyValue lib v \<le> k \<Longrightarrow> valueFitsArrowType lib v (arrowTypeForKind k)"
  using integer_text_parses_as_float(2)
  by (cases v; cases k)
    (auto simp: classifyValue_def less_eq_column_kind_def joinKind_def valueFitsArrowType_def arrowTypeForKind_def
      integral_float_def split: if_splits go_float.splits)

text \<open>The kind of a column is the join of the kinds of its sampled values.\<close>

definition fold_kinds :: "go_lib \<Rightarrow> column_kind \<Rightarrow> go_value list \<Rightarrow> column_kind" where
  "fold_kinds lib k vs = fold (\<lambda>v k. joinKind k (classifyValue lib v)) vs k"

lemma fold_kinds_simps [simp]:
  "fold_kinds lib k [] = k" "fold_kinds lib k (v # vs) = fold_kinds lib (joinKind k (classifyValue lib v)) vs"
  by (simp_all add: fold_kinds_def)

lemma fold_kinds_least:
  "fold_kinds lib k vs \<le> u \<longleftrightarrow> k \<le> u \<and> (\<forall>v \<in> set vs. classifyValue lib v \<le> u)"
  by (induction vs arbitrary: k) (auto simp: joinKind_sup)

lemma fold_kinds_bound: "v \<in> set vs \<Longrightarrow> classifyValue lib v \<le> fold_kinds lib k vs"
  using fold_kinds_least[of lib k vs "fold_kinds lib k vs"] by simp

lemma fold_kinds_set: "set vs = set ws \<Longrightarrow> fold_kinds lib k vs = fold_kinds lib k ws"
  by (rule antisym) (simp_all add: fold_kinds_least fold_kinds_bound, simp_all add: fold_kinds_least[THEN iffD1, OF order_refl])

section \<open>Declared integers keep their value\<close>

lemma integral_bounds:
  assumes "integral r" "- (2 ^ 31) \<le> r" "r \<le> 2 ^ 31 - 1"
  shows "float_to_int lib 32 (Fin r) = \<lfloor>r\<rfloor>" "- (2 ^ 31) \<le> \<lfloor>r\<rfloor>" "\<lfloor>r\<rfloor> < 2 ^ 31"
proof -
  obtain n where n: "r = of_int n" using assms(1) by (auto simp: integral_def intro: sym)
  then show "- (2 ^ 31) \<le> \<lfloor>r\<rfloor>" "\<lfloor>r\<rfloor> < 2 ^ 31" "float_to_int lib 32 (Fin r) = \<lfloor>r\<rfloor>"
    using assms(2,3) by (auto simp: float_to_int_def Let_def floor_of_int) 
qed

text \<open>A value a declared \<open>int\<close> column accepts is stored as the integer it denotes, which is a 32-bit integer.\<close>

theorem declared_int_is_exact:
  assumes "declaredValueFits lib v INT32" "v \<noteq> VNil"
  shows "\<exists>n. appendValueToBuilder lib INT32 v = Some [CInt n] \<and> number_text v = Some n \<and> - (2 ^ 31) \<le> n \<and> n < 2 ^ 31"
proof (cases v)
  case (VNumber x)
  then obtain n where "atoi_value x = Some n" "- (2 ^ 31) \<le> n" "n < 2 ^ 31"
    using assms(1) by (auto simp: declaredValueFits_def strconv_ParseInt_def split: option.splits if_splits)
  then show ?thesis using VNumber by (simp add: appendValueToBuilder_def parse_int_or_bound_def)
next
  case (VFloat f)
  then obtain r where r: "f = Fin r" "integral r" "- (2 ^ 31) \<le> r" "r \<le> 2 ^ 31 - 1"
    using assms(1) by (auto simp: declaredValueFits_def split: go_float.splits)
  then show ?thesis using VFloat integral_bounds[OF r(2) r(3) r(4)] by (simp add: appendValueToBuilder_def)
qed (use assms in \<open>auto simp: declaredValueFits_def\<close>)

theorem declared_int_is_exact_witness:
  "\<exists>n. appendValueToBuilder \<lparr>gl_round = Fin, gl_formatFloat = (\<lambda>_. []), gl_marshal = (\<lambda>_. None), gl_oob = (\<lambda>_. 0)\<rparr>
       INT32 (VNumber ''-2147483648'') = Some [CInt n]
     \<and> number_text (VNumber ''-2147483648'') = Some n \<and> - (2 ^ 31) \<le> n \<and> n < 2 ^ 31"
  using declared_int_is_exact[of "\<lparr>gl_round = Fin, gl_formatFloat = (\<lambda>_. []), gl_marshal = (\<lambda>_. None), gl_oob = (\<lambda>_. 0)\<rparr>"
      "VNumber ''-2147483648''"]
  by (simp add: declaredValueFits_def strconv_ParseInt_def atoi_value_def is_digit_def digit_val_def)

end
