(* ===== verification/Arrow_Sink.thy ===== *)
theory Arrow_Sink
  imports Arrow_Values "HOL-Library.Sublist"
begin

text \<open>
  The batching core of the SDK's Arrow sinks (\<open>sdk/go/arrow/typed_sink.go\<close>): rows are appended to a column
  builder, a full batch is serialised as one self-contained IPC stream and shipped with one \<open>Write\<close> call, a
  failure is sticky, and the writer is opened by the first flush. The gateway's answers to \<open>open\<close>, \<open>Write\<close> and
  \<open>Close\<close> and those of the IPC encoder are the environment; they may depend on everything shipped so far.
\<close>

section \<open>State\<close>

type_synonym batch = "cell list list"

record close_result =
  cr_totalRows :: int
  cr_totalBytes :: int
  cr_filesWritten :: int

record sink_env =
  en_open :: "string option"
  en_ipc_write :: "batch \<Rightarrow> string option"
  en_ipc_close :: "batch \<Rightarrow> string option"
  en_payload :: "batch \<Rightarrow> nat"
  en_write :: "batch list \<Rightarrow> batch \<Rightarrow> string option"
  en_close :: "batch list \<Rightarrow> string + close_result"

datatype sink_error =
  WriteError string
| TypeViolationError string arrow_type string string
| AfterFinish string

text \<open>\<open>sk_shipped\<close> and \<open>sk_closes\<close> record what the writer has received: the batches of successful \<open>Write\<close> calls and
  the number of \<open>Close\<close> calls. The builder holds one list of cells per column and is gone once released.
  Row and byte counters are unbounded.\<close>

record sink =
  sk_schema :: "(string \<times> arrow_type) list"
  sk_writer :: bool
  sk_builder :: "batch option"
  sk_batchRows :: nat
  sk_inBatch :: nat
  sk_rows :: nat
  sk_finished :: bool
  sk_failed :: "sink_error option"
  sk_closeResult :: "close_result option"
  sk_bytesShipped :: nat
  sk_shipped :: "batch list"
  sk_closes :: nat

definition DefaultBatchRows :: nat where
  "DefaultBatchRows = 8192"

definition WithBatchRows :: "int \<Rightarrow> nat \<Rightarrow> nat" where
  "WithBatchRows n batchRows = (if n > 0 then nat n else batchRows)"

definition NewSink :: "(string \<times> arrow_type) list \<Rightarrow> int option \<Rightarrow> sink" where
  "NewSink schema opt =
     \<lparr>sk_schema = schema, sk_writer = False, sk_builder = Some (map (\<lambda>_. []) schema),
      sk_batchRows = (case opt of None \<Rightarrow> DefaultBatchRows | Some n \<Rightarrow> WithBatchRows n DefaultBatchRows),
      sk_inBatch = 0, sk_rows = 0, sk_finished = False, sk_failed = None, sk_closeResult = None,
      sk_bytesShipped = 0, sk_shipped = [], sk_closes = 0\<rparr>"

section \<open>Operations\<close>

definition releaseBuilder :: "sink \<Rightarrow> sink" where
  "releaseBuilder s = s\<lparr>sk_builder := None\<rparr>"

definition fail :: "sink \<Rightarrow> sink_error \<Rightarrow> sink \<times> sink_error option" where
  "fail s e = (releaseBuilder (if sk_failed s = None then s\<lparr>sk_failed := Some e\<rparr> else s), Some e)"

definition aligned :: "batch \<Rightarrow> bool" where
  "aligned cols \<longleftrightarrow> (\<forall>c \<in> set cols. length c = length (hd cols))"

text \<open>None is a panic: a released builder, or columns of different lengths in \<open>NewRecord\<close>.\<close>

definition flush :: "sink_env \<Rightarrow> sink \<Rightarrow> (sink \<times> sink_error option) option" where
  "flush en s =
     (if sk_inBatch s = 0 then Some (s, None)
      else
        (case if sk_writer s then None else en_open en of
           Some e \<Rightarrow> Some (fail s (WriteError (''failed to open writer: '' @ e)))
         | None \<Rightarrow>
             let s1 = s\<lparr>sk_writer := True\<rparr> in
             (case sk_builder s1 of
                None \<Rightarrow> None
              | Some cols \<Rightarrow>
                  if \<not> aligned cols then None
                  else
                    let s2 = s1\<lparr>sk_builder := Some (map (\<lambda>_. []) cols)\<rparr> in
                    (case en_ipc_write en cols of
                       Some e \<Rightarrow> Some (fail s2 (WriteError (''ipc write record: '' @ e)))
                     | None \<Rightarrow>
                         (case en_ipc_close en cols of
                            Some e \<Rightarrow> Some (fail s2 (WriteError (''ipc close writer: '' @ e)))
                          | None \<Rightarrow>
                              (case en_write en (sk_shipped s2) cols of
                                 Some e \<Rightarrow> Some (fail s2 (WriteError (''failed to write IPC batch: '' @ e)))
                               | None \<Rightarrow>
                                   Some (s2\<lparr>sk_bytesShipped := sk_bytesShipped s2 + en_payload en cols,
                                            sk_inBatch := 0, sk_shipped := sk_shipped s2 @ [cols]\<rparr>, None)))))))"

definition RowDone :: "sink_env \<Rightarrow> sink \<Rightarrow> (sink \<times> sink_error option) option" where
  "RowDone en s =
     (if sk_failed s \<noteq> None then Some (s, sk_failed s)
      else if sk_finished s then Some (s, Some (AfterFinish ''arrow: Sink.RowDone called after Finish''))
      else
        let s1 = s\<lparr>sk_inBatch := Suc (sk_inBatch s), sk_rows := Suc (sk_rows s)\<rparr> in
        if sk_inBatch s1 \<ge> sk_batchRows s1 then flush en s1 else Some (s1, None))"

definition writer_Close :: "sink_env \<Rightarrow> sink \<Rightarrow> sink \<times> (string + close_result)" where
  "writer_Close en s = (s\<lparr>sk_closes := Suc (sk_closes s)\<rparr>, en_close en (sk_shipped s))"

definition closeAfterFailure :: "sink_env \<Rightarrow> sink \<Rightarrow> sink" where
  "closeAfterFailure en s =
     (if sk_finished s \<or> \<not> sk_writer s then s else fst (writer_Close en (s\<lparr>sk_finished := True\<rparr>)))"

type_synonym finish_result = "nat \<times> close_result option \<times> sink_error option"

definition sink_Finish :: "sink_env \<Rightarrow> sink \<Rightarrow> (sink \<times> finish_result) option" where
  "sink_Finish en s =
     (if sk_failed s \<noteq> None then
        let s1 = closeAfterFailure en s in Some (s1, sk_rows s1, None, sk_failed s1)
      else if sk_finished s then Some (s, sk_rows s, sk_closeResult s, None)
      else
        (case flush en s of
           None \<Rightarrow> None
         | Some (s1, Some e) \<Rightarrow> Some (releaseBuilder s1, sk_rows s1, None, Some e)
         | Some (s1, None) \<Rightarrow>
             let s2 = s1\<lparr>sk_finished := True\<rparr> in
             if \<not> sk_writer s2 then Some (releaseBuilder s2, 0, None, None)
             else
               (case writer_Close en s2 of
                  (s3, Inl e) \<Rightarrow>
                    let r = fail s3 (WriteError (''failed to close writer: '' @ e)) in
                    Some (releaseBuilder (fst r), sk_rows (fst r), None, snd r)
                | (s3, Inr cr) \<Rightarrow>
                    Some (releaseBuilder (s3\<lparr>sk_closeResult := Some cr\<rparr>), sk_rows s3, Some cr, None))))"

text \<open>Appending the cells of one row, a list of cells per column.\<close>

definition append_cells :: "sink \<Rightarrow> cell list list \<Rightarrow> sink option" where
  "append_cells s cs =
     (case sk_builder s of
        None \<Rightarrow> None
      | Some cols \<Rightarrow> Some (s\<lparr>sk_builder := Some (map2 (@) cols cs)\<rparr>))"

section \<open>Invariant\<close>

text \<open>The cells the writer has received for column \<open>i\<close>, and those of a list of rows.\<close>

definition shipped_col :: "sink \<Rightarrow> nat \<Rightarrow> cell list" where
  "shipped_col s i = concat (map (\<lambda>b. b ! i) (sk_shipped s))"

definition row_col :: "cell list list \<Rightarrow> nat \<Rightarrow> cell list" where
  "row_col rows i = map (\<lambda>r. r ! i) rows"

definition batches_ok :: "sink \<Rightarrow> bool" where
  "batches_ok s \<longleftrightarrow>
     (\<forall>b \<in> set (sk_shipped s). length b = length (sk_schema s) \<and>
        (\<exists>k. 0 < k \<and> k \<le> sk_batchRows s \<and> (\<forall>c \<in> set b. length c = k)))"

definition full_batches :: "nat \<Rightarrow> batch list \<Rightarrow> bool" where
  "full_batches n bs \<longleftrightarrow> (\<forall>b \<in> set bs. \<forall>c \<in> set b. length c = n)"

text \<open>A sink that takes rows: everything appended is shipped or in the builder, in order.\<close>

definition sink_holding :: "sink \<Rightarrow> cell list list \<Rightarrow> bool" where
  "sink_holding s rows \<longleftrightarrow>
     sk_failed s = None \<and> \<not> sk_finished s \<and> sk_closes s = 0 \<and> sk_closeResult s = None \<and>
     sk_rows s = length rows \<and> sk_inBatch s \<le> sk_batchRows s \<and> 0 < sk_batchRows s \<and>
     (sk_writer s \<longleftrightarrow> sk_shipped s \<noteq> []) \<and> (rows = [] \<longleftrightarrow> sk_shipped s = [] \<and> sk_inBatch s = 0) \<and> batches_ok s \<and>
     (\<exists>cols. sk_builder s = Some cols \<and> length cols = length (sk_schema s) \<and>
        (\<forall>c \<in> set cols. length c = sk_inBatch s) \<and>
        (\<forall>i < length (sk_schema s). shipped_col s i @ cols ! i = row_col rows i))"

definition sink_open :: "sink \<Rightarrow> cell list list \<Rightarrow> bool" where
  "sink_open s rows \<longleftrightarrow> sink_holding s rows \<and> sk_inBatch s < sk_batchRows s \<and> full_batches (sk_batchRows s) (sk_shipped s)"

text \<open>A failed sink: the builder is gone and the writer holds a prefix of the rows.\<close>

definition sink_failed :: "sink \<Rightarrow> sink_error \<Rightarrow> cell list list \<Rightarrow> bool" where
  "sink_failed s e rows \<longleftrightarrow>
     sk_failed s = Some e \<and> sk_builder s = None \<and> sk_closes s \<le> 1 \<and> (sk_closes s = 1 \<longrightarrow> sk_finished s) \<and>
     batches_ok s \<and> (\<forall>i < length (sk_schema s). prefix (shipped_col s i) (row_col rows i))"

text \<open>A finished sink: the writer holds exactly the rows and has been closed once, if it was opened at all.\<close>

definition sink_done :: "sink \<Rightarrow> cell list list \<Rightarrow> bool" where
  "sink_done s rows \<longleftrightarrow>
     sk_failed s = None \<and> sk_finished s \<and> sk_builder s = None \<and> sk_rows s = length rows \<and> batches_ok s \<and>
     sk_closes s = (if rows = [] then 0 else 1) \<and> (sk_shipped s = [] \<longleftrightarrow> rows = []) \<and>
     (sk_closeResult s = None \<longleftrightarrow> rows = []) \<and> full_batches (sk_batchRows s) (butlast (sk_shipped s)) \<and>
     (\<forall>i < length (sk_schema s). shipped_col s i = row_col rows i)"

lemma holdingD:
  assumes "sink_holding s rows"
  shows "sk_failed s = None" "\<not> sk_finished s" "sk_closes s = 0" "sk_closeResult s = None" "sk_rows s = length rows"
    "sk_inBatch s \<le> sk_batchRows s" "0 < sk_batchRows s" "sk_writer s \<longleftrightarrow> sk_shipped s \<noteq> []"
    "rows = [] \<longleftrightarrow> sk_shipped s = [] \<and> sk_inBatch s = 0" "batches_ok s"
  using assms unfolding sink_holding_def by blast+

lemma holding_builder:
  assumes "sink_holding s rows"
  obtains cols where "sk_builder s = Some cols" "length cols = length (sk_schema s)"
    "\<forall>c \<in> set cols. length c = sk_inBatch s" "\<forall>i < length (sk_schema s). shipped_col s i @ cols ! i = row_col rows i"
  using assms unfolding sink_holding_def by (elim conjE exE) blast

lemma NewSink_open: "sink_open (NewSink schema opt) []"
  by (auto simp: sink_open_def sink_holding_def NewSink_def batches_ok_def shipped_col_def row_col_def WithBatchRows_def
      DefaultBatchRows_def full_batches_def split: option.splits)

lemma NewSink_schema [simp]: "sk_schema (NewSink schema opt) = schema"
  by (simp add: NewSink_def)

text \<open>What a flush leaves: the batch has been shipped, or the sink has failed with a write error and the writer
  has received nothing new.\<close>

definition flushed :: "sink \<Rightarrow> sink \<Rightarrow> bool" where
  "flushed s s' \<longleftrightarrow> sk_inBatch s' = 0 \<and>
     (if sk_inBatch s = 0 then s' = s
      else \<exists>b. sk_shipped s' = sk_shipped s @ [b] \<and> (\<forall>c \<in> set b. length c = sk_inBatch s))"

definition same_shape :: "sink \<Rightarrow> sink \<Rightarrow> bool" where
  "same_shape s s' \<longleftrightarrow> sk_schema s' = sk_schema s \<and> sk_batchRows s' = sk_batchRows s"

lemma same_shape_trans: "same_shape a b \<Longrightarrow> same_shape b c \<Longrightarrow> same_shape a c"
  by (simp add: same_shape_def)

lemma holding_failed:
  assumes "sink_holding s rows" "s' = fst (fail (s\<lparr>sk_writer := w, sk_builder := b\<rparr>) e)"
  shows "sink_failed s' e rows \<and> same_shape s s' \<and> sk_shipped s' = sk_shipped s \<and> \<not> sk_finished s' \<and> sk_rows s' = sk_rows s"
proof -
  have "\<forall>i < length (sk_schema s). prefix (shipped_col s i) (row_col rows i)"
    using holding_builder[OF assms(1)] by (metis prefixI)
  then show ?thesis using assms(2) holdingD[OF assms(1)]
    by (simp add: sink_failed_def fail_def releaseBuilder_def same_shape_def batches_ok_def shipped_col_def)
qed

lemma holding_aligned: "sink_holding s rows \<Longrightarrow> sk_builder s = Some cols \<Longrightarrow> aligned cols"
proof -
  assume "sink_holding s rows" "sk_builder s = Some cols"
  then have len: "\<forall>c \<in> set cols. length c = sk_inBatch s" using holding_builder by (metis option.inject)
  show "aligned cols"
  proof (cases cols)
    case (Cons c cs)
    then show ?thesis using len by (simp add: aligned_def)
  qed (simp add: aligned_def)
qed

lemma holding_shipped:
  assumes h: "sink_holding s rows" and b: "sk_builder s = Some cols" and n: "sk_inBatch s \<noteq> 0"
    and s': "s' = s\<lparr>sk_writer := True, sk_builder := Some (map (\<lambda>_. []) cols), sk_bytesShipped := k, sk_inBatch := 0,
        sk_shipped := sk_shipped s @ [cols]\<rparr>"
  shows "sink_holding s' rows \<and> flushed s s' \<and> same_shape s s'"
proof -
  have cols: "length cols = length (sk_schema s)" "\<forall>c \<in> set cols. length c = sk_inBatch s"
    "\<forall>i < length (sk_schema s). shipped_col s i @ cols ! i = row_col rows i"
    using holding_builder[OF h] b by (metis option.inject)+
  note facts = holdingD[OF h]
  have "batches_ok s'" using facts(6,10) cols(1,2) n s' by (auto simp: batches_ok_def)
  moreover have "\<forall>i < length (sk_schema s). shipped_col s' i = row_col rows i"
    using cols s' by (simp add: shipped_col_def)
  ultimately show ?thesis using facts cols n s' by (simp add: sink_holding_def flushed_def same_shape_def)
qed

lemma flush_holding:
  assumes "sink_holding s rows"
  shows "\<exists>s' e. flush en s = Some (s', e) \<and> same_shape s s' \<and>
     (e = None \<longrightarrow> sink_holding s' rows \<and> flushed s s') \<and>
     (\<forall>x. e = Some x \<longrightarrow> (\<exists>m. x = WriteError m) \<and> sink_failed s' x rows \<and> sk_shipped s' = sk_shipped s \<and>
        \<not> sk_finished s' \<and> sk_rows s' = sk_rows s)"
proof (cases "sk_inBatch s = 0")
  case True
  then show ?thesis using assms by (simp add: flush_def flushed_def same_shape_def)
next
  case False
  obtain cols where b: "sk_builder s = Some cols" using holding_builder[OF assms] by blast
  note aligned = holding_aligned[OF assms b]
  have err: "\<And>w c m. \<exists>s' e. Some (fail (s\<lparr>sk_writer := w, sk_builder := c\<rparr>) (WriteError m)) = Some (s', e) \<and> same_shape s s' \<and>
     (e = None \<longrightarrow> sink_holding s' rows \<and> flushed s s') \<and>
     (\<forall>x. e = Some x \<longrightarrow> (\<exists>m. x = WriteError m) \<and> sink_failed s' x rows \<and> sk_shipped s' = sk_shipped s \<and>
        \<not> sk_finished s' \<and> sk_rows s' = sk_rows s)"
    using holding_failed[OF assms refl] by (simp add: fail_def)
  show ?thesis
  proof (cases "if sk_writer s then None else en_open en")
    case (Some e)
    then show ?thesis using False err[of "sk_builder s" "sk_writer s" "''failed to open writer: '' @ e"] by (simp add: flush_def)
  next
    case None
    let ?b = "Some (map (\<lambda>_. []) cols)"
    show ?thesis
    proof (cases "en_ipc_write en cols")
      case (Some e)
      then show ?thesis using False None b aligned err[of ?b True "''ipc write record: '' @ e"] by (simp add: flush_def Let_def)
    next
      case w: None
      show ?thesis
      proof (cases "en_ipc_close en cols")
        case (Some e)
        then show ?thesis using False None b aligned w err[of ?b True "''ipc close writer: '' @ e"] by (simp add: flush_def Let_def)
      next
        case c: None
        show ?thesis
        proof (cases "en_write en (sk_shipped s) cols")
          case (Some e)
          then show ?thesis using False None b aligned w c err[of ?b True "''failed to write IPC batch: '' @ e"]
            by (simp add: flush_def Let_def)
        next
          case p: None
          show ?thesis
            using False None b aligned w c p holding_shipped[OF assms b False refl, of "sk_bytesShipped s + en_payload en cols"]
            by (simp add: flush_def Let_def)
        qed
      qed
    qed
  qed
qed

section \<open>One row, and the end\<close>

lemma append_row:
  assumes open_s: "sink_open s rows" and row: "length row = length (sk_schema s)"
  shows "\<exists>s1. append_cells s (map (\<lambda>x. [x]) row) = Some s1 \<and> sk_failed s1 = None \<and> \<not> sk_finished s1 \<and>
     same_shape s s1 \<and> sk_inBatch s1 = sk_inBatch s \<and> sk_shipped s1 = sk_shipped s \<and>
     sink_holding (s1\<lparr>sk_inBatch := Suc (sk_inBatch s1), sk_rows := Suc (sk_rows s1)\<rparr>) (rows @ [row])"
proof -
  obtain cols where cols: "sk_builder s = Some cols" "length cols = length (sk_schema s)"
    "\<forall>c \<in> set cols. length c = sk_inBatch s" "\<forall>i < length (sk_schema s). shipped_col s i @ cols ! i = row_col rows i"
    using holding_builder open_s unfolding sink_open_def by blast
  have facts: "sink_holding s rows" "sk_inBatch s < sk_batchRows s" using open_s by (simp_all add: sink_open_def)
  note facts = facts(2) holdingD[OF facts(1)]
  let ?cols = "map2 (@) cols (map (\<lambda>x. [x]) row)"
  let ?s1 = "s\<lparr>sk_builder := Some ?cols\<rparr>"
  have len: "\<forall>c \<in> set ?cols. length c = Suc (sk_inBatch s)" using cols(3) set_zip_leftD set_zip_rightD by fastforce
  have nth: "?cols ! i = cols ! i @ [row ! i]" if "i < length (sk_schema s)" for i using that cols(2) row by simp
  have all: "\<forall>i < length (sk_schema s). shipped_col ?s1 i @ ?cols ! i = row_col (rows @ [row]) i"
    using cols(4) nth by (simp add: shipped_col_def row_col_def flip: append_assoc)
  have "sink_holding (?s1\<lparr>sk_inBatch := Suc (sk_inBatch ?s1), sk_rows := Suc (sk_rows ?s1)\<rparr>) (rows @ [row])"
    using facts len all cols(2) row by (simp add: sink_holding_def batches_ok_def shipped_col_def)
  then show ?thesis using cols(1) facts by (simp add: append_cells_def same_shape_def)
qed

lemma sink_failed_extend: "sink_failed s e rows \<Longrightarrow> sink_failed s e (rows @ rs)"
  by (simp add: sink_failed_def row_col_def)

text \<open>A row that has been appended is accepted, or the sink fails with a write error.\<close>

lemma row_accepted:
  assumes "sink_open s rows" "length row = length (sk_schema s)"
  shows "\<exists>s1 s2 e. append_cells s (map (\<lambda>x. [x]) row) = Some s1 \<and> sk_failed s1 = None \<and> RowDone en s1 = Some (s2, e) \<and> same_shape s s2 \<and>
     (e = None \<longrightarrow> sink_open s2 (rows @ [row])) \<and>
     (\<forall>x. e = Some x \<longrightarrow> (\<exists>m. x = WriteError m) \<and> sink_failed s2 x (rows @ [row]))"
proof -
  obtain s1 where s1: "append_cells s (map (\<lambda>x. [x]) row) = Some s1" "sk_failed s1 = None" "\<not> sk_finished s1"
    "same_shape s s1" "sk_inBatch s1 = sk_inBatch s" "sk_shipped s1 = sk_shipped s"
    "sink_holding (s1\<lparr>sk_inBatch := Suc (sk_inBatch s1), sk_rows := Suc (sk_rows s1)\<rparr>) (rows @ [row])"
    using append_row[OF assms] by blast
  let ?t = "s1\<lparr>sk_inBatch := Suc (sk_inBatch s1), sk_rows := Suc (sk_rows s1)\<rparr>"
  have full: "full_batches (sk_batchRows s) (sk_shipped s)" "sk_inBatch s < sk_batchRows s" "sk_batchRows s1 = sk_batchRows s"
    using assms(1) s1(4) by (auto simp: sink_open_def same_shape_def)
  show ?thesis
  proof (cases "sk_inBatch ?t \<ge> sk_batchRows ?t")
    case True
    then have eq: "Suc (sk_inBatch s) = sk_batchRows s" using full s1(5) by simp
    obtain s2 e where f: "flush en ?t = Some (s2, e)" "same_shape ?t s2"
      "e = None \<longrightarrow> sink_holding s2 (rows @ [row]) \<and> flushed ?t s2"
      "\<forall>x. e = Some x \<longrightarrow> (\<exists>m. x = WriteError m) \<and> sink_failed s2 x (rows @ [row])"
      using flush_holding[OF s1(7), of en] by blast
    have "sink_open s2 (rows @ [row])" if "e = None"
      using that f(2,3) full s1(5,6) eq by (auto simp: sink_open_def flushed_def same_shape_def full_batches_def)
    moreover have "same_shape s s2" using s1(4) f(2) by (simp add: same_shape_def)
    moreover have "RowDone en s1 = Some (s2, e)" using s1(2,3) True f(1) by (simp add: RowDone_def Let_def)
    ultimately show ?thesis using s1(1,2) f(4) by blast
  next
    case False
    then have "sink_open ?t (rows @ [row])" using s1(6,7) full by (simp add: sink_open_def)
    moreover have "same_shape s ?t" using s1(4) by (simp add: same_shape_def)
    moreover have "RowDone en s1 = Some (?t, None)" using s1(2,3) False by (simp add: RowDone_def Let_def)
    ultimately show ?thesis using s1(1,2) by blast
  qed
qed

lemma Finish_open:
  assumes "sink_open s rows"
  shows "\<exists>s' n cr e. sink_Finish en s = Some (s', n, cr, e) \<and> same_shape s s' \<and>
     (e = None \<longrightarrow> sink_done s' rows \<and> n = length rows \<and> cr = sk_closeResult s') \<and>
     (\<forall>x. e = Some x \<longrightarrow> (\<exists>m. x = WriteError m) \<and> sink_failed s' x rows \<and> cr = None)"
proof -
  have h: "sink_holding s rows" and active: "sk_failed s = None" "\<not> sk_finished s"
    using assms holdingD(1,2)[of s rows] unfolding sink_open_def by blast+
  obtain s1 e where f: "flush en s = Some (s1, e)" "same_shape s s1"
    "e = None \<longrightarrow> sink_holding s1 rows \<and> flushed s s1"
    "\<forall>x. e = Some x \<longrightarrow> (\<exists>m. x = WriteError m) \<and> sink_failed s1 x rows"
    using flush_holding[OF h, of en] by blast
  show ?thesis
  proof (cases e)
    case (Some x)
    then have "sink_failed (releaseBuilder s1) x rows" using f(4)
      by (simp add: sink_failed_def releaseBuilder_def batches_ok_def shipped_col_def)
    then show ?thesis using Some f active by (simp add: sink_Finish_def same_shape_def releaseBuilder_def)
  next
    case None
    then have h1: "sink_holding s1 rows" "flushed s s1" using f(3) by auto
    then have b: "sk_inBatch s1 = 0" by (simp add: flushed_def)
    then have cols: "\<forall>i < length (sk_schema s1). shipped_col s1 i = row_col rows i"
      using holding_builder[OF h1(1)] by (metis append_Nil2 length_0_conv nth_mem)
    have butlast: "full_batches (sk_batchRows s) (butlast (sk_shipped s1))"
      using assms h1(2) by (auto simp: sink_open_def flushed_def full_batches_def dest: in_set_butlastD split: if_splits)
    have s1: "sk_failed s1 = None" "sk_closes s1 = 0" "sk_closeResult s1 = None" "sk_rows s1 = length rows"
      "sk_writer s1 \<longleftrightarrow> sk_shipped s1 \<noteq> []" "rows = [] \<longleftrightarrow> sk_shipped s1 = []" "batches_ok s1"
      using holdingD[OF h1(1)] b by simp_all
    show ?thesis
    proof (cases "sk_writer s1")
      case False
      then have "sink_done (releaseBuilder (s1\<lparr>sk_finished := True\<rparr>)) rows"
        using s1 cols butlast f(2)
        by (simp add: sink_done_def releaseBuilder_def batches_ok_def shipped_col_def same_shape_def)
      then show ?thesis using None False f(1,2) active s1
        by (simp add: sink_Finish_def same_shape_def releaseBuilder_def)
    next
      case writer: True
      show ?thesis
      proof (cases "en_close en (sk_shipped s1)")
        case (Inl x)
        have "sink_failed (releaseBuilder (fst (fail (s1\<lparr>sk_finished := True, sk_closes := 1\<rparr>) (WriteError (''failed to close writer: '' @ x)))))
            (WriteError (''failed to close writer: '' @ x)) rows"
          using s1 cols by (simp add: sink_failed_def fail_def releaseBuilder_def batches_ok_def shipped_col_def)
        then show ?thesis using None Inl writer f(1,2) active s1
          by (simp add: sink_Finish_def same_shape_def releaseBuilder_def writer_Close_def Let_def fail_def)
      next
        case (Inr cr)
        have "sink_done (releaseBuilder (s1\<lparr>sk_finished := True, sk_closes := 1, sk_closeResult := Some cr\<rparr>)) rows"
          using s1 cols butlast f(2) writer
          by (simp add: sink_done_def releaseBuilder_def batches_ok_def shipped_col_def same_shape_def)
        then show ?thesis using None Inr writer f(1,2) active s1
          by (simp add: sink_Finish_def same_shape_def releaseBuilder_def writer_Close_def Let_def)
      qed
    qed
  qed
qed

text \<open>Failure is sticky, and the writer of a failed sink is closed at most once.\<close>

lemma Finish_failed:
  assumes "sink_failed s e rows"
  shows "\<exists>s' n. sink_Finish en s = Some (s', n, None, Some e) \<and> sink_failed s' e rows \<and> same_shape s s' \<and>
     sk_shipped s' = sk_shipped s \<and> (sk_writer s \<longrightarrow> sk_finished s')"
  using assms
  by (auto simp: sink_Finish_def sink_failed_def closeAfterFailure_def writer_Close_def same_shape_def batches_ok_def
      shipped_col_def Let_def)

lemma RowDone_failed: "sink_failed s e rows \<Longrightarrow> RowDone en s = Some (s, Some e)"
  by (simp add: sink_failed_def RowDone_def)

lemma Finish_done: "sink_done s rows \<Longrightarrow> sink_Finish en s = Some (s, length rows, sk_closeResult s, None)"
  by (simp add: sink_done_def sink_Finish_def)

end
