(* ===== verification/Record_Sinks.thy ===== *)
theory Record_Sinks
  imports Arrow_Sink
begin

text \<open>
  The two record sinks of the SDK: \<open>StringSink\<close> (\<open>sdk/go/arrow/sink.go\<close>) and \<open>InferringSink\<close>
  (\<open>sdk/go/arrow/inferring_sink.go\<close>). Both buffer a first batch while their columns are unknown, fix the schema
  from it and then feed the batching core row by row. A result None is a panic: a released builder, an
  index out of range or a failed type assertion.
\<close>

section \<open>Column plans\<close>

record column_plan =
  cp_names :: "string list"
  cp_extract :: "go_record \<Rightarrow> nat \<Rightarrow> go_value"

definition planFromBatch :: "go_record list \<Rightarrow> column_plan" where
  "planFromBatch batch =
     (let names = sort_strings (concat (map (map fst) batch))
      in \<lparr>cp_names = names, cp_extract = (\<lambda>r i. rec_get r (names ! i))\<rparr>)"

fun typed_columns :: "typed_column list \<Rightarrow> string + (string \<times> arrow_type) list" where
  "typed_columns [] = Inr []"
| "typed_columns (c # cs) =
     (case ArrowTypeFor (tc_type c) of
        Inl e \<Rightarrow> Inl (''arrow: declared column '' @ fmt_q (tc_name c) @ '': '' @ e)
      | Inr t \<Rightarrow> (case typed_columns cs of Inl e \<Rightarrow> Inl e | Inr ts \<Rightarrow> Inr ((tc_name c, t) # ts)))"

definition planFromTypedColumns :: "typed_column list \<Rightarrow> string + (column_plan \<times> arrow_type list)" where
  "planFromTypedColumns cols =
     (case typed_columns cols of
        Inl e \<Rightarrow> Inl e
      | Inr cts \<Rightarrow>
          let names = map fst cts in
          Inr (\<lparr>cp_names = names, cp_extract = (\<lambda>r i. rec_get r (names ! i))\<rparr>, map snd cts))"

definition inferTypesFromBatch :: "go_lib \<Rightarrow> column_plan \<Rightarrow> go_record list \<Rightarrow> arrow_type list" where
  "inferTypesFromBatch lib p batch =
     map arrowTypeForKind
       (fold (\<lambda>r kinds. map (\<lambda>i. joinKind (kinds ! i) (classifyValue lib (cp_extract p r i))) [0..<length (cp_names p)])
          batch (replicate (length (cp_names p)) kindUnset))"

section \<open>State shared by the two sinks\<close>

record sink_settings =
  st_batchRows :: nat
  st_columns :: "column_plan option"
  st_typedColumns :: "typed_column list option"

datatype sink_option =
  OptBatchRows int
| OptColumns "string list" "go_record \<Rightarrow> nat \<Rightarrow> go_value"
| OptTypedColumns "typed_column list"

fun apply_option :: "sink_option \<Rightarrow> sink_settings \<Rightarrow> sink_settings" where
  "apply_option (OptBatchRows n) st = st\<lparr>st_batchRows := WithBatchRows n (st_batchRows st)\<rparr>"
| "apply_option (OptColumns names extract) st = st\<lparr>st_columns := Some \<lparr>cp_names = names, cp_extract = extract\<rparr>\<rparr>"
| "apply_option (OptTypedColumns cols) st = st\<lparr>st_typedColumns := Some cols\<rparr>"

definition settings_of :: "sink_option list \<Rightarrow> sink_settings" where
  "settings_of opts =
     fold apply_option opts \<lparr>st_batchRows = DefaultBatchRows, st_columns = None, st_typedColumns = None\<rparr>"

record facade =
  fa_batchRows :: nat
  fa_core :: "sink option"
  fa_plan :: "column_plan option"
  fa_pending :: "go_record list"
  fa_finished :: bool
  fa_inferredNames :: "string list option"
  fa_unknownKeys :: "string list"
  fa_unknownRecords :: nat

definition MaxTrackedUnknownKeys :: nat where
  "MaxTrackedUnknownKeys = 64"

definition track_key :: "string list \<Rightarrow> string \<Rightarrow> string list \<times> bool \<Rightarrow> string list \<times> bool" where
  "track_key known k us =
     (if k \<in> set known then us
      else if k \<in> set (fst us) then (fst us, True)
      else if length (fst us) \<ge> MaxTrackedUnknownKeys then (fst us, True)
      else (fst us @ [k], True))"

definition trackUnknownKeys :: "'a facade_scheme \<Rightarrow> go_record \<Rightarrow> 'a facade_scheme" where
  "trackUnknownKeys s r =
     (case fa_inferredNames s of
        None \<Rightarrow> s
      | Some known \<Rightarrow>
          (case fold (track_key known) (map fst r) (fa_unknownKeys s, False) of
             (unknown, sawUnknown) \<Rightarrow>
               s\<lparr>fa_unknownKeys := unknown,
                 fa_unknownRecords := (if sawUnknown then Suc (fa_unknownRecords s) else fa_unknownRecords s)\<rparr>))"

definition UnknownKeys :: "'a facade_scheme \<Rightarrow> string list \<times> nat" where
  "UnknownKeys s = (sort (fa_unknownKeys s), fa_unknownRecords s)"

definition core_failed :: "'a facade_scheme \<Rightarrow> sink_error option" where
  "core_failed s = (case fa_core s of None \<Rightarrow> None | Some c \<Rightarrow> sk_failed c)"

definition core_RowDone :: "sink_env \<Rightarrow> 'a facade_scheme \<Rightarrow> ('a facade_scheme \<times> sink_error option) option" where
  "core_RowDone en s =
     (case fa_core s of
        None \<Rightarrow> None
      | Some c \<Rightarrow> map_option (\<lambda>(c', e). (s\<lparr>fa_core := Some c'\<rparr>, e)) (RowDone en c))"

definition core_Finish :: "sink_env \<Rightarrow> 'a facade_scheme \<Rightarrow> ('a facade_scheme \<times> finish_result) option" where
  "core_Finish en s =
     (case fa_core s of
        None \<Rightarrow> None
      | Some c \<Rightarrow> map_option (\<lambda>(c', r). (s\<lparr>fa_core := Some c'\<rparr>, r)) (sink_Finish en c))"

text \<open>Records handed to a sink one by one, up to the first error.\<close>

fun feed :: "('s \<Rightarrow> go_record \<Rightarrow> ('s \<times> sink_error option) option) \<Rightarrow> 's \<Rightarrow> go_record list \<Rightarrow> ('s \<times> sink_error option) option"
where
  "feed add s [] = Some (s, None)"
| "feed add s (r # rs) =
     (case add s r of
        None \<Rightarrow> None
      | Some (s', Some e) \<Rightarrow> Some (s', Some e)
      | Some (s', None) \<Rightarrow> feed add s' rs)"

section \<open>StringSink\<close>

definition adoptPlan :: "facade \<Rightarrow> column_plan \<Rightarrow> bool \<Rightarrow> facade" where
  "adoptPlan s p inferred =
     s\<lparr>fa_plan := Some p,
       fa_core := Some (NewSink (map (\<lambda>n. (n, STRING)) (cp_names p)) (Some (int (fa_batchRows s)))),
       fa_inferredNames := (if inferred then Some (cp_names p) else fa_inferredNames s)\<rparr>"

definition NewStringSink :: "sink_option list \<Rightarrow> facade" where
  "NewStringSink opts =
     (let st = settings_of opts;
          s = \<lparr>fa_batchRows = st_batchRows st, fa_core = None, fa_plan = None, fa_pending = [], fa_finished = False,
               fa_inferredNames = None, fa_unknownKeys = [], fa_unknownRecords = 0\<rparr>
      in case st_columns st of None \<Rightarrow> s | Some p \<Rightarrow> adoptPlan s p False)"

definition string_cell :: "go_lib \<Rightarrow> go_value \<Rightarrow> cell" where
  "string_cell lib v = (case stringifyValue lib v of None \<Rightarrow> CNull | Some c \<Rightarrow> CString c)"

definition string_appendRow :: "go_lib \<Rightarrow> facade \<Rightarrow> go_record \<Rightarrow> facade option" where
  "string_appendRow lib s r =
     (case (fa_core s, fa_plan s) of
        (Some c, Some p) \<Rightarrow>
          (case append_cells c (map (\<lambda>i. [string_cell lib (cp_extract p r i)]) [0..<length (cp_names p)]) of
             None \<Rightarrow> None
           | Some c' \<Rightarrow> Some (trackUnknownKeys (s\<lparr>fa_core := Some c'\<rparr>) r))
      | _ \<Rightarrow> None)"

definition string_row :: "go_lib \<Rightarrow> sink_env \<Rightarrow> facade \<Rightarrow> go_record \<Rightarrow> (facade \<times> sink_error option) option" where
  "string_row lib en s r = (case string_appendRow lib s r of None \<Rightarrow> None | Some s' \<Rightarrow> core_RowDone en s')"

definition string_adopt_pending :: "go_lib \<Rightarrow> sink_env \<Rightarrow> facade \<Rightarrow> (facade \<times> sink_error option) option" where
  "string_adopt_pending lib en s =
     feed (string_row lib en) ((adoptPlan s (planFromBatch (fa_pending s)) True)\<lparr>fa_pending := []\<rparr>) (fa_pending s)"

definition string_Add :: "go_lib \<Rightarrow> sink_env \<Rightarrow> facade \<Rightarrow> go_record \<Rightarrow> (facade \<times> sink_error option) option" where
  "string_Add lib en s r =
     (if core_failed s \<noteq> None then Some (s, core_failed s)
      else if fa_finished s then Some (s, Some (AfterFinish ''arrow: StringSink.Add called after Finish''))
      else if fa_plan s = None then
        let s1 = s\<lparr>fa_pending := fa_pending s @ [r]\<rparr> in
        if length (fa_pending s1) < fa_batchRows s1 then Some (s1, None) else string_adopt_pending lib en s1
      else string_row lib en s r)"

definition facade_end :: "sink_env \<Rightarrow> 'a facade_scheme \<Rightarrow> ('a facade_scheme \<times> finish_result) option" where
  "facade_end en s =
     (let s1 = s\<lparr>fa_finished := True\<rparr> in
      if fa_core s1 = None then Some (s1, 0, None, None) else core_Finish en s1)"

definition string_Finish :: "go_lib \<Rightarrow> sink_env \<Rightarrow> facade \<Rightarrow> (facade \<times> finish_result) option" where
  "string_Finish lib en s =
     (if core_failed s \<noteq> None then core_Finish en s
      else if fa_finished s then
        (case fa_core s of
           None \<Rightarrow> Some (s, 0, None, None)
         | Some c \<Rightarrow> Some (s, sk_rows c, sk_closeResult c, None))
      else if fa_plan s = None \<and> fa_pending s \<noteq> [] then
        (case string_adopt_pending lib en s of
           None \<Rightarrow> None
         | Some (s1, Some e) \<Rightarrow> core_Finish en s1
         | Some (s1, None) \<Rightarrow> facade_end en s1)
      else facade_end en s)"

section \<open>InferringSink\<close>

record inferring = facade +
  in_colTypes :: "arrow_type list option"
  in_fits :: "go_value \<Rightarrow> arrow_type \<Rightarrow> bool"

definition buildCore :: "inferring \<Rightarrow> column_plan \<Rightarrow> arrow_type list \<Rightarrow> inferring" where
  "buildCore s p ts = s\<lparr>fa_core := Some (NewSink (zip (cp_names p) ts) (Some (int (fa_batchRows s))))\<rparr>"

definition conflicting_options :: string where
  "conflicting_options = ''arrow: NewInferringSink: WithTypedColumns and WithColumns are mutually exclusive''"

definition NewInferringSink :: "go_lib \<Rightarrow> sink_option list \<Rightarrow> string + inferring" where
  "NewInferringSink lib opts =
     (let st = settings_of opts in
      if st_columns st \<noteq> None \<and> st_typedColumns st \<noteq> None then Inl conflicting_options
      else
        let s = \<lparr>fa_batchRows = st_batchRows st, fa_core = None, fa_plan = None, fa_pending = [], fa_finished = False,
                 fa_inferredNames = None, fa_unknownKeys = [], fa_unknownRecords = 0,
                 in_colTypes = None, in_fits = valueFitsArrowType lib\<rparr>
        in (case st_typedColumns st of
              Some cols \<Rightarrow>
                (case planFromTypedColumns cols of
                   Inl e \<Rightarrow> Inl e
                 | Inr (p, ts) \<Rightarrow>
                     Inr (buildCore (s\<lparr>fa_plan := Some p, in_colTypes := Some ts, in_fits := declaredValueFits lib\<rparr>) p ts))
            | None \<Rightarrow> Inr (s\<lparr>fa_plan := st_columns st\<rparr>)))"

definition go_type_name :: "go_value \<Rightarrow> string" where
  "go_type_name v =
     (case v of
        VNil \<Rightarrow> ''<nil>'' | VNumber _ \<Rightarrow> ''json.Number'' | VBool _ \<Rightarrow> ''bool'' | VString _ \<Rightarrow> ''string''
      | VFloat _ \<Rightarrow> ''float64'' | VObject _ \<Rightarrow> ''map[string]interface {}'' | VArray _ \<Rightarrow> ''[]interface {}'')"

definition typeViolationPreviewLimit :: nat where
  "typeViolationPreviewLimit = 80"

definition newTypeViolationError :: "go_lib \<Rightarrow> string \<Rightarrow> arrow_type \<Rightarrow> go_value \<Rightarrow> sink_error" where
  "newTypeViolationError lib column t v =
     (let preview = (case stringifyValue lib v of None \<Rightarrow> [] | Some x \<Rightarrow> x) in
      TypeViolationError column t (go_type_name v)
        (if length preview > typeViolationPreviewLimit
         then take typeViolationPreviewLimit preview @ ''...(truncated)'' else preview))"

fun append_values :: "go_lib \<Rightarrow> arrow_type list \<Rightarrow> go_value list \<Rightarrow> cell list list option" where
  "append_values lib (t # ts) (v # vs) =
     (case (appendValueToBuilder lib t v, append_values lib ts vs) of
        (Some c, Some cs) \<Rightarrow> Some (c # cs)
      | _ \<Rightarrow> None)"
| "append_values lib _ _ = Some []"

definition first_misfit :: "(go_value \<Rightarrow> arrow_type \<Rightarrow> bool) \<Rightarrow> arrow_type list \<Rightarrow> go_value list \<Rightarrow> nat option" where
  "first_misfit fits ts vs = find (\<lambda>i. \<not> fits (vs ! i) (ts ! i)) [0..<length vs]"

definition inferring_appendRow :: "go_lib \<Rightarrow> inferring \<Rightarrow> go_record \<Rightarrow> (inferring \<times> sink_error option) option" where
  "inferring_appendRow lib s r =
     (case (fa_core s, fa_plan s, in_colTypes s) of
        (Some c, Some p, Some ts) \<Rightarrow>
          let values = map (cp_extract p r) [0..<length (cp_names p)] in
          (case first_misfit (in_fits s) ts values of
             Some i \<Rightarrow>
               (case fail c (newTypeViolationError lib (cp_names p ! i) (ts ! i) (values ! i)) of
                  (c', e) \<Rightarrow> Some (s\<lparr>fa_core := Some c'\<rparr>, e))
           | None \<Rightarrow>
               (case append_values lib ts values of
                  None \<Rightarrow> None
                | Some cs \<Rightarrow>
                    (case append_cells c cs of
                       None \<Rightarrow> None
                     | Some c' \<Rightarrow> Some (trackUnknownKeys (s\<lparr>fa_core := Some c'\<rparr>) r, None))))
      | _ \<Rightarrow> None)"

definition appendAndRowDone :: "go_lib \<Rightarrow> sink_env \<Rightarrow> inferring \<Rightarrow> go_record \<Rightarrow> (inferring \<times> sink_error option) option" where
  "appendAndRowDone lib en s r =
     (case inferring_appendRow lib s r of
        None \<Rightarrow> None
      | Some (s', Some e) \<Rightarrow> Some (s', Some e)
      | Some (s', None) \<Rightarrow> core_RowDone en s')"

definition adopt_names :: "inferring \<Rightarrow> inferring \<times> column_plan" where
  "adopt_names s =
     (case fa_plan s of
        Some p \<Rightarrow> (s, p)
      | None \<Rightarrow>
          let p = planFromBatch (fa_pending s) in
          (s\<lparr>fa_plan := Some p, fa_inferredNames := Some (cp_names p)\<rparr>, p))"

definition adoptFromPending :: "go_lib \<Rightarrow> sink_env \<Rightarrow> inferring \<Rightarrow> (inferring \<times> sink_error option) option" where
  "adoptFromPending lib en s =
     (case adopt_names s of
        (s1, p) \<Rightarrow>
          let ts = inferTypesFromBatch lib p (fa_pending s1);
              s2 = buildCore (s1\<lparr>in_colTypes := Some ts\<rparr>) p ts
          in feed (appendAndRowDone lib en) (s2\<lparr>fa_pending := []\<rparr>) (fa_pending s2))"

definition inferring_Add :: "go_lib \<Rightarrow> sink_env \<Rightarrow> inferring \<Rightarrow> go_record \<Rightarrow> (inferring \<times> sink_error option) option" where
  "inferring_Add lib en s r =
     (if core_failed s \<noteq> None then Some (s, core_failed s)
      else if fa_finished s then Some (s, Some (AfterFinish ''arrow: InferringSink.Add called after Finish''))
      else if in_colTypes s = None then
        let s1 = s\<lparr>fa_pending := fa_pending s @ [r]\<rparr> in
        if length (fa_pending s1) < fa_batchRows s1 then Some (s1, None) else adoptFromPending lib en s1
      else appendAndRowDone lib en s r)"

definition inferring_Finish :: "go_lib \<Rightarrow> sink_env \<Rightarrow> inferring \<Rightarrow> (inferring \<times> finish_result) option" where
  "inferring_Finish lib en s =
     (if core_failed s \<noteq> None then core_Finish en s
      else if fa_finished s then
        (case fa_core s of
           None \<Rightarrow> Some (s, 0, None, None)
         | Some c \<Rightarrow> Some (s, sk_rows c, sk_closeResult c, None))
      else if in_colTypes s = None \<and> fa_pending s \<noteq> [] then
        (case adoptFromPending lib en s of
           None \<Rightarrow> None
         | Some (s1, Some e) \<Rightarrow> core_Finish en s1
         | Some (s1, None) \<Rightarrow> facade_end en s1)
      else facade_end en s)"

end
