(* ===== verification/Record_Sink_Facts.thy ===== *)
theory Record_Sink_Facts
  imports Record_Sinks
begin

text \<open>
  What the record sinks promise. A contract shared by the sinks is stated as two locales, one for feeding
  records and one that adds \<open>Finish\<close>, with the consequences for arbitrary call sequences; both sinks satisfy it.
\<close>

section \<open>The contract of a record sink\<close>

locale record_feed =
  fixes add :: "'s \<Rightarrow> go_record \<Rightarrow> ('s \<times> sink_error option) option"
    and taking :: "'s \<Rightarrow> go_record list \<Rightarrow> bool"
    and stuck :: "'s \<Rightarrow> sink_error \<Rightarrow> go_record list \<Rightarrow> bool"
  assumes add_taking: "taking s rs \<Longrightarrow> \<exists>s' e. add s r = Some (s', e) \<and> (e = None \<longrightarrow> taking s' (rs @ [r])) \<and>
      (\<forall>x. e = Some x \<longrightarrow> stuck s' x (rs @ [r]))"
    and stuck_extend: "stuck s x rs \<Longrightarrow> stuck s x (rs @ qs)"
begin

lemma feed_taking:
  "taking s rs \<Longrightarrow> \<exists>s' e. feed add s qs = Some (s', e) \<and> (e = None \<longrightarrow> taking s' (rs @ qs)) \<and>
     (\<forall>x. e = Some x \<longrightarrow> stuck s' x (rs @ qs))"
proof (induction qs arbitrary: s rs)
  case Nil
  then show ?case by simp
next
  case (Cons r qs)
  obtain s1 e where s1: "add s r = Some (s1, e)" "e = None \<longrightarrow> taking s1 (rs @ [r])" "\<forall>x. e = Some x \<longrightarrow> stuck s1 x (rs @ [r])"
    using add_taking[OF Cons.prems] by blast
  show ?case
  proof (cases e)
    case None
    then show ?thesis using Cons.IH[of s1 "rs @ [r]"] s1 by simp
  next
    case (Some x)
    then have "stuck s1 x ((rs @ [r]) @ qs)" using s1(3) stuck_extend by blast
    then show ?thesis using s1(1) Some by simp
  qed
qed

end

datatype sink_call = CallAdd go_record | CallFinish

text \<open>What the caller sees of a call: the error, and for \<open>Finish\<close> also the row count and the close result.\<close>

datatype sink_answer = AddAnswer "sink_error option" | FinishAnswer finish_result

fun calls :: "('s \<Rightarrow> go_record \<Rightarrow> ('s \<times> sink_error option) option) \<Rightarrow> ('s \<Rightarrow> ('s \<times> finish_result) option) \<Rightarrow>
    's \<Rightarrow> sink_call list \<Rightarrow> ('s \<times> sink_answer list) option" where
  "calls add fin s [] = Some (s, [])"
| "calls add fin s (CallAdd r # cs) =
     (case add s r of
        None \<Rightarrow> None
      | Some (s', e) \<Rightarrow> map_option (\<lambda>(t, as). (t, AddAnswer e # as)) (calls add fin s' cs))"
| "calls add fin s (CallFinish # cs) =
     (case fin s of
        None \<Rightarrow> None
      | Some (s', r) \<Rightarrow> map_option (\<lambda>(t, as). (t, FinishAnswer r # as)) (calls add fin s' cs))"

definition answer_error :: "sink_answer \<Rightarrow> sink_error option" where
  "answer_error a = (case a of AddAnswer e \<Rightarrow> e | FinishAnswer r \<Rightarrow> snd (snd r))"

definition fatal :: "sink_error \<Rightarrow> bool" where
  "fatal e \<longleftrightarrow> (case e of AfterFinish _ \<Rightarrow> False | _ \<Rightarrow> True)"

text \<open>Once a fatal error has been answered every later answer is that error.\<close>

fun sticky :: "sink_answer list \<Rightarrow> bool" where
  "sticky [] = True"
| "sticky (a # as) \<longleftrightarrow>
     (\<forall>x. answer_error a = Some x \<and> fatal x \<longrightarrow> (\<forall>b \<in> set as. answer_error b = Some x)) \<and> sticky as"

locale record_sink = record_feed +
  fixes fin :: "'a \<Rightarrow> ('a \<times> finish_result) option"
    and complete :: "'a \<Rightarrow> go_record list \<Rightarrow> bool"
  assumes fin_taking: "taking s rs \<Longrightarrow> \<exists>s' n cr e. fin s = Some (s', n, cr, e) \<and>
      (e = None \<longrightarrow> complete s' rs \<and> n = length rs) \<and> (\<forall>x. e = Some x \<longrightarrow> stuck s' x rs)"
    and stuck_fatal: "stuck s x rs \<Longrightarrow> fatal x"
    and add_stuck: "stuck s x rs \<Longrightarrow> add s r = Some (s, Some x)"
    and fin_stuck: "stuck s x rs \<Longrightarrow> \<exists>s' n. fin s = Some (s', n, None, Some x) \<and> stuck s' x rs"
    and add_complete: "complete s rs \<Longrightarrow> \<exists>m. add s r = Some (s, Some (AfterFinish m))"
    and fin_complete: "complete s rs \<Longrightarrow> \<exists>cr. fin s = Some (s, length rs, cr, None)"
begin

lemma calls_stuck:
  "stuck s x rs \<Longrightarrow> \<exists>t as. calls add fin s cs = Some (t, as) \<and> stuck t x rs \<and> (\<forall>a \<in> set as. answer_error a = Some x)"
proof (induction cs arbitrary: s)
  case (Cons c cs)
  show ?case
  proof (cases c)
    case (CallAdd r)
    then show ?thesis using Cons.IH[OF Cons.prems] add_stuck[OF Cons.prems] by (auto simp: answer_error_def)
  next
    case CallFinish
    obtain s' n where "fin s = Some (s', n, None, Some x)" "stuck s' x rs" using fin_stuck[OF Cons.prems] by blast
    then show ?thesis using CallFinish Cons.IH[of s'] by (auto simp: answer_error_def)
  qed
qed simp

lemma stuck_answers_sticky: "\<forall>a \<in> set as. answer_error a = Some x \<Longrightarrow> sticky as"
  by (induction as) auto

lemma calls_complete:
  "complete s rs \<Longrightarrow> \<exists>as. calls add fin s cs = Some (s, as) \<and> sticky as \<and>
     (\<forall>a \<in> set as. case a of AddAnswer e \<Rightarrow> \<exists>m. e = Some (AfterFinish m) | FinishAnswer r \<Rightarrow> fst r = length rs \<and> snd (snd r) = None)"
proof (induction cs)
  case (Cons c cs)
  then obtain as where as: "calls add fin s cs = Some (s, as)" "sticky as"
     "\<forall>a \<in> set as. case a of AddAnswer e \<Rightarrow> \<exists>m. e = Some (AfterFinish m) | FinishAnswer r \<Rightarrow> fst r = length rs \<and> snd (snd r) = None"
    by blast
  show ?case
  proof (cases c)
    case (CallAdd r)
    obtain m where "add s r = Some (s, Some (AfterFinish m))" using add_complete[OF Cons.prems] by blast
    then show ?thesis using CallAdd as by (simp add: answer_error_def fatal_def)
  next
    case CallFinish
    obtain cr where "fin s = Some (s, length rs, cr, None)" using fin_complete[OF Cons.prems] by blast
    then show ?thesis using CallFinish as by (simp add: answer_error_def)
  qed
qed simp

text \<open>Whatever the caller does, no call panics and a fatal error is answered from then on.\<close>

lemma calls_sticky: "taking s rs \<Longrightarrow> \<exists>t as. calls add fin s cs = Some (t, as) \<and> sticky as \<and>
    (\<exists>rs'. taking t rs' \<or> complete t rs' \<or> (\<exists>x. stuck t x rs'))"
proof (induction cs arbitrary: s rs)
  case Nil
  then show ?case by auto
next
  case (Cons c cs)
  show ?case
  proof (cases c)
    case (CallAdd r)
    obtain s1 e where s1: "add s r = Some (s1, e)" "e = None \<longrightarrow> taking s1 (rs @ [r])" "\<forall>x. e = Some x \<longrightarrow> stuck s1 x (rs @ [r])"
      using add_taking[OF Cons.prems] by blast
    show ?thesis
    proof (cases e)
      case None
      then obtain t as where "calls add fin s1 cs = Some (t, as)" "sticky as"
          "\<exists>rs'. taking t rs' \<or> complete t rs' \<or> (\<exists>x. stuck t x rs')"
        using Cons.IH[of s1 "rs @ [r]"] s1 by blast
      then show ?thesis using CallAdd s1(1) None by (simp add: answer_error_def)
    next
      case (Some x)
      then obtain t as where t: "calls add fin s1 cs = Some (t, as)" "stuck t x (rs @ [r])" "\<forall>a \<in> set as. answer_error a = Some x"
        using calls_stuck s1(3) by blast
      then show ?thesis using CallAdd s1(1) Some stuck_answers_sticky[OF t(3)] by (auto simp: answer_error_def)
    qed
  next
    case CallFinish
    obtain s1 n cr e where s1: "fin s = Some (s1, n, cr, e)" "e = None \<longrightarrow> complete s1 rs" "\<forall>x. e = Some x \<longrightarrow> stuck s1 x rs"
      using fin_taking[OF Cons.prems] by blast
    show ?thesis
    proof (cases e)
      case None
      then obtain as where "calls add fin s1 cs = Some (s1, as)" "sticky as" using calls_complete s1(2) by blast
      then show ?thesis using CallFinish s1 None by (auto simp: answer_error_def)
    next
      case (Some x)
      then obtain t as where t: "calls add fin s1 cs = Some (t, as)" "stuck t x rs" "\<forall>a \<in> set as. answer_error a = Some x"
        using calls_stuck s1(3) by blast
      then show ?thesis using CallFinish s1(1) Some stuck_answers_sticky[OF t(3)] by (auto simp: answer_error_def)
    qed
  qed
qed

text \<open>Feeding all records and finishing, as a component does.\<close>

lemma feed_finish:
  assumes "taking s []" "feed add s rs = Some (s1, None)" "fin s1 = Some (s2, n, cr, None)"
  shows "complete s2 rs \<and> n = length rs"
proof -
  have "taking s1 rs" using feed_taking[OF assms(1), of rs] assms(2) by auto
  then show ?thesis using fin_taking[of s1 rs] assms(3) by auto
qed

end

section \<open>States of the two sinks\<close>

definition row_of :: "go_lib \<Rightarrow> column_plan \<Rightarrow> arrow_type list \<Rightarrow> go_record \<Rightarrow> cell list" where
  "row_of lib p ts r = map (\<lambda>i. cell_of lib (ts ! i) (cp_extract p r i)) [0..<length (cp_names p)]"

definition core_shape :: "column_plan \<Rightarrow> arrow_type list \<Rightarrow> sink \<Rightarrow> bool" where
  "core_shape p ts c \<longleftrightarrow> length ts = length (cp_names p) \<and> sk_schema c = zip (cp_names p) ts"

definition running :: "go_lib \<Rightarrow> column_plan \<Rightarrow> arrow_type list \<Rightarrow> 'a facade_scheme \<Rightarrow> go_record list \<Rightarrow> bool" where
  "running lib p ts s rs \<longleftrightarrow> \<not> fa_finished s \<and> fa_plan s = Some p \<and>
     (\<exists>c. fa_core s = Some c \<and> core_shape p ts c \<and> sink_open c (map (row_of lib p ts) rs))"

definition sink_stuck :: "go_lib \<Rightarrow> 'a facade_scheme \<Rightarrow> sink_error \<Rightarrow> go_record list \<Rightarrow> bool" where
  "sink_stuck lib s x rs \<longleftrightarrow> fatal x \<and>
     (\<exists>c p ts. fa_core s = Some c \<and> core_shape p ts c \<and> sink_failed c x (map (row_of lib p ts) rs))"

definition complete_with :: "go_lib \<Rightarrow> column_plan \<Rightarrow> arrow_type list \<Rightarrow> 'a facade_scheme \<Rightarrow> go_record list \<Rightarrow> bool" where
  "complete_with lib p ts s rs \<longleftrightarrow> fa_finished s \<and>
     (fa_core s = None \<and> rs = [] \<or>
      (\<exists>c. fa_core s = Some c \<and> core_shape p ts c \<and> sink_done c (map (row_of lib p ts) rs)))"

definition sink_complete :: "go_lib \<Rightarrow> 'a facade_scheme \<Rightarrow> go_record list \<Rightarrow> bool" where
  "sink_complete lib s rs \<longleftrightarrow> (\<exists>p ts. complete_with lib p ts s rs)"

lemma sink_stuck_extend: "sink_stuck lib s x rs \<Longrightarrow> sink_stuck lib s x (rs @ qs)"
  by (auto simp: sink_stuck_def intro!: sink_failed_extend)

lemma core_shape_length: "core_shape p ts c \<Longrightarrow> length (row_of lib p ts r) = length (sk_schema c)"
  by (simp add: core_shape_def row_of_def)

lemma core_shape_same: "core_shape p ts c \<Longrightarrow> same_shape c c' \<Longrightarrow> core_shape p ts c'"
  by (simp add: core_shape_def same_shape_def)

lemma track_simps [simp]:
  "fa_finished (trackUnknownKeys s r) = fa_finished s" "fa_plan (trackUnknownKeys s r) = fa_plan s"
  "fa_core (trackUnknownKeys s r) = fa_core s" "fa_batchRows (trackUnknownKeys s r) = fa_batchRows s"
  "fa_pending (trackUnknownKeys s r) = fa_pending s"
  by (simp_all add: trackUnknownKeys_def split: option.split prod.split)

lemma track_inferring [simp]:
  "in_colTypes (trackUnknownKeys s r) = in_colTypes s" "in_fits (trackUnknownKeys s r) = in_fits s"
  by (simp_all add: trackUnknownKeys_def split: option.split prod.split)

text \<open>The part every accepted row goes through: its cells are appended, unknown keys noted, the row counted.\<close>

lemma row_through:
  assumes "running lib p ts s rs" "fa_core s = Some c"
  shows "\<exists>c1. append_cells c (map (\<lambda>x. [x]) (row_of lib p ts r)) = Some c1 \<and>
     (\<exists>c2 e. core_RowDone en (trackUnknownKeys (s\<lparr>fa_core := Some c1\<rparr>) r) =
         Some ((trackUnknownKeys (s\<lparr>fa_core := Some c1\<rparr>) r)\<lparr>fa_core := Some c2\<rparr>, e) \<and>
       (e = None \<longrightarrow> running lib p ts ((trackUnknownKeys (s\<lparr>fa_core := Some c1\<rparr>) r)\<lparr>fa_core := Some c2\<rparr>) (rs @ [r])) \<and>
       (\<forall>x. e = Some x \<longrightarrow> (\<exists>m. x = WriteError m) \<and>
          sink_stuck lib ((trackUnknownKeys (s\<lparr>fa_core := Some c1\<rparr>) r)\<lparr>fa_core := Some c2\<rparr>) x (rs @ [r])))"
proof -
  have c: "core_shape p ts c" "sink_open c (map (row_of lib p ts) rs)" "\<not> fa_finished s" "fa_plan s = Some p"
    using assms by (auto simp: running_def)
  obtain c1 c2 e where r: "append_cells c (map (\<lambda>x. [x]) (row_of lib p ts r)) = Some c1" "RowDone en c1 = Some (c2, e)"
    "same_shape c c2" "e = None \<longrightarrow> sink_open c2 (map (row_of lib p ts) (rs @ [r]))"
    "\<forall>x. e = Some x \<longrightarrow> (\<exists>m. x = WriteError m) \<and> sink_failed c2 x (map (row_of lib p ts) (rs @ [r]))"
    using row_accepted[OF c(2) core_shape_length[OF c(1)], of lib r en] by auto
  let ?t = "trackUnknownKeys (s\<lparr>fa_core := Some c1\<rparr>) r"
  have shape: "core_shape p ts c2" using core_shape_same[OF c(1) r(3)] .
  have "core_RowDone en ?t = Some (?t\<lparr>fa_core := Some c2\<rparr>, e)" using r(2) by (simp add: core_RowDone_def)
  moreover have "e = None \<longrightarrow> running lib p ts (?t\<lparr>fa_core := Some c2\<rparr>) (rs @ [r])"
    using r(4) shape c(3,4) by (simp add: running_def)
  moreover have "\<forall>x. e = Some x \<longrightarrow> (\<exists>m. x = WriteError m) \<and> sink_stuck lib (?t\<lparr>fa_core := Some c2\<rparr>) x (rs @ [r])"
    using r(5) shape by (fastforce simp: sink_stuck_def fatal_def)
  ultimately show ?thesis using r(1) by blast
qed

lemma cells_of_row: "map (\<lambda>x. [x]) (row_of lib p ts r) = map (\<lambda>i. [cell_of lib (ts ! i) (cp_extract p r i)]) [0..<length (cp_names p)]"
  by (simp add: row_of_def)

section \<open>Ending\<close>

lemma core_Finish_stuck:
  assumes "sink_stuck lib s x rs"
  shows "\<exists>s' n. core_Finish en s = Some (s', n, None, Some x) \<and> sink_stuck lib s' x rs \<and> core_failed s' = Some x"
proof -
  obtain c p ts where c: "fa_core s = Some c" "core_shape p ts c" "sink_failed c x (map (row_of lib p ts) rs)" "fatal x"
    using assms by (auto simp: sink_stuck_def)
  obtain c' n where c': "sink_Finish en c = Some (c', n, None, Some x)" "sink_failed c' x (map (row_of lib p ts) rs)" "same_shape c c'"
    using Finish_failed[OF c(3)] by blast
  then show ?thesis using c core_shape_same[OF c(2)]
    by (auto simp: core_Finish_def sink_stuck_def core_failed_def sink_failed_def)
qed

lemma facade_end_running:
  assumes "running lib p ts s rs"
  shows "\<exists>s' n cr e. facade_end en s = Some (s', n, cr, e) \<and> (e = None \<longrightarrow> complete_with lib p ts s' rs \<and> n = length rs) \<and>
     (\<forall>x. e = Some x \<longrightarrow> (\<exists>m. x = WriteError m) \<and> sink_stuck lib s' x rs)"
proof -
  obtain c where c: "fa_core s = Some c" "core_shape p ts c" "sink_open c (map (row_of lib p ts) rs)"
    using assms by (auto simp: running_def)
  obtain c' n cr e where c': "sink_Finish en c = Some (c', n, cr, e)" "same_shape c c'"
    "e = None \<longrightarrow> sink_done c' (map (row_of lib p ts) rs) \<and> n = length (map (row_of lib p ts) rs)"
    "\<forall>x. e = Some x \<longrightarrow> (\<exists>m. x = WriteError m) \<and> sink_failed c' x (map (row_of lib p ts) rs)"
    using Finish_open[OF c(3), of en] by blast
  have "core_shape p ts c'" using core_shape_same[OF c(2) c'(2)] .
  then show ?thesis using c(1) c'
    by (auto simp: facade_end_def core_Finish_def complete_with_def sink_stuck_def fatal_def)
qed

lemma stuck_core_failed: "sink_stuck lib s x rs \<Longrightarrow> core_failed s = Some x"
  by (auto simp: sink_stuck_def core_failed_def sink_failed_def)

lemma running_core_failed: "running lib p ts s rs \<Longrightarrow> core_failed s = None"
  by (auto simp: running_def core_failed_def sink_open_def dest: holdingD(1))

lemma complete_core_failed: "sink_complete lib s rs \<Longrightarrow> core_failed s = None"
  by (auto simp: sink_complete_def complete_with_def core_failed_def sink_done_def)

lemma complete_answer:
  "sink_complete lib s rs \<Longrightarrow> \<exists>cr.
   (case fa_core s of None \<Rightarrow> Some (s, 0, None, None) | Some c \<Rightarrow> Some (s, sk_rows c, sk_closeResult c, None)) =
   Some (s, length rs, cr, None)"
  by (auto simp: sink_complete_def complete_with_def sink_done_def)

lemma complete_finished: "sink_complete lib s rs \<Longrightarrow> fa_finished s"
  by (auto simp: sink_complete_def complete_with_def)

lemma complete_withI: "complete_with lib p ts s rs \<Longrightarrow> sink_complete lib s rs"
  by (auto simp: sink_complete_def)

lemma fresh_core:
  "length ts = length (cp_names p) \<Longrightarrow>
   core_shape p ts (NewSink (zip (cp_names p) ts) opt) \<and> sink_open (NewSink (zip (cp_names p) ts) opt) []"
  by (simp add: core_shape_def NewSink_open)

section \<open>The string sink\<close>

definition string_types :: "column_plan \<Rightarrow> arrow_type list" where
  "string_types p = replicate (length (cp_names p)) STRING"

lemma string_cell_of: "string_cell lib v = cell_of lib STRING v"
  by (auto simp: string_cell_def cell_of_def appendValueToBuilder_def stringifyValue_def)

lemma string_schema: "map (\<lambda>n. (n, STRING)) (cp_names p) = zip (cp_names p) (string_types p)"
  by (simp add: string_types_def zip_replicate2)

interpretation string_rows: record_feed "string_row lib en" "running lib p (string_types p)" "sink_stuck lib" for lib en p
proof
  fix s :: facade and rs :: "go_record list" and r
  assume run: "running lib p (string_types p) s rs"
  then obtain c where c: "fa_core s = Some c" "fa_plan s = Some p" by (auto simp: running_def)
  have "map (\<lambda>i. [string_cell lib (cp_extract p r i)]) [0..<length (cp_names p)] = map (\<lambda>x. [x]) (row_of lib p (string_types p) r)"
    by (simp add: row_of_def string_types_def string_cell_of)
  then show "\<exists>s' e. string_row lib en s r = Some (s', e) \<and> (e = None \<longrightarrow> running lib p (string_types p) s' (rs @ [r])) \<and>
      (\<forall>x. e = Some x \<longrightarrow> sink_stuck lib s' x (rs @ [r]))"
    using row_through[OF run c(1), of r en] c by (auto simp: string_row_def string_appendRow_def)
qed (rule sink_stuck_extend)

definition string_taking :: "go_lib \<Rightarrow> facade \<Rightarrow> go_record list \<Rightarrow> bool" where
  "string_taking lib s rs \<longleftrightarrow>
     \<not> fa_finished s \<and> fa_plan s = None \<and> fa_core s = None \<and> fa_pending s = rs \<and> 0 < fa_batchRows s \<or>
     (\<exists>p. running lib p (string_types p) s rs)"

lemma string_adopted: "running lib (planFromBatch (fa_pending s)) (string_types (planFromBatch (fa_pending s)))
    ((adoptPlan s (planFromBatch (fa_pending s)) True)\<lparr>fa_pending := []\<rparr>) []" if "\<not> fa_finished s"
  using that fresh_core[of "string_types (planFromBatch (fa_pending s))" "planFromBatch (fa_pending s)"]
  by (simp add: running_def adoptPlan_def string_schema string_types_def)

lemma string_adopt_runs:
  assumes "\<not> fa_finished s"
  shows "\<exists>s' e p. string_adopt_pending lib en s = Some (s', e) \<and> (e = None \<longrightarrow> running lib p (string_types p) s' (fa_pending s)) \<and>
     (\<forall>x. e = Some x \<longrightarrow> sink_stuck lib s' x (fa_pending s))"
  using string_rows.feed_taking[OF string_adopted[OF assms], of lib en "fa_pending s"]
  unfolding string_adopt_pending_def by auto

lemma string_taking_cases:
  assumes "string_taking lib s rs"
  obtains "\<not> fa_finished s" "fa_plan s = None" "fa_core s = None" "fa_pending s = rs" "0 < fa_batchRows s"
  | p where "running lib p (string_types p) s rs"
  using assms by (auto simp: string_taking_def)

lemma running_facts: "running lib p ts s rs \<Longrightarrow> \<not> fa_finished s \<and> fa_plan s = Some p \<and> fa_core s \<noteq> None"
  by (auto simp: running_def)

lemma string_Add_taking:
  assumes "string_taking lib s rs"
  shows "\<exists>s' e. string_Add lib en s r = Some (s', e) \<and> (e = None \<longrightarrow> string_taking lib s' (rs @ [r])) \<and>
     (\<forall>x. e = Some x \<longrightarrow> sink_stuck lib s' x (rs @ [r]))"
  using assms
proof (cases rule: string_taking_cases)
  case 1
  let ?s = "s\<lparr>fa_pending := fa_pending s @ [r]\<rparr>"
  show ?thesis
  proof (cases "length (fa_pending ?s) < fa_batchRows ?s")
    case True
    then show ?thesis using 1 by (simp add: string_Add_def core_failed_def string_taking_def)
  next
    case False
    then have "string_Add lib en s r = string_adopt_pending lib en ?s"
      using 1 by (simp add: string_Add_def core_failed_def)
    then show ?thesis using string_adopt_runs[of ?s lib en] 1 by (auto simp: string_taking_def)
  qed
next
  case (2 p)
  then have "string_Add lib en s r = string_row lib en s r"
    using running_facts[OF 2] running_core_failed[OF 2] by (simp add: string_Add_def)
  then show ?thesis using string_rows.add_taking[OF 2, of en r] by (auto simp: string_taking_def)
qed

lemma string_Finish_taking:
  assumes "string_taking lib s rs"
  shows "\<exists>s' n cr e. string_Finish lib en s = Some (s', n, cr, e) \<and> (e = None \<longrightarrow> sink_complete lib s' rs \<and> n = length rs) \<and>
     (\<forall>x. e = Some x \<longrightarrow> sink_stuck lib s' x rs)"
  using assms
proof (cases rule: string_taking_cases)
  case 1
  show ?thesis
  proof (cases "rs = []")
    case True
    then show ?thesis using 1 by (simp add: string_Finish_def core_failed_def facade_end_def sink_complete_def complete_with_def)
  next
    case False
    obtain s1 e p where s1: "string_adopt_pending lib en s = Some (s1, e)" "e = None \<longrightarrow> running lib p (string_types p) s1 rs"
      "\<forall>x. e = Some x \<longrightarrow> sink_stuck lib s1 x rs"
      using string_adopt_runs[OF 1(1), of lib en] 1(4) by auto
    show ?thesis
    proof (cases e)
      case None
      then have "string_Finish lib en s = facade_end en s1" using 1 False s1(1) by (simp add: string_Finish_def core_failed_def)
      then show ?thesis using None facade_end_running[of lib p "string_types p" s1 rs en] s1(2) complete_withI by auto
    next
      case (Some x)
      then have "string_Finish lib en s = core_Finish en s1" using 1 False s1(1) by (simp add: string_Finish_def core_failed_def)
      then show ?thesis using Some core_Finish_stuck[of lib s1 x rs en] s1(3) by auto
    qed
  qed
next
  case (2 p)
  then have "string_Finish lib en s = facade_end en s"
    using running_facts[OF 2] running_core_failed[OF 2] by (simp add: string_Finish_def)
  then show ?thesis using facade_end_running[OF 2, of en] complete_withI by auto
qed

interpretation string_sink: record_sink "string_Add lib en" "string_taking lib" "sink_stuck lib" "string_Finish lib en" "sink_complete lib"
  for lib en
proof
  fix s :: facade and rs qs :: "go_record list" and r x
  show "string_taking lib s rs \<Longrightarrow> \<exists>s' e. string_Add lib en s r = Some (s', e) \<and> (e = None \<longrightarrow> string_taking lib s' (rs @ [r])) \<and>
     (\<forall>x. e = Some x \<longrightarrow> sink_stuck lib s' x (rs @ [r]))" by (rule string_Add_taking)
  show "sink_stuck lib s x rs \<Longrightarrow> sink_stuck lib s x (rs @ qs)" by (rule sink_stuck_extend)
  show "string_taking lib s rs \<Longrightarrow> \<exists>s' n cr e. string_Finish lib en s = Some (s', n, cr, e) \<and>
     (e = None \<longrightarrow> sink_complete lib s' rs \<and> n = length rs) \<and> (\<forall>x. e = Some x \<longrightarrow> sink_stuck lib s' x rs)"
    by (rule string_Finish_taking)
  show "sink_stuck lib s x rs \<Longrightarrow> fatal x" by (simp add: sink_stuck_def)
  show "sink_stuck lib s x rs \<Longrightarrow> string_Add lib en s r = Some (s, Some x)"
    using stuck_core_failed[of lib s x rs] by (simp add: string_Add_def)
  show "sink_stuck lib s x rs \<Longrightarrow> \<exists>s' n. string_Finish lib en s = Some (s', n, None, Some x) \<and> sink_stuck lib s' x rs"
    using stuck_core_failed[of lib s x rs] core_Finish_stuck[of lib s x rs en] by (auto simp: string_Finish_def)
  show "sink_complete lib s rs \<Longrightarrow> \<exists>m. string_Add lib en s r = Some (s, Some (AfterFinish m))"
    using complete_core_failed[of lib s rs] complete_finished[of lib s rs] by (simp add: string_Add_def)
  show "sink_complete lib s rs \<Longrightarrow> \<exists>cr. string_Finish lib en s = Some (s, length rs, cr, None)"
    using complete_core_failed[of lib s rs] complete_answer[of lib s rs] complete_finished[of lib s rs]
    by (simp add: string_Finish_def)
qed

lemma settings_batchRows: "0 < st_batchRows (settings_of opts)"
proof -
  have "0 < st_batchRows st \<Longrightarrow> 0 < st_batchRows (fold apply_option opts st)" for st
  proof (induction opts arbitrary: st)
    case (Cons opt opts)
    have "0 < st_batchRows (apply_option opt st)" using Cons.prems by (cases opt) (simp_all add: WithBatchRows_def)
    then show ?case using Cons.IH by simp
  qed simp
  then show ?thesis by (simp add: settings_of_def DefaultBatchRows_def)
qed

lemma NewStringSink_taking: "string_taking lib (NewStringSink opts) []"
  using fresh_core[of "string_types p" p for p] settings_batchRows[of opts]
  by (auto simp: NewStringSink_def string_taking_def running_def adoptPlan_def string_schema string_types_def Let_def split: option.splits)

section \<open>The inferring sink\<close>

definition fits_ok :: "go_lib \<Rightarrow> (go_value \<Rightarrow> arrow_type \<Rightarrow> bool) \<Rightarrow> arrow_type list \<Rightarrow> bool" where
  "fits_ok lib fits ts \<longleftrightarrow> (\<forall>t \<in> set ts. \<forall>v. fits v t \<longrightarrow> appendValueToBuilder lib t v = Some [cell_of lib t v])"

definition inferring_running :: "go_lib \<Rightarrow> (go_value \<Rightarrow> arrow_type \<Rightarrow> bool) \<Rightarrow> column_plan \<Rightarrow> arrow_type list \<Rightarrow> inferring \<Rightarrow> go_record list \<Rightarrow> bool" where
  "inferring_running lib fits p ts s rs \<longleftrightarrow>
     running lib p ts s rs \<and> in_colTypes s = Some ts \<and> in_fits s = fits \<and> fits_ok lib fits ts"

lemma append_values_fit:
  "length vs = length ts \<Longrightarrow> fits_ok lib fits ts \<Longrightarrow> \<forall>i < length vs. fits (vs ! i) (ts ! i) \<Longrightarrow>
   append_values lib ts vs = Some (map (\<lambda>i. [cell_of lib (ts ! i) (vs ! i)]) [0..<length vs])"
proof (induction ts arbitrary: vs)
  case (Cons t ts)
  then obtain v vs' where vs: "vs = v # vs'" by (cases vs) auto
  have rest: "append_values lib ts vs' = Some (map (\<lambda>i. [cell_of lib (ts ! i) (vs' ! i)]) [0..<length vs'])"
  proof (rule Cons.IH)
    show "length vs' = length ts" "fits_ok lib fits ts" using Cons.prems vs by (simp_all add: fits_ok_def)
    show "\<forall>i < length vs'. fits (vs' ! i) (ts ! i)" using Cons.prems(3) vs by (metis Suc_less_eq length_Cons nth_Cons_Suc)
  qed
  have hd: "appendValueToBuilder lib t v = Some [cell_of lib t v]" using Cons.prems vs by (auto simp: fits_ok_def)
  have "[0..<length vs] = 0 # map Suc [0..<length vs']" using vs by (simp add: upt_conv_Cons map_Suc_upt del: upt_Suc)
  then show ?case using rest hd vs by (simp del: upt_Suc)
qed simp

lemma first_misfit_None: "first_misfit fits ts vs = None \<longleftrightarrow> (\<forall>i < length vs. fits (vs ! i) (ts ! i))"
  by (auto simp: first_misfit_def find_None_iff)

lemma stuckI: "fa_core s = Some c \<Longrightarrow> core_shape p ts c \<Longrightarrow> sink_failed c x (map (row_of lib p ts) rs) \<Longrightarrow> fatal x \<Longrightarrow>
    sink_stuck lib s x rs"
  unfolding sink_stuck_def by blast

lemma violation_fatal: "fatal (newTypeViolationError lib n t v)"
  by (simp add: newTypeViolationError_def Let_def fatal_def)

lemma fail_open:
  assumes "sink_open c rows" shows "\<exists>c'. fail c e = (c', Some e) \<and> sink_failed c' e rows \<and> same_shape c c'"
proof -
  have h: "sink_holding c rows" using assms by (simp add: sink_open_def)
  have "fail c e = fail (c\<lparr>sk_writer := sk_writer c, sk_builder := sk_builder c\<rparr>) e" by simp
  then show ?thesis using holding_failed[OF h refl, of _ _ e] by (metis fail_def fst_conv)
qed

lemma inferring_row:
  assumes run: "inferring_running lib fits p ts s rs"
  shows "\<exists>s' e. appendAndRowDone lib en s r = Some (s', e) \<and> (e = None \<longrightarrow> inferring_running lib fits p ts s' (rs @ [r])) \<and>
     (\<forall>x. e = Some x \<longrightarrow> sink_stuck lib s' x (rs @ [r])) \<and>
     ((\<forall>i < length ts. fits (cp_extract p r i) (ts ! i)) \<longrightarrow> (\<forall>x. e = Some x \<longrightarrow> (\<exists>m. x = WriteError m)))"
proof -
  have r: "running lib p ts s rs" "in_colTypes s = Some ts" "fits_ok lib fits ts" "in_fits s = fits"
    using run by (auto simp: inferring_running_def)
  obtain c where c: "fa_core s = Some c" "fa_plan s = Some p" "core_shape p ts c" "sink_open c (map (row_of lib p ts) rs)"
    using r(1) by (auto simp: running_def)
  have len: "length ts = length (cp_names p)" using c(3) by (simp add: core_shape_def)
  let ?vs = "map (cp_extract p r) [0..<length (cp_names p)]"
  show ?thesis
  proof (cases "first_misfit fits ts ?vs")
    case None
    then have "append_values lib ts ?vs = Some (map (\<lambda>i. [cell_of lib (ts ! i) (?vs ! i)]) [0..<length ?vs])"
      using append_values_fit[OF _ r(3), of ?vs] len first_misfit_None by auto
    also have "map (\<lambda>i. [cell_of lib (ts ! i) (?vs ! i)]) [0..<length ?vs] = map (\<lambda>x. [x]) (row_of lib p ts r)"
      by (simp add: row_of_def)
    finally have cells: "append_values lib ts ?vs = Some (map (\<lambda>x. [x]) (row_of lib p ts r))" .
    obtain c1 c2 e where t: "append_cells c (map (\<lambda>x. [x]) (row_of lib p ts r)) = Some c1"
      "core_RowDone en (trackUnknownKeys (s\<lparr>fa_core := Some c1\<rparr>) r) =
         Some ((trackUnknownKeys (s\<lparr>fa_core := Some c1\<rparr>) r)\<lparr>fa_core := Some c2\<rparr>, e)"
      "e = None \<longrightarrow> running lib p ts ((trackUnknownKeys (s\<lparr>fa_core := Some c1\<rparr>) r)\<lparr>fa_core := Some c2\<rparr>) (rs @ [r])"
      "\<forall>x. e = Some x \<longrightarrow> (\<exists>m. x = WriteError m) \<and>
          sink_stuck lib ((trackUnknownKeys (s\<lparr>fa_core := Some c1\<rparr>) r)\<lparr>fa_core := Some c2\<rparr>) x (rs @ [r])"
      using row_through[OF r(1) c(1), of r en] by blast
    have "appendAndRowDone lib en s r = Some ((trackUnknownKeys (s\<lparr>fa_core := Some c1\<rparr>) r)\<lparr>fa_core := Some c2\<rparr>, e)"
      using None cells t(1,2) c(1,2) r(2,4) by (simp add: appendAndRowDone_def inferring_appendRow_def Let_def)
    then show ?thesis using t(3,4) r(2-4) by (simp add: inferring_running_def)
  next
    case (Some i)
    let ?e = "newTypeViolationError lib (cp_names p ! i) (ts ! i) (?vs ! i)"
    obtain c' where c': "fail c ?e = (c', Some ?e)" "sink_failed c' ?e (map (row_of lib p ts) rs)" "same_shape c c'"
      using fail_open[OF c(4), of ?e] by blast
    have "appendAndRowDone lib en s r = Some (s\<lparr>fa_core := Some c'\<rparr>, Some ?e)"
      using Some c(1,2) r(2,4) c'(1) by (simp add: appendAndRowDone_def inferring_appendRow_def Let_def)
    moreover have "sink_stuck lib (s\<lparr>fa_core := Some c'\<rparr>) ?e rs"
      by (rule stuckI[OF _ core_shape_same[OF c(3) c'(3)] c'(2) violation_fatal]) simp
    moreover have "\<not> (\<forall>i < length ts. fits (cp_extract p r i) (ts ! i))"
    proof
      assume fits: "\<forall>i < length ts. fits (cp_extract p r i) (ts ! i)"
      have "first_misfit fits ts ?vs = None" unfolding first_misfit_None using fits len by simp
      then show False using Some by simp
    qed
    ultimately show ?thesis using sink_stuck_extend[of lib "s\<lparr>fa_core := Some c'\<rparr>" ?e rs "[r]"] by (simp, blast)
  qed
qed

interpretation inferring_rows: record_feed "appendAndRowDone lib en" "inferring_running lib fits p ts" "sink_stuck lib" for lib en fits p ts
proof
  fix s :: inferring and rs qs r x
  show "inferring_running lib fits p ts s rs \<Longrightarrow> \<exists>s' e. appendAndRowDone lib en s r = Some (s', e) \<and>
      (e = None \<longrightarrow> inferring_running lib fits p ts s' (rs @ [r])) \<and> (\<forall>x. e = Some x \<longrightarrow> sink_stuck lib s' x (rs @ [r]))"
    by (drule inferring_row[of _ _ _ _ _ _ en r]) blast
  show "sink_stuck lib s x rs \<Longrightarrow> sink_stuck lib s x (rs @ qs)" by (rule sink_stuck_extend)
qed

lemma feed_fitting:
  "inferring_running lib fits p ts s rs \<Longrightarrow> \<forall>r \<in> set qs. \<forall>i < length ts. fits (cp_extract p r i) (ts ! i) \<Longrightarrow>
   feed (appendAndRowDone lib en) s qs = Some (s', Some x) \<Longrightarrow> \<exists>m. x = WriteError m"
proof (induction qs arbitrary: s rs)
  case (Cons q qs)
  obtain s1 e where s1: "appendAndRowDone lib en s q = Some (s1, e)" "e = None \<longrightarrow> inferring_running lib fits p ts s1 (rs @ [q])"
    "\<forall>x. e = Some x \<longrightarrow> (\<exists>m. x = WriteError m)"
    using inferring_row[OF Cons.prems(1), of en q] Cons.prems(2) by auto
  show ?case
  proof (cases e)
    case None
    then show ?thesis using Cons.IH[of s1 "rs @ [q]"] s1 Cons.prems(2,3) by simp
  next
    case (Some y)
    then show ?thesis using s1 Cons.prems(3) by simp
  qed
qed simp

subsection \<open>Types inferred from a batch\<close>

lemma inferred_kinds:
  "length kinds = length (cp_names p) \<Longrightarrow>
   fold (\<lambda>r kinds. map (\<lambda>i. joinKind (kinds ! i) (classifyValue lib (cp_extract p r i))) [0..<length (cp_names p)]) batch kinds =
   map (\<lambda>i. fold_kinds lib (kinds ! i) (map (\<lambda>r. cp_extract p r i) batch)) [0..<length (cp_names p)]"
proof (induction batch arbitrary: kinds)
  case Nil
  then show ?case using map_nth[of kinds] by simp
next
  case (Cons r batch)
  then show ?case by simp
qed

lemma inferTypes_eq: "inferTypesFromBatch lib p batch =
   map (\<lambda>i. arrowTypeForKind (fold_kinds lib kindUnset (map (\<lambda>r. cp_extract p r i) batch))) [0..<length (cp_names p)]"
  by (simp add: inferTypesFromBatch_def inferred_kinds)

lemma inferTypes_length [simp]: "length (inferTypesFromBatch lib p batch) = length (cp_names p)"
  by (simp add: inferTypes_eq)

lemma inferred_fit:
  assumes "r \<in> set batch" "i < length (cp_names p)"
  shows "valueFitsArrowType lib (cp_extract p r i) (inferTypesFromBatch lib p batch ! i)"
  using assms kind_fits[OF fold_kinds_bound] by (simp add: inferTypes_eq)

lemma inferred_fits_ok: "fits_ok lib (valueFitsArrowType lib) (inferTypesFromBatch lib p batch)"
proof -
  have "arrowTypeForKind k \<noteq> INT32" for k by (cases k) (simp_all add: arrowTypeForKind_def)
  then show ?thesis using inferred_fit_appends by (auto simp: fits_ok_def inferTypes_eq)
qed

lemma declared_fits_ok: "fits_ok lib (declaredValueFits lib) ts"
  using declared_fit_appends by (auto simp: fits_ok_def)

end
