(* ===== verification/Record_Delivery.thy ===== *)
theory Record_Delivery
  imports Record_Sink_Facts
begin

text \<open>
  The inferring sink satisfies the contract of a record sink, and what follows for a component that feeds it:
  delivery of every record in order, sticky errors under any sequence of calls, and no type violation
  inside the sampled batch.
\<close>

section \<open>Where the columns come from\<close>

text \<open>The columns a sink ends up with, by the options it was built with: declared, or inferred from the first \<open>n\<close>
  records, with the names given or collected from them.\<close>

datatype column_mode = Sample "column_plan option" | Declared column_plan "arrow_type list"

definition columns_for :: "go_lib \<Rightarrow> nat \<Rightarrow> column_mode \<Rightarrow> go_record list \<Rightarrow> column_plan \<times> arrow_type list" where
  "columns_for lib n mode rs =
     (case mode of
        Declared p ts \<Rightarrow> (p, ts)
      | Sample given \<Rightarrow>
          let p = (case given of None \<Rightarrow> planFromBatch (take n rs) | Some q \<Rightarrow> q)
          in (p, inferTypesFromBatch lib p (take n rs)))"

definition fits_for :: "go_lib \<Rightarrow> column_mode \<Rightarrow> go_value \<Rightarrow> arrow_type \<Rightarrow> bool" where
  "fits_for lib mode = (case mode of Declared _ _ \<Rightarrow> declaredValueFits lib | Sample _ \<Rightarrow> valueFitsArrowType lib)"

section \<open>The inferring sink as a record sink\<close>

definition sampling :: "go_lib \<Rightarrow> nat \<Rightarrow> column_plan option \<Rightarrow> inferring \<Rightarrow> go_record list \<Rightarrow> bool" where
  "sampling lib n given s rs \<longleftrightarrow>
     \<not> fa_finished s \<and> in_colTypes s = None \<and> fa_core s = None \<and> fa_pending s = rs \<and> length rs < n \<and>
     fa_batchRows s = n \<and> fa_plan s = given \<and> in_fits s = valueFitsArrowType lib"

definition typed :: "go_lib \<Rightarrow> nat \<Rightarrow> column_mode \<Rightarrow> inferring \<Rightarrow> go_record list \<Rightarrow> bool" where
  "typed lib n mode s rs \<longleftrightarrow> (\<forall>g. mode = Sample g \<longrightarrow> n \<le> length rs) \<and>
     inferring_running lib (fits_for lib mode) (fst (columns_for lib n mode rs)) (snd (columns_for lib n mode rs)) s rs"

definition inferring_taking :: "go_lib \<Rightarrow> nat \<Rightarrow> column_mode \<Rightarrow> inferring \<Rightarrow> go_record list \<Rightarrow> bool" where
  "inferring_taking lib n mode s rs \<longleftrightarrow> (\<exists>g. mode = Sample g \<and> sampling lib n g s rs) \<or> typed lib n mode s rs"

definition inferring_complete :: "go_lib \<Rightarrow> nat \<Rightarrow> column_mode \<Rightarrow> inferring \<Rightarrow> go_record list \<Rightarrow> bool" where
  "inferring_complete lib n mode s rs \<longleftrightarrow>
     complete_with lib (fst (columns_for lib n mode rs)) (snd (columns_for lib n mode rs)) s rs"

lemma columns_for_extend: "\<forall>g. mode = Sample g \<longrightarrow> n \<le> length rs \<Longrightarrow> columns_for lib n mode (rs @ qs) = columns_for lib n mode rs"
  by (cases mode) (simp_all add: columns_for_def split: option.split)

lemma inferring_running_facts:
  "inferring_running lib fits p ts s rs \<Longrightarrow>
   \<not> fa_finished s \<and> in_colTypes s = Some ts \<and> core_failed s = None \<and> running lib p ts s rs"
  using running_facts[of lib p ts s rs] running_core_failed[of lib p ts s rs] by (simp add: inferring_running_def)

lemma adopted_running:
  assumes "\<not> fa_finished s" "in_fits s = valueFitsArrowType lib" "length (fa_pending s) \<le> n"
  shows "\<exists>s2 p. adoptFromPending lib en s = feed (appendAndRowDone lib en) s2 (fa_pending s) \<and>
     columns_for lib n (Sample (fa_plan s)) (fa_pending s) = (p, inferTypesFromBatch lib p (fa_pending s)) \<and>
     inferring_running lib (valueFitsArrowType lib) p (inferTypesFromBatch lib p (fa_pending s)) s2 []"
proof -
  obtain s1 p where n: "adopt_names s = (s1, p)" by (cases "adopt_names s")
  have s1: "fa_plan s1 = Some p" "fa_pending s1 = fa_pending s" "fa_finished s1 = fa_finished s" "in_fits s1 = in_fits s"
    "p = (case fa_plan s of None \<Rightarrow> planFromBatch (fa_pending s) | Some q \<Rightarrow> q)"
    using n by (auto simp: adopt_names_def Let_def split: option.splits)
  let ?ts = "inferTypesFromBatch lib p (fa_pending s)"
  let ?s2 = "(buildCore (s1\<lparr>in_colTypes := Some ?ts\<rparr>) p ?ts)\<lparr>fa_pending := []\<rparr>"
  have "adoptFromPending lib en s = feed (appendAndRowDone lib en) ?s2 (fa_pending s)"
    using n s1(2) by (simp add: adoptFromPending_def Let_def buildCore_def)
  moreover have "inferring_running lib (valueFitsArrowType lib) p ?ts ?s2 []"
    using fresh_core[of ?ts p] s1(1-4) assms(1,2) inferred_fits_ok by (simp add: inferring_running_def running_def buildCore_def)
  moreover have "columns_for lib n (Sample (fa_plan s)) (fa_pending s) = (p, ?ts)"
    using s1(5) assms(3) by (simp add: columns_for_def Let_def split: option.split)
  ultimately show ?thesis by blast
qed

lemma adopt_runs:
  assumes "\<not> fa_finished s" "in_fits s = valueFitsArrowType lib" "length (fa_pending s) \<le> n"
    and cols: "columns_for lib n (Sample (fa_plan s)) (fa_pending s) = (p, ts)"
  shows "\<exists>s' e. adoptFromPending lib en s = Some (s', e) \<and>
     (e = None \<longrightarrow> inferring_running lib (valueFitsArrowType lib) p ts s' (fa_pending s)) \<and>
     (\<forall>x. e = Some x \<longrightarrow> sink_stuck lib s' x (fa_pending s) \<and> (\<exists>m. x = WriteError m))"
proof -
  obtain s2 where a: "adoptFromPending lib en s = feed (appendAndRowDone lib en) s2 (fa_pending s)"
    "ts = inferTypesFromBatch lib p (fa_pending s)" "inferring_running lib (valueFitsArrowType lib) p ts s2 []"
    using adopted_running[OF assms(1-3), of en] cols by auto
  have "\<forall>r \<in> set (fa_pending s). \<forall>i < length ts. valueFitsArrowType lib (cp_extract p r i) (ts ! i)"
    using inferred_fit a(2) by simp
  then have "\<exists>m. x = WriteError m" if "adoptFromPending lib en s = Some (s', Some x)" for s' x
    using feed_fitting[OF a(3)] that a(1) by metis
  then show ?thesis using inferring_rows.feed_taking[OF a(3), of en "fa_pending s"] a(1) by auto
qed

lemma inferring_Add_taking:
  assumes "inferring_taking lib n mode s rs"
  shows "\<exists>s' e. inferring_Add lib en s r = Some (s', e) \<and> (e = None \<longrightarrow> inferring_taking lib n mode s' (rs @ [r])) \<and>
     (\<forall>x. e = Some x \<longrightarrow> sink_stuck lib s' x (rs @ [r]) \<and>
        (length rs < n \<and> (\<exists>g. mode = Sample g) \<longrightarrow> (\<exists>m. x = WriteError m)))"
proof (cases "\<exists>g. mode = Sample g \<and> sampling lib n g s rs")
  case True
  let ?s = "s\<lparr>fa_pending := fa_pending s @ [r]\<rparr>"
  have s: "\<not> fa_finished s" "in_colTypes s = None" "fa_core s = None" "fa_pending s = rs" "in_fits s = valueFitsArrowType lib"
    "fa_batchRows s = n" "length rs < n" "mode = Sample (fa_plan s)"
    using True unfolding sampling_def by blast+
  show ?thesis
  proof (cases "length (fa_pending ?s) < fa_batchRows ?s")
    case True
    then show ?thesis using s by (simp add: inferring_Add_def core_failed_def inferring_taking_def sampling_def)
  next
    case False
    then have add: "inferring_Add lib en s r = adoptFromPending lib en ?s" and len: "n = length (rs @ [r])"
      using s by (simp_all add: inferring_Add_def core_failed_def)
    obtain p ts where cols: "columns_for lib n mode (rs @ [r]) = (p, ts)" by (cases "columns_for lib n mode (rs @ [r])")
    obtain s' e where a: "adoptFromPending lib en ?s = Some (s', e)"
      "e = None \<longrightarrow> inferring_running lib (valueFitsArrowType lib) p ts s' (rs @ [r])"
      "\<forall>x. e = Some x \<longrightarrow> sink_stuck lib s' x (rs @ [r]) \<and> (\<exists>m. x = WriteError m)"
      using adopt_runs[of ?s lib n p ts en] s cols len by auto
    then have "e = None \<longrightarrow> typed lib n mode s' (rs @ [r])" using cols len s(8) by (simp add: typed_def fits_for_def)
    then have "e = None \<longrightarrow> inferring_taking lib n mode s' (rs @ [r])" unfolding inferring_taking_def by blast
    then show ?thesis using add a(1,3) by simp
  qed
next
  case False
  then have t: "typed lib n mode s rs" using assms unfolding inferring_taking_def by blast
  obtain p ts where cols: "columns_for lib n mode rs = (p, ts)" by (cases "columns_for lib n mode rs")
  have run: "inferring_running lib (fits_for lib mode) p ts s rs" "\<forall>g. mode = Sample g \<longrightarrow> n \<le> length rs"
    using t cols by (simp_all add: typed_def)
  obtain s' e where a: "appendAndRowDone lib en s r = Some (s', e)"
    "e = None \<longrightarrow> inferring_running lib (fits_for lib mode) p ts s' (rs @ [r])" "\<forall>x. e = Some x \<longrightarrow> sink_stuck lib s' x (rs @ [r])"
    using inferring_rows.add_taking[OF run(1), of en r] by blast
  have "inferring_Add lib en s r = Some (s', e)"
    using inferring_running_facts[OF run(1)] a(1) by (simp add: inferring_Add_def)
  moreover have "e = None \<longrightarrow> typed lib n mode s' (rs @ [r])"
    using a(2) run(2) cols columns_for_extend[OF run(2), of lib "[r]"] by (auto simp: typed_def)
  moreover have "\<not> (length rs < n \<and> (\<exists>g. mode = Sample g))" using run(2) by auto
  moreover from calculation(2) have "e = None \<longrightarrow> inferring_taking lib n mode s' (rs @ [r])" unfolding inferring_taking_def by blast
  ultimately show ?thesis using a(3) by (simp, blast)
qed

lemma inferring_Finish_taking:
  assumes "inferring_taking lib n mode s rs"
  shows "\<exists>s' k cr e. inferring_Finish lib en s = Some (s', k, cr, e) \<and> (e = None \<longrightarrow> inferring_complete lib n mode s' rs \<and> k = length rs) \<and>
     (\<forall>x. e = Some x \<longrightarrow> sink_stuck lib s' x rs \<and> (\<exists>m. x = WriteError m))"
proof (cases "\<exists>g. mode = Sample g \<and> sampling lib n g s rs")
  case True
  have s: "\<not> fa_finished s" "in_colTypes s = None" "fa_core s = None" "fa_pending s = rs" "in_fits s = valueFitsArrowType lib"
    "length rs < n" "mode = Sample (fa_plan s)"
    using True unfolding sampling_def by blast+
  show ?thesis
  proof (cases "rs = []")
    case True
    then show ?thesis using s
      by (simp add: inferring_Finish_def core_failed_def facade_end_def inferring_complete_def complete_with_def)
  next
    case False
    obtain p ts where cols: "columns_for lib n mode rs = (p, ts)" by (cases "columns_for lib n mode rs")
    obtain s1 e where s1: "adoptFromPending lib en s = Some (s1, e)"
      "e = None \<longrightarrow> inferring_running lib (valueFitsArrowType lib) p ts s1 rs"
      "\<forall>x. e = Some x \<longrightarrow> sink_stuck lib s1 x rs \<and> (\<exists>m. x = WriteError m)"
      using adopt_runs[OF s(1,5), of n p ts en] s(4,6,7) cols by auto
    show ?thesis
    proof (cases e)
      case None
      then have fin: "inferring_Finish lib en s = facade_end en s1" using s False s1(1) by (simp add: inferring_Finish_def core_failed_def)
      have "running lib p ts s1 rs" using None s1(2) inferring_running_facts by blast
      then show ?thesis using fin facade_end_running[of lib p ts s1 rs en] cols by (auto simp: inferring_complete_def)
    next
      case (Some x)
      then have "inferring_Finish lib en s = core_Finish en s1" using s False s1(1) by (simp add: inferring_Finish_def core_failed_def)
      then show ?thesis using Some core_Finish_stuck[of lib s1 x rs en] s1(3) by auto
    qed
  qed
next
  case False
  then have t: "typed lib n mode s rs" using assms unfolding inferring_taking_def by blast
  obtain p ts where cols: "columns_for lib n mode rs = (p, ts)" by (cases "columns_for lib n mode rs")
  have run: "inferring_running lib (fits_for lib mode) p ts s rs" using t cols by (simp add: typed_def)
  have "inferring_Finish lib en s = facade_end en s"
    using inferring_running_facts[OF run] by (simp add: inferring_Finish_def)
  then show ?thesis using facade_end_running[of lib p ts s rs en] inferring_running_facts[OF run] cols
    by (auto simp: inferring_complete_def)
qed

lemma inferring_complete_sink: "inferring_complete lib n mode s rs \<Longrightarrow> sink_complete lib s rs"
  by (simp add: inferring_complete_def complete_withI)

interpretation inferring_sink: record_sink "inferring_Add lib en" "inferring_taking lib n mode" "sink_stuck lib"
    "inferring_Finish lib en" "inferring_complete lib n mode"
  for lib en n mode
proof
  fix s :: inferring and rs qs :: "go_record list" and r x
  show "inferring_taking lib n mode s rs \<Longrightarrow> \<exists>s' e. inferring_Add lib en s r = Some (s', e) \<and>
      (e = None \<longrightarrow> inferring_taking lib n mode s' (rs @ [r])) \<and> (\<forall>x. e = Some x \<longrightarrow> sink_stuck lib s' x (rs @ [r]))"
    using inferring_Add_taking[of lib n mode s rs en r] by blast
  show "sink_stuck lib s x rs \<Longrightarrow> sink_stuck lib s x (rs @ qs)" by (rule sink_stuck_extend)
  show "inferring_taking lib n mode s rs \<Longrightarrow> \<exists>s' k cr e. inferring_Finish lib en s = Some (s', k, cr, e) \<and>
      (e = None \<longrightarrow> inferring_complete lib n mode s' rs \<and> k = length rs) \<and> (\<forall>x. e = Some x \<longrightarrow> sink_stuck lib s' x rs)"
    using inferring_Finish_taking[of lib n mode s rs en] by blast
  show "sink_stuck lib s x rs \<Longrightarrow> fatal x" by (simp add: sink_stuck_def)
  show "sink_stuck lib s x rs \<Longrightarrow> inferring_Add lib en s r = Some (s, Some x)"
    using stuck_core_failed[of lib s x rs] by (simp add: inferring_Add_def)
  show "sink_stuck lib s x rs \<Longrightarrow> \<exists>s' n. inferring_Finish lib en s = Some (s', n, None, Some x) \<and> sink_stuck lib s' x rs"
    using stuck_core_failed[of lib s x rs] core_Finish_stuck[of lib s x rs en] by (auto simp: inferring_Finish_def)
  show "inferring_complete lib n mode s rs \<Longrightarrow> \<exists>m. inferring_Add lib en s r = Some (s, Some (AfterFinish m))"
    using complete_core_failed[OF inferring_complete_sink] complete_finished[OF inferring_complete_sink]
    by (simp add: inferring_Add_def)
  show "inferring_complete lib n mode s rs \<Longrightarrow> \<exists>cr. inferring_Finish lib en s = Some (s, length rs, cr, None)"
    using complete_core_failed[OF inferring_complete_sink] complete_answer[OF inferring_complete_sink]
      complete_finished[OF inferring_complete_sink]
    by (simp add: inferring_Finish_def)
qed

definition mode_of :: "sink_option list \<Rightarrow> column_mode" where
  "mode_of opts =
     (case st_typedColumns (settings_of opts) of
        None \<Rightarrow> Sample (st_columns (settings_of opts))
      | Some cols \<Rightarrow> (case planFromTypedColumns cols of Inr (p, ts) \<Rightarrow> Declared p ts | Inl _ \<Rightarrow> Sample None))"

lemma NewInferringSink_taking:
  assumes new: "NewInferringSink lib opts = Inr s"
  shows "inferring_taking lib (st_batchRows (settings_of opts)) (mode_of opts) s []"
proof (cases "st_typedColumns (settings_of opts)")
  case None
  then show ?thesis using settings_batchRows[of opts] new
    by (auto simp: NewInferringSink_def Let_def inferring_taking_def sampling_def mode_of_def split: if_splits)
next
  case (Some cols)
  then obtain p ts where t: "planFromTypedColumns cols = Inr (p, ts)"
    and s: "fa_plan s = Some p" "in_colTypes s = Some ts" "in_fits s = declaredValueFits lib" "\<not> fa_finished s"
      "fa_core s = Some (NewSink (zip (cp_names p) ts) (Some (int (st_batchRows (settings_of opts)))))"
    using new by (auto simp: NewInferringSink_def Let_def buildCore_def split: if_splits sum.splits prod.splits)
  have "length ts = length (cp_names p)" using t by (auto simp: planFromTypedColumns_def Let_def split: sum.splits)
  then have "inferring_running lib (declaredValueFits lib) p ts s []"
    using s fresh_core[of ts p] declared_fits_ok by (simp add: inferring_running_def running_def)
  then show ?thesis using Some t by (simp add: inferring_taking_def typed_def mode_of_def columns_for_def fits_for_def)
qed

section \<open>Properties\<close>

text \<open>What the writer has received from a sink that has been fed the records \<open>rs\<close> and finished.\<close>

definition delivered :: "go_lib \<Rightarrow> column_plan \<times> arrow_type list \<Rightarrow> go_record list \<Rightarrow> sink \<Rightarrow> bool" where
  "delivered lib cols rs c \<longleftrightarrow>
     sk_schema c = zip (cp_names (fst cols)) (snd cols) \<and> sk_closes c = 1 \<and> sk_failed c = None \<and>
     full_batches (sk_batchRows c) (butlast (sk_shipped c)) \<and>
     (\<forall>i < length (cp_names (fst cols)).
        concat (map (\<lambda>b. b ! i) (sk_shipped c)) = map (\<lambda>r. cell_of lib (snd cols ! i) (cp_extract (fst cols) r i)) rs)"

lemma complete_delivered:
  assumes "complete_with lib p ts s rs" "rs \<noteq> []"
  shows "\<exists>c. fa_core s = Some c \<and> delivered lib (p, ts) rs c"
proof -
  obtain c where c: "fa_core s = Some c" "core_shape p ts c" "sink_done c (map (row_of lib p ts) rs)"
    using assms by (auto simp: complete_with_def)
  have "\<forall>i < length (cp_names p). shipped_col c i = map (\<lambda>r. cell_of lib (ts ! i) (cp_extract p r i)) rs"
    using c(2,3) by (simp add: sink_done_def core_shape_def row_col_def row_of_def)
  then show ?thesis using c assms(2) by (auto simp: delivered_def core_shape_def sink_done_def shipped_col_def)
qed

text \<open>C37. A component that feeds all its records to an inferring sink and finishes it without an error has
  delivered every record: the row count is right and, when there were records, the writer was closed once and
  has received, column by column and in order, the cell of every record for the schema declared or inferred
  from the first batch; all batches but the last are full.\<close>

theorem inferring_sink_delivers:
  assumes "NewInferringSink lib opts = Inr s"
    and "feed (inferring_Add lib en) s rs = Some (s1, None)"
    and "inferring_Finish lib en s1 = Some (s2, n, cr, None)"
  shows "n = length rs \<and> (if rs = [] then fa_core s2 = None \<or> map_option sk_closes (fa_core s2) = Some 0
     else \<exists>c. fa_core s2 = Some c \<and> delivered lib (columns_for lib (st_batchRows (settings_of opts)) (mode_of opts) rs) rs c)"
proof -
  have fin: "inferring_complete lib (st_batchRows (settings_of opts)) (mode_of opts) s2 rs" "n = length rs"
    using inferring_sink.feed_finish[OF NewInferringSink_taking[OF assms(1)] assms(2,3)] by auto
  show ?thesis
  proof (cases "rs = []")
    case True
    then show ?thesis using fin by (auto simp: inferring_complete_def complete_with_def sink_done_def)
  next
    case False
    then show ?thesis using fin complete_delivered[OF fin(1)[unfolded inferring_complete_def]] by simp
  qed
qed

text \<open>Under any sequence of calls an inferring sink never panics, answers a fatal error from the first one on,
  and closes its writer at most once.\<close>

theorem inferring_sink_errors_stick:
  assumes "NewInferringSink lib opts = Inr s"
  shows "\<exists>t as. calls (inferring_Add lib en) (inferring_Finish lib en) s cs = Some (t, as) \<and> sticky as \<and>
     (\<forall>c. fa_core t = Some c \<longrightarrow> sk_closes c \<le> 1)"
proof -
  obtain t as rs where t: "calls (inferring_Add lib en) (inferring_Finish lib en) s cs = Some (t, as)" "sticky as"
    "inferring_taking lib (st_batchRows (settings_of opts)) (mode_of opts) t rs \<or>
     inferring_complete lib (st_batchRows (settings_of opts)) (mode_of opts) t rs \<or> (\<exists>x. sink_stuck lib t x rs)"
    using inferring_sink.calls_sticky[OF NewInferringSink_taking[OF assms], of en cs] by blast
  have "sk_closes c \<le> 1" if c: "fa_core t = Some c" for c
    using t(3)
  proof (elim disjE exE)
    assume "inferring_taking lib (st_batchRows (settings_of opts)) (mode_of opts) t rs"
    then have "sk_closes c = 0" using c
      by (auto simp: inferring_taking_def sampling_def typed_def inferring_running_def running_def sink_open_def dest: holdingD(3))
    then show ?thesis by simp
  next
    assume "inferring_complete lib (st_batchRows (settings_of opts)) (mode_of opts) t rs"
    then show ?thesis using c by (auto simp: inferring_complete_def complete_with_def sink_done_def)
  next
    fix x assume "sink_stuck lib t x rs"
    then show ?thesis using c by (auto simp: sink_stuck_def sink_failed_def)
  qed
  then show ?thesis using t(1,2) by blast
qed

text \<open>In the sampling modes the records of the first batch never cause a type violation: an error while they
  are added or the sink is finished is a write error, whatever values they hold.\<close>

theorem sample_never_violates:
  assumes "NewInferringSink lib opts = Inr s" "st_typedColumns (settings_of opts) = None"
    and "length rs \<le> st_batchRows (settings_of opts)"
    and "feed (inferring_Add lib en) s rs = Some (s1, e)"
  shows "(e = None \<or> (\<exists>m. e = Some (WriteError m))) \<and>
     (e = None \<longrightarrow> (\<exists>s2 n cr e2. inferring_Finish lib en s1 = Some (s2, n, cr, e2) \<and> (e2 = None \<or> (\<exists>m. e2 = Some (WriteError m)))))"
proof -
  let ?n = "st_batchRows (settings_of opts)"
  obtain g where mode: "mode_of opts = Sample g" using assms(2) by (simp add: mode_of_def)
  have step: "\<exists>t x. feed (inferring_Add lib en) s qs = Some (t, x) \<and> (x = None \<longrightarrow> inferring_taking lib ?n (mode_of opts) t (ps @ qs)) \<and>
      (\<forall>y. x = Some y \<longrightarrow> (\<exists>m. y = WriteError m))"
    if "inferring_taking lib ?n (mode_of opts) s ps" "length (ps @ qs) \<le> ?n" for s ps qs
    using that
  proof (induction qs arbitrary: s ps)
    case (Cons q qs)
    obtain s' y where a: "inferring_Add lib en s q = Some (s', y)" "y = None \<longrightarrow> inferring_taking lib ?n (mode_of opts) s' (ps @ [q])"
      "\<forall>x. y = Some x \<longrightarrow> (\<exists>m. x = WriteError m)"
      using inferring_Add_taking[OF Cons.prems(1), of en q] Cons.prems(2) mode by auto
    show ?case
    proof (cases y)
      case None
      then show ?thesis using a Cons.IH[of s' "ps @ [q]"] Cons.prems(2) by simp
    qed (use a in simp)
  qed simp
  have fed: "e = None \<longrightarrow> inferring_taking lib ?n (mode_of opts) s1 rs" "\<forall>y. e = Some y \<longrightarrow> (\<exists>m. y = WriteError m)"
    using step[OF NewInferringSink_taking[OF assms(1)], of rs] assms(3,4) by auto
  moreover have "\<exists>s2 n cr e2. inferring_Finish lib en s1 = Some (s2, n, cr, e2) \<and> (e2 = None \<or> (\<exists>m. e2 = Some (WriteError m)))" if "e = None"
    using inferring_Finish_taking[of lib ?n "mode_of opts" s1 rs en] fed(1) that by (metis option.exhaust)
  ultimately show ?thesis by (cases e) auto
qed

text \<open>Names and types inferred from a batch do not depend on the order of its records.\<close>

lemma inferred_columns_order_free:
  assumes "set batch = set batch'"
  shows "cp_names (planFromBatch batch) = cp_names (planFromBatch batch') \<and>
     inferTypesFromBatch lib p batch = inferTypesFromBatch lib p batch'"
proof
  have "set (concat (map (map fst) batch)) = set (concat (map (map fst) batch'))" using assms by auto
  then show "cp_names (planFromBatch batch) = cp_names (planFromBatch batch')"
    unfolding planFromBatch_def Let_def by (simp add: sort_strings_eqI[of "concat (map (map fst) batch)" "concat (map (map fst) batch')"])
  have "fold_kinds lib kindUnset (map (\<lambda>r. cp_extract p r i) batch) = fold_kinds lib kindUnset (map (\<lambda>r. cp_extract p r i) batch')" for i
    by (rule fold_kinds_set) (simp add: assms)
  then show "inferTypesFromBatch lib p batch = inferTypesFromBatch lib p batch'" unfolding inferTypes_eq by simp
qed

section \<open>A component with three records\<close>

definition demo_lib :: go_lib where
  "demo_lib = \<lparr>gl_round = Fin, gl_formatFloat = (\<lambda>_. ''0''), gl_marshal = (\<lambda>_. Some ''{}''), gl_oob = (\<lambda>_. - (2 ^ 63))\<rparr>"

definition demo_sink_env :: sink_env where
  "demo_sink_env =
     \<lparr>en_open = None, en_ipc_write = (\<lambda>_. None), en_ipc_close = (\<lambda>_. None), en_payload = (\<lambda>_. 100),
      en_write = (\<lambda>_ _. None),
      en_close = (\<lambda>bs. Inr \<lparr>cr_totalRows = int (length bs), cr_totalBytes = 200, cr_filesWritten = 1\<rparr>)\<rparr>"

definition demo_records :: "go_record list" where
  "demo_records =
     [[(''id'', VNumber ''1'')], [(''id'', VNumber ''25''), (''ok'', VBool True)], [(''id'', VNumber ''3''), (''late'', VNil)]]"

definition demo_options :: "sink_option list" where
  "demo_options = [OptBatchRows 2]"

definition demo_new :: inferring where
  "demo_new = (case NewInferringSink demo_lib demo_options of Inr s \<Rightarrow> s)"

definition demo_feed :: "(inferring \<times> sink_error option) option" where
  "demo_feed = feed (inferring_Add demo_lib demo_sink_env) demo_new demo_records"

lemma demo_new_ok: "NewInferringSink demo_lib demo_options = Inr demo_new"
  by (simp add: demo_new_def NewInferringSink_def settings_of_def demo_options_def WithBatchRows_def DefaultBatchRows_def Let_def)

lemma demo_feed_ok: "case demo_feed of Some (s1, None) \<Rightarrow> (case inferring_Finish demo_lib demo_sink_env s1 of
    Some (s2, n, cr, None) \<Rightarrow> n = 3 | _ \<Rightarrow> False) | _ \<Rightarrow> False"
  by code_simp

lemma demo_run:
  obtains s1 s2 cr where "feed (inferring_Add demo_lib demo_sink_env) demo_new demo_records = Some (s1, None)"
    "inferring_Finish demo_lib demo_sink_env s1 = Some (s2, 3, cr, None)"
  using demo_feed_ok unfolding demo_feed_def by (auto split: option.splits prod.splits)

theorem inferring_sink_delivers_witness:
  "\<exists>s1 s2 cr c. feed (inferring_Add demo_lib demo_sink_env) demo_new demo_records = Some (s1, None)
   \<and> inferring_Finish demo_lib demo_sink_env s1 = Some (s2, 3, cr, None) \<and> fa_core s2 = Some c
   \<and> delivered demo_lib (columns_for demo_lib 2 (Sample None) demo_records) demo_records c"
proof -
  obtain s1 s2 cr where run: "feed (inferring_Add demo_lib demo_sink_env) demo_new demo_records = Some (s1, None)"
    "inferring_Finish demo_lib demo_sink_env s1 = Some (s2, 3, cr, None)" by (rule demo_run)
  have "st_batchRows (settings_of demo_options) = 2" "mode_of demo_options = Sample None" "demo_records \<noteq> []"
    by (simp_all add: demo_options_def settings_of_def WithBatchRows_def mode_of_def demo_records_def)
  then show ?thesis using inferring_sink_delivers[OF demo_new_ok run] run by auto
qed

theorem inferring_sink_errors_stick_witness:
  "\<exists>t as. calls (inferring_Add demo_lib demo_sink_env) (inferring_Finish demo_lib demo_sink_env) demo_new
     [CallAdd [(''id'', VNumber ''1'')], CallFinish, CallAdd [], CallFinish] = Some (t, as) \<and> sticky as"
  using inferring_sink_errors_stick[OF demo_new_ok] by blast

theorem sample_never_violates_witness:
  "\<exists>s1 e. feed (inferring_Add demo_lib demo_sink_env) demo_new (take 2 demo_records) = Some (s1, e)
   \<and> (e = None \<or> (\<exists>m. e = Some (WriteError m)))"
proof -
  have "case feed (inferring_Add demo_lib demo_sink_env) demo_new (take 2 demo_records) of Some _ \<Rightarrow> True | None \<Rightarrow> False"
    by code_simp
  then obtain s1 e where run: "feed (inferring_Add demo_lib demo_sink_env) demo_new (take 2 demo_records) = Some (s1, e)"
    by (auto split: option.splits)
  show ?thesis
    using sample_never_violates[OF demo_new_ok _ _ run] run
    by (simp add: demo_options_def settings_of_def WithBatchRows_def)
qed

end
