(* ===== verification/Tokens.thy ===== *)
theory Tokens
  imports Prelude
begin

text \<open>
  Minting of the platform's JSON web tokens (\<open>pkg/pipelineapi/tokens\<close>). The JWT library, RSA and the UUID library are
  not part of the repository: they are the parameter \<open>jwt_lib\<close>, and \<open>jwt_laws\<close> states what is relied on: a token
  that was signed parses to exactly its claims, and does so when the method is admitted, the key function answers
  the public half of the signing key and the times are right. Keys are symbolic, a key stands for the pair.
\<close>

section \<open>Claims and the library\<close>

datatype claim = CStr string | CNum int | CList "claim list" | COther

type_synonym claims = "(string \<times> claim) list"

record jwt_header =
  h_alg :: string
  h_kid :: string

record parse_options =
  po_methods :: "string list"
  po_leeway :: int
  po_expRequired :: bool
  po_checkIat :: bool

type_synonym rsa_key = nat
type_synonym uuid = nat
type_synonym time_ns = int

record jwt_lib =
  jl_sign :: "rsa_key \<Rightarrow> jwt_header \<Rightarrow> claims \<Rightarrow> string + string"
  jl_parse :: "parse_options \<Rightarrow> time_ns \<Rightarrow> string \<Rightarrow> (jwt_header \<Rightarrow> string + rsa_key) \<Rightarrow> string + claims"
  jl_GetAudience :: "claims \<Rightarrow> string + string list"
  jl_uuid_String :: "uuid \<Rightarrow> string"
  jl_uuid_Parse :: "string \<Rightarrow> uuid option"

definition second :: int where
  "second = 1000000000"

definition unix :: "time_ns \<Rightarrow> int" where
  "unix t = t div second"

text \<open>\<open>claims[k].(string)\<close> with the failure of the assertion ignored.\<close>

definition claim_str :: "claims \<Rightarrow> string \<Rightarrow> string" where
  "claim_str c k = (case map_of c k of Some (CStr s) \<Rightarrow> s | _ \<Rightarrow> [])"

definition claim_num :: "claims \<Rightarrow> string \<Rightarrow> int option" where
  "claim_num c k = (case map_of c k of Some (CNum n) \<Rightarrow> Some n | _ \<Rightarrow> None)"

text \<open>The time window of the library's validator for numeric claims.\<close>

definition times_ok :: "parse_options \<Rightarrow> time_ns \<Rightarrow> claims \<Rightarrow> bool" where
  "times_ok opts now c \<longleftrightarrow>
     (case claim_num c ''exp'' of None \<Rightarrow> \<not> po_expRequired opts | Some e \<Rightarrow> now < e * second + po_leeway opts) \<and>
     (case claim_num c ''nbf'' of None \<Rightarrow> True | Some n \<Rightarrow> now \<ge> n * second - po_leeway opts) \<and>
     (po_checkIat opts \<longrightarrow> (case claim_num c ''iat'' of None \<Rightarrow> True | Some n \<Rightarrow> now \<ge> n * second - po_leeway opts))"

definition parses_to :: "jwt_lib \<Rightarrow> rsa_key \<Rightarrow> jwt_header \<Rightarrow> claims \<Rightarrow> string \<Rightarrow> bool" where
  "parses_to lib key h c s \<longleftrightarrow>
     (\<forall>opts now kf.
        (\<forall>c'. jl_parse lib opts now s kf = Inr c' \<longrightarrow> c' = c \<and> kf h = Inr key \<and> times_ok opts now c) \<and>
        (h_alg h \<in> set (po_methods opts) \<and> kf h = Inr key \<and> times_ok opts now c \<longrightarrow> jl_parse lib opts now s kf = Inr c))"

definition jwt_laws :: "jwt_lib \<Rightarrow> bool" where
  "jwt_laws lib \<longleftrightarrow>
     (\<forall>key h c s. jl_sign lib key h c = Inr s \<longrightarrow> parses_to lib key h c s \<and> s \<noteq> [] \<and> strings_TrimSpace s = s) \<and>
     (\<forall>c a. map_of c ''aud'' = Some (CStr a) \<longrightarrow> jl_GetAudience lib c = Inr [a]) \<and>
     (\<forall>u. jl_uuid_Parse lib (jl_uuid_String lib u) = Some u)"

lemma signed_token:
  assumes "jwt_laws lib" "jl_sign lib key h c = Inr s"
  shows "parses_to lib key h c s" "s \<noteq> []" "strings_TrimSpace s = s"
  using assms unfolding jwt_laws_def by blast+

lemma uuid_law: "jwt_laws lib \<Longrightarrow> jl_uuid_Parse lib (jl_uuid_String lib u) = Some u"
  unfolding jwt_laws_def by blast

lemma aud_law: "jwt_laws lib \<Longrightarrow> map_of c ''aud'' = Some (CStr a) \<Longrightarrow> jl_GetAudience lib c = Inr [a]"
  unfolding jwt_laws_def by blast

lemma parse_sound: "parses_to lib key h c s \<Longrightarrow> jl_parse lib opts now s kf = Inr c' \<Longrightarrow> c' = c \<and> kf h = Inr key \<and> times_ok opts now c"
  unfolding parses_to_def by blast

lemma parse_complete: "parses_to lib key h c s \<Longrightarrow> h_alg h \<in> set (po_methods opts) \<Longrightarrow> kf h = Inr key \<Longrightarrow> times_ok opts now c \<Longrightarrow>
    jl_parse lib opts now s kf = Inr c"
  unfolding parses_to_def by blast

section \<open>Minting\<close>

definition TokenKindRun :: string where "TokenKindRun = ''run''"
definition TokenKindImpersonation :: string where "TokenKindImpersonation = ''impersonation''"
definition TokenKindLocalCLI :: string where "TokenKindLocalCLI = ''local-cli''"
definition TokenKindCLIAPI :: string where "TokenKindCLIAPI = ''cli-api''"
definition TokenKindQuery :: string where "TokenKindQuery = ''query''"
definition TokenKindInternalQuery :: string where "TokenKindInternalQuery = ''internal-query''"
definition TokenKindApp :: string where "TokenKindApp = ''app''"
definition tokenIssuer :: string where "tokenIssuer = ''datuplet-api''"
definition TableTokenAudience :: string where "TableTokenAudience = ''datuplet-catalog''"
definition APITokenAudience :: string where "APITokenAudience = ''datuplet-api''"
definition QueryWorkerAudience :: string where "QueryWorkerAudience = ''datuplet-query-worker''"
definition MaxQueryTokenLifetime :: int where "MaxQueryTokenLifetime = 330 * second"
definition ImpersonationLifetime :: int where "ImpersonationLifetime = 60 * second"
definition AppTokenLifetime :: int where "AppTokenLifetime = 60 * second"
definition AppSubjectPrefix :: string where "AppSubjectPrefix = ''app-''"

lemmas token_constants = TokenKindRun_def TokenKindImpersonation_def TokenKindLocalCLI_def TokenKindCLIAPI_def
  TokenKindQuery_def TokenKindInternalQuery_def TokenKindApp_def tokenIssuer_def TableTokenAudience_def
  APITokenAudience_def QueryWorkerAudience_def AppSubjectPrefix_def

record signer =
  sg_priv :: rsa_key
  sg_KeyID :: string

record user =
  us_ID :: uuid
  us_disabled :: bool

text \<open>What a minter reads of its surroundings: the user bound to the context, the clock, and 16 random bytes for
  app tokens (or the error of the random source).\<close>

record mint_env =
  me_user :: "user option"
  me_now :: time_ns
  me_random :: "string + string"

definition JTIForRunID :: "string \<Rightarrow> string" where
  "JTIForRunID runID = ''run-tok-'' @ runID"

record run_spec =
  rs_RunID :: string
  rs_ProjectID :: string
  rs_PipelineName :: string
  rs_Warehouse :: string
  rs_Audience :: string
  rs_Lifetime :: int

definition subjectFromCtx :: "jwt_lib \<Rightarrow> mint_env \<Rightarrow> string + string" where
  "subjectFromCtx lib env =
     (case me_user env of
        None \<Rightarrow> Inl ''MintRunToken/MintImpersonation: no authenticated user in ctx (callers must run inside auth.WithUser)''
      | Some u \<Rightarrow> Inr (jl_uuid_String lib (us_ID u)))"

text \<open>\<open>jwt.NewWithClaims\<close> with RS256, the key id of the signer and \<open>SignedString\<close>.\<close>

definition sign_claims :: "jwt_lib \<Rightarrow> signer \<Rightarrow> claims \<Rightarrow> string + string" where
  "sign_claims lib sg c =
     (case jl_sign lib (sg_priv sg) \<lparr>h_alg = ''RS256'', h_kid = sg_KeyID sg\<rparr> c of
        Inl e \<Rightarrow> Inl (''sign: '' @ e)
      | Inr s \<Rightarrow> Inr s)"

definition needs_signer :: string where
  "needs_signer = ''signer is required''"

definition run_claims :: "run_spec \<Rightarrow> string \<Rightarrow> time_ns \<Rightarrow> claims" where
  "run_claims spec actor now =
     [(''iss'', CStr tokenIssuer),
      (''aud'', CStr (if rs_Audience spec = [] then TableTokenAudience else rs_Audience spec)),
      (''sub'', CStr (rs_RunID spec)), (''actor'', CStr actor), (''token_kind'', CStr TokenKindRun),
      (''token_type'', CStr ''run''), (''project_id'', CStr (rs_ProjectID spec)), (''warehouse'', CStr (rs_Warehouse spec)),
      (''run_id'', CStr (rs_RunID spec)), (''pipeline_name'', CStr (rs_PipelineName spec)), (''iat'', CNum (unix now)),
      (''nbf'', CNum (unix now)), (''exp'', CNum (unix (now + rs_Lifetime spec))), (''jti'', CStr (JTIForRunID (rs_RunID spec)))]"

definition MintRunToken :: "jwt_lib \<Rightarrow> mint_env \<Rightarrow> signer option \<Rightarrow> run_spec \<Rightarrow> string + string" where
  "MintRunToken lib env sg spec =
     (case sg of
        None \<Rightarrow> Inl needs_signer
      | Some g \<Rightarrow>
          if rs_RunID spec = [] then Inl ''RunID is required''
          else if rs_Lifetime spec \<le> 0 then Inl ''Lifetime must be positive (tokens without exp are rejected)''
          else
            (case subjectFromCtx lib env of
               Inl e \<Rightarrow> Inl e
             | Inr actor \<Rightarrow> sign_claims lib g (run_claims spec actor (me_now env))))"

definition user_claims :: "string \<Rightarrow> string \<Rightarrow> string \<Rightarrow> (string \<times> claim) list \<Rightarrow> time_ns \<Rightarrow> int \<Rightarrow> string \<Rightarrow> claims" where
  "user_claims aud sub kind extra now lifetime jti =
     [(''iss'', CStr tokenIssuer), (''aud'', CStr aud), (''sub'', CStr sub), (''actor'', CStr sub), (''token_kind'', CStr kind)] @
     extra @
     [(''iat'', CNum (unix now)), (''nbf'', CNum (unix now)), (''exp'', CNum (unix (now + lifetime))), (''jti'', CStr jti)]"

definition stamped_jti :: "string \<Rightarrow> string \<Rightarrow> time_ns \<Rightarrow> string" where
  "stamped_jti pre sub now = pre @ ''-'' @ sub @ ''-'' @ fmt_d now"

definition MintImpersonation :: "jwt_lib \<Rightarrow> mint_env \<Rightarrow> signer option \<Rightarrow> string + string" where
  "MintImpersonation lib env sg =
     (case sg of
        None \<Rightarrow> Inl needs_signer
      | Some g \<Rightarrow>
          (case subjectFromCtx lib env of
             Inl e \<Rightarrow> Inl e
           | Inr sub \<Rightarrow>
               sign_claims lib g
                 (user_claims TableTokenAudience sub TokenKindImpersonation [] (me_now env) ImpersonationLifetime
                    (stamped_jti ''imp'' sub (me_now env)))))"

definition hex_EncodeToString :: "string \<Rightarrow> string" where
  "hex_EncodeToString b = concat (map (\<lambda>c. [hex_digit (of_char c div 16), hex_digit (of_char c mod 16)]) b)"

definition newAppTokenJTI :: "mint_env \<Rightarrow> string \<Rightarrow> string + string" where
  "newAppTokenJTI env appUUID =
     (case me_random env of
        Inl e \<Rightarrow> Inl (''generate app-token jti: '' @ e)
      | Inr b \<Rightarrow> Inr (''app-tok-'' @ appUUID @ ''-'' @ hex_EncodeToString b))"

definition MintAppToken :: "jwt_lib \<Rightarrow> mint_env \<Rightarrow> signer option \<Rightarrow> string \<Rightarrow> string \<Rightarrow> string + (string \<times> string)" where
  "MintAppToken lib env sg appUUID projectID =
     (case sg of
        None \<Rightarrow> Inl needs_signer
      | Some g \<Rightarrow>
          if appUUID = [] then Inl ''appUUID is required''
          else if projectID = [] then Inl ''projectID is required''
          else
            (case newAppTokenJTI env appUUID of
               Inl e \<Rightarrow> Inl e
             | Inr jti \<Rightarrow>
                 (case sign_claims lib g
                    (user_claims TableTokenAudience (AppSubjectPrefix @ appUUID) TokenKindApp
                       [(''project_id'', CStr projectID), (''app_id'', CStr appUUID)] (me_now env) AppTokenLifetime jti) of
                    Inl e \<Rightarrow> Inl e
                  | Inr s \<Rightarrow> Inr (s, jti))))"

definition mintQueryFamily :: "jwt_lib \<Rightarrow> mint_env \<Rightarrow> signer option \<Rightarrow> int \<Rightarrow> string \<Rightarrow> string \<Rightarrow> string \<Rightarrow> string + string" where
  "mintQueryFamily lib env sg ttl aud kind jtiPrefix =
     (case sg of
        None \<Rightarrow> Inl needs_signer
      | Some g \<Rightarrow>
          if ttl \<le> 0 then Inl ''ttl must be positive (tokens without exp are rejected)''
          else
            (case subjectFromCtx lib env of
               Inl e \<Rightarrow> Inl e
             | Inr sub \<Rightarrow>
                 let ttl' = (if ttl > MaxQueryTokenLifetime then MaxQueryTokenLifetime else ttl) in
                 sign_claims lib g
                   (user_claims aud sub kind [] (me_now env) ttl' (stamped_jti jtiPrefix sub (me_now env)))))"

definition MintQueryToken :: "jwt_lib \<Rightarrow> mint_env \<Rightarrow> signer option \<Rightarrow> int \<Rightarrow> string + string" where
  "MintQueryToken lib env sg ttl = mintQueryFamily lib env sg ttl TableTokenAudience TokenKindQuery ''qry''"

definition MintInternalQueryToken :: "jwt_lib \<Rightarrow> mint_env \<Rightarrow> signer option \<Rightarrow> int \<Rightarrow> string + string" where
  "MintInternalQueryToken lib env sg ttl = mintQueryFamily lib env sg ttl QueryWorkerAudience TokenKindInternalQuery ''iqry''"

record service_spec =
  sv_Subject :: string
  sv_Audience :: string
  sv_Lifetime :: int

definition MintServiceToken :: "jwt_lib \<Rightarrow> mint_env \<Rightarrow> signer option \<Rightarrow> service_spec \<Rightarrow> string + string" where
  "MintServiceToken lib env sg spec =
     (case sg of
        None \<Rightarrow> Inl needs_signer
      | Some g \<Rightarrow>
          if sv_Subject spec = [] then Inl ''Subject is required''
          else if sv_Lifetime spec \<le> 0 then Inl ''Lifetime must be positive (tokens without exp are rejected)''
          else
            sign_claims lib g
              [(''iss'', CStr tokenIssuer),
               (''aud'', CStr (if sv_Audience spec = [] then TableTokenAudience else sv_Audience spec)),
               (''sub'', CStr (sv_Subject spec)), (''token_type'', CStr ''service''), (''token_use'', CStr ''service''),
               (''iat'', CNum (unix (me_now env))), (''nbf'', CNum (unix (me_now env))),
               (''exp'', CNum (unix (me_now env + sv_Lifetime spec))), (''jti'', CStr (''svc-tok-'' @ sv_Subject spec))])"

text \<open>The two CLI minters also return the expiry.\<close>

definition mint_cli :: "jwt_lib \<Rightarrow> mint_env \<Rightarrow> signer option \<Rightarrow> int \<Rightarrow> string \<Rightarrow> string \<Rightarrow> (string \<times> claim) list \<Rightarrow> string \<Rightarrow>
    string + (string \<times> time_ns)" where
  "mint_cli lib env sg lifetime aud kind extra pre =
     (case sg of
        None \<Rightarrow> Inl needs_signer
      | Some g \<Rightarrow>
          if lifetime \<le> 0 then Inl ''lifetime must be positive (tokens without exp are rejected)''
          else
            (case subjectFromCtx lib env of
               Inl e \<Rightarrow> Inl e
             | Inr sub \<Rightarrow>
                 (case sign_claims lib g (user_claims aud sub kind extra (me_now env) lifetime (stamped_jti pre sub (me_now env))) of
                    Inl e \<Rightarrow> Inl e
                  | Inr s \<Rightarrow> Inr (s, me_now env + lifetime))))"

definition MintLocalCLIToken :: "jwt_lib \<Rightarrow> mint_env \<Rightarrow> signer option \<Rightarrow> int \<Rightarrow> string + (string \<times> time_ns)" where
  "MintLocalCLIToken lib env sg lifetime =
     mint_cli lib env sg lifetime TableTokenAudience TokenKindLocalCLI [(''token_use'', CStr TokenKindLocalCLI)] ''cli-tok''"

definition MintCLIAPIToken :: "jwt_lib \<Rightarrow> mint_env \<Rightarrow> signer option \<Rightarrow> int \<Rightarrow> string + (string \<times> time_ns)" where
  "MintCLIAPIToken lib env sg lifetime =
     mint_cli lib env sg lifetime APITokenAudience TokenKindCLIAPI [] ''cli-api-tok''"

end
