(* ===== verification/Token_Verifiers.thy ===== *)
theory Token_Verifiers
  imports Tokens
begin

text \<open>
  The four verifiers of platform tokens: the gateway's run-token validator (\<open>pkg/datagateway/runtoken\<close>) with its
  key cache (\<open>pkg/datagateway/jwks\<close>), the API's bearer resolver (\<open>pkg/pipelineapi/auth\<close>), the query worker's verifier
  (\<open>components/queryengine/cmd/query-worker\<close>) and the app route (\<open>pkg/pipelineapi/queryproxy\<close>); and that no token of one
  kind passes for another.
\<close>

section \<open>Keys\<close>

text \<open>The JWKS client: the cached key set, if any; every fetch answers a key set or an error. \<open>KeyFor\<close> uses at most two of
  the answers offered to it and returns the answers it has not used.\<close>

type_synonym key_set = "(string \<times> rsa_key) list"

definition no_such_kid :: "string \<Rightarrow> string" where
  "no_such_kid kid = ''jwks: kid '' @ fmt_q kid @ '' not found after re-fetch''"

definition refetch :: "string \<Rightarrow> string \<Rightarrow> key_set \<Rightarrow> (nat \<Rightarrow> string + key_set) \<Rightarrow> nat \<Rightarrow>
    key_set option \<times> (string + rsa_key) \<times> nat" where
  "refetch what kid keys fetch used =
     (case fetch used of
        Inl e \<Rightarrow> (Some keys, Inl (''jwks re-fetch (kid='' @ fmt_q kid @ what @ ''): '' @ e), Suc used)
      | Inr fresh \<Rightarrow>
          (case map_of fresh kid of
             Some k \<Rightarrow> (Some fresh, Inr k, Suc used)
           | None \<Rightarrow> (Some fresh, Inl (no_such_kid kid), Suc used)))"

definition KeyFor :: "(nat \<Rightarrow> string + key_set) \<Rightarrow> key_set option \<Rightarrow> string \<Rightarrow> key_set option \<times> (string + rsa_key) \<times> nat" where
  "KeyFor fetch cache kid =
     (case cache of
        Some keys \<Rightarrow>
          (case map_of keys kid of
             Some k \<Rightarrow> (cache, Inr k, 0)
           | None \<Rightarrow> refetch '' not in cache'' kid keys fetch 0)
      | None \<Rightarrow>
          (case fetch 0 of
             Inl e \<Rightarrow> (None, Inl (''jwks initial fetch: '' @ e), 1)
           | Inr fresh \<Rightarrow>
               (case map_of fresh kid of
                  Some k \<Rightarrow> (Some fresh, Inr k, 1)
                | None \<Rightarrow> refetch '' not in initial fetch'' kid fresh fetch 1)))"

section \<open>The gateway\<close>

record validated_claims =
  vc_RunID :: string
  vc_Subject :: string
  vc_ProjectID :: string
  vc_Warehouse :: string
  vc_Issuer :: string
  vc_Audience :: string
  vc_Expiry :: "int option"

definition ClockSkewSeconds :: int where
  "ClockSkewSeconds = 60"

definition maxRunTokenFileBytes :: nat where
  "maxRunTokenFileBytes = 2097152"

definition readBoundedFile :: "(string \<Rightarrow> string + string) \<Rightarrow> string \<Rightarrow> string + string" where
  "readBoundedFile fs path = (case fs path of Inl e \<Rightarrow> Inl e | Inr b \<Rightarrow> Inr (take maxRunTokenFileBytes b))"

definition extractAudience :: "claims \<Rightarrow> string + string" where
  "extractAudience c =
     (case map_of c ''aud'' of
        None \<Rightarrow> Inl ''aud claim missing''
      | Some (CStr v) \<Rightarrow> if v = [] then Inl ''aud claim is empty string'' else Inr v
      | Some (CList vs) \<Rightarrow>
          if vs = [] then Inl ''aud claim is empty array''
          else
            (case hd vs of
               CStr s \<Rightarrow>
                 if s = [] then Inl ''aud claim first element is not a non-empty string''
                 else if length vs \<noteq> 1 then Inl (''aud claim has '' @ fmt_d (int (length vs)) @ '' values, want exactly 1'')
                 else Inr s
             | _ \<Rightarrow> Inl ''aud claim first element is not a non-empty string'')
      | Some _ \<Rightarrow> Inl ''aud claim has unexpected type'')"

definition key_by_kid :: "string \<Rightarrow> (string \<Rightarrow> string + rsa_key) \<Rightarrow> jwt_header \<Rightarrow> string + rsa_key" where
  "key_by_kid pre keyFor h =
     (if h_alg h \<noteq> ''RS256'' then Inl (pre @ ''unexpected signing method '' @ fmt_q (h_alg h) @ '' (want RS256 only)'')
      else if h_kid h = [] then Inl (pre @ ''kid header missing from token'')
      else keyFor (h_kid h))"

definition vprefix :: string where
  "vprefix = ''run-token validation''"

definition check_claims :: "claims \<Rightarrow> string \<Rightarrow> string + validated_claims" where
  "check_claims c expectedRunID =
     (let iss = claim_str c ''iss''; kind = claim_str c ''token_kind''; sub = claim_str c ''sub'';
          projectID = claim_str c ''project_id''; warehouse = claim_str c ''warehouse''; runID = claim_str c ''run_id'' in
      if iss \<noteq> ''datuplet-api'' then Inl (vprefix @ '' check 2 (iss): got '' @ fmt_q iss @ '', want '' @ fmt_q ''datuplet-api'')
      else
        (case extractAudience c of
           Inl e \<Rightarrow> Inl (vprefix @ '' check 3 (aud): '' @ e)
         | Inr aud \<Rightarrow>
             if aud \<noteq> ''datuplet-catalog'' then
               Inl (vprefix @ '' check 3 (aud): got '' @ fmt_q aud @ '', want '' @ fmt_q ''datuplet-catalog'')
             else if kind \<noteq> ''run'' then
               Inl (vprefix @ '' check 5 (token_kind): got '' @ fmt_q kind @ '', want '' @ fmt_q ''run'')
             else if sub = [] then Inl (vprefix @ '' check 6: required claim sub is missing or empty'')
             else if projectID = [] then Inl (vprefix @ '' check 6: required claim project_id is missing or empty'')
             else if warehouse = [] then Inl (vprefix @ '' check 6: required claim warehouse is missing or empty'')
             else if runID = [] then Inl (vprefix @ '' check 6: required claim run_id is missing or empty'')
             else if sub \<noteq> runID then Inl (vprefix @ '' check 7: sub does not match run_id'')
             else if runID \<noteq> expectedRunID then
               Inl (vprefix @ '' check 8: run_id does not match operator-supplied RUN_ID env '' @ em_dash @ '' refusing to proceed'')
             else
               Inr \<lparr>vc_RunID = runID, vc_Subject = sub, vc_ProjectID = projectID, vc_Warehouse = warehouse,
                    vc_Issuer = iss, vc_Audience = aud, vc_Expiry = claim_num c ''exp''\<rparr>))"

definition LoadAndValidateRunToken :: "jwt_lib \<Rightarrow> (string \<Rightarrow> string + string) \<Rightarrow> (string \<Rightarrow> string + rsa_key) \<Rightarrow> time_ns \<Rightarrow>
    string \<Rightarrow> string \<Rightarrow> string + validated_claims" where
  "LoadAndValidateRunToken lib fs keyFor now path expectedRunID =
     (if path = [] then Inl (vprefix @ '': path is empty (soft-degrade is caller's responsibility)'')
      else
        (case readBoundedFile fs path of
           Inl e \<Rightarrow> Inl (vprefix @ '': read file '' @ fmt_q path @ '': '' @ e)
         | Inr raw \<Rightarrow>
             (case jl_parse lib \<lparr>po_methods = [''RS256''], po_leeway = ClockSkewSeconds * second, po_expRequired = False, po_checkIat = False\<rparr>
                 now (strings_TrimSpace raw) (key_by_kid ''check 1: '' keyFor) of
                Inl e \<Rightarrow> Inl (vprefix @ '' check 1 (parse/signature): '' @ e)
              | Inr c \<Rightarrow> check_claims c expectedRunID)))"

section \<open>The query worker\<close>

definition errPrefix :: string where
  "errPrefix = ''internal token rejected''"

definition Verify :: "jwt_lib \<Rightarrow> (string \<Rightarrow> string + rsa_key) \<Rightarrow> time_ns \<Rightarrow> string \<Rightarrow> string + (string \<times> string)" where
  "Verify lib keyFor now tokenString =
     (case jl_parse lib \<lparr>po_methods = [''RS256''], po_leeway = 60 * second, po_expRequired = True, po_checkIat = False\<rparr>
         now tokenString (key_by_kid [] keyFor) of
        Inl e \<Rightarrow> Inl (errPrefix @ '': parse/signature: '' @ e)
      | Inr c \<Rightarrow>
          if claim_str c ''iss'' \<noteq> ''datuplet-api'' then Inl (errPrefix @ '': iss mismatch'')
          else
            (case jl_GetAudience lib c of
               Inl e \<Rightarrow> Inl (errPrefix @ '': aud: '' @ e)
             | Inr aud \<Rightarrow>
                 if aud \<noteq> [''datuplet-query-worker''] then
                   Inl (errPrefix @ '': aud is not exactly ['' @ fmt_q ''datuplet-query-worker'' @ '']'')
                 else if claim_str c ''token_kind'' \<noteq> ''internal-query'' then Inl (errPrefix @ '': token_kind mismatch'')
                 else if claim_str c ''sub'' = [] then Inl (errPrefix @ '': required claim sub is missing or empty'')
                 else Inr (claim_str c ''sub'', claim_str c ''jti'')))"

section \<open>The API\<close>

text \<open>\<open>strings.ToLower\<close> on ASCII; no rune outside ASCII is mapped onto a letter of the scheme's name.\<close>

definition to_lower_char :: "char \<Rightarrow> char" where
  "to_lower_char c =
     (let n = (of_char c :: nat) in if 65 \<le> n \<and> n \<le> 90 then char_of (n + 32) else c)"

definition strings_ToLower :: "string \<Rightarrow> string" where
  "strings_ToLower s = map to_lower_char s"

text \<open>The bearer token of an \<open>Authorization\<close> header, if there is one.\<close>

definition bearer_token :: "string \<Rightarrow> string option" where
  "bearer_token authz =
     (if authz = [] then None
      else if \<not> strings_HasPrefix (strings_ToLower authz) ''bearer '' then None
      else
        let tok = strings_TrimSpace (drop 7 authz) in
        if tok = [] then None else Some tok)"

definition own_key :: "signer \<Rightarrow> jwt_header \<Rightarrow> string + rsa_key" where
  "own_key sg h =
     (if h_alg h \<noteq> ''RS256'' then Inl (''unexpected alg '' @ fmt_q (h_alg h))
      else if h_kid h \<noteq> sg_KeyID sg then Inl (''unknown kid '' @ fmt_q (h_kid h))
      else Inr (sg_priv sg))"

definition api_options :: parse_options where
  "api_options = \<lparr>po_methods = [''RS256''], po_leeway = 60 * second, po_expRequired = True, po_checkIat = True\<rparr>"

fun audienceContains :: "claim option \<Rightarrow> string \<Rightarrow> bool" where
  "audienceContains (Some (CStr v)) want = (v = want)"
| "audienceContains (Some (CList vs)) want = (CStr want \<in> set vs)"
| "audienceContains _ want = False"

datatype lookup_error = ErrUserNotFound | LookupFailed string

definition bearer_UserFor :: "jwt_lib \<Rightarrow> signer \<Rightarrow> (uuid \<Rightarrow> lookup_error + user) \<Rightarrow> time_ns \<Rightarrow> string \<Rightarrow> string + user option" where
  "bearer_UserFor lib sg lookup now authz =
     (case bearer_token authz of
        None \<Rightarrow> Inr None
      | Some tok \<Rightarrow>
          (case jl_parse lib api_options now tok (own_key sg) of
             Inl _ \<Rightarrow> Inr None
           | Inr c \<Rightarrow>
               if claim_str c ''iss'' \<noteq> ''datuplet-api'' then Inr None
               else if \<not> audienceContains (map_of c ''aud'') ''datuplet-api'' then Inr None
               else if claim_str c ''token_kind'' \<noteq> ''cli-api'' then Inr None
               else
                 (case jl_uuid_Parse lib (claim_str c ''sub'') of
                    None \<Rightarrow> Inr None
                  | Some uid \<Rightarrow>
                      (case lookup uid of
                         Inl ErrUserNotFound \<Rightarrow> Inr None
                       | Inl (LookupFailed e) \<Rightarrow> Inl (''bearer user lookup: '' @ e)
                       | Inr u \<Rightarrow> if us_disabled u then Inr None else Inr (Some u)))))"

fun chain_UserFor :: "(string + user option) list \<Rightarrow> string + user option" where
  "chain_UserFor [] = Inr None"
| "chain_UserFor (r # rs) =
     (case r of Inl e \<Rightarrow> Inl e | Inr (Some u) \<Rightarrow> Inr (Some u) | Inr None \<Rightarrow> chain_UserFor rs)"

record app_principal =
  ap_sub :: string
  ap_jti :: string
  ap_rawToken :: string
  ap_appID :: string

definition parseAppBearer :: "jwt_lib \<Rightarrow> signer option \<Rightarrow> time_ns \<Rightarrow> string \<Rightarrow> app_principal option" where
  "parseAppBearer lib signer now authz =
     (case signer of
        None \<Rightarrow> None
      | Some sg \<Rightarrow>
          (case bearer_token authz of
             None \<Rightarrow> None
           | Some raw \<Rightarrow>
               (case jl_parse lib api_options now raw (own_key sg) of
                  Inl _ \<Rightarrow> None
                | Inr c \<Rightarrow>
                    if claim_str c ''iss'' \<noteq> ''datuplet-api'' then None
                    else if claim_str c ''aud'' \<noteq> TableTokenAudience then None
                    else if claim_str c ''token_kind'' \<noteq> TokenKindApp then None
                    else if claim_str c ''sub'' = [] \<or> \<not> strings_HasPrefix (claim_str c ''sub'') AppSubjectPrefix then None
                    else
                      Some \<lparr>ap_sub = claim_str c ''sub'', ap_jti = claim_str c ''jti'', ap_rawToken = raw,
                            ap_appID = claim_str c ''app_id''\<rparr>)))"

section \<open>All minters\<close>

datatype mint_request =
  ReqRun run_spec | ReqImpersonation | ReqApp string string | ReqQuery int | ReqInternalQuery int
| ReqService service_spec | ReqLocalCLI int | ReqCLIAPI int

fun mint :: "jwt_lib \<Rightarrow> mint_env \<Rightarrow> signer option \<Rightarrow> mint_request \<Rightarrow> string + string" where
  "mint lib env sg (ReqRun spec) = MintRunToken lib env sg spec"
| "mint lib env sg ReqImpersonation = MintImpersonation lib env sg"
| "mint lib env sg (ReqApp app project) = (case MintAppToken lib env sg app project of Inl e \<Rightarrow> Inl e | Inr (s, _) \<Rightarrow> Inr s)"
| "mint lib env sg (ReqQuery ttl) = MintQueryToken lib env sg ttl"
| "mint lib env sg (ReqInternalQuery ttl) = MintInternalQueryToken lib env sg ttl"
| "mint lib env sg (ReqService spec) = MintServiceToken lib env sg spec"
| "mint lib env sg (ReqLocalCLI lifetime) = (case MintLocalCLIToken lib env sg lifetime of Inl e \<Rightarrow> Inl e | Inr (s, _) \<Rightarrow> Inr s)"
| "mint lib env sg (ReqCLIAPI lifetime) = (case MintCLIAPIToken lib env sg lifetime of Inl e \<Rightarrow> Inl e | Inr (s, _) \<Rightarrow> Inr s)"

section \<open>What is in a minted token\<close>

definition ctx_subject :: "jwt_lib \<Rightarrow> mint_env \<Rightarrow> string" where
  "ctx_subject lib env = (case me_user env of None \<Rightarrow> [] | Some u \<Rightarrow> jl_uuid_String lib (us_ID u))"

definition app_jti :: "mint_env \<Rightarrow> string \<Rightarrow> string" where
  "app_jti env app = (case newAppTokenJTI env app of Inl _ \<Rightarrow> [] | Inr j \<Rightarrow> j)"

fun claims_of :: "jwt_lib \<Rightarrow> mint_env \<Rightarrow> mint_request \<Rightarrow> claims" where
  "claims_of lib env (ReqRun spec) = run_claims spec (ctx_subject lib env) (me_now env)"
| "claims_of lib env ReqImpersonation =
     user_claims TableTokenAudience (ctx_subject lib env) TokenKindImpersonation [] (me_now env) ImpersonationLifetime
       (stamped_jti ''imp'' (ctx_subject lib env) (me_now env))"
| "claims_of lib env (ReqApp app project) =
     user_claims TableTokenAudience (AppSubjectPrefix @ app) TokenKindApp
       [(''project_id'', CStr project), (''app_id'', CStr app)] (me_now env) AppTokenLifetime (app_jti env app)"
| "claims_of lib env (ReqQuery ttl) =
     user_claims TableTokenAudience (ctx_subject lib env) TokenKindQuery [] (me_now env) (min ttl MaxQueryTokenLifetime)
       (stamped_jti ''qry'' (ctx_subject lib env) (me_now env))"
| "claims_of lib env (ReqInternalQuery ttl) =
     user_claims QueryWorkerAudience (ctx_subject lib env) TokenKindInternalQuery [] (me_now env) (min ttl MaxQueryTokenLifetime)
       (stamped_jti ''iqry'' (ctx_subject lib env) (me_now env))"
| "claims_of lib env (ReqService spec) =
     [(''iss'', CStr tokenIssuer),
      (''aud'', CStr (if sv_Audience spec = [] then TableTokenAudience else sv_Audience spec)),
      (''sub'', CStr (sv_Subject spec)), (''token_type'', CStr ''service''), (''token_use'', CStr ''service''),
      (''iat'', CNum (unix (me_now env))), (''nbf'', CNum (unix (me_now env))),
      (''exp'', CNum (unix (me_now env + sv_Lifetime spec))), (''jti'', CStr (''svc-tok-'' @ sv_Subject spec))]"
| "claims_of lib env (ReqLocalCLI lifetime) =
     user_claims TableTokenAudience (ctx_subject lib env) TokenKindLocalCLI [(''token_use'', CStr TokenKindLocalCLI)] (me_now env) lifetime
       (stamped_jti ''cli-tok'' (ctx_subject lib env) (me_now env))"
| "claims_of lib env (ReqCLIAPI lifetime) =
     user_claims APITokenAudience (ctx_subject lib env) TokenKindCLIAPI [] (me_now env) lifetime
       (stamped_jti ''cli-api-tok'' (ctx_subject lib env) (me_now env))"

fun kind_of :: "mint_request \<Rightarrow> string" where
  "kind_of (ReqRun _) = ''run''" | "kind_of ReqImpersonation = ''impersonation''" | "kind_of (ReqApp _ _) = ''app''"
| "kind_of (ReqQuery _) = ''query''" | "kind_of (ReqInternalQuery _) = ''internal-query''" | "kind_of (ReqService _) = []"
| "kind_of (ReqLocalCLI _) = ''local-cli''" | "kind_of (ReqCLIAPI _) = ''cli-api''"

lemma sign_claims_Inr: "sign_claims lib g c = Inr s \<longleftrightarrow> jl_sign lib (sg_priv g) \<lparr>h_alg = ''RS256'', h_kid = sg_KeyID g\<rparr> c = Inr s"
  by (auto simp: sign_claims_def split: sum.splits)

lemma subject_Inr: "subjectFromCtx lib env = Inr s \<longleftrightarrow> (\<exists>u. me_user env = Some u) \<and> s = ctx_subject lib env"
  by (auto simp: subjectFromCtx_def ctx_subject_def split: option.splits)

lemmas minters = MintRunToken_def MintImpersonation_def MintAppToken_def MintQueryToken_def MintInternalQueryToken_def
  mintQueryFamily_def MintServiceToken_def MintLocalCLIToken_def MintCLIAPIToken_def mint_cli_def

lemma min_ttl: "(if ttl > MaxQueryTokenLifetime then MaxQueryTokenLifetime else ttl) = min ttl MaxQueryTokenLifetime"
  by simp

lemma minted:
  assumes "mint lib env sg req = Inr tok"
  obtains g where "sg = Some g" "jl_sign lib (sg_priv g) \<lparr>h_alg = ''RS256'', h_kid = sg_KeyID g\<rparr> (claims_of lib env req) = Inr tok"
  using assms
  by (cases req)
    (auto simp: minters sign_claims_Inr subject_Inr app_jti_def min_ttl[symmetric] Let_def simp del: min_less_iff_conj
      split: option.splits sum.splits if_splits prod.splits)

lemma minted_user:
  assumes "mint lib env sg req = Inr tok" "\<nexists>app project. req = ReqApp app project" "\<nexists>spec. req = ReqService spec"
  obtains u where "me_user env = Some u" "ctx_subject lib env = jl_uuid_String lib (us_ID u)"
  using assms
  by (cases req) (auto simp: minters subject_Inr ctx_subject_def Let_def split: option.splits sum.splits if_splits prod.splits)

lemma minted_kind: "claim_str (claims_of lib env req) ''token_kind'' = kind_of req"
  by (cases req) (simp_all add: claim_str_def run_claims_def user_claims_def token_constants)

end
