(* ===== verification/Token_Safety.thy ===== *)
theory Token_Safety
  imports Token_Verifiers "HOL-Library.Countable"
begin

text \<open>
  Properties of the platform's tokens: a run token validates for its run during its lifetime and never after it, no
  token of one kind passes a verifier of another, and the key cache fetches at most twice. A symbolic library, in
  which a token is the number of its contents, shows that what is assumed of the JWT library can hold.
\<close>

section \<open>A symbolic library\<close>

instance claim :: countable
  by countable_datatype

type_synonym token_contents = "rsa_key \<times> string \<times> string \<times> claims"

definition sym_token :: "token_contents \<Rightarrow> rsa_key \<Rightarrow> jwt_header \<Rightarrow> claims \<Rightarrow> string" where
  "sym_token fav key h c =
     nat_str (if (key, h_alg h, h_kid h, c) = fav then 0 else Suc (to_nat (key, h_alg h, h_kid h, c)))"

definition sym_contents :: "token_contents \<Rightarrow> string \<Rightarrow> token_contents" where
  "sym_contents fav s = (case digits_val 0 s of 0 \<Rightarrow> fav | Suc n \<Rightarrow> from_nat n)"

definition sym_parse :: "token_contents \<Rightarrow> parse_options \<Rightarrow> time_ns \<Rightarrow> string \<Rightarrow> (jwt_header \<Rightarrow> string + rsa_key) \<Rightarrow> string + claims" where
  "sym_parse fav opts now s kf =
     (case sym_contents fav s of
        (key, alg, kid, c) \<Rightarrow>
          if alg \<in> set (po_methods opts) \<and> kf \<lparr>h_alg = alg, h_kid = kid\<rparr> = Inr key \<and> times_ok opts now c then Inr c
          else Inl ''token is invalid'')"

definition sym_lib :: "token_contents \<Rightarrow> jwt_lib" where
  "sym_lib fav =
     \<lparr>jl_sign = (\<lambda>key h c. Inr (sym_token fav key h c)), jl_parse = sym_parse fav,
      jl_GetAudience = (\<lambda>c. case map_of c ''aud'' of Some (CStr a) \<Rightarrow> Inr [a] | _ \<Rightarrow> Inr []),
      jl_uuid_String = nat_str, jl_uuid_Parse = (\<lambda>s. if nat_str (digits_val 0 s) = s then Some (digits_val 0 s) else None)\<rparr>"

lemma sym_contents_token: "sym_contents fav (sym_token fav key h c) = (key, h_alg h, h_kid h, c)"
  by (simp add: sym_contents_def sym_token_def digits_val_nat_str)

lemma spaces_not_digits: "e \<in> set space_encs \<Longrightarrow> e \<noteq> [] \<and> \<not> is_digit (hd e) \<and> \<not> is_digit (last e)"
proof -
  have "list_all (\<lambda>e. e \<noteq> [] \<and> \<not> is_digit (hd e) \<and> \<not> is_digit (last e)) space_encs" by code_simp
  then show "e \<in> set space_encs \<Longrightarrow> e \<noteq> [] \<and> \<not> is_digit (hd e) \<and> \<not> is_digit (last e)" by (auto simp: list_all_iff)
qed

lemma digit_prefix_not_space:
  assumes "is_digit (hd s)" shows "space_prefix s = None"
proof -
  have "hd e = hd s" if "strings_HasPrefix s e" "e \<noteq> []" for e
    using that by (metis strings_HasPrefix_def hd_append2 append_take_drop_id)
  then show ?thesis unfolding space_prefix_def find_None_iff using spaces_not_digits assms by metis
qed

lemma digit_suffix_not_space:
  assumes "is_digit (last s)" shows "space_suffix s = None"
proof -
  have "last e = last s" if "strings_HasSuffix s e" "e \<noteq> []" for e
    using that by (metis strings_HasSuffix_def append_take_drop_id last_appendR)
  then show ?thesis unfolding space_suffix_def find_None_iff using spaces_not_digits assms by metis
qed

lemma TrimSpace_digits: "s \<noteq> [] \<Longrightarrow> \<forall>c \<in> set s. is_digit c \<Longrightarrow> strings_TrimSpace s = s"
  by (simp add: strings_TrimSpace_def trim_left.simps[of s] trim_right.simps[of s] digit_prefix_not_space digit_suffix_not_space)

lemma sym_laws: "jwt_laws (sym_lib fav)"
proof -
  have "parses_to (sym_lib fav) key h c (sym_token fav key h c)" for key h c
    by (cases h) (simp add: parses_to_def sym_lib_def sym_parse_def sym_contents_token)
  moreover have "sym_token fav key h c \<noteq> [] \<and> strings_TrimSpace (sym_token fav key h c) = sym_token fav key h c" for key h c
  proof -
    obtain n where n: "sym_token fav key h c = nat_str n" unfolding sym_token_def by blast
    have "nat_str n \<noteq> []" "\<forall>c \<in> set (nat_str n). is_digit c" using nat_str_digits[of n] by (auto simp: list_all_iff)
    then show ?thesis using TrimSpace_digits n by simp
  qed
  ultimately show ?thesis by (auto simp: jwt_laws_def sym_lib_def digits_val_nat_str)
qed

section \<open>Lifetime of a run token\<close>

lemma run_claims_facts:
  "claim_str (run_claims spec a now) ''iss'' = ''datuplet-api''" "claim_str (run_claims spec a now) ''token_kind'' = ''run''"
  "claim_str (run_claims spec a now) ''sub'' = rs_RunID spec" "claim_str (run_claims spec a now) ''run_id'' = rs_RunID spec"
  "claim_str (run_claims spec a now) ''project_id'' = rs_ProjectID spec" "claim_str (run_claims spec a now) ''warehouse'' = rs_Warehouse spec"
  "claim_num (run_claims spec a now) ''exp'' = Some (unix (now + rs_Lifetime spec))"
  "claim_num (run_claims spec a now) ''nbf'' = Some (unix now)"
  "map_of (run_claims spec a now) ''aud'' = Some (CStr (if rs_Audience spec = [] then TableTokenAudience else rs_Audience spec))"
  by (simp_all add: claim_str_def claim_num_def run_claims_def token_constants)

lemma unix_bounds: "unix t * second \<le> t" "t < (unix t + 1) * second"
  by (simp_all add: unix_def second_def)

definition run_options :: parse_options where
  "run_options = \<lparr>po_methods = [''RS256''], po_leeway = ClockSkewSeconds * second, po_expRequired = False, po_checkIat = False\<rparr>"

lemma Load_unfold:
  assumes "path \<noteq> []" "fs path = Inr raw" "strings_TrimSpace (take maxRunTokenFileBytes raw) = tok"
  shows "LoadAndValidateRunToken lib fs keyFor now path run =
     (case jl_parse lib run_options now tok (key_by_kid ''check 1: '' keyFor) of
        Inl e \<Rightarrow> Inl (vprefix @ '' check 1 (parse/signature): '' @ e) | Inr c \<Rightarrow> check_claims c run)"
  using assms by (simp add: LoadAndValidateRunToken_def readBoundedFile_def run_options_def)

text \<open>The checks of the claims, for the claims the API signs for a run.\<close>

lemma run_claims_checked:
  assumes "rs_RunID spec \<noteq> []"
  shows "if rs_ProjectID spec \<noteq> [] \<and> rs_Warehouse spec \<noteq> [] \<and> rs_Audience spec \<in> {[], TableTokenAudience}
    then check_claims (run_claims spec a now) (rs_RunID spec) =
      Inr \<lparr>vc_RunID = rs_RunID spec, vc_Subject = rs_RunID spec, vc_ProjectID = rs_ProjectID spec,
           vc_Warehouse = rs_Warehouse spec, vc_Issuer = ''datuplet-api'', vc_Audience = ''datuplet-catalog'',
           vc_Expiry = Some (unix (now + rs_Lifetime spec))\<rparr>
    else \<exists>e. check_claims (run_claims spec a now) (rs_RunID spec) = Inl e"
  using assms by (auto simp: check_claims_def run_claims_facts extractAudience_def token_constants Let_def)


section \<open>Kinds are not confused\<close>

lemma check_claims_kind: "check_claims c run = Inr v \<Longrightarrow> claim_str c ''token_kind'' = ''run'' \<and> claim_str c ''run_id'' = run"
  by (auto simp: check_claims_def Let_def split: if_splits sum.splits)

lemma Verify_accepts:
  "Verify lib keyFor now tok = Inr x \<Longrightarrow>
   \<exists>c. jl_parse lib \<lparr>po_methods = [''RS256''], po_leeway = 60 * second, po_expRequired = True, po_checkIat = False\<rparr> now tok
       (key_by_kid [] keyFor) = Inr c \<and> claim_str c ''token_kind'' = ''internal-query''"
  by (auto simp: Verify_def split: sum.splits if_splits)

lemma bearer_accepts:
  "bearer_token authz = Some tok \<Longrightarrow> bearer_UserFor lib own lookup now authz = Inr (Some u) \<Longrightarrow>
   \<exists>c uid. jl_parse lib api_options now tok (own_key own) = Inr c \<and> claim_str c ''token_kind'' = ''cli-api'' \<and>
     jl_uuid_Parse lib (claim_str c ''sub'') = Some uid \<and> lookup uid = Inr u \<and> \<not> us_disabled u"
  by (auto simp: bearer_UserFor_def split: sum.splits if_splits option.splits lookup_error.splits)

lemma app_accepts:
  "bearer_token authz = Some tok \<Longrightarrow> parseAppBearer lib own now authz = Some p \<Longrightarrow>
   \<exists>c o1. jl_parse lib api_options now tok (own_key o1) = Inr c \<and> claim_str c ''token_kind'' = ''app'' \<and>
     ap_sub p = claim_str c ''sub'' \<and> ap_appID p = claim_str c ''app_id'' \<and> ap_rawToken p = tok"
  by (auto simp: parseAppBearer_def TokenKindApp_def split: sum.splits if_splits option.splits)

lemma gateway_accepts_run:
  assumes "jwt_laws lib" "mint lib env sg req = Inr tok"
    and "path \<noteq> []" "fs path = Inr raw" "strings_TrimSpace (take maxRunTokenFileBytes raw) = tok"
    and "LoadAndValidateRunToken lib fs keyFor now path run = Inr v"
  shows "\<exists>spec. req = ReqRun spec \<and> rs_RunID spec = run"
proof -
  obtain g where "sg = Some g"
    and g: "jl_sign lib (sg_priv g) \<lparr>h_alg = ''RS256'', h_kid = sg_KeyID g\<rparr> (claims_of lib env req) = Inr tok"
    by (rule minted[OF assms(2)])
  obtain c where c: "jl_parse lib run_options now tok (key_by_kid ''check 1: '' keyFor) = Inr c" "check_claims c run = Inr v"
    using Load_unfold[of path fs raw tok lib keyFor now run, OF assms(3-5)] assms(6) by (simp split: sum.splits)
  have "check_claims (claims_of lib env req) run = Inr v"
    using c parse_sound[OF signed_token(1)[OF assms(1) g] c(1)] by simp
  then have "kind_of req = ''run''" "claim_str (claims_of lib env req) ''run_id'' = run"
    using check_claims_kind minted_kind by metis+
  then show ?thesis by (cases req) (auto simp: run_claims_facts)
qed

lemma worker_accepts_internal:
  assumes "jwt_laws lib" "mint lib env sg req = Inr tok" "Verify lib keyFor now tok = Inr x"
  shows "\<exists>ttl. req = ReqInternalQuery ttl" "now < me_now env + MaxQueryTokenLifetime + 60 * second"
proof -
  obtain g where "sg = Some g"
    and g: "jl_sign lib (sg_priv g) \<lparr>h_alg = ''RS256'', h_kid = sg_KeyID g\<rparr> (claims_of lib env req) = Inr tok"
    by (rule minted[OF assms(2)])
  let ?opts = "\<lparr>po_methods = [''RS256''], po_leeway = 60 * second, po_expRequired = True, po_checkIat = False\<rparr>"
  obtain c0 where c0: "jl_parse lib ?opts now tok (key_by_kid [] keyFor) = Inr c0" "claim_str c0 ''token_kind'' = ''internal-query''"
    using Verify_accepts[OF assms(3)] by blast
  have c: "claim_str (claims_of lib env req) ''token_kind'' = ''internal-query''" "times_ok ?opts now (claims_of lib env req)"
    using c0(2) parse_sound[OF signed_token(1)[OF assms(1) g] c0(1)] by simp_all
  then obtain ttl where ttl: "req = ReqInternalQuery ttl" using minted_kind[of lib env req] by (cases req) auto
  then show "\<exists>ttl. req = ReqInternalQuery ttl" by blast
  have "claim_num (claims_of lib env req) ''exp'' = Some (unix (me_now env + min ttl MaxQueryTokenLifetime))"
    using ttl by (simp add: user_claims_def claim_num_def)
  then have "now < unix (me_now env + min ttl MaxQueryTokenLifetime) * second + 60 * second"
    using c(2) by (simp add: times_ok_def)
  also have "\<dots> \<le> me_now env + min ttl MaxQueryTokenLifetime + 60 * second" using unix_bounds(1) by simp
  finally show "now < me_now env + MaxQueryTokenLifetime + 60 * second" by simp
qed

lemma api_accepts_cli:
  assumes "jwt_laws lib" "mint lib env sg req = Inr tok" "bearer_token authz = Some tok"
    and "bearer_UserFor lib own lookup now authz = Inr (Some u)"
  shows "\<exists>lifetime u0. req = ReqCLIAPI lifetime \<and> me_user env = Some u0 \<and> lookup (us_ID u0) = Inr u \<and> \<not> us_disabled u"
proof -
  obtain g where "sg = Some g"
    and g: "jl_sign lib (sg_priv g) \<lparr>h_alg = ''RS256'', h_kid = sg_KeyID g\<rparr> (claims_of lib env req) = Inr tok"
    by (rule minted[OF assms(2)])
  obtain c0 uid where c0: "jl_parse lib api_options now tok (own_key own) = Inr c0" "claim_str c0 ''token_kind'' = ''cli-api''"
     "jl_uuid_Parse lib (claim_str c0 ''sub'') = Some uid" "lookup uid = Inr u" "\<not> us_disabled u"
    using bearer_accepts[OF assms(3,4)] by blast
  have "c0 = claims_of lib env req" using parse_sound[OF signed_token(1)[OF assms(1) g] c0(1)] by simp
  note c = c0(2-5)[unfolded this]
  obtain lifetime where l: "req = ReqCLIAPI lifetime" using c(1) minted_kind[of lib env req] by (cases req) auto
  obtain u0 where u0: "me_user env = Some u0" "ctx_subject lib env = jl_uuid_String lib (us_ID u0)"
    using minted_user[OF assms(2)] l by blast
  have "claim_str (claims_of lib env req) ''sub'' = jl_uuid_String lib (us_ID u0)"
    using l u0(2) by (simp add: user_claims_def claim_str_def)
  then have "uid = us_ID u0" using c(2) uuid_law[OF assms(1)] by simp
  then show ?thesis using l u0(1) c(3,4) by blast
qed

lemma app_route_accepts_app:
  assumes "jwt_laws lib" "mint lib env sg req = Inr tok" "bearer_token authz = Some tok"
    and "parseAppBearer lib own now authz = Some p"
  shows "\<exists>app project. req = ReqApp app project \<and> ap_appID p = app \<and> ap_sub p = ''app-'' @ app \<and> ap_rawToken p = tok"
proof -
  obtain g where "sg = Some g"
    and g: "jl_sign lib (sg_priv g) \<lparr>h_alg = ''RS256'', h_kid = sg_KeyID g\<rparr> (claims_of lib env req) = Inr tok"
    by (rule minted[OF assms(2)])
  obtain c0 o1 where c0: "jl_parse lib api_options now tok (own_key o1) = Inr c0" "claim_str c0 ''token_kind'' = ''app''"
     "ap_sub p = claim_str c0 ''sub''" "ap_appID p = claim_str c0 ''app_id''" "ap_rawToken p = tok"
    using app_accepts[OF assms(3,4)] by blast
  have "c0 = claims_of lib env req" using parse_sound[OF signed_token(1)[OF assms(1) g] c0(1)] by simp
  note c = c0(2-5)[unfolded this]
  obtain app project where "req = ReqApp app project" using c(1) minted_kind[of lib env req] by (cases req) auto
  then show ?thesis using c(2-4) by (simp add: user_claims_def claim_str_def AppSubjectPrefix_def)
qed

text \<open>C38. Whatever token the API has minted, the gateway of a run accepts it only if it is the run token of that run, the query
  worker only if it is an internal query token, and at most 390 seconds after it was minted, the API's bearer
  resolver only if it is a CLI token, for the enabled user that requested it, and the app route only if it is an app
  token, under the identity of its app.\<close>

theorem tokens_not_confused:
  assumes "jwt_laws lib" "mint lib env sg req = Inr tok"
  shows "(\<forall>fs keyFor now path raw run v.
       path \<noteq> [] \<and> fs path = Inr raw \<and> strings_TrimSpace (take maxRunTokenFileBytes raw) = tok \<and>
       LoadAndValidateRunToken lib fs keyFor now path run = Inr v \<longrightarrow> (\<exists>spec. req = ReqRun spec \<and> rs_RunID spec = run)) \<and>
     (\<forall>keyFor now x. Verify lib keyFor now tok = Inr x \<longrightarrow>
       (\<exists>ttl. req = ReqInternalQuery ttl) \<and> now < me_now env + 390 * second) \<and>
     (\<forall>own lookup now authz u. bearer_token authz = Some tok \<and> bearer_UserFor lib own lookup now authz = Inr (Some u) \<longrightarrow>
       (\<exists>lifetime u0. req = ReqCLIAPI lifetime \<and> me_user env = Some u0 \<and> lookup (us_ID u0) = Inr u \<and> \<not> us_disabled u)) \<and>
     (\<forall>own now authz p. bearer_token authz = Some tok \<and> parseAppBearer lib own now authz = Some p \<longrightarrow>
       (\<exists>app project. req = ReqApp app project \<and> ap_appID p = app \<and> ap_sub p = ''app-'' @ app \<and> ap_rawToken p = tok))"
proof (intro conjI allI impI; (elim conjE)?)
  fix fs keyFor now path raw run v
  assume "path \<noteq> []" "fs path = Inr raw" "strings_TrimSpace (take maxRunTokenFileBytes raw) = tok"
    "LoadAndValidateRunToken lib fs keyFor now path run = Inr v"
  then show "\<exists>spec. req = ReqRun spec \<and> rs_RunID spec = run" by (rule gateway_accepts_run[OF assms])
next
  fix keyFor now x
  assume v: "Verify lib keyFor now tok = Inr x"
  show "\<exists>ttl. req = ReqInternalQuery ttl" by (rule worker_accepts_internal(1)[OF assms v])
  show "now < me_now env + 390 * second"
    using worker_accepts_internal(2)[OF assms v] by (simp add: MaxQueryTokenLifetime_def)
next
  fix own lookup now authz u
  assume "bearer_token authz = Some tok" "bearer_UserFor lib own lookup now authz = Inr (Some u)"
  then show "\<exists>lifetime u0. req = ReqCLIAPI lifetime \<and> me_user env = Some u0 \<and> lookup (us_ID u0) = Inr u \<and> \<not> us_disabled u"
    by (rule api_accepts_cli[OF assms])
next
  fix own now authz p
  assume "bearer_token authz = Some tok" "parseAppBearer lib own now authz = Some p"
  then show "\<exists>app project. req = ReqApp app project \<and> ap_appID p = app \<and> ap_sub p = ''app-'' @ app \<and> ap_rawToken p = tok"
    by (rule app_route_accepts_app[OF assms])
qed

section \<open>The key cache\<close>

text \<open>A cached key is answered without a fetch, at most two fetches are made, and a key that is answered is in the key
  set the cache then holds.\<close>

lemma KeyFor_bounded:
  assumes "KeyFor fetch cache kid = (cache', r, used)"
  shows "used \<le> 2 \<and> (\<forall>keys k. cache = Some keys \<and> map_of keys kid = Some k \<longrightarrow> r = Inr k \<and> used = 0) \<and>
     (\<forall>k. r = Inr k \<longrightarrow> (\<exists>keys. cache' = Some keys \<and> map_of keys kid = Some k))"
  using assms
  by (cases cache; cases "fetch 0"; cases "fetch 1") (auto simp: KeyFor_def refetch_def split: option.splits sum.splits)

section \<open>A run token, symbolically\<close>

definition demo_signer :: signer where
  "demo_signer = \<lparr>sg_priv = 7, sg_KeyID = ''k1''\<rparr>"

definition demo_mint_env :: mint_env where
  "demo_mint_env = \<lparr>me_user = Some \<lparr>us_ID = 42, us_disabled = False\<rparr>, me_now = 1000 * second, me_random = Inr []\<rparr>"

definition demo_run_spec :: run_spec where
  "demo_run_spec = \<lparr>rs_RunID = ''r1'', rs_ProjectID = ''p1'', rs_PipelineName = ''pl'', rs_Warehouse = ''w1'', rs_Audience = TableTokenAudience,
     rs_Lifetime = 86400 * second\<rparr>"

definition demo_contents :: token_contents where
  "demo_contents = (7, ''RS256'', ''k1'', run_claims demo_run_spec (nat_str 42) (1000 * second))"

abbreviation demo_jwt :: jwt_lib where
  "demo_jwt \<equiv> sym_lib demo_contents"

lemma zero_text: "nat_str 0 = ''0''"
  by code_simp

lemma demo_minted: "MintRunToken demo_jwt demo_mint_env (Some demo_signer) demo_run_spec = Inr ''0''"
  by (simp add: MintRunToken_def demo_mint_env_def demo_signer_def demo_contents_def sign_claims_def sym_lib_def
      subjectFromCtx_def second_def sym_token_def zero_text)
    (simp add: demo_run_spec_def second_def)

theorem tokens_not_confused_witness:
  "mint demo_jwt demo_mint_env (Some demo_signer) (ReqRun demo_run_spec) = Inr ''0'' \<and>
   \<not> (\<exists>keyFor now x. Verify demo_jwt keyFor now ''0'' = Inr x)"
  using tokens_not_confused[OF sym_laws, of demo_contents demo_mint_env "Some demo_signer" "ReqRun demo_run_spec" "''0''"] demo_minted by auto


end
