(* ===== verification/Run_Store.thy ===== *)
theory Run_Store
  imports Tokens "HOL-Library.Product_Lexorder"
begin

text \<open>
  The tables of the platform's database and the statements of \<open>pkg/pipelineapi/store\<close> on them. A table is the list of
  its rows: an \<open>UPDATE\<close> maps over it, a \<open>SELECT\<close> filters it, and \<open>RowsAffected\<close> counts the rows its \<open>WHERE\<close> clause
  selects. What can go wrong between the process and the database, the cluster and the authorization service is a
  list of fates, one per call, so that every statement about the callers holds for every such list.
\<close>

section \<open>Errors\<close>

text \<open>The sentinel errors the callers tell apart with \<open>errors.Is\<close> and \<open>apierrors.IsNotFound\<close>, and wrapping with \<open>%w\<close>.\<close>

datatype go_error =
    ErrRunNotFound | ErrPreviewNotFound | ErrProjectNotFound | ErrPipelineNotFound
  | ErrPreviewCap nat nat nat
  | ErrK8sNotFound string | ErrK8sAlreadyExists string
  | ErrAppNotFound | ErrAlreadyExists | ErrBundleTooLarge | ErrProjectQuota | ErrCASMismatch
  | ErrOther string
  | ErrWrap string go_error

fun err_root :: "go_error \<Rightarrow> go_error" where
  "err_root (ErrWrap _ e) = err_root e"
| "err_root e = e"

definition errors_Is :: "go_error \<Rightarrow> go_error \<Rightarrow> bool" where
  "errors_Is e sentinel \<longleftrightarrow> err_root e = sentinel"

fun apierrors_IsNotFound :: "go_error \<Rightarrow> bool" where
  "apierrors_IsNotFound (ErrK8sNotFound _) \<longleftrightarrow> True"
| "apierrors_IsNotFound (ErrWrap _ e) \<longleftrightarrow> apierrors_IsNotFound e"
| "apierrors_IsNotFound _ \<longleftrightarrow> False"

fun apierrors_IsAlreadyExists :: "go_error \<Rightarrow> bool" where
  "apierrors_IsAlreadyExists (ErrK8sAlreadyExists _) \<longleftrightarrow> True"
| "apierrors_IsAlreadyExists (ErrWrap _ e) \<longleftrightarrow> apierrors_IsAlreadyExists e"
| "apierrors_IsAlreadyExists _ \<longleftrightarrow> False"

fun err_text :: "go_error \<Rightarrow> string" where
  "err_text ErrRunNotFound = ''run not found''"
| "err_text ErrPreviewNotFound = ''preview not found''"
| "err_text ErrProjectNotFound = ''project not found''"
| "err_text ErrPipelineNotFound = ''pipeline not found''"
| "err_text (ErrPreviewCap w p l) =
     ''preview cap reached: '' @ fmt_d (int w) @ '' running in workspace, '' @ fmt_d (int p) @
     '' running in project, '' @ fmt_d (int l) @ '' live in project''"
| "err_text (ErrK8sNotFound s) = s"
| "err_text (ErrK8sAlreadyExists s) = s"
| "err_text ErrAppNotFound = ''apps: not found''"
| "err_text ErrAlreadyExists = ''apps: already exists''"
| "err_text ErrBundleTooLarge = ''apps: bundle exceeds maximum size''"
| "err_text ErrProjectQuota = ''apps: project storage quota exceeded''"
| "err_text ErrCASMismatch = ''apps: compare-and-swap mismatch''"
| "err_text (ErrOther s) = s"
| "err_text (ErrWrap p e) = p @ '': '' @ err_text e"

section \<open>Rows\<close>

record run_row =
  rr_ID :: uuid
  rr_ProjectID :: uuid
  rr_PipelineID :: uuid
  rr_Phase :: string
  rr_CurrentStage :: string
  rr_Message :: string
  rr_StageStatuses :: "string option"
  rr_StartedAt :: "time_ns option"
  rr_CompletedAt :: "time_ns option"
  rr_TriggeredBy :: "uuid option"
  rr_CreatedAt :: time_ns
  rr_UpdatedAt :: time_ns
  rr_observed_rv :: int

record project_row =
  pj_ID :: uuid
  pj_Name :: string
  pj_K8sNamespace :: string
  pj_LakekeeperProjectID :: string

record pipeline_row =
  pl_ID :: uuid
  pl_ProjectID :: uuid
  pl_Name :: string

definition uuid_Nil :: uuid where
  "uuid_Nil = 0"

text \<open>SQL's \<open>COALESCE\<close> of a parameter and a column.\<close>

fun coalesce2 :: "'a option \<Rightarrow> 'a option \<Rightarrow> 'a option" where
  "coalesce2 (Some x) _ = Some x"
| "coalesce2 None y = y"

section \<open>Runs\<close>

record create_run_opts =
  co_ID :: uuid
  co_ProjectID :: uuid
  co_PipelineID :: uuid
  co_TriggeredBy :: uuid

text \<open>The column defaults of the \<open>runs\<close> table: phase \<open>Pending\<close>, empty stage and message, \<open>observed_rv\<close> 0.\<close>

definition inserted_run :: "create_run_opts \<Rightarrow> time_ns \<Rightarrow> run_row" where
  "inserted_run opts now =
     \<lparr>rr_ID = co_ID opts, rr_ProjectID = co_ProjectID opts, rr_PipelineID = co_PipelineID opts, rr_Phase = ''Pending'',
      rr_CurrentStage = [], rr_Message = [], rr_StageStatuses = None, rr_StartedAt = None, rr_CompletedAt = None,
      rr_TriggeredBy = (if co_TriggeredBy opts \<noteq> uuid_Nil then Some (co_TriggeredBy opts) else None),
      rr_CreatedAt = now, rr_UpdatedAt = now, rr_observed_rv = 0\<rparr>"

text \<open>The primary key on \<open>id\<close> and the composite foreign key on \<open>(pipeline_id, project_id)\<close>.\<close>

definition CreateRun :: "pipeline_row list \<Rightarrow> run_row list \<Rightarrow> create_run_opts \<Rightarrow> time_ns \<Rightarrow>
    (go_error + run_row) \<times> run_row list" where
  "CreateRun pipelines runs opts now =
     (if co_ID opts \<in> set (map rr_ID runs) then
        (Inl (ErrWrap ''insert run'' (ErrOther ''duplicate key value violates unique constraint'')), runs)
      else if \<not> list_ex (\<lambda>p. pl_ID p = co_PipelineID opts \<and> pl_ProjectID p = co_ProjectID opts) pipelines then
        (Inl (ErrWrap ''insert run'' (ErrOther ''insert or update on table violates foreign key constraint'')), runs)
      else (Inr (inserted_run opts now), runs @ [inserted_run opts now]))"

definition GetRunByID :: "pipeline_row list \<Rightarrow> run_row list \<Rightarrow> uuid \<Rightarrow> go_error + run_row" where
  "GetRunByID pipelines runs i =
     (case find (\<lambda>r. rr_ID r = i \<and> rr_PipelineID r \<in> set (map pl_ID pipelines)) runs of
        None \<Rightarrow> Inl ErrRunNotFound
      | Some r \<Rightarrow> Inr r)"

record update_phase_opts =
  uo_Phase :: string
  uo_CurrentStage :: string
  uo_Message :: string
  uo_StartedAt :: "time_ns option"
  uo_CompletedAt :: "time_ns option"
  uo_ObservedRV :: int
  uo_StageStatuses :: "string option"
  uo_GuardTerminal :: bool

definition out_of_band :: "string list" where
  "out_of_band = [''Cancelled'', ''Expired'']"

text \<open>The \<open>WHERE\<close> clause beyond the key: the resource-version guard, and the guard on the phases written out of band.\<close>

definition phase_guard :: "update_phase_opts \<Rightarrow> int \<Rightarrow> string \<Rightarrow> bool" where
  "phase_guard opts observed phase \<longleftrightarrow>
     (uo_ObservedRV opts = 0 \<or> uo_ObservedRV opts > observed) \<and>
     (uo_GuardTerminal opts \<longrightarrow> phase \<notin> set out_of_band)"

definition set_phase :: "update_phase_opts \<Rightarrow> time_ns \<Rightarrow> run_row \<Rightarrow> run_row" where
  "set_phase opts now r = r\<lparr>
     rr_Phase := uo_Phase opts,
     rr_CurrentStage := uo_CurrentStage opts,
     rr_Message := uo_Message opts,
     rr_StartedAt := coalesce2 (uo_StartedAt opts) (rr_StartedAt r),
     rr_CompletedAt := coalesce2 (uo_CompletedAt opts) (rr_CompletedAt r),
     rr_StageStatuses := coalesce2 (uo_StageStatuses opts) (rr_StageStatuses r),
     rr_observed_rv := max (rr_observed_rv r) (uo_ObservedRV opts),
     rr_UpdatedAt := now\<rparr>"

definition run_hit :: "uuid \<Rightarrow> update_phase_opts \<Rightarrow> run_row \<Rightarrow> bool" where
  "run_hit i opts r \<longleftrightarrow> rr_ID r = i \<and> phase_guard opts (rr_observed_rv r) (rr_Phase r)"

definition UpdateRunPhase :: "run_row list \<Rightarrow> uuid \<Rightarrow> update_phase_opts \<Rightarrow> time_ns \<Rightarrow>
    (go_error + bool) \<times> run_row list" where
  "UpdateRunPhase runs i opts now =
     (if \<not> list_ex (run_hit i opts) runs then
        (if uo_ObservedRV opts = 0 \<and> \<not> uo_GuardTerminal opts then Inl ErrRunNotFound else Inr False, runs)
      else (Inr True, map (\<lambda>r. if run_hit i opts r then set_phase opts now r else r) runs))"

section \<open>Projects and pipelines\<close>

definition GetProjectByID :: "project_row list \<Rightarrow> uuid \<Rightarrow> go_error + project_row" where
  "GetProjectByID projects i =
     (case find (\<lambda>p. pj_ID p = i) projects of None \<Rightarrow> Inl ErrProjectNotFound | Some p \<Rightarrow> Inr p)"

definition GetPipelineNameByID :: "pipeline_row list \<Rightarrow> uuid \<Rightarrow> go_error + string" where
  "GetPipelineNameByID pipelines i =
     (case find (\<lambda>p. pl_ID p = i) pipelines of None \<Rightarrow> Inl ErrPipelineNotFound | Some p \<Rightarrow> Inr (pl_Name p))"

section \<open>Facts about single statements\<close>

lemma set_phase_simps [simp]:
  "rr_ID (set_phase opts now r) = rr_ID r" "rr_ProjectID (set_phase opts now r) = rr_ProjectID r"
  "rr_PipelineID (set_phase opts now r) = rr_PipelineID r" "rr_Phase (set_phase opts now r) = uo_Phase opts"
  "rr_observed_rv (set_phase opts now r) = max (rr_observed_rv r) (uo_ObservedRV opts)"
  "rr_CreatedAt (set_phase opts now r) = rr_CreatedAt r"
  by (simp_all add: set_phase_def)

lemma UpdateRunPhase_ids [simp]: "map rr_ID (snd (UpdateRunPhase runs i opts now)) = map rr_ID runs"
  by (simp add: UpdateRunPhase_def)

lemma UpdateRunPhase_misses:
  assumes "fst (UpdateRunPhase runs i opts now) \<noteq> Inr True"
  shows "snd (UpdateRunPhase runs i opts now) = runs"
  using assms by (simp add: UpdateRunPhase_def split: if_splits)

lemma UpdateRunPhase_others:
  "filter (\<lambda>r. rr_ID r \<noteq> i) (snd (UpdateRunPhase runs i opts now)) = filter (\<lambda>r. rr_ID r \<noteq> i) runs"
proof -
  have "filter (\<lambda>r. rr_ID r \<noteq> i) (map (\<lambda>r. if run_hit i opts r then set_phase opts now r else r) runs) =
      filter (\<lambda>r. rr_ID r \<noteq> i) runs"
    by (induction runs) (auto simp: run_hit_def)
  then show ?thesis by (simp add: UpdateRunPhase_def)
qed

lemma CreateRun_cases:
  "snd (CreateRun pipelines runs opts now) = runs \<or>
   snd (CreateRun pipelines runs opts now) = runs @ [inserted_run opts now] \<and> co_ID opts \<notin> set (map rr_ID runs)"
  by (simp add: CreateRun_def)

lemma CreateRun_distinct:
  "distinct (map rr_ID runs) \<Longrightarrow> distinct (map rr_ID (snd (CreateRun pipelines runs opts now)))"
  by (auto simp: CreateRun_def inserted_run_def)

end
