(* ===== verification/Preview_Store.thy ===== *)
theory Preview_Store
  imports Run_Store
begin

text \<open>
  The \<open>previews\<close> table and the statements of \<open>pkg/pipelineapi/store/preview.go\<close> on it: insertion under the caps with
  eviction of cleaned rows, the guarded phase update with its expiry, the sweeper's stamps, and the keyset pages. The
  caps bound the table whatever sequence of statements runs.
\<close>

section \<open>Rows\<close>

text \<open>\<open>time.Time{}\<close>, the first instant of year 1, in nanoseconds since 1970.\<close>

definition zero_time :: time_ns where
  "zero_time = - 62135596800000000000"

record preview_row =
  pv_ID :: uuid
  pv_ProjectID :: uuid
  pv_TriggeredBy :: uuid
  pv_Workspace :: string
  pv_Doc :: string
  pv_RowLimit :: int
  pv_TimeoutSeconds :: int
  pv_TTLSeconds :: int
  pv_UntilStage :: string
  pv_ScratchNamespaces :: "string list"
  pv_LakekeeperProjectID :: string
  pv_Warehouse :: string
  pv_K8sNamespace :: string
  pv_Phase :: string
  pv_CurrentStage :: string
  pv_Message :: string
  pv_StageStatuses :: "string option"
  pv_Result :: "string option"
  pv_FGATupleDeletedAt :: "time_ns option"
  pv_StartedAt :: "time_ns option"
  pv_CompletedAt :: "time_ns option"
  pv_CleanedAt :: "time_ns option"
  pv_CreatedAt :: time_ns
  pv_ExpiresAt :: time_ns
  pv_observed_rv :: int

record preview_caps =
  pc_RunningPerWorkspace :: int
  pc_RunningPerProject :: int
  pc_MaxPerProject :: int

section \<open>Insertion\<close>

definition in_project :: "uuid \<Rightarrow> preview_row \<Rightarrow> bool" where
  "in_project pid p \<longleftrightarrow> pv_ProjectID p = pid"

definition live_row :: "preview_row \<Rightarrow> bool" where
  "live_row p \<longleftrightarrow> pv_CleanedAt p = None"

definition running_row :: "preview_row \<Rightarrow> bool" where
  "running_row p \<longleftrightarrow> pv_Phase p \<in> {''Pending'', ''Running''} \<and> live_row p"

definition evictable :: "uuid \<Rightarrow> preview_row \<Rightarrow> bool" where
  "evictable pid p \<longleftrightarrow> in_project pid p \<and> pv_CleanedAt p \<noteq> None \<and> pv_FGATupleDeletedAt p \<noteq> None"

definition count_rows :: "(preview_row \<Rightarrow> bool) \<Rightarrow> preview_row list \<Rightarrow> nat" where
  "count_rows P rows = length (filter P rows)"

text \<open>\<open>LIMIT GREATEST(0, count - max + 1)\<close> over the evictable rows in ascending order of \<open>(created_at, id)\<close>.\<close>

definition evict_ids :: "uuid \<Rightarrow> int \<Rightarrow> preview_row list \<Rightarrow> uuid list" where
  "evict_ids pid maxp rows =
     (let n = nat (max 0 (int (count_rows (in_project pid) rows) - maxp + 1)) in
      map pv_ID (take n (sort_key (\<lambda>p. (pv_CreatedAt p, pv_ID p)) (filter (evictable pid) rows))))"

definition evict :: "uuid \<Rightarrow> int \<Rightarrow> preview_row list \<Rightarrow> preview_row list" where
  "evict pid maxp rows = (if maxp > 0 then filter (\<lambda>p. pv_ID p \<notin> set (evict_ids pid maxp rows)) rows else rows)"

definition over_cap :: "int \<Rightarrow> nat \<Rightarrow> bool" where
  "over_cap cap n \<longleftrightarrow> cap > 0 \<and> int n \<ge> cap"

definition int4 :: "int \<Rightarrow> bool" where
  "int4 i \<longleftrightarrow> - (2 ^ 31) \<le> i \<and> i < 2 ^ 31"

definition inserted_preview :: "preview_row \<Rightarrow> time_ns \<Rightarrow> preview_row" where
  "inserted_preview p now = p\<lparr>
     pv_Phase := (if pv_Phase p = [] then ''Pending'' else pv_Phase p),
     pv_CurrentStage := [], pv_Message := [], pv_StageStatuses := None, pv_Result := None,
     pv_FGATupleDeletedAt := None, pv_StartedAt := None, pv_CompletedAt := None, pv_CleanedAt := None,
     pv_CreatedAt := now,
     pv_ExpiresAt := (if pv_ExpiresAt p \<noteq> zero_time then pv_ExpiresAt p
                      else now + (pv_TimeoutSeconds p + pv_TTLSeconds p) * second),
     pv_observed_rv := 0\<rparr>"

text \<open>The transaction: a refused insertion rolls the eviction back with it. The integer columns and the sum of the two
  of them are four bytes wide.\<close>

definition InsertPreview :: "preview_row list \<Rightarrow> preview_row \<Rightarrow> preview_caps \<Rightarrow> time_ns \<Rightarrow>
    (go_error + preview_row) \<times> preview_row list" where
  "InsertPreview rows p caps now =
     (let rows' = evict (pv_ProjectID p) (pc_MaxPerProject caps) rows;
          mine = in_project (pv_ProjectID p);
          w = count_rows (\<lambda>q. mine q \<and> running_row q \<and> pv_Workspace q = pv_Workspace p) rows';
          r = count_rows (\<lambda>q. mine q \<and> running_row q) rows';
          l = count_rows (\<lambda>q. mine q \<and> live_row q) rows' in
      if over_cap (pc_RunningPerWorkspace caps) w \<or> over_cap (pc_RunningPerProject caps) r \<or>
         over_cap (pc_MaxPerProject caps) l then (Inl (ErrPreviewCap w r l), rows)
      else if \<not> list_all int4 [pv_RowLimit p, pv_TimeoutSeconds p, pv_TTLSeconds p] \<or>
              pv_ExpiresAt p = zero_time \<and> \<not> int4 (pv_TimeoutSeconds p + pv_TTLSeconds p) then
        (Inl (ErrWrap ''insert preview'' (ErrOther ''integer out of range'')), rows)
      else if pv_ID p \<in> set (map pv_ID rows') then
        (Inl (ErrWrap ''insert preview'' (ErrOther ''duplicate key value violates unique constraint'')), rows)
      else (Inr (inserted_preview p now), rows' @ [inserted_preview p now]))"

section \<open>Updates\<close>

definition update_where :: "(preview_row \<Rightarrow> bool) \<Rightarrow> (preview_row \<Rightarrow> preview_row) \<Rightarrow> preview_row list \<Rightarrow> preview_row list" where
  "update_where P f rows = map (\<lambda>p. if P p then f p else p) rows"

definition terminal_phase_names :: "string list" where
  "terminal_phase_names = [''Succeeded'', ''FailedUser'', ''FailedApplication'', ''Cancelled'', ''Expired'']"

definition set_preview_phase :: "update_phase_opts \<Rightarrow> time_ns \<Rightarrow> preview_row \<Rightarrow> preview_row" where
  "set_preview_phase opts now p = p\<lparr>
     pv_Phase := uo_Phase opts,
     pv_CurrentStage := uo_CurrentStage opts,
     pv_Message := uo_Message opts,
     pv_StartedAt := coalesce2 (uo_StartedAt opts) (pv_StartedAt p),
     pv_CompletedAt := coalesce2 (uo_CompletedAt opts) (pv_CompletedAt p),
     pv_StageStatuses := coalesce2 (uo_StageStatuses opts) (pv_StageStatuses p),
     pv_observed_rv := max (pv_observed_rv p) (uo_ObservedRV opts),
     pv_ExpiresAt :=
       (if uo_Phase opts \<in> set terminal_phase_names then
          (case coalesce2 (uo_CompletedAt opts) (pv_CompletedAt p) of None \<Rightarrow> now | Some t \<Rightarrow> t) + pv_TTLSeconds p * second
        else pv_ExpiresAt p)\<rparr>"

definition preview_hit :: "uuid \<Rightarrow> update_phase_opts \<Rightarrow> preview_row \<Rightarrow> bool" where
  "preview_hit i opts p \<longleftrightarrow> pv_ID p = i \<and> phase_guard opts (pv_observed_rv p) (pv_Phase p)"

definition UpdatePreviewPhase :: "preview_row list \<Rightarrow> uuid \<Rightarrow> update_phase_opts \<Rightarrow> time_ns \<Rightarrow> bool \<times> preview_row list" where
  "UpdatePreviewPhase rows i opts now =
     (list_ex (preview_hit i opts) rows, update_where (preview_hit i opts) (set_preview_phase opts now) rows)"

definition SetPreviewResult :: "preview_row list \<Rightarrow> uuid \<Rightarrow> string \<Rightarrow> preview_row list" where
  "SetPreviewResult rows i res =
     update_where (\<lambda>p. pv_ID p = i \<and> pv_Result p = None) (\<lambda>p. p\<lparr>pv_Result := Some res\<rparr>) rows"

definition OverwritePreviewResult :: "preview_row list \<Rightarrow> uuid \<Rightarrow> string \<Rightarrow> preview_row list" where
  "OverwritePreviewResult rows i res = update_where (\<lambda>p. pv_ID p = i) (\<lambda>p. p\<lparr>pv_Result := Some res\<rparr>) rows"

definition MarkPreviewTupleDeleted :: "preview_row list \<Rightarrow> uuid \<Rightarrow> time_ns \<Rightarrow> preview_row list" where
  "MarkPreviewTupleDeleted rows i t = update_where (\<lambda>p. pv_ID p = i) (\<lambda>p. p\<lparr>pv_FGATupleDeletedAt := Some t\<rparr>) rows"

definition ExpirePreviewNow :: "preview_row list \<Rightarrow> uuid \<Rightarrow> time_ns \<Rightarrow> preview_row list" where
  "ExpirePreviewNow rows i now =
     update_where (\<lambda>p. pv_ID p = i) (\<lambda>p. p\<lparr>pv_ExpiresAt := min (pv_ExpiresAt p) now\<rparr>) rows"

definition DeferPreviewExpiry :: "preview_row list \<Rightarrow> uuid \<Rightarrow> time_ns \<Rightarrow> preview_row list" where
  "DeferPreviewExpiry rows i until =
     update_where (\<lambda>p. pv_ID p = i \<and> pv_CleanedAt p = None) (\<lambda>p. p\<lparr>pv_ExpiresAt := until\<rparr>) rows"

definition MarkPreviewCleaned :: "preview_row list \<Rightarrow> uuid \<Rightarrow> time_ns \<Rightarrow> bool \<Rightarrow> preview_row list" where
  "MarkPreviewCleaned rows i t expired =
     update_where (\<lambda>p. pv_ID p = i)
       (\<lambda>p. p\<lparr>pv_CleanedAt := Some t,
              pv_Phase := (if expired \<and> pv_Phase p \<in> {''Pending'', ''Running''} then ''Expired'' else pv_Phase p)\<rparr>) rows"

section \<open>Queries\<close>

definition GetPreview :: "preview_row list \<Rightarrow> uuid \<Rightarrow> uuid \<Rightarrow> go_error + preview_row" where
  "GetPreview rows pid i =
     (case find (\<lambda>p. pv_ID p = i \<and> pv_ProjectID p = pid) rows of None \<Rightarrow> Inl ErrPreviewNotFound | Some p \<Rightarrow> Inr p)"

definition GetPreviewByID :: "preview_row list \<Rightarrow> uuid \<Rightarrow> go_error + preview_row" where
  "GetPreviewByID rows i = (case find (\<lambda>p. pv_ID p = i) rows of None \<Rightarrow> Inl ErrPreviewNotFound | Some p \<Rightarrow> Inr p)"

text \<open>Rows that tie in the ordering column come in table order here; the database leaves their order open.\<close>

definition ListPreviewsNeedingTupleDelete :: "preview_row list \<Rightarrow> nat \<Rightarrow> preview_row list" where
  "ListPreviewsNeedingTupleDelete rows limit =
     take limit (sort_key pv_CreatedAt
       (filter (\<lambda>p. pv_Phase p \<in> set terminal_phase_names \<and> pv_FGATupleDeletedAt p = None) rows))"

definition ListExpiredPreviews :: "preview_row list \<Rightarrow> time_ns \<Rightarrow> nat \<Rightarrow> preview_row list" where
  "ListExpiredPreviews rows now limit =
     take limit (sort_key pv_ExpiresAt (filter (\<lambda>p. pv_ExpiresAt p < now \<and> pv_CleanedAt p = None) rows))"

definition ListPreviewIDsInWorkspace :: "preview_row list \<Rightarrow> uuid \<Rightarrow> string \<Rightarrow> uuid list" where
  "ListPreviewIDsInWorkspace rows pid ws =
     map pv_ID (filter (\<lambda>p. pv_ProjectID p = pid \<and> pv_Workspace p = ws \<and> pv_CleanedAt p = None) rows)"

section \<open>The caps\<close>

text \<open>A statement of the store on the table.\<close>

datatype preview_stmt =
    Insert preview_row time_ns
  | Phase uuid update_phase_opts time_ns
  | SetResult uuid string | OverwriteResult uuid string
  | TupleDeleted uuid time_ns
  | ExpireNow uuid time_ns | DeferExpiry uuid time_ns
  | Cleaned uuid time_ns bool

fun run_stmt :: "preview_caps \<Rightarrow> preview_stmt \<Rightarrow> preview_row list \<Rightarrow> preview_row list" where
  "run_stmt caps (Insert p now) rows = snd (InsertPreview rows p caps now)"
| "run_stmt caps (Phase i opts now) rows = snd (UpdatePreviewPhase rows i opts now)"
| "run_stmt caps (SetResult i res) rows = SetPreviewResult rows i res"
| "run_stmt caps (OverwriteResult i res) rows = OverwritePreviewResult rows i res"
| "run_stmt caps (TupleDeleted i t) rows = MarkPreviewTupleDeleted rows i t"
| "run_stmt caps (ExpireNow i t) rows = ExpirePreviewNow rows i t"
| "run_stmt caps (DeferExpiry i t) rows = DeferPreviewExpiry rows i t"
| "run_stmt caps (Cleaned i t expired) rows = MarkPreviewCleaned rows i t expired"


definition live_in :: "uuid \<Rightarrow> preview_row list \<Rightarrow> nat" where
  "live_in pid rows = count_rows (\<lambda>p. in_project pid p \<and> live_row p) rows"

lemma count_rows_update:
  assumes "\<And>p. Q (f p) \<Longrightarrow> Q p"
  shows "count_rows Q (update_where P f rows) \<le> count_rows Q rows"
  using assms unfolding count_rows_def update_where_def by (induction rows) (auto simp: le_SucI)

lemma count_rows_filter: "count_rows Q (filter P rows) \<le> count_rows Q rows"
  unfolding count_rows_def by (induction rows) auto

text \<open>An update keeps a row's project and never takes \<open>cleaned_at\<close> back.\<close>

definition keeps_row :: "(preview_row \<Rightarrow> preview_row) \<Rightarrow> bool" where
  "keeps_row f \<longleftrightarrow> (\<forall>p. pv_ID (f p) = pv_ID p \<and> pv_ProjectID (f p) = pv_ProjectID p \<and> (live_row (f p) \<longrightarrow> live_row p) \<and>
     (pv_FGATupleDeletedAt p \<noteq> None \<longrightarrow> pv_FGATupleDeletedAt (f p) \<noteq> None))"

fun stmt_update :: "preview_stmt \<Rightarrow> ((preview_row \<Rightarrow> bool) \<times> (preview_row \<Rightarrow> preview_row)) option" where
  "stmt_update (Insert p now) = None"
| "stmt_update (Phase i opts now) = Some (preview_hit i opts, set_preview_phase opts now)"
| "stmt_update (SetResult i res) = Some (\<lambda>p. pv_ID p = i \<and> pv_Result p = None, \<lambda>p. p\<lparr>pv_Result := Some res\<rparr>)"
| "stmt_update (OverwriteResult i res) = Some (\<lambda>p. pv_ID p = i, \<lambda>p. p\<lparr>pv_Result := Some res\<rparr>)"
| "stmt_update (TupleDeleted i t) = Some (\<lambda>p. pv_ID p = i, \<lambda>p. p\<lparr>pv_FGATupleDeletedAt := Some t\<rparr>)"
| "stmt_update (ExpireNow i t) = Some (\<lambda>p. pv_ID p = i, \<lambda>p. p\<lparr>pv_ExpiresAt := min (pv_ExpiresAt p) t\<rparr>)"
| "stmt_update (DeferExpiry i t) = Some (\<lambda>p. pv_ID p = i \<and> pv_CleanedAt p = None, \<lambda>p. p\<lparr>pv_ExpiresAt := t\<rparr>)"
| "stmt_update (Cleaned i t expired) = Some (\<lambda>p. pv_ID p = i,
     \<lambda>p. p\<lparr>pv_CleanedAt := Some t,
            pv_Phase := (if expired \<and> pv_Phase p \<in> {''Pending'', ''Running''} then ''Expired'' else pv_Phase p)\<rparr>)"

lemma stmt_update_keeps: "stmt_update s = Some (P, f) \<Longrightarrow> keeps_row f"
  by (cases s) (auto simp: keeps_row_def live_row_def set_preview_phase_def)

lemma run_stmt_update: "stmt_update s = Some (P, f) \<Longrightarrow> run_stmt caps s rows = update_where P f rows"
  by (cases s) (auto simp: UpdatePreviewPhase_def SetPreviewResult_def OverwritePreviewResult_def
      MarkPreviewTupleDeleted_def ExpirePreviewNow_def DeferPreviewExpiry_def MarkPreviewCleaned_def)

lemma stmt_cases:
  obtains (insert) p now where "s = Insert p now" | (update) P f where "stmt_update s = Some (P, f)" "keeps_row f"
proof (cases "stmt_update s")
  case None
  then have "\<exists>p now. s = Insert p now" by (cases s) auto
  then show ?thesis using insert by blast
next
  case (Some u)
  then show ?thesis using update[of "fst u" "snd u"] stmt_update_keeps[of s "fst u" "snd u"] by simp
qed

lemma InsertPreview_cases:
  "snd (InsertPreview rows p caps now) = rows \<or>
   snd (InsertPreview rows p caps now) =
     evict (pv_ProjectID p) (pc_MaxPerProject caps) rows @ [inserted_preview p now] \<and>
   \<not> over_cap (pc_MaxPerProject caps)
       (live_in (pv_ProjectID p) (evict (pv_ProjectID p) (pc_MaxPerProject caps) rows)) \<and>
   pv_ID p \<notin> set (map pv_ID (evict (pv_ProjectID p) (pc_MaxPerProject caps) rows))"
  by (simp add: InsertPreview_def Let_def live_in_def)

lemma inserted_preview_simps [simp]:
  "pv_ID (inserted_preview p now) = pv_ID p" "pv_ProjectID (inserted_preview p now) = pv_ProjectID p"
  "pv_CleanedAt (inserted_preview p now) = None"
  by (simp_all add: inserted_preview_def)

lemma evict_filter: "\<exists>P. evict pid maxp rows = filter P rows"
proof (cases "maxp > 0")
  case False
  then have "evict pid maxp rows = filter (\<lambda>_. True) rows" by (simp add: evict_def)
  then show ?thesis by blast
qed (auto simp: evict_def)

lemma live_in_append: "live_in pid (rows @ [p]) = live_in pid rows + (if in_project pid p \<and> live_row p then 1 else 0)"
  by (simp add: live_in_def count_rows_def)

lemma live_in_step:
  assumes "live_in pid rows \<le> nat (pc_MaxPerProject caps)" "pc_MaxPerProject caps > 0"
  shows "live_in pid (run_stmt caps s rows) \<le> nat (pc_MaxPerProject caps)"
proof (cases s rule: stmt_cases)
  case (insert p now)
  let ?kept = "evict (pv_ProjectID p) (pc_MaxPerProject caps) rows"
  have kept: "live_in pid ?kept \<le> live_in pid rows" for pid
    using evict_filter[of "pv_ProjectID p" "pc_MaxPerProject caps" rows] count_rows_filter by (auto simp: live_in_def)
  show ?thesis
    using InsertPreview_cases[of rows p caps now] assms kept[of pid] insert
    by (auto simp: live_in_append over_cap_def in_project_def)
next
  case (update P f)
  then show ?thesis
    using count_rows_update[of "\<lambda>p. in_project pid p \<and> live_row p" f P rows] assms(1)
    by (auto simp: run_stmt_update live_in_def keeps_row_def in_project_def)
qed

text \<open>Whatever statements the API, the observer and the sweeper run against the table, in any order, a project never has
  more uncleaned previews than the configured maximum: every other statement only ever takes rows out of that count, and
  the insertion checks it under the project's lock.\<close>

theorem previews_within_cap:
  assumes "pc_MaxPerProject caps > 0"
  shows "int (live_in pid (fold (run_stmt caps) stmts [])) \<le> pc_MaxPerProject caps"
proof -
  have "live_in pid rows \<le> nat (pc_MaxPerProject caps) \<Longrightarrow>
      live_in pid (fold (run_stmt caps) stmts rows) \<le> nat (pc_MaxPerProject caps)" for rows
    using live_in_step[OF _ assms] by (induction stmts arbitrary: rows) auto
  from this[of "[]"] show ?thesis using assms by (simp add: live_in_def count_rows_def)
qed

definition demo_preview :: "uuid \<Rightarrow> preview_row" where
  "demo_preview i = \<lparr>pv_ID = i, pv_ProjectID = 7, pv_TriggeredBy = 0, pv_Workspace = ''w'', pv_Doc = ''{}'', pv_RowLimit = 10,
     pv_TimeoutSeconds = 60, pv_TTLSeconds = 600, pv_UntilStage = [], pv_ScratchNamespaces = [], pv_LakekeeperProjectID = [],
     pv_Warehouse = [], pv_K8sNamespace = ''datuplet-7'', pv_Phase = [], pv_CurrentStage = [], pv_Message = [],
     pv_StageStatuses = None, pv_Result = None, pv_FGATupleDeletedAt = None, pv_StartedAt = None, pv_CompletedAt = None,
     pv_CleanedAt = None, pv_CreatedAt = 0, pv_ExpiresAt = zero_time, pv_observed_rv = 0\<rparr>"

definition demo_caps :: preview_caps where
  "demo_caps = \<lparr>pc_RunningPerWorkspace = 0, pc_RunningPerProject = 0, pc_MaxPerProject = 2\<rparr>"

definition demo_stmts :: "preview_stmt list" where
  "demo_stmts = [Insert (demo_preview 1) 10, Insert (demo_preview 2) 20, Insert (demo_preview 3) 30]"

theorem previews_within_cap_witness:
  "int (live_in 7 (fold (run_stmt demo_caps) demo_stmts [])) \<le> 2 \<and>
   map pv_ID (fold (run_stmt demo_caps) demo_stmts []) = [1, 2]"
proof
  show "int (live_in 7 (fold (run_stmt demo_caps) demo_stmts [])) \<le> 2"
    using previews_within_cap[of demo_caps 7 demo_stmts] by (simp add: demo_caps_def)
  show "map pv_ID (fold (run_stmt demo_caps) demo_stmts []) = [1, 2]" by code_simp
qed

text \<open>Every row that leaves the table has been cleaned and has its grant recorded as deleted.\<close>

lemma evict_evictable:
  assumes "p \<in> set rows" "p \<notin> set (evict pid maxp rows)" "distinct (map pv_ID rows)"
  shows "evictable pid p"
proof -
  from assms(1,2) have "pv_ID p \<in> set (evict_ids pid maxp rows)" by (auto simp: evict_def split: if_splits)
  then obtain q where q: "pv_ID q = pv_ID p" "q \<in> set (filter (evictable pid) rows)"
    by (auto simp: evict_ids_def Let_def dest!: in_set_takeD)
  then have "q = p" using assms(1,3) by (auto simp: distinct_map dest: inj_onD)
  then show ?thesis using q by simp
qed

end
