(* ===== verification/Authz.thy ===== *)
theory Authz
  imports Run_Store
begin

text \<open>
  Relationship tuples and the authorizer of \<open>pkg/pipelineapi/authz\<close>: object references, the OpenFGA-backed authorizer
  over a client of the service, the project-grant helpers, and the in-memory authorizer of \<open>authztest\<close>. The promise
  of an authorizer is the locale \<open>authorizer\<close>; the OpenFGA authorizer keeps it whenever its client behaves as the
  service documents, and the in-memory one keeps it outright.
\<close>

section \<open>Objects and tuples\<close>

record object_ref =
  ob_kind :: string
  ob_id :: string

definition Object_String :: "object_ref \<Rightarrow> string" where
  "Object_String ob = ob_kind ob @ '':'' @ ob_id ob"

definition lakekeeperUserPrefix :: string where
  "lakekeeperUserPrefix = ''oidc~''"

definition ProjectObject :: "string \<Rightarrow> object_ref" where
  "ProjectObject u = \<lparr>ob_kind = ''project'', ob_id = u\<rparr>"

definition UserObject :: "string \<Rightarrow> object_ref" where
  "UserObject sub =
     \<lparr>ob_kind = ''user'',
      ob_id = (if strings_HasPrefix sub lakekeeperUserPrefix then sub else lakekeeperUserPrefix @ sub)\<rparr>"

text \<open>The loop stops at the first colon, which must neither open nor end the text.\<close>

definition ParseObject :: "string \<Rightarrow> string + object_ref" where
  "ParseObject s =
     (let k = takeWhile (\<lambda>c. c \<noteq> CHR '':'') s; rest = dropWhile (\<lambda>c. c \<noteq> CHR '':'') s in
      if rest = [] then Inl (''authz: ParseObject: missing ':' in '' @ fmt_q s)
      else if k = [] \<or> tl rest = [] then Inl (''authz: ParseObject: malformed '' @ fmt_q s)
      else Inr \<lparr>ob_kind = k, ob_id = tl rest\<rparr>)"

definition RelationEditor :: string where
  "RelationEditor = ''editor''"

definition RelationViewer :: string where
  "RelationViewer = ''viewer''"

record tuple =
  tu_User :: string
  tu_Relation :: string
  tu_Object :: object_ref

text \<open>The key of a tuple at the service: the object goes over the wire in its textual form.\<close>

type_synonym grant = "string \<times> string \<times> string"

definition wire :: "tuple \<Rightarrow> grant" where
  "wire t = (tu_User t, tu_Relation t, Object_String (tu_Object t))"

lemma ParseObject_String:
  assumes "ob_kind ob \<noteq> []" "ob_id ob \<noteq> []" "CHR '':'' \<notin> set (ob_kind ob)"
  shows "ParseObject (Object_String ob) = Inr ob"
proof -
  have pre: "\<And>x. x \<in> set (ob_kind ob) \<Longrightarrow> x \<noteq> CHR '':''" using assms(3) by auto
  have "takeWhile (\<lambda>c. c \<noteq> CHR '':'') (ob_kind ob @ CHR '':'' # ob_id ob) = ob_kind ob"
    "dropWhile (\<lambda>c. c \<noteq> CHR '':'') (ob_kind ob @ CHR '':'' # ob_id ob) = CHR '':'' # ob_id ob"
    using pre by (simp_all add: takeWhile_append2 dropWhile_append2)
  then show ?thesis using assms by (simp add: ParseObject_def Object_String_def)
qed

section \<open>The OpenFGA authorizer\<close>

text \<open>A failure of the client: its text, and whether it is one of the deadline, cancellation and transport failures that
  \<open>unavailableIfTransport\<close> reports as unavailability.\<close>

record fga_error =
  fe_text :: string
  fe_transport :: bool

type_synonym 'f fga_call = "grant list \<Rightarrow> 'f \<Rightarrow> fga_error option \<times> 'f"

definition ErrAuthzUnavailable :: string where
  "ErrAuthzUnavailable = ''authz backend unavailable''"

definition wrapErr :: "fga_error \<Rightarrow> go_error" where
  "wrapErr e = (if fe_transport e then ErrWrap ErrAuthzUnavailable (ErrOther (fe_text e)) else ErrOther (fe_text e))"

definition isTupleAlreadyExistsErr :: "string \<Rightarrow> bool" where
  "isTupleAlreadyExistsErr s \<longleftrightarrow>
     strings_Contains s ''tuple to be written already existed'' \<or>
     strings_Contains s ''cannot write a tuple which already exists''"

definition isAlreadyExistsErr :: "string \<Rightarrow> bool" where
  "isAlreadyExistsErr s \<longleftrightarrow> strings_Contains s ''cannot write a tuple'' \<or> strings_Contains s ''already exists''"

definition isMissingTupleErr :: "string \<Rightarrow> bool" where
  "isMissingTupleErr s \<longleftrightarrow> strings_Contains s ''cannot delete a tuple which does not exist''"

type_synonym 'f authz_call = "tuple list \<Rightarrow> 'f \<Rightarrow> (go_error + unit) \<times> 'f"

definition OpenFGA_WriteTuples :: "'f fga_call \<Rightarrow> 'f authz_call" where
  "OpenFGA_WriteTuples client ts s =
     (if ts = [] then (Inr (), s)
      else
        (case client (map wire ts) s of
           (None, s') \<Rightarrow> (Inr (), s')
         | (Some e, s') \<Rightarrow>
             if length ts = 1 \<and> isTupleAlreadyExistsErr (fe_text e) then (Inr (), s') else (Inl (wrapErr e), s')))"

definition OpenFGA_DeleteTuples :: "'f fga_call \<Rightarrow> 'f authz_call" where
  "OpenFGA_DeleteTuples client ts s =
     (if ts = [] then (Inr (), s)
      else
        (case client (map wire ts) s of
           (None, s') \<Rightarrow> (Inr (), s')
         | (Some e, s') \<Rightarrow> (Inl (wrapErr e), s')))"

record 'f authorizer_ops =
  az_Write :: "'f authz_call"
  az_Delete :: "'f authz_call"

definition OpenFGAAuthorizer :: "'f fga_call \<Rightarrow> 'f fga_call \<Rightarrow> 'f authorizer_ops" where
  "OpenFGAAuthorizer wr dl = \<lparr>az_Write = OpenFGA_WriteTuples wr, az_Delete = OpenFGA_DeleteTuples dl\<rparr>"

section \<open>Project grants\<close>

definition project_tuple :: "string \<Rightarrow> string \<Rightarrow> string \<Rightarrow> tuple" where
  "project_tuple sub relation project =
     \<lparr>tu_User = Object_String (UserObject sub), tu_Relation = relation, tu_Object = ProjectObject project\<rparr>"

definition required :: "string \<Rightarrow> (string \<times> string) list \<Rightarrow> go_error option" where
  "required f args =
     (case find (\<lambda>(_, v). v = []) args of
        None \<Rightarrow> None
      | Some (n, _) \<Rightarrow> Some (ErrOther (f @ '': '' @ n @ '' is required'')))"

definition WriteProjectTuple :: "'f authorizer_ops \<Rightarrow> string \<Rightarrow> string \<Rightarrow> string \<Rightarrow> 'f \<Rightarrow> (go_error + unit) \<times> 'f" where
  "WriteProjectTuple a sub relation project s =
     (case required ''WriteProjectTuple''
             [(''userSubject'', sub), (''relation'', relation), (''lakekeeperProjectID'', project)] of
        Some e \<Rightarrow> (Inl e, s)
      | None \<Rightarrow>
          (case az_Write a [project_tuple sub relation project] s of
             (Inl e, s') \<Rightarrow>
               if isAlreadyExistsErr (err_text e) then (Inr (), s')
               else (Inl (ErrWrap (''write '' @ relation @ '' tuple'') e), s')
           | (Inr _, s') \<Rightarrow> (Inr (), s')))"

definition DeleteProjectTuple :: "'f authorizer_ops \<Rightarrow> string \<Rightarrow> string \<Rightarrow> string \<Rightarrow> 'f \<Rightarrow> (go_error + unit) \<times> 'f" where
  "DeleteProjectTuple a sub relation project s =
     (case required ''DeleteProjectTuple''
             [(''userSubject'', sub), (''relation'', relation), (''lakekeeperProjectID'', project)] of
        Some e \<Rightarrow> (Inl e, s)
      | None \<Rightarrow>
          (case az_Delete a [project_tuple sub relation project] s of
             (Inl e, s') \<Rightarrow>
               if isMissingTupleErr (err_text e) then (Inr (), s')
               else (Inl (ErrWrap (''delete '' @ relation @ '' tuple for user '' @ fmt_q sub) e), s')
           | (Inr _, s') \<Rightarrow> (Inr (), s')))"

definition WriteAdminTuple :: "'f authorizer_ops \<Rightarrow> string \<Rightarrow> string \<Rightarrow> 'f \<Rightarrow> (go_error + unit) \<times> 'f" where
  "WriteAdminTuple a sub project s =
     (case required ''WriteAdminTuple'' [(''userSubject'', sub), (''lakekeeperProjectID'', project)] of
        Some e \<Rightarrow> (Inl e, s)
      | None \<Rightarrow> WriteProjectTuple a sub ''project_admin'' project s)"

fun delete_relations :: "'f authorizer_ops \<Rightarrow> string \<Rightarrow> (string \<times> string) list \<Rightarrow> 'f \<Rightarrow> (go_error + unit) \<times> 'f" where
  "delete_relations a project [] s = (Inr (), s)"
| "delete_relations a project ((sub, rel) # rest) s =
     (case DeleteProjectTuple a sub rel project s of
        (Inl e, s') \<Rightarrow> (Inl e, s')
      | (Inr _, s') \<Rightarrow> delete_relations a project rest s')"

definition DeleteProjectTuples :: "'f authorizer_ops \<Rightarrow> string \<Rightarrow> string list \<Rightarrow> 'f \<Rightarrow> (go_error + unit) \<times> 'f" where
  "DeleteProjectTuples a project subs s =
     (case required ''DeleteProjectTuples'' [(''lakekeeperProjectID'', project)] of
        Some e \<Rightarrow> (Inl e, s)
      | None \<Rightarrow>
          delete_relations a project
            (List.product subs [''project_admin'', RelationEditor, RelationViewer]) s)"

section \<open>The in-memory authorizer\<close>

definition Fake_Check :: "grant list \<Rightarrow> string \<Rightarrow> string \<Rightarrow> object_ref \<Rightarrow> bool" where
  "Fake_Check s user relation ob \<longleftrightarrow> (user, relation, Object_String ob) \<in> set s"

definition Fake_WriteTuples :: "grant list authz_call" where
  "Fake_WriteTuples ts s = (Inr (), fold (\<lambda>t s. List.insert (wire t) s) ts s)"

fun Fake_DeleteTuples :: "grant list authz_call" where
  "Fake_DeleteTuples [] s = (Inr (), s)"
| "Fake_DeleteTuples (t # ts) s =
     (if wire t \<notin> set s then
        (Inl (ErrOther (''tuple not found: '' @ tu_User t @ '' '' @ tu_Relation t @ '' '' @ Object_String (tu_Object t))), s)
      else Fake_DeleteTuples ts (removeAll (wire t) s))"

definition FakeAuthorizer :: "grant list authorizer_ops" where
  "FakeAuthorizer = \<lparr>az_Write = Fake_WriteTuples, az_Delete = Fake_DeleteTuples\<rparr>"

section \<open>What an authorizer promises\<close>

text \<open>A call that reports success has had its effect; one that reports a failure may or may not have been applied, and
  changes no other tuple. A failed deletion of one tuple that says the tuple does not exist is right about it.\<close>

locale authorizer =
  fixes a :: "'f authorizer_ops" and granted :: "'f \<Rightarrow> grant set"
  assumes write_ok: "az_Write a ts s = (Inr (), s') \<Longrightarrow> granted s' = granted s \<union> wire ` set ts"
    and write_failed: "az_Write a ts s = (Inl e, s') \<Longrightarrow>
      granted s \<subseteq> granted s' \<and> granted s' \<subseteq> granted s \<union> wire ` set ts"
    and delete_ok: "az_Delete a ts s = (Inr (), s') \<Longrightarrow> granted s' = granted s - wire ` set ts"
    and delete_failed: "az_Delete a ts s = (Inl e, s') \<Longrightarrow>
      granted s - wire ` set ts \<subseteq> granted s' \<and> granted s' \<subseteq> granted s"
    and delete_missing: "az_Delete a [t] s = (Inl e, s') \<Longrightarrow> isMissingTupleErr (err_text e) \<Longrightarrow> wire t \<notin> granted s'"
begin

lemma write_bounds:
  "granted s \<subseteq> granted (snd (az_Write a ts s)) \<and> granted (snd (az_Write a ts s)) \<subseteq> granted s \<union> wire ` set ts"
proof (cases "az_Write a ts s")
  case (Pair r s')
  then show ?thesis using write_ok[of ts s s'] write_failed[of ts s _ s'] by (cases r) (auto simp: old.unit.exhaust)
qed

lemma delete_bounds:
  "granted s - wire ` set ts \<subseteq> granted (snd (az_Delete a ts s)) \<and> granted (snd (az_Delete a ts s)) \<subseteq> granted s"
proof (cases "az_Delete a ts s")
  case (Pair r s')
  then show ?thesis using delete_ok[of ts s s'] delete_failed[of ts s _ s'] by (cases r) (auto simp: old.unit.exhaust)
qed

lemma DeleteProjectTuple_gone:
  assumes "DeleteProjectTuple a sub rel p s = (Inr (), s')"
  shows "granted s' = granted s - {wire (project_tuple sub rel p)}"
proof (cases "az_Delete a [project_tuple sub rel p] s")
  case (Pair r s'')
  show ?thesis
  proof (cases r)
    case (Inl e)
    then have "s' = s''" "isMissingTupleErr (err_text e)"
      using assms Pair by (auto simp: DeleteProjectTuple_def split: option.splits if_splits)
    then show ?thesis
      using delete_missing[of "project_tuple sub rel p" s e s''] delete_failed[of "[project_tuple sub rel p]" s e s''] Pair Inl
      by auto
  next
    case (Inr u)
    then have "s' = s''" using assms Pair by (auto simp: DeleteProjectTuple_def split: option.splits)
    then show ?thesis using delete_ok[of "[project_tuple sub rel p]" s s''] Pair Inr by simp
  qed
qed

lemma DeleteProjectTuple_shrinks: "granted (snd (DeleteProjectTuple a sub rel p s)) \<subseteq> granted s"
  using delete_bounds[of s "[project_tuple sub rel p]"]
  by (auto simp: DeleteProjectTuple_def split: option.splits sum.splits prod.splits)

lemma delete_relations_gone:
  "delete_relations a p prs s = (Inr (), s') \<Longrightarrow>
   granted s' = granted s - (\<lambda>(sub, rel). wire (project_tuple sub rel p)) ` set prs"
proof (induction prs arbitrary: s)
  case (Cons x prs)
  obtain sub rel where x: "x = (sub, rel)" by (cases x)
  obtain r s1 where one: "DeleteProjectTuple a sub rel p s = (r, s1)" by (cases "DeleteProjectTuple a sub rel p s")
  have r: "r = Inr ()" and rest: "delete_relations a p prs s1 = (Inr (), s')"
    using Cons.prems x one by (auto split: sum.splits)
  show ?case using DeleteProjectTuple_gone[of sub rel p s s1] one r Cons.IH[OF rest] x by auto
qed simp

end

text \<open>An authorizer whose reported failures to write are failures: no write is applied behind a lost answer.\<close>

locale certain_authorizer = authorizer +
  assumes write_unapplied: "az_Write a ts s = (Inl e, s') \<Longrightarrow> granted s' = granted s"
begin

lemma write_exact:
  "granted (snd (az_Write a ts s)) = (if fst (az_Write a ts s) = Inr () then granted s \<union> wire ` set ts else granted s)"
proof (cases "az_Write a ts s")
  case (Pair r s')
  then show ?thesis using write_ok[of ts s s'] write_unapplied[of ts s _ s'] by (cases r) auto
qed

end

text \<open>The documented behaviour of the service behind the client: a write request is one transaction, refused as a whole
  when a tuple of it exists (for a deletion: does not exist); after a transport failure it is open whether it was
  applied. The two messages say the truth about a request of one tuple.\<close>

locale fga_service =
  fixes wr dl :: "'f fga_call" and granted :: "'f \<Rightarrow> grant set"
  assumes wr_done: "wr ks s = (None, s') \<Longrightarrow> granted s' = granted s \<union> set ks"
    and wr_refused: "wr ks s = (Some e, s') \<Longrightarrow> \<not> fe_transport e \<Longrightarrow> granted s' = granted s"
    and wr_lost: "wr ks s = (Some e, s') \<Longrightarrow> granted s' = granted s \<or> granted s' = granted s \<union> set ks"
    and wr_exists: "wr [k] s = (Some e, s') \<Longrightarrow> isTupleAlreadyExistsErr (fe_text e) \<Longrightarrow> k \<in> granted s'"
    and dl_done: "dl ks s = (None, s') \<Longrightarrow> granted s' = granted s - set ks"
    and dl_failed: "dl ks s = (Some e, s') \<Longrightarrow> granted s' = granted s \<or> granted s' = granted s - set ks"
    and dl_missing: "dl [k] s = (Some e, s') \<Longrightarrow> strings_Contains (err_text (wrapErr e))
      ''cannot delete a tuple which does not exist'' \<Longrightarrow> k \<notin> granted s'"
begin

lemma OpenFGA_write_ok:
  assumes "OpenFGA_WriteTuples wr ts s = (Inr (), s')"
  shows "granted s' = granted s \<union> wire ` set ts"
proof (cases "ts = []")
  case False
  obtain r s1 where c: "wr (map wire ts) s = (r, s1)" by (cases "wr (map wire ts) s")
  show ?thesis
  proof (cases r)
    case None
    then show ?thesis using assms False c wr_done[of "map wire ts" s s1] by (simp add: OpenFGA_WriteTuples_def)
  next
    case (Some e)
    then have one: "length ts = 1" "isTupleAlreadyExistsErr (fe_text e)" "s' = s1"
      using assms False c by (auto simp: OpenFGA_WriteTuples_def split: if_splits)
    then obtain t where t: "ts = [t]" by (cases ts) auto
    have call: "wr [wire t] s = (Some e, s1)" using c Some t by simp
    have grow: "granted s1 = granted s \<or> granted s1 = granted s \<union> {wire t}" using wr_lost[OF call] by simp
    have "wire t \<in> granted s1" by (rule wr_exists[OF call one(2)])
    with grow have "granted s1 = granted s \<union> {wire t}" by blast
    then show ?thesis using one(3) t by simp
  qed
qed (use assms in \<open>simp add: OpenFGA_WriteTuples_def\<close>)

lemma OpenFGA_write_failed:
  assumes "OpenFGA_WriteTuples wr ts s = (Inl e, s')"
  shows "granted s' = granted s \<or> granted s' = granted s \<union> wire ` set ts"
proof -
  obtain r s1 where c: "wr (map wire ts) s = (r, s1)" by (cases "wr (map wire ts) s")
  have "r \<noteq> None" "s' = s1" using assms c by (auto simp: OpenFGA_WriteTuples_def split: if_splits option.splits)
  then show ?thesis using wr_lost[of "map wire ts" s _ s1] c by auto
qed

lemma OpenFGA_delete_failed:
  assumes "OpenFGA_DeleteTuples dl ts s = (Inl e, s')"
  shows "\<exists>e'. dl (map wire ts) s = (Some e', s') \<and> e = wrapErr e'"
proof -
  obtain r s1 where c: "dl (map wire ts) s = (r, s1)" by (cases "dl (map wire ts) s")
  show ?thesis using assms c by (cases r) (simp_all add: OpenFGA_DeleteTuples_def split: if_splits)
qed

lemma OpenFGA_delete_ok:
  assumes "OpenFGA_DeleteTuples dl ts s = (Inr (), s')"
  shows "granted s' = granted s - wire ` set ts"
proof -
  obtain r s1 where c: "dl (map wire ts) s = (r, s1)" by (cases "dl (map wire ts) s")
  show ?thesis using assms c dl_done[of "map wire ts" s s1]
    by (cases r) (simp_all add: OpenFGA_DeleteTuples_def split: if_splits)
qed

end

sublocale fga_service \<subseteq> openfga: authorizer "OpenFGAAuthorizer wr dl" granted
proof
  fix ts t s s' e
  show "az_Write (OpenFGAAuthorizer wr dl) ts s = (Inr (), s') \<Longrightarrow> granted s' = granted s \<union> wire ` set ts"
    using OpenFGA_write_ok by (simp add: OpenFGAAuthorizer_def)
  show "az_Write (OpenFGAAuthorizer wr dl) ts s = (Inl e, s') \<Longrightarrow>
      granted s \<subseteq> granted s' \<and> granted s' \<subseteq> granted s \<union> wire ` set ts"
    using OpenFGA_write_failed by (fastforce simp: OpenFGAAuthorizer_def)
  show "az_Delete (OpenFGAAuthorizer wr dl) ts s = (Inr (), s') \<Longrightarrow> granted s' = granted s - wire ` set ts"
    using OpenFGA_delete_ok by (simp add: OpenFGAAuthorizer_def)
  show "granted s - wire ` set ts \<subseteq> granted s' \<and> granted s' \<subseteq> granted s"
    if call: "az_Delete (OpenFGAAuthorizer wr dl) ts s = (Inl e, s')"
  proof -
    from call have "OpenFGA_DeleteTuples dl ts s = (Inl e, s')" by (simp add: OpenFGAAuthorizer_def)
    from OpenFGA_delete_failed[OF this] obtain e' where "dl (map wire ts) s = (Some e', s')" by blast
    from dl_failed[OF this] show ?thesis by auto
  qed
  show "wire t \<notin> granted s'"
    if call: "az_Delete (OpenFGAAuthorizer wr dl) [t] s = (Inl e, s')" and missing: "isMissingTupleErr (err_text e)"
  proof -
    from call have "OpenFGA_DeleteTuples dl [t] s = (Inl e, s')" by (simp add: OpenFGAAuthorizer_def)
    from OpenFGA_delete_failed[OF this] obtain e' where "dl [wire t] s = (Some e', s')" "e = wrapErr e'" by auto
    with missing show ?thesis using dl_missing[of "wire t" s e' s'] unfolding isMissingTupleErr_def by blast
  qed
qed

text \<open>A service that keeps the tuples in a list, refuses by the two messages and never loses an answer.\<close>

definition list_service_write :: "grant list fga_call" where
  "list_service_write ks s =
     (if list_ex (\<lambda>k. k \<in> set s) ks then
        (Some \<lparr>fe_text = ''cannot write a tuple which already exists'', fe_transport = False\<rparr>, s)
      else (None, s @ ks))"

definition list_service_delete :: "grant list fga_call" where
  "list_service_delete ks s =
     (if list_ex (\<lambda>k. k \<notin> set s) ks then
        (Some \<lparr>fe_text = ''cannot delete a tuple which does not exist'', fe_transport = False\<rparr>, s)
      else (None, filter (\<lambda>k. k \<notin> set ks) s))"

interpretation list_service: fga_service list_service_write list_service_delete set
  by unfold_locales (auto simp: list_service_write_def list_service_delete_def split: if_splits)

lemma Fake_WriteTuples_granted: "set (snd (Fake_WriteTuples ts s)) = set s \<union> wire ` set ts"
  unfolding Fake_WriteTuples_def snd_conv by (induction ts arbitrary: s) auto

lemma Fake_DeleteTuples_granted:
  "set s - wire ` set ts \<subseteq> set (snd (Fake_DeleteTuples ts s)) \<and> set (snd (Fake_DeleteTuples ts s)) \<subseteq> set s \<and>
   (fst (Fake_DeleteTuples ts s) = Inr () \<longrightarrow> set (snd (Fake_DeleteTuples ts s)) = set s - wire ` set ts)"
  by (induction ts s rule: Fake_DeleteTuples.induct) auto

interpretation fake: certain_authorizer FakeAuthorizer set
proof
  fix ts :: "tuple list" and t :: tuple and s s' :: "grant list" and e
  show "az_Write FakeAuthorizer ts s = (Inr (), s') \<Longrightarrow> set s' = set s \<union> wire ` set ts"
    using Fake_WriteTuples_granted[of ts s] by (simp add: FakeAuthorizer_def)
  show "az_Write FakeAuthorizer ts s = (Inl e, s') \<Longrightarrow> set s \<subseteq> set s' \<and> set s' \<subseteq> set s \<union> wire ` set ts"
    "az_Write FakeAuthorizer ts s = (Inl e, s') \<Longrightarrow> set s' = set s"
    by (simp_all add: FakeAuthorizer_def Fake_WriteTuples_def)
  show "az_Delete FakeAuthorizer ts s = (Inr (), s') \<Longrightarrow> set s' = set s - wire ` set ts"
    using Fake_DeleteTuples_granted[of s ts] by (simp add: FakeAuthorizer_def)
  show "az_Delete FakeAuthorizer ts s = (Inl e, s') \<Longrightarrow> set s - wire ` set ts \<subseteq> set s' \<and> set s' \<subseteq> set s"
    using Fake_DeleteTuples_granted[of s ts] by (simp add: FakeAuthorizer_def)
  show "az_Delete FakeAuthorizer [t] s = (Inl e, s') \<Longrightarrow> isMissingTupleErr (err_text e) \<Longrightarrow> wire t \<notin> set s'"
    by (simp add: FakeAuthorizer_def split: if_splits)
qed

end
