(* ===== verification/App_Tables.thy ===== *)
theory App_Tables
  imports Run_Store
begin

text \<open>
  The tables of the user apps (\<open>pkg/pipelineapi/db/migrations/013_user_apps.sql\<close>) as lists of rows: apps, their
  content-addressed versions, the two channels that point at versions, viewer tokens and render logs.
\<close>

record app_row =
  ar_ID :: uuid
  ar_ProjectID :: uuid
  ar_Name :: string
  ar_FGARegistered :: bool
  ar_CreatedAt :: time_ns

record version_row =
  av_ID :: uuid
  av_AppID :: uuid
  av_Hash :: string
  av_Bundle :: string  \<comment> \<open>compressed\<close>
  av_SizeBytes :: int  \<comment> \<open>of the raw bundle\<close>
  av_CreatedAt :: time_ns

record channel_row =
  ch_AppID :: uuid
  ch_Channel :: string
  ch_VersionID :: uuid
  ch_UpdatedAt :: time_ns

record token_row =
  tk_ID :: uuid
  tk_AppID :: uuid
  tk_Salt :: string
  tk_SecretHash :: string
  tk_CreatedAt :: time_ns
  tk_RevokedAt :: "time_ns option"

record render_log =
  rl_RequestID :: uuid
  rl_AppID :: uuid
  rl_VersionHash :: string
  rl_Channel :: string
  rl_PrincipalKind :: string
  rl_PrincipalID :: string
  rl_StartedAt :: time_ns
  rl_DurationMS :: int
  rl_Outcome :: string
  rl_LogText :: string
  rl_Error :: "string option"

record app_db =
  db_apps :: "app_row list"
  db_versions :: "version_row list"
  db_channels :: "channel_row list"
  db_tokens :: "token_row list"
  db_logs :: "render_log list"

definition empty_app_db :: app_db where
  "empty_app_db = \<lparr>db_apps = [], db_versions = [], db_channels = [], db_tokens = [], db_logs = []\<rparr>"

text \<open>\<open>ORDER BY t DESC LIMIT n\<close>; rows of the same time keep their order.\<close>

definition newest :: "('a \<Rightarrow> time_ns) \<Rightarrow> nat \<Rightarrow> 'a list \<Rightarrow> 'a list" where
  "newest t n xs = take n (sort_key (\<lambda>x. - t x) xs)"

lemma set_newest: "set (newest t n xs) \<subseteq> set xs"
  unfolding newest_def by (metis set_sort set_take_subset)

lemma length_newest [simp]: "length (newest t n xs) = min n (length xs)"
  by (simp add: newest_def min.commute)

lemma newest_all: "length xs \<le> n \<Longrightarrow> set (newest t n xs) = set xs"
  by (simp add: newest_def)

text \<open>What the limit cuts off is no newer than what it keeps.\<close>

lemma newest_is_newer:
  assumes "x \<in> set (newest t n xs)" "y \<in> set xs" "y \<notin> set (newest t n xs)"
  shows "t y \<le> t x"
proof -
  let ?ys = "sort_key (\<lambda>x. - t x) xs"
  have "sorted (map (\<lambda>x. - t x) (take n ?ys @ drop n ?ys))" by simp
  moreover have "y \<in> set (drop n ?ys)" using assms(2,3) unfolding newest_def
    by (metis Un_iff append_take_drop_id set_append set_sort)
  ultimately show ?thesis using assms(1) unfolding newest_def map_append sorted_append by fastforce
qed

end
