(* ===== verification/Run_World.thy ===== *)
theory Run_World
  imports Preview_Store Authz Api_Types App_Tables
begin

text \<open>
  The platform around a run: the database with the tables of the apps, the project namespaces, Pipelines, PipelineRuns, Secrets and Pods of the cluster, the tuples granted at the
  authorization service, the clock, and the fates of the calls to come. A process makes one call after another; a call
  that its fate lets through has its effect, and a process may die before any of them.
\<close>

section \<open>Objects of the cluster\<close>

record cluster_run = pipelinerun +
  cr_labels :: "string gomap"
  cr_rv :: string
  cr_created :: time_ns
  cr_deleting :: bool

record cluster_secret =
  cs_ns :: string
  cs_secret :: string
  cs_labels :: "string gomap"
  cs_owners :: "string list"
  cs_created :: time_ns
  cs_token :: string

record cluster_pod =
  cp_ns :: string
  cp_pod :: string
  cp_labels :: "string gomap"
  cp_annotations :: "string gomap"

text \<open>The objects that come with a project namespace: roles with their rules, a resource and its verbs each, the
  bindings of roles to service accounts, and the limit range.\<close>

datatype ns_object =
    NsRole string "(string \<times> string list) list"
  | NsRoleBinding string string string  \<comment> \<open>the role, the service account and its namespace\<close>
  | NsLimitRange string "string gomap" "string gomap"  \<comment> \<open>the default limits and requests of a container\<close>

fun same_object :: "ns_object \<Rightarrow> ns_object \<Rightarrow> bool" where
  "same_object (NsRole n _) (NsRole n' _) \<longleftrightarrow> n = n'"
| "same_object (NsRoleBinding n _ _) (NsRoleBinding n' _ _) \<longleftrightarrow> n = n'"
| "same_object (NsLimitRange n _ _) (NsLimitRange n' _ _) \<longleftrightarrow> n = n'"
| "same_object _ _ \<longleftrightarrow> False"

text \<open>A row of \<open>run_tuples\<close>, the breadcrumb of a run's grants. The JSON column holds the tuples in their wire form.\<close>

record run_tuples_row =
  rt_RunID :: uuid
  rt_Tuples :: "grant list"
  rt_Committed :: bool
  rt_CreatedAt :: time_ns

datatype fate =
    Fine
  | Fault go_error  \<comment> \<open>the call fails and has no effect\<close>
  | Late go_error   \<comment> \<open>the call has its effect and its answer is lost\<close>
  | Die             \<comment> \<open>the process ends before the call\<close>

record 'f world =
  w_runs :: "run_row list"
  w_projects :: "project_row list"
  w_pipelines :: "pipeline_row list"
  w_previews :: "preview_row list"
  w_run_tuples :: "run_tuples_row list"
  w_apps :: app_db
  w_namespaces :: "string list"
  w_ns_objects :: "(string \<times> ns_object) list"
  w_pipeline_crs :: "(string \<times> pipeline) list"
  w_prs :: "cluster_run list"
  w_secrets :: "cluster_secret list"
  w_pods :: "cluster_pod list"
  w_fga :: 'f
  w_now :: time_ns
  w_fates :: "fate list"

section \<open>Calls\<close>

datatype 'a res = Ret 'a | Err go_error | Crashed

type_synonym ('f, 'a) io = "'f world \<Rightarrow> 'a res \<times> 'f world"

fun as_res :: "go_error + 'a \<Rightarrow> 'a res" where
  "as_res (Inl e) = Err e"
| "as_res (Inr x) = Ret x"

definition io :: "('f world \<Rightarrow> (go_error + 'a) \<times> 'f world) \<Rightarrow> ('f, 'a) io" where
  "io f w =
     (case w_fates w of
        [] \<Rightarrow> (case f w of (r, w') \<Rightarrow> (as_res r, w'))
      | Fine # fs \<Rightarrow> (case f (w\<lparr>w_fates := fs\<rparr>) of (r, w') \<Rightarrow> (as_res r, w'))
      | Fault e # fs \<Rightarrow> (Err e, w\<lparr>w_fates := fs\<rparr>)
      | Late e # fs \<Rightarrow> (case f (w\<lparr>w_fates := fs\<rparr>) of (r, w') \<Rightarrow> (Err e, w'))
      | Die # fs \<Rightarrow> (Crashed, w\<lparr>w_fates := fs\<rparr>))"

text \<open>A call to the authorizer: what it answers and does is the authorizer's own matter, only the process may die.\<close>

definition fga_io :: "('f \<Rightarrow> (go_error + unit) \<times> 'f) \<Rightarrow> ('f, unit) io" where
  "fga_io f w =
     (case w_fates w of
        Die # fs \<Rightarrow> (Crashed, w\<lparr>w_fates := fs\<rparr>)
      | fs \<Rightarrow> (case f (w_fga w) of (r, s) \<Rightarrow> (as_res r, w\<lparr>w_fga := s, w_fates := tl fs\<rparr>)))"

text \<open>What follows a call sees its result or its error; nothing follows the death of the process.\<close>

definition after :: "('f, 'a) io \<Rightarrow> (go_error + 'a \<Rightarrow> ('f, 'b) io) \<Rightarrow> ('f, 'b) io" where
  "after m k w =
     (case m w of
        (Crashed, w') \<Rightarrow> (Crashed, w')
      | (Err e, w') \<Rightarrow> k (Inl e) w'
      | (Ret x, w') \<Rightarrow> k (Inr x) w')"

definition return :: "'a \<Rightarrow> ('f, 'a) io" where
  "return x w = (Ret x, w)"

definition throw :: "go_error \<Rightarrow> ('f, 'a) io" where
  "throw e w = (Err e, w)"

text \<open>A panic: the operation ends on the spot.\<close>

definition panic :: "('f, 'a) io" where
  "panic w = (Crashed, w)"

text \<open>\<open>if err != nil { return wrap(err) }\<close>.\<close>

definition attempt :: "('f, 'a) io \<Rightarrow> (go_error \<Rightarrow> go_error) \<Rightarrow> ('a \<Rightarrow> ('f, 'b) io) \<Rightarrow> ('f, 'b) io" where
  "attempt m wrap k = after m (\<lambda>r. case r of Inl e \<Rightarrow> throw (wrap e) | Inr x \<Rightarrow> k x)"

definition wrapping :: "string \<Rightarrow> go_error \<Rightarrow> go_error" where
  "wrapping p e = ErrWrap p e"

definition same_error :: "go_error \<Rightarrow> go_error" where
  "same_error e = e"

text \<open>\<open>_ = f()\<close> and calls whose failure is only logged.\<close>

definition ignoring :: "('f, 'a) io \<Rightarrow> ('f, 'b) io \<Rightarrow> ('f, 'b) io" where
  "ignoring m k = after m (\<lambda>_. k)"

text \<open>\<open>time.Now()\<close>.\<close>

definition with_now :: "(time_ns \<Rightarrow> ('f, 'a) io) \<Rightarrow> ('f, 'a) io" where
  "with_now k w = k (w_now w) w"

section \<open>Preservation\<close>

text \<open>A computation keeps a predicate when every outcome of it, the crash included, satisfies it.\<close>

definition keeps :: "('f world \<Rightarrow> bool) \<Rightarrow> ('f, 'a) io \<Rightarrow> bool" where
  "keeps I m \<longleftrightarrow> (\<forall>w. I w \<longrightarrow> I (snd (m w)))"

named_theorems keeps_intros

lemma keepsD: "keeps I m \<Longrightarrow> I w \<Longrightarrow> I (snd (m w))"
  by (simp add: keeps_def)

lemma keeps_after [keeps_intros]:
  assumes "keeps I m" "\<And>r. keeps I (k r)"
  shows "keeps I (after m k)"
  unfolding keeps_def
proof (intro allI impI)
  fix w assume "I w"
  then have "I (snd (m w))" using assms(1) by (rule keepsD[rotated])
  then show "I (snd (after m k w))"
    using assms(2) by (cases "m w"; cases "fst (m w)") (auto simp: after_def dest: keepsD)
qed

lemma keeps_return [keeps_intros]: "keeps I (return x)" and keeps_throw [keeps_intros]: "keeps I (throw e)"
  by (simp_all add: keeps_def return_def throw_def)

lemma keeps_panic [keeps_intros]: "keeps I panic"
  by (simp add: keeps_def panic_def)

lemma keeps_attempt [keeps_intros]: "keeps I m \<Longrightarrow> (\<And>x. keeps I (k x)) \<Longrightarrow> keeps I (attempt m wrap k)"
  unfolding attempt_def by (intro keeps_after) (auto split: sum.splits intro: keeps_throw)

lemma keeps_ignoring [keeps_intros]: "keeps I m \<Longrightarrow> keeps I k \<Longrightarrow> keeps I (ignoring m k)"
  unfolding ignoring_def by (rule keeps_after)

lemma keeps_with_now [keeps_intros]: "(\<And>t. keeps I (k t)) \<Longrightarrow> keeps I (with_now k)"
  by (simp add: keeps_def with_now_def)

lemma keeps_case_sum: "(\<And>e. keeps I (f e)) \<Longrightarrow> (\<And>x. keeps I (g x)) \<Longrightarrow> keeps I (case r of Inl e \<Rightarrow> f e | Inr x \<Rightarrow> g x)"
  by (cases r) simp_all

lemma keeps_if [keeps_intros]: "(b \<Longrightarrow> keeps I m) \<Longrightarrow> (\<not> b \<Longrightarrow> keeps I n) \<Longrightarrow> keeps I (if b then m else n)"
  by simp

lemma keeps_io [keeps_intros]:
  assumes fates: "\<And>w fs. I w \<Longrightarrow> I (w\<lparr>w_fates := fs\<rparr>)" and f: "\<And>w. I w \<Longrightarrow> I (snd (f w))"
  shows "keeps I (io f)"
  unfolding keeps_def io_def
  by (auto simp: fates split: list.splits fate.splits prod.splits intro: f[THEN subst[OF snd_conv]])
     (metis f fates snd_conv)+


section \<open>Outcomes of a call\<close>

text \<open>The world after a call differs from the one before at most by the fates and, if the call was let through, by its
  effect; a call that returns has had its effect.\<close>

lemma calm_world: "w_fates w = [] \<Longrightarrow> w\<lparr>w_fates := []\<rparr> = w"
  by (cases w) simp

lemma io_world:
  "\<exists>fs. snd (io f w) = w\<lparr>w_fates := fs\<rparr> \<or> snd (io f w) = snd (f (w\<lparr>w_fates := fs\<rparr>))"
proof (cases "w_fates w")
  case Nil
  then have "snd (io f w) = snd (f (w\<lparr>w_fates := []\<rparr>))" by (simp add: io_def calm_world split: prod.splits)
  then show ?thesis by blast
next
  case (Cons x fs)
  then have "snd (io f w) = w\<lparr>w_fates := fs\<rparr> \<or> snd (io f w) = snd (f (w\<lparr>w_fates := fs\<rparr>))"
    by (cases x) (auto simp: io_def split: prod.splits)
  then show ?thesis by blast
qed

lemma io_Ret:
  assumes "io f w = (Ret x, w')"
  obtains fs where "f (w\<lparr>w_fates := fs\<rparr>) = (Inr x, w')"
proof (cases "w_fates w")
  case Nil
  then have w: "w\<lparr>w_fates := []\<rparr> = w" by (rule calm_world)
  from Nil assms have "f w = (Inr x, w')"
    by (cases "f w"; cases "fst (f w)") (auto simp: io_def)
  then show ?thesis using that[of "[]"] w by simp
next
  case (Cons y fs)
  with assms have "f (w\<lparr>w_fates := fs\<rparr>) = (Inr x, w')"
    by (cases "f (w\<lparr>w_fates := fs\<rparr>)"; cases "fst (f (w\<lparr>w_fates := fs\<rparr>))"; cases y) (auto simp: io_def)
  then show ?thesis by (rule that)
qed

lemma io_calm [simp]: "w_fates w = [] \<Longrightarrow> io f w = (as_res (fst (f w)), snd (f w))"
  by (simp add: io_def split: prod.splits)

lemma after_world:
  "fst (m w) = Crashed \<and> snd (after m k w) = snd (m w) \<or>
   (\<exists>e. m w = (Err e, snd (m w)) \<and> after m k w = k (Inl e) (snd (m w))) \<or>
   (\<exists>x. m w = (Ret x, snd (m w)) \<and> after m k w = k (Inr x) (snd (m w)))"
  by (cases "m w"; cases "fst (m w)") (auto simp: after_def)

lemma ignoring_last: "snd (ignoring m (throw e) w) = snd (m w)" "snd (ignoring m (return x) w) = snd (m w)"
  by (cases "m w"; cases "fst (m w)"; simp add: ignoring_def after_def throw_def return_def)+

lemma after_calm:
  "m w = (Ret x, w') \<Longrightarrow> after m k w = k (Inr x) w'" "m w = (Err e, w') \<Longrightarrow> after m k w = k (Inl e) w'"
  by (simp_all add: after_def)


text \<open>A query: the table is read and nothing is written.\<close>

definition query :: "('f world \<Rightarrow> go_error + 'a) \<Rightarrow> ('f, 'a) io" where
  "query g = io (\<lambda>w. (g w, w))"

lemma query_world: "\<exists>fs. snd (query g w) = w\<lparr>w_fates := fs\<rparr>"
  using io_world[of "\<lambda>w. (g w, w)" w] unfolding query_def by (metis snd_conv)

lemma query_Ret:
  assumes "query g w = (Ret x, w')" and "\<And>fs. g (w\<lparr>w_fates := fs\<rparr>) = g w"
  shows "g w = Inr x"
proof -
  from assms(1) have "io (\<lambda>w. (g w, w)) w = (Ret x, w')" by (simp add: query_def)
  then obtain fs where "(g (w\<lparr>w_fates := fs\<rparr>), w\<lparr>w_fates := fs\<rparr>) = (Inr x, w')" by (rule io_Ret)
  then show ?thesis using assms(2) by (metis prod.inject)
qed

lemma query_outcome:
  assumes "\<And>fs. g (w\<lparr>w_fates := fs\<rparr>) = g w"
  obtains (ret) x fs where "g w = Inr x" "query g w = (Ret x, w\<lparr>w_fates := fs\<rparr>)"
  | (err) e fs where "query g w = (Err e, w\<lparr>w_fates := fs\<rparr>)"
  | (crash) fs where "query g w = (Crashed, w\<lparr>w_fates := fs\<rparr>)"
proof -
  obtain fs where fs: "snd (query g w) = w\<lparr>w_fates := fs\<rparr>" using query_world by blast
  then have eq: "query g w = (fst (query g w), w\<lparr>w_fates := fs\<rparr>)" by (metis prod.collapse)
  show ?thesis
  proof (cases "fst (query g w)")
    case (Ret x)
    then have r: "query g w = (Ret x, w\<lparr>w_fates := fs\<rparr>)" using eq by simp
    show ?thesis by (rule ret[OF query_Ret[OF r assms] r])
  next
    case (Err e)
    then show ?thesis using eq err by metis
  next
    case Crashed
    then show ?thesis using eq crash by metis
  qed
qed

lemma query_calm [simp]: "w_fates w = [] \<Longrightarrow> query g w = (as_res (g w), w)"
  by (simp add: query_def)

lemma keeps_query [keeps_intros]: "(\<And>w fs. I w \<Longrightarrow> I (w\<lparr>w_fates := fs\<rparr>)) \<Longrightarrow> keeps I (query g)"
  unfolding query_def by (rule keeps_io) simp_all

lemma after_crash: "m w = (Crashed, w') \<Longrightarrow> after m k w = (Crashed, w')"
  by (simp add: after_def)

lemmas after_simps = after_calm after_crash

lemma attempt_simps:
  "m w = (Ret x, w') \<Longrightarrow> attempt m wrap k w = k x w'"
  "m w = (Err e, w') \<Longrightarrow> attempt m wrap k w = (Err (wrap e), w')"
  "m w = (Crashed, w') \<Longrightarrow> attempt m wrap k w = (Crashed, w')"
  by (simp_all add: attempt_def after_def throw_def)

lemma attempt_result:
  "fst (m w) = Ret x \<Longrightarrow> snd (attempt m wrap k w) = snd (k x (snd (m w)))"
  "fst (m w) = Err e \<Longrightarrow> snd (attempt m wrap k w) = snd (m w)"
  "fst (m w) = Crashed \<Longrightarrow> snd (attempt m wrap k w) = snd (m w)"
  by (cases "m w"; simp add: attempt_def after_def throw_def)+

lemma after_result:
  "fst (m w) = Crashed \<Longrightarrow> snd (after m k w) = snd (m w)"
  "fst (m w) = Err e \<Longrightarrow> snd (after m k w) = snd (k (Inl e) (snd (m w)))"
  "fst (m w) = Ret x \<Longrightarrow> snd (after m k w) = snd (k (Inr x) (snd (m w)))"
  by (cases "m w"; simp add: after_def)+

end
