(* ===== verification/Pipeline_Doc.thy ===== *)
theory Pipeline_Doc
  imports Api_Types
begin

text \<open>
  The envelope-free pipeline document of \<open>pkg/pipeline/config\<close> and its conversions to and from the Pipeline resource,
  with what a trip through the resource loses; and the classification of a document by the access its run needs
  (\<open>pkg/pipelineapi/tokens/capabilities.go\<close>).
\<close>

section \<open>The document\<close>

record doc_gateway =
  dg_ChunkSize :: int
  dg_BufferSize :: int
  dg_RowGroupSize :: int
  dg_TargetFileSize :: int

record doc_input_table =
  di_Bucket :: string
  di_Table :: string
  di_As :: string
  di_Since :: string
  di_SinceSnapshot :: "int option"
  di_SinceDays :: "int option"
  di_TimestampColumn :: string

record doc_inputs =
  dn_Buckets :: "string list"
  dn_Tables :: "doc_input_table list"

record doc_output_bucket =
  db_Name :: string
  db_WriteMode :: string

record doc_partition_field =
  df_SourceColumn :: string
  df_Transform :: string

record doc_column =
  dl_Name :: string
  dl_Type :: string

record doc_output_table =
  dt_Name :: string
  dt_Bucket :: string
  dt_WriteMode :: string
  dt_LogicalName :: string
  dt_PartitionSpec :: "doc_partition_field list"
  dt_Columns :: "doc_column list"

record doc_processor =
  dp_Type :: string
  dp_Columns :: "string list"

record doc_outputs =
  do_DefaultBucket :: string
  do_DefaultWriteMode :: string
  do_Buckets :: "doc_output_bucket list"
  do_Tables :: "doc_output_table list"
  do_Processors :: "doc_processor list"

record doc_resources =
  dr_Memory :: string
  dr_CPU :: string

text \<open>An absent configuration and an empty one are both the empty map: no code path tells them apart.\<close>

record doc_component =
  dc_Name :: string
  dc_Component :: string
  dc_Version :: string
  dc_Image :: string
  dc_Config :: "json gomap"
  dc_Inputs :: "doc_inputs option"
  dc_Outputs :: "doc_outputs option"
  dc_Resources :: "doc_resources option"

record doc_stage =
  ds_Name :: string
  ds_Components :: "doc_component list"

record pipeline_doc =
  pd_Name :: string
  pd_Description :: string
  pd_Gateway :: doc_gateway
  pd_Stages :: "doc_stage list"

section \<open>To the resource\<close>

definition gatewayToCRD :: "doc_gateway \<Rightarrow> gateway_spec" where
  "gatewayToCRD g = \<lparr>gw_chunkSize = dg_ChunkSize g, gw_bufferSize = dg_BufferSize g,
     gw_rowGroupSize = dg_RowGroupSize g, gw_targetFileSize = dg_TargetFileSize g\<rparr>"

definition input_table_to_crd :: "doc_input_table \<Rightarrow> input_table_spec" where
  "input_table_to_crd t = \<lparr>it_bucket = di_Bucket t, it_table = di_Table t, it_logicalName = di_As t, it_since = di_Since t,
     it_sinceSnapshot = di_SinceSnapshot t, it_sinceDays = di_SinceDays t, it_timestampColumn = di_TimestampColumn t\<rparr>"

definition inputsToCRD :: "doc_inputs option \<Rightarrow> input_spec option" where
  "inputsToCRD i = map_option (\<lambda>i. \<lparr>in_buckets = dn_Buckets i, in_tables = map input_table_to_crd (dn_Tables i)\<rparr>) i"

definition output_table_to_crd :: "doc_output_table \<Rightarrow> output_table_spec" where
  "output_table_to_crd t = \<lparr>ot_name = dt_Name t, ot_bucket = dt_Bucket t, ot_logicalName = dt_LogicalName t,
     ot_writeMode = dt_WriteMode t,
     ot_partitionFields = map (\<lambda>p. \<lparr>pf_sourceColumn = df_SourceColumn p, pf_transform = df_Transform p\<rparr>) (dt_PartitionSpec t),
     ot_columns = map (\<lambda>c. \<lparr>col_name = dl_Name c, col_type = dl_Type c\<rparr>) (dt_Columns t)\<rparr>"

definition outputsToCRD :: "doc_outputs option \<Rightarrow> output_spec option" where
  "outputsToCRD x = map_option (\<lambda>x. \<lparr>out_defaultBucket = do_DefaultBucket x, out_defaultWriteMode = do_DefaultWriteMode x,
     out_buckets = map (\<lambda>b. \<lparr>ob_name = db_Name b, ob_writeMode = db_WriteMode b\<rparr>) (do_Buckets x),
     out_tables = map output_table_to_crd (do_Tables x),
     out_processors = map (\<lambda>p. \<lparr>proc_type = dp_Type p, proc_columns = dp_Columns p\<rparr>) (do_Processors x)\<rparr>) x"

text \<open>What the conversions use of the libraries: \<open>resource.ParseQuantity\<close> and \<open>Quantity.String\<close>, the text
  \<open>json.Marshal\<close> writes for a number of a configuration (none for NaN and the infinities, on which it fails) and
  the float64 \<open>json.Unmarshal\<close> reads back from such a text (none when it is out of range).\<close>

record convert_lib =
  cl_parseQ :: "string \<Rightarrow> quantity option"
  cl_showQ :: "quantity \<Rightarrow> string"
  cl_num_out :: "string \<Rightarrow> string option"
  cl_num_in :: "string \<Rightarrow> string option"

text \<open>A trip of a value through JSON: objects, arrays, strings, booleans and null stay (the order in which a map is
  written is immaterial, and every string of a decoded document is valid UTF-8), numbers are converted, and a value
  with a number that cannot be converted, or with a \<open>map[any]any\<close>, cannot be written.\<close>

fun convert_json :: "(string \<Rightarrow> string option) \<Rightarrow> json \<Rightarrow> json option" where
  "convert_json num JNull = Some JNull"
| "convert_json num (JBool b) = Some (JBool b)"
| "convert_json num (JNum n) = map_option JNum (num n)"
| "convert_json num (JStr s) = Some (JStr s)"
| "convert_json num (JArr xs) = map_option JArr (those (map (convert_json num) xs))"
| "convert_json num (JObj kvs) =
     map_option JObj (those (map (\<lambda>kv. map_option (Pair (fst kv)) (convert_json num (snd kv))) kvs))"
| "convert_json num (JAnyMap kvs) = None"

definition json_map :: "(string \<Rightarrow> string option) \<Rightarrow> json gomap \<Rightarrow> json gomap option" where
  "json_map num m = those (map (\<lambda>kv. map_option (Pair (fst kv)) (convert_json num (snd kv))) m)"

text \<open>\<open>json.Marshal\<close> of the map; when it fails the conversion panics, which is \<open>None\<close>.\<close>

definition configToCRD :: "convert_lib \<Rightarrow> json gomap \<Rightarrow> raw_config option" where
  "configToCRD lib m =
     (if m = [] then Some None
      else case json_map (cl_num_out lib) m of None \<Rightarrow> None | Some raw \<Rightarrow> Some (Some (Inr (Some raw))))"

text \<open>A quantity that does not parse is dropped.\<close>

definition resourcesToCRD :: "convert_lib \<Rightarrow> doc_resources option \<Rightarrow> resource_requirements option" where
  "resourcesToCRD lib r =
     (case r of
        None \<Rightarrow> None
      | Some r \<Rightarrow>
          if dr_Memory r = [] \<and> dr_CPU r = [] then None
          else
            let part = (\<lambda>k s. if s = [] then [] else (case cl_parseQ lib s of None \<Rightarrow> [] | Some q \<Rightarrow> [(k, q)])) in
            Some \<lparr>rr_limits = Some (part ''memory'' (dr_Memory r) @ part ''cpu'' (dr_CPU r)), rr_requests = None\<rparr>)"

definition componentToCRD :: "convert_lib \<Rightarrow> doc_component \<Rightarrow> component_spec option" where
  "componentToCRD lib c =
     map_option (\<lambda>raw. \<lparr>cs_name = dc_Name c, cs_component = dc_Component c, cs_version = dc_Version c,
        cs_config = raw, cs_inputs = inputsToCRD (dc_Inputs c), cs_outputs = outputsToCRD (dc_Outputs c),
        cs_resources = resourcesToCRD lib (dc_Resources c)\<rparr>) (configToCRD lib (dc_Config c))"

definition stageToCRD :: "convert_lib \<Rightarrow> doc_stage \<Rightarrow> stage_spec option" where
  "stageToCRD lib s =
     map_option (\<lambda>cs. \<lparr>st_name = ds_Name s, st_components = cs\<rparr>) (those (map (componentToCRD lib) (ds_Components s)))"

definition DocToCR :: "convert_lib \<Rightarrow> pipeline_doc \<Rightarrow> pipeline option" where
  "DocToCR lib p =
     map_option (\<lambda>ss. \<lparr>p_name = pd_Name p, p_generation = 0,
        p_spec = \<lparr>ps_gateway = gatewayToCRD (pd_Gateway p), ps_stages = ss\<rparr>\<rparr>)
       (those (map (stageToCRD lib) (pd_Stages p)))"

section \<open>And back\<close>

definition gatewayFromCRD :: "gateway_spec \<Rightarrow> doc_gateway" where
  "gatewayFromCRD g = \<lparr>dg_ChunkSize = gw_chunkSize g, dg_BufferSize = gw_bufferSize g,
     dg_RowGroupSize = gw_rowGroupSize g, dg_TargetFileSize = gw_targetFileSize g\<rparr>"

definition inputsFromCRD :: "input_spec option \<Rightarrow> doc_inputs option" where
  "inputsFromCRD i = map_option (\<lambda>i. \<lparr>dn_Buckets = in_buckets i,
     dn_Tables = map (\<lambda>t. \<lparr>di_Bucket = it_bucket t, di_Table = it_table t, di_As = it_logicalName t, di_Since = it_since t,
       di_SinceSnapshot = it_sinceSnapshot t, di_SinceDays = it_sinceDays t,
       di_TimestampColumn = it_timestampColumn t\<rparr>) (in_tables i)\<rparr>) i"

definition output_table_from_crd :: "output_table_spec \<Rightarrow> doc_output_table" where
  "output_table_from_crd t = \<lparr>dt_Name = ot_name t, dt_Bucket = ot_bucket t, dt_WriteMode = ot_writeMode t,
     dt_LogicalName = ot_logicalName t,
     dt_PartitionSpec = map (\<lambda>p. \<lparr>df_SourceColumn = pf_sourceColumn p, df_Transform = pf_transform p\<rparr>) (ot_partitionFields t),
     dt_Columns = map (\<lambda>c. \<lparr>dl_Name = col_name c, dl_Type = col_type c\<rparr>) (ot_columns t)\<rparr>"

definition outputsFromCRD :: "output_spec option \<Rightarrow> doc_outputs option" where
  "outputsFromCRD x = map_option (\<lambda>x. \<lparr>do_DefaultBucket = out_defaultBucket x, do_DefaultWriteMode = out_defaultWriteMode x,
     do_Buckets = map (\<lambda>b. \<lparr>db_Name = ob_name b, db_WriteMode = ob_writeMode b\<rparr>) (out_buckets x),
     do_Tables = map output_table_from_crd (out_tables x),
     do_Processors = map (\<lambda>p. \<lparr>dp_Type = proc_type p, dp_Columns = proc_columns p\<rparr>) (out_processors x)\<rparr>) x"

text \<open>\<open>json.Unmarshal\<close> into a \<open>map[string]any\<close>: every number is read as a float64. A raw configuration that is no
  object, or holds a number out of range, makes it fail and the conversion panic; \<open>null\<close> reads as the nil map.\<close>

definition configFromCRD :: "convert_lib \<Rightarrow> raw_config \<Rightarrow> (json gomap) option" where
  "configFromCRD lib c =
     (case c of
        None \<Rightarrow> Some []
      | Some (Inl e) \<Rightarrow> None
      | Some (Inr None) \<Rightarrow> Some []
      | Some (Inr (Some raw)) \<Rightarrow> json_map (cl_num_in lib) raw)"

definition resourcesFromCRD :: "convert_lib \<Rightarrow> resource_requirements option \<Rightarrow> doc_resources option" where
  "resourcesFromCRD lib r =
     (case r of
        None \<Rightarrow> None
      | Some r \<Rightarrow>
          let limits = list_of_resources (rr_limits r);
              part = (\<lambda>k. case map_of limits k of None \<Rightarrow> [] | Some q \<Rightarrow> cl_showQ lib q) in
          if limits = [] then None
          else if part ''memory'' = [] \<and> part ''cpu'' = [] then None
          else Some \<lparr>dr_Memory = part ''memory'', dr_CPU = part ''cpu''\<rparr>)"

definition componentFromCRD :: "convert_lib \<Rightarrow> component_spec \<Rightarrow> doc_component option" where
  "componentFromCRD lib c =
     map_option (\<lambda>m. \<lparr>dc_Name = cs_name c, dc_Component = cs_component c, dc_Version = cs_version c, dc_Image = [],
        dc_Config = m, dc_Inputs = inputsFromCRD (cs_inputs c), dc_Outputs = outputsFromCRD (cs_outputs c),
        dc_Resources = resourcesFromCRD lib (cs_resources c)\<rparr>) (configFromCRD lib (cs_config c))"

text \<open>\<open>None\<close> is the panic.\<close>

definition stageFromCRD :: "convert_lib \<Rightarrow> stage_spec \<Rightarrow> doc_stage option" where
  "stageFromCRD lib s =
     map_option (\<lambda>cs. \<lparr>ds_Name = st_name s, ds_Components = cs\<rparr>)
       (those (map (componentFromCRD lib) (st_components s)))"

definition CRToDoc :: "convert_lib \<Rightarrow> pipeline \<Rightarrow> pipeline_doc option" where
  "CRToDoc lib cr =
     map_option (\<lambda>ss. \<lparr>pd_Name = p_name cr, pd_Description = [], pd_Gateway = gatewayFromCRD (ps_gateway (p_spec cr)),
        pd_Stages = ss\<rparr>) (those (map (stageFromCRD lib) (ps_stages (p_spec cr))))"

section \<open>What the trip keeps\<close>

text \<open>The resources after the trip: each quantity in the library's canonical text, gone when it does not parse or is
  printed as nothing.\<close>

definition canonical_quantity :: "convert_lib \<Rightarrow> string \<Rightarrow> string" where
  "canonical_quantity lib s =
     (if s = [] then [] else (case cl_parseQ lib s of None \<Rightarrow> [] | Some q \<Rightarrow> cl_showQ lib q))"

definition canonical_resources :: "convert_lib \<Rightarrow> doc_resources option \<Rightarrow> doc_resources option" where
  "canonical_resources lib r =
     (case r of
        None \<Rightarrow> None
      | Some r \<Rightarrow>
          let m = canonical_quantity lib (dr_Memory r); c = canonical_quantity lib (dr_CPU r) in
          if m = [] \<and> c = [] then None else Some \<lparr>dr_Memory = m, dr_CPU = c\<rparr>)"

text \<open>A number after the trip, the values that make it, and such a value with its numbers as float64.\<close>

definition canonical_number :: "convert_lib \<Rightarrow> string \<Rightarrow> string option" where
  "canonical_number lib n = Option.bind (cl_num_out lib n) (cl_num_in lib)"

fun json_survives :: "convert_lib \<Rightarrow> json \<Rightarrow> bool" where
  "json_survives lib (JNum n) \<longleftrightarrow> canonical_number lib n \<noteq> None"
| "json_survives lib (JArr xs) \<longleftrightarrow> list_all (json_survives lib) xs"
| "json_survives lib (JObj kvs) \<longleftrightarrow> list_all (\<lambda>kv. json_survives lib (snd kv)) kvs"
| "json_survives lib (JAnyMap kvs) \<longleftrightarrow> False"
| "json_survives lib _ \<longleftrightarrow> True"

fun canonical_json :: "convert_lib \<Rightarrow> json \<Rightarrow> json" where
  "canonical_json lib (JNum n) = JNum (the (canonical_number lib n))"
| "canonical_json lib (JArr xs) = JArr (map (canonical_json lib) xs)"
| "canonical_json lib (JObj kvs) = JObj (map (\<lambda>kv. (fst kv, canonical_json lib (snd kv))) kvs)"
| "canonical_json lib v = v"

definition component_survives :: "convert_lib \<Rightarrow> doc_component \<Rightarrow> bool" where
  "component_survives lib c \<longleftrightarrow> json_survives lib (JObj (dc_Config c))"

definition doc_survives :: "convert_lib \<Rightarrow> pipeline_doc \<Rightarrow> bool" where
  "doc_survives lib p \<longleftrightarrow> list_all (\<lambda>s. list_all (component_survives lib) (ds_Components s)) (pd_Stages p)"

definition canonical_component :: "convert_lib \<Rightarrow> doc_component \<Rightarrow> doc_component" where
  "canonical_component lib c =
     c\<lparr>dc_Image := [], dc_Config := map (\<lambda>kv. (fst kv, canonical_json lib (snd kv))) (dc_Config c),
       dc_Resources := canonical_resources lib (dc_Resources c)\<rparr>"

definition canonical_stage :: "convert_lib \<Rightarrow> doc_stage \<Rightarrow> doc_stage" where
  "canonical_stage lib s = s\<lparr>ds_Components := map (canonical_component lib) (ds_Components s)\<rparr>"

definition canonical_doc :: "convert_lib \<Rightarrow> pipeline_doc \<Rightarrow> pipeline_doc" where
  "canonical_doc lib p = p\<lparr>pd_Description := [], pd_Stages := map (canonical_stage lib) (pd_Stages p)\<rparr>"

lemma gateway_trip: "gatewayFromCRD (gatewayToCRD g) = g"
  by (simp add: gatewayFromCRD_def gatewayToCRD_def)

lemma doc_eta [simp]:
  "\<lparr>di_Bucket = di_Bucket t, di_Table = di_Table t, di_As = di_As t, di_Since = di_Since t,
    di_SinceSnapshot = di_SinceSnapshot t, di_SinceDays = di_SinceDays t, di_TimestampColumn = di_TimestampColumn t\<rparr> = t"
  "\<lparr>df_SourceColumn = df_SourceColumn f, df_Transform = df_Transform f\<rparr> = f"
  "\<lparr>dl_Name = dl_Name c, dl_Type = dl_Type c\<rparr> = c"
  "\<lparr>db_Name = db_Name b, db_WriteMode = db_WriteMode b\<rparr> = b"
  "\<lparr>dp_Type = dp_Type q, dp_Columns = dp_Columns q\<rparr> = q"
  by simp_all

lemma inputs_trip: "inputsFromCRD (inputsToCRD i) = i"
  by (cases i) (simp_all add: inputsFromCRD_def inputsToCRD_def input_table_to_crd_def comp_def)

lemma output_table_trip: "output_table_from_crd (output_table_to_crd t) = t"
  by (simp add: output_table_from_crd_def output_table_to_crd_def comp_def)

lemma outputs_trip: "outputsFromCRD (outputsToCRD x) = x"
  by (cases x) (simp_all add: outputsFromCRD_def outputsToCRD_def output_table_trip comp_def)

text \<open>Lists of conversions that may fail.\<close>

lemma those_bind:
  "Option.bind (those (map f xs)) (\<lambda>ys. those (map g ys)) = those (map (\<lambda>x. Option.bind (f x) g) xs)"
proof (induction xs)
  case (Cons x xs)
  then show ?case
    by (cases "f x"; cases "those (map f xs)"; cases "Option.bind (f x) g") (auto split: option.splits)
qed simp

lemma those_guarded:
  assumes "\<And>x. x \<in> set xs \<Longrightarrow> f x = (if P x then Some (g x) else None)"
  shows "those (map f xs) = (if list_all P xs then Some (map g xs) else None)"
  using assms by (induction xs) auto

lemma bind_map_option: "Option.bind (map_option h x) k = Option.bind x (\<lambda>y. k (h y))"
  by (cases x) simp_all

lemma map_bind: "Option.bind x (\<lambda>y. map_option h (k y)) = map_option h (Option.bind x k)"
  by (cases x) simp_all

lemma map_guarded: "map_option h (if b then Some x else None) = (if b then Some (h x) else None)"
  by simp

text \<open>Writing a value and reading it back.\<close>

lemma json_map_trip:
  assumes "\<And>v. v \<in> snd ` set m \<Longrightarrow> Option.bind (convert_json (cl_num_out lib) v) (convert_json (cl_num_in lib)) =
      (if json_survives lib v then Some (canonical_json lib v) else None)"
  shows "Option.bind (json_map (cl_num_out lib) m) (json_map (cl_num_in lib)) =
     (if list_all (\<lambda>kv. json_survives lib (snd kv)) m then Some (map (\<lambda>kv. (fst kv, canonical_json lib (snd kv))) m) else None)"
  unfolding json_map_def those_bind
proof (rule those_guarded)
  fix kv assume "kv \<in> set m"
  then show "Option.bind (map_option (Pair (fst kv)) (convert_json (cl_num_out lib) (snd kv)))
      (\<lambda>kv. map_option (Pair (fst kv)) (convert_json (cl_num_in lib) (snd kv))) =
    (if json_survives lib (snd kv) then Some (fst kv, canonical_json lib (snd kv)) else None)"
    using assms[of "snd kv"] by (simp add: bind_map_option map_bind map_guarded)
qed

lemma json_trip:
  "Option.bind (convert_json (cl_num_out lib) v) (convert_json (cl_num_in lib)) =
     (if json_survives lib v then Some (canonical_json lib v) else None)"
proof (induction v)
  case (JNum n)
  then show ?case by (cases "canonical_number lib n") (auto simp: canonical_number_def bind_map_option map_bind)
next
  case (JArr xs)
  have "those (map (\<lambda>x. Option.bind (convert_json (cl_num_out lib) x) (convert_json (cl_num_in lib))) xs) =
      (if list_all (json_survives lib) xs then Some (map (canonical_json lib) xs) else None)"
    using JArr.IH by (rule those_guarded)
  then show ?case by (simp add: bind_map_option map_bind those_bind)
next
  case (JObj kvs)
  have "Option.bind (json_map (cl_num_out lib) kvs) (json_map (cl_num_in lib)) = (if list_all (\<lambda>kv. json_survives lib (snd kv)) kvs
      then Some (map (\<lambda>kv. (fst kv, canonical_json lib (snd kv))) kvs) else None)"
    using JObj.IH by (intro json_map_trip) (auto simp: image_iff)
  then show ?case by (simp add: bind_map_option map_bind flip: json_map_def)
qed simp_all

lemma config_trip:
  "Option.bind (configToCRD lib m) (configFromCRD lib) =
     (if list_all (\<lambda>kv. json_survives lib (snd kv)) m then Some (map (\<lambda>kv. (fst kv, canonical_json lib (snd kv))) m) else None)"
proof (cases "m = []")
  case True
  then show ?thesis by (simp add: configToCRD_def configFromCRD_def)
next
  case False
  then have "Option.bind (configToCRD lib m) (configFromCRD lib) =
      Option.bind (json_map (cl_num_out lib) m) (json_map (cl_num_in lib))"
    by (cases "json_map (cl_num_out lib) m") (simp_all add: configToCRD_def configFromCRD_def)
  then show ?thesis using json_map_trip[OF json_trip[of lib], of m] by simp
qed

lemma resources_trip: "resourcesFromCRD lib (resourcesToCRD lib r) = canonical_resources lib r"
proof (cases r)
  case (Some x)
  show ?thesis
    by (cases "dr_Memory x = []"; cases "dr_CPU x = []"; cases "cl_parseQ lib (dr_Memory x)"; cases "cl_parseQ lib (dr_CPU x)")
       (simp_all add: Some resourcesFromCRD_def resourcesToCRD_def canonical_resources_def canonical_quantity_def
         list_of_resources_def Let_def)
qed (simp add: resourcesFromCRD_def resourcesToCRD_def canonical_resources_def)

lemma component_trip:
  "Option.bind (componentToCRD lib c) (componentFromCRD lib) =
     (if component_survives lib c then Some (canonical_component lib c) else None)"
  using config_trip[of lib "dc_Config c"]
  by (simp add: componentToCRD_def componentFromCRD_def bind_map_option map_bind map_guarded component_survives_def
      canonical_component_def inputs_trip outputs_trip resources_trip)

lemma stage_trip:
  "Option.bind (stageToCRD lib s) (stageFromCRD lib) =
     (if list_all (component_survives lib) (ds_Components s) then Some (canonical_stage lib s) else None)"
proof -
  have "those (map (\<lambda>c. Option.bind (componentToCRD lib c) (componentFromCRD lib)) (ds_Components s)) =
      (if list_all (component_survives lib) (ds_Components s) then Some (map (canonical_component lib) (ds_Components s)) else None)"
    by (rule those_guarded) (rule component_trip)
  then show ?thesis
    by (simp add: stageToCRD_def stageFromCRD_def bind_map_option map_bind map_guarded those_bind canonical_stage_def)
qed

text \<open>C31. A pipeline document that is turned into the Pipeline resource and back loses its description and the image of
  each component, has its resource quantities in canonical text, without the ones that do not parse, and the numbers of
  its configurations as float64; every other field of every stage, component, input, output, partition field, column,
  processor and configuration survives, in order. The conversion panics for exactly the documents with a configuration
  that JSON cannot express: a number it cannot write or read back, or a \<open>map[any]any\<close>.\<close>

theorem doc_roundtrip:
  "Option.bind (DocToCR lib p) (CRToDoc lib) = (if doc_survives lib p then Some (canonical_doc lib p) else None)"
proof -
  have "those (map (\<lambda>s. Option.bind (stageToCRD lib s) (stageFromCRD lib)) (pd_Stages p)) =
      (if doc_survives lib p then Some (map (canonical_stage lib) (pd_Stages p)) else None)"
    unfolding doc_survives_def by (rule those_guarded) (rule stage_trip)
  then show ?thesis
    by (simp add: DocToCR_def CRToDoc_def bind_map_option map_bind map_guarded those_bind canonical_doc_def gateway_trip)
qed

text \<open>A library whose numbers are texts of digits, and three documents: one that comes back with its number rewritten and
  its unreadable limit gone, one with NaN and one with a \<open>map[any]any\<close>, which panic.\<close>

definition demo_convert :: convert_lib where
  "demo_convert = \<lparr>cl_parseQ = (\<lambda>s. if s = ''1Gi'' then Some \<lparr>q_value = 1073741824, q_text = s\<rparr> else None), cl_showQ = q_text,
     cl_num_out = (\<lambda>s. if s = ''NaN'' then None else Some s),
     cl_num_in = (\<lambda>s. if s = ''9007199254740993'' then Some ''9007199254740992'' else Some s)\<rparr>"

definition demo_component :: "json \<Rightarrow> doc_component" where
  "demo_component v = \<lparr>dc_Name = ''x'', dc_Component = ''x'', dc_Version = [], dc_Image = ''img'', dc_Config = [(''k'', v)],
     dc_Inputs = None, dc_Outputs = None, dc_Resources = Some \<lparr>dr_Memory = ''1Gi'', dr_CPU = ''much''\<rparr>\<rparr>"

definition demo_document :: "json \<Rightarrow> pipeline_doc" where
  "demo_document v = \<lparr>pd_Name = ''daily'', pd_Description = ''about'',
     pd_Gateway = \<lparr>dg_ChunkSize = 0, dg_BufferSize = 0, dg_RowGroupSize = 0, dg_TargetFileSize = 0\<rparr>,
     pd_Stages = [\<lparr>ds_Name = ''load'', ds_Components = [demo_component v]\<rparr>]\<rparr>"

theorem doc_roundtrip_witness:
  "Option.bind (DocToCR demo_convert (demo_document (JArr [JNum ''9007199254740993'']))) (CRToDoc demo_convert) =
     Some ((demo_document JNull)\<lparr>pd_Description := [], pd_Stages := [\<lparr>ds_Name = ''load'', ds_Components =
       [(demo_component (JArr [JNum ''9007199254740992'']))\<lparr>dc_Image := [],
          dc_Resources := Some \<lparr>dr_Memory = ''1Gi'', dr_CPU = []\<rparr>\<rparr>]\<rparr>]\<rparr>) \<and>
   Option.bind (DocToCR demo_convert (demo_document (JNum ''NaN''))) (CRToDoc demo_convert) = None \<and>
   Option.bind (DocToCR demo_convert (demo_document (JAnyMap []))) (CRToDoc demo_convert) = None"
  unfolding doc_roundtrip by code_simp

section \<open>The access a run needs\<close>

record pipeline_intent =
  int_HasWrites :: bool
  int_HasReads :: bool

definition reads :: "doc_component \<Rightarrow> bool" where
  "reads c \<longleftrightarrow> (case dc_Inputs c of None \<Rightarrow> False | Some i \<Rightarrow> dn_Buckets i \<noteq> [] \<or> dn_Tables i \<noteq> [])"

definition writes :: "doc_component \<Rightarrow> bool" where
  "writes c \<longleftrightarrow>
     (case dc_Outputs c of None \<Rightarrow> False
      | Some x \<Rightarrow> do_DefaultBucket x \<noteq> [] \<or> do_Buckets x \<noteq> [] \<or> do_Tables x \<noteq> [])"

definition PipelineIntentFromPipeline :: "pipeline_doc option \<Rightarrow> pipeline_intent" where
  "PipelineIntentFromPipeline d =
     (case d of
        None \<Rightarrow> \<lparr>int_HasWrites = False, int_HasReads = False\<rparr>
      | Some p \<Rightarrow>
          let cs = concat (map ds_Components (pd_Stages p)) in
          \<lparr>int_HasWrites = list_ex writes cs, int_HasReads = list_ex reads cs\<rparr>)"

text \<open>The trip through the resource does not change what access a document asks for.\<close>

lemma intent_canonical: "PipelineIntentFromPipeline (Some (canonical_doc lib p)) = PipelineIntentFromPipeline (Some p)"
  by (simp add: PipelineIntentFromPipeline_def canonical_doc_def canonical_stage_def canonical_component_def
      list_ex_iff reads_def writes_def Let_def)

end
