(* ===== verification/Run_Backend.thy ===== *)
theory Run_Backend
  imports Run_Mirror Pipeline_Doc
begin

text \<open>
  The lifecycle of a run in \<open>pkg/pipelineapi/runbackend\<close>: triggering it, with the breadcrumb row that is written before the
  grant so that a crash can be cleaned up, cancelling it, and the removal of its grant; with the statements on
  \<open>run_tuples\<close>, the creation of the run's objects in the cluster and the application of its Pipeline resource.
\<close>

section \<open>The breadcrumb rows\<close>

definition decode_tuple :: "grant \<Rightarrow> go_error + tuple" where
  "decode_tuple g =
     (case g of (u, r, s) \<Rightarrow>
        (case ParseObject s of
           Inl e \<Rightarrow> Inl (ErrWrap (''parse object '' @ fmt_q s) (ErrOther e))
         | Inr ob \<Rightarrow> Inr \<lparr>tu_User = u, tu_Relation = r, tu_Object = ob\<rparr>))"

fun decodeAuthzTuples :: "grant list \<Rightarrow> go_error + tuple list" where
  "decodeAuthzTuples [] = Inr []"
| "decodeAuthzTuples (g # gs) =
     (case decode_tuple g of
        Inl e \<Rightarrow> Inl e
      | Inr t \<Rightarrow> (case decodeAuthzTuples gs of Inl e \<Rightarrow> Inl e | Inr ts \<Rightarrow> Inr (t # ts)))"

definition encodeAuthzTuples :: "tuple list \<Rightarrow> grant list" where
  "encodeAuthzTuples ts = map wire ts"

definition RecordRunTuples :: "uuid \<Rightarrow> tuple list \<Rightarrow> ('f, unit) io" where
  "RecordRunTuples i ts =
     io (\<lambda>w.
       if i \<in> set (map rt_RunID (w_run_tuples w)) then
         (Inl (ErrWrap ''RecordRunTuples: insert'' (ErrOther ''duplicate key value violates unique constraint'')), w)
       else
         (Inr (), w\<lparr>w_run_tuples := w_run_tuples w @
            [\<lparr>rt_RunID = i, rt_Tuples = encodeAuthzTuples ts, rt_Committed = False, rt_CreatedAt = w_now w\<rparr>]\<rparr>))"

definition MarkRunTuplesCommitted :: "uuid \<Rightarrow> ('f, unit) io" where
  "MarkRunTuplesCommitted i =
     io (\<lambda>w. (Inr (), w\<lparr>w_run_tuples := map (\<lambda>r. if rt_RunID r = i then r\<lparr>rt_Committed := True\<rparr> else r) (w_run_tuples w)\<rparr>))"

definition GetRunTuples :: "uuid \<Rightarrow> ('f, tuple list option) io" where
  "GetRunTuples i =
     query (\<lambda>w.
       case find (\<lambda>r. rt_RunID r = i) (w_run_tuples w) of
         None \<Rightarrow> Inr None
       | Some r \<Rightarrow>
           (case decodeAuthzTuples (rt_Tuples r) of
              Inl e \<Rightarrow> Inl (ErrWrap ''GetRunTuples: decode'' e)
            | Inr ts \<Rightarrow> Inr (Some ts)))"

definition DeleteRunTuples :: "uuid \<Rightarrow> ('f, unit) io" where
  "DeleteRunTuples i = io (\<lambda>w. (Inr (), w\<lparr>w_run_tuples := filter (\<lambda>r. rt_RunID r \<noteq> i) (w_run_tuples w)\<rparr>))"

section \<open>The cluster\<close>

definition has_run :: "string \<Rightarrow> string \<Rightarrow> cluster_run \<Rightarrow> bool" where
  "has_run ns name pr \<longleftrightarrow> pr_namespace pr = ns \<and> pr_name pr = name"

definition get_pr :: "string \<Rightarrow> string \<Rightarrow> ('f, cluster_run) io" where
  "get_pr ns name =
     query (\<lambda>w. case find (has_run ns name) (w_prs w) of
                  None \<Rightarrow> Inl (ErrK8sNotFound (''pipelineruns '' @ fmt_q name @ '' not found'')) | Some pr \<Rightarrow> Inr pr)"

definition create_pr :: "cluster_run \<Rightarrow> ('f, unit) io" where
  "create_pr pr =
     io (\<lambda>w. if list_ex (has_run (pr_namespace pr) (pr_name pr)) (w_prs w)
             then (Inl (ErrK8sAlreadyExists (''pipelineruns '' @ fmt_q (pr_name pr) @ '' already exists'')), w)
             else (Inr (), w\<lparr>w_prs := w_prs w @ [pr]\<rparr>))"

definition delete_pr :: "string \<Rightarrow> string \<Rightarrow> ('f, unit) io" where
  "delete_pr ns name =
     io (\<lambda>w. if list_ex (has_run ns name) (w_prs w)
             then (Inr (), w\<lparr>w_prs := filter (\<lambda>pr. \<not> has_run ns name pr) (w_prs w)\<rparr>)
             else (Inl (ErrK8sNotFound (''pipelineruns '' @ fmt_q name @ '' not found'')), w))"

definition has_secret :: "string \<Rightarrow> string \<Rightarrow> cluster_secret \<Rightarrow> bool" where
  "has_secret ns name s \<longleftrightarrow> cs_ns s = ns \<and> cs_secret s = name"

definition create_secret :: "cluster_secret \<Rightarrow> ('f, unit) io" where
  "create_secret s =
     io (\<lambda>w. if list_ex (has_secret (cs_ns s) (cs_secret s)) (w_secrets w)
             then (Inl (ErrK8sAlreadyExists (''secrets '' @ fmt_q (cs_secret s) @ '' already exists'')), w)
             else (Inr (), w\<lparr>w_secrets := w_secrets w @ [s]\<rparr>))"

definition own_secret :: "string \<Rightarrow> string \<Rightarrow> string \<Rightarrow> ('f, unit) io" where
  "own_secret ns name owner =
     io (\<lambda>w. if list_ex (has_secret ns name) (w_secrets w)
             then (Inr (), w\<lparr>w_secrets :=
                     map (\<lambda>s. if has_secret ns name s then s\<lparr>cs_owners := [owner]\<rparr> else s) (w_secrets w)\<rparr>)
             else (Inl (ErrK8sNotFound (''secrets '' @ fmt_q name @ '' not found'')), w))"

section \<open>Creating a run's objects\<close>

record create_run_resources_opts =
  cx_Namespace :: string
  cx_PipelineName :: string
  cx_RunID :: uuid
  cx_Token :: string

definition no_status :: pipelinerun_status where
  "no_status = \<lparr>rn_phase = RunNone, rn_runID = [], rn_currentStage = [], rn_stages = [], rn_startTime = None,
     rn_completionTime = None, rn_message = [], rn_observedGeneration = 0, rn_conditions = [], rn_pipelineGeneration = 0,
     rn_resolvedSpec = None, rn_resolved = []\<rparr>"

text \<open>The PipelineRun as the API server stores it: \<open>rv\<close> is the resource version the server gives it.\<close>

definition new_run :: "names_lib \<Rightarrow> create_run_resources_opts \<Rightarrow> string \<Rightarrow> time_ns \<Rightarrow> cluster_run" where
  "new_run nl c rv now =
     \<lparr>pr_name = PipelineRunName nl (cx_PipelineName c) (cx_RunID c), pr_namespace = cx_Namespace c, pr_generation = 1,
      pr_annotations = [],
      pr_spec = \<lparr>rs_pipelineRef = cx_PipelineName c, rs_runID = nl_uuid_String nl (cx_RunID c),
        rs_runTokenRef = Some (SecretName nl (cx_RunID c)), rs_pipelineSpec = None, rs_preview = None\<rparr>,
      pr_status = no_status,
      cr_labels = [(''datuplet.io/run-id'', nl_uuid_String nl (cx_RunID c))], cr_rv = rv, cr_created = now, cr_deleting = False\<rparr>"

definition new_secret :: "names_lib \<Rightarrow> create_run_resources_opts \<Rightarrow> time_ns \<Rightarrow> cluster_secret" where
  "new_secret nl c now =
     \<lparr>cs_ns = cx_Namespace c, cs_secret = SecretName nl (cx_RunID c),
      cs_labels = [(''datuplet.io/run-id'', nl_uuid_String nl (cx_RunID c))], cs_owners = [], cs_created = now,
      cs_token = cx_Token c\<rparr>"

definition CreateRunResources :: "names_lib \<Rightarrow> string \<Rightarrow> create_run_resources_opts \<Rightarrow> time_ns \<Rightarrow> ('f, unit) io" where
  "CreateRunResources nl rv c now =
     (if cx_Namespace c = [] \<or> cx_PipelineName c = [] then throw (ErrOther ''namespace and pipeline name are required'')
      else
        let pr = new_run nl c rv now in
        attempt (create_secret (new_secret nl c now)) (wrapping ''create Secret'') (\<lambda>_.
        attempt (create_pr pr) (wrapping ''create PipelineRun'') (\<lambda>_.
        attempt (get_pr (cx_Namespace c) (pr_name pr)) (wrapping ''get created PipelineRun'') (\<lambda>created.
        ignoring (own_secret (cx_Namespace c) (SecretName nl (cx_RunID c)) (pr_name created)) (return ())))))"

text \<open>\<open>ApplyPipelineCRD\<close>: create, or replace what is there.\<close>

definition has_cr :: "string \<Rightarrow> string \<Rightarrow> string \<times> pipeline \<Rightarrow> bool" where
  "has_cr ns name x \<longleftrightarrow> fst x = ns \<and> p_name (snd x) = name"

definition get_cr :: "string \<Rightarrow> string \<Rightarrow> ('f, unit) io" where
  "get_cr ns name =
     query (\<lambda>w. if list_ex (has_cr ns name) (w_pipeline_crs w) then Inr ()
                else Inl (ErrK8sNotFound (''pipelines '' @ fmt_q name @ '' not found'')))"

definition create_cr :: "string \<Rightarrow> pipeline \<Rightarrow> ('f, unit) io" where
  "create_cr ns p =
     io (\<lambda>w. if list_ex (has_cr ns (p_name p)) (w_pipeline_crs w)
             then (Inl (ErrK8sAlreadyExists (''pipelines '' @ fmt_q (p_name p) @ '' already exists'')), w)
             else (Inr (), w\<lparr>w_pipeline_crs := w_pipeline_crs w @ [(ns, p)]\<rparr>))"

definition update_cr :: "string \<Rightarrow> pipeline \<Rightarrow> ('f, unit) io" where
  "update_cr ns p =
     io (\<lambda>w. if list_ex (has_cr ns (p_name p)) (w_pipeline_crs w)
             then (Inr (), w\<lparr>w_pipeline_crs :=
                     map (\<lambda>x. if has_cr ns (p_name p) x then (ns, p) else x) (w_pipeline_crs w)\<rparr>)
             else (Inl (ErrK8sNotFound (''pipelines '' @ fmt_q (p_name p) @ '' not found'')), w))"

definition ApplyPipelineCRD :: "convert_lib \<Rightarrow> string \<Rightarrow> pipeline_doc option \<Rightarrow> ('f, unit) io" where
  "ApplyPipelineCRD lib ns d =
     (case d of
        None \<Rightarrow> throw (ErrOther ''pipeline doc is nil'')
      | Some p \<Rightarrow> case DocToCR lib p of None \<Rightarrow> panic | Some pl \<Rightarrow>
          let update = attempt (update_cr ns pl) (wrapping ''update Pipeline CRD'') return in
          if p_name pl = [] then throw (ErrOther ''pipeline doc has no name'')
          else after (get_cr ns (p_name pl)) (\<lambda>r.
            case r of
              Inr _ \<Rightarrow> update
            | Inl e \<Rightarrow>
                if \<not> apierrors_IsNotFound e then throw (ErrWrap ''get Pipeline CRD'' e)
                else after (create_cr ns pl) (\<lambda>r.
                  case r of
                    Inr _ \<Rightarrow> return ()
                  | Inl e \<Rightarrow>
                      if \<not> apierrors_IsAlreadyExists e then throw (ErrWrap ''create Pipeline CRD'' e)
                      else attempt (get_cr ns (p_name pl)) (wrapping ''get Pipeline CRD after AlreadyExists'') (\<lambda>_. update))))"

section \<open>Triggering\<close>

record 'f backend =
  bk_names :: names_lib
  bk_convert :: convert_lib
  bk_installNamespace :: string
  bk_authz :: "'f authorizer_ops option"
  bk_jwt :: jwt_lib
  bk_signer :: "signer option"
  bk_env :: mint_env
  bk_audience :: string
  bk_resolver :: "(string \<Rightarrow> go_error + string) option"

record trigger_request =
  tq_ProjectID :: uuid
  tq_UserID :: uuid
  tq_PipelineName :: string
  tq_PipelineID :: uuid
  tq_Doc :: "pipeline_doc option"

definition buildRunTuples :: "string \<Rightarrow> string \<Rightarrow> pipeline_doc option \<Rightarrow> tuple list" where
  "buildRunTuples runUUID project d =
     (let intent = PipelineIntentFromPipeline d in
      if project = [] then []
      else if \<not> int_HasReads intent \<and> \<not> int_HasWrites intent then []
      else [project_tuple runUUID (if int_HasWrites intent then RelationEditor else RelationViewer) project])"

definition RunTokenLifetime :: int where
  "RunTokenLifetime = 24 * 60 * 60 * second"

definition get_project :: "uuid \<Rightarrow> ('f, project_row) io" where
  "get_project i = query (\<lambda>w. GetProjectByID (w_projects w) i)"

definition create_run :: "create_run_opts \<Rightarrow> ('f, unit) io" where
  "create_run opts =
     io (\<lambda>w. case CreateRun (w_pipelines w) (w_runs w) opts (w_now w) of
               (Inl e, runs) \<Rightarrow> (Inl e, w\<lparr>w_runs := runs\<rparr>) | (Inr _, runs) \<Rightarrow> (Inr (), w\<lparr>w_runs := runs\<rparr>))"

text \<open>The project namespace with its roles, role bindings and limit range: each is looked up and created when it is not
  there, and an object that someone else creates in between will do. The namespace of the service accounts, which
  \<open>installNamespace\<close> reads from the environment, is a parameter.\<close>

definition NamespaceForProject :: "names_lib \<Rightarrow> uuid \<Rightarrow> string" where
  "NamespaceForProject nl i = ''datuplet-'' @ nl_uuid_String nl i"

definition ensure_object :: "string \<Rightarrow> ('f, unit) io \<Rightarrow> ('f, unit) io \<Rightarrow> ('f, unit) io" where
  "ensure_object what get create =
     after get (\<lambda>r.
       case r of
         Inr _ \<Rightarrow> return ()
       | Inl e \<Rightarrow>
           if \<not> apierrors_IsNotFound e then throw (ErrWrap (''get '' @ what) e)
           else after create (\<lambda>r.
             case r of
               Inr _ \<Rightarrow> return ()
             | Inl e \<Rightarrow> if apierrors_IsAlreadyExists e then return () else throw (ErrWrap (''create '' @ what) e)))"

definition ensureNamespace :: "string \<Rightarrow> ('f, unit) io" where
  "ensureNamespace name =
     ensure_object (''namespace '' @ name)
       (query (\<lambda>w. if name \<in> set (w_namespaces w) then Inr ()
                   else Inl (ErrK8sNotFound (''namespaces '' @ fmt_q name @ '' not found''))))
       (io (\<lambda>w. if name \<in> set (w_namespaces w)
                then (Inl (ErrK8sAlreadyExists (''namespaces '' @ fmt_q name @ '' already exists'')), w)
                else (Inr (), w\<lparr>w_namespaces := w_namespaces w @ [name]\<rparr>)))"

definition has_object :: "string \<Rightarrow> ns_object \<Rightarrow> string \<times> ns_object \<Rightarrow> bool" where
  "has_object ns x y \<longleftrightarrow> fst y = ns \<and> same_object x (snd y)"

definition ensure_in_namespace :: "string \<Rightarrow> string \<Rightarrow> string \<Rightarrow> ns_object \<Rightarrow> ('f, unit) io" where
  "ensure_in_namespace kind ns name x =
     ensure_object (kind @ '' '' @ ns @ ''/'' @ name)
       (query (\<lambda>w. if list_ex (has_object ns x) (w_ns_objects w) then Inr ()
                   else Inl (ErrK8sNotFound (kind @ ''s '' @ fmt_q name @ '' not found''))))
       (io (\<lambda>w. if list_ex (has_object ns x) (w_ns_objects w)
                then (Inl (ErrK8sAlreadyExists (kind @ ''s '' @ fmt_q name @ '' already exists'')), w)
                else (Inr (), w\<lparr>w_ns_objects := w_ns_objects w @ [(ns, x)]\<rparr>)))"

definition ensureRole :: "string \<Rightarrow> string \<Rightarrow> (string \<times> string list) list \<Rightarrow> ('f, unit) io" where
  "ensureRole ns name rules = ensure_in_namespace ''role'' ns name (NsRole name rules)"

definition ensureSecretRole :: "string \<Rightarrow> string \<Rightarrow> string list \<Rightarrow> ('f, unit) io" where
  "ensureSecretRole ns name verbs = ensureRole ns name [(''secrets'', verbs)]"

definition ensureRoleBinding :: "string \<Rightarrow> string \<Rightarrow> string \<Rightarrow> string \<Rightarrow> ('f, unit) io" where
  "ensureRoleBinding ns roleName saName saNS =
     ensure_in_namespace ''rolebinding'' ns roleName (NsRoleBinding roleName saName saNS)"

definition ensureSecretsRBAC :: "string \<Rightarrow> string \<Rightarrow> ('f, unit) io" where
  "ensureSecretsRBAC saNS ns =
     attempt (ensureSecretRole ns ''datuplet-secrets'' [''get'', ''list'', ''create'', ''update'', ''patch'', ''delete''])
       same_error (\<lambda>_.
     attempt (ensureSecretRole ns ''datuplet-secrets-operator'' [''get'', ''create'']) same_error (\<lambda>_.
     attempt (ensureRole ns ''datuplet-pod-logs'' [(''pods'', [''get'', ''list'']), (''pods/log'', [''get''])]) same_error (\<lambda>_.
     attempt (ensureRoleBinding ns ''datuplet-secrets'' ''pipeline-api'' saNS) same_error (\<lambda>_.
     attempt (ensureRoleBinding ns ''datuplet-pod-logs'' ''pipeline-api'' saNS) same_error (\<lambda>_.
     ensureRoleBinding ns ''datuplet-secrets-operator'' ''pipeline-operator'' saNS)))))"

definition EnsureProjectLimitRange :: "names_lib \<Rightarrow> uuid \<Rightarrow> ('f, unit) io" where
  "EnsureProjectLimitRange nl i =
     ensure_in_namespace ''limitrange'' (NamespaceForProject nl i) ''datuplet-defaults'' 
       (NsLimitRange ''datuplet-defaults'' [(''cpu'', ''1''), (''memory'', ''512Mi'')] [(''cpu'', ''100m''), (''memory'', ''128Mi'')])"

definition EnsureProjectNamespace :: "names_lib \<Rightarrow> string \<Rightarrow> uuid \<Rightarrow> ('f, unit) io" where
  "EnsureProjectNamespace nl saNS i =
     attempt (ensureNamespace (NamespaceForProject nl i)) same_error (\<lambda>_.
     attempt (ensureSecretsRBAC saNS (NamespaceForProject nl i)) same_error (\<lambda>_.
     EnsureProjectLimitRange nl i))"

definition MarkFailed :: "uuid \<Rightarrow> go_error \<Rightarrow> ('f, 'a) io" where
  "MarkFailed i e =
     ignoring (update_run_phase i
       \<lparr>uo_Phase = ''FailedApplication'', uo_CurrentStage = [], uo_Message = err_text e, uo_StartedAt = None,
        uo_CompletedAt = None, uo_ObservedRV = 0, uo_StageStatuses = None, uo_GuardTerminal = False\<rparr>) (throw e)"

definition mint_token :: "'f backend \<Rightarrow> run_spec \<Rightarrow> time_ns \<Rightarrow> go_error + string" where
  "mint_token b spec now =
     (case MintRunToken (bk_jwt b) ((bk_env b)\<lparr>me_now := now\<rparr>) (bk_signer b) spec of
        Inl e \<Rightarrow> Inl (ErrOther e) | Inr t \<Rightarrow> Inr t)"

definition write_grant :: "'f backend \<Rightarrow> uuid \<Rightarrow> tuple list \<Rightarrow> ('f, 'a) io \<Rightarrow> ('f, 'a) io" where
  "write_grant b i ts k =
     (case bk_authz b of
        None \<Rightarrow> k
      | Some a \<Rightarrow>
          if ts = [] then k
          else after (fga_io (az_Write a ts)) (\<lambda>r.
            case r of
              Inl e \<Rightarrow> ignoring (DeleteRunTuples i) (throw (ErrWrap ''write FGA tuples'' e))
            | Inr _ \<Rightarrow> k))"

definition start_run :: "'f backend \<Rightarrow> string \<Rightarrow> trigger_request \<Rightarrow> uuid \<Rightarrow> string \<Rightarrow> string \<Rightarrow> string \<Rightarrow> bool \<Rightarrow>
    ('f, uuid \<times> string) io" where
  "start_run b rv req i ns project warehouse recorded =
     attempt (create_run \<lparr>co_ID = i, co_ProjectID = tq_ProjectID req, co_PipelineID = tq_PipelineID req,
         co_TriggeredBy = tq_UserID req\<rparr>) (wrapping ''insert run'') (\<lambda>_. with_now (\<lambda>now.
       case mint_token b \<lparr>rs_RunID = nl_uuid_String (bk_names b) i, rs_ProjectID = project,
           rs_PipelineName = tq_PipelineName req, rs_Warehouse = warehouse,
           rs_Audience = (if bk_audience b = [] then TableTokenAudience else bk_audience b),
           rs_Lifetime = RunTokenLifetime\<rparr> now of
          Inl e \<Rightarrow> MarkFailed i (ErrWrap ''mint run token'' e)
        | Inr tok \<Rightarrow>
            after (CreateRunResources (bk_names b) rv \<lparr>cx_Namespace = ns, cx_PipelineName = tq_PipelineName req,
              cx_RunID = i, cx_Token = tok\<rparr> now) (\<lambda>r.
            case r of
              Inl e \<Rightarrow> MarkFailed i (ErrWrap ''create K8s resources'' e)
            | Inr _ \<Rightarrow>
                if recorded then ignoring (MarkRunTuplesCommitted i) (return (i, ns)) else return (i, ns))))"

text \<open>\<open>TriggerRun\<close> once the namespace \<open>ns\<close> is made sure of, and as a whole.\<close>

definition trigger_in :: "'f backend \<Rightarrow> string \<Rightarrow> uuid \<Rightarrow> trigger_request \<Rightarrow> string \<Rightarrow> ('f, uuid \<times> string) io" where
  "trigger_in b rv i req ns =
     attempt (ApplyPipelineCRD (bk_convert b) ns (tq_Doc req)) (wrapping ''apply pipeline'') (\<lambda>_.
     attempt (get_project (tq_ProjectID req)) (wrapping ''get project'') (\<lambda>proj.
     let project = pj_LakekeeperProjectID proj;
         warehouse = (case bk_resolver b of None \<Rightarrow> Inr [] | Some f \<Rightarrow> f project);
         ts = buildRunTuples (nl_uuid_String (bk_names b) i) project (tq_Doc req) in
     case warehouse of
       Inl e \<Rightarrow> throw (ErrWrap ''resolve warehouse'' e)
     | Inr wh \<Rightarrow>
         let grant = write_grant b i ts (start_run b rv req i ns project wh (ts \<noteq> [])) in
         if ts \<noteq> [] then attempt (RecordRunTuples i ts) (wrapping ''record run_tuples'') (\<lambda>_. grant) else grant))"

definition Ensure :: "'f backend \<Rightarrow> uuid \<Rightarrow> ('f, string) io" where
  "Ensure b projectID =
     attempt (get_project projectID) (wrapping ''get project'') (\<lambda>proj.
     attempt (EnsureProjectNamespace (bk_names b) (bk_installNamespace b) (pj_ID proj)) (wrapping ''ensure namespace'') (\<lambda>_.
     return (pj_K8sNamespace proj)))"

definition TriggerRun :: "'f backend \<Rightarrow> string \<Rightarrow> uuid \<Rightarrow> trigger_request \<Rightarrow> ('f, uuid \<times> string) io" where
  "TriggerRun b rv i req = attempt (Ensure b (tq_ProjectID req)) same_error (trigger_in b rv i req)"

section \<open>Cancelling\<close>

definition terminalPhases :: "string list" where
  "terminalPhases = [''Succeeded'', ''FailedUser'', ''FailedApplication'', ''Cancelled'', ''Expired'']"

text \<open>Every failure is logged and left to the reaper, which is why the outcome is always a return.\<close>

definition cleanupRunTuples :: "'f backend \<Rightarrow> uuid \<Rightarrow> ('f, unit) io" where
  "cleanupRunTuples b i =
     after (GetRunTuples i) (\<lambda>r.
       case r of
         Inl _ \<Rightarrow> return ()
       | Inr None \<Rightarrow> return ()
       | Inr (Some ts) \<Rightarrow>
           (case bk_authz b of
              Some a \<Rightarrow>
                if ts = [] then ignoring (DeleteRunTuples i) (return ())
                else after (fga_io (az_Delete a ts)) (\<lambda>r.
                  case r of Inl _ \<Rightarrow> return () | Inr _ \<Rightarrow> ignoring (DeleteRunTuples i) (return ()))
            | None \<Rightarrow> ignoring (DeleteRunTuples i) (return ())))"

definition set_annotation :: "string \<Rightarrow> string \<Rightarrow> cluster_pod \<Rightarrow> cluster_pod" where
  "set_annotation k v p = p\<lparr>cp_annotations := (k, v) # filter (\<lambda>(k', _). k' \<noteq> k) (cp_annotations p)\<rparr>"

definition patch_pod :: "string \<Rightarrow> string \<Rightarrow> ('f, unit) io" where
  "patch_pod ns name =
     io (\<lambda>w. (Inr (), w\<lparr>w_pods := map (\<lambda>p. if cp_ns p = ns \<and> cp_pod p = name
        then set_annotation ''datuplet.io/cancel'' ''true'' p else p) (w_pods w)\<rparr>))"

fun patch_pods :: "string \<Rightarrow> string list \<Rightarrow> ('f, unit) io" where
  "patch_pods ns [] = return ()"
| "patch_pods ns (p # ps) = ignoring (patch_pod ns p) (patch_pods ns ps)"

definition annotateRunPodsCancelled :: "string \<Rightarrow> string \<Rightarrow> ('f, unit) io" where
  "annotateRunPodsCancelled ns runID =
     after (query (\<lambda>w. Inr (map cp_pod (filter (\<lambda>p. cp_ns p = ns \<and>
              map_of (cp_labels p) ''datuplet.io/run-id'' = Some runID) (w_pods w))))) (\<lambda>r.
       case r of Inl _ \<Rightarrow> return () | Inr ps \<Rightarrow> patch_pods ns ps)"

record cancel_request =
  cq_ProjectID :: uuid
  cq_RunID :: uuid

definition cancelled_opts :: "time_ns \<Rightarrow> update_phase_opts" where
  "cancelled_opts now =
     \<lparr>uo_Phase = ''Cancelled'', uo_CurrentStage = [], uo_Message = ''cancelled by user'', uo_StartedAt = None,
      uo_CompletedAt = Some now, uo_ObservedRV = 0, uo_StageStatuses = None, uo_GuardTerminal = False\<rparr>"

definition mark_cancelled :: "uuid \<Rightarrow> bool \<Rightarrow> ('f, unit) io" where
  "mark_cancelled i alreadyTerminal =
     (if alreadyTerminal then return ()
      else with_now (\<lambda>now. attempt (update_run_phase i (cancelled_opts now)) (wrapping ''update run phase'') (\<lambda>_. return ())))"

definition stop_run :: "'f backend \<Rightarrow> uuid \<Rightarrow> string \<Rightarrow> string \<Rightarrow> ('f, unit) io \<Rightarrow> ('f, unit) io" where
  "stop_run b i ns name close =
     after (get_pr ns name) (\<lambda>r.
       case r of
         Inl e \<Rightarrow> if apierrors_IsNotFound e then close else throw (ErrWrap ''get PipelineRun'' e)
       | Inr pr \<Rightarrow>
           if run_phase_text (rn_phase (pr_status pr)) \<in> set terminalPhases then return ()
           else ignoring (annotateRunPodsCancelled ns (nl_uuid_String (bk_names b) i)) (
             after (delete_pr ns name) (\<lambda>r.
               case r of
                 Inl e \<Rightarrow> if apierrors_IsNotFound e then close else throw (ErrWrap ''delete PipelineRun'' e)
               | Inr _ \<Rightarrow> close)))"

definition CancelRun :: "'f backend \<Rightarrow> cancel_request \<Rightarrow> ('f, unit) io" where
  "CancelRun b req =
     attempt (query (\<lambda>w. GetRunByID (w_pipelines w) (w_runs w) (cq_RunID req))) same_error (\<lambda>run.
     if rr_ProjectID run \<noteq> cq_ProjectID req then throw ErrRunNotFound
     else
       ignoring (cleanupRunTuples b (cq_RunID req)) (
       attempt (get_project (cq_ProjectID req)) (wrapping ''get project'') (\<lambda>proj.
       attempt (query (\<lambda>w. GetPipelineNameByID (w_pipelines w) (rr_PipelineID run))) (wrapping ''get pipeline'') (\<lambda>pipeName.
       stop_run b (cq_RunID req) (pj_K8sNamespace proj) (PipelineRunName (bk_names b) pipeName (cq_RunID req))
         (mark_cancelled (cq_RunID req) (rr_Phase run \<in> set terminalPhases))))))"

definition CompleteRun :: "'f backend \<Rightarrow> uuid \<Rightarrow> ('f, unit) io" where
  "CompleteRun b i = cleanupRunTuples b i"

end
