(* ===== verification/Run_Reaper.thy ===== *)
theory Run_Reaper
  imports Run_Backend
begin

text \<open>
  The reaper of \<open>pkg/pipelineapi/k8s\<close>: PipelineRuns past their age with the expiry of the rows they leave behind, Secrets
  without an owner, and the sweep over the breadcrumb rows that finishes what a crashed trigger or a lost clean-up began.
\<close>

section \<open>PipelineRuns\<close>

definition terminal_run_phases :: "run_phase list" where
  "terminal_run_phases = [RunSucceeded, RunFailedUser, RunFailedApplication]"

definition reapAge :: "cluster_run \<Rightarrow> time_ns" where
  "reapAge pr =
     (let st = pr_status pr in
      if rn_phase st \<notin> set terminal_run_phases then
        (case rn_startTime st of Some t \<Rightarrow> t | None \<Rightarrow> zero_time)
      else
        (case rn_completionTime st of
           Some t \<Rightarrow> t
         | None \<Rightarrow> (case rn_startTime st of Some t \<Rightarrow> t | None \<Rightarrow> cr_created pr)))"

text \<open>\<open>time.Duration.String\<close>: hours, minutes and seconds, a smaller unit below one second, the fraction's trailing zeros cut.\<close>

definition fraction_text :: "nat \<Rightarrow> int \<Rightarrow> string" where
  "fraction_text width n =
     (let digits = rev (dropWhile (\<lambda>c. c = CHR ''0'') (rev (replicate (width - length (fmt_d n)) CHR ''0'' @ fmt_d n))) in
      if n = 0 then [] else ''.'' @ digits)"

definition micro_sign :: string where
  "micro_sign = [CHR 0xC2, CHR 0xB5]"

definition Duration_String :: "int \<Rightarrow> string" where
  "Duration_String d =
     (let n = \<bar>d\<bar>; s = n div 1000000000; sec = fmt_d (s mod 60) @ fraction_text 9 (n mod 1000000000) @ ''s'' in
      (if d < 0 then ''-'' else []) @
      (if n = 0 then ''0s''
       else if n < 1000 then fmt_d n @ ''ns''
       else if n < 1000000 then fmt_d (n div 1000) @ fraction_text 3 (n mod 1000) @ micro_sign @ ''s''
       else if n < 1000000000 then fmt_d (n div 1000000) @ fraction_text 6 (n mod 1000000) @ ''ms''
       else if s < 60 then sec
       else if s < 3600 then fmt_d (s div 60) @ ''m'' @ sec
       else fmt_d (s div 3600) @ ''h'' @ fmt_d (s div 60 mod 60) @ ''m'' @ sec))"

definition expired_status :: "uuid \<Rightarrow> cluster_run \<Rightarrow> int \<Rightarrow> time_ns \<Rightarrow> run_status" where
  "expired_status i pr maxAge now =
     \<lparr>rst_RunID = i, rst_PreviewID = uuid_Nil, rst_Namespace = pr_namespace pr, rst_PipelineRunName = pr_name pr,
      rst_Phase = ''Expired'', rst_CurrentStage = [], rst_Message = ''reaped after '' @ Duration_String maxAge,
      rst_StartedAt = None, rst_CompletedAt = Some now, rst_ResourceVersion = 0, rst_StageStatuses = None\<rparr>"

definition due :: "time_ns \<Rightarrow> cluster_run \<Rightarrow> bool" where
  "due cutoff pr \<longleftrightarrow> reapAge pr \<noteq> zero_time \<and> reapAge pr < cutoff"

text \<open>The expiry mark of a run that was deleted while it was not terminal; \<open>u\<close> is the updater, if there is one.\<close>

definition mark_expired :: "names_lib \<Rightarrow> (run_status \<Rightarrow> ('f, bool) io) option \<Rightarrow> int \<Rightarrow> cluster_run \<Rightarrow> ('f, unit) io" where
  "mark_expired nl u maxAge pr =
     (case u of
        None \<Rightarrow> return ()
      | Some upd \<Rightarrow>
          if rn_phase (pr_status pr) \<in> set terminal_run_phases then return ()
          else
            (case nl_uuid_Parse nl (case map_of (cr_labels pr) ''datuplet.io/run-id'' of Some s \<Rightarrow> s | None \<Rightarrow> []) of
               None \<Rightarrow> return ()
             | Some i \<Rightarrow> with_now (\<lambda>now. ignoring (upd (expired_status i pr maxAge now)) (return ()))))"

definition reap_run :: "names_lib \<Rightarrow> (run_status \<Rightarrow> ('f, bool) io) option \<Rightarrow> int \<Rightarrow> time_ns \<Rightarrow> cluster_run \<Rightarrow> ('f, unit) io" where
  "reap_run nl u maxAge cutoff pr =
     (if \<not> due cutoff pr then return ()
      else after (delete_pr (pr_namespace pr) (pr_name pr)) (\<lambda>r.
        case r of Inl _ \<Rightarrow> return () | Inr _ \<Rightarrow> mark_expired nl u maxAge pr))"

fun for_each :: "('x \<Rightarrow> ('f, unit) io) \<Rightarrow> 'x list \<Rightarrow> ('f, 'a) io \<Rightarrow> ('f, 'a) io" where
  "for_each f [] k = k"
| "for_each f (x # xs) k = ignoring (f x) (for_each f xs k)"

definition labelled_runs :: "cluster_run list \<Rightarrow> cluster_run list" where
  "labelled_runs prs = filter (\<lambda>pr. map_of (cr_labels pr) ''datuplet.io/run-id'' \<noteq> None) prs"

section \<open>Secrets\<close>

definition delete_secret :: "string \<Rightarrow> string \<Rightarrow> ('f, unit) io" where
  "delete_secret ns name =
     io (\<lambda>w. if list_ex (has_secret ns name) (w_secrets w)
             then (Inr (), w\<lparr>w_secrets := filter (\<lambda>s. \<not> has_secret ns name s) (w_secrets w)\<rparr>)
             else (Inl (ErrK8sNotFound (''secrets '' @ fmt_q name @ '' not found'')), w))"

definition reap_secret :: "time_ns \<Rightarrow> cluster_secret \<Rightarrow> ('f, unit) io" where
  "reap_secret cutoff s =
     (if cs_owners s \<noteq> [] \<or> cs_created s = zero_time \<or> \<not> cs_created s < cutoff then return ()
      else delete_secret (cs_ns s) (cs_secret s))"

definition reap_namespace :: "time_ns \<Rightarrow> string \<Rightarrow> ('f, unit) io" where
  "reap_namespace cutoff ns =
     after (query (\<lambda>w. Inr (filter (\<lambda>s. cs_ns s = ns \<and> map_of (cs_labels s) ''datuplet.io/run-id'' \<noteq> None) (w_secrets w)))) (\<lambda>r.
       case r of Inl _ \<Rightarrow> return () | Inr ss \<Rightarrow> for_each (reap_secret cutoff) ss (return ()))"

definition reapOrphanSecrets :: "time_ns \<Rightarrow> ('f, unit) io" where
  "reapOrphanSecrets cutoff =
     attempt (query (\<lambda>w. Inr (w_namespaces w))) (wrapping ''list project namespaces'') (\<lambda>nss.
       for_each (reap_namespace cutoff) nss (return ()))"

definition ReapOnce :: "names_lib \<Rightarrow> int \<Rightarrow> (run_status \<Rightarrow> ('f, bool) io) option \<Rightarrow> ('f, unit) io" where
  "ReapOnce nl maxAge u =
     (if maxAge \<le> 0 then
        throw (ErrOther (''reaper: maxAge must be positive (got '' @ Duration_String maxAge @ ''); refusing to run''))
      else
        attempt (query (\<lambda>w. Inr (labelled_runs (w_prs w)))) (wrapping ''list PipelineRuns'') (\<lambda>prs. with_now (\<lambda>now.
          for_each (reap_run nl u maxAge (now - maxAge)) prs
            (ignoring (reapOrphanSecrets (now - maxAge)) (return ())))))"

section \<open>Breadcrumbs\<close>

definition orphanRunTuplesAge :: int where
  "orphanRunTuplesAge = 30 * 60 * second"

record sweep_row =
  sr_RunID :: uuid
  sr_Tuples :: "tuple list"
  sr_RunPhase :: "string option"  \<comment> \<open>\<open>HasRun\<close> and \<open>RunPhase\<close> of the left join\<close>
  sr_CreatedAt :: time_ns

text \<open>The left join with the runs; rows whose tuples do not decode are skipped.\<close>

fun sweep_rows :: "run_row list \<Rightarrow> run_tuples_row list \<Rightarrow> sweep_row list" where
  "sweep_rows runs [] = []"
| "sweep_rows runs (r # rs) =
     (case decodeAuthzTuples (rt_Tuples r) of
        Inl _ \<Rightarrow> sweep_rows runs rs
      | Inr ts \<Rightarrow>
          \<lparr>sr_RunID = rt_RunID r, sr_Tuples = ts,
           sr_RunPhase = map_option rr_Phase (find (\<lambda>x. rr_ID x = rt_RunID r) runs),
           sr_CreatedAt = rt_CreatedAt r\<rparr> # sweep_rows runs rs)"

definition cleanupRunTuplesRow :: "'f authorizer_ops option \<Rightarrow> sweep_row \<Rightarrow> ('f, unit) io" where
  "cleanupRunTuplesRow authz r =
     (case authz of
        Some a \<Rightarrow>
          if sr_Tuples r = [] then DeleteRunTuples (sr_RunID r)
          else after (fga_io (az_Delete a (sr_Tuples r))) (\<lambda>x.
            case x of
              Inl e \<Rightarrow> if isMissingTupleErr (err_text e) then DeleteRunTuples (sr_RunID r) else return ()
            | Inr _ \<Rightarrow> DeleteRunTuples (sr_RunID r))
      | None \<Rightarrow> DeleteRunTuples (sr_RunID r))"

definition pipelineRunIsLive :: "names_lib \<Rightarrow> uuid \<Rightarrow> ('f, bool) io" where
  "pipelineRunIsLive nl i =
     query (\<lambda>w. Inr (list_ex (\<lambda>pr. map_of (cr_labels pr) ''datuplet.io/run-id'' = Some (nl_uuid_String nl i)) (w_prs w)))"

definition sweep_one :: "names_lib \<Rightarrow> 'f authorizer_ops option \<Rightarrow> time_ns \<Rightarrow> sweep_row \<Rightarrow> ('f, unit) io" where
  "sweep_one nl authz cutoff r =
     (case sr_RunPhase r of
        Some phase \<Rightarrow> if phase \<in> set terminalPhases then cleanupRunTuplesRow authz r else return ()
      | None \<Rightarrow>
          if sr_CreatedAt r < cutoff then
            after (pipelineRunIsLive nl (sr_RunID r)) (\<lambda>x.
              case x of Inl _ \<Rightarrow> return () | Inr live \<Rightarrow> if live then return () else cleanupRunTuplesRow authz r)
          else return ())"

definition ReapRunTuples :: "names_lib \<Rightarrow> 'f authorizer_ops option \<Rightarrow> ('f, unit) io" where
  "ReapRunTuples nl authz =
     attempt (query (\<lambda>w. Inr (sweep_rows (w_runs w) (w_run_tuples w)))) (wrapping ''ReapRunTuples: select'') (\<lambda>rows.
       with_now (\<lambda>now. for_each (sweep_one nl authz (now - orphanRunTuplesAge)) rows (return ())))"

definition ReapOnceWith :: "names_lib \<Rightarrow> int \<Rightarrow> 'f authorizer_ops option \<Rightarrow> ('f, unit) io" where
  "ReapOnceWith nl maxAge authz =
     attempt (ReapOnce nl maxAge (Some (DBRunUpdater_Update nl))) same_error (\<lambda>_.
       ignoring (ReapRunTuples nl authz) (return ()))"

end
