(* ===== verification/Run_Mirror_Facts.thy ===== *)
theory Run_Mirror_Facts
  imports Run_Mirror
begin

text \<open>
  The guarantees of the mirror: which PipelineRun can write which row, and that coalescing is invisible in the mirrored
  content as long as no event is stale.
\<close>

section \<open>Only the run's own PipelineRun writes its row\<close>

definition authentic :: "names_lib \<Rightarrow> 'f world \<Rightarrow> cluster_run \<Rightarrow> run_row \<Rightarrow> bool" where
  "authentic nl w pr r \<longleftrightarrow>
     \<not> cr_deleting pr \<and> label_ids nl (cr_labels pr) = Some (rr_ID r, uuid_Nil) \<and>
     (\<exists>pipeline. run_identity (w_projects w) (w_pipelines w) r = Some (pr_namespace pr, pipeline) \<and>
       pr_name pr = PipelineRunName nl pipeline (rr_ID r))"

definition mirrored :: "names_lib \<Rightarrow> 'f world \<Rightarrow> go_error + cluster_run \<Rightarrow> run_row \<Rightarrow> run_row \<Rightarrow> bool" where
  "mirrored nl w got r r' \<longleftrightarrow>
     (\<exists>pr. got = Inr pr \<and> authentic nl w pr r \<and> rr_Phase r \<notin> set out_of_band \<and>
        rr_observed_rv r < rr_observed_rv r' \<and> strconv_Atoi (cr_rv pr) = Some (rr_observed_rv r') \<and>
        rr_Phase r' = run_phase_text (rn_phase (pr_status pr)) \<and> rr_Phase r' \<noteq> [] \<and>
        (rr_ID r', rr_ProjectID r', rr_PipelineID r', rr_CreatedAt r') =
          (rr_ID r, rr_ProjectID r, rr_PipelineID r, rr_CreatedAt r))"

lemma find_distinct:
  assumes "distinct (map f xs)" "x \<in> set xs"
  shows "find (\<lambda>y. f y = f x) xs = Some x"
  using assms by (induction xs) (auto simp: image_iff)

lemma observe_status:
  assumes "observe nl marshal got = Inr (Some s)"
  shows "\<exists>pr. got = Inr pr \<and> \<not> cr_deleting pr \<and>
     label_ids nl (cr_labels pr) = Some (rst_RunID s, rst_PreviewID s) \<and>
     rst_Namespace s = pr_namespace pr \<and> rst_PipelineRunName s = pr_name pr \<and>
     rst_Phase s = run_phase_text (rn_phase (pr_status pr)) \<and> rst_Phase s \<noteq> [] \<and>
     strconv_Atoi (cr_rv pr) = Some (rst_ResourceVersion s) \<and> rst_ResourceVersion s > 0"
  using assms by (auto simp: observe_def Let_def split: sum.splits if_splits option.splits prod.splits)

lemma Coalesced_world:
  "CoalescedUpdater_Update inner c s w = (res, c', w') \<Longrightarrow> w' = w \<or> w' = snd (inner s w)"
  by (cases "inner s w"; cases "fst (inner s w)")
     (auto simp: CoalescedUpdater_Update_def split: if_splits option.splits prod.splits)

lemma touched_mirrored:
  assumes obs: "observe nl marshal got = Inr (Some s)" and nil: "rst_PreviewID s = uuid_Nil"
    and own: "own_name nl w s" and ids: "distinct (map rr_ID (w_runs w))" and r: "r \<in> set (w_runs w)"
    and t: "touched (rst_RunID s) (status_opts s) r r'"
  shows "r' = r \<or> mirrored nl w got r r'"
proof (cases "r' = r")
  case False
  then obtain now where hit: "run_hit (rst_RunID s) (status_opts s) r" and r': "r' = set_phase (status_opts s) now r"
    using t by (auto simp: touched_def)
  have i: "rr_ID r = rst_RunID s" and rv: "rst_ResourceVersion s = 0 \<or> rst_ResourceVersion s > rr_observed_rv r"
    and ph: "rr_Phase r \<notin> set out_of_band"
    using hit by (auto simp: run_hit_def phase_guard_def status_opts_def)
  obtain pr where pr: "got = Inr pr" "\<not> cr_deleting pr"
     "label_ids nl (cr_labels pr) = Some (rst_RunID s, rst_PreviewID s)"
     "rst_Namespace s = pr_namespace pr" "rst_PipelineRunName s = pr_name pr"
     "rst_Phase s = run_phase_text (rn_phase (pr_status pr))" "rst_Phase s \<noteq> []"
     "strconv_Atoi (cr_rv pr) = Some (rst_ResourceVersion s)" "rst_ResourceVersion s > 0"
    using observe_status[OF obs] by blast
  obtain pl where pl: "lookup_identity w (rst_RunID s) = Some (rst_Namespace s, pl)"
    "rst_PipelineRunName s = PipelineRunName nl pl (rst_RunID s)" using own by (auto simp: own_name_def)
  have "find (\<lambda>x. rr_ID x = rr_ID r) (w_runs w) = Some r" using find_distinct[OF ids r] .
  then have "run_identity (w_projects w) (w_pipelines w) r = Some (rst_Namespace s, pl)"
    using pl(1) i by (simp add: lookup_identity_def)
  then have auth: "authentic nl w pr r" using pr pl i nil by (auto simp: authentic_def)
  have "rr_observed_rv r' = rst_ResourceVersion s" "rr_Phase r' = rst_Phase s"
    using rv pr(9) by (auto simp: r' status_opts_def)
  then show ?thesis using auth pr ph rv r' by (auto simp: mirrored_def)
qed simp

text \<open>C10. Whatever PipelineRun the observer reads, whatever its cache holds and whichever of its calls fail or kill it, each
  row of the table either stays as it is, or the PipelineRun is the row's own (not being deleted, labelled with its id, in
  the namespace of its project and under the name made of its pipeline and id), the row has not been cancelled or expired,
  and the resource version it records grows to that of the PipelineRun.\<close>

theorem mirror_writes_own_row:
  assumes "reconcileOne nl marshal c got w = (res, c', w')" "distinct (map rr_ID (w_runs w))"
  shows "list_all2 (\<lambda>r r'. r' = r \<or> mirrored nl w got r r') (w_runs w) (w_runs w')"
proof -
  have same: "?thesis" if "w_runs w' = w_runs w" using that by (simp add: list_all2_refl)
  show ?thesis
  proof (cases "observe nl marshal got")
    case (Inr so)
    show ?thesis
    proof (cases so)
      case (Some s)
      obtain res0 c0 where co: "CoalescedUpdater_Update (RoutingUpdater_Update nl) c s w = (res0, c0, w')"
        using assms(1) Inr Some by (auto simp: reconcileOne_def split: prod.splits res.splits)
      consider "w' = w" | "w' = snd (RoutingUpdater_Update nl s w)" using Coalesced_world[OF co] by blast
      then show ?thesis
      proof cases
        case 2
        show ?thesis
        proof (cases "rst_PreviewID s = uuid_Nil \<and> w_runs w' \<noteq> w_runs w")
          case True
          then have "own_name nl w s" "list_all2 (touched (rst_RunID s) (status_opts s)) (w_runs w) (w_runs w')"
            using 2 DBRunUpdater_runs[of nl s w] by (auto simp: RoutingUpdater_Update_def)
          then show ?thesis
            using touched_mirrored[OF Inr[unfolded Some] _ _ assms(2)] True by (auto intro: list.rel_mono_strong)
        next
          case False
          then show ?thesis using 2 DBPreviewUpdater_runs[of nl s w] same by (auto simp: RoutingUpdater_Update_def)
        qed
      qed (use same in simp)
    next
      case None
      then show ?thesis using assms(1) Inr same by (simp add: reconcileOne_def)
    qed
  next
    case (Inl e)
    then show ?thesis using assms(1) same by (simp add: reconcileOne_def)
  qed
qed

section \<open>Coalescing is invisible\<close>

text \<open>What the names rely on of the UUID library: 36 characters, and parsing inverts formatting.\<close>

definition valid_uuid :: "uuid \<Rightarrow> bool" where
  "valid_uuid i \<longleftrightarrow> int i < 2 ^ 128"

definition uuid_laws :: "names_lib \<Rightarrow> bool" where
  "uuid_laws nl \<longleftrightarrow>
     (\<forall>i. valid_uuid i \<longrightarrow> length (nl_uuid_String nl i) = 36 \<and> nl_uuid_Parse nl (nl_uuid_String nl i) = Some i)"

lemma PipelineRunName_suffix: "\<exists>p. PipelineRunName nl pipeline i = p @ nl_uuid_String nl i"
  unfolding PipelineRunName_def Let_def by (auto intro: exI[of _ "_ @ _"] simp flip: append_assoc)

lemma PipelineRunName_unique:
  assumes "uuid_laws nl" "valid_uuid i" "valid_uuid j" "PipelineRunName nl p i = PipelineRunName nl q j"
  shows "i = j"
proof -
  obtain x y where "x @ nl_uuid_String nl i = y @ nl_uuid_String nl j"
    using assms(4) PipelineRunName_suffix[of nl p i] PipelineRunName_suffix[of nl q j] by metis
  moreover have "length (nl_uuid_String nl i) = length (nl_uuid_String nl j)" using assms by (simp add: uuid_laws_def)
  ultimately have "nl_uuid_String nl i = nl_uuid_String nl j" by simp
  then show ?thesis using assms by (metis uuid_laws_def option.inject)
qed

datatype mirror_op =
    Event run_status                 \<comment> \<open>the observer reports a status\<close>
  | Close uuid update_phase_opts     \<comment> \<open>a cancel or the reaper closes a row out of band\<close>
  | Drop "string \<times> string"          \<comment> \<open>the informer reports a deletion\<close>
  | Sweep int                        \<comment> \<open>the janitor\<close>
  | Tick time_ns

definition close_run :: "uuid \<Rightarrow> update_phase_opts \<Rightarrow> 'f world \<Rightarrow> 'f world" where
  "close_run i opts w = w\<lparr>w_runs := snd (UpdateRunPhase (w_runs w) i opts (w_now w))\<rparr>"

fun plain_step :: "names_lib \<Rightarrow> mirror_op \<Rightarrow> 'f world \<Rightarrow> 'f world" where
  "plain_step nl (Event s) w = snd (RoutingUpdater_Update nl s w)"
| "plain_step nl (Close i opts) w = close_run i opts w"
| "plain_step nl (Tick t) w = w\<lparr>w_now := t\<rparr>"
| "plain_step nl _ w = w"

fun coalesced_step :: "names_lib \<Rightarrow> mirror_op \<Rightarrow> cache \<times> 'f world \<Rightarrow> cache \<times> 'f world" where
  "coalesced_step nl (Event s) (c, w) = snd (CoalescedUpdater_Update (RoutingUpdater_Update nl) c s w)"
| "coalesced_step nl (Close i opts) (c, w) = (c, close_run i opts w)"
| "coalesced_step nl (Drop key) (c, w) = (Forget c key, w)"
| "coalesced_step nl (Sweep maxAge) (c, w) = (SweepOnce c (w_now w) maxAge, w)"
| "coalesced_step nl (Tick t) (c, w) = (c, w\<lparr>w_now := t\<rparr>)"

definition mirrored_content :: "run_row \<Rightarrow> run_row" where
  "mirrored_content r = r\<lparr>rr_observed_rv := 0, rr_UpdatedAt := 0\<rparr>"

text \<open>A status of a run that is newer than what the table has recorded of it; and out-of-band writes are what
  \<open>CancelRun\<close> and the reaper write.\<close>

fun fresh_op :: "mirror_op \<Rightarrow> 'f world \<Rightarrow> bool" where
  "fresh_op (Event s) w \<longleftrightarrow>
     rst_PreviewID s = uuid_Nil \<and> valid_uuid (rst_RunID s) \<and> rst_StageStatuses s \<noteq> Some [] \<and>
     list_all (\<lambda>r. rr_ID r = rst_RunID s \<longrightarrow> rr_observed_rv r < rst_ResourceVersion s) (w_runs w)"
| "fresh_op (Close i opts) w \<longleftrightarrow> uo_Phase opts \<in> set out_of_band \<and> uo_ObservedRV opts = 0"
| "fresh_op _ w \<longleftrightarrow> True"

fun never_stale :: "names_lib \<Rightarrow> mirror_op list \<Rightarrow> 'f world \<Rightarrow> bool" where
  "never_stale nl [] w \<longleftrightarrow> True"
| "never_stale nl (x # ops) w \<longleftrightarrow> fresh_op x w \<and> never_stale nl ops (plain_step nl x w)"

subsection \<open>Rows\<close>

definition put :: "uuid \<Rightarrow> update_phase_opts \<Rightarrow> time_ns \<Rightarrow> run_row \<Rightarrow> run_row" where
  "put i opts now r = (if run_hit i opts r then set_phase opts now r else r)"

definition shows_status :: "run_status \<Rightarrow> run_row \<Rightarrow> bool" where
  "shows_status s r \<longleftrightarrow>
     rr_Phase r = rst_Phase s \<and> rr_CurrentStage r = rst_CurrentStage s \<and> rr_Message r = rst_Message s \<and>
     coalesce2 (rst_StartedAt s) (rr_StartedAt r) = rr_StartedAt r \<and>
     coalesce2 (rst_CompletedAt s) (rr_CompletedAt r) = rr_CompletedAt r \<and>
     coalesce2 (rst_StageStatuses s) (rr_StageStatuses r) = rr_StageStatuses r"

definition row_sim :: "run_row \<Rightarrow> run_row \<Rightarrow> bool" where
  "row_sim a b \<longleftrightarrow> mirrored_content a = mirrored_content b \<and> rr_observed_rv a \<le> rr_observed_rv b"

lemma mirrored_content_eq:
  "mirrored_content a = mirrored_content b \<longleftrightarrow>
     rr_ID a = rr_ID b \<and> rr_ProjectID a = rr_ProjectID b \<and> rr_PipelineID a = rr_PipelineID b \<and> rr_Phase a = rr_Phase b \<and>
     rr_CurrentStage a = rr_CurrentStage b \<and> rr_Message a = rr_Message b \<and> rr_StageStatuses a = rr_StageStatuses b \<and>
     rr_StartedAt a = rr_StartedAt b \<and> rr_CompletedAt a = rr_CompletedAt b \<and> rr_TriggeredBy a = rr_TriggeredBy b \<and>
     rr_CreatedAt a = rr_CreatedAt b"
  by (cases a; cases b) (auto simp: mirrored_content_def)

lemma UpdateRunPhase_put: "snd (UpdateRunPhase runs i opts now) = map (put i opts now) runs"
proof (cases "list_ex (run_hit i opts) runs")
  case False
  then have "map (put i opts now) runs = map (\<lambda>r. r) runs"
    unfolding map_eq_conv by (auto simp: put_def list_ex_iff)
  then show ?thesis using False by (simp add: UpdateRunPhase_def)
qed (simp add: UpdateRunPhase_def put_def)

lemma row_sim_put:
  assumes "row_sim a b" "uo_ObservedRV opts = 0 \<or> (rr_ID b = i \<longrightarrow> rr_observed_rv b < uo_ObservedRV opts)"
  shows "row_sim (put i opts na a) (put i opts nb b)"
proof -
  have "run_hit i opts a = run_hit i opts b" using assms by (auto simp: row_sim_def mirrored_content_eq run_hit_def phase_guard_def)
  then show ?thesis using assms by (auto simp: put_def row_sim_def mirrored_content_eq set_phase_def)
qed

lemma coalesce2_idem [simp]: "coalesce2 x (coalesce2 x y) = coalesce2 x y"
  by (cases x) auto

lemma shows_set_phase: "shows_status s (set_phase (status_opts s) now r)"
  by (simp add: shows_status_def set_phase_def status_opts_def)

lemma equalsForDB_shows:
  assumes "equalsForDB s0 s" "rst_StageStatuses s0 \<noteq> Some []" "rst_StageStatuses s \<noteq> Some []" "shows_status s0 r"
  shows "shows_status s r"
proof -
  have "rst_StartedAt s0 = rst_StartedAt s" "rst_CompletedAt s0 = rst_CompletedAt s"
    using assms(1) by (auto simp: equalsForDB_def elim: timePtrEqual.elims)
  moreover have "rst_StageStatuses s0 = rst_StageStatuses s"
    using assms(1-3) by (auto simp: equalsForDB_def bytes_of_def split: option.splits)
  ultimately show ?thesis using assms(1,4) by (simp add: equalsForDB_def shows_status_def)
qed

lemma row_sim_coalesced:
  assumes "row_sim a b" "rr_ID b = rst_RunID s \<Longrightarrow> rr_Phase a \<in> set out_of_band \<or> shows_status s a"
  shows "row_sim a (put (rst_RunID s) (status_opts s) nb b)"
proof (cases "run_hit (rst_RunID s) (status_opts s) b")
  case True
  then have "shows_status s a"
    using assms by (auto simp: run_hit_def phase_guard_def status_opts_def row_sim_def mirrored_content_eq)
  then show ?thesis using assms(1) True
    by (auto simp: put_def row_sim_def mirrored_content_eq set_phase_def status_opts_def shows_status_def)
qed (use assms in \<open>simp add: put_def\<close>)


subsection \<open>Tables and the cache\<close>

lemma DBRun_calm:
  assumes "w_fates w = []"
  shows "DBRunUpdater_Update nl s w =
    (if own_name nl w s then
       (Ret (list_ex (run_hit (rst_RunID s) (status_opts s)) (w_runs w)),
        w\<lparr>w_runs := map (put (rst_RunID s) (status_opts s) (w_now w)) (w_runs w)\<rparr>)
     else (Ret False, w))"
proof -
  let ?i = "rst_RunID s" and ?o = "status_opts s"
  have upd: "update_run_phase ?i ?o w =
      (Ret (list_ex (run_hit ?i ?o) (w_runs w)), w\<lparr>w_runs := map (put ?i ?o (w_now w)) (w_runs w)\<rparr>)"
    using assms UpdateRunPhase_put[of "w_runs w" ?i ?o "w_now w"]
    by (auto simp: update_run_phase_def UpdateRunPhase_def status_opts_def split: prod.splits if_splits)
  show ?thesis
  proof (cases "own_name nl w s")
    case True
    then show ?thesis using assms upd
      by (auto simp: DBRunUpdater_Update_def attempt_simps own_name_def after_simps return_def)
  next
    case False
    then show ?thesis using assms
      by (auto simp: DBRunUpdater_Update_def attempt_simps own_name_def return_def split: option.splits)
  qed
qed

definition entry_ok :: "names_lib \<Rightarrow> 'f world \<Rightarrow> (string \<times> string) \<Rightarrow> run_status \<Rightarrow> bool" where
  "entry_ok nl w k s \<longleftrightarrow>
     status_key s = k \<and> own_name nl w s \<and> valid_uuid (rst_RunID s) \<and> rst_StageStatuses s \<noteq> Some [] \<and>
     (\<forall>r \<in> set (w_runs w). rr_ID r = rst_RunID s \<longrightarrow> rr_Phase r \<in> set out_of_band \<or> shows_status s r)"

definition cache_ok :: "names_lib \<Rightarrow> 'f world \<Rightarrow> cache \<Rightarrow> bool" where
  "cache_ok nl w c \<longleftrightarrow> (\<forall>k s t. c k = Some (s, t) \<longrightarrow> entry_ok nl w k s)"

lemma cache_okD: "cache_ok nl w c \<Longrightarrow> c k = Some (s, t) \<Longrightarrow> entry_ok nl w k s"
  unfolding cache_ok_def by blast

lemma cache_okI: "(\<And>k s t. c k = Some (s, t) \<Longrightarrow> entry_ok nl w k s) \<Longrightarrow> cache_ok nl w c"
  unfolding cache_ok_def by blast

lemma list_all2_left: "list_all2 R xs ys \<Longrightarrow> x \<in> set xs \<Longrightarrow> \<exists>y \<in> set ys. R x y"
  by (induction rule: list_all2_induct) auto

definition mirror_sim :: "names_lib \<Rightarrow> cache \<times> 'f world \<Rightarrow> 'f world \<Rightarrow> bool" where
  "mirror_sim nl cw b \<longleftrightarrow>
     w_fates (snd cw) = [] \<and> w_fates b = [] \<and> w_projects (snd cw) = w_projects b \<and>
     w_pipelines (snd cw) = w_pipelines b \<and> list_all2 row_sim (w_runs (snd cw)) (w_runs b) \<and> cache_ok nl (snd cw) (fst cw)"

lemma lookup_identity_cong:
  assumes "list_all2 (\<lambda>a b. rr_ID a = rr_ID b \<and> rr_ProjectID a = rr_ProjectID b \<and> rr_PipelineID a = rr_PipelineID b)
      (w_runs w) (w_runs w')" "w_projects w = w_projects w'" "w_pipelines w = w_pipelines w'"
  shows "lookup_identity w i = lookup_identity w' i"
proof -
  have "rel_option (\<lambda>a b. rr_ProjectID a = rr_ProjectID b \<and> rr_PipelineID a = rr_PipelineID b)
      (find (\<lambda>r. rr_ID r = i) (w_runs w)) (find (\<lambda>r. rr_ID r = i) (w_runs w'))"
    using assms(1) by (induction rule: list_all2_induct) auto
  then show ?thesis using assms(2,3) unfolding lookup_identity_def
    by (cases rule: option.rel_cases) (simp_all add: run_identity_def)
qed

lemma own_name_sim:
  assumes "mirror_sim nl (c, a) b"
  shows "own_name nl a s = own_name nl b s"
proof -
  have "lookup_identity a i = lookup_identity b i" for i
    using assms by (intro lookup_identity_cong)
      (auto simp: mirror_sim_def row_sim_def mirrored_content_eq elim!: list_all2_mono)
  then show ?thesis by (simp add: own_name_def)
qed

lemma put_identity:
  "list_all2 (\<lambda>a b. rr_ID a = rr_ID b \<and> rr_ProjectID a = rr_ProjectID b \<and> rr_PipelineID a = rr_PipelineID b)
     rows (map (put i opts now) rows)"
  by (auto simp: list_all2_map2 put_def intro: list_all2_refl)

lemma own_name_put: "own_name nl (w\<lparr>w_runs := map (put i opts now) (w_runs w)\<rparr>) s = own_name nl w s"
proof -
  have "lookup_identity w j = lookup_identity (w\<lparr>w_runs := map (put i opts now) (w_runs w)\<rparr>) j" for j
    using put_identity by (intro lookup_identity_cong) auto
  then show ?thesis by (simp add: own_name_def)
qed

text \<open>A write to the rows of another run, or one that closes rows, leaves a cache entry right.\<close>

lemma entry_ok_put:
  assumes "entry_ok nl w k s" "rst_RunID s \<noteq> i \<or> uo_Phase opts \<in> set out_of_band"
  shows "entry_ok nl (w\<lparr>w_runs := map (put i opts now) (w_runs w)\<rparr>) k s"
proof -
  have "rr_Phase (put i opts now r) \<in> set out_of_band \<or> shows_status s (put i opts now r)"
    if "r \<in> set (w_runs w)" "rr_ID (put i opts now r) = rst_RunID s" for r
    using assms that by (auto simp: entry_ok_def put_def run_hit_def split: if_splits)
  then show ?thesis using assms(1) by (auto simp: entry_ok_def own_name_put)
qed

lemma entry_ok_new:
  assumes "own_name nl w s" "valid_uuid (rst_RunID s)" "rst_StageStatuses s \<noteq> Some []"
    "list_all (\<lambda>r. rr_ID r = rst_RunID s \<longrightarrow> rr_observed_rv r < rst_ResourceVersion s) (w_runs w)"
  shows "entry_ok nl (w\<lparr>w_runs := map (put (rst_RunID s) (status_opts s) now) (w_runs w)\<rparr>) (status_key s) s"
proof -
  have "rr_Phase (put (rst_RunID s) (status_opts s) now r) \<in> set out_of_band \<or>
      shows_status s (put (rst_RunID s) (status_opts s) now r)"
    if r: "r \<in> set (w_runs w)" "rr_ID r = rst_RunID s" for r
  proof (cases "rr_Phase r \<in> set out_of_band")
    case False
    then have "run_hit (rst_RunID s) (status_opts s) r"
      using r assms(4) by (auto simp: run_hit_def phase_guard_def status_opts_def list_all_iff)
    then show ?thesis by (simp add: put_def shows_set_phase)
  qed (auto simp: put_def run_hit_def phase_guard_def status_opts_def)
  moreover have "rr_ID (put i opts now r) = rr_ID r" for i opts r by (simp add: put_def)
  ultimately show ?thesis using assms by (auto simp: entry_ok_def own_name_put)
qed

lemma own_name_key:
  assumes "own_name nl w s" "own_name nl w s'" "rst_RunID s = rst_RunID s'"
  shows "status_key s = status_key s'"
  using assms by (auto simp: own_name_def status_key_def)

lemma put_no_hit: "\<not> list_ex (run_hit i opts) rows \<Longrightarrow> map (put i opts now) rows = rows"
  by (simp add: put_def list_ex_iff map_idI)

lemma mirror_sim_event_hit:
  assumes sim: "mirror_sim nl (c, a) b" and laws: "uuid_laws nl" and fresh: "fresh_op (Event s) b"
    and hit: "c (status_key s) = Some (prev, t)" "equalsForDB prev s"
  shows "mirror_sim nl (c, a) (snd (DBRunUpdater_Update nl s b))"
proof (cases "own_name nl b s")
  case True
  have e: "entry_ok nl a (status_key s) prev" using sim hit(1) unfolding mirror_sim_def by (auto dest: cache_okD)
  have own: "own_name nl a s" using True own_name_sim[OF sim] by simp
  have "rst_PipelineRunName prev = rst_PipelineRunName s" using e by (simp add: entry_ok_def status_key_def)
  then have i: "rst_RunID prev = rst_RunID s"
    using e own fresh PipelineRunName_unique[OF laws, of "rst_RunID prev" "rst_RunID s"]
    by (auto simp: entry_ok_def own_name_def)
  have seen: "rr_Phase r \<in> set out_of_band \<or> shows_status s r" if "r \<in> set (w_runs a)" "rr_ID r = rst_RunID s" for r
    using e i that hit(2) fresh equalsForDB_shows[of prev s r] by (auto simp: entry_ok_def)
  have "list_all2 row_sim (w_runs a) (map (put (rst_RunID s) (status_opts s) (w_now b)) (w_runs b))"
    unfolding list_all2_map2
  proof (rule list.rel_mono_strong)
    show "list_all2 row_sim (w_runs a) (w_runs b)" using sim by (simp add: mirror_sim_def)
    fix x y assume x: "x \<in> set (w_runs a)" and xy: "row_sim x y"
    then have "rr_ID x = rr_ID y" by (simp add: row_sim_def mirrored_content_eq)
    then show "row_sim x (put (rst_RunID s) (status_opts s) (w_now b) y)"
      using seen[OF x] by (intro row_sim_coalesced[OF xy]) simp
  qed
  then show ?thesis using sim True by (simp add: mirror_sim_def DBRun_calm)
qed (use sim in \<open>simp add: mirror_sim_def DBRun_calm\<close>)

lemma cache_ok_event:
  assumes ok: "cache_ok nl w c" and own: "own_name nl w s" and s: "valid_uuid (rst_RunID s)" "rst_StageStatuses s \<noteq> Some []"
    and fresh: "list_all (\<lambda>r. rr_ID r = rst_RunID s \<longrightarrow> rr_observed_rv r < rst_ResourceVersion s) (w_runs w)"
  shows "cache_ok nl (w\<lparr>w_runs := map (put (rst_RunID s) (status_opts s) now) (w_runs w)\<rparr>) (c(status_key s \<mapsto> (s, t)))"
proof (rule cache_okI)
  fix k s' t' assume entry: "(c(status_key s \<mapsto> (s, t))) k = Some (s', t')"
  show "entry_ok nl (w\<lparr>w_runs := map (put (rst_RunID s) (status_opts s) now) (w_runs w)\<rparr>) k s'"
  proof (cases "k = status_key s")
    case True
    then show ?thesis using entry entry_ok_new[OF own s fresh] by simp
  next
    case False
    then have e: "entry_ok nl w k s'" using entry by (auto intro: cache_okD[OF ok])
    then have "rst_RunID s' \<noteq> rst_RunID s" using False own own_name_key[of nl w s' s] by (auto simp: entry_ok_def)
    then show ?thesis using e by (intro entry_ok_put) auto
  qed
qed

lemma mirror_sim_event_miss:
  assumes sim: "mirror_sim nl (c, a) b" and fresh: "fresh_op (Event s) b"
    and miss: "\<not> (case c (status_key s) of None \<Rightarrow> False | Some (prev, _) \<Rightarrow> equalsForDB prev s)"
  shows "mirror_sim nl (snd (CoalescedUpdater_Update (DBRunUpdater_Update nl) c s a)) (snd (DBRunUpdater_Update nl s b))"
proof (cases "own_name nl a s")
  case True
  let ?i = "rst_RunID s" and ?o = "status_opts s"
  have ownb: "own_name nl b s" using True own_name_sim[OF sim] by simp
  have rows: "list_all2 row_sim (map (put ?i ?o (w_now a)) (w_runs a)) (map (put ?i ?o (w_now b)) (w_runs b))"
    unfolding list_all2_map1 list_all2_map2
  proof (rule list.rel_mono_strong)
    show "list_all2 row_sim (w_runs a) (w_runs b)" using sim by (simp add: mirror_sim_def)
    fix x y assume "y \<in> set (w_runs b)" "row_sim x y"
    then show "row_sim (put ?i ?o (w_now a) x) (put ?i ?o (w_now b) y)"
      using fresh by (intro row_sim_put) (auto simp: status_opts_def list_all_iff)
  qed
  have "rr_observed_rv r < rst_ResourceVersion s" if r: "r \<in> set (w_runs a)" "rr_ID r = ?i" for r
  proof -
    have "\<exists>y \<in> set (w_runs b). row_sim r y" using sim r(1) unfolding mirror_sim_def by (auto intro: list_all2_left)
    then show ?thesis using fresh r(2) by (auto simp: row_sim_def mirrored_content_eq list_all_iff)
  qed
  then have fresha: "list_all (\<lambda>r. rr_ID r = ?i \<longrightarrow> rr_observed_rv r < rst_ResourceVersion s) (w_runs a)"
    by (simp add: list_all_iff)
  have ok: "cache_ok nl a c" using sim by (simp add: mirror_sim_def)
  have calm: "w_fates a = []" using sim by (simp add: mirror_sim_def)
  show ?thesis
  proof (cases "list_ex (run_hit ?i ?o) (w_runs a)")
    case hit: True
    then have "snd (CoalescedUpdater_Update (DBRunUpdater_Update nl) c s a) =
        (c(status_key s \<mapsto> (s, w_now a)), a\<lparr>w_runs := map (put ?i ?o (w_now a)) (w_runs a)\<rparr>)"
      using miss True calm by (simp add: CoalescedUpdater_Update_def DBRun_calm)
    then show ?thesis
      using sim ownb rows cache_ok_event[OF ok True _ _ fresha, of "w_now a" "w_now a"] fresh
      by (simp add: mirror_sim_def DBRun_calm)
  next
    case False
    then have "snd (CoalescedUpdater_Update (DBRunUpdater_Update nl) c s a) = (c, a)"
      using miss True calm by (simp add: CoalescedUpdater_Update_def DBRun_calm put_no_hit)
    then show ?thesis using sim ownb rows False by (simp add: mirror_sim_def DBRun_calm put_no_hit)
  qed
next
  case False
  then have "snd (CoalescedUpdater_Update (DBRunUpdater_Update nl) c s a) = (c, a)" "\<not> own_name nl b s"
    using miss sim own_name_sim[OF sim] by (simp_all add: CoalescedUpdater_Update_def DBRun_calm mirror_sim_def)
  then show ?thesis using sim by (simp add: mirror_sim_def DBRun_calm)
qed

lemma mirror_sim_step:
  assumes sim: "mirror_sim nl (c, a) b" and laws: "uuid_laws nl" and fresh: "fresh_op x b"
  shows "mirror_sim nl (coalesced_step nl x (c, a)) (plain_step nl x b)"
proof (cases x)
  case (Event s)
  have route: "RoutingUpdater_Update nl s w = DBRunUpdater_Update nl s w" for w :: "'a world"
    using fresh Event by (simp add: RoutingUpdater_Update_def)
  have co: "CoalescedUpdater_Update (RoutingUpdater_Update nl) c s a = CoalescedUpdater_Update (DBRunUpdater_Update nl) c s a"
    by (simp add: CoalescedUpdater_Update_def route)
  show ?thesis
  proof (cases "case c (status_key s) of None \<Rightarrow> False | Some (prev, _) \<Rightarrow> equalsForDB prev s")
    case True
    then obtain prev t where "c (status_key s) = Some (prev, t)" "equalsForDB prev s" by (auto split: option.splits)
    then show ?thesis
      using mirror_sim_event_hit[OF sim laws fresh[unfolded Event]] Event co route
      by (simp add: CoalescedUpdater_Update_def)
  next
    case False
    then show ?thesis using mirror_sim_event_miss[OF sim fresh[unfolded Event] False] Event co route by simp
  qed
next
  case (Close i opts)
  have "cache_ok nl (a\<lparr>w_runs := map (put i opts (w_now a)) (w_runs a)\<rparr>) c"
    using sim fresh Close by (auto simp: mirror_sim_def intro!: cache_okI entry_ok_put dest: cache_okD)
  moreover have "list_all2 row_sim (map (put i opts (w_now a)) (w_runs a)) (map (put i opts (w_now b)) (w_runs b))"
    using sim fresh Close unfolding list_all2_map1 list_all2_map2
    by (auto simp: mirror_sim_def intro!: row_sim_put elim!: list_all2_mono)
  ultimately show ?thesis using sim Close by (simp add: mirror_sim_def close_run_def UpdateRunPhase_put)
next
  case (Drop key)
  then show ?thesis using sim
    by (auto simp: mirror_sim_def Forget_def intro!: cache_okI dest: cache_okD split: if_splits)
next
  case (Sweep age)
  have "cache_ok nl a (SweepOnce c (w_now a) age)"
  proof (rule cache_okI)
    fix k s t assume "SweepOnce c (w_now a) age k = Some (s, t)"
    then have "c k = Some (s, t)" by (auto simp: SweepOnce_def split: option.splits if_splits)
    then show "entry_ok nl a k s" using sim unfolding mirror_sim_def by (auto intro: cache_okD)
  qed
  then show ?thesis using sim Sweep by (simp add: mirror_sim_def)
next
  case (Tick t)
  have "lookup_identity (a\<lparr>w_now := t\<rparr>) i = lookup_identity a i" for i
    by (simp add: lookup_identity_def split: option.splits)
  then show ?thesis using sim Tick by (simp add: mirror_sim_def cache_ok_def entry_ok_def own_name_def)
qed

text \<open>C30. For every sequence of statuses of runs (no previews), cancels, expiries, informer deletions and janitor sweeps in
  which no call fails, no status has an empty list of stages in place of none, and the version of every status is larger
  than the one the table has of its run, the table that the coalescing updater leaves and the one that the updater
  alone would leave agree in every column but \<open>observed_rv\<close> and \<open>updated_at\<close>.\<close>

theorem coalescing_invisible:
  assumes "uuid_laws nl" "w_fates w = []" "never_stale nl ops w"
  shows "map mirrored_content (w_runs (snd (fold (coalesced_step nl) ops (Map.empty, w)))) =
         map mirrored_content (w_runs (fold (plain_step nl) ops w))"
proof -
  have "mirror_sim nl cw b \<Longrightarrow> never_stale nl ops b \<Longrightarrow>
      mirror_sim nl (fold (coalesced_step nl) ops cw) (fold (plain_step nl) ops b)" for cw and b :: "'a world"
  proof (induction ops arbitrary: cw b)
    case (Cons x ops)
    then show ?case using mirror_sim_step[OF _ assms(1), of "fst cw" "snd cw" b x] by simp
  qed simp
  moreover have "mirror_sim nl (Map.empty, w) w"
    using assms(2) by (auto simp: mirror_sim_def cache_ok_def row_sim_def intro: list_all2_refl)
  ultimately have "mirror_sim nl (fold (coalesced_step nl) ops (Map.empty, w)) (fold (plain_step nl) ops w)"
    using assms(3) by blast
  then have "list_all2 row_sim (w_runs (snd (fold (coalesced_step nl) ops (Map.empty, w)))) (w_runs (fold (plain_step nl) ops w))"
    by (simp add: mirror_sim_def)
  then show ?thesis by (induction rule: list_all2_induct) (simp_all add: row_sim_def)
qed

section \<open>A UUID library and concrete runs\<close>

fun hex_digits :: "nat \<Rightarrow> nat \<Rightarrow> string" where
  "hex_digits 0 i = []"
| "hex_digits (Suc n) i = hex_digits n (i div 16) @ [hex_digit (i mod 16)]"

definition uuid_text :: "uuid \<Rightarrow> string" where
  "uuid_text i =
     (let h = hex_digits 32 i in
      take 8 h @ ''-'' @ take 4 (drop 8 h) @ ''-'' @ take 4 (drop 12 h) @ ''-'' @ take 4 (drop 16 h) @ ''-'' @ drop 20 h)"

definition hex_val :: "char \<Rightarrow> nat" where
  "hex_val c = (let n = of_char c in if n < 97 then n - 48 else n - 87)"

definition uuid_read :: "string \<Rightarrow> uuid option" where
  "uuid_read s =
     (let v = fold (\<lambda>c v. 16 * v + hex_val c) (filter (\<lambda>c. c \<noteq> CHR ''-'') s) 0 in
      if uuid_text v = s then Some v else None)"

lemma hex_digit_facts:
  assumes "d < 16"
  shows "hex_val (hex_digit d) = d" "hex_digit d \<noteq> CHR ''-''"
proof -
  have n: "(of_char (hex_digit d) :: nat) = (if d < 10 then 48 + d else 87 + d)" using assms by (simp add: hex_digit_def)
  then show "hex_val (hex_digit d) = d" by (simp add: hex_val_def)
  show "hex_digit d \<noteq> CHR ''-''"
  proof
    assume "hex_digit d = CHR ''-''"
    then have "(of_char (hex_digit d) :: nat) = 45" by simp
    then show False using n by (simp split: if_splits)
  qed
qed

lemma length_hex_digits [simp]: "length (hex_digits n i) = n"
  by (induction n arbitrary: i) auto

lemma hex_digits_no_dash: "list_all (\<lambda>c. c \<noteq> CHR ''-'') (hex_digits n i)"
  by (induction n arbitrary: i) (simp_all add: hex_digit_facts)

lemma hex_digits_val: "i < 16 ^ n \<Longrightarrow> fold (\<lambda>c v. 16 * v + hex_val c) (hex_digits n i) 0 = i"
proof (induction n arbitrary: i)
  case (Suc n)
  then have "i div 16 < 16 ^ n" by (simp add: less_mult_imp_div_less mult.commute)
  then show ?case using Suc.IH[of "i div 16"] by (simp add: hex_digit_facts)
qed simp

lemma uuid_text_digits: "filter (\<lambda>c. c \<noteq> CHR ''-'') (uuid_text i) = hex_digits 32 i"
proof -
  obtain h where h: "h = hex_digits 32 i" by simp
  have clean: "list_all (\<lambda>c. c \<noteq> CHR ''-'') h" using hex_digits_no_dash h by simp
  then have parts: "filter (\<lambda>c. c \<noteq> CHR ''-'') (take m (drop n h)) = take m (drop n h)"
     "filter (\<lambda>c. c \<noteq> CHR ''-'') (take m h) = take m h" "filter (\<lambda>c. c \<noteq> CHR ''-'') (drop n h) = drop n h" for m n
    by (auto simp: filter_id_conv list_all_iff dest!: in_set_takeD in_set_dropD)
  have cut: "take 4 (drop 8 h) @ drop 12 h = drop 8 h" "take 4 (drop 12 h) @ drop 16 h = drop 12 h"
    "take 4 (drop 16 h) @ drop 20 h = drop 16 h"
    using append_take_drop_id[of 4 "drop 8 h"] append_take_drop_id[of 4 "drop 12 h"] append_take_drop_id[of 4 "drop 16 h"]
    by simp_all
  have "filter (\<lambda>c. c \<noteq> CHR ''-'') (uuid_text i) = take 8 h @ take 4 (drop 8 h) @ take 4 (drop 12 h) @ take 4 (drop 16 h) @ drop 20 h"
    by (simp add: uuid_text_def Let_def parts flip: h)
  also have "\<dots> = h" by (simp only: cut append_take_drop_id)
  finally show ?thesis using h by simp
qed

definition demo_names :: names_lib where
  "demo_names = \<lparr>nl_IsDNS1123Subdomain = (\<lambda>s. if length s \<le> 253 then [] else [''too long'']), nl_Sum256 = (\<lambda>_. ''0123''),
     nl_uuid_String = uuid_text, nl_uuid_Parse = uuid_read\<rparr>"

lemma demo_names_laws: "uuid_laws demo_names"
proof -
  have "length (uuid_text i) = 36" for i by (simp add: uuid_text_def Let_def)
  moreover have "uuid_read (uuid_text i) = Some i" if "valid_uuid i" for i
    using that[unfolded valid_uuid_def, simplified] hex_digits_val[of i 32] by (simp add: uuid_read_def uuid_text_digits Let_def)
  ultimately show ?thesis by (simp add: uuid_laws_def demo_names_def)
qed


definition demo_run :: run_row where
  "demo_run = \<lparr>rr_ID = 5, rr_ProjectID = 7, rr_PipelineID = 9, rr_Phase = ''Pending'', rr_CurrentStage = [], rr_Message = [],
     rr_StageStatuses = None, rr_StartedAt = None, rr_CompletedAt = None, rr_TriggeredBy = None, rr_CreatedAt = 0,
     rr_UpdatedAt = 0, rr_observed_rv = 0\<rparr>"

definition demo_world :: "grant list world" where
  "demo_world = \<lparr>w_runs = [demo_run],
     w_projects = [\<lparr>pj_ID = 7, pj_Name = ''p'', pj_K8sNamespace = ''datuplet-p'', pj_LakekeeperProjectID = ''lk''\<rparr>],
     w_pipelines = [\<lparr>pl_ID = 9, pl_ProjectID = 7, pl_Name = ''daily''\<rparr>],
     w_previews = [], w_run_tuples = [], w_apps = empty_app_db, w_namespaces = [''datuplet-p''], w_ns_objects = [], w_pipeline_crs = [], w_prs = [], w_secrets = [], w_pods = [], w_fga = [], w_now = 100, w_fates = []\<rparr>"

definition demo_status :: "string \<Rightarrow> int \<Rightarrow> run_status" where
  "demo_status phase rv = \<lparr>rst_RunID = 5, rst_PreviewID = 0, rst_Namespace = ''datuplet-p'',
     rst_PipelineRunName = ''daily-00000000-0000-0000-0000-000000000005'', rst_Phase = phase, rst_CurrentStage = ''load'',
     rst_Message = [], rst_StartedAt = Some 50, rst_CompletedAt = None, rst_ResourceVersion = rv, rst_StageStatuses = None\<rparr>"

definition demo_ops :: "mirror_op list" where
  "demo_ops = [Event (demo_status ''Running'' 10), Event (demo_status ''Running'' 20), Tick 200,
     Event (demo_status ''Succeeded'' 30)]"

definition demo_cluster_run :: cluster_run where
  "demo_cluster_run = \<lparr>pr_name = ''daily-00000000-0000-0000-0000-000000000005'', pr_namespace = ''datuplet-p'',
     pr_generation = 1, pr_annotations = [],
     pr_spec = \<lparr>rs_pipelineRef = ''daily'', rs_runID = ''00000000-0000-0000-0000-000000000005'', rs_runTokenRef = None,
       rs_pipelineSpec = None, rs_preview = None\<rparr>,
     pr_status = \<lparr>rn_phase = RunRunning, rn_runID = [], rn_currentStage = ''load'', rn_stages = [], rn_startTime = Some 50,
       rn_completionTime = None, rn_message = [], rn_observedGeneration = 0, rn_conditions = [], rn_pipelineGeneration = 0,
       rn_resolvedSpec = None, rn_resolved = []\<rparr>,
     cr_labels = [(''datuplet.io/run-id'', ''00000000-0000-0000-0000-000000000005'')], cr_rv = ''10'', cr_created = 40,
     cr_deleting = False\<rparr>"

text \<open>The run's own PipelineRun writes the row; the same object under another name does not.\<close>

theorem mirror_writes_own_row_witness:
  "list_all2 (\<lambda>r r'. r' = r \<or> mirrored demo_names demo_world (Inr demo_cluster_run) r r') (w_runs demo_world)
     (w_runs (snd (snd (reconcileOne demo_names (\<lambda>_. None) Map.empty (Inr demo_cluster_run) demo_world)))) \<and>
   map rr_Phase (w_runs (snd (snd (reconcileOne demo_names (\<lambda>_. None) Map.empty (Inr demo_cluster_run) demo_world)))) =
     [''Running''] \<and>
   map rr_Phase (w_runs (snd (snd (reconcileOne demo_names (\<lambda>_. None) Map.empty
     (Inr (demo_cluster_run\<lparr>pr_name := ''decoy''\<rparr>)) demo_world)))) = [''Pending'']"
proof (intro conjI)
  show "list_all2 (\<lambda>r r'. r' = r \<or> mirrored demo_names demo_world (Inr demo_cluster_run) r r') (w_runs demo_world)
     (w_runs (snd (snd (reconcileOne demo_names (\<lambda>_. None) Map.empty (Inr demo_cluster_run) demo_world))))"
    by (rule mirror_writes_own_row[OF prod.collapse[symmetric, THEN trans, OF
            arg_cong2[where f = Pair, OF refl prod.collapse[symmetric]]]])
      (simp add: demo_world_def)
  show "map rr_Phase (w_runs (snd (snd (reconcileOne demo_names (\<lambda>_. None) Map.empty (Inr demo_cluster_run) demo_world)))) =
     [''Running'']" by code_simp
  show "map rr_Phase (w_runs (snd (snd (reconcileOne demo_names (\<lambda>_. None) Map.empty
     (Inr (demo_cluster_run\<lparr>pr_name := ''decoy''\<rparr>)) demo_world)))) = [''Pending'']" by code_simp
qed

theorem coalescing_invisible_witness:
  "map mirrored_content (w_runs (snd (fold (coalesced_step demo_names) demo_ops (Map.empty, demo_world)))) =
   map mirrored_content (w_runs (fold (plain_step demo_names) demo_ops demo_world)) \<and>
   map rr_Phase (w_runs (fold (plain_step demo_names) demo_ops demo_world)) = [''Succeeded'']"
proof
  have "w_fates demo_world = []" by (simp add: demo_world_def)
  moreover have "never_stale demo_names demo_ops demo_world" by code_simp
  ultimately show "map mirrored_content (w_runs (snd (fold (coalesced_step demo_names) demo_ops (Map.empty, demo_world)))) =
      map mirrored_content (w_runs (fold (plain_step demo_names) demo_ops demo_world))"
    by (rule coalescing_invisible[OF demo_names_laws])
  show "map rr_Phase (w_runs (fold (plain_step demo_names) demo_ops demo_world)) = [''Succeeded'']" by code_simp
qed

text \<open>What coalescing does cost: a dropped status does not move \<open>observed_rv\<close>, so that a status older than the dropped one,
  which the guard of the statement would refuse, is written.\<close>

lemma coalescing_weakens_guard:
  "map rr_Phase (w_runs (fold (plain_step demo_names)
     [Event (demo_status ''Running'' 10), Event (demo_status ''Running'' 30), Event (demo_status ''Pending'' 20)] demo_world)) =
     [''Running'']"
  "map rr_Phase (w_runs (snd (fold (coalesced_step demo_names)
     [Event (demo_status ''Running'' 10), Event (demo_status ''Running'' 30), Event (demo_status ''Pending'' 20)]
     (Map.empty, demo_world)))) = [''Pending'']"
  by code_simp+

end
