(* ===== verification/Run_Grants.thy ===== *)
theory Run_Grants
  imports Run_Reaper Run_Mirror_Facts
begin

text \<open>
  The grants of runs: every grant a trigger has written is recorded in a breadcrumb row until it has been withdrawn,
  whatever crashes, and the reaper's sweep withdraws exactly the grants of finished and abandoned runs.
\<close>

section \<open>Computations that leave grants and breadcrumbs alone\<close>

definition frames :: "('f, 'a) io \<Rightarrow> bool" where
  "frames m \<longleftrightarrow> (\<forall>s rows. keeps (\<lambda>w. w_fga w = s \<and> w_run_tuples w = rows) m)"

lemma framesI: "(\<And>s rows. keeps (\<lambda>w. w_fga w = s \<and> w_run_tuples w = rows) m) \<Longrightarrow> frames m"
  by (simp add: frames_def)

lemma framesD: "frames m \<Longrightarrow> w_fga (snd (m w)) = w_fga w \<and> w_run_tuples (snd (m w)) = w_run_tuples w"
  unfolding frames_def by (rule keepsD) auto

text \<open>A predicate about the grants and the breadcrumbs only.\<close>

definition grants_only :: "('f world \<Rightarrow> bool) \<Rightarrow> bool" where
  "grants_only I \<longleftrightarrow> (\<forall>w w'. w_fga w = w_fga w' \<and> w_run_tuples w = w_run_tuples w' \<longrightarrow> I w = I w')"

lemma frames_keeps: "frames m \<Longrightarrow> grants_only I \<Longrightarrow> keeps I m"
  unfolding keeps_def grants_only_def by (metis framesD)

lemma frames_after: "frames m \<Longrightarrow> (\<And>r. frames (k r)) \<Longrightarrow> frames (after m k)"
  unfolding frames_def by (auto intro: keeps_after)

lemma frames_attempt: "frames m \<Longrightarrow> (\<And>x. frames (k x)) \<Longrightarrow> frames (attempt m wrap k)"
  unfolding frames_def by (auto intro: keeps_attempt)

lemma frames_ignoring: "frames m \<Longrightarrow> frames k \<Longrightarrow> frames (ignoring m k)"
  unfolding frames_def by (auto intro: keeps_ignoring)

lemma frames_return: "frames (return x)" and frames_throw: "frames (throw e)" and frames_query: "frames (query g)"
  unfolding frames_def by (auto intro: keeps_intros)

lemma frames_panic: "frames panic"
  unfolding frames_def by (auto intro: keeps_panic)

lemma frames_io:
  assumes "\<And>w. w_fga (snd (f w)) = w_fga w \<and> w_run_tuples (snd (f w)) = w_run_tuples w"
  shows "frames (io f)"
  unfolding frames_def using assms by (auto intro: keeps_io)

lemmas frames_intros = frames_after frames_attempt frames_ignoring frames_return frames_throw frames_query frames_io

lemma frames_if: "frames m \<Longrightarrow> frames n \<Longrightarrow> frames (if b then m else n)"
  by simp

lemma frames_with_now: "(\<And>t. frames (k t)) \<Longrightarrow> frames (with_now k)"
  unfolding frames_def by (auto intro: keeps_with_now)

lemma frames_update_run_phase: "frames (update_run_phase i opts)"
  unfolding update_run_phase_def by (rule frames_io) (simp split: prod.splits)

lemma frames_create_run: "frames (create_run opts)"
  unfolding create_run_def by (rule frames_io) (simp split: prod.splits sum.splits)

lemma frames_MarkFailed: "frames (MarkFailed i e)"
  unfolding MarkFailed_def by (intro frames_intros frames_update_run_phase)

lemma frames_cluster:
  "frames (create_pr pr)" "frames (delete_pr ns name)" "frames (get_pr ns name)" "frames (create_secret s)"
  "frames (own_secret ns name owner)" "frames (delete_secret ns name)" "frames (patch_pod ns name)"
  "frames (get_cr ns name)" "frames (create_cr ns p)" "frames (update_cr ns p)" "frames (get_project i)"
  unfolding create_pr_def delete_pr_def get_pr_def create_secret_def own_secret_def delete_secret_def patch_pod_def
    get_cr_def create_cr_def update_cr_def get_project_def
  by (auto intro!: frames_io frames_query)

lemma frames_CreateRunResources: "frames (CreateRunResources nl rv c now)"
  unfolding CreateRunResources_def Let_def by (intro frames_if frames_intros frames_cluster)

lemma frames_ensure: "frames (ensure_in_namespace kind ns name x)" "frames (ensureNamespace name)"
  unfolding ensure_in_namespace_def ensureNamespace_def ensure_object_def
  by (auto intro!: frames_after frames_return frames_throw frames_query frames_io split: sum.splits)

lemma frames_EnsureProjectNamespace: "frames (EnsureProjectNamespace nl saNS i)"
  unfolding EnsureProjectNamespace_def ensureSecretsRBAC_def ensureSecretRole_def ensureRole_def ensureRoleBinding_def
    EnsureProjectLimitRange_def
  by (intro frames_attempt frames_ensure)

lemma frames_ApplyPipelineCRD: "frames (ApplyPipelineCRD lib ns d)"
  unfolding ApplyPipelineCRD_def Let_def
  by (auto intro!: frames_after frames_attempt frames_return frames_throw frames_panic frames_cluster
      split: option.splits sum.splits)

lemma frames_DBRunUpdater: "frames (DBRunUpdater_Update nl s)"
  unfolding DBRunUpdater_Update_def
  by (auto intro!: frames_after frames_attempt frames_return frames_throw frames_query frames_update_run_phase
      split: option.splits sum.splits)

lemma frames_DBPreviewUpdater: "frames (DBPreviewUpdater_Update nl s)"
  unfolding DBPreviewUpdater_Update_def
  by (auto intro!: frames_after frames_return frames_throw frames_query frames_io split: sum.splits prod.splits)

lemma frames_for_each: "(\<And>x. frames (f x)) \<Longrightarrow> frames k \<Longrightarrow> frames (for_each f xs k)"
  by (induction xs) (auto intro: frames_ignoring)

lemma frames_patch_pods: "frames (patch_pods ns ps)"
  by (induction ps) (auto intro: frames_ignoring frames_return frames_cluster)

lemma frames_annotate: "frames (annotateRunPodsCancelled ns i)"
  unfolding annotateRunPodsCancelled_def
  by (auto intro!: frames_after frames_query frames_return frames_patch_pods split: sum.splits)

lemma frames_mark_cancelled: "frames (mark_cancelled i b)"
  unfolding mark_cancelled_def
  by (auto intro!: frames_return frames_attempt frames_update_run_phase frames_with_now)

lemma frames_ReapOnce: "frames (ReapOnce nl maxAge (Some (DBRunUpdater_Update nl)))"
proof -
  have run: "frames (reap_run nl (Some (DBRunUpdater_Update nl)) maxAge cutoff pr)" for cutoff pr
    unfolding reap_run_def mark_expired_def
    by (auto intro!: frames_after frames_return frames_cluster frames_ignoring frames_DBRunUpdater frames_with_now
        split: sum.splits option.splits)
  have ns: "frames (reap_namespace cutoff ns)" for cutoff ns
    unfolding reap_namespace_def reap_secret_def
    by (auto intro!: frames_after frames_query frames_return frames_for_each frames_cluster split: sum.splits)
  have secrets: "frames (reapOrphanSecrets cutoff)" for cutoff
    unfolding reapOrphanSecrets_def by (intro frames_attempt frames_query frames_for_each frames_return ns)
  show ?thesis unfolding ReapOnce_def
    by (intro frames_if frames_throw frames_attempt frames_query frames_with_now frames_for_each frames_ignoring
        frames_return run secrets)
qed

section \<open>Every grant is recorded\<close>

definition recorded :: "run_tuples_row list \<Rightarrow> grant set" where
  "recorded rows = (\<Union>r \<in> set rows. set (rt_Tuples r))"

text \<open>\<open>others\<close> are the grants that are not the business of runs: of users, apps and previews.\<close>

definition tracked :: "('f \<Rightarrow> grant set) \<Rightarrow> grant set \<Rightarrow> 'f world \<Rightarrow> bool" where
  "tracked granted others w \<longleftrightarrow>
     granted (w_fga w) \<subseteq> others \<union> recorded (w_run_tuples w) \<and>
     distinct (map rt_RunID (w_run_tuples w)) \<and> list_all (\<lambda>r. length (rt_Tuples r) \<le> 1) (w_run_tuples w)"

lemma tracked_grants_only: "grants_only (tracked granted others)"
  by (simp add: grants_only_def tracked_def)

lemmas frames_tracked = frames_keeps[OF _ tracked_grants_only]

text \<open>Between the breadcrumb and the grant: run \<open>i\<close> is recorded and nothing else counts on its row.\<close>

definition armed :: "('f \<Rightarrow> grant set) \<Rightarrow> grant set \<Rightarrow> uuid \<Rightarrow> grant \<Rightarrow> 'f world \<Rightarrow> bool" where
  "armed granted others i g w \<longleftrightarrow>
     tracked granted others w \<and> g \<in> recorded (w_run_tuples w) \<and>
     granted (w_fga w) \<subseteq> others \<union> recorded (filter (\<lambda>r. rt_RunID r \<noteq> i) (w_run_tuples w))"

lemma recorded_append [simp]: "recorded (xs @ ys) = recorded xs \<union> recorded ys"
  and recorded_Cons [simp]: "recorded (r # xs) = set (rt_Tuples r) \<union> recorded xs"
  and recorded_Nil [simp]: "recorded [] = {}"
  by (auto simp: recorded_def)

lemma recorded_filter: "recorded (filter P rows) \<subseteq> recorded rows"
  by (auto simp: recorded_def)

lemma tracked_fates [simp]: "tracked granted others (w\<lparr>w_fates := fs\<rparr>) = tracked granted others w"
  by (simp add: tracked_def)

lemma armed_fates [simp]: "armed granted others i g (w\<lparr>w_fates := fs\<rparr>) = armed granted others i g w"
  by (simp add: armed_def)

lemma distinct_filter_ids: "distinct (map rt_RunID rows) \<Longrightarrow> distinct (map rt_RunID (filter P rows))"
  by (induction rows) auto

lemma tracked_drop:
  assumes "tracked granted others w"
    "granted (w_fga w) \<subseteq> others \<union> recorded (filter (\<lambda>r. rt_RunID r \<noteq> i) (w_run_tuples w))"
  shows "tracked granted others (w\<lparr>w_run_tuples := filter (\<lambda>r. rt_RunID r \<noteq> i) (w_run_tuples w)\<rparr>)"
  using assms by (auto simp: tracked_def distinct_filter_ids list_all_iff)

lemma MarkRunTuplesCommitted_tracked: "keeps (tracked granted others) (MarkRunTuplesCommitted i)"
proof -
  have rec: "recorded (map (\<lambda>r. if rt_RunID r = i then r\<lparr>rt_Committed := True\<rparr> else r) rows) = recorded rows" for rows
    by (induction rows) auto
  have ids: "map rt_RunID (map (\<lambda>r. if rt_RunID r = i then r\<lparr>rt_Committed := True\<rparr> else r) rows) = map rt_RunID rows" for rows
    by (induction rows) auto
  show ?thesis unfolding MarkRunTuplesCommitted_def
    by (rule keeps_io) (auto simp: tracked_def rec ids list_all_iff simp del: map_map)
qed

lemma start_run_tracked: "keeps (tracked granted others) (start_run b rv req i ns project wh rec)"
  unfolding start_run_def
  by (auto intro!: keeps_attempt keeps_with_now keeps_after keeps_ignoring keeps_return MarkRunTuplesCommitted_tracked
      frames_tracked[OF frames_create_run] frames_tracked[OF frames_MarkFailed]
      frames_tracked[OF frames_CreateRunResources] split: sum.splits)

section \<open>The trigger\<close>

lemma fga_io_world:
  "(\<exists>fs. snd (fga_io f w) = w\<lparr>w_fates := fs\<rparr> \<and> fst (fga_io f w) = Crashed) \<or>
   (\<exists>fs. snd (fga_io f w) = w\<lparr>w_fga := snd (f (w_fga w)), w_fates := fs\<rparr> \<and> fst (fga_io f w) = as_res (fst (f (w_fga w))))"
proof (cases "\<exists>fs. w_fates w = Die # fs")
  case True
  then show ?thesis by (auto simp: fga_io_def)
next
  case False
  then have "fga_io f w = (as_res (fst (f (w_fga w))), w\<lparr>w_fga := snd (f (w_fga w)), w_fates := tl (w_fates w)\<rparr>)"
    by (cases "w_fates w"; cases "hd (w_fates w)") (simp_all add: fga_io_def split: prod.splits)
  then show ?thesis by auto
qed

lemma DeleteRunTuples_world:
  "\<exists>fs. snd (DeleteRunTuples i w) = w\<lparr>w_fates := fs\<rparr> \<or>
     snd (DeleteRunTuples i w) = w\<lparr>w_fates := fs, w_run_tuples := filter (\<lambda>r. rt_RunID r \<noteq> i) (w_run_tuples w)\<rparr>"
  using io_world[of "\<lambda>w. (Inr (), w\<lparr>w_run_tuples := filter (\<lambda>r. rt_RunID r \<noteq> i) (w_run_tuples w)\<rparr>)" w]
  unfolding DeleteRunTuples_def by simp

lemma DeleteRunTuples_tracked:
  assumes "tracked granted others w"
    "granted (w_fga w) \<subseteq> others \<union> recorded (filter (\<lambda>r. rt_RunID r \<noteq> i) (w_run_tuples w))"
  shows "tracked granted others (snd (DeleteRunTuples i w))"
proof -
  obtain fs where fs: "snd (DeleteRunTuples i w) = w\<lparr>w_fates := fs\<rparr> \<or>
     snd (DeleteRunTuples i w) = w\<lparr>w_fates := fs, w_run_tuples := filter (\<lambda>r. rt_RunID r \<noteq> i) (w_run_tuples w)\<rparr>"
    using DeleteRunTuples_world by blast
  have "tracked granted others (w\<lparr>w_fates := fs, w_run_tuples := filter (\<lambda>r. rt_RunID r \<noteq> i) (w_run_tuples w)\<rparr>)"
    using tracked_drop[OF assms] by (simp add: tracked_def)
  with fs assms(1) show ?thesis by (elim disjE) simp_all
qed

lemma write_grant_tracked:
  assumes cert: "certain_authorizer a granted" and authz: "bk_authz b = Some a"
    and k: "keeps (tracked granted others) k"
    and armed: "armed granted others i (wire t) w"
  shows "tracked granted others (snd (write_grant b i [t] k w))"
proof -
  let ?m = "fga_io (az_Write a [t])"
  have tr: "tracked granted others w" using armed by (simp add: armed_def)
  consider (crash) fs where "snd (?m w) = w\<lparr>w_fates := fs\<rparr>" "fst (?m w) = Crashed"
    | (run) fs where "snd (?m w) = w\<lparr>w_fga := snd (az_Write a [t] (w_fga w)), w_fates := fs\<rparr>"
        "fst (?m w) = as_res (fst (az_Write a [t] (w_fga w)))"
    using fga_io_world[of "az_Write a [t]" w] by blast
  then show ?thesis
  proof cases
    case crash
    then show ?thesis using authz tr by (simp add: write_grant_def after_result)
  next
    case (run fs)
    let ?w = "w\<lparr>w_fga := snd (az_Write a [t] (w_fga w)), w_fates := fs\<rparr>"
    show ?thesis
    proof (cases "fst (az_Write a [t] (w_fga w))")
      case (Inr u)
      then have "granted (w_fga ?w) = granted (w_fga w) \<union> {wire t}"
        using certain_authorizer.write_exact[OF cert, of "[t]" "w_fga w"] by simp
      then have "tracked granted others ?w" using armed by (auto simp: armed_def tracked_def)
      then show ?thesis using run Inr authz keepsD[OF k] by (simp add: write_grant_def after_result)
    next
      case (Inl e)
      then have same: "granted (w_fga ?w) = granted (w_fga w)"
        using certain_authorizer.write_exact[OF cert, of "[t]" "w_fga w"] by simp
      have "tracked granted others (snd (DeleteRunTuples i ?w))"
        using armed same by (intro DeleteRunTuples_tracked) (auto simp: armed_def tracked_def)
      then show ?thesis using run Inl authz by (simp add: write_grant_def after_result ignoring_last)
    qed
  qed
qed

lemma armed_after_record:
  assumes "tracked granted others w" "i \<notin> set (map rt_RunID (w_run_tuples w))"
  shows "armed granted others i (wire t)
     (w\<lparr>w_run_tuples := w_run_tuples w @
        [\<lparr>rt_RunID = i, rt_Tuples = encodeAuthzTuples [t], rt_Committed = c, rt_CreatedAt = now\<rparr>]\<rparr>)"
proof -
  have "filter (\<lambda>r. rt_RunID r \<noteq> i) (w_run_tuples w) = w_run_tuples w" using assms(2) by (auto simp: filter_id_conv)
  then show ?thesis using assms by (auto simp: armed_def tracked_def encodeAuthzTuples_def)
qed

text \<open>Recording the intent: whatever happens the grants stay tracked, and a return leaves the run armed.\<close>

lemma RecordRunTuples_world:
  "\<exists>fs. snd (RecordRunTuples i ts w) = w\<lparr>w_fates := fs\<rparr> \<and> (\<forall>x. fst (RecordRunTuples i ts w) \<noteq> Ret x) \<or>
     i \<notin> set (map rt_RunID (w_run_tuples w)) \<and>
     snd (RecordRunTuples i ts w) = w\<lparr>w_run_tuples := w_run_tuples w @
       [\<lparr>rt_RunID = i, rt_Tuples = encodeAuthzTuples ts, rt_Committed = False, rt_CreatedAt = w_now w\<rparr>], w_fates := fs\<rparr>"
proof (cases "w_fates w")
  case Nil
  then show ?thesis by (intro exI[of _ "[]"]) (auto simp: RecordRunTuples_def calm_world)
next
  case (Cons x fs)
  then show ?thesis by (intro exI[of _ fs]; cases x) (auto simp: RecordRunTuples_def io_def)
qed

lemma RecordRunTuples_tracked:
  assumes "tracked granted others w"
  shows "tracked granted others (snd (RecordRunTuples i [t] w))"
    "fst (RecordRunTuples i [t] w) = Ret x \<Longrightarrow> armed granted others i (wire t) (snd (RecordRunTuples i [t] w))"
proof -
  obtain fs where fs: "snd (RecordRunTuples i [t] w) = w\<lparr>w_fates := fs\<rparr> \<and> (\<forall>x. fst (RecordRunTuples i [t] w) \<noteq> Ret x) \<or>
     i \<notin> set (map rt_RunID (w_run_tuples w)) \<and>
     snd (RecordRunTuples i [t] w) = w\<lparr>w_run_tuples := w_run_tuples w @
       [\<lparr>rt_RunID = i, rt_Tuples = encodeAuthzTuples [t], rt_Committed = False, rt_CreatedAt = w_now w\<rparr>], w_fates := fs\<rparr>"
    using RecordRunTuples_world by blast
  have arm: "armed granted others i (wire t) ((w\<lparr>w_run_tuples := w_run_tuples w @
       [\<lparr>rt_RunID = i, rt_Tuples = encodeAuthzTuples [t], rt_Committed = False, rt_CreatedAt = w_now w\<rparr>]\<rparr>)\<lparr>w_fates := fs\<rparr>)"
    if "i \<notin> set (map rt_RunID (w_run_tuples w))"
    unfolding armed_fates by (rule armed_after_record[OF assms that])
  then show "tracked granted others (snd (RecordRunTuples i [t] w))"
    using fs assms by (elim disjE conjE) (simp, simp add: armed_def)
  show "fst (RecordRunTuples i [t] w) = Ret x \<Longrightarrow> armed granted others i (wire t) (snd (RecordRunTuples i [t] w))"
    using fs arm by (elim disjE conjE) simp_all
qed

lemma buildRunTuples_cases: "buildRunTuples u p d = [] \<or> (\<exists>t. buildRunTuples u p d = [t])"
  by (simp add: buildRunTuples_def Let_def)

lemma TriggerRun_tracked:
  assumes cert: "certain_authorizer a granted" and authz: "bk_authz b = Some a"
  shows "keeps (tracked granted others) (TriggerRun b rv i req)"
proof -
  have grant: "keeps (tracked granted others) (if ts \<noteq> []
      then attempt (RecordRunTuples i ts) wrap (\<lambda>_. write_grant b i ts k) else write_grant b i ts k)"
    if ts: "ts = [] \<or> (\<exists>t. ts = [t])" and k: "keeps (tracked granted others) k" for ts wrap and k :: "('a, uuid \<times> string) io"
  proof (cases "ts = []")
    case True
    then show ?thesis using k authz by (simp add: write_grant_def)
  next
    case False
    then obtain t where t: "ts = [t]" using ts by blast
    show ?thesis unfolding keeps_def
    proof (intro allI impI)
      fix w :: "'a world" assume tr: "tracked granted others w"
      note rec = RecordRunTuples_tracked[OF tr, of i t]
      show "tracked granted others (snd ((if ts \<noteq> []
          then attempt (RecordRunTuples i ts) wrap (\<lambda>_. write_grant b i ts k) else write_grant b i ts k) w))"
      proof (cases "fst (RecordRunTuples i [t] w)")
        case (Ret x)
        then show ?thesis using t write_grant_tracked[OF cert authz k rec(2)[OF Ret]] by (simp add: attempt_result)
      next
        case (Err e)
        then show ?thesis using t rec(1) by (simp add: attempt_result)
      next
        case Crashed
        then show ?thesis using t rec(1) by (simp add: attempt_result)
      qed
    qed
  qed
  show ?thesis unfolding TriggerRun_def Ensure_def trigger_in_def Let_def
    by (intro keeps_attempt frames_tracked[OF frames_cluster(11)] frames_tracked[OF frames_EnsureProjectNamespace]
        frames_tracked[OF frames_ApplyPipelineCRD] keeps_case_sum keeps_throw keeps_return
        grant[OF buildRunTuples_cases start_run_tracked])
qed

section \<open>Withdrawing a grant\<close>

lemma ParseObject_Inr: "ParseObject s = Inr ob \<Longrightarrow> Object_String ob = s"
proof -
  assume p: "ParseObject s = Inr ob"
  let ?k = "takeWhile (\<lambda>c. c \<noteq> CHR '':'') s" and ?r = "dropWhile (\<lambda>c. c \<noteq> CHR '':'') s"
  have r: "?r \<noteq> []" and ob: "ob = \<lparr>ob_kind = ?k, ob_id = tl ?r\<rparr>"
    using p by (auto simp: ParseObject_def Let_def split: if_splits)
  have "hd ?r = CHR '':''" using r hd_dropWhile by blast
  then have "CHR '':'' # tl ?r = ?r" using r by (metis list.collapse)
  then show ?thesis using ob by (simp add: Object_String_def)
qed

lemma decode_wire: "decodeAuthzTuples gs = Inr ts \<Longrightarrow> map wire ts = gs"
proof (induction gs arbitrary: ts)
  case (Cons g gs)
  obtain u r s where g: "g = (u, r, s)" by (cases g)
  show ?case using Cons
    by (auto simp: g decode_tuple_def wire_def dest: ParseObject_Inr split: sum.splits)
qed simp

definition row_is :: "uuid \<Rightarrow> tuple list \<Rightarrow> 'f world \<Rightarrow> bool" where
  "row_is i ts w \<longleftrightarrow> (\<forall>r \<in> set (w_run_tuples w). rt_RunID r = i \<longrightarrow> rt_Tuples r = map wire ts)"

lemma row_is_fates [simp]: "row_is i ts (w\<lparr>w_fates := fs\<rparr>) = row_is i ts w"
  by (simp add: row_is_def)

lemma recorded_others:
  assumes "row_is i ts w"
  shows "recorded (w_run_tuples w) \<subseteq> recorded (filter (\<lambda>r. rt_RunID r \<noteq> i) (w_run_tuples w)) \<union> wire ` set ts"
  using assms by (auto simp: row_is_def recorded_def)

lemma drop_withdrawn:
  assumes "tracked granted others w" "row_is i ts w" "granted (w_fga w) \<inter> wire ` set ts = {}"
  shows "tracked granted others (snd (DeleteRunTuples i w))"
  using assms(1) recorded_others[OF assms(2)] assms(3)
  by (intro DeleteRunTuples_tracked) (auto simp: tracked_def)

lemma tracked_shrink:
  assumes "tracked granted others w" "granted s \<subseteq> granted (w_fga w)"
  shows "tracked granted others (w\<lparr>w_fga := s, w_fates := fs\<rparr>)"
  using assms by (auto simp: tracked_def)

text \<open>The two clean-ups: ask the authorizer to delete, and drop the row only when the tuples are known to be gone.\<close>

lemma withdraw_tracked:
  assumes au: "authorizer a granted" and tr: "tracked granted others w" and row: "row_is i ts w"
    and gone: "\<And>e s. az_Delete a ts (w_fga w) = (Inl e, s) \<Longrightarrow> drop_on e \<Longrightarrow> granted s \<inter> wire ` set ts = {}"
    and k: "\<And>w. snd (k w) = snd (DeleteRunTuples i w)"
  shows "tracked granted others (snd (after (fga_io (az_Delete a ts)) (\<lambda>r. case r of
      Inl e \<Rightarrow> if drop_on e then k else return () | Inr _ \<Rightarrow> k) w))"
proof -
  let ?m = "fga_io (az_Delete a ts)"
  consider (crash) fs where "snd (?m w) = w\<lparr>w_fates := fs\<rparr>" "fst (?m w) = Crashed"
    | (run) fs where "snd (?m w) = w\<lparr>w_fga := snd (az_Delete a ts (w_fga w)), w_fates := fs\<rparr>"
        "fst (?m w) = as_res (fst (az_Delete a ts (w_fga w)))"
    using fga_io_world[of "az_Delete a ts" w] by blast
  then show ?thesis
  proof cases
    case crash
    then show ?thesis using tr by (simp add: after_result)
  next
    case (run fs)
    let ?s = "snd (az_Delete a ts (w_fga w))"
    let ?w = "w\<lparr>w_fga := ?s, w_fates := fs\<rparr>"
    have shrink: "tracked granted others ?w"
      using authorizer.delete_bounds[OF au, of "w_fga w" ts] by (intro tracked_shrink[OF tr]) blast
    have row': "row_is i ts ?w" using row by (simp add: row_is_def)
    have drop: "tracked granted others (snd (DeleteRunTuples i ?w))" if "granted ?s \<inter> wire ` set ts = {}"
      using that by (intro drop_withdrawn[OF shrink row']) simp
    show ?thesis
    proof (cases "fst (az_Delete a ts (w_fga w))")
      case (Inr u)
      then have "az_Delete a ts (w_fga w) = (Inr (), ?s)" by (simp add: prod_eq_iff)
      from authorizer.delete_ok[OF au this] have "granted ?s \<inter> wire ` set ts = {}" by auto
      then show ?thesis using run Inr drop by (simp add: after_result k)
    next
      case (Inl e)
      then have call: "az_Delete a ts (w_fga w) = (Inl e, ?s)" by (simp add: prod_eq_iff)
      show ?thesis
      proof (cases "drop_on e")
        case True
        then show ?thesis using run Inl drop[OF gone[OF call True]] by (simp add: after_result k)
      next
        case False
        then show ?thesis using run Inl shrink by (simp add: after_result return_def)
      qed
    qed
  qed
qed

lemma find_row_is:
  assumes "find (\<lambda>r. rt_RunID r = i) (w_run_tuples w) = Some r" "distinct (map rt_RunID (w_run_tuples w))"
    "rt_Tuples r = map wire ts"
  shows "row_is i ts w"
proof -
  have r: "r \<in> set (w_run_tuples w)" "rt_RunID r = i" using assms(1) by (auto simp: find_Some_iff in_set_conv_nth)
  then have "r' = r" if "r' \<in> set (w_run_tuples w)" "rt_RunID r' = i" for r'
    using that assms(2) by (auto simp: distinct_map dest: inj_onD)
  then show ?thesis using assms(3) by (auto simp: row_is_def)
qed

lemma drop_untupled:
  assumes "tracked granted others w" "row_is i [] w"
  shows "tracked granted others (snd (DeleteRunTuples i w))"
  using drop_withdrawn[OF assms] by simp

lemma cleanupRunTuples_tracked:
  assumes au: "authorizer a granted" and authz: "bk_authz b = Some a"
  shows "keeps (tracked granted others) (cleanupRunTuples b i)"
  unfolding keeps_def
proof (intro allI impI)
  fix w :: "'a world" assume tr: "tracked granted others w"
  let ?q = "\<lambda>w. case find (\<lambda>r. rt_RunID r = i) (w_run_tuples w) of
         None \<Rightarrow> Inr None
       | Some r \<Rightarrow>
           (case decodeAuthzTuples (rt_Tuples r) of
              Inl e \<Rightarrow> Inl (ErrWrap ''GetRunTuples: decode'' e)
            | Inr ts \<Rightarrow> Inr (Some ts))"
  have same: "?q (w\<lparr>w_fates := fs\<rparr>) = ?q w" for fs by simp
  have get: "GetRunTuples i = query ?q" by (simp add: GetRunTuples_def)
  from same show "tracked granted others (snd (cleanupRunTuples b i w))"
  proof (cases rule: query_outcome)
    case (ret x fs)
    show ?thesis
    proof (cases x)
      case None
      then show ?thesis using ret(2) tr unfolding cleanupRunTuples_def get by (simp add: after_simps return_def)
    next
      case (Some ts)
      obtain r where r: "find (\<lambda>r. rt_RunID r = i) (w_run_tuples w) = Some r" "decodeAuthzTuples (rt_Tuples r) = Inr ts"
        using ret(1) Some by (auto split: option.splits sum.splits)
      have row: "row_is i ts (w\<lparr>w_fates := fs\<rparr>)"
        using find_row_is[OF r(1)] decode_wire[OF r(2)] tr by (simp add: tracked_def)
      have tr': "tracked granted others (w\<lparr>w_fates := fs\<rparr>)" using tr by simp
      show ?thesis
      proof (cases "ts = []")
        case True
        then show ?thesis using ret(2) Some authz drop_untupled[OF tr'] row
          unfolding cleanupRunTuples_def get by (simp add: after_simps ignoring_last)
      next
        case False
        then show ?thesis using ret(2) Some authz withdraw_tracked[OF au tr' row, of "\<lambda>_. False" "ignoring (DeleteRunTuples i) (return ())"]
          unfolding cleanupRunTuples_def get by (simp add: after_simps ignoring_last)
      qed
    qed
  next
    case (err e fs)
    then show ?thesis using tr unfolding cleanupRunTuples_def get by (simp add: after_simps return_def)
  next
    case (crash fs)
    then show ?thesis using tr unfolding cleanupRunTuples_def get by (simp add: after_simps)
  qed
qed

lemma frames_stop_run: "frames close \<Longrightarrow> frames (stop_run b i ns name close)"
  unfolding stop_run_def
  by (auto intro!: frames_after frames_ignoring frames_return frames_throw frames_annotate frames_cluster split: sum.splits)

lemma CancelRun_tracked:
  assumes "authorizer a granted" "bk_authz b = Some a"
  shows "keeps (tracked granted others) (CancelRun b req)"
  unfolding CancelRun_def
  by (intro keeps_attempt keeps_if keeps_ignoring keeps_throw frames_tracked[OF frames_query]
      frames_tracked[OF frames_cluster(11)] frames_tracked[OF frames_stop_run[OF frames_mark_cancelled]]
      cleanupRunTuples_tracked[OF assms])

section \<open>The sweep keeps the grants tracked\<close>

text \<open>What the sweep knows of the table it has read: each row is still as it was read, or gone.\<close>

definition rows_read :: "sweep_row list \<Rightarrow> 'f world \<Rightarrow> bool" where
  "rows_read rows w \<longleftrightarrow> (\<forall>r \<in> set rows. row_is (sr_RunID r) (sr_Tuples r) w \<and> length (sr_Tuples r) \<le> 1)"

lemma keeps_conj: "keeps I m \<Longrightarrow> keeps J m \<Longrightarrow> keeps (\<lambda>w. I w \<and> J w) m"
  by (simp add: keeps_def)

lemma fga_io_rows: "w_run_tuples (snd (fga_io f w)) = w_run_tuples w"
  using fga_io_world[of f w] by auto

lemma rows_read_delete: "keeps (rows_read rows) (DeleteRunTuples i)"
  unfolding keeps_def
proof (intro allI impI)
  fix w :: "'a world" assume "rows_read rows w"
  then show "rows_read rows (snd (DeleteRunTuples i w))"
    using DeleteRunTuples_world[of i w] by (auto simp: rows_read_def row_is_def)
qed

lemma rows_read_fga: "keeps (rows_read rows) (fga_io f)"
  by (simp add: keeps_def rows_read_def row_is_def fga_io_rows)

lemma rows_read_query: "keeps (rows_read rows) (query g)"
  by (rule keeps_query) (simp add: rows_read_def)

lemma rows_read_cleanup: "keeps (rows_read rows) (cleanupRunTuplesRow authz r)"
  unfolding cleanupRunTuplesRow_def
  by (auto intro!: keeps_after keeps_return rows_read_delete rows_read_fga split: option.splits sum.splits)

lemma rows_read_sweep_one: "keeps (rows_read rows) (sweep_one nl authz cutoff r)"
  unfolding sweep_one_def pipelineRunIsLive_def
  by (auto intro!: keeps_after keeps_return rows_read_query rows_read_cleanup split: option.splits sum.splits)

lemma cleanupRow_tracked:
  assumes au: "authorizer a granted" and tr: "tracked granted others w"
    and row: "row_is (sr_RunID r) (sr_Tuples r) w" and one: "length (sr_Tuples r) \<le> 1"
  shows "tracked granted others (snd (cleanupRunTuplesRow (Some a) r w))"
proof (cases "sr_Tuples r")
  case Nil
  then show ?thesis using drop_untupled[OF tr] row by (simp add: cleanupRunTuplesRow_def)
next
  case (Cons t ts)
  then have t: "sr_Tuples r = [t]" using one by simp
  have missing: "granted s \<inter> wire ` set [t] = {}"
    if "az_Delete a [t] (w_fga w) = (Inl e, s)" "isMissingTupleErr (err_text e)" for e s
    using authorizer.delete_missing[OF au that] by simp
  show ?thesis
    using withdraw_tracked[OF au tr row[unfolded t], of "\<lambda>e. isMissingTupleErr (err_text e)"
        "DeleteRunTuples (sr_RunID r)", OF missing]
    by (simp add: cleanupRunTuplesRow_def t)
qed

lemma sweep_one_tracked:
  assumes au: "authorizer a granted" and tr: "tracked granted others w" and r: "r \<in> set rows" "rows_read rows w"
  shows "tracked granted others (snd (sweep_one nl (Some a) cutoff r w))"
proof -
  have clean: "tracked granted others (snd (cleanupRunTuplesRow (Some a) r (w\<lparr>w_fates := fs\<rparr>)))" for fs
    using r tr by (intro cleanupRow_tracked[OF au]) (auto simp: rows_read_def)
  have now: "tracked granted others (snd (cleanupRunTuplesRow (Some a) r w))"
    using r tr by (intro cleanupRow_tracked[OF au]) (auto simp: rows_read_def)
  let ?q = "\<lambda>w. Inr (list_ex (\<lambda>pr. map_of (cr_labels pr) ''datuplet.io/run-id'' = Some (nl_uuid_String nl (sr_RunID r))) (w_prs w))"
  have live: "pipelineRunIsLive nl (sr_RunID r) = query ?q" by (simp add: pipelineRunIsLive_def)
  have probe: "tracked granted others (snd (after (query ?q) (\<lambda>x.
      case x of Inl _ \<Rightarrow> return () | Inr live \<Rightarrow> if live then return () else cleanupRunTuplesRow (Some a) r) w))"
  proof -
    have same: "?q (w\<lparr>w_fates := fs\<rparr>) = ?q w" for fs by simp
    from same show ?thesis
      by (cases rule: query_outcome) (use tr clean in \<open>simp_all add: after_simps return_def\<close>)
  qed
  show ?thesis
    using tr now probe unfolding sweep_one_def live by (auto simp: return_def split: option.splits)
qed

lemma sweep_loop_tracked:
  assumes au: "authorizer a granted"
  shows "tracked granted others w \<Longrightarrow> rows_read rows w \<Longrightarrow> set todo \<subseteq> set rows \<Longrightarrow>
    tracked granted others (snd (for_each (sweep_one nl (Some a) cutoff) todo (return ()) w))"
proof (induction todo arbitrary: w)
  case (Cons r todo)
  let ?m = "sweep_one nl (Some a) cutoff r"
  have tr: "tracked granted others (snd (?m w))" using sweep_one_tracked[OF au, of others w r rows] Cons.prems by simp
  have rd: "rows_read rows (snd (?m w))" using rows_read_sweep_one Cons.prems(2) by (rule keepsD)
  show ?case using Cons.IH[OF tr rd] Cons.prems(3) tr
    by (cases "fst (?m w)") (simp_all add: ignoring_def after_result)
qed (simp add: return_def)

lemma sweep_rows_read:
  assumes "tracked granted others w"
  shows "rows_read (sweep_rows (w_runs w) (w_run_tuples w)) w"
proof -
  have source: "\<exists>x \<in> set rows. rt_RunID x = sr_RunID r \<and> rt_Tuples x = map wire (sr_Tuples r)"
    if "r \<in> set (sweep_rows runs rows)" for runs rows r
    using that by (induction rows) (auto split: sum.splits dest: decode_wire[symmetric])
  have "row_is (sr_RunID r) (sr_Tuples r) w \<and> length (sr_Tuples r) \<le> 1"
    if r: "r \<in> set (sweep_rows (w_runs w) (w_run_tuples w))" for r
  proof -
    obtain x where x: "x \<in> set (w_run_tuples w)" "rt_RunID x = sr_RunID r" "rt_Tuples x = map wire (sr_Tuples r)"
      using source[OF r] by blast
    have "find (\<lambda>y. rt_RunID y = rt_RunID x) (w_run_tuples w) = Some x"
      using assms x(1) by (intro find_distinct) (auto simp: tracked_def)
    then show ?thesis using find_row_is[of "sr_RunID r" w x "sr_Tuples r"] assms x
      by (auto simp: tracked_def list_all_iff)
  qed
  then show ?thesis by (simp add: rows_read_def)
qed

lemma ReapRunTuples_tracked:
  assumes au: "authorizer a granted"
  shows "keeps (tracked granted others) (ReapRunTuples nl (Some a))"
  unfolding keeps_def
proof (intro allI impI)
  fix w :: "'a world" assume tr: "tracked granted others w"
  let ?q = "\<lambda>w. Inr (sweep_rows (w_runs w) (w_run_tuples w))"
  have same: "?q (w\<lparr>w_fates := fs\<rparr>) = ?q w" for fs by simp
  from same show "tracked granted others (snd (ReapRunTuples nl (Some a) w))"
  proof (cases rule: query_outcome)
    case (ret x fs)
    have "rows_read x (w\<lparr>w_fates := fs\<rparr>)" using sweep_rows_read[OF tr] ret(1) by (simp add: rows_read_def)
    then have "tracked granted others (snd (for_each (sweep_one nl (Some a) (w_now w - orphanRunTuplesAge)) x (return ())
        (w\<lparr>w_fates := fs\<rparr>)))" using tr by (intro sweep_loop_tracked[OF au]) auto
    then show ?thesis using ret(2) by (simp add: ReapRunTuples_def attempt_simps with_now_def)
  next
    case (err e fs)
    then show ?thesis using tr by (simp add: ReapRunTuples_def attempt_simps)
  next
    case (crash fs)
    then show ?thesis using tr by (simp add: ReapRunTuples_def attempt_simps)
  qed
qed

lemma ReapOnceWith_tracked:
  assumes "authorizer a granted"
  shows "keeps (tracked granted others) (ReapOnceWith nl maxAge (Some a))"
  unfolding ReapOnceWith_def
  by (intro keeps_attempt keeps_ignoring keeps_return frames_tracked[OF frames_ReapOnce] ReapRunTuples_tracked[OF assms])

end
