(* ===== verification/Run_Platform.thy ===== *)
theory Run_Platform
  imports Run_Grants
begin

text \<open>
  The API, the observer and the reaper together, over one database, one cluster and one authorization service: the steps
  they take in any order, each with any fates for its calls, and what holds in every state they reach.
\<close>

section \<open>Steps\<close>

inductive platform_step :: "'f backend \<Rightarrow> int \<Rightarrow> 'f world \<Rightarrow> 'f world \<Rightarrow> bool" for b :: "'f backend" and maxAge :: int where
  trigger: "platform_step b maxAge w (snd (TriggerRun b rv i req (w\<lparr>w_fates := fs\<rparr>)))"
| cancel: "platform_step b maxAge w (snd (CancelRun b creq (w\<lparr>w_fates := fs\<rparr>)))"
| observe: "platform_step b maxAge w (snd (snd (reconcileOne (bk_names b) marshal c got (w\<lparr>w_fates := fs\<rparr>))))"
| reap: "platform_step b maxAge w (snd (ReapOnceWith (bk_names b) maxAge (bk_authz b) (w\<lparr>w_fates := fs\<rparr>)))"
| cluster: "platform_step b maxAge w (w\<lparr>w_prs := prs, w_secrets := ss, w_pods := ps\<rparr>)"
| clock: "w_now w \<le> t \<Longrightarrow> platform_step b maxAge w (w\<lparr>w_now := t\<rparr>)"

inductive_cases platform_stepE: "platform_step b maxAge w w'"

lemma reconcileOne_frames:
  "w_fga (snd (snd (reconcileOne nl marshal c got w))) = w_fga w \<and>
   w_run_tuples (snd (snd (reconcileOne nl marshal c got w))) = w_run_tuples w"
proof (cases "observe nl marshal got")
  case (Inr so)
  show ?thesis
  proof (cases so)
    case (Some s)
    obtain res c' w' where co: "CoalescedUpdater_Update (RoutingUpdater_Update nl) c s w = (res, c', w')"
      by (cases "CoalescedUpdater_Update (RoutingUpdater_Update nl) c s w")
    have "frames (RoutingUpdater_Update nl s)"
      unfolding RoutingUpdater_Update_def by (intro frames_if frames_DBRunUpdater frames_DBPreviewUpdater)
    then have "w_fga w' = w_fga w \<and> w_run_tuples w' = w_run_tuples w"
      using Coalesced_world[OF co] framesD[of "RoutingUpdater_Update nl s" w] by auto
    then show ?thesis using Inr Some co by (simp add: reconcileOne_def split: res.splits)
  qed (simp add: Inr reconcileOne_def)
qed (simp add: reconcileOne_def)

lemma platform_step_tracked:
  assumes cert: "certain_authorizer a granted" and authz: "bk_authz b = Some a"
    and step: "platform_step b maxAge w w'" and tr: "tracked granted others w"
  shows "tracked granted others w'"
proof -
  have au: "authorizer a granted" using cert by (rule certain_authorizer.axioms)
  have start: "tracked granted others (w\<lparr>w_fates := fs\<rparr>)" for fs using tr by simp
  from step show ?thesis
  proof cases
    case (trigger rv i req fs)
    then show ?thesis using keepsD[OF TriggerRun_tracked[OF cert authz] start] by simp
  next
    case (cancel creq fs)
    then show ?thesis using keepsD[OF CancelRun_tracked[OF au authz] start] by simp
  next
    case (observe marshal c got fs)
    then show ?thesis using start[of fs] reconcileOne_frames[of "bk_names b" marshal c got "w\<lparr>w_fates := fs\<rparr>"]
      by (simp add: tracked_def)
  next
    case (reap fs)
    then show ?thesis using keepsD[OF ReapOnceWith_tracked[OF au] start] authz by simp
  qed (use tr in \<open>simp_all add: tracked_def\<close>)
qed

text \<open>C8. Starting from a state without breadcrumb rows, let the API trigger and cancel runs, the observer mirror and the reaper
  reap in any order and any number, with every call to the database and the cluster failing, losing its answer or being the
  last one before a crash as it may, and the cluster changing under them: every grant that exists then and did not at the
  start is recorded in a breadcrumb row. (The authorizer's failed writes are taken to be unapplied; its failed deletions may
  have been applied.)\<close>

theorem grants_recorded:
  assumes "certain_authorizer a granted" "bk_authz b = Some a" "w_run_tuples w = []"
    and "(platform_step b maxAge)\<^sup>*\<^sup>* w w'"
  shows "granted (w_fga w') - granted (w_fga w) \<subseteq> recorded (w_run_tuples w')"
proof -
  have "tracked granted (granted (w_fga w)) w" using assms(3) by (simp add: tracked_def)
  with assms(4) have "tracked granted (granted (w_fga w)) w'"
    by (induction rule: rtranclp_induct) (auto intro: platform_step_tracked[OF assms(1,2)])
  then show ?thesis by (auto simp: tracked_def)
qed

section \<open>What a sweep does\<close>

text \<open>The rows a sweep is to clear: of terminal runs, and of runs that never came to be, half an hour later.\<close>

definition sweepable :: "names_lib \<Rightarrow> 'f world \<Rightarrow> run_tuples_row \<Rightarrow> bool" where
  "sweepable nl w r \<longleftrightarrow>
     isl (decodeAuthzTuples (rt_Tuples r)) = False \<and>
     (case find (\<lambda>x. rr_ID x = rt_RunID r) (w_runs w) of
        Some x \<Rightarrow> rr_Phase x \<in> set terminalPhases
      | None \<Rightarrow> rt_CreatedAt r < w_now w - orphanRunTuplesAge \<and>
          \<not> list_ex (\<lambda>pr. map_of (cr_labels pr) ''datuplet.io/run-id'' = Some (nl_uuid_String nl (rt_RunID r))) (w_prs w))"

text \<open>An authorizer that deletes, or says that there is nothing to delete.\<close>

definition deletes :: "'f authorizer_ops \<Rightarrow> bool" where
  "deletes a \<longleftrightarrow> (\<forall>ts s e s'. az_Delete a ts s = (Inl e, s') \<longrightarrow> isMissingTupleErr (err_text e))"

definition sweep_hit :: "names_lib \<Rightarrow> cluster_run list \<Rightarrow> time_ns \<Rightarrow> sweep_row \<Rightarrow> bool" where
  "sweep_hit nl prs cutoff r \<longleftrightarrow>
     (case sr_RunPhase r of
        Some phase \<Rightarrow> phase \<in> set terminalPhases
      | None \<Rightarrow> sr_CreatedAt r < cutoff \<and>
          \<not> list_ex (\<lambda>pr. map_of (cr_labels pr) ''datuplet.io/run-id'' = Some (nl_uuid_String nl (sr_RunID r))) prs)"

lemma cleanupRow_calm:
  assumes au: "authorizer a granted" and del: "deletes a" and calm: "w_fates w = []" and one: "length (sr_Tuples r) \<le> 1"
  shows "\<exists>s. cleanupRunTuplesRow (Some a) r w =
      (Ret (), w\<lparr>w_fga := s, w_run_tuples := filter (\<lambda>x. rt_RunID x \<noteq> sr_RunID r) (w_run_tuples w)\<rparr>) \<and>
    granted s = granted (w_fga w) - wire ` set (sr_Tuples r)"
proof (cases "sr_Tuples r")
  case Nil
  then show ?thesis using calm
    by (intro exI[of _ "w_fga w"]) (simp add: cleanupRunTuplesRow_def DeleteRunTuples_def)
next
  case (Cons t ts)
  then have t: "sr_Tuples r = [t]" using one by simp
  obtain x s where call: "az_Delete a [t] (w_fga w) = (x, s)" by (cases "az_Delete a [t] (w_fga w)")
  have io: "fga_io (az_Delete a [t]) w = (as_res x, w\<lparr>w_fga := s\<rparr>)"
    using calm call by (simp add: fga_io_def)
  have "granted s = granted (w_fga w) - {wire t} \<and>
      cleanupRunTuplesRow (Some a) r w =
        (Ret (), w\<lparr>w_fga := s, w_run_tuples := filter (\<lambda>x. rt_RunID x \<noteq> sr_RunID r) (w_run_tuples w)\<rparr>)"
  proof (cases x)
    case (Inl e)
    have m: "isMissingTupleErr (err_text e)" using del call Inl by (auto simp: deletes_def)
    have "wire t \<notin> granted s" using authorizer.delete_missing[OF au _ m] call Inl by blast
    moreover have "granted (w_fga w) - {wire t} \<subseteq> granted s \<and> granted s \<subseteq> granted (w_fga w)"
      using authorizer.delete_failed[OF au, of "[t]" "w_fga w" e s] call Inl by simp
    ultimately show ?thesis using m t io calm Inl
      by (auto simp: cleanupRunTuplesRow_def after_simps DeleteRunTuples_def)
  next
    case (Inr u)
    have "granted s = granted (w_fga w) - {wire t}" using authorizer.delete_ok[OF au, of "[t]" "w_fga w" s] call Inr by simp
    then show ?thesis using t io calm Inr by (simp add: cleanupRunTuplesRow_def after_simps DeleteRunTuples_def)
  qed
  then show ?thesis using t by auto
qed

lemma sweep_one_calm:
  assumes "authorizer a granted" "deletes a" "w_fates w = []" "length (sr_Tuples r) \<le> 1"
  shows "\<exists>s. sweep_one nl (Some a) cutoff r w =
      (Ret (), w\<lparr>w_fga := s, w_run_tuples :=
        filter (\<lambda>x. \<not> (sweep_hit nl (w_prs w) cutoff r \<and> rt_RunID x = sr_RunID r)) (w_run_tuples w)\<rparr>) \<and>
    granted s = granted (w_fga w) - (if sweep_hit nl (w_prs w) cutoff r then wire ` set (sr_Tuples r) else {})"
proof (cases "sweep_hit nl (w_prs w) cutoff r")
  case True
  then have "sweep_one nl (Some a) cutoff r w = cleanupRunTuplesRow (Some a) r w"
    using assms(3) by (auto simp: sweep_one_def sweep_hit_def pipelineRunIsLive_def after_simps split: option.splits)
  then show ?thesis using True cleanupRow_calm[OF assms] by simp
next
  case False
  then have "sweep_one nl (Some a) cutoff r w = (Ret (), w)"
    using assms(3)
    by (auto simp: sweep_one_def sweep_hit_def pipelineRunIsLive_def after_simps return_def split: option.splits)
  then show ?thesis using False by (intro exI[of _ "w_fga w"]) simp
qed

definition cleared :: "names_lib \<Rightarrow> cluster_run list \<Rightarrow> time_ns \<Rightarrow> sweep_row list \<Rightarrow> uuid set" where
  "cleared nl prs cutoff rows = sr_RunID ` {r \<in> set rows. sweep_hit nl prs cutoff r}"

lemma sweep_loop_calm:
  assumes "authorizer a granted" "deletes a"
  shows "w_fates w = [] \<Longrightarrow> \<forall>r \<in> set rows. length (sr_Tuples r) \<le> 1 \<Longrightarrow>
    fst (for_each (sweep_one nl (Some a) cutoff) rows (return ()) w) = Ret () \<and>
    w_run_tuples (snd (for_each (sweep_one nl (Some a) cutoff) rows (return ()) w)) =
      filter (\<lambda>x. rt_RunID x \<notin> cleared nl (w_prs w) cutoff rows) (w_run_tuples w) \<and>
    granted (w_fga (snd (for_each (sweep_one nl (Some a) cutoff) rows (return ()) w))) =
      granted (w_fga w) - (\<Union>r \<in> {r \<in> set rows. sweep_hit nl (w_prs w) cutoff r}. wire ` set (sr_Tuples r))"
proof (induction rows arbitrary: w)
  case (Cons r rows)
  obtain s where s: "sweep_one nl (Some a) cutoff r w =
      (Ret (), w\<lparr>w_fga := s, w_run_tuples :=
        filter (\<lambda>x. \<not> (sweep_hit nl (w_prs w) cutoff r \<and> rt_RunID x = sr_RunID r)) (w_run_tuples w)\<rparr>)"
    "granted s = granted (w_fga w) - (if sweep_hit nl (w_prs w) cutoff r then wire ` set (sr_Tuples r) else {})"
    using sweep_one_calm[OF assms Cons.prems(1), of r nl cutoff] Cons.prems(2) by auto
  let ?w = "w\<lparr>w_fga := s, w_run_tuples :=
        filter (\<lambda>x. \<not> (sweep_hit nl (w_prs w) cutoff r \<and> rt_RunID x = sr_RunID r)) (w_run_tuples w)\<rparr>"
  have step: "for_each (sweep_one nl (Some a) cutoff) (r # rows) (return ()) w =
      for_each (sweep_one nl (Some a) cutoff) rows (return ()) ?w"
    using s(1) by (simp add: ignoring_def after_simps)
  have rows: "filter (\<lambda>x. rt_RunID x \<notin> cleared nl (w_prs ?w) cutoff rows) (w_run_tuples ?w) =
      filter (\<lambda>x. rt_RunID x \<notin> cleared nl (w_prs w) cutoff (r # rows)) (w_run_tuples w)"
    by (auto simp: cleared_def intro!: filter_cong)
  have "w_fates ?w = []" "\<forall>r \<in> set rows. length (sr_Tuples r) \<le> 1" using Cons.prems by simp_all
  from Cons.IH[OF this] show ?case unfolding step using rows s(2) by auto
qed (simp add: return_def cleared_def)

definition read_row :: "run_row list \<Rightarrow> run_tuples_row \<Rightarrow> sweep_row" where
  "read_row runs r = \<lparr>sr_RunID = rt_RunID r, sr_Tuples = projr (decodeAuthzTuples (rt_Tuples r)),
     sr_RunPhase = map_option rr_Phase (find (\<lambda>x. rr_ID x = rt_RunID r) runs), sr_CreatedAt = rt_CreatedAt r\<rparr>"

lemma sweep_rows_map: "sweep_rows runs rows = map (read_row runs) (filter (\<lambda>r. \<not> isl (decodeAuthzTuples (rt_Tuples r))) rows)"
  by (induction rows) (auto simp: read_row_def split: sum.splits)

lemma sweepable_hit:
  "sweepable nl w r \<longleftrightarrow> \<not> isl (decodeAuthzTuples (rt_Tuples r)) \<and>
     sweep_hit nl (w_prs w) (w_now w - orphanRunTuplesAge) (read_row (w_runs w) r)"
  by (auto simp: sweepable_def sweep_hit_def read_row_def split: option.splits)

lemma hit_rows:
  "{r \<in> set (sweep_rows (w_runs w) rows). sweep_hit nl (w_prs w) (w_now w - orphanRunTuplesAge) r} =
     read_row (w_runs w) ` {r \<in> set rows. sweepable nl w r}"
  by (auto simp: sweep_rows_map sweepable_hit)

lemma cleared_rows:
  "cleared nl (w_prs w) (w_now w - orphanRunTuplesAge) (sweep_rows (w_runs w) rows) =
     rt_RunID ` {r \<in> set rows. sweepable nl w r}"
proof -
  have "sr_RunID (read_row runs r) = rt_RunID r" for runs r by (simp add: read_row_def)
  then show ?thesis by (simp add: cleared_def hit_rows image_image)
qed

lemma swept_grants:
  "(\<Union>r \<in> {r \<in> set (sweep_rows (w_runs w) rows). sweep_hit nl (w_prs w) (w_now w - orphanRunTuplesAge) r}.
      wire ` set (sr_Tuples r)) = recorded (filter (sweepable nl w) rows)"
proof -
  have "wire ` set (sr_Tuples (read_row runs r)) = set (rt_Tuples r)"
    if "\<not> isl (decodeAuthzTuples (rt_Tuples r))" for runs r
    using that decode_wire[of "rt_Tuples r" "projr (decodeAuthzTuples (rt_Tuples r))"]
    by (auto simp: read_row_def simp flip: set_map)
  then show ?thesis unfolding hit_rows by (auto simp: recorded_def sweepable_hit)
qed


section \<open>Concrete runs\<close>

definition demo_doc :: pipeline_doc where
  "demo_doc = \<lparr>pd_Name = ''daily'', pd_Description = [],
     pd_Gateway = \<lparr>dg_ChunkSize = 0, dg_BufferSize = 0, dg_RowGroupSize = 0, dg_TargetFileSize = 0\<rparr>,
     pd_Stages = [\<lparr>ds_Name = ''load'', ds_Components = [\<lparr>dc_Name = ''x'', dc_Component = ''x'', dc_Version = [], dc_Image = [],
       dc_Config = [], dc_Inputs = None,
       dc_Outputs = Some \<lparr>do_DefaultBucket = ''raw'', do_DefaultWriteMode = [], do_Buckets = [], do_Tables = [],
         do_Processors = []\<rparr>,
       dc_Resources = None\<rparr>]\<rparr>]\<rparr>"

definition demo_backend :: "grant list authorizer_ops \<Rightarrow> grant list backend" where
  "demo_backend a = \<lparr>bk_names = demo_names, bk_convert = demo_convert, bk_installNamespace = ''datuplet'', bk_authz = Some a,
     bk_jwt = \<lparr>jl_sign = (\<lambda>_ _ _. Inr ''token''), jl_parse = (\<lambda>_ _ _ _. Inl ''no''), jl_GetAudience = (\<lambda>_. Inr []),
       jl_uuid_String = uuid_text, jl_uuid_Parse = uuid_read\<rparr>,
     bk_signer = Some \<lparr>sg_priv = 1, sg_KeyID = ''k''\<rparr>,
     bk_env = \<lparr>me_user = Some \<lparr>us_ID = 3, us_disabled = False\<rparr>, me_now = 0, me_random = Inr []\<rparr>,
     bk_audience = [], bk_resolver = None\<rparr>"

definition demo_request :: trigger_request where
  "demo_request = \<lparr>tq_ProjectID = 7, tq_UserID = 3, tq_PipelineName = ''daily'', tq_PipelineID = 9, tq_Doc = Some demo_doc\<rparr>"

definition demo_grant :: grant where
  "demo_grant = (''user:oidc~00000000-0000-0000-0000-000000000006'', ''editor'', ''project:lk'')"

definition demo_trigger :: "grant list authorizer_ops \<Rightarrow> fate list \<Rightarrow> (uuid \<times> string) res \<times> grant list world" where
  "demo_trigger a fs = TriggerRun (demo_backend a) ''1'' 6 demo_request (demo_world\<lparr>w_fates := replicate 17 Fine @ fs\<rparr>)"

text \<open>Provisioning a namespace that is not there yet: sixteen calls that create it with all its objects.\<close>

definition project_objects :: "string \<Rightarrow> ns_object list" where
  "project_objects saNS =
     [NsRole ''datuplet-secrets'' [(''secrets'', [''get'', ''list'', ''create'', ''update'', ''patch'', ''delete''])],
      NsRole ''datuplet-secrets-operator'' [(''secrets'', [''get'', ''create''])],
      NsRole ''datuplet-pod-logs'' [(''pods'', [''get'', ''list'']), (''pods/log'', [''get''])],
      NsRoleBinding ''datuplet-secrets'' ''pipeline-api'' saNS,
      NsRoleBinding ''datuplet-pod-logs'' ''pipeline-api'' saNS,
      NsRoleBinding ''datuplet-secrets-operator'' ''pipeline-operator'' saNS,
      NsLimitRange ''datuplet-defaults'' [(''cpu'', ''1''), (''memory'', ''512Mi'')] [(''cpu'', ''100m''), (''memory'', ''128Mi'')]]"

lemma ensure_new:
  assumes "\<not> list_ex (has_object ns x) (w_ns_objects w)" "w_fates w = Fine # Fine # fs"
  shows "ensure_in_namespace kind ns name x w = (Ret (), w\<lparr>w_fates := fs, w_ns_objects := w_ns_objects w @ [(ns, x)]\<rparr>)"
  using assms by (simp add: ensure_in_namespace_def ensure_object_def query_def io_def after_def return_def)

lemma ensureNamespace_new:
  assumes "name \<notin> set (w_namespaces w)" "w_fates w = Fine # Fine # fs"
  shows "ensureNamespace name w = (Ret (), w\<lparr>w_fates := fs, w_namespaces := w_namespaces w @ [name]\<rparr>)"
  using assms by (simp add: ensureNamespace_def ensure_object_def query_def io_def after_def return_def)

lemma EnsureProjectNamespace_new:
  assumes "NamespaceForProject nl i \<notin> set (w_namespaces w)" "NamespaceForProject nl i \<notin> fst ` set (w_ns_objects w)"
    and "w_fates w = replicate 16 Fine @ fs"
  shows "EnsureProjectNamespace nl saNS i w =
    (Ret (), w\<lparr>w_fates := fs, w_namespaces := w_namespaces w @ [NamespaceForProject nl i],
               w_ns_objects := w_ns_objects w @ map (Pair (NamespaceForProject nl i)) (project_objects saNS)\<rparr>)"
proof -
  let ?ns = "NamespaceForProject nl i"
  have none: "\<not> list_ex (has_object ?ns x) (w_ns_objects w)" for x
    using assms(2) by (force simp: list_ex_iff has_object_def)
  have fates: "w_fates w = Fine # Fine # Fine # Fine # Fine # Fine # Fine # Fine # Fine # Fine # Fine # Fine # Fine # Fine #
      Fine # Fine # fs" using assms(3) by (simp add: numeral_eq_Suc)
  show ?thesis
    by (simp add: EnsureProjectNamespace_def ensureSecretsRBAC_def ensureSecretRole_def ensureRole_def ensureRoleBinding_def
        EnsureProjectLimitRange_def ensureNamespace_new[OF assms(1) fates] attempt_simps ensure_new none
        has_object_def project_objects_def)
qed

definition demo_ready :: "grant list world" where
  "demo_ready = demo_world\<lparr>w_namespaces := w_namespaces demo_world @ [NamespaceForProject demo_names 7],
     w_ns_objects := map (Pair (NamespaceForProject demo_names 7)) (project_objects ''datuplet'')\<rparr>"

lemma demo_ensured:
  "Ensure (demo_backend a) 7 (demo_world\<lparr>w_fates := replicate 17 Fine @ fs\<rparr>) = (Ret ''datuplet-p'', demo_ready\<lparr>w_fates := fs\<rparr>)"
proof -
  let ?w = "demo_world\<lparr>w_fates := replicate 16 Fine @ fs\<rparr>"
  have "NamespaceForProject demo_names 7 \<notin> set (w_namespaces demo_world)" by code_simp
  then have "EnsureProjectNamespace demo_names ''datuplet'' 7 ?w = (Ret (), demo_ready\<lparr>w_fates := fs\<rparr>)"
    using EnsureProjectNamespace_new[of demo_names 7 ?w fs "''datuplet''"] by (simp add: demo_ready_def demo_world_def)
  moreover have "get_project 7 (demo_world\<lparr>w_fates := replicate 17 Fine @ fs\<rparr>) = (Ret (hd (w_projects demo_world)), ?w)"
    by (simp add: get_project_def query_def io_def GetProjectByID_def demo_world_def numeral_eq_Suc)
  moreover have "pj_ID (hd (w_projects demo_world)) = 7" "pj_K8sNamespace (hd (w_projects demo_world)) = ''datuplet-p''"
    by (simp_all add: demo_world_def)
  ultimately show ?thesis by (simp add: Ensure_def attempt_simps return_def demo_backend_def)
qed

lemma demo_trigger_ready:
  "demo_trigger a fs = trigger_in (demo_backend a) ''1'' 6 demo_request ''datuplet-p'' (demo_ready\<lparr>w_fates := fs\<rparr>)"
proof -
  have "tq_ProjectID demo_request = 7" by (simp add: demo_request_def)
  then show ?thesis using demo_ensured by (simp add: demo_trigger_def TriggerRun_def attempt_simps)
qed

text \<open>A trigger that goes through, and one whose process dies right after the grant was written.\<close>

theorem grants_recorded_witness:
  "set (w_fga (snd (demo_trigger FakeAuthorizer (replicate 5 Fine @ [Die])))) - set (w_fga demo_world) \<subseteq>
     recorded (w_run_tuples (snd (demo_trigger FakeAuthorizer (replicate 5 Fine @ [Die])))) \<and>
   w_fga (snd (demo_trigger FakeAuthorizer (replicate 5 Fine @ [Die]))) = [demo_grant] \<and>
   fst (demo_trigger FakeAuthorizer (replicate 5 Fine @ [Die])) = Crashed \<and>
   fst (demo_trigger FakeAuthorizer []) = Ret (6, ''datuplet-p'')"
proof (intro conjI)
  let ?b = "demo_backend FakeAuthorizer"
  have "platform_step ?b 1 demo_world (snd (demo_trigger FakeAuthorizer (replicate 5 Fine @ [Die])))"
    unfolding demo_trigger_def by (rule platform_step.trigger)
  then have steps: "(platform_step ?b 1)\<^sup>*\<^sup>* demo_world (snd (demo_trigger FakeAuthorizer (replicate 5 Fine @ [Die])))" by blast
  have "bk_authz ?b = Some FakeAuthorizer" "w_run_tuples demo_world = []" by (simp_all add: demo_backend_def demo_world_def)
  from grants_recorded[OF fake.certain_authorizer_axioms this steps]
  show "set (w_fga (snd (demo_trigger FakeAuthorizer (replicate 5 Fine @ [Die])))) - set (w_fga demo_world) \<subseteq>
     recorded (w_run_tuples (snd (demo_trigger FakeAuthorizer (replicate 5 Fine @ [Die]))))" .
  show "w_fga (snd (demo_trigger FakeAuthorizer (replicate 5 Fine @ [Die]))) = [demo_grant]"
    unfolding demo_trigger_ready by code_simp
  show "fst (demo_trigger FakeAuthorizer (replicate 5 Fine @ [Die])) = Crashed" unfolding demo_trigger_ready by code_simp
  show "fst (demo_trigger FakeAuthorizer []) = Ret (6, ''datuplet-p'')" unfolding demo_trigger_ready by code_simp
qed

definition demo_openfga :: "grant list authorizer_ops" where
  "demo_openfga = OpenFGAAuthorizer list_service_write list_service_delete"

definition demo_finished :: "grant list world" where
  "demo_finished = demo_world\<lparr>w_runs := [demo_run\<lparr>rr_Phase := ''Succeeded''\<rparr>],
     w_run_tuples := [\<lparr>rt_RunID = 5, rt_Tuples = [demo_grant], rt_Committed = True, rt_CreatedAt = 0\<rparr>,
       \<lparr>rt_RunID = 6, rt_Tuples = [(''user:oidc~x'', ''viewer'', ''project:lk'')], rt_Committed = False, rt_CreatedAt = 0\<rparr>],
     w_fga := [demo_grant, (''user:oidc~x'', ''viewer'', ''project:lk'')]\<rparr>"

lemma demo_openfga_deletes: "deletes demo_openfga"
proof -
  have "strings_Contains ''cannot delete a tuple which does not exist'' ''cannot delete a tuple which does not exist''"
    by code_simp
  then show ?thesis by (auto simp: deletes_def demo_openfga_def OpenFGAAuthorizer_def OpenFGA_DeleteTuples_def list_service_delete_def
      wrapErr_def isMissingTupleErr_def split: if_splits)
qed


section \<open>Where the protocol leaks\<close>

text \<open>A process that dies between the insertion of the run and the creation of its objects: the run stays \<open>Pending\<close> and its
  grant alive, because the sweep leaves every non-terminal run alone and the reaper looks at PipelineRuns only.\<close>

definition demo_year_later :: "grant list world \<Rightarrow> grant list world" where
  "demo_year_later w = w\<lparr>w_now := w_now w + 365 * 24 * 3600 * second\<rparr>"

lemma crash_strands_grant:
  "let w = snd (demo_trigger FakeAuthorizer (replicate 6 Fine @ [Die]));
       w' = snd (ReapOnceWith demo_names (24 * 3600 * second) (Some FakeAuthorizer) (demo_year_later w)) in
   map (\<lambda>r. (rr_ID r, rr_Phase r)) (w_runs w') = [(5, ''Pending''), (6, ''Pending'')] \<and> w_prs w' = [] \<and>
   w_fga w' = [demo_grant]"
  unfolding demo_trigger_ready by code_simp

text \<open>A write that the service applies while its answer is lost: the breadcrumb is dropped, the grant stays.\<close>

definition lossy_authorizer :: "grant list authorizer_ops" where
  "lossy_authorizer = OpenFGAAuthorizer
     (\<lambda>ks s. (Some \<lparr>fe_text = ''context deadline exceeded'', fe_transport = True\<rparr>, s @ ks)) list_service_delete"

lemma lost_write_leaks_grant:
  "w_fga (snd (demo_trigger lossy_authorizer [])) = [demo_grant] \<and>
   w_run_tuples (snd (demo_trigger lossy_authorizer [])) = []"
  unfolding demo_trigger_ready by code_simp

text \<open>A sweep without an authorizer drops the breadcrumbs of grants it has not withdrawn.\<close>

lemma degraded_sweep_forgets_grant:
  "w_fga (snd (ReapRunTuples demo_names None demo_finished)) = w_fga demo_finished \<and>
   map rt_RunID (w_run_tuples (snd (ReapRunTuples demo_names None demo_finished))) = [6]"
  by code_simp

end
