(* ===== verification/Run_Closing.thy ===== *)
theory Run_Closing
  imports Run_Platform
begin

text \<open>
  How runs are closed out of band: what a cancel revokes and writes, and which rows the reaper may expire.
\<close>

section \<open>Cancelling\<close>

lemma cleanup_calm:
  assumes au: "authorizer a granted" and del: "deletes a" and authz: "bk_authz b = Some a" and calm: "w_fates w = []"
    and tr: "tracked granted others w"
    and row: "r \<in> set (w_run_tuples w)" "rt_RunID r = i" "\<not> isl (decodeAuthzTuples (rt_Tuples r))"
  shows "\<exists>s rows. cleanupRunTuples b i w = (Ret (), w\<lparr>w_fga := s, w_run_tuples := rows\<rparr>) \<and>
    granted s = granted (w_fga w) - set (rt_Tuples r)"
proof -
  have f: "find (\<lambda>x. rt_RunID x = i) (w_run_tuples w) = Some r"
    using find_distinct[of rt_RunID "w_run_tuples w" r] tr row by (simp add: tracked_def)
  obtain ts where ts: "decodeAuthzTuples (rt_Tuples r) = Inr ts" using row(3) by (cases "decodeAuthzTuples (rt_Tuples r)") auto
  have wires: "set (rt_Tuples r) = wire ` set ts" using decode_wire[OF ts] by (metis set_map)
  have "length (rt_Tuples r) \<le> 1" using tr row(1) by (auto simp: tracked_def list_all_iff)
  then have len: "length ts \<le> 1" using decode_wire[OF ts] by (metis length_map)
  have get: "GetRunTuples i w = (Ret (Some ts), w)" using calm f ts by (simp add: GetRunTuples_def)
  show ?thesis
  proof (cases ts)
    case Nil
    then show ?thesis using get authz calm wires
      by (intro exI[of _ "w_fga w"] exI[of _ "filter (\<lambda>x. rt_RunID x \<noteq> i) (w_run_tuples w)"])
         (simp add: cleanupRunTuples_def after_simps ignoring_def DeleteRunTuples_def return_def)
  next
    case (Cons t ts')
    then have t: "ts = [t]" using len by simp
    obtain x s where call: "az_Delete a [t] (w_fga w) = (x, s)" by (cases "az_Delete a [t] (w_fga w)")
    have io: "fga_io (az_Delete a [t]) w = (as_res x, w\<lparr>w_fga := s\<rparr>)" using calm call by (simp add: fga_io_def)
    show ?thesis
    proof (cases x)
      case (Inr u)
      then have "granted s = granted (w_fga w) - {wire t}" using authorizer.delete_ok[OF au, of "[t]" "w_fga w" s] call by simp
      then show ?thesis using get authz calm wires t io Inr
        by (intro exI[of _ s] exI[of _ "filter (\<lambda>x. rt_RunID x \<noteq> i) (w_run_tuples w)"])
           (simp add: cleanupRunTuples_def after_simps ignoring_def DeleteRunTuples_def return_def)
    next
      case (Inl e)
      have m: "isMissingTupleErr (err_text e)" using del call Inl by (auto simp: deletes_def)
      have "wire t \<notin> granted s" using authorizer.delete_missing[OF au _ m] call Inl by blast
      moreover have "granted (w_fga w) - {wire t} \<subseteq> granted s \<and> granted s \<subseteq> granted (w_fga w)"
        using authorizer.delete_failed[OF au, of "[t]" "w_fga w" e s] call Inl by simp
      ultimately have "granted s = granted (w_fga w) - {wire t}" by blast
      then show ?thesis using get authz calm wires t io Inl
        by (intro exI[of _ s] exI[of _ "w_run_tuples w"])
           (simp add: cleanupRunTuples_def after_simps return_def)
    qed
  qed
qed

definition run_closed :: "uuid \<Rightarrow> 'f world \<Rightarrow> bool" where
  "run_closed i w \<longleftrightarrow> (\<exists>r \<in> set (w_runs w). rr_ID r = i \<and> rr_Phase r \<in> set terminalPhases)"

lemma mark_cancelled_closes:
  assumes "w_fates w = []" "run \<in> set (w_runs w)" "rr_ID run = i"
  shows "run_closed i (snd (mark_cancelled i (rr_Phase run \<in> set terminalPhases) w))"
proof (cases "rr_Phase run \<in> set terminalPhases")
  case True
  then show ?thesis using assms by (auto simp: mark_cancelled_def return_def run_closed_def)
next
  case False
  let ?o = "cancelled_opts (w_now w)"
  have "run_hit i ?o run" using assms(3) by (simp add: run_hit_def phase_guard_def cancelled_opts_def)
  then have "set_phase ?o (w_now w) run \<in> set (w_runs (snd (update_run_phase i ?o w)))"
    using assms(1,2) by (force simp: update_run_phase_def UpdateRunPhase_def list_ex_iff split: prod.splits)
  moreover have "rr_Phase (set_phase ?o (w_now w) run) = ''Cancelled''" by (simp add: cancelled_opts_def)
  moreover have "snd (mark_cancelled i False w) = snd (update_run_phase i ?o w)"
    by (cases "fst (update_run_phase i ?o w)") (simp_all add: mark_cancelled_def with_now_def attempt_result return_def)
  moreover have "''Cancelled'' \<in> set terminalPhases" by (simp add: terminalPhases_def)
  ultimately have "run_closed i (snd (mark_cancelled i False w))" using assms(3) unfolding run_closed_def by (metis set_phase_simps(1))
  then show ?thesis using False by simp
qed

text \<open>The calls on the cluster leave the runs alone.\<close>

definition same_runs :: "('f, 'a) io \<Rightarrow> bool" where
  "same_runs m \<longleftrightarrow> (\<forall>rows. keeps (\<lambda>w. w_runs w = rows \<and> w_fates w = []) m)"

lemma same_runs_io:
  assumes "\<And>w. w_runs (snd (f w)) = w_runs w \<and> w_fates (snd (f w)) = w_fates w"
  shows "same_runs (io f)"
  using assms by (auto simp: same_runs_def keeps_def)

lemma same_runs_ops: "same_runs (query g)" "same_runs (delete_pr ns name)" "same_runs (patch_pod ns name)" "same_runs (return x)"
  unfolding query_def delete_pr_def patch_pod_def
  by (auto intro!: same_runs_io) (simp add: same_runs_def keeps_return)

lemma same_runs_after: "same_runs m \<Longrightarrow> (\<And>r. same_runs (k r)) \<Longrightarrow> same_runs (after m k)"
  unfolding same_runs_def by (auto intro: keeps_after)

lemma same_runs_annotate: "same_runs (annotateRunPodsCancelled ns i)"
proof -
  have "same_runs (patch_pods ns ps)" for ps
    by (induction ps) (auto simp: ignoring_def intro: same_runs_after same_runs_ops)
  then show ?thesis unfolding annotateRunPodsCancelled_def
    by (auto intro!: same_runs_after same_runs_ops split: sum.splits)
qed

lemma same_runsD: "same_runs m \<Longrightarrow> w_fates w = [] \<Longrightarrow> w_runs (snd (m w)) = w_runs w \<and> w_fates (snd (m w)) = []"
  unfolding same_runs_def by (auto dest: keepsD)

lemma stop_run_closes:
  assumes calm: "w_fates w = []" and run: "run \<in> set (w_runs w)" "rr_ID run = i"
    and res: "stop_run b i ns name (mark_cancelled i (rr_Phase run \<in> set terminalPhases)) w = (Ret (), w')"
  shows "run_closed i w' \<or>
    (\<exists>pr \<in> set (w_prs w). has_run ns name pr \<and> run_phase_text (rn_phase (pr_status pr)) \<in> set terminalPhases)"
proof -
  let ?close = "mark_cancelled i (rr_Phase run \<in> set terminalPhases)"
  have closes: "run_closed i (snd (?close v))" if "w_runs v = w_runs w" "w_fates v = []" for v :: "'a world"
    using mark_cancelled_closes[of v run i] that run by simp
  show ?thesis
  proof (cases "find (has_run ns name) (w_prs w)")
    case None
    then have "get_pr ns name w = (Err (ErrK8sNotFound (''pipelineruns '' @ fmt_q name @ '' not found'')), w)"
      using calm by (simp add: get_pr_def)
    then have "?close w = (Ret (), w')" using res by (simp add: stop_run_def after_simps)
    then show ?thesis using closes[of w] calm by simp
  next
    case (Some pr)
    then have get: "get_pr ns name w = (Ret pr, w)" using calm by (simp add: get_pr_def)
    show ?thesis
    proof (cases "run_phase_text (rn_phase (pr_status pr)) \<in> set terminalPhases")
      case True
      have "pr \<in> set (w_prs w)" "has_run ns name pr" using Some by (auto simp: find_Some_iff)
      then show ?thesis using True by blast
    next
      case False
      let ?m = "annotateRunPodsCancelled ns (nl_uuid_String (bk_names b) i)"
      have v: "w_runs (snd (?m w)) = w_runs w \<and> w_fates (snd (?m w)) = []" by (rule same_runsD[OF same_runs_annotate calm])
      have d: "w_runs (snd (delete_pr ns name (snd (?m w)))) = w_runs w \<and> w_fates (snd (delete_pr ns name (snd (?m w)))) = []"
        using same_runsD[OF same_runs_ops(2), of "snd (?m w)" ns name] v by simp
      have tail: "after (delete_pr ns name) (\<lambda>r. case r of
                 Inl e \<Rightarrow> if apierrors_IsNotFound e then ?close else throw (ErrWrap ''delete PipelineRun'' e)
               | Inr _ \<Rightarrow> ?close) (snd (?m w)) = (Ret (), w')"
        using res get False after_world[of ?m w] by (auto simp: stop_run_def after_simps ignoring_def after_def split: prod.splits res.splits)
      then have "?close (snd (delete_pr ns name (snd (?m w)))) = (Ret (), w')"
        by (auto simp: after_def throw_def split: prod.splits res.splits if_splits)
      then show ?thesis using closes[of "snd (delete_pr ns name (snd (?m w)))"] d by simp
    qed
  qed
qed

lemma fga_io_calm:
  "w_fates w = [] \<Longrightarrow> fga_io f w = (as_res (fst (f (w_fga w))), w\<lparr>w_fga := snd (f (w_fga w))\<rparr>)"
  by (cases "f (w_fga w)") (simp add: fga_io_def)

lemma cleanup_shape:
  assumes calm: "w_fates w = []"
  shows "\<exists>s rows. cleanupRunTuples b i w = (Ret (), w\<lparr>w_fga := s, w_run_tuples := rows\<rparr>)"
proof -
  have drop: "\<exists>s rows. ignoring (DeleteRunTuples i) (return ()) v = (Ret (), w\<lparr>w_fga := s, w_run_tuples := rows\<rparr>)"
    if "v = w\<lparr>w_fga := s\<rparr>" for s v
    using that calm by (auto simp: ignoring_def after_def DeleteRunTuples_def return_def)
  have keep: "\<exists>s rows. return () v = (Ret (), w\<lparr>w_fga := s, w_run_tuples := rows\<rparr>)" if "v = w\<lparr>w_fga := s\<rparr>" for s v
    using that by (intro exI[of _ s] exI[of _ "w_run_tuples w"]) (simp add: return_def)
  have id: "w = w\<lparr>w_fga := w_fga w\<rparr>" by simp
  obtain q where q: "GetRunTuples i w = (q, w)" "q \<noteq> Crashed" using calm
    by (cases "find (\<lambda>r. rt_RunID r = i) (w_run_tuples w)") (auto simp: GetRunTuples_def split: sum.splits)
  show ?thesis
  proof (cases q)
    case (Ret x)
    show ?thesis
    proof (cases x)
      case (Some ts)
      show ?thesis
      proof (cases "bk_authz b")
        case None
        then show ?thesis using q Ret Some drop[OF id] by (simp add: cleanupRunTuples_def after_simps)
      next
        case authz: (Some a)
        obtain x s where call: "fga_io (az_Delete a ts) w = (as_res x, w\<lparr>w_fga := s\<rparr>)"
          using fga_io_calm[OF calm] by blast
        show ?thesis using q Ret Some authz call drop[OF id] drop[OF refl, of s] keep[OF refl, of s]
          by (cases x) (simp_all add: cleanupRunTuples_def after_simps)
      qed
    qed (use q Ret keep[OF id] in \<open>simp add: cleanupRunTuples_def after_simps\<close>)
  qed (use q keep[OF id] in \<open>simp_all add: cleanupRunTuples_def after_simps\<close>)
qed

text \<open>The PipelineRun of a run, found under the namespace of its project and the name made of its pipeline, has finished.\<close>

definition finished_object :: "'f backend \<Rightarrow> uuid \<Rightarrow> run_row \<Rightarrow> 'f world \<Rightarrow> bool" where
  "finished_object b project run w \<longleftrightarrow>
     (\<exists>proj pipe. \<exists>pr \<in> set (w_prs w).
        GetProjectByID (w_projects w) project = Inr proj \<and>
        GetPipelineNameByID (w_pipelines w) (rr_PipelineID run) = Inr pipe \<and>
        has_run (pj_K8sNamespace proj) (PipelineRunName (bk_names b) pipe (rr_ID run)) pr \<and>
        run_phase_text (rn_phase (pr_status pr)) \<in> set terminalPhases)"

text \<open>C9. When no call fails, the authorizer carries out what it is asked to delete and the recorded tuples of the run
  decode, cancelling a run of the project withdraws exactly the grant its breadcrumb records and no other, even when the
  cancel itself then reports an error because the project, the pipeline or the run's object is not there; and a cancel
  that reports success leaves the run's row in a terminal phase, unless the run's PipelineRun had already finished,
  whose phase is then the observer's to mirror. (A delete that fails is only logged, and the breadcrumb stays.)\<close>

theorem cancel_revokes:
  assumes au: "authorizer a granted" and del: "deletes a" and authz: "bk_authz b = Some a" and calm: "w_fates w = []"
    and tr: "tracked granted others w"
    and row: "r \<in> set (w_run_tuples w)" "rt_RunID r = cq_RunID req" "\<not> isl (decodeAuthzTuples (rt_Tuples r))"
    and run: "GetRunByID (w_pipelines w) (w_runs w) (cq_RunID req) = Inr run" "rr_ProjectID run = cq_ProjectID req"
    and res: "CancelRun b req w = (res, w')"
  shows "granted (w_fga w') = granted (w_fga w) - set (rt_Tuples r) \<and>
    (res = Ret () \<longrightarrow> run_closed (cq_RunID req) w' \<or> finished_object b (cq_ProjectID req) run w)"
proof -
  let ?rest = "attempt (get_project (cq_ProjectID req)) (wrapping ''get project'') (\<lambda>proj.
       attempt (query (\<lambda>w. GetPipelineNameByID (w_pipelines w) (rr_PipelineID run))) (wrapping ''get pipeline'') (\<lambda>pipeName.
       stop_run b (cq_RunID req) (pj_K8sNamespace proj) (PipelineRunName (bk_names b) pipeName (cq_RunID req))
         (mark_cancelled (cq_RunID req) (rr_Phase run \<in> set terminalPhases))))"
  obtain s rows where clean: "cleanupRunTuples b (cq_RunID req) w = (Ret (), w\<lparr>w_fga := s, w_run_tuples := rows\<rparr>)"
    and s: "granted s = granted (w_fga w) - set (rt_Tuples r)"
    using cleanup_calm[OF au del authz calm tr row] by blast
  let ?v = "w\<lparr>w_fga := s, w_run_tuples := rows\<rparr>"
  have step: "CancelRun b req w = ?rest ?v"
    using run calm clean by (simp add: CancelRun_def attempt_simps ignoring_def after_simps)
  have "frames ?rest" by (intro frames_attempt frames_cluster frames_query frames_stop_run frames_mark_cancelled)
  from framesD[OF this, of ?v] have "w_fga (snd (?rest ?v)) = s" by simp
  then have fga: "w_fga w' = s" using step res by (metis snd_conv)
  have "run_closed (cq_RunID req) w' \<or> finished_object b (cq_ProjectID req) run w" if ret: "res = Ret ()"
  proof -
    have mem: "run \<in> set (w_runs ?v)" "rr_ID run = cq_RunID req"
      using run(1) by (auto simp: GetRunByID_def find_Some_iff split: option.splits)
    obtain proj pipe where names: "GetProjectByID (w_projects w) (cq_ProjectID req) = Inr proj"
        "GetPipelineNameByID (w_pipelines w) (rr_PipelineID run) = Inr pipe"
      and stop: "stop_run b (cq_RunID req) (pj_K8sNamespace proj) (PipelineRunName (bk_names b) pipe (cq_RunID req))
        (mark_cancelled (cq_RunID req) (rr_Phase run \<in> set terminalPhases)) ?v = (Ret (), w')"
      using step res ret calm
      by (cases "GetProjectByID (w_projects w) (cq_ProjectID req)"; cases "GetPipelineNameByID (w_pipelines w) (rr_PipelineID run)")
         (auto simp: get_project_def attempt_simps)
    have "w_fates ?v = []" using calm by simp
    from stop_run_closes[OF this mem stop] show ?thesis using names mem by (auto simp: finished_object_def)
  qed
  then show ?thesis using fga s by simp
qed

section \<open>Expiring\<close>

text \<open>A row the reaper may close: its own PipelineRun, listed in the cluster, is not finished and started too long ago.\<close>

definition overdue :: "names_lib \<Rightarrow> 'f world \<Rightarrow> int \<Rightarrow> run_row \<Rightarrow> bool" where
  "overdue nl w maxAge r \<longleftrightarrow>
     (\<exists>pr \<in> set (w_prs w). \<exists>pipeline t.
        run_identity (w_projects w) (w_pipelines w) r = Some (pr_namespace pr, pipeline) \<and>
        pr_name pr = PipelineRunName nl pipeline (rr_ID r) \<and>
        rn_phase (pr_status pr) \<notin> set terminal_run_phases \<and>
        rn_startTime (pr_status pr) = Some t \<and> t < w_now w - maxAge)"

definition expired_from :: "names_lib \<Rightarrow> 'f world \<Rightarrow> int \<Rightarrow> run_row \<Rightarrow> run_row \<Rightarrow> bool" where
  "expired_from nl w maxAge r r' \<longleftrightarrow>
     r' = r \<or> rr_Phase r' = ''Expired'' \<and> rr_Phase r \<notin> set out_of_band \<and> overdue nl w maxAge r \<and>
       (rr_ID r', rr_ProjectID r', rr_PipelineID r', rr_observed_rv r') =
       (rr_ID r, rr_ProjectID r, rr_PipelineID r, rr_observed_rv r)"

text \<open>What holds of the world during a sweep that began in \<open>w0\<close>.\<close>

definition reaping :: "names_lib \<Rightarrow> int \<Rightarrow> 'f world \<Rightarrow> 'f world \<Rightarrow> bool" where
  "reaping nl maxAge w0 w \<longleftrightarrow>
     w_projects w = w_projects w0 \<and> w_pipelines w = w_pipelines w0 \<and> w_now w = w_now w0 \<and>
     distinct (map rr_ID (w_runs w0)) \<and> list_all (\<lambda>r. 0 \<le> rr_observed_rv r) (w_runs w0) \<and>
     list_all2 (expired_from nl w0 maxAge) (w_runs w0) (w_runs w)"

lemma DBRunUpdater_context:
  "w_projects (snd (DBRunUpdater_Update nl s w)) = w_projects w \<and> w_pipelines (snd (DBRunUpdater_Update nl s w)) = w_pipelines w \<and>
   w_now (snd (DBRunUpdater_Update nl s w)) = w_now w"
proof -
  let ?I = "\<lambda>v. w_projects v = w_projects w \<and> w_pipelines v = w_pipelines w \<and> w_now v = w_now w"
  have "keeps ?I (update_run_phase i opts)" for i opts
    unfolding update_run_phase_def by (rule keeps_io) (simp_all split: prod.splits)
  then have "keeps ?I (DBRunUpdater_Update nl s)" unfolding DBRunUpdater_Update_def
    by (auto intro!: keeps_attempt keeps_after keeps_query keeps_return keeps_throw split: option.splits sum.splits)
  then show ?thesis using keepsD[of ?I "DBRunUpdater_Update nl s" w] by blast
qed

lemma expired_touch:
  assumes R: "reaping nl maxAge w0 w" and pr: "pr \<in> set (w_prs w0)" "due (w_now w0 - maxAge) pr"
      "rn_phase (pr_status pr) \<notin> set terminal_run_phases"
    and own: "own_name nl w (expired_status i pr maxAge now)"
    and r: "r \<in> set (w_runs w0)" "x \<in> set (w_runs w)" "expired_from nl w0 maxAge r x"
    and t: "touched i (status_opts (expired_status i pr maxAge now)) x x'"
  shows "expired_from nl w0 maxAge r x'"
proof (cases "x' = x")
  case False
  let ?s = "expired_status i pr maxAge now"
  obtain n where hit: "run_hit i (status_opts ?s) x" and x': "x' = set_phase (status_opts ?s) n x"
    using t False by (auto simp: touched_def)
  have open_row: "rr_Phase x \<notin> set out_of_band" "rr_ID x = i"
    using hit by (auto simp: run_hit_def phase_guard_def status_opts_def)
  then have x: "x = r" using r(3) by (auto simp: expired_from_def out_of_band_def)
  have ids: "map rr_ID (w_runs w) = map rr_ID (w_runs w0)"
    using R unfolding reaping_def by (auto simp: expired_from_def list_all2_conv_all_nth intro!: nth_equalityI)
  then have "find (\<lambda>y. rr_ID y = rr_ID x) (w_runs w) = Some x"
    using R r(2) by (intro find_distinct) (simp_all add: reaping_def)
  then obtain pl where pl: "run_identity (w_projects w) (w_pipelines w) x = Some (pr_namespace pr, pl)"
    "pr_name pr = PipelineRunName nl pl (rr_ID x)"
    using own open_row(2) by (auto simp: own_name_def lookup_identity_def expired_status_def)
  obtain st where st: "rn_startTime (pr_status pr) = Some st" "st < w_now w0 - maxAge"
    using pr(2,3) by (auto simp: due_def reapAge_def Let_def split: option.splits)
  have "overdue nl w0 maxAge r" unfolding overdue_def
    using pr pl st R x by (intro bexI[of _ pr] exI[of _ pl] exI[of _ st]) (auto simp: reaping_def)
  moreover have "rr_observed_rv r \<ge> 0" using R r(1) by (auto simp: reaping_def list_all_iff)
  ultimately show ?thesis using x' x open_row
    by (auto simp: expired_from_def status_opts_def expired_status_def)
qed (use r in simp)

lemma expire_reaping:
  assumes "pr \<in> set (w_prs w0)" "due (w_now w0 - maxAge) pr" "rn_phase (pr_status pr) \<notin> set terminal_run_phases"
  shows "keeps (reaping nl maxAge w0) (DBRunUpdater_Update nl (expired_status i pr maxAge now))"
  unfolding keeps_def
proof (intro allI impI)
  fix w assume R: "reaping nl maxAge w0 w"
  let ?s = "expired_status i pr maxAge now"
  let ?w = "snd (DBRunUpdater_Update nl ?s w)"
  have ctx: "w_projects ?w = w_projects w \<and> w_pipelines ?w = w_pipelines w \<and> w_now ?w = w_now w" by (rule DBRunUpdater_context)
  have "list_all2 (expired_from nl w0 maxAge) (w_runs w0) (w_runs ?w)"
  proof (cases "w_runs ?w = w_runs w")
    case False
    then have own: "own_name nl w ?s" and t: "list_all2 (touched i (status_opts ?s)) (w_runs w) (w_runs ?w)"
      using DBRunUpdater_runs[of nl ?s w] by (auto simp: expired_status_def)
    have rows: "list_all2 (expired_from nl w0 maxAge) (w_runs w0) (w_runs w)" using R by (simp add: reaping_def)
    show ?thesis unfolding list_all2_conv_all_nth
    proof (intro conjI allI impI)
      show "length (w_runs w0) = length (w_runs ?w)" using list_all2_lengthD[OF rows] list_all2_lengthD[OF t] by simp
      fix n assume n: "n < length (w_runs w0)"
      then show "expired_from nl w0 maxAge (w_runs w0 ! n) (w_runs ?w ! n)"
        using rows t list_all2_lengthD[OF rows]
        by (intro expired_touch[OF R assms own _ _ list_all2_nthD[OF rows] list_all2_nthD[OF t]]) auto
    qed
  qed (use R in \<open>simp add: reaping_def\<close>)
  then show "reaping nl maxAge w0 ?w" using R ctx by (simp add: reaping_def)
qed

lemma reaping_ops:
  "keeps (reaping nl maxAge w0) (delete_pr ns name)" "keeps (reaping nl maxAge w0) (delete_secret ns name)"
  "keeps (reaping nl maxAge w0) (query g)"
  unfolding delete_pr_def delete_secret_def query_def by (rule keeps_io; simp add: reaping_def)+

lemma reap_run_reaping:
  assumes "pr \<in> set (w_prs w0)"
  shows "keeps (reaping nl maxAge w0) (reap_run nl (Some (DBRunUpdater_Update nl)) maxAge (w_now w0 - maxAge) pr)"
  unfolding reap_run_def mark_expired_def
  by (auto intro!: keeps_after keeps_return keeps_with_now keeps_ignoring reaping_ops expire_reaping assms
      split: sum.splits option.splits)

lemma keeps_for_each: "(\<And>x. x \<in> set xs \<Longrightarrow> keeps I (f x)) \<Longrightarrow> keeps I k \<Longrightarrow> keeps I (for_each f xs k)"
  by (induction xs) (auto intro: keeps_ignoring)

lemma reapOrphanSecrets_reaping: "keeps (reaping nl maxAge w0) (reapOrphanSecrets cutoff)"
  unfolding reapOrphanSecrets_def reap_namespace_def reap_secret_def
  by (auto intro!: keeps_attempt keeps_for_each keeps_after keeps_return reaping_ops split: sum.splits)

text \<open>Whatever fails during a reaper pass, every row of the table is left as it is or moves to Expired, and it moves
  only if it was neither cancelled nor expired before and the PipelineRun of that very run was in the cluster, unfinished
  and started longer ago than the maximum age.\<close>

theorem reaper_expires_overdue:
  assumes "distinct (map rr_ID (w_runs w))" "list_all (\<lambda>r. 0 \<le> rr_observed_rv r) (w_runs w)"
    and "ReapOnce nl maxAge (Some (DBRunUpdater_Update nl)) w = (res, w')"
  shows "list_all2 (expired_from nl w maxAge) (w_runs w) (w_runs w')"
proof -
  have R: "reaping nl maxAge w (w\<lparr>w_fates := fs\<rparr>)" for fs
    using assms(1,2) by (auto simp: reaping_def expired_from_def intro: list_all2_refl)
  have same: "?thesis" if "w' = w\<lparr>w_fates := fs\<rparr>" for fs
    using that by (auto simp: expired_from_def intro: list_all2_refl)
  let ?q = "\<lambda>w. Inr (labelled_runs (w_prs w))"
  have q: "?q (w\<lparr>w_fates := fs\<rparr>) = ?q w" for fs by simp
  show ?thesis
  proof (cases "maxAge \<le> 0")
    case True
    then show ?thesis using assms(3) same[of "w_fates w"] by (simp add: ReapOnce_def throw_def)
  next
    case False
    from q show ?thesis
    proof (cases rule: query_outcome)
      case (ret prs fs)
      let ?loop = "for_each (reap_run nl (Some (DBRunUpdater_Update nl)) maxAge (w_now w - maxAge)) prs
            (ignoring (reapOrphanSecrets (w_now w - maxAge)) (return ()))"
      have mem: "pr \<in> set (w_prs w)" if "pr \<in> set prs" for pr using that ret(1) by (auto simp: labelled_runs_def)
      have "keeps (reaping nl maxAge w) ?loop"
        by (intro keeps_for_each keeps_ignoring keeps_return reapOrphanSecrets_reaping reap_run_reaping mem)
      from keepsD[OF this R[of fs]] have "reaping nl maxAge w w'"
        using assms(3) ret(2) False by (simp add: ReapOnce_def attempt_simps with_now_def)
      then show ?thesis by (simp add: reaping_def)
    next
      case (err e fs)
      then show ?thesis using assms(3) False same[of fs] by (simp add: ReapOnce_def attempt_simps)
    next
      case (crash fs)
      then show ?thesis using assms(3) False same[of fs] by (simp add: ReapOnce_def attempt_simps)
    qed
  qed
qed

section \<open>Concrete runs\<close>

definition demo_running :: "grant list world" where
  "demo_running = demo_world\<lparr>
     w_run_tuples := [\<lparr>rt_RunID = 5, rt_Tuples = [demo_grant], rt_Committed = True, rt_CreatedAt = 0\<rparr>],
     w_fga := [demo_grant, (''user:oidc~x'', ''viewer'', ''project:lk'')], w_prs := [demo_cluster_run]\<rparr>"

theorem cancel_revokes_witness:
  "set (w_fga (snd (CancelRun (demo_backend demo_openfga) \<lparr>cq_ProjectID = 7, cq_RunID = 5\<rparr> demo_running))) =
     {demo_grant, (''user:oidc~x'', ''viewer'', ''project:lk'')} - {demo_grant} \<and>
   fst (CancelRun (demo_backend demo_openfga) \<lparr>cq_ProjectID = 7, cq_RunID = 5\<rparr> demo_running) = Ret () \<and>
   map rr_Phase (w_runs (snd (CancelRun (demo_backend demo_openfga) \<lparr>cq_ProjectID = 7, cq_RunID = 5\<rparr> demo_running))) =
     [''Cancelled'']"
proof (intro conjI)
  let ?req = "\<lparr>cq_ProjectID = 7, cq_RunID = 5\<rparr>" and ?r = "\<lparr>rt_RunID = 5, rt_Tuples = [demo_grant], rt_Committed = True, rt_CreatedAt = 0\<rparr>"
  have au: "authorizer demo_openfga set" unfolding demo_openfga_def by (rule list_service.openfga.authorizer_axioms)
  have facts: "bk_authz (demo_backend demo_openfga) = Some demo_openfga" "w_fates demo_running = []"
    "tracked set {(''user:oidc~x'', ''viewer'', ''project:lk'')} demo_running"
    "?r \<in> set (w_run_tuples demo_running)" "rt_RunID ?r = cq_RunID ?req"
    by (simp_all add: demo_backend_def demo_running_def demo_world_def tracked_def)
  have dec: "\<not> isl (decodeAuthzTuples (rt_Tuples ?r))" by code_simp
  have run: "GetRunByID (w_pipelines demo_running) (w_runs demo_running) (cq_RunID ?req) = Inr demo_run"
    "rr_ProjectID demo_run = cq_ProjectID ?req"
    by (simp_all add: GetRunByID_def demo_running_def demo_world_def demo_run_def)
  have "set (w_fga (snd (CancelRun (demo_backend demo_openfga) ?req demo_running))) =
      set (w_fga demo_running) - set (rt_Tuples ?r)"
    by (rule cancel_revokes[OF au demo_openfga_deletes facts dec run prod.collapse[symmetric], THEN conjunct1])
  then show "set (w_fga (snd (CancelRun (demo_backend demo_openfga) ?req demo_running))) =
     {demo_grant, (''user:oidc~x'', ''viewer'', ''project:lk'')} - {demo_grant}" by (simp add: demo_running_def)
  show "fst (CancelRun (demo_backend demo_openfga) ?req demo_running) = Ret ()" by code_simp
  show "map rr_Phase (w_runs (snd (CancelRun (demo_backend demo_openfga) ?req demo_running))) = [''Cancelled'']" by code_simp
qed

theorem reaper_expires_overdue_witness:
  "list_all2 (expired_from demo_names demo_running 10) (w_runs demo_running)
     (w_runs (snd (ReapOnce demo_names 10 (Some (DBRunUpdater_Update demo_names)) demo_running))) \<and>
   map rr_Phase (w_runs (snd (ReapOnce demo_names 10 (Some (DBRunUpdater_Update demo_names)) demo_running))) = [''Expired'']"
proof
  have "distinct (map rr_ID (w_runs demo_running))" "list_all (\<lambda>r. 0 \<le> rr_observed_rv r) (w_runs demo_running)"
    by (simp_all add: demo_running_def demo_world_def demo_run_def)
  then show "list_all2 (expired_from demo_names demo_running 10) (w_runs demo_running)
     (w_runs (snd (ReapOnce demo_names 10 (Some (DBRunUpdater_Update demo_names)) demo_running)))"
    by (rule reaper_expires_overdue[OF _ _ prod.collapse[symmetric]])
  show "map rr_Phase (w_runs (snd (ReapOnce demo_names 10 (Some (DBRunUpdater_Update demo_names)) demo_running))) = [''Expired'']"
    by code_simp
qed

end
