(* ===== verification/App_Store.thy ===== *)
theory App_Store
  imports Run_Mirror
begin

text \<open>
  The store of the user apps (\<open>pkg/pipelineapi/apps/store.go\<close>): one function per method, on the tables of the database.
  A method that runs in one transaction is one step, with its rollback on every error; \<open>Promote\<close> is given by its two
  statements, between which other transactions may commit. SHA-256, gzip and base64 are parameters; an identifier
  the database generates and the time of the transaction are arguments.
\<close>

section \<open>Limits\<close>

definition MaxBundleBytes :: int where
  "MaxBundleBytes = 5 * 1024 * 1024"

definition MaxProjectBytes :: int where
  "MaxProjectBytes = 200 * 1024 * 1024"

definition MaxUnreferencedVersions :: nat where
  "MaxUnreferencedVersions = 20"

definition MaxRenderLogsPerApp :: nat where
  "MaxRenderLogsPerApp = 200"

definition DefaultRenderLogRetention :: int where
  "DefaultRenderLogRetention = 14 * 24 * 60 * 60 * second"

record app_lib = names_lib +
  al_gzip :: "string \<Rightarrow> string"
  al_gunzip :: "string \<Rightarrow> string option"
  al_base64_RawURL :: "string \<Rightarrow> string"

section \<open>What the store returns\<close>

record app =
  ap_ID :: string
  ap_ProjectID :: string
  ap_Name :: string
  ap_FGARegistered :: bool
  ap_CreatedAt :: time_ns

record version =
  vs_ID :: string
  vs_AppID :: string
  vs_Hash :: string
  vs_SizeBytes :: int
  vs_CreatedAt :: time_ns

record resolved =
  rv_AppID :: string
  rv_VersionID :: string
  rv_VersionHash :: string

record token_summary =
  ts_TokenID :: string
  ts_CreatedAt :: time_ns
  ts_RevokedAt :: "time_ns option"

record channel_ref =
  cf_Channel :: string
  cf_VersionHash :: string
  cf_UpdatedAt :: time_ns

definition app_view :: "app_lib \<Rightarrow> app_row \<Rightarrow> app" where
  "app_view lib a = \<lparr>ap_ID = nl_uuid_String lib (ar_ID a), ap_ProjectID = nl_uuid_String lib (ar_ProjectID a),
     ap_Name = ar_Name a, ap_FGARegistered = ar_FGARegistered a, ap_CreatedAt = ar_CreatedAt a\<rparr>"

definition parse_id :: "app_lib \<Rightarrow> string \<Rightarrow> string \<Rightarrow> go_error + uuid" where
  "parse_id lib what s =
     (case nl_uuid_Parse lib s of
        None \<Rightarrow> Inl (ErrWrap (''apps: invalid '' @ what @ '' id '' @ fmt_q s) (ErrOther ''invalid UUID''))
      | Some i \<Rightarrow> Inr i)"

section \<open>Apps\<close>

definition isUniqueViolation :: "string \<Rightarrow> string \<Rightarrow> bool" where
  "isUniqueViolation e constraint \<longleftrightarrow> strings_Contains e constraint"

definition insert_app :: "project_row list \<Rightarrow> app_db \<Rightarrow> app_row \<Rightarrow> string + app_db" where
  "insert_app projects db a =
     (if ar_ID a \<in> set (map ar_ID (db_apps db)) then
        Inl ''duplicate key value violates unique constraint \"apps_pkey\"''
      else if list_ex (\<lambda>b. ar_ProjectID b = ar_ProjectID a \<and> ar_Name b = ar_Name a) (db_apps db) then
        Inl ''duplicate key value violates unique constraint \"apps_project_id_name_key\"''
      else if ar_ProjectID a \<notin> set (map pj_ID projects) then
        Inl ''insert or update on table \"apps\" violates foreign key constraint''
      else Inr (db\<lparr>db_apps := db_apps db @ [a]\<rparr>))"

definition Store_Create :: "app_lib \<Rightarrow> project_row list \<Rightarrow> uuid \<Rightarrow> string \<Rightarrow> uuid \<Rightarrow> time_ns \<Rightarrow> app_db \<Rightarrow>
    (go_error + app) \<times> app_db" where
  "Store_Create lib projects project name i now db =
     (let a = \<lparr>ar_ID = i, ar_ProjectID = project, ar_Name = name, ar_FGARegistered = False, ar_CreatedAt = now\<rparr> in
      case insert_app projects db a of
        Inl e \<Rightarrow>
          (Inl (if isUniqueViolation e ''apps_project_id_name_key'' then ErrAlreadyExists
                else ErrWrap ''apps: insert app'' (ErrOther e)), db)
      | Inr db' \<Rightarrow> (Inr (app_view lib a), db'))"

definition Store_Get :: "app_lib \<Rightarrow> app_db \<Rightarrow> uuid \<Rightarrow> string \<Rightarrow> go_error + app" where
  "Store_Get lib db project name =
     (case find (\<lambda>a. ar_ProjectID a = project \<and> ar_Name a = name) (db_apps db) of
        None \<Rightarrow> Inl (ErrWrap (''apps: app '' @ nl_uuid_String lib project @ ''/'' @ name) ErrAppNotFound)
      | Some a \<Rightarrow> Inr (app_view lib a))"

definition GetByID :: "app_lib \<Rightarrow> app_db \<Rightarrow> string \<Rightarrow> go_error + app" where
  "GetByID lib db appID =
     (case parse_id lib ''app'' appID of
        Inl e \<Rightarrow> Inl e
      | Inr i \<Rightarrow>
          (case find (\<lambda>a. ar_ID a = i) (db_apps db) of
             None \<Rightarrow> Inl (ErrWrap (''apps: app '' @ appID) ErrAppNotFound)
           | Some a \<Rightarrow> Inr (app_view lib a)))"

text \<open>\<open>ON DELETE CASCADE\<close> takes everything of the app with its row.\<close>

definition cascade :: "uuid \<Rightarrow> app_db \<Rightarrow> app_db" where
  "cascade i db =
     \<lparr>db_apps = filter (\<lambda>a. ar_ID a \<noteq> i) (db_apps db), db_versions = filter (\<lambda>v. av_AppID v \<noteq> i) (db_versions db),
      db_channels = filter (\<lambda>c. ch_AppID c \<noteq> i) (db_channels db), db_tokens = filter (\<lambda>t. tk_AppID t \<noteq> i) (db_tokens db),
      db_logs = filter (\<lambda>l. rl_AppID l \<noteq> i) (db_logs db)\<rparr>"

definition Store_Delete :: "app_lib \<Rightarrow> string \<Rightarrow> app_db \<Rightarrow> (go_error + unit) \<times> app_db" where
  "Store_Delete lib appID db =
     (case parse_id lib ''app'' appID of
        Inl e \<Rightarrow> (Inl e, db)
      | Inr i \<Rightarrow>
          if i \<notin> set (map ar_ID (db_apps db)) then (Inl (ErrWrap (''apps: app '' @ appID) ErrAppNotFound), db)
          else (Inr (), cascade i db))"

definition SetFGARegistered :: "app_lib \<Rightarrow> string \<Rightarrow> app_db \<Rightarrow> (go_error + unit) \<times> app_db" where
  "SetFGARegistered lib appID db =
     (case parse_id lib ''app'' appID of
        Inl e \<Rightarrow> (Inl e, db)
      | Inr i \<Rightarrow>
          (Inr (), db\<lparr>db_apps := map (\<lambda>a. if ar_ID a = i then a\<lparr>ar_FGARegistered := True\<rparr> else a) (db_apps db)\<rparr>))"

section \<open>Versions\<close>

definition referenced :: "app_db \<Rightarrow> uuid \<Rightarrow> uuid list" where
  "referenced db i = map ch_VersionID (filter (\<lambda>c. ch_AppID c = i) (db_channels db))"

definition unreferenced :: "app_db \<Rightarrow> uuid \<Rightarrow> version_row list" where
  "unreferenced db i = filter (\<lambda>v. av_AppID v = i \<and> av_ID v \<notin> set (referenced db i)) (db_versions db)"

definition gcVersions :: "uuid \<Rightarrow> app_db \<Rightarrow> app_db" where
  "gcVersions i db =
     (let keep = map av_ID (newest av_CreatedAt MaxUnreferencedVersions (unreferenced db i)) in
      db\<lparr>db_versions := filter (\<lambda>v. \<not> (av_AppID v = i \<and> av_ID v \<notin> set (referenced db i) \<and> av_ID v \<notin> set keep))
           (db_versions db)\<rparr>)"

definition set_channel :: "uuid \<Rightarrow> string \<Rightarrow> uuid \<Rightarrow> time_ns \<Rightarrow> app_db \<Rightarrow> app_db" where
  "set_channel i channel v now db =
     (let here = \<lambda>c. ch_AppID c = i \<and> ch_Channel c = channel in
      db\<lparr>db_channels :=
           (if list_ex here (db_channels db)
            then map (\<lambda>c. if here c then c\<lparr>ch_VersionID := v, ch_UpdatedAt := now\<rparr> else c) (db_channels db)
            else db_channels db @ [\<lparr>ch_AppID = i, ch_Channel = channel, ch_VersionID = v, ch_UpdatedAt = now\<rparr>])\<rparr>)"

definition stored_bytes :: "app_db \<Rightarrow> uuid \<Rightarrow> int" where
  "stored_bytes db project =
     sum_list (map av_SizeBytes
       (filter (\<lambda>v. list_ex (\<lambda>a. ar_ID a = av_AppID v \<and> ar_ProjectID a = project) (db_apps db)) (db_versions db)))"

definition version_view :: "app_lib \<Rightarrow> string \<Rightarrow> string \<Rightarrow> int \<Rightarrow> version_row \<Rightarrow> version" where
  "version_view lib appID hash bytes v =
     \<lparr>vs_ID = nl_uuid_String lib (av_ID v), vs_AppID = appID, vs_Hash = hash, vs_SizeBytes = bytes,
      vs_CreatedAt = av_CreatedAt v\<rparr>"

definition bundle_hash :: "app_lib \<Rightarrow> string \<Rightarrow> string" where
  "bundle_hash lib bundle = hex_EncodeToString (nl_Sum256 lib bundle)"

definition new_version :: "app_lib \<Rightarrow> uuid \<Rightarrow> string \<Rightarrow> uuid \<Rightarrow> time_ns \<Rightarrow> version_row" where
  "new_version lib app bundle i now =
     \<lparr>av_ID = i, av_AppID = app, av_Hash = bundle_hash lib bundle, av_Bundle = al_gzip lib bundle,
      av_SizeBytes = int (length bundle), av_CreatedAt = now\<rparr>"

definition point_draft :: "uuid \<Rightarrow> uuid \<Rightarrow> time_ns \<Rightarrow> app_db \<Rightarrow> app_db" where
  "point_draft app v now db = gcVersions app (set_channel app ''draft'' v now db)"

text \<open>Under the lock of the project row no other upload of the project runs, so the insertion never finds the hash that
  the look-up before it did not.\<close>

definition PutVersion :: "app_lib \<Rightarrow> project_row list \<Rightarrow> string \<Rightarrow> string \<Rightarrow> uuid \<Rightarrow> time_ns \<Rightarrow> app_db \<Rightarrow>
    (go_error + version) \<times> app_db" where
  "PutVersion lib projects appID bundle i now db =
     (if int (length bundle) > MaxBundleBytes then (Inl ErrBundleTooLarge, db)
      else
        (case parse_id lib ''app'' appID of
           Inl e \<Rightarrow> (Inl e, db)
         | Inr app \<Rightarrow>
             (case find (\<lambda>a. ar_ID a = app) (db_apps db) of
                None \<Rightarrow> (Inl (ErrWrap (''apps: app '' @ appID) ErrAppNotFound), db)
              | Some a \<Rightarrow>
                  if ar_ProjectID a \<notin> set (map pj_ID projects) then
                    (Inl (ErrWrap ''apps: lock project'' (ErrOther ''no rows in result set'')), db)
                  else
                    let hash = bundle_hash lib bundle; bytes = int (length bundle) in
                    case find (\<lambda>v. av_AppID v = app \<and> av_Hash v = hash) (db_versions db) of
                      Some v \<Rightarrow> (Inr (version_view lib appID hash bytes v), point_draft app (av_ID v) now db)
                    | None \<Rightarrow>
                        if stored_bytes db (ar_ProjectID a) + bytes > MaxProjectBytes then (Inl ErrProjectQuota, db)
                        else if i \<in> set (map av_ID (db_versions db)) then
                          (Inl (ErrWrap ''apps: insert version'' (ErrOther ''duplicate key value'')), db)
                        else
                          let v = new_version lib app bundle i now in
                          (Inr (version_view lib appID hash bytes v),
                           point_draft app i now (db\<lparr>db_versions := db_versions db @ [v]\<rparr>)))))"

section \<open>Channels\<close>

text \<open>The hash column has type \<open>CHAR(64)\<close>, whose comparison ignores trailing blanks; the caller's hashes are not checked
  for them.\<close>

definition char_eq :: "string \<Rightarrow> string \<Rightarrow> bool" where
  "char_eq s t \<longleftrightarrow> trim_right CHR '' '' s = trim_right CHR '' '' t"

definition promote_target :: "app_db \<Rightarrow> uuid \<Rightarrow> string \<Rightarrow> go_error + uuid" where
  "promote_target db app hash =
     (case find (\<lambda>v. av_AppID v = app \<and> char_eq (av_Hash v) hash) (db_versions db) of
        None \<Rightarrow> Inl (ErrWrap (''apps: unknown version hash '' @ fmt_q hash) ErrAppNotFound)
      | Some v \<Rightarrow> Inr (av_ID v))"

text \<open>The conditional statement with the foreign keys of the row it writes.\<close>

definition promote_swap :: "uuid \<Rightarrow> uuid \<Rightarrow> string \<Rightarrow> time_ns \<Rightarrow> app_db \<Rightarrow> (go_error + unit) \<times> app_db" where
  "promote_swap app target expected now db =
     (let here = \<lambda>c. ch_AppID c = app \<and> ch_Channel c = ''production'';
          current = map_option av_ID (find (\<lambda>v. av_AppID v = app \<and> char_eq (av_Hash v) expected) (db_versions db));
          hit = (if expected = [] then \<not> list_ex here (db_channels db)
                 else list_ex (\<lambda>c. here c \<and> Some (ch_VersionID c) = current) (db_channels db)) in
      if \<not> hit then (Inl ErrCASMismatch, db)
      else if target \<notin> set (map av_ID (db_versions db)) \<or> app \<notin> set (map ar_ID (db_apps db)) then
        (Inl (ErrWrap ''apps: promote'' (ErrOther ''violates foreign key constraint'')), db)
      else (Inr (), set_channel app ''production'' target now db))"

definition Promote :: "app_lib \<Rightarrow> string \<Rightarrow> string \<Rightarrow> string \<Rightarrow> time_ns \<Rightarrow> app_db \<Rightarrow> (go_error + unit) \<times> app_db" where
  "Promote lib appID hash expected now db =
     (case parse_id lib ''app'' appID of
        Inl e \<Rightarrow> (Inl e, db)
      | Inr app \<Rightarrow>
          (case promote_target db app hash of
             Inl e \<Rightarrow> (Inl e, db)
           | Inr target \<Rightarrow> promote_swap app target expected now db))"

definition pointed :: "app_db \<Rightarrow> uuid \<Rightarrow> string \<Rightarrow> version_row option" where
  "pointed db app channel =
     (case find (\<lambda>c. ch_AppID c = app \<and> ch_Channel c = channel) (db_channels db) of
        None \<Rightarrow> None
      | Some c \<Rightarrow> find (\<lambda>v. av_ID v = ch_VersionID c) (db_versions db))"

definition Store_Resolve :: "app_lib \<Rightarrow> app_db \<Rightarrow> uuid \<Rightarrow> string \<Rightarrow> string \<Rightarrow> go_error + resolved" where
  "Store_Resolve lib db project name channel =
     (let missing = Inl (ErrWrap (''apps: resolve '' @ nl_uuid_String lib project @ ''/'' @ name @ ''@'' @ channel) ErrAppNotFound) in
      case find (\<lambda>a. ar_ProjectID a = project \<and> ar_Name a = name) (db_apps db) of
        None \<Rightarrow> missing
      | Some a \<Rightarrow>
          (case pointed db (ar_ID a) channel of
             None \<Rightarrow> missing
           | Some v \<Rightarrow> Inr \<lparr>rv_AppID = nl_uuid_String lib (ar_ID a), rv_VersionID = nl_uuid_String lib (av_ID v),
               rv_VersionHash = av_Hash v\<rparr>))"

definition GetBundle :: "app_lib \<Rightarrow> app_db \<Rightarrow> string \<Rightarrow> go_error + string" where
  "GetBundle lib db hash =
     (case find (\<lambda>v. char_eq (av_Hash v) hash) (db_versions db) of
        None \<Rightarrow> Inl (ErrWrap (''apps: bundle '' @ fmt_q hash) ErrAppNotFound)
      | Some v \<Rightarrow>
          (case al_gunzip lib (av_Bundle v) of
             None \<Rightarrow> Inl (ErrWrap ''apps: gunzip read'' (ErrOther ''invalid''))
           | Some raw \<Rightarrow> Inr raw))"

definition channel_refs :: "app_db \<Rightarrow> uuid \<Rightarrow> channel_ref list" where
  "channel_refs db app =
     sort_key cf_Channel (concat (map (\<lambda>c.
       case find (\<lambda>v. av_ID v = ch_VersionID c) (db_versions db) of
         None \<Rightarrow> []
       | Some v \<Rightarrow> [\<lparr>cf_Channel = ch_Channel c, cf_VersionHash = av_Hash v, cf_UpdatedAt = ch_UpdatedAt c\<rparr>])
       (filter (\<lambda>c. ch_AppID c = app) (db_channels db))))"

definition Channels :: "app_lib \<Rightarrow> app_db \<Rightarrow> string \<Rightarrow> go_error + channel_ref list" where
  "Channels lib db appID = (case parse_id lib ''app'' appID of Inl e \<Rightarrow> Inl e | Inr i \<Rightarrow> Inr (channel_refs db i))"

definition Store_List :: "app_lib \<Rightarrow> app_db \<Rightarrow> uuid \<Rightarrow> (app \<times> channel_ref list) list" where
  "Store_List lib db project =
     map (\<lambda>a. (app_view lib a, channel_refs db (ar_ID a)))
       (sort_key ar_Name (filter (\<lambda>a. ar_ProjectID a = project) (db_apps db)))"

definition ListVersions :: "app_lib \<Rightarrow> app_db \<Rightarrow> string \<Rightarrow> int \<Rightarrow> go_error + version list" where
  "ListVersions lib db appID limit =
     (case parse_id lib ''app'' appID of
        Inl e \<Rightarrow> Inl e
      | Inr i \<Rightarrow>
          let n = (if limit \<le> 0 then MaxUnreferencedVersions + 2 else nat limit) in
          Inr (map (\<lambda>v. version_view lib appID (av_Hash v) (av_SizeBytes v) v)
            (newest av_CreatedAt n (filter (\<lambda>v. av_AppID v = i) (db_versions db)))))"

section \<open>Viewer tokens\<close>

definition hashToken :: "app_lib \<Rightarrow> string \<Rightarrow> string \<Rightarrow> string" where
  "hashToken lib salt secret = nl_Sum256 lib (salt @ secret)"

text \<open>The random bytes of secret and salt are arguments.\<close>

definition MintToken :: "app_lib \<Rightarrow> string \<Rightarrow> string \<Rightarrow> string \<Rightarrow> uuid \<Rightarrow> time_ns \<Rightarrow> app_db \<Rightarrow>
    (go_error + string \<times> string) \<times> app_db" where
  "MintToken lib appID secretBytes salt i now db =
     (case parse_id lib ''app'' appID of
        Inl e \<Rightarrow> (Inl e, db)
      | Inr app \<Rightarrow>
          let secret = al_base64_RawURL lib secretBytes in
          if app \<notin> set (map ar_ID (db_apps db)) \<or> i \<in> set (map tk_ID (db_tokens db)) then
            (Inl (ErrWrap ''apps: insert token'' (ErrOther ''violates a constraint'')), db)
          else
            (Inr (nl_uuid_String lib i, secret),
             db\<lparr>db_tokens := db_tokens db @
               [\<lparr>tk_ID = i, tk_AppID = app, tk_Salt = salt, tk_SecretHash = hashToken lib salt secret, tk_CreatedAt = now,
                 tk_RevokedAt = None\<rparr>]\<rparr>))"

definition find_token :: "app_db \<Rightarrow> uuid \<Rightarrow> uuid \<Rightarrow> token_row option" where
  "find_token db app i = find (\<lambda>t. tk_AppID t = app \<and> tk_ID t = i) (db_tokens db)"

definition with_ids :: "app_lib \<Rightarrow> string \<Rightarrow> string \<Rightarrow> (uuid \<Rightarrow> uuid \<Rightarrow> 'a) \<Rightarrow> go_error + 'a" where
  "with_ids lib appID tokenID k =
     (case parse_id lib ''app'' appID of
        Inl e \<Rightarrow> Inl e
      | Inr app \<Rightarrow> (case parse_id lib ''token'' tokenID of Inl e \<Rightarrow> Inl e | Inr i \<Rightarrow> Inr (k app i)))"

definition VerifyToken :: "app_lib \<Rightarrow> app_db \<Rightarrow> string \<Rightarrow> string \<Rightarrow> string \<Rightarrow> go_error + bool" where
  "VerifyToken lib db appID tokenID secret =
     with_ids lib appID tokenID (\<lambda>app i.
       case find_token db app i of
         None \<Rightarrow> False
       | Some t \<Rightarrow> tk_RevokedAt t = None \<and> hashToken lib (tk_Salt t) secret = tk_SecretHash t)"

definition TokenActive :: "app_lib \<Rightarrow> app_db \<Rightarrow> string \<Rightarrow> string \<Rightarrow> go_error + bool" where
  "TokenActive lib db appID tokenID =
     with_ids lib appID tokenID (\<lambda>app i.
       case find_token db app i of None \<Rightarrow> False | Some t \<Rightarrow> tk_RevokedAt t = None)"

definition RevokeToken :: "app_lib \<Rightarrow> string \<Rightarrow> string \<Rightarrow> time_ns \<Rightarrow> app_db \<Rightarrow> (go_error + unit) \<times> app_db" where
  "RevokeToken lib appID tokenID now db =
     (case with_ids lib appID tokenID Pair of
        Inl e \<Rightarrow> (Inl e, db)
      | Inr (app, i) \<Rightarrow>
          let here = \<lambda>t. tk_AppID t = app \<and> tk_ID t = i in
          if \<not> list_ex here (db_tokens db) then (Inl (ErrWrap (''apps: token '' @ tokenID) ErrAppNotFound), db)
          else (Inr (), db\<lparr>db_tokens := map (\<lambda>t. if here t then t\<lparr>tk_RevokedAt := Some now\<rparr> else t) (db_tokens db)\<rparr>))"

definition ListTokens :: "app_lib \<Rightarrow> app_db \<Rightarrow> string \<Rightarrow> go_error + token_summary list" where
  "ListTokens lib db appID =
     (case parse_id lib ''app'' appID of
        Inl e \<Rightarrow> Inl e
      | Inr app \<Rightarrow>
          Inr (map (\<lambda>t. \<lparr>ts_TokenID = nl_uuid_String lib (tk_ID t), ts_CreatedAt = tk_CreatedAt t, ts_RevokedAt = tk_RevokedAt t\<rparr>)
            (sort_key (\<lambda>t. - tk_CreatedAt t) (filter (\<lambda>t. tk_AppID t = app) (db_tokens db)))))"

section \<open>Render logs\<close>

record log_record =
  lr_RequestID :: string
  lr_AppID :: string
  lr_VersionHash :: string
  lr_Channel :: string
  lr_PrincipalKind :: string
  lr_PrincipalID :: string
  lr_StartedAt :: time_ns
  lr_DurationMS :: int
  lr_Outcome :: string
  lr_LogText :: string
  lr_Error :: string

definition log_row :: "uuid \<Rightarrow> uuid \<Rightarrow> log_record \<Rightarrow> render_log" where
  "log_row i app r = \<lparr>rl_RequestID = i, rl_AppID = app, rl_VersionHash = lr_VersionHash r, rl_Channel = lr_Channel r,
     rl_PrincipalKind = lr_PrincipalKind r, rl_PrincipalID = lr_PrincipalID r, rl_StartedAt = lr_StartedAt r,
     rl_DurationMS = lr_DurationMS r, rl_Outcome = lr_Outcome r, rl_LogText = lr_LogText r,
     rl_Error = (if lr_Error r \<noteq> [] then Some (lr_Error r) else None)\<rparr>"

definition scanRenderLogRow :: "app_lib \<Rightarrow> render_log \<Rightarrow> log_record" where
  "scanRenderLogRow lib l = \<lparr>lr_RequestID = nl_uuid_String lib (rl_RequestID l), lr_AppID = nl_uuid_String lib (rl_AppID l),
     lr_VersionHash = rl_VersionHash l, lr_Channel = rl_Channel l, lr_PrincipalKind = rl_PrincipalKind l,
     lr_PrincipalID = rl_PrincipalID l, lr_StartedAt = rl_StartedAt l, lr_DurationMS = rl_DurationMS l,
     lr_Outcome = rl_Outcome l, lr_LogText = rl_LogText l,
     lr_Error = (case rl_Error l of None \<Rightarrow> [] | Some e \<Rightarrow> e)\<rparr>"

definition trim_by_age :: "uuid \<Rightarrow> time_ns \<Rightarrow> render_log list \<Rightarrow> render_log list" where
  "trim_by_age app cutoff ls = filter (\<lambda>l. \<not> (rl_AppID l = app \<and> rl_StartedAt l < cutoff)) ls"

definition trim_by_count :: "uuid \<Rightarrow> render_log list \<Rightarrow> render_log list" where
  "trim_by_count app ls =
     (let keep = map rl_RequestID (newest rl_StartedAt MaxRenderLogsPerApp (filter (\<lambda>l. rl_AppID l = app) ls)) in
      filter (\<lambda>l. \<not> (rl_AppID l = app \<and> rl_RequestID l \<notin> set keep)) ls)"

definition AppendRenderLog :: "app_lib \<Rightarrow> int \<Rightarrow> log_record \<Rightarrow> time_ns \<Rightarrow> app_db \<Rightarrow> (go_error + unit) \<times> app_db" where
  "AppendRenderLog lib retention r now db =
     (case parse_id lib ''app'' (lr_AppID r) of
        Inl e \<Rightarrow> (Inl e, db)
      | Inr app \<Rightarrow>
          (case parse_id lib ''request'' (lr_RequestID r) of
             Inl e \<Rightarrow> (Inl e, db)
           | Inr i \<Rightarrow>
               if i \<in> set (map rl_RequestID (db_logs db)) \<or> app \<notin> set (map ar_ID (db_apps db)) then
                 (Inl (ErrWrap ''apps: insert render log'' (ErrOther ''violates a constraint'')), db)
               else
                 (Inr (), db\<lparr>db_logs :=
                    trim_by_count app (trim_by_age app (now - retention) (db_logs db @ [log_row i app r]))\<rparr>)))"

definition GetRenderLogs :: "app_lib \<Rightarrow> app_db \<Rightarrow> string \<Rightarrow> string \<Rightarrow> int \<Rightarrow> go_error + log_record list" where
  "GetRenderLogs lib db appID requestID limit =
     (case parse_id lib ''app'' appID of
        Inl e \<Rightarrow> Inl e
      | Inr app \<Rightarrow>
          if requestID \<noteq> [] then
            (case parse_id lib ''request'' requestID of
               Inl e \<Rightarrow> Inl e
             | Inr i \<Rightarrow>
                 (case find (\<lambda>l. rl_AppID l = app \<and> rl_RequestID l = i) (db_logs db) of
                    None \<Rightarrow> Inl (ErrWrap (''apps: render log '' @ requestID) ErrAppNotFound)
                  | Some l \<Rightarrow> Inr [scanRenderLogRow lib l]))
          else
            let n = (if limit \<le> 0 then MaxRenderLogsPerApp else nat limit) in
            Inr (map (scanRenderLogRow lib) (newest rl_StartedAt n (filter (\<lambda>l. rl_AppID l = app) (db_logs db)))))"

end
