(* ===== verification/App_Internal.thy ===== *)
theory App_Internal
  imports App_Store
begin

text \<open>
  The routes of pipeline-api that the app worker calls (\<open>pkg/pipelineapi/apps/internal.go\<close>): the gate of the service
  credential and the seven handlers. A handler is a function of the decoded request and of the tables, and gives the
  answer: its status and its body. The session resolver, the project look-up, the authorizer and the minter are
  the interfaces the handlers are built from and stay arguments.
\<close>

section \<open>Answers\<close>

datatype answer_body =
    ErrorBody string string  \<comment> \<open>kind and message\<close>
  | ResolveBody string string
  | BundleBody string
  | OkBody bool
  | ActiveBody bool
  | SessionBody string bool
  | TokenBody string
  | NoBody

datatype answer = Answer int answer_body

definition kindBadRequest :: string where "kindBadRequest = ''bad_request''"
definition kindUnauthorized :: string where "kindUnauthorized = ''unauthorized''"
definition kindNotFound :: string where "kindNotFound = ''app_not_found''"
definition kindUnavailable :: string where "kindUnavailable = ''unavailable''"

definition writeInternalError :: "int \<Rightarrow> string \<Rightarrow> string \<Rightarrow> answer" where
  "writeInternalError status kind msg = Answer status (ErrorBody kind msg)"

definition bad_request :: "string \<Rightarrow> answer" where
  "bad_request msg = writeInternalError 400 kindBadRequest msg"

definition unavailable :: "string \<Rightarrow> answer" where
  "unavailable msg = writeInternalError 503 kindUnavailable msg"

definition maxInternalBodyBytes :: int where
  "maxInternalBodyBytes = 512 * 1024"

definition MaxRenderLogBytes :: nat where
  "MaxRenderLogBytes = 64 * 1024"

text \<open>What \<open>json.Decoder\<close> makes of a body under \<open>MaxBytesReader\<close>.\<close>

datatype 'a decoded = TooLarge | Malformed string | Decoded 'a

definition readInternalJSON :: "'a decoded \<Rightarrow> ('a \<Rightarrow> answer) \<Rightarrow> answer" where
  "readInternalJSON d k =
     (case d of
        TooLarge \<Rightarrow> writeInternalError 413 kindBadRequest (''body exceeds '' @ fmt_d maxInternalBodyBytes @ '' bytes'')
      | Malformed e \<Rightarrow> bad_request (''invalid JSON body: '' @ e)
      | Decoded x \<Rightarrow> k x)"

section \<open>The service credential\<close>

type_synonym header = "(string \<times> string) list"

definition Header_Get :: "header \<Rightarrow> string \<Rightarrow> string" where
  "Header_Get h k = (case map_of h k of None \<Rightarrow> [] | Some v \<Rightarrow> v)"

definition Header_Set :: "string \<Rightarrow> string \<Rightarrow> header \<Rightarrow> header" where
  "Header_Set k v h = assoc_put k v h"

definition Header_Del :: "string \<Rightarrow> header \<Rightarrow> header" where
  "Header_Del k h = assoc_del k h"

definition ascii_lower :: "char \<Rightarrow> char" where
  "ascii_lower c = (let n = of_char c :: nat in if 65 \<le> n \<and> n \<le> 90 then char_of (n + 32) else c)"

text \<open>The first seven bytes are compared with \<open>strings.EqualFold\<close>; of the letters of \<open>bearer\<close> none has a case variant
  outside ASCII.\<close>

definition bearerToken :: "string \<Rightarrow> string option" where
  "bearerToken h =
     (if length h \<le> 7 \<or> map ascii_lower (take 7 h) \<noteq> ''bearer '' then None
      else let tok = strings_TrimSpace (drop 7 h) in if tok = [] then None else Some tok)"

record service_token =
  st_digest :: string

definition NewServiceToken :: "app_lib \<Rightarrow> string \<Rightarrow> go_error + service_token" where
  "NewServiceToken lib secret =
     (if strings_TrimSpace secret = [] then Inl (ErrOther ''apps: internal service token is empty'')
      else Inr \<lparr>st_digest = nl_Sum256 lib secret\<rparr>)"

definition LoadServiceToken :: "app_lib \<Rightarrow> go_error + string \<Rightarrow> go_error + service_token" where
  "LoadServiceToken lib read =
     (case read of
        Inl e \<Rightarrow> Inl (ErrWrap ''apps: read internal service token'' e)
      | Inr raw \<Rightarrow> NewServiceToken lib (strings_TrimSpace raw))"

definition ServiceTokenFromEnv :: "app_lib \<Rightarrow> string \<Rightarrow> (string \<Rightarrow> go_error + string) \<Rightarrow> go_error + service_token option" where
  "ServiceTokenFromEnv lib path_env read =
     (let path = strings_TrimSpace path_env in
      if path = [] then Inr None else map_sum (\<lambda>e. e) Some (LoadServiceToken lib (read path)))"

definition Matches :: "app_lib \<Rightarrow> service_token option \<Rightarrow> string \<Rightarrow> bool" where
  "Matches lib t presented \<longleftrightarrow>
     (case t of None \<Rightarrow> False | Some s \<Rightarrow> presented \<noteq> [] \<and> nl_Sum256 lib presented = st_digest s)"

definition requireServiceToken :: "app_lib \<Rightarrow> service_token option \<Rightarrow> (header \<Rightarrow> answer) \<Rightarrow> header \<Rightarrow> answer" where
  "requireServiceToken lib t handle_rest h =
     (case bearerToken (Header_Get h ''Authorization'') of
        None \<Rightarrow> writeInternalError 401 kindUnauthorized ''invalid or missing internal service credential''
      | Some presented \<Rightarrow>
          if \<not> Matches lib t presented
          then writeInternalError 401 kindUnauthorized ''invalid or missing internal service credential''
          else handle_rest h)"

section \<open>Resolution and bundles\<close>

definition channel_valid :: "string \<Rightarrow> bool" where
  "channel_valid c \<longleftrightarrow> c = ''production'' \<or> c = ''draft''"

definition handleResolve :: "app_lib \<Rightarrow> app_db \<Rightarrow> string \<Rightarrow> string \<Rightarrow> string \<Rightarrow> answer" where
  "handleResolve lib db pid name query_channel =
     (case nl_uuid_Parse lib pid of
        None \<Rightarrow> bad_request ''invalid project id''
      | Some project \<Rightarrow>
          let channel = (if query_channel = [] then ''production'' else query_channel) in
          if \<not> channel_valid channel then bad_request ''channel must be \"production\" or \"draft\"''
          else
            (case Store_Resolve lib db project name channel of
               Inl e \<Rightarrow>
                 if errors_Is e ErrAppNotFound then writeInternalError 404 kindNotFound ''no such app or channel''
                 else unavailable ''could not resolve the app''
             | Inr r \<Rightarrow> Answer 200 (ResolveBody (rv_AppID r) (rv_VersionHash r))))"

definition lower_hex :: "char \<Rightarrow> bool" where
  "lower_hex c \<longleftrightarrow> (let n = of_char c :: nat in 48 \<le> n \<and> n \<le> 57 \<or> 97 \<le> n \<and> n \<le> 102)"

definition bundleHashRe :: "string \<Rightarrow> bool" where
  "bundleHashRe s \<longleftrightarrow> length s = 64 \<and> list_all lower_hex s"

definition handleBundle :: "app_lib \<Rightarrow> app_db \<Rightarrow> string \<Rightarrow> answer" where
  "handleBundle lib db hash =
     (if \<not> bundleHashRe hash then bad_request ''hash must be a hex SHA-256 digest''
      else
        (case GetBundle lib db hash of
           Inl e \<Rightarrow>
             if errors_Is e ErrAppNotFound then writeInternalError 404 kindNotFound ''no such bundle''
             else unavailable ''could not read the bundle''
         | Inr b \<Rightarrow> Answer 200 (BundleBody b)))"

section \<open>Viewer tokens\<close>

record verify_token_request =
  vt_AppID :: string
  vt_TokenID :: string
  vt_Secret :: string

definition handleVerifyViewerToken :: "app_lib \<Rightarrow> app_db \<Rightarrow> verify_token_request decoded \<Rightarrow> answer" where
  "handleVerifyViewerToken lib db d =
     readInternalJSON d (\<lambda>r.
       if nl_uuid_Parse lib (vt_AppID r) = None then bad_request ''invalid app_id''
       else if nl_uuid_Parse lib (vt_TokenID r) = None then bad_request ''invalid token_id''
       else if vt_Secret r = [] then bad_request ''\"secret\" is required''
       else
         (case VerifyToken lib db (vt_AppID r) (vt_TokenID r) (vt_Secret r) of
            Inl _ \<Rightarrow> unavailable ''could not verify the viewer token''
          | Inr ok \<Rightarrow> Answer 200 (OkBody ok)))"

definition handleTokenActive :: "app_lib \<Rightarrow> app_db \<Rightarrow> (string \<times> string) decoded \<Rightarrow> answer" where
  "handleTokenActive lib db d =
     readInternalJSON d (\<lambda>(appID, tokenID).
       if nl_uuid_Parse lib appID = None then bad_request ''invalid app_id''
       else if nl_uuid_Parse lib tokenID = None then bad_request ''invalid token_id''
       else
         (case TokenActive lib db appID tokenID of
            Inl _ \<Rightarrow> unavailable ''could not check the viewer token''
          | Inr active \<Rightarrow> Answer 200 (ActiveBody active)))"

section \<open>Sessions\<close>

definition ForwardedAuthorizationHeader :: string where
  "ForwardedAuthorizationHeader = ''X-Datuplet-Forwarded-Authorization''"

text \<open>The resolver sees the caller's credential or none, never the service credential.\<close>

definition callerCredentialRequest :: "header \<Rightarrow> header" where
  "callerCredentialRequest h =
     (let forwarded = Header_Get h ForwardedAuthorizationHeader in
      Header_Del ForwardedAuthorizationHeader
        (if forwarded \<noteq> [] then Header_Set ''Authorization'' forwarded h else Header_Del ''Authorization'' h))"

definition relationRead :: string where
  "relationRead = ''describe_effective''"

record session_deps =
  sd_UserFor :: "header \<Rightarrow> go_error + uuid option"
  sd_LakekeeperProjectID :: "uuid \<Rightarrow> go_error + string"
  sd_Check :: "string \<Rightarrow> string \<Rightarrow> object_ref \<Rightarrow> go_error + bool"

definition handleVerifySession :: "app_lib \<Rightarrow> session_deps \<Rightarrow> header \<Rightarrow> string decoded \<Rightarrow> answer" where
  "handleVerifySession lib deps h d =
     readInternalJSON d (\<lambda>pid_text.
       case nl_uuid_Parse lib pid_text of
         None \<Rightarrow> bad_request ''invalid pid''
       | Some pid \<Rightarrow>
           (case sd_UserFor deps (callerCredentialRequest h) of
              Inl _ \<Rightarrow> unavailable ''could not verify the session''
            | Inr None \<Rightarrow> Answer 200 (SessionBody [] False)
            | Inr (Some user) \<Rightarrow>
                let uid = nl_uuid_String lib user in
                (case sd_LakekeeperProjectID deps pid of
                   Inl e \<Rightarrow>
                     if errors_Is e ErrAppNotFound then Answer 200 (SessionBody uid False)
                     else unavailable ''could not read the project''
                 | Inr lk \<Rightarrow>
                     if lk = [] then unavailable ''project authz not yet provisioned (lakekeeper project pending)''
                     else
                       (case sd_Check deps (Object_String (UserObject uid)) relationRead (ProjectObject lk) of
                          Inl _ \<Rightarrow> unavailable ''authz backend unavailable''
                        | Inr member \<Rightarrow> Answer 200 (SessionBody uid member)))))"

section \<open>Impersonation and render logs\<close>

definition mustGetApp :: "app_lib \<Rightarrow> app_db \<Rightarrow> string \<Rightarrow> answer + app" where
  "mustGetApp lib db appID =
     (case GetByID lib db appID of
        Inl e \<Rightarrow>
          Inl (if errors_Is e ErrAppNotFound then writeInternalError 404 kindNotFound ''no such app''
               else unavailable ''could not read the app'')
      | Inr a \<Rightarrow> Inr a)"

text \<open>The identity and the project of the minted token come from the row.\<close>

definition handleImpersonate :: "app_lib \<Rightarrow> app_db \<Rightarrow> (string \<Rightarrow> string \<Rightarrow> go_error + string) \<Rightarrow> string decoded \<Rightarrow> answer" where
  "handleImpersonate lib db mint d =
     readInternalJSON d (\<lambda>appID.
       if nl_uuid_Parse lib appID = None then bad_request ''invalid app_id''
       else
         (case mustGetApp lib db appID of
            Inl a \<Rightarrow> a
          | Inr a \<Rightarrow>
              (case mint (ap_ID a) (ap_ProjectID a) of
                 Inl _ \<Rightarrow> unavailable ''could not mint the app credential''
               | Inr token \<Rightarrow> Answer 200 (TokenBody token))))"

record append_log_request =
  al_RequestID :: string
  al_AppID :: string
  al_VersionHash :: string
  al_Channel :: string
  al_PrincipalKind :: string
  al_PrincipalID :: string
  al_StartedAt :: string
  al_DurationMS :: int
  al_Outcome :: string
  al_LogText :: string
  al_Error :: string

definition toRecord :: "app_lib \<Rightarrow> (string \<Rightarrow> time_ns option) \<Rightarrow> string \<Rightarrow> time_ns \<Rightarrow> append_log_request \<Rightarrow> answer + log_record" where
  "toRecord lib parse_time appID now r =
     (if al_AppID r \<noteq> [] \<and> al_AppID r \<noteq> appID then Inl (bad_request ''app_id in the body does not match the path'')
      else if nl_uuid_Parse lib (al_RequestID r) = None then Inl (bad_request ''request_id must be a UUID'')
      else if \<not> bundleHashRe (al_VersionHash r) then Inl (bad_request ''version_hash must be a hex SHA-256 digest'')
      else if \<not> channel_valid (al_Channel r) then Inl (bad_request ''channel must be \"production\" or \"draft\"'')
      else if al_PrincipalKind r \<notin> {''viewer_token'', ''platform_user''} then
        Inl (bad_request ''principal_kind must be \"viewer_token\" or \"platform_user\"'')
      else if al_Outcome r = [] then Inl (bad_request ''\"outcome\" is required'')
      else if al_DurationMS r < 0 then Inl (bad_request ''duration_ms must not be negative'')
      else
        (case if al_StartedAt r = [] then Some now else parse_time (al_StartedAt r) of
           None \<Rightarrow> Inl (bad_request ''started_at must be an RFC3339 timestamp'')
         | Some started \<Rightarrow>
             Inr \<lparr>lr_RequestID = al_RequestID r, lr_AppID = appID, lr_VersionHash = al_VersionHash r, lr_Channel = al_Channel r,
               lr_PrincipalKind = al_PrincipalKind r, lr_PrincipalID = al_PrincipalID r, lr_StartedAt = started,
               lr_DurationMS = al_DurationMS r, lr_Outcome = al_Outcome r, lr_LogText = take MaxRenderLogBytes (al_LogText r),
               lr_Error = take MaxRenderLogBytes (al_Error r)\<rparr>))"

definition handleAppendLog :: "app_lib \<Rightarrow> (string \<Rightarrow> time_ns option) \<Rightarrow> int \<Rightarrow> string \<Rightarrow> append_log_request decoded \<Rightarrow> time_ns \<Rightarrow>
    app_db \<Rightarrow> answer \<times> app_db" where
  "handleAppendLog lib parse_time retention appID d now db =
     (if nl_uuid_Parse lib appID = None then (bad_request ''invalid app id'', db)
      else
        (case d of
           Decoded r \<Rightarrow>
             (case toRecord lib parse_time appID now r of
                Inl a \<Rightarrow> (a, db)
              | Inr rec \<Rightarrow>
                  (case mustGetApp lib db appID of
                     Inl a \<Rightarrow> (a, db)
                   | Inr _ \<Rightarrow>
                       (case AppendRenderLog lib retention rec now db of
                          (Inl _, db') \<Rightarrow> (unavailable ''could not append the render log'', db')
                        | (Inr _, db') \<Rightarrow> (Answer 204 NoBody, db'))))
         | _ \<Rightarrow> (readInternalJSON d (\<lambda>_. Answer 204 NoBody), db)))"

section \<open>What the answers about viewer tokens say\<close>

text \<open>An answer about a token is given for well-formed identifiers only, and repeats what the store says.\<close>

lemma handleTokenActive_ok:
  "handleTokenActive lib db (Decoded (a, t)) = Answer 200 (ActiveBody v) \<longleftrightarrow> TokenActive lib db a t = Inr v"
  by (auto simp: handleTokenActive_def readInternalJSON_def bad_request_def unavailable_def writeInternalError_def
      TokenActive_def with_ids_def parse_id_def split: option.splits sum.splits)

lemma handleVerifyViewerToken_ok:
  "handleVerifyViewerToken lib db (Decoded \<lparr>vt_AppID = a, vt_TokenID = t, vt_Secret = x\<rparr>) = Answer 200 (OkBody v) \<longleftrightarrow>
   x \<noteq> [] \<and> VerifyToken lib db a t x = Inr v"
  by (auto simp: handleVerifyViewerToken_def readInternalJSON_def bad_request_def unavailable_def writeInternalError_def
      VerifyToken_def with_ids_def parse_id_def split: option.splits sum.splits)

lemma TokenActive_parses:
  "TokenActive lib db a t = Inr v \<Longrightarrow> (\<exists>i. nl_uuid_Parse lib a = Some i) \<and> (\<exists>i. nl_uuid_Parse lib t = Some i)"
  "VerifyToken lib db a t x = Inr v \<Longrightarrow> (\<exists>i. nl_uuid_Parse lib a = Some i) \<and> (\<exists>i. nl_uuid_Parse lib t = Some i)"
  by (auto simp: TokenActive_def VerifyToken_def with_ids_def parse_id_def split: option.splits)

text \<open>No secret passes for a token that is not active.\<close>

lemma inactive_rejects:
  "TokenActive lib db a t = Inr False \<Longrightarrow> VerifyToken lib db a t x = Inr False"
  by (auto simp: TokenActive_def VerifyToken_def with_ids_def parse_id_def find_token_def split: option.splits)

text \<open>The gate lets nothing through but requests with the credential it was built from.\<close>

lemma Matches_exact:
  assumes "inj (nl_Sum256 lib)" "NewServiceToken lib secret = Inr t"
  shows "Matches lib (Some t) presented \<longleftrightarrow> presented = secret"
proof -
  have "strings_TrimSpace secret \<noteq> []" and t: "t = \<lparr>st_digest = nl_Sum256 lib secret\<rparr>"
    using assms(2) by (auto simp: NewServiceToken_def split: if_splits)
  then have "secret \<noteq> []" using set_TrimSpace[of secret] by auto
  then show ?thesis using t inj_eq[OF assms(1)] by (auto simp: Matches_def)
qed

lemma requireServiceToken_exact:
  assumes "inj (nl_Sum256 lib)" "NewServiceToken lib secret = Inr t"
  shows "requireServiceToken lib (Some t) handle_rest h =
    (if bearerToken (Header_Get h ''Authorization'') = Some secret then handle_rest h
     else writeInternalError 401 kindUnauthorized ''invalid or missing internal service credential'')"
  by (cases "bearerToken (Header_Get h ''Authorization'')") (simp_all add: requireServiceToken_def Matches_exact[OF assms])

text \<open>The service credential never reaches the session resolver.\<close>

lemma Header_Get_simps:
  "Header_Get (Header_Set k v h) j = (if j = k then v else Header_Get h j)"
  "Header_Get (Header_Del k h) j = (if j = k then [] else Header_Get h j)"
  by (simp_all add: Header_Get_def Header_Set_def Header_Del_def map_simps)

lemma forwarded_not_authorization: "''Authorization'' \<noteq> ForwardedAuthorizationHeader"
  by (simp add: ForwardedAuthorizationHeader_def)

lemma callerCredential_is_forwarded:
  "Header_Get (callerCredentialRequest h) ''Authorization'' = Header_Get h ForwardedAuthorizationHeader"
  using forwarded_not_authorization by (simp add: callerCredentialRequest_def Let_def Header_Get_simps)

end
