(* ===== verification/Worker_Client.thy ===== *)
theory Worker_Client
  imports App_Internal
begin

text \<open>
  The app worker's client of pipeline-api (\<open>pkg/appworker/apiclient.go\<close>) with its caches. What an outgoing call brings
  back, how long it takes and what other requests do to the caches meanwhile is up to an environment: it answers the
  request this caller sends (\<open>Lead\<close>), or hands over the result of a call another one has in flight (\<open>Join\<close>, the
  single-flight group), and leaves the world as it is when the answer arrives.
\<close>

section \<open>Constants and errors\<close>

definition resolveCacheTTL :: int where "resolveCacheTTL = 15 * second"
definition sessionCacheTTL :: int where "sessionCacheTTL = 15 * second"
definition verifyTokenPositiveTTL :: int where "verifyTokenPositiveTTL = 15 * second"
definition verifyTokenNegativeTTL :: int where "verifyTokenNegativeTTL = 60 * second"
definition tokenActiveCacheTTL :: int where "tokenActiveCacheTTL = 15 * second"
definition defaultHTTPTimeout :: int where "defaultHTTPTimeout = 30 * second"
definition defaultBundleCacheBytes :: nat where "defaultBundleCacheBytes = 256 * 1024 * 1024"
definition defaultLogQueueSize :: nat where "defaultLogQueueSize = 256"

datatype client_error =
    APIError int string string  \<comment> \<open>status, kind, message\<close>
  | ClientError string

datatype reply = NoReply string | Reply answer  \<comment> \<open>a transport error, or an answer\<close>

record resolved_ref =
  rf_AppID :: string
  rf_VersionHash :: string

record session_info =
  si_UserID :: string
  si_ProjectMember :: bool

section \<open>The time-limited cache\<close>

type_synonym 'v ttl_cache = "(string \<times> ('v \<times> time_ns)) list"

definition cache_get :: "time_ns \<Rightarrow> 'v ttl_cache \<Rightarrow> string \<Rightarrow> 'v option" where
  "cache_get now c key =
     (case map_of c key of
        None \<Rightarrow> None
      | Some (v, expiresAt) \<Rightarrow> if now < expiresAt then Some v else None)"

definition cache_set :: "time_ns \<Rightarrow> string \<Rightarrow> 'v \<Rightarrow> int \<Rightarrow> 'v ttl_cache \<Rightarrow> 'v ttl_cache" where
  "cache_set now key v ttl c = assoc_put key (v, now + ttl) c"

definition hashKey :: "app_lib \<Rightarrow> string list \<Rightarrow> string" where
  "hashKey lib parts = hex_EncodeToString (nl_Sum256 lib (concat (map (\<lambda>p. p @ [CHR 0x00]) parts)))"

definition sha256Hex :: "app_lib \<Rightarrow> string \<Rightarrow> string" where
  "sha256Hex lib b = hex_EncodeToString (nl_Sum256 lib b)"

section \<open>The bundle cache\<close>

text \<open>Most recently used first. \<open>curBytes\<close> is kept beside the entries, as in the code.\<close>

record bundle_lru =
  lru_maxBytes :: nat
  lru_curBytes :: int
  lru_order :: "(string \<times> string) list"

definition newBundleLRU :: "nat \<Rightarrow> bundle_lru" where
  "newBundleLRU n = \<lparr>lru_maxBytes = n, lru_curBytes = 0, lru_order = []\<rparr>"

definition move_to_front :: "string \<Rightarrow> string \<Rightarrow> (string \<times> string) list \<Rightarrow> (string \<times> string) list" where
  "move_to_front h d xs = (h, d) # filter (\<lambda>p. fst p \<noteq> h) xs"

definition lru_get :: "string \<Rightarrow> bundle_lru \<Rightarrow> string option \<times> bundle_lru" where
  "lru_get hash c =
     (case map_of (lru_order c) hash of
        None \<Rightarrow> (None, c)
      | Some d \<Rightarrow> (Some d, c\<lparr>lru_order := move_to_front hash d (lru_order c)\<rparr>))"

function evict_for :: "int \<Rightarrow> bundle_lru \<Rightarrow> bundle_lru" where
  "evict_for n c =
     (if int (lru_maxBytes c) < lru_curBytes c + n \<and> lru_order c \<noteq> [] then
        evict_for n (c\<lparr>lru_curBytes := lru_curBytes c - int (length (snd (last (lru_order c)))), lru_order := butlast (lru_order c)\<rparr>)
      else c)"
  by pat_completeness auto
termination by (relation "measure (\<lambda>(_, c). length (lru_order c))") auto

declare evict_for.simps [simp del]

definition lru_put :: "string \<Rightarrow> string \<Rightarrow> bundle_lru \<Rightarrow> bundle_lru" where
  "lru_put hash data c =
     (let n = int (length data) in
      case map_of (lru_order c) hash of
        Some d \<Rightarrow> c\<lparr>lru_order := move_to_front hash d (lru_order c)\<rparr>
      | None \<Rightarrow>
          if int (lru_maxBytes c) < n then c
          else
            let c' = evict_for n c in
            c'\<lparr>lru_curBytes := lru_curBytes c' + n, lru_order := (hash, data) # lru_order c'\<rparr>)"

section \<open>The client\<close>

record api_client =
  ac_resolve :: "resolved_ref ttl_cache"
  ac_positive :: "bool ttl_cache"
  ac_inactive :: "bool ttl_cache"
  ac_wrong :: "bool ttl_cache"
  ac_active :: "bool ttl_cache"
  ac_session :: "session_info ttl_cache"
  ac_bundles :: bundle_lru
  ac_maxBundleBytes :: nat
  ac_logQueue :: "log_record list"
  ac_logCap :: nat

record client_world =
  cw_now :: time_ns
  cw_client :: api_client

datatype 'a flight = Lead reply | Join "client_error + 'a"

record 'z env =
  en_resolve :: "string \<Rightarrow> string \<Rightarrow> string \<Rightarrow> 'z client_world_scheme \<Rightarrow> resolved_ref flight \<times> 'z client_world_scheme"
  en_resolve_draft :: "string \<Rightarrow> string \<Rightarrow> 'z client_world_scheme \<Rightarrow> reply \<times> 'z client_world_scheme"
  en_bundle :: "string \<Rightarrow> 'z client_world_scheme \<Rightarrow> string flight \<times> 'z client_world_scheme"
  en_verify :: "string \<Rightarrow> string \<Rightarrow> string \<Rightarrow> 'z client_world_scheme \<Rightarrow> bool flight \<times> 'z client_world_scheme"
  en_active :: "string \<Rightarrow> string \<Rightarrow> 'z client_world_scheme \<Rightarrow> bool flight \<times> 'z client_world_scheme"
  en_session :: "string \<Rightarrow> string \<Rightarrow> string \<Rightarrow> 'z client_world_scheme \<Rightarrow> session_info flight \<times> 'z client_world_scheme"
  en_impersonate :: "string \<Rightarrow> 'z client_world_scheme \<Rightarrow> reply \<times> 'z client_world_scheme"
  en_query :: "string \<Rightarrow> string \<Rightarrow> string \<Rightarrow> 'z client_world_scheme \<Rightarrow> (string + int \<times> string) \<times> 'z client_world_scheme"

definition NewAPIClient :: "nat option \<Rightarrow> nat option \<Rightarrow> nat option \<Rightarrow> api_client" where
  "NewAPIClient bundle_cache max_bundle queue =
     \<lparr>ac_resolve = [], ac_positive = [], ac_inactive = [], ac_wrong = [], ac_active = [], ac_session = [],
      ac_bundles = newBundleLRU (case bundle_cache of None \<Rightarrow> defaultBundleCacheBytes | Some n \<Rightarrow> n),
      ac_maxBundleBytes = (case max_bundle of None \<Rightarrow> nat MaxBundleBytes | Some n \<Rightarrow> n), ac_logQueue = [],
      ac_logCap = (case queue of None \<Rightarrow> defaultLogQueueSize | Some n \<Rightarrow> n)\<rparr>"

definition on_client :: "(api_client \<Rightarrow> api_client) \<Rightarrow> 'z client_world_scheme \<Rightarrow> 'z client_world_scheme" where
  "on_client f w = w\<lparr>cw_client := f (cw_client w)\<rparr>"

section \<open>Answers\<close>

fun parseAPIError :: "answer \<Rightarrow> client_error" where
  "parseAPIError (Answer st (ErrorBody kind msg)) = APIError st kind msg"
| "parseAPIError (Answer st _) = APIError st [] []"

text \<open>\<open>body\<close> is what decoding into the expected shape gives.\<close>

definition doInternal :: "string \<Rightarrow> (answer_body \<Rightarrow> 'a option) \<Rightarrow> reply \<Rightarrow> client_error + 'a" where
  "doInternal path body r =
     (case r of
        NoReply e \<Rightarrow> Inl (ClientError (''appworker: call pipeline-api '' @ path @ '': '' @ e))
      | Reply (Answer st b) \<Rightarrow>
          if st < 200 \<or> 300 \<le> st then Inl (parseAPIError (Answer st b))
          else
            (case body b of
               None \<Rightarrow> Inl (ClientError ''appworker: decode pipeline-api response'')
             | Some v \<Rightarrow> Inr v))"

fun resolve_body :: "answer_body \<Rightarrow> resolved_ref option" where
  "resolve_body (ResolveBody a h) = Some \<lparr>rf_AppID = a, rf_VersionHash = h\<rparr>"
| "resolve_body _ = None"

fun ok_body :: "answer_body \<Rightarrow> bool option" where
  "ok_body (OkBody v) = Some v"
| "ok_body _ = None"

fun active_body :: "answer_body \<Rightarrow> bool option" where
  "active_body (ActiveBody v) = Some v"
| "active_body _ = None"

fun session_body :: "answer_body \<Rightarrow> session_info option" where
  "session_body (SessionBody u m) = Some \<lparr>si_UserID = u, si_ProjectMember = m\<rparr>"
| "session_body _ = None"

fun token_body :: "answer_body \<Rightarrow> string option" where
  "token_body (TokenBody t) = Some t"
| "token_body _ = None"

text \<open>\<open>doSingleflight\<close>: the leader runs \<open>fn\<close> on its reply, a follower shares the leader's result.\<close>

definition doSingleflight :: "'a flight \<times> 'z client_world_scheme \<Rightarrow>
    (reply \<Rightarrow> 'z client_world_scheme \<Rightarrow> (client_error + 'a) \<times> 'z client_world_scheme) \<Rightarrow> (client_error + 'a) \<times> 'z client_world_scheme" where
  "doSingleflight fl fn = (case fl of (Join r, w) \<Rightarrow> (r, w) | (Lead r, w) \<Rightarrow> fn r w)"

section \<open>Operations\<close>

definition client_Resolve :: "app_lib \<Rightarrow> 'z env \<Rightarrow> string \<Rightarrow> string \<Rightarrow> string \<Rightarrow> 'z client_world_scheme \<Rightarrow>
    (client_error + resolved_ref) \<times> 'z client_world_scheme" where
  "client_Resolve lib en pid name chan w =
     (let channel = (if chan = [] then ''production'' else chan);
          key = hashKey lib [''resolve'', pid, name, channel];
          fetch = doInternal (''/internal/v1/apps/'' @ pid @ ''/'' @ name @ ''/resolve'') resolve_body in
      if channel = ''draft'' then
        (case en_resolve_draft en pid name w of (r, w') \<Rightarrow> (fetch r, w'))
      else
        (case cache_get (cw_now w) (ac_resolve (cw_client w)) key of
           Some v \<Rightarrow> (Inr v, w)
         | None \<Rightarrow>
             doSingleflight (en_resolve en pid name channel w) (\<lambda>r w'.
               case fetch r of
                 Inl e \<Rightarrow> (Inl e, w')
               | Inr v \<Rightarrow> (Inr v, on_client (\<lambda>c. c\<lparr>ac_resolve := cache_set (cw_now w') key v resolveCacheTTL (ac_resolve c)\<rparr>) w'))))"

text \<open>The body is read up to one byte past the cap.\<close>

definition Bundle :: "app_lib \<Rightarrow> 'z env \<Rightarrow> string \<Rightarrow> 'z client_world_scheme \<Rightarrow> (client_error + string) \<times> 'z client_world_scheme" where
  "Bundle lib en hash w =
     (case lru_get hash (ac_bundles (cw_client w)) of
        (Some d, b) \<Rightarrow> (Inr d, on_client (\<lambda>c. c\<lparr>ac_bundles := b\<rparr>) w)
      | (None, _) \<Rightarrow>
          doSingleflight (en_bundle en hash w) (\<lambda>r w'.
            case r of
              NoReply e \<Rightarrow> (Inl (ClientError (''appworker: fetch bundle '' @ hash @ '': '' @ e)), w')
            | Reply (Answer st b) \<Rightarrow>
                if st < 200 \<or> 300 \<le> st then (Inl (parseAPIError (Answer st b)), w')
                else
                  let cap = ac_maxBundleBytes (cw_client w');
                      data = take (cap + 1) (case b of BundleBody d \<Rightarrow> d | _ \<Rightarrow> []) in
                  if cap < length data then
                    (Inl (ClientError (''appworker: bundle '' @ hash @ '' exceeds '' @ fmt_d (int cap) @ ''-byte structural cap'')), w')
                  else if sha256Hex lib data \<noteq> hash then
                    (Inl (ClientError (''appworker: bundle hash mismatch: want '' @ hash @ '', got '' @ sha256Hex lib data)), w')
                  else (Inr data, on_client (\<lambda>c. c\<lparr>ac_bundles := lru_put hash data (ac_bundles c)\<rparr>) w')))"

definition CheckTokenActive :: "app_lib \<Rightarrow> 'z env \<Rightarrow> string \<Rightarrow> string \<Rightarrow> 'z client_world_scheme \<Rightarrow>
    (client_error + bool) \<times> 'z client_world_scheme" where
  "CheckTokenActive lib en appID tokenID w =
     (let key = hashKey lib [''token-active'', appID, tokenID] in
      case cache_get (cw_now w) (ac_active (cw_client w)) key of
        Some v \<Rightarrow> (Inr v, w)
      | None \<Rightarrow>
          doSingleflight (en_active en appID tokenID w) (\<lambda>r w'.
            case doInternal ''/internal/v1/viewer-tokens/active'' active_body r of
              Inl e \<Rightarrow> (Inl e, w')
            | Inr v \<Rightarrow> (Inr v, on_client (\<lambda>c. c\<lparr>ac_active := cache_set (cw_now w') key v tokenActiveCacheTTL (ac_active c)\<rparr>) w')))"

text \<open>A rejection is remembered for the pair if the token is inactive, for the whole triple if the secret is wrong, and
  not at all if it cannot be told which.\<close>

definition classify :: "app_lib \<Rightarrow> 'z env \<Rightarrow> string \<Rightarrow> string \<Rightarrow> string \<Rightarrow> 'z client_world_scheme \<Rightarrow> 'z client_world_scheme" where
  "classify lib en appID tokenID secret w =
     (case CheckTokenActive lib en appID tokenID w of
        (Inl _, w') \<Rightarrow> w'
      | (Inr True, w') \<Rightarrow>
          on_client (\<lambda>c. c\<lparr>ac_wrong := cache_set (cw_now w')
            (hashKey lib [''verify-token-wrong-secret'', appID, tokenID, secret]) False verifyTokenNegativeTTL (ac_wrong c)\<rparr>) w'
      | (Inr False, w') \<Rightarrow>
          on_client (\<lambda>c. c\<lparr>ac_inactive := cache_set (cw_now w')
            (hashKey lib [''verify-token-inactive'', appID, tokenID]) False verifyTokenNegativeTTL (ac_inactive c)\<rparr>) w')"

definition client_VerifyToken :: "app_lib \<Rightarrow> 'z env \<Rightarrow> string \<Rightarrow> string \<Rightarrow> string \<Rightarrow> 'z client_world_scheme \<Rightarrow>
    (client_error + bool) \<times> 'z client_world_scheme" where
  "client_VerifyToken lib en appID tokenID secret w =
     (let positiveKey = hashKey lib [''verify-token-pos'', appID, tokenID, secret] in
      case cache_get (cw_now w) (ac_positive (cw_client w)) positiveKey of
        Some v \<Rightarrow> (Inr v, w)
      | None \<Rightarrow>
          if cache_get (cw_now w) (ac_inactive (cw_client w)) (hashKey lib [''verify-token-inactive'', appID, tokenID]) \<noteq> None
          then (Inr False, w)
          else if cache_get (cw_now w) (ac_wrong (cw_client w))
            (hashKey lib [''verify-token-wrong-secret'', appID, tokenID, secret]) \<noteq> None then (Inr False, w)
          else
            doSingleflight (en_verify en appID tokenID secret w) (\<lambda>r w'.
              case doInternal ''/internal/v1/viewer-tokens/verify'' ok_body r of
                Inl e \<Rightarrow> (Inl e, w')
              | Inr True \<Rightarrow>
                  (Inr True, on_client (\<lambda>c. c\<lparr>ac_positive :=
                     cache_set (cw_now w') positiveKey True verifyTokenPositiveTTL (ac_positive c)\<rparr>) w')
              | Inr False \<Rightarrow> (Inr False, classify lib en appID tokenID secret w')))"

definition VerifySession :: "app_lib \<Rightarrow> 'z env \<Rightarrow> string \<Rightarrow> string \<Rightarrow> string \<Rightarrow> 'z client_world_scheme \<Rightarrow>
    (client_error + session_info) \<times> 'z client_world_scheme" where
  "VerifySession lib en pid cookies authz w =
     (let key = hashKey lib [''session'', pid, cookies, authz] in
      case cache_get (cw_now w) (ac_session (cw_client w)) key of
        Some v \<Rightarrow> (Inr v, w)
      | None \<Rightarrow>
          doSingleflight (en_session en pid cookies authz w) (\<lambda>r w'.
            case doInternal ''/internal/v1/sessions/verify'' session_body r of
              Inl e \<Rightarrow> (Inl e, w')
            | Inr v \<Rightarrow> (Inr v, on_client (\<lambda>c. c\<lparr>ac_session := cache_set (cw_now w') key v sessionCacheTTL (ac_session c)\<rparr>) w')))"

definition Impersonate :: "'z env \<Rightarrow> string \<Rightarrow> 'z client_world_scheme \<Rightarrow> (client_error + string) \<times> 'z client_world_scheme" where
  "Impersonate en appID w =
     (case en_impersonate en appID w of (r, w') \<Rightarrow> (doInternal ''/internal/v1/impersonate'' token_body r, w'))"

definition AppendLog :: "log_record \<Rightarrow> 'z client_world_scheme \<Rightarrow> bool \<times> 'z client_world_scheme" where
  "AppendLog rec w =
     (if length (ac_logQueue (cw_client w)) < ac_logCap (cw_client w)
      then (True, on_client (\<lambda>c. c\<lparr>ac_logQueue := ac_logQueue c @ [rec]\<rparr>) w)
      else (False, w))"

end
