(* ===== verification/Worker_Auth.thy ===== *)
theory Worker_Auth
  imports Worker_Client
begin

text \<open>
  Viewer authentication of the app worker (\<open>pkg/appworker/auth.go\<close>) with its configuration (\<open>config.go\<close>): the session
  cookie, the client address, the buckets against guessing and overload, and \<open>authenticate\<close> with its three credential
  channels. The token bucket (\<open>golang.org/x/time/rate\<close>), HMAC, the JSON form of the cookie and the parsing of
  addresses are parameters. Time passes only while a call to pipeline-api is out.
\<close>

section \<open>Requests and responses\<close>

record http_req =
  rq_Method :: string
  rq_Path :: string
  rq_EscapedPath :: string
  rq_RequestURI :: string
  rq_Query :: "(string \<times> string list) list option"  \<comment> \<open>None: \<open>url.ParseQuery\<close> fails\<close>
  rq_ValidQuery :: "(string \<times> string list) list"  \<comment> \<open>the pairs \<open>URL.Query\<close> keeps\<close>
  rq_Headers :: "(string \<times> string list) list"
  rq_Cookies :: "(string \<times> string) list"
  rq_Host :: string
  rq_TLS :: bool
  rq_RemoteAddr :: string
  rq_Body :: string

definition values_of :: "(string \<times> string list) list \<Rightarrow> string \<Rightarrow> string list" where
  "values_of m k = (case map_of m k of None \<Rightarrow> [] | Some vs \<Rightarrow> vs)"

definition first_value :: "(string \<times> string list) list \<Rightarrow> string \<Rightarrow> string" where
  "first_value m k = (case values_of m k of [] \<Rightarrow> [] | v # _ \<Rightarrow> v)"

record set_cookie =
  sc_Name :: string
  sc_Value :: string
  sc_Path :: string
  sc_MaxAge :: int
  sc_HttpOnly :: bool
  sc_Secure :: bool
  sc_SameSite :: string

record http_resp =
  rp_Status :: int
  rp_Kind :: string
  rp_Msg :: string
  rp_RetryAfter :: "int option"
  rp_SetCookie :: "set_cookie option"
  rp_Location :: "(string \<times> (string \<times> string list) list) option"

record principal =
  pr_Kind :: string
  pr_ID :: string

record resolved_app =
  ra_ProjectID :: string
  ra_Name :: string
  ra_Channel :: string
  ra_AppID :: string
  ra_VersionHash :: string

definition isDraft :: "resolved_app \<Rightarrow> bool" where
  "isDraft ra \<longleftrightarrow> ra_Channel ra = ''draft''"

definition cookiePath :: "resolved_app \<Rightarrow> string" where
  "cookiePath ra = ''/apps/'' @ ra_ProjectID ra @ ''/'' @ ra_Name ra"

definition errKindUnauthorized :: string where "errKindUnauthorized = ''unauthorized''"
definition errKindUnavailable :: string where "errKindUnavailable = ''unavailable''"
definition errKindRateLimited :: string where "errKindRateLimited = ''rate_limited''"

definition err_resp :: "int \<Rightarrow> string \<Rightarrow> string \<Rightarrow> http_resp" where
  "err_resp status kind msg =
     \<lparr>rp_Status = status, rp_Kind = kind, rp_Msg = msg, rp_RetryAfter = None, rp_SetCookie = None, rp_Location = None\<rparr>"

definition failViewerToken :: http_resp where
  "failViewerToken = err_resp 403 errKindUnauthorized ''invalid viewer token''"

definition failRateLimited :: "int \<Rightarrow> http_resp" where
  "failRateLimited retryAfter =
     (err_resp 429 errKindRateLimited ''rate limited'')\<lparr>rp_RetryAfter := Some (max 1 retryAfter)\<rparr>"

section \<open>Session cookies\<close>

record cookie_payload =
  cp_AppID :: string
  cp_TokenID :: string
  cp_Exp :: int

record cookie_lib =
  cl_hmac :: "string \<Rightarrow> string \<Rightarrow> string"
  cl_encode :: "string \<Rightarrow> string"
  cl_decode :: "string \<Rightarrow> string option"
  cl_marshal :: "cookie_payload \<Rightarrow> string"
  cl_unmarshal :: "string \<Rightarrow> cookie_payload option"

datatype cookie_error = errCookieMalformed | errCookieBadSignature | errCookiePayload

definition cut :: "char \<Rightarrow> string \<Rightarrow> (string \<times> string) option" where
  "cut c s = (if c \<in> set s then Some (takeWhile (\<lambda>x. x \<noteq> c) s, tl (dropWhile (\<lambda>x. x \<noteq> c) s)) else None)"

definition signCookie :: "cookie_lib \<Rightarrow> string \<Rightarrow> string \<Rightarrow> string \<Rightarrow> time_ns \<Rightarrow> string" where
  "signCookie cl key appID tokenID exp =
     (let segment = cl_encode cl (cl_marshal cl \<lparr>cp_AppID = appID, cp_TokenID = tokenID, cp_Exp = exp div second\<rparr>) in
      segment @ ''.'' @ cl_encode cl (cl_hmac cl key segment))"

definition parseCookie :: "cookie_lib \<Rightarrow> string \<Rightarrow> string \<Rightarrow> cookie_error + cookie_payload" where
  "parseCookie cl key v =
     (case cut CHR ''.'' v of
        None \<Rightarrow> Inl errCookieMalformed
      | Some (segment, macSegment) \<Rightarrow>
          if segment = [] \<or> macSegment = [] \<or> CHR ''.'' \<in> set macSegment then Inl errCookieMalformed
          else
            (case cl_decode cl macSegment of
               None \<Rightarrow> Inl errCookieMalformed
             | Some mac \<Rightarrow>
                 if mac \<noteq> cl_hmac cl key segment then Inl errCookieBadSignature
                 else
                   (case cl_decode cl segment of
                      None \<Rightarrow> Inl errCookieMalformed
                    | Some raw \<Rightarrow>
                        (case cl_unmarshal cl raw of
                           None \<Rightarrow> Inl errCookieMalformed
                         | Some p \<Rightarrow>
                             if cp_AppID p = [] \<or> cp_TokenID p = [] \<or> cp_Exp p = 0 then Inl errCookiePayload
                             else Inr p))))"

definition parseViewerToken :: "string \<Rightarrow> (string \<times> string) option" where
  "parseViewerToken raw =
     (if \<not> strings_HasPrefix raw ''vw_'' then None
      else
        (case cut CHR ''.'' (drop 3 raw) of
           None \<Rightarrow> None
         | Some (tokenID, secret) \<Rightarrow> if tokenID = [] \<or> secret = [] then None else Some (tokenID, secret)))"

section \<open>The client address\<close>

text \<open>\<open>il_Parse\<close> is \<open>netip.ParseAddr\<close> with \<open>Unmap().String()\<close>; a network is its membership test on such texts.\<close>

record ip_lib =
  il_Parse :: "string \<Rightarrow> string option"
  il_ParsePrefix :: "string \<Rightarrow> (string \<Rightarrow> bool) option"
  il_SplitHostPort :: "string \<Rightarrow> string option"

record proxy_trust =
  pt_CIDRs :: "(string \<Rightarrow> bool) list"
  pt_Hops :: int

definition trust_Enabled :: "proxy_trust \<Rightarrow> bool" where
  "trust_Enabled t \<longleftrightarrow> pt_CIDRs t \<noteq> []"

definition trust_Contains :: "ip_lib \<Rightarrow> proxy_trust \<Rightarrow> string \<Rightarrow> bool" where
  "trust_Contains il t ip = (case il_Parse il ip of None \<Rightarrow> False | Some a \<Rightarrow> list_ex (\<lambda>p. p a) (pt_CIDRs t))"

definition parse_proxy :: "ip_lib \<Rightarrow> string \<Rightarrow> (string \<Rightarrow> bool) list" where
  "parse_proxy il part =
     (if part = [] then []
      else case il_ParsePrefix il part of Some p \<Rightarrow> [p] | None \<Rightarrow> (case il_Parse il part of Some a \<Rightarrow> [\<lambda>x. x = a] | None \<Rightarrow> []))"

definition parseTrustedProxies :: "ip_lib \<Rightarrow> string \<Rightarrow> (string \<Rightarrow> bool) list" where
  "parseTrustedProxies il l = concat (map (parse_proxy il \<circ> strings_TrimSpace) (split_on CHR '','' l))"

definition trim_brackets :: "string \<Rightarrow> string" where
  "trim_brackets s =
     (let b = (\<lambda>c. c = CHR ''['' \<or> c = CHR '']'') in rev (dropWhile b (rev (dropWhile b s))))"

definition normalizeIP :: "ip_lib \<Rightarrow> string \<Rightarrow> string option" where
  "normalizeIP il s0 =
     (let s = strings_TrimSpace s0 in
      if s = [] then None
      else
        (case il_Parse il (trim_brackets s) of
           Some a \<Rightarrow> Some a
         | None \<Rightarrow> (case il_SplitHostPort il s of None \<Rightarrow> None | Some host \<Rightarrow> il_Parse il (trim_brackets host))))"

definition canonicalOrRaw :: "ip_lib \<Rightarrow> string \<Rightarrow> string" where
  "canonicalOrRaw il s = (case normalizeIP il s of Some ip \<Rightarrow> ip | None \<Rightarrow> s)"

definition peer_of :: "ip_lib \<Rightarrow> string \<Rightarrow> string" where
  "peer_of il remoteAddr =
     (let host = (case il_SplitHostPort il remoteAddr of None \<Rightarrow> remoteAddr | Some h \<Rightarrow> h) in
      case normalizeIP il host of Some ip \<Rightarrow> ip | None \<Rightarrow> host)"

definition forwarded_chain :: "http_req \<Rightarrow> string list" where
  "forwarded_chain r =
     filter (\<lambda>p. p \<noteq> []) (map strings_TrimSpace (concat (map (split_on CHR '','') (values_of (rq_Headers r) ''X-Forwarded-For''))))"

text \<open>The scan from the right: \<open>Hops - 1\<close> entries are skipped, then those of trusted networks.\<close>

definition select_client :: "ip_lib \<Rightarrow> proxy_trust \<Rightarrow> string list \<Rightarrow> string option" where
  "select_client il t chain =
     (case dropWhile (\<lambda>e. trust_Contains il t (canonicalOrRaw il e)) (drop (nat (pt_Hops t - 1)) (rev chain)) of
        [] \<Rightarrow> None
      | e # _ \<Rightarrow> Some e)"

definition resolveClientIP :: "ip_lib \<Rightarrow> proxy_trust \<Rightarrow> http_req \<Rightarrow> string" where
  "resolveClientIP il t r =
     (let peer = peer_of il (rq_RemoteAddr r) in
      if \<not> trust_Enabled t \<or> \<not> trust_Contains il t peer then peer
      else
        (case select_client il t (forwarded_chain r) of
           None \<Rightarrow> peer
         | Some e \<Rightarrow> (case normalizeIP il e of None \<Rightarrow> peer | Some ip \<Rightarrow> ip)))"

section \<open>Rate limits\<close>

record ('l, 'r) rate_lib =
  lim_NewLimiter :: "int \<Rightarrow> int \<Rightarrow> 'l"  \<comment> \<open>events per minute, burst\<close>
  lim_ReserveN :: "'l \<Rightarrow> time_ns \<Rightarrow> 'r \<times> 'l"  \<comment> \<open>of one event\<close>
  lim_OK :: "'r \<Rightarrow> bool"
  lim_DelayFrom :: "'r \<Rightarrow> time_ns \<Rightarrow> int"
  lim_CancelAt :: "'r \<Rightarrow> time_ns \<Rightarrow> 'l \<Rightarrow> 'l"

text \<open>An entry has an identity: a reservation is cancelled at the bucket it was taken from, which may have left the map.\<close>

record 'l limiter_entry =
  le_id :: nat
  le_lim :: 'l
  le_lastSeen :: time_ns

record 'l registry =
  reg_perMinute :: int
  reg_burst :: int
  reg_idleTTL :: int
  reg_entries :: "(string \<times> 'l limiter_entry) list"
  reg_next :: nat

definition limiterSweepThreshold :: nat where
  "limiterSweepThreshold = 1024"

text \<open>The idle time is computed in floating point; for the three registries of the worker it is the value below.\<close>

definition newLimiterRegistry :: "int \<Rightarrow> int \<Rightarrow> 'l registry" where
  "newLimiterRegistry perMinute burst =
     \<lparr>reg_perMinute = perMinute, reg_burst = burst, reg_idleTTL = max (60 * second) ((burst * 60 div perMinute) * second),
      reg_entries = [], reg_next = 0\<rparr>"

definition sweep_idle :: "time_ns \<Rightarrow> 'l registry \<Rightarrow> 'l registry" where
  "sweep_idle now reg =
     (if limiterSweepThreshold \<le> length (reg_entries reg)
      then reg\<lparr>reg_entries := filter (\<lambda>(_, e). now - le_lastSeen e < reg_idleTTL reg) (reg_entries reg)\<rparr>
      else reg)"

definition limiter :: "('l, 'r) rate_lib \<Rightarrow> time_ns \<Rightarrow> string \<Rightarrow> 'l registry \<Rightarrow> 'l limiter_entry \<times> 'l registry" where
  "limiter rl now key reg0 =
     (let reg = sweep_idle now reg0 in
      case map_of (reg_entries reg) key of
        Some e \<Rightarrow> let e' = e\<lparr>le_lastSeen := now\<rparr> in (e', reg\<lparr>reg_entries := assoc_put key e' (reg_entries reg)\<rparr>)
      | None \<Rightarrow>
          let e = \<lparr>le_id = reg_next reg, le_lim = lim_NewLimiter rl (reg_perMinute reg) (reg_burst reg), le_lastSeen = now\<rparr> in
          (e, reg\<lparr>reg_entries := assoc_put key e (reg_entries reg), reg_next := Suc (reg_next reg)\<rparr>))"

definition update_limiter :: "nat \<Rightarrow> ('l \<Rightarrow> 'l) \<Rightarrow> 'l registry \<Rightarrow> 'l registry" where
  "update_limiter i f reg =
     reg\<lparr>reg_entries := map (\<lambda>(k, e). (k, if le_id e = i then e\<lparr>le_lim := f (le_lim e)\<rparr> else e)) (reg_entries reg)\<rparr>"

definition reserve :: "('l, 'r) rate_lib \<Rightarrow> time_ns \<Rightarrow> string \<Rightarrow> 'l registry \<Rightarrow> 'r \<times> nat \<times> 'l registry" where
  "reserve rl now key reg =
     (case limiter rl now key reg of (e, reg') \<Rightarrow>
        (case lim_ReserveN rl (le_lim e) now of (res, l) \<Rightarrow> (res, le_id e, update_limiter (le_id e) (\<lambda>_. l) reg')))"

definition reservationWait :: "('l, 'r) rate_lib \<Rightarrow> 'r \<Rightarrow> time_ns \<Rightarrow> int" where
  "reservationWait rl res now = (if \<not> lim_OK rl res then 60 * second else lim_DelayFrom rl res now)"

definition retryAfterSeconds :: "int \<Rightarrow> int" where
  "retryAfterSeconds d = max 1 (- ((- d) div second))"

definition verifyKey :: "string \<Rightarrow> string \<Rightarrow> string" where
  "verifyKey ip appID = ip @ [CHR 0x00] @ appID"

definition rateKeys :: "principal \<Rightarrow> string \<Rightarrow> string \<times> string" where
  "rateKeys p appID = (appID @ [CHR 0x00] @ pr_Kind p @ [CHR 0x00] @ pr_ID p, appID)"

record 'l worker = client_world +
  wk_principalLimits :: "'l registry"
  wk_appLimits :: "'l registry"
  wk_verifyLimits :: "'l registry"
  wk_inflight :: "(string \<times> nat) list"
  wk_freeSlots :: nat

record ('l, 'r) web_server =
  sr_lib :: app_lib
  sr_cookies :: cookie_lib
  sr_ip :: ip_lib
  sr_rate :: "('l, 'r) rate_lib"
  sr_api :: bool  \<comment> \<open>whether the client is wired\<close>
  sr_cookieKey :: string
  sr_trust :: proxy_trust

definition allowRender :: "('l, 'r) rate_lib \<Rightarrow> string \<Rightarrow> string \<Rightarrow> 'l worker \<Rightarrow> int option \<times> 'l worker" where
  "allowRender rl principalKey appKey w =
     (let now = cw_now w;
          (pres, pid, preg) = reserve rl now principalKey (wk_principalLimits w);
          (ares, aid, areg) = reserve rl now appKey (wk_appLimits w);
          pwait = reservationWait rl pres now; await = reservationWait rl ares now in
      if pwait \<le> 0 \<and> await \<le> 0 then (None, w\<lparr>wk_principalLimits := preg, wk_appLimits := areg\<rparr>)
      else
        (Some (retryAfterSeconds (max pwait await)),
         w\<lparr>wk_principalLimits := update_limiter pid (lim_CancelAt rl pres now) preg,
           wk_appLimits := update_limiter aid (lim_CancelAt rl ares now) areg\<rparr>))"

record 'r verify_budget =
  vb_res :: 'r
  vb_id :: nat
  vb_at :: time_ns

definition reserveVerifyAttempt :: "('l, 'r) rate_lib \<Rightarrow> string \<Rightarrow> string \<Rightarrow> 'l worker \<Rightarrow> 'r verify_budget option \<times> 'l worker" where
  "reserveVerifyAttempt rl ip appID w =
     (let now = cw_now w; (res, i, reg) = reserve rl now (verifyKey ip appID) (wk_verifyLimits w) in
      if \<not> lim_OK rl res \<or> 0 < lim_DelayFrom rl res now
      then (None, w\<lparr>wk_verifyLimits := update_limiter i (lim_CancelAt rl res now) reg\<rparr>)
      else (Some \<lparr>vb_res = res, vb_id = i, vb_at = now\<rparr>, w\<lparr>wk_verifyLimits := reg\<rparr>))"

definition refund :: "('l, 'r) rate_lib \<Rightarrow> 'r verify_budget \<Rightarrow> 'l worker \<Rightarrow> 'l worker" where
  "refund rl b w = w\<lparr>wk_verifyLimits := update_limiter (vb_id b) (lim_CancelAt rl (vb_res b) (vb_at b)) (wk_verifyLimits w)\<rparr>"

section \<open>Authentication\<close>

text \<open>\<open>Inl\<close>: the response has been written and the request is over; \<open>Inr\<close>: who the caller is.\<close>

type_synonym auth_result = "http_resp + principal"

definition selfOrigin :: "http_req \<Rightarrow> string" where
  "selfOrigin r =
     (let proto = first_value (rq_Headers r) ''X-Forwarded-Proto'';
          scheme = (if proto \<noteq> [] then strings_TrimSpace (hd (split_on CHR '','' proto)) else if rq_TLS r then ''https'' else ''http'') in
      scheme @ ''://'' @ rq_Host r)"

definition checkCSRF :: "http_req \<Rightarrow> http_resp option" where
  "checkCSRF r =
     (let site = first_value (rq_Headers r) ''Sec-Fetch-Site''; origin = first_value (rq_Headers r) ''Origin'' in
      if rq_Method r \<in> {''GET'', ''HEAD'', ''OPTIONS''} then None
      else if first_value (rq_Headers r) ''X-Datuplet-App-Render'' \<noteq> ''1'' then
        Some (err_resp 403 errKindUnauthorized ''missing app-render header'')
      else if site \<noteq> [] \<and> site \<noteq> ''same-origin'' then Some (err_resp 403 errKindUnauthorized ''cross-site render request'')
      else if origin = [] \<or> origin \<noteq> selfOrigin r then Some (err_resp 403 errKindUnauthorized ''cross-site render request'')
      else None)"

definition authenticatePlatform :: "('l, 'r) web_server \<Rightarrow> ('l, unit) worker_ext env \<Rightarrow> http_req \<Rightarrow> resolved_app \<Rightarrow> 'l worker \<Rightarrow>
    auth_result \<times> 'l worker" where
  "authenticatePlatform sv en r ra w =
     (let authz = first_value (rq_Headers r) ''Authorization''; cookies = first_value (rq_Headers r) ''Cookie'' in
      if authz = [] \<and> cookies = [] then (Inl (err_resp 401 errKindUnauthorized ''authentication required''), w)
      else
        (case VerifySession (sr_lib sv) en (ra_ProjectID ra) cookies authz w of
           (Inl _, w') \<Rightarrow> (Inl (err_resp 503 errKindUnavailable ''app-worker: cannot verify session''), w')
         | (Inr info, w') \<Rightarrow>
             if si_UserID info = [] then (Inl (err_resp 401 errKindUnauthorized ''authentication required''), w')
             else if \<not> si_ProjectMember info then (Inl (err_resp 403 errKindUnauthorized ''not a member of this project''), w')
             else
               (case if authz = [] then checkCSRF r else None of
                  Some e \<Rightarrow> (Inl e, w')
                | None \<Rightarrow> (Inr \<lparr>pr_Kind = ''platform_user'', pr_ID = si_UserID info\<rparr>, w'))))"

definition authenticateCookie :: "('l, 'r) web_server \<Rightarrow> ('l, unit) worker_ext env \<Rightarrow> http_req \<Rightarrow> resolved_app \<Rightarrow> 'l worker \<Rightarrow>
    auth_result \<times> 'l worker" where
  "authenticateCookie sv en r ra w =
     (case map_of (rq_Cookies r) ''datuplet_app_session'' of
        None \<Rightarrow> (Inl (err_resp 401 errKindUnauthorized ''no viewer session''), w)
      | Some v \<Rightarrow>
          if v = [] then (Inl (err_resp 401 errKindUnauthorized ''no viewer session''), w)
          else
            (case parseCookie (sr_cookies sv) (sr_cookieKey sv) v of
               Inl _ \<Rightarrow> (Inl (err_resp 401 errKindUnauthorized ''invalid viewer session''), w)
             | Inr p \<Rightarrow>
                 if cp_AppID p \<noteq> ra_AppID ra then (Inl (err_resp 401 errKindUnauthorized ''invalid viewer session''), w)
                 else if \<not> (cw_now w < cp_Exp p * second) then (Inl (err_resp 401 errKindUnauthorized ''viewer session expired''), w)
                 else
                   (case checkCSRF r of
                      Some e \<Rightarrow> (Inl e, w)
                    | None \<Rightarrow>
                        (case CheckTokenActive (sr_lib sv) en (ra_AppID ra) (cp_TokenID p) w of
                           (Inl _, w') \<Rightarrow> (Inl (err_resp 503 errKindUnavailable ''app-worker: cannot verify viewer session''), w')
                         | (Inr active, w') \<Rightarrow>
                             if \<not> active then (Inl (err_resp 401 errKindUnauthorized ''viewer session revoked''), w')
                             else (Inr \<lparr>pr_Kind = ''viewer_token'', pr_ID = cp_TokenID p\<rparr>, w')))))"

definition sessionCookieTTL :: int where
  "sessionCookieTTL = 24 * 60 * 60 * second"

definition tokenFreeTarget :: "http_req \<Rightarrow> string \<times> (string \<times> string list) list" where
  "tokenFreeTarget r = (rq_EscapedPath r, assoc_del ''token'' (rq_ValidQuery r))"

definition issued_cookie :: "('l, 'r) web_server \<Rightarrow> resolved_app \<Rightarrow> string \<Rightarrow> time_ns \<Rightarrow> set_cookie" where
  "issued_cookie sv ra tokenID now =
     \<lparr>sc_Name = ''datuplet_app_session'',
      sc_Value = signCookie (sr_cookies sv) (sr_cookieKey sv) (ra_AppID ra) tokenID (now + sessionCookieTTL),
      sc_Path = cookiePath ra, sc_MaxAge = sessionCookieTTL div second, sc_HttpOnly = True, sc_Secure = True, sc_SameSite = ''Lax''\<rparr>"

definition exchangeViewerToken :: "('l, 'r) web_server \<Rightarrow> ('l, unit) worker_ext env \<Rightarrow> http_req \<Rightarrow> resolved_app \<Rightarrow> string \<Rightarrow> 'l worker \<Rightarrow>
    http_resp \<times> 'l worker" where
  "exchangeViewerToken sv en r ra raw w =
     (case reserveVerifyAttempt (sr_rate sv) (resolveClientIP (sr_ip sv) (sr_trust sv) r) (ra_AppID ra) w of
        (None, w1) \<Rightarrow> (failRateLimited 60, w1)
      | (Some budget, w1) \<Rightarrow>
          (case parseViewerToken raw of
             None \<Rightarrow> (failViewerToken, w1)
           | Some (tokenID, secret) \<Rightarrow>
               (case client_VerifyToken (sr_lib sv) en (ra_AppID ra) tokenID secret w1 of
                  (Inl _, w2) \<Rightarrow>
                    (err_resp 503 errKindUnavailable ''app-worker: cannot verify viewer token'', refund (sr_rate sv) budget w2)
                | (Inr valid, w2) \<Rightarrow>
                    if \<not> valid then (failViewerToken, w2)
                    else
                      (\<lparr>rp_Status = 302, rp_Kind = [], rp_Msg = [], rp_RetryAfter = None,
                        rp_SetCookie = Some (issued_cookie sv ra tokenID (cw_now w2)), rp_Location = Some (tokenFreeTarget r)\<rparr>,
                       refund (sr_rate sv) budget w2))))"

definition authenticate :: "('l, 'r) web_server \<Rightarrow> ('l, unit) worker_ext env \<Rightarrow> http_req \<Rightarrow> resolved_app \<Rightarrow> 'l worker \<Rightarrow>
    auth_result \<times> 'l worker" where
  "authenticate sv en r ra w =
     (if \<not> sr_api sv \<or> sr_cookieKey sv = [] then
        (Inl (err_resp 503 errKindUnavailable ''app-worker: viewer auth is not configured''), w)
      else
        let tokenParam = first_value (rq_ValidQuery r) ''token'' in
        if isDraft ra then
          if tokenParam \<noteq> [] then
            (Inl (err_resp 403 errKindUnauthorized ''viewer tokens are not accepted on the draft channel''), w)
          else authenticatePlatform sv en r ra w
        else if tokenParam \<noteq> [] then
          (case exchangeViewerToken sv en r ra tokenParam w of (resp, w') \<Rightarrow> (Inl resp, w'))
        else if first_value (rq_Headers r) ''Authorization'' \<noteq> [] then authenticatePlatform sv en r ra w
        else authenticateCookie sv en r ra w)"

end
