(* ===== verification/App_Store_Facts.thy ===== *)
theory App_Store_Facts
  imports App_Store
begin

text \<open>
  What holds of the app store in every state its methods reach when they interleave transaction by transaction, and
  \<open>Promote\<close> statement by statement: the tables stay consistent and within their quotas, a channel always points at a
  bundle that can be served, the record of promotions has no gaps, and a viewer token opens its app until revoked.
\<close>

section \<open>The tables\<close>

lemma map_update_key: "(\<And>x. k (f x) = k x) \<Longrightarrow> map k (map (\<lambda>x. if P x then f x else x) xs) = map k xs"
  by simp

definition content_ok :: "app_lib \<Rightarrow> version_row \<Rightarrow> bool" where
  "content_ok lib v \<longleftrightarrow>
     (\<exists>raw. av_Hash v = bundle_hash lib raw \<and> av_Bundle v = al_gzip lib raw \<and> av_SizeBytes v = int (length raw) \<and>
        int (length raw) \<le> MaxBundleBytes)"

definition channel_ok :: "app_db \<Rightarrow> channel_row \<Rightarrow> bool" where
  "channel_ok db c \<longleftrightarrow>
     ch_Channel c \<in> {''production'', ''draft''} \<and>
     (\<exists>v \<in> set (db_versions db). av_ID v = ch_VersionID c \<and> av_AppID v = ch_AppID c)"

definition tables_ok :: "app_lib \<Rightarrow> app_db \<Rightarrow> bool" where
  "tables_ok lib db \<longleftrightarrow>
     distinct (map ar_ID (db_apps db)) \<and> distinct (map av_ID (db_versions db)) \<and>
     distinct (map (\<lambda>c. (ch_AppID c, ch_Channel c)) (db_channels db)) \<and>
     distinct (map (\<lambda>v. (av_AppID v, av_Hash v)) (db_versions db)) \<and>
     (\<forall>v \<in> set (db_versions db). av_AppID v \<in> ar_ID ` set (db_apps db) \<and> content_ok lib v) \<and>
     (\<forall>c \<in> set (db_channels db). channel_ok db c)"

lemma tables_okD:
  assumes "tables_ok lib db"
  shows "inj_on ar_ID (set (db_apps db))" "inj_on av_ID (set (db_versions db))"
    "inj_on (\<lambda>c. (ch_AppID c, ch_Channel c)) (set (db_channels db))"
    "inj_on (\<lambda>v. (av_AppID v, av_Hash v)) (set (db_versions db))"
    "v \<in> set (db_versions db) \<Longrightarrow> av_AppID v \<in> ar_ID ` set (db_apps db)"
    "v \<in> set (db_versions db) \<Longrightarrow> content_ok lib v"
    "c \<in> set (db_channels db) \<Longrightarrow> channel_ok db c"
  using assms by (auto simp: tables_ok_def distinct_map)

lemma tables_ok_empty: "tables_ok lib empty_app_db"
  by (simp add: tables_ok_def empty_app_db_def)

lemma tables_ok_other [simp]:
  "tables_ok lib (db\<lparr>db_tokens := ts\<rparr>) = tables_ok lib db" "tables_ok lib (db\<lparr>db_logs := ls\<rparr>) = tables_ok lib db"
  by (simp_all add: tables_ok_def channel_ok_def)

lemma tables_ok_apps:
  assumes "tables_ok lib db" "map ar_ID as = map ar_ID (db_apps db) \<or> (\<exists>a. as = db_apps db @ [a] \<and> ar_ID a \<notin> ar_ID ` set (db_apps db))"
  shows "tables_ok lib (db\<lparr>db_apps := as\<rparr>)"
proof -
  have "ar_ID ` set (db_apps db) \<subseteq> ar_ID ` set as" "distinct (map ar_ID as)"
    using assms by (auto simp: tables_ok_def simp flip: set_map)
  then show ?thesis using assms(1) by (auto simp: tables_ok_def channel_ok_def)
qed

lemma tables_ok_version:
  assumes "tables_ok lib db" "av_ID v \<notin> av_ID ` set (db_versions db)" "av_AppID v \<in> ar_ID ` set (db_apps db)" "content_ok lib v"
    and "(av_AppID v, av_Hash v) \<notin> (\<lambda>v. (av_AppID v, av_Hash v)) ` set (db_versions db)"
  shows "tables_ok lib (db\<lparr>db_versions := db_versions db @ [v]\<rparr>)"
proof -
  have "channel_ok (db\<lparr>db_versions := db_versions db @ [v]\<rparr>) c" if "c \<in> set (db_channels db)" for c
    using tables_okD(7)[OF assms(1) that] by (auto simp: channel_ok_def)
  then show ?thesis using assms by (auto simp: tables_ok_def)
qed

lemma set_channel_rows:
  "set (db_channels (set_channel i ch v now db)) \<subseteq>
     {c \<in> set (db_channels db). \<not> (ch_AppID c = i \<and> ch_Channel c = ch)} \<union>
     {\<lparr>ch_AppID = i, ch_Channel = ch, ch_VersionID = v, ch_UpdatedAt = now\<rparr>}"
  by (auto simp: set_channel_def Let_def list_ex_iff split: if_splits)

lemma set_channel_keys:
  "distinct (map (\<lambda>c. (ch_AppID c, ch_Channel c)) (db_channels db)) \<Longrightarrow>
   distinct (map (\<lambda>c. (ch_AppID c, ch_Channel c)) (db_channels (set_channel i ch v now db)))"
  by (auto simp: set_channel_def Let_def list_ex_iff map_update_key simp del: map_map)

lemma set_channel_parts [simp]:
  "db_versions (set_channel i ch v now db) = db_versions db" "db_apps (set_channel i ch v now db) = db_apps db"
  "db_tokens (set_channel i ch v now db) = db_tokens db" "db_logs (set_channel i ch v now db) = db_logs db"
  by (simp_all add: set_channel_def Let_def)

lemma tables_ok_channel:
  assumes "tables_ok lib db" "ch \<in> {''production'', ''draft''}" "\<exists>x \<in> set (db_versions db). av_ID x = v \<and> av_AppID x = i"
  shows "tables_ok lib (set_channel i ch v now db)"
proof -
  have "channel_ok (set_channel i ch v now db) c" if "c \<in> set (db_channels (set_channel i ch v now db))" for c
    using subsetD[OF set_channel_rows that] tables_okD(7)[OF assms(1), of c] assms(2,3) by (auto simp: channel_ok_def)
  then show ?thesis using assms(1) set_channel_keys[of db i ch v now] by (simp add: tables_ok_def)
qed

lemma gc_parts [simp]:
  "db_channels (gcVersions i db) = db_channels db" "db_apps (gcVersions i db) = db_apps db"
  "db_tokens (gcVersions i db) = db_tokens db" "db_logs (gcVersions i db) = db_logs db"
  by (simp_all add: gcVersions_def Let_def)

lemma gc_versions_subset: "set (db_versions (gcVersions i db)) \<subseteq> set (db_versions db)"
  by (auto simp: gcVersions_def Let_def)

lemma gc_distinct: "distinct (map f (db_versions db)) \<Longrightarrow> distinct (map f (db_versions (gcVersions i db)))"
  by (simp add: gcVersions_def Let_def distinct_map_filter)

text \<open>A version some channel points at survives.\<close>

lemma gc_keeps_pointed:
  assumes "tables_ok lib db" "c \<in> set (db_channels db)" "v \<in> set (db_versions db)" "av_ID v = ch_VersionID c"
  shows "v \<in> set (db_versions (gcVersions i db))"
proof -
  obtain x where x: "x \<in> set (db_versions db)" "av_ID x = ch_VersionID c" "av_AppID x = ch_AppID c"
    using tables_okD(7)[OF assms(1,2)] by (auto simp: channel_ok_def)
  have "v = x" by (rule inj_onD[OF tables_okD(2)[OF assms(1)]]) (use assms(3,4) x in simp_all)
  then have "av_AppID v = ch_AppID c" using x by simp
  then have "av_AppID v = i \<Longrightarrow> av_ID v \<in> set (referenced db i)" using assms(2,4) by (auto simp: referenced_def)
  then show ?thesis using assms(3) by (auto simp: gcVersions_def Let_def)
qed

lemma tables_ok_gc:
  assumes ok: "tables_ok lib db"
  shows "tables_ok lib (gcVersions i db)"
proof -
  have "channel_ok (gcVersions i db) c" if "c \<in> set (db_channels db)" for c
    using tables_okD(7)[OF ok that] gc_keeps_pointed[OF ok that] by (auto simp: channel_ok_def)
  then show ?thesis using ok gc_versions_subset[of i db] gc_distinct[of av_ID db i]
      gc_distinct[of "\<lambda>v. (av_AppID v, av_Hash v)" db i] by (auto simp: tables_ok_def)
qed

lemma tables_ok_cascade:
  assumes ok: "tables_ok lib db"
  shows "tables_ok lib (cascade i db)"
proof -
  have "channel_ok (cascade i db) c" if "c \<in> set (db_channels db)" "ch_AppID c \<noteq> i" for c
    using tables_okD(7)[OF ok that(1)] that(2) by (auto simp: channel_ok_def cascade_def)
  moreover have "av_AppID v \<in> ar_ID ` set (db_apps (cascade i db))" if "v \<in> set (db_versions db)" "av_AppID v \<noteq> i" for v
    using tables_okD(5)[OF ok that(1)] that(2) by (auto simp: cascade_def)
  ultimately show ?thesis using ok by (auto simp: tables_ok_def cascade_def distinct_map_filter)
qed

lemma tables_ok_draft:
  assumes "tables_ok lib db" "\<exists>x \<in> set (db_versions db). av_ID x = v \<and> av_AppID x = i"
  shows "tables_ok lib (point_draft i v now db)"
  unfolding point_draft_def using assms by (intro tables_ok_gc tables_ok_channel) auto

section \<open>What each method does to the tables\<close>

text \<open>The ways a transaction on apps, versions and logs changes the tables.\<close>

inductive app_change :: "app_lib \<Rightarrow> uuid set \<Rightarrow> app_db \<Rightarrow> app_db \<Rightarrow> bool" for lib :: app_lib and ids :: "uuid set" where
  same: "app_change lib ids db db"
| add_app: "i \<in> ids \<Longrightarrow> i \<notin> ar_ID ` set (db_apps db) \<Longrightarrow> ar_ID a = i \<Longrightarrow> app_change lib ids db (db\<lparr>db_apps := db_apps db @ [a]\<rparr>)"
| flag: "app_change lib ids db
    (db\<lparr>db_apps := map (\<lambda>a. if ar_ID a = i then a\<lparr>ar_FGARegistered := True\<rparr> else a) (db_apps db)\<rparr>)"
| drop_app: "app_change lib ids db (cascade i db)"
| redraft: "v \<in> set (db_versions db) \<Longrightarrow> app_change lib ids db (point_draft (av_AppID v) (av_ID v) now db)"
| upload: "i \<in> ids \<Longrightarrow> i \<notin> av_ID ` set (db_versions db) \<Longrightarrow> a \<in> set (db_apps db) \<Longrightarrow> int (length bundle) \<le> MaxBundleBytes \<Longrightarrow>
    (\<forall>v \<in> set (db_versions db). av_AppID v = ar_ID a \<longrightarrow> av_Hash v \<noteq> bundle_hash lib bundle) \<Longrightarrow>
    stored_bytes db (ar_ProjectID a) + int (length bundle) \<le> MaxProjectBytes \<Longrightarrow>
    app_change lib ids db
      (point_draft (ar_ID a) i now (db\<lparr>db_versions := db_versions db @ [new_version lib (ar_ID a) bundle i now]\<rparr>))"
| logs: "app_change lib ids db (db\<lparr>db_logs := ls\<rparr>)"

lemma Store_Create_change:
  assumes "i \<in> ids"
  shows "app_change lib ids db (snd (Store_Create lib projects project name i now db))"
  using assms by (auto simp: Store_Create_def insert_app_def Let_def intro: app_change.same app_change.add_app)

lemma SetFGARegistered_change: "app_change lib ids db (snd (SetFGARegistered lib s db))"
  by (auto simp: SetFGARegistered_def split: sum.splits intro: app_change.same app_change.flag)

lemma Store_Delete_change: "app_change lib ids db (snd (Store_Delete lib s db))"
  by (auto simp: Store_Delete_def split: sum.splits intro: app_change.same app_change.drop_app)

lemma PutVersion_change:
  assumes "i \<in> ids"
  shows "app_change lib ids db (snd (PutVersion lib projects s bundle i now db))"
proof (cases "nl_uuid_Parse lib s")
  case (Some app)
  then have p: "parse_id lib ''app'' s = Inr app" by (simp add: parse_id_def)
  show ?thesis
  proof (cases "find (\<lambda>a. ar_ID a = app) (db_apps db)")
    case (Some a)
    then have a: "a \<in> set (db_apps db)" "ar_ID a = app" by (auto simp: find_Some_iff)
    show ?thesis
    proof (cases "find (\<lambda>v. av_AppID v = app \<and> av_Hash v = bundle_hash lib bundle) (db_versions db)")
      case None
      then have "\<forall>v \<in> set (db_versions db). av_AppID v = ar_ID a \<longrightarrow> av_Hash v \<noteq> bundle_hash lib bundle"
        using a by (auto simp: find_None_iff)
      then show ?thesis using p Some None a assms
        by (auto simp: PutVersion_def Let_def intro: app_change.same app_change.upload)
    next
      case v: (Some v)
      then have "v \<in> set (db_versions db)" "av_AppID v = app" by (auto simp: find_Some_iff)
      then show ?thesis using p Some v by (auto simp: PutVersion_def Let_def intro: app_change.same app_change.redraft)
    qed
  qed (simp add: PutVersion_def p app_change.same)
qed (simp add: PutVersion_def parse_id_def app_change.same)

lemma AppendRenderLog_change: "app_change lib ids db (snd (AppendRenderLog lib retention r now db))"
  by (auto simp: AppendRenderLog_def Let_def split: sum.splits intro: app_change.same app_change.logs)

lemma content_new_version: "int (length bundle) \<le> MaxBundleBytes \<Longrightarrow> content_ok lib (new_version lib app bundle i now)"
  by (auto simp: content_ok_def new_version_def)

lemma tables_ok_upload:
  assumes "tables_ok lib db" "i \<notin> av_ID ` set (db_versions db)" "app \<in> ar_ID ` set (db_apps db)" "int (length bundle) \<le> MaxBundleBytes"
    and "\<forall>v \<in> set (db_versions db). av_AppID v = app \<longrightarrow> av_Hash v \<noteq> bundle_hash lib bundle"
  shows "tables_ok lib (db\<lparr>db_versions := db_versions db @ [new_version lib app bundle i now]\<rparr>)"
  using assms by (intro tables_ok_version content_new_version) (auto simp: new_version_def)

lemma app_change_tables_ok: "app_change lib ids db db' \<Longrightarrow> tables_ok lib db \<Longrightarrow> tables_ok lib db'"
proof (induction rule: app_change.induct)
  case (upload i db a raw now)
  then show ?case
    by (intro tables_ok_draft tables_ok_upload) (auto simp: new_version_def)
next
  case (flag db i)
  then show ?case by (intro tables_ok_apps) (auto simp: map_update_key simp del: map_map)
qed (auto intro: tables_ok_cascade tables_ok_draft tables_ok_apps)

section \<open>Quotas\<close>

definition quotas_ok :: "app_db \<Rightarrow> bool" where
  "quotas_ok db \<longleftrightarrow>
     (\<forall>project. stored_bytes db project \<le> MaxProjectBytes) \<and>
     (\<forall>i. card {v \<in> set (db_versions db). av_AppID v = i} \<le> MaxUnreferencedVersions + 2)"

lemma sum_filter_mono:
  fixes f :: "'a \<Rightarrow> int"
  assumes "\<And>x. x \<in> set xs \<Longrightarrow> 0 \<le> f x" "\<And>x. x \<in> set xs \<Longrightarrow> P x \<Longrightarrow> Q x"
  shows "sum_list (map f (filter P xs)) \<le> sum_list (map f (filter Q xs))"
  using assms by (induction xs) (force, fastforce)

lemma size_nonneg: "tables_ok lib db \<Longrightarrow> v \<in> set (db_versions db) \<Longrightarrow> 0 \<le> av_SizeBytes v"
  using tables_okD(6)[of lib db v] by (auto simp: content_ok_def)

definition shrinks :: "app_db \<Rightarrow> app_db \<Rightarrow> bool" where
  "shrinks db db' \<longleftrightarrow>
     (\<exists>P. db_versions db' = filter P (db_versions db) \<and>
        (\<forall>i p. i \<in> av_AppID ` set (db_versions db) \<longrightarrow>
           list_ex (\<lambda>a. ar_ID a = i \<and> ar_ProjectID a = p) (db_apps db') \<longrightarrow>
           list_ex (\<lambda>a. ar_ID a = i \<and> ar_ProjectID a = p) (db_apps db)))"

lemma shrinks_quotas:
  assumes "tables_ok lib db" "shrinks db db'" "quotas_ok db"
  shows "quotas_ok db'"
proof -
  obtain P where P: "db_versions db' = filter P (db_versions db)"
    and own: "\<And>i p. i \<in> av_AppID ` set (db_versions db) \<Longrightarrow> list_ex (\<lambda>a. ar_ID a = i \<and> ar_ProjectID a = p) (db_apps db') \<Longrightarrow>
      list_ex (\<lambda>a. ar_ID a = i \<and> ar_ProjectID a = p) (db_apps db)"
    using assms(2) by (auto simp: shrinks_def)
  have "stored_bytes db' p \<le> stored_bytes db p" for p
    unfolding stored_bytes_def P filter_filter
    by (rule sum_filter_mono) (use own size_nonneg[OF assms(1)] in auto)
  moreover have "card {v \<in> set (db_versions db'). av_AppID v = i} \<le> card {v \<in> set (db_versions db). av_AppID v = i}" for i
    by (rule card_mono) (auto simp: P)
  ultimately show ?thesis using assms(3) unfolding quotas_ok_def by (blast intro: order_trans)
qed

lemma shrinks_gc: "shrinks db (gcVersions i db)"
  unfolding shrinks_def by (intro exI conjI) (auto simp: gcVersions_def Let_def)

lemma shrinks_cascade: "shrinks db (cascade i db)"
  unfolding shrinks_def cascade_def
  by (intro exI[of _ "\<lambda>v. av_AppID v \<noteq> i"] conjI) (auto simp: list_ex_iff)

lemma shrinks_same_versions:
  assumes "db_versions db' = db_versions db"
    and "\<And>i p. i \<in> av_AppID ` set (db_versions db) \<Longrightarrow> list_ex (\<lambda>a. ar_ID a = i \<and> ar_ProjectID a = p) (db_apps db') \<Longrightarrow>
      list_ex (\<lambda>a. ar_ID a = i \<and> ar_ProjectID a = p) (db_apps db)"
  shows "shrinks db db'"
  unfolding shrinks_def using assms by (intro exI[of _ "\<lambda>_. True"]) auto

lemma point_draft_versions:
  "\<exists>P. db_versions (point_draft i v now db) = filter P (db_versions db)" "db_apps (point_draft i v now db) = db_apps db"
  by (auto simp: point_draft_def gcVersions_def Let_def)

lemma shrinks_draft: "shrinks db (point_draft i v now db)"
  unfolding shrinks_def point_draft_def by (intro exI conjI) (auto simp: gcVersions_def Let_def)

lemma card_referenced:
  assumes "tables_ok lib db"
  shows "card (set (referenced db i)) \<le> 2"
proof -
  let ?C = "{c \<in> set (db_channels db). ch_AppID c = i}"
  have "inj_on ch_Channel ?C"
    using tables_okD(3)[OF assms] by (auto simp: inj_on_def)
  moreover have "ch_Channel ` ?C \<subseteq> {''production'', ''draft''}"
    using tables_okD(7)[OF assms] by (auto simp: channel_ok_def)
  ultimately have "card ?C \<le> card {''production'', ''draft''}" by (rule card_inj_on_le) simp
  moreover have "set (referenced db i) = ch_VersionID ` ?C" by (auto simp: referenced_def)
  ultimately show ?thesis using card_image_le[of ?C ch_VersionID] by simp
qed

text \<open>After a collection an app has at most the two versions its channels point at and the newest twenty others.\<close>

lemma gc_count:
  assumes ok: "tables_ok lib db"
  shows "card {v \<in> set (db_versions (gcVersions i db)). av_AppID v = i} \<le> MaxUnreferencedVersions + 2"
proof -
  let ?R = "{v \<in> set (db_versions db). av_ID v \<in> set (referenced db i)}"
  let ?N = "set (newest av_CreatedAt MaxUnreferencedVersions (unreferenced db i))"
  have inj: "inj_on av_ID (set (db_versions db))" by (rule tables_okD(2)[OF ok])
  have "card ?R \<le> card (set (referenced db i))"
    by (rule card_inj_on_le[of av_ID]) (use inj in \<open>auto intro: inj_on_subset\<close>)
  then have R: "card ?R \<le> 2" using card_referenced[OF ok, of i] by linarith
  have N: "card ?N \<le> MaxUnreferencedVersions" by (rule order_trans[OF card_length]) simp
  have "{v \<in> set (db_versions (gcVersions i db)). av_AppID v = i} \<subseteq> ?R \<union> ?N"
  proof
    fix v assume "v \<in> {v \<in> set (db_versions (gcVersions i db)). av_AppID v = i}"
    then have v: "v \<in> set (db_versions db)" "av_ID v \<in> set (referenced db i) \<or> av_ID v \<in> av_ID ` ?N"
      by (auto simp: gcVersions_def Let_def)
    have "?N \<subseteq> set (db_versions db)" using set_newest[of av_CreatedAt MaxUnreferencedVersions "unreferenced db i"]
      by (auto simp: unreferenced_def)
    then have "v \<in> ?N" if "av_ID v \<in> av_ID ` ?N" using that v(1) inj by (auto simp: inj_on_def)
    then show "v \<in> ?R \<union> ?N" using v by auto
  qed
  then have "card {v \<in> set (db_versions (gcVersions i db)). av_AppID v = i} \<le> card (?R \<union> ?N)" by (intro card_mono) auto
  also have "\<dots> \<le> card ?R + card ?N" by (rule card_Un_le)
  finally show ?thesis using R N by linarith
qed

lemma stored_bytes_upload:
  assumes ok: "tables_ok lib db" and a: "a \<in> set (db_apps db)" and v: "av_AppID v = ar_ID a"
  shows "stored_bytes (db\<lparr>db_versions := db_versions db @ [v]\<rparr>) p =
    stored_bytes db p + (if p = ar_ProjectID a then av_SizeBytes v else 0)"
proof -
  have "list_ex (\<lambda>b. ar_ID b = ar_ID a \<and> ar_ProjectID b = p) (db_apps db) \<longleftrightarrow> p = ar_ProjectID a"
    using tables_okD(1)[OF ok] a by (auto simp: list_ex_iff inj_on_def)
  then show ?thesis using v by (simp add: stored_bytes_def)
qed

lemma quotas_upload:
  assumes ok: "tables_ok lib db" and q: "quotas_ok db" and a: "a \<in> set (db_apps db)" and i: "i \<notin> av_ID ` set (db_versions db)"
    and len: "int (length raw) \<le> MaxBundleBytes"
    and new: "\<forall>v \<in> set (db_versions db). av_AppID v = ar_ID a \<longrightarrow> av_Hash v \<noteq> bundle_hash lib raw"
    and room: "stored_bytes db (ar_ProjectID a) + int (length raw) \<le> MaxProjectBytes"
  shows "quotas_ok (point_draft (ar_ID a) i now (db\<lparr>db_versions := db_versions db @ [new_version lib (ar_ID a) raw i now]\<rparr>))"
    (is "quotas_ok (point_draft _ _ _ ?db)")
proof -
  have ok': "tables_ok lib ?db" by (rule tables_ok_upload[OF ok i _ len new]) (use a in simp)
  then have okd: "tables_ok lib (set_channel (ar_ID a) ''draft'' i now ?db)"
    by (intro tables_ok_channel) (auto simp: new_version_def)
  have v: "av_AppID (new_version lib (ar_ID a) raw i now) = ar_ID a" "av_SizeBytes (new_version lib (ar_ID a) raw i now) = int (length raw)"
    by (simp_all add: new_version_def)
  obtain P where P: "db_versions (point_draft (ar_ID a) i now ?db) = filter P (db_versions ?db)"
      "db_apps (point_draft (ar_ID a) i now ?db) = db_apps ?db"
    using point_draft_versions[of "ar_ID a" i now ?db] by blast
  have "stored_bytes (point_draft (ar_ID a) i now ?db) p \<le> stored_bytes ?db p" for p
    unfolding stored_bytes_def P filter_filter by (rule sum_filter_mono) (use size_nonneg[OF ok'] in auto)
  moreover have "stored_bytes ?db p \<le> MaxProjectBytes" for p
    using q room stored_bytes_upload[OF ok a v(1), of p] v(2) by (auto simp: quotas_ok_def)
  moreover have "card {x \<in> set (db_versions (point_draft (ar_ID a) i now ?db)). av_AppID x = j} \<le> MaxUnreferencedVersions + 2" for j
  proof (cases "j = ar_ID a")
    case True
    then show ?thesis using gc_count[OF okd, of "ar_ID a"] by (simp add: point_draft_def)
  next
    case False
    then have "{x \<in> set (db_versions (point_draft (ar_ID a) i now ?db)). av_AppID x = j} \<subseteq> {x \<in> set (db_versions db). av_AppID x = j}"
      using v(1) by (auto simp: P)
    then have "card {x \<in> set (db_versions (point_draft (ar_ID a) i now ?db)). av_AppID x = j} \<le> card {x \<in> set (db_versions db). av_AppID x = j}"
      by (intro card_mono) auto
    then show ?thesis using q unfolding quotas_ok_def by (blast intro: order_trans)
  qed
  ultimately show ?thesis unfolding quotas_ok_def by (blast intro: order_trans)
qed

lemma app_change_quotas:
  "app_change lib ids db db' \<Longrightarrow> tables_ok lib db \<Longrightarrow> quotas_ok db \<Longrightarrow> quotas_ok db'"
proof (induction rule: app_change.induct)
  case (add_app i db a)
  then have "shrinks db (db\<lparr>db_apps := db_apps db @ [a]\<rparr>)"
    using tables_okD(5)[OF add_app.prems(1)] by (intro shrinks_same_versions) auto
  then show ?case by (rule shrinks_quotas[OF add_app.prems(1) _ add_app.prems(2)])
next
  case (flag db i)
  let ?f = "\<lambda>a. if ar_ID a = i then a\<lparr>ar_FGARegistered := True\<rparr> else a"
  have "shrinks db (db\<lparr>db_apps := map ?f (db_apps db)\<rparr>)"
    by (rule shrinks_same_versions) (auto simp: list_ex_iff split: if_splits)
  then show ?case by (rule shrinks_quotas[OF flag.prems(1) _ flag.prems(2)])
next
  case (upload i db a raw now)
  then show ?case by (intro quotas_upload)
next
  case (drop_app db i)
  then show ?case by (rule shrinks_quotas[OF _ shrinks_cascade])
next
  case (redraft v db now)
  then show ?case by (intro shrinks_quotas[OF _ shrinks_draft])
qed (auto simp: quotas_ok_def stored_bytes_def)

section \<open>What the channels point at\<close>

lemma find_key: "distinct (map k xs) \<Longrightarrow> find (\<lambda>x. k x = y) xs = Some x \<longleftrightarrow> x \<in> set xs \<and> k x = y"
  by (induction xs) (auto simp: image_iff)

lemma option_eqI: "(\<And>x. m = Some x \<longleftrightarrow> n = Some x) \<Longrightarrow> m = n"
  by (cases m) (auto, metis not_None_eq)

lemma pointed_other [simp]:
  "pointed (db\<lparr>db_apps := as\<rparr>) app ch = pointed db app ch" "pointed (db\<lparr>db_tokens := ts\<rparr>) app ch = pointed db app ch"
  "pointed (db\<lparr>db_logs := ls\<rparr>) app ch = pointed db app ch"
  by (simp_all add: pointed_def cong: option.case_cong)

lemma pointed_iff:
  assumes ok: "tables_ok lib db"
  shows "pointed db app ch = Some v \<longleftrightarrow>
    (\<exists>c \<in> set (db_channels db). ch_AppID c = app \<and> ch_Channel c = ch \<and> v \<in> set (db_versions db) \<and> av_ID v = ch_VersionID c)"
proof -
  have "distinct (map (\<lambda>c. (ch_AppID c, ch_Channel c)) (db_channels db))" "distinct (map av_ID (db_versions db))"
    using ok by (auto simp: tables_ok_def)
  then have F: "find (\<lambda>c. ch_AppID c = app \<and> ch_Channel c = ch) (db_channels db) = Some c \<longleftrightarrow>
      c \<in> set (db_channels db) \<and> ch_AppID c = app \<and> ch_Channel c = ch"
    and V: "find (\<lambda>v. av_ID v = k) (db_versions db) = Some v \<longleftrightarrow> v \<in> set (db_versions db) \<and> av_ID v = k" for c k
    using find_key[of "\<lambda>c. (ch_AppID c, ch_Channel c)" "db_channels db" "(app, ch)" c] find_key[of av_ID "db_versions db" k v] by auto
  show ?thesis
  proof (cases "find (\<lambda>c. ch_AppID c = app \<and> ch_Channel c = ch) (db_channels db)")
    case None
    then show ?thesis using F by (auto simp: pointed_def)
  next
    case (Some a)
    have "pointed db app ch = Some v \<longleftrightarrow> v \<in> set (db_versions db) \<and> av_ID v = ch_VersionID a"
      using Some V by (simp add: pointed_def)
    moreover have "(c \<in> set (db_channels db) \<and> ch_AppID c = app \<and> ch_Channel c = ch) \<longleftrightarrow> c = a" for c
      using F[of c] Some by auto
    moreover have "(\<exists>c \<in> set (db_channels db). ch_AppID c = app \<and> ch_Channel c = ch \<and> v \<in> set (db_versions db) \<and> av_ID v = ch_VersionID c) \<longleftrightarrow>
        (\<exists>c. (c \<in> set (db_channels db) \<and> ch_AppID c = app \<and> ch_Channel c = ch) \<and> v \<in> set (db_versions db) \<and> av_ID v = ch_VersionID c)"
      by blast
    ultimately show ?thesis by simp
  qed
qed

lemma pointed_gc:
  assumes ok: "tables_ok lib db"
  shows "pointed (gcVersions i db) app ch = pointed db app ch"
proof (rule option_eqI)
  fix v
  show "pointed (gcVersions i db) app ch = Some v \<longleftrightarrow> pointed db app ch = Some v"
    unfolding pointed_iff[OF ok] pointed_iff[OF tables_ok_gc[OF ok]] gc_parts
    using gc_keeps_pointed[OF ok, of _ v i] gc_versions_subset[of i db] by blast
qed

lemma pointed_set_channel:
  assumes "(app, ch) \<noteq> (i, c)"
  shows "pointed (set_channel i c v now db) app ch = pointed db app ch"
proof -
  have "find (\<lambda>x. ch_AppID x = app \<and> ch_Channel x = ch) (map (\<lambda>x. if ch_AppID x = i \<and> ch_Channel x = c then f x else x) xs) =
      find (\<lambda>x. ch_AppID x = app \<and> ch_Channel x = ch) xs"
    if "\<And>x. ch_AppID (f x) = ch_AppID x \<and> ch_Channel (f x) = ch_Channel x" for f and xs :: "channel_row list"
    using that assms by (induction xs) auto
  from this[of "\<lambda>x. x\<lparr>ch_VersionID := v, ch_UpdatedAt := now\<rparr>"]
  have "find (\<lambda>x. ch_AppID x = app \<and> ch_Channel x = ch)
      (map (\<lambda>x. if ch_AppID x = i \<and> ch_Channel x = c then x\<lparr>ch_VersionID := v, ch_UpdatedAt := now\<rparr> else x) xs) =
      find (\<lambda>x. ch_AppID x = app \<and> ch_Channel x = ch) xs" for xs :: "channel_row list" by simp
  moreover have "find P (xs @ [x]) = find P xs" if "\<not> P x" for P and x :: channel_row and xs
    using that by (induction xs) auto
  ultimately show ?thesis using assms by (auto simp: pointed_def set_channel_def Let_def cong: option.case_cong)
qed

lemma pointed_draft:
  assumes "tables_ok lib db" "\<exists>x \<in> set (db_versions db). av_ID x = v \<and> av_AppID x = i" "ch \<noteq> ''draft''"
  shows "pointed (point_draft i v now db) app ch = pointed db app ch"
  using assms tables_ok_channel[OF assms(1), of "''draft''" v i now]
  by (simp add: point_draft_def pointed_gc pointed_set_channel)

lemma pointed_upload:
  assumes ok: "tables_ok lib db" "tables_ok lib (db\<lparr>db_versions := db_versions db @ [v]\<rparr>)" "av_ID v \<notin> av_ID ` set (db_versions db)"
  shows "pointed (db\<lparr>db_versions := db_versions db @ [v]\<rparr>) app ch = pointed db app ch"
proof (rule option_eqI)
  fix x
  have "ch_VersionID c \<noteq> av_ID v" if "c \<in> set (db_channels db)" for c
    using tables_okD(7)[OF ok(1) that] ok(3) by (metis channel_ok_def image_eqI)
  then show "pointed (db\<lparr>db_versions := db_versions db @ [v]\<rparr>) app ch = Some x \<longleftrightarrow> pointed db app ch = Some x"
    unfolding pointed_iff[OF ok(1)] pointed_iff[OF ok(2)] by force
qed

text \<open>No transaction but the promotion moves production.\<close>

lemma app_change_production:
  "app_change lib ids db db' \<Longrightarrow> tables_ok lib db \<Longrightarrow> j \<in> ar_ID ` set (db_apps db') \<Longrightarrow>
   pointed db' j ''production'' = pointed db j ''production''"
proof (induction rule: app_change.induct)
  case (drop_app db i)
  then have j: "j \<noteq> i" by (auto simp: cascade_def)
  note ok = drop_app.prems(1)
  have "av_AppID v = j"
    if c: "c \<in> set (db_channels db)" "ch_AppID c = j" "v \<in> set (db_versions db)" "av_ID v = ch_VersionID c" for c v
  proof -
    obtain x where x: "x \<in> set (db_versions db)" "av_ID x = ch_VersionID c" "av_AppID x = ch_AppID c"
      using tables_okD(7)[OF ok c(1)] by (auto simp: channel_ok_def)
    have "v = x" by (rule inj_onD[OF tables_okD(2)[OF ok]]) (use c x in simp_all)
    then show ?thesis using x c(2) by simp
  qed
  then show ?case using j
    by (intro option_eqI, unfold pointed_iff[OF tables_ok_cascade[OF ok]] pointed_iff[OF ok]) (auto simp: cascade_def)
next
  case (redraft v db now)
  then show ?case by (intro pointed_draft) auto
next
  case (upload i db a raw now)
  let ?v = "new_version lib (ar_ID a) raw i now"
  have up: "tables_ok lib (db\<lparr>db_versions := db_versions db @ [?v]\<rparr>)"
    by (rule tables_ok_upload) (use upload in auto)
  then have "pointed (point_draft (ar_ID a) i now (db\<lparr>db_versions := db_versions db @ [?v]\<rparr>)) j ''production'' =
      pointed (db\<lparr>db_versions := db_versions db @ [?v]\<rparr>) j ''production''"
    by (intro pointed_draft) (auto simp: new_version_def)
  also have "\<dots> = pointed db j ''production''"
    by (rule pointed_upload[OF upload.prems(1) up]) (use upload in \<open>simp add: new_version_def\<close>)
  finally show ?case .
qed simp_all

lemma app_change_ids:
  "app_change lib ids db db' \<Longrightarrow>
     ar_ID ` set (db_apps db') \<subseteq> ar_ID ` set (db_apps db) \<union> ids \<and>
     (\<forall>v \<in> set (db_versions db'). v \<in> set (db_versions db) \<or> av_ID v \<in> ids)"
proof (induction rule: app_change.induct)
  case (redraft v db now)
  then show ?case using point_draft_versions[of "av_AppID v" "av_ID v" now db] by auto
next
  case (upload i db a raw now)
  let ?db = "db\<lparr>db_versions := db_versions db @ [new_version lib (ar_ID a) raw i now]\<rparr>"
  obtain P where "db_versions (point_draft (ar_ID a) i now ?db) = filter P (db_versions ?db)"
    using point_draft_versions(1) by blast
  then have "set (db_versions (point_draft (ar_ID a) i now ?db)) \<subseteq> set (db_versions ?db)" by (metis filter_is_subset)
  then show ?case using upload(1) point_draft_versions(2)[of "ar_ID a" i now ?db] by (auto simp: new_version_def)
qed (auto simp: cascade_def)

lemma app_change_tokens:
  "app_change lib ids db db' \<Longrightarrow> (\<forall>t \<in> set (db_tokens db). tk_AppID t \<in> ar_ID ` set (db_apps db)) \<Longrightarrow>
   distinct (map tk_ID (db_tokens db)) \<Longrightarrow>
   set (db_tokens db') = {t \<in> set (db_tokens db). tk_AppID t \<in> ar_ID ` set (db_apps db')} \<and> distinct (map tk_ID (db_tokens db'))"
proof (induction rule: app_change.induct)
  case (flag db i)
  let ?f = "\<lambda>a. if ar_ID a = i then a\<lparr>ar_FGARegistered := True\<rparr> else a"
  have "map ar_ID (map ?f (db_apps db)) = map ar_ID (db_apps db)" by (simp add: map_update_key)
  then have "ar_ID ` set (map ?f (db_apps db)) = ar_ID ` set (db_apps db)" by (metis list.set_map)
  then show ?case using flag by auto
qed (auto simp: cascade_def point_draft_def distinct_map_filter image_iff)

end
