(* ===== verification/App_History.thy ===== *)
theory App_History
  imports App_Store_Facts
begin

text \<open>
  The app store in use: its transactions in any order, a promotion split at the point where others may commit between
  its two statements. The state keeps, beside the database, the identifiers given out so far, the promotions under way,
  and as history the successful promotions, minted tokens and revocations.
\<close>

section \<open>The store in use\<close>

record apps_sys =
  sy_db :: app_db
  sy_ids :: "uuid set"
  sy_pending :: "(uuid \<times> uuid \<times> string) list"   \<comment> \<open>app, target version, expected hash\<close>
  sy_promoted :: "(uuid \<times> string \<times> string) list"  \<comment> \<open>app, expected hash, hash of the new production version\<close>
  sy_minted :: "(uuid \<times> uuid \<times> string) list"     \<comment> \<open>app, token, secret\<close>
  sy_revoked :: "(uuid \<times> uuid) list"

definition fresh_store :: apps_sys where
  "fresh_store = \<lparr>sy_db = empty_app_db, sy_ids = {}, sy_pending = [], sy_promoted = [], sy_minted = [], sy_revoked = []\<rparr>"

definition target_hash :: "app_db \<Rightarrow> uuid \<Rightarrow> string" where
  "target_hash db v = (case find (\<lambda>x. av_ID x = v) (db_versions db) of None \<Rightarrow> [] | Some x \<Rightarrow> av_Hash x)"

inductive apps_step :: "app_lib \<Rightarrow> project_row list \<Rightarrow> int \<Rightarrow> apps_sys \<Rightarrow> apps_sys \<Rightarrow> bool"
  for lib :: app_lib and projects :: "project_row list" and retention :: int where
  create: "i \<notin> sy_ids s \<Longrightarrow> apps_step lib projects retention s
    (s\<lparr>sy_db := snd (Store_Create lib projects project name i now (sy_db s)), sy_ids := insert i (sy_ids s)\<rparr>)"
| register: "apps_step lib projects retention s (s\<lparr>sy_db := snd (SetFGARegistered lib appID (sy_db s))\<rparr>)"
| delete: "apps_step lib projects retention s (s\<lparr>sy_db := snd (Store_Delete lib appID (sy_db s))\<rparr>)"
| drop_project: "apps_step lib projects retention s (s\<lparr>sy_db := cascade i (sy_db s)\<rparr>)"
| put: "i \<notin> sy_ids s \<Longrightarrow> apps_step lib projects retention s
    (s\<lparr>sy_db := snd (PutVersion lib projects appID raw i now (sy_db s)), sy_ids := insert i (sy_ids s)\<rparr>)"
| log: "apps_step lib projects retention s (s\<lparr>sy_db := snd (AppendRenderLog lib retention r now (sy_db s))\<rparr>)"
| lookup: "promote_target (sy_db s) app hash = Inr target \<Longrightarrow> apps_step lib projects retention s
    (s\<lparr>sy_pending := (app, target, expected) # sy_pending s\<rparr>)"
| swap: "(app, target, expected) \<in> set (sy_pending s) \<Longrightarrow> promote_swap app target expected now (sy_db s) = (r, db') \<Longrightarrow>
    apps_step lib projects retention s
    (s\<lparr>sy_db := db', sy_pending := remove1 (app, target, expected) (sy_pending s),
       sy_promoted := (if isl r then sy_promoted s else sy_promoted s @ [(app, expected, target_hash db' target)])\<rparr>)"
| mint: "i \<notin> sy_ids s \<Longrightarrow> MintToken lib appID sb salt i now (sy_db s) = (r, db') \<Longrightarrow> nl_uuid_Parse lib appID = Some app \<Longrightarrow>
    apps_step lib projects retention s
    (s\<lparr>sy_db := db', sy_ids := insert i (sy_ids s),
       sy_minted := (case r of Inl _ \<Rightarrow> sy_minted s | Inr (_, secret) \<Rightarrow> (app, i, secret) # sy_minted s)\<rparr>)"
| revoke: "RevokeToken lib appID tokenID now (sy_db s) = (r, db') \<Longrightarrow> with_ids lib appID tokenID Pair = Inr (app, i) \<Longrightarrow>
    apps_step lib projects retention s
    (s\<lparr>sy_db := db', sy_revoked := (if isl r then sy_revoked s else (app, i) # sy_revoked s)\<rparr>)"

inductive_cases apps_stepE: "apps_step lib projects retention s s'"

section \<open>The record of promotions\<close>

text \<open>Replaying the recorded promotions of an app from nothing: each must expect what the one before it set.\<close>

fun rollout :: "string option \<Rightarrow> (string \<times> string) list \<Rightarrow> string option option" where
  "rollout cur [] = Some cur"
| "rollout cur ((expected, hash) # h) =
     (if (case cur of None \<Rightarrow> expected = [] | Some p \<Rightarrow> expected \<noteq> [] \<and> char_eq p expected)
      then rollout (Some hash) h else None)"

definition promotions :: "(uuid \<times> string \<times> string) list \<Rightarrow> uuid \<Rightarrow> (string \<times> string) list" where
  "promotions ps app = map snd (filter (\<lambda>p. fst p = app) ps)"

definition production :: "app_db \<Rightarrow> uuid \<Rightarrow> string option" where
  "production db app = map_option av_Hash (pointed db app ''production'')"

lemma rollout_snoc:
  "rollout cur h = Some c \<Longrightarrow> rollout cur (h @ [x]) = rollout c [x]"
  by (induction cur h rule: rollout.induct) (auto split: if_splits)

lemma promotions_snoc: "promotions (ps @ [(app, x)]) j = promotions ps j @ (if j = app then [x] else [])"
  by (simp add: promotions_def)

section \<open>The invariant\<close>

definition ids_ok :: "apps_sys \<Rightarrow> bool" where
  "ids_ok s \<longleftrightarrow> ar_ID ` set (db_apps (sy_db s)) \<subseteq> sy_ids s \<and> av_ID ` set (db_versions (sy_db s)) \<subseteq> sy_ids s \<and>
     fst ` set (sy_promoted s) \<subseteq> sy_ids s \<and> fst ` set (sy_minted s) \<subseteq> sy_ids s \<and> fst ` snd ` set (sy_minted s) \<subseteq> sy_ids s \<and>
     fst ` set (sy_revoked s) \<subseteq> sy_ids s \<and> snd ` set (sy_revoked s) \<subseteq> sy_ids s"

definition pending_ok :: "apps_sys \<Rightarrow> bool" where
  "pending_ok s \<longleftrightarrow> (\<forall>(app, target, _) \<in> set (sy_pending s). target \<in> sy_ids s \<and>
     (\<forall>v \<in> set (db_versions (sy_db s)). av_ID v = target \<longrightarrow> av_AppID v = app))"

definition rollout_ok :: "apps_sys \<Rightarrow> bool" where
  "rollout_ok s \<longleftrightarrow> (\<forall>app. rollout None (promotions (sy_promoted s) app) \<noteq> None \<and>
     (app \<in> ar_ID ` set (db_apps (sy_db s)) \<longrightarrow>
        rollout None (promotions (sy_promoted s) app) = Some (production (sy_db s) app)))"

definition token_ok :: "app_lib \<Rightarrow> apps_sys \<Rightarrow> token_row \<Rightarrow> bool" where
  "token_ok lib s t \<longleftrightarrow> tk_AppID t \<in> ar_ID ` set (db_apps (sy_db s)) \<and>
     (tk_RevokedAt t = None \<longleftrightarrow> (tk_AppID t, tk_ID t) \<notin> set (sy_revoked s)) \<and>
     (\<exists>secret. (tk_AppID t, tk_ID t, secret) \<in> set (sy_minted s) \<and> tk_SecretHash t = hashToken lib (tk_Salt t) secret)"

definition tokens_ok :: "app_lib \<Rightarrow> apps_sys \<Rightarrow> bool" where
  "tokens_ok lib s \<longleftrightarrow> distinct (map tk_ID (db_tokens (sy_db s))) \<and> (\<forall>t \<in> set (db_tokens (sy_db s)). token_ok lib s t) \<and>
     distinct (map (\<lambda>(_, i, _). i) (sy_minted s)) \<and>
     (\<forall>(app, i, _) \<in> set (sy_minted s). app \<in> ar_ID ` set (db_apps (sy_db s)) \<longrightarrow>
        (\<exists>t \<in> set (db_tokens (sy_db s)). tk_AppID t = app \<and> tk_ID t = i))"

definition store_ok :: "app_lib \<Rightarrow> apps_sys \<Rightarrow> bool" where
  "store_ok lib s \<longleftrightarrow> tables_ok lib (sy_db s) \<and> quotas_ok (sy_db s) \<and> ids_ok s \<and> pending_ok s \<and> rollout_ok s \<and> tokens_ok lib s"

lemma store_ok_fresh: "store_ok lib fresh_store"
  using tables_ok_empty[of lib]
  by (simp add: store_ok_def fresh_store_def quotas_ok_def stored_bytes_def empty_app_db_def ids_ok_def
      pending_ok_def rollout_ok_def promotions_def tokens_ok_def MaxProjectBytes_def)

text \<open>A transaction that gives out at most the fresh identifiers \<open>F\<close>.\<close>

lemma store_ok_change:
  assumes ch: "app_change lib F (sy_db s) db'" and ok: "store_ok lib s" and F: "F \<inter> sy_ids s = {}"
  shows "store_ok lib (s\<lparr>sy_db := db', sy_ids := sy_ids s \<union> F\<rparr>)"
proof -
  let ?s = "s\<lparr>sy_db := db', sy_ids := sy_ids s \<union> F\<rparr>"
  have t: "tables_ok lib (sy_db s)" and q: "quotas_ok (sy_db s)" and i: "ids_ok s" and p: "pending_ok s"
    and r: "rollout_ok s" and k: "tokens_ok lib s" using ok by (auto simp: store_ok_def)
  have t': "tables_ok lib db'" by (rule app_change_tables_ok[OF ch t])
  note ids = app_change_ids[OF ch]
  have old: "j \<in> ar_ID ` set (db_apps (sy_db s))" if "j \<in> ar_ID ` set (db_apps db')" "j \<in> sy_ids s" for j
    using that ids F by auto
  have known: "ar_ID ` set (db_apps (sy_db s)) \<subseteq> sy_ids s" "av_ID ` set (db_versions (sy_db s)) \<subseteq> sy_ids s"
    using i by (simp_all add: ids_ok_def)
  have "ar_ID ` set (db_apps db') \<subseteq> sy_ids s \<union> F" using conjunct1[OF ids] known(1) by blast
  moreover have "av_ID ` set (db_versions db') \<subseteq> sy_ids s \<union> F" using conjunct2[OF ids] known(2) by blast
  ultimately have "ids_ok ?s" using i by (simp add: ids_ok_def le_supI1)
  moreover have "pending_ok ?s"
  proof -
    have "\<not> av_ID v \<in> F" if "av_ID v \<in> sy_ids s" for v :: version_row using that F by blast
    then show ?thesis using p conjunct2[OF ids] unfolding pending_ok_def by fastforce
  qed
  moreover have "rollout_ok ?s" unfolding rollout_ok_def
  proof (intro allI conjI impI)
    fix app
    show "rollout None (promotions (sy_promoted ?s) app) \<noteq> None" using r by (simp add: rollout_ok_def)
    assume app: "app \<in> ar_ID ` set (db_apps (sy_db ?s))"
    then have pr: "production db' app = production (sy_db s) app"
      using app_change_production[OF ch t] by (simp add: production_def)
    show "rollout None (promotions (sy_promoted ?s) app) = Some (production (sy_db ?s) app)"
    proof (cases "app \<in> ar_ID ` set (db_apps (sy_db s))")
      case True
      then show ?thesis using r pr by (simp add: rollout_ok_def)
    next
      case False
      then have new: "app \<notin> sy_ids s" using old app by auto
      then have "promotions (sy_promoted s) app = []" using i
        by (auto simp: promotions_def ids_ok_def filter_empty_conv)
      moreover have "pointed (sy_db s) app ''production'' = None"
      proof (rule ccontr)
        assume "pointed (sy_db s) app ''production'' \<noteq> None"
        then obtain c where c: "c \<in> set (db_channels (sy_db s))" "ch_AppID c = app" using pointed_iff[OF t] by auto
        then obtain v where "v \<in> set (db_versions (sy_db s))" "av_AppID v = app"
          using tables_okD(7)[OF t c(1)] by (auto simp: channel_ok_def)
        then show False using tables_okD(5)[OF t] False by blast
      qed
      ultimately show ?thesis using pr by (simp add: production_def)
    qed
  qed
  moreover have "tokens_ok lib ?s"
  proof -
    have apps: "\<forall>t \<in> set (db_tokens (sy_db s)). tk_AppID t \<in> ar_ID ` set (db_apps (sy_db s))" "distinct (map tk_ID (db_tokens (sy_db s)))"
      using k by (auto simp: tokens_ok_def token_ok_def)
    note tok = app_change_tokens[OF ch apps]
    have "\<exists>t \<in> set (db_tokens db'). tk_AppID t = app \<and> tk_ID t = j"
      if m: "(app, j, secret) \<in> set (sy_minted s)" "app \<in> ar_ID ` set (db_apps db')" for app j secret
    proof -
      have "fst ` set (sy_minted s) \<subseteq> sy_ids s" using i by (simp add: ids_ok_def)
      then have "app \<in> sy_ids s" using m(1) by (metis fst_conv image_subset_iff)
      then have "app \<in> ar_ID ` set (db_apps (sy_db s))" using old m(2) by blast
      then obtain t where "t \<in> set (db_tokens (sy_db s))" "tk_AppID t = app" "tk_ID t = j"
        using k m(1) unfolding tokens_ok_def by blast
      then show ?thesis using conjunct1[OF tok] m(2) by auto
    qed
    then have "\<forall>(app, j, _) \<in> set (sy_minted ?s). app \<in> ar_ID ` set (db_apps (sy_db ?s)) \<longrightarrow>
        (\<exists>t \<in> set (db_tokens (sy_db ?s)). tk_AppID t = app \<and> tk_ID t = j)" by auto
    moreover have "\<forall>t \<in> set (db_tokens (sy_db ?s)). token_ok lib ?s t"
      using k conjunct1[OF tok] by (simp add: tokens_ok_def token_ok_def)
    moreover have "distinct (map tk_ID (db_tokens (sy_db ?s)))" "distinct (map (\<lambda>(_, i, _). i) (sy_minted ?s))"
      using conjunct2[OF tok] k by (simp_all add: tokens_ok_def)
    ultimately show ?thesis unfolding tokens_ok_def by blast
  qed
  ultimately show ?thesis using t' app_change_quotas[OF ch t q] by (simp add: store_ok_def)
qed

section \<open>Every step keeps it\<close>

lemma find_SomeD: "find P xs = Some x \<Longrightarrow> x \<in> set xs \<and> P x"
  by (auto simp: find_Some_iff)

lemma pending_fewer: "pending_ok s \<Longrightarrow> set ps \<subseteq> set (sy_pending s) \<Longrightarrow> pending_ok (s\<lparr>sy_pending := ps\<rparr>)"
  unfolding pending_ok_def by (simp add: subset_iff Ball_def) blast

lemma store_ok_lookup:
  assumes ok: "store_ok lib s" and tg: "promote_target (sy_db s) app hash = Inr target"
  shows "store_ok lib (s\<lparr>sy_pending := (app, target, expected) # sy_pending s\<rparr>)"
proof -
  have t: "tables_ok lib (sy_db s)" using ok by (simp add: store_ok_def)
  obtain v where "find (\<lambda>v. av_AppID v = app \<and> char_eq (av_Hash v) hash) (db_versions (sy_db s)) = Some v" "av_ID v = target"
    using tg by (auto simp: promote_target_def split: option.splits)
  then have v: "v \<in> set (db_versions (sy_db s))" "av_AppID v = app" "av_ID v = target" by (auto dest: find_SomeD)
  have "av_AppID x = app" if "x \<in> set (db_versions (sy_db s))" "av_ID x = target" for x
    using inj_onD[OF tables_okD(2)[OF t], of x v] that v by simp
  moreover have "target \<in> sy_ids s" using ok v by (auto simp: store_ok_def ids_ok_def)
  ultimately show ?thesis using ok
    by (simp add: store_ok_def pending_ok_def ids_ok_def rollout_ok_def tokens_ok_def token_ok_def)
qed

lemma set_channel_here: "\<exists>c \<in> set (db_channels (set_channel i ch v now db)). ch_AppID c = i \<and> ch_Channel c = ch \<and> ch_VersionID c = v"
proof (cases "list_ex (\<lambda>c. ch_AppID c = i \<and> ch_Channel c = ch) (db_channels db)")
  case True
  then obtain c where c: "c \<in> set (db_channels db)" "ch_AppID c = i" "ch_Channel c = ch" by (auto simp: list_ex_iff)
  have "c\<lparr>ch_VersionID := v, ch_UpdatedAt := now\<rparr> \<in> set (db_channels (set_channel i ch v now db))"
    using c True by (auto simp: set_channel_def Let_def)
  then show ?thesis using c by (intro bexI) auto
qed (simp add: set_channel_def Let_def)

lemma swap_expected:
  assumes t: "tables_ok lib db" and sw: "promote_swap app target expected now db = (Inr u, db')"
  shows "case production db app of None \<Rightarrow> expected = [] | Some p \<Rightarrow> expected \<noteq> [] \<and> char_eq p expected"
proof (cases "expected = []")
  case True
  then have "\<not> (\<exists>c \<in> set (db_channels db). ch_AppID c = app \<and> ch_Channel c = ''production'')"
    using sw by (auto simp: promote_swap_def Let_def list_ex_iff split: if_splits)
  then have "pointed db app ''production'' = None" using pointed_iff[OF t, of app "''production''"] by (metis not_None_eq)
  then show ?thesis using True by (simp add: production_def)
next
  case False
  then obtain c v where "c \<in> set (db_channels db)" "ch_AppID c = app" "ch_Channel c = ''production''"
      "find (\<lambda>v. av_AppID v = app \<and> char_eq (av_Hash v) expected) (db_versions db) = Some v" "av_ID v = ch_VersionID c"
    using sw
    by (cases "find (\<lambda>v. av_AppID v = app \<and> char_eq (av_Hash v) expected) (db_versions db)")
       (auto simp: promote_swap_def Let_def list_ex_iff split: if_splits)
  moreover from this have "v \<in> set (db_versions db)" "char_eq (av_Hash v) expected" by (auto dest: find_SomeD)
  ultimately have "pointed db app ''production'' = Some v" using pointed_iff[OF t] by blast
  then show ?thesis using False \<open>char_eq (av_Hash v) expected\<close> by (simp add: production_def)
qed

lemma swap_effect:
  assumes "promote_swap app target expected now db = (Inr u, db')"
  shows "db' = set_channel app ''production'' target now db" "target \<in> av_ID ` set (db_versions db)" "app \<in> ar_ID ` set (db_apps db)"
  using assms by (auto simp: promote_swap_def Let_def split: if_splits)

lemma swap_refused: "promote_swap app target expected now db = (Inl e, db') \<Longrightarrow> db' = db"
  by (auto simp: promote_swap_def Let_def split: if_splits)

lemma quotas_set_channel [simp]: "quotas_ok (set_channel i ch v now db) = quotas_ok db"
  by (simp add: quotas_ok_def stored_bytes_def)

lemma store_ok_swap:
  assumes ok: "store_ok lib s" and p: "(app, target, expected) \<in> set (sy_pending s)"
    and sw: "promote_swap app target expected now (sy_db s) = (Inr u, db')"
  shows "store_ok lib (s\<lparr>sy_db := db', sy_pending := remove1 (app, target, expected) (sy_pending s),
       sy_promoted := sy_promoted s @ [(app, expected, target_hash db' target)]\<rparr>)" (is "store_ok lib ?s")
proof -
  have t: "tables_ok lib (sy_db s)" and r: "rollout_ok s" using ok by (simp_all add: store_ok_def)
  note eff = swap_effect[OF sw]
  obtain x where x: "x \<in> set (db_versions (sy_db s))" "av_ID x = target" using eff(2) by auto
  then have xa: "av_AppID x = app" using ok p by (auto simp: store_ok_def pending_ok_def)
  have t': "tables_ok lib db'" unfolding eff(1) by (rule tables_ok_channel[OF t]) (use x xa in auto)
  have now: "pointed db' app ''production'' = Some x"
    using set_channel_here[of app "''production''" target now "sy_db s"] x unfolding eff(1)
    by (simp add: pointed_iff[OF t'[unfolded eff(1)]]) blast
  have h: "target_hash db' target = av_Hash x"
    using x find_key[of av_ID "db_versions (sy_db s)" target x] t by (simp add: target_hash_def eff(1) tables_ok_def)
  have app: "app \<in> ar_ID ` set (db_apps (sy_db s))" by (rule eff(3))
  have "rollout_ok ?s" unfolding rollout_ok_def
  proof (intro allI)
    fix j
    show "rollout None (promotions (sy_promoted ?s) j) \<noteq> None \<and>
       (j \<in> ar_ID ` set (db_apps (sy_db ?s)) \<longrightarrow> rollout None (promotions (sy_promoted ?s) j) = Some (production (sy_db ?s) j))"
    proof (cases "j = app")
      case True
      have "rollout None (promotions (sy_promoted s) app) = Some (production (sy_db s) app)" using r app by (simp add: rollout_ok_def)
      then have "rollout None (promotions (sy_promoted ?s) app) = Some (Some (av_Hash x))"
        using swap_expected[OF t sw] h by (simp add: promotions_snoc rollout_snoc)
      then show ?thesis using True now by (simp add: production_def)
    next
      case False
      then show ?thesis using r pointed_set_channel[of j "''production''" app "''production''" target now "sy_db s"]
        by (simp add: rollout_ok_def promotions_snoc production_def eff(1))
    qed
  qed
  moreover have "pending_ok ?s" using pending_fewer[OF _ set_remove1_subset, of s "(app, target, expected)"] ok
    by (simp add: store_ok_def pending_ok_def eff(1))
  moreover have "app \<in> sy_ids s" by (rule subsetD[OF _ app]) (use ok in \<open>simp add: store_ok_def ids_ok_def\<close>)
  ultimately show ?thesis using ok t'
    by (simp add: store_ok_def eff(1) ids_ok_def tokens_ok_def token_ok_def)
qed

lemma store_ok_swap_refused:
  "store_ok lib s \<Longrightarrow> store_ok lib (s\<lparr>sy_pending := remove1 p (sy_pending s)\<rparr>)"
  using pending_fewer[OF _ set_remove1_subset, of s p]
  by (simp add: store_ok_def ids_ok_def rollout_ok_def tokens_ok_def token_ok_def)

lemma tokens_okD:
  assumes "tokens_ok lib s"
  shows "distinct (map tk_ID (db_tokens (sy_db s)))" "t \<in> set (db_tokens (sy_db s)) \<Longrightarrow> token_ok lib s t"
    "distinct (map (\<lambda>(_, i, _). i) (sy_minted s))"
    "(app, i, secret) \<in> set (sy_minted s) \<Longrightarrow> app \<in> ar_ID ` set (db_apps (sy_db s)) \<Longrightarrow>
      \<exists>t \<in> set (db_tokens (sy_db s)). tk_AppID t = app \<and> tk_ID t = i"
  using assms unfolding tokens_ok_def by blast+

lemma tokens_okI:
  assumes "distinct (map tk_ID (db_tokens (sy_db s)))" "\<And>t. t \<in> set (db_tokens (sy_db s)) \<Longrightarrow> token_ok lib s t"
    "distinct (map (\<lambda>(_, i, _). i) (sy_minted s))"
    "\<And>app i secret. (app, i, secret) \<in> set (sy_minted s) \<Longrightarrow> app \<in> ar_ID ` set (db_apps (sy_db s)) \<Longrightarrow>
      \<exists>t \<in> set (db_tokens (sy_db s)). tk_AppID t = app \<and> tk_ID t = i"
  shows "tokens_ok lib s"
  using assms unfolding tokens_ok_def by blast

lemma MintToken_effect:
  assumes "MintToken lib appID sb salt i now db = (Inr (tid, secret), db')" "nl_uuid_Parse lib appID = Some app"
  shows "app \<in> ar_ID ` set (db_apps db)" "i \<notin> tk_ID ` set (db_tokens db)"
    "db' = db\<lparr>db_tokens := db_tokens db @ [\<lparr>tk_ID = i, tk_AppID = app, tk_Salt = salt,
        tk_SecretHash = hashToken lib salt secret, tk_CreatedAt = now, tk_RevokedAt = None\<rparr>]\<rparr>"
  using assms by (auto simp: MintToken_def parse_id_def Let_def split: if_splits)

lemma MintToken_refused: "MintToken lib appID sb salt i now db = (Inl e, db') \<Longrightarrow> db' = db"
  by (auto simp: MintToken_def Let_def split: sum.splits if_splits)

lemma store_ok_mint:
  assumes ok: "store_ok lib s" and i: "i \<notin> sy_ids s" and p: "nl_uuid_Parse lib appID = Some app"
    and m: "MintToken lib appID sb salt i now (sy_db s) = (Inr (tid, secret), db')"
  shows "store_ok lib (s\<lparr>sy_db := db', sy_ids := insert i (sy_ids s), sy_minted := (app, i, secret) # sy_minted s\<rparr>)" (is "store_ok lib ?s")
proof -
  note eff = MintToken_effect[OF m p]
  have k: "tokens_ok lib s" and ids: "ids_ok s" using ok by (simp_all add: store_ok_def)
  have known: "fst ` snd ` set (sy_minted s) \<subseteq> sy_ids s" "snd ` set (sy_revoked s) \<subseteq> sy_ids s"
      "ar_ID ` set (db_apps (sy_db s)) \<subseteq> sy_ids s"
    using ids by (simp_all add: ids_ok_def)
  have unrevoked: "(app, i) \<notin> set (sy_revoked s)" using known(2) i by force
  have unminted: "i \<notin> (\<lambda>(_, i, _). i) ` set (sy_minted s)" using known(1) i by force
  have each: "token_ok lib ?s t" if "t \<in> set (db_tokens db')" for t
  proof (cases "t \<in> set (db_tokens (sy_db s))")
    case True
    then show ?thesis using tokens_okD(2)[OF k True] by (auto simp: token_ok_def eff(3))
  next
    case False
    then show ?thesis using that unrevoked eff(1) by (simp add: eff(3) token_ok_def) blast
  qed
  have "\<exists>t \<in> set (db_tokens db'). tk_AppID t = a \<and> tk_ID t = j"
    if "(a, j, x) \<in> set (sy_minted ?s)" "a \<in> ar_ID ` set (db_apps db')" for a j x
    using that tokens_okD(4)[OF k, of a j x] by (auto simp: eff(3))
  then have "tokens_ok lib ?s"
    using tokens_okD(1,3)[OF k] eff(2) unminted each by (intro tokens_okI) (simp_all add: eff(3))
  moreover have "app \<in> sy_ids s" using eff(1) known(3) by blast
  then have "ids_ok ?s" using ids by (simp add: ids_ok_def eff(3) subset_insertI2)
  moreover have "pending_ok ?s" using ok unfolding store_ok_def pending_ok_def eff(3) by fastforce
  moreover have "rollout_ok ?s" using ok by (simp add: store_ok_def rollout_ok_def eff(3) production_def)
  ultimately show ?thesis using ok by (simp add: store_ok_def eff(3) quotas_ok_def stored_bytes_def)
qed

lemma store_ok_more_ids: "store_ok lib s \<Longrightarrow> store_ok lib (s\<lparr>sy_ids := insert i (sy_ids s)\<rparr>)"
proof -
  assume ok: "store_ok lib s"
  let ?s = "s\<lparr>sy_ids := insert i (sy_ids s)\<rparr>"
  have "ids_ok ?s" using ok by (simp add: store_ok_def ids_ok_def subset_insertI2)
  moreover have "pending_ok ?s" using ok unfolding store_ok_def pending_ok_def by fastforce
  ultimately show ?thesis using ok by (simp add: store_ok_def rollout_ok_def tokens_ok_def token_ok_def)
qed

lemma RevokeToken_effect:
  assumes "RevokeToken lib appID tokenID now db = (r, db')" "with_ids lib appID tokenID Pair = Inr (app, i)"
  shows "isl r \<and> db' = db \<or>
    \<not> isl r \<and> (\<exists>t \<in> set (db_tokens db). tk_AppID t = app \<and> tk_ID t = i) \<and>
    db' = db\<lparr>db_tokens := map (\<lambda>t. if tk_AppID t = app \<and> tk_ID t = i then t\<lparr>tk_RevokedAt := Some now\<rparr> else t) (db_tokens db)\<rparr>"
  using assms by (auto simp: RevokeToken_def Let_def list_ex_iff split: if_splits)

lemma store_ok_revoke:
  assumes ok: "store_ok lib s" and tk: "\<exists>t \<in> set (db_tokens (sy_db s)). tk_AppID t = app \<and> tk_ID t = i"
  shows "store_ok lib (s\<lparr>sy_db := (sy_db s)\<lparr>db_tokens :=
      map (\<lambda>t. if tk_AppID t = app \<and> tk_ID t = i then t\<lparr>tk_RevokedAt := Some now\<rparr> else t) (db_tokens (sy_db s))\<rparr>,
    sy_revoked := (app, i) # sy_revoked s\<rparr>)" (is "store_ok lib ?s")
proof -
  let ?f = "\<lambda>t. if tk_AppID t = app \<and> tk_ID t = i then t\<lparr>tk_RevokedAt := Some now\<rparr> else t"
  have k: "tokens_ok lib s" and ids: "ids_ok s" using ok by (simp_all add: store_ok_def)
  obtain t where t: "t \<in> set (db_tokens (sy_db s))" "tk_AppID t = app" "tk_ID t = i" using tk by blast
  from tokens_okD(2)[OF k t(1)] obtain secret where "app \<in> ar_ID ` set (db_apps (sy_db s))" "(app, i, secret) \<in> set (sy_minted s)"
    using t by (auto simp: token_ok_def)
  moreover have "ar_ID ` set (db_apps (sy_db s)) \<subseteq> sy_ids s" "fst ` snd ` set (sy_minted s) \<subseteq> sy_ids s"
    using ids by (simp_all add: ids_ok_def)
  ultimately have "app \<in> sy_ids s" "i \<in> sy_ids s" by force+
  then have "ids_ok ?s" using ids by (simp add: ids_ok_def)
  moreover have each: "token_ok lib ?s (?f x)" if "x \<in> set (db_tokens (sy_db s))" for x
    using tokens_okD(2)[OF k that] by (auto simp: token_ok_def)
  have "tokens_ok lib ?s"
  proof -
    have "\<exists>t \<in> set (map ?f (db_tokens (sy_db s))). tk_AppID t = a \<and> tk_ID t = j"
      if m: "(a, j, x) \<in> set (sy_minted s)" "a \<in> ar_ID ` set (db_apps (sy_db s))" for a j x
    proof -
      obtain u where "u \<in> set (db_tokens (sy_db s))" "tk_AppID u = a" "tk_ID u = j" using tokens_okD(4)[OF k m] by blast
      then show ?thesis by (intro bexI[of _ "?f u"]) auto
    qed
    moreover have "map tk_ID (map ?f (db_tokens (sy_db s))) = map tk_ID (db_tokens (sy_db s))" by (simp add: map_update_key)
    moreover have "\<forall>t \<in> set (map ?f (db_tokens (sy_db s))). token_ok lib ?s t"
      unfolding list.set_map
    proof (rule ballI, erule imageE)
      fix t x assume "t = ?f x" and x: "x \<in> set (db_tokens (sy_db s))"
      then show "token_ok lib ?s t" using each[OF x] by (simp only:)
    qed
    ultimately show ?thesis using tokens_okD(1,3)[OF k] unfolding tokens_ok_def by (simp del: map_map set_map) blast
  qed
  moreover have "pending_ok ?s" "rollout_ok ?s" using ok by (simp_all add: store_ok_def pending_ok_def rollout_ok_def production_def)
  ultimately show ?thesis using ok by (simp add: store_ok_def quotas_ok_def stored_bytes_def)
qed

lemma store_ok_step:
  assumes "apps_step lib projects retention s s'" "store_ok lib s"
  shows "store_ok lib s'"
  using assms
proof (cases rule: apps_step.cases)
  case (create i project name now)
  then show ?thesis using store_ok_change[OF Store_Create_change[of i "{i}"] assms(2)] by simp
next
  case (register appID)
  then show ?thesis using store_ok_change[OF SetFGARegistered_change[of lib "{}"] assms(2)] by simp
next
  case (delete appID)
  then show ?thesis using store_ok_change[OF Store_Delete_change[of lib "{}"] assms(2)] by simp
next
  case (drop_project i)
  then show ?thesis using store_ok_change[OF app_change.drop_app[of lib "{}"] assms(2)] by simp
next
  case (put i appID raw now)
  then show ?thesis using store_ok_change[OF PutVersion_change[of i "{i}"] assms(2)] by simp
next
  case (log r now)
  then show ?thesis using store_ok_change[OF AppendRenderLog_change[of lib "{}"] assms(2)] by simp
next
  case (lookup app hash target expected)
  then show ?thesis using store_ok_lookup[OF assms(2)] by simp
next
  case (swap app target expected now r db')
  show ?thesis
  proof (cases r)
    case (Inl e)
    then have "db' = sy_db s" using swap_refused[of app target expected now "sy_db s" e db'] swap by simp
    then show ?thesis using swap Inl store_ok_swap_refused[OF assms(2), of "(app, target, expected)"] by simp
  next
    case (Inr u)
    then show ?thesis using store_ok_swap[OF assms(2)] swap by simp
  qed
next
  case (mint i appID sb salt now r db' app)
  show ?thesis
  proof (cases r)
    case (Inl e)
    then have "db' = sy_db s" using MintToken_refused mint by blast
    then show ?thesis using mint Inl store_ok_more_ids[OF assms(2), of i] by simp
  next
    case (Inr x)
    then show ?thesis using mint store_ok_mint[OF assms(2)] by (cases x) simp
  qed
next
  case (revoke appID tokenID now r db' app i)
  then show ?thesis using RevokeToken_effect[of lib appID tokenID now "sy_db s" r db' app i] store_ok_revoke[OF assms(2), of app i now] assms(2) by auto
qed

interpretation app_store: invariant_system "\<lambda>s. s = fresh_store" "apps_step lib projects retention" "store_ok lib" for lib projects retention
  by unfold_locales (auto simp: store_ok_fresh intro: store_ok_step)

end
