(* ===== verification/Worker_Client_Facts.thy ===== *)
theory Worker_Client_Facts
  imports Worker_Client App_History
begin

text \<open>
  How old the answers of the app worker's client can be. The locale \<open>pipeline_api\<close> states what the client relies on:
  a call takes at most the timeout of the HTTP client, an answer that decodes was given by the handler within that
  time, and other requests keep the caches as this one does. Its lemmas bound the age of every answer, cached or not.
\<close>

section \<open>Keys\<close>

lemma hex_digit_inj: "a < 16 \<Longrightarrow> b < 16 \<Longrightarrow> hex_digit a = hex_digit b \<Longrightarrow> a = b"
proof -
  assume "a < 16" "b < 16" "hex_digit a = hex_digit b"
  then have "(of_char (hex_digit a) :: nat) = of_char (hex_digit b)" by simp
  then show ?thesis using \<open>a < 16\<close> \<open>b < 16\<close> by (simp add: hex_digit_def split: if_splits)
qed

lemma hex_inj: "hex_EncodeToString x = hex_EncodeToString y \<Longrightarrow> x = y"
proof (induction x arbitrary: y)
  case Nil
  then show ?case by (cases y) (simp_all add: hex_EncodeToString_def)
next
  case (Cons c x)
  then obtain d y' where y: "y = d # y'" by (cases y) (auto simp: hex_EncodeToString_def)
  let ?c = "of_char c :: nat" and ?d = "of_char d :: nat"
  have eq: "hex_digit (?c div 16) = hex_digit (?d div 16)" "hex_digit (?c mod 16) = hex_digit (?d mod 16)"
    "hex_EncodeToString x = hex_EncodeToString y'"
    using Cons.prems y by (auto simp: hex_EncodeToString_def)
  have "?c div 16 < 16" "?d div 16 < 16" using nat_of_char_less_256[of c] nat_of_char_less_256[of d]
    by (simp_all add: less_mult_imp_div_less)
  then have "?c div 16 = ?d div 16" "?c mod 16 = ?d mod 16"
    using eq(1,2) hex_digit_inj by (auto intro: mod_less_divisor)
  then have "?c = ?d" by (metis div_mult_mod_eq)
  then show ?case using Cons.IH[OF eq(3)] y by simp
qed

definition nul :: char where
  "nul = CHR 0x00"

definition nul_join :: "string list \<Rightarrow> string" where
  "nul_join ps = concat (map (\<lambda>p. p @ [nul]) ps)"

lemma nul_join_simps [simp]: "nul_join [] = []" "nul_join (p # ps) = p @ nul # nul_join ps"
  by (simp_all add: nul_join_def)

lemma nul_split:
  "p @ nul # r = q @ nul # s \<Longrightarrow> nul \<notin> set p \<Longrightarrow> nul \<notin> set q \<Longrightarrow> p = q \<and> r = s"
proof (induction p arbitrary: q)
  case Nil
  then show ?case by (cases q) auto
next
  case (Cons c p)
  then obtain d q' where "q = d # q'" by (cases q) auto
  then show ?case using Cons by auto
qed

lemma nul_last_split:
  assumes "p @ nul # x @ [nul] = q @ nul # y @ [nul]" "nul \<notin> set x" "nul \<notin> set y"
  shows "p = q \<and> x = y"
proof -
  have "rev x @ nul # rev p = rev y @ nul # rev q" using arg_cong[OF assms(1), of rev] by simp
  then have "rev x = rev y \<and> rev p = rev q" using assms(2,3) by (intro nul_split) auto
  then show ?thesis by simp
qed

lemma count_nul_join: "count_list (nul_join ps) nul = sum_list (map (\<lambda>p. count_list p nul) ps) + length ps"
  by (induction ps) auto

text \<open>Joined with NUL, parts that hold none are recovered, whatever the other side's parts hold.\<close>

lemma nul_join_inj:
  assumes "nul_join ps = nul_join qs" "length ps = length qs" "\<forall>q \<in> set qs. nul \<notin> set q"
  shows "ps = qs"
proof -
  have "sum_list (map (\<lambda>q. count_list q nul) qs) = 0" using assms(3) by (simp add: sum_list_eq_0_iff)
  then have "sum_list (map (\<lambda>p. count_list p nul) ps) = 0" using arg_cong[OF assms(1), of "\<lambda>x. count_list x nul"] assms(2)
    by (simp add: count_nul_join)
  then have "\<forall>p \<in> set ps. nul \<notin> set p" by (auto simp: sum_list_eq_0_iff count_list_0_iff)
  with assms show ?thesis
  proof (induction ps arbitrary: qs)
    case (Cons p ps)
    then obtain q qs' where "qs = q # qs'" by (cases qs) auto
    then have "p = q \<and> nul_join ps = nul_join qs'" using Cons.prems by (intro nul_split) auto
    then show ?case using Cons.IH[of qs'] Cons.prems \<open>qs = q # qs'\<close> by simp
  qed simp
qed

lemma hashKey_join:
  assumes "inj (nl_Sum256 lib)" "hashKey lib ps = hashKey lib qs"
  shows "nul_join ps = nul_join qs"
  using hex_inj[OF assms(2)[unfolded hashKey_def]] assms(1) by (auto simp: nul_join_def nul_def dest: injD)

section \<open>Entries of a cache\<close>

text \<open>Every entry was set in the past, with an answer that was at most \<open>age\<close> old then.\<close>

definition entries_ok :: "'v ttl_cache \<Rightarrow> int \<Rightarrow> int \<Rightarrow> time_ns \<Rightarrow> (string \<Rightarrow> 'v \<Rightarrow> time_ns \<Rightarrow> bool) \<Rightarrow> bool" where
  "entries_ok c ttl age now Q \<longleftrightarrow>
     (\<forall>k v e. map_of c k = Some (v, e) \<longrightarrow> e \<le> now + ttl \<and> (\<exists>t. e - ttl - age \<le> t \<and> t \<le> e - ttl \<and> Q k v t))"

lemma entries_ok_get:
  assumes "entries_ok c ttl age now Q" "cache_get now c k = Some v"
  shows "\<exists>t. now - (ttl + age) < t \<and> t \<le> now \<and> Q k v t"
proof -
  obtain e where e: "map_of c k = Some (v, e)" "now < e"
    using assms(2) by (auto simp: cache_get_def split: option.splits if_splits)
  then obtain t where "e \<le> now + ttl" "e - ttl - age \<le> t" "t \<le> e - ttl" "Q k v t"
    using assms(1) unfolding entries_ok_def by blast
  then show ?thesis using e(2) by (intro exI[of _ t]) auto
qed

lemma entries_ok_set:
  assumes "entries_ok c ttl age now Q" "now - age \<le> t" "t \<le> now" "Q k v t"
  shows "entries_ok (cache_set now k v ttl c) ttl age now Q"
proof -
  have "\<exists>s. (now + ttl) - ttl - age \<le> s \<and> s \<le> (now + ttl) - ttl \<and> Q k v s" using assms(2-4) by (intro exI[of _ t]) auto
  then show ?thesis using assms(1) unfolding entries_ok_def cache_set_def by (simp add: map_simps)
qed

lemma entries_ok_later: "entries_ok c ttl age now Q \<Longrightarrow> now \<le> now' \<Longrightarrow> entries_ok c ttl age now' Q"
  unfolding entries_ok_def by (meson add_right_mono order_trans)

lemma entries_ok_empty [simp]: "entries_ok [] ttl age now Q"
  by (simp add: entries_ok_def)

section \<open>What was answered when\<close>

type_synonym history = "time_ns \<Rightarrow> app_db"

definition says_active :: "app_lib \<Rightarrow> history \<Rightarrow> string \<Rightarrow> string \<Rightarrow> bool \<Rightarrow> time_ns \<Rightarrow> bool" where
  "says_active lib hist a i v t \<longleftrightarrow> handleTokenActive lib (hist t) (Decoded (a, i)) = Answer 200 (ActiveBody v)"

definition says_ok :: "app_lib \<Rightarrow> history \<Rightarrow> string \<Rightarrow> string \<Rightarrow> string \<Rightarrow> bool \<Rightarrow> time_ns \<Rightarrow> bool" where
  "says_ok lib hist a i x v t \<longleftrightarrow>
     handleVerifyViewerToken lib (hist t) (Decoded \<lparr>vt_AppID = a, vt_TokenID = i, vt_Secret = x\<rparr>) = Answer 200 (OkBody v)"

definition resolves :: "app_lib \<Rightarrow> history \<Rightarrow> string \<Rightarrow> string \<Rightarrow> string \<Rightarrow> resolved_ref \<Rightarrow> time_ns \<Rightarrow> bool" where
  "resolves lib hist pid name ch r t \<longleftrightarrow>
     handleResolve lib (hist t) pid name ch = Answer 200 (ResolveBody (rf_AppID r) (rf_VersionHash r))"

definition session_header :: "string \<Rightarrow> string \<Rightarrow> string \<Rightarrow> header" where
  "session_header serviceToken cookies authz =
     (''Authorization'', ''Bearer '' @ serviceToken) #
     (if authz \<noteq> [] then [(ForwardedAuthorizationHeader, authz)] else []) @
     (if cookies \<noteq> [] then [(''Cookie'', cookies)] else [])"

definition identifies :: "app_lib \<Rightarrow> (time_ns \<Rightarrow> session_deps) \<Rightarrow> string \<Rightarrow> string \<Rightarrow> string \<Rightarrow> string \<Rightarrow> session_info \<Rightarrow> time_ns \<Rightarrow> bool" where
  "identifies lib deps tok pid cookies authz v t \<longleftrightarrow>
     handleVerifySession lib (deps t) (session_header tok cookies authz) (Decoded pid) =
       Answer 200 (SessionBody (si_UserID v) (si_ProjectMember v))"

lemma says_ok_iff: "says_ok lib hist a i x v t \<longleftrightarrow> x \<noteq> [] \<and> VerifyToken lib (hist t) a i x = Inr v"
  by (simp add: says_ok_def handleVerifyViewerToken_ok)

lemma says_active_iff: "says_active lib hist a i v t \<longleftrightarrow> TokenActive lib (hist t) a i = Inr v"
  by (simp add: says_active_def handleTokenActive_ok)

definition client_ok :: "app_lib \<Rightarrow> history \<Rightarrow> (time_ns \<Rightarrow> session_deps) \<Rightarrow> string \<Rightarrow> 'z client_world_scheme \<Rightarrow> bool" where
  "client_ok lib hist deps tok w \<longleftrightarrow>
     (let c = cw_client w; now = cw_now w in
      entries_ok (ac_active c) (15 * second) (30 * second) now
        (\<lambda>k v t. \<exists>a i. k = hashKey lib [''token-active'', a, i] \<and> says_active lib hist a i v t) \<and>
      entries_ok (ac_positive c) (15 * second) (30 * second) now
        (\<lambda>k v t. v \<and> (\<exists>a i x. k = hashKey lib [''verify-token-pos'', a, i, x] \<and> says_ok lib hist a i x True t)) \<and>
      entries_ok (ac_inactive c) (60 * second) (45 * second) now
        (\<lambda>k v t. \<exists>a i. k = hashKey lib [''verify-token-inactive'', a, i] \<and> says_active lib hist a i False t) \<and>
      entries_ok (ac_wrong c) (60 * second) (60 * second) now
        (\<lambda>k v t. \<exists>a i x. k = hashKey lib [''verify-token-wrong-secret'', a, i, x] \<and> says_ok lib hist a i x False t) \<and>
      entries_ok (ac_resolve c) (15 * second) (30 * second) now
        (\<lambda>k v t. \<exists>pid name ch. k = hashKey lib [''resolve'', pid, name, ch] \<and> ch \<noteq> ''draft'' \<and> resolves lib hist pid name ch v t) \<and>
      entries_ok (ac_session c) (15 * second) (30 * second) now
        (\<lambda>k v t. \<exists>pid cookies authz. k = hashKey lib [''session'', pid, cookies, authz] \<and>
           nul \<notin> set cookies \<and> nul \<notin> set authz \<and> identifies lib deps tok pid cookies authz v t))"

lemma client_ok_set:
  assumes "client_ok lib hist deps tok w"
  shows "cw_now w - 30 * second \<le> t \<Longrightarrow> t \<le> cw_now w \<Longrightarrow> says_active lib hist a i v t \<Longrightarrow>
      client_ok lib hist deps tok (on_client (\<lambda>c. c\<lparr>ac_active := cache_set (cw_now w) (hashKey lib [''token-active'', a, i]) v
        (15 * second) (ac_active c)\<rparr>) w)"
    and "cw_now w - 30 * second \<le> t \<Longrightarrow> t \<le> cw_now w \<Longrightarrow> says_ok lib hist a i x True t \<Longrightarrow>
      client_ok lib hist deps tok (on_client (\<lambda>c. c\<lparr>ac_positive := cache_set (cw_now w)
        (hashKey lib [''verify-token-pos'', a, i, x]) True (15 * second) (ac_positive c)\<rparr>) w)"
    and "cw_now w - 45 * second \<le> t \<Longrightarrow> t \<le> cw_now w \<Longrightarrow> says_active lib hist a i False t \<Longrightarrow>
      client_ok lib hist deps tok (on_client (\<lambda>c. c\<lparr>ac_inactive := cache_set (cw_now w)
        (hashKey lib [''verify-token-inactive'', a, i]) False (60 * second) (ac_inactive c)\<rparr>) w)"
    and "cw_now w - 60 * second \<le> t \<Longrightarrow> t \<le> cw_now w \<Longrightarrow> says_ok lib hist a i x False t \<Longrightarrow>
      client_ok lib hist deps tok (on_client (\<lambda>c. c\<lparr>ac_wrong := cache_set (cw_now w)
        (hashKey lib [''verify-token-wrong-secret'', a, i, x]) False (60 * second) (ac_wrong c)\<rparr>) w)"
    and "cw_now w - 30 * second \<le> t \<Longrightarrow> t \<le> cw_now w \<Longrightarrow> ch \<noteq> ''draft'' \<Longrightarrow> resolves lib hist pid name ch r t \<Longrightarrow>
      client_ok lib hist deps tok (on_client (\<lambda>c. c\<lparr>ac_resolve := cache_set (cw_now w)
        (hashKey lib [''resolve'', pid, name, ch]) r (15 * second) (ac_resolve c)\<rparr>) w)"
    and "cw_now w - 30 * second \<le> t \<Longrightarrow> t \<le> cw_now w \<Longrightarrow> nul \<notin> set cookies \<Longrightarrow> nul \<notin> set authz \<Longrightarrow>
      identifies lib deps tok pid cookies authz u t \<Longrightarrow>
      client_ok lib hist deps tok (on_client (\<lambda>c. c\<lparr>ac_session := cache_set (cw_now w)
        (hashKey lib [''session'', pid, cookies, authz]) u (15 * second) (ac_session c)\<rparr>) w)"
  using assms unfolding client_ok_def Let_def on_client_def
  by (simp_all, (intro entries_ok_set, simp_all, blast+)+)

section \<open>The contract\<close>

definition flight_result :: "string \<Rightarrow> (answer_body \<Rightarrow> 'a option) \<Rightarrow> 'a flight \<Rightarrow> client_error + 'a" where
  "flight_result path body fl = (case fl of Lead r \<Rightarrow> doInternal path body r | Join r \<Rightarrow> r)"

text \<open>A call ends within the timeout; meanwhile the others keep \<open>J\<close>; a result that decodes was the truth at some time
  within the timeout before it arrived.\<close>

definition call_ok :: "('z client_world_scheme \<Rightarrow> bool) \<Rightarrow> 'z client_world_scheme \<Rightarrow> 'a flight \<times> 'z client_world_scheme \<Rightarrow> string \<Rightarrow>
    (answer_body \<Rightarrow> 'a option) \<Rightarrow> ('a \<Rightarrow> time_ns \<Rightarrow> bool) \<Rightarrow> bool" where
  "call_ok J w res path body Q \<longleftrightarrow>
     (case res of (fl, w') \<Rightarrow>
        cw_now w \<le> cw_now w' \<and> cw_now w' \<le> cw_now w + 30 * second \<and> (J w \<longrightarrow> J w') \<and>
        (\<forall>v. flight_result path body fl = Inr v \<longrightarrow> (\<exists>t. cw_now w' - 30 * second \<le> t \<and> t \<le> cw_now w' \<and> Q v t)))"

definition hist_of :: "(time_ns \<Rightarrow> apps_sys) \<Rightarrow> history" where
  "hist_of sys t = sy_db (sys t)"

text \<open>\<open>uuid.Parse\<close> looks only at the middle of the 38-byte form in braces, so a NUL may stand in place of a brace; what
  stands before it is then no UUID.\<close>

locale viewer_store =
  fixes lib :: app_lib and projects :: "project_row list" and retention :: int and sys :: "time_ns \<Rightarrow> apps_sys"
  assumes sha_inj: "inj (nl_Sum256 lib)"
    and uuid_nul: "nl_uuid_Parse lib (i @ nul # y) = Some u \<Longrightarrow> nl_uuid_Parse lib i = None"
    and start: "(apps_step lib projects retention)\<^sup>*\<^sup>* fresh_store (sys t)"
    and later: "t \<le> t' \<Longrightarrow> (apps_step lib projects retention)\<^sup>*\<^sup>* (sys t) (sys t')"

locale pipeline_api = viewer_store +
  fixes deps :: "time_ns \<Rightarrow> session_deps" and tok :: string and en :: "'z env"
  assumes active_call: "call_ok (client_ok lib (hist_of sys) deps tok) w (en_active en a i w)
      ''/internal/v1/viewer-tokens/active'' active_body (says_active lib (hist_of sys) a i)"
    and verify_call: "call_ok (client_ok lib (hist_of sys) deps tok) w (en_verify en a i x w)
      ''/internal/v1/viewer-tokens/verify'' ok_body (says_ok lib (hist_of sys) a i x)"
    and resolve_call: "call_ok (client_ok lib (hist_of sys) deps tok) w (en_resolve en pid name ch w)
      (''/internal/v1/apps/'' @ pid @ ''/'' @ name @ ''/resolve'') resolve_body (resolves lib (hist_of sys) pid name ch)"
    and session_call: "call_ok (client_ok lib (hist_of sys) deps tok) w (en_session en pid cookies authz w)
      ''/internal/v1/sessions/verify'' session_body (identifies lib deps tok pid cookies authz)"

section \<open>Tokens over time\<close>

lemma verified_is_minted:
  assumes "tokens_ok lib s" "inj (nl_Sum256 lib)" "VerifyToken lib (sy_db s) a i x = Inr True"
  shows "\<exists>app t. nl_uuid_Parse lib a = Some app \<and> nl_uuid_Parse lib i = Some t \<and> (app, t, x) \<in> set (sy_minted s) \<and>
    (app, t) \<notin> set (sy_revoked s)"
proof -
  obtain app t row where p: "nl_uuid_Parse lib a = Some app" "nl_uuid_Parse lib i = Some t" "find_token (sy_db s) app t = Some row"
    "tk_RevokedAt row = None" "hashToken lib (tk_Salt row) x = tk_SecretHash row"
    using assms(3) by (auto simp: VerifyToken_def with_ids_def parse_id_def split: option.splits)
  then have r: "row \<in> set (db_tokens (sy_db s))" "tk_AppID row = app" "tk_ID row = t" by (auto simp: find_token_def dest: find_SomeD)
  then have ok: "token_ok lib s row" using tokens_okD(2)[OF assms(1)] by blast
  then obtain y where y: "(app, t, y) \<in> set (sy_minted s)" "tk_SecretHash row = hashToken lib (tk_Salt row) y"
    using r by (auto simp: token_ok_def)
  have "x = y" using p(5) y(2) assms(2) by (auto simp: hashToken_def dest: injD)
  then show ?thesis using p r ok y(1) by (auto simp: token_ok_def)
qed

lemma active_is_unrevoked:
  assumes "tokens_ok lib s" "TokenActive lib (sy_db s) a i = Inr True"
  shows "\<exists>app t. nl_uuid_Parse lib a = Some app \<and> nl_uuid_Parse lib i = Some t \<and> (app, t) \<notin> set (sy_revoked s) \<and>
    (\<exists>x. (app, t, x) \<in> set (sy_minted s)) \<and> app \<in> ar_ID ` set (db_apps (sy_db s))"
proof -
  obtain app t row where p: "nl_uuid_Parse lib a = Some app" "nl_uuid_Parse lib i = Some t" "find_token (sy_db s) app t = Some row"
    "tk_RevokedAt row = None"
    using assms(2) by (auto simp: TokenActive_def with_ids_def parse_id_def split: option.splits)
  then have r: "row \<in> set (db_tokens (sy_db s))" "tk_AppID row = app" "tk_ID row = t" by (auto simp: find_token_def dest: find_SomeD)
  then have "token_ok lib s row" using tokens_okD(2)[OF assms(1)] by blast
  then show ?thesis using p r by (auto simp: token_ok_def)
qed

lemma revoked_stays:
  assumes "(apps_step lib projects retention)\<^sup>*\<^sup>* s s'" "p \<in> set (sy_revoked s)"
  shows "p \<in> set (sy_revoked s')"
  using assms(1)
proof (induction rule: rtranclp_induct)
  case (step s' s'')
  from step(2) show ?case
  proof cases
    case (revoke appID tokenID now r db' app i)
    then show ?thesis using step.IH by auto
  qed (use step.IH in auto)
qed (rule assms(2))

context viewer_store
begin

lemma tokens_ok_at: "tokens_ok lib (sys t)"
  using app_store.reachable_inv[OF refl start[of t]] by (simp add: store_ok_def)

text \<open>Of two texts that agree up to a NUL in each, the ones before it are the same if both are UUIDs.\<close>

lemma uuid_split:
  assumes "i @ nul # x = i' @ nul # x'" "nl_uuid_Parse lib i \<noteq> None" "nl_uuid_Parse lib i' \<noteq> None"
  shows "i = i' \<and> x = x'"
proof -
  obtain y where "i = i' @ y \<and> y @ nul # x = nul # x' \<or> i @ y = i' \<and> nul # x = y @ nul # x'"
    using assms(1) by (auto simp: append_eq_append_conv2)
  then show ?thesis using uuid_nul assms(2,3) by (cases y) auto
qed

lemma key_pair:
  assumes "hashKey lib [p, a, i] = hashKey lib [p, a', i']" "nl_uuid_Parse lib a \<noteq> None" "nl_uuid_Parse lib a' \<noteq> None"
  shows "a = a' \<and> i = i'"
proof -
  have "a @ nul # i @ [nul] = a' @ nul # i' @ [nul]" using hashKey_join[OF sha_inj assms(1)] by simp
  then show ?thesis using uuid_split assms(2,3) by blast
qed

lemma key_triple:
  assumes "hashKey lib [p, a, i, x] = hashKey lib [p, a', i', x']" "nl_uuid_Parse lib a \<noteq> None" "nl_uuid_Parse lib a' \<noteq> None"
  shows "a = a' \<and> i @ nul # x = i' @ nul # x'"
proof -
  have "a @ nul # i @ nul # x @ [nul] = a' @ nul # i' @ nul # x' @ [nul]" using hashKey_join[OF sha_inj assms(1)] by simp
  then have "a = a'" "i @ nul # x @ [nul] = i' @ nul # x' @ [nul]" using uuid_split assms(2,3) by blast+
  then show ?thesis by (metis append_Cons append_assoc append_same_eq)
qed

lemma active_parses:
  assumes "says_active lib (hist_of sys) a i v t"
  shows "nl_uuid_Parse lib a \<noteq> None"
  using TokenActive_parses(1)[of lib "hist_of sys t" a i v] assms by (auto simp: says_active_iff)

lemma verify_parses:
  assumes "says_ok lib (hist_of sys) a i x v t"
  shows "nl_uuid_Parse lib a \<noteq> None" "nl_uuid_Parse lib i \<noteq> None"
  using TokenActive_parses(2)[of lib "hist_of sys t" a i x v] assms by (auto simp: says_ok_iff)

end

section \<open>The age of an answer\<close>

text \<open>After a call the caches are in order, at most \<open>d\<close> has passed, and a result was the truth at most \<open>age\<close> ago.\<close>

definition answered :: "('z client_world_scheme \<Rightarrow> bool) \<Rightarrow> int \<Rightarrow> int \<Rightarrow> ('a \<Rightarrow> time_ns \<Rightarrow> bool) \<Rightarrow> 'z client_world_scheme \<Rightarrow>
    (client_error + 'a) \<times> 'z client_world_scheme \<Rightarrow> bool" where
  "answered J d age Q w res \<longleftrightarrow>
     (case res of (r, w') \<Rightarrow> J w' \<and> cw_now w \<le> cw_now w' \<and> cw_now w' \<le> cw_now w + d \<and>
        (\<forall>v. r = Inr v \<longrightarrow> (\<exists>t. cw_now w' - age < t \<and> t \<le> cw_now w' \<and> Q v t)))"

lemma second_pos: "0 < second"
  by (simp add: second_def)

lemma on_client_now [simp]: "cw_now (on_client f w) = cw_now w"
  by (simp add: on_client_def)

lemma answered_cached:
  "J w \<Longrightarrow> 0 \<le> d \<Longrightarrow> \<exists>t. cw_now w - age < t \<and> t \<le> cw_now w \<and> Q v t \<Longrightarrow> answered J d age Q w (Inr v, w)"
  by (simp add: answered_def)

text \<open>The common shape: a single flight whose leader keeps a good answer.\<close>

lemma answered_flight:
  assumes call: "call_ok J w fl path body Q" and J: "J w"
    and keep: "\<And>v t w'. J w' \<Longrightarrow> cw_now w' - 30 * second \<le> t \<Longrightarrow> t \<le> cw_now w' \<Longrightarrow> Q v t \<Longrightarrow> J (on_client (put v w') w')"
  shows "answered J (30 * second) (45 * second) Q w (doSingleflight fl (\<lambda>r w'.
     case doInternal path body r of Inl e \<Rightarrow> (Inl e, w') | Inr v \<Rightarrow> (Inr v, on_client (put v w') w')))"
proof -
  obtain f w' where fl: "fl = (f, w')" by (cases fl)
  have c: "cw_now w \<le> cw_now w'" "cw_now w' \<le> cw_now w + 30 * second" "J w'"
    and q: "\<And>v. flight_result path body f = Inr v \<Longrightarrow> \<exists>t. cw_now w' - 30 * second \<le> t \<and> t \<le> cw_now w' \<and> Q v t"
    using call J fl by (auto simp: call_ok_def)
  have young: "\<exists>t. cw_now w' - 45 * second < t \<and> t \<le> cw_now w' \<and> Q v t" if r: "flight_result path body f = Inr v" for v
  proof -
    obtain t where "cw_now w' - 30 * second \<le> t" "t \<le> cw_now w'" "Q v t" using q[OF r] by blast
    then show ?thesis using second_pos by (intro exI[of _ t]) auto
  qed
  show ?thesis
  proof (cases f)
    case (Join r)
    then show ?thesis using fl c young by (simp add: doSingleflight_def answered_def flight_result_def)
  next
    case (Lead r)
    show ?thesis
    proof (cases "doInternal path body r")
      case (Inl e)
      then show ?thesis using Lead fl c by (simp add: doSingleflight_def answered_def)
    next
      case (Inr v)
      then have r: "flight_result path body f = Inr v" using Lead by (simp add: flight_result_def)
      then obtain t where "cw_now w' - 30 * second \<le> t" "t \<le> cw_now w'" "Q v t" using q by blast
      then have "J (on_client (put v w') w')" using keep c(3) by blast
      then show ?thesis using Lead Inr fl c young[OF r] by (simp add: doSingleflight_def answered_def)
    qed
  qed
qed

context pipeline_api
begin

lemma active_recent:
  assumes "client_ok lib (hist_of sys) deps tok w" and a: "nl_uuid_Parse lib a \<noteq> None"
  shows "answered (client_ok lib (hist_of sys) deps tok) (30 * second) (45 * second) (says_active lib (hist_of sys) a i) w
    (CheckTokenActive lib en a i w)"
proof (cases "cache_get (cw_now w) (ac_active (cw_client w)) (hashKey lib [''token-active'', a, i])")
  case None
  then show ?thesis unfolding CheckTokenActive_def Let_def tokenActiveCacheTTL_def
    using answered_flight[OF active_call assms(1), where put = "\<lambda>v w' c. c\<lparr>ac_active := cache_set (cw_now w')
      (hashKey lib [''token-active'', a, i]) v (15 * second) (ac_active c)\<rparr>", OF client_ok_set(1)] by simp
next
  case (Some v)
  have "entries_ok (ac_active (cw_client w)) (15 * second) (30 * second) (cw_now w)
        (\<lambda>k v t. \<exists>a i. k = hashKey lib [''token-active'', a, i] \<and> says_active lib (hist_of sys) a i v t)"
    using assms(1) by (simp add: client_ok_def Let_def)
  from entries_ok_get[OF this Some] obtain t a' i' where t: "cw_now w - 45 * second < t" "t \<le> cw_now w"
    "hashKey lib [''token-active'', a, i] = hashKey lib [''token-active'', a', i']" "says_active lib (hist_of sys) a' i' v t" by auto
  have "a = a' \<and> i = i'" by (rule key_pair[OF t(3) a active_parses[OF t(4)]])
  then have "\<exists>t. cw_now w - 45 * second < t \<and> t \<le> cw_now w \<and> says_active lib (hist_of sys) a i v t" using t by blast
  then show ?thesis using Some second_pos assms unfolding CheckTokenActive_def Let_def by (simp add: answered_cached)
qed

lemma session_recent:
  assumes "client_ok lib (hist_of sys) deps tok w" "nul \<notin> set cookies" "nul \<notin> set authz"
  shows "answered (client_ok lib (hist_of sys) deps tok) (30 * second) (45 * second) (identifies lib deps tok pid cookies authz) w
    (VerifySession lib en pid cookies authz w)"
proof (cases "cache_get (cw_now w) (ac_session (cw_client w)) (hashKey lib [''session'', pid, cookies, authz])")
  case None
  then show ?thesis unfolding VerifySession_def Let_def sessionCacheTTL_def
    using answered_flight[OF session_call assms(1), where put = "\<lambda>v w' c. c\<lparr>ac_session := cache_set (cw_now w')
      (hashKey lib [''session'', pid, cookies, authz]) v (15 * second) (ac_session c)\<rparr>", OF client_ok_set(6)] assms(2-) by simp
next
  case (Some v)
  have "entries_ok (ac_session (cw_client w)) (15 * second) (30 * second) (cw_now w)
        (\<lambda>k v t. \<exists>pid cookies authz. k = hashKey lib [''session'', pid, cookies, authz] \<and>
           nul \<notin> set cookies \<and> nul \<notin> set authz \<and> identifies lib deps tok pid cookies authz v t)"
    using assms(1) by (simp add: client_ok_def Let_def)
  from entries_ok_get[OF this Some] obtain t p c z where t: "cw_now w - 45 * second < t" "t \<le> cw_now w"
    "hashKey lib [''session'', pid, cookies, authz] = hashKey lib [''session'', p, c, z]" "identifies lib deps tok p c z v t"
    and n: "nul \<notin> set c" "nul \<notin> set z" by auto
  have "(pid @ nul # cookies) @ nul # authz @ [nul] = (p @ nul # c) @ nul # z @ [nul]" using hashKey_join[OF sha_inj t(3)] by simp
  then have "pid @ nul # cookies = p @ nul # c \<and> authz = z" by (rule nul_last_split) (use n assms(3) in auto)
  then have "(pid @ nul # cookies @ [nul]) = (p @ nul # c @ [nul])" "authz = z" by (metis append_Cons append_assoc)+
  then have "pid = p \<and> cookies = c \<and> authz = z" using nul_last_split n assms(2) by blast
  then have "\<exists>t. cw_now w - 45 * second < t \<and> t \<le> cw_now w \<and> identifies lib deps tok pid cookies authz v t" using t by blast
  then show ?thesis using Some second_pos assms unfolding VerifySession_def Let_def by (simp add: answered_cached)
qed

lemma resolve_recent:
  assumes "client_ok lib (hist_of sys) deps tok w" "nl_uuid_Parse lib pid \<noteq> None"
  shows "answered (client_ok lib (hist_of sys) deps tok) (30 * second) (45 * second)
    (resolves lib (hist_of sys) pid name ''production'') w (client_Resolve lib en pid name ''production'' w)"
proof (cases "cache_get (cw_now w) (ac_resolve (cw_client w)) (hashKey lib [''resolve'', pid, name, ''production''])")
  case None
  then show ?thesis unfolding client_Resolve_def Let_def resolveCacheTTL_def
    using answered_flight[OF resolve_call assms(1), where put = "\<lambda>v w' c. c\<lparr>ac_resolve := cache_set (cw_now w')
      (hashKey lib [''resolve'', pid, name, ''production'']) v (15 * second) (ac_resolve c)\<rparr>", OF client_ok_set(5)] by simp
next
  case (Some v)
  have "entries_ok (ac_resolve (cw_client w)) (15 * second) (30 * second) (cw_now w)
        (\<lambda>k v t. \<exists>pid name ch. k = hashKey lib [''resolve'', pid, name, ch] \<and> ch \<noteq> ''draft'' \<and> resolves lib (hist_of sys) pid name ch v t)"
    using assms(1) by (simp add: client_ok_def Let_def)
  from entries_ok_get[OF this Some] obtain t p n c where t: "cw_now w - 45 * second < t" "t \<le> cw_now w"
    "hashKey lib [''resolve'', pid, name, ''production''] = hashKey lib [''resolve'', p, n, c]" "resolves lib (hist_of sys) p n c v t" by auto
  have p: "nl_uuid_Parse lib p \<noteq> None" using t(4)
    by (auto simp: resolves_def handleResolve_def bad_request_def writeInternalError_def split: option.splits)
  have "pid @ nul # name @ nul # ''production'' @ [nul] = p @ nul # n @ nul # c @ [nul]" using hashKey_join[OF sha_inj t(3)] by simp
  then have "pid = p" "name @ nul # ''production'' @ [nul] = n @ nul # c @ [nul]" using uuid_split assms(2) p by blast+
  moreover have "nul \<notin> set c" using t(4)
    by (auto simp: resolves_def handleResolve_def bad_request_def writeInternalError_def channel_valid_def nul_def Let_def
        split: option.splits if_splits)
  ultimately have "name = n \<and> ''production'' = c" by (intro nul_last_split) (auto simp: nul_def)
  then have "\<exists>t. cw_now w - 45 * second < t \<and> t \<le> cw_now w \<and> resolves lib (hist_of sys) pid name ''production'' v t"
    using t \<open>pid = p\<close> by blast
  then show ?thesis using Some second_pos assms unfolding client_Resolve_def Let_def by (simp add: answered_cached)
qed

lemma classify_ok:
  assumes ok: "client_ok lib (hist_of sys) deps tok w"
    and t: "cw_now w - 30 * second \<le> t" "t \<le> cw_now w" "says_ok lib (hist_of sys) a i x False t"
    and a0: "nl_uuid_Parse lib a \<noteq> None"
  shows "client_ok lib (hist_of sys) deps tok (classify lib en a i x w) \<and> cw_now w \<le> cw_now (classify lib en a i x w) \<and>
    cw_now (classify lib en a i x w) \<le> cw_now w + 30 * second"
proof -
  obtain r w' where c: "CheckTokenActive lib en a i w = (r, w')" by (cases "CheckTokenActive lib en a i w")
  have a: "client_ok lib (hist_of sys) deps tok w'" "cw_now w \<le> cw_now w'" "cw_now w' \<le> cw_now w + 30 * second"
    "\<And>v. r = Inr v \<Longrightarrow> \<exists>t. cw_now w' - 45 * second < t \<and> t \<le> cw_now w' \<and> says_active lib (hist_of sys) a i v t"
    using active_recent[OF ok a0, of i] c by (auto simp: answered_def)
  show ?thesis
  proof (cases r)
    case (Inl e)
    then show ?thesis using a c by (simp add: classify_def)
  next
    case (Inr v)
    show ?thesis
    proof (cases v)
      case True
      have "cw_now w' - 60 * second \<le> t" "t \<le> cw_now w'" using t(1,2) a(2,3) by auto
      from client_ok_set(4)[OF a(1) this t(3)] show ?thesis using Inr True c a
        by (simp add: classify_def verifyTokenNegativeTTL_def)
    next
      case False
      then obtain s where s: "cw_now w' - 45 * second < s" "s \<le> cw_now w'" "says_active lib (hist_of sys) a i False s"
        using a(4)[OF Inr] by auto
      from client_ok_set(3)[OF a(1) less_imp_le[OF s(1)] s(2,3)] show ?thesis using Inr False c a
        by (simp add: classify_def verifyTokenNegativeTTL_def)
    qed
  qed
qed

lemma positive_hit:
  assumes "client_ok lib (hist_of sys) deps tok w"
    "cache_get (cw_now w) (ac_positive (cw_client w)) (hashKey lib [''verify-token-pos'', a, i, x]) = Some v"
    and a: "nl_uuid_Parse lib a \<noteq> None"
  shows "v \<and> (\<exists>t i' x'. cw_now w - 45 * second < t \<and> t \<le> cw_now w \<and> i' @ nul # x' = i @ nul # x \<and>
    VerifyToken lib (hist_of sys t) a i' x' = Inr True)"
proof -
  have "entries_ok (ac_positive (cw_client w)) (15 * second) (30 * second) (cw_now w)
        (\<lambda>k v t. v \<and> (\<exists>a i x. k = hashKey lib [''verify-token-pos'', a, i, x] \<and> says_ok lib (hist_of sys) a i x True t))"
    using assms(1) by (simp add: client_ok_def Let_def)
  from entries_ok_get[OF this assms(2)] obtain t a' i' x' where t: "v" "cw_now w - 45 * second < t" "t \<le> cw_now w"
    "hashKey lib [''verify-token-pos'', a, i, x] = hashKey lib [''verify-token-pos'', a', i', x']"
    "says_ok lib (hist_of sys) a' i' x' True t" by auto
  have "a = a' \<and> i @ nul # x = i' @ nul # x'" by (rule key_triple[OF t(4) a verify_parses(1)[OF t(5)]])
  then show ?thesis using t says_ok_iff by metis
qed

lemma inactive_hit:
  assumes "client_ok lib (hist_of sys) deps tok w"
    "cache_get (cw_now w) (ac_inactive (cw_client w)) (hashKey lib [''verify-token-inactive'', a, i]) = Some v"
    and a: "nl_uuid_Parse lib a \<noteq> None"
  shows "\<exists>t. cw_now w - 120 * second < t \<and> t \<le> cw_now w \<and> VerifyToken lib (hist_of sys t) a i x = Inr False"
proof -
  have "entries_ok (ac_inactive (cw_client w)) (60 * second) (45 * second) (cw_now w)
        (\<lambda>k v t. \<exists>a i. k = hashKey lib [''verify-token-inactive'', a, i] \<and> says_active lib (hist_of sys) a i False t)"
    using assms(1) by (simp add: client_ok_def Let_def)
  from entries_ok_get[OF this assms(2)] obtain t a' i' where t: "cw_now w - 105 * second < t" "t \<le> cw_now w"
    "hashKey lib [''verify-token-inactive'', a, i] = hashKey lib [''verify-token-inactive'', a', i']"
    "says_active lib (hist_of sys) a' i' False t" by auto
  have "a = a' \<and> i = i'" by (rule key_pair[OF t(3) a active_parses[OF t(4)]])
  then have "VerifyToken lib (hist_of sys t) a i x = Inr False" using t(4) by (simp add: says_active_iff inactive_rejects)
  then show ?thesis using t(1,2) second_pos by (intro exI[of _ t]) auto
qed

lemma wrong_hit:
  assumes "client_ok lib (hist_of sys) deps tok w" "nl_uuid_Parse lib a \<noteq> None" "nl_uuid_Parse lib i \<noteq> None"
    "cache_get (cw_now w) (ac_wrong (cw_client w)) (hashKey lib [''verify-token-wrong-secret'', a, i, x]) = Some v"
  shows "\<exists>t. cw_now w - 120 * second < t \<and> t \<le> cw_now w \<and> VerifyToken lib (hist_of sys t) a i x = Inr False"
proof -
  have "entries_ok (ac_wrong (cw_client w)) (60 * second) (60 * second) (cw_now w)
        (\<lambda>k v t. \<exists>a i x. k = hashKey lib [''verify-token-wrong-secret'', a, i, x] \<and> says_ok lib (hist_of sys) a i x False t)"
    using assms(1) by (simp add: client_ok_def Let_def)
  from entries_ok_get[OF this assms(4)] obtain t a' i' x' where t: "cw_now w - 120 * second < t" "t \<le> cw_now w"
    "hashKey lib [''verify-token-wrong-secret'', a, i, x] = hashKey lib [''verify-token-wrong-secret'', a', i', x']"
    "says_ok lib (hist_of sys) a' i' x' False t" by auto
  have "a = a' \<and> i @ nul # x = i' @ nul # x'" by (rule key_triple[OF t(3) assms(2) verify_parses(1)[OF t(4)]])
  then have "a = a' \<and> i = i' \<and> x = x'" using uuid_split assms(3) verify_parses(2)[OF t(4)] by blast
  then show ?thesis using t says_ok_iff by blast
qed

text \<open>An acceptance is at most 45 seconds old, a rejection of well-formed identifiers at most 120.\<close>

lemma verify_flight:
  assumes ok: "client_ok lib (hist_of sys) deps tok w" and a: "nl_uuid_Parse lib a \<noteq> None" and fl: "en_verify en a i x w = (fl, w1)"
    and run: "doSingleflight (fl, w1) (\<lambda>r w'.
        case doInternal ''/internal/v1/viewer-tokens/verify'' ok_body r of
          Inl e \<Rightarrow> (Inl e, w')
        | Inr True \<Rightarrow>
            (Inr True, on_client (\<lambda>c. c\<lparr>ac_positive :=
               cache_set (cw_now w') (hashKey lib [''verify-token-pos'', a, i, x]) True verifyTokenPositiveTTL (ac_positive c)\<rparr>) w')
        | Inr False \<Rightarrow> (Inr False, classify lib en a i x w')) = (r, w')"
  shows "client_ok lib (hist_of sys) deps tok w' \<and> cw_now w \<le> cw_now w' \<and> cw_now w' \<le> cw_now w + 60 * second \<and>
    (\<forall>v. r = Inr v \<longrightarrow> (\<exists>t. cw_now w' - (if v then 45 * second else 120 * second) < t \<and> t \<le> cw_now w' \<and>
      VerifyToken lib (hist_of sys t) a i x = Inr v))"
proof -
  have c: "cw_now w \<le> cw_now w1" "cw_now w1 \<le> cw_now w + 30 * second" "client_ok lib (hist_of sys) deps tok w1"
    and q: "\<And>v. flight_result ''/internal/v1/viewer-tokens/verify'' ok_body fl = Inr v \<Longrightarrow>
      \<exists>t. cw_now w1 - 30 * second \<le> t \<and> t \<le> cw_now w1 \<and> says_ok lib (hist_of sys) a i x v t"
    using verify_call[of w a i x] ok fl by (auto simp: call_ok_def)
  show ?thesis
  proof (cases fl)
    case (Join j)
    then have j: "r = j" "w' = w1" using run by (auto simp: doSingleflight_def)
    have "\<exists>t. cw_now w' - (if v then 45 * second else 120 * second) < t \<and> t \<le> cw_now w' \<and>
      VerifyToken lib (hist_of sys t) a i x = Inr v" if v: "r = Inr v" for v
    proof -
      obtain t where "cw_now w1 - 30 * second \<le> t" "t \<le> cw_now w1" "VerifyToken lib (hist_of sys t) a i x = Inr v"
        using q[of v] Join j v by (auto simp: flight_result_def says_ok_iff)
      then show ?thesis using second_pos j by (intro exI[of _ t]) auto
    qed
    then show ?thesis using c second_pos j by auto
  next
    case (Lead l)
    show ?thesis
    proof (cases "doInternal ''/internal/v1/viewer-tokens/verify'' ok_body l")
      case (Inl e)
      then have "r = Inl e" "w' = w1" using run Lead by (auto simp: doSingleflight_def)
      then show ?thesis using c second_pos by auto
    next
      case (Inr v)
      then obtain t where t: "cw_now w1 - 30 * second \<le> t" "t \<le> cw_now w1" "says_ok lib (hist_of sys) a i x v t"
        using q[of v] Lead by (auto simp: flight_result_def)
      show ?thesis
      proof (cases v)
        case True
        then have r: "r = Inr True" "w' = on_client (\<lambda>c. c\<lparr>ac_positive := cache_set (cw_now w1)
            (hashKey lib [''verify-token-pos'', a, i, x]) True (15 * second) (ac_positive c)\<rparr>) w1"
          using run Lead Inr by (simp_all add: doSingleflight_def verifyTokenPositiveTTL_def)
        have "client_ok lib (hist_of sys) deps tok w'" using client_ok_set(2)[OF c(3) t(1,2)] t(3) True r(2) by simp
        then show ?thesis using r t True c second_pos by (auto simp: says_ok_iff intro!: exI[of _ t])
      next
        case False
        then have r: "r = Inr False" "w' = classify lib en a i x w1" using run Lead Inr by (simp_all add: doSingleflight_def)
        have "says_ok lib (hist_of sys) a i x False t" using t(3) False by simp
        from classify_ok[OF c(3) t(1,2) this a] show ?thesis using r t False c second_pos
          by (auto simp: says_ok_iff intro!: exI[of _ t])
      qed
    qed
  qed
qed

lemma verify_recent:
  assumes ok: "client_ok lib (hist_of sys) deps tok w" and a: "nl_uuid_Parse lib a \<noteq> None" and run: "client_VerifyToken lib en a i x w = (r, w')"
  shows "client_ok lib (hist_of sys) deps tok w' \<and> cw_now w \<le> cw_now w' \<and> cw_now w' \<le> cw_now w + 60 * second \<and>
    (r = Inr True \<longrightarrow> (\<exists>t i' x'. cw_now w' - 45 * second < t \<and> t \<le> cw_now w' \<and> i' @ nul # x' = i @ nul # x \<and>
      VerifyToken lib (hist_of sys t) a i' x' = Inr True)) \<and>
    (r = Inr False \<longrightarrow> nl_uuid_Parse lib i \<noteq> None \<longrightarrow>
      (\<exists>t. cw_now w' - 120 * second < t \<and> t \<le> cw_now w' \<and> VerifyToken lib (hist_of sys t) a i x = Inr False))"
proof (cases "cache_get (cw_now w) (ac_positive (cw_client w)) (hashKey lib [''verify-token-pos'', a, i, x])")
  case (Some v)
  then have "r = Inr v" "w' = w" using run by (auto simp: client_VerifyToken_def Let_def)
  then show ?thesis using positive_hit[OF ok Some a] ok second_pos by auto
next
  case pos: None
  show ?thesis
  proof (cases "cache_get (cw_now w) (ac_inactive (cw_client w)) (hashKey lib [''verify-token-inactive'', a, i])")
    case (Some v)
    then have "r = Inr False" "w' = w" using run pos by (auto simp: client_VerifyToken_def Let_def)
    then show ?thesis using inactive_hit[OF ok Some a] ok second_pos by auto
  next
    case inact: None
    show ?thesis
    proof (cases "cache_get (cw_now w) (ac_wrong (cw_client w)) (hashKey lib [''verify-token-wrong-secret'', a, i, x])")
      case (Some v)
      then have "r = Inr False" "w' = w" using run pos inact by (auto simp: client_VerifyToken_def Let_def)
      then show ?thesis using wrong_hit[OF ok a _ Some] ok second_pos by auto
    next
      case wrong: None
      obtain fl w1 where fl: "en_verify en a i x w = (fl, w1)" by (cases "en_verify en a i x w")
      have "doSingleflight (fl, w1) (\<lambda>r w'.
          case doInternal ''/internal/v1/viewer-tokens/verify'' ok_body r of
            Inl e \<Rightarrow> (Inl e, w')
          | Inr True \<Rightarrow>
              (Inr True, on_client (\<lambda>c. c\<lparr>ac_positive :=
                 cache_set (cw_now w') (hashKey lib [''verify-token-pos'', a, i, x]) True verifyTokenPositiveTTL (ac_positive c)\<rparr>) w')
          | Inr False \<Rightarrow> (Inr False, classify lib en a i x w')) = (r, w')"
        using run pos inact wrong fl by (simp add: client_VerifyToken_def Let_def)
      note f = verify_flight[OF ok a fl this]
      have "\<exists>t. cw_now w' - 45 * second < t \<and> t \<le> cw_now w' \<and> VerifyToken lib (hist_of sys t) a i x = Inr True" if "r = Inr True"
        using f that by auto
      moreover have "\<exists>t. cw_now w' - 120 * second < t \<and> t \<le> cw_now w' \<and> VerifyToken lib (hist_of sys t) a i x = Inr False"
        if "r = Inr False" using f that by auto
      ultimately show ?thesis using f by blast
    qed
  qed
qed

end

end
