(* ===== verification/Worker_Served.thy ===== *)
theory Worker_Served
  imports Worker_Client_Facts
begin

text \<open>
  The client in front of the handlers: every call takes the time its fate says, is answered by the handler on the
  tables of that moment, and fails when it takes longer than the timeout of the HTTP client. This environment
  satisfies the contract \<open>pipeline_api\<close>. The bundle cache stays within its budget and holds only what its keys promise.
\<close>

section \<open>Calls with delays and faults\<close>

datatype call_fate = Delivered nat nat | Dropped nat

definition timed_call :: "(time_ns \<Rightarrow> call_fate) \<Rightarrow> (time_ns \<Rightarrow> answer) \<Rightarrow> 'z client_world_scheme \<Rightarrow> reply \<times> 'z client_world_scheme" where
  "timed_call fate f w =
     (case fate (cw_now w) of
        Delivered d e \<Rightarrow>
          if int d + int e \<le> defaultHTTPTimeout
          then (Reply (f (cw_now w + int d)), w\<lparr>cw_now := cw_now w + int d + int e\<rparr>)
          else (NoReply ''context deadline exceeded'', w\<lparr>cw_now := cw_now w + defaultHTTPTimeout\<rparr>)
      | Dropped d \<Rightarrow> (NoReply ''connection refused'', w\<lparr>cw_now := cw_now w + min (int d) defaultHTTPTimeout\<rparr>))"

definition leading :: "reply \<times> 'w \<Rightarrow> 'a flight \<times> 'w" where
  "leading p = (Lead (fst p), snd p)"

definition served_env :: "app_lib \<Rightarrow> history \<Rightarrow> (time_ns \<Rightarrow> session_deps) \<Rightarrow> string \<Rightarrow> (time_ns \<Rightarrow> string \<Rightarrow> string \<Rightarrow> go_error + string) \<Rightarrow>
    (time_ns \<Rightarrow> string \<Rightarrow> string \<Rightarrow> string \<Rightarrow> string + int \<times> string) \<Rightarrow> (time_ns \<Rightarrow> call_fate) \<Rightarrow> 'z env" where
  "served_env lib hist deps tok mint ask fate =
     \<lparr>en_resolve = (\<lambda>pid name ch w. leading (timed_call fate (\<lambda>t. handleResolve lib (hist t) pid name ch) w)),
      en_resolve_draft = (\<lambda>pid name. timed_call fate (\<lambda>t. handleResolve lib (hist t) pid name ''draft'')),
      en_bundle = (\<lambda>hash w. leading (timed_call fate (\<lambda>t. handleBundle lib (hist t) hash) w)),
      en_verify = (\<lambda>a i x w. leading (timed_call fate (\<lambda>t. handleVerifyViewerToken lib (hist t)
        (Decoded \<lparr>vt_AppID = a, vt_TokenID = i, vt_Secret = x\<rparr>)) w)),
      en_active = (\<lambda>a i w. leading (timed_call fate (\<lambda>t. handleTokenActive lib (hist t) (Decoded (a, i))) w)),
      en_session = (\<lambda>pid cookies authz w. leading (timed_call fate (\<lambda>t. handleVerifySession lib (deps t) (session_header tok cookies authz)
        (Decoded pid)) w)),
      en_impersonate = (\<lambda>a. timed_call fate (\<lambda>t. handleImpersonate lib (hist t) (mint t) (Decoded a))),
      en_query = (\<lambda>pid jwt body w. (ask (cw_now w) pid jwt body, w))\<rparr>"

lemma client_ok_later:
  assumes "client_ok lib hist deps tok w" "cw_client w' = cw_client w" "cw_now w \<le> cw_now w'"
  shows "client_ok lib hist deps tok w'"
  using assms(1) unfolding client_ok_def Let_def assms(2) by (simp add: entries_ok_later[OF _ assms(3)])

lemma call_outcome:
  assumes "timed_call fate f w = (r, w')"
  shows "cw_now w \<le> cw_now w' \<and> cw_now w' \<le> cw_now w + 30 * second \<and> cw_client w' = cw_client w \<and>
    (\<forall>a. r = Reply a \<longrightarrow> (\<exists>t. cw_now w' - 30 * second \<le> t \<and> t \<le> cw_now w' \<and> a = f t))"
proof (cases "fate (cw_now w)")
  case (Delivered d e)
  show ?thesis
  proof (cases "int d + int e \<le> defaultHTTPTimeout")
    case True
    then have "r = Reply (f (cw_now w + int d))" "w' = w\<lparr>cw_now := cw_now w + int d + int e\<rparr>"
      using assms Delivered by (auto simp: timed_call_def)
    then show ?thesis using True by (auto simp: defaultHTTPTimeout_def intro!: exI[of _ "cw_now w + int d"])
  next
    case False
    then show ?thesis using assms Delivered second_pos by (auto simp: timed_call_def defaultHTTPTimeout_def)
  qed
next
  case (Dropped d)
  then show ?thesis using assms second_pos by (auto simp: timed_call_def defaultHTTPTimeout_def)
qed

lemma doInternal_Inr:
  "doInternal path body r = Inr v \<Longrightarrow> \<exists>st b. r = Reply (Answer st b) \<and> 200 \<le> st \<and> st < 300 \<and> body b = Some v"
  by (auto simp: doInternal_def split: reply.splits answer.splits if_splits option.splits)

lemma call_ok_served:
  assumes truth: "\<And>t st b v. f t = Answer st b \<Longrightarrow> 200 \<le> st \<Longrightarrow> st < 300 \<Longrightarrow> body b = Some v \<Longrightarrow> Q v t"
  shows "call_ok (client_ok lib hist deps tok) w (leading (timed_call fate f w)) path body Q"
proof -
  obtain r w' where c: "timed_call fate f w = (r, w')" by (cases "timed_call fate f w")
  note o = call_outcome[OF c]
  have "client_ok lib hist deps tok w \<longrightarrow> client_ok lib hist deps tok w'" using o client_ok_later by blast
  moreover have "\<exists>t. cw_now w' - 30 * second \<le> t \<and> t \<le> cw_now w' \<and> Q v t" if d: "doInternal path body r = Inr v" for v
  proof -
    obtain st b where a: "r = Reply (Answer st b)" "200 \<le> st" "st < 300" "body b = Some v"
      using doInternal_Inr[OF d] by blast
    then obtain t where "cw_now w' - 30 * second \<le> t" "t \<le> cw_now w'" "Answer st b = f t" using o by blast
    then show ?thesis using truth a by metis
  qed
  ultimately show ?thesis using o c by (simp add: call_ok_def leading_def flight_result_def)
qed

lemma answer_shapes:
  "handleTokenActive lib db d = Answer st b \<Longrightarrow> 200 \<le> st \<Longrightarrow> st < 300 \<Longrightarrow> st = 200"
  "handleVerifyViewerToken lib db e = Answer st b \<Longrightarrow> 200 \<le> st \<Longrightarrow> st < 300 \<Longrightarrow> st = 200"
  "handleResolve lib db pid name ch = Answer st b \<Longrightarrow> 200 \<le> st \<Longrightarrow> st < 300 \<Longrightarrow> st = 200"
  "handleVerifySession lib sd h p = Answer st b \<Longrightarrow> 200 \<le> st \<Longrightarrow> st < 300 \<Longrightarrow> st = 200"
  by (auto simp: handleTokenActive_def handleVerifyViewerToken_def handleResolve_def handleVerifySession_def readInternalJSON_def
      bad_request_def unavailable_def writeInternalError_def Let_def
      split: decoded.splits option.splits sum.splits if_splits prod.splits)

sublocale viewer_store < served: pipeline_api lib projects retention sys deps tok "served_env lib (hist_of sys) deps tok mint ask fate"
  for deps tok mint ask fate
proof unfold_locales
  fix w a i
  show "call_ok (client_ok lib (hist_of sys) deps tok) w (en_active (served_env lib (hist_of sys) deps tok mint ask fate) a i w)
      ''/internal/v1/viewer-tokens/active'' active_body (says_active lib (hist_of sys) a i)"
    unfolding served_env_def env.simps
  proof (rule call_ok_served)
    fix t st b v
    assume "handleTokenActive lib (hist_of sys t) (Decoded (a, i)) = Answer st b" "200 \<le> st" "st < 300" "active_body b = Some v"
    then show "says_active lib (hist_of sys) a i v t" using answer_shapes(1) by (cases b) (auto simp: says_active_def)
  qed
next
  fix w a i x
  show "call_ok (client_ok lib (hist_of sys) deps tok) w (en_verify (served_env lib (hist_of sys) deps tok mint ask fate) a i x w)
      ''/internal/v1/viewer-tokens/verify'' ok_body (says_ok lib (hist_of sys) a i x)"
    unfolding served_env_def env.simps
  proof (rule call_ok_served)
    fix t st b v
    assume "handleVerifyViewerToken lib (hist_of sys t) (Decoded \<lparr>vt_AppID = a, vt_TokenID = i, vt_Secret = x\<rparr>) = Answer st b"
      "200 \<le> st" "st < 300" "ok_body b = Some v"
    then show "says_ok lib (hist_of sys) a i x v t" using answer_shapes(2) by (cases b) (auto simp: says_ok_def)
  qed
next
  fix w pid name ch
  show "call_ok (client_ok lib (hist_of sys) deps tok) w (en_resolve (served_env lib (hist_of sys) deps tok mint ask fate) pid name ch w)
      (''/internal/v1/apps/'' @ pid @ ''/'' @ name @ ''/resolve'') resolve_body (resolves lib (hist_of sys) pid name ch)"
    unfolding served_env_def env.simps
  proof (rule call_ok_served)
    fix t st b v
    assume "handleResolve lib (hist_of sys t) pid name ch = Answer st b" "200 \<le> st" "st < 300" "resolve_body b = Some v"
    then show "resolves lib (hist_of sys) pid name ch v t" using answer_shapes(3) by (cases b) (auto simp: resolves_def)
  qed
next
  fix w pid cookies authz
  show "call_ok (client_ok lib (hist_of sys) deps tok) w (en_session (served_env lib (hist_of sys) deps tok mint ask fate) pid cookies authz w)
      ''/internal/v1/sessions/verify'' session_body (identifies lib deps tok pid cookies authz)"
    unfolding served_env_def env.simps
  proof (rule call_ok_served)
    fix t st b v
    assume "handleVerifySession lib (deps t) (session_header tok cookies authz) (Decoded pid) = Answer st b"
      "200 \<le> st" "st < 300" "session_body b = Some v"
    then show "identifies lib deps tok pid cookies authz v t" using answer_shapes(4) by (cases b) (auto simp: identifies_def)
  qed
qed

section \<open>The bundle cache\<close>

definition lru_ok :: "app_lib \<Rightarrow> bundle_lru \<Rightarrow> bool" where
  "lru_ok lib c \<longleftrightarrow> distinct (map fst (lru_order c)) \<and> lru_curBytes c = int (sum_list (map (length \<circ> snd) (lru_order c))) \<and>
     lru_curBytes c \<le> int (lru_maxBytes c) \<and> (\<forall>(h, d) \<in> set (lru_order c). sha256Hex lib d = h)"

lemma lru_ok_new: "lru_ok lib (newBundleLRU n)"
  by (simp add: lru_ok_def newBundleLRU_def)

lemma sum_filter_other:
  "distinct (map fst xs) \<Longrightarrow> map_of xs h = Some d \<Longrightarrow>
   sum_list (map (length \<circ> snd) (filter (\<lambda>p. fst p \<noteq> h) xs)) + length d = sum_list (map (length \<circ> snd) xs)"
proof (induction xs)
  case (Cons p xs)
  show ?case
  proof (cases "fst p = h")
    case True
    then have "filter (\<lambda>p. fst p \<noteq> h) xs = xs" using Cons.prems(1) by (auto simp: filter_id_conv image_iff)
    then show ?thesis using True Cons.prems by (cases p) auto
  next
    case False
    then show ?thesis using Cons by (cases p) auto
  qed
qed simp

lemma lru_ok_front:
  assumes "lru_ok lib c" "map_of (lru_order c) h = Some d"
  shows "lru_ok lib (c\<lparr>lru_order := move_to_front h d (lru_order c)\<rparr>)"
proof -
  have "distinct (map fst (lru_order c))" using assms(1) by (simp add: lru_ok_def)
  note s = sum_filter_other[OF this assms(2)]
  have "(h, d) \<in> set (lru_order c)" using assms(2) by (rule map_of_SomeD)
  then show ?thesis using assms(1) s by (auto simp: lru_ok_def move_to_front_def distinct_map_filter)
qed

lemma evict_for_ok:
  assumes "lru_ok lib c"
  shows "lru_ok lib (evict_for n c) \<and> lru_maxBytes (evict_for n c) = lru_maxBytes c \<and>
    set (lru_order (evict_for n c)) \<subseteq> set (lru_order c) \<and>
    (n \<le> int (lru_maxBytes c) \<longrightarrow> lru_curBytes (evict_for n c) + n \<le> int (lru_maxBytes c))"
  using assms
proof (induction n c rule: evict_for.induct)
  case (1 n c)
  show ?case
  proof (cases "int (lru_maxBytes c) < lru_curBytes c + n \<and> lru_order c \<noteq> []")
    case False
    then have "evict_for n c = c" by (subst evict_for.simps) (rule if_not_P)
    moreover have "lru_curBytes c + n \<le> int (lru_maxBytes c)" if "n \<le> int (lru_maxBytes c)"
      using False that 1(2) by (auto simp: lru_ok_def)
    ultimately show ?thesis using 1(2) by simp
  next
    case True
    let ?c = "c\<lparr>lru_curBytes := lru_curBytes c - int (length (snd (last (lru_order c)))), lru_order := butlast (lru_order c)\<rparr>"
    have e: "evict_for n c = evict_for n ?c" using True by (subst evict_for.simps) simp
    obtain xs p where xs: "lru_order c = xs @ [p]" using True by (cases "lru_order c" rule: rev_cases) auto
    then have "lru_ok lib ?c" using 1(2) by (auto simp: lru_ok_def)
    from 1(1)[OF True this] show ?thesis using e xs by auto
  qed
qed

lemma lru_put_ok:
  assumes "lru_ok lib c" "sha256Hex lib d = h"
  shows "lru_ok lib (lru_put h d c)"
proof (cases "map_of (lru_order c) h")
  case (Some d')
  then show ?thesis using lru_ok_front[OF assms(1)] by (simp add: lru_put_def)
next
  case None
  show ?thesis
  proof (cases "int (lru_maxBytes c) < int (length d)")
    case True
    then show ?thesis using None assms(1) by (simp add: lru_put_def)
  next
    case False
    note e = evict_for_ok[OF assms(1), of "int (length d)"]
    have "h \<notin> fst ` set (lru_order c)" using None by (simp add: map_of_eq_None_iff)
    then have "h \<notin> fst ` set (lru_order (evict_for (int (length d)) c))" using e by blast
    then show ?thesis using None False e assms(2) by (auto simp: lru_put_def Let_def lru_ok_def)
  qed
qed

lemma lru_get_ok:
  assumes "lru_ok lib c" "lru_get h c = (r, c')"
  shows "lru_ok lib c' \<and> (\<forall>d. r = Some d \<longrightarrow> sha256Hex lib d = h)"
proof (cases "map_of (lru_order c) h")
  case (Some d)
  then have "r = Some d" "c' = c\<lparr>lru_order := move_to_front h d (lru_order c)\<rparr>" using assms(2) by (auto simp: lru_get_def)
  moreover have "sha256Hex lib d = h" using map_of_SomeD[OF Some] assms(1) by (auto simp: lru_ok_def)
  ultimately show ?thesis using lru_ok_front[OF assms(1) Some] by simp
qed (use assms in \<open>auto simp: lru_get_def\<close>)

text \<open>Every bundle that comes back has the hash it was asked for, whatever pipeline-api sends.\<close>

lemma Bundle_ok:
  assumes c: "lru_ok lib (ac_bundles (cw_client w))" and run: "Bundle lib (served_env lib0 hist deps tok mint ask fate) hash w = (r, w')"
  shows "lru_ok lib (ac_bundles (cw_client w')) \<and> (\<forall>d. r = Inr d \<longrightarrow> sha256Hex lib d = hash)"
proof (cases "lru_get hash (ac_bundles (cw_client w))")
  case (Pair hit b)
  note g = lru_get_ok[OF c Pair]
  show ?thesis
  proof (cases hit)
    case (Some d)
    then show ?thesis using run Pair g by (auto simp: Bundle_def on_client_def)
  next
    case None
    obtain a w1 where call: "timed_call fate (\<lambda>t. handleBundle lib0 (hist t) hash) w = (a, w1)"
      by (cases "timed_call fate (\<lambda>t. handleBundle lib0 (hist t) hash) w")
    have w1: "lru_ok lib (ac_bundles (cw_client w1))" using call_outcome[OF call] c by simp
    then show ?thesis using run Pair None call lru_put_ok[OF w1]
      by (auto simp: Bundle_def served_env_def leading_def doSingleflight_def on_client_def Let_def
          split: reply.splits answer.splits if_splits)
  qed
qed

end
