(* ===== verification/Viewer_Site.thy ===== *)
theory Viewer_Site
  imports Worker_Auth Worker_Served
begin

text \<open>
  Who may view an app: the app worker's authentication in front of pipeline-api and the app store. The site is the
  worker with the record of the cookies it has issued; requests come in any order and time passes between them.
\<close>

section \<open>The laws of the cookie library\<close>

text \<open>\<open>repair\<close> is what \<open>json.Marshal\<close> makes of a string: bytes that are no UTF-8 are replaced.\<close>

definition cookie_laws :: "cookie_lib \<Rightarrow> (string \<Rightarrow> string) \<Rightarrow> bool" where
  "cookie_laws cl repair \<longleftrightarrow>
     (\<forall>x. cl_decode cl (cl_encode cl x) = Some x \<and> CHR ''.'' \<notin> set (cl_encode cl x) \<and> (x \<noteq> [] \<longrightarrow> cl_encode cl x \<noteq> [])) \<and>
     (\<forall>p. cl_marshal cl p \<noteq> [] \<and> (- (2 ^ 63) \<le> cp_Exp p \<longrightarrow> cp_Exp p \<le> max_int64 \<longrightarrow>
        cl_unmarshal cl (cl_marshal cl p) = Some (p\<lparr>cp_AppID := repair (cp_AppID p), cp_TokenID := repair (cp_TokenID p)\<rparr>))) \<and>
     (\<forall>k x. cl_hmac cl k x \<noteq> [])"

lemma cut_first: "c \<notin> set a \<Longrightarrow> cut c (a @ c # b) = Some (a, b)"
  by (simp add: cut_def takeWhile_append dropWhile_append)

section \<open>The site\<close>

record issued =
  is_segment :: string
  is_AppID :: string
  is_TokenID :: string
  is_secret :: string
  is_at :: time_ns

record 'l site =
  st_worker :: "'l worker"
  st_issued :: "issued list"

definition cookie_segment :: "cookie_lib \<Rightarrow> string \<Rightarrow> string \<Rightarrow> time_ns \<Rightarrow> string" where
  "cookie_segment cl appID tokenID now =
     cl_encode cl (cl_marshal cl \<lparr>cp_AppID = appID, cp_TokenID = tokenID, cp_Exp = (now + sessionCookieTTL) div second\<rparr>)"

text \<open>What a response hands out: the payload segment of the cookie it sets, with the secret the request presented for
  it.\<close>

definition handed_out :: "('l, 'r) web_server \<Rightarrow> http_req \<Rightarrow> resolved_app \<Rightarrow> auth_result \<Rightarrow> 'l worker \<Rightarrow> issued list" where
  "handed_out sv r ra res w =
     (case res of
        Inr _ \<Rightarrow> []
      | Inl resp \<Rightarrow>
          (case (rp_SetCookie resp, parseViewerToken (first_value (rq_ValidQuery r) ''token'')) of
             (Some c, Some (tokenID, secret)) \<Rightarrow>
               [\<lparr>is_segment = takeWhile (\<lambda>x. x \<noteq> CHR ''.'') (sc_Value c), is_AppID = ra_AppID ra,
                 is_TokenID = tokenID, is_secret = secret, is_at = cw_now w\<rparr>]
           | _ \<Rightarrow> []))"

text \<open>No one without the key makes a valid MAC: an authenticated segment of a cookie is one that was handed out.\<close>

definition unforged :: "('l, 'r) web_server \<Rightarrow> issued list \<Rightarrow> http_req \<Rightarrow> bool" where
  "unforged sv iss r \<longleftrightarrow>
     (\<forall>v seg m. (''datuplet_app_session'', v) \<in> set (rq_Cookies r) \<longrightarrow> cut CHR ''.'' v = Some (seg, m) \<longrightarrow>
        cl_decode (sr_cookies sv) m = Some (cl_hmac (sr_cookies sv) (sr_cookieKey sv) seg) \<longrightarrow> seg \<in> is_segment ` set iss)"

text \<open>Header values hold no NUL.\<close>

definition plain_headers :: "http_req \<Rightarrow> bool" where
  "plain_headers r \<longleftrightarrow> nul \<notin> set (first_value (rq_Headers r) ''Cookie'') \<and> nul \<notin> set (first_value (rq_Headers r) ''Authorization'')"

inductive site_step :: "('l, 'r) web_server \<Rightarrow> ('l, unit) worker_ext env \<Rightarrow> 'l site \<Rightarrow> 'l site \<Rightarrow> bool"
  for sv :: "('l, 'r) web_server" and en :: "('l, unit) worker_ext env" where
  request: "unforged sv (st_issued s) r \<Longrightarrow> plain_headers r \<Longrightarrow> nl_uuid_Parse (sr_lib sv) (ra_AppID ra) \<noteq> None \<Longrightarrow>
    authenticate sv en r ra (st_worker s) = (res, w') \<Longrightarrow>
    site_step sv en s \<lparr>st_worker = w', st_issued = st_issued s @ handed_out sv r ra res w'\<rparr>"
| wait: "0 \<le> d \<Longrightarrow> site_step sv en s (s\<lparr>st_worker := (st_worker s)\<lparr>cw_now := cw_now (st_worker s) + d\<rparr>\<rparr>)"

definition site_opens :: "'l site \<Rightarrow> bool" where
  "site_opens s \<longleftrightarrow> (\<exists>a b c. cw_client (st_worker s) = NewAPIClient a b c) \<and> st_issued s = [] \<and> 0 \<le> cw_now (st_worker s)"

text \<open>The cache keys join identifier and secret with NUL, so an acceptance is known of the joined text.\<close>

definition accepted :: "app_lib \<Rightarrow> app_db \<Rightarrow> string \<Rightarrow> string \<Rightarrow> string \<Rightarrow> bool" where
  "accepted lib db a i x \<longleftrightarrow> (\<exists>i' x'. i' @ nul # x' = i @ nul # x \<and> VerifyToken lib db a i' x' = Inr True)"

definition issued_ok :: "app_lib \<Rightarrow> history \<Rightarrow> cookie_lib \<Rightarrow> time_ns \<Rightarrow> issued \<Rightarrow> bool" where
  "issued_ok lib hist cl now x \<longleftrightarrow>
     is_segment x = cookie_segment cl (is_AppID x) (is_TokenID x) (is_at x) \<and> 0 \<le> is_at x \<and> is_at x \<le> now \<and>
     (\<exists>u. is_at x - 45 * second < u \<and> u \<le> is_at x \<and> accepted lib (hist u) (is_AppID x) (is_TokenID x) (is_secret x))"

definition site_ok :: "('l, 'r) web_server \<Rightarrow> history \<Rightarrow> (time_ns \<Rightarrow> session_deps) \<Rightarrow> string \<Rightarrow> 'l site \<Rightarrow> bool" where
  "site_ok sv hist deps tok s \<longleftrightarrow> client_ok (sr_lib sv) hist deps tok (st_worker s) \<and> 0 \<le> cw_now (st_worker s) \<and>
     (\<forall>x \<in> set (st_issued s). issued_ok (sr_lib sv) hist (sr_cookies sv) (cw_now (st_worker s)) x)"

section \<open>A pipeline-api that answers in time\<close>

definition prompt :: "(time_ns \<Rightarrow> call_fate) \<Rightarrow> bool" where
  "prompt fate \<longleftrightarrow> (\<forall>t. case fate t of Delivered d e \<Rightarrow> int d + int e \<le> defaultHTTPTimeout | Dropped _ \<Rightarrow> False)"

lemma prompt_call:
  assumes "prompt fate"
  shows "\<exists>t w'. timed_call fate f w = (Reply (f t), w') \<and> cw_now w \<le> t \<and> t \<le> cw_now w + 30 * second"
proof (cases "fate (cw_now w)")
  case (Delivered d e)
  have "case fate (cw_now w) of Delivered d e \<Rightarrow> int d + int e \<le> defaultHTTPTimeout | Dropped _ \<Rightarrow> False"
    using assms unfolding prompt_def by blast
  then have "int d + int e \<le> defaultHTTPTimeout" using Delivered by simp
  then show ?thesis using Delivered
    by (auto simp: timed_call_def defaultHTTPTimeout_def intro!: exI[of _ "cw_now w + int d"])
next
  case (Dropped d)
  then show ?thesis using assms by (auto simp: prompt_def dest: spec[of _ "cw_now w"])
qed

lemma verify_prompt:
  assumes "prompt fate" "x \<noteq> []"
    and ok: "\<And>t. cw_now w \<le> t \<Longrightarrow> t \<le> cw_now w + 30 * second \<Longrightarrow> VerifyToken lib (hist t) a i x = Inr True"
  shows "\<exists>v. fst (client_VerifyToken lib (served_env lib hist deps tok mint ask fate) a i x w) = Inr v"
proof -
  obtain t w' where c: "timed_call fate (\<lambda>t. handleVerifyViewerToken lib (hist t) (Decoded \<lparr>vt_AppID = a, vt_TokenID = i, vt_Secret = x\<rparr>)) w =
      (Reply (handleVerifyViewerToken lib (hist t) (Decoded \<lparr>vt_AppID = a, vt_TokenID = i, vt_Secret = x\<rparr>)), w')"
    and t: "cw_now w \<le> t" "t \<le> cw_now w + 30 * second" using prompt_call[OF assms(1)] by blast
  have "handleVerifyViewerToken lib (hist t) (Decoded \<lparr>vt_AppID = a, vt_TokenID = i, vt_Secret = x\<rparr>) = Answer 200 (OkBody True)"
    using ok[OF t] assms(2) by (simp add: handleVerifyViewerToken_ok)
  then show ?thesis using c
    by (auto simp: client_VerifyToken_def served_env_def leading_def doSingleflight_def doInternal_def Let_def split: option.splits)
qed

lemma active_prompt:
  assumes "prompt fate"
    and ok: "\<And>t. cw_now w \<le> t \<Longrightarrow> t \<le> cw_now w + 30 * second \<Longrightarrow> TokenActive lib (hist t) a i = Inr True"
  shows "\<exists>v. fst (CheckTokenActive lib (served_env lib hist deps tok mint ask fate) a i w) = Inr v"
proof -
  obtain t w' where c: "timed_call fate (\<lambda>t. handleTokenActive lib (hist t) (Decoded (a, i))) w =
      (Reply (handleTokenActive lib (hist t) (Decoded (a, i))), w')"
    and t: "cw_now w \<le> t" "t \<le> cw_now w + 30 * second" using prompt_call[OF assms(1)] by blast
  have "handleTokenActive lib (hist t) (Decoded (a, i)) = Answer 200 (ActiveBody True)" using ok[OF t] by (simp add: handleTokenActive_ok)
  then show ?thesis using c
    by (auto simp: CheckTokenActive_def served_env_def leading_def doSingleflight_def doInternal_def Let_def split: option.splits)
qed

lemma verified_is_active: "VerifyToken lib db a i x = Inr True \<Longrightarrow> TokenActive lib db a i = Inr True"
  by (auto simp: VerifyToken_def TokenActive_def with_ids_def parse_id_def split: option.splits sum.splits)

section \<open>What authentication does to the world\<close>

lemma reserveVerifyAttempt_client [simp]:
  "reserveVerifyAttempt rl ip a w = (b, w') \<Longrightarrow> cw_client w' = cw_client w \<and> cw_now w' = cw_now w"
  by (auto simp: reserveVerifyAttempt_def Let_def split: prod.splits if_splits)

lemma refund_client [simp]: "cw_client (refund rl b w) = cw_client w" "cw_now (refund rl b w) = cw_now w"
  by (simp_all add: refund_def)

text \<open>A site in front of a pipeline-api that keeps its contract.\<close>

locale viewer_site = pipeline_api lib projects retention sys deps tok en
  for lib :: app_lib and projects :: "project_row list" and retention :: int and sys :: "time_ns \<Rightarrow> apps_sys"
    and deps :: "time_ns \<Rightarrow> session_deps" and tok :: string and en :: "('l, unit) worker_ext env" +
  fixes sv :: "('l, 'r) web_server" and repair :: "string \<Rightarrow> string"
  assumes sr_lib: "sr_lib sv = lib" and cookies: "cookie_laws (sr_cookies sv) repair"
    and repaired: "nl_uuid_Parse lib (repair i) = Some u \<Longrightarrow> repair i = i"
begin

lemma client_ok_same:
  "client_ok lib (hist_of sys) deps tok w \<Longrightarrow> cw_client w' = cw_client w \<Longrightarrow> cw_now w' = cw_now w \<Longrightarrow>
   client_ok lib (hist_of sys) deps tok w'"
  using client_ok_later[of lib "hist_of sys" deps tok w w'] by simp

lemma issued_segment:
  "takeWhile (\<lambda>x. x \<noteq> CHR ''.'') (sc_Value (issued_cookie sv ra i now)) = cookie_segment (sr_cookies sv) (ra_AppID ra) i now"
proof -
  have "CHR ''.'' \<notin> set (cookie_segment (sr_cookies sv) (ra_AppID ra) i now)"
    using cookies by (simp add: cookie_segment_def cookie_laws_def)
  then show ?thesis
    by (simp add: issued_cookie_def signCookie_def cookie_segment_def Let_def takeWhile_append)
qed

lemma exchange_effect:
  assumes ok: "client_ok lib (hist_of sys) deps tok w" and app: "nl_uuid_Parse lib (ra_AppID ra) \<noteq> None"
    and run: "exchangeViewerToken sv en r ra raw w = (resp, w')"
  shows "client_ok lib (hist_of sys) deps tok w' \<and> cw_now w \<le> cw_now w' \<and>
    (\<forall>c. rp_SetCookie resp = Some c \<longrightarrow> (\<exists>i x. parseViewerToken raw = Some (i, x) \<and> c = issued_cookie sv ra i (cw_now w') \<and>
      (\<exists>u. cw_now w' - 45 * second < u \<and> u \<le> cw_now w' \<and> accepted lib (hist_of sys u) (ra_AppID ra) i x)))"
proof -
  obtain b w1 where b: "reserveVerifyAttempt (sr_rate sv) (resolveClientIP (sr_ip sv) (sr_trust sv) r) (ra_AppID ra) w = (b, w1)"
    by (cases "reserveVerifyAttempt (sr_rate sv) (resolveClientIP (sr_ip sv) (sr_trust sv) r) (ra_AppID ra) w")
  have w1: "cw_client w1 = cw_client w" "cw_now w1 = cw_now w" using reserveVerifyAttempt_client[OF b] by auto
  then have ok1: "client_ok lib (hist_of sys) deps tok w1" using client_ok_same[OF ok] by blast
  show ?thesis
  proof (cases b)
    case None
    then show ?thesis using run b ok1 w1 by (auto simp: exchangeViewerToken_def failRateLimited_def err_resp_def)
  next
    case (Some budget)
    show ?thesis
    proof (cases "parseViewerToken raw")
      case None
      then show ?thesis using run b Some ok1 w1 by (auto simp: exchangeViewerToken_def failViewerToken_def err_resp_def)
    next
      case tok: (Some p)
      obtain i x where p: "p = (i, x)" by (cases p)
      obtain v w2 where v: "client_VerifyToken lib en (ra_AppID ra) i x w1 = (v, w2)" by (cases "client_VerifyToken lib en (ra_AppID ra) i x w1")
      have rec: "client_ok lib (hist_of sys) deps tok w2" "cw_now w1 \<le> cw_now w2" "v = Inr True \<Longrightarrow>
        \<exists>u. cw_now w2 - 45 * second < u \<and> u \<le> cw_now w2 \<and> accepted lib (hist_of sys u) (ra_AppID ra) i x"
        using verify_recent[OF ok1 app v] unfolding accepted_def by blast+
      show ?thesis using run b Some tok p v rec sr_lib w1 client_ok_same[of w2 "refund (sr_rate sv) budget w2"]
        by (auto simp: exchangeViewerToken_def failViewerToken_def err_resp_def split: sum.splits if_splits)
    qed
  qed
qed

lemma platform_effect:
  assumes ok: "client_ok lib (hist_of sys) deps tok w"
    and plain: "plain_headers r" and run: "authenticatePlatform sv en r ra w = (res, w')"
  shows "client_ok lib (hist_of sys) deps tok w' \<and> cw_now w \<le> cw_now w' \<and>
    (case res of
       Inl resp \<Rightarrow> rp_SetCookie resp = None
     | Inr p \<Rightarrow> pr_Kind p = ''platform_user'' \<and> (first_value (rq_Headers r) ''Authorization'' = [] \<longrightarrow> checkCSRF r = None) \<and>
         (\<exists>t. cw_now w' - 45 * second < t \<and> t \<le> cw_now w' \<and>
           identifies lib deps tok (ra_ProjectID ra) (first_value (rq_Headers r) ''Cookie'') (first_value (rq_Headers r) ''Authorization'')
             \<lparr>si_UserID = pr_ID p, si_ProjectMember = True\<rparr> t))"
proof -
  let ?z = "first_value (rq_Headers r) ''Authorization''" and ?c = "first_value (rq_Headers r) ''Cookie''"
  obtain v w1 where v: "VerifySession lib en (ra_ProjectID ra) ?c ?z w = (v, w1)" by (cases "VerifySession lib en (ra_ProjectID ra) ?c ?z w")
  have rec: "answered (client_ok lib (hist_of sys) deps tok) (30 * second) (45 * second)
      (identifies lib deps tok (ra_ProjectID ra) ?c ?z) w (v, w1)"
    using session_recent[OF ok, of ?c ?z "ra_ProjectID ra"] plain v by (simp add: plain_headers_def)
  have csrf: "rp_SetCookie e = None" if "checkCSRF r = Some e" for e
    using that by (auto simp: checkCSRF_def Let_def err_resp_def split: if_splits)
  show ?thesis
  proof (cases "?z = [] \<and> ?c = []")
    case True
    then show ?thesis using run ok by (auto simp: authenticatePlatform_def err_resp_def)
  next
    case False
    show ?thesis
    proof (cases v)
      case (Inl e)
      then show ?thesis using run False v sr_lib rec by (auto simp: authenticatePlatform_def answered_def err_resp_def)
    next
      case (Inr info)
      obtain t where t: "cw_now w1 - 45 * second < t" "t \<le> cw_now w1" "identifies lib deps tok (ra_ProjectID ra) ?c ?z info t"
        using rec Inr by (auto simp: answered_def)
      have member: "\<exists>t. cw_now w1 - 45 * second < t \<and> t \<le> cw_now w1 \<and> identifies lib deps tok (ra_ProjectID ra) ?c ?z
          \<lparr>si_UserID = si_UserID info, si_ProjectMember = True\<rparr> t" if "si_ProjectMember info"
        using t that by (intro exI[of _ t]) (simp add: identifies_def)
      have w1: "client_ok lib (hist_of sys) deps tok w1" "cw_now w \<le> cw_now w1" using rec by (auto simp: answered_def)
      show ?thesis using run False v Inr sr_lib w1 member csrf
        by (auto simp: authenticatePlatform_def answered_def err_resp_def Let_def split: if_splits option.splits)
    qed
  qed
qed

lemma cookie_effect:
  assumes ok: "client_ok lib (hist_of sys) deps tok w" and app: "nl_uuid_Parse lib (ra_AppID ra) \<noteq> None"
    and run: "authenticateCookie sv en r ra w = (res, w')"
  shows "client_ok lib (hist_of sys) deps tok w' \<and> cw_now w \<le> cw_now w' \<and>
    (case res of
       Inl resp \<Rightarrow> rp_SetCookie resp = None
     | Inr p \<Rightarrow> pr_Kind p = ''viewer_token'' \<and> checkCSRF r = None \<and>
         (\<exists>v pl. map_of (rq_Cookies r) ''datuplet_app_session'' = Some v \<and>
           parseCookie (sr_cookies sv) (sr_cookieKey sv) v = Inr pl \<and> cp_AppID pl = ra_AppID ra \<and> cp_TokenID pl = pr_ID p \<and>
           cw_now w < cp_Exp pl * second) \<and>
         (\<exists>t. cw_now w' - 45 * second < t \<and> t \<le> cw_now w' \<and> TokenActive lib (hist_of sys t) (ra_AppID ra) (pr_ID p) = Inr True))"
proof -
  have csrf: "rp_SetCookie e = None" if "checkCSRF r = Some e" for e
    using that by (auto simp: checkCSRF_def Let_def err_resp_def split: if_splits)
  show ?thesis
  proof (cases "\<exists>v pl. map_of (rq_Cookies r) ''datuplet_app_session'' = Some v \<and> v \<noteq> [] \<and>
      parseCookie (sr_cookies sv) (sr_cookieKey sv) v = Inr pl \<and> cp_AppID pl = ra_AppID ra \<and> cw_now w < cp_Exp pl * second \<and> checkCSRF r = None")
    case False
    then show ?thesis using run ok csrf
      by (auto simp: authenticateCookie_def err_resp_def split: option.splits sum.splits if_splits)
  next
    case True
    then obtain v pl where v: "map_of (rq_Cookies r) ''datuplet_app_session'' = Some v" "v \<noteq> []"
      "parseCookie (sr_cookies sv) (sr_cookieKey sv) v = Inr pl" "cp_AppID pl = ra_AppID ra" "cw_now w < cp_Exp pl * second" "checkCSRF r = None"
      by blast
    obtain a w1 where a: "CheckTokenActive lib en (ra_AppID ra) (cp_TokenID pl) w = (a, w1)"
      by (cases "CheckTokenActive lib en (ra_AppID ra) (cp_TokenID pl) w")
    note rec = active_recent[OF ok app, of "cp_TokenID pl", unfolded a]
    show ?thesis using run v a sr_lib rec
      by (auto simp: authenticateCookie_def answered_def err_resp_def says_active_iff split: sum.splits if_splits)
  qed
qed

text \<open>The three channels together.\<close>

lemma authenticate_effect:
  assumes ok: "client_ok lib (hist_of sys) deps tok w" and pos: "0 \<le> cw_now w"
    and plain: "plain_headers r" and app: "nl_uuid_Parse lib (ra_AppID ra) \<noteq> None" and run: "authenticate sv en r ra w = (res, w')"
  shows "client_ok lib (hist_of sys) deps tok w' \<and> cw_now w \<le> cw_now w' \<and>
    (\<forall>x \<in> set (handed_out sv r ra res w'). issued_ok lib (hist_of sys) (sr_cookies sv) (cw_now w') x)"
proof -
  let ?q = "first_value (rq_ValidQuery r) ''token''"
  have none: "handed_out sv r ra res w' = []" if "case res of Inl resp \<Rightarrow> rp_SetCookie resp = None | Inr p \<Rightarrow> P p" for P
    using that by (cases res) (auto simp: handed_out_def)
  consider (off) "\<not> sr_api sv \<or> sr_cookieKey sv = []" | (refused) "isDraft ra" "?q \<noteq> []" "sr_api sv" "sr_cookieKey sv \<noteq> []"
    | (platform) "authenticatePlatform sv en r ra w = (res, w')" | (cookie) "authenticateCookie sv en r ra w = (res, w')"
    | (exchange) resp where "exchangeViewerToken sv en r ra ?q w = (resp, w')" "res = Inl resp"
    using run by (auto simp: authenticate_def Let_def split: if_splits prod.splits)
  then show ?thesis
  proof cases
    case platform
    note e = platform_effect[OF ok plain platform]
    have "handed_out sv r ra res w' = []" by (rule none) (use e in auto)
    then show ?thesis using e by simp
  next
    case cookie
    note e = cookie_effect[OF ok app cookie]
    have "handed_out sv r ra res w' = []" by (rule none) (use e in auto)
    then show ?thesis using e by simp
  next
    case exchange
    note e = exchange_effect[OF ok app exchange(1)]
    show ?thesis
    proof (cases "rp_SetCookie resp")
      case None
      then show ?thesis using e exchange(2) by (simp add: handed_out_def)
    next
      case (Some c)
      then obtain i x u where "parseViewerToken ?q = Some (i, x)" "c = issued_cookie sv ra i (cw_now w')"
        "cw_now w' - 45 * second < u" "u \<le> cw_now w'" "accepted lib (hist_of sys u) (ra_AppID ra) i x" using e by blast
      then show ?thesis using e exchange(2) Some pos by (auto simp: handed_out_def issued_ok_def issued_segment)
    qed
  qed (use run ok in \<open>auto simp: authenticate_def handed_out_def err_resp_def\<close>)
qed

lemma site_ok_step:
  assumes st: "site_step sv en s s'" and ok: "site_ok sv (hist_of sys) deps tok s"
  shows "site_ok sv (hist_of sys) deps tok s'"
  using st
proof cases
  case (request r ra res w')
  have c: "client_ok lib (hist_of sys) deps tok (st_worker s)"
    and i: "\<And>x. x \<in> set (st_issued s) \<Longrightarrow> issued_ok lib (hist_of sys) (sr_cookies sv) (cw_now (st_worker s)) x"
    and pos: "0 \<le> cw_now (st_worker s)" using ok sr_lib by (simp_all add: site_ok_def)
  note e = authenticate_effect[OF c pos request(3) request(4)[unfolded sr_lib] request(5)]
  have "issued_ok lib (hist_of sys) (sr_cookies sv) (cw_now w') x" if "x \<in> set (st_issued s)" for x
    using i[OF that] e by (auto simp: issued_ok_def)
  then show ?thesis using request(1) e pos sr_lib by (auto simp: site_ok_def)
next
  case (wait d)
  have "client_ok lib (hist_of sys) deps tok (st_worker s')"
    by (rule client_ok_later[of _ _ _ _ "st_worker s"]) (use ok sr_lib wait in \<open>auto simp: site_ok_def\<close>)
  then show ?thesis using ok sr_lib wait by (auto simp: site_ok_def issued_ok_def)
qed

lemma site_later:
  assumes "(site_step sv en)\<^sup>*\<^sup>* s s'" "site_ok sv (hist_of sys) deps tok s"
  shows "site_ok sv (hist_of sys) deps tok s' \<and> cw_now (st_worker s) \<le> cw_now (st_worker s')"
  using assms(1)
proof (induction rule: rtranclp_induct)
  case (step s' s'')
  have ok: "client_ok lib (hist_of sys) deps tok (st_worker s')" "0 \<le> cw_now (st_worker s')"
    using step.IH sr_lib by (simp_all add: site_ok_def)
  from step(2) have "cw_now (st_worker s') \<le> cw_now (st_worker s'')"
  proof cases
    case (request r ra res w')
    then show ?thesis using authenticate_effect[OF ok request(3) request(4)[unfolded sr_lib] request(5)] by simp
  qed simp
  then show ?case using step site_ok_step by auto
qed (use assms(2) in simp)

lemma client_ok_new: "cw_client w = NewAPIClient a b c \<Longrightarrow> client_ok lib (hist_of sys) deps tok w"
  by (simp add: client_ok_def NewAPIClient_def)

lemma site_reachable:
  assumes "site_opens s0" "(site_step sv en)\<^sup>*\<^sup>* s0 s"
  shows "site_ok sv (hist_of sys) deps tok s"
  using assms(2)
proof (induction rule: rtranclp_induct)
  case base
  then show ?case using assms(1) sr_lib client_ok_new by (auto simp: site_opens_def site_ok_def)
next
  case (step s s')
  then show ?case using site_ok_step by blast
qed

text \<open>A cookie that verifies is one that was issued, and says what was sealed in it.\<close>

lemma issued_payload:
  assumes x: "issued_ok lib hist (sr_cookies sv) now x" and now: "now \<le> max_int64"
  shows "\<exists>raw. cl_decode (sr_cookies sv) (is_segment x) = Some raw \<and> cl_unmarshal (sr_cookies sv) raw =
    Some \<lparr>cp_AppID = repair (is_AppID x), cp_TokenID = repair (is_TokenID x), cp_Exp = (is_at x + sessionCookieTTL) div second\<rparr>"
proof -
  have at: "0 \<le> is_at x" "is_at x \<le> now" and seg: "is_segment x = cookie_segment (sr_cookies sv) (is_AppID x) (is_TokenID x) (is_at x)"
    using x by (simp_all add: issued_ok_def)
  have e: "- (2 ^ 63) \<le> (is_at x + sessionCookieTTL) div second" "(is_at x + sessionCookieTTL) div second \<le> max_int64"
    using at now by (auto simp: sessionCookieTTL_def second_def max_int64_def)
  then show ?thesis using cookies unfolding seg cookie_segment_def cookie_laws_def by simp
qed

lemma cookie_origin:
  assumes p: "parseCookie (sr_cookies sv) (sr_cookieKey sv) v = Inr pl" and v: "(''datuplet_app_session'', v) \<in> set (rq_Cookies r)"
    and u: "unforged sv iss r" and ok: "\<forall>x \<in> set iss. issued_ok lib hist (sr_cookies sv) now x" and now: "now \<le> max_int64"
  shows "\<exists>x \<in> set iss. cp_AppID pl = repair (is_AppID x) \<and> cp_TokenID pl = repair (is_TokenID x) \<and>
    cp_Exp pl = (is_at x + sessionCookieTTL) div second"
proof -
  obtain seg m raw where s: "cut CHR ''.'' v = Some (seg, m)" "cl_decode (sr_cookies sv) m = Some (cl_hmac (sr_cookies sv) (sr_cookieKey sv) seg)"
    "cl_decode (sr_cookies sv) seg = Some raw" "cl_unmarshal (sr_cookies sv) raw = Some pl"
    using p by (auto simp: parseCookie_def split: option.splits prod.splits if_splits)
  then have "seg \<in> is_segment ` set iss" using u v unfolding unforged_def by blast
  then obtain x where x: "x \<in> set iss" "is_segment x = seg" by blast
  have "issued_ok lib hist (sr_cookies sv) now x" using ok x(1) by blast
  from issued_payload[OF this now] show ?thesis using s x by force
qed

lemma accepted_unique:
  assumes "accepted lib (sy_db (sys u)) a i x" "nl_uuid_Parse lib i \<noteq> None"
  shows "VerifyToken lib (sy_db (sys u)) a i x = Inr True"
proof -
  obtain i' x' where i: "i' @ nul # x' = i @ nul # x" "VerifyToken lib (sy_db (sys u)) a i' x' = Inr True"
    using assms(1) by (auto simp: accepted_def)
  then have "nl_uuid_Parse lib i' \<noteq> None" using TokenActive_parses(2) by blast
  then show ?thesis using uuid_split[OF i(1)] assms(2) i(2) by simp
qed

lemma viewer_shown:
  assumes site: "site_ok sv (hist_of sys) deps tok s" and now: "cw_now (st_worker s) \<le> max_int64"
    and r: "unforged sv (st_issued s) r" "plain_headers r" and app: "nl_uuid_Parse lib (ra_AppID ra) = Some app"
    and run: "authenticate sv en r ra (st_worker s) = (Inr p, w')" and kind: "pr_Kind p = ''viewer_token''"
  shows "\<not> isDraft ra \<and> checkCSRF r = None \<and>
    (\<exists>tk. nl_uuid_Parse lib (pr_ID p) = Some tk \<and> (app, tk) \<notin> set (sy_revoked (sys (cw_now w' - 45 * second))) \<and>
      (\<exists>x \<in> set (st_issued s). is_AppID x = ra_AppID ra \<and> is_TokenID x = pr_ID p \<and>
        is_at x \<le> cw_now (st_worker s) \<and> cw_now (st_worker s) < is_at x + sessionCookieTTL \<and>
        (\<exists>u. is_at x - 45 * second < u \<and> u \<le> is_at x \<and> (app, tk, is_secret x) \<in> set (sy_minted (sys u)))))"
proof -
  let ?w = "st_worker s"
  have ok: "client_ok lib (hist_of sys) deps tok ?w" and iss: "\<forall>x \<in> set (st_issued s). issued_ok lib (hist_of sys) (sr_cookies sv) (cw_now ?w) x"
    using site sr_lib by (simp_all add: site_ok_def)
  have parses: "nl_uuid_Parse lib (ra_AppID ra) \<noteq> None" using app by simp
  have "authenticatePlatform sv en r ra ?w = (Inr p, w') \<or> authenticateCookie sv en r ra ?w = (Inr p, w') \<and> \<not> isDraft ra"
    using run by (auto simp: authenticate_def Let_def split: if_splits prod.splits)
  then have run: "authenticateCookie sv en r ra ?w = (Inr p, w')" and prod: "\<not> isDraft ra"
    using platform_effect[OF ok r(2)] kind by force+
  obtain v pl t where c: "checkCSRF r = None" "map_of (rq_Cookies r) ''datuplet_app_session'' = Some v"
    "parseCookie (sr_cookies sv) (sr_cookieKey sv) v = Inr pl" "cp_AppID pl = ra_AppID ra" "cp_TokenID pl = pr_ID p" "cw_now ?w < cp_Exp pl * second"
    and t: "cw_now w' - 45 * second < t" "TokenActive lib (sy_db (sys t)) (ra_AppID ra) (pr_ID p) = Inr True"
    using cookie_effect[OF ok parses run] by (auto simp: hist_of_def)
  obtain x where x: "x \<in> set (st_issued s)" "ra_AppID ra = repair (is_AppID x)" "pr_ID p = repair (is_TokenID x)"
    "cp_Exp pl = (is_at x + sessionCookieTTL) div second"
    using cookie_origin[OF c(3) map_of_SomeD[OF c(2)] r(1) iss now] c(4,5) by auto
  obtain tk where tk: "nl_uuid_Parse lib (pr_ID p) = Some tk" "(app, tk) \<notin> set (sy_revoked (sys t))"
    using active_is_unrevoked[OF tokens_ok_at t(2)] app by auto
  have same: "is_AppID x = ra_AppID ra" "is_TokenID x = pr_ID p" using repaired app tk(1) x(2,3) by metis+
  have "(app, tk) \<notin> set (sy_revoked (sys (cw_now w' - 45 * second)))" using revoked_stays[OF later] tk(2) t(1) by (meson less_imp_le)
  moreover have "cw_now ?w < is_at x + sessionCookieTTL"
    using c(6) x(4) by (simp add: second_def)
  moreover obtain u where u: "is_at x - 45 * second < u" "u \<le> is_at x" "accepted lib (sy_db (sys u)) (ra_AppID ra) (pr_ID p) (is_secret x)"
    and at: "is_at x \<le> cw_now ?w" using iss x(1) same by (auto simp: issued_ok_def hist_of_def)
  have "VerifyToken lib (sy_db (sys u)) (ra_AppID ra) (pr_ID p) (is_secret x) = Inr True"
    by (rule accepted_unique[OF u(3)]) (simp add: tk(1))
  then have "(app, tk, is_secret x) \<in> set (sy_minted (sys u))"
    using verified_is_minted[OF tokens_ok_at sha_inj] app tk(1) by fastforce
  ultimately show ?thesis using prod c(1) tk(1) x(1) same u(1,2) at by blast
qed

text \<open>What is sealed in a cookie comes out of it.\<close>

lemma parse_sign:
  assumes "repair a = a" "repair i = i" "a \<noteq> []" "i \<noteq> []" "0 < e div second" "e div second \<le> max_int64"
  shows "parseCookie (sr_cookies sv) k (signCookie (sr_cookies sv) k a i e) =
    Inr \<lparr>cp_AppID = a, cp_TokenID = i, cp_Exp = e div second\<rparr>"
proof -
  let ?p = "\<lparr>cp_AppID = a, cp_TokenID = i, cp_Exp = e div second\<rparr>"
  let ?s = "cl_encode (sr_cookies sv) (cl_marshal (sr_cookies sv) ?p)"
  let ?m = "cl_encode (sr_cookies sv) (cl_hmac (sr_cookies sv) k ?s)"
  have enc: "cl_decode (sr_cookies sv) (cl_encode (sr_cookies sv) y) = Some y" "CHR ''.'' \<notin> set (cl_encode (sr_cookies sv) y)"
    "y \<noteq> [] \<Longrightarrow> cl_encode (sr_cookies sv) y \<noteq> []" for y using cookies by (simp_all add: cookie_laws_def)
  have "cl_marshal (sr_cookies sv) ?p \<noteq> []" "cl_hmac (sr_cookies sv) k ?s \<noteq> []" using cookies by (simp_all add: cookie_laws_def)
  then have ne: "?s \<noteq> []" "?m \<noteq> []" using enc(3) by blast+
  have "- (2 ^ 63) \<le> cp_Exp ?p" "cp_Exp ?p \<le> max_int64" using assms(5,6) by simp_all
  then have "cl_unmarshal (sr_cookies sv) (cl_marshal (sr_cookies sv) ?p) = Some (?p\<lparr>cp_AppID := repair a, cp_TokenID := repair i\<rparr>)"
    using cookies unfolding cookie_laws_def by (metis cookie_payload.select_convs(1,2))
  then have un: "cl_unmarshal (sr_cookies sv) (cl_marshal (sr_cookies sv) ?p) = Some ?p" using assms(1,2) by simp
  have "signCookie (sr_cookies sv) k a i e = ?s @ CHR ''.'' # ?m" by (simp add: signCookie_def Let_def)
  then show ?thesis using enc ne un assms(3-5) by (simp add: parseCookie_def cut_first)
qed

lemma exchange_opens:
  assumes ok: "client_ok lib (hist_of sys) deps tok w" and app: "nl_uuid_Parse lib (ra_AppID ra) \<noteq> None"
    and token: "parseViewerToken raw = Some (i, x)"
    and budget: "fst (reserveVerifyAttempt (sr_rate sv) (resolveClientIP (sr_ip sv) (sr_trust sv) r) (ra_AppID ra) w) \<noteq> None"
    and live: "\<And>w1. cw_now w1 = cw_now w \<Longrightarrow> \<exists>v. fst (client_VerifyToken lib en (ra_AppID ra) i x w1) = Inr v"
    and valid: "\<And>t. cw_now w - 120 * second < t \<Longrightarrow> t \<le> cw_now w + 60 * second \<Longrightarrow>
      VerifyToken lib (hist_of sys t) (ra_AppID ra) i x = Inr True"
    and run: "exchangeViewerToken sv en r ra raw w = (resp, w')"
  shows "rp_Status resp = 302 \<and> rp_SetCookie resp = Some (issued_cookie sv ra i (cw_now w')) \<and> rp_Location resp = Some (tokenFreeTarget r) \<and>
    cw_now w' \<le> cw_now w + 60 * second"
proof -
  obtain b w1 where b: "reserveVerifyAttempt (sr_rate sv) (resolveClientIP (sr_ip sv) (sr_trust sv) r) (ra_AppID ra) w = (Some b, w1)"
    using budget by (cases "reserveVerifyAttempt (sr_rate sv) (resolveClientIP (sr_ip sv) (sr_trust sv) r) (ra_AppID ra) w") auto
  have w1: "cw_client w1 = cw_client w" "cw_now w1 = cw_now w" using reserveVerifyAttempt_client[OF b] by auto
  then have ok1: "client_ok lib (hist_of sys) deps tok w1" using client_ok_same[OF ok] by blast
  obtain v w2 where v: "client_VerifyToken lib en (ra_AppID ra) i x w1 = (Inr v, w2)"
    using live[OF w1(2)] by (cases "client_VerifyToken lib en (ra_AppID ra) i x w1") auto
  have "nl_uuid_Parse lib i \<noteq> None" using TokenActive_parses(2)[OF valid[of "cw_now w"]] second_pos by simp
  then have "v" using verify_recent[OF ok1 app v] valid w1(2) by fastforce
  moreover have "cw_now w2 \<le> cw_now w + 60 * second" using verify_recent[OF ok1 app v] w1(2) by simp
  ultimately show ?thesis using run b token v sr_lib by (auto simp: exchangeViewerToken_def)
qed

lemma cookie_opens:
  assumes ok: "client_ok lib (hist_of sys) deps tok w" and app: "nl_uuid_Parse lib (ra_AppID ra) \<noteq> None" "ra_AppID ra \<noteq> []" "i \<noteq> []"
    and utf8: "repair (ra_AppID ra) = ra_AppID ra" "repair i = i"
    and cookie: "map_of (rq_Cookies r) ''datuplet_app_session'' = Some (sc_Value (issued_cookie sv ra i at))"
    and at: "0 \<le> at" "at \<le> max_int64" "cw_now w \<le> at + sessionCookieTTL - second" and csrf: "checkCSRF r = None"
    and live: "\<exists>v. fst (CheckTokenActive lib en (ra_AppID ra) i w) = Inr v"
    and valid: "\<And>t. cw_now w - 45 * second < t \<Longrightarrow> t \<le> cw_now w + 30 * second \<Longrightarrow> TokenActive lib (hist_of sys t) (ra_AppID ra) i = Inr True"
  shows "fst (authenticateCookie sv en r ra w) = Inr \<lparr>pr_Kind = ''viewer_token'', pr_ID = i\<rparr>"
proof -
  let ?e = "(at + sessionCookieTTL) div second"
  have e: "0 < ?e" "?e \<le> max_int64" "cw_now w < ?e * second"
    using at by (simp_all add: sessionCookieTTL_def second_def max_int64_def)
  note p = parse_sign[OF utf8 app(2,3) e(1,2), of "sr_cookieKey sv"]
  have ne: "sc_Value (issued_cookie sv ra i at) \<noteq> []" by (simp add: issued_cookie_def signCookie_def Let_def)
  obtain v w1 where v: "CheckTokenActive lib en (ra_AppID ra) i w = (Inr v, w1)" using live by (cases "CheckTokenActive lib en (ra_AppID ra) i w") auto
  then have "v" using active_recent[OF ok app(1), of i] valid by (fastforce simp: answered_def says_active_iff)
  then show ?thesis using cookie p ne e(3) csrf v sr_lib by (simp add: authenticateCookie_def issued_cookie_def)
qed

end

end
