(* ===== verification/App_Safety.thy ===== *)
theory App_Safety
  imports App_History Run_Mirror_Facts
begin

text \<open>The properties of the app store, each at a concrete use of it.\<close>

section \<open>A concrete library and a concrete use\<close>

definition demo_app_lib :: app_lib where
  "demo_app_lib = \<lparr>nl_IsDNS1123Subdomain = (\<lambda>_. []), nl_Sum256 = (\<lambda>s. s), nl_uuid_String = uuid_text, nl_uuid_Parse = uuid_read,
     al_gzip = (\<lambda>s. s), al_gunzip = Some, al_base64_RawURL = (\<lambda>s. s)\<rparr>"

definition demo_projects :: "project_row list" where
  "demo_projects = [\<lparr>pj_ID = 7, pj_Name = ''p'', pj_K8sNamespace = ''datuplet-p'', pj_LakekeeperProjectID = ''lk''\<rparr>]"

definition demo_rows_created :: app_db where
  "demo_rows_created = empty_app_db\<lparr>db_apps :=
     [\<lparr>ar_ID = 4, ar_ProjectID = 7, ar_Name = ''dash'', ar_FGARegistered = False, ar_CreatedAt = 10\<rparr>]\<rparr>"

definition demo_rows_put :: app_db where
  "demo_rows_put = demo_rows_created\<lparr>
     db_versions := [\<lparr>av_ID = 5, av_AppID = 4, av_Hash = ''42'', av_Bundle = ''B'', av_SizeBytes = 1, av_CreatedAt = 20\<rparr>],
     db_channels := [\<lparr>ch_AppID = 4, ch_Channel = ''draft'', ch_VersionID = 5, ch_UpdatedAt = 20\<rparr>]\<rparr>"

definition demo_rows_promoted :: app_db where
  "demo_rows_promoted = demo_rows_put\<lparr>db_channels :=
     [\<lparr>ch_AppID = 4, ch_Channel = ''draft'', ch_VersionID = 5, ch_UpdatedAt = 20\<rparr>,
      \<lparr>ch_AppID = 4, ch_Channel = ''production'', ch_VersionID = 5, ch_UpdatedAt = 30\<rparr>]\<rparr>"

definition demo_rows_shared :: app_db where
  "demo_rows_shared = demo_rows_promoted\<lparr>db_tokens :=
     [\<lparr>tk_ID = 6, tk_AppID = 4, tk_Salt = ''NaCl'', tk_SecretHash = ''NaClxyz'', tk_CreatedAt = 40, tk_RevokedAt = None\<rparr>]\<rparr>"

definition demo_shared :: apps_sys where
  "demo_shared = fresh_store\<lparr>sy_db := demo_rows_shared, sy_ids := {6, 5, 4}, sy_promoted := [(4, [], ''42'')],
     sy_minted := [(4, 6, ''xyz'')]\<rparr>"

lemma demo_app_lib_text: "nl_uuid_Parse demo_app_lib (uuid_text 4) = Some 4" "nl_uuid_Parse demo_app_lib (uuid_text 6) = Some 6"
  by code_simp+

lemma demo_transactions:
  "snd (Store_Create demo_app_lib demo_projects 7 ''dash'' 4 10 empty_app_db) = demo_rows_created"
  "snd (PutVersion demo_app_lib demo_projects (uuid_text 4) ''B'' 5 20 demo_rows_created) = demo_rows_put"
  "promote_target demo_rows_put 4 ''42'' = Inr 5"
  "promote_swap 4 5 [] 30 demo_rows_put = (Inr (), demo_rows_promoted)"
  "MintToken demo_app_lib (uuid_text 4) ''xyz'' ''NaCl'' 6 40 demo_rows_promoted = (Inr (uuid_text 6, ''xyz''), demo_rows_shared)"
  by code_simp+

lemma demo_shared_reachable: "(apps_step demo_app_lib demo_projects retention)\<^sup>*\<^sup>* fresh_store demo_shared"
proof -
  let ?s1 = "fresh_store\<lparr>sy_db := demo_rows_created, sy_ids := {4}\<rparr>"
  let ?s2 = "fresh_store\<lparr>sy_db := demo_rows_put, sy_ids := {5, 4}\<rparr>"
  let ?s3 = "?s2\<lparr>sy_pending := [(4, 5, [])]\<rparr>"
  let ?s4 = "fresh_store\<lparr>sy_db := demo_rows_promoted, sy_ids := {5, 4}, sy_promoted := [(4, [], ''42'')]\<rparr>"
  have s1: "apps_step demo_app_lib demo_projects retention fresh_store ?s1"
    using apps_step.create[of 4 fresh_store demo_app_lib demo_projects retention 7 "''dash''" 10]
    by (simp add: fresh_store_def demo_transactions)
  have s2: "apps_step demo_app_lib demo_projects retention ?s1 ?s2"
    using apps_step.put[of 5 ?s1 demo_app_lib demo_projects retention "uuid_text 4" "''B''" 20]
    by (simp add: demo_transactions)
  have s3: "apps_step demo_app_lib demo_projects retention ?s2 ?s3"
    using apps_step.lookup[of ?s2 4 "''42''" 5 demo_app_lib demo_projects retention "[]"]
    by (simp add: demo_transactions fresh_store_def)
  have h: "target_hash demo_rows_promoted 5 = ''42''" by code_simp
  have s4: "apps_step demo_app_lib demo_projects retention ?s3 ?s4"
    using apps_step.swap[of 4 5 "[]" ?s3 30 "Inr ()" demo_rows_promoted demo_app_lib demo_projects retention]
    by (simp add: demo_transactions fresh_store_def h)
  have s5: "apps_step demo_app_lib demo_projects retention ?s4 demo_shared"
    using apps_step.mint[of 6 ?s4 demo_app_lib "uuid_text 4" "''xyz''" "''NaCl''" 40 "Inr (uuid_text 6, ''xyz'')" demo_rows_shared 4
      demo_projects retention]
    by (simp add: demo_transactions demo_app_lib_text demo_shared_def fresh_store_def)
  from s5 have "(apps_step demo_app_lib demo_projects retention)\<^sup>*\<^sup>* ?s4 demo_shared" by simp
  with s1 s2 s3 s4 show ?thesis by (meson converse_rtranclp_into_rtranclp)
qed

section \<open>The tables are consistent\<close>

text \<open>C12. In every state the transactions of the store lead to from empty tables, in any order and with promotions
  interrupted between their statements: identifiers and hashes are unique, every version belongs to an existing app and
  holds the compressed bundle of its hash and size, within 5 MB; every channel points at an existing version of its own
  app; no project stores more than 200 MB and no app more than twenty-two versions, twenty and one for each channel.\<close>

theorem app_store_consistent:
  assumes "(apps_step lib projects retention)\<^sup>*\<^sup>* fresh_store s"
  shows "tables_ok lib (sy_db s) \<and> quotas_ok (sy_db s)"
  using app_store.reachable_inv[OF refl assms] by (simp add: store_ok_def)

theorem app_store_consistent_witness:
  "tables_ok demo_app_lib (sy_db demo_shared) \<and> quotas_ok (sy_db demo_shared) \<and> length (db_versions (sy_db demo_shared)) = 1"
proof -
  have "length (db_versions (sy_db demo_shared)) = 1" by code_simp
  then show ?thesis using app_store_consistent[OF demo_shared_reachable[of 0]] by blast
qed

section \<open>Promotion is a compare-and-swap\<close>

text \<open>C11. However promotions of an app race with each other, with uploads and with the collection of old versions, the
  sequence of those that reported success replays without a gap: the first expected no production version, each later one
  expected the version the one before it had set, and the last one's version is what production points at now.\<close>

theorem promotions_have_no_gap:
  assumes "(apps_step lib projects retention)\<^sup>*\<^sup>* fresh_store s" "app \<in> ar_ID ` set (db_apps (sy_db s))"
  shows "rollout None (promotions (sy_promoted s) app) = Some (production (sy_db s) app)"
  using app_store.reachable_inv[OF refl assms(1)] assms(2) by (simp add: store_ok_def rollout_ok_def)

theorem promotions_have_no_gap_witness:
  "rollout None (promotions (sy_promoted demo_shared) 4) = Some (production (sy_db demo_shared) 4) \<and>
   promotions (sy_promoted demo_shared) 4 = [([], ''42'')] \<and> production (sy_db demo_shared) 4 = Some ''42''"
proof -
  have "4 \<in> ar_ID ` set (db_apps (sy_db demo_shared))" by code_simp
  then have "rollout None (promotions (sy_promoted demo_shared) 4) = Some (production (sy_db demo_shared) 4)"
    by (rule promotions_have_no_gap[OF demo_shared_reachable[of 0]])
  moreover have "promotions (sy_promoted demo_shared) 4 = [([], ''42'')]"
    by (simp add: promotions_def demo_shared_def)
  ultimately show ?thesis by (simp add: char_eq_def trim_right_def)
qed

section \<open>What a channel resolves to can be served\<close>

lemma hex_digit_not_blank: "n < 16 \<Longrightarrow> hex_digit n \<noteq> CHR '' ''"
proof
  assume n: "n < 16" and "hex_digit n = CHR '' ''"
  then have "(of_char (hex_digit n) :: nat) = of_char (CHR '' '')" by simp
  then show False using n by (simp add: hex_digit_def split: if_splits)
qed

lemma bundle_hash_no_blank: "trim_right CHR '' '' (bundle_hash lib raw) = bundle_hash lib raw"
proof -
  have "CHR '' '' \<notin> set (bundle_hash lib raw)"
  proof
    assume "CHR '' '' \<in> set (bundle_hash lib raw)"
    then obtain c :: char where "CHR '' '' = hex_digit (of_char c div 16) \<or> CHR '' '' = hex_digit (of_char c mod 16)"
      by (auto simp: bundle_hash_def hex_EncodeToString_def)
    moreover have "(of_char c :: nat) div 16 < 16" using nat_of_char_less_256[of c] by (simp add: less_mult_imp_div_less)
    ultimately show False using hex_digit_not_blank[of "of_char c div 16"] hex_digit_not_blank[of "of_char c mod 16"] by auto
  qed
  then have "\<not> (rev (bundle_hash lib raw) \<noteq> [] \<and> hd (rev (bundle_hash lib raw)) = CHR '' '')" by (metis list.set_sel(1) set_rev)
  then have "dropWhile (\<lambda>x. x = CHR '' '') (rev (bundle_hash lib raw)) = rev (bundle_hash lib raw)"
    by (cases "rev (bundle_hash lib raw)") auto
  then show ?thesis by (simp add: trim_right_def)
qed

text \<open>C17. Whenever a channel of an app resolves, the bundle of the hash it resolves to can be fetched, is at most 5 MB, and has
  that hash: uploads, promotions and the collection of old versions never leave a channel without its bundle.\<close>

theorem channel_serves_its_bundle:
  assumes "(apps_step lib projects retention)\<^sup>*\<^sup>* fresh_store s" "\<And>x. al_gunzip lib (al_gzip lib x) = Some x"
    and "Store_Resolve lib (sy_db s) project name channel = Inr r"
  shows "\<exists>raw. GetBundle lib (sy_db s) (rv_VersionHash r) = Inr raw \<and> bundle_hash lib raw = rv_VersionHash r \<and>
    int (length raw) \<le> MaxBundleBytes"
proof -
  have t: "tables_ok lib (sy_db s)" using app_store.reachable_inv[OF refl assms(1)] by (simp add: store_ok_def)
  obtain a where "find (\<lambda>a. ar_ProjectID a = project \<and> ar_Name a = name) (db_apps (sy_db s)) = Some a"
    using assms(3) by (cases "find (\<lambda>a. ar_ProjectID a = project \<and> ar_Name a = name) (db_apps (sy_db s))") (simp_all add: Store_Resolve_def)
  then obtain v where "pointed (sy_db s) (ar_ID a) channel = Some v" and h: "rv_VersionHash r = av_Hash v"
    using assms(3) by (cases "pointed (sy_db s) (ar_ID a) channel") (auto simp: Store_Resolve_def)
  then have v: "v \<in> set (db_versions (sy_db s))" using pointed_iff[OF t] by blast
  then have "\<exists>x. find (\<lambda>x. char_eq (av_Hash x) (rv_VersionHash r)) (db_versions (sy_db s)) = Some x"
    using h by (auto simp: find_None_iff char_eq_def simp flip: not_None_eq)
  then obtain x where x: "find (\<lambda>x. char_eq (av_Hash x) (rv_VersionHash r)) (db_versions (sy_db s)) = Some x" by blast
  then have xv: "x \<in> set (db_versions (sy_db s))" "char_eq (av_Hash x) (av_Hash v)" using h by (auto dest: find_SomeD)
  obtain raw where raw: "av_Hash x = bundle_hash lib raw" "av_Bundle x = al_gzip lib raw" "int (length raw) \<le> MaxBundleBytes"
    using tables_okD(6)[OF t xv(1)] by (auto simp: content_ok_def)
  obtain raw' where "av_Hash v = bundle_hash lib raw'" using tables_okD(6)[OF t v] by (auto simp: content_ok_def)
  then have "bundle_hash lib raw = rv_VersionHash r" using xv(2) raw(1) h bundle_hash_no_blank by (simp add: char_eq_def)
  moreover have "GetBundle lib (sy_db s) (rv_VersionHash r) = Inr raw" using x raw(2) assms(2) by (simp add: GetBundle_def)
  ultimately show ?thesis using raw(3) by blast
qed

theorem channel_serves_its_bundle_witness:
  "\<exists>raw. GetBundle demo_app_lib (sy_db demo_shared) ''42'' = Inr raw \<and> bundle_hash demo_app_lib raw = ''42'' \<and>
    int (length raw) \<le> MaxBundleBytes"
proof -
  let ?r = "\<lparr>rv_AppID = uuid_text 4, rv_VersionID = uuid_text 5, rv_VersionHash = ''42''\<rparr>"
  have "Store_Resolve demo_app_lib (sy_db demo_shared) 7 ''dash'' ''production'' = Inr ?r" by code_simp
  from channel_serves_its_bundle[OF demo_shared_reachable[of 0] _ this] show ?thesis by (simp add: demo_app_lib_def)
qed

section \<open>Viewer tokens\<close>

text \<open>C13. With SHA-256 free of collisions a viewer token is accepted for an app exactly if it was minted for that app, with
  that secret, the app still exists, and the token has not been revoked: no other app's token, no other secret and no
  revoked token ever passes, and nothing but revocation or the app's deletion ends a token.\<close>

theorem viewer_token_exact:
  assumes "(apps_step lib projects retention)\<^sup>*\<^sup>* fresh_store s" "inj (nl_Sum256 lib)"
  shows "VerifyToken lib (sy_db s) appID tokenID secret = Inr True \<longleftrightarrow>
    (\<exists>app i. with_ids lib appID tokenID Pair = Inr (app, i) \<and> (app, i, secret) \<in> set (sy_minted s) \<and>
       (app, i) \<notin> set (sy_revoked s) \<and> app \<in> ar_ID ` set (db_apps (sy_db s)))"
proof -
  have k: "tokens_ok lib s" using app_store.reachable_inv[OF refl assms(1)] by (simp add: store_ok_def)
  have one: "x = y" if "(app, i, x) \<in> set (sy_minted s)" "(app, i, y) \<in> set (sy_minted s)" for app i x y
    using tokens_okD(3)[OF k] that by (auto simp: distinct_map inj_on_def)
  have row: "(case find_token (sy_db s) app i of None \<Rightarrow> False
      | Some t \<Rightarrow> tk_RevokedAt t = None \<and> hashToken lib (tk_Salt t) secret = tk_SecretHash t) \<longleftrightarrow>
    (app, i, secret) \<in> set (sy_minted s) \<and> (app, i) \<notin> set (sy_revoked s) \<and> app \<in> ar_ID ` set (db_apps (sy_db s))" for app i
  proof (cases "find_token (sy_db s) app i")
    case None
    then have "\<not> (\<exists>t \<in> set (db_tokens (sy_db s)). tk_AppID t = app \<and> tk_ID t = i)" by (auto simp: find_token_def find_None_iff)
    then show ?thesis using None tokens_okD(4)[OF k, of app i secret] by auto
  next
    case (Some t)
    then have t: "t \<in> set (db_tokens (sy_db s))" "tk_AppID t = app" "tk_ID t = i" by (auto simp: find_token_def dest: find_SomeD)
    obtain x where x: "(app, i, x) \<in> set (sy_minted s)" "tk_SecretHash t = hashToken lib (tk_Salt t) x"
      and rest: "app \<in> ar_ID ` set (db_apps (sy_db s))" "tk_RevokedAt t = None \<longleftrightarrow> (app, i) \<notin> set (sy_revoked s)"
      using tokens_okD(2)[OF k t(1)] t by (auto simp: token_ok_def)
    have "hashToken lib (tk_Salt t) secret = tk_SecretHash t \<longleftrightarrow> secret = x"
      using x(2) assms(2) by (auto simp: hashToken_def dest: injD)
    then show ?thesis using Some rest x(1) one by auto
  qed
  show ?thesis using row by (auto simp: VerifyToken_def with_ids_def split: sum.splits)
qed

theorem viewer_token_exact_witness:
  "VerifyToken demo_app_lib (sy_db demo_shared) (uuid_text 4) (uuid_text 6) ''xyz'' = Inr True \<and>
   VerifyToken demo_app_lib (sy_db demo_shared) (uuid_text 4) (uuid_text 6) ''guess'' \<noteq> Inr True"
proof -
  have inj: "inj (nl_Sum256 demo_app_lib)" by (simp add: demo_app_lib_def inj_def)
  have p: "with_ids demo_app_lib (uuid_text 4) (uuid_text 6) Pair = Inr (4, 6)"
    by (simp add: with_ids_def parse_id_def demo_app_lib_text)
  have app: "4 \<in> ar_ID ` set (db_apps (sy_db demo_shared))" by code_simp
  have m: "sy_minted demo_shared = [(4, 6, ''xyz'')]" by (simp add: demo_shared_def)
  have r: "sy_revoked demo_shared = []" by (simp add: demo_shared_def fresh_store_def)
  note v = viewer_token_exact[OF demo_shared_reachable[of 0] inj, of "uuid_text 4" "uuid_text 6"]
  show ?thesis unfolding v using p app m r by simp
qed

section \<open>The ring of render logs\<close>

text \<open>Appending a render log leaves of the app's records exactly the newest two hundred of those within the retention
  period, the new one among the candidates; a record that goes for the count is no newer than any that stays; the
  records of other apps are untouched.\<close>

theorem render_log_ring:
  assumes "AppendRenderLog lib retention r now db = (Inr u, db')" "distinct (map rl_RequestID (db_logs db))"
    and ids: "nl_uuid_Parse lib (lr_AppID r) = Some app" "nl_uuid_Parse lib (lr_RequestID r) = Some i"
  defines "cand \<equiv> {l \<in> insert (log_row i app r) (set (db_logs db)). rl_AppID l = app \<and> now - retention \<le> rl_StartedAt l}"
    and "kept \<equiv> {l \<in> set (db_logs db'). rl_AppID l = app}"
  shows "kept \<subseteq> cand \<and> card kept = min MaxRenderLogsPerApp (card cand) \<and>
    (\<forall>x \<in> kept. \<forall>y \<in> cand - kept. rl_StartedAt y \<le> rl_StartedAt x) \<and>
    {l \<in> set (db_logs db'). rl_AppID l \<noteq> app} = {l \<in> set (db_logs db). rl_AppID l \<noteq> app}"
proof -
  let ?ls = "trim_by_age app (now - retention) (db_logs db @ [log_row i app r])"
  let ?mine = "filter (\<lambda>l. rl_AppID l = app) ?ls"
  let ?new = "newest rl_StartedAt MaxRenderLogsPerApp ?mine"
  have i: "i \<notin> rl_RequestID ` set (db_logs db)" and db': "db_logs db' = trim_by_count app ?ls"
    using assms(1) ids by (auto simp: AppendRenderLog_def parse_id_def split: if_splits)
  have "distinct (map rl_RequestID (db_logs db @ [log_row i app r]))" using assms(2) i by (simp add: log_row_def)
  then have d: "distinct (map rl_RequestID ?ls)" unfolding trim_by_age_def by (rule distinct_map_filter)
  then have inj: "inj_on rl_RequestID (set ?ls)" by (simp add: distinct_map)
  have app: "rl_AppID (log_row i app r) = app" by (simp add: log_row_def)
  have cand: "cand = set ?mine" by (auto simp: cand_def trim_by_age_def)
  have sub: "set ?new \<subseteq> set ?mine" by (rule set_newest)
  have kept: "kept = set ?new"
  proof
    show "kept \<subseteq> set ?new"
    proof
      fix l assume "l \<in> kept"
      then have l: "l \<in> set ?ls" "rl_AppID l = app" "rl_RequestID l \<in> rl_RequestID ` set ?new"
        by (auto simp: kept_def db' trim_by_count_def Let_def)
      then obtain x where "x \<in> set ?new" "rl_RequestID l = rl_RequestID x" by auto
      then show "l \<in> set ?new" using inj_onD[OF inj, of l x] l(1) sub by auto
    qed
    show "set ?new \<subseteq> kept" using sub by (auto simp: kept_def db' trim_by_count_def Let_def)
  qed
  have "distinct ?mine" using d by (simp add: distinct_map distinct_filter)
  then have "distinct ?new" by (simp add: newest_def)
  then have "card kept = min MaxRenderLogsPerApp (card cand)" using \<open>distinct ?mine\<close>
    unfolding kept cand distinct_card[OF \<open>distinct ?mine\<close>] distinct_card[OF \<open>distinct ?new\<close>] by simp
  moreover have "\<forall>x \<in> kept. \<forall>y \<in> cand - kept. rl_StartedAt y \<le> rl_StartedAt x"
    unfolding kept cand using newest_is_newer[of _ rl_StartedAt MaxRenderLogsPerApp ?mine] by blast
  moreover have "{l \<in> set (db_logs db'). rl_AppID l \<noteq> app} = {l \<in> set (db_logs db). rl_AppID l \<noteq> app}"
    using app by (auto simp: db' trim_by_count_def trim_by_age_def Let_def)
  ultimately show ?thesis using sub kept cand by blast
qed

definition demo_log :: log_record where
  "demo_log = \<lparr>lr_RequestID = uuid_text 9, lr_AppID = uuid_text 4, lr_VersionHash = ''42'', lr_Channel = ''production'',
     lr_PrincipalKind = ''viewer_token'', lr_PrincipalID = ''6'', lr_StartedAt = 50, lr_DurationMS = 4, lr_Outcome = ''ok'',
     lr_LogText = [], lr_Error = []\<rparr>"

theorem render_log_ring_witness:
  "{l \<in> set (db_logs (snd (AppendRenderLog demo_app_lib 100 demo_log 60 (sy_db demo_shared)))). rl_AppID l = 4} \<subseteq>
     {l \<in> insert (log_row 9 4 demo_log) (set (db_logs (sy_db demo_shared))). rl_AppID l = 4 \<and> 60 - 100 \<le> rl_StartedAt l} \<and>
   length (db_logs (snd (AppendRenderLog demo_app_lib 100 demo_log 60 (sy_db demo_shared)))) = 1"
proof -
  let ?db = "sy_db demo_shared"
  have "fst (AppendRenderLog demo_app_lib 100 demo_log 60 ?db) = Inr ()" by code_simp
  then have run: "AppendRenderLog demo_app_lib 100 demo_log 60 ?db = (Inr (), snd (AppendRenderLog demo_app_lib 100 demo_log 60 ?db))"
    by (metis prod.collapse)
  have "distinct (map rl_RequestID (db_logs ?db))" by code_simp
  moreover have "nl_uuid_Parse demo_app_lib (lr_AppID demo_log) = Some 4" "nl_uuid_Parse demo_app_lib (lr_RequestID demo_log) = Some 9"
    by code_simp+
  moreover have "length (db_logs (snd (AppendRenderLog demo_app_lib 100 demo_log 60 ?db))) = 1" by code_simp
  ultimately show ?thesis using render_log_ring[OF run, THEN conjunct1] by simp
qed

end
