(* ===== verification/Viewer_Safety.thy ===== *)
theory Viewer_Safety
  imports Viewer_Site App_Safety
begin

text \<open>
  Who may view an app, and that those who may can. The theorems speak of the app worker in front of the handlers of
  pipeline-api over any history of the app store, with calls that take time and fail; a concrete site instantiates them.
\<close>

section \<open>The assumptions\<close>

text \<open>The tables at each moment come from those at any earlier one by transactions of the store.\<close>

definition evolves :: "app_lib \<Rightarrow> project_row list \<Rightarrow> int \<Rightarrow> (time_ns \<Rightarrow> apps_sys) \<Rightarrow> bool" where
  "evolves lib projects retention sys \<longleftrightarrow> (\<forall>t. (apps_step lib projects retention)\<^sup>*\<^sup>* fresh_store (sys t)) \<and>
     (\<forall>t t'. t \<le> t' \<longrightarrow> (apps_step lib projects retention)\<^sup>*\<^sup>* (sys t) (sys t'))"

text \<open>What is relied on of \<open>uuid.Parse\<close>: before a NUL that it overlooks stands no UUID, and what it reads was not repaired.\<close>

definition uuid_laws :: "app_lib \<Rightarrow> (string \<Rightarrow> string) \<Rightarrow> bool" where
  "uuid_laws lib repair \<longleftrightarrow> (\<forall>i y u. nl_uuid_Parse lib (i @ nul # y) = Some u \<longrightarrow> nl_uuid_Parse lib i = None) \<and>
     (\<forall>i u. nl_uuid_Parse lib (repair i) = Some u \<longrightarrow> repair i = i)"

context viewer_store
begin

lemma served_api: "pipeline_api lib projects retention sys deps tok (served_env lib (hist_of sys) deps tok mint ask fate)"
  by (rule served.pipeline_api_axioms)

end

lemma viewer_site_served:
  assumes "inj (nl_Sum256 (sr_lib sv))" "uuid_laws (sr_lib sv) repair" "evolves (sr_lib sv) projects retention sys"
    "cookie_laws (sr_cookies sv) repair"
  shows "viewer_site (sr_lib sv) projects retention sys deps tok (served_env (sr_lib sv) (hist_of sys) deps tok mint ask fate) sv repair"
proof -
  have "viewer_store (sr_lib sv) projects retention sys"
    using assms(1,2,3) by unfold_locales (auto simp: uuid_laws_def evolves_def)
  then have "pipeline_api (sr_lib sv) projects retention sys deps tok (served_env (sr_lib sv) (hist_of sys) deps tok mint ask fate)"
    by (rule viewer_store.served_api)
  then show ?thesis
    by (rule viewer_site.intro) (use assms(2,4) in \<open>unfold_locales, auto simp: uuid_laws_def\<close>)
qed

section \<open>A concrete site\<close>

text \<open>The cookie: dots and percent signs are escaped, the parts of the payload separated by dots.\<close>

fun demo_encode :: "string \<Rightarrow> string" where
  "demo_encode [] = []"
| "demo_encode (c # s) = (if c = CHR ''.'' then ''%d'' else if c = CHR ''%'' then ''%p'' else [c]) @ demo_encode s"

fun demo_decode :: "string \<Rightarrow> string option" where
  "demo_decode [] = Some []"
| "demo_decode (c # s) =
     (if c = CHR ''%'' then
        (case s of
           [] \<Rightarrow> None
         | d # s' \<Rightarrow> map_option (Cons (if d = CHR ''d'' then CHR ''.'' else CHR ''%'')) (demo_decode s'))
      else map_option (Cons c) (demo_decode s))"

definition demo_marshal :: "cookie_payload \<Rightarrow> string" where
  "demo_marshal p = demo_encode (cp_AppID p) @ ''.'' @ demo_encode (cp_TokenID p) @ ''.'' @ fmt_d (cp_Exp p)"

definition demo_unmarshal :: "string \<Rightarrow> cookie_payload option" where
  "demo_unmarshal s =
     (case cut CHR ''.'' s of
        None \<Rightarrow> None
      | Some (a, s') \<Rightarrow>
          (case cut CHR ''.'' s' of
             None \<Rightarrow> None
           | Some (i, e) \<Rightarrow>
               (case (demo_decode a, demo_decode i, strconv_Atoi e) of
                  (Some a, Some i, Some e) \<Rightarrow> Some \<lparr>cp_AppID = a, cp_TokenID = i, cp_Exp = e\<rparr>
                | _ \<Rightarrow> None)))"

definition demo_cookies :: cookie_lib where
  "demo_cookies = \<lparr>cl_hmac = (\<lambda>k x. k @ CHR ''|'' # x), cl_encode = demo_encode, cl_decode = demo_decode, cl_marshal = demo_marshal,
     cl_unmarshal = demo_unmarshal\<rparr>"

lemma demo_encode_facts: "demo_decode (demo_encode s) = Some s" "CHR ''.'' \<notin> set (demo_encode s)" "s \<noteq> [] \<Longrightarrow> demo_encode s \<noteq> []"
  by (induction s) auto

lemma demo_cookie_laws: "cookie_laws demo_cookies (\<lambda>s. s)"
proof -
  have "demo_unmarshal (demo_marshal p) = Some p" if "- (2 ^ 63) \<le> cp_Exp p" "cp_Exp p \<le> max_int64" for p
    using that by (simp add: demo_marshal_def demo_unmarshal_def cut_first demo_encode_facts strconv_Atoi_fmt_d)
  then show ?thesis by (simp add: cookie_laws_def demo_cookies_def demo_encode_facts demo_marshal_def)
qed

text \<open>Buckets without refill, one trusted proxy.\<close>

definition demo_rate :: "(int, bool) rate_lib" where
  "demo_rate = \<lparr>lim_NewLimiter = (\<lambda>_ burst. burst), lim_ReserveN = (\<lambda>l _. (0 < l, l - 1)), lim_OK = (\<lambda>_. True),
     lim_DelayFrom = (\<lambda>r _. if r then 0 else second), lim_CancelAt = (\<lambda>_ _ l. l + 1)\<rparr>"

definition demo_ip :: ip_lib where
  "demo_ip = \<lparr>il_Parse = (\<lambda>s. if s \<noteq> [] \<and> list_all (\<lambda>c. is_digit c \<or> c = CHR ''.'') s then Some s else None),
     il_ParsePrefix = (\<lambda>_. None), il_SplitHostPort = (\<lambda>s. map_option fst (cut CHR '':'' s))\<rparr>"

definition demo_server :: "(int, bool) web_server" where
  "demo_server = \<lparr>sr_lib = demo_app_lib, sr_cookies = demo_cookies, sr_ip = demo_ip, sr_rate = demo_rate, sr_api = True, sr_cookieKey = ''key'',
     sr_trust = \<lparr>pt_CIDRs = parseTrustedProxies demo_ip ''10.0.0.1'', pt_Hops = 1\<rparr>\<rparr>"

text \<open>The app of \<open>demo_shared\<close> is created at the start of the clock and its viewer token revoked two hours later.\<close>

definition demo_revoked :: apps_sys where
  "demo_revoked = demo_shared\<lparr>sy_db := snd (RevokeToken demo_app_lib (uuid_text 4) (uuid_text 6) 90 demo_rows_shared), sy_revoked := [(4, 6)]\<rparr>"

definition demo_history :: "time_ns \<Rightarrow> apps_sys" where
  "demo_history t = (if t < 0 then fresh_store else if t < 7200 * second then demo_shared else demo_revoked)"

lemma demo_revoke: "apps_step demo_app_lib demo_projects retention demo_shared demo_revoked"
proof -
  have r: "RevokeToken demo_app_lib (uuid_text 4) (uuid_text 6) 90 (sy_db demo_shared) =
      (Inr (), snd (RevokeToken demo_app_lib (uuid_text 4) (uuid_text 6) 90 (sy_db demo_shared)))" by code_simp
  have "with_ids demo_app_lib (uuid_text 4) (uuid_text 6) Pair = Inr (4, 6)" by (simp add: with_ids_def parse_id_def demo_app_lib_text)
  from apps_step.revoke[OF r this] show ?thesis by (simp add: demo_revoked_def demo_shared_def fresh_store_def)
qed

lemma demo_evolves: "evolves demo_app_lib demo_projects 0 demo_history"
proof -
  let ?R = "(apps_step demo_app_lib demo_projects 0)\<^sup>*\<^sup>*"
  have a: "?R fresh_store demo_shared" by (rule demo_shared_reachable)
  have b: "?R demo_shared demo_revoked" using demo_revoke by blast
  have "?R fresh_store demo_revoked" using a b by simp
  then show ?thesis using a b by (auto simp: evolves_def demo_history_def)
qed

definition demo_deps :: "time_ns \<Rightarrow> session_deps" where
  "demo_deps t = \<lparr>sd_UserFor = (\<lambda>h. Inr (if h = [(''Authorization'', ''Bearer t'')] then Some 3 else None)),
     sd_LakekeeperProjectID = (\<lambda>_. Inr ''lk''), sd_Check = (\<lambda>_ _ _. Inr True)\<rparr>"

definition demo_api :: "(int, unit) worker_ext env" where
  "demo_api = served_env demo_app_lib (hist_of demo_history) demo_deps ''svc'' (\<lambda>_ _ _. Inr ''jwt'') (\<lambda>_ _ _ _. Inl []) (\<lambda>_. Delivered 4 5)"

lemma demo_laws: "inj (nl_Sum256 (sr_lib demo_server))" "uuid_laws (sr_lib demo_server) (\<lambda>s. s)"
  "evolves (sr_lib demo_server) demo_projects 0 demo_history" "cookie_laws (sr_cookies demo_server) (\<lambda>s. s)"
proof -
  have len: "length s = 36" if "uuid_read s = Some u" for s u
  proof -
    have "uuid_text (fold (\<lambda>c v. 16 * v + hex_val c) (filter (\<lambda>c. c \<noteq> CHR ''-'') s) 0) = s"
      using that by (simp add: uuid_read_def Let_def split: if_splits)
    moreover have "length (uuid_text v) = 36" for v by (simp add: uuid_text_def Let_def)
    ultimately show ?thesis by metis
  qed
  have "uuid_read i = None" if u: "uuid_read (i @ nul # y) = Some u" for i y u
  proof (cases "uuid_read i")
    case (Some v)
    then show ?thesis using len[OF u] len[OF Some] by simp
  qed
  then show "uuid_laws (sr_lib demo_server) (\<lambda>s. s)" by (simp add: uuid_laws_def demo_server_def demo_app_lib_def)
  show "inj (nl_Sum256 (sr_lib demo_server))" by (simp add: demo_server_def demo_app_lib_def inj_def)
qed (simp_all add: demo_server_def demo_evolves demo_cookie_laws)

interpretation demo_site: viewer_site demo_app_lib demo_projects 0 demo_history demo_deps "''svc''" demo_api demo_server "\<lambda>s. s"
  using viewer_site_served[OF demo_laws, of demo_deps "''svc''"] by (simp add: demo_server_def demo_api_def)

definition demo_ra :: resolved_app where
  "demo_ra = \<lparr>ra_ProjectID = uuid_text 7, ra_Name = ''dash'', ra_Channel = ''production'', ra_AppID = uuid_text 4, ra_VersionHash = ''42''\<rparr>"

definition demo_opening :: "int site" where
  "demo_opening = \<lparr>st_worker = \<lparr>cw_now = 1000 * second, cw_client = NewAPIClient (Some 9) (Some 9) (Some 9), wk_principalLimits = newLimiterRegistry 60 30,
     wk_appLimits = newLimiterRegistry 600 300, wk_verifyLimits = newLimiterRegistry 10 10, wk_inflight = [], wk_freeSlots = 4\<rparr>, st_issued = []\<rparr>"

definition demo_get :: "string \<Rightarrow> (string \<times> string list) list \<Rightarrow> (string \<times> string) list \<Rightarrow> http_req" where
  "demo_get token headers cookies = \<lparr>rq_Method = ''GET'', rq_Path = ''/apps/p/dash'', rq_EscapedPath = ''/apps/p/dash'', rq_RequestURI = ''/apps/p/dash'',
     rq_Query = None, rq_ValidQuery = [(''token'', [token])], rq_Headers = headers, rq_Cookies = cookies, rq_Host = ''h'', rq_TLS = True,
     rq_RemoteAddr = ''10.0.0.1:80'', rq_Body = []\<rparr>"

definition demo_link :: http_req where
  "demo_link = demo_get (''vw_'' @ uuid_text 6 @ ''.xyz'') [(''X-Forwarded-For'', [''1.2.3.4''])] []"

definition demo_answer :: http_resp where
  "demo_answer = fst (exchangeViewerToken demo_server demo_api demo_link demo_ra (''vw_'' @ uuid_text 6 @ ''.xyz'') (st_worker demo_opening))"

definition demo_entered :: "int site" where
  "demo_entered =
     (case exchangeViewerToken demo_server demo_api demo_link demo_ra (''vw_'' @ uuid_text 6 @ ''.xyz'') (st_worker demo_opening) of
        (resp, w) \<Rightarrow> \<lparr>st_worker = w, st_issued = handed_out demo_server demo_link demo_ra (Inl resp) w\<rparr>)"

definition demo_cookie :: set_cookie where
  "demo_cookie = issued_cookie demo_server demo_ra (uuid_text 6) (cw_now (st_worker demo_entered))"

definition demo_return :: http_req where
  "demo_return = demo_get [] [(''Cookie'', [''datuplet_app_session='' @ sc_Value demo_cookie])] [(sc_Name demo_cookie, sc_Value demo_cookie)]"

lemma demo_parse: "parseViewerToken (first_value (rq_ValidQuery demo_link) ''token'') = Some (uuid_text 6, ''xyz'')"
  "nl_uuid_Parse demo_app_lib (ra_AppID demo_ra) = Some 4" "ra_AppID demo_ra \<noteq> []"
  by code_simp+

lemma demo_budget: "fst (reserveVerifyAttempt (sr_rate demo_server) (resolveClientIP (sr_ip demo_server) (sr_trust demo_server) demo_link)
    (ra_AppID demo_ra) (st_worker demo_opening)) \<noteq> None"
  by (simp add: reserveVerifyAttempt_def reserve_def limiter_def sweep_idle_def limiterSweepThreshold_def newLimiterRegistry_def
      demo_server_def demo_rate_def demo_opening_def Let_def)

lemma demo_valid: "0 \<le> t \<Longrightarrow> t < 7200 * second \<Longrightarrow> VerifyToken demo_app_lib (sy_db (demo_history t)) (ra_AppID demo_ra) (uuid_text 6) ''xyz'' = Inr True"
proof -
  have "VerifyToken demo_app_lib (sy_db demo_shared) (ra_AppID demo_ra) (uuid_text 6) ''xyz'' = Inr True" by code_simp
  then show "0 \<le> t \<Longrightarrow> t < 7200 * second \<Longrightarrow> ?thesis" by (simp add: demo_history_def)
qed

lemma demo_prompt: "prompt (\<lambda>_. Delivered 4 5)"
  by (simp add: prompt_def defaultHTTPTimeout_def second_def)

lemma demo_link_token: "first_value (rq_ValidQuery demo_link) ''token'' = ''vw_'' @ uuid_text 6 @ ''.xyz''"
  by (simp add: demo_link_def demo_get_def first_value_def values_of_def)

lemma demo_opens: "site_opens demo_opening" "cw_now (st_worker demo_opening) = 1000 * second"
  "client_ok demo_app_lib (hist_of demo_history) demo_deps ''svc'' (st_worker demo_opening)"
proof -
  have "cw_client (st_worker demo_opening) = NewAPIClient (Some 9) (Some 9) (Some 9)" by (simp add: demo_opening_def)
  then show "client_ok demo_app_lib (hist_of demo_history) demo_deps ''svc'' (st_worker demo_opening)" by (rule demo_site.client_ok_new)
qed (auto simp: site_opens_def demo_opening_def second_def)

lemma demo_server_simps [simp]: "sr_lib demo_server = demo_app_lib" "sr_cookies demo_server = demo_cookies" "sr_api demo_server"
  "sr_cookieKey demo_server = ''key''" "isDraft demo_ra \<longleftrightarrow> False"
  by (simp_all add: demo_server_def demo_ra_def isDraft_def)

lemma demo_exchange:
  "authenticate demo_server demo_api demo_link demo_ra (st_worker demo_opening) = (Inl demo_answer, st_worker demo_entered)"
  "st_issued demo_entered = handed_out demo_server demo_link demo_ra (Inl demo_answer) (st_worker demo_entered)"
  by (simp_all add: authenticate_def demo_link_token demo_answer_def demo_entered_def Let_def split: prod.splits)

lemma demo_entering: "rp_SetCookie demo_answer = Some demo_cookie" "1000 * second \<le> cw_now (st_worker demo_entered)"
  "cw_now (st_worker demo_entered) \<le> 1060 * second"
proof -
  have app: "nl_uuid_Parse demo_app_lib (ra_AppID demo_ra) \<noteq> None" using demo_parse(2) by simp
  have run: "exchangeViewerToken demo_server demo_api demo_link demo_ra (first_value (rq_ValidQuery demo_link) ''token'') (st_worker demo_opening) =
      (demo_answer, st_worker demo_entered)" unfolding demo_link_token by (simp add: demo_answer_def demo_entered_def split: prod.splits)
  have "\<exists>v. fst (client_VerifyToken demo_app_lib demo_api (ra_AppID demo_ra) (uuid_text 6) ''xyz'' w) = Inr v"
    if "cw_now w = cw_now (st_worker demo_opening)" for w :: "int worker" unfolding demo_api_def
    by (rule verify_prompt[OF demo_prompt]) (use demo_valid that demo_opens(2) in \<open>auto simp: hist_of_def second_def\<close>)
  moreover have "VerifyToken demo_app_lib (hist_of demo_history t) (ra_AppID demo_ra) (uuid_text 6) ''xyz'' = Inr True"
    if "cw_now (st_worker demo_opening) - 120 * second < t" "t \<le> cw_now (st_worker demo_opening) + 60 * second" for t
    using demo_valid[of t] that demo_opens(2) by (simp add: hist_of_def second_def)
  ultimately have "rp_SetCookie demo_answer = Some demo_cookie \<and> cw_now (st_worker demo_entered) \<le> cw_now (st_worker demo_opening) + 60 * second"
    using demo_site.exchange_opens[OF demo_opens(3) app demo_parse(1) demo_budget _ _ run] unfolding demo_cookie_def by blast
  moreover have "cw_now (st_worker demo_opening) \<le> cw_now (st_worker demo_entered)"
    using demo_site.exchange_effect[OF demo_opens(3) app run] by blast
  ultimately show "rp_SetCookie demo_answer = Some demo_cookie" "1000 * second \<le> cw_now (st_worker demo_entered)"
    "cw_now (st_worker demo_entered) \<le> 1060 * second" using demo_opens(2) by (simp_all add: second_def)
qed

lemma demo_no_nul: "nul \<in> set (demo_encode s) \<longleftrightarrow> nul \<in> set s" "nul \<notin> set (fmt_d e)" "nul \<notin> set (uuid_text 4)" "nul \<notin> set (uuid_text 6)"
proof -
  show "nul \<in> set (demo_encode s) \<longleftrightarrow> nul \<in> set s" by (induction s) (auto simp: nul_def)
  have "nul \<notin> set (nat_str n)" for n using nat_str_digits[of n] by (auto simp: list_all_iff nul_def is_digit_def)
  then show "nul \<notin> set (fmt_d e)" by (simp add: fmt_d_def nul_def)
  show "nul \<notin> set (uuid_text 4)" "nul \<notin> set (uuid_text 6)" by code_simp+
qed

lemma demo_requests: "unforged demo_server [] demo_link" "plain_headers demo_link" "plain_headers demo_return"
  "unforged demo_server (st_issued demo_entered) demo_return" "checkCSRF demo_return = None" "rq_Cookies demo_return = [(sc_Name demo_cookie, sc_Value demo_cookie)]"
  "first_value (rq_ValidQuery demo_return) ''token'' = []" "first_value (rq_Headers demo_return) ''Authorization'' = []"
proof -
  show "unforged demo_server [] demo_link" by (simp add: unforged_def demo_link_def demo_get_def)
  show "plain_headers demo_link" by (simp add: plain_headers_def demo_link_def demo_get_def first_value_def values_of_def)
  show "checkCSRF demo_return = None" "rq_Cookies demo_return = [(sc_Name demo_cookie, sc_Value demo_cookie)]"
    "first_value (rq_ValidQuery demo_return) ''token'' = []" "first_value (rq_Headers demo_return) ''Authorization'' = []"
    by (simp_all add: demo_return_def demo_get_def checkCSRF_def first_value_def values_of_def Let_def)
  let ?seg = "cookie_segment demo_cookies (uuid_text 4) (uuid_text 6) (cw_now (st_worker demo_entered))"
  have v: "sc_Value demo_cookie = ?seg @ CHR ''.'' # demo_encode (cl_hmac demo_cookies ''key'' ?seg)"
    by (simp add: demo_cookie_def issued_cookie_def signCookie_def cookie_segment_def demo_ra_def Let_def) (simp add: demo_cookies_def)
  have seg: "CHR ''.'' \<notin> set ?seg" by (simp add: cookie_segment_def demo_cookies_def demo_encode_facts)
  have "is_segment ` set (st_issued demo_entered) = {?seg}"
    using demo_exchange(2) demo_parse(1) demo_entering(1) seg by (simp add: handed_out_def v takeWhile_append)
  then show "unforged demo_server (st_issued demo_entered) demo_return"
    by (auto simp: unforged_def demo_return_def demo_get_def v cut_first[OF seg])
  have "nul \<notin> set (sc_Value demo_cookie)"
    by (simp add: v cookie_segment_def demo_cookies_def demo_marshal_def demo_no_nul) (simp add: nul_def)
  then show "plain_headers demo_return"
    by (simp add: plain_headers_def demo_return_def demo_get_def first_value_def values_of_def nul_def)
qed

lemma demo_entered_site: "\<lparr>st_worker = st_worker demo_entered, st_issued = st_issued demo_opening @ handed_out demo_server demo_link demo_ra
    (Inl demo_answer) (st_worker demo_entered)\<rparr> = demo_entered"
  using demo_exchange(2) by (cases demo_entered) (simp add: demo_opening_def)

lemma demo_api_served: "demo_api = served_env (sr_lib demo_server) (hist_of demo_history) demo_deps ''svc'' (\<lambda>_ _ _. Inr ''jwt'') (\<lambda>_ _ _ _. Inl [])
    (\<lambda>_. Delivered 4 5)"
  by (simp add: demo_api_def)

lemma demo_step: "site_step demo_server demo_api demo_opening demo_entered"
  using site_step.request[of demo_server demo_opening demo_link demo_ra demo_api] demo_requests(1,2) demo_parse(2) demo_exchange(1)
    demo_entered_site by (simp add: demo_opening_def)

lemma demo_returning: "fst (authenticate demo_server demo_api demo_return demo_ra (st_worker demo_entered)) =
    Inr \<lparr>pr_Kind = ''viewer_token'', pr_ID = uuid_text 6\<rparr>"
proof -
  let ?w = "st_worker demo_entered"
  have "site_ok demo_server (hist_of demo_history) demo_deps ''svc'' demo_entered"
    by (rule demo_site.site_reachable[OF demo_opens(1)]) (use demo_step in blast)
  then have ok: "client_ok demo_app_lib (hist_of demo_history) demo_deps ''svc'' ?w" by (simp add: site_ok_def)
  have active: "TokenActive demo_app_lib (hist_of demo_history t) (ra_AppID demo_ra) (uuid_text 6) = Inr True"
    if "cw_now ?w - 45 * second < t" "t \<le> cw_now ?w + 30 * second" for t
    using demo_valid[of t] that demo_entering(2,3) verified_is_active by (simp add: hist_of_def second_def)
  have "fst (authenticateCookie demo_server demo_api demo_return demo_ra ?w) = Inr \<lparr>pr_Kind = ''viewer_token'', pr_ID = uuid_text 6\<rparr>"
  proof (rule demo_site.cookie_opens[OF ok _ demo_parse(3)])
    show "map_of (rq_Cookies demo_return) ''datuplet_app_session'' = Some (sc_Value (issued_cookie demo_server demo_ra (uuid_text 6) (cw_now ?w)))"
      unfolding demo_requests(6) by (simp add: demo_cookie_def issued_cookie_def)
    show "\<exists>v. fst (CheckTokenActive demo_app_lib demo_api (ra_AppID demo_ra) (uuid_text 6) ?w) = Inr v" unfolding demo_api_def
      by (rule active_prompt[OF demo_prompt]) (use active second_pos in simp)
    show "uuid_text 6 \<noteq> []" by code_simp
  qed (use demo_parse(2) demo_entering(2,3) demo_requests(5) active in
      \<open>simp_all add: second_def max_int64_def sessionCookieTTL_def\<close>)
  then show ?thesis using demo_requests(7,8) by (simp add: authenticate_def Let_def)
qed

section \<open>Viewers\<close>

text \<open>C14. Whatever requests reached the worker before, in any order, with calls to pipeline-api delayed, failed and cached:
  a request served as a viewer is for the production channel, passed the CSRF check and carries a cookie that was
  issued less than 24 hours ago for this app and token in exchange for the very secret that was minted with the token; and
  the token was not revoked 45 seconds before the request is let through.\<close>

theorem viewer_presented_secret:
  assumes "inj (nl_Sum256 (sr_lib sv))" "uuid_laws (sr_lib sv) repair" "evolves (sr_lib sv) projects retention sys"
    "cookie_laws (sr_cookies sv) repair"
    and "site_opens s0" "(site_step sv (served_env (sr_lib sv) (hist_of sys) deps tok mint ask fate))\<^sup>*\<^sup>* s0 s"
    and "cw_now (st_worker s) \<le> max_int64" "unforged sv (st_issued s) r" "plain_headers r" "nl_uuid_Parse (sr_lib sv) (ra_AppID ra) = Some app"
    and "authenticate sv (served_env (sr_lib sv) (hist_of sys) deps tok mint ask fate) r ra (st_worker s) = (Inr p, w')"
      "pr_Kind p = ''viewer_token''"
  shows "\<not> isDraft ra \<and> checkCSRF r = None \<and>
    (\<exists>tk. nl_uuid_Parse (sr_lib sv) (pr_ID p) = Some tk \<and> (app, tk) \<notin> set (sy_revoked (sys (cw_now w' - 45 * second))) \<and>
      (\<exists>x \<in> set (st_issued s). is_AppID x = ra_AppID ra \<and> is_TokenID x = pr_ID p \<and>
        is_at x \<le> cw_now (st_worker s) \<and> cw_now (st_worker s) < is_at x + sessionCookieTTL \<and>
        (\<exists>u. is_at x - 45 * second < u \<and> u \<le> is_at x \<and> (app, tk, is_secret x) \<in> set (sy_minted (sys u)))))"
proof -
  note site = viewer_site_served[OF assms(1-4)]
  show ?thesis
    by (rule viewer_site.viewer_shown[OF site viewer_site.site_reachable[OF site assms(5,6)] assms(7-)])
qed

theorem viewer_presented_secret_witness:
  "\<exists>p w' x. authenticate demo_server demo_api demo_return demo_ra (st_worker demo_entered) = (Inr p, w') \<and>
    x \<in> set (st_issued demo_entered) \<and> is_TokenID x = pr_ID p \<and> (\<exists>u tk. (4, tk, is_secret x) \<in> set (sy_minted (demo_history u)))"
proof -
  obtain w' where run: "authenticate demo_server demo_api demo_return demo_ra (st_worker demo_entered) =
      (Inr \<lparr>pr_Kind = ''viewer_token'', pr_ID = uuid_text 6\<rparr>, w')" using demo_returning by (metis prod.collapse)
  have reach: "(site_step demo_server demo_api)\<^sup>*\<^sup>* demo_opening demo_entered" using demo_step by blast
  have now: "cw_now (st_worker demo_entered) \<le> max_int64" using demo_entering(3) by (simp add: second_def max_int64_def)
  have app: "nl_uuid_Parse (sr_lib demo_server) (ra_AppID demo_ra) = Some 4" using demo_parse(2) by simp
  show ?thesis
    using viewer_presented_secret[OF demo_laws demo_opens(1) reach[unfolded demo_api_served] now demo_requests(4,3) app
        run[unfolded demo_api_served]] run by fastforce
qed

section \<open>Members of the project\<close>

text \<open>pipeline-api resolves what the caller sent, never the credential of the worker.\<close>

lemma caller_credentials:
  "callerCredentialRequest (session_header tok c z) =
     (if z \<noteq> [] then [(''Authorization'', z)] else []) @ (if c \<noteq> [] then [(''Cookie'', c)] else [])"
  by (simp add: callerCredentialRequest_def session_header_def Header_Get_def Header_Set_def Header_Del_def
      ForwardedAuthorizationHeader_def assoc_del_def Let_def)

lemma identifies_member:
  assumes "identifies lib deps tok pid c z \<lparr>si_UserID = u, si_ProjectMember = True\<rparr> t"
  shows "\<exists>i user lk. nl_uuid_Parse lib pid = Some i \<and> sd_UserFor (deps t) (callerCredentialRequest (session_header tok c z)) = Inr (Some user) \<and>
    u = nl_uuid_String lib user \<and> sd_LakekeeperProjectID (deps t) i = Inr lk \<and> lk \<noteq> [] \<and>
    sd_Check (deps t) (Object_String (UserObject u)) relationRead (ProjectObject lk) = Inr True"
  using assms by (auto simp: identifies_def handleVerifySession_def readInternalJSON_def bad_request_def unavailable_def
      writeInternalError_def Let_def split: option.splits sum.splits if_splits)

text \<open>C16. Every other principal is a platform user, on the draft channel or with a non-empty Authorization header, whatever
  its scheme; without that header the request passed the CSRF check. At some moment of the last 45 seconds pipeline-api
  resolved the headers the request carries, Authorization and Cookie, and not the worker's own, to that user, and the authorizer allowed the user to read the project.\<close>

theorem platform_user_is_member:
  assumes "inj (nl_Sum256 (sr_lib sv))" "uuid_laws (sr_lib sv) repair" "evolves (sr_lib sv) projects retention sys"
    "cookie_laws (sr_cookies sv) repair"
    and "site_opens s0" "(site_step sv (served_env (sr_lib sv) (hist_of sys) deps tok mint ask fate))\<^sup>*\<^sup>* s0 s"
    and "plain_headers r" "nl_uuid_Parse (sr_lib sv) (ra_AppID ra) \<noteq> None"
    and "authenticate sv (served_env (sr_lib sv) (hist_of sys) deps tok mint ask fate) r ra (st_worker s) = (Inr p, w')"
      "pr_Kind p \<noteq> ''viewer_token''"
  defines "authz \<equiv> first_value (rq_Headers r) ''Authorization''" and "cookie \<equiv> first_value (rq_Headers r) ''Cookie''"
  shows "pr_Kind p = ''platform_user'' \<and> (isDraft ra \<or> authz \<noteq> []) \<and> (authz = [] \<longrightarrow> checkCSRF r = None) \<and>
    (\<exists>t pid user lk. cw_now w' - 45 * second < t \<and> t \<le> cw_now w' \<and> nl_uuid_Parse (sr_lib sv) (ra_ProjectID ra) = Some pid \<and>
      sd_UserFor (deps t) ((if authz \<noteq> [] then [(''Authorization'', authz)] else []) @ (if cookie \<noteq> [] then [(''Cookie'', cookie)] else []))
        = Inr (Some user) \<and> pr_ID p = nl_uuid_String (sr_lib sv) user \<and> sd_LakekeeperProjectID (deps t) pid = Inr lk \<and> lk \<noteq> [] \<and>
      sd_Check (deps t) (Object_String (UserObject (pr_ID p))) relationRead (ProjectObject lk) = Inr True)"
proof -
  note site = viewer_site_served[OF assms(1-4)]
  have "site_ok sv (hist_of sys) deps tok s" by (rule viewer_site.site_reachable[OF site assms(5,6)])
  then have ok: "client_ok (sr_lib sv) (hist_of sys) deps tok (st_worker s)" by (simp add: site_ok_def)
  let ?en = "served_env (sr_lib sv) (hist_of sys) deps tok mint ask fate"
  have "authenticatePlatform sv ?en r ra (st_worker s) = (Inr p, w') \<and> (isDraft ra \<or> authz \<noteq> []) \<or>
      authenticateCookie sv ?en r ra (st_worker s) = (Inr p, w')"
    using assms(9) by (auto simp: authenticate_def authz_def Let_def split: if_splits prod.splits)
  then have run: "authenticatePlatform sv ?en r ra (st_worker s) = (Inr p, w')" and ch: "isDraft ra \<or> authz \<noteq> []"
    using viewer_site.cookie_effect[OF site ok assms(8)] assms(10) by force+
  note e = viewer_site.platform_effect[OF site ok assms(7) run, folded authz_def cookie_def]
  then obtain t where t: "cw_now w' - 45 * second < t" "t \<le> cw_now w'"
    "identifies (sr_lib sv) deps tok (ra_ProjectID ra) cookie authz \<lparr>si_UserID = pr_ID p, si_ProjectMember = True\<rparr> t"
    by auto
  show ?thesis using e ch t(1,2) identifies_member[OF t(3)] unfolding caller_credentials by auto
qed

definition demo_call :: http_req where
  "demo_call = demo_get [] [(''Authorization'', [''Bearer t''])] []"

lemma demo_called: "fst (authenticate demo_server demo_api demo_call demo_ra (st_worker demo_opening)) =
    Inr \<lparr>pr_Kind = ''platform_user'', pr_ID = uuid_text 3\<rparr>"
proof -
  have "nl_uuid_Parse demo_app_lib (ra_ProjectID demo_ra) = Some 7" "uuid_text 3 \<noteq> []" "nl_uuid_String demo_app_lib 3 = uuid_text 3" by code_simp+
  then show ?thesis
    by (simp add: authenticate_def authenticatePlatform_def VerifySession_def demo_call_def demo_get_def first_value_def values_of_def
        demo_opening_def NewAPIClient_def cache_get_def demo_api_def served_env_def leading_def doSingleflight_def timed_call_def
        defaultHTTPTimeout_def second_def handleVerifySession_def readInternalJSON_def caller_credentials demo_deps_def doInternal_def
        on_client_def Let_def)
qed

theorem platform_user_is_member_witness:
  "\<exists>w'. authenticate demo_server demo_api demo_call demo_ra (st_worker demo_opening) = (Inr \<lparr>pr_Kind = ''platform_user'', pr_ID = uuid_text 3\<rparr>, w') \<and>
    (\<exists>t user. sd_UserFor (demo_deps t) [(''Authorization'', ''Bearer t'')] = Inr (Some user) \<and> uuid_text 3 = nl_uuid_String demo_app_lib user)"
proof -
  obtain w' where run: "authenticate demo_server demo_api demo_call demo_ra (st_worker demo_opening) =
      (Inr \<lparr>pr_Kind = ''platform_user'', pr_ID = uuid_text 3\<rparr>, w')" using demo_called by (metis prod.collapse)
  have plain: "plain_headers demo_call" and h: "first_value (rq_Headers demo_call) ''Authorization'' = ''Bearer t''"
    "first_value (rq_Headers demo_call) ''Cookie'' = []"
    by (simp_all add: plain_headers_def demo_call_def demo_get_def first_value_def values_of_def nul_def)
  have app: "nl_uuid_Parse (sr_lib demo_server) (ra_AppID demo_ra) \<noteq> None" using demo_parse(2) by simp
  show ?thesis
    using platform_user_is_member[OF demo_laws demo_opens(1) rtranclp.rtrancl_refl plain app run[unfolded demo_api_served]] run
    unfolding h by auto
qed

section \<open>A viewer gets in\<close>

text \<open>C15. While pipeline-api answers in time and the token is valid, from two minutes before to a minute after, presenting it
  within the rate limit on the production channel is answered by a redirect that sets the cookie and drops the token from
  the address; and a later request with that cookie for the same app, until a second before the 24 hours are over, that
  passes the CSRF check and has neither a token parameter nor an Authorization header, is let through as that viewer,
  whatever other requests come in between.\<close>

theorem viewer_gets_in:
  fixes sv :: "('l, 'r) web_server"
  assumes "inj (nl_Sum256 (sr_lib sv))" "uuid_laws (sr_lib sv) repair" "evolves (sr_lib sv) projects retention sys"
    "cookie_laws (sr_cookies sv) repair" "prompt fate"
    and "site_opens s0" "(site_step sv en)\<^sup>*\<^sup>* s0 s"
    and en: "en = served_env (sr_lib sv) (hist_of sys) deps tok mint ask fate"
    and on: "sr_api sv" "sr_cookieKey sv \<noteq> []" "\<not> isDraft ra" "ra_AppID ra \<noteq> []" "repair (ra_AppID ra) = ra_AppID ra" "repair i = i"
    and app: "nl_uuid_Parse (sr_lib sv) (ra_AppID ra) \<noteq> None"
    and r1: "parseViewerToken (first_value (rq_ValidQuery r1) ''token'') = Some (i, x)" "unforged sv (st_issued s) r1" "plain_headers r1"
      "fst (reserveVerifyAttempt (sr_rate sv) (resolveClientIP (sr_ip sv) (sr_trust sv) r1) (ra_AppID ra) (st_worker s)) \<noteq> None"
      "authenticate sv en r1 ra (st_worker s) = (Inl resp, w1)"
    and between: "(site_step sv en)\<^sup>*\<^sup>* \<lparr>st_worker = w1, st_issued = st_issued s @ handed_out sv r1 ra (Inl resp) w1\<rparr> s2"
    and r2: "case rp_SetCookie resp of None \<Rightarrow> True | Some c \<Rightarrow> map_of (rq_Cookies r2) (sc_Name c) = Some (sc_Value c)"
      "first_value (rq_ValidQuery r2) ''token'' = []" "first_value (rq_Headers r2) ''Authorization'' = []" "checkCSRF r2 = None"
    and time: "cw_now w1 \<le> max_int64" "cw_now (st_worker s2) \<le> cw_now w1 + sessionCookieTTL - second"
    and valid: "\<And>t. cw_now (st_worker s) - 120 * second < t \<Longrightarrow> t \<le> cw_now (st_worker s2) + 60 * second \<Longrightarrow>
      VerifyToken (sr_lib sv) (sy_db (sys t)) (ra_AppID ra) i x = Inr True"
  shows "rp_Status resp = 302 \<and> rp_Location resp = Some (tokenFreeTarget r1) \<and>
    (\<exists>c. rp_SetCookie resp = Some c \<and> sc_Path c = cookiePath ra \<and> sc_HttpOnly c \<and> sc_Secure c) \<and>
    fst (authenticate sv en r2 ra (st_worker s2)) = Inr \<lparr>pr_Kind = ''viewer_token'', pr_ID = i\<rparr>"
proof -
  note site = viewer_site_served[OF assms(1-4), of deps tok mint ask fate, folded en]
  have ok0: "site_ok sv (hist_of sys) deps tok s" by (rule viewer_site.site_reachable[OF site assms(6,7)])
  then have ok: "client_ok (sr_lib sv) (hist_of sys) deps tok (st_worker s)" "0 \<le> cw_now (st_worker s)" by (simp_all add: site_ok_def)
  let ?q = "first_value (rq_ValidQuery r1) ''token''" and ?s1 = "\<lparr>st_worker = w1, st_issued = st_issued s @ handed_out sv r1 ra (Inl resp) w1\<rparr>"
  have q: "?q \<noteq> []" "i \<noteq> []" "x \<noteq> []" using r1(1) by (auto simp: parseViewerToken_def strings_HasPrefix_def split: option.splits if_splits)
  have ex: "exchangeViewerToken sv en r1 ra ?q (st_worker s) = (resp, w1)"
    using r1(5) on q(1) by (auto simp: authenticate_def Let_def split: prod.splits)
  have step: "site_step sv en s ?s1" by (rule site_step.request[OF r1(2,3) app r1(5)])
  then have ok1: "site_ok sv (hist_of sys) deps tok ?s1" by (rule viewer_site.site_ok_step[OF site _ ok0])
  have later: "site_ok sv (hist_of sys) deps tok s2" "cw_now w1 \<le> cw_now (st_worker s2)"
    using viewer_site.site_later[OF site between ok1] by simp_all
  have first: "cw_now (st_worker s) \<le> cw_now w1" using viewer_site.site_later[OF site r_into_rtranclp[of "site_step sv en", OF step] ok0] by simp
  have open1: "rp_Status resp = 302 \<and> rp_SetCookie resp = Some (issued_cookie sv ra i (cw_now w1)) \<and> rp_Location resp = Some (tokenFreeTarget r1) \<and>
      cw_now w1 \<le> cw_now (st_worker s) + 60 * second"
  proof (rule viewer_site.exchange_opens[OF site ok(1) app r1(1,4) _ _ ex])
    fix w :: "'l worker" assume w: "cw_now w = cw_now (st_worker s)"
    show "\<exists>v. fst (client_VerifyToken (sr_lib sv) en (ra_AppID ra) i x w) = Inr v" unfolding en
      by (rule verify_prompt[OF assms(5) q(3)]) (use valid first later second_pos in \<open>simp add: w hist_of_def\<close>)
  qed (use valid first later in \<open>simp add: hist_of_def\<close>)
  have active: "TokenActive (sr_lib sv) (hist_of sys t) (ra_AppID ra) i = Inr True"
    if "cw_now (st_worker s2) - 45 * second < t" "t \<le> cw_now (st_worker s2) + 30 * second" for t
    using valid[of t] that first later(2) second_pos verified_is_active by (simp add: hist_of_def)
  have "fst (authenticateCookie sv en r2 ra (st_worker s2)) = Inr \<lparr>pr_Kind = ''viewer_token'', pr_ID = i\<rparr>"
  proof (rule viewer_site.cookie_opens[OF site _ app on(4) q(2) on(5,6) _ _ time r2(4)])
    show "client_ok (sr_lib sv) (hist_of sys) deps tok (st_worker s2)" using later(1) by (simp add: site_ok_def)
    show "map_of (rq_Cookies r2) ''datuplet_app_session'' = Some (sc_Value (issued_cookie sv ra i (cw_now w1)))"
      using r2(1) open1 by (simp add: issued_cookie_def)
    show "\<exists>v. fst (CheckTokenActive (sr_lib sv) en (ra_AppID ra) i (st_worker s2)) = Inr v" unfolding en
      by (rule active_prompt[OF assms(5)]) (use active second_pos in simp)
  qed (use ok(2) first active in simp_all)
  then show ?thesis using open1 on r2(2,3) by (simp add: authenticate_def Let_def issued_cookie_def)
qed

theorem viewer_gets_in_witness:
  "rp_Status demo_answer = 302 \<and> fst (authenticate demo_server demo_api demo_return demo_ra (st_worker demo_entered)) =
    Inr \<lparr>pr_Kind = ''viewer_token'', pr_ID = uuid_text 6\<rparr>"
proof -
  have reach: "(site_step demo_server demo_api)\<^sup>*\<^sup>* demo_opening demo_opening" by simp
  have key: "sr_api demo_server" "sr_cookieKey demo_server \<noteq> []" "\<not> isDraft demo_ra" by simp_all
  have app: "nl_uuid_Parse (sr_lib demo_server) (ra_AppID demo_ra) \<noteq> None" using demo_parse(2) by simp
  have r1: "unforged demo_server (st_issued demo_opening) demo_link" using demo_requests(1) by (simp add: demo_opening_def)
  have between: "(site_step demo_server demo_api)\<^sup>*\<^sup>* \<lparr>st_worker = st_worker demo_entered, st_issued = st_issued demo_opening @
      handed_out demo_server demo_link demo_ra (Inl demo_answer) (st_worker demo_entered)\<rparr> demo_entered" unfolding demo_entered_site by simp
  have r2: "case rp_SetCookie demo_answer of None \<Rightarrow> True | Some c \<Rightarrow> map_of (rq_Cookies demo_return) (sc_Name c) = Some (sc_Value c)"
    using demo_entering(1) demo_requests(6) by simp
  have now: "cw_now (st_worker demo_entered) \<le> max_int64"
    "cw_now (st_worker demo_entered) \<le> cw_now (st_worker demo_entered) + sessionCookieTTL - second"
    using demo_entering(3) by (simp_all add: second_def max_int64_def sessionCookieTTL_def)
  have valid: "VerifyToken (sr_lib demo_server) (sy_db (demo_history t)) (ra_AppID demo_ra) (uuid_text 6) ''xyz'' = Inr True"
    if "cw_now (st_worker demo_opening) - 120 * second < t" "t \<le> cw_now (st_worker demo_entered) + 60 * second" for t
    using demo_valid[of t] that demo_opens(2) demo_entering(3) by (simp add: second_def)
  show ?thesis
    using viewer_gets_in[OF demo_laws demo_prompt demo_opens(1) reach demo_api_served key demo_parse(3) refl refl app demo_parse(1) r1
        demo_requests(2) demo_budget demo_exchange(1) between r2 demo_requests(7,8,5) now valid] by blast
qed

section \<open>The client address\<close>

lemma select_client_prefix:
  assumes "select_client il tr ys = Some e"
  shows "select_client il tr (xs @ ys) = Some e"
proof -
  let ?P = "\<lambda>e. trust_Contains il tr (canonicalOrRaw il e)" and ?n = "nat (pt_Hops tr - 1)"
  obtain zs where z: "dropWhile ?P (drop ?n (rev ys)) = e # zs" using assms by (auto simp: select_client_def split: list.splits)
  then have "\<exists>x \<in> set (drop ?n (rev ys)). \<not> ?P x" by (metis dropWhile_eq_Nil_conv list.distinct(1))
  then have "dropWhile ?P (drop ?n (rev ys) @ us) = e # zs @ us" for us using z by (auto simp: dropWhile_append1)
  then show ?thesis by (simp add: select_client_def)
qed

text \<open>C39. The address a guess is counted under does not depend on the entries that a client puts in front of the forwarding
  chain, if its peer is no trusted proxy, whose chain is ignored, or if the rest of the chain names an address outside
  the trusted networks.\<close>

theorem client_address_not_chosen:
  assumes "rq_RemoteAddr r' = rq_RemoteAddr r" "forwarded_chain r' = xs @ forwarded_chain r"
    "\<not> trust_Contains il tr (peer_of il (rq_RemoteAddr r)) \<or> select_client il tr (forwarded_chain r) \<noteq> None"
  shows "resolveClientIP il tr r' = resolveClientIP il tr r"
  using assms select_client_prefix[of il tr "forwarded_chain r" _ xs] by (auto simp: resolveClientIP_def Let_def)

theorem client_address_not_chosen_witness:
  "resolveClientIP demo_ip (sr_trust demo_server) (demo_link\<lparr>rq_Headers := [(''X-Forwarded-For'', [''6.6.6.6, 1.2.3.4''])]\<rparr>) = ''1.2.3.4''"
proof -
  have "resolveClientIP demo_ip (sr_trust demo_server) (demo_link\<lparr>rq_Headers := [(''X-Forwarded-For'', [''6.6.6.6, 1.2.3.4''])]\<rparr>) =
      resolveClientIP demo_ip (sr_trust demo_server) demo_link"
    by (rule client_address_not_chosen[of _ _ "[''6.6.6.6'']"]) code_simp+
  also have "\<dots> = ''1.2.3.4''" by code_simp
  finally show ?thesis .
qed

end
