(* ===== verification/Spec2Isabelle.thy ===== *)
theory Spec2Isabelle
  imports Run_Secrets Gateway_Delivery Query_Params Storage_Paths Record_Delivery
    Token_Safety Run_Closing Viewer_Safety
begin

text \<open>
  \<^bold>\<open>Datuplet\<close> runs data pipelines on Kubernetes. A \<open>Pipeline\<close> is a list of stages of components; a \<open>PipelineRun\<close> is
  admitted, frozen and executed stage by stage by the operator (\<open>pkg/k8s/controllers\<close>), one Job per component.
  Beside every component runs a data gateway (\<open>pkg/datagateway\<close>), the only process with credentials: the component
  streams rows to it through the SDK (\<open>sdk/go\<close>), the gateway writes Parquet files into the lake and commits them to
  Iceberg tables. Around this core are an HTTP API (\<open>pkg/pipelineapi\<close>), a query worker (\<open>components/queryengine\<close>) and
  a CLI.

  \<^bold>\<open>What is modelled, theory by theory.\<close>

  \<^item> \<open>Prelude\<close>: Go strings as byte lists, the functions of \<open>strings\<close>, \<open>strconv\<close>, \<open>fmt\<close> and \<open>sort\<close> the code calls,
    64-bit wrap-around, and the locales \<open>invariant_system\<close> and \<open>monotone_system\<close> for step relations.
  \<^item> \<open>Secrets\<close> (\<open>pkg/lib/secrets\<close>), \<open>Exit_Status\<close> (\<open>pkg/lib/status\<close>), \<open>Api_Types\<close> (\<open>pkg/k8s/api/v1\<close>), \<open>Registry\<close> and
    \<open>Validation\<close> (\<open>pkg/pipeline/validate\<close>, \<open>resource_clamp.go\<close>), \<open>Job_Builder\<close> (\<open>pipelinerun_jobs.go\<close>): the pure part of
    the operator. A secret reference resolves exactly where it validates; a pipeline without error findings is
    well formed; stated resources pass the policy once clamped; a Job gives the secrets to the gateway alone.
  \<^item> \<open>Run_Controller\<close> (\<open>pipelinerun_controller.go\<close>, \<open>pipelinerun_status.go\<close>): \<open>Reconcile\<close> with every handler. One reconcile
    is a function of an arbitrary environment (the answers of the API server, the clock, restarts), of the run and of
    the controller's memory; it returns the new status, a trace of the calls made and the requeue decision. The
    step relation of \<open>Run_Lifecycle\<close> lets the environment choose anew at every reconcile, lose a status write and edit
    the pipeline. \<open>Run_Lifecycle\<close>, \<open>Run_Liveness\<close>, \<open>Run_Admission\<close>, \<open>Run_Stages\<close> and \<open>Run_Secrets\<close> show that stages run in
    order, that a run that is reported Succeeded is complete, that the admitted spec never changes, that terminal
    runs stay, that a healthy run with completing Jobs reaches Succeeded within three reconciles per stage, that admission
    errors are bounded, and that a started run's secret snapshot resolves every frozen configuration.
  \<^item> \<open>Partition\<close>, \<open>Table_Writer\<close>, \<open>Table_Writer_Facts\<close>, \<open>Writer_Admission\<close> (\<open>pkg/datagateway/goplane\<close>): splitting of
    batches by partition tuple, rotation, eviction and memory budget of the open files, and the protocol that
    admits concurrent writes and closes the writer once. A closed writer has stored exactly the accepted rows.
  \<^item> \<open>Iceberg_Commit\<close> (\<open>pkg/icebergjob\<close>, \<open>pkg/catalogwriter/retry.go\<close>): the commit with its idempotency key, conflict
    retries and write modes: exactly once, also when an answer is lost.
  \<^item> \<open>Commit_Pool\<close>, \<open>Gateway_Config\<close>, \<open>Gateway_Session\<close>, \<open>Gateway_Commit\<close>, \<open>Gateway_Delivery\<close> (\<open>pkg/datagateway\<close>): the
    bounded pool of commit goroutines, the configuration, and the session \<open>OpenWriter\<close>, \<open>WriteChunk\<close>, \<open>CloseWriter\<close>,
    \<open>Commit\<close> with cancellation. The locale \<open>table_plane\<close> states what the session relies on of the data plane; the table
    writer satisfies it (\<open>goplane\<close>). When a Commit is reported successful, the files every writer stored its rows
    in are those of a job the pool accepted and committed without an error; no writer is committed twice.
  \<^item> \<open>Arrow_Values\<close>, \<open>Arrow_Sink\<close>, \<open>Record_Sinks\<close>, \<open>Record_Sink_Facts\<close>, \<open>Record_Delivery\<close> (\<open>sdk/go/arrow\<close>): the sinks a
    component feeds its records to. The locales \<open>record_feed\<close> and \<open>record_sink\<close> state the contract; both sinks satisfy it.
  \<^item> \<open>Query_Params\<close> (\<open>components/queryengine/params.go\<close>) and \<open>Storage_Paths\<close> (\<open>pkg/pipelineapi/storage/paths.go\<close>): binding of
    query parameters against a reference lexer of the SQL text, and containment of storage paths.
  \<^item> \<open>Tokens\<close>, \<open>Token_Verifiers\<close>, \<open>Token_Safety\<close> (\<open>pkg/pipelineapi/tokens\<close>, \<open>pkg/datagateway/runtoken\<close> and \<open>jwks\<close>, the bearer
    resolver, the query worker's verifier, the app route): every minter and every verifier of platform tokens; the
    JWT library is the parameter \<open>jwt_lib\<close> with the laws \<open>jwt_laws\<close>, which a symbolic library satisfies. No token is
    accepted for another purpose, and a run token opens exactly its own run for its
    lifetime, if it names a project, a warehouse and the catalog.
  \<^item> \<open>Run_Store\<close>, \<open>Preview_Store\<close> (\<open>pkg/pipelineapi/store\<close>), \<open>Authz\<close> (\<open>pkg/pipelineapi/authz\<close>), \<open>Pipeline_Doc\<close>
    (\<open>pkg/pipeline/config\<close>): SQL statements as functions of the rows, the authorizer with the locales \<open>authorizer\<close>,
    \<open>certain_authorizer\<close> and \<open>fga_service\<close>, and the conversions of the pipeline
    document with what a trip through the resource keeps and when it panics.
  \<^item> \<open>Run_World\<close>, \<open>Run_Mirror\<close>, \<open>Run_Backend\<close>, \<open>Run_Reaper\<close> (\<open>pkg/pipelineapi/k8s\<close>, \<open>pkg/pipelineapi/runbackend\<close>): one world of
    database, cluster, authorization service and clock; every call may go through, fail, take effect and lose its
    answer, or be the last before a crash. On it: the observer with its coalescing cache, \<open>TriggerRun\<close> with the
    provisioning of the project namespace, \<open>CancelRun\<close> and the reaper. \<open>Run_Mirror_Facts\<close>, \<open>Run_Grants\<close>, \<open>Run_Platform\<close>, \<open>Run_Closing\<close> show that the observer writes only the
    row of the run it looks at, that coalescing changes only the bookkeeping columns, that every grant stays recorded in any interleaving, and
    what a sweep, a cancel and a reap do.
  \<^item> \<open>App_Tables\<close>, \<open>App_Store\<close> (\<open>pkg/pipelineapi/apps/store.go\<close>): the tables of the user apps and every method of their
    store. \<open>App_History\<close> runs the transactions in any order, with promotions interrupted between their look-up and
    their conditional update, and records what they reported; \<open>App_Store_Facts\<close> and \<open>App_Safety\<close> show that the tables stay
    consistent and within quota, that successful promotions form a gapless chain, that a channel that resolves can be
    served, that viewer tokens are accepted exactly until revoked, and what the ring of render logs keeps.
  \<^item> \<open>App_Internal\<close> (\<open>pkg/pipelineapi/apps/internal.go\<close>), \<open>Worker_Client\<close> (\<open>pkg/appworker/apiclient.go\<close>), \<open>Worker_Auth\<close>
    (\<open>auth.go\<close>, the trusted proxies of \<open>config.go\<close>): the handlers the app worker calls, its client with every cache and the
    single flights, and the authentication of viewers and platform users with cookie, CSRF check, client address and rate
    limits. What a call brings back, how long it takes and what other requests do meanwhile is up to an environment;
    \<open>Worker_Client_Facts\<close> states what the client relies on of it (the locales \<open>viewer_store\<close> and \<open>pipeline_api\<close>) and how old an
    answer can be, \<open>Worker_Served\<close> shows that the handlers behind calls that take time and fail satisfy it. \<open>Viewer_Site\<close> runs
    requests in any order and records the cookies issued (the locale \<open>viewer_site\<close>); \<open>Viewer_Safety\<close> shows that a viewer has
    presented the secret of an unrevoked token, that platform users are members, that a valid token lets its holder in, and
    under which conditions a client cannot choose the address it is counted under. HMAC, base64 and JSON of the cookie are the parameter
    \<open>cookie_lib\<close> with the laws \<open>cookie_laws\<close>; that no one without the key makes a valid MAC is the assumption \<open>unforged\<close>.

  \<^bold>\<open>Conventions.\<close> Go structs are records, enumerations datatypes, maps association lists, errors values (\<open>option\<close>, sums,
  error datatypes); a panic is None where the code can index, dereference or convert a document, and the end of the
  operation in \<open>Run_World\<close>. Strings are bytes. Integers that the
  code lets overflow wrap at 64 bits; counters of rows, bytes and retries are unbounded. Loops are structural or
  have a proved measure; no definition uses fuel. Clock, randomness, the Kubernetes API, object storage, the Parquet
  and IPC encoders, the Iceberg catalog and YAML and JSON printing are parameters or part of an environment that
  answers arbitrarily; laws are assumed of them only where a theorem names them.

  \<^bold>\<open>Not modelled.\<close> HTTP and gRPC framing, the author routes of the apps, the routing and rendering of the app worker, the CLI; the read path of the gateway;
  DuckDB and the query worker around the parameters; JSON Schema validation (a parameter of \<open>Validation\<close>); generated
  code and tests.
\<close>

end
